(* ===== verification/GoPrelude.thy ===== *)
theory GoPrelude
  imports Main "HOL-Library.Word" "HOL-Library.Sublist"
begin

text \<open>
  Shared vocabulary of the development: the error values of the Go code, the
  result type of a fallible operation, the functions of Go's packages
  strings and path/filepath that the program calls, and the generic lemmas on
  lists, prefixes and maps that several components use.

  A Go function returning (T, error) is modelled by a value of type
  goerror + 'a: Inl e is a non-nil error, Inr v is a nil error with the result
  v.  A run-time panic (index out of range, write to a nil map) is the error
  value Panic, so that it is a branch of the model like any other.
\<close>

section \<open>Errors and results\<close>

datatype goerror =
    Sentinel string
  | Errorf string
  | Service string
  | Panic string

type_synonym 'a result = "goerror + 'a"

definition is_ok :: "'a result \<Rightarrow> bool" where
  "is_ok r = (case r of Inl e \<Rightarrow> False | Inr v \<Rightarrow> True)"

definition is_panic :: "'a result \<Rightarrow> bool" where
  "is_panic r = (case r of Inl (Panic s) \<Rightarrow> True | _ \<Rightarrow> False)"

lemma is_ok_simps [simp]: "is_ok (Inr v)" "\<not> is_ok (Inl e)"
  by (simp_all add: is_ok_def)

lemma is_panic_simps [simp]:
  "\<not> is_panic (Inr v)" "is_panic (Inl (Panic s))" "\<not> is_panic (Inl (Errorf s))"
  "\<not> is_panic (Inl (Sentinel s))" "\<not> is_panic (Inl (Service s))"
  by (simp_all add: is_panic_def)

definition error_string :: "goerror \<Rightarrow> string" where
  "error_string e = (case e of Sentinel s \<Rightarrow> s | Errorf s \<Rightarrow> s | Service s \<Rightarrow> s | Panic s \<Rightarrow> s)"

type_synonym byte = "8 word"
type_synonym bytes = "byte list"

section \<open>Package strings\<close>

definition HasPrefix :: "string \<Rightarrow> string \<Rightarrow> bool" where
  "HasPrefix s p = prefix p s"

definition TrimPrefix :: "string \<Rightarrow> string \<Rightarrow> string" where
  "TrimPrefix s p = (if prefix p s then drop (length p) s else s)"

definition HasSuffix :: "string \<Rightarrow> string \<Rightarrow> bool" where
  "HasSuffix s p = suffix p s"

definition TrimSuffix :: "string \<Rightarrow> string \<Rightarrow> string" where
  "TrimSuffix s p = (if suffix p s then take (length s - length p) s else s)"

fun Contains :: "string \<Rightarrow> string \<Rightarrow> bool" where
  "Contains [] p = (p = [])"
| "Contains (c # s) p = (prefix p (c # s) \<or> Contains s p)"

fun SplitChar :: "char \<Rightarrow> string \<Rightarrow> string list" where
  "SplitChar d [] = [[]]"
| "SplitChar d (c # s) =
     (if c = d then [] # SplitChar d s
      else (case SplitChar d s of [] \<Rightarrow> [[c]] | w # ws \<Rightarrow> (c # w) # ws))"

fun JoinChar :: "char \<Rightarrow> string list \<Rightarrow> string" where
  "JoinChar d [] = []"
| "JoinChar d [w] = w"
| "JoinChar d (w # v # ws) = w @ d # JoinChar d (v # ws)"

lemma SplitChar_not_Nil [simp]: "SplitChar d s \<noteq> []"
  by (induction s) (auto split: list.splits)

lemma Join_Split [simp]: "JoinChar d (SplitChar d s) = s"
proof (induction s)
  case (Cons c s)
  then show ?case
  proof (cases "SplitChar d s")
    case Nil
    then show ?thesis by simp
  next
    case (Cons w ws)
    with Cons.IH show ?thesis by (cases ws) auto
  qed
qed simp

lemma SplitChar_no_sep: "d \<notin> set w \<Longrightarrow> SplitChar d w = [w]"
  by (induction w) auto

lemma SplitChar_append: "d \<notin> set w \<Longrightarrow> SplitChar d (w @ d # s) = w # SplitChar d s"
  by (induction w) auto

lemma Split_Join:
  "\<lbrakk>ws \<noteq> []; \<forall>w \<in> set ws. d \<notin> set w\<rbrakk> \<Longrightarrow> SplitChar d (JoinChar d ws) = ws"
proof (induction d ws rule: JoinChar.induct)
  case (3 d w v ws)
  then show ?case by (simp add: SplitChar_append)
qed (auto simp: SplitChar_no_sep)

text \<open>TrimSpace drops leading and trailing white space, the runes of unicode.IsSpace in
  their UTF-8 form.  The number of rounds is bounded by the length: every round drops a
  rune.\<close>

definition white_space :: "string list" where
  "white_space =
     [[CHR 0x09], [CHR 0x0A], [CHR 0x0B], [CHR 0x0C], [CHR 0x0D], [CHR 0x20],
      [CHR 0xC2, CHR 0x85], [CHR 0xC2, CHR 0xA0], [CHR 0xE1, CHR 0x9A, CHR 0x80],
      [CHR 0xE2, CHR 0x80, CHR 0x80], [CHR 0xE2, CHR 0x80, CHR 0x81], [CHR 0xE2, CHR 0x80, CHR 0x82],
      [CHR 0xE2, CHR 0x80, CHR 0x83], [CHR 0xE2, CHR 0x80, CHR 0x84], [CHR 0xE2, CHR 0x80, CHR 0x85],
      [CHR 0xE2, CHR 0x80, CHR 0x86], [CHR 0xE2, CHR 0x80, CHR 0x87], [CHR 0xE2, CHR 0x80, CHR 0x88],
      [CHR 0xE2, CHR 0x80, CHR 0x89], [CHR 0xE2, CHR 0x80, CHR 0x8A], [CHR 0xE2, CHR 0x80, CHR 0xA8],
      [CHR 0xE2, CHR 0x80, CHR 0xA9], [CHR 0xE2, CHR 0x80, CHR 0xAF], [CHR 0xE2, CHR 0x81, CHR 0x9F],
      [CHR 0xE3, CHR 0x80, CHR 0x80]]"

primrec trim_left :: "string list \<Rightarrow> nat \<Rightarrow> string \<Rightarrow> string" where
  "trim_left sp 0 s = s"
| "trim_left sp (Suc n) s =
     (case find (\<lambda>p. HasPrefix s p) sp of None \<Rightarrow> s | Some p \<Rightarrow> trim_left sp n (drop (length p) s))"

definition TrimSpace :: "string \<Rightarrow> string" where
  "TrimSpace s =
     (let t = trim_left white_space (length s) s in rev (trim_left (map rev white_space) (length t) (rev t)))"

section \<open>Package unicode/utf8\<close>

text \<open>The length of the rune at the beginning, or 0 if the first byte does not begin one.\<close>

definition cont_byte :: "string \<Rightarrow> nat \<Rightarrow> nat \<Rightarrow> nat \<Rightarrow> bool" where
  "cont_byte s i lo hi \<longleftrightarrow> i < length s \<and> lo \<le> of_char (s ! i) \<and> of_char (s ! i) \<le> hi"

definition rune_len :: "string \<Rightarrow> nat" where
  "rune_len s =
     (if s = [] then 0 else
      let b = of_char (hd s) :: nat; k = (\<lambda>i. cont_byte s i 0x80 0xBF) in
      if b < 0x80 then 1
      else if b < 0xC2 then 0
      else if b < 0xE0 then (if k 1 then 2 else 0)
      else if b < 0xF0 then
        (if cont_byte s 1 (if b = 0xE0 then 0xA0 else 0x80) (if b = 0xED then 0x9F else 0xBF) \<and> k 2 then 3 else 0)
      else if b < 0xF5 then
        (if cont_byte s 1 (if b = 0xF0 then 0x90 else 0x80) (if b = 0xF4 then 0x8F else 0xBF) \<and> k 2 \<and> k 3 then 4 else 0)
      else 0)"

lemma rune_len_le: "rune_len s \<le> length s"
  by (auto simp: rune_len_def cont_byte_def Let_def Suc_le_eq)

function valid_utf8 :: "string \<Rightarrow> bool" where
  "valid_utf8 s = (if s = [] then True else if rune_len s = 0 then False else valid_utf8 (drop (rune_len s) s))"
  by pat_completeness auto
termination by (relation "measure length") auto

declare valid_utf8.simps [simp del]

lemma cont_byte_append: "cont_byte s i lo hi \<Longrightarrow> cont_byte (s @ t) i lo hi"
  by (simp add: cont_byte_def nth_append)

lemma rune_len_append:
  assumes "0 < rune_len s"
  shows "rune_len (s @ t) = rune_len s"
proof -
  have "s \<noteq> []" using assms by (auto simp: rune_len_def)
  moreover have c: "cont_byte (s @ t) i lo hi" if "cont_byte s i lo hi" for i lo hi by (rule cont_byte_append [OF that])
  ultimately show ?thesis using assms unfolding rune_len_def Let_def
    by (simp only: hd_append2 append_is_Nil_conv simp_thms if_False split: if_split_asm) (simp_all only: c simp_thms if_True if_False)
qed

lemma valid_utf8_append: "\<lbrakk>valid_utf8 s; valid_utf8 t\<rbrakk> \<Longrightarrow> valid_utf8 (s @ t)"
proof (induction s rule: valid_utf8.induct)
  case (1 s)
  show ?case
  proof (cases "s = []")
    case False
    with 1 have r: "0 < rune_len s" "valid_utf8 (drop (rune_len s) s @ t)"
      by (auto simp: valid_utf8.simps [of s] split: if_splits)
    then show ?thesis using rune_len_append [OF r(1), of t] rune_len_le [of s] False by (subst valid_utf8.simps) simp
  qed (use 1 in simp)
qed

text \<open>ASCII texts: every part of one is one.\<close>

definition ascii :: "string \<Rightarrow> bool" where
  "ascii s \<longleftrightarrow> list_all (\<lambda>c. of_char c < (0x80 :: nat)) s"

lemma ascii_simps [simp]: "ascii []" "ascii (c # s) \<longleftrightarrow> of_char c < (0x80 :: nat) \<and> ascii s"
  "ascii (s @ t) \<longleftrightarrow> ascii s \<and> ascii t"
  by (simp_all add: ascii_def)

lemma ascii_drop: "ascii s \<Longrightarrow> ascii (drop n s)"
  using ascii_simps(3) [of "take n s" "drop n s"] by simp

lemma ascii_valid: "ascii s \<Longrightarrow> valid_utf8 s"
proof (induction s)
  case (Cons c s)
  then have "rune_len (c # s) = 1" by (simp add: rune_len_def)
  with Cons show ?case by (subst valid_utf8.simps) simp
qed (simp add: valid_utf8.simps)

lemma valid_utf8_Nil [simp]: "valid_utf8 []"
  by (simp add: valid_utf8.simps)

lemma TrimPrefix_append [simp]: "TrimPrefix (p @ s) p = s"
  by (simp add: TrimPrefix_def)

lemma TrimPrefix_Nil [simp]: "TrimPrefix s [] = s" "TrimPrefix [] p = []"
  by (simp_all add: TrimPrefix_def)

lemma HasPrefix_trim: "HasPrefix s p \<Longrightarrow> p @ TrimPrefix s p = s"
  by (auto simp: HasPrefix_def TrimPrefix_def prefix_def)

section \<open>Package strconv\<close>

definition digit :: "char \<Rightarrow> nat option" where
  "digit c = (let n = of_char c :: nat in if 48 \<le> n \<and> n \<le> 57 then Some (n - 48) else None)"

text \<open>The value of a string of decimal digits; an empty string has none.\<close>

definition parse_digits :: "string \<Rightarrow> nat option" where
  "parse_digits s =
     (if s = [] then None
      else foldl (\<lambda>acc c. case acc of None \<Rightarrow> None
                    | Some n \<Rightarrow> (case digit c of None \<Rightarrow> None | Some d \<Rightarrow> Some (10 * n + d))) (Some 0) s)"

text \<open>strconv.ParseInt(s, 10, 64): None stands for either of its errors.\<close>

definition ParseInt :: "string \<Rightarrow> int option" where
  "ParseInt s =
     (let (neg, ds) = (case s of c # cs \<Rightarrow> if c = CHR ''-'' then (True, cs) else if c = CHR ''+'' then (False, cs) else (False, s)
                       | [] \<Rightarrow> (False, [])) in
      case parse_digits ds of
        None \<Rightarrow> None
      | Some n \<Rightarrow>
          if neg then (if int n \<le> 2 ^ 63 then Some (- int n) else None)
          else (if int n < 2 ^ 63 then Some (int n) else None))"

lemma ParseInt_examples:
  "ParseInt ''42'' = Some 42" "ParseInt ''-7'' = Some (-7)" "ParseInt ''4x'' = None" "ParseInt [] = None" "ParseInt ''-'' = None"
  by (simp_all add: ParseInt_def parse_digits_def digit_def)

section \<open>Package path/filepath\<close>

text \<open>filepath.Clean, Dir, Base and Join on a Unix system.  Clean goes through
  the components with a stack: empty components and "." vanish, ".." removes
  the component before it.\<close>

definition clean_step :: "bool \<Rightarrow> string list \<Rightarrow> string \<Rightarrow> string list" where
  "clean_step rooted st c =
     (if c = [] \<or> c = ''.'' then st
      else if c = ''..'' then
        (if st \<noteq> [] \<and> last st \<noteq> ''..'' then butlast st
         else if rooted then st else st @ [c])
      else st @ [c])"

definition path_Clean :: "string \<Rightarrow> string" where
  "path_Clean p =
     (if p = [] then ''.'' else
      let rooted = (hd p = CHR ''/'');
          out = JoinChar (CHR ''/'') (foldl (clean_step rooted) [] (SplitChar (CHR ''/'') p))
      in if rooted then CHR ''/'' # out else if out = [] then ''.'' else out)"

definition strip_slashes :: "string \<Rightarrow> string" where
  "strip_slashes s = rev (dropWhile (\<lambda>c. c = CHR ''/'') (rev s))"

definition path_Base :: "string \<Rightarrow> string" where
  "path_Base p =
     (if p = [] then ''.'' else
      let q = strip_slashes p in
      if q = [] then ''/'' else rev (takeWhile (\<lambda>c. c \<noteq> CHR ''/'') (rev q)))"

definition path_Dir :: "string \<Rightarrow> string" where
  "path_Dir p = path_Clean (rev (dropWhile (\<lambda>c. c \<noteq> CHR ''/'') (rev p)))"

definition path_Join :: "string \<Rightarrow> string \<Rightarrow> string" where
  "path_Join p q =
     (if p = [] \<and> q = [] then [] else if p = [] then path_Clean q
      else if q = [] then path_Clean p else path_Clean (p @ ''/'' @ q))"

lemma path_examples:
  "path_Dir ''/a/b'' = ''/a''" "path_Dir ''/a'' = ''/''" "path_Dir ''abc'' = ''.''"
  "path_Base ''/a/b'' = ''b''" "path_Base ''/'' = ''/''" "path_Base ''/a'' = ''a''"
  "path_Clean ''/a//b/../c/'' = ''/a/c''" "path_Join ''/'' ''a'' = ''/a''"
  by (simp_all add: path_Dir_def path_Base_def strip_slashes_def path_Clean_def clean_step_def
      path_Join_def Let_def)

text \<open>A proper component name, and the absolute path of a list of them.\<close>

definition proper_name :: "string \<Rightarrow> bool" where
  "proper_name n = (n \<noteq> [] \<and> CHR ''/'' \<notin> set n \<and> n \<noteq> ''.'' \<and> n \<noteq> ''..'')"

definition abs_path :: "string list \<Rightarrow> string" where
  "abs_path cs = CHR ''/'' # JoinChar (CHR ''/'') cs"

lemma JoinChar_snoc: "cs \<noteq> [] \<Longrightarrow> JoinChar d (cs @ [n]) = JoinChar d cs @ d # n"
  by (induction d cs rule: JoinChar.induct) auto

lemma abs_path_simps [simp]:
  "abs_path [] = ''/''" "abs_path [n] = CHR ''/'' # n"
  "cs \<noteq> [] \<Longrightarrow> abs_path (cs @ [n]) = abs_path cs @ CHR ''/'' # n"
  by (simp_all add: abs_path_def JoinChar_snoc)

lemma foldl_clean_proper:
  "list_all proper_name cs \<Longrightarrow> foldl (clean_step r) st cs = st @ cs"
  by (induction cs arbitrary: st) (auto simp: clean_step_def proper_name_def)

lemma Split_abs_path:
  assumes "list_all proper_name cs"
  shows "filter (\<lambda>c. c \<noteq> []) (SplitChar (CHR ''/'') (abs_path cs)) = cs"
proof (cases "cs = []")
  case False
  from assms have f: "filter (\<lambda>c. c \<noteq> []) cs = cs"
    by (auto simp: list_all_iff proper_name_def filter_id_conv)
  from False assms show ?thesis
    by (simp add: abs_path_def Split_Join list_all_iff proper_name_def f)
qed simp

lemma foldl_clean_filter:
  "foldl (clean_step r) st cs = foldl (clean_step r) st (filter (\<lambda>c. c \<noteq> []) cs)"
  by (induction cs arbitrary: st) (auto simp: clean_step_def)

lemma SplitChar_snoc_sep: "SplitChar d (s @ [d]) = SplitChar d s @ [[]]"
  by (induction s) (auto split: list.splits)

lemma path_Clean_abs: "list_all proper_name cs \<Longrightarrow> path_Clean (abs_path cs) = abs_path cs"
  unfolding path_Clean_def
  by (subst foldl_clean_filter, subst Split_abs_path)
     (auto simp: foldl_clean_proper Let_def abs_path_def)

lemma path_Clean_abs_slash:
  "list_all proper_name cs \<Longrightarrow> path_Clean (abs_path cs @ ''/'') = abs_path cs"
  unfolding path_Clean_def
  by (subst foldl_clean_filter, subst SplitChar_snoc_sep, subst filter_append, subst Split_abs_path)
     (auto simp: foldl_clean_proper Let_def abs_path_def)

lemma dropWhile_rev_no_slash:
  "CHR ''/'' \<notin> set n \<Longrightarrow> dropWhile (\<lambda>c. c \<noteq> CHR ''/'') (rev n @ CHR ''/'' # r) = CHR ''/'' # r"
  by (subst dropWhile_append2) auto

lemma takeWhile_rev_no_slash:
  "CHR ''/'' \<notin> set n \<Longrightarrow> takeWhile (\<lambda>c. c \<noteq> CHR ''/'') (rev n @ CHR ''/'' # r) = rev n"
  by (subst takeWhile_append2) auto

lemma strip_slashes_proper:
  assumes "proper_name n" shows "strip_slashes (p @ n) = p @ n"
proof -
  from assms have "rev n \<noteq> []" "hd (rev n) \<noteq> CHR ''/''"
    by (auto simp: proper_name_def hd_rev) (metis last_in_set)
  then obtain c m where "rev n = c # m" "c \<noteq> CHR ''/''" by (cases "rev n") auto
  then have "dropWhile (\<lambda>c. c = CHR ''/'') (rev (p @ n)) = rev (p @ n)" by simp
  then show ?thesis by (simp add: strip_slashes_def)
qed

lemma path_Base_abs:
  assumes "proper_name n" shows "path_Base (abs_path (cs @ [n])) = n"
proof -
  obtain p where p: "abs_path (cs @ [n]) = p @ CHR ''/'' # n"
    by (cases "cs = []") (auto intro: that)
  have "strip_slashes (p @ CHR ''/'' # n) = p @ CHR ''/'' # n"
    using strip_slashes_proper [OF assms, of "p @ ''/''"] by simp
  moreover have "takeWhile (\<lambda>c. c \<noteq> CHR ''/'') (rev n @ CHR ''/'' # rev p) = rev n"
    using assms by (intro takeWhile_rev_no_slash) (simp add: proper_name_def)
  ultimately show ?thesis by (simp add: path_Base_def p Let_def)
qed

lemma path_Dir_abs:
  assumes "proper_name n" "list_all proper_name cs"
  shows "path_Dir (abs_path (cs @ [n])) = abs_path cs"
proof -
  have n: "CHR ''/'' \<notin> set n" using assms by (simp add: proper_name_def)
  show ?thesis
  proof (cases "cs = []")
    case True
    then show ?thesis using dropWhile_rev_no_slash [OF n, of "[]"] path_Clean_abs [of "[]"]
      by (simp add: path_Dir_def)
  next
    case False
    then have "path_Dir (abs_path (cs @ [n])) = path_Clean (abs_path cs @ ''/'')"
      using dropWhile_rev_no_slash [OF n, of "rev (abs_path cs)"] by (simp add: path_Dir_def)
    then show ?thesis using path_Clean_abs_slash [OF assms(2)] by simp
  qed
qed

section \<open>Lists and maps\<close>

lemma map_of_filter_neq:
  "map_of (filter (\<lambda>p. fst p \<noteq> k) xs) = (map_of xs)(k := None)"
  by (induction xs) auto

end
