(* ===== verification/Documents.thy ===== *)
theory Documents
  imports GoPrelude
begin

text \<open>
  The data that FairOS writes into Swarm.  A feed update or a blob is a byte
  string: Raw b is the string b itself (a reference, the deletion mark, the
  contents of a file), Doc d is the text that json.Marshal prints for the Go
  value d.  json.Unmarshal of a Doc into a variable of the same type gives the
  value back, with the fields json does not export reset and the texts made valid
  (see json_manifest, in which keys are cut at any byte; the other structures hold
  whole names, which are taken to be valid UTF-8).  A Doc of another type gives the
  fields that the two types share and zero elsewhere (json_meta, json_other); a Raw
  string is not a text of a struct and makes json.Unmarshal fail.  No Doc text equals the deletion mark, which is
  not valid JSON.  Sealed p c is the AES-CFB ciphertext of c under the key
  derived from p, and Junk p c what decrypting c with a wrong key p gives;
  encryption is symbolic, only its effect on lengths is kept.

  Each datatype and record below is a Go struct with json tags, its fields in
  the order of the source.  Field names get the struct's initial as a prefix
  where two structs share a name.
\<close>

type_synonym Address = bytes

section \<open>Collection manifests, pkg/collection/entry.go and index.go\<close>

datatype IndexType =
  InvalidIndex | BytesIndex | StringIndex | NumberIndex | MapIndex | ListIndex | VectorIndex

definition leafEntry :: string where "leafEntry = ''L''"
definition intermediateEntry :: string where "intermediateEntry = ''I''"

lemma EType_distinct [simp]: "leafEntry \<noteq> intermediateEntry" "intermediateEntry \<noteq> leafEntry"
  by (simp_all add: leafEntry_def intermediateEntry_def)

datatype Manifest = Manifest
    (mName: string) (mMutable: bool) (mPodFile: string) (mIdxType: IndexType)
    (mCreationTime: int) (mEntries: "Entry list") (mCount: "64 word") (mDirty: bool)
  and Entry = Entry
    (eName: string) (eEType: string) (eRef: "bytes list") (eManifest: "Manifest option")

definition set_mEntries :: "Entry list \<Rightarrow> Manifest \<Rightarrow> Manifest" where
  "set_mEntries es m =
     Manifest (mName m) (mMutable m) (mPodFile m) (mIdxType m) (mCreationTime m) es (mCount m) (mDirty m)"

definition set_mCount :: "64 word \<Rightarrow> Manifest \<Rightarrow> Manifest" where
  "set_mCount c m =
     Manifest (mName m) (mMutable m) (mPodFile m) (mIdxType m) (mCreationTime m) (mEntries m) c (mDirty m)"

definition set_mDirty :: "bool \<Rightarrow> Manifest \<Rightarrow> Manifest" where
  "set_mDirty d m =
     Manifest (mName m) (mMutable m) (mPodFile m) (mIdxType m) (mCreationTime m) (mEntries m) (mCount m) d"

lemma set_m_simps [simp]:
  "mName (set_mEntries es m) = mName m" "mEntries (set_mEntries es m) = es"
  "mName (set_mCount c m) = mName m" "mEntries (set_mCount c m) = mEntries m"
  "mName (set_mDirty d m) = mName m" "mEntries (set_mDirty d m) = mEntries m"
  "mMutable (set_mEntries es m) = mMutable m" "mMutable (set_mCount c m) = mMutable m"
  "mMutable (set_mDirty d m) = mMutable m" "mCount (set_mCount c m) = c"
  "mDirty (set_mDirty d m) = d" "mDirty (set_mEntries es m) = mDirty m" "mDirty (set_mCount c m) = mDirty m"
  "mCount (set_mEntries es m) = mCount m" "mCount (set_mDirty d m) = mCount m"
  "mIdxType (set_mEntries es m) = mIdxType m" "mIdxType (set_mCount c m) = mIdxType m"
  "mIdxType (set_mDirty d m) = mIdxType m"
  by (simp_all add: set_mEntries_def set_mCount_def set_mDirty_def)

text \<open>A text after json.Marshal and json.Unmarshal: a byte that belongs to no rune becomes
  U+FFFD.\<close>

function json_string :: "string \<Rightarrow> string" where
  "json_string s =
     (if s = [] then []
      else if rune_len s = 0 then [CHR 0xEF, CHR 0xBF, CHR 0xBD] @ json_string (tl s)
      else take (rune_len s) s @ json_string (drop (rune_len s) s))"
  by pat_completeness auto
termination by (relation "measure length") auto

declare json_string.simps [simp del]

lemma json_string_valid: "valid_utf8 s \<Longrightarrow> json_string s = s"
proof (induction s rule: valid_utf8.induct)
  case (1 s)
  then show ?case by (cases "s = []") (auto simp: valid_utf8.simps [of s] json_string.simps [of s] json_string.simps [of "[]"] split: if_splits)
qed

lemma json_string_ascii: "ascii s \<Longrightarrow> json_string s = s"
  by (rule json_string_valid [OF ascii_valid])

lemma json_string_Nil [simp]: "json_string [] = []"
  by (simp add: json_string_ascii)

lemma json_string_EType [simp]: "json_string leafEntry = leafEntry" "json_string intermediateEntry = intermediateEntry"
  by (simp_all add: json_string_ascii leafEntry_def intermediateEntry_def)

text \<open>What a manifest is after json.Marshal and json.Unmarshal: dirtyFlag is
  not exported.\<close>

fun json_manifest :: "Manifest \<Rightarrow> Manifest" and json_entry :: "Entry \<Rightarrow> Entry" where
  "json_manifest (Manifest n mu pf ty ct es c d) =
     Manifest (json_string n) mu (json_string pf) ty ct (map json_entry es) c False"
| "json_entry (Entry n et rf mo) = Entry (json_string n) (json_string et) rf (map_option json_manifest mo)"

lemma json_simps [simp]:
  "mName (json_manifest m) = json_string (mName m)" "mMutable (json_manifest m) = mMutable m"
  "mIdxType (json_manifest m) = mIdxType m" "mCount (json_manifest m) = mCount m"
  "mEntries (json_manifest m) = map json_entry (mEntries m)"
  "\<not> mDirty (json_manifest m)"
  "eName (json_entry e) = json_string (eName e)" "eEType (json_entry e) = json_string (eEType e)"
  "eRef (json_entry e) = eRef e"
  "(eManifest (json_entry e) = None) = (eManifest e = None)"
  by (cases m; cases e; simp)+

section \<open>Files, pkg/file/meta.go and inode.go\<close>

record BlockInfo =
  bSize :: "32 word"
  bCompressedSize :: "32 word"
  bReference :: bytes

record FileMeta =
  fVersion :: "8 word"
  fPath :: string
  fName :: string
  fSize :: "64 word"
  fBlockSize :: "32 word"
  fContentType :: string
  fCompression :: string
  fCreationTime :: int
  fAccessTime :: int
  fModificationTime :: int
  fInodeAddress :: bytes
  fMode :: "32 word"

section \<open>Directories, pkg/dir/meta.go and inode.go\<close>

record DirMeta =
  dVersion :: "8 word"
  dPath :: string
  dName :: string
  dCreationTime :: int
  dAccessTime :: int
  dModificationTime :: int
  dMode :: "32 word"

record Inode =
  iMeta :: DirMeta
  FileOrDirNames :: "string list"

section \<open>Pods and groups, pkg/pod/pod.go, sharing.go and group.go\<close>

record ListItem =
  lName :: string
  lIndex :: int
  lPassword :: string

record SharedListItem =
  sName :: string
  sAddress :: string
  sPassword :: string

record PodList =
  Pods :: "ListItem list"
  SharedPods :: "SharedListItem list"

record ShareInfo =
  shPodName :: string
  shAddress :: string
  shPassword :: string
  shUserAddress :: string

record GroupItem =
  gName :: string
  gOwnerPublicKey :: bytes
  gOwnerAddress :: string
  gPassword :: string
  gSecret :: bytes

record GroupList =
  Groups :: "GroupItem list"
  SharedGroups :: "GroupItem list"

section \<open>The stored texts\<close>

type_synonym permissions = "string \<rightharpoonup> 8 word"

datatype doc =
    DManifest Manifest
  | DFileMeta FileMeta
  | DFileInode "BlockInfo option list"
  | DInode Inode
  | DPodList PodList
  | DShareInfo ShareInfo
  | DGroupList GroupList
  | DGroupItem GroupItem
  | DPermissions permissions

datatype content = Raw bytes | Doc doc | Sealed bytes content | Junk bytes content

definition bytes_of :: "string \<Rightarrow> bytes" where
  "bytes_of s = map of_char s"

definition string_of :: "bytes \<Rightarrow> string" where
  "string_of b = map (\<lambda>x. char_of (unat x)) b"

lemma string_of_bytes_of [simp]: "string_of (bytes_of s) = s"
proof -
  have "char_of (unat (of_char c :: byte)) = c" for c
  proof -
    have "(of_char c :: nat) < 256" by simp
    then have "unat (of_nat (of_char c) :: byte) = of_char c"
      by (simp add: unat_of_nat take_bit_nat_eq_self)
    then have "unat (of_char c :: byte) = of_char c" by (simp only: of_nat_of_char)
    then show ?thesis by simp
  qed
  then show ?thesis by (simp add: string_of_def bytes_of_def comp_def)
qed

definition DeletedFeedMagicWord :: string where "DeletedFeedMagicWord = ''__Fair__''"

definition deleted_mark :: content where
  "deleted_mark = Raw (bytes_of DeletedFeedMagicWord)"

text \<open>The metadata of a file that json.Unmarshal makes of a text: only the texts of file
  metadata have fields in common with it.\<close>

definition zero_meta :: FileMeta where
  "zero_meta = \<lparr>fVersion = 0, fPath = [], fName = [], fSize = 0, fBlockSize = 0, fContentType = [],
     fCompression = [], fCreationTime = 0, fAccessTime = 0, fModificationTime = 0, fInodeAddress = [], fMode = 0\<rparr>"

definition json_meta :: "content \<Rightarrow> FileMeta option" where
  "json_meta c =
     (case c of
        Doc (DFileMeta m) \<Rightarrow> Some m
      | Doc d \<Rightarrow> Some zero_meta
      | _ \<Rightarrow> None)"

lemma json_meta_simps [simp]:
  "json_meta (Doc (DFileMeta m)) = Some m" "json_meta (Raw b) = None" "json_meta (Sealed p c) = None" "json_meta (Junk p c) = None"
  by (simp_all add: json_meta_def)

text \<open>The manifest that json.Unmarshal makes of another text: a group item has a field name.\<close>

definition json_other :: "doc \<Rightarrow> Manifest" where
  "json_other d = Manifest (case d of DGroupItem g \<Rightarrow> gName g | _ \<Rightarrow> []) False [] InvalidIndex 0 [] 0 False"

definition MaxChunkLength :: nat where "MaxChunkLength = 4096"

end
