(* ===== verification/Storage.thy ===== *)
theory Storage
  imports Documents
begin

text \<open>
  The interface between the components and Swarm.  A component gets a record of
  services: the operations of the feed API (feed.API, whose own model is the
  theory FeedApi), the blob operations of the Bee client (blockstore.Client, a
  package outside the repository), the clock and the BMT hash.  'w is the state
  of everything behind them: the network, the clock, the handler's caches.

  The locale storage is the contract that the clients' correctness rests on.
  feeds and blobs are the abstract view of 'w: what reading a feed of a user
  with a password gives, and the content of every blob.
  maxlen bounds the length of the strings for which the hash is taken to be
  free of collisions (a 32-byte hash cannot be injective on all strings), and
  inv b w says that w is a good state in which b more writes will succeed:
  references and times are finite, so no storage accepts writes for ever.
  A payload must leave room for the 16 bytes that encryption adds, and one that
  is written without a password must be readable with any password (DecryptBytes
  refuses less than 16 bytes).  A feed is created once: CreateFeed of a feed that
  exists is not promised to work.
\<close>

record 'w services =
  IsReadOnlyFeed :: "'w \<Rightarrow> bool"
  GetFeedData :: "bytes \<Rightarrow> Address \<Rightarrow> bytes \<Rightarrow> 'w \<Rightarrow> (bytes \<times> content) result \<times> 'w"
  CreateFeed :: "Address \<Rightarrow> bytes \<Rightarrow> content \<Rightarrow> bytes \<Rightarrow> 'w \<Rightarrow> unit result \<times> 'w"
  UpdateFeed :: "Address \<Rightarrow> bytes \<Rightarrow> content \<Rightarrow> bytes \<Rightarrow> 'w \<Rightarrow> unit result \<times> 'w"
  UploadBlob :: "content \<Rightarrow> 'w \<Rightarrow> bytes result \<times> 'w"
  DownloadBlob :: "bytes \<Rightarrow> 'w \<Rightarrow> (content \<times> nat) result \<times> 'w"
  DeleteReference :: "bytes \<Rightarrow> 'w \<Rightarrow> unit result \<times> 'w"
  NowUnix :: "'w \<Rightarrow> int \<times> 'w"
  DeleteFeedFromTopic :: "bytes \<Rightarrow> Address \<Rightarrow> 'w \<Rightarrow> unit result \<times> 'w"
  HashString :: "string \<Rightarrow> bytes"
  DocLen :: "doc \<Rightarrow> nat"

primrec content_len :: "'w services \<Rightarrow> content \<Rightarrow> nat" where
  "content_len sv (Raw b) = length b"
| "content_len sv (Doc d) = DocLen sv d"
| "content_len sv (Sealed p c) = content_len sv c + 16"
| "content_len sv (Junk p c) = content_len sv c - 16"

text \<open>The view of the feeds: what reading the feed (user, topic) with a
  password gives.  A write fixes it for its own password and leaves every other
  feed alone.\<close>

type_synonym feedview = "Address \<times> bytes \<times> bytes \<rightharpoonup> content"
type_synonym blobview = "bytes \<rightharpoonup> content"

definition feed_written :: "feedview \<Rightarrow> feedview \<Rightarrow> Address \<Rightarrow> bytes \<Rightarrow> bytes \<Rightarrow> content \<Rightarrow> bool" where
  "feed_written fs fs' u t pw d \<longleftrightarrow>
     fs' (u, t, pw) = Some d \<and> (\<forall>u' t' p. (u', t') \<noteq> (u, t) \<longrightarrow> fs' (u', t', p) = fs (u', t', p))"

lemma feed_writtenD:
  "feed_written fs fs' u t pw d \<Longrightarrow> fs' (u, t, pw) = Some d"
  "\<lbrakk>feed_written fs fs' u t pw d; (u', t') \<noteq> (u, t)\<rbrakk> \<Longrightarrow> fs' (u', t', p) = fs (u', t', p)"
  by (auto simp: feed_written_def)

definition storable :: "'w services \<Rightarrow> bytes \<Rightarrow> content \<Rightarrow> bool" where
  "storable sv pw d \<longleftrightarrow> content_len sv d + 16 \<le> MaxChunkLength
     \<and> (pw \<noteq> [] \<or> 16 \<le> content_len sv d \<or> d = deleted_mark)"

lemma storable_ref [simp]: "\<lbrakk>32 \<le> length ref; length ref \<le> 64\<rbrakk> \<Longrightarrow> storable sv pw (Raw ref)"
  by (simp add: storable_def MaxChunkLength_def)

lemma storable_deleted [simp]: "storable sv pw deleted_mark"
  by (simp add: storable_def MaxChunkLength_def deleted_mark_def DeletedFeedMagicWord_def bytes_of_def)

locale storage =
  fixes sv :: "'w services"
    and maxlen :: nat
    and inv :: "nat \<Rightarrow> 'w \<Rightarrow> bool"
    and feeds :: "'w \<Rightarrow> feedview"
    and blobs :: "'w \<Rightarrow> blobview"
  assumes inv_mono: "\<lbrakk>inv b w; b' \<le> b\<rbrakk> \<Longrightarrow> inv b' w"
    and writable: "inv b w \<Longrightarrow> \<not> IsReadOnlyFeed sv w"
    and hash_inj: "\<lbrakk>length s \<le> maxlen; length s' \<le> maxlen; HashString sv s = HashString sv s'\<rbrakk> \<Longrightarrow> s = s'"
    and get_feed: "\<lbrakk>inv b w; GetFeedData sv t u pw w = (rg, w')\<rbrakk> \<Longrightarrow>
        inv b w' \<and> feeds w' = feeds w \<and> blobs w' = blobs w
        \<and> (\<forall>d. feeds w (u, t, pw) = Some d \<longrightarrow> (\<exists>a. rg = Inr (a, d)))
        \<and> (feeds w (u, t, pw) = None \<longrightarrow> (\<exists>e. rg = Inl e))"
    and get_absent: "\<lbrakk>inv b w; length s \<le> maxlen; feeds w (u, HashString sv s, pw) = None;
        GetFeedData sv (HashString sv s) u pw w = (rg, w')\<rbrakk> \<Longrightarrow>
        rg = Inl (Sentinel ''feed does not exist or was not updated yet'')"
    and create_feed: "\<lbrakk>inv (Suc b) w; storable sv pw d; length s \<le> maxlen; t = HashString sv s;
        feeds w (u, t, pw) = None; CreateFeed sv u t d pw w = (rn, w')\<rbrakk> \<Longrightarrow>
        rn = Inr () \<and> inv b w' \<and> feed_written (feeds w) (feeds w') u t pw d \<and> blobs w' = blobs w"
    and update_feed: "\<lbrakk>inv (Suc b) w; storable sv pw d; length s \<le> maxlen; t = HashString sv s;
        UpdateFeed sv u t d pw w = (rn, w')\<rbrakk> \<Longrightarrow>
        rn = Inr () \<and> inv b w' \<and> feed_written (feeds w) (feeds w') u t pw d \<and> blobs w' = blobs w"
    and upload_blob: "\<lbrakk>inv (Suc b) w; UploadBlob sv c w = (rb, w')\<rbrakk> \<Longrightarrow>
        inv b w' \<and> feeds w' = feeds w \<and> (\<exists>ref. rb = Inr ref \<and> length ref \<le> 64 \<and> 32 \<le> length ref
          \<and> (blobs w ref = None \<or> blobs w ref = Some c) \<and> blobs w' = (blobs w)(ref \<mapsto> c))"
    and download_blob: "\<lbrakk>inv b w; DownloadBlob sv ref w = (rd, w')\<rbrakk> \<Longrightarrow>
        inv b w' \<and> feeds w' = feeds w \<and> blobs w' = blobs w
        \<and> (\<forall>c. blobs w ref = Some c \<longrightarrow> rd = Inr (c, 200))
        \<and> (blobs w ref = None \<longrightarrow> (\<exists>e. rd = Inl e))"
    and delete_ref: "\<lbrakk>inv b w; blobs w ref \<noteq> None; DeleteReference sv ref w = (rn, w')\<rbrakk> \<Longrightarrow>
        inv b w' \<and> feeds w' = feeds w \<and> blobs w' \<subseteq>\<^sub>m blobs w
        \<and> (\<forall>ref'. ref' \<noteq> ref \<longrightarrow> blobs w' ref' = blobs w ref') \<and> rn = Inr ()"
    and clock: "\<lbrakk>inv b w; NowUnix sv w = (n, w')\<rbrakk> \<Longrightarrow> inv b w' \<and> feeds w' = feeds w \<and> blobs w' = blobs w"
    and blob_refs: "\<lbrakk>inv b w; blobs w ref = Some c\<rbrakk> \<Longrightarrow> 32 \<le> length ref"

end
