(* ===== verification/Index.thy ===== *)
theory Index
  imports Storage
begin

text \<open>
  The index of pkg/collection: index.go, index_api.go and entry.go.  An index
  is a Patricia trie of manifests.  A manifest holds the entries of one node;
  a leaf entry's name is the rest of the key and its Ref the values; an
  intermediate entry's name is the label of the edge to a child manifest, whose
  own name is the parent's name followed by the label.  Every manifest is a
  blob whose reference is kept in the feed with topic HashString name.

  Operations take the services, the Index record (the Go struct's fields that
  change or are read) and the state 'w, and return the result with both.
\<close>

section \<open>Errors and the index\<close>

abbreviation "ErrEntryNotFound \<equiv> Sentinel ''entry not found''"
abbreviation "ErrNoNextElement \<equiv> Sentinel ''no next element''"
abbreviation "ErrNoManifestFound \<equiv> Sentinel ''no Manifest found''"
abbreviation "ErrManifestUnmarshall \<equiv> Sentinel ''could not unmarshall Manifest''"
abbreviation "ErrManifestCreate \<equiv> Sentinel ''could not create new Manifest''"
abbreviation "ErrDeleteingIndex \<equiv> Sentinel ''could not delete index''"
abbreviation "ErrIndexAlreadyPresent \<equiv> Sentinel ''index already present''"
abbreviation "ErrIndexNotPresent \<equiv> Sentinel ''index not present''"
abbreviation "ErrReadOnlyIndex \<equiv> Sentinel ''read only index''"
abbreviation "ErrCannotModifyImmutableIndex \<equiv> Sentinel ''trying to modify immutable index''"

record Index =
  ixName :: string
  ixMutable :: bool
  ixType :: IndexType
  ixPodFile :: string
  ixPassword :: string
  ixUser :: Address
  ixCount :: "64 word"
  ixMemDB :: "Manifest option"

fun IndexType_String :: "IndexType \<Rightarrow> string" where
  "IndexType_String BytesIndex = ''BytesIndex''"
| "IndexType_String StringIndex = ''StringIndex''"
| "IndexType_String NumberIndex = ''NumberIndex''"
| "IndexType_String MapIndex = ''MapIndex''"
| "IndexType_String ListIndex = ''ListIndex''"
| "IndexType_String VectorIndex = ''VectorIndex''"
| "IndexType_String InvalidIndex = ''InvalidIndex''"

definition toIndexTypeEnum :: "string \<Rightarrow> IndexType" where
  "toIndexTypeEnum s =
     (if s = ''BytesIndex'' then BytesIndex else if s = ''StringIndex'' then StringIndex
      else if s = ''NumberIndex'' then NumberIndex else if s = ''MapIndex'' then MapIndex
      else if s = ''ListIndex'' then ListIndex else if s = ''VectorIndex'' then VectorIndex
      else InvalidIndex)"

definition NewManifest :: "string \<Rightarrow> int \<Rightarrow> IndexType \<Rightarrow> bool \<Rightarrow> Manifest" where
  "NewManifest name time ty mu = Manifest name mu [] ty time [] 0 True"

section \<open>Loading and storing manifests\<close>

text \<open>json.Marshal of a manifest.\<close>

definition marshal_manifest :: "Manifest \<Rightarrow> content" where
  "marshal_manifest m = Doc (DManifest (json_manifest m))"

definition unmarshal_manifest :: "content \<Rightarrow> Manifest result" where
  "unmarshal_manifest c =
     (case c of
        Doc (DManifest m) \<Rightarrow> Inr m
      | Doc d \<Rightarrow> Inr (json_other d)
      | _ \<Rightarrow> Inl ErrManifestUnmarshall)"

text \<open>swarm.NewAddress of what a feed holds: a reference is a Raw string, the
  text of a document or of encrypted bytes is the address of nothing.\<close>

definition download_at :: "'w services \<Rightarrow> content \<Rightarrow> 'w \<Rightarrow> (content \<times> nat) result \<times> 'w" where
  "download_at sv refData w =
     (case refData of Raw ref \<Rightarrow> DownloadBlob sv ref w
      | _ \<Rightarrow> (Inl (Service ''error downloading data''), w))"

definition loadManifest ::
  "'w services \<Rightarrow> Index \<Rightarrow> string \<Rightarrow> string \<Rightarrow> 'w \<Rightarrow> Manifest result \<times> 'w" where
  "loadManifest sv idx manifestPath pw w =
     (case GetFeedData sv (HashString sv manifestPath) (ixUser idx) (bytes_of pw) w of
        (Inl e, w1) \<Rightarrow> (Inl ErrNoManifestFound, w1)
      | (Inr (a, refData), w1) \<Rightarrow>
          (case download_at sv refData w1 of
             (Inl e, w2) \<Rightarrow> (Inl ErrNoManifestFound, w2)
           | (Inr (data, respCode), w2) \<Rightarrow>
               if respCode \<noteq> 200 then (Inl ErrNoManifestFound, w2)
               else (unmarshal_manifest data, w2)))"

definition updateManifest ::
  "'w services \<Rightarrow> Index \<Rightarrow> Manifest \<Rightarrow> string \<Rightarrow> 'w \<Rightarrow> unit result \<times> 'w" where
  "updateManifest sv idx manifest pw w =
     (case UploadBlob sv (marshal_manifest manifest) w of
        (Inl e, w1) \<Rightarrow> (Inl ErrManifestUnmarshall, w1)
      | (Inr ref, w1) \<Rightarrow>
          (case UpdateFeed sv (ixUser idx) (HashString sv (mName manifest)) (Raw ref) (bytes_of pw) w1 of
             (Inl e, w2) \<Rightarrow> (Inl ErrManifestCreate, w2)
           | (Inr u, w2) \<Rightarrow> (Inr (), w2)))"

definition storeManifest ::
  "'w services \<Rightarrow> Index \<Rightarrow> Manifest \<Rightarrow> string \<Rightarrow> 'w \<Rightarrow> unit result \<times> 'w" where
  "storeManifest sv idx manifest pw w =
     (case UploadBlob sv (marshal_manifest manifest) w of
        (Inl e, w1) \<Rightarrow> (Inl ErrManifestCreate, w1)
      | (Inr ref, w1) \<Rightarrow>
          let topic = HashString sv (mName manifest) in
          (case GetFeedData sv topic (ixUser idx) (bytes_of pw) w1 of
             (g, w2) \<Rightarrow>
               if is_ok g \<or> g = Inl (Sentinel ''deleted feed'') then
                 (case UpdateFeed sv (ixUser idx) topic (Raw ref) (bytes_of pw) w2 of
                    (Inl e, w3) \<Rightarrow> (Inl ErrManifestCreate, w3)
                  | (Inr u, w3) \<Rightarrow> (Inr (), w3))
               else
                 (case CreateFeed sv (ixUser idx) topic (Raw ref) (bytes_of pw) w2 of
                    (Inl e, w3) \<Rightarrow> (Inl ErrManifestCreate, w3)
                  | (Inr u, w3) \<Rightarrow> (Inr (), w3))))"

definition getRootManifestOfIndex ::
  "'w services \<Rightarrow> string \<Rightarrow> string \<Rightarrow> Address \<Rightarrow> 'w \<Rightarrow> Manifest option \<times> 'w" where
  "getRootManifestOfIndex sv actualIndexName pw user w =
     (case GetFeedData sv (HashString sv actualIndexName) user (bytes_of pw) w of
        (Inl e, w1) \<Rightarrow> (None, w1)
      | (Inr (a, addr), w1) \<Rightarrow>
          (case download_at sv addr w1 of
             (Inl e, w2) \<Rightarrow> (None, w2)
           | (Inr (data, c), w2) \<Rightarrow>
               (case unmarshal_manifest data of Inl e \<Rightarrow> (None, w2) | Inr m \<Rightarrow> (Some m, w2))))"

section \<open>Creating, opening and deleting an index\<close>

definition content_empty :: "'w services \<Rightarrow> content \<Rightarrow> bool" where
  "content_empty sv c = (content_len sv c = 0)"

definition CreateIndex ::
  "'w services \<Rightarrow> string \<Rightarrow> string \<Rightarrow> string \<Rightarrow> string \<Rightarrow> IndexType \<Rightarrow> Address \<Rightarrow> bool \<Rightarrow> 'w
    \<Rightarrow> unit result \<times> 'w" where
  "CreateIndex sv podName collectionName indexName pw ty user mu w =
     (if IsReadOnlyFeed sv w then (Inl ErrReadOnlyIndex, w) else
      let actualIndexName = podName @ collectionName @ indexName;
          topic = HashString sv actualIndexName in
      case GetFeedData sv topic user (bytes_of pw) w of
        (g, w1) \<Rightarrow>
          let oldData = (case g of Inl e \<Rightarrow> Raw [] | Inr (a, d) \<Rightarrow> d) in
          if is_ok g \<and> \<not> content_empty sv oldData \<and> oldData \<noteq> deleted_mark
          then (Inl ErrIndexAlreadyPresent, w1)
          else case NowUnix sv w1 of (now, w2) \<Rightarrow>
            let manifest = NewManifest actualIndexName now ty mu in
            (case UploadBlob sv (marshal_manifest manifest) w2 of
               (Inl e, w3) \<Rightarrow> (Inl ErrManifestUnmarshall, w3)
             | (Inr ref, w3) \<Rightarrow>
                 if oldData = deleted_mark then
                   (case UpdateFeed sv user topic (Raw ref) (bytes_of pw) w3 of
                      (Inl e, w4) \<Rightarrow> (Inl ErrManifestCreate, w4)
                    | (Inr u, w4) \<Rightarrow> (Inr (), w4))
                 else
                   (case CreateFeed sv user topic (Raw ref) (bytes_of pw) w3 of
                      (Inl e, w4) \<Rightarrow> (Inl ErrManifestCreate, w4)
                    | (Inr u, w4) \<Rightarrow> (Inr (), w4))))"

definition OpenIndex ::
  "'w services \<Rightarrow> string \<Rightarrow> string \<Rightarrow> string \<Rightarrow> string \<Rightarrow> Address \<Rightarrow> 'w \<Rightarrow> Index result \<times> 'w" where
  "OpenIndex sv podName collectionName indexName podPassword user w =
     (case getRootManifestOfIndex sv (podName @ collectionName @ indexName) podPassword user w of
        (None, w1) \<Rightarrow> (Inl ErrIndexNotPresent, w1)
      | (Some manifest, w1) \<Rightarrow>
          (Inr \<lparr>ixName = mName manifest, ixMutable = mMutable manifest, ixType = mIdxType manifest,
             ixPodFile = mPodFile manifest, ixPassword = podPassword, ixUser = user,
             ixCount = mCount manifest, ixMemDB = Some manifest\<rparr>, w1))"

definition DeleteIndex :: "'w services \<Rightarrow> Index \<Rightarrow> string \<Rightarrow> 'w \<Rightarrow> unit result \<times> 'w" where
  "DeleteIndex sv idx pw w =
     (if IsReadOnlyFeed sv w then (Inl ErrReadOnlyIndex, w) else
      case getRootManifestOfIndex sv (ixName idx) pw (ixUser idx) w of
        (None, w1) \<Rightarrow> (Inl ErrIndexNotPresent, w1)
      | (Some m, w1) \<Rightarrow>
          (case UpdateFeed sv (ixUser idx) (HashString sv (ixName idx)) deleted_mark (bytes_of pw) w1 of
             (Inl e, w2) \<Rightarrow> (Inl ErrDeleteingIndex, w2)
           | (Inr u, w2) \<Rightarrow> (Inr (), w2)))"

text \<open>IsEmpty and CountIndex work on the manifest in memory and load it first
  when there is none or it has no entries (the nil slice of the code).\<close>

definition ensure_memDB ::
  "'w services \<Rightarrow> Index \<Rightarrow> string \<Rightarrow> 'w \<Rightarrow> Manifest result \<times> Index \<times> 'w" where
  "ensure_memDB sv idx pw w =
     (case ixMemDB idx of
        Some m \<Rightarrow> if mEntries m \<noteq> [] then (Inr m, idx, w)
          else (case loadManifest sv idx (ixName idx) pw w of
                  (Inl e, w1) \<Rightarrow> (Inl e, idx, w1)
                | (Inr m', w1) \<Rightarrow> (Inr m', idx\<lparr>ixMemDB := Some m'\<rparr>, w1))
      | None \<Rightarrow> (case loadManifest sv idx (ixName idx) pw w of
                  (Inl e, w1) \<Rightarrow> (Inl e, idx, w1)
                | (Inr m', w1) \<Rightarrow> (Inr m', idx\<lparr>ixMemDB := Some m'\<rparr>, w1)))"

definition IsEmpty :: "'w services \<Rightarrow> Index \<Rightarrow> string \<Rightarrow> 'w \<Rightarrow> bool result \<times> Index \<times> 'w" where
  "IsEmpty sv idx pw w =
     (case ensure_memDB sv idx pw w of
        (Inl e, idx1, w1) \<Rightarrow> (Inl e, idx1, w1)
      | (Inr m, idx1, w1) \<Rightarrow> (Inr (mEntries m = []), idx1, w1))"

text \<open>loadIndexAndCount: the count of the leaves below a manifest, the
  manifests of the intermediate entries being loaded into the tree on the way.
  A load error ends the manifest's loop without counting its leaves.  The first
  argument bounds the depth of the recursion, which the code does not bound.\<close>

fun loadIndexAndCount ::
  "nat \<Rightarrow> 'w services \<Rightarrow> Index \<Rightarrow> string \<Rightarrow> Manifest \<Rightarrow> 'w \<Rightarrow> Manifest \<times> 64 word \<times> 'w"
  and countEntries ::
  "nat \<Rightarrow> 'w services \<Rightarrow> Index \<Rightarrow> string \<Rightarrow> string \<Rightarrow> Entry list \<Rightarrow> 64 word \<Rightarrow> 64 word \<Rightarrow> 'w
    \<Rightarrow> Entry list \<times> 64 word \<times> 'w" where
  "loadIndexAndCount n sv idx pw manifest w =
     (case n of 0 \<Rightarrow> (manifest, 0, w)
      | Suc n' \<Rightarrow>
        (case countEntries n' sv idx pw (mName manifest) (mEntries manifest) 0 0 w of
           (es, tot, w1) \<Rightarrow> (set_mEntries es manifest, tot, w1)))"
| "countEntries n sv idx pw name [] count below w = ([], below + count, w)"
| "countEntries n sv idx pw name (entry # es) count below w =
     (if eEType entry = intermediateEntry then
        (case (case eManifest entry of
                 None \<Rightarrow> loadManifest sv idx (name @ eName entry) pw w
               | Some m \<Rightarrow> (Inr m, w)) of
           (Inl e, w1) \<Rightarrow> (entry # es, below, w1)
         | (Inr newManifest, w1) \<Rightarrow>
             (case loadIndexAndCount n sv idx pw newManifest w1 of
                (m', c, w2) \<Rightarrow>
                  (case countEntries n sv idx pw name es count (below + c) w2 of
                     (es', tot, w3) \<Rightarrow>
                       (Entry (eName entry) (eEType entry) (eRef entry) (Some m') # es', tot, w3))))
      else
        (case countEntries n sv idx pw name es (count + 1) below w of
           (es', tot, w1) \<Rightarrow> (entry # es', tot, w1)))"

definition CountIndex ::
  "nat \<Rightarrow> 'w services \<Rightarrow> Index \<Rightarrow> string \<Rightarrow> 'w \<Rightarrow> (64 word) result \<times> Index \<times> 'w" where
  "CountIndex n sv idx pw w =
     (case ensure_memDB sv idx pw w of
        (Inl e, idx1, w1) \<Rightarrow> (Inl e, idx1, w1)
      | (Inr m, idx1, w1) \<Rightarrow>
          if mEntries m = [] then (Inr 0, idx1, w1) else
          (case loadIndexAndCount n sv idx1 pw m w1 of
             (m', c, w2) \<Rightarrow> (Inr c, idx1\<lparr>ixMemDB := Some m', ixCount := c\<rparr>, w2)))"

section \<open>Entries of a manifest\<close>

fun matchLen :: "string \<Rightarrow> string \<Rightarrow> nat" where
  "matchLen (a # as) (b # bs) = (if a \<noteq> b then 0 else Suc (matchLen as bs))"
| "matchLen as bs = 0"

definition longestCommonPrefix :: "string \<Rightarrow> string \<Rightarrow> string \<times> string \<times> string" where
  "longestCommonPrefix str1 str2 =
     (if str1 = [] \<or> str2 = [] then ([], [], [])
      else let n = matchLen str1 str2 in
        if n = 0 then ([], str1, str2) else (take n str1, drop n str1, drop n str2))"

text \<open>Comparison of two bytes of a string.\<close>

definition byte_gt :: "char \<Rightarrow> char \<Rightarrow> bool" where
  "byte_gt a b = ((of_char a :: nat) > of_char b)"

text \<open>addEntryToManifestSortedLexicographically, on the list of entries.  The
  loop copies the entries and puts the new one before the first entry whose name
  starts with a greater byte; it gives up (None, nothing changes) when it meets
  an entry equal to the new one.\<close>

fun add_loop :: "Entry \<Rightarrow> Entry list \<Rightarrow> bool \<Rightarrow> Entry list \<Rightarrow> Entry list option" where
  "add_loop x [] entryAdded entries = Some (if entryAdded then entries else entries @ [x])"
| "add_loop x (entry # es) entryAdded entries =
     (if eName entry = eName x \<and> eEType entry = eEType x \<and> eRef entry = eRef x then None
      else if eName entry = [] then add_loop x es entryAdded (entries @ [entry])
      else if \<not> entryAdded \<and> byte_gt (hd (eName entry)) (hd (eName x))
        then add_loop x es True (entries @ [x, entry])
      else add_loop x es entryAdded (entries @ [entry]))"

definition addEntrySorted :: "Entry list \<Rightarrow> Entry \<Rightarrow> Entry list" where
  "addEntrySorted es x =
     (if es = [] then [x] else if eName x = [] then x # es
      else case add_loop x es False [] of None \<Rightarrow> es | Some es' \<Rightarrow> es')"

section \<open>Put\<close>

text \<open>The loop of addOrUpdateStringEntry stops at the first entry that shares a
  non-empty prefix with the key; an empty key leaves it at once.\<close>

fun first_sharing :: "Entry list \<Rightarrow> string \<Rightarrow> nat option" where
  "first_sharing [] key = None"
| "first_sharing (entry # es) key =
     (if key \<noteq> [] \<and> fst (longestCommonPrefix (eName entry) key) \<noteq> []
          \<and> (eEType entry = leafEntry \<or> eEType entry = intermediateEntry)
      then Some 0 else map_option Suc (first_sharing es key))"

lemma first_sharing_SomeD:
  "first_sharing es key = Some i \<Longrightarrow>
     i < length es \<and> key \<noteq> [] \<and> fst (longestCommonPrefix (eName (es ! i)) key) \<noteq> []
     \<and> (eEType (es ! i) = leafEntry \<or> eEType (es ! i) = intermediateEntry)"
  by (induction es arbitrary: i) (auto split: if_splits)

lemma lcp_shorter:
  "\<lbrakk>longestCommonPrefix a key = (p, s, k); p \<noteq> []\<rbrakk> \<Longrightarrow> length k < length key"
proof -
  assume "longestCommonPrefix a key = (p, s, k)" "p \<noteq> []"
  then have "key \<noteq> []" "k = drop (matchLen a key) key" "matchLen a key \<noteq> 0"
    by (auto simp: longestCommonPrefix_def Let_def split: if_splits)
  then show ?thesis by simp
qed

text \<open>A new manifest with two entries, for a split.\<close>

definition split_manifest :: "string \<Rightarrow> IndexType \<Rightarrow> int \<Rightarrow> Entry \<Rightarrow> Entry \<Rightarrow> Manifest" where
  "split_manifest name ty now entry1 entry2 =
     Manifest name False [] ty now (addEntrySorted (addEntrySorted [] entry1) entry2) 0 False"

text \<open>The end of the function: the entries es replace those of the manifest,
  the count goes up and the manifest is stored.\<close>

definition finish_put ::
  "'w services \<Rightarrow> Index \<Rightarrow> Manifest \<Rightarrow> Entry list \<Rightarrow> 'w \<Rightarrow> unit result \<times> Index \<times> 'w" where
  "finish_put sv idx manifest es w =
     (let idx1 = idx\<lparr>ixCount := ixCount idx + 1\<rparr>;
          m' = set_mCount (ixCount idx1) (set_mDirty True (set_mEntries es manifest)) in
      case updateManifest sv idx1 m' (ixPassword idx) w of (r, w1) \<Rightarrow> (r, idx1, w1))"

text \<open>A split: the new manifest is stored, then entry i becomes the
  intermediate entry with the given label.\<close>

definition split_put ::
  "'w services \<Rightarrow> Index \<Rightarrow> Manifest \<Rightarrow> nat \<Rightarrow> string \<Rightarrow> string \<Rightarrow> IndexType \<Rightarrow> Entry \<Rightarrow> Entry \<Rightarrow> 'w
    \<Rightarrow> unit result \<times> Index \<times> 'w" where
  "split_put sv idx manifest i pfx label ty entry1 entry2 w =
     (case NowUnix sv w of (now, w1) \<Rightarrow>
      case storeManifest sv idx (split_manifest (mName manifest @ pfx) ty now entry1 entry2)
             (ixPassword idx) w1 of
        (Inl e, w2) \<Rightarrow> (Inl e, idx, w2)
      | (Inr u, w2) \<Rightarrow>
          let entry = mEntries manifest ! i in
          finish_put sv idx manifest
            ((mEntries manifest)[i := Entry label intermediateEntry (eRef entry) (eManifest entry)]) w2)"

function (sequential) addOrUpdateStringEntry ::
  "'w services \<Rightarrow> Index \<Rightarrow> Manifest \<Rightarrow> string \<Rightarrow> IndexType \<Rightarrow> bytes \<Rightarrow> bool \<Rightarrow> 'w
    \<Rightarrow> unit result \<times> Index \<times> 'w" where
  "addOrUpdateStringEntry sv idx manifest key ty val apnd w =
     (case first_sharing (mEntries manifest) key of
        None \<Rightarrow>
          finish_put sv idx manifest
            (addEntrySorted (mEntries manifest) (Entry key leafEntry [val] None)) w
      | Some i \<Rightarrow>
          let entry = mEntries manifest ! i in
          if eEType entry = leafEntry \<and> eName entry = key then
            finish_put sv idx manifest
              ((mEntries manifest)[i := Entry (eName entry) (eEType entry)
                 ((if apnd then eRef entry else []) @ [val]) (eManifest entry)]) w
          else
          (case longestCommonPrefix (eName entry) key of (pfx, entrySuffix, keySuffix) \<Rightarrow>
            if pfx = [] then (Inl (Panic ''unreachable''), idx, w)
            else if eEType entry = leafEntry then
              split_put sv idx manifest i pfx pfx ty
                (Entry keySuffix leafEntry [val] None)
                (Entry entrySuffix leafEntry (eRef entry) None) w
            else if keySuffix \<noteq> [] \<and> entrySuffix \<noteq> [] then
              split_put sv idx manifest i pfx pfx ty
                (Entry keySuffix leafEntry [val] None)
                (Entry entrySuffix intermediateEntry [] None) w
            else if keySuffix \<noteq> [] then
              (case loadManifest sv idx (mName manifest @ eName entry) (ixPassword idx) w of
                 (Inl e, w1) \<Rightarrow> (Inl e, idx, w1)
               | (Inr im, w1) \<Rightarrow> addOrUpdateStringEntry sv idx im keySuffix ty val apnd w1)
            else if entrySuffix = [] \<and> keySuffix = [] then
              (case loadManifest sv idx (mName manifest @ pfx) (ixPassword idx) w of
                 (Inl e, w1) \<Rightarrow> (Inl e, idx, w1)
               | (Inr im, w1) \<Rightarrow> addOrUpdateStringEntry sv idx im keySuffix ty val apnd w1)
            else
              split_put sv idx manifest i pfx key ty
                (Entry keySuffix leafEntry [val] None)
                (Entry entrySuffix intermediateEntry [] None) w))"
  by pat_completeness auto
termination
  by (relation "measure (\<lambda>(sv, idx, manifest, key, ty, val, apnd, w). length key)")
     (auto dest: lcp_shorter [OF sym])

declare addOrUpdateStringEntry.simps [simp del]

definition Put ::
  "'w services \<Rightarrow> Index \<Rightarrow> string \<Rightarrow> bytes \<Rightarrow> IndexType \<Rightarrow> bool \<Rightarrow> 'w \<Rightarrow> unit result \<times> Index \<times> 'w" where
  "Put sv idx key refValue ty apnd w =
     (if IsReadOnlyFeed sv w then (Inl ErrReadOnlyIndex, idx, w)
      else if \<not> ixMutable idx then (Inl ErrCannotModifyImmutableIndex, idx, w)
      else case loadManifest sv idx (ixName idx) (ixPassword idx) w of
        (Inl e, w1) \<Rightarrow> (Inl e, idx, w1)
      | (Inr manifest, w1) \<Rightarrow> addOrUpdateStringEntry sv idx manifest key ty refValue apnd w1)"

section \<open>Get and Delete\<close>

text \<open>scan_entries is the loop of findManifest over the entries of one manifest.
  findManifest returns the manifest that holds the key and the position of
  its entry.  Each call into a child drops the label of the edge from the key,
  so for labels that are not empty length key + 1 calls are enough; a label that
  is empty makes the code call itself for ever on the same manifest, which is
  the panic of the exhausted first argument.\<close>

datatype found = NotHere | Here nat | Below Entry

fun scan_entries :: "Entry list \<Rightarrow> string \<Rightarrow> nat \<Rightarrow> found" where
  "scan_entries [] key i = NotHere"
| "scan_entries (entry # es) key i =
     (if eName entry \<noteq> [] \<and> key = [] then NotHere
      else if eName entry \<noteq> [] \<and> byte_gt (hd (eName entry)) (hd key) then NotHere
      else if eEType entry = leafEntry \<and> eName entry = key then Here i
      else if eEType entry = intermediateEntry \<and> HasPrefix key (eName entry) then Below entry
      else scan_entries es key (Suc i))"

primrec findManifest ::
  "nat \<Rightarrow> 'w services \<Rightarrow> Index \<Rightarrow> Manifest \<Rightarrow> string \<Rightarrow> 'w \<Rightarrow> (Manifest \<times> nat) result \<times> 'w" where
  "findManifest 0 sv idx parent key w = (Inl (Panic ''stack overflow''), w)"
| "findManifest (Suc n) sv idx parent key w =
     (case scan_entries (mEntries parent) key 0 of
        NotHere \<Rightarrow> (Inl ErrEntryNotFound, w)
      | Here i \<Rightarrow> (Inr (parent, i), w)
      | Below entry \<Rightarrow>
          (case (case eManifest entry of
                   None \<Rightarrow> loadManifest sv idx (mName parent @ eName entry) (ixPassword idx) w
                 | Some m \<Rightarrow> (Inr m, w)) of
             (Inl e, w1) \<Rightarrow> (Inl e, w1)
           | (Inr child, w1) \<Rightarrow> findManifest n sv idx child (TrimPrefix key (eName entry)) w1))"

definition seekManifestAndEntry ::
  "'w services \<Rightarrow> Index \<Rightarrow> string \<Rightarrow> 'w \<Rightarrow> (Manifest \<times> nat) result \<times> 'w" where
  "seekManifestAndEntry sv idx key w =
     (case loadManifest sv idx (ixName idx) (ixPassword idx) w of
        (Inl e, w1) \<Rightarrow> (if e = ErrNoManifestFound then (Inl ErrEntryNotFound, w1) else (Inl e, w1))
      | (Inr fm, w1) \<Rightarrow>
          if mEntries fm \<noteq> [] then findManifest (Suc (length key)) sv idx fm key w1
          else (Inl ErrEntryNotFound, w1))"

definition Get :: "'w services \<Rightarrow> Index \<Rightarrow> string \<Rightarrow> 'w \<Rightarrow> (bytes list) result \<times> 'w" where
  "Get sv idx key w =
     (case seekManifestAndEntry sv idx key w of
        (Inl e, w1) \<Rightarrow> (Inl e, w1)
      | (Inr (manifest, i), w1) \<Rightarrow> (Inr (eRef (mEntries manifest ! i)), w1))"

definition remove_at :: "nat \<Rightarrow> 'a list \<Rightarrow> 'a list" where
  "remove_at i xs = take i xs @ drop (Suc i) xs"

text \<open>The intermediate entry with the given name is taken out of the parent,
  and its Ref is returned.\<close>

fun drop_branch :: "string \<Rightarrow> Entry list \<Rightarrow> (bytes list \<times> Entry list) option" where
  "drop_branch k [] = None"
| "drop_branch k (entry # es) =
     (if eEType entry = intermediateEntry \<and> eName entry = k then Some (eRef entry, es)
      else map_option (\<lambda>(r, es'). (r, entry # es')) (drop_branch k es))"

definition Delete :: "'w services \<Rightarrow> Index \<Rightarrow> string \<Rightarrow> 'w \<Rightarrow> (bytes list) result \<times> Index \<times> 'w" where
  "Delete sv idx key w =
     (if IsReadOnlyFeed sv w then (Inl ErrReadOnlyIndex, idx, w)
      else if \<not> ixMutable idx then (Inl ErrCannotModifyImmutableIndex, idx, w)
      else case seekManifestAndEntry sv idx key w of
        (Inl e, w1) \<Rightarrow> (Inl e, idx, w1)
      | (Inr (manifest, i), w1) \<Rightarrow>
          let deletedRef = eRef (mEntries manifest ! i) in
          if length (mEntries manifest) = 1 \<and> eName (mEntries manifest ! 0) = [] then
            (case loadManifest sv idx (path_Dir (mName manifest)) (ixPassword idx) w1 of
               (Inl e, w2) \<Rightarrow> (Inl e, idx, w2)
             | (Inr parent, w2) \<Rightarrow>
                 (case (case drop_branch (path_Base (mName manifest)) (mEntries parent) of
                          None \<Rightarrow> (deletedRef, parent)
                        | Some (r, es) \<Rightarrow> (r, set_mEntries es parent)) of
                    (dref, parent') \<Rightarrow>
                      (case updateManifest sv idx parent' (ixPassword idx) w2 of
                         (Inl e, w3) \<Rightarrow> (Inl e, idx, w3)
                       | (Inr u, w3) \<Rightarrow> (Inr dref, idx, w3))))
          else
            let idx1 = idx\<lparr>ixCount := ixCount idx - 1\<rparr>;
                m' = set_mCount (ixCount idx1) (set_mEntries (remove_at i (mEntries manifest)) manifest) in
            (case updateManifest sv idx1 m' (ixPassword idx) w1 of
               (Inl e, w2) \<Rightarrow> (Inl e, idx1, w2)
             | (Inr u, w2) \<Rightarrow> (Inr deletedRef, idx1, w2)))"

end
