(* ===== verification/IndexTrie.thy ===== *)
theory IndexTrie
  imports Index
begin

text \<open>
  The index as a trie.  manifest_view is what the feeds and blobs hold under a
  manifest's name; trie says that the manifests below a node form a Patricia
  trie (entries sorted by first byte, no two edges with the same first byte, no
  empty edge); tfind is the abstract search in such a trie.  The lemmas show that
  Get computes tfind, that Put gives a trie whose tfind is updated at the key
  and unchanged at every other key, and that an operation changes nothing
  outside the subtree it works on.
\<close>

section \<open>The trie below a manifest\<close>

type_synonym manview = "string \<rightharpoonup> Manifest"

definition manifest_view ::
  "'w services \<Rightarrow> nat \<Rightarrow> feedview \<Rightarrow> blobview \<Rightarrow> Address \<Rightarrow> bytes \<Rightarrow> manview" where
  "manifest_view sv maxlen fs bs u pw name =
     (if length name > maxlen then None else
      case fs (u, HashString sv name, pw) of
        Some (Raw ref) \<Rightarrow> (case bs ref of Some (Doc (DManifest m)) \<Rightarrow> Some m | _ \<Rightarrow> None)
      | _ \<Rightarrow> None)"

text \<open>The position of an entry: 0 for an empty name, else one more than the
  first byte.\<close>

definition bkey :: "string \<Rightarrow> nat" where
  "bkey n = (if n = [] then 0 else Suc (of_char (hd n)))"

definition node_ok :: "Entry list \<Rightarrow> bool" where
  "node_ok es \<longleftrightarrow>
     sorted_wrt (\<lambda>a b. bkey (eName a) < bkey (eName b) \<or> (eName a = [] \<and> eName b = [])) es
     \<and> (\<forall>e \<in> set es. eManifest e = None \<and>
          (eEType e = leafEntry \<or> (eEType e = intermediateEntry \<and> eName e \<noteq> [])))"

text \<open>The texts of a manifest survive json: its name is valid, and the names of the entries,
  which are cut at any byte, are ASCII.\<close>

definition text_ok :: "Manifest \<Rightarrow> bool" where
  "text_ok m \<longleftrightarrow> valid_utf8 (mName m) \<and> (\<forall>e \<in> set (mEntries m). ascii (eName e))"

inductive trie :: "manview \<Rightarrow> Manifest \<Rightarrow> bool" for V where
  trieI: "\<lbrakk>node_ok (mEntries m) \<and> text_ok m;
     \<forall>e \<in> set (mEntries m). eEType e = intermediateEntry \<longrightarrow>
       (\<exists>c. V (mName m @ eName e) = Some c \<and> mName c = mName m @ eName e \<and> trie V c)\<rbrakk>
   \<Longrightarrow> trie V m"

inductive_cases trieE: "trie V m"

definition cand :: "Entry list \<Rightarrow> string \<Rightarrow> Entry option" where
  "cand es k = find (\<lambda>e. bkey (eName e) = bkey k) es"

function tfind :: "manview \<Rightarrow> Manifest \<Rightarrow> string \<Rightarrow> bytes list option" where
  "tfind V m k =
     (case cand (mEntries m) k of
        None \<Rightarrow> None
      | Some e \<Rightarrow>
          if eEType e = leafEntry then (if eName e = k then Some (eRef e) else None)
          else if eName e \<noteq> [] \<and> prefix (eName e) k then
            (case V (mName m @ eName e) of
               None \<Rightarrow> None | Some c \<Rightarrow> tfind V c (drop (length (eName e)) k))
          else None)"
  by pat_completeness auto
termination
proof (relation "measure (\<lambda>(V, m, k). length k)")
  fix V m k e c
  assume "\<not> eEType e = leafEntry" "eName e \<noteq> [] \<and> prefix (eName e) k"
  then have "length (eName e) \<le> length k" "0 < length (eName e)" by (auto dest: prefix_length_le)
  then have "length (drop (length (eName e)) k) < length k" unfolding length_drop by linarith
  then show "((V, c, drop (length (eName e)) k), V, m, k) \<in> measure (\<lambda>(V, m, k). length k)"
    by (simp only: in_measure split_conv)
qed simp

declare tfind.simps [simp del]

lemma bkey_simps [simp]: "bkey [] = 0" "bkey (c # s) = Suc (of_char c)" "(bkey n = 0) = (n = [])"
  "(0 < bkey n) = (n \<noteq> [])"
  by (simp_all add: bkey_def)

lemma bkey_eq_iff: "bkey (c # s) = bkey n \<longleftrightarrow> (\<exists>s'. n = c # s')"
  by (cases n) auto

lemma bkey_append [simp]: "a \<noteq> [] \<Longrightarrow> bkey (a @ b) = bkey a"
  by (simp add: bkey_def)

lemma bkey_prefix: "\<lbrakk>prefix a k; a \<noteq> []\<rbrakk> \<Longrightarrow> bkey a = bkey k"
  by (auto simp: prefix_def)

section \<open>Longest common prefixes\<close>

lemma matchLen_take: "take (matchLen a b) a = take (matchLen a b) b"
  by (induction a b rule: matchLen.induct) auto

lemma matchLen_le: "matchLen a b \<le> length a" "matchLen a b \<le> length b"
  by (induction a b rule: matchLen.induct) auto

lemma matchLen_rest:
  "\<lbrakk>drop (matchLen a b) a = x # xs; drop (matchLen a b) b = y # ys\<rbrakk> \<Longrightarrow> x \<noteq> y"
  by (induction a b rule: matchLen.induct) (auto split: if_splits)

lemma matchLen_pos: "0 < matchLen a b \<longleftrightarrow> a \<noteq> [] \<and> b \<noteq> [] \<and> hd a = hd b"
  by (cases a; cases b) auto

lemma lcp_props:
  assumes "longestCommonPrefix a b = (p, x, y)" "p \<noteq> []"
  shows "a = p @ x" "b = p @ y" "x = [] \<or> y = [] \<or> hd x \<noteq> hd y"
proof -
  let ?n = "matchLen a b"
  from assms have n: "p = take ?n a" "x = drop ?n a" "y = drop ?n b"
    by (auto simp: longestCommonPrefix_def Let_def split: if_splits)
  then show "a = p @ x" by simp
  have "p = take ?n b" using n(1) matchLen_take by simp
  with n show "b = p @ y" by (metis append_take_drop_id)
  show "x = [] \<or> y = [] \<or> hd x \<noteq> hd y"
    using matchLen_rest [of a b] n by (cases x; cases y) fastforce+
qed

lemma lcp_nonempty: "fst (longestCommonPrefix a b) \<noteq> [] \<longleftrightarrow> a \<noteq> [] \<and> bkey a = bkey b"
proof -
  have "fst (longestCommonPrefix a b) \<noteq> [] \<longleftrightarrow> 0 < matchLen a b"
    using matchLen_le [of a b] by (auto simp: longestCommonPrefix_def Let_def)
  then show ?thesis by (cases a; cases b) (auto simp: matchLen_pos)
qed

lemma cand_Nil [simp]: "cand [] k = None"
  by (simp add: cand_def)

lemma first_sharing_cand:
  assumes "key \<noteq> []" "\<forall>e \<in> set es. eEType e = leafEntry \<or> eEType e = intermediateEntry"
  shows "cand es key = map_option (\<lambda>i. es ! i) (first_sharing es key)"
  using assms(2)
proof (induction es)
  case (Cons e es)
  have "fst (longestCommonPrefix (eName e) key) \<noteq> [] \<longleftrightarrow> bkey (eName e) = bkey key"
    using assms(1) by (auto simp: lcp_nonempty)
  with Cons assms(1) show ?case
    by (auto simp: cand_def option.map_comp comp_def cong: option.map_cong)
qed simp

section \<open>Sorted insertion\<close>

lemma byte_gt_bkey: "\<lbrakk>a \<noteq> []; b \<noteq> []\<rbrakk> \<Longrightarrow> byte_gt (hd a) (hd b) \<longleftrightarrow> bkey b < bkey a"
  by (simp add: byte_gt_def bkey_def)

lemma add_loop_True:
  "\<forall>e \<in> set es. eName e \<noteq> eName x \<Longrightarrow> add_loop x es True acc = Some (acc @ es)"
  by (induction es arbitrary: acc) auto

lemma add_loop_False:
  "\<lbrakk>\<forall>e \<in> set es. eName e \<noteq> eName x; eName x \<noteq> []\<rbrakk> \<Longrightarrow>
   add_loop x es False acc =
     Some (acc @ takeWhile (\<lambda>e. bkey (eName e) \<le> bkey (eName x)) es
             @ x # dropWhile (\<lambda>e. bkey (eName e) \<le> bkey (eName x)) es)"
  by (induction es arbitrary: acc) (auto simp: byte_gt_bkey add_loop_True not_less)

definition ent_less :: "Entry \<Rightarrow> Entry \<Rightarrow> bool" where
  "ent_less a b = (bkey (eName a) < bkey (eName b) \<or> (eName a = [] \<and> eName b = []))"

lemma node_ok_alt:
  "node_ok es \<longleftrightarrow> sorted_wrt ent_less es \<and> (\<forall>e \<in> set es. eManifest e = None \<and>
     (eEType e = leafEntry \<or> (eEType e = intermediateEntry \<and> eName e \<noteq> [])))"
  by (simp add: node_ok_def ent_less_def [abs_def])

lemma node_okD:
  "\<lbrakk>node_ok es; e \<in> set es\<rbrakk> \<Longrightarrow> eManifest e = None"
  "\<lbrakk>node_ok es; e \<in> set es\<rbrakk> \<Longrightarrow> eEType e = leafEntry \<or> eEType e = intermediateEntry"
  "\<lbrakk>node_ok es; e \<in> set es; eEType e = intermediateEntry\<rbrakk> \<Longrightarrow> eName e \<noteq> []"
  by (auto simp: node_ok_def)

lemma takeWhile_sorted_split:
  assumes "sorted_wrt ent_less es" "\<forall>e \<in> set es. bkey (eName e) \<noteq> bkey k" "k \<noteq> []"
  shows "\<forall>e \<in> set (dropWhile (\<lambda>e. bkey (eName e) \<le> bkey k) es). bkey k < bkey (eName e)"
  using assms
proof (induction es)
  case (Cons e es)
  show ?case
  proof (cases "bkey (eName e) \<le> bkey k")
    case True
    with Cons show ?thesis by simp
  next
    case False
    with Cons.prems show ?thesis by (auto simp: ent_less_def)
  qed
qed simp

lemma addEntrySorted_new:
  assumes "node_ok es" "\<forall>e \<in> set es. bkey (eName e) \<noteq> bkey (eName x)" "eName x \<noteq> []"
  shows "\<exists>es1 es2. es = es1 @ es2 \<and> addEntrySorted es x = es1 @ x # es2
    \<and> (\<forall>e \<in> set es1. bkey (eName e) < bkey (eName x)) \<and> (\<forall>e \<in> set es2. bkey (eName x) < bkey (eName e))"
proof -
  let ?P = "\<lambda>e. bkey (eName e) \<le> bkey (eName x)"
  from assms have "\<forall>e \<in> set es. eName e \<noteq> eName x" by fastforce
  then have "addEntrySorted es x = takeWhile ?P es @ x # dropWhile ?P es"
    using assms(3) by (auto simp: addEntrySorted_def add_loop_False)
  moreover have "\<forall>e \<in> set (dropWhile ?P es). bkey (eName x) < bkey (eName e)"
    using assms by (intro takeWhile_sorted_split) (auto simp: node_ok_alt)
  moreover have "\<forall>e \<in> set (takeWhile ?P es). bkey (eName e) < bkey (eName x)"
    using assms(2) by (metis le_neq_implies_less set_takeWhileD)
  ultimately show ?thesis by (intro exI [of _ "takeWhile ?P es"] exI [of _ "dropWhile ?P es"]) simp
qed

lemma cand_append: "cand (es1 @ es2) k = (case cand es1 k of None \<Rightarrow> cand es2 k | Some e \<Rightarrow> Some e)"
  by (induction es1) (auto simp: cand_def)

lemma cand_Cons: "cand (e # es) k = (if bkey (eName e) = bkey k then Some e else cand es k)"
  by (simp add: cand_def)

lemma cand_None_iff: "cand es k = None \<longleftrightarrow> (\<forall>e \<in> set es. bkey (eName e) \<noteq> bkey k)"
  by (auto simp: cand_def find_None_iff)

lemma cand_SomeD: "cand es k = Some e \<Longrightarrow> e \<in> set es \<and> bkey (eName e) = bkey k"
  by (auto simp: cand_def find_Some_iff)

section \<open>Frames\<close>

text \<open>below V V' p: the view V' has every manifest of V whose name extends p.\<close>

definition below :: "manview \<Rightarrow> manview \<Rightarrow> string \<Rightarrow> bool" where
  "below V V' p \<longleftrightarrow> (\<forall>n x. V n = Some x \<longrightarrow> strict_prefix p n \<longrightarrow> V' n = Some x)"

lemma belowD: "\<lbrakk>below V V' p; V n = Some x; strict_prefix p n\<rbrakk> \<Longrightarrow> V' n = Some x"
  by (simp add: below_def)

lemma below_mono: "\<lbrakk>below V V' p; prefix p q\<rbrakk> \<Longrightarrow> below V V' q"
  unfolding below_def by (metis prefix_order.le_less_trans)

lemma trie_childD:
  assumes "trie V m" "e \<in> set (mEntries m)" "eEType e = intermediateEntry"
  obtains c where "V (mName m @ eName e) = Some c" "mName c = mName m @ eName e" "trie V c"
  using assms by (elim trieE) blast

lemma trie_node: "trie V m \<Longrightarrow> node_ok (mEntries m)"
  by (auto elim: trieE)

lemma trie_text: "trie V m \<Longrightarrow> text_ok m"
  by (auto elim: trieE)

lemma text_okD: "text_ok m \<Longrightarrow> valid_utf8 (mName m)" "\<lbrakk>text_ok m; e \<in> set (mEntries m)\<rbrakk> \<Longrightarrow> ascii (eName e)"
  by (auto simp: text_ok_def)

lemma strict_prefix_append: "a \<noteq> [] \<Longrightarrow> strict_prefix p (p @ a)"
  by (simp add: strict_prefix_def)

lemma trie_below: "trie V m \<Longrightarrow> below V V' (mName m) \<Longrightarrow> trie V' m"
proof (induction rule: trie.induct)
  case (trieI m)
  show ?case
  proof (rule trie.trieI [OF trieI(1)], intro ballI impI)
    fix e assume e: "e \<in> set (mEntries m)" "eEType e = intermediateEntry"
    with trieI(2) obtain c where c: "V (mName m @ eName e) = Some c" "mName c = mName m @ eName e"
      "below V V' (mName c) \<longrightarrow> trie V' c" by blast
    have "eName e \<noteq> []" using node_okD(3) [OF conjunct1 [OF trieI(1)] e] .
    then have "V' (mName m @ eName e) = Some c"
      using belowD [OF trieI(3) c(1)] by (simp add: strict_prefix_append)
    moreover have "below V V' (mName c)" using trieI(3) by (rule below_mono) (simp add: c(2))
    ultimately show "\<exists>c. V' (mName m @ eName e) = Some c \<and> mName c = mName m @ eName e \<and> trie V' c"
      using c by blast
  qed
qed

lemma tfind_below: "\<lbrakk>trie V m; below V V' (mName m)\<rbrakk> \<Longrightarrow> tfind V' m k = tfind V m k"
proof (induction V m k rule: tfind.induct)
  case (1 V m k)
  show ?case
  proof (cases "cand (mEntries m) k")
    case None
    then show ?thesis by (simp add: tfind.simps)
  next
    case (Some e)
    then have e: "e \<in> set (mEntries m)" by (auto dest: cand_SomeD)
    show ?thesis
    proof (cases "eEType e = leafEntry \<or> \<not> (eName e \<noteq> [] \<and> prefix (eName e) k)")
      case True
      with Some show ?thesis by (auto simp: tfind.simps)
    next
      case False
      then have it: "eEType e = intermediateEntry"
        using node_okD(2) [OF trie_node [OF 1(2)] e] by simp
      from trie_childD [OF 1(2) e it] obtain c
        where c: "V (mName m @ eName e) = Some c" "mName c = mName m @ eName e" "trie V c" .
      have c': "V' (mName m @ eName e) = Some c"
        using belowD [OF 1(3) c(1)] False by (simp add: strict_prefix_append)
      have "below V V' (mName c)" using 1(3) by (rule below_mono) (simp add: c(2))
      with 1(1) [OF Some _ _ c(1)] False c(3) have "tfind V' c (drop (length (eName e)) k) = tfind V c (drop (length (eName e)) k)"
        by blast
      with Some False c(1) c' show ?thesis by (subst (1 2) tfind.simps) simp
    qed
  qed
qed

section \<open>The search of the code\<close>

lemma scan_None:
  "\<lbrakk>node_ok es; cand es key = None\<rbrakk> \<Longrightarrow> scan_entries es key i = NotHere"
proof (induction es arbitrary: i)
  case (Cons e es)
  have ne: "bkey (eName e) \<noteq> bkey key" and c: "cand es key = None"
    using Cons.prems(2) by (auto simp: cand_Cons split: if_splits)
  have "\<not> prefix (eName e) key" if "eEType e = intermediateEntry"
    using bkey_prefix ne node_okD(3) [OF Cons.prems(1), of e] that by auto
  moreover have "node_ok es" using Cons.prems(1) by (simp add: node_ok_alt)
  ultimately show ?case using Cons.IH [OF _ c] ne by (auto simp: HasPrefix_def)
qed simp

lemma cand_tail_None:
  assumes "node_ok (e # es)" "bkey (eName e) = bkey key" "key \<noteq> []"
  shows "cand es key = None"
  using assms by (auto simp: cand_None_iff node_ok_alt ent_less_def)

lemma scan_Some:
  "\<lbrakk>node_ok es; cand es key = Some e\<rbrakk> \<Longrightarrow>
     if eEType e = leafEntry \<and> eName e = key
     then \<exists>j < length es. es ! j = e \<and> scan_entries es key i = Here (i + j)
     else scan_entries es key i =
            (if eEType e = intermediateEntry \<and> prefix (eName e) key then Below e else NotHere)"
proof (induction es arbitrary: i)
  case (Cons e0 es)
  have n: "node_ok es" using Cons.prems(1) by (simp add: node_ok_alt)
  show ?case
  proof (cases "bkey (eName e0) = bkey key")
    case True
    with Cons.prems(2) have e: "e0 = e" by (simp add: cand_Cons)
    have empty: "eName e = [] \<longleftrightarrow> key = []" using True e by (metis bkey_simps(3))
    have nogt: "eName e \<noteq> [] \<Longrightarrow> \<not> byte_gt (hd (eName e)) (hd key)"
      using byte_gt_bkey [of "eName e" key] empty True e by simp
    show ?thesis
    proof (cases "key = []")
      case key: True
      then have "eEType e = leafEntry"
        using empty node_okD(2,3) [OF Cons.prems(1), of e] e by auto
      then show ?thesis using key empty by (auto simp: e intro: exI [of _ 0])
    next
      case False
      then have "scan_entries es key (Suc i) = NotHere"
        using cand_tail_None [OF Cons.prems(1) True] scan_None [OF n] by blast
      then show ?thesis using empty nogt e False by (auto simp: HasPrefix_def)
    qed
  next
    case False
    with Cons.prems(2) have c: "cand es key = Some e" by (simp add: cand_Cons)
    then have "bkey (eName e0) < bkey (eName e) \<or> (eName e0 = [] \<and> eName e = [])" "bkey (eName e) = bkey key"
      using Cons.prems(1) by (auto dest!: cand_SomeD simp: node_ok_alt ent_less_def)
    with False have lt: "bkey (eName e0) < bkey key" by (metis bkey_simps(3))
    then have k: "key \<noteq> []" by auto
    have nogt: "eName e0 \<noteq> [] \<Longrightarrow> \<not> byte_gt (hd (eName e0)) (hd key)"
      using byte_gt_bkey [of "eName e0" key] k lt by simp
    have nopre: "eEType e0 = intermediateEntry \<Longrightarrow> \<not> prefix (eName e0) key"
      using bkey_prefix False node_okD(3) [OF Cons.prems(1), of e0] by auto
    have st: "scan_entries (e0 # es) key i = scan_entries es key (Suc i)"
      using k nogt nopre False by (auto simp: HasPrefix_def)
    show ?thesis using Cons.IH [OF n c, of "Suc i"] unfolding st
      by (auto split: if_splits)
  qed
qed simp

text \<open>What findManifest needs of the services: that loading a manifest gives
  what the view holds and changes nothing the view shows.\<close>

lemma tfind_None: "cand (mEntries m) k = None \<Longrightarrow> tfind V m k = None"
  by (simp add: tfind.simps)

lemma tfind_leaf:
  "\<lbrakk>cand (mEntries m) k = Some e; eEType e = leafEntry\<rbrakk> \<Longrightarrow>
     tfind V m k = (if eName e = k then Some (eRef e) else None)"
  by (simp add: tfind.simps)

lemma tfind_branch:
  "\<lbrakk>cand (mEntries m) k = Some e; eEType e = intermediateEntry; eName e \<noteq> [];
    V (mName m @ eName e) = Some c\<rbrakk> \<Longrightarrow>
     tfind V m k = (if prefix (eName e) k then tfind V c (drop (length (eName e)) k) else None)"
  by (subst tfind.simps) simp

lemma TrimPrefix_drop: "prefix p k \<Longrightarrow> TrimPrefix k p = drop (length p) k"
  by (simp add: TrimPrefix_def)

section \<open>Changing one node\<close>

text \<open>Nothing changed but the manifest p and what lies below its edge for the
  key.\<close>

definition node_frame :: "manview \<Rightarrow> manview \<Rightarrow> string \<Rightarrow> string \<Rightarrow> bool" where
  "node_frame V V' p key \<longleftrightarrow>
     (\<forall>n x. V n = Some x \<longrightarrow> n \<noteq> p \<longrightarrow> (\<forall>s. n = p @ s \<longrightarrow> bkey s \<noteq> bkey key) \<longrightarrow> V' n = Some x)"

lemma other_child:
  assumes t: "trie V m" and f: "node_frame V V' (mName m) key" and e: "e \<in> set (mEntries m)"
    "eEType e = intermediateEntry" "bkey (eName e) \<noteq> bkey key"
  obtains c where "V (mName m @ eName e) = Some c" "mName c = mName m @ eName e"
    "V' (mName m @ eName e) = Some c" "trie V' c" "\<And>k. tfind V' c k = tfind V c k"
proof -
  have ne: "eName e \<noteq> []" using node_okD(3) [OF trie_node [OF t]] e by blast
  obtain c where c: "V (mName m @ eName e) = Some c" "mName c = mName m @ eName e" "trie V c"
    using trie_childD [OF t e(1,2)] by blast
  have b: "below V V' (mName c)"
    unfolding below_def
  proof (intro allI impI)
    fix n x assume n: "V n = Some x" "strict_prefix (mName c) n"
    then obtain r where r: "n = mName m @ eName e @ r" by (auto simp: c(2) strict_prefix_def prefix_def)
    have "bkey (eName e @ r) \<noteq> bkey key" using ne e(3) by simp
    with f n(1) r ne show "V' n = Some x" by (auto simp: node_frame_def)
  qed
  have "V' (mName m @ eName e) = Some c"
    using f c(1) ne e(3) by (auto simp: node_frame_def)
  with that c trie_below [OF c(3) b] tfind_below [OF c(3) b] show ?thesis by blast
qed

lemma node_result:
  assumes t: "trie V m" and f: "node_frame V V' (mName m) key" and n: "mName m' = mName m"
    and ok: "node_ok (mEntries m')"
    and tx: "\<And>e. \<lbrakk>e \<in> set (mEntries m'); bkey (eName e) = bkey key\<rbrakk> \<Longrightarrow> ascii (eName e)"
    and h1: "\<And>k. bkey k \<noteq> bkey key \<Longrightarrow> cand (mEntries m') k = cand (mEntries m) k"
    and h2: "\<And>e. \<lbrakk>e \<in> set (mEntries m'); bkey (eName e) \<noteq> bkey key\<rbrakk> \<Longrightarrow> e \<in> set (mEntries m)"
    and h3: "\<And>e. \<lbrakk>e \<in> set (mEntries m'); bkey (eName e) = bkey key; eEType e = intermediateEntry\<rbrakk> \<Longrightarrow>
        \<exists>c. V' (mName m @ eName e) = Some c \<and> mName c = mName m @ eName e \<and> trie V' c"
    and h4: "\<And>k. bkey k = bkey key \<Longrightarrow> tfind V' m' k = (if k = key then nvo else tfind V m k)"
  shows "trie V' m' \<and> (\<forall>k. tfind V' m' k = (if k = key then nvo else tfind V m k))"
proof
  have "ascii (eName e)" if "e \<in> set (mEntries m')" for e
    using tx [OF that] text_okD(2) [OF trie_text [OF t] h2 [OF that]] by blast
  then have tok: "node_ok (mEntries m') \<and> text_ok m'"
    using ok n text_okD(1) [OF trie_text [OF t]] by (simp add: text_ok_def)
  show "trie V' m'"
  proof (rule trieI [OF tok], intro ballI impI)
    fix e assume e: "e \<in> set (mEntries m')" "eEType e = intermediateEntry"
    show "\<exists>c. V' (mName m' @ eName e) = Some c \<and> mName c = mName m' @ eName e \<and> trie V' c"
    proof (cases "bkey (eName e) = bkey key")
      case True
      then show ?thesis using h3 [OF e(1) True e(2)] n by simp
    next
      case False
      then show ?thesis using other_child [OF t f h2 [OF e(1) False] e(2) False] n by metis
    qed
  qed
  show "\<forall>k. tfind V' m' k = (if k = key then nvo else tfind V m k)"
  proof
    fix k
    show "tfind V' m' k = (if k = key then nvo else tfind V m k)"
    proof (cases "bkey k = bkey key")
      case True
      then show ?thesis by (rule h4)
    next
      case False
      have c: "cand (mEntries m') k = cand (mEntries m) k" using h1 [OF False] .
      have "tfind V' m' k = tfind V m k"
      proof (cases "cand (mEntries m) k")
        case None
        with c show ?thesis by (simp add: tfind_None)
      next
        case (Some e)
        then have e: "e \<in> set (mEntries m)" "bkey (eName e) \<noteq> bkey key"
          using False by (auto dest: cand_SomeD)
        show ?thesis
        proof (cases "eEType e = leafEntry")
          case True
          with Some c show ?thesis by (simp add: tfind_leaf)
        next
          case nl: False
          then have it: "eEType e = intermediateEntry" using node_okD(2) [OF trie_node [OF t] e(1)] by simp
          from other_child [OF t f e(1) it e(2)] obtain ch where
            "V (mName m @ eName e) = Some ch" "V' (mName m @ eName e) = Some ch"
            "\<And>k. tfind V' ch k = tfind V ch k" by metis
          with node_okD(3) [OF trie_node [OF t] e(1) it] Some c it show ?thesis
            by (simp add: tfind_branch n)
        qed
      qed
      with False show ?thesis by auto
    qed
  qed
qed

text \<open>The two shapes a changed list of entries takes: a new entry in its place,
  and an entry replaced by one with the same first byte.\<close>

definition entry_ok :: "Entry \<Rightarrow> bool" where
  "entry_ok e \<longleftrightarrow> eManifest e = None \<and>
     (eEType e = leafEntry \<or> (eEType e = intermediateEntry \<and> eName e \<noteq> []))"

lemma node_ok_entry: "node_ok es \<longleftrightarrow> sorted_wrt ent_less es \<and> (\<forall>e \<in> set es. entry_ok e)"
  by (simp add: node_ok_alt entry_ok_def)

lemma node_ok_insert:
  assumes "node_ok (es1 @ es2)" "entry_ok x"
    "\<forall>e \<in> set es1. bkey (eName e) < bkey (eName x)" "\<forall>e \<in> set es2. bkey (eName x) < bkey (eName e)"
  shows "node_ok (es1 @ x # es2)"
    "bkey k \<noteq> bkey (eName x) \<Longrightarrow> cand (es1 @ x # es2) k = cand (es1 @ es2) k"
    "bkey k = bkey (eName x) \<Longrightarrow> cand (es1 @ x # es2) k = Some x"
proof -
  show "node_ok (es1 @ x # es2)"
    using assms by (auto simp: node_ok_entry sorted_wrt_append ent_less_def)
  show "bkey k \<noteq> bkey (eName x) \<Longrightarrow> cand (es1 @ x # es2) k = cand (es1 @ es2) k"
    by (auto simp: cand_append cand_Cons split: option.split)
  assume "bkey k = bkey (eName x)"
  moreover from this assms(3) have "cand es1 k = None" by (auto simp: cand_None_iff)
  ultimately show "cand (es1 @ x # es2) k = Some x" by (simp add: cand_append cand_Cons)
qed

lemma node_ok_replace:
  assumes ok: "node_ok es" and i: "i < length es" "bkey (eName (es ! i)) = bkey (eName x)"
    and x: "entry_ok x" "eName x \<noteq> []"
  shows "node_ok (es[i := x])"
    "bkey k \<noteq> bkey (eName x) \<Longrightarrow> cand (es[i := x]) k = cand es k"
    "bkey k = bkey (eName x) \<Longrightarrow> cand (es[i := x]) k = Some x"
    "e \<in> set (es[i := x]) \<Longrightarrow> bkey (eName e) = bkey (eName x) \<Longrightarrow> e = x"
proof -
  define es1 es2 where d: "es1 = take i es" "es2 = drop (Suc i) es"
  have es: "es = es1 @ es ! i # es2" using i(1) by (simp add: d id_take_nth_drop [symmetric])
  have es': "es[i := x] = es1 @ x # es2" using i(1) by (simp add: d upd_conv_take_nth_drop)
  define e0 where "e0 = es ! i"
  have ok': "node_ok (es1 @ e0 # es2)" using ok by (simp only: e0_def es [symmetric])
  have c: "cand es k = cand (es1 @ e0 # es2) k" for k by (simp only: e0_def es [symmetric])
  have "eName e0 \<noteq> []" using i(2) x(2) by (metis bkey_simps(3) e0_def)
  then have lt: "\<forall>e \<in> set es1. bkey (eName e) < bkey (eName x)" "\<forall>e \<in> set es2. bkey (eName x) < bkey (eName e)"
    "node_ok (es1 @ es2)"
    using ok' i(2) by (auto simp: node_ok_entry sorted_wrt_append ent_less_def e0_def [symmetric])
  note ins = node_ok_insert [OF lt(3) x(1) lt(1,2)]
  show "node_ok (es[i := x])" using ins(1) es' by simp
  show "bkey k \<noteq> bkey (eName x) \<Longrightarrow> cand (es[i := x]) k = cand es k"
    using ins(2) es' i(2) unfolding c by (auto simp: cand_append cand_Cons e0_def split: option.split)
  show "bkey k = bkey (eName x) \<Longrightarrow> cand (es[i := x]) k = Some x" using ins(3) es' by simp
  show "e \<in> set (es[i := x]) \<Longrightarrow> bkey (eName e) = bkey (eName x) \<Longrightarrow> e = x"
    using lt(1,2) unfolding es' by fastforce
qed

lemma cand_unique:
  assumes "node_ok es" "i < length es" "eName (es ! i) \<noteq> []" "bkey k = bkey (eName (es ! i))"
  shows "cand es k = Some (es ! i)"
proof -
  have "entry_ok (es ! i)" using assms(1,2) by (simp add: node_ok_entry)
  from node_ok_replace(3) [OF assms(1,2) refl this assms(3,4)] show ?thesis by simp
qed

section \<open>The cases of Put on the view\<close>

definition except :: "manview \<Rightarrow> manview \<Rightarrow> string set \<Rightarrow> bool" where
  "except V V' X \<longleftrightarrow> (\<forall>n x. V n = Some x \<longrightarrow> n \<notin> X \<longrightarrow> V' n = Some x)"

lemma except_node_frame:
  "except V V' {p} \<Longrightarrow> node_frame V V' p key"
  "\<lbrakk>except V V' {p, p @ a}; a \<noteq> []; bkey a = bkey key\<rbrakk> \<Longrightarrow> node_frame V V' p key"
  by (auto simp: except_def node_frame_def)

lemma put_new_entry:
  assumes t: "trie V m" and c: "key = [] \<or> cand (mEntries m) key = None"
    and n: "mName m' = mName m"
    and es: "mEntries m' = addEntrySorted (mEntries m) (Entry key leafEntry [val] None)"
    and f: "except V V' {mName m}" and ak: "ascii key"
  shows "trie V' m' \<and> (\<forall>k. tfind V' m' k = (if k = key then Some [val] else tfind V m k))"
proof -
  let ?x = "Entry key leafEntry [val] None" and ?es = "mEntries m"
  have ok: "node_ok ?es" using trie_node [OF t] .
  have xok: "entry_ok ?x" by (simp add: entry_ok_def)
  obtain es1 es2 where sp: "?es = es1 @ es2" "mEntries m' = es1 @ ?x # es2"
    and nk: "node_ok (es1 @ ?x # es2)"
    and c1: "\<And>k. bkey k \<noteq> bkey key \<Longrightarrow> cand (es1 @ ?x # es2) k = cand ?es k"
    and c2: "\<And>k. bkey k = bkey key \<Longrightarrow> cand (es1 @ ?x # es2) k = Some ?x"
    and u: "\<And>e. e \<in> set (es1 @ es2) \<Longrightarrow> bkey (eName e) = bkey key \<Longrightarrow> eEType e = leafEntry"
  proof (cases "key = []")
    case True
    have e: "?es = [] @ ?es" "mEntries m' = [] @ ?x # ?es"
      using True es by (simp_all add: addEntrySorted_def)
    have "node_ok ([] @ ?x # ?es)"
      using ok True xok by (auto simp: node_ok_entry ent_less_def)
    moreover have "eEType e = leafEntry" if "e \<in> set ?es" "bkey (eName e) = bkey key" for e
      using that True node_okD(2,3) [OF ok] by auto
    ultimately show ?thesis using that [OF e] True by (auto simp: cand_Cons)
  next
    case False
    with c have "\<forall>e \<in> set ?es. bkey (eName e) \<noteq> bkey (eName ?x)" by (simp add: cand_None_iff)
    from addEntrySorted_new [OF ok this] False obtain es1 es2 where
      e: "?es = es1 @ es2" "mEntries m' = es1 @ ?x # es2"
      "\<forall>e \<in> set es1. bkey (eName e) < bkey (eName ?x)" "\<forall>e \<in> set es2. bkey (eName ?x) < bkey (eName e)"
      using es by auto
    note ins = node_ok_insert [OF ok [unfolded e(1)] xok e(3,4)]
    show ?thesis
      by (rule that [OF e(1,2)]) (use ins e in auto)
  qed
  show ?thesis
  proof (rule node_result [OF t except_node_frame(1) [OF f] n])
    fix k assume "bkey k = bkey key"
    moreover have "tfind V m k = None" if "k \<noteq> key" "bkey k = bkey key"
    proof -
      from that have "key \<noteq> []" by auto
      with c have "cand ?es k = None" using that by (simp add: cand_def)
      then show ?thesis by (rule tfind_None)
    qed
    ultimately show "tfind V' m' k = (if k = key then Some [val] else tfind V m k)"
      using c2 [of k] sp(2) tfind_leaf [of m' k ?x V'] by auto
  qed (use nk c1 sp u ak text_okD(2) [OF trie_text [OF t]] in auto)
qed

lemma put_replace_leaf:
  assumes t: "trie V m" and i: "i < length (mEntries m)" "mEntries m ! i = e"
    and e: "eEType e = leafEntry" "eName e = key" "key \<noteq> []"
    and n: "mName m' = mName m"
    and es: "mEntries m' = (mEntries m)[i := Entry key leafEntry rs None]"
    and f: "except V V' {mName m}"
  shows "trie V' m' \<and> (\<forall>k. tfind V' m' k = (if k = key then Some rs else tfind V m k))"
proof -
  let ?x = "Entry key leafEntry rs None"
  have ok: "node_ok (mEntries m)" using trie_node [OF t] .
  have bk: "bkey (eName (mEntries m ! i)) = bkey (eName ?x)" using i(2) e(2) by simp
  have xok: "entry_ok ?x" "eName ?x \<noteq> []" using e(3) by (simp_all add: entry_ok_def)
  note r = node_ok_replace [OF ok i(1) bk xok, folded es]
  have "entry_ok e" "e \<in> set (mEntries m)" using ok i by (auto simp: node_ok_entry)
  have old: "cand (mEntries m) k = Some e" if "bkey k = bkey key" for k
    using cand_unique [OF ok i(1)] i(2) e(2,3) that by simp
  show ?thesis
  proof (rule node_result [OF t except_node_frame(1) [OF f] n])
    fix e' assume "e' \<in> set (mEntries m')" "bkey (eName e') \<noteq> bkey key"
    then show "e' \<in> set (mEntries m)"
      using set_update_subset_insert [of "mEntries m" i ?x] es by auto
  next
    fix e' assume "e' \<in> set (mEntries m')" "bkey (eName e') = bkey key" "eEType e' = intermediateEntry"
    with r(4) [of e'] have "eEType ?x = intermediateEntry" by simp
    then show "\<exists>c. V' (mName m @ eName e') = Some c \<and> mName c = mName m @ eName e' \<and> trie V' c"
      by simp
  next
    fix k assume "bkey k = bkey key"
    then show "tfind V' m' k = (if k = key then Some rs else tfind V m k)"
      using r(3) [of k] tfind_leaf [of m' k ?x V'] old [of k] tfind_leaf [of m k e V] e by auto
  next
    fix e' assume "e' \<in> set (mEntries m')" "bkey (eName e') = bkey key"
    with r(4) [of e'] have "e' = ?x" by simp
    then show "ascii (eName e')"
      using text_okD(2) [OF trie_text [OF t] \<open>e \<in> set (mEntries m)\<close>] e(2) by simp
  qed (use r in auto)
qed

lemma two_entries:
  assumes "bkey (eName a) \<noteq> bkey (eName b)" "entry_ok a" "entry_ok b"
  shows "node_ok (addEntrySorted (addEntrySorted [] a) b)"
    "set (addEntrySorted (addEntrySorted [] a) b) = {a, b}"
    "cand (addEntrySorted (addEntrySorted [] a) b) k =
       (if bkey k = bkey (eName a) then Some a else if bkey k = bkey (eName b) then Some b else None)"
  using assms
  by (auto simp: addEntrySorted_def node_ok_entry ent_less_def cand_Cons byte_gt_bkey)

text \<open>The two-entry manifest of a split, below the label p: the new key's rest y
  is a leaf, the old entry keeps its values or its child under the rest x.\<close>

definition old_find :: "manview \<Rightarrow> Manifest \<Rightarrow> Entry \<Rightarrow> string \<Rightarrow> bytes list option" where
  "old_find V m e k =
     (if eEType e = leafEntry then (if eName e = k then Some (eRef e) else None)
      else if prefix (eName e) k
        then (case V (mName m @ eName e) of None \<Rightarrow> None | Some c \<Rightarrow> tfind V c (drop (length (eName e)) k))
      else None)"

lemma tfind_old_find:
  "\<lbrakk>cand (mEntries m) k = Some e; eName e \<noteq> []\<rbrakk> \<Longrightarrow> tfind V m k = old_find V m e k"
  by (simp add: tfind.simps old_find_def)

lemma split_node:
  assumes t: "trie V m" and e: "e \<in> set (mEntries m)" "eName e = p @ x" "p \<noteq> []"
    and xy: "x = [] \<or> y = [] \<or> hd x \<noteq> hd y" "p @ y \<noteq> eName e" "eEType e = intermediateEntry \<Longrightarrow> x \<noteq> []"
    and f: "except V V' {mName m, mName m @ p}"
    and N: "mName N = mName m @ p"
      "mEntries N = addEntrySorted (addEntrySorted [] (Entry y leafEntry [val] None)) (Entry x (eEType e) rf None)"
    and rf: "eEType e = leafEntry \<Longrightarrow> rf = eRef e" and ay: "ascii y"
  shows "trie V' N"
    "tfind V' N k = (if k = y then Some [val] else old_find V m e (p @ k))"
proof -
  let ?a = "Entry y leafEntry [val] None" and ?b = "Entry x (eEType e) rf None"
  have ty: "eEType e = leafEntry \<or> eEType e = intermediateEntry"
    using node_okD(2) [OF trie_node [OF t] e(1)] .
  have ne: "x \<noteq> [] \<or> y \<noteq> []" using xy(2) e(2) by auto
  have bk: "bkey x \<noteq> bkey y" using xy(1) ne by (cases x; cases y) auto
  have eok: "entry_ok ?a" "entry_ok ?b" using ty xy(3) by (auto simp: entry_ok_def)
  have "bkey (eName ?a) \<noteq> bkey (eName ?b)" using bk by simp
  note two = two_entries [OF this eok, folded N(2)]
  have child: "\<exists>c. V (mName m @ eName e) = Some c \<and> V' (mName m @ eName e) = Some c
      \<and> mName c = mName m @ eName e \<and> trie V' c \<and> (\<forall>k. tfind V' c k = tfind V c k)"
    if it: "eEType e = intermediateEntry"
  proof -
    obtain c where c: "V (mName m @ eName e) = Some c" "mName c = mName m @ eName e" "trie V c"
      using trie_childD [OF t e(1) it] by blast
    have x: "x \<noteq> []" using xy(3) [OF it] .
    have "below V V' (mName c)"
      using f x e(3) by (auto simp: below_def except_def c(2) e(2) strict_prefix_def prefix_def)
    note b = trie_below [OF c(3) this] tfind_below [OF c(3) this]
    have "mName m @ eName e \<notin> {mName m, mName m @ p}" using x e(3) by (simp add: e(2))
    with f c(1) have "V' (mName m @ eName e) = Some c" unfolding except_def by blast
    then show ?thesis using c(1,2) b(1) by (intro exI [of _ c]) (simp add: b(2))
  qed
  have "ascii (p @ x)" using text_okD(2) [OF trie_text [OF t] e(1)] by (simp only: e(2))
  then have "text_ok N"
    using two(2) ay text_okD(1) [OF trie_text [OF t]] valid_utf8_append [OF _ ascii_valid] by (auto simp: text_ok_def N(1))
  with two(1) have tN: "node_ok (mEntries N) \<and> text_ok N" by blast
  show "trie V' N"
  proof (rule trieI [OF tN], intro ballI impI)
    fix g assume gN: "g \<in> set (mEntries N)" and ig: "eEType g = intermediateEntry"
    have "g = ?a \<or> g = ?b" using gN unfolding two(2) by blast
    with ig have g: "g = ?b" "eEType e = intermediateEntry" by (elim disjE; simp)+
    from child [OF g(2)] obtain c where "V' (mName m @ eName e) = Some c"
      "mName c = mName m @ eName e" "trie V' c" by blast
    then show "\<exists>c. V' (mName N @ eName g) = Some c \<and> mName c = mName N @ eName g \<and> trie V' c"
      by (intro exI [of _ c]) (simp add: g(1) N(1) e(2))
  qed
  show "tfind V' N k = (if k = y then Some [val] else old_find V m e (p @ k))"
  proof (cases "bkey k = bkey y")
    case True
    then have "cand (mEntries N) k = Some ?a" using two(3) [of k] by simp
    moreover have "old_find V m e (p @ k) = None" if "k \<noteq> y"
    proof -
      have "x \<noteq> k" using True bk by auto
      moreover have "\<not> prefix x k" if "eEType e = intermediateEntry"
        using bkey_prefix [of x k] xy(3) [OF that] True bk by auto
      ultimately show ?thesis using ty by (auto simp: old_find_def e(2))
    qed
    ultimately show ?thesis by (auto simp: tfind_leaf)
  next
    case nk: False
    then have ky: "k \<noteq> y" by auto
    show ?thesis
    proof (cases "bkey k = bkey x")
      case True
      then have cd: "cand (mEntries N) k = Some ?b" using two(3) [of k] bk by auto
      show ?thesis
      proof (cases "eEType e = leafEntry")
        case True
        then show ?thesis using cd ky rf by (auto simp: tfind_leaf old_find_def e(2))
      next
        case False
        with ty have it: "eEType e = intermediateEntry" by simp
        from child [OF it] obtain c where c: "V (mName m @ eName e) = Some c"
          "V' (mName m @ eName e) = Some c" "\<forall>k. tfind V' c k = tfind V c k" by blast
        then have v: "V' (mName N @ eName ?b) = Some c" by (simp add: N(1) e(2))
        have b: "eEType ?b = intermediateEntry" "eName ?b \<noteq> []" using it xy(3) [OF it] by simp_all
        from tfind_branch [of N k ?b V' c, OF cd b v] it c(1,3) ky show ?thesis
          by (simp add: old_find_def e(2))
      qed
    next
      case False
      then have "cand (mEntries N) k = None" using two(3) [of k] nk by simp
      moreover have "old_find V m e (p @ k) = None"
        using False ty bkey_prefix [of x k] xy(3) by (auto simp: old_find_def e(2))
      ultimately show ?thesis using ky by (simp add: tfind_None)
    qed
  qed
qed

lemma put_split:
  assumes t: "trie V m" and i: "i < length (mEntries m)" "mEntries m ! i = e"
    and e: "eName e = p @ x" "key = p @ y" "p \<noteq> []"
    and xy: "x = [] \<or> y = [] \<or> hd x \<noteq> hd y" "key \<noteq> eName e" "eEType e = intermediateEntry \<Longrightarrow> x \<noteq> []"
    and f: "except V V' {mName m, mName m @ p}"
    and N: "V' (mName m @ p) = Some N" "mName N = mName m @ p"
      "mEntries N = addEntrySorted (addEntrySorted [] (Entry y leafEntry [val] None)) (Entry x (eEType e) rf None)"
    and rf: "eEType e = leafEntry \<Longrightarrow> rf = eRef e"
    and n: "mName m' = mName m"
    and es: "mEntries m' = (mEntries m)[i := Entry p intermediateEntry rf' None]" and ak: "ascii key"
  shows "trie V' m' \<and> (\<forall>k. tfind V' m' k = (if k = key then Some [val] else tfind V m k))"
proof -
  let ?x = "Entry p intermediateEntry rf' None"
  have ok: "node_ok (mEntries m)" using trie_node [OF t] .
  have em: "e \<in> set (mEntries m)" using i by auto
  have bk: "bkey (eName (mEntries m ! i)) = bkey (eName ?x)" using i(2) e by simp
  have xok: "entry_ok ?x" "eName ?x \<noteq> []" using e(3) by (simp_all add: entry_ok_def)
  note r = node_ok_replace [OF ok i(1) bk xok, folded es]
  have kk: "bkey key = bkey p" using e by simp
  have ne: "p @ y \<noteq> eName e" using xy(2) e(2) by simp
  have ap: "ascii p" "ascii y" using ak by (simp_all add: e(2))
  note sp = split_node [OF t em e(1,3) xy(1) ne xy(3) f N(2,3) rf ap(2)]
  have e0: "entry_ok e" "eName e \<noteq> []" using ok em e by (auto simp: node_ok_entry)
  have old: "cand (mEntries m) k = Some e" if "bkey k = bkey key" for k
    using cand_unique [OF ok i(1)] i(2) e0(2) e that by simp
  have "node_frame V V' (mName m) key" using except_node_frame(2) [OF f e(3)] kk by simp
  from t this n r(1) show ?thesis
  proof (rule node_result)
    fix e' assume "e' \<in> set (mEntries m')" "bkey (eName e') = bkey key"
    with r(4) [of e'] kk have "e' = ?x" by simp
    then show "ascii (eName e')" using ap(1) by simp
  next
    fix k assume "bkey k \<noteq> bkey key" then show "cand (mEntries m') k = cand (mEntries m) k"
      using r(2) kk by simp
  next
    fix e' assume "e' \<in> set (mEntries m')" "bkey (eName e') \<noteq> bkey key"
    then show "e' \<in> set (mEntries m)"
      using set_update_subset_insert [of "mEntries m" i ?x] es kk by auto
  next
    fix e' assume "e' \<in> set (mEntries m')" "bkey (eName e') = bkey key" "eEType e' = intermediateEntry"
    with r(4) [of e'] kk have "e' = ?x" by simp
    then show "\<exists>c. V' (mName m @ eName e') = Some c \<and> mName c = mName m @ eName e' \<and> trie V' c"
      using N(1,2) sp(1) by simp
  next
    fix k assume b: "bkey k = bkey key"
    then have "cand (mEntries m') k = Some ?x" using r(3) kk by simp
    moreover have "V' (mName m' @ eName ?x) = Some N" using N(1) n by simp
    ultimately have new: "tfind V' m' k = (if prefix p k then tfind V' N (drop (length p) k) else None)"
      using tfind_branch [of m' k ?x V' N] e(3) by simp
    have oldf: "tfind V m k = old_find V m e k"
      by (rule tfind_old_find [OF old [OF b] e0(2)])
    show "tfind V' m' k = (if k = key then Some [val] else tfind V m k)"
    proof (cases "prefix p k")
      case True
      then obtain s where s: "k = p @ s" by (auto simp: prefix_def)
      then show ?thesis using new oldf sp(2) [of s] e(2) by simp
    next
      case False
      then have "old_find V m e k = None"
        by (auto simp: old_find_def e(1) dest: append_prefixD)
      with False new oldf e(2) show ?thesis by auto
    qed
  qed
qed

section \<open>The result of Put\<close>

text \<open>Whether the search for a key ends on an entry with an empty name, the
  value stored at a branching point of the trie.\<close>

function at_branch :: "manview \<Rightarrow> Manifest \<Rightarrow> string \<Rightarrow> bool" where
  "at_branch V m k =
     (case cand (mEntries m) k of
        None \<Rightarrow> False
      | Some e \<Rightarrow>
          if eEType e = leafEntry then k = []
          else if eName e \<noteq> [] \<and> prefix (eName e) k then
            (case V (mName m @ eName e) of
               None \<Rightarrow> False | Some c \<Rightarrow> at_branch V c (drop (length (eName e)) k))
          else False)"
  by pat_completeness auto
termination
proof (relation "measure (\<lambda>(V, m, k). length k)")
  fix V m k e c
  assume "\<not> eEType e = leafEntry" "eName e \<noteq> [] \<and> prefix (eName e) k"
  then have "length (eName e) \<le> length k" "0 < length (eName e)" by (auto dest: prefix_length_le)
  then have "length (drop (length (eName e)) k) < length k" unfolding length_drop by linarith
  then show "((V, c, drop (length (eName e)) k), V, m, k) \<in> measure (\<lambda>(V, m, k). length k)"
    by (simp only: in_measure split_conv)
qed simp

declare at_branch.simps [simp del]

text \<open>The values a key has after Put: the new value alone, or appended to the
  old ones when apnd is set and the key is an ordinary leaf.\<close>

definition put_value :: "bool \<Rightarrow> manview \<Rightarrow> Manifest \<Rightarrow> string \<Rightarrow> bytes \<Rightarrow> bytes list" where
  "put_value apnd V m key val =
     (case tfind V m key of
        Some old \<Rightarrow> if apnd \<and> \<not> at_branch V m key then old @ [val] else [val]
      | None \<Rightarrow> [val])"

definition put_done :: "manview \<Rightarrow> manview \<Rightarrow> Manifest \<Rightarrow> string \<Rightarrow> bytes list option \<Rightarrow> bool" where
  "put_done V V' m key nvo \<longleftrightarrow>
     (\<exists>m'. V' (mName m) = Some m' \<and> mName m' = mName m \<and> trie V' m'
        \<and> (\<forall>k. tfind V' m' k = (if k = key then nvo else tfind V m k)))
     \<and> (\<forall>n x. V n = Some x \<longrightarrow> \<not> prefix (mName m) n \<longrightarrow> V' n = Some x)"

lemma put_doneI:
  "\<lbrakk>V' (mName m) = Some m'; mName m' = mName m;
    trie V' m' \<and> (\<forall>k. tfind V' m' k = (if k = key then nvo else tfind V m k));
    except V V' X; \<forall>n \<in> X. prefix (mName m) n\<rbrakk> \<Longrightarrow> put_done V V' m key nvo"
  unfolding put_done_def except_def by blast

text \<open>Entries that json gives back.\<close>

definition plain :: "Entry list \<Rightarrow> bool" where
  "plain es \<longleftrightarrow> (\<forall>e \<in> set es. eManifest e = None \<and> ascii (eName e)
     \<and> (eEType e = leafEntry \<or> eEType e = intermediateEntry))"

lemma json_entries_id: "plain es \<Longrightarrow> map json_entry es = es"
proof (induction es)
  case (Cons e es)
  then show ?case by (cases e) (auto simp: plain_def json_string_ascii)
qed simp

lemma trie_plain: "trie V m \<Longrightarrow> plain (mEntries m)"
  using node_okD(1,2) [OF trie_node] text_okD(2) [OF trie_text] unfolding plain_def by blast

lemma set_add_loop: "add_loop x es b acc = Some es' \<Longrightarrow> set es' \<subseteq> insert x (set acc \<union> set es)"
proof (induction es arbitrary: b acc)
  case (Cons e es)
  from Cons.prems show ?case
    by (auto split: if_splits dest!: Cons.IH)
qed (auto split: if_splits)

lemma set_addEntrySorted: "set (addEntrySorted es x) \<subseteq> insert x (set es)"
  using set_add_loop [of x es False "[]"]
  by (auto simp: addEntrySorted_def split: option.splits)

text \<open>A Put into a child, seen from the parent.\<close>

lemma put_done_parent:
  assumes t: "trie V m" and Vm: "V (mName m) = Some m"
    and c: "cand (mEntries m) key = Some e" "eEType e = intermediateEntry" "prefix (eName e) key"
    and ch: "V (mName m @ eName e) = Some c" "mName c = mName m @ eName e"
    and d: "put_done V V' c (drop (length (eName e)) key) nvo"
  shows "put_done V V' m key nvo"
proof -
  have e: "e \<in> set (mEntries m)" "bkey (eName e) = bkey key" using c(1) by (auto dest: cand_SomeD)
  have ne: "eName e \<noteq> []" using node_okD(3) [OF trie_node [OF t] e(1) c(2)] .
  from d obtain c' where c': "V' (mName c) = Some c'" "mName c' = mName c" "trie V' c'"
    "\<And>k. tfind V' c' k = (if k = drop (length (eName e)) key then nvo else tfind V c k)"
    and fr: "\<And>n x. \<lbrakk>V n = Some x; \<not> prefix (mName c) n\<rbrakk> \<Longrightarrow> V' n = Some x"
    unfolding put_done_def by blast
  have nf: "node_frame V V' (mName m) key"
    unfolding node_frame_def
  proof (intro allI impI)
    fix n x assume n: "V n = Some x" "n \<noteq> mName m" "\<forall>s. n = mName m @ s \<longrightarrow> bkey s \<noteq> bkey key"
    have "\<not> prefix (mName c) n"
    proof
      assume "prefix (mName c) n"
      then obtain r where "n = mName m @ eName e @ r" by (auto simp: ch(2) prefix_def)
      with n(3) ne e(2) show False by auto
    qed
    with fr n(1) show "V' n = Some x" by blast
  qed
  have Vm': "V' (mName m) = Some m"
    using fr [OF Vm] ne by (simp add: ch(2))
  have uniq: "g = e" if "g \<in> set (mEntries m)" "bkey (eName g) = bkey key" for g
  proof -
    obtain i where i: "i < length (mEntries m)" "mEntries m ! i = g" using \<open>g \<in> set (mEntries m)\<close>
      by (auto simp: in_set_conv_nth)
    have "eName g \<noteq> []" using that(2) ne e(2) by (metis bkey_simps(3))
    with cand_unique [OF trie_node [OF t] i(1)] i(2) that(2) c(1) show ?thesis by simp
  qed
  have "trie V' m \<and> (\<forall>k. tfind V' m k = (if k = key then nvo else tfind V m k))"
  proof (rule node_result [OF t nf refl trie_node [OF t]])
    fix g assume "g \<in> set (mEntries m)" "bkey (eName g) = bkey key" "eEType g = intermediateEntry"
    then have "g = e" using uniq by blast
    then show "\<exists>c. V' (mName m @ eName g) = Some c \<and> mName c = mName m @ eName g \<and> trie V' c"
      using c'(1-3) ch(2) by auto
  next
    fix k assume b: "bkey k = bkey key"
    have ck: "cand (mEntries m) k = Some e" using c(1) b by (simp add: cand_def)
    have v': "V' (mName m @ eName e) = Some c'" using c'(1) ch(2) by simp
    have "prefix (eName e) k \<Longrightarrow> drop (length (eName e)) k = drop (length (eName e)) key \<longleftrightarrow> k = key"
      using c(3) by (auto simp: prefix_def)
    then show "tfind V' m k = (if k = key then nvo else tfind V m k)"
      using tfind_branch [of m k e V' c', OF ck c(2) ne v'] tfind_branch [of m k e V c, OF ck c(2) ne ch(1)] c'(4) c(3)
      by auto
  qed (use text_okD(2) [OF trie_text [OF t]] in auto)
  moreover have "V' n = Some x" if "V n = Some x" "\<not> prefix (mName m) n" for n x
    using fr [OF that(1)] that(2) append_prefixD [of "mName m" "eName e" n] by (auto simp: ch(2))
  ultimately show ?thesis using Vm' unfolding put_done_def by blast
qed

lemma put_value_parent:
  assumes "cand (mEntries m) key = Some e" "eEType e = intermediateEntry" "prefix (eName e) key" "eName e \<noteq> []"
    "V (mName m @ eName e) = Some c"
  shows "put_value apnd V c (drop (length (eName e)) key) val = put_value apnd V m key val"
proof -
  have "at_branch V m key = at_branch V c (drop (length (eName e)) key)"
    using assms by (subst at_branch.simps) simp
  with tfind_branch [of m key e V c, OF assms(1,2,4,5)] assms(3) show ?thesis by (simp add: put_value_def split: option.split)
qed

section \<open>Removing an entry\<close>

lemma set_remove_at: "set (remove_at i xs) \<subseteq> set xs"
  unfolding remove_at_def using set_take_subset set_drop_subset by (metis Un_least set_append)

lemma node_ok_remove: "node_ok es \<Longrightarrow> node_ok (remove_at i es)"
proof -
  assume ok: "node_ok es"
  have "sorted_wrt ent_less (take i es @ drop (Suc i) es)"
  proof (cases "i < length es")
    case True
    then have "sorted_wrt ent_less (take i es @ es ! i # drop (Suc i) es)"
      using ok by (simp add: id_take_nth_drop [symmetric] node_ok_entry)
    then show ?thesis by (auto simp: sorted_wrt_append)
  qed (use ok in \<open>simp add: node_ok_entry\<close>)
  with ok set_remove_at [of i es] show ?thesis
    by (auto simp: node_ok_entry remove_at_def subset_iff)
qed

lemma cand_remove:
  assumes "i < length es" "bkey (eName (es ! i)) \<noteq> bkey k"
  shows "cand (remove_at i es) k = cand es k"
proof -
  have "cand es k = cand (take i es @ es ! i # drop (Suc i) es) k"
    using assms(1) by (simp add: id_take_nth_drop [symmetric])
  also have "\<dots> = cand (remove_at i es) k"
    using assms(2) by (auto simp: remove_at_def cand_append cand_Cons split: option.split)
  finally show ?thesis by simp
qed

text \<open>What the removed key's search gives afterwards: nothing, except that at a
  branching point another entry with an empty name takes its place.\<close>

definition resurfaces :: "Manifest \<Rightarrow> nat \<Rightarrow> bytes list option" where
  "resurfaces m i =
     (if eName (mEntries m ! i) = [] then map_option eRef (cand (remove_at i (mEntries m)) []) else None)"

lemma remove_node:
  assumes t: "trie V m" and i: "i < length (mEntries m)" "eEType (mEntries m ! i) = leafEntry"
    and key: "key = eName (mEntries m ! i)"
    and n: "mName m' = mName m" and es: "mEntries m' = remove_at i (mEntries m)"
    and f: "except V V' {mName m}"
  shows "trie V' m' \<and> (\<forall>k. tfind V' m' k = (if k = key then resurfaces m i else tfind V m k))"
proof -
  have ok: "node_ok (mEntries m)" using trie_node [OF t] .
  have ok': "node_ok (mEntries m')" using node_ok_remove [OF ok] es by simp
  define e where "e = mEntries m ! i"
  have em: "e \<in> set (mEntries m)" using i by (simp add: e_def)
  have none: "cand (mEntries m') k = None" if k: "bkey k = bkey key" "key \<noteq> []" for k
  proof -
    have sp: "sorted_wrt ent_less (take i (mEntries m) @ e # drop (Suc i) (mEntries m))"
      using ok i(1) by (simp add: e_def id_take_nth_drop [symmetric] node_ok_entry)
    show ?thesis
      using sp k by (auto simp: cand_None_iff es remove_at_def sorted_wrt_append ent_less_def key e_def [symmetric])
  qed
  have only: "eEType g = leafEntry" if "g \<in> set (mEntries m')" "bkey (eName g) = bkey key" for g
  proof (cases "key = []")
    case True
    then have "eName g = []" using that(2) by (metis bkey_simps(3))
    then show ?thesis using node_okD(2,3) [OF ok' that(1)] by blast
  next
    case False
    with none [of "eName g"] that show ?thesis by (auto simp: cand_None_iff)
  qed
  show ?thesis
  proof (rule node_result [OF t except_node_frame(1) [OF f] n ok'])
    fix k assume "bkey k \<noteq> bkey key" then show "cand (mEntries m') k = cand (mEntries m) k"
      using cand_remove [OF i(1)] key es by auto
  next
    fix g assume "g \<in> set (mEntries m')" then show "g \<in> set (mEntries m)"
      using set_remove_at [of i "mEntries m"] es by auto
  next
    fix g assume "g \<in> set (mEntries m')" "bkey (eName g) = bkey key" "eEType g = intermediateEntry"
    with only show "\<exists>c. V' (mName m @ eName g) = Some c \<and> mName c = mName m @ eName g \<and> trie V' c" by fastforce
  next
    fix g assume "g \<in> set (mEntries m')" then show "ascii (eName g)"
      using set_remove_at [of i "mEntries m"] es text_okD(2) [OF trie_text [OF t]] by auto
  next
    fix k assume b: "bkey k = bkey key"
    show "tfind V' m' k = (if k = key then resurfaces m i else tfind V m k)"
    proof (cases "key = []")
      case True
      then have k: "k = []" using b by (metis bkey_simps(3))
      show ?thesis
      proof (cases "cand (mEntries m') []")
        case None
        then show ?thesis using True k key es by (simp add: tfind_None resurfaces_def)
      next
        case (Some g)
        then have g: "g \<in> set (mEntries m')" "eName g = []" by (auto dest: cand_SomeD)
        then have "eEType g = leafEntry" using only True by simp
        with Some g True k key es show ?thesis by (simp add: tfind_leaf resurfaces_def)
      qed
    next
      case False
      obtain g where g: "cand (mEntries m) k = Some g" "g \<in> set (mEntries m)" "bkey (eName g) = bkey key"
        using em b by (cases "cand (mEntries m) k") (auto simp: cand_None_iff key e_def dest: cand_SomeD)
      have "g = e" using cand_unique [OF ok i(1)] g(1) b False by (simp add: key e_def)
      with g(1) i(2) have "tfind V m k = (if key = k then Some (eRef e) else None)"
        by (simp add: tfind_leaf e_def key)
      with none [OF b False] False show ?thesis by (auto simp: tfind_None resurfaces_def key)
    qed
  qed
qed

end
