(* ===== verification/IndexPut.thy ===== *)
theory IndexPut
  imports IndexTrie
begin

text \<open>
  The index operations over any storage that keeps the contract: Put, Get,
  Delete and OpenIndex as operations on the abstract dictionary tfind.
\<close>

definition ixview ::
  "'w services \<Rightarrow> nat \<Rightarrow> ('w \<Rightarrow> feedview) \<Rightarrow> ('w \<Rightarrow> blobview) \<Rightarrow> Index \<Rightarrow> 'w \<Rightarrow> manview" where
  "ixview sv maxlen feeds blobs idx w =
     manifest_view sv maxlen (feeds w) (blobs w) (ixUser idx) (bytes_of (ixPassword idx))"

lemma ixview_count [simp]:
  "ixview sv maxlen feeds blobs (idx\<lparr>ixCount := c\<rparr>) w = ixview sv maxlen feeds blobs idx w"
  "ixview sv maxlen feeds blobs (idx\<lparr>ixMemDB := d\<rparr>) w = ixview sv maxlen feeds blobs idx w"
  by (simp_all add: ixview_def)

lemma ixview_same:
  "\<lbrakk>feeds w' = feeds w; blobs w' = blobs w\<rbrakk> \<Longrightarrow>
     ixview sv maxlen feeds blobs idx w' = ixview sv maxlen feeds blobs idx w"
  by (simp add: ixview_def)

text \<open>What a change of an index leaves alone: the blobs that were there, and the
  feeds of other users and of names outside a set.\<close>

definition touched ::
  "'w services \<Rightarrow> nat \<Rightarrow> Address \<Rightarrow> string set \<Rightarrow> feedview \<Rightarrow> blobview \<Rightarrow> feedview \<Rightarrow> blobview \<Rightarrow> bool" where
  "touched sv maxlen u S fs V fs' V' \<longleftrightarrow>
     V \<subseteq>\<^sub>m V' \<and> (\<forall>v t p. fs' (v, t, p) \<noteq> fs (v, t, p) \<longrightarrow> v = u \<and> (\<exists>s \<in> S. length s \<le> maxlen \<and> t = HashString sv s))"

lemma touched_refl [simp]: "touched sv maxlen u S fs V fs V"
  by (simp add: touched_def)

lemma touched_trans:
  "\<lbrakk>touched sv maxlen u S fs V fs' V'; touched sv maxlen u S' fs' V' fs'' V''; S' \<subseteq> S\<rbrakk> \<Longrightarrow> touched sv maxlen u S fs V fs'' V''"
  unfolding touched_def by (metis map_le_trans subsetD)

lemma touched_mono: "\<lbrakk>touched sv maxlen u S fs V fs' V'; S \<subseteq> S'\<rbrakk> \<Longrightarrow> touched sv maxlen u S' fs V fs' V'"
  unfolding touched_def by blast

lemma touched_write:
  assumes "feed_written fs fs' u (HashString sv s) pw d" "V' = V(ref \<mapsto> c)" "V ref = None \<or> V ref = Some c" "length s \<le> maxlen"
  shows "touched sv maxlen u {s} fs V fs' V'"
  using assms by (auto simp: touched_def feed_written_def map_le_def)

lemma touchedD:
  assumes "touched sv maxlen u S fs V fs' V'" "\<And>s. \<lbrakk>v = u; s \<in> S; length s \<le> maxlen\<rbrakk> \<Longrightarrow> t \<noteq> HashString sv s"
  shows "fs' (v, t, p) = fs (v, t, p)"
  using assms unfolding touched_def by blast

context storage
begin

abbreviation tch :: "Index \<Rightarrow> string set \<Rightarrow> 'w \<Rightarrow> 'w \<Rightarrow> bool" where
  "tch idx S w w' \<equiv> touched sv maxlen (ixUser idx) S (feeds w) (blobs w) (feeds w') (blobs w')"

lemma view_SomeE:
  assumes "ixview sv maxlen feeds blobs idx w name = Some m"
  obtains ref where "feeds w (ixUser idx, HashString sv name, bytes_of (ixPassword idx)) = Some (Raw ref)"
    "blobs w ref = Some (Doc (DManifest m))" "length name \<le> maxlen"
  using assms
  by (auto simp: ixview_def manifest_view_def split: if_splits option.splits content.splits doc.splits prod.splits)

lemma load_ok:
  assumes "inv b w" "ixview sv maxlen feeds blobs idx w name = Some m"
  obtains w' where "loadManifest sv idx name (ixPassword idx) w = (Inr m, w')" "inv b w'"
    "feeds w' = feeds w" "blobs w' = blobs w"
proof -
  from assms(2) obtain ref where
    v: "feeds w (ixUser idx, HashString sv name, bytes_of (ixPassword idx)) = Some (Raw ref)"
      "blobs w ref = Some (Doc (DManifest m))" by (rule view_SomeE)
  obtain r w1 where g: "GetFeedData sv (HashString sv name) (ixUser idx) (bytes_of (ixPassword idx)) w = (r, w1)"
    by fastforce
  from get_feed [OF assms(1) g] v obtain a where 1: "r = Inr (a, Raw ref)" "inv b w1" "feeds w1 = feeds w" "blobs w1 = blobs w"
    by auto
  obtain q w2 where d: "DownloadBlob sv ref w1 = (q, w2)" by fastforce
  from download_blob [OF 1(2) d] v 1 have 2: "q = Inr (Doc (DManifest m), 200)" "inv b w2" "feeds w2 = feeds w" "blobs w2 = blobs w"
    by auto
  show thesis
    by (rule that [of w2]) (use g 1 d 2 in \<open>simp_all add: loadManifest_def download_at_def unmarshal_manifest_def\<close>)
qed

lemma view_write:
  assumes "length s \<le> maxlen"
    and fs: "feed_written (feeds w) (feeds w') (ixUser idx) (HashString sv s) (bytes_of (ixPassword idx)) (Raw ref)"
    and bs: "blobs w' = (blobs w)(ref \<mapsto> c)" "blobs w ref = None \<or> blobs w ref = Some c"
    and c: "c = Doc (DManifest m)"
  shows "ixview sv maxlen feeds blobs idx w' s = Some m"
    "except (ixview sv maxlen feeds blobs idx w) (ixview sv maxlen feeds blobs idx w') {s}"
proof -
  show "ixview sv maxlen feeds blobs idx w' s = Some m"
    using assms feed_writtenD(1) [OF fs] by (simp add: ixview_def manifest_view_def)
  show "except (ixview sv maxlen feeds blobs idx w) (ixview sv maxlen feeds blobs idx w') {s}"
    unfolding except_def
  proof (intro allI impI)
    fix n x assume v: "ixview sv maxlen feeds blobs idx w n = Some x" and n: "n \<notin> {s}"
    from v obtain r where r: "feeds w (ixUser idx, HashString sv n, bytes_of (ixPassword idx)) = Some (Raw r)"
      "blobs w r = Some (Doc (DManifest x))" "length n \<le> maxlen" by (rule view_SomeE)
    from n hash_inj [OF r(3) assms(1)] have "HashString sv n \<noteq> HashString sv s" by auto
    then have "feeds w' (ixUser idx, HashString sv n, bytes_of (ixPassword idx)) = Some (Raw r)"
      using feed_writtenD(2) [OF fs] r(1) by simp
    with r bs show "ixview sv maxlen feeds blobs idx w' n = Some x"
      by (auto simp: ixview_def manifest_view_def)
  qed
qed

lemma marshal_content: "marshal_manifest m = Doc (DManifest (json_manifest m))"
  by (simp add: marshal_manifest_def)

lemma update_ok:
  assumes "inv (b + 2) w" "length (mName m) \<le> maxlen"
  obtains w' where "updateManifest sv idx m (ixPassword idx) w = (Inr (), w')" "inv b w'"
    "ixview sv maxlen feeds blobs idx w' (mName m) = Some (json_manifest m)"
    "except (ixview sv maxlen feeds blobs idx w) (ixview sv maxlen feeds blobs idx w') {mName m}" "tch idx {mName m} w w'"
proof -
  obtain r w1 where u: "UploadBlob sv (marshal_manifest m) w = (r, w1)" by fastforce
  from upload_blob [OF _ u, of "Suc b"] assms(1) obtain ref where 1: "r = Inr ref" "inv (Suc b) w1" "feeds w1 = feeds w"
    "32 \<le> length ref \<and> length ref \<le> 64" "blobs w ref = None \<or> blobs w ref = Some (marshal_manifest m)"
    "blobs w1 = (blobs w)(ref \<mapsto> marshal_manifest m)" by auto
  obtain q w2 where f: "UpdateFeed sv (ixUser idx) (HashString sv (mName m)) (Raw ref) (bytes_of (ixPassword idx)) w1 = (q, w2)"
    by fastforce
  have len: "storable sv (bytes_of (ixPassword idx)) (Raw ref)" using 1(4) by simp
  from update_feed [OF 1(2) len assms(2) refl f] 1(3,6)
  have 2: "q = Inr ()" "inv b w2" "feed_written (feeds w) (feeds w2) (ixUser idx) (HashString sv (mName m)) (bytes_of (ixPassword idx)) (Raw ref)"
    "blobs w2 = (blobs w)(ref \<mapsto> marshal_manifest m)" by auto
  note v = view_write [OF assms(2) 2(3,4) 1(5) marshal_content]
  note tc = touched_write [OF 2(3,4) 1(5) assms(2)]
  show thesis
    by (rule that [of w2]) (use v tc u 1 f 2 in \<open>simp_all add: updateManifest_def\<close>)
qed

lemma store_ok:
  assumes "inv (b + 2) w" "length (mName m) \<le> maxlen"
  obtains w' where "storeManifest sv idx m (ixPassword idx) w = (Inr (), w')" "inv b w'"
    "ixview sv maxlen feeds blobs idx w' (mName m) = Some (json_manifest m)"
    "except (ixview sv maxlen feeds blobs idx w) (ixview sv maxlen feeds blobs idx w') {mName m}" "tch idx {mName m} w w'"
proof -
  let ?t = "HashString sv (mName m)" and ?pw = "bytes_of (ixPassword idx)"
  obtain r w1 where u: "UploadBlob sv (marshal_manifest m) w = (r, w1)" by fastforce
  from upload_blob [OF _ u, of "Suc b"] assms(1) obtain ref where 1: "r = Inr ref" "inv (Suc b) w1" "feeds w1 = feeds w"
    "32 \<le> length ref \<and> length ref \<le> 64" "blobs w ref = None \<or> blobs w ref = Some (marshal_manifest m)"
    "blobs w1 = (blobs w)(ref \<mapsto> marshal_manifest m)" by auto
  obtain g w2 where g: "GetFeedData sv ?t (ixUser idx) ?pw w1 = (g, w2)" by fastforce
  from get_feed [OF 1(2) g] have 2: "inv (Suc b) w2" "feeds w2 = feeds w" "blobs w2 = blobs w1" using 1(3) by simp_all
  have len: "storable sv ?pw (Raw ref)" using 1(4) by simp
  obtain q w3 where f: "UpdateFeed sv (ixUser idx) ?t (Raw ref) ?pw w2 = (q, w3)" by fastforce
  from update_feed [OF 2(1) len assms(2) refl f] 2 1(6)
  have 3: "q = Inr ()" "inv b w3" "feed_written (feeds w) (feeds w3) (ixUser idx) ?t ?pw (Raw ref)"
    "blobs w3 = (blobs w)(ref \<mapsto> marshal_manifest m)" by auto
  obtain q' w4 where f': "CreateFeed sv (ixUser idx) ?t (Raw ref) ?pw w2 = (q', w4)" by fastforce
  have fresh: "\<not> is_ok g \<Longrightarrow> feeds w2 (ixUser idx, ?t, ?pw) = None"
    using get_feed [OF 1(2) g] by (cases "feeds w1 (ixUser idx, ?t, ?pw)") auto
  have 4: "\<not> is_ok g \<Longrightarrow> q' = Inr () \<and> inv b w4 \<and> feed_written (feeds w) (feeds w4) (ixUser idx) ?t ?pw (Raw ref)
      \<and> blobs w4 = (blobs w)(ref \<mapsto> marshal_manifest m)"
    using create_feed [OF 2(1) len assms(2) refl fresh f'] 2 1(6) by simp
  define w' where "w' = (if is_ok g \<or> g = Inl (Sentinel ''deleted feed'') then w3 else w4)"
  have res: "storeManifest sv idx m (ixPassword idx) w = (Inr (), w')"
    using u 1(1) g f 3(1) f' 4 by (simp add: storeManifest_def Let_def w'_def)
  have 5: "inv b w'" "feed_written (feeds w) (feeds w') (ixUser idx) ?t ?pw (Raw ref)"
    "blobs w' = (blobs w)(ref \<mapsto> marshal_manifest m)"
    using 3 4 by (simp_all add: w'_def)
  note v = view_write [OF assms(2) 5(2,3) 1(5) marshal_content]
  show thesis by (rule that [OF res 5(1) v touched_write [OF 5(2,3) 1(5) assms(2)]])
qed

lemma finish_ok:
  assumes "inv (b + 2) w" "length (mName m) \<le> maxlen" "plain es" "valid_utf8 (mName m)"
  obtains w' m' where "finish_put sv idx m es w = (Inr (), idx\<lparr>ixCount := ixCount idx + 1\<rparr>, w')" "inv b w'"
    "ixview sv maxlen feeds blobs idx w' (mName m) = Some m'" "mName m' = mName m" "mEntries m' = es"
    "except (ixview sv maxlen feeds blobs idx w) (ixview sv maxlen feeds blobs idx w') {mName m}" "tch idx {mName m} w w'"
proof -
  let ?idx1 = "idx\<lparr>ixCount := ixCount idx + 1\<rparr>"
  let ?m = "set_mCount (ixCount ?idx1) (set_mDirty True (set_mEntries es m))"
  from update_ok [OF assms(1), of ?m ?idx1] assms(2) obtain w' where
    u: "updateManifest sv ?idx1 ?m (ixPassword ?idx1) w = (Inr (), w')" "inv b w'"
      "ixview sv maxlen feeds blobs ?idx1 w' (mName ?m) = Some (json_manifest ?m)"
      "except (ixview sv maxlen feeds blobs ?idx1 w) (ixview sv maxlen feeds blobs ?idx1 w') {mName ?m}"
      "tch ?idx1 {mName ?m} w w'"
    by auto
  show thesis
    by (rule that [of w' "json_manifest ?m"])
       (use u json_entries_id [OF assms(3)] json_string_valid [OF assms(4)] in \<open>simp_all add: finish_put_def Let_def\<close>)
qed

lemma split_ok:
  assumes "inv (b + 2 + 2) w" "length (mName m @ p) \<le> maxlen" "p \<noteq> []" "i < length (mEntries m)"
    and ents: "plain (mEntries m)" "plain [entry1, entry2]" "valid_utf8 (mName m)" "ascii p" "ascii label"
  obtains w' m' N where
    "split_put sv idx m i p label ty entry1 entry2 w = (Inr (), idx\<lparr>ixCount := ixCount idx + 1\<rparr>, w')" "inv b w'"
    "ixview sv maxlen feeds blobs idx w' (mName m) = Some m'" "mName m' = mName m"
    "mEntries m' = (mEntries m)[i := Entry label intermediateEntry (eRef (mEntries m ! i)) None]"
    "ixview sv maxlen feeds blobs idx w' (mName m @ p) = Some N" "mName N = mName m @ p"
    "mEntries N = addEntrySorted (addEntrySorted [] entry1) entry2"
    "except (ixview sv maxlen feeds blobs idx w) (ixview sv maxlen feeds blobs idx w') {mName m, mName m @ p}"
    "tch idx {mName m, mName m @ p} w w'"
proof -
  obtain now w1 where n: "NowUnix sv w = (now, w1)" by fastforce
  from clock [OF assms(1) n] have 1: "inv (b + 2 + 2) w1" "feeds w1 = feeds w" "blobs w1 = blobs w" by auto
  let ?N = "split_manifest (mName m @ p) ty now entry1 entry2"
  have nN: "mName ?N = mName m @ p" by (simp add: split_manifest_def)
  have eN: "plain (addEntrySorted (addEntrySorted [] entry1) entry2)"
    using set_addEntrySorted [of "addEntrySorted [] entry1" entry2] set_addEntrySorted [of "[]" entry1] ents(2)
    by (auto simp: plain_def)
  have vN: "valid_utf8 (mName m @ p)" by (rule valid_utf8_append [OF ents(3) ascii_valid [OF ents(4)]])
  from store_ok [of "b + 2" w1 ?N idx] 1(1) assms(2) nN obtain w2 where
    s: "storeManifest sv idx ?N (ixPassword idx) w1 = (Inr (), w2)" "inv (b + 2) w2"
      "ixview sv maxlen feeds blobs idx w2 (mName m @ p) = Some (json_manifest ?N)"
      "except (ixview sv maxlen feeds blobs idx w1) (ixview sv maxlen feeds blobs idx w2) {mName m @ p}"
      "tch idx {mName m @ p} w1 w2"
    by auto
  have em: "eManifest (mEntries m ! i) = None" using ents(1) assms(4) by (simp add: plain_def)
  let ?es = "(mEntries m)[i := Entry label intermediateEntry (eRef (mEntries m ! i)) None]"
  have all: "plain ?es"
    using set_update_subset_insert [of "mEntries m" i] ents(1,5) unfolding plain_def by fastforce
  from finish_ok [OF s(2) _ all ents(3), of idx] assms(2) obtain w' m' where
    f: "finish_put sv idx m ?es w2 = (Inr (), idx\<lparr>ixCount := ixCount idx + 1\<rparr>, w')" "inv b w'"
      "ixview sv maxlen feeds blobs idx w' (mName m) = Some m'" "mName m' = mName m" "mEntries m' = ?es"
      "except (ixview sv maxlen feeds blobs idx w2) (ixview sv maxlen feeds blobs idx w') {mName m}" "tch idx {mName m} w2 w'"
    by auto
  have tc: "tch idx {mName m, mName m @ p} w w'"
    using touched_trans [OF touched_mono [OF s(5), of "{mName m, mName m @ p}"] f(7)] 1(2,3) by simp
  have N': "ixview sv maxlen feeds blobs idx w' (mName m @ p) = Some (json_manifest ?N)"
    using f(6) s(3) assms(3) by (simp add: except_def)
  have ex: "except (ixview sv maxlen feeds blobs idx w) (ixview sv maxlen feeds blobs idx w') {mName m, mName m @ p}"
    using s(4) f(6) ixview_same [of feeds w1 w blobs sv maxlen idx] 1(2,3) by (auto simp: except_def)
  have run: "split_put sv idx m i p label ty entry1 entry2 w = (Inr (), idx\<lparr>ixCount := ixCount idx + 1\<rparr>, w')"
    using n s(1) f(1) em by (simp add: split_put_def Let_def)
  have Ne: "mEntries (json_manifest ?N) = addEntrySorted (addEntrySorted [] entry1) entry2"
    using json_entries_id [OF eN] by (simp add: split_manifest_def)
  show thesis
    by (rule that [OF run f(2,3,4,5) N' _ Ne ex tc]) (simp add: nN json_string_valid [OF vN])
qed

lemma addOrUpdate_ok:
  "\<lbrakk>inv (b + 2 + 2) w; ixview sv maxlen feeds blobs idx w (mName m) = Some m;
    trie (ixview sv maxlen feeds blobs idx w) m; length (mName m) + length key \<le> maxlen; ascii key\<rbrakk> \<Longrightarrow>
   \<exists>w'. addOrUpdateStringEntry sv idx m key ty val apnd w = (Inr (), idx\<lparr>ixCount := ixCount idx + 1\<rparr>, w')
     \<and> inv b w' \<and> put_done (ixview sv maxlen feeds blobs idx w) (ixview sv maxlen feeds blobs idx w') m key
         (Some (put_value apnd (ixview sv maxlen feeds blobs idx w) m key val))
     \<and> tch idx {n. prefix (mName m) n} w w'"
proof (induction key arbitrary: m w rule: length_induct)
  case (1 key)
  let ?V = "ixview sv maxlen feeds blobs idx w" and ?V' = "\<lambda>w'. ixview sv maxlen feeds blobs idx w'"
  let ?es = "mEntries m"
  note t = 1(4)
  have ok: "node_ok ?es" using trie_node [OF t] .
  have len: "length (mName m) \<le> maxlen" using 1(5) by simp
  have ty: "\<forall>e \<in> set ?es. eEType e = leafEntry \<or> eEType e = intermediateEntry"
    using node_okD(2) [OF ok] by blast
  have man: "\<forall>e \<in> set ?es. eManifest e = None" using node_okD(1) [OF ok] by blast
  note pl = trie_plain [OF t] and vn = text_okD(1) [OF trie_text [OF t]] and ak = 1(6)
  show ?case
  proof (cases "first_sharing ?es key")
    case None
    have c: "key = [] \<or> cand ?es key = None"
      using first_sharing_cand [OF _ ty, of key] None by (cases "key = []") auto
    let ?x = "Entry key leafEntry [val] None"
    have "plain (addEntrySorted ?es ?x)"
      using set_addEntrySorted [of ?es ?x] pl ak by (auto simp: plain_def)
    from finish_ok [of "b + 2", OF _ len this vn, of w idx] 1(2) obtain w' m' where
      f: "finish_put sv idx m (addEntrySorted ?es ?x) w = (Inr (), idx\<lparr>ixCount := ixCount idx + 1\<rparr>, w')" "inv (b + 2) w'"
        "?V' w' (mName m) = Some m'" "mName m' = mName m" "mEntries m' = addEntrySorted ?es ?x"
        "except ?V (?V' w') {mName m}" "tch idx {mName m} w w'" by auto
    have nv: "put_value apnd ?V m key val = [val]"
    proof (cases "key = []")
      case True
      have "at_branch ?V m []" if some: "tfind ?V m [] \<noteq> None"
      proof -
        obtain e where c: "cand ?es [] = Some e" using some by (cases "cand ?es []") (auto simp: tfind_None)
        then have "e \<in> set ?es" "eName e = []" by (auto dest: cand_SomeD)
        then have "eEType e = leafEntry" using node_okD(2,3) [OF ok] by blast
        with c show ?thesis by (subst at_branch.simps) simp
      qed
      then show ?thesis using True by (auto simp: put_value_def split: option.split)
    next
      case False
      with c show ?thesis by (simp add: put_value_def tfind_None)
    qed
    have "put_done ?V (?V' w') m key (Some [val])"
      by (rule put_doneI [where X = "{mName m}" and m' = m'])
         (use f put_new_entry [OF t c f(4,5,6) ak] in auto)
    moreover have "tch idx {n. prefix (mName m) n} w w'" by (rule touched_mono [OF f(7)]) simp
    ultimately show ?thesis using f(1) inv_mono [OF f(2), of b] nv None by (subst addOrUpdateStringEntry.simps) auto
  next
    case (Some i)
    define e where "e = ?es ! i"
    from first_sharing_SomeD [OF Some] have i: "i < length ?es" and key: "key \<noteq> []"
      and sh: "fst (longestCommonPrefix (eName e) key) \<noteq> []" by (auto simp: e_def)
    have em: "e \<in> set ?es" using i by (simp add: e_def)
    have cd: "cand ?es key = Some e"
      using first_sharing_cand [OF key ty] Some by (simp add: e_def)
    obtain p x y where lcp: "longestCommonPrefix (eName e) key = (p, x, y)" by (cases "longestCommonPrefix (eName e) key") auto
    with sh have p: "p \<noteq> []" by simp
    note pr = lcp_props [OF lcp p]
    have lenp: "length (mName m @ p) \<le> maxlen" using 1(5) pr(2) by simp
    have ne: "eName e \<noteq> []" using pr(1) p by simp
    show ?thesis
    proof (cases "eEType e = leafEntry \<and> eName e = key")
      case True
      let ?rs = "(if apnd then eRef e else []) @ [val]"
      let ?es' = "?es[i := Entry key leafEntry ?rs None]"
      have "plain ?es'"
        using set_update_subset_insert [of ?es i] pl ak unfolding plain_def by fastforce
      from finish_ok [of "b + 2", OF _ len this vn, of w idx] 1(2) obtain w' m' where
        f: "finish_put sv idx m ?es' w = (Inr (), idx\<lparr>ixCount := ixCount idx + 1\<rparr>, w')" "inv (b + 2) w'"
          "?V' w' (mName m) = Some m'" "mName m' = mName m" "mEntries m' = ?es'"
          "except ?V (?V' w') {mName m}" "tch idx {mName m} w w'" by auto
      have tf: "tfind ?V m key = Some (eRef e)" using tfind_leaf [OF cd] True by simp
      have "\<not> at_branch ?V m key" using cd True key by (subst at_branch.simps) simp
      with tf have nv: "put_value apnd ?V m key val = ?rs" by (simp add: put_value_def)
      have "put_done ?V (?V' w') m key (Some ?rs)"
        by (rule put_doneI [where X = "{mName m}" and m' = m'])
           (use f put_replace_leaf [OF t i e_def [symmetric] _ _ key f(4,5,6)] True in auto)
      moreover have "addOrUpdateStringEntry sv idx m key ty val apnd w = finish_put sv idx m ?es' w"
        using Some True man em by (subst addOrUpdateStringEntry.simps) (simp add: e_def [symmetric] Let_def)
      moreover have "tch idx {n. prefix (mName m) n} w w'" by (rule touched_mono [OF f(7)]) simp
      ultimately show ?thesis using f(1) inv_mono [OF f(2), of b] nv by auto
    next
      case False
      have split: "\<exists>w'. split_put sv idx m i p p ty (Entry y leafEntry [val] None) (Entry x (eEType e) rf None) w
            = (Inr (), idx\<lparr>ixCount := ixCount idx + 1\<rparr>, w') \<and> inv b w'
          \<and> put_done ?V (?V' w') m key (Some (put_value apnd ?V m key val)) \<and> tch idx {n. prefix (mName m) n} w w'"
        if rf: "eEType e = leafEntry \<Longrightarrow> rf = eRef e" and xne: "eEType e = intermediateEntry \<Longrightarrow> x \<noteq> []" for rf
      proof -
        have apy: "ascii p" "ascii y" using ak pr(2) by simp_all
        have "ascii (p @ x)" using text_okD(2) [OF trie_text [OF t] em] by (simp only: pr(1))
        then have ex: "plain [Entry y leafEntry [val] None, Entry x (eEType e) rf None]"
          using apy ty em by (simp add: plain_def)
        from split_ok [OF 1(2) lenp p i pl ex vn apy(1,1), of idx ty] obtain w' m' N where
          s: "split_put sv idx m i p p ty (Entry y leafEntry [val] None) (Entry x (eEType e) rf None) w
                = (Inr (), idx\<lparr>ixCount := ixCount idx + 1\<rparr>, w')" "inv b w'"
            "?V' w' (mName m) = Some m'" "mName m' = mName m"
            "mEntries m' = ?es[i := Entry p intermediateEntry (eRef e) None]"
            "?V' w' (mName m @ p) = Some N" "mName N = mName m @ p"
            "mEntries N = addEntrySorted (addEntrySorted [] (Entry y leafEntry [val] None)) (Entry x (eEType e) rf None)"
            "except ?V (?V' w') {mName m, mName m @ p}" "tch idx {mName m, mName m @ p} w w'" unfolding e_def .
        have kne: "key \<noteq> eName e"
        proof
          assume k: "key = eName e"
          then have "x = y" using pr(1,2) by simp
          with pr(3) have "x = []" by auto
          with xne False k node_okD(2) [OF ok em] show False by blast
        qed
        note r = put_split [OF t i e_def [symmetric] pr(1,2) p pr(3) kne xne s(9,6,7,8) rf s(4,5) ak]
        have "tfind ?V m key = None"
        proof -
          have "tfind ?V m key = old_find ?V m e key" by (rule tfind_old_find [OF cd ne])
          moreover have "\<not> prefix (eName e) key" if "eEType e = intermediateEntry"
            using xne [OF that] pr(3) by (cases x; cases y) (auto simp: pr(1,2))
          ultimately show ?thesis using kne node_okD(2) [OF ok em] by (auto simp: old_find_def)
        qed
        then have "put_value apnd ?V m key val = [val]" by (simp add: put_value_def)
        moreover have "put_done ?V (?V' w') m key (Some [val])"
          by (rule put_doneI [where X = "{mName m, mName m @ p}" and m' = m']) (use s r in auto)
        moreover have "tch idx {n. prefix (mName m) n} w w'" by (rule touched_mono [OF s(10)]) auto
        ultimately show ?thesis using s(1,2) by auto
      qed
      show ?thesis
      proof (cases "eEType e = leafEntry")
        case True
        have "addOrUpdateStringEntry sv idx m key ty val apnd w =
            split_put sv idx m i p p ty (Entry y leafEntry [val] None) (Entry x (eEType e) (eRef e) None) w"
          using Some False True lcp p
          by (subst addOrUpdateStringEntry.simps) (auto simp: e_def [symmetric] Let_def)
        with split [of "eRef e"] True show ?thesis by auto
      next
        case nl: False
        then have it: "eEType e = intermediateEntry" using ty em by auto
        show ?thesis
        proof (cases "x = []")
          case False
          have "addOrUpdateStringEntry sv idx m key ty val apnd w =
              split_put sv idx m i p p ty (Entry y leafEntry [val] None) (Entry x (eEType e) [] None) w"
            using Some nl it lcp p False pr(2)
            by (subst addOrUpdateStringEntry.simps) (auto simp: e_def [symmetric] Let_def)
          with split [of "[]"] it nl False show ?thesis by auto
        next
          case True
          then have pe: "p = eName e" "prefix (eName e) key" "y = drop (length (eName e)) key"
            using pr by auto
          obtain c where c: "?V (mName m @ eName e) = Some c" "mName c = mName m @ eName e" "trie ?V c"
            using trie_childD [OF t em it] by blast
          obtain w1 where l: "loadManifest sv idx (mName m @ eName e) (ixPassword idx) w = (Inr c, w1)" "inv (b + 2 + 2) w1"
            "feeds w1 = feeds w" "blobs w1 = blobs w" by (rule load_ok [OF 1(2) c(1)])
          have V1: "?V' w1 = ?V" by (rule ixview_same [OF l(3,4)])
          have step: "addOrUpdateStringEntry sv idx m key ty val apnd w = addOrUpdateStringEntry sv idx c y ty val apnd w1"
            using Some nl it lcp p True pe(1) l(1)
            by (subst addOrUpdateStringEntry.simps) (auto simp: e_def [symmetric] Let_def)
          have "ascii y" using ak pr(2) by simp
          moreover have "length y < length key" using lcp_shorter [OF lcp p] .
          moreover have "length (mName c) + length y \<le> maxlen"
            using 1(5) c(2) pr(2) pe(1) by simp
          moreover have "?V' w1 (mName c) = Some c" using c V1 by simp
          ultimately obtain w' where r: "addOrUpdateStringEntry sv idx c y ty val apnd w1
                = (Inr (), idx\<lparr>ixCount := ixCount idx + 1\<rparr>, w')" "inv b w'"
              "put_done ?V (?V' w') c y (Some (put_value apnd ?V c y val))" "tch idx {n. prefix (mName c) n} w1 w'"
            using 1(1) l(2) c(3) V1 by metis
          have "put_done ?V (?V' w') m key (Some (put_value apnd ?V m key val))"
            using put_done_parent [OF t 1(3) cd it pe(2) c(1,2)] r(3)
            unfolding pe(3) put_value_parent [of m key e ?V c, OF cd it pe(2) ne c(1)] by blast
          moreover have "tch idx {n. prefix (mName m) n} w w'"
            using touched_mono [OF r(4), of "{n. prefix (mName m) n}"] l(3,4) c(2) by (auto dest: append_prefixD)
          ultimately show ?thesis using r step by auto
        qed
      qed
    qed
  qed
qed

lemma find_ok:
  "\<lbrakk>inv b w; trie (ixview sv maxlen feeds blobs idx w) m; length key < n\<rbrakk> \<Longrightarrow>
   \<exists>r w'. findManifest n sv idx m key w = (r, w') \<and> inv b w' \<and> feeds w' = feeds w \<and> blobs w' = blobs w
     \<and> (case tfind (ixview sv maxlen feeds blobs idx w) m key of
           None \<Rightarrow> r = Inl ErrEntryNotFound
         | Some refs \<Rightarrow> \<exists>m1 i. r = Inr (m1, i) \<and> i < length (mEntries m1) \<and> eRef (mEntries m1 ! i) = refs)"
proof (induction n arbitrary: m key w)
  case (Suc n)
  let ?V = "ixview sv maxlen feeds blobs idx w"
  have ok: "node_ok (mEntries m)" using trie_node [OF Suc.prems(2)] .
  show ?case
  proof (cases "cand (mEntries m) key")
    case None
    then show ?thesis
      using scan_None [OF ok None, of 0] Suc.prems(1) by (simp add: tfind_None)
  next
    case (Some e)
    note sc = scan_Some [OF ok Some, of 0]
    have em: "e \<in> set (mEntries m)" using Some by (auto dest: cand_SomeD)
    show ?thesis
    proof (cases "eEType e = leafEntry")
      case True
      then show ?thesis using sc Suc.prems(1) by (auto simp: tfind_leaf [OF Some] split: if_splits)
    next
      case False
      then have it: "eEType e = intermediateEntry" using node_okD(2) [OF ok em] by simp
      have ne: "eName e \<noteq> []" using node_okD(3) [OF ok em it] .
      from trie_childD [OF Suc.prems(2) em it] obtain c
        where c: "?V (mName m @ eName e) = Some c" "trie ?V c" by blast
      note tb = tfind_branch [of m key e ?V c, OF Some it ne c(1)]
      show ?thesis
      proof (cases "prefix (eName e) key")
        case False
        then show ?thesis using sc it Suc.prems(1) tb by simp
      next
        case True
        obtain w1 where l: "loadManifest sv idx (mName m @ eName e) (ixPassword idx) w = (Inr c, w1)" "inv b w1"
          "feeds w1 = feeds w" "blobs w1 = blobs w" by (rule load_ok [OF Suc.prems(1) c(1)])
        have V1: "ixview sv maxlen feeds blobs idx w1 = ?V" by (rule ixview_same [OF l(3,4)])
        have "length (eName e) \<le> length key" using True by (rule prefix_length_le)
        moreover have "0 < length (eName e)" using ne by simp
        ultimately have "length (drop (length (eName e)) key) < n"
          using Suc.prems(3) unfolding length_drop by linarith
        from Suc.IH [OF l(2) _ this] c(2) V1 l(1,3,4) sc it True tb node_okD(1) [OF ok em] show ?thesis
          by (simp add: TrimPrefix_drop)
      qed
    qed
  qed
qed simp

lemma find_node_ok:
  "\<lbrakk>findManifest n sv idx m key w = (Inr (m1, i), w1); inv b w; trie (ixview sv maxlen feeds blobs idx w) m\<rbrakk>
    \<Longrightarrow> trie (ixview sv maxlen feeds blobs idx w) m1 \<and> prefix (mName m) (mName m1)"
proof (induction n arbitrary: m key w)
  case (Suc n)
  have ok: "node_ok (mEntries m)" using trie_node [OF Suc.prems(3)] .
  obtain e where c: "cand (mEntries m) key = Some e"
    using Suc.prems(1) scan_None [OF ok, of key 0] by (cases "cand (mEntries m) key") auto
  note sc = scan_Some [OF ok c, of 0]
  have em: "e \<in> set (mEntries m)" using c by (auto dest: cand_SomeD)
  show ?case
  proof (cases "eEType e = leafEntry \<and> eName e = key")
    case True
    with sc Suc.prems(1,3) ok show ?thesis by auto
  next
    case False
    with sc Suc.prems(1) have b: "eEType e = intermediateEntry" "prefix (eName e) key"
      "scan_entries (mEntries m) key 0 = Below e" by (auto split: if_splits)
    obtain ch where ch: "ixview sv maxlen feeds blobs idx w (mName m @ eName e) = Some ch"
      "trie (ixview sv maxlen feeds blobs idx w) ch" "mName ch = mName m @ eName e"
      using trie_childD [OF Suc.prems(3) em b(1)] by blast
    obtain w2 where l: "loadManifest sv idx (mName m @ eName e) (ixPassword idx) w = (Inr ch, w2)" "inv b w2"
      "feeds w2 = feeds w" "blobs w2 = blobs w" by (rule load_ok [OF Suc.prems(2) ch(1)])
    have "findManifest n sv idx ch (drop (length (eName e)) key) w2 = (Inr (m1, i), w1)"
      using Suc.prems(1) b l(1) node_okD(1) [OF ok em] by (simp add: TrimPrefix_drop)
    from Suc.IH [OF this l(2)] ch(2,3) ixview_same [OF l(3,4)] show ?thesis by (auto simp: prefix_def)
  qed
qed simp

lemma find_delete:
  "\<lbrakk>findManifest n sv idx m key w = (Inr (m1, i), w1); inv b w; trie (ixview sv maxlen feeds blobs idx w) m;
    ixview sv maxlen feeds blobs idx w (mName m) = Some m;
    except (ixview sv maxlen feeds blobs idx w) V' {mName m1};
    V' (mName m1) = Some m1'; mName m1' = mName m1; mEntries m1' = remove_at i (mEntries m1)\<rbrakk> \<Longrightarrow>
   put_done (ixview sv maxlen feeds blobs idx w) V' m key (resurfaces m1 i)
     \<and> length (mName m1) \<le> maxlen \<and> i < length (mEntries m1)
     \<and> (at_branch (ixview sv maxlen feeds blobs idx w) m key \<longleftrightarrow> eName (mEntries m1 ! i) = [])
     \<and> inv b w1 \<and> feeds w1 = feeds w \<and> blobs w1 = blobs w"
proof (induction n arbitrary: m key w)
  case (Suc n)
  let ?V = "ixview sv maxlen feeds blobs idx w"
  have ok: "node_ok (mEntries m)" using trie_node [OF Suc.prems(3)] .
  obtain e where c: "cand (mEntries m) key = Some e"
    using Suc.prems(1) scan_None [OF ok, of key 0] by (cases "cand (mEntries m) key") auto
  note sc = scan_Some [OF ok c, of 0]
  have em: "e \<in> set (mEntries m)" using c by (auto dest: cand_SomeD)
  show ?case
  proof (cases "eEType e = leafEntry \<and> eName e = key")
    case True
    with sc Suc.prems(1) have h: "m1 = m" "i < length (mEntries m)" "mEntries m ! i = e" by auto
    have r: "trie V' m1' \<and> (\<forall>k. tfind V' m1' k = (if k = key then resurfaces m i else tfind ?V m k))"
      by (rule remove_node [OF Suc.prems(3) h(2)]) (use True h Suc.prems in auto)
    have "put_done ?V V' m key (resurfaces m i)"
      by (rule put_doneI [where X = "{mName m}" and m' = m1']) (use r h Suc.prems in auto)
    moreover have "length (mName m) \<le> maxlen" using Suc.prems(4) by (auto elim: view_SomeE)
    moreover have "at_branch ?V m key \<longleftrightarrow> eName e = []"
      using c True by (subst at_branch.simps) simp
    moreover have "w1 = w" using sc True Suc.prems(1) by auto
    ultimately show ?thesis using h Suc.prems(2) by simp
  next
    case False
    with sc Suc.prems(1) have b: "eEType e = intermediateEntry" "prefix (eName e) key"
      "scan_entries (mEntries m) key 0 = Below e" by (auto split: if_splits)
    obtain ch where ch: "?V (mName m @ eName e) = Some ch" "mName ch = mName m @ eName e" "trie ?V ch"
      using trie_childD [OF Suc.prems(3) em b(1)] by blast
    obtain w2 where l: "loadManifest sv idx (mName m @ eName e) (ixPassword idx) w = (Inr ch, w2)" "inv b w2"
      "feeds w2 = feeds w" "blobs w2 = blobs w" by (rule load_ok [OF Suc.prems(2) ch(1)])
    have V1: "ixview sv maxlen feeds blobs idx w2 = ?V" by (rule ixview_same [OF l(3,4)])
    have "findManifest n sv idx ch (drop (length (eName e)) key) w2 = (Inr (m1, i), w1)"
      using Suc.prems(1) b l(1) node_okD(1) [OF ok em] by (simp add: TrimPrefix_drop)
    from Suc.IH [OF this l(2)] ch Suc.prems(5-8) V1
    have d: "put_done ?V V' ch (drop (length (eName e)) key) (resurfaces m1 i)" "length (mName m1) \<le> maxlen"
      "i < length (mEntries m1)" "at_branch ?V ch (drop (length (eName e)) key) \<longleftrightarrow> eName (mEntries m1 ! i) = []"
      "inv b w1" "feeds w1 = feeds w" "blobs w1 = blobs w" using l(3,4) by simp_all
    have "eName e \<noteq> []" using node_okD(3) [OF ok em b(1)] .
    then have "at_branch ?V m key = at_branch ?V ch (drop (length (eName e)) key)"
      using c b(1,2) ch(1) by (subst at_branch.simps) simp
    with put_done_parent [OF Suc.prems(3,4) c b(1,2) ch(1,2) d(1)] d show ?thesis by simp
  qed
qed simp

end

section \<open>The index as a dictionary\<close>

text \<open>index_ok: the root manifest of an index is in the storage and is the root
  of a trie.  index_find is the dictionary it represents.\<close>

definition index_ok ::
  "'w services \<Rightarrow> nat \<Rightarrow> ('w \<Rightarrow> feedview) \<Rightarrow> ('w \<Rightarrow> blobview) \<Rightarrow> Index \<Rightarrow> 'w \<Rightarrow> bool" where
  "index_ok sv maxlen feeds blobs idx w \<longleftrightarrow>
     ixMutable idx \<and> (\<exists>m. ixview sv maxlen feeds blobs idx w (ixName idx) = Some m
       \<and> mName m = ixName idx \<and> trie (ixview sv maxlen feeds blobs idx w) m)"

definition index_find ::
  "'w services \<Rightarrow> nat \<Rightarrow> ('w \<Rightarrow> feedview) \<Rightarrow> ('w \<Rightarrow> blobview) \<Rightarrow> Index \<Rightarrow> 'w \<Rightarrow> string \<Rightarrow> bytes list option" where
  "index_find sv maxlen feeds blobs idx w key =
     (case ixview sv maxlen feeds blobs idx w (ixName idx) of
        None \<Rightarrow> None | Some m \<Rightarrow> tfind (ixview sv maxlen feeds blobs idx w) m key)"

definition index_at_branch ::
  "'w services \<Rightarrow> nat \<Rightarrow> ('w \<Rightarrow> feedview) \<Rightarrow> ('w \<Rightarrow> blobview) \<Rightarrow> Index \<Rightarrow> 'w \<Rightarrow> string \<Rightarrow> bool" where
  "index_at_branch sv maxlen feeds blobs idx w key =
     (case ixview sv maxlen feeds blobs idx w (ixName idx) of
        None \<Rightarrow> False | Some m \<Rightarrow> at_branch (ixview sv maxlen feeds blobs idx w) m key)"

lemma index_count [simp]:
  "index_ok sv maxlen feeds blobs (idx\<lparr>ixCount := c\<rparr>) w = index_ok sv maxlen feeds blobs idx w"
  "index_find sv maxlen feeds blobs (idx\<lparr>ixCount := c\<rparr>) w = index_find sv maxlen feeds blobs idx w"
  by (simp_all add: index_ok_def index_find_def fun_eq_iff split: option.split)

context storage
begin

lemma Put_ok:
  assumes "inv (b + 2 + 2) w" "index_ok sv maxlen feeds blobs idx w" "length (ixName idx) + length key \<le> maxlen" "ascii key"
  obtains w' where "Put sv idx key val ty apnd w = (Inr (), idx\<lparr>ixCount := ixCount idx + 1\<rparr>, w')" "inv b w'"
    "index_ok sv maxlen feeds blobs idx w'"
    "\<And>k. index_find sv maxlen feeds blobs idx w' k =
       (if k = key then Some (case index_find sv maxlen feeds blobs idx w key of
            Some old \<Rightarrow> if apnd \<and> \<not> index_at_branch sv maxlen feeds blobs idx w key then old @ [val] else [val]
          | None \<Rightarrow> [val])
        else index_find sv maxlen feeds blobs idx w k)"
    "\<And>n x. \<lbrakk>ixview sv maxlen feeds blobs idx w n = Some x; \<not> prefix (ixName idx) n\<rbrakk>
       \<Longrightarrow> ixview sv maxlen feeds blobs idx w' n = Some x" "tch idx {n. prefix (ixName idx) n} w w'"
proof -
  let ?V = "ixview sv maxlen feeds blobs idx"
  from assms(2) obtain m where m: "ixMutable idx" "?V w (ixName idx) = Some m" "mName m = ixName idx" "trie (?V w) m"
    by (auto simp: index_ok_def)
  obtain w1 where l: "loadManifest sv idx (ixName idx) (ixPassword idx) w = (Inr m, w1)" "inv (b + 2 + 2) w1"
    "feeds w1 = feeds w" "blobs w1 = blobs w" by (rule load_ok [OF assms(1) m(2)])
  have V1: "?V w1 = ?V w" by (rule ixview_same [OF l(3,4)])
  from addOrUpdate_ok [OF l(2), of idx m key ty val apnd] m assms(3,4) V1 obtain w' where
    r: "addOrUpdateStringEntry sv idx m key ty val apnd w1 = (Inr (), idx\<lparr>ixCount := ixCount idx + 1\<rparr>, w')"
      "inv b w'" "put_done (?V w) (?V w') m key (Some (put_value apnd (?V w) m key val))"
      "tch idx {n. prefix (ixName idx) n} w w'" using l(3,4) by auto
  from r(3) obtain m' where p: "?V w' (ixName idx) = Some m'" "mName m' = ixName idx" "trie (?V w') m'"
    "\<And>k. tfind (?V w') m' k = (if k = key then Some (put_value apnd (?V w) m key val) else tfind (?V w) m k)"
    "\<And>n x. \<lbrakk>?V w n = Some x; \<not> prefix (ixName idx) n\<rbrakk> \<Longrightarrow> ?V w' n = Some x"
    unfolding put_done_def m(3) by blast
  have pv: "(case index_find sv maxlen feeds blobs idx w key of
      Some old \<Rightarrow> if apnd \<and> \<not> index_at_branch sv maxlen feeds blobs idx w key then old @ [val] else [val]
    | None \<Rightarrow> [val]) = put_value apnd (?V w) m key val"
    using m(2) by (simp add: index_find_def index_at_branch_def put_value_def split: option.split)
  show thesis
  proof (rule that [of w'])
    show "Put sv idx key val ty apnd w = (Inr (), idx\<lparr>ixCount := ixCount idx + 1\<rparr>, w')"
      using writable [OF assms(1)] m(1) l(1) r(1) by (simp add: Put_def)
    show "index_ok sv maxlen feeds blobs idx w'" using m(1) p by (auto simp: index_ok_def)
    show "index_find sv maxlen feeds blobs idx w' k =
       (if k = key then Some (case index_find sv maxlen feeds blobs idx w key of
            Some old \<Rightarrow> if apnd \<and> \<not> index_at_branch sv maxlen feeds blobs idx w key then old @ [val] else [val]
          | None \<Rightarrow> [val])
        else index_find sv maxlen feeds blobs idx w k)" for k
      unfolding pv using p(1,4) m(2) by (simp add: index_find_def)
  qed (use r p in simp_all)
qed

lemma Get_ok:
  assumes "inv b w" "index_ok sv maxlen feeds blobs idx w"
  obtains w' where "Get sv idx key w =
      ((case index_find sv maxlen feeds blobs idx w key of None \<Rightarrow> Inl ErrEntryNotFound | Some refs \<Rightarrow> Inr refs), w')"
    "inv b w'" "feeds w' = feeds w" "blobs w' = blobs w"
proof -
  let ?V = "ixview sv maxlen feeds blobs idx"
  from assms(2) obtain m where m: "?V w (ixName idx) = Some m" "trie (?V w) m"
    by (auto simp: index_ok_def)
  obtain w1 where l: "loadManifest sv idx (ixName idx) (ixPassword idx) w = (Inr m, w1)" "inv b w1"
    "feeds w1 = feeds w" "blobs w1 = blobs w" by (rule load_ok [OF assms(1) m(1)])
  have V1: "?V w1 = ?V w" by (rule ixview_same [OF l(3,4)])
  from find_ok [OF l(2), of idx m key "Suc (length key)"] m V1 l(3,4) obtain r w' where
    f: "findManifest (Suc (length key)) sv idx m key w1 = (r, w')" "inv b w'" "feeds w' = feeds w" "blobs w' = blobs w"
      "case tfind (?V w) m key of None \<Rightarrow> r = Inl ErrEntryNotFound
        | Some refs \<Rightarrow> \<exists>m1 i. r = Inr (m1, i) \<and> i < length (mEntries m1) \<and> eRef (mEntries m1 ! i) = refs"
    by auto
  show thesis
  proof (cases "mEntries m = []")
    case True
    then have "tfind (?V w) m key = None" by (intro tfind_None) simp
    with that [of w1] l m True show thesis
      by (simp add: Get_def seekManifestAndEntry_def index_find_def)
  next
    case False
    with that [of w'] l f m show thesis
      by (auto simp: Get_def seekManifestAndEntry_def index_find_def split: option.splits)
  qed
qed

lemma Delete_ok:
  assumes "inv (b + 2) w" "index_ok sv maxlen feeds blobs idx w"
    and some: "index_find sv maxlen feeds blobs idx w key = Some refs"
    and nb: "\<not> index_at_branch sv maxlen feeds blobs idx w key"
  obtains w' where "Delete sv idx key w = (Inr refs, idx\<lparr>ixCount := ixCount idx - 1\<rparr>, w')" "inv b w'"
    "index_ok sv maxlen feeds blobs idx w'"
    "\<And>k. index_find sv maxlen feeds blobs idx w' k =
       (if k = key then None else index_find sv maxlen feeds blobs idx w k)"
    "tch idx {n. prefix (ixName idx) n} w w'"
proof -
  let ?V = "ixview sv maxlen feeds blobs idx"
  from assms(2) obtain m where m: "ixMutable idx" "?V w (ixName idx) = Some m" "mName m = ixName idx" "trie (?V w) m"
    by (auto simp: index_ok_def)
  obtain w1 where l: "loadManifest sv idx (ixName idx) (ixPassword idx) w = (Inr m, w1)" "inv (b + 2) w1"
    "feeds w1 = feeds w" "blobs w1 = blobs w" by (rule load_ok [OF assms(1) m(2)])
  have V1: "?V w1 = ?V w" by (rule ixview_same [OF l(3,4)])
  have tf: "tfind (?V w) m key = Some refs" using some m(2) by (simp add: index_find_def)
  from find_ok [OF l(2), of idx m key "Suc (length key)"] m V1 tf obtain m1 i w2 where
    f: "findManifest (Suc (length key)) sv idx m key w1 = (Inr (m1, i), w2)" "inv (b + 2) w2"
      "feeds w2 = feeds w1" "blobs w2 = blobs w1" "i < length (mEntries m1)" "eRef (mEntries m1 ! i) = refs"
    by auto
  have V2: "?V w2 = ?V w" using ixview_same [OF f(3,4)] V1 by simp
  have ne: "mEntries m \<noteq> []"
  proof
    assume "mEntries m = []"
    then have "tfind (?V w) m key = None" by (intro tfind_None) simp
    with tf show False by simp
  qed
  let ?es = "remove_at i (mEntries m1)" and ?c = "ixCount idx - 1"
  let ?m' = "set_mCount ?c (set_mEntries ?es m1)"
  let ?idx1 = "idx\<lparr>ixCount := ?c\<rparr>"
  text \<open>what is known of the manifest before it is written\<close>
  define V0 where "V0 = (?V w)(mName m1 := Some (set_mEntries ?es m1))"
  have "except (?V w1) V0 {mName m1}" "V0 (mName m1) = Some (set_mEntries ?es m1)"
    by (simp_all add: V0_def V1 except_def)
  from find_delete [OF f(1) l(2) _ _ this] m V1
  have d0: "length (mName m1) \<le> maxlen" "eName (mEntries m1 ! i) \<noteq> []"
    and pd0: "put_done (?V w) V0 m key (resurfaces m1 i)"
    using nb by (simp_all add: index_at_branch_def)
  from update_ok [OF f(2), of ?m' ?idx1] d0(1) obtain w' where
    u: "updateManifest sv ?idx1 ?m' (ixPassword ?idx1) w2 = (Inr (), w')" "inv b w'"
      "?V w' (mName m1) = Some (json_manifest ?m')" "except (?V w2) (?V w') {mName m1}" "tch idx {mName m1} w2 w'"
    by auto
  have pfx: "prefix (ixName idx) (mName m1)"
    using find_node_ok [OF f(1) l(2)] m V1 by simp
  have tc: "tch idx {n. prefix (ixName idx) n} w w'"
    using touched_mono [OF u(5), of "{n. prefix (ixName idx) n}"] pfx l(3,4) f(3,4) by simp
  have tr1: "trie (?V w) m1" using find_node_ok [OF f(1) l(2)] m V1 by simp
  have man: "plain ?es"
    using set_remove_at [of i "mEntries m1"] trie_plain [OF tr1] unfolding plain_def by blast
  have "mEntries (json_manifest ?m') = ?es" "mName (json_manifest ?m') = mName m1"
    using json_entries_id [OF man] json_string_valid [OF text_okD(1) [OF trie_text [OF tr1]]] by simp_all
  moreover have "trie (?V w1) m" "?V w1 (mName m) = Some m" "except (?V w1) (?V w') {mName m1}"
    using m V1 V2 u(4) by simp_all
  ultimately have pd: "put_done (?V w) (?V w') m key (resurfaces m1 i)"
    using find_delete [OF f(1) l(2), of "?V w'" "json_manifest ?m'"] u(3) V1 by simp
  have "resurfaces m1 i = None" using d0(2) by (simp add: resurfaces_def)
  with pd obtain m' where p: "?V w' (ixName idx) = Some m'" "mName m' = ixName idx" "trie (?V w') m'"
    "\<And>k. tfind (?V w') m' k = (if k = key then None else tfind (?V w) m k)"
    unfolding put_done_def m(3) by auto
  have i0: "\<not> (length (mEntries m1) = 1 \<and> eName (mEntries m1 ! 0) = [])"
    using d0(2) f(5) by (cases i) auto
  show thesis
  proof (rule that [of w'])
    show "Delete sv idx key w = (Inr refs, ?idx1, w')"
      using writable [OF assms(1)] m(1) l(1) f(1,6) ne i0 u(1)
      by (auto simp: Delete_def seekManifestAndEntry_def Let_def simp del: findManifest.simps)
    show "index_ok sv maxlen feeds blobs idx w'" using m(1) p by (auto simp: index_ok_def)
    show "index_find sv maxlen feeds blobs idx w' k = (if k = key then None else index_find sv maxlen feeds blobs idx w k)" for k
      using p(1,4) m(2) by (simp add: index_find_def)
  qed (use u(2) tc in simp_all)
qed

lemma getRoot_ok:
  assumes "inv b w" "feeds w (u, HashString sv name, bytes_of pw) = Some (Raw ref)"
    "blobs w ref = Some (Doc (DManifest m))"
  obtains w' where "getRootManifestOfIndex sv name pw u w = (Some m, w')" "inv b w'"
    "feeds w' = feeds w" "blobs w' = blobs w"
proof -
  obtain r w1 where g: "GetFeedData sv (HashString sv name) u (bytes_of pw) w = (r, w1)" by fastforce
  from get_feed [OF assms(1) g] assms obtain a where 1: "r = Inr (a, Raw ref)" "inv b w1" "feeds w1 = feeds w" "blobs w1 = blobs w"
    by auto
  obtain q w2 where d: "DownloadBlob sv ref w1 = (q, w2)" by fastforce
  from download_blob [OF 1(2) d] assms(3) 1
  have 2: "q = Inr (Doc (DManifest m), 200)" "inv b w2" "feeds w2 = feeds w" "blobs w2 = blobs w"
    by auto
  show thesis
    by (rule that [of w2])
       (use g 1 d 2 in \<open>simp_all add: getRootManifestOfIndex_def download_at_def unmarshal_manifest_def\<close>)
qed

lemma getRoot_none:
  assumes "inv b w" "feeds w (u, HashString sv name, bytes_of pw) = None \<or>
      (\<exists>ref. feeds w (u, HashString sv name, bytes_of pw) = Some (Raw ref) \<and> blobs w ref = None)"
  obtains w' where "getRootManifestOfIndex sv name pw u w = (None, w')" "inv b w'"
    "feeds w' = feeds w" "blobs w' = blobs w"
proof -
  obtain r w1 where g: "GetFeedData sv (HashString sv name) u (bytes_of pw) w = (r, w1)" by fastforce
  note 1 = get_feed [OF assms(1) g]
  from assms(2) show thesis
  proof
    assume "feeds w (u, HashString sv name, bytes_of pw) = None"
    with 1 g that [of w1] show thesis by (auto simp: getRootManifestOfIndex_def)
  next
    assume "\<exists>ref. feeds w (u, HashString sv name, bytes_of pw) = Some (Raw ref) \<and> blobs w ref = None"
    then obtain ref where ref: "feeds w (u, HashString sv name, bytes_of pw) = Some (Raw ref)" "blobs w ref = None"
      by blast
    with 1 obtain a where r: "r = Inr (a, Raw ref)" by auto
    obtain q w2 where d: "DownloadBlob sv ref w1 = (q, w2)" by fastforce
    from download_blob [OF _ d] 1 ref obtain e where
      "q = Inl e" "inv b w2" "feeds w2 = feeds w" "blobs w2 = blobs w" by force
    with that [of w2] g r d show thesis by (simp add: getRootManifestOfIndex_def download_at_def)
  qed
qed

lemma CreateIndex_ok:
  assumes "inv (b + 2) w" "length (podName @ coll @ name) \<le> maxlen"
    and free: "feeds w (u, HashString sv (podName @ coll @ name), bytes_of pw) \<in> {None, Some deleted_mark}"
    and valid: "valid_utf8 (podName @ coll @ name)"
  obtains w' idx m where "CreateIndex sv podName coll name pw ty u True w = (Inr (), w')" "inv b w'"
    "\<And>w''. \<lbrakk>inv b w''; feeds w'' = feeds w'; blobs w'' = blobs w'\<rbrakk> \<Longrightarrow>
       \<exists>w3. OpenIndex sv podName coll name pw u w'' = (Inr idx, w3) \<and> inv b w3 \<and> feeds w3 = feeds w' \<and> blobs w3 = blobs w'"
    "ixName idx = podName @ coll @ name" "ixPassword idx = pw" "ixUser idx = u"
    "index_ok sv maxlen feeds blobs idx w'" "index_find sv maxlen feeds blobs idx w' = (\<lambda>k. None)"
    "ixview sv maxlen feeds blobs idx w' (ixName idx) = Some m" "mName m = ixName idx" "mMutable m" "mEntries m = []"
    "touched sv maxlen u {podName @ coll @ name} (feeds w) (blobs w) (feeds w') (blobs w')"
    "mIdxType m = ty"
proof -
  define nm where "nm = podName @ coll @ name"
  let ?t = "HashString sv nm"
  obtain g w1 where g: "GetFeedData sv ?t u (bytes_of pw) w = (g, w1)" by fastforce
  from get_feed [OF assms(1) g] have 1: "inv (b + 2) w1" "feeds w1 = feeds w" "blobs w1 = blobs w" by auto
  have old: "(\<exists>e. g = Inl e) \<or> (\<exists>a. g = Inr (a, deleted_mark))"
    using get_feed [OF assms(1) g] free by (auto simp: nm_def)
  obtain now w2 where n: "NowUnix sv w1 = (now, w2)" by fastforce
  from clock [OF 1(1) n] 1 have 2: "inv (b + 2) w2" "feeds w2 = feeds w" "blobs w2 = blobs w" by auto
  define m where "m = NewManifest nm now ty True"
  have jn: "json_string nm = nm" using valid by (simp add: nm_def json_string_valid)
  have jm: "mName (json_manifest m) = nm" using jn by (simp add: m_def NewManifest_def)
  obtain q w3 where u: "UploadBlob sv (marshal_manifest m) w2 = (q, w3)" by fastforce
  from upload_blob [OF _ u, of "Suc b"] 2 obtain ref where 3: "q = Inr ref" "inv (Suc b) w3" "feeds w3 = feeds w"
    "32 \<le> length ref \<and> length ref \<le> 64" "blobs w3 = (blobs w)(ref \<mapsto> marshal_manifest m)"
    "blobs w ref = None \<or> blobs w ref = Some (marshal_manifest m)" by auto
  have len: "storable sv (bytes_of pw) (Raw ref)" using 3(4) by simp
  have ln: "length nm \<le> maxlen" using assms(2) by (simp add: nm_def)
  obtain r4 w4 where c4: "CreateFeed sv u ?t (Raw ref) (bytes_of pw) w3 = (r4, w4)" by fastforce
  obtain r5 w5 where c5: "UpdateFeed sv u ?t (Raw ref) (bytes_of pw) w3 = (r5, w5)" by fastforce
  have fresh: "\<nexists>a. g = Inr (a, deleted_mark) \<Longrightarrow> feeds w3 (u, ?t, bytes_of pw) = None"
    using get_feed [OF assms(1) g] free 3(3) by (auto simp: nm_def)
  note 4 = create_feed [OF 3(2) len ln refl fresh c4] and 5 = update_feed [OF 3(2) len ln refl c5]
  define w' where "w' = (if \<exists>a. g = Inr (a, deleted_mark) then w5 else w4)"
  have w': "inv b w'" "feed_written (feeds w) (feeds w') u ?t (bytes_of pw) (Raw ref)"
    "blobs w' = (blobs w)(ref \<mapsto> marshal_manifest m)"
    using 4 5 3 by (simp_all add: w'_def)
  have nonempty: "Raw [] \<noteq> deleted_mark"
    by (simp add: deleted_mark_def bytes_of_def DeletedFeedMagicWord_def)
  have res: "CreateIndex sv podName coll name pw ty u True w = (Inr (), w')"
    using writable [OF assms(1)] g n u 3(1) c4 c5 4 5 old nonempty
    by (auto simp: CreateIndex_def Let_def nm_def [symmetric] m_def [symmetric] w'_def)
  define idx where "idx = \<lparr>ixName = nm, ixMutable = True, ixType = ty, ixPodFile = [], ixPassword = pw,
      ixUser = u, ixCount = 0, ixMemDB = Some (json_manifest m)\<rparr>"
  have V: "ixview sv maxlen feeds blobs idx w' nm = Some (json_manifest m)"
    using w' ln by (simp add: ixview_def manifest_view_def idx_def marshal_manifest_def feed_writtenD(1))
  have t: "trie (ixview sv maxlen feeds blobs idx w') (json_manifest m)"
    by (rule trieI) (use valid jn in \<open>simp_all add: m_def NewManifest_def node_ok_def text_ok_def nm_def\<close>)
  show thesis
  proof (rule that [OF res w'(1), of idx "json_manifest m"])
    show "touched sv maxlen u {podName @ coll @ name} (feeds w) (blobs w) (feeds w') (blobs w')"
      using touched_write [OF w'(2,3) 3(6) ln] by (simp add: nm_def)
    show "ixview sv maxlen feeds blobs idx w' (ixName idx) = Some (json_manifest m)" using V by (simp add: idx_def)
    fix w'' assume i: "inv b w''" "feeds w'' = feeds w'" "blobs w'' = blobs w'"
    from w' i have "feeds w'' (u, ?t, bytes_of pw) = Some (Raw ref)" "blobs w'' ref = Some (Doc (DManifest (json_manifest m)))"
      by (simp_all add: marshal_manifest_def feed_writtenD(1))
    from getRoot_ok [OF i(1) this] obtain w3 where
      "getRootManifestOfIndex sv nm pw u w'' = (Some (json_manifest m), w3)" "inv b w3"
      "feeds w3 = feeds w''" "blobs w3 = blobs w''" by blast
    then show "\<exists>w3. OpenIndex sv podName coll name pw u w'' = (Inr idx, w3) \<and> inv b w3 \<and> feeds w3 = feeds w' \<and> blobs w3 = blobs w'"
      using i jn by (simp add: OpenIndex_def nm_def [symmetric] idx_def m_def NewManifest_def)
  next
    show "index_ok sv maxlen feeds blobs idx w'"
      using V t jn by (simp add: index_ok_def idx_def m_def NewManifest_def)
    show "index_find sv maxlen feeds blobs idx w' = (\<lambda>k. None)"
      using V by (simp add: index_find_def idx_def fun_eq_iff tfind_None m_def NewManifest_def)
  qed (use jn in \<open>simp_all add: idx_def nm_def m_def NewManifest_def\<close>)
qed

lemma DeleteIndex_ok:
  assumes "inv (Suc b) w" "index_ok sv maxlen feeds blobs idx w" "length (ixName idx) \<le> maxlen"
  obtains w' where "DeleteIndex sv idx (ixPassword idx) w = (Inr (), w')" "inv b w'"
    "\<And>p c n. ixName idx = p @ c @ n \<Longrightarrow>
       fst (OpenIndex sv p c n (ixPassword idx) (ixUser idx) w') = Inl ErrIndexNotPresent"
    "feed_written (feeds w) (feeds w') (ixUser idx) (HashString sv (ixName idx)) (bytes_of (ixPassword idx)) deleted_mark"
    "blobs w' = blobs w"
proof -
  let ?t = "HashString sv (ixName idx)" and ?pw = "bytes_of (ixPassword idx)"
  from assms(2) obtain m where m: "ixview sv maxlen feeds blobs idx w (ixName idx) = Some m"
    by (auto simp: index_ok_def)
  then obtain ref where ref: "feeds w (ixUser idx, ?t, ?pw) = Some (Raw ref)" "blobs w ref = Some (Doc (DManifest m))"
    by (rule view_SomeE)
  obtain w1 where g: "getRootManifestOfIndex sv (ixName idx) (ixPassword idx) (ixUser idx) w = (Some m, w1)"
    "inv (Suc b) w1" "feeds w1 = feeds w" "blobs w1 = blobs w" by (rule getRoot_ok [OF assms(1) ref])
  have len: "storable sv ?pw deleted_mark" by simp
  obtain r w' where u: "UpdateFeed sv (ixUser idx) ?t deleted_mark ?pw w1 = (r, w')" by fastforce
  note 2 = update_feed [OF g(2) len assms(3) refl u]
  have nob: "blobs w' (bytes_of DeletedFeedMagicWord) = None"
    using 2 blob_refs [of b w' "bytes_of DeletedFeedMagicWord"]
    by (cases "blobs w' (bytes_of DeletedFeedMagicWord)") (auto simp: bytes_of_def DeletedFeedMagicWord_def)
  show thesis
  proof (rule that [of w'])
    show "DeleteIndex sv idx (ixPassword idx) w = (Inr (), w')"
      using writable [OF assms(1)] g(1) u 2 by (simp add: DeleteIndex_def)
    fix p c n assume nm: "ixName idx = p @ c @ n"
    have "feeds w' (ixUser idx, ?t, ?pw) = Some (Raw (bytes_of DeletedFeedMagicWord))"
      using 2 feed_writtenD(1) by (fastforce simp: deleted_mark_def)
    with nob have "feeds w' (ixUser idx, ?t, ?pw) = None \<or>
        (\<exists>ref. feeds w' (ixUser idx, ?t, ?pw) = Some (Raw ref) \<and> blobs w' ref = None)" by blast
    moreover have "inv b w'" using 2 by simp
    ultimately obtain w3 where "getRootManifestOfIndex sv (ixName idx) (ixPassword idx) (ixUser idx) w' = (None, w3)"
      using getRoot_none by metis
    then show "fst (OpenIndex sv p c n (ixPassword idx) (ixUser idx) w') = Inl ErrIndexNotPresent"
      by (simp add: OpenIndex_def nm)
  qed (use 2 g in simp_all)
qed

end

section \<open>Properties\<close>

text \<open>C2: Put and Get make the index a dictionary for ASCII keys.  On an index whose manifests
  form a trie, Put of such a key without append succeeds, keeps the trie, and from then on Get
  of the key gives exactly the new value while Get of every other key gives what
  it gave before, values and errors alike.\<close>

theorem index_Put_Get:
  assumes "storage sv maxlen good feeds blobs" "good (b + 2 + 2) w" "index_ok sv maxlen feeds blobs idx w"
    "length (ixName idx) + length key \<le> maxlen" "ascii key"
  shows "\<exists>idx' w'. Put sv idx key val ty False w = (Inr (), idx', w') \<and> good b w'
     \<and> index_ok sv maxlen feeds blobs idx' w'
     \<and> (\<forall>k. fst (Get sv idx' k w') = (if k = key then Inr [val] else fst (Get sv idx k w)))"
proof -
  note Put = storage.Put_ok [OF assms(1,2,3,4,5), of val ty False]
  note Get = storage.Get_ok [OF assms(1)]
  obtain w' where p: "Put sv idx key val ty False w = (Inr (), idx\<lparr>ixCount := ixCount idx + 1\<rparr>, w')" "good b w'"
    "index_ok sv maxlen feeds blobs idx w'"
    "\<And>k. index_find sv maxlen feeds blobs idx w' k =
      (if k = key then Some [val] else index_find sv maxlen feeds blobs idx w k)"
    by (rule Put) (auto split: option.splits)
  let ?idx' = "idx\<lparr>ixCount := ixCount idx + 1\<rparr>"
  have ok': "index_ok sv maxlen feeds blobs ?idx' w'" using p(3) by simp
  have "fst (Get sv ?idx' k w') = (if k = key then Inr [val] else fst (Get sv idx k w))" for k
  proof -
    have "fst (Get sv ?idx' k w') = (case index_find sv maxlen feeds blobs idx w' k of
        None \<Rightarrow> Inl ErrEntryNotFound | Some refs \<Rightarrow> Inr refs)"
      by (rule Get [OF p(2) ok', of k]) simp
    moreover have "fst (Get sv idx k w) = (case index_find sv maxlen feeds blobs idx w k of
        None \<Rightarrow> Inl ErrEntryNotFound | Some refs \<Rightarrow> Inr refs)"
      by (rule Get [OF assms(2,3), of k]) simp
    ultimately show ?thesis by (simp add: p(4))
  qed
  with p(1,2) ok' show ?thesis by blast
qed

text \<open>C3: Delete removes exactly one key.  For a key that Get finds at an
  ordinary leaf (one whose entry in the last manifest has a name), and not at a branching
  point, where the code leaves it, Delete
  returns its values, keeps the trie, and afterwards Get says ErrEntryNotFound
  for the key and what it said before for every other key.\<close>

theorem index_Delete:
  assumes "storage sv maxlen good feeds blobs" "good (b + 2) w" "index_ok sv maxlen feeds blobs idx w"
    "fst (Get sv idx key w) = Inr refs" "\<not> index_at_branch sv maxlen feeds blobs idx w key"
  shows "\<exists>idx' w'. Delete sv idx key w = (Inr refs, idx', w') \<and> good b w'
     \<and> index_ok sv maxlen feeds blobs idx' w'
     \<and> (\<forall>k. fst (Get sv idx' k w') = (if k = key then Inl ErrEntryNotFound else fst (Get sv idx k w)))"
proof -
  note Get = storage.Get_ok [OF assms(1)]
  have get0: "fst (Get sv idx k w) = (case index_find sv maxlen feeds blobs idx w k of
      None \<Rightarrow> Inl ErrEntryNotFound | Some refs \<Rightarrow> Inr refs)" for k
    by (rule Get [OF assms(2,3), of k]) simp
  then have some: "index_find sv maxlen feeds blobs idx w key = Some refs"
    using assms(4) by (simp split: option.splits)
  obtain w' where p: "Delete sv idx key w = (Inr refs, idx\<lparr>ixCount := ixCount idx - 1\<rparr>, w')" "good b w'"
    "index_ok sv maxlen feeds blobs idx w'"
    "\<And>k. index_find sv maxlen feeds blobs idx w' k =
      (if k = key then None else index_find sv maxlen feeds blobs idx w k)"
    by (rule storage.Delete_ok [OF assms(1-3) some assms(5)]) (rule that)
  let ?idx' = "idx\<lparr>ixCount := ixCount idx - 1\<rparr>"
  have ok': "index_ok sv maxlen feeds blobs ?idx' w'" using p(3) by simp
  have "fst (Get sv ?idx' k w') = (if k = key then Inl ErrEntryNotFound else fst (Get sv idx k w))" for k
  proof -
    have "fst (Get sv ?idx' k w') = (case index_find sv maxlen feeds blobs idx w' k of
        None \<Rightarrow> Inl ErrEntryNotFound | Some refs \<Rightarrow> Inr refs)"
      by (rule Get [OF p(2) ok', of k]) simp
    then show ?thesis by (simp add: p(4) get0)
  qed
  with p(1,2) ok' show ?thesis by blast
qed

text \<open>C4: an index goes through its life as documented.  CreateIndex on a free
  name succeeds and OpenIndex then gives an index that is an empty trie, in
  which Get finds nothing; creating it again is refused; DeleteIndex makes
  OpenIndex refuse it, and the name is free again.\<close>

theorem index_life_cycle:
  assumes st: "storage sv maxlen good feeds blobs" and w: "good (b + 3) w"
    and len: "length (podName @ coll @ name) \<le> maxlen"
    and free: "feeds w (u, HashString sv (podName @ coll @ name), bytes_of pw) \<in> {None, Some deleted_mark}"
    and valid: "valid_utf8 (podName @ coll @ name)"
  shows "\<exists>w1 idx w2. CreateIndex sv podName coll name pw ty u True w = (Inr (), w1)
     \<and> OpenIndex sv podName coll name pw u w1 = (Inr idx, w2) \<and> index_ok sv maxlen feeds blobs idx w2
     \<and> (\<forall>k. fst (Get sv idx k w2) = Inl ErrEntryNotFound)
     \<and> fst (CreateIndex sv podName coll name pw ty u True w2) = Inl ErrIndexAlreadyPresent
     \<and> (\<exists>w3. DeleteIndex sv idx pw w2 = (Inr (), w3) \<and> good b w3
          \<and> fst (OpenIndex sv podName coll name pw u w3) = Inl ErrIndexNotPresent
          \<and> feeds w3 (u, HashString sv (podName @ coll @ name), bytes_of pw) = Some deleted_mark)"
proof -
  have "good (Suc b + 2) w" using w by (simp add: eval_nat_numeral)
  from storage.CreateIndex_ok [OF st this len free valid, of ty] obtain w1 idx where
    c: "CreateIndex sv podName coll name pw ty u True w = (Inr (), w1)" "good (Suc b) w1"
      "\<And>w''. \<lbrakk>good (Suc b) w''; feeds w'' = feeds w1; blobs w'' = blobs w1\<rbrakk> \<Longrightarrow>
        \<exists>w3. OpenIndex sv podName coll name pw u w'' = (Inr idx, w3) \<and> good (Suc b) w3 \<and> feeds w3 = feeds w1 \<and> blobs w3 = blobs w1"
      "ixName idx = podName @ coll @ name" "ixPassword idx = pw" "ixUser idx = u"
      "index_ok sv maxlen feeds blobs idx w1" "index_find sv maxlen feeds blobs idx w1 = (\<lambda>k. None)"
    by blast
  from c(3) [OF c(2) refl refl] obtain w2 where
    o: "OpenIndex sv podName coll name pw u w1 = (Inr idx, w2)" "good (Suc b) w2" "feeds w2 = feeds w1" "blobs w2 = blobs w1"
    by blast
  have V: "ixview sv maxlen feeds blobs idx w2 = ixview sv maxlen feeds blobs idx w1"
    by (rule ixview_same [OF o(3,4)])
  have ok2: "index_ok sv maxlen feeds blobs idx w2" using c(7) by (simp add: index_ok_def V)
  have f2: "index_find sv maxlen feeds blobs idx w2 = (\<lambda>k. None)"
    using c(8) unfolding index_find_def V .
  have get: "fst (Get sv idx k w2) = Inl ErrEntryNotFound" for k
    by (rule storage.Get_ok [OF st o(2) ok2, of k]) (simp add: f2)
  obtain m where m: "ixview sv maxlen feeds blobs idx w2 (ixName idx) = Some m" using ok2 by (auto simp: index_ok_def)
  obtain ref where ref: "feeds w2 (u, HashString sv (podName @ coll @ name), bytes_of pw) = Some (Raw ref)"
    "blobs w2 ref = Some (Doc (DManifest m))"
    by (rule storage.view_SomeE [OF st m]) (simp add: c(4-6))
  have rl: "32 \<le> length ref" using storage.blob_refs [OF st o(2) ref(2)] .
  obtain g w4 where g: "GetFeedData sv (HashString sv (podName @ coll @ name)) u (bytes_of pw) w2 = (g, w4)" by fastforce
  from storage.get_feed [OF st o(2) g] ref(1) obtain a where ga: "g = Inr (a, Raw ref)" by auto
  have nz: "\<not> content_empty sv (Raw ref)" "Raw ref \<noteq> deleted_mark"
    using rl by (auto simp: content_empty_def deleted_mark_def bytes_of_def DeletedFeedMagicWord_def)
  have again: "fst (CreateIndex sv podName coll name pw ty u True w2) = Inl ErrIndexAlreadyPresent"
    using storage.writable [OF st o(2)] g ga nz by (simp add: CreateIndex_def Let_def)
  have ln: "length (ixName idx) \<le> maxlen" using len c(4) by simp
  obtain w3 where
    d: "DeleteIndex sv idx (ixPassword idx) w2 = (Inr (), w3)" "good b w3"
      "\<And>p c n. ixName idx = p @ c @ n \<Longrightarrow>
         fst (OpenIndex sv p c n (ixPassword idx) (ixUser idx) w3) = Inl ErrIndexNotPresent"
      "feed_written (feeds w2) (feeds w3) (ixUser idx) (HashString sv (ixName idx)) (bytes_of (ixPassword idx)) deleted_mark"
    by (rule storage.DeleteIndex_ok [OF st o(2) ok2 ln]) (rule that)
  have "DeleteIndex sv idx pw w2 = (Inr (), w3)" "fst (OpenIndex sv podName coll name pw u w3) = Inl ErrIndexNotPresent"
    "feeds w3 (u, HashString sv (podName @ coll @ name), bytes_of pw) = Some deleted_mark"
    using d(1) d(3) [OF c(4)] feed_writtenD(1) [OF d(4)] by (simp_all add: c(4-6))
  with c(1) o(1) ok2 get again d(2) show ?thesis by blast
qed

end
