(* ===== verification/Epochs.thy ===== *)
theory Epochs
  imports GoPrelude
begin

text \<open>
  Feed epochs, pkg/feed/lookup/epoch.go and lookup.go.  An epoch is a cell of
  the time line: at level l the cells have 2^l seconds, so Base rounds the time
  down to the start of its cell.  Times are 64-bit words and levels 8-bit
  words, as in the code, shifts of 64 or more giving zero.

  The lemmas give the arithmetic meaning of the bit operations: Base is
  rounding down to a multiple of 2^l (Base_nat), two epochs have the same
  identifier exactly when they name the same cell of the same level, and
  GetNextLevel is level minus one inside the cell of the last update, and
  otherwise the highest bit on which the base of the last cell and the current
  time differ.
\<close>

unbundle bit_operations_syntax

section \<open>Epochs\<close>

type_synonym u64 = "64 word"
type_synonym u8 = "8 word"

record Epoch =
  Time :: u64
  Level :: u8

definition EpochLength :: nat where "EpochLength = 8"

definition MaxTime :: u64 where "MaxTime = 2 ^ 56 - 1"

definition maxuint64 :: u64 where "maxuint64 = NOT 0"

definition getBaseTime :: "u64 \<Rightarrow> u8 \<Rightarrow> u64" where
  "getBaseTime t level = t AND push_bit (unat level) maxuint64"

definition Base :: "Epoch \<Rightarrow> u64" where
  "Base e = getBaseTime (Time e) (Level e)"

text \<open>binary.LittleEndian.PutUint64 and Uint64.\<close>

definition PutUint64 :: "u64 \<Rightarrow> bytes" where
  "PutUint64 v = map (\<lambda>i. ucast (drop_bit (8 * i) v)) [0..<8]"

fun Uint64 :: "bytes \<Rightarrow> u64" where
  "Uint64 [] = 0"
| "Uint64 (b # bs) = ucast b OR push_bit 8 (Uint64 bs)"

definition EpochID :: "Epoch \<Rightarrow> bytes" where
  "EpochID e = (PutUint64 (Base e))[7 := Level e]"

definition MarshalBinary :: "Epoch \<Rightarrow> bytes" where
  "MarshalBinary e = (PutUint64 (Time e))[7 := Level e]"

definition UnmarshalBinary :: "bytes \<Rightarrow> Epoch result" where
  "UnmarshalBinary data =
     (if length data \<noteq> EpochLength then Inl (Errorf ''invalid data unmarshalling Epoch'')
      else let b = data in
        Inr \<lparr>Time = Uint64 (b[7 := 0]), Level = b ! 7\<rparr>)"

definition After :: "Epoch \<Rightarrow> Epoch \<Rightarrow> bool" where
  "After e epoch = (if Time e = Time epoch then Level e < Level epoch else Time e \<ge> Time epoch)"

definition Equals :: "Epoch \<Rightarrow> Epoch \<Rightarrow> bool" where
  "Equals e epoch = (Level e = Level epoch \<and> Base e = Base epoch)"

section \<open>Placing an update\<close>

definition LowestLevel :: u8 where "LowestLevel = 0"
definition HighestLevel :: u8 where "HighestLevel = 31"
definition DefaultLevel :: u8 where "DefaultLevel = HighestLevel"

definition NoClue :: Epoch where "NoClue = \<lparr>Time = 0, Level = 0\<rparr>"
definition worstHint :: Epoch where "worstHint = \<lparr>Time = 0, Level = 63\<rparr>"

definition Hint :: "u64 \<Rightarrow> Epoch" where
  "Hint t = \<lparr>Time = t, Level = DefaultLevel\<rparr>"

text \<open>The loop of GetNextLevel: i counts down from HighestLevel with the
  mask 2^i, and the function returns 0 when no bit is found above it.\<close>

fun scan_level :: "u64 \<Rightarrow> nat \<Rightarrow> u64 \<Rightarrow> u8" where
  "scan_level mix 0 msk = 0"
| "scan_level mix (Suc i) msk =
     (if mix AND msk \<noteq> 0 then of_nat (Suc i) else scan_level mix i (drop_bit 1 msk))"

definition GetNextLevel :: "Epoch \<Rightarrow> u64 \<Rightarrow> u8" where
  "GetNextLevel prev now =
     (let mix = Base prev XOR now;
          mix = mix OR push_bit (unat (Level prev - 1)) 1
      in if mix > drop_bit (64 - unat HighestLevel - 1) maxuint64 then HighestLevel
         else scan_level mix (unat HighestLevel) (push_bit (unat HighestLevel) 1))"

definition GetFirstEpoch :: "u64 \<Rightarrow> Epoch" where
  "GetFirstEpoch now = \<lparr>Time = now, Level = HighestLevel\<rparr>"

definition GetNextEpoch :: "Epoch \<Rightarrow> u64 \<Rightarrow> Epoch" where
  "GetNextEpoch prev now =
     (if prev = NoClue then GetFirstEpoch now
      else \<lparr>Time = now, Level = GetNextLevel prev now\<rparr>)"

lemmas epoch_consts = LowestLevel_def HighestLevel_def DefaultLevel_def NoClue_def
  worstHint_def EpochLength_def

section \<open>Cells as natural numbers\<close>

definition cell :: "nat \<Rightarrow> u64 \<Rightarrow> nat" where
  "cell l t = unat t div 2 ^ l"

lemma take_bit_unat [simp]: "take_bit 64 (unat (t :: u64)) = unat t"
  using unsigned_less [of t] by (intro take_bit_nat_eq_self) simp

lemma bit_base: "bit (getBaseTime t l) n \<longleftrightarrow> unat l \<le> n \<and> bit t n"
  by (auto simp: getBaseTime_def maxuint64_def bit_simps dest: bit_imp_le_length)

lemma base_eq_drop: "getBaseTime t l = push_bit (unat l) (drop_bit (unat l) t)"
  by (rule bit_eqI) (auto simp: bit_base bit_simps)

lemma Base_nat: "unat (getBaseTime t l) = unat t div 2 ^ unat l * 2 ^ unat l"
proof -
  have t: "unat t < 2 ^ 64" using unsigned_less [of t] by simp
  have "unat t div 2 ^ unat l * 2 ^ unat l \<le> unat t" by simp
  with t have "unat t div 2 ^ unat l * 2 ^ unat l < 2 ^ 64" by linarith
  moreover have "unat (getBaseTime t l) = take_bit 64 (push_bit (unat l) (drop_bit (unat l) (unat t)))"
    by (simp add: base_eq_drop unsigned_push_bit_eq unsigned_drop_bit_eq)
  ultimately show ?thesis
    by (simp add: take_bit_nat_eq_self push_bit_eq_mult drop_bit_eq_div)
qed

lemma cell_mono: "t \<le> t' \<Longrightarrow> cell l t \<le> cell l t'"
  by (simp add: cell_def word_le_nat_alt div_le_mono)

lemma base_eq_iff: "getBaseTime t l = getBaseTime t' l \<longleftrightarrow> cell (unat l) t = cell (unat l) t'"
proof -
  have "getBaseTime t l = getBaseTime t' l \<longleftrightarrow> unat (getBaseTime t l) = unat (getBaseTime t' l)"
    by (simp add: word_eq_iff_unsigned)
  then show ?thesis by (simp add: Base_nat cell_def)
qed

lemma base_le: "getBaseTime t l \<le> t"
  by (simp add: word_le_nat_alt Base_nat)

lemma cell_base: "unat l \<le> k \<Longrightarrow> cell k (getBaseTime t l) = cell k t"
proof -
  assume "unat l \<le> k"
  then have "(2::nat) ^ k = 2 ^ unat l * 2 ^ (k - unat l)"
    by (metis le_add_diff_inverse power_add)
  then show ?thesis by (simp add: cell_def Base_nat div_mult2_eq)
qed

lemma cell_coarser: "\<lbrakk>cell l t = cell l t'; l \<le> k\<rbrakk> \<Longrightarrow> cell k t = cell k t'"
proof -
  assume "cell l t = cell l t'" "l \<le> k"
  then have "(2::nat) ^ k = 2 ^ l * 2 ^ (k - l)"
    by (metis le_add_diff_inverse power_add)
  with \<open>cell l t = cell l t'\<close> show ?thesis by (simp add: cell_def div_mult2_eq)
qed

section \<open>The level of the next update\<close>

lemma scan_level_spec:
  "i \<le> 63 \<Longrightarrow>
     unat (scan_level mix i (push_bit i 1)) \<le> i
     \<and> (\<forall>j. unat (scan_level mix i (push_bit i 1)) < j \<and> j \<le> i \<longrightarrow> \<not> bit mix j)
     \<and> (0 < unat (scan_level mix i (push_bit i 1)) \<longrightarrow> bit mix (unat (scan_level mix i (push_bit i 1))))"
proof (induction i)
  case (Suc i)
  have m: "(mix AND push_bit (Suc i) 1 \<noteq> 0) = bit mix (Suc i)"
    by (simp only: bit_iff_and_push_bit_not_eq_0)
  have d: "drop_bit 1 (push_bit (Suc i) (1::u64)) = push_bit i 1"
    using Suc.prems by (intro bit_eqI) (auto simp: bit_simps)
  have u: "unat (of_nat (Suc i) :: u8) = Suc i"
    using Suc.prems by (simp add: unat_of_nat take_bit_nat_eq_self del: of_nat_Suc)
  show ?case
  proof (cases "bit mix (Suc i)")
    case True
    then have "scan_level mix (Suc i) (push_bit (Suc i) 1) = of_nat (Suc i)"
      using m by simp
    then have k: "unat (scan_level mix (Suc i) (push_bit (Suc i) 1)) = Suc i"
      using u by (simp only:)
    show ?thesis unfolding k using True by auto
  next
    case False
    then have "scan_level mix (Suc i) (push_bit (Suc i) 1) = scan_level mix i (push_bit i 1)"
      using m d by (simp del: of_nat_Suc push_bit_Suc)
    with False Suc show ?thesis
      by (metis Suc_leD le_SucE le_SucI)
  qed
qed simp

definition mix_of :: "Epoch \<Rightarrow> u64 \<Rightarrow> u64" where
  "mix_of prev now = (Base prev XOR now) OR push_bit (unat (Level prev - 1)) 1"

lemma high_bits_iff: "(\<forall>j \<ge> k. bit a j = bit b j) \<longleftrightarrow> cell k (a::u64) = cell k b"
proof -
  have "(\<forall>j \<ge> k. bit a j = bit b j) \<longleftrightarrow> (\<forall>n. bit a (k + n) = bit b (k + n))"
    by (metis le_add1 le_add_diff_inverse)
  also have "\<dots> \<longleftrightarrow> drop_bit k (unat a) = drop_bit k (unat b)"
    by (simp add: bit_eq_iff bit_drop_bit_eq bit_unsigned_iff)
  finally show ?thesis by (simp add: drop_bit_eq_div cell_def)
qed

lemma high_mask: "drop_bit (64 - unat HighestLevel - 1) maxuint64 = 4294967295"
  by code_simp

lemma mix_big: "mix > drop_bit (64 - unat HighestLevel - 1) maxuint64 \<longleftrightarrow> (\<exists>n \<ge> 32. bit mix n)"
proof -
  have "mix > drop_bit (64 - unat HighestLevel - 1) maxuint64 \<longleftrightarrow> cell 32 mix \<noteq> cell 32 0"
    unfolding high_mask by (simp add: word_less_nat_alt cell_def) linarith
  also have "\<dots> \<longleftrightarrow> (\<exists>n \<ge> 32. bit mix n)"
    by (subst high_bits_iff [symmetric]) simp
  finally show ?thesis .
qed

lemma GetNextLevel_mix:
  "GetNextLevel prev now =
     (if \<exists>n \<ge> 32. bit (mix_of prev now) n then HighestLevel
      else scan_level (mix_of prev now) 31 (push_bit 31 1))"
proof -
  have u: "unat HighestLevel = 31" by (simp add: HighestLevel_def)
  show ?thesis
    by (simp only: GetNextLevel_def Let_def mix_big mix_of_def [symmetric]) (simp only: u)
qed

lemma bit_mix:
  "bit (mix_of prev now) n \<longleftrightarrow>
     (bit (Base prev) n \<noteq> bit now n) \<or> (n = unat (Level prev - 1) \<and> n < 64)"
  by (auto simp: mix_of_def bit_simps dest: bit_imp_le_length)

lemma unat_level_pred: "unat (l - 1 :: u8) = (if l = 0 then 255 else unat l - 1)"
proof (cases "l = 0")
  case True
  then show ?thesis by (simp add: unsigned_minus_1_eq_mask mask_eq_exp_minus_1)
next
  case False
  then show ?thesis by (simp add: unat_minus_one)
qed

text \<open>Inside the cell of the last update, the next one is exactly one level
  below.\<close>

lemma GetNextLevel_same_cell:
  assumes l: "0 < unat (Level prev)" "unat (Level prev) \<le> 32"
    and c: "cell (unat (Level prev)) (Time prev) = cell (unat (Level prev)) now"
  shows "GetNextLevel prev now = Level prev - 1"
proof -
  let ?L = "unat (Level prev)" and ?m = "mix_of prev now"
  have pl: "unat (Level prev - 1) = ?L - 1" using l by (simp add: unat_level_pred) auto
  have "cell ?L (Base prev) = cell ?L now"
    using c by (simp add: Base_def cell_base)
  then have hi: "bit ?m j \<Longrightarrow> j < ?L" for j
    using l by (auto simp: bit_mix pl high_bits_iff [symmetric] not_less [symmetric])
  have at: "bit ?m (?L - 1)" using l pl by (auto simp: bit_mix)
  have nobig: "\<not> (\<exists>n \<ge> 32. bit ?m n)" using hi l by fastforce
  define k where "k = unat (scan_level ?m 31 (push_bit 31 1))"
  have k: "\<forall>j. k < j \<and> j \<le> 31 \<longrightarrow> \<not> bit ?m j" "0 < k \<Longrightarrow> bit ?m k"
    using scan_level_spec [of 31 ?m] by (simp_all add: k_def del: push_bit_numeral)
  have "?L - 1 \<le> k" using k(1) at l by (cases "k < ?L - 1") auto
  moreover have "k \<le> ?L - 1"
    using k(2) hi by (cases "k = 0") fastforce+
  ultimately have "k = unat (Level prev - 1)" using pl by simp
  then show ?thesis
    unfolding GetNextLevel_mix if_not_P [OF nobig] k_def by (rule word_unat_eq_iff [THEN iffD2])
qed

text \<open>Outside that cell it is the highest bit where the base of the last cell
  and the current time differ, capped at the highest level.\<close>

lemma GetNextLevel_other_cell:
  assumes l: "unat (Level prev) \<le> 31"
    and c: "cell (unat (Level prev)) (Time prev) \<noteq> cell (unat (Level prev)) now"
  defines "k \<equiv> unat (GetNextLevel prev now)"
  shows "unat (Level prev) \<le> k" "k \<le> 31" "cell k (Time prev) \<noteq> cell k now"
    "k = 31 \<or> cell (Suc k) (Time prev) = cell (Suc k) now"
proof -
  let ?L = "unat (Level prev)" and ?m = "mix_of prev now"
  have cb: "?L \<le> j \<Longrightarrow> cell j (Base prev) = cell j (Time prev)" for j
    by (simp add: Base_def cell_base)
  have diff: "\<exists>n \<ge> ?L. bit (Base prev) n \<noteq> bit now n"
    using c cb [of ?L] by (auto simp: high_bits_iff [symmetric])
  have pos: "Level prev \<noteq> 0 \<Longrightarrow> 0 < ?L" by (simp add: unat_gt_0)
  have low: "?L \<le> n \<Longrightarrow> bit ?m n \<longleftrightarrow> bit (Base prev) n \<noteq> bit now n" for n
    using l by (auto simp: bit_mix unat_level_pred split: if_splits dest!: pos)
  have all: "?L \<le> k \<and> k \<le> 31 \<and> cell k (Time prev) \<noteq> cell k now \<and>
      (k = 31 \<or> cell (Suc k) (Time prev) = cell (Suc k) now)"
  proof (cases "\<exists>n \<ge> 32. bit ?m n")
    case True
    then obtain n where n: "n \<ge> 32" "bit ?m n" by blast
    have "k = 31" unfolding k_def GetNextLevel_mix if_P [OF True] by (simp add: HighestLevel_def)
    moreover have "cell 31 (Base prev) \<noteq> cell 31 now"
      using n l low [of n] by (auto simp: high_bits_iff [symmetric] intro!: exI [of _ n])
    ultimately show "?L \<le> k \<and> k \<le> 31 \<and> cell k (Time prev) \<noteq> cell k now \<and>
        (k = 31 \<or> cell (Suc k) (Time prev) = cell (Suc k) now)"
      using l cb by simp
  next
    case False
    have k: "k = unat (scan_level ?m 31 (push_bit 31 1))"
      unfolding k_def GetNextLevel_mix if_not_P [OF False] ..
    have "k \<le> 31 \<and> (\<forall>j. k < j \<and> j \<le> 31 \<longrightarrow> \<not> bit ?m j) \<and> (0 < k \<longrightarrow> bit ?m k)"
      unfolding k by (rule scan_level_spec) simp
    then have sp: "k \<le> 31" "\<forall>j. k < j \<and> j \<le> 31 \<longrightarrow> \<not> bit ?m j" "0 < k \<Longrightarrow> bit ?m k"
      by blast+
    have none: "k < j \<Longrightarrow> \<not> bit ?m j" for j using sp(2) False by (cases "j \<le> 31") auto
    obtain n where n: "n \<ge> ?L" "bit ?m n" using diff low by blast
    then have Lk: "?L \<le> k" using none by (meson le_trans not_le)
    have "bit ?m k" using sp(3) n none by (cases "k = 0"; cases "n = 0") auto
    then have "cell k (Base prev) \<noteq> cell k now"
      using low [OF Lk] by (auto simp: high_bits_iff [symmetric])
    moreover have "cell (Suc k) (Base prev) = cell (Suc k) now"
      using low Lk none by (auto simp: high_bits_iff [symmetric] Suc_le_eq)
    ultimately show "?L \<le> k \<and> k \<le> 31 \<and> cell k (Time prev) \<noteq> cell k now \<and>
        (k = 31 \<or> cell (Suc k) (Time prev) = cell (Suc k) now)"
      using sp(1) Lk cb by simp
  qed
  then show "?L \<le> k" "k \<le> 31" "cell k (Time prev) \<noteq> cell k now"
    "k = 31 \<or> cell (Suc k) (Time prev) = cell (Suc k) now" by blast+
qed

lemma GetNextLevel_worstHint: "GetNextLevel worstHint now = 31"
proof -
  have "bit (mix_of worstHint now) 62"
    by (auto simp: bit_mix worstHint_def)
  then have "\<exists>n \<ge> 32. bit (mix_of worstHint now) n" by (intro exI [of _ 62]) simp
  then show ?thesis by (simp add: GetNextLevel_mix HighestLevel_def del: push_bit_numeral)
qed

lemma GetNextLevel_in_cell:
  assumes "unat (Level prev) \<le> 31"
    and c: "cell (unat (Level prev)) (Time prev) = cell (unat (Level prev)) now"
  shows "unat (GetNextLevel prev now) = unat (Level prev) - 1"
proof (cases "Level prev = 0")
  case True
  with c have t: "Time prev = now" by (simp add: cell_def word_unat_eq_iff)
  have none: "\<not> bit (mix_of prev now) n" for n
    using True t unat_level_pred [of "Level prev"] by (simp add: bit_mix bit_base Base_def)
  then have no: "\<not> (\<exists>n \<ge> 32. bit (mix_of prev now) n)" by blast
  define k where "k = unat (scan_level (mix_of prev now) 31 (push_bit 31 1))"
  have "k \<le> 31 \<and> (\<forall>j. k < j \<and> j \<le> 31 \<longrightarrow> \<not> bit (mix_of prev now) j)
      \<and> (0 < k \<longrightarrow> bit (mix_of prev now) k)"
    unfolding k_def by (rule scan_level_spec) simp
  with none have "k = 0" by blast
  then have "unat (GetNextLevel prev now) = 0"
    unfolding GetNextLevel_mix if_not_P [OF no] k_def .
  with True show ?thesis by simp
next
  case False
  then have "0 < unat (Level prev)" by (simp add: unat_gt_0)
  with GetNextLevel_same_cell [OF this _ c] assms(1) show ?thesis
    by (simp add: unat_level_pred False)
qed

section \<open>Encodings\<close>

lemma bit_Uint64:
  "bit (Uint64 bs) n \<longleftrightarrow> n < 64 \<and> n div 8 < length bs \<and> bit (bs ! (n div 8)) (n mod 8)"
proof (induction bs arbitrary: n)
  case (Cons b bs)
  have b: "bit b m \<Longrightarrow> m < 8" for m
    using bit_imp_le_length [of b m] by simp
  show ?case
  proof (cases "n < 8")
    case True
    then show ?thesis by (simp add: bit_simps)
  next
    case False
    then have "n div 8 = Suc ((n - 8) div 8)" "n mod 8 = (n - 8) mod 8"
      by (simp_all add: le_div_geq le_mod_geq)
    with False Cons.IH [of "n - 8"] show ?thesis by (auto simp: bit_simps dest: b)
  qed
qed simp

lemma length_PutUint64 [simp]: "length (PutUint64 v) = 8"
  by (simp add: PutUint64_def)

lemma Uint64_PutUint64: "Uint64 (PutUint64 v) = v"
proof (rule bit_eqI)
  fix n assume "possible_bit TYPE(u64) n"
  then have "n < 64" by simp
  moreover from this have "n div 8 < 8" by (simp add: less_mult_imp_div_less)
  moreover from this have "[0..<8] ! (n div 8) = n div 8" by (subst nth_upt) simp_all
  ultimately show "bit (Uint64 (PutUint64 v)) n = bit v n"
    by (simp add: bit_Uint64 PutUint64_def bit_simps)
qed

lemma PutUint64_top: "v \<le> MaxTime \<Longrightarrow> PutUint64 v ! 7 = 0"
proof -
  assume "v \<le> MaxTime"
  then have "unat v < 2 ^ 56" by (simp add: MaxTime_def word_le_nat_alt)
  then have "drop_bit 56 (unat v) = 0" by (simp add: drop_bit_eq_div)
  then have "unat (drop_bit 56 v) = 0" by (simp add: unsigned_drop_bit_eq)
  then have "drop_bit 56 v = 0" by (simp add: unat_eq_zero)
  then show ?thesis by (simp add: PutUint64_def)
qed

lemma Uint64_tagged:
  assumes "v \<le> MaxTime" shows "Uint64 (((PutUint64 v)[7 := l])[7 := 0]) = v"
proof -
  have "((PutUint64 v)[7 := l])[7 := 0] = (PutUint64 v)[7 := PutUint64 v ! 7]"
    using PutUint64_top [OF assms] by simp
  then show ?thesis by (simp add: Uint64_PutUint64 del: list_update_overwrite)
qed

lemma Marshal_Unmarshal:
  "Time e \<le> MaxTime \<Longrightarrow> UnmarshalBinary (MarshalBinary e) = Inr e"
  by (simp add: UnmarshalBinary_def MarshalBinary_def EpochLength_def Uint64_tagged del: list_update_overwrite)

lemma EpochID_eq_iff:
  assumes "Base e \<le> MaxTime" "Base e' \<le> MaxTime"
  shows "EpochID e = EpochID e' \<longleftrightarrow> Equals e e'"
proof
  assume eq: "EpochID e = EpochID e'"
  from arg_cong [OF eq, of "\<lambda>b. b ! 7"] have "Level e = Level e'"
    by (simp add: EpochID_def)
  moreover from arg_cong [OF eq, of "\<lambda>b. Uint64 (b[7 := 0])"] have "Base e = Base e'"
    using assms by (simp only: EpochID_def Uint64_tagged)
  ultimately show "Equals e e'" by (simp add: Equals_def)
qed (simp add: EpochID_def Equals_def)

end
