(* ===== verification/FeedLookup.thy ===== *)
theory FeedLookup
  imports Epochs
begin

text \<open>
  The feed lookup algorithms, pkg/feed/lookup/algorithm_fluzcapacitor.go and
  algorithm_longearth.go.  FluzCapacitor is the loop of the code as a total
  function, its termination proved for every read function and every hint.
  LongEarth explores the same search tree with three goroutines per step; it
  is the relation le of all the results that the timers and cancellations
  allow, le_seq being the run in which no timer fires.

  A feed's chunks are a partial map from epoch identifiers to values
  (slots).  slots_ok states what the publisher's placement rule guarantees,
  publish_ok that every update keeps it, and the main results are that both
  algorithms return the latest update, LongEarth under every schedule.
\<close>

section \<open>FluzCapacitorAlgorithm\<close>

type_synonym 'v readfunc = "Epoch \<Rightarrow> u64 \<Rightarrow> 'v option result"

definition in_cell :: "Epoch \<Rightarrow> u64 \<Rightarrow> bool" where
  "in_cell e t = (cell (unat (Level e)) (Time e) = cell (unat (Level e)) t)"

text \<open>How far the descent from a hint can still go: its level while the time
  is inside the hint's cell, 32 otherwise.\<close>

definition depth :: "Epoch \<Rightarrow> u64 \<Rightarrow> nat" where
  "depth h t = (if h \<noteq> NoClue \<and> in_cell h t \<and> unat (Level h) \<le> 31 then unat (Level h) else 32)"

definition unproven :: "Epoch \<Rightarrow> 'v option \<Rightarrow> nat" where
  "unproven h lastFound = (if lastFound = None \<and> h \<noteq> worstHint then 1 else 0)"

lemma Time_GetNextEpoch [simp]: "Time (GetNextEpoch h t) = t"
  by (simp add: GetNextEpoch_def GetFirstEpoch_def)

lemma GetNextLevel_le: "unat (GetNextLevel prev now) \<le> 31"
proof (cases "\<exists>n \<ge> 32. bit (mix_of prev now) n")
  case True
  show ?thesis unfolding GetNextLevel_mix if_P [OF True] by (simp add: HighestLevel_def)
next
  case False
  have "unat (scan_level (mix_of prev now) 31 (push_bit 31 1)) \<le> 31"
    using scan_level_spec [of 31 "mix_of prev now", THEN conjunct1] by (simp del: push_bit_numeral)
  then show ?thesis unfolding GetNextLevel_mix if_not_P [OF False] .
qed

lemma Level_GetNextEpoch_le: "unat (Level (GetNextEpoch h t)) \<le> 31"
  using GetNextLevel_le by (simp add: GetNextEpoch_def GetFirstEpoch_def HighestLevel_def)

lemma Base_le_Time: "Base e \<le> Time e"
  by (simp add: Base_def base_le)

lemma in_cell_self [simp]: "in_cell (GetNextEpoch h t) t"
  by (simp add: in_cell_def)

lemma Level_next_in_cell:
  "\<lbrakk>h \<noteq> NoClue; in_cell h t; unat (Level h) \<le> 31\<rbrakk>
    \<Longrightarrow> unat (Level (GetNextEpoch h t)) = unat (Level h) - 1"
  by (simp add: GetNextEpoch_def in_cell_def GetNextLevel_in_cell)

lemma depth_found:
  assumes "Level (GetNextEpoch h t) \<noteq> LowestLevel"
  shows "depth (GetNextEpoch h t) t < depth h t"
proof -
  have pos: "0 < unat (Level (GetNextEpoch h t))"
    using assms by (simp add: LowestLevel_def unat_gt_0)
  moreover from assms have "GetNextEpoch h t \<noteq> NoClue"
    by (auto simp: NoClue_def LowestLevel_def)
  ultimately show ?thesis
    using Level_GetNextEpoch_le [of h t] Level_next_in_cell [of h t] by (auto simp: depth_def)
qed

lemma base_pred_less:
  assumes "Base (GetNextEpoch h t) \<noteq> 0"
  shows "unat (Base (GetNextEpoch h t) - 1) < unat t"
proof -
  have "unat (Base (GetNextEpoch h t) - 1) = unat (Base (GetNextEpoch h t)) - 1"
    using assms by (rule unat_minus_one)
  moreover have "0 < unat (Base (GetNextEpoch h t))" using assms by (simp add: unat_gt_0)
  moreover have "unat (Base (GetNextEpoch h t)) \<le> unat t"
    using Base_le_Time [of "GetNextEpoch h t"] by (simp add: word_le_nat_alt)
  ultimately show ?thesis by linarith
qed

function fluz :: "'v readfunc \<Rightarrow> u64 \<Rightarrow> u64 \<Rightarrow> Epoch \<Rightarrow> 'v option \<Rightarrow> 'v option result" where
  "fluz read now t hint lastFound =
     (let epoch = GetNextEpoch hint t in
      case read epoch now of
        Inl err \<Rightarrow> Inl err
      | Inr (Some value) \<Rightarrow>
          if Level epoch = LowestLevel \<or> Equals epoch hint then Inr (Some value)
          else fluz read now t epoch (Some value)
      | Inr None \<Rightarrow>
          if Base epoch = Base hint then
            (case lastFound of
               Some value \<Rightarrow> Inr (Some value)
             | None \<Rightarrow>
                 if hint = worstHint then Inr None
                 else case read hint now of
                        Inl err \<Rightarrow> Inl err
                      | Inr (Some value) \<Rightarrow> Inr (Some value)
                      | Inr None \<Rightarrow> fluz read now (Base hint) worstHint None)
          else if Base epoch = 0 then Inr None
          else fluz read now (Base epoch - 1) hint lastFound)"
  by pat_completeness auto
termination
proof (relation "measures [\<lambda>(read, now, t, hint, lastFound). unproven hint lastFound,
    \<lambda>(read, now, t, hint, lastFound). unat t,
    \<lambda>(read, now, t, hint, lastFound). depth hint t]")
qed (auto simp: depth_found base_pred_less unproven_def)

definition FluzCapacitorAlgorithm :: "'v readfunc \<Rightarrow> u64 \<Rightarrow> Epoch \<Rightarrow> 'v option result" where
  "FluzCapacitorAlgorithm read now hint =
     fluz read now now (if hint = NoClue then worstHint else hint) None"

declare fluz.simps [simp del]

section \<open>The chunks of a feed and the publisher\<close>

type_synonym 'v slots = "(u64 \<times> u8) \<rightharpoonup> 'v"

definition slot :: "'v slots \<Rightarrow> Epoch \<Rightarrow> 'v option" where
  "slot S e = S (Base e, Level e)"

definition slot_read :: "'v slots \<Rightarrow> 'v readfunc" where
  "slot_read S e now = Inr (slot S e)"

definition occ :: "'v slots \<Rightarrow> u8 \<Rightarrow> u64 \<Rightarrow> bool" where
  "occ S l t = (slot S \<lparr>Time = t, Level = l\<rparr> \<noteq> None)"

text \<open>The placement rule of newRequest: the first update goes to the highest
  level, every other one to GetNextEpoch of the one before.\<close>

definition next_epoch :: "Epoch option \<Rightarrow> u64 \<Rightarrow> Epoch" where
  "next_epoch prev now =
     (case prev of Some e \<Rightarrow> GetNextEpoch e now | None \<Rightarrow> GetFirstEpoch now)"

definition publish :: "'v slots \<times> Epoch option \<Rightarrow> u64 \<times> 'v \<Rightarrow> 'v slots \<times> Epoch option" where
  "publish st upd =
     (let e = next_epoch (snd st) (fst upd)
      in ((fst st)((Base e, Level e) \<mapsto> snd upd), Some e))"

definition publish_all :: "(u64 \<times> 'v) list \<Rightarrow> 'v slots \<times> Epoch option" where
  "publish_all us = foldl publish (Map.empty, None) us"

text \<open>What the placement rule guarantees: e is the epoch of the last update
  and v its value; an occupied cell has all its ancestors occupied; no cell
  after the last update is occupied; and nothing is below the last update.\<close>

definition latest :: "'v slots \<Rightarrow> Epoch \<Rightarrow> 'v \<Rightarrow> bool" where
  "latest S e v \<longleftrightarrow>
     unat (Level e) \<le> 31 \<and> slot S e = Some v
     \<and> (\<forall>t l l'. occ S l t \<and> unat l \<le> unat l' \<and> unat l' \<le> 31 \<longrightarrow> occ S l' t)
     \<and> (\<forall>t l. occ S l t \<longrightarrow> unat l \<le> 31 \<and> cell (unat l) t \<le> cell (unat l) (Time e))
     \<and> (\<forall>t l. unat l < unat (Level e) \<and> in_cell e t \<longrightarrow> \<not> occ S l t)"

lemma latestD:
  assumes "latest S e v"
  shows "unat (Level e) \<le> 31" "slot S e = Some v"
    "\<lbrakk>occ S l t; unat l \<le> unat l'; unat l' \<le> 31\<rbrakk> \<Longrightarrow> occ S l' t"
    "occ S l t \<Longrightarrow> unat l \<le> 31"
    "occ S l t \<Longrightarrow> cell (unat l) t \<le> cell (unat l) (Time e)"
    "\<lbrakk>unat l < unat (Level e); in_cell e t\<rbrakk> \<Longrightarrow> \<not> occ S l t"
  using assms unfolding latest_def by blast+

lemma key_eq: "(getBaseTime t l, l) = (Base e, Level e) \<longleftrightarrow> l = Level e \<and> in_cell e t"
  by (auto simp: Base_def base_eq_iff in_cell_def)

lemma slot_cong: "\<lbrakk>Level f = Level e; in_cell e (Time f)\<rbrakk> \<Longrightarrow> slot S f = slot S e"
  by (simp add: slot_def Base_def in_cell_def base_eq_iff [symmetric])

lemma occ_upd:
  "occ (S((Base e, Level e) \<mapsto> v)) l t \<longleftrightarrow> (l = Level e \<and> in_cell e t) \<or> occ S l t"
  using key_eq [of t l e] by (auto simp: occ_def slot_def Base_def)

lemma slot_upd [simp]: "slot (S((Base e, Level e) \<mapsto> v)) e = Some v"
  by (simp add: slot_def)

lemma occ_slot: "occ S (Level e) (Time e) \<longleftrightarrow> slot S e \<noteq> None"
  by (simp add: occ_def slot_def Base_def)

lemma latest_occ: "\<lbrakk>latest S e v; unat (Level e) \<le> unat l; unat l \<le> 31\<rbrakk> \<Longrightarrow> occ S l (Time e)"
  using latestD(2,3) occ_slot by (metis option.distinct(1))

lemma occ_same_cell: "cell (unat l) t = cell (unat l) t' \<Longrightarrow> occ S l t = occ S l t'"
  by (simp add: occ_def slot_def Base_def base_eq_iff [symmetric])

lemma u8_31: "unat (l :: u8) = 31 \<longleftrightarrow> l = 31"
  by (simp add: word_unat_eq_iff)

lemma latest_first:
  assumes "e = GetFirstEpoch now"
  shows "latest (Map.empty((Base e, Level e) \<mapsto> v)) e v"
proof -
  have no: "\<not> occ Map.empty l t" for l t by (simp add: occ_def slot_def)
  have "occ (Map.empty((Base e, Level e) \<mapsto> v)) l t \<longleftrightarrow> l = Level e \<and> in_cell e t" for l t
    unfolding occ_upd using no by blast
  moreover have "Level e = 31" using assms by (simp add: GetFirstEpoch_def HighestLevel_def)
  ultimately show ?thesis
    unfolding latest_def by (auto simp: in_cell_def u8_31 slot_def)
qed

lemma next_cases:
  assumes "latest S p u" "p \<noteq> NoClue" "Time p \<le> now"
  obtains (inside) "in_cell p now" "unat (Level (GetNextEpoch p now)) = unat (Level p) - 1"
  | (after) "unat (Level p) \<le> unat (Level (GetNextEpoch p now))"
      "cell (unat (Level (GetNextEpoch p now))) (Time p) < cell (unat (Level (GetNextEpoch p now))) now"
      "Level (GetNextEpoch p now) = 31 \<or>
         cell (Suc (unat (Level (GetNextEpoch p now)))) (Time p) = cell (Suc (unat (Level (GetNextEpoch p now)))) now"
proof (cases "in_cell p now")
  case True
  show ?thesis
    by (rule inside [OF True Level_next_in_cell [OF assms(2) True latestD(1) [OF assms(1)]]])
next
  case False
  let ?l = "GetNextLevel p now"
  have l: "Level (GetNextEpoch p now) = ?l" using assms by (simp add: GetNextEpoch_def)
  have c: "cell (unat (Level p)) (Time p) \<noteq> cell (unat (Level p)) now"
    using False by (simp add: in_cell_def)
  note o = GetNextLevel_other_cell [OF latestD(1) [OF assms(1)] c]
  have "cell (unat ?l) (Time p) \<le> cell (unat ?l) now"
    using assms(3) by (rule cell_mono)
  with o(3) have "cell (unat ?l) (Time p) < cell (unat ?l) now" by simp
  then show ?thesis using o(1,4) by (intro after) (simp_all only: l u8_31)
qed

text \<open>Every update keeps the invariant.\<close>

lemma cell_coarser_le: "\<lbrakk>cell l t \<le> cell l t'; l \<le> k\<rbrakk> \<Longrightarrow> cell k t \<le> cell k t'"
proof -
  assume "cell l t \<le> cell l t'" "l \<le> k"
  then have "(2::nat) ^ k = 2 ^ l * 2 ^ (k - l)"
    by (metis le_add_diff_inverse power_add)
  with \<open>cell l t \<le> cell l t'\<close> show ?thesis by (simp add: cell_def div_mult2_eq div_le_mono)
qed

lemma u8_le_antisym: "\<lbrakk>unat (l :: u8) \<le> unat k; unat k \<le> unat l\<rbrakk> \<Longrightarrow> l = k"
  by (simp add: word_unat_eq_iff)

lemma latest_next:
  assumes ok: "latest S p u" and p: "p \<noteq> NoClue" and now: "Time p \<le> now"
  shows "latest (S((Base (GetNextEpoch p now), Level (GetNextEpoch p now)) \<mapsto> v)) (GetNextEpoch p now) v"
proof -
  define e where "e = GetNextEpoch p now"
  let ?S = "S((Base e, Level e) \<mapsto> v)"
  have te: "Time e = now" and le: "unat (Level e) \<le> 31"
    using Level_GetNextEpoch_le by (simp_all add: e_def)
  text \<open>the ancestors of the new cell are occupied, and nothing is at or below it\<close>
  have up: "occ S l now" if "unat (Level e) < unat l" "unat l \<le> 31" for l
    using ok p now
  proof (cases rule: next_cases)
    case inside
    with that have "unat (Level p) \<le> unat l" by (simp add: e_def)
    moreover from this inside(1) have "cell (unat l) (Time p) = cell (unat l) now"
      using cell_coarser unfolding in_cell_def by blast
    ultimately show ?thesis using latest_occ [OF ok] that occ_same_cell by blast
  next
    case after
    then have "cell (unat l) (Time p) = cell (unat l) now"
      using that cell_coarser [of "Suc (unat (Level e))" "Time p" now "unat l"]
      by (auto simp: e_def Suc_le_eq)
    moreover have "unat (Level p) \<le> unat l" using after that by (simp add: e_def)
    ultimately show ?thesis using latest_occ [OF ok] that occ_same_cell by blast
  qed
  have down: "\<not> occ S l t" if "in_cell e t" "unat l < unat (Level e)" for l t
    using ok p now
  proof (cases rule: next_cases)
    case inside
    with that have "unat l < unat (Level p)" by (simp add: e_def)
    moreover have "in_cell p t"
      using that(1) inside cell_coarser [of "unat (Level e)" now t "unat (Level p)"] te
      unfolding in_cell_def e_def by (metis diff_le_self)
    ultimately show ?thesis using latestD(6) [OF ok] by blast
  next
    case after
    have "cell (unat (Level e)) (Time p) < cell (unat (Level e)) t"
      using after(2) that(1) te by (simp add: in_cell_def e_def)
    then show ?thesis
      using latestD(5) [OF ok, of l t] that(2) cell_coarser_le [of "unat l" t "Time p" "unat (Level e)"] by fastforce
  qed
  have fut: "cell (unat l) t \<le> cell (unat l) now" if "occ S l t" for l t
    using latestD(5) [OF ok that] cell_mono [OF now, of "unat l"] by simp
  show ?thesis unfolding e_def [symmetric]
    unfolding latest_def
  proof (intro conjI allI impI)
    fix t :: u64 and l l' :: u8 assume a: "occ ?S l t \<and> unat l \<le> unat l' \<and> unat l' \<le> 31"
    show "occ ?S l' t"
    proof (cases "occ S l t")
      case True
      then show ?thesis using a latestD(3) [OF ok] by (auto simp: occ_upd)
    next
      case False
      with a have l: "l = Level e" "in_cell e t" by (auto simp: occ_upd)
      show ?thesis
      proof (cases "l' = l")
        case True
        then show ?thesis using l by (simp add: occ_upd)
      next
        case False
        with a l have "unat (Level e) < unat l'"
          using u8_le_antisym [of l l'] by (cases "unat l' \<le> unat l") auto
        moreover from this l have "cell (unat l') now = cell (unat l') t"
          using cell_coarser [of "unat (Level e)" now t "unat l'"] te by (simp add: in_cell_def)
        ultimately have "occ S l' t" using up [of l'] a occ_same_cell [of l' now t S] by blast
        then show ?thesis unfolding occ_upd by blast
      qed
    qed
  next
    fix t :: u64 and l :: u8 assume a: "unat l < unat (Level e) \<and> in_cell e t"
    then have "l \<noteq> Level e" by auto
    with a show "\<not> occ ?S l t" unfolding occ_upd using down [of t l] by blast
  next
    fix t l assume "occ ?S l t"
    then have "l = Level e \<or> occ S l t" unfolding occ_upd by blast
    then show "unat l \<le> 31" using latestD(4) [OF ok, of l t] le by metis
  next
    fix t l assume "occ ?S l t"
    then show "cell (unat l) t \<le> cell (unat l) (Time e)"
      using fut te by (auto simp: occ_upd in_cell_def)
  qed (use le in simp_all)
qed

lemma publish_all_snoc: "publish_all (us @ [u]) = publish (publish_all us) u"
  by (simp add: publish_all_def)

lemma publish_all_latest:
  "\<lbrakk>us \<noteq> []; sorted (map fst us); \<forall>u \<in> set us. 0 < fst u\<rbrakk>
    \<Longrightarrow> \<exists>S e. publish_all us = (S, Some e) \<and> latest S e (snd (last us)) \<and> Time e = fst (last us)"
proof (induction us rule: rev_induct)
  case (snoc u us)
  show ?case
  proof (cases "us = []")
    case True
    then show ?thesis
      using latest_first [OF refl, of "fst u" "snd u"]
      by (simp add: publish_all_def publish_def next_epoch_def Let_def) (simp add: GetFirstEpoch_def)
  next
    case False
    with snoc obtain S e where p: "publish_all us = (S, Some e)"
      and l: "latest S e (snd (last us))" "Time e = fst (last us)"
      by (auto simp: sorted_append)
    have "last us \<in> set us" using False by simp
    with snoc.prems l(2) have "0 < Time e" "Time e \<le> fst u"
      by (auto simp: sorted_append)
    then have "e \<noteq> NoClue" "Time e \<le> fst u" by (auto simp: NoClue_def)
    from latest_next [OF l(1) this, of "snd u"] show ?thesis
      by (simp add: publish_all_snoc p publish_def next_epoch_def Let_def)
  qed
qed simp

section \<open>Both algorithms find the latest update\<close>

lemma Base_cell: "unat (Base e) = cell (unat (Level e)) (Time e) * 2 ^ unat (Level e)"
  by (simp add: Base_def Base_nat cell_def)

lemma cell_bounds: "cell l t * 2 ^ l \<le> unat t" "unat t < (cell l t + 1) * 2 ^ l"
proof -
  have p: "(0::nat) < 2 ^ l" by simp
  show "cell l t * 2 ^ l \<le> unat t" by (simp add: cell_def)
  have "unat t = cell l t * 2 ^ l + unat t mod 2 ^ l" by (simp only: cell_def div_mult_mod_eq)
  moreover have "unat t mod 2 ^ l < 2 ^ l" using p by (rule mod_less_divisor)
  ultimately show "unat t < (cell l t + 1) * 2 ^ l" by (metis add.commute add_less_cancel_right distrib_right mult_1)
qed

lemma cell_lt_base: "cell l x < cell l t \<Longrightarrow> unat x < cell l t * 2 ^ l"
  by (rule less_le_trans [OF cell_bounds(2) [of x l]]) (metis Suc_eq_plus1 Suc_leI mult_le_mono1)

lemma le_base_cell: "cell l t * 2 ^ l \<le> unat x \<Longrightarrow> cell l t \<le> cell l x"
  unfolding cell_def [of l x] by (metis div_le_mono nonzero_mult_div_cancel_right power_not_zero zero_neq_numeral)

text \<open>A usable hint: the worst hint, or an epoch that holds an update.\<close>

definition hint_ok :: "'v slots \<Rightarrow> Epoch \<Rightarrow> bool" where
  "hint_ok S h \<longleftrightarrow> h = worstHint \<or> (h \<noteq> NoClue \<and> unat (Level h) \<le> 31 \<and> slot S h \<noteq> None)"

lemma Level_worstHint [simp]: "Level worstHint = 63" "Time worstHint = 0"
  by (simp_all add: worstHint_def)

lemma worstHint_NoClue [simp]: "worstHint \<noteq> NoClue" "NoClue \<noteq> worstHint"
  by (simp_all add: worstHint_def NoClue_def)

lemma Base_worstHint [simp]: "Base worstHint = 0"
  by (simp only: Base_def getBaseTime_def Level_worstHint bit.conj_zero_left)

lemma next_worst [simp]: "Level (GetNextEpoch worstHint t) = 31"
  by (simp add: GetNextEpoch_def GetNextLevel_worstHint)

lemma occ_next: "occ S (Level (GetNextEpoch h t)) t \<longleftrightarrow> slot S (GetNextEpoch h t) \<noteq> None"
  by (rule occ_slot [of S "GetNextEpoch h t", unfolded Time_GetNextEpoch])

lemma hint_cell_le:
  assumes "latest S e v" "slot S h \<noteq> None"
  shows "cell (unat (Level h)) (Time h) \<le> cell (unat (Level h)) (Time e)"
  using latestD(5) [OF assms(1), of "Level h" "Time h"] assms(2) by (simp add: occ_slot)

text \<open>The hint is the cell of the last update.\<close>

definition at_last :: "Epoch \<Rightarrow> Epoch \<Rightarrow> bool" where
  "at_last e h = (Level h = Level e \<and> in_cell e (Time h))"

lemma at_last_slot: "\<lbrakk>latest S e v; at_last e h\<rbrakk> \<Longrightarrow> slot S h = Some v"
  using slot_cong [of h e S] latestD(2) by (simp add: at_last_def)

lemma in_cell_sym: "\<lbrakk>Level f = Level e; in_cell e (Time f); in_cell f t\<rbrakk> \<Longrightarrow> in_cell e t"
  by (simp add: in_cell_def)

text \<open>A hint whose cell contains the last update, read at a later time of that
  cell.\<close>

lemma hint_inside:
  assumes ok: "latest S e v" and h: "hint_ok S h" "h \<noteq> worstHint" and te: "Time e \<le> t"
    and c: "in_cell h t"
  shows "cell (unat (Level h)) (Time h) = cell (unat (Level h)) (Time e)"
    "unat (Level e) \<le> unat (Level h)"
proof -
  let ?L = "unat (Level h)"
  have occ: "occ S (Level h) (Time h)" using h by (auto simp: hint_ok_def occ_slot)
  show eq: "cell ?L (Time h) = cell ?L (Time e)"
    using latestD(5) [OF ok occ] cell_mono [OF te, of ?L] c by (simp add: in_cell_def)
  show "unat (Level e) \<le> ?L"
  proof (rule ccontr)
    assume "\<not> unat (Level e) \<le> ?L"
    moreover from this have "in_cell e (Time h)"
      using eq cell_coarser [of ?L "Time h" "Time e" "unat (Level e)"] by (simp add: in_cell_def)
    ultimately show False using latestD(6) [OF ok] occ by simp
  qed
qed

lemma hint_outside:
  assumes ok: "latest S e v" and h: "hint_ok S h" "h \<noteq> worstHint" and te: "Time e \<le> t"
    and c: "\<not> in_cell h t"
  defines "k \<equiv> unat (Level (GetNextEpoch h t))"
  shows "unat (Level h) \<le> k" "k \<le> 31" "cell k (Time h) < cell k t"
    "k = 31 \<or> cell (Suc k) (Time h) = cell (Suc k) t"
proof -
  have h': "h \<noteq> NoClue" "unat (Level h) \<le> 31" "slot S h \<noteq> None"
    using h by (auto simp: hint_ok_def)
  have c': "cell (unat (Level h)) (Time h) \<noteq> cell (unat (Level h)) t"
    using c by (simp add: in_cell_def)
  have k: "k = unat (GetNextLevel h t)" using h' by (simp add: k_def GetNextEpoch_def)
  note o = GetNextLevel_other_cell [OF h'(2) c', folded k]
  from o(1,2,4) show "unat (Level h) \<le> k" "k \<le> 31" "k = 31 \<or> cell (Suc k) (Time h) = cell (Suc k) t"
    by simp_all
  have "cell (unat (Level h)) (Time h) \<le> cell (unat (Level h)) t"
    using hint_cell_le [OF ok h'(3)] cell_mono [OF te] le_trans by blast
  from cell_coarser_le [OF this o(1)] o(3) show "cell k (Time h) < cell k t" by simp
qed

text \<open>An empty cell on the path: either it lies after the last update, or the
  hint is the last update.\<close>

lemma empty_next:
  assumes ok: "latest S e v" and h: "hint_ok S h" and te: "Time e \<le> t"
    and none: "slot S (GetNextEpoch h t) = None"
  defines "k \<equiv> unat (Level (GetNextEpoch h t))"
  shows "cell k (Time e) < cell k t \<or> (at_last e h \<and> in_cell h t)"
proof (cases "cell k (Time e) = cell k t")
  case False
  with cell_mono [OF te, of k] show ?thesis by simp
next
  case True
  have no: "\<not> occ S (Level (GetNextEpoch h t)) t" using none occ_next by blast
  have kl: "k < unat (Level e)"
  proof (rule ccontr)
    assume "\<not> k < unat (Level e)"
    then have "occ S (Level (GetNextEpoch h t)) (Time e)"
      using latest_occ [OF ok] Level_GetNextEpoch_le by (simp add: k_def)
    with no True occ_same_cell show False unfolding k_def by blast
  qed
  have nw: "h \<noteq> worstHint"
    using kl latestD(1) [OF ok] by (auto simp: k_def)
  then have h': "h \<noteq> NoClue" "unat (Level h) \<le> 31" "slot S h \<noteq> None"
    using h by (auto simp: hint_ok_def)
  have occ: "occ S (Level h) (Time h)" using h' by (simp add: occ_slot)
  show ?thesis
  proof (cases "in_cell h t")
    case c: True
    note i = hint_inside [OF ok h nw te c]
    have "k = unat (Level h) - 1" using Level_next_in_cell [OF h'(1) c h'(2)] by (simp add: k_def)
    moreover have "unat (Level h) \<noteq> 0"
    proof
      assume "unat (Level h) = 0"
      with kl i(2) show False by simp
    qed
    ultimately have "Level h = Level e" using kl i(2) u8_le_antisym [of "Level h" "Level e"] by simp
    with i(1) c show ?thesis by (simp add: at_last_def in_cell_def)
  next
    case c: False
    note o = hint_outside [OF ok h nw te c, folded k_def]
    from kl latestD(1) [OF ok] have "k \<noteq> 31" by linarith
    with o(4) have "cell (Suc k) (Time h) = cell (Suc k) t" by simp
    moreover have "cell (Suc k) (Time e) = cell (Suc k) t" using True by (rule cell_coarser) simp
    ultimately have "in_cell e (Time h)"
      using kl cell_coarser [of "Suc k" "Time e" "Time h" "unat (Level e)"] by (simp add: in_cell_def)
    with occ latestD(6) [OF ok, of "Level h"] o(1) kl show ?thesis by simp
  qed
qed

text \<open>Inside the cell of the last update every finer cell is empty, so the
  descent there ends at the base of the hint.\<close>

lemma below_last:
  assumes ok: "latest S e v" and a: "at_last e h" and c: "in_cell h t" and h: "h \<noteq> NoClue"
    and some: "slot S (GetNextEpoch h t) = Some w"
  shows "w = v" "Level (GetNextEpoch h t) = LowestLevel"
proof -
  let ?e = "GetNextEpoch h t"
  have eL: "Level h = Level e" "in_cell e (Time h)" using a by (simp_all add: at_last_def)
  then have l: "unat (Level ?e) = unat (Level e) - 1"
    using Level_next_in_cell [OF h c] latestD(1) [OF ok] by simp
  have et: "in_cell e t" using eL c by (simp add: in_cell_def)
  have "occ S (Level ?e) t" using some occ_next by fastforce
  then have "\<not> unat (Level ?e) < unat (Level e)" using latestD(6) [OF ok] et by blast
  with l have z: "unat (Level ?e) = 0" "unat (Level e) = 0" by linarith+
  then show "Level ?e = LowestLevel" by (simp add: LowestLevel_def unat_eq_zero)
  have "Level ?e = Level e" using z by (simp add: word_unat_eq_iff)
  with slot_cong [of ?e e S] et latestD(2) [OF ok] some show "w = v" by simp
qed

lemma unoccupied_below:
  assumes "latest S e v" "at_last e h" "in_cell h t" "h \<noteq> NoClue"
    and "Level (GetNextEpoch h t) \<noteq> LowestLevel"
  shows "slot S (GetNextEpoch h t) = None"
  using below_last(2) [OF assms(1-4)] assms(5) by (cases "slot S (GetNextEpoch h t)") auto

text \<open>What happens to the time of the search when a read fails: it stays at or
  after the last update, or inside the cell of the hint.\<close>

lemma back_after:
  assumes k: "cell (unat (Level (GetNextEpoch h t))) (Time e) < cell (unat (Level (GetNextEpoch h t))) t"
  shows "Base (GetNextEpoch h t) \<noteq> 0" "Time e \<le> Base (GetNextEpoch h t) - 1"
proof -
  have lt: "unat (Time e) < unat (Base (GetNextEpoch h t))"
    using cell_lt_base [OF k] by (simp add: Base_cell)
  then have "unat (Base (GetNextEpoch h t)) \<noteq> 0" by linarith
  then show n: "Base (GetNextEpoch h t) \<noteq> 0" by (metis unsigned_0)
  show "Time e \<le> Base (GetNextEpoch h t) - 1"
    using lt by (simp add: word_le_nat_alt unat_minus_one [OF n])
qed

lemma back_inside:
  assumes h: "h \<noteq> NoClue" "unat (Level h) \<le> 31" and c: "in_cell h t"
    and b: "Base (GetNextEpoch h t) \<noteq> Base h"
  shows "Base (GetNextEpoch h t) \<noteq> 0" "in_cell h (Base (GetNextEpoch h t) - 1)"
proof -
  let ?e = "GetNextEpoch h t" and ?L = "unat (Level h)"
  have l: "unat (Level ?e) \<le> ?L" using Level_next_in_cell [OF h(1) c h(2)] by simp
  have "cell ?L (Base ?e) = cell ?L t"
    using cell_base [OF l, of t] by (simp add: Base_def)
  then have ce: "cell ?L (Base ?e) = cell ?L (Time h)" using c by (simp add: in_cell_def)
  then have "unat (Base h) \<le> unat (Base ?e)"
    using cell_bounds(1) [of ?L "Base ?e"] by (simp add: Base_cell [of h])
  with b have lt: "unat (Base h) < unat (Base ?e)" by (simp add: word_unat_eq_iff)
  then have "unat (Base ?e) \<noteq> 0" by linarith
  then show n: "Base ?e \<noteq> 0" by (metis unsigned_0)
  have "cell ?L (Time h) \<le> cell ?L (Base ?e - 1)"
    using lt by (intro le_base_cell) (simp add: Base_cell [of h, symmetric] unat_minus_one [OF n])
  moreover have "cell ?L (Base ?e - 1) \<le> cell ?L (Base ?e)"
    by (rule cell_mono) (simp add: word_le_nat_alt unat_minus_one [OF n])
  ultimately show "in_cell h (Base ?e - 1)" using ce by (simp add: in_cell_def)
qed

text \<open>The search reaches the base of the hint only at the last update.\<close>

lemma base_reached:
  assumes ok: "latest S e v" and h: "hint_ok S h" and te: "Time e \<le> t"
    and none: "slot S (GetNextEpoch h t) = None" and b: "Base (GetNextEpoch h t) = Base h"
  shows "at_last e h"
proof (rule ccontr)
  assume "\<not> at_last e h"
  with empty_next [OF ok h te none]
  have k: "cell (unat (Level (GetNextEpoch h t))) (Time e) < cell (unat (Level (GetNextEpoch h t))) t"
    by blast
  have lt: "unat (Time e) < unat (Base h)"
    using cell_lt_base [OF k] b Base_cell [of "GetNextEpoch h t"] by simp
  then have "h \<noteq> worstHint" by auto
  with h have "slot S h \<noteq> None" by (simp add: hint_ok_def)
  from hint_cell_le [OF ok this] have "unat (Base h) \<le> unat (Time e)"
    unfolding Base_cell by (meson cell_bounds(1) le_trans mult_le_mono1)
  with lt show False by simp
qed

definition search_ok :: "'v slots \<Rightarrow> Epoch \<Rightarrow> u64 \<Rightarrow> Epoch \<Rightarrow> bool" where
  "search_ok S e t h \<longleftrightarrow> hint_ok S h \<and> (Time e \<le> t \<or> (at_last e h \<and> in_cell h t))"

lemma worst_not_last: "latest S e v \<Longrightarrow> \<not> at_last e worstHint"
  using latestD(1) [of S e v] by (auto simp: at_last_def dest: arg_cong [of _ _ unat])

lemma search_found:
  assumes ok: "latest S e v" and s: "search_ok S e t h" and w: "slot S (GetNextEpoch h t) = Some w"
  shows "Level (GetNextEpoch h t) = LowestLevel \<or> Equals (GetNextEpoch h t) h \<Longrightarrow> w = v"
    "Level (GetNextEpoch h t) \<noteq> LowestLevel \<Longrightarrow> search_ok S e t (GetNextEpoch h t)"
proof -
  let ?e = "GetNextEpoch h t"
  have nc: "h \<noteq> NoClue" using s by (auto simp: search_ok_def hint_ok_def)
  { assume "Level ?e \<noteq> LowestLevel"
    then have "hint_ok S ?e"
      using w Level_GetNextEpoch_le by (auto simp: hint_ok_def NoClue_def LowestLevel_def)
    moreover have "Time e \<le> t"
      using s below_last [OF ok _ _ nc w] \<open>Level ?e \<noteq> LowestLevel\<close> by (auto simp: search_ok_def)
    ultimately show "search_ok S e t ?e" by (simp add: search_ok_def) }
  have low: "w = v" if z: "Level ?e = LowestLevel"
  proof (cases "at_last e h \<and> in_cell h t")
    case True
    then show ?thesis using below_last(1) [OF ok _ _ nc w] by blast
  next
    case False
    with s have te: "Time e \<le> t" by (auto simp: search_ok_def)
    have occ: "occ S 0 t" using w occ_next [of S h t] z by (simp add: LowestLevel_def)
    from latestD(5) [OF ok this] te have t: "t = Time e"
      by (simp add: cell_def word_le_nat_alt word_unat_eq_iff)
    with occ latestD(6) [OF ok, of 0 t] have "unat (Level e) = 0" by (auto simp: in_cell_def)
    then have "Level e = Level ?e" using z by (simp add: LowestLevel_def unat_eq_zero)
    with slot_cong [of ?e e S] t latestD(2) [OF ok] w show ?thesis by (simp add: in_cell_def)
  qed
  assume "Level ?e = LowestLevel \<or> Equals ?e h"
  then show "w = v"
  proof
    assume q: "Equals ?e h"
    then have hl: "unat (Level h) \<le> 31" using Level_GetNextEpoch_le [of h t] by (simp add: Equals_def)
    from q have "getBaseTime t (Level h) = getBaseTime (Time h) (Level h)"
      by (auto simp: Equals_def Base_def)
    then have "in_cell h t" by (simp add: base_eq_iff in_cell_def)
    from Level_next_in_cell [OF nc this hl] q have "unat (Level ?e) = 0" by (simp add: Equals_def)
    then show ?thesis by (intro low) (simp add: LowestLevel_def unat_eq_zero)
  qed (rule low)
qed

lemma search_back:
  assumes ok: "latest S e v" and s: "search_ok S e t h" and none: "slot S (GetNextEpoch h t) = None"
    and b: "Base (GetNextEpoch h t) \<noteq> Base h"
  shows "Base (GetNextEpoch h t) \<noteq> 0" "search_ok S e (Base (GetNextEpoch h t) - 1) h"
proof -
  have hk: "hint_ok S h" using s by (simp add: search_ok_def)
  have split: "cell (unat (Level (GetNextEpoch h t))) (Time e) < cell (unat (Level (GetNextEpoch h t))) t
      \<or> (at_last e h \<and> in_cell h t)"
    using s empty_next [OF ok hk _ none] by (auto simp: search_ok_def)
  have in_last: "Base (GetNextEpoch h t) \<noteq> 0 \<and> in_cell h (Base (GetNextEpoch h t) - 1)"
    if "at_last e h" "in_cell h t"
    using that hk worst_not_last [OF ok] back_inside [OF _ _ that(2) b] by (auto simp: hint_ok_def)
  show "Base (GetNextEpoch h t) \<noteq> 0" using split back_after in_last by blast
  show "search_ok S e (Base (GetNextEpoch h t) - 1) h"
    using split
  proof
    assume k: "cell (unat (Level (GetNextEpoch h t))) (Time e) < cell (unat (Level (GetNextEpoch h t))) t"
    from back_after(2) [OF k] hk show ?thesis by (simp add: search_ok_def)
  next
    assume "at_last e h \<and> in_cell h t"
    with in_last hk show ?thesis by (simp add: search_ok_def)
  qed
qed

lemma search_end:
  assumes ok: "latest S e v" and s: "search_ok S e t h" and none: "slot S (GetNextEpoch h t) = None"
    and b: "Base (GetNextEpoch h t) = Base h"
  shows "slot S h = Some v" "h \<noteq> worstHint" "at_last e h"
proof -
  show a: "at_last e h" using s base_reached [OF ok _ _ none b] by (auto simp: search_ok_def)
  then show "slot S h = Some v" "h \<noteq> worstHint"
    using at_last_slot [OF ok] worst_not_last [OF ok] by auto
qed

lemma fluz_latest:
  assumes ok: "latest S e v"
  shows "\<lbrakk>search_ok S e t h; lastFound = None \<or> lastFound = slot S h\<rbrakk>
    \<Longrightarrow> fluz (slot_read S) now t h lastFound = Inr (Some v)"
proof (induction "slot_read S" now t h lastFound rule: fluz.induct)
  case (1 now t h lastFound)
  let ?e = "GetNextEpoch h t"
  show ?case
  proof (cases "slot S ?e")
    case (Some w)
    then show ?thesis
      using 1 search_found [OF ok 1(4) Some]
      by (subst fluz.simps) (auto simp: slot_read_def Let_def)
  next
    case None
    show ?thesis
    proof (cases "Base ?e = Base h")
      case True
      from search_end [OF ok 1(4) None True] 1(5) show ?thesis
        by (subst fluz.simps) (auto simp: slot_read_def Let_def None True split: option.splits)
    next
      case False
      from search_back [OF ok 1(4) None False] 1 False None show ?thesis
        by (subst fluz.simps) (auto simp: slot_read_def Let_def)
    qed
  qed
qed

section \<open>LongEarthAlgorithm\<close>

text \<open>Each step reads the next epoch (R), and may run the two following steps
  before R is known: look ahead (A), the step after a successful read, and look
  back (B), the step after a failed one.  The conditions under which a branch
  can be followed at all are those of the closures lookAhead and lookBack.\<close>

definition can_ahead :: "Epoch \<Rightarrow> Epoch \<Rightarrow> bool" where
  "can_ahead epoch prev = (\<not> (Level epoch = LowestLevel \<or> Equals epoch prev))"

definition can_back :: "Epoch \<Rightarrow> Epoch \<Rightarrow> bool" where
  "can_back epoch prev = (Base epoch \<noteq> Base prev \<and> Base epoch \<noteq> 0)"

text \<open>The value a step returns: A's if it has one, else R's, else B's.\<close>

definition pick :: "'v option \<Rightarrow> 'v option \<Rightarrow> 'v option \<Rightarrow> 'v option" where
  "pick valueA valueR valueB =
     (case valueA of Some a \<Rightarrow> Some a
      | None \<Rightarrow> (case valueR of Some r \<Rightarrow> Some r | None \<Rightarrow> valueB))"

text \<open>le rd c t prev v: the step at time t with last epoch prev can return v,
  rd being the value the read function finds for an epoch, if any.  When c is true the context of the step may
  be cancelled at any moment, so that any read or branch may give nothing.
  When c is false no one cancels the step.  Then a successful R leaves A to run
  undisturbed (A is cancelled only by a failed R), a failed R leaves B to run
  undisturbed, and the other branch is speculative: a timer started it and R
  cancels it, so it may return early or not at all.\<close>

inductive le :: "(Epoch \<Rightarrow> 'v option) \<Rightarrow> bool \<Rightarrow> u64 \<Rightarrow> Epoch \<Rightarrow> 'v option \<Rightarrow> bool"
  for rd :: "Epoch \<Rightarrow> 'v option" where
  le_cancelled:
    "\<lbrakk>epoch = GetNextEpoch prev t;
      r = None \<or> r = rd epoch;
      a = None \<or> (can_ahead epoch prev \<and> le rd True t epoch a);
      b = None \<or> (can_back epoch prev \<and> le rd True (Base epoch - 1) prev b)\<rbrakk>
     \<Longrightarrow> le rd True t prev (pick a r b)"
| le_found_end:
    "\<lbrakk>epoch = GetNextEpoch prev t; rd epoch = Some r; \<not> can_ahead epoch prev\<rbrakk>
     \<Longrightarrow> le rd False t prev (Some r)"
| le_found:
    "\<lbrakk>epoch = GetNextEpoch prev t; rd epoch = Some r; can_ahead epoch prev;
      le rd False t epoch a\<rbrakk>
     \<Longrightarrow> le rd False t prev (pick a (Some r) None)"
| le_speculative:
    "\<lbrakk>epoch = GetNextEpoch prev t; rd epoch = None; can_ahead epoch prev;
      le rd True t epoch (Some a)\<rbrakk>
     \<Longrightarrow> le rd False t prev (Some a)"
| le_back:
    "\<lbrakk>epoch = GetNextEpoch prev t; rd epoch = None; can_back epoch prev;
      le rd False (Base epoch - 1) prev b\<rbrakk>
     \<Longrightarrow> le rd False t prev b"
| le_back_end:
    "\<lbrakk>epoch = GetNextEpoch prev t; rd epoch = None; \<not> can_back epoch prev\<rbrakk>
     \<Longrightarrow> le rd False t prev None"

text \<open>The step with infinite head starts, the algorithm's behaviour when every
  read answers before the timers: a total function.\<close>

function le_seq :: "(Epoch \<Rightarrow> 'v option) \<Rightarrow> u64 \<Rightarrow> Epoch \<Rightarrow> 'v option" where
  "le_seq rd t prev =
     (let epoch = GetNextEpoch prev t in
      case rd epoch of
        Some r \<Rightarrow> if can_ahead epoch prev then pick (le_seq rd t epoch) (Some r) None else Some r
      | None \<Rightarrow> if can_back epoch prev then le_seq rd (Base epoch - 1) prev else None)"
  by pat_completeness auto
termination
proof (relation "measures [\<lambda>(rd, t, prev). unat t, \<lambda>(rd, t, prev). depth prev t]")
qed (auto simp: depth_found base_pred_less can_ahead_def can_back_def)

declare le_seq.simps [simp del]

text \<open>The algorithm around the root step: a hint that led nowhere is read
  itself, and if that fails too the search starts again without a hint, before
  the hint.\<close>

inductive long_earth :: "(Epoch \<Rightarrow> 'v option) \<Rightarrow> u64 \<Rightarrow> Epoch \<Rightarrow> 'v option \<Rightarrow> bool"
  for rd :: "Epoch \<Rightarrow> 'v option" where
  lea_value:
    "\<lbrakk>h = (if hint = NoClue then worstHint else hint); le rd False now h v;
      v \<noteq> None \<or> h = worstHint\<rbrakk>
     \<Longrightarrow> long_earth rd now hint v"
| lea_hint:
    "\<lbrakk>hint \<noteq> NoClue; hint \<noteq> worstHint; le rd False now hint None; rd hint = Some r\<rbrakk>
     \<Longrightarrow> long_earth rd now hint (Some r)"
| lea_restart:
    "\<lbrakk>hint \<noteq> NoClue; hint \<noteq> worstHint; le rd False now hint None; rd hint = None;
      long_earth rd (if Level hint = HighestLevel then Base hint - 1 else Base hint) NoClue v\<rbrakk>
     \<Longrightarrow> long_earth rd now hint v"

lemma pick_simps [simp]:
  "pick (Some a) r b = Some a" "pick None (Some v) b = Some v" "pick None None b = b"
  by (simp_all add: pick_def)

lemma pick_SomeR: "pick a (Some r) None \<noteq> None"
  by (cases a) simp_all

lemma pick_None: "pick a r b = None \<longleftrightarrow> a = None \<and> r = None \<and> b = None"
  by (cases a; cases r) simp_all

lemma le_seq_le: "le rd False t prev (le_seq rd t prev)"
proof (induction rd t prev rule: le_seq.induct)
  case (1 rd t prev)
  let ?e = "GetNextEpoch prev t"
  show ?case
  proof (cases "rd ?e")
    case None
    show ?thesis
    proof (cases "can_back ?e prev")
      case True
      then show ?thesis using le_back [of ?e prev t rd, OF refl None True 1(1) [OF refl None True]]
        by (subst le_seq.simps) (simp add: Let_def None)
    next
      case False
      then show ?thesis using le_back_end [of ?e prev t rd, OF refl None False]
        by (subst le_seq.simps) (simp add: Let_def None)
    qed
  next
    case (Some r)
    show ?thesis
    proof (cases "can_ahead ?e prev")
      case True
      then show ?thesis using le_found [of ?e prev t rd, OF refl Some True 1(2) [OF refl Some True]]
        by (subst le_seq.simps) (simp add: Let_def Some)
    next
      case False
      then show ?thesis using le_found_end [of ?e prev t rd, OF refl Some False]
        by (subst le_seq.simps) (simp add: Let_def Some)
    qed
  qed
qed

text \<open>Under the placement rule a speculative branch below an empty cell finds
  nothing, whenever it is cancelled.\<close>

lemma le_empty_below:
  assumes ok: "latest S e v"
  shows "le (slot S) c t h w \<Longrightarrow> c \<Longrightarrow> h \<noteq> NoClue \<Longrightarrow> unat (Level h) \<le> 31 \<Longrightarrow> in_cell h t
    \<Longrightarrow> slot S h = None \<Longrightarrow> w = None"
proof (induction rule: le.induct)
  case (le_cancelled epoch prev t r a b)
  have l: "unat (Level epoch) \<le> unat (Level prev)"
    using le_cancelled Level_next_in_cell [of prev t] by simp
  have none: "slot S epoch = None"
  proof (rule ccontr)
    assume "slot S epoch \<noteq> None"
    then have "occ S (Level epoch) t" using occ_next [of S prev t] le_cancelled(1) by blast
    with latestD(3) [OF ok this l] le_cancelled have "occ S (Level prev) t" by simp
    with le_cancelled(8) have "occ S (Level prev) (Time prev)"
      using occ_same_cell [of "Level prev" "Time prev" t S] by (simp add: in_cell_def)
    with le_cancelled(9) show False by (simp add: occ_slot)
  qed
  have "a = None"
    using le_cancelled none Level_GetNextEpoch_le [of prev t]
    by (auto simp: can_ahead_def NoClue_def LowestLevel_def)
  moreover have "b = None"
    using le_cancelled back_inside [of prev t] by (auto simp: can_back_def)
  ultimately show ?case using le_cancelled(2) none by (simp add: pick_None)
qed simp_all

lemma le_latest:
  assumes ok: "latest S e v"
  shows "le (slot S) c t h w \<Longrightarrow> \<not> c \<Longrightarrow> search_ok S e t h \<Longrightarrow> w = Some v \<or> (w = None \<and> at_last e h)"
proof (induction rule: le.induct)
  case (le_found_end epoch prev t r)
  then show ?case
    using search_found(1) [OF ok le_found_end(5)] by (simp add: can_ahead_def)
next
  case (le_found epoch prev t r a)
  have "search_ok S e t epoch"
    using search_found(2) [OF ok le_found(7)] le_found(1,2,3) by (simp add: can_ahead_def)
  with le_found have "a = Some v \<or> (a = None \<and> at_last e epoch)" by simp
  with at_last_slot [OF ok] le_found(2) show ?case by auto
next
  case (le_speculative epoch prev t a)
  have "epoch \<noteq> NoClue" using le_speculative(3) by (auto simp: can_ahead_def NoClue_def LowestLevel_def)
  with le_empty_below [OF ok le_speculative(4)] le_speculative(1,2) Level_GetNextEpoch_le [of prev t]
  have "Some a = None" by simp
  then show ?case by simp
next
  case (le_back epoch prev t b)
  then show ?case
    using search_back(2) [OF ok le_back(7)] by (simp add: can_back_def)
next
  case (le_back_end epoch prev t)
  then have b: "Base (GetNextEpoch prev t) = Base prev"
    using search_back(1) [OF ok le_back_end(5)] by (auto simp: can_back_def)
  from search_end(3) [OF ok le_back_end(5) _ b] le_back_end(1,2) show ?case by simp
qed simp_all

lemma search_ok_start:
  "\<lbrakk>hint = NoClue \<or> hint_ok S hint; Time e \<le> now\<rbrakk>
    \<Longrightarrow> search_ok S e now (if hint = NoClue then worstHint else hint)"
  by (auto simp: search_ok_def hint_ok_def)

lemma FluzCapacitor_latest:
  assumes "latest S e v" "hint = NoClue \<or> hint_ok S hint" "Time e \<le> now"
  shows "FluzCapacitorAlgorithm (slot_read S) now hint = Inr (Some v)"
  unfolding FluzCapacitorAlgorithm_def
  using fluz_latest [OF assms(1) search_ok_start [OF assms(2,3)]] by simp

lemma le_exists: "\<exists>w. le rd False t h w"
  using le_seq_le by blast

lemma LongEarth_latest:
  assumes ok: "latest S e v" and hint: "hint = NoClue \<or> hint_ok S hint" and te: "Time e \<le> now"
  shows "long_earth (slot S) now hint w \<longleftrightarrow> w = Some v"
proof -
  define h where "h = (if hint = NoClue then worstHint else hint)"
  have s: "search_ok S e now h" using search_ok_start [OF hint te] by (simp add: h_def)
  have root: "le (slot S) False now h u \<Longrightarrow> u = Some v \<or> (u = None \<and> at_last e h)" for u
    using le_latest [OF ok _ _ s] by blast
  have nw: "\<not> at_last e worstHint" using worst_not_last [OF ok] .
  show ?thesis
  proof
    assume "long_earth (slot S) now hint w"
    then show "w = Some v"
    proof cases
      case (lea_value h')
      then show ?thesis using root nw by (auto simp: h_def)
    next
      case (lea_hint r)
      then show ?thesis using root at_last_slot [OF ok, of h] by (auto simp: h_def)
    next
      case lea_restart
      then show ?thesis using root at_last_slot [OF ok, of h] by (auto simp: h_def)
    qed
  next
    assume w: "w = Some v"
    obtain u where u: "le (slot S) False now h u" using le_exists by blast
    show "long_earth (slot S) now hint w"
    proof (cases u)
      case (Some x)
      with root [OF u] u w show ?thesis by (intro lea_value [OF h_def]) auto
    next
      case None
      with root [OF u] have a: "at_last e h" by simp
      with nw have "hint \<noteq> NoClue" "hint \<noteq> worstHint" "h = hint" by (auto simp: h_def split: if_splits)
      with u None at_last_slot [OF ok a] show ?thesis unfolding w by (intro lea_hint) auto
    qed
  qed
qed

section \<open>LongEarthAlgorithm as a function of what it reads\<close>

text \<open>The run with infinite head starts, for a read function that can fail: the
  first error ends the search, as errc does.\<close>

function le_seqE :: "(Epoch \<Rightarrow> 'v option result) \<Rightarrow> u64 \<Rightarrow> Epoch \<Rightarrow> 'v option result" where
  "le_seqE rd t prev =
     (let epoch = GetNextEpoch prev t in
      case rd epoch of
        Inl err \<Rightarrow> Inl err
      | Inr (Some r) \<Rightarrow>
          if can_ahead epoch prev then
            (case le_seqE rd t epoch of Inl err \<Rightarrow> Inl err | Inr a \<Rightarrow> Inr (pick a (Some r) None))
          else Inr (Some r)
      | Inr None \<Rightarrow> if can_back epoch prev then le_seqE rd (Base epoch - 1) prev else Inr None)"
  by pat_completeness auto
termination
proof (relation "measures [\<lambda>(rd, t, prev). unat t, \<lambda>(rd, t, prev). depth prev t]")
qed (auto simp: depth_found base_pred_less can_ahead_def can_back_def)

declare le_seqE.simps [simp del]

definition LongEarthAlgorithm ::
  "(Epoch \<Rightarrow> 'v option result) \<Rightarrow> u64 \<Rightarrow> Epoch \<Rightarrow> 'v option result" where
  "LongEarthAlgorithm rd now hint =
     (let h = (if hint = NoClue then worstHint else hint) in
      case le_seqE rd now h of
        Inl err \<Rightarrow> Inl err
      | Inr value \<Rightarrow>
          if value \<noteq> None \<or> h = worstHint then Inr value
          else (case rd hint of
                  Inl err \<Rightarrow> Inl err
                | Inr (Some r) \<Rightarrow> Inr (Some r)
                | Inr None \<Rightarrow>
                    le_seqE rd (if Level hint = HighestLevel then Base hint - 1 else Base hint) worstHint))"

lemma base_pred_le: "Base (GetNextEpoch h t) \<noteq> 0 \<Longrightarrow> Base (GetNextEpoch h t) - 1 \<le> t"
  using base_pred_less [of h t] by (simp add: word_le_nat_alt)

lemma le_seqE_ok:
  "(\<And>e. Time e \<le> t \<Longrightarrow> rdE e = Inr (rd e)) \<Longrightarrow> le_seqE rdE t prev = Inr (le_seq rd t prev)"
proof (induction rd t prev rule: le_seq.induct)
  case (1 rd t prev)
  let ?e = "GetNextEpoch prev t"
  have r: "rdE ?e = Inr (rd ?e)" using 1(3) by simp
  show ?case
  proof (cases "rd ?e")
    case None
    show ?thesis
    proof (cases "can_back ?e prev")
      case True
      then have "Base ?e - 1 \<le> t" using base_pred_le by (simp add: can_back_def)
      then have "le_seqE rdE (Base ?e - 1) prev = Inr (le_seq rd (Base ?e - 1) prev)"
        using 1(1) [OF refl None True] 1(3) order_trans by blast
      with None r True show ?thesis by (subst le_seqE.simps, subst le_seq.simps) (simp add: Let_def)
    next
      case False
      with None r show ?thesis by (subst le_seqE.simps, subst le_seq.simps) (simp add: Let_def)
    qed
  next
    case (Some v)
    with 1(2) [OF refl Some] 1(3) r show ?thesis
      by (subst le_seqE.simps, subst le_seq.simps) (simp add: Let_def)
  qed
qed

lemma pick_map: "map_option f (pick a r b) = pick (map_option f a) (map_option f r) (map_option f b)"
  by (cases a; cases r) simp_all

lemma le_seq_map: "le_seq (\<lambda>e. map_option f (rd e)) t prev = map_option f (le_seq rd t prev)"
proof (induction rd t prev rule: le_seq.induct)
  case (1 rd t prev)
  let ?e = "GetNextEpoch prev t"
  show ?case
  proof (cases "rd ?e")
    case None
    then show ?thesis using 1(1) [OF refl None]
      by (subst (1 2) le_seq.simps) (simp add: Let_def)
  next
    case (Some v)
    then show ?thesis using 1(2) [OF refl Some]
      by (subst (1 2) le_seq.simps) (simp add: Let_def pick_map)
  qed
qed

lemma le_seq_read: "le_seq rd t prev = Some v \<Longrightarrow> \<exists>e. rd e = Some v \<and> Time e \<le> t"
proof (induction rd t prev rule: le_seq.induct)
  case (1 rd t prev)
  let ?e = "GetNextEpoch prev t"
  show ?case
  proof (cases "rd ?e")
    case None
    with 1(3) have b: "can_back ?e prev" and v: "le_seq rd (Base ?e - 1) prev = Some v"
      by (subst (asm) le_seq.simps, auto simp: Let_def split: if_splits)+
    have "Base ?e - 1 \<le> t" using base_pred_le b by (simp add: can_back_def)
    with 1(1) [OF refl None b v] show ?thesis using order_trans by blast
  next
    case (Some w)
    show ?thesis
    proof (cases "can_ahead ?e prev \<and> le_seq rd t ?e \<noteq> None")
      case True
      with 1(3) Some have "le_seq rd t ?e = Some v"
        by (subst (asm) le_seq.simps) (auto simp: Let_def)
      with 1(2) [OF refl Some] True show ?thesis by blast
    next
      case False
      with 1(3) Some have "w = v"
        by (subst (asm) le_seq.simps) (auto simp: Let_def split: if_splits)
      with Some show ?thesis by (intro exI [of _ ?e]) simp
    qed
  qed
qed

lemma le_seq_None: "le_seq (\<lambda>e. None) t prev = None"
  by (rule ccontr) (auto dest: le_seq_read)

text \<open>The result the handler gets: the value of the last update together with
  the epoch at which it was read, which names the same cell as the update's.\<close>

lemma LongEarth_tagged:
  assumes ok: "latest S e v" and te: "Time e \<le> now"
    and hint: "hint = NoClue \<or> (hint_ok S hint \<and> Time hint \<le> now)"
    and rd: "\<And>f. Time f \<le> now \<Longrightarrow> rdE f = Inr (map_option (\<lambda>d. (f, d)) (slot S f))"
  shows "\<exists>f. LongEarthAlgorithm rdE now hint = Inr (Some (f, v)) \<and> Base f = Base e \<and> Level f = Level e
     \<and> Time f \<le> now"
proof -
  define rd where "rd = (\<lambda>f. map_option (\<lambda>d. (f, d)) (slot S f))"
  define g where "g = (\<lambda>(f, d :: 'a). ((Base f, Level f), d))"
  define S' where "S' = (\<lambda>k. map_option (\<lambda>d. (k, d)) (S k))"
  have S': "slot S' f = map_option g (rd f)" for f
    by (simp add: slot_def S'_def rd_def g_def option.map_comp comp_def)
  have occ: "occ S' l t = occ S l t" for l t
    by (simp add: occ_def slot_def S'_def)
  have hok: "hint_ok S' f = hint_ok S f" for f
    by (simp add: hint_ok_def slot_def S'_def)
  have "slot S' e = Some ((Base e, Level e), v)" using latestD(2) [OF ok] by (simp add: slot_def S'_def)
  then have ok': "latest S' e ((Base e, Level e), v)"
    using ok unfolding latest_def occ by blast
  define h where "h = (if hint = NoClue then worstHint else hint)"
  have h: "hint = NoClue \<or> hint_ok S' hint" using hint hok by blast
  have s: "search_ok S' e now h" using search_ok_start [OF h te] by (simp add: h_def)
  have E: "le_seqE rdE now p = Inr (le_seq rd now p)" for p
    by (rule le_seqE_ok) (simp add: rd rd_def)
  have gseq: "map_option g (le_seq rd now h) = le_seq (slot S') now h"
  proof -
    have "slot S' = (\<lambda>f. map_option g (rd f))" using S' by blast
    then show ?thesis by (simp add: le_seq_map)
  qed
  have out: "map_option g (le_seq rd now h) = Some ((Base e, Level e), v)
      \<or> (map_option g (le_seq rd now h) = None \<and> at_last e h)"
    using le_latest [OF ok' le_seq_le _ s] gseq by auto
  have tag: "r = Some (f, v) \<Longrightarrow> map_option g r = Some ((Base e, Level e), v) \<longleftrightarrow> Base f = Base e \<and> Level f = Level e" for r f
    by (auto simp: g_def)
  show ?thesis
  proof (cases "le_seq rd now h")
    case (Some x)
    obtain f d where x: "x = (f, d)" by (cases x)
    from le_seq_read [OF Some] obtain f' where "rd f' = Some (f, d)" "Time f' \<le> now" using x by blast
    then have "Time f \<le> now" by (auto simp: rd_def)
    moreover have "Base f = Base e" "Level f = Level e" "d = v"
      using out Some x by (auto simp: g_def)
    moreover have "LongEarthAlgorithm rdE now hint = Inr (Some (f, d))"
      using Some x by (simp add: LongEarthAlgorithm_def h_def [symmetric] Let_def E)
    ultimately show ?thesis by blast
  next
    case None
    with out have a: "at_last e h" by simp
    with worst_not_last [OF ok] have nn: "hint \<noteq> NoClue" "h = hint" "h \<noteq> worstHint"
      by (auto simp: h_def split: if_splits)
    with hint have th: "Time hint \<le> now" by blast
    have "slot S hint = Some v" using at_last_slot [OF ok] a nn by simp
    then have "rdE hint = Inr (Some (hint, v))" using rd [OF th] by simp
    then have "LongEarthAlgorithm rdE now hint = Inr (Some (hint, v))"
      using None nn by (simp add: LongEarthAlgorithm_def h_def [symmetric] Let_def E)
    moreover have "Base hint = Base e" "Level hint = Level e"
      using a nn by (auto simp: at_last_def in_cell_def Base_def base_eq_iff)
    ultimately show ?thesis using th by blast
  qed
qed

lemma LongEarth_empty:
  assumes "\<And>f. Time f \<le> now \<Longrightarrow> rdE f = Inr None"
  shows "LongEarthAlgorithm rdE now NoClue = Inr None"
proof -
  have "le_seqE rdE now worstHint = Inr (le_seq (\<lambda>f. None) now worstHint)"
    by (rule le_seqE_ok) (rule assms)
  then show ?thesis by (simp add: LongEarthAlgorithm_def Let_def le_seq_None)
qed

text \<open>The same for a read function whose values carry more than the epoch, such as
  the request of the handler.\<close>

lemma LongEarth_read_tagged:
  assumes ok: "latest S e v" and te: "Time e \<le> now"
    and hint: "hint = NoClue \<or> (hint_ok S hint \<and> Time hint \<le> now)"
    and rd: "\<And>f. Time f \<le> now \<Longrightarrow> rdE f = Inr (map_option (mk f) (slot S f))"
  shows "\<exists>f. LongEarthAlgorithm rdE now hint = Inr (Some (mk f v)) \<and> Base f = Base e \<and> Level f = Level e
     \<and> Time f \<le> now"
proof -
  let ?m = "\<lambda>(f, d). mk f d" and ?rd = "\<lambda>f. map_option (Pair f) (slot S f)"
  have m: "map_option (mk f) x = map_option ?m (map_option (Pair f) x)" for f x
    by (simp add: option.map_comp comp_def)
  have E: "le_seqE rdE now p = Inr (map_option ?m (le_seq ?rd now p))" for p
    unfolding le_seq_map [symmetric] by (rule le_seqE_ok) (simp add: rd m)
  have E': "le_seqE (\<lambda>f. Inr (?rd f)) now p = Inr (le_seq ?rd now p)" for p
    by (rule le_seqE_ok) simp
  define h where "h = (if hint = NoClue then worstHint else hint)"
  have nw: "hint \<noteq> NoClue \<and> Time hint \<le> now \<and> (\<exists>r. slot S hint = Some r)" if "h \<noteq> worstHint" using hint that by (auto simp: h_def hint_ok_def)
  have "LongEarthAlgorithm rdE now hint = map_sum id (map_option ?m) (LongEarthAlgorithm (\<lambda>f. Inr (?rd f)) now hint)"
    using nw hint rd [of hint]
    by (cases "le_seq ?rd now h") (auto simp: LongEarthAlgorithm_def h_def [symmetric] Let_def E E')
  with LongEarth_tagged [OF ok te hint, of "\<lambda>f. Inr (?rd f)"] show ?thesis by fastforce
qed

text \<open>An epoch that names the cell of the last update is as good as its own, and
  the next cell is free unless the update would go to the second it is in.\<close>

lemma latest_cell:
  assumes ok: "latest S e v" and f: "Level f = Level e" "Base f = Base e"
  shows "latest S f v"
proof -
  have c: "in_cell e (Time f)" using f by (simp add: in_cell_def Base_def base_eq_iff)
  have s: "slot S f = slot S e" using slot_cong [OF f(1) c] .
  have "cell (unat l) t \<le> cell (unat l) (Time f)" if o: "occ S l t" for l t
  proof (cases "unat (Level e) \<le> unat l")
    case True
    have "cell (unat l) (Time e) = cell (unat l) (Time f)"
      by (rule cell_coarser [OF c [unfolded in_cell_def] True])
    with latestD(5) [OF ok o] show ?thesis by simp
  next
    case False
    with latestD(6) [OF ok, of l t] o have "\<not> in_cell e t" by auto
    moreover have "occ S (Level e) t"
      by (rule latestD(3) [OF ok o]) (use False latestD(1) [OF ok] in simp_all)
    ultimately have "cell (unat (Level e)) t < cell (unat (Level e)) (Time f)"
      using latestD(5) [OF ok, of "Level e" t] c by (simp add: in_cell_def)
    then have "\<not> Time f \<le> t" using cell_mono [of "Time f" t "unat (Level e)"] by auto
    then show ?thesis by (intro cell_mono) simp
  qed
  moreover have "\<not> occ S l t" if "unat l < unat (Level f)" "in_cell f t" for l t
    using latestD(6) [OF ok, of l t] that f(1) c by (simp add: in_cell_def)
  moreover have "occ S l' t" if "occ S l t" "unat l \<le> unat l'" "unat l' \<le> 31" for t l l'
    by (rule latestD(3) [OF ok that])
  moreover have "unat l \<le> 31" if "occ S l t" for t l by (rule latestD(4) [OF ok that])
  moreover have "unat (Level f) \<le> 31" "slot S f = Some v" using latestD(1,2) [OF ok] f s by simp_all
  ultimately show ?thesis unfolding latest_def by blast
qed

lemma next_free:
  assumes ok: "latest S p u" and p: "p \<noteq> NoClue" "Time p \<le> now" and ne: "\<not> (Level p = 0 \<and> Time p = now)"
  shows "slot S (GetNextEpoch p now) = None"
  using ok p
proof (cases rule: next_cases)
  case inside
  have "Level p \<noteq> 0"
  proof
    assume "Level p = 0"
    with inside(1) ne show False by (simp add: in_cell_def cell_def word_unat_eq_iff)
  qed
  then have "0 < unat (Level p)" by (simp add: unat_gt_0)
  with inside latestD(6) [OF ok] occ_next show ?thesis by (metis diff_less zero_less_one)
next
  case after
  with latestD(5) [OF ok, of "Level (GetNextEpoch p now)" now] occ_next [of S p now] show ?thesis by fastforce
qed

section \<open>Properties\<close>

text \<open>C1: a reader without a hint finds the last update of a feed whose publisher
  placed every update by GetFirstEpoch and GetNextEpoch, at any time from that
  update on, whatever the times of the updates: LongEarthAlgorithm under every
  schedule of its goroutines, and FluzCapacitorAlgorithm.\<close>

theorem lookup_finds_last_update:
  assumes "us \<noteq> []" "sorted (map fst us)" "\<forall>u \<in> set us. 0 < fst u" "fst (last us) \<le> now"
  shows "(long_earth (slot (fst (publish_all us))) now NoClue w \<longleftrightarrow> w = Some (snd (last us)))
    \<and> FluzCapacitorAlgorithm (slot_read (fst (publish_all us))) now NoClue = Inr (Some (snd (last us)))"
proof -
  from publish_all_latest [OF assms(1-3)] obtain S e
    where "publish_all us = (S, Some e)" "latest S e (snd (last us))" "Time e = fst (last us)"
    by blast
  with assms(4) LongEarth_latest FluzCapacitor_latest show ?thesis by fastforce
qed

lemma lookup_finds_last_update_witness:
  "FluzCapacitorAlgorithm (slot_read (fst (publish_all [(100, ''a''), (105, ''b''), (5000, ''c'')]))) 6000 NoClue
     = Inr (Some ''c'')"
  using lookup_finds_last_update
    [of "[(100, ''a''), (105, ''b''), (5000, ''c'')]" 6000 "Some ''c''"]
  by (simp del: fluz.simps)

text \<open>C5: a hint that is the epoch of an update does not change what a search returns.
  Started from any epoch (of a level up to 31) that holds an update, as the handler's cache
  does, both algorithms return the latest update, as without a hint.  Nothing is said of a
  hint under which no update is stored.\<close>

theorem lookup_hint_independent:
  assumes "latest S e v" "unat (Level h) \<le> 31" "slot S h \<noteq> None" "h \<noteq> NoClue" "Time e \<le> now"
  shows "(long_earth (slot S) now h w \<longleftrightarrow> w = Some v)
    \<and> FluzCapacitorAlgorithm (slot_read S) now h = FluzCapacitorAlgorithm (slot_read S) now NoClue"
proof -
  have "hint_ok S h" using assms(2-4) by (simp add: hint_ok_def)
  with assms(1,5) LongEarth_latest FluzCapacitor_latest show ?thesis by fastforce
qed

lemma lookup_hint_independent_witness:
  "long_earth (slot (Map.empty((Base \<lparr>Time = 7, Level = 31\<rparr>, 31) \<mapsto> ''x''))) 9 \<lparr>Time = 7, Level = 31\<rparr> (Some ''x'')"
proof -
  have l: "latest (Map.empty((Base \<lparr>Time = 7, Level = 31\<rparr>, 31) \<mapsto> ''x'')) \<lparr>Time = 7, Level = 31\<rparr> ''x''"
    using latest_first [OF refl, of 7 "''x''"] by (simp add: GetFirstEpoch_def HighestLevel_def)
  show ?thesis
    using lookup_hint_independent [OF l, of "\<lparr>Time = 7, Level = 31\<rparr>" 9 "Some ''x''"]
    by (simp add: slot_def NoClue_def)
qed

text \<open>C6: the placement rule is an invariant of publishing.  One more update, at
  a time not before the last one, leaves a feed in which it is the latest: its
  cell and all their ancestors are occupied, and no cell after or below it is.\<close>

theorem publish_keeps_latest:
  assumes "latest S p u" "p \<noteq> NoClue" "Time p \<le> now"
  shows "\<exists>S' e. publish (S, Some p) (now, v) = (S', Some e) \<and> latest S' e v \<and> Time e = now"
  using latest_next [OF assms, of v] by (simp add: publish_def next_epoch_def Let_def)

lemma publish_keeps_latest_witness:
  "\<exists>S' e. publish (Map.empty((Base \<lparr>Time = 7, Level = 31\<rparr>, 31) \<mapsto> ''x''), Some \<lparr>Time = 7, Level = 31\<rparr>) (9, ''y'')
      = (S', Some e) \<and> latest S' e ''y'' \<and> Time e = 9"
proof -
  have l: "latest (Map.empty((Base \<lparr>Time = 7, Level = 31\<rparr>, 31) \<mapsto> ''x'')) \<lparr>Time = 7, Level = 31\<rparr> ''x''"
    using latest_first [OF refl, of 7 "''x''"] by (simp add: GetFirstEpoch_def HighestLevel_def)
  show ?thesis by (rule publish_keeps_latest [OF l]) (simp_all add: NoClue_def)
qed

definition result_read :: "'v readfunc \<Rightarrow> u64 \<Rightarrow> 'v option \<Rightarrow> 'v option result \<Rightarrow> bool" where
  "result_read read now lf r =
     (case r of Inl err \<Rightarrow> \<exists>e. read e now = Inl err
      | Inr None \<Rightarrow> True
      | Inr (Some v) \<Rightarrow> lf = Some v \<or> (\<exists>e. read e now = Inr (Some v)))"

lemma result_read_simps [simp]:
  "result_read read now lf (Inr None)"
  "result_read read now (Some v) (Inr (Some v))"
  "read e now = Inr (Some v) \<Longrightarrow> result_read read now lf (Inr (Some v))"
  "read e now = Inl err \<Longrightarrow> result_read read now lf (Inl err)"
  by (auto simp: result_read_def)

lemma result_read_found:
  "\<lbrakk>result_read read now (Some v) r; read e now = Inr (Some v)\<rbrakk> \<Longrightarrow> result_read read now lf r"
  by (auto simp: result_read_def split: sum.splits option.splits)

lemma result_read_None: "result_read read now None r \<Longrightarrow> result_read read now lf r"
  by (auto simp: result_read_def split: sum.splits option.splits)

lemma fluz_result: "result_read read now lf (fluz read now t h lf)"
proof (induction read now t h lf rule: fluz.induct)
  case (1 read now t h lf)
  let ?e = "GetNextEpoch h t"
  show ?case
  proof (cases "read ?e now")
    case (Inl err)
    then show ?thesis by (subst fluz.simps) (simp add: Let_def)
  next
    case r: (Inr x)
    show ?thesis
    proof (cases x)
      case None
      then show ?thesis using 1(1,2) [OF refl r None]
        by (subst fluz.simps) (auto simp: Let_def r split: sum.split option.split intro: result_read_None)
    next
      case (Some v)
      then show ?thesis using 1(3) [OF refl r Some] result_read_found r
        by (subst fluz.simps) (auto simp: Let_def)
    qed
  qed
qed

text \<open>C7: every run of FluzCapacitorAlgorithm ends, and what it returns was read:
  for any read function and any hint the result is an error the read function
  returned, no value, or a value the read function returned for some epoch.\<close>

theorem FluzCapacitor_returns_what_it_read:
  "case FluzCapacitorAlgorithm read now hint of
     Inl err \<Rightarrow> \<exists>e. read e now = Inl err
   | Inr None \<Rightarrow> True
   | Inr (Some v) \<Rightarrow> \<exists>e. read e now = Inr (Some v)"
  using fluz_result [of read now None now "if hint = NoClue then worstHint else hint"]
  by (auto simp: FluzCapacitorAlgorithm_def result_read_def split: sum.splits option.splits)

end
