(* ===== verification/FeedApi.thy ===== *)
theory FeedApi
  imports FeedLookup Storage
begin

text \<open>
  The feed API, pkg/feed/api.go and handler.go.  A feed is a sequence of single
  owner chunks (SOCs) whose addresses are computed from the topic, the owner and
  the epoch of the update.  The handler finds the latest one with the lookup
  algorithm, keeps what it found in a cache, and may hold updates back in a pool
  that writes them when it evicts them.

  The Bee client, the hash functions, the signer and the LRU are code outside
  the repository: they are the record bee.  'n is the state of the network and
  of the clock, 'k the type of the cache's keys (a prefix of a SHA-256 hash).
  A chunk is what the code lays out in its bytes: identifier, signature, span
  and payload; ShortChunk is one that is too short to have them.  Reading the
  clock is an operation on the state, because time passes between two readings
  in the code; LruVictims names the entries that the LRU evicts, given its keys
  from the newest to the oldest.
\<close>

section \<open>The Bee client and the handler\<close>

datatype chunk = SocChunk bytes bytes u64 content | ShortChunk

type_synonym poolkey = "bytes \<times> Address"

record ('n, 'k) bee =
  UploadSOC :: "bytes \<Rightarrow> bytes \<Rightarrow> bytes \<Rightarrow> u64 \<Rightarrow> content \<Rightarrow> 'n \<Rightarrow> bytes result \<times> 'n"
  DownloadChunk :: "bytes \<Rightarrow> 'n \<Rightarrow> chunk result"
  BeeUploadBlob :: "content \<Rightarrow> 'n \<Rightarrow> bytes result \<times> 'n"
  BeeDownloadBlob :: "bytes \<Rightarrow> 'n \<Rightarrow> (content \<times> nat) result"
  BeeDeleteReference :: "bytes \<Rightarrow> 'n \<Rightarrow> unit result \<times> 'n"
  Now :: "'n \<Rightarrow> u64 \<times> 'n"
  SleepSecond :: "'n \<Rightarrow> 'n"
  BmtHash :: "bytes \<Rightarrow> bytes"
  SocDigest :: "bytes \<Rightarrow> bytes \<Rightarrow> bytes"
  Sign :: "bytes \<Rightarrow> bytes \<Rightarrow> content \<Rightarrow> bytes"
  TopicHash :: "string \<Rightarrow> bytes"
  FeedKey :: "bytes \<Rightarrow> Address \<Rightarrow> 'k"
  JsonLen :: "doc \<Rightarrow> nat"
  LruVictims :: "poolkey list \<Rightarrow> poolkey list"

definition TopicLength :: nat where "TopicLength = 32"
definition maxUpdateRetry :: nat where "maxUpdateRetry = 3"

record CacheEntry =
  ceEpoch :: Epoch
  ceData :: content
  ceLastKey :: bytes

record feedItem =
  fiUser :: Address
  fiTopic :: bytes
  fiData :: content
  fiShouldCreate :: bool

record 'k Handler =
  hPrivateKey :: "bytes option"
  hCache :: "'k \<rightharpoonup> CacheEntry"
  hPool :: "(poolkey \<times> feedItem) list option"

abbreviation "ErrInvalidTopicSize \<equiv> Errorf ''topic is not equal to 32''"
abbreviation "ErrInvalidPayloadSize \<equiv> Errorf ''payload size is too large. maximum payload size is 4096 bytes''"
abbreviation "ErrReadOnlyFeed \<equiv> Errorf ''read only feed''"
abbreviation "errNotFound \<equiv> Sentinel ''feed does not exist or was not updated yet''"
abbreviation "errChunkExists \<equiv> Service ''chunk already exists''"

primrec clen :: "('n, 'k) bee \<Rightarrow> content \<Rightarrow> nat" where
  "clen bc (Raw b) = length b"
| "clen bc (Doc d) = JsonLen bc d"
| "clen bc (Sealed p c) = clen bc c + 16"
| "clen bc (Junk p c) = clen bc c - 16"

section \<open>utils.EncryptBytes and DecryptBytes\<close>

definition EncryptBytes :: "bytes \<Rightarrow> content \<Rightarrow> content" where
  "EncryptBytes passphrase message = Sealed passphrase message"

definition DecryptBytes :: "('n, 'k) bee \<Rightarrow> bytes \<Rightarrow> content \<Rightarrow> content result" where
  "DecryptBytes bc passphrase cipherText =
     (if clen bc cipherText < 16 then Inl (Errorf ''ciphertext block size is too short'')
      else case cipherText of
        Sealed p c \<Rightarrow> if p = passphrase then Inr c else Inr (Junk passphrase cipherText)
      | _ \<Rightarrow> Inr (Junk passphrase cipherText))"

section \<open>Addresses\<close>

definition epocId :: "u64 \<Rightarrow> u8 \<Rightarrow> bytes" where
  "epocId time level =
     (let base = time AND push_bit (unat level) maxuint64 in (PutUint64 base)[7 := level])"

definition getId :: "('n, 'k) bee \<Rightarrow> bytes \<Rightarrow> u64 \<Rightarrow> u8 \<Rightarrow> bytes" where
  "getId bc topic time level = BmtHash bc (topic @ epocId time level)"

definition getAddress :: "('n, 'k) bee \<Rightarrow> bytes \<Rightarrow> Address \<Rightarrow> Epoch \<Rightarrow> bytes" where
  "getAddress bc topic user epoch = SocDigest bc (getId bc topic (Time epoch) (Level epoch)) user"

section \<open>Reading\<close>

record request =
  rEpoch :: Epoch
  rData :: content
  rIdAddr :: bytes

definition fromChunk :: "bytes \<Rightarrow> chunk \<Rightarrow> Epoch \<Rightarrow> request result" where
  "fromChunk addr ch epoch =
     (case ch of
        ShortChunk \<Rightarrow> Inl (Errorf ''invalid chunk data len'')
      | SocChunk i sig span dat \<Rightarrow> Inr \<lparr>rEpoch = epoch, rData = dat, rIdAddr = addr\<rparr>)"

text \<open>The read function that Lookup gives to the algorithm.\<close>

definition lookup_read ::
  "('n, 'k) bee \<Rightarrow> bytes \<Rightarrow> Address \<Rightarrow> u64 \<Rightarrow> 'n \<Rightarrow> Epoch \<Rightarrow> request option result" where
  "lookup_read bc topic user timeLimit n epoch =
     (let addr = getAddress bc topic user epoch in
      case DownloadChunk bc addr n of
        Inl err \<Rightarrow> if error_string err = ''error downloading data'' \<or> err = Service ''context deadline exceeded''
                   then Inr None else Inl err
      | Inr ch \<Rightarrow>
          (case fromChunk addr ch epoch of
             Inl e \<Rightarrow> Inr None
           | Inr req \<Rightarrow> if Time (rEpoch req) \<le> timeLimit then Inr (Some req) else Inr None))"

definition updateCache :: "('n, 'k) bee \<Rightarrow> bytes \<Rightarrow> Address \<Rightarrow> request \<Rightarrow> 'k Handler \<Rightarrow> 'k Handler" where
  "updateCache bc topic user req h =
     h\<lparr>hCache := (hCache h)(FeedKey bc topic user \<mapsto>
        \<lparr>ceEpoch = rEpoch req, ceData = rData req, ceLastKey = rIdAddr req\<rparr>)\<rparr>"

definition Lookup ::
  "('n, 'k) bee \<Rightarrow> bytes \<Rightarrow> Address \<Rightarrow> u64 \<Rightarrow> Epoch \<Rightarrow> 'k Handler \<times> 'n \<Rightarrow> CacheEntry result \<times> 'k Handler \<times> 'n" where
  "Lookup bc topic user limit0 hint0 st =
     (case st of (h, n0) \<Rightarrow>
      case (if limit0 = 0 then Now bc n0 else (limit0, n0)) of (timeLimit, n) \<Rightarrow>
      let entry = hCache h (FeedKey bc topic user);
          hint = (if hint0 = NoClue
                  then (case entry of
                          Some e \<Rightarrow> if Time (ceEpoch e) \<le> timeLimit then ceEpoch e else hint0
                        | None \<Rightarrow> hint0)
                  else hint0)
      in case LongEarthAlgorithm (lookup_read bc topic user timeLimit n) timeLimit hint of
           Inl err \<Rightarrow> (Inl err, h, n)
         | Inr None \<Rightarrow> (Inl errNotFound, h, n)
         | Inr (Some req) \<Rightarrow>
             (Inr \<lparr>ceEpoch = rEpoch req, ceData = rData req, ceLastKey = rIdAddr req\<rparr>,
              updateCache bc topic user req h, n))"

definition LookupEpoch ::
  "('n, 'k) bee \<Rightarrow> bytes \<Rightarrow> Address \<Rightarrow> Epoch \<Rightarrow> 'k Handler \<times> 'n \<Rightarrow> CacheEntry result \<times> 'k Handler \<times> 'n" where
  "LookupEpoch bc topic user hint st =
     (case st of (h, n) \<Rightarrow>
      if hint = NoClue then (Inl (Sentinel ''hint is required for epoch lookup''), h, n) else
      let addr = getAddress bc topic user hint in
      case DownloadChunk bc addr n of
        Inl err \<Rightarrow> (Inl err, h, n)
      | Inr ch \<Rightarrow>
          (case fromChunk addr ch hint of
             Inl e \<Rightarrow> (Inl e, h, n)
           | Inr req \<Rightarrow>
               (Inr \<lparr>ceEpoch = rEpoch req, ceData = rData req, ceLastKey = rIdAddr req\<rparr>,
                updateCache bc topic user req h, n)))"

text \<open>GetContent reads the cache.\<close>

definition GetContent :: "('n, 'k) bee \<Rightarrow> bytes \<Rightarrow> Address \<Rightarrow> 'k Handler \<Rightarrow> (bytes \<times> content) result" where
  "GetContent bc topic user h =
     (case hCache h (FeedKey bc topic user) of
        None \<Rightarrow> Inl (Sentinel ''feed update not cached'')
      | Some e \<Rightarrow> Inr (ceLastKey e, ceData e))"

definition getSoc ::
  "('n, 'k) bee \<Rightarrow> bytes \<Rightarrow> Address \<Rightarrow> Epoch \<Rightarrow> 'k Handler \<times> 'n \<Rightarrow> (bytes \<times> content) result \<times> 'k Handler \<times> 'n" where
  "getSoc bc topic user hint st =
     (case (case hPool (fst st) of None \<Rightarrow> None | Some p \<Rightarrow> map_of p (topic, user)) of
        Some item \<Rightarrow> (Inr ([], fiData item), st)
      | None \<Rightarrow>
          (case (if hint = NoClue then Lookup bc topic user 0 hint st else LookupEpoch bc topic user hint st) of
             (Inl err, st1) \<Rightarrow> (Inl err, st1)
           | (Inr e, h1, n1) \<Rightarrow>
               (case GetContent bc topic user h1 of
                  Inl err \<Rightarrow> (Inl err, h1, n1)
                | Inr r \<Rightarrow> (Inr r, h1, n1))))"

section \<open>Writing\<close>

text \<open>The part that createSoc and updateSoc share: getId, NewChunkWithSpan with its
  bound, the signature, and update, which sends the chunk.\<close>

definition sendSoc ::
  "('n, 'k) bee \<Rightarrow> 'k Handler \<Rightarrow> bytes \<Rightarrow> Address \<Rightarrow> content \<Rightarrow> 'n \<Rightarrow> bytes result \<times> 'n" where
  "sendSoc bc h i user dat n =
     (if clen bc dat > MaxChunkLength then (Inl (Errorf ''max chunk size exceeded''), n) else
      case hPrivateKey h of
        None \<Rightarrow> (Inl (Panic ''nil private key''), n)
      | Some key \<Rightarrow> UploadSOC bc user i (Sign bc key i dat) (of_nat (clen bc dat)) dat n)"

definition createSoc ::
  "('n, 'k) bee \<Rightarrow> Address \<Rightarrow> bytes \<Rightarrow> content \<Rightarrow> 'k Handler \<times> 'n \<Rightarrow> (Epoch \<times> bytes) result \<times> 'k Handler \<times> 'n" where
  "createSoc bc user topic dat st =
     (case st of (h, n) \<Rightarrow>
      case Now bc n of (now, n1) \<Rightarrow>
      let epoch = \<lparr>Time = now, Level = HighestLevel\<rparr> in
      case sendSoc bc h (getId bc topic (Time epoch) (Level epoch)) user dat n1 of
        (Inl e, n2) \<Rightarrow> (Inl e, h, n2)
      | (Inr addr, n2) \<Rightarrow> (Inr (epoch, addr), h, n2))"

text \<open>newRequest: the epoch of the next update, from the last one that is found.\<close>

definition newRequest ::
  "('n, 'k) bee \<Rightarrow> bytes \<Rightarrow> Address \<Rightarrow> 'k Handler \<times> 'n \<Rightarrow> Epoch result \<times> 'k Handler \<times> 'n" where
  "newRequest bc topic user st =
     (case st of (h, n) \<Rightarrow>
      case Now bc n of (now, n1) \<Rightarrow>
      case Lookup bc topic user 0 NoClue (h, n1) of
        (Inl e, st1) \<Rightarrow> if e = errNotFound then (Inr (GetFirstEpoch now), st1) else (Inl e, st1)
      | (Inr feedUpdate, h1, n2) \<Rightarrow>
          (case (if Level (ceEpoch feedUpdate) = 0 \<and> Time (ceEpoch feedUpdate) = now
                 then Now bc (SleepSecond bc n2) else (now, n2)) of
             (now', n3) \<Rightarrow> (Inr (GetNextEpoch (ceEpoch feedUpdate) now'), h1, n3)))"

text \<open>updateSoc: the level is the one newRequest chose, the time is read again.
  The first argument is maxUpdateRetry - retries.\<close>

primrec updateSoc_retry ::
  "nat \<Rightarrow> ('n, 'k) bee \<Rightarrow> Address \<Rightarrow> bytes \<Rightarrow> content \<Rightarrow> 'k Handler \<times> 'n
    \<Rightarrow> (Epoch \<times> bytes) result \<times> 'k Handler \<times> 'n" where
  "updateSoc_retry 0 bc user topic dat st =
     (case newRequest bc topic user st of
        (Inl e, st1) \<Rightarrow> (Inl e, st1)
      | (Inr epoch0, h1, n1) \<Rightarrow>
          (case Now bc n1 of (now, n2) \<Rightarrow>
           let epoch = epoch0\<lparr>Time := now\<rparr> in
           case sendSoc bc h1 (getId bc topic (Time epoch) (Level epoch)) user dat n2 of
             (Inl e, n3) \<Rightarrow> (Inl e, h1, n3)
           | (Inr addr, n3) \<Rightarrow> (Inr (epoch, addr), h1, n3)))"
| "updateSoc_retry (Suc r) bc user topic dat st =
     (case newRequest bc topic user st of
        (Inl e, st1) \<Rightarrow> (Inl e, st1)
      | (Inr epoch0, h1, n1) \<Rightarrow>
          (case Now bc n1 of (now, n2) \<Rightarrow>
           let epoch = epoch0\<lparr>Time := now\<rparr> in
           case sendSoc bc h1 (getId bc topic (Time epoch) (Level epoch)) user dat n2 of
             (Inl e, n3) \<Rightarrow>
               if Contains (error_string e) ''chunk already exists''
               then updateSoc_retry r bc user topic dat (h1, SleepSecond bc n3)
               else (Inl e, h1, n3)
           | (Inr addr, n3) \<Rightarrow> (Inr (epoch, addr), h1, n3)))"

definition updateSoc ::
  "('n, 'k) bee \<Rightarrow> Address \<Rightarrow> bytes \<Rightarrow> content \<Rightarrow> 'k Handler \<times> 'n \<Rightarrow> (Epoch \<times> bytes) result \<times> 'k Handler \<times> 'n" where
  "updateSoc = updateSoc_retry maxUpdateRetry"

section \<open>The pool of pending updates\<close>

text \<open>onEvict writes the entry the LRU gives up: a create is followed by an update
  with the same data.\<close>

definition onEvict :: "('n, 'k) bee \<Rightarrow> feedItem \<Rightarrow> 'k Handler \<times> 'n \<Rightarrow> 'k Handler \<times> 'n" where
  "onEvict bc item st =
     (if fiShouldCreate item then
        (case createSoc bc (fiUser item) (fiTopic item) (fiData item) st of
           (Inl e, st1) \<Rightarrow> st1
         | (Inr r, st1) \<Rightarrow> snd (updateSoc bc (fiUser item) (fiTopic item) (fiData item) st1))
      else snd (updateSoc bc (fiUser item) (fiTopic item) (fiData item) st))"

definition pool_drop :: "poolkey \<Rightarrow> 'k Handler \<Rightarrow> 'k Handler" where
  "pool_drop key h = h\<lparr>hPool := map_option (filter (\<lambda>(k, i). k \<noteq> key)) (hPool h)\<rparr>"

primrec evict_all :: "('n, 'k) bee \<Rightarrow> poolkey list \<Rightarrow> 'k Handler \<times> 'n \<Rightarrow> 'k Handler \<times> 'n" where
  "evict_all bc [] st = st"
| "evict_all bc (key # keys) st =
     (case st of (h, n) \<Rightarrow>
      case (case hPool h of None \<Rightarrow> None | Some p \<Rightarrow> map_of p key) of
        None \<Rightarrow> evict_all bc keys st
      | Some item \<Rightarrow> evict_all bc keys (onEvict bc item (pool_drop key h, n)))"

definition putInPool :: "('n, 'k) bee \<Rightarrow> bytes \<Rightarrow> feedItem \<Rightarrow> 'k Handler \<times> 'n \<Rightarrow> 'k Handler \<times> 'n" where
  "putInPool bc topic item st =
     (case st of (h, n) \<Rightarrow>
      case hPool h of
        None \<Rightarrow> st
      | Some p \<Rightarrow>
          let key = (topic, fiUser item);
              item' = (case map_of p key of
                         Some it \<Rightarrow> if fiShouldCreate it then item\<lparr>fiShouldCreate := True\<rparr> else item
                       | None \<Rightarrow> item);
              p' = (key, item') # filter (\<lambda>(k, i). k \<noteq> key) p
          in evict_all bc (LruVictims bc (map fst p')) (h\<lparr>hPool := Some p'\<rparr>, n))"

definition commit :: "('n, 'k) bee \<Rightarrow> 'k Handler \<times> 'n \<Rightarrow> 'k Handler \<times> 'n" where
  "commit bc st =
     (case hPool (fst st) of None \<Rightarrow> st | Some p \<Rightarrow> evict_all bc (map fst p) st)"

section \<open>The API\<close>

definition API_IsReadOnlyFeed :: "'k Handler \<times> 'n \<Rightarrow> bool" where
  "API_IsReadOnlyFeed st = (hPrivateKey (fst st) = None)"

definition API_CreateFeed ::
  "('n, 'k) bee \<Rightarrow> Address \<Rightarrow> bytes \<Rightarrow> content \<Rightarrow> bytes \<Rightarrow> 'k Handler \<times> 'n \<Rightarrow> unit result \<times> 'k Handler \<times> 'n" where
  "API_CreateFeed bc user topic dat pw st =
     (if API_IsReadOnlyFeed st then (Inl ErrReadOnlyFeed, st)
      else if length topic \<noteq> TopicLength then (Inl ErrInvalidTopicSize, st)
      else if clen bc dat > MaxChunkLength then (Inl ErrInvalidPayloadSize, st)
      else
        let encryptedData = (if pw \<noteq> [] then EncryptBytes pw dat else dat) in
        if hPool (fst st) \<noteq> None then
          (Inr (), putInPool bc topic \<lparr>fiUser = user, fiTopic = topic, fiData = encryptedData,
             fiShouldCreate = True\<rparr> st)
        else (case createSoc bc user topic encryptedData st of
                (Inl e, st1) \<Rightarrow> (Inl e, st1) | (Inr r, st1) \<Rightarrow> (Inr (), st1)))"

definition API_UpdateFeed ::
  "('n, 'k) bee \<Rightarrow> Address \<Rightarrow> bytes \<Rightarrow> content \<Rightarrow> bytes \<Rightarrow> 'k Handler \<times> 'n \<Rightarrow> unit result \<times> 'k Handler \<times> 'n" where
  "API_UpdateFeed bc user topic dat pw st =
     (if API_IsReadOnlyFeed st then (Inl ErrReadOnlyFeed, st)
      else if length topic \<noteq> TopicLength then (Inl ErrInvalidTopicSize, st)
      else if clen bc dat > MaxChunkLength then (Inl ErrInvalidPayloadSize, st)
      else
        let encryptedData = (if pw \<noteq> [] \<and> dat \<noteq> deleted_mark then EncryptBytes pw dat else dat) in
        if hPool (fst st) \<noteq> None then
          (Inr (), putInPool bc topic \<lparr>fiUser = user, fiTopic = topic, fiData = encryptedData,
             fiShouldCreate = False\<rparr> st)
        else (case updateSoc bc user topic encryptedData st of
                (Inl e, st1) \<Rightarrow> (Inl e, st1) | (Inr r, st1) \<Rightarrow> (Inr (), st1)))"

definition API_GetFeedData ::
  "('n, 'k) bee \<Rightarrow> bytes \<Rightarrow> Address \<Rightarrow> bytes \<Rightarrow> 'k Handler \<times> 'n \<Rightarrow> (bytes \<times> content) result \<times> 'k Handler \<times> 'n" where
  "API_GetFeedData bc topic user pw st =
     (if length topic \<noteq> TopicLength then (Inl ErrInvalidTopicSize, st) else
      case getSoc bc topic user NoClue st of
        (Inl e, st1) \<Rightarrow> (Inl e, st1)
      | (Inr (addr, dat), st1) \<Rightarrow>
          if pw = [] \<or> dat = deleted_mark then (Inr (addr, dat), st1)
          else (case DecryptBytes bc pw dat of
                  Inl e \<Rightarrow> (Inl e, st1) | Inr d \<Rightarrow> (Inr (addr, d), st1)))"

text \<open>The operations that use the topic itself as the identifier of the chunk.\<close>

definition API_CreateFeedFromTopic ::
  "('n, 'k) bee \<Rightarrow> bytes \<Rightarrow> Address \<Rightarrow> content \<Rightarrow> 'k Handler \<times> 'n \<Rightarrow> bytes result \<times> 'k Handler \<times> 'n" where
  "API_CreateFeedFromTopic bc topic user dat st =
     (if API_IsReadOnlyFeed st then (Inl ErrReadOnlyFeed, st)
      else if length topic \<noteq> TopicLength then (Inl ErrInvalidTopicSize, st)
      else if clen bc dat > MaxChunkLength then (Inl ErrInvalidPayloadSize, st)
      else case sendSoc bc (fst st) topic user dat (snd st) of (r, n1) \<Rightarrow> (r, fst st, n1))"

definition API_GetSOCFromAddress :: "('n, 'k) bee \<Rightarrow> bytes \<Rightarrow> 'k Handler \<times> 'n \<Rightarrow> content result" where
  "API_GetSOCFromAddress bc address st =
     (case DownloadChunk bc address (snd st) of
        Inl e \<Rightarrow> Inl e
      | Inr ShortChunk \<Rightarrow> Inl (Errorf ''invalid chunk data len'')
      | Inr (SocChunk i sig span dat) \<Rightarrow> Inr dat)"

definition API_GetFeedDataFromTopic ::
  "('n, 'k) bee \<Rightarrow> bytes \<Rightarrow> Address \<Rightarrow> 'k Handler \<times> 'n \<Rightarrow> (bytes \<times> content) result" where
  "API_GetFeedDataFromTopic bc topic user st =
     (if length topic \<noteq> TopicLength then Inl ErrInvalidTopicSize else
      let address = SocDigest bc topic user in
      case API_GetSOCFromAddress bc address st of Inl e \<Rightarrow> Inl e | Inr d \<Rightarrow> Inr (address, d))"

definition deleteChunk :: "('n, 'k) bee \<Rightarrow> bytes \<Rightarrow> 'k Handler \<times> 'n \<Rightarrow> unit result \<times> 'k Handler \<times> 'n" where
  "deleteChunk bc ref st =
     (case BeeDeleteReference bc ref (snd st) of (r, n1) \<Rightarrow> (r, fst st, n1))"

definition API_DeleteFeed ::
  "('n, 'k) bee \<Rightarrow> bytes \<Rightarrow> Address \<Rightarrow> 'k Handler \<times> 'n \<Rightarrow> unit result \<times> 'k Handler \<times> 'n" where
  "API_DeleteFeed bc topic user st =
     (if API_IsReadOnlyFeed st then (Inl ErrReadOnlyFeed, st) else
      case API_GetFeedData bc topic user [] st of
        (Inl e, st1) \<Rightarrow> if error_string e \<noteq> error_string errNotFound then (Inl e, st1) else (Inr (), st1)
      | (Inr (delRef, d), st1) \<Rightarrow> if delRef \<noteq> [] then deleteChunk bc delRef st1 else (Inr (), st1))"

definition API_DeleteFeedFromTopic ::
  "('n, 'k) bee \<Rightarrow> bytes \<Rightarrow> Address \<Rightarrow> 'k Handler \<times> 'n \<Rightarrow> unit result \<times> 'k Handler \<times> 'n" where
  "API_DeleteFeedFromTopic bc topic user st =
     (if API_IsReadOnlyFeed st then (Inl ErrReadOnlyFeed, st) else
      case API_GetFeedDataFromTopic bc topic user st of
        Inl e \<Rightarrow> if error_string e \<noteq> error_string errNotFound then (Inl e, st) else (Inr (), st)
      | Inr (delRef, d) \<Rightarrow> if delRef \<noteq> [] then deleteChunk bc delRef st else (Inr (), st))"

section \<open>The services of the other components\<close>

text \<open>What the other components call: the API over the Bee client.\<close>

definition services_of :: "('n, 'k) bee \<Rightarrow> ('k Handler \<times> 'n) services" where
  "services_of bc =
     \<lparr>IsReadOnlyFeed = API_IsReadOnlyFeed,
      GetFeedData = API_GetFeedData bc,
      CreateFeed = API_CreateFeed bc,
      UpdateFeed = API_UpdateFeed bc,
      UploadBlob = (\<lambda>c (h, n). case BeeUploadBlob bc c n of (r, n1) \<Rightarrow> (r, h, n1)),
      DownloadBlob = (\<lambda>ref (h, n). (BeeDownloadBlob bc ref n, h, n)),
      DeleteReference = (\<lambda>ref (h, n). case BeeDeleteReference bc ref n of (r, n1) \<Rightarrow> (r, h, n1)),
      NowUnix = (\<lambda>(h, n). case Now bc n of (t, n1) \<Rightarrow> (uint t, h, n1)),
      DeleteFeedFromTopic = API_DeleteFeedFromTopic bc,
      HashString = TopicHash bc,
      DocLen = JsonLen bc\<rparr>"

end
