(* ===== verification/FeedStore.thy ===== *)
theory FeedStore
  imports FeedApi
begin

text \<open>
  The feed API keeps the contract of the theory Storage.  The locale swarm_net
  states what the code relies on of Swarm: a chunk that was uploaded is
  downloaded again, a missing chunk is the error the handler tests for, the hash
  functions have no collisions, and one call of the API takes less than a second
  of the clock (its readings of the clock agree).  Inside it the handler's
  operations are proved to keep every feed in the shape that the lookup needs,
  and storage is a sublocale.  The last section gives a Swarm in memory, on which
  both locales are interpreted.
\<close>

section \<open>Swarm\<close>

locale swarm_net =
  fixes bc :: "('n, 'k) bee"
    and maxlen :: nat
    and ok :: "nat \<Rightarrow> 'n \<Rightarrow> bool"
    and clk :: "'n \<Rightarrow> u64"
    and socs :: "'n \<Rightarrow> (bytes \<rightharpoonup> content)"
    and mem :: "'n \<Rightarrow> blobview"
  assumes ok_mono: "\<lbrakk>ok b n; b' \<le> b\<rbrakk> \<Longrightarrow> ok b' n"
    and now: "ok b n \<Longrightarrow> Now bc n = (clk n, n)"
    and clk_range: "ok b n \<Longrightarrow> 0 < clk n \<and> clk n \<le> MaxTime"
    and sleep: "ok (Suc b) n \<Longrightarrow> ok b (SleepSecond bc n) \<and> clk n < clk (SleepSecond bc n)
        \<and> socs (SleepSecond bc n) = socs n \<and> mem (SleepSecond bc n) = mem n"
    and bmt_inj: "\<lbrakk>length x = 40; length y = 40; BmtHash bc x = BmtHash bc y\<rbrakk> \<Longrightarrow> x = y"
    and soc_inj: "SocDigest bc i u = SocDigest bc i' u' \<Longrightarrow> i = i' \<and> u = u'"
    and topic_len: "length s \<le> maxlen \<Longrightarrow> length (TopicHash bc s) = 32"
    and topic_inj: "\<lbrakk>length s \<le> maxlen; length s' \<le> maxlen; TopicHash bc s = TopicHash bc s'\<rbrakk> \<Longrightarrow> s = s'"
    and key_inj: "\<lbrakk>length t = 32; length t' = 32; FeedKey bc t u = FeedKey bc t' u'\<rbrakk> \<Longrightarrow> t = t' \<and> u = u'"
    and download: "ok b n \<Longrightarrow> case socs n a of
          None \<Rightarrow> DownloadChunk bc a n = Inl (Service ''error downloading data'')
        | Some d \<Rightarrow> \<exists>i sg sp. DownloadChunk bc a n = Inr (SocChunk i sg sp d)"
    and upload: "\<lbrakk>ok (Suc b) n; clen bc d \<le> MaxChunkLength; socs n (SocDigest bc i u) = None;
        UploadSOC bc u i sg sp d n = (r, n')\<rbrakk> \<Longrightarrow>
        (\<exists>a. r = Inr a) \<and> ok b n' \<and> socs n' = (socs n)(SocDigest bc i u \<mapsto> d) \<and> mem n' = mem n \<and> clk n \<le> clk n'"
    and blob_up: "\<lbrakk>ok (Suc b) n; BeeUploadBlob bc c n = (rb, n')\<rbrakk> \<Longrightarrow>
        ok b n' \<and> socs n' = socs n \<and> clk n \<le> clk n' \<and> (\<exists>ref. rb = Inr ref \<and> length ref \<le> 64 \<and> 32 \<le> length ref
          \<and> (mem n ref = None \<or> mem n ref = Some c) \<and> mem n' = (mem n)(ref \<mapsto> c))"
    and blob_down: "ok b n \<Longrightarrow> case mem n ref of
          None \<Rightarrow> \<exists>e. BeeDownloadBlob bc ref n = Inl e
        | Some c \<Rightarrow> BeeDownloadBlob bc ref n = Inr (c, 200)"
    and blob_del: "\<lbrakk>ok b n; mem n ref \<noteq> None; BeeDeleteReference bc ref n = (rn, n')\<rbrakk> \<Longrightarrow>
        ok b n' \<and> socs n' = socs n \<and> clk n \<le> clk n' \<and> mem n' \<subseteq>\<^sub>m mem n
        \<and> (\<forall>ref'. ref' \<noteq> ref \<longrightarrow> mem n' ref' = mem n ref') \<and> rn = Inr ()"
    and mem_refs: "\<lbrakk>ok b n; mem n ref = Some c\<rbrakk> \<Longrightarrow> 32 \<le> length ref"

section \<open>The chunks of one feed\<close>

definition cell_addr :: "('n, 'k) bee \<Rightarrow> bytes \<Rightarrow> Address \<Rightarrow> u64 \<Rightarrow> u8 \<Rightarrow> bytes" where
  "cell_addr bc t u b l = SocDigest bc (BmtHash bc (t @ (PutUint64 b)[7 := l])) u"

definition slots_of :: "('n, 'k) bee \<Rightarrow> (bytes \<rightharpoonup> content) \<Rightarrow> bytes \<Rightarrow> Address \<Rightarrow> content slots" where
  "slots_of bc m t u = (\<lambda>(b, l). if b \<le> MaxTime then m (cell_addr bc t u b l) else None)"

lemma getAddress_cell: "getAddress bc t u e = cell_addr bc t u (Base e) (Level e)"
  by (simp add: getAddress_def getId_def epocId_def cell_addr_def Base_def getBaseTime_def Let_def)

lemma getId_cell: "SocDigest bc (getId bc t tm l) u = cell_addr bc t u (Base \<lparr>Time = tm, Level = l\<rparr>) l"
  by (simp add: getId_def epocId_def cell_addr_def Base_def getBaseTime_def Let_def)

lemma slot_slots_of: "Time f \<le> MaxTime \<Longrightarrow> slot (slots_of bc m t u) f = m (cell_addr bc t u (Base f) (Level f))"
  using order_trans [OF Base_le_Time] by (simp add: slot_def slots_of_def)

definition request_at :: "('n, 'k) bee \<Rightarrow> bytes \<Rightarrow> Address \<Rightarrow> Epoch \<Rightarrow> content \<Rightarrow> request" where
  "request_at bc t u f d = \<lparr>rEpoch = f, rData = d, rIdAddr = cell_addr bc t u (Base f) (Level f)\<rparr>"

lemma request_at_simps [simp]:
  "rEpoch (request_at bc t u f d) = f" "rData (request_at bc t u f d) = d"
  by (simp_all add: request_at_def)

lemma tagged_bytes_inj:
  assumes "b \<le> MaxTime" "b' \<le> MaxTime" "(PutUint64 b)[7 := l] = (PutUint64 b')[7 := l']"
  shows "b = b' \<and> l = l'"
proof
  from arg_cong [OF assms(3), of "\<lambda>x. Uint64 (x[7 := 0])"] show "b = b'"
    using assms(1,2) by (simp only: Uint64_tagged)
  from arg_cong [OF assms(3), of "\<lambda>x. x ! 7"] show "l = l'" by simp
qed

text \<open>A feed that never was written has no chunk and no cache entry; otherwise
  it has a latest update, and the cache, if it knows the feed, names one.\<close>

definition feed_ok :: "('n, 'k) bee \<Rightarrow> (bytes \<rightharpoonup> content) \<Rightarrow> u64 \<Rightarrow> ('k \<rightharpoonup> CacheEntry) \<Rightarrow> bytes \<Rightarrow> Address \<Rightarrow> bool" where
  "feed_ok bc m tm cache t u \<longleftrightarrow>
     (let S = slots_of bc m t u in
      (S = Map.empty \<and> cache (FeedKey bc t u) = None)
      \<or> (\<exists>e v. latest S e v \<and> Time e \<le> tm \<and> (Base e, Level e) \<noteq> (0, 0)
           \<and> (16 \<le> clen bc v \<or> v = deleted_mark)
           \<and> (\<forall>ce. cache (FeedKey bc t u) = Some ce \<longrightarrow> hint_ok S (ceEpoch ce) \<and> Time (ceEpoch ce) \<le> tm)))"

text \<open>The content of a feed: what a search at the end of time finds.\<close>

definition feed_content :: "content slots \<Rightarrow> content option" where
  "feed_content S = le_seq (slot S) MaxTime worstHint"

lemma feed_content_latest:
  assumes "latest S e v" "Time e \<le> MaxTime"
  shows "feed_content S = Some v"
proof -
  have "search_ok S e MaxTime worstHint" using search_ok_start [of NoClue S e MaxTime] assms(2) by simp
  with le_latest [OF assms(1) le_seq_le] worst_not_last [OF assms(1)] show ?thesis
    by (auto simp: feed_content_def)
qed

lemma feed_content_empty: "feed_content Map.empty = None"
proof -
  have "slot (Map.empty :: content slots) = (\<lambda>e. None)" by (simp add: slot_def fun_eq_iff)
  then show ?thesis by (simp add: feed_content_def le_seq_None)
qed

lemma Base_level0: "Level e = 0 \<Longrightarrow> Base e = Time e"
  by (simp add: Base_def getBaseTime_def maxuint64_def)

definition handler_ok ::
  "('n, 'k) bee \<Rightarrow> ('n \<Rightarrow> (bytes \<rightharpoonup> content)) \<Rightarrow> ('n \<Rightarrow> u64) \<Rightarrow> 'k Handler \<Rightarrow> 'n \<Rightarrow> bool" where
  "handler_ok bc socs clk h n \<longleftrightarrow> hPrivateKey h \<noteq> None \<and> hPool h = None
     \<and> (\<forall>t u. length t = 32 \<longrightarrow> feed_ok bc (socs n) (clk n) (hCache h) t u)"

definition feed_view :: "('n, 'k) bee \<Rightarrow> ('n \<Rightarrow> (bytes \<rightharpoonup> content)) \<Rightarrow> 'k Handler \<times> 'n \<Rightarrow> feedview" where
  "feed_view bc socs st = (\<lambda>(u, t, pw).
     if length t \<noteq> 32 then None else
     case feed_content (slots_of bc (socs (snd st)) t u) of
       None \<Rightarrow> None
     | Some c \<Rightarrow> if pw = [] \<or> c = deleted_mark then Some c
                 else (case DecryptBytes bc pw c of Inl e \<Rightarrow> None | Inr d \<Rightarrow> Some d))"

section \<open>The handler keeps the feeds in order\<close>

context swarm_net
begin

lemma cell_addr_inj:
  assumes "length t = 32" "length t' = 32" "b \<le> MaxTime" "b' \<le> MaxTime"
    and eq: "cell_addr bc t u b l = cell_addr bc t' u' b' l'"
  shows "t = t' \<and> u = u' \<and> b = b' \<and> l = l'"
proof -
  from soc_inj [OF eq [unfolded cell_addr_def]] have
    "BmtHash bc (t @ (PutUint64 b)[7 := l]) = BmtHash bc (t' @ (PutUint64 b')[7 := l'])" and u: "u = u'" by simp_all
  from bmt_inj [OF _ _ this(1)] assms(1,2) have "t = t'" "(PutUint64 b)[7 := l] = (PutUint64 b')[7 := l']"
    by simp_all
  with tagged_bytes_inj [OF assms(3,4)] u show ?thesis by blast
qed

lemma slots_upd:
  assumes "length t = 32" "Time e \<le> MaxTime"
  shows "slots_of bc (m(cell_addr bc t u (Base e) (Level e) \<mapsto> d)) t u
    = (slots_of bc m t u)((Base e, Level e) \<mapsto> d)"
proof -
  have b: "Base e \<le> MaxTime" using order_trans [OF Base_le_Time assms(2)] .
  have "cell_addr bc t u b' l' = cell_addr bc t u (Base e) (Level e) \<longleftrightarrow> b' = Base e \<and> l' = Level e"
    if "b' \<le> MaxTime" for b' l'
    using cell_addr_inj [OF assms(1,1) that b] by blast
  then show ?thesis using b by (auto simp: slots_of_def fun_eq_iff)
qed

lemma slots_other:
  assumes "length t = 32" "length t' = 32" "Time e \<le> MaxTime" "(u', t') \<noteq> (u, t)"
  shows "slots_of bc (m(cell_addr bc t u (Base e) (Level e) \<mapsto> d)) t' u' = slots_of bc m t' u'"
proof -
  have b: "Base e \<le> MaxTime" using order_trans [OF Base_le_Time assms(3)] .
  have "cell_addr bc t' u' b' l' \<noteq> cell_addr bc t u (Base e) (Level e)" if "b' \<le> MaxTime" for b' l'
    using cell_addr_inj [OF assms(2,1) that b] assms(4) by blast
  then show ?thesis by (auto simp: slots_of_def fun_eq_iff)
qed

lemma read_slot:
  assumes "ok b n" "Time f \<le> lim" "lim \<le> MaxTime"
  shows "lookup_read bc t u lim n f = Inr (map_option (request_at bc t u f) (slot (slots_of bc (socs n) t u) f))"
proof -
  let ?a = "cell_addr bc t u (Base f) (Level f)"
  have s: "slot (slots_of bc (socs n) t u) f = socs n ?a"
    by (rule slot_slots_of) (rule order_trans [OF assms(2,3)])
  show ?thesis
  proof (cases "socs n ?a")
    case None
    with download [OF assms(1), of ?a] show ?thesis
      by (simp add: lookup_read_def getAddress_cell s error_string_def Let_def)
  next
    case (Some d)
    with download [OF assms(1), of ?a] show ?thesis
      using assms(2) by (auto simp: lookup_read_def getAddress_cell s fromChunk_def Let_def request_at_def)
  qed
qed

lemma Lookup_empty:
  assumes "ok b n" "slots_of bc (socs n) t u = Map.empty" "hCache h (FeedKey bc t u) = None"
  shows "Lookup bc t u 0 NoClue (h, n) = (Inl errNotFound, h, n)"
proof -
  have "lookup_read bc t u (clk n) n f = Inr None" if "Time f \<le> clk n" for f
    using read_slot [OF assms(1) that] clk_range [OF assms(1)] assms(2) by (simp add: slot_def)
  from LongEarth_empty [OF this] show ?thesis
    using assms by (simp add: Lookup_def now Let_def)
qed

lemma Lookup_latest:
  assumes "ok b n" "latest (slots_of bc (socs n) t u) e v" "Time e \<le> clk n"
    and cache: "\<And>ce. hCache h (FeedKey bc t u) = Some ce \<Longrightarrow>
      hint_ok (slots_of bc (socs n) t u) (ceEpoch ce) \<and> Time (ceEpoch ce) \<le> clk n"
  obtains f where "Base f = Base e" "Level f = Level e" "Time f \<le> clk n"
    "Lookup bc t u 0 NoClue (h, n) =
      (Inr \<lparr>ceEpoch = f, ceData = v, ceLastKey = cell_addr bc t u (Base f) (Level f)\<rparr>,
       updateCache bc t u (request_at bc t u f v) h, n)"
proof -
  define hint where "hint = (case hCache h (FeedKey bc t u) of Some ce \<Rightarrow> ceEpoch ce | None \<Rightarrow> NoClue)"
  have "hint = NoClue \<or> (hint_ok (slots_of bc (socs n) t u) hint \<and> Time hint \<le> clk n)"
    using cache by (auto simp: hint_def split: option.split)
  moreover have "lookup_read bc t u (clk n) n f = Inr (map_option (request_at bc t u f) (slot (slots_of bc (socs n) t u) f))"
    if "Time f \<le> clk n" for f
    using read_slot [OF assms(1) that] clk_range [OF assms(1)] by simp
  ultimately obtain f where f: "LongEarthAlgorithm (lookup_read bc t u (clk n) n) (clk n) hint = Inr (Some (request_at bc t u f v))"
    "Base f = Base e" "Level f = Level e" "Time f \<le> clk n"
    using LongEarth_read_tagged [OF assms(2,3), of hint "lookup_read bc t u (clk n) n" "request_at bc t u"] by blast
  have "(case hCache h (FeedKey bc t u) of Some e \<Rightarrow> if Time (ceEpoch e) \<le> clk n then ceEpoch e else NoClue
      | None \<Rightarrow> NoClue) = hint"
    using cache by (auto simp: hint_def split: option.split)
  then have "Lookup bc t u 0 NoClue (h, n) =
      (Inr \<lparr>ceEpoch = f, ceData = v, ceLastKey = cell_addr bc t u (Base f) (Level f)\<rparr>,
       updateCache bc t u (request_at bc t u f v) h, n)"
    using f(1) by (simp add: Lookup_def now [OF assms(1)] Let_def) (simp add: request_at_def)
  with f(2-4) that show thesis by blast
qed

lemma updateCache_simps [simp]:
  "hPrivateKey (updateCache bc t u r h) = hPrivateKey h" "hPool (updateCache bc t u r h) = hPool h"
  "hCache (updateCache bc t u r h) = (hCache h)(FeedKey bc t u \<mapsto>
     \<lparr>ceEpoch = rEpoch r, ceData = rData r, ceLastKey = rIdAddr r\<rparr>)"
  by (simp_all add: updateCache_def)

lemma handler_okD:
  assumes "handler_ok bc socs clk h n"
  shows "hPrivateKey h \<noteq> None" "hPool h = None"
    "length t = 32 \<Longrightarrow> feed_ok bc (socs n) (clk n) (hCache h) t u"
  using assms by (auto simp: handler_ok_def)

lemma feed_ok_cases:
  assumes "feed_ok bc m tm cache t u"
  obtains (empty) "slots_of bc m t u = Map.empty" "cache (FeedKey bc t u) = None"
    | (update) e v where "latest (slots_of bc m t u) e v" "Time e \<le> tm" "(Base e, Level e) \<noteq> (0, 0)"
      "16 \<le> clen bc v \<or> v = deleted_mark"
      "\<And>ce. cache (FeedKey bc t u) = Some ce \<Longrightarrow> hint_ok (slots_of bc m t u) (ceEpoch ce) \<and> Time (ceEpoch ce) \<le> tm"
  using assms unfolding feed_ok_def Let_def by (elim disjE exE conjE) blast+

lemma feed_ok_mono:
  assumes "feed_ok bc m tm cache t u" "tm \<le> tm'" shows "feed_ok bc m tm' cache t u"
  using assms(1)
proof (cases rule: feed_ok_cases)
  case (update e v)
  moreover have "Time e \<le> tm'" using update(2) assms(2) by simp
  moreover have "hint_ok (slots_of bc m t u) (ceEpoch ce) \<and> Time (ceEpoch ce) \<le> tm'"
    if "cache (FeedKey bc t u) = Some ce" for ce
    using update(5) [OF that] assms(2) by (auto intro: order_trans)
  ultimately show ?thesis unfolding feed_ok_def Let_def by blast
qed (simp add: feed_ok_def)

lemma handler_ok_later:
  assumes "handler_ok bc socs clk h n" "socs n' = socs n" "clk n \<le> clk n'"
  shows "handler_ok bc socs clk h n'"
  using assms feed_ok_mono by (fastforce simp: handler_ok_def)

lemma handler_ok_cached:
  assumes ok: "handler_ok bc socs clk h n" and t: "length t = 32"
    and l: "latest (slots_of bc (socs n) t u) f v" "Time f \<le> clk n" "f \<noteq> NoClue"
  shows "handler_ok bc socs clk (updateCache bc t u (request_at bc t u f v) h) n"
proof -
  have "feed_ok bc (socs n) (clk n) (hCache (updateCache bc t u (request_at bc t u f v) h)) t' u'"
    if t': "length t' = 32" for t' u'
  proof (cases "(t', u') = (t, u)")
    case True
    have h: "hint_ok (slots_of bc (socs n) t u) f"
      using latestD(1,2) [OF l(1)] l(3) by (simp add: hint_ok_def)
    from handler_okD(3) [OF ok t] have "feed_ok bc (socs n) (clk n) (hCache h) t u" .
    then show ?thesis
    proof (cases rule: feed_ok_cases)
      case empty
      with latestD(2) [OF l(1)] show ?thesis by (simp add: slot_def)
    next
      case (update e w)
      with True h l(2) show ?thesis by (auto simp: feed_ok_def Let_def)
    qed
  next
    case False
    then have "FeedKey bc t' u' \<noteq> FeedKey bc t u" using key_inj [OF t' t] by blast
    with handler_okD(3) [OF ok t', of u'] show ?thesis by (simp add: feed_ok_def)
  qed
  with ok show ?thesis by (simp add: handler_ok_def)
qed

text \<open>What newRequest gives: an epoch whose cell is free, where a new update will
  be the latest one.\<close>

lemma newRequest_ok:
  assumes "ok (Suc b) n" and h: "handler_ok bc socs clk h n" and t: "length t = 32"
  obtains e h' n' where "newRequest bc t u (h, n) = (Inr e, h', n')" "Time e = clk n'"
    "slot (slots_of bc (socs n) t u) e = None"
    "\<And>d. latest ((slots_of bc (socs n) t u)((Base e, Level e) \<mapsto> d)) e d"
    "ok b n'" "socs n' = socs n" "mem n' = mem n" "clk n \<le> clk n'" "handler_ok bc socs clk h' n'"
  using handler_okD(3) [OF h t, of u]
proof (cases rule: feed_ok_cases)
  case empty
  have "ok b n" using ok_mono [OF assms(1)] by simp
  moreover have "newRequest bc t u (h, n) = (Inr (GetFirstEpoch (clk n)), h, n)"
    using Lookup_empty [OF assms(1) empty] by (simp add: newRequest_def now [OF assms(1)])
  ultimately show thesis
    using empty(1) h latest_first [OF refl, of "clk n"]
    by (intro that [of "GetFirstEpoch (clk n)" h n]) (simp_all add: GetFirstEpoch_def slot_def)
next
  case (update e0 v)
  let ?S = "slots_of bc (socs n) t u"
  from Lookup_latest [OF assms(1) update(1,2,5)] obtain f where f: "Base f = Base e0" "Level f = Level e0"
    "Time f \<le> clk n" "Lookup bc t u 0 NoClue (h, n) =
      (Inr \<lparr>ceEpoch = f, ceData = v, ceLastKey = cell_addr bc t u (Base f) (Level f)\<rparr>,
       updateCache bc t u (request_at bc t u f v) h, n)" by blast
  have l: "latest ?S f v" using latest_cell [OF update(1) f(2,1)] .
  have nc: "f \<noteq> NoClue"
  proof
    assume "f = NoClue"
    then have "Level e0 = 0 \<and> Base e0 = 0" using f(1,2) Base_level0 [of f] by (simp add: NoClue_def)
    with update(3) show False by simp
  qed
  let ?h = "updateCache bc t u (request_at bc t u f v) h"
  have h': "handler_ok bc socs clk ?h n" by (rule handler_ok_cached [OF h t l f(3) nc])
  define n' where "n' = (if Level f = 0 \<and> Time f = clk n then SleepSecond bc n else n)"
  have n': "ok b n'" "socs n' = socs n" "mem n' = mem n" "clk n \<le> clk n'" "\<not> (Level f = 0 \<and> Time f = clk n')"
    using sleep [OF assms(1)] ok_mono [OF assms(1), of b] by (auto simp: n'_def)
  have run: "newRequest bc t u (h, n) = (Inr (GetNextEpoch f (clk n')), ?h, n')"
    using f(4) now [OF assms(1)] now [OF n'(1)]
    by (cases "Level f = 0 \<and> Time f = clk n") (auto simp: newRequest_def n'_def)
  have tf: "Time f \<le> clk n'" using f(3) n'(4) by simp
  show thesis
    by (rule that [OF run _ _ _ n'(1-4) handler_ok_later [OF h' n'(2,4)]])
       (simp_all add: next_free [OF l nc tf n'(5)] latest_next [OF l nc tf])
qed

text \<open>Sending the chunk of a free cell that comes next.\<close>

lemma sendSoc_ok:
  assumes b: "ok (Suc b) n" and h: "handler_ok bc socs clk h n" and t: "length t = 32"
    and e: "Time e = clk n" "slot (slots_of bc (socs n) t u) e = None"
      "latest ((slots_of bc (socs n) t u)((Base e, Level e) \<mapsto> d)) e d"
    and d: "clen bc d \<le> MaxChunkLength" "16 \<le> clen bc d \<or> d = deleted_mark"
  obtains a n' where "sendSoc bc h (getId bc t (Time e) (Level e)) u d n = (Inr a, n')"
    "ok b n'" "handler_ok bc socs clk h n'" "mem n' = mem n"
    "feed_content (slots_of bc (socs n') t u) = Some d"
    "\<And>t' u'. \<lbrakk>length t' = 32; (u', t') \<noteq> (u, t)\<rbrakk> \<Longrightarrow> slots_of bc (socs n') t' u' = slots_of bc (socs n) t' u'"
proof -
  let ?i = "getId bc t (Time e) (Level e)" and ?a = "cell_addr bc t u (Base e) (Level e)"
  have te: "Time e \<le> MaxTime" using clk_range [OF b] e(1) by simp
  have a: "SocDigest bc ?i u = ?a" by (simp add: getId_cell Base_def)
  then have free: "socs n (SocDigest bc ?i u) = None" using e(2) slot_slots_of [OF te, of bc "socs n" t u] by simp
  obtain key where k: "hPrivateKey h = Some key" using handler_okD(1) [OF h] by blast
  obtain r n' where r: "UploadSOC bc u ?i (Sign bc key ?i d) (of_nat (clen bc d)) d n = (r, n')" by fastforce
  from upload [OF b d(1) free r] obtain r' where 1: "r = Inr r'" "ok b n'" "socs n' = (socs n)(?a \<mapsto> d)"
    "mem n' = mem n" "clk n \<le> clk n'" using a by auto
  note S = slots_upd [OF t te, of "socs n" u d, folded 1(3)]
  have other: "slots_of bc (socs n') t' u' = slots_of bc (socs n) t' u'"
    if "length t' = 32" "(u', t') \<noteq> (u, t)" for t' u'
    unfolding 1(3) by (rule slots_other [OF t that(1) te that(2)])
  have te': "Time e \<le> clk n'" using e(1) 1(5) by simp
  have fo: "feed_ok bc (socs n') (clk n') (hCache h) t' u'" if t': "length t' = 32" for t' u'
  proof (cases "(u', t') = (u, t)")
    case True
    have "(Base e, Level e) \<noteq> (0, 0)" using Base_level0 [of e] clk_range [OF b] e(1) by auto
    moreover have "hint_ok (slots_of bc (socs n') t u) (ceEpoch ce) \<and> Time (ceEpoch ce) \<le> clk n'"
      if "hCache h (FeedKey bc t u) = Some ce" for ce
    proof -
      have "hint_ok (slots_of bc (socs n) t u) (ceEpoch ce) \<and> Time (ceEpoch ce) \<le> clk n"
        using handler_okD(3) [OF h t, of u] by (cases rule: feed_ok_cases) (simp_all add: that)
      then show ?thesis using 1(5) by (auto simp: S hint_ok_def slot_def intro: order_trans)
    qed
    ultimately show ?thesis using True e(3) d(2) te' by (auto simp: feed_ok_def Let_def S)
  next
    case False
    from feed_ok_mono [OF handler_okD(3) [OF h t', of u'] 1(5)] show ?thesis
      unfolding feed_ok_def other [OF t' False] .
  qed
  show thesis
  proof (rule that [OF _ 1(2) _ 1(4) _ other])
    show "sendSoc bc h ?i u d n = (Inr r', n')" using d(1) k r 1(1) by (simp add: sendSoc_def)
    show "handler_ok bc socs clk h n'" using h fo by (simp add: handler_ok_def)
    show "feed_content (slots_of bc (socs n') t u) = Some d"
      using feed_content_latest [OF e(3) te] by (simp add: S)
  qed
qed

lemma updateSoc_ok:
  assumes b: "ok (Suc (Suc b)) n" and h: "handler_ok bc socs clk h n" and t: "length t = 32"
    and d: "clen bc d \<le> MaxChunkLength" "16 \<le> clen bc d \<or> d = deleted_mark"
  obtains r h' n' where "updateSoc bc u t d (h, n) = (Inr r, h', n')"
    "ok b n'" "handler_ok bc socs clk h' n'" "mem n' = mem n"
    "feed_content (slots_of bc (socs n') t u) = Some d"
    "\<And>t' u'. \<lbrakk>length t' = 32; (u', t') \<noteq> (u, t)\<rbrakk> \<Longrightarrow> slots_of bc (socs n') t' u' = slots_of bc (socs n) t' u'"
proof -
  obtain e h1 n1 where 1: "newRequest bc t u (h, n) = (Inr e, h1, n1)" "Time e = clk n1"
    "slot (slots_of bc (socs n) t u) e = None"
    "\<And>d. latest ((slots_of bc (socs n) t u)((Base e, Level e) \<mapsto> d)) e d"
    "ok (Suc b) n1" "socs n1 = socs n" "mem n1 = mem n" "clk n \<le> clk n1" "handler_ok bc socs clk h1 n1"
    by (rule newRequest_ok [OF b h t, of u]) blast
  obtain a n2 where 2: "sendSoc bc h1 (getId bc t (Time e) (Level e)) u d n1 = (Inr a, n2)"
    "ok b n2" "handler_ok bc socs clk h1 n2" "mem n2 = mem n1"
    "feed_content (slots_of bc (socs n2) t u) = Some d"
    "\<And>t' u'. \<lbrakk>length t' = 32; (u', t') \<noteq> (u, t)\<rbrakk> \<Longrightarrow> slots_of bc (socs n2) t' u' = slots_of bc (socs n1) t' u'"
    by (rule sendSoc_ok [OF 1(5,9) t 1(2), of u d]) (use 1(3,4,6) d in auto)
  have "updateSoc bc u t d (h, n) = (Inr (e, a), h1, n2)"
    using 1(1) 2(1) now [OF 1(5)]
    by (simp add: updateSoc_def maxUpdateRetry_def numeral_3_eq_3 Let_def 1(2) [symmetric])
  with that 2 1(6,7) show thesis by simp
qed

lemma createSoc_ok:
  assumes b: "ok (Suc b) n" and h: "handler_ok bc socs clk h n" and t: "length t = 32"
    and d: "clen bc d \<le> MaxChunkLength" "16 \<le> clen bc d \<or> d = deleted_mark"
    and S: "slots_of bc (socs n) t u = Map.empty"
  obtains r n' where "createSoc bc u t d (h, n) = (Inr r, h, n')"
    "ok b n'" "handler_ok bc socs clk h n'" "mem n' = mem n"
    "feed_content (slots_of bc (socs n') t u) = Some d"
    "\<And>t' u'. \<lbrakk>length t' = 32; (u', t') \<noteq> (u, t)\<rbrakk> \<Longrightarrow> slots_of bc (socs n') t' u' = slots_of bc (socs n) t' u'"
proof -
  let ?e = "GetFirstEpoch (clk n)"
  obtain a n2 where 2: "sendSoc bc h (getId bc t (Time ?e) (Level ?e)) u d n = (Inr a, n2)"
    "ok b n2" "handler_ok bc socs clk h n2" "mem n2 = mem n"
    "feed_content (slots_of bc (socs n2) t u) = Some d"
    "\<And>t' u'. \<lbrakk>length t' = 32; (u', t') \<noteq> (u, t)\<rbrakk> \<Longrightarrow> slots_of bc (socs n2) t' u' = slots_of bc (socs n) t' u'"
  proof (rule sendSoc_ok [OF b h t, of ?e u d])
    show "Time ?e = clk n" by (simp add: GetFirstEpoch_def)
    show "slot (slots_of bc (socs n) t u) ?e = None" by (simp add: S slot_def)
    show "latest ((slots_of bc (socs n) t u)((Base ?e, Level ?e) \<mapsto> d)) ?e d"
      unfolding S by (rule latest_first [OF refl])
  qed (use d in blast)+
  have "createSoc bc u t d (h, n) = (Inr (?e, a), h, n2)"
    using 2(1) now [OF b] by (simp add: createSoc_def Let_def GetFirstEpoch_def)
  with that 2 show thesis by simp
qed

lemma getSoc_ok:
  assumes b: "ok b n" and h: "handler_ok bc socs clk h n" and t: "length t = 32"
  obtains h' r where "getSoc bc t u NoClue (h, n) = (r, h', n)" "handler_ok bc socs clk h' n"
    "case feed_content (slots_of bc (socs n) t u) of None \<Rightarrow> r = Inl errNotFound | Some d \<Rightarrow> \<exists>a. r = Inr (a, d)"
  using handler_okD(3) [OF h t, of u]
proof (cases rule: feed_ok_cases)
  case empty
  from Lookup_empty [where h = h, OF b empty] show thesis
    using h handler_okD(2) [OF h] empty feed_content_empty
    by (intro that [of "Inl errNotFound" h]) (simp_all add: getSoc_def)
next
  case (update e0 v)
  let ?S = "slots_of bc (socs n) t u"
  from Lookup_latest [OF b update(1,2,5)] obtain f where f: "Base f = Base e0" "Level f = Level e0"
    "Time f \<le> clk n" "Lookup bc t u 0 NoClue (h, n) =
      (Inr \<lparr>ceEpoch = f, ceData = v, ceLastKey = cell_addr bc t u (Base f) (Level f)\<rparr>,
       updateCache bc t u (request_at bc t u f v) h, n)" by blast
  have l: "latest ?S f v" using latest_cell [OF update(1) f(2,1)] .
  have nc: "f \<noteq> NoClue"
  proof
    assume "f = NoClue"
    then have "Level e0 = 0 \<and> Base e0 = 0" using f(1,2) Base_level0 [of f] by (simp add: NoClue_def)
    with update(3) show False by simp
  qed
  let ?h = "updateCache bc t u (request_at bc t u f v) h"
  have h': "handler_ok bc socs clk ?h n" by (rule handler_ok_cached [OF h t l f(3) nc])
  have tf: "Time f \<le> MaxTime" using clk_range [OF b] f(3) by (blast intro: order_trans)
  show thesis
  proof (rule that [OF _ h'])
    show "getSoc bc t u NoClue (h, n) = (Inr (rIdAddr (request_at bc t u f v), v), ?h, n)"
      using f(4) handler_okD(2) [OF h] by (simp add: getSoc_def GetContent_def)
    show "case feed_content ?S of None \<Rightarrow> Inr (rIdAddr (request_at bc t u f v), v) = Inl errNotFound
        | Some d \<Rightarrow> \<exists>a. Inr (rIdAddr (request_at bc t u f v), v) = Inr (a, d)"
      using feed_content_latest [OF l tf] by simp
  qed
qed

lemma feed_content_None:
  assumes "ok b n" "handler_ok bc socs clk h n" "length t = 32"
    and "feed_view bc socs (h, n) (u, t, pw) = None"
  shows "slots_of bc (socs n) t u = Map.empty"
  using handler_okD(3) [OF assms(2,3), of u]
proof (cases rule: feed_ok_cases)
  case (update e v)
  have "Time e \<le> MaxTime" using update(2) clk_range [OF assms(1)] by (blast intro: order_trans)
  from feed_content_latest [OF update(1) this] update(4) assms(3,4) show ?thesis
    by (auto simp: feed_view_def DecryptBytes_def split: if_splits content.splits)
qed

lemma feed_view_written:
  assumes "feed_content (slots_of bc (socs n') t u) = Some c" "length t = 32"
    and "c = (if pw \<noteq> [] \<and> \<not> raw then Sealed pw d else d)" "raw \<longrightarrow> d = deleted_mark"
    and "\<And>t' u'. \<lbrakk>length t' = 32; (u', t') \<noteq> (u, t)\<rbrakk> \<Longrightarrow> slots_of bc (socs n') t' u' = slots_of bc (socs n) t' u'"
  shows "feed_written (feed_view bc socs (h, n)) (feed_view bc socs (h', n')) u t pw d"
proof -
  have "feed_view bc socs (h', n') (u, t, pw) = Some d"
    using assms(1-4) by (auto simp: feed_view_def DecryptBytes_def deleted_mark_def)
  moreover have "feed_view bc socs (h', n') (u', t', p) = feed_view bc socs (h, n) (u', t', p)"
    if "(u', t') \<noteq> (u, t)" for u' t' p
    using assms(5) that by (auto simp: feed_view_def)
  ultimately show ?thesis by (simp add: feed_written_def)
qed

end

lemma content_len_services [simp]: "content_len (services_of bc) d = clen bc d"
  by (induction d) (simp_all add: services_of_def)

section \<open>The storage contract\<close>

definition services_ok ::
  "('n, 'k) bee \<Rightarrow> (nat \<Rightarrow> 'n \<Rightarrow> bool) \<Rightarrow> ('n \<Rightarrow> u64) \<Rightarrow> ('n \<Rightarrow> (bytes \<rightharpoonup> content)) \<Rightarrow> nat \<Rightarrow> 'k Handler \<times> 'n \<Rightarrow> bool" where
  "services_ok bc ok clk socs b st \<longleftrightarrow> ok (2 * b) (snd st) \<and> handler_ok bc socs clk (fst st) (snd st)"

lemma services_simps [simp]:
  "IsReadOnlyFeed (services_of bc) = API_IsReadOnlyFeed"
  "GetFeedData (services_of bc) = API_GetFeedData bc"
  "CreateFeed (services_of bc) = API_CreateFeed bc"
  "UpdateFeed (services_of bc) = API_UpdateFeed bc"
  "HashString (services_of bc) = TopicHash bc"
  "NowUnix (services_of bc) (h, n) = (case Now bc n of (t, n1) \<Rightarrow> (uint t, h, n1))"
  "UploadBlob (services_of bc) c (h, n) = (case BeeUploadBlob bc c n of (r, n1) \<Rightarrow> (r, h, n1))"
  "DownloadBlob (services_of bc) ref (h, n) = (BeeDownloadBlob bc ref n, h, n)"
  "DeleteReference (services_of bc) ref (h, n) = (case BeeDeleteReference bc ref n of (r, n1) \<Rightarrow> (r, h, n1))"
  by (simp_all add: services_of_def)

context swarm_net
begin

lemma API_Get_ok:
  assumes "services_ok bc ok clk socs b st" "API_GetFeedData bc t u pw st = (rg, st')"
  shows "services_ok bc ok clk socs b st' \<and> snd st' = snd st
    \<and> (case feed_view bc socs st (u, t, pw) of None \<Rightarrow> \<exists>e. rg = Inl e | Some d \<Rightarrow> \<exists>a. rg = Inr (a, d))
    \<and> (feed_view bc socs st (u, t, pw) = None \<longrightarrow> length t = 32 \<longrightarrow> rg = Inl errNotFound)"
proof (cases "length t = 32")
  case True
  obtain h n where st: "st = (h, n)" by (cases st)
  with assms(1) have b: "ok (2 * b) n" "handler_ok bc socs clk h n" by (simp_all add: services_ok_def)
  obtain h' r where g: "getSoc bc t u NoClue (h, n) = (r, h', n)" "handler_ok bc socs clk h' n"
    "case feed_content (slots_of bc (socs n) t u) of None \<Rightarrow> r = Inl errNotFound | Some d \<Rightarrow> \<exists>a. r = Inr (a, d)"
    by (rule getSoc_ok [OF b True])
  have "st' = (h', n)"
    using assms(2) g(1) True st
    by (auto simp: API_GetFeedData_def TopicLength_def split: sum.splits if_splits prod.splits)
  moreover have "case feed_view bc socs st (u, t, pw) of None \<Rightarrow> \<exists>e. rg = Inl e | Some d \<Rightarrow> \<exists>a. rg = Inr (a, d)"
  proof (cases "feed_content (slots_of bc (socs n) t u)")
    case None
    with g assms(2) True st show ?thesis
      by (auto simp: API_GetFeedData_def TopicLength_def feed_view_def)
  next
    case (Some c)
    with g(3) obtain a where "r = Inr (a, c)" by auto
    with Some g(1) assms(2) True st show ?thesis
      by (auto simp: API_GetFeedData_def TopicLength_def feed_view_def split: sum.splits if_splits)
  qed
  moreover have "rg = Inl errNotFound" if "feed_view bc socs st (u, t, pw) = None"
    using feed_content_None [OF b True that [unfolded st]] feed_content_empty g assms(2) True st
    by (auto simp: API_GetFeedData_def TopicLength_def)
  ultimately show ?thesis using b(1) g(2) st True by (simp add: services_ok_def)
next
  case False
  with assms show ?thesis
    by (cases st) (auto simp: API_GetFeedData_def TopicLength_def feed_view_def)
qed

lemma storable_stored:
  assumes "storable (services_of bc) pw d" "c = (if pw \<noteq> [] \<and> \<not> raw then EncryptBytes pw d else d)"
    and "raw \<Longrightarrow> d = deleted_mark"
  shows "clen bc d \<le> MaxChunkLength" "clen bc c \<le> MaxChunkLength" "16 \<le> clen bc c \<or> c = deleted_mark"
  using assms by (auto simp: storable_def EncryptBytes_def)

lemma API_Update_ok:
  assumes "services_ok bc ok clk socs (Suc b) st" "storable (services_of bc) pw d" "length s \<le> maxlen"
    and run: "API_UpdateFeed bc u (TopicHash bc s) d pw st = (rn, st')"
  shows "rn = Inr () \<and> services_ok bc ok clk socs b st' \<and> mem (snd st') = mem (snd st)
    \<and> feed_written (feed_view bc socs st) (feed_view bc socs st') u (TopicHash bc s) pw d"
proof -
  obtain h n where st: "st = (h, n)" by (cases st)
  let ?t = "TopicHash bc s"
  define raw where "raw = (d = deleted_mark)"
  define c where "c = (if pw \<noteq> [] \<and> \<not> raw then EncryptBytes pw d else d)"
  from assms(1) st have b: "ok (Suc (Suc (2 * b))) n" "handler_ok bc socs clk h n"
    by (simp_all add: services_ok_def)
  note t = topic_len [OF assms(3)]
  note c = storable_stored [OF assms(2) c_def, unfolded raw_def, simplified]
  obtain r h' n' where w: "updateSoc bc u ?t c (h, n) = (Inr r, h', n')"
    "ok (2 * b) n'" "handler_ok bc socs clk h' n'" "mem n' = mem n"
    "feed_content (slots_of bc (socs n') ?t u) = Some c"
    "\<And>t' u'. \<lbrakk>length t' = 32; (u', t') \<noteq> (u, ?t)\<rbrakk> \<Longrightarrow> slots_of bc (socs n') t' u' = slots_of bc (socs n) t' u'"
    by (rule updateSoc_ok [OF b t c(2,3), of u]) blast
  have e: "API_UpdateFeed bc u ?t d pw (h, n) = (Inr (), h', n')"
    using handler_okD(1,2) [OF b(2)] t c(1) w(1)
    by (auto simp: API_UpdateFeed_def API_IsReadOnlyFeed_def TopicLength_def Let_def c_def raw_def)
  have "feed_written (feed_view bc socs (h, n)) (feed_view bc socs (h', n')) u ?t pw d"
    by (rule feed_view_written [where raw = raw, OF w(5) t _ _ w(6)])
       (simp_all add: c_def EncryptBytes_def raw_def)
  with e run st w(2-4) show ?thesis by (auto simp: services_ok_def)
qed

lemma API_Create_ok:
  assumes "services_ok bc ok clk socs (Suc b) st" "storable (services_of bc) pw d" "length s \<le> maxlen"
    and new: "feed_view bc socs st (u, TopicHash bc s, pw) = None"
    and run: "API_CreateFeed bc u (TopicHash bc s) d pw st = (rn, st')"
  shows "rn = Inr () \<and> services_ok bc ok clk socs b st' \<and> mem (snd st') = mem (snd st)
    \<and> feed_written (feed_view bc socs st) (feed_view bc socs st') u (TopicHash bc s) pw d"
proof -
  obtain h n where st: "st = (h, n)" by (cases st)
  let ?t = "TopicHash bc s"
  define c where "c = (if pw \<noteq> [] \<and> \<not> False then EncryptBytes pw d else d)"
  from assms(1) st have b: "ok (Suc (Suc (2 * b))) n" "handler_ok bc socs clk h n"
    by (simp_all add: services_ok_def)
  note t = topic_len [OF assms(3)]
  note c = storable_stored [OF assms(2) c_def, simplified]
  have S: "slots_of bc (socs n) ?t u = Map.empty"
    using feed_content_None [OF b t] new st by blast
  obtain r n' where w: "createSoc bc u ?t c (h, n) = (Inr r, h, n')"
    "ok (Suc (2 * b)) n'" "handler_ok bc socs clk h n'" "mem n' = mem n"
    "feed_content (slots_of bc (socs n') ?t u) = Some c"
    "\<And>t' u'. \<lbrakk>length t' = 32; (u', t') \<noteq> (u, ?t)\<rbrakk> \<Longrightarrow> slots_of bc (socs n') t' u' = slots_of bc (socs n) t' u'"
    by (rule createSoc_ok [OF b t c(2,3) S]) blast
  have e: "API_CreateFeed bc u ?t d pw (h, n) = (Inr (), h, n')"
    using handler_okD(1,2) [OF b(2)] t c(1) w(1)
    by (auto simp: API_CreateFeed_def API_IsReadOnlyFeed_def TopicLength_def Let_def c_def)
  have "feed_written (feed_view bc socs (h, n)) (feed_view bc socs (h, n')) u ?t pw d"
    by (rule feed_view_written [where raw = False, OF w(5) t _ _ w(6)])
       (simp_all add: c_def EncryptBytes_def)
  moreover have "ok (2 * b) n'" using ok_mono [OF w(2)] by simp
  ultimately show ?thesis using e run st w(3,4) by (auto simp: services_ok_def)
qed

end

sublocale swarm_net \<subseteq> st: storage "services_of bc" maxlen "services_ok bc ok clk socs"
  "feed_view bc socs" "\<lambda>st. mem (snd st)"
proof
  fix b b' and w :: "'k Handler \<times> 'n"
  show "services_ok bc ok clk socs b w \<Longrightarrow> b' \<le> b \<Longrightarrow> services_ok bc ok clk socs b' w"
    using ok_mono by (auto simp: services_ok_def)
next
  fix b and w :: "'k Handler \<times> 'n"
  show "services_ok bc ok clk socs b w \<Longrightarrow> \<not> IsReadOnlyFeed (services_of bc) w"
    using handler_okD(1) by (auto simp: services_ok_def API_IsReadOnlyFeed_def)
next
  fix s s' show "length s \<le> maxlen \<Longrightarrow> length s' \<le> maxlen \<Longrightarrow>
      HashString (services_of bc) s = HashString (services_of bc) s' \<Longrightarrow> s = s'"
    using topic_inj by simp
next
  fix b w t u pw rg w'
  assume "services_ok bc ok clk socs b w" "GetFeedData (services_of bc) t u pw w = (rg, w')"
  from API_Get_ok [OF this(1) this(2) [unfolded services_simps]] show
    "services_ok bc ok clk socs b w' \<and> feed_view bc socs w' = feed_view bc socs w \<and> mem (snd w') = mem (snd w) \<and>
     (\<forall>d. feed_view bc socs w (u, t, pw) = Some d \<longrightarrow> (\<exists>a. rg = Inr (a, d))) \<and>
     (feed_view bc socs w (u, t, pw) = None \<longrightarrow> (\<exists>e. rg = Inl e))"
    by (auto simp: feed_view_def)
next
  fix b w s u pw rg w'
  assume "services_ok bc ok clk socs b w" "length s \<le> maxlen"
    "feed_view bc socs w (u, HashString (services_of bc) s, pw) = None"
    "GetFeedData (services_of bc) (HashString (services_of bc) s) u pw w = (rg, w')"
  with API_Get_ok [OF this(1) this(4) [unfolded services_simps]] topic_len [of s] show
    "rg = Inl (Sentinel ''feed does not exist or was not updated yet'')" by simp
next
  fix b w pw d s t u rn w'
  assume "services_ok bc ok clk socs (Suc b) w" "storable (services_of bc) pw d" "length s \<le> maxlen"
    "t = HashString (services_of bc) s" "feed_view bc socs w (u, t, pw) = None"
    "CreateFeed (services_of bc) u t d pw w = (rn, w')"
  with API_Create_ok show "rn = Inr () \<and> services_ok bc ok clk socs b w' \<and>
     feed_written (feed_view bc socs w) (feed_view bc socs w') u t pw d \<and> mem (snd w') = mem (snd w)" by simp
next
  fix b w pw d s t u rn w'
  assume "services_ok bc ok clk socs (Suc b) w" "storable (services_of bc) pw d" "length s \<le> maxlen"
    "t = HashString (services_of bc) s" "UpdateFeed (services_of bc) u t d pw w = (rn, w')"
  with API_Update_ok show "rn = Inr () \<and> services_ok bc ok clk socs b w' \<and>
     feed_written (feed_view bc socs w) (feed_view bc socs w') u t pw d \<and> mem (snd w') = mem (snd w)" by simp
next
  fix b w c rb w'
  assume a: "services_ok bc ok clk socs (Suc b) w" "UploadBlob (services_of bc) c w = (rb, w')"
  obtain h n where w: "w = (h, n)" by (cases w)
  obtain r n' where r: "BeeUploadBlob bc c n = (r, n')" by fastforce
  from a(1) w have o: "ok (Suc (Suc (2 * b))) n" "handler_ok bc socs clk h n" by (simp_all add: services_ok_def)
  from blob_up [OF o(1) r] have 1: "ok (2 * b) n'" "socs n' = socs n" "clk n \<le> clk n'"
    using ok_mono [of "Suc (2 * b)" n' "2 * b"] by auto
  from handler_ok_later [OF o(2) 1(2,3)] blob_up [OF o(1) r] a(2) w r 1 show
    "services_ok bc ok clk socs b w' \<and> feed_view bc socs w' = feed_view bc socs w \<and>
     (\<exists>ref. rb = Inr ref \<and> length ref \<le> 64 \<and> 32 \<le> length ref \<and>
        (mem (snd w) ref = None \<or> mem (snd w) ref = Some c) \<and> mem (snd w') = (mem (snd w))(ref \<mapsto> c))"
    by (auto simp: services_ok_def feed_view_def)
next
  fix b w ref rd w'
  assume a: "services_ok bc ok clk socs b w" "DownloadBlob (services_of bc) ref w = (rd, w')"
  obtain h n where w: "w = (h, n)" by (cases w)
  from a(1) w have o: "ok (2 * b) n" by (simp add: services_ok_def)
  from blob_down [OF this, of ref] a w show
    "services_ok bc ok clk socs b w' \<and> feed_view bc socs w' = feed_view bc socs w \<and> mem (snd w') = mem (snd w) \<and>
     (\<forall>c. mem (snd w) ref = Some c \<longrightarrow> rd = Inr (c, 200)) \<and> (mem (snd w) ref = None \<longrightarrow> (\<exists>e. rd = Inl e))"
    by auto
next
  fix b w ref rn w'
  assume a: "services_ok bc ok clk socs b w" "mem (snd w) ref \<noteq> None" "DeleteReference (services_of bc) ref w = (rn, w')"
  obtain h n where w: "w = (h, n)" by (cases w)
  obtain r n' where r: "BeeDeleteReference bc ref n = (r, n')" by fastforce
  from a(1) w have o: "ok (2 * b) n" "handler_ok bc socs clk h n" by (simp_all add: services_ok_def)
  from blob_del [OF o(1) _ r] a(2) w have 1: "ok (2 * b) n'" "socs n' = socs n" "clk n \<le> clk n'"
    "mem n' \<subseteq>\<^sub>m mem n" "\<forall>ref'. ref' \<noteq> ref \<longrightarrow> mem n' ref' = mem n ref'" "r = Inr ()" by auto
  from handler_ok_later [OF o(2) 1(2,3)] a(3) w r 1 show
    "services_ok bc ok clk socs b w' \<and> feed_view bc socs w' = feed_view bc socs w \<and> mem (snd w') \<subseteq>\<^sub>m mem (snd w)
     \<and> (\<forall>ref'. ref' \<noteq> ref \<longrightarrow> mem (snd w') ref' = mem (snd w) ref') \<and> rn = Inr ()"
    by (auto simp: services_ok_def feed_view_def)
next
  fix b w n w'
  assume a: "services_ok bc ok clk socs b w" "NowUnix (services_of bc) w = (n, w')"
  obtain h n where w: "w = (h, n)" by (cases w)
  from a(1) w have o: "ok (2 * b) n" by (simp add: services_ok_def)
  from now [OF this] a w show
    "services_ok bc ok clk socs b w' \<and> feed_view bc socs w' = feed_view bc socs w \<and> mem (snd w') = mem (snd w)"
    by auto
next
  fix b w ref c
  show "services_ok bc ok clk socs b w \<Longrightarrow> mem (snd w) ref = Some c \<Longrightarrow> 32 \<le> length ref"
    using mem_refs by (auto simp: services_ok_def)
qed

end
