(* ===== verification/MemSwarm.thy ===== *)
theory MemSwarm
  imports FeedStore
begin

text \<open>
  A Swarm that lives in memory, with a clock that only sleeping moves, 32-byte
  references counted up and hash functions that are injective because they keep
  their input (names of up to 31 bytes are padded to a topic).  It shows that
  the laws of swarm_net, and with them those of storage, hold of something, and
  it is the concrete state on which the witnesses run.
\<close>

section \<open>The network\<close>

record memnet =
  mTime :: u64
  mSocs :: "bytes \<rightharpoonup> content"
  mBlobs :: "bytes \<rightharpoonup> content"
  mNext :: nat

definition ref_of :: "nat \<Rightarrow> bytes" where
  "ref_of k = replicate 24 0 @ PutUint64 (of_nat k)"

definition pad_topic :: "string \<Rightarrow> bytes" where
  "pad_topic s = bytes_of s @ replicate (31 - length s) 0 @ [of_nat (length s)]"

definition pair_bytes :: "bytes \<Rightarrow> bytes \<Rightarrow> bytes" where
  "pair_bytes i u = replicate (length i) 1 @ 0 # i @ u"

definition mem_bee :: "(memnet, bytes \<times> Address) bee" where
  "mem_bee =
     \<lparr>UploadSOC = (\<lambda>owner i sg sp d n.
        let a = pair_bytes i owner in
        if mSocs n a \<noteq> None then (Inl errChunkExists, n)
        else (Inr a, n\<lparr>mSocs := (mSocs n)(a \<mapsto> d)\<rparr>)),
      DownloadChunk = (\<lambda>a n. case mSocs n a of
          None \<Rightarrow> Inl (Service ''error downloading data'')
        | Some d \<Rightarrow> Inr (SocChunk [] [] 0 d)),
      BeeUploadBlob = (\<lambda>c n. (Inr (ref_of (mNext n)),
          n\<lparr>mBlobs := (mBlobs n)(ref_of (mNext n) \<mapsto> c), mNext := Suc (mNext n)\<rparr>)),
      BeeDownloadBlob = (\<lambda>ref n. case mBlobs n ref of
          None \<Rightarrow> Inl (Service ''error downloading data'') | Some c \<Rightarrow> Inr (c, 200)),
      BeeDeleteReference = (\<lambda>ref n. (Inr (),
        if mBlobs n ref \<noteq> None then n\<lparr>mBlobs := (mBlobs n)(ref := None)\<rparr>
        else n\<lparr>mSocs := (mSocs n)(ref := None)\<rparr>)),
      Now = (\<lambda>n. (mTime n, n)),
      SleepSecond = (\<lambda>n. n\<lparr>mTime := mTime n + 1\<rparr>),
      BmtHash = (\<lambda>b. b),
      SocDigest = pair_bytes,
      Sign = (\<lambda>key i d. []),
      TopicHash = pad_topic,
      FeedKey = Pair,
      JsonLen = (\<lambda>d. 100),
      LruVictims = (\<lambda>keys. [])\<rparr>"

definition mem_ok :: "nat \<Rightarrow> memnet \<Rightarrow> bool" where
  "mem_ok b n \<longleftrightarrow> 0 < mTime n \<and> unat (mTime n) + b \<le> 2 ^ 56 - 1 \<and> mNext n + b < 2 ^ 64
     \<and> (\<forall>ref c. mBlobs n ref = Some c \<longrightarrow> (\<exists>k < mNext n. ref = ref_of k))"

lemma mem_bee_simps [simp]:
  "Now mem_bee n = (mTime n, n)" "SleepSecond mem_bee n = n\<lparr>mTime := mTime n + 1\<rparr>"
  "BmtHash mem_bee b = b" "SocDigest mem_bee = pair_bytes" "TopicHash mem_bee = pad_topic"
  "FeedKey mem_bee = Pair" "JsonLen mem_bee d = 100"
  by (simp_all add: mem_bee_def)

lemma ref_of_length [simp]: "length (ref_of k) = 32"
  by (simp add: ref_of_def)

lemma ref_of_inj:
  assumes "ref_of k = ref_of k'" "k < 2 ^ 64" "k' < 2 ^ 64" shows "k = k'"
proof -
  from assms(1) have "PutUint64 (of_nat k) = PutUint64 (of_nat k')" by (simp add: ref_of_def)
  then have "(of_nat k :: u64) = of_nat k'" by (metis Uint64_PutUint64)
  from arg_cong [OF this, of unat] show ?thesis using assms(2,3) by (simp add: unat_of_nat)
qed

lemma bytes_of_length [simp]: "length (bytes_of s) = length s"
  by (simp add: bytes_of_def)

lemma bytes_of_inj: "bytes_of s = bytes_of s' \<Longrightarrow> s = s'"
  by (metis string_of_bytes_of)

lemma pad_topic_length: "length s \<le> 31 \<Longrightarrow> length (pad_topic s) = 32"
  by (simp add: pad_topic_def)

lemma pad_topic_inj:
  assumes "length s \<le> 31" "length s' \<le> 31" "pad_topic s = pad_topic s'"
  shows "s = s'"
proof -
  from arg_cong [OF assms(3), of List.last] have "(of_nat (length s) :: 8 word) = of_nat (length s')"
    by (simp add: pad_topic_def)
  from arg_cong [OF this, of unat] have l: "length s = length s'" using assms(1,2) by (simp add: unat_of_nat)
  from arg_cong [OF assms(3), of "take (length s)"] have "bytes_of s = bytes_of s'"
    using l by (simp add: pad_topic_def)
  then show ?thesis by (rule bytes_of_inj)
qed

lemma pair_bytes_inj: "pair_bytes i u = pair_bytes i' u' \<Longrightarrow> i = i' \<and> u = u'"
proof -
  assume eq: "pair_bytes i u = pair_bytes i' u'"
  have "length (takeWhile (\<lambda>b. b = 1) (pair_bytes i u)) = length i" for i u
    by (simp add: pair_bytes_def takeWhile_append)
  then have "length i = length i'" using eq by metis
  with eq show ?thesis by (simp add: pair_bytes_def)
qed

lemma mem_clock: "mem_ok b n \<Longrightarrow> mTime n \<le> MaxTime"
  by (simp add: mem_ok_def MaxTime_def word_le_nat_alt)

lemma mem_tick: "mem_ok (Suc b) n \<Longrightarrow> unat (mTime n + 1) = Suc (unat (mTime n))"
  by (simp add: unat_word_ariths mem_ok_def)

interpretation mem: swarm_net mem_bee 31 mem_ok mTime mSocs mBlobs
proof
  fix b n assume m: "mem_ok (Suc b) n"
  from mem_tick [OF m] m show "mem_ok b (SleepSecond mem_bee n) \<and> mTime n < mTime (SleepSecond mem_bee n)
      \<and> mSocs (SleepSecond mem_bee n) = mSocs n \<and> mBlobs (SleepSecond mem_bee n) = mBlobs n"
    by (simp add: mem_ok_def word_less_nat_alt)
next
  fix b n c rb n'
  assume m: "mem_ok (Suc b) n" and r: "BeeUploadBlob mem_bee c n = (rb, n')"
  have fresh: "mBlobs n (ref_of (mNext n)) = None"
  proof (rule ccontr)
    assume "mBlobs n (ref_of (mNext n)) \<noteq> None"
    with m obtain k where "k < mNext n" "ref_of (mNext n) = ref_of k" by (auto simp: mem_ok_def)
    with ref_of_inj [of "mNext n" k] m show False by (simp add: mem_ok_def)
  qed
  have refs: "\<exists>k < Suc (mNext n). ref = ref_of k" if "((mBlobs n)(ref_of (mNext n) \<mapsto> c)) ref = Some d" for ref d
    using that m by (cases "ref = ref_of (mNext n)") (auto simp: mem_ok_def intro: less_SucI)
  have "rb = Inr (ref_of (mNext n))"
    and n': "n' = n\<lparr>mBlobs := (mBlobs n)(ref_of (mNext n) \<mapsto> c), mNext := Suc (mNext n)\<rparr>"
    using r by (simp_all add: mem_bee_def)
  moreover have "mem_ok b n'" using m refs unfolding n' by (simp add: mem_ok_def del: fun_upd_apply)
  ultimately show "mem_ok b n' \<and> mSocs n' = mSocs n \<and> mTime n \<le> mTime n' \<and> (\<exists>ref. rb = Inr ref \<and> length ref \<le> 64
      \<and> 32 \<le> length ref \<and> (mBlobs n ref = None \<or> mBlobs n ref = Some c) \<and> mBlobs n' = (mBlobs n)(ref \<mapsto> c))"
    using fresh by simp
next
  fix b n d i u sg sp r n'
  assume "mem_ok (Suc b) n" "mSocs n (SocDigest mem_bee i u) = None" "UploadSOC mem_bee u i sg sp d n = (r, n')"
  then show "(\<exists>a. r = Inr a) \<and> mem_ok b n' \<and> mSocs n' = (mSocs n)(SocDigest mem_bee i u \<mapsto> d)
      \<and> mBlobs n' = mBlobs n \<and> mTime n \<le> mTime n'"
    by (auto simp: mem_bee_def mem_ok_def Let_def)
next
  fix b n ref rn n'
  assume m: "mem_ok b n" "mBlobs n ref \<noteq> None" "BeeDeleteReference mem_bee ref n = (rn, n')"
  then have n': "n' = n\<lparr>mBlobs := (mBlobs n)(ref := None)\<rparr>" "rn = Inr ()" by (auto simp: mem_bee_def)
  have "mem_ok b n'" using m(1) by (simp add: n'(1) mem_ok_def)
  then show "mem_ok b n' \<and> mSocs n' = mSocs n \<and> mTime n \<le> mTime n' \<and> mBlobs n' \<subseteq>\<^sub>m mBlobs n
      \<and> (\<forall>ref'. ref' \<noteq> ref \<longrightarrow> mBlobs n' ref' = mBlobs n ref') \<and> rn = Inr ()"
    by (simp add: n' map_le_def)
next
  fix b n ref c
  assume "mem_ok b n" "mBlobs n ref = Some c"
  then show "32 \<le> length ref" by (auto simp: mem_ok_def)
next
  fix b n a
  show "case mSocs n a of None \<Rightarrow> DownloadChunk mem_bee a n = Inl (Service ''error downloading data'')
      | Some d \<Rightarrow> \<exists>i sg sp. DownloadChunk mem_bee a n = Inr (SocChunk i sg sp d)"
    by (simp add: mem_bee_def split: option.split)
next
  fix b n ref
  show "case mBlobs n ref of None \<Rightarrow> \<exists>e. BeeDownloadBlob mem_bee ref n = Inl e
      | Some c \<Rightarrow> BeeDownloadBlob mem_bee ref n = Inr (c, 200)"
    by (simp add: mem_bee_def split: option.split)
next
  fix b n assume "mem_ok b n"
  then show "0 < mTime n \<and> mTime n \<le> MaxTime" using mem_clock by (simp add: mem_ok_def)
next
  fix b b' n assume "mem_ok b n" "b' \<le> b"
  then show "mem_ok b' n" by (auto simp: mem_ok_def)
next
  fix i u i' u' assume "SocDigest mem_bee i u = SocDigest mem_bee i' u'"
  then show "i = i' \<and> u = u'" unfolding mem_bee_simps by (rule pair_bytes_inj)
next
  fix s s' assume "length s \<le> 31" "length s' \<le> 31" "TopicHash mem_bee s = TopicHash mem_bee s'"
  then show "s = s'" unfolding mem_bee_simps by (rule pad_topic_inj)
next
  show "length s \<le> 31 \<Longrightarrow> length (TopicHash mem_bee s) = 32" for s
    using pad_topic_length by simp
qed simp_all

definition mem_start :: "(bytes \<times> Address) Handler \<times> memnet" where
  "mem_start = (\<lparr>hPrivateKey = Some [1], hCache = Map.empty, hPool = None\<rparr>,
     \<lparr>mTime = 1700000000, mSocs = Map.empty, mBlobs = Map.empty, mNext = 0\<rparr>)"

abbreviation mem_services :: "((bytes \<times> Address) Handler \<times> memnet) services" where
  "mem_services \<equiv> services_of mem_bee"

abbreviation mem_good :: "nat \<Rightarrow> (bytes \<times> Address) Handler \<times> memnet \<Rightarrow> bool" where
  "mem_good \<equiv> services_ok mem_bee mem_ok mTime mSocs"

abbreviation mem_feeds :: "(bytes \<times> Address) Handler \<times> memnet \<Rightarrow> feedview" where
  "mem_feeds \<equiv> feed_view mem_bee mSocs"

abbreviation mem_blobs :: "(bytes \<times> Address) Handler \<times> memnet \<Rightarrow> blobview" where
  "mem_blobs \<equiv> \<lambda>st. mBlobs (snd st)"

lemma mem_storage: "storage mem_services 31 mem_good mem_feeds mem_blobs"
  by (rule mem.st.storage_axioms)

lemma mem_start_good: "b \<le> 1000000 \<Longrightarrow> mem_good b mem_start"
  by (simp add: services_ok_def mem_start_def mem_ok_def handler_ok_def feed_ok_def Let_def slots_of_def fun_eq_iff)

lemma mem_start_empty: "mem_feeds mem_start k = None"
proof -
  have "slots_of mem_bee Map.empty t u = Map.empty" for t u by (simp add: slots_of_def fun_eq_iff)
  then show ?thesis using feed_content_empty
    by (cases k) (simp add: feed_view_def mem_start_def)
qed

end
