(* ===== verification/IndexRuns.thy ===== *)
theory IndexRuns
  imports IndexPut MemSwarm
begin

text \<open>
  The index on the Swarm in memory: an index with one leaf is put into the
  storage by hand, and the properties of IndexPut are applied to it.
\<close>

context storage
begin

lemma leaf_index:
  assumes "inv (b + 2) w" and nm: "length (ixName idx) \<le> maxlen" "ixMutable idx" "mName m = ixName idx"
    and new: "feeds w (ixUser idx, HashString sv (ixName idx), bytes_of (ixPassword idx)) = None"
    and m: "node_ok (mEntries m)" "\<forall>e \<in> set (mEntries m). eEType e = leafEntry" "text_ok m"
  obtains w' where "inv b w'" "index_ok sv maxlen feeds blobs idx w'"
    "ixview sv maxlen feeds blobs idx w' (ixName idx) = Some m" "blobs w \<subseteq>\<^sub>m blobs w'"
proof -
  let ?t = "HashString sv (ixName idx)" and ?pw = "bytes_of (ixPassword idx)"
  obtain q w1 where u: "UploadBlob sv (Doc (DManifest m)) w = (q, w1)" by fastforce
  from upload_blob [OF _ u, of "Suc b"] assms(1) obtain ref where 1: "inv (Suc b) w1" "feeds w1 = feeds w"
    "32 \<le> length ref" "length ref \<le> 64" "blobs w1 = (blobs w)(ref \<mapsto> Doc (DManifest m))"
    "blobs w ref = None \<or> blobs w ref = Some (Doc (DManifest m))" by auto
  obtain r w2 where c: "CreateFeed sv (ixUser idx) ?t (Raw ref) ?pw w1 = (r, w2)" by fastforce
  from create_feed [OF 1(1) storable_ref [OF 1(3,4)] nm(1) refl _ c] new 1(2) have 2:
    "inv b w2" "feed_written (feeds w1) (feeds w2) (ixUser idx) ?t ?pw (Raw ref)" "blobs w2 = blobs w1" by auto
  have V: "ixview sv maxlen feeds blobs idx w2 (ixName idx) = Some m"
    using 2 1(5) nm(1) by (simp add: ixview_def manifest_view_def feed_writtenD(1))
  have "trie (ixview sv maxlen feeds blobs idx w2) m" using m by (intro trieI) auto
  moreover have "blobs w \<subseteq>\<^sub>m blobs w2" using 1(5,6) 2(3) by (auto simp: map_le_def)
  ultimately show thesis using that [OF 2(1)] V nm(2,3) by (auto simp: index_ok_def)
qed

end

section \<open>A concrete index\<close>

definition run_idx :: Index where
  "run_idx = \<lparr>ixName = ''pcn'', ixMutable = True, ixType = StringIndex, ixPodFile = [], ixPassword = ''pw'',
     ixUser = [1], ixCount = 1, ixMemDB = None\<rparr>"

definition run_manifest :: Manifest where
  "run_manifest = Manifest ''pcn'' True [] StringIndex 1700000000 [Entry ''k'' leafEntry [[7]] None] 1 False"

lemma run_start:
  obtains w where "mem_good 100 w" "index_ok mem_services 31 mem_feeds mem_blobs run_idx w"
    "ixview mem_services 31 mem_feeds mem_blobs run_idx w (ixName run_idx) = Some run_manifest"
  by (rule storage.leaf_index [OF mem_storage mem_start_good, of 100 run_idx run_manifest])
     (simp_all add: run_idx_def run_manifest_def node_ok_def text_ok_def ascii_valid mem_start_empty)

lemma run_find:
  assumes "ixview mem_services 31 mem_feeds mem_blobs run_idx w (ixName run_idx) = Some run_manifest"
  shows "index_find mem_services 31 mem_feeds mem_blobs run_idx w ''k'' = Some [[7]]"
    "\<not> index_at_branch mem_services 31 mem_feeds mem_blobs run_idx w ''k''"
  using assms
  by (simp_all add: index_find_def index_at_branch_def tfind.simps at_branch.simps run_manifest_def cand_def)

lemma index_Put_Get_witness:
  "\<exists>w idx' w'. Put mem_services run_idx ''a'' [9] StringIndex False w = (Inr (), idx', w')
     \<and> fst (Get mem_services idx' ''a'' w') = Inr [[9]] \<and> fst (Get mem_services idx' ''k'' w') = Inr [[7]]"
proof -
  obtain w where w: "mem_good 100 w" "index_ok mem_services 31 mem_feeds mem_blobs run_idx w"
    "ixview mem_services 31 mem_feeds mem_blobs run_idx w (ixName run_idx) = Some run_manifest"
    by (rule run_start)
  have k: "fst (Get mem_services run_idx ''k'' w) = Inr [[7]]"
    by (rule storage.Get_ok [OF mem_storage w(1,2), of "''k''"]) (simp add: run_find(1) [OF w(3)])
  have g: "mem_good (96 + 2 + 2) w" using w(1) by simp
  have "length (ixName run_idx) + length ''a'' \<le> 31" by (simp add: run_idx_def)
  from index_Put_Get [OF mem_storage g w(2) this, simplified, of "[9]" StringIndex] obtain idx' w' where
    "Put mem_services run_idx ''a'' [9] StringIndex False w = (Inr (), idx', w')"
    and g': "\<forall>k. fst (Get mem_services idx' k w') = (if k = ''a'' then Inr [[9]] else fst (Get mem_services run_idx k w))"
    by blast
  moreover have "fst (Get mem_services idx' ''a'' w') = Inr [[9]]" "fst (Get mem_services idx' ''k'' w') = Inr [[7]]"
    using g' k by simp_all
  ultimately show ?thesis by blast
qed

lemma index_Delete_witness:
  "\<exists>w idx' w'. Delete mem_services run_idx ''k'' w = (Inr [[7]], idx', w')
     \<and> fst (Get mem_services idx' ''k'' w') = Inl ErrEntryNotFound"
proof -
  obtain w where w: "mem_good 100 w" "index_ok mem_services 31 mem_feeds mem_blobs run_idx w"
    "ixview mem_services 31 mem_feeds mem_blobs run_idx w (ixName run_idx) = Some run_manifest"
    by (rule run_start)
  have k: "fst (Get mem_services run_idx ''k'' w) = Inr [[7]]"
    by (rule storage.Get_ok [OF mem_storage w(1,2), of "''k''"]) (simp add: run_find(1) [OF w(3)])
  have "mem_good (98 + 2) w" using w(1) by simp
  from index_Delete [OF mem_storage this w(2) k run_find(2) [OF w(3)]] show ?thesis by metis
qed

lemma index_life_cycle_witness:
  "\<exists>w1 idx w2 w3. CreateIndex mem_services ''p'' ''c'' ''n'' ''pw'' StringIndex [1] True mem_start = (Inr (), w1)
     \<and> OpenIndex mem_services ''p'' ''c'' ''n'' ''pw'' [1] w1 = (Inr idx, w2)
     \<and> DeleteIndex mem_services idx ''pw'' w2 = (Inr (), w3)
     \<and> fst (OpenIndex mem_services ''p'' ''c'' ''n'' ''pw'' [1] w3) = Inl ErrIndexNotPresent"
  using index_life_cycle [OF mem_storage mem_start_good, of 97 "''p''" "''c''" "''n''" "[1]" "''pw''" StringIndex]
  by (simp add: mem_start_empty ascii_valid) blast

end
