(* ===== verification/FileModel.thy ===== *)
theory FileModel
  imports Storage
begin

text \<open>
  Files, pkg/file.  A file is cut into blocks; every block is a blob, the list of
  the blocks (the inode) is a blob as well, and the metadata with the address of
  the inode is a feed whose topic is the hash of the path.  File keeps the
  metadata it has seen in memory (fileMap); a pointer that GetInode returns is
  the one in that map, so a change of its fields is a change of the map.

  The compression libraries, the content sniffing of net/http and the buffer
  sizes with which io reads are code outside the repository: the record libs.
  Tags, which only track the progress of uploads in Bee, are left out.
\<close>

section \<open>utils.CombinePathAndFile\<close>

definition CombinePathAndFile :: "string \<Rightarrow> string \<Rightarrow> string" where
  "CombinePathAndFile path fileName =
     (if path = ''/'' \<and> fileName = ''/'' then ''/''
      else if path = ''/'' \<or> path = [] then ''/'' @ TrimPrefix fileName ''/''
      else if fileName = [] then path
      else ''/'' @ TrimPrefix path ''/'' @ ''/'' @ TrimPrefix fileName ''/'')"

section \<open>Libraries and errors\<close>

record libs =
  GzipC :: "nat \<Rightarrow> bytes \<Rightarrow> bytes result"
  GzipD :: "nat \<Rightarrow> bytes \<Rightarrow> bytes result"
  SnappyC :: "bytes \<Rightarrow> bytes"
  SnappyD :: "bytes \<Rightarrow> bytes result"
  DetectContentType :: "bytes \<Rightarrow> string"
  BufCap :: "nat \<Rightarrow> nat"

abbreviation "ErrDeletedFeed \<equiv> Sentinel ''deleted feed''"
abbreviation "ErrUnknownFeed \<equiv> Sentinel ''unknown value in feed''"
abbreviation "ErrFileAlreadyPresent \<equiv> Sentinel ''file already present in the destination dir''"
abbreviation "ErrFileNotFound \<equiv> Sentinel ''file not found in dfs''"
abbreviation "ErrInvalidBlockSize \<equiv> Errorf ''upload: block size must be between 1000000 - 8000000 (1Mb - 8Mb)''"
abbreviation "ErrInvalidOffset \<equiv> Sentinel ''invalid offset''"
abbreviation "ErrFeedReadOnly \<equiv> Errorf ''read only feed''"
abbreviation "errFileLength \<equiv> Errorf ''invalid file length of file data received''"
abbreviation "EOF \<equiv> Sentinel ''EOF''"

definition MinBlockSize :: nat where "MinBlockSize = 1000000"
definition MaxBlockSize :: nat where "MaxBlockSize = 8000000"
definition S_IFREG :: "32 word" where "S_IFREG = 0x8000"
definition defaultMode :: "32 word" where "defaultMode = 0x180"
definition FileMetaVersion :: "8 word" where "FileMetaVersion = 2"

definition Compress :: "libs \<Rightarrow> bytes \<Rightarrow> string \<Rightarrow> nat \<Rightarrow> bytes result" where
  "Compress lb dataToCompress compression blockSize =
     (if compression = ''gzip'' then GzipC lb (blockSize div 10) dataToCompress
      else if compression = ''snappy'' then Inr (SnappyC lb dataToCompress)
      else Inr dataToCompress)"

definition Decompress :: "libs \<Rightarrow> bytes \<Rightarrow> string \<Rightarrow> nat \<Rightarrow> bytes result" where
  "Decompress lb dataToDecompress compression blockSize =
     (if compression = ''gzip'' then GzipD lb (blockSize div 10) dataToDecompress
      else if compression = ''snappy'' then SnappyD lb dataToDecompress
      else Inr dataToDecompress)"

section \<open>The file map and the metadata\<close>

record File =
  flUser :: Address
  flMap :: "string \<rightharpoonup> FileMeta"

definition AddToFileMap :: "string \<Rightarrow> FileMeta \<Rightarrow> File \<Rightarrow> File" where
  "AddToFileMap filePath m f = f\<lparr>flMap := (flMap f)(filePath \<mapsto> m)\<rparr>"

definition RemoveFromFileMap :: "string \<Rightarrow> File \<Rightarrow> File" where
  "RemoveFromFileMap filePath f = f\<lparr>flMap := (flMap f)(filePath := None)\<rparr>"

definition GetFromFileMap :: "File \<Rightarrow> string \<Rightarrow> FileMeta option" where
  "GetFromFileMap f filePath = flMap f filePath"

definition RemoveAllFromFileMap :: "File \<Rightarrow> File" where
  "RemoveAllFromFileMap f = f\<lparr>flMap := Map.empty\<rparr>"

definition FileGetInode ::
  "'w services \<Rightarrow> File \<Rightarrow> string \<Rightarrow> string \<Rightarrow> 'w \<Rightarrow> FileMeta option \<times> File \<times> 'w" where
  "FileGetInode sv f pw filePath w =
     (case GetFromFileMap f filePath of
        Some m \<Rightarrow> (Some m, f, w)
      | None \<Rightarrow>
          (case GetFeedData sv (HashString sv filePath) (flUser f) (bytes_of pw) w of
             (Inl e, w1) \<Rightarrow> (None, f, w1)
           | (Inr (a, metaBytes), w1) \<Rightarrow>
               if metaBytes = deleted_mark then (None, f, w1)
               else (case json_meta metaBytes of
                       Some m \<Rightarrow> (Some m, AddToFileMap filePath m f, w1)
                     | None \<Rightarrow> (None, f, w1))))"

definition IsFileAlreadyPresent ::
  "'w services \<Rightarrow> File \<Rightarrow> string \<Rightarrow> string \<Rightarrow> 'w \<Rightarrow> bool \<times> File \<times> 'w" where
  "IsFileAlreadyPresent sv f pw fileWithPath w =
     (case FileGetInode sv f pw fileWithPath w of (m, f1, w1) \<Rightarrow> (m \<noteq> None, f1, w1))"

definition GetMetaFromFileName ::
  "'w services \<Rightarrow> string \<Rightarrow> string \<Rightarrow> Address \<Rightarrow> 'w \<Rightarrow> FileMeta result \<times> 'w" where
  "GetMetaFromFileName sv fileNameWithPath pw user w =
     (case GetFeedData sv (HashString sv fileNameWithPath) user (bytes_of pw) w of
        (Inl e, w1) \<Rightarrow> (Inl e, w1)
      | (Inr (a, metaBytes), w1) \<Rightarrow>
          if metaBytes = deleted_mark then (Inl ErrDeletedFeed, w1)
          else (case json_meta metaBytes of
                  Some m \<Rightarrow> (Inr m, w1) | None \<Rightarrow> (Inl ErrUnknownFeed, w1)))"

definition meta_topic :: "'w services \<Rightarrow> FileMeta \<Rightarrow> bytes" where
  "meta_topic sv m = HashString sv (CombinePathAndFile (fPath m) (fName m))"

definition uploadMeta :: "'w services \<Rightarrow> File \<Rightarrow> FileMeta \<Rightarrow> string \<Rightarrow> 'w \<Rightarrow> unit result \<times> 'w" where
  "uploadMeta sv f m pw w = CreateFeed sv (flUser f) (meta_topic sv m) (Doc (DFileMeta m)) (bytes_of pw) w"

definition deleteMeta :: "'w services \<Rightarrow> File \<Rightarrow> FileMeta \<Rightarrow> string \<Rightarrow> 'w \<Rightarrow> unit result \<times> 'w" where
  "deleteMeta sv f m pw w = UpdateFeed sv (flUser f) (meta_topic sv m) deleted_mark (bytes_of pw) w"

definition updateMeta :: "'w services \<Rightarrow> File \<Rightarrow> FileMeta \<Rightarrow> string \<Rightarrow> 'w \<Rightarrow> unit result \<times> 'w" where
  "updateMeta sv f m pw w = UpdateFeed sv (flUser f) (meta_topic sv m) (Doc (DFileMeta m)) (bytes_of pw) w"

definition PutMetaForFile :: "'w services \<Rightarrow> File \<Rightarrow> FileMeta \<Rightarrow> string \<Rightarrow> 'w \<Rightarrow> unit result \<times> 'w" where
  "PutMetaForFile = updateMeta"

definition handleMeta :: "'w services \<Rightarrow> File \<Rightarrow> FileMeta \<Rightarrow> string \<Rightarrow> 'w \<Rightarrow> unit result \<times> 'w" where
  "handleMeta sv f m pw w =
     (case GetMetaFromFileName sv (CombinePathAndFile (fPath m) (fName m)) pw (flUser f) w of
        (r, w1) \<Rightarrow>
          if is_ok r \<or> r = Inl ErrDeletedFeed then updateMeta sv f m pw w1
          else uploadMeta sv f m pw w1)"

definition LoadFileMeta ::
  "'w services \<Rightarrow> File \<Rightarrow> string \<Rightarrow> string \<Rightarrow> 'w \<Rightarrow> unit result \<times> File \<times> 'w" where
  "LoadFileMeta sv f fileNameWithPath pw w =
     (case GetMetaFromFileName sv fileNameWithPath pw (flUser f) w of
        (Inl e, w1) \<Rightarrow> if e = ErrDeletedFeed then (Inr (), f, w1) else (Inl e, f, w1)
      | (Inr m, w1) \<Rightarrow> (Inr (), AddToFileMap fileNameWithPath m f, w1))"

text \<open>fmt.Sprintf("%d_%s", now, name), for the decimal digits of a time.\<close>

fun digits :: "nat \<Rightarrow> string" where
  "digits n = (if n < 10 then [char_of (48 + n)] else digits (n div 10) @ [char_of (48 + n mod 10)])"

declare digits.simps [simp del]

definition FormatInt :: "int \<Rightarrow> string" where
  "FormatInt i = (if i < 0 then CHR ''-'' # digits (nat (- i)) else digits (nat i))"

definition BackupFromFileName ::
  "'w services \<Rightarrow> File \<Rightarrow> string \<Rightarrow> string \<Rightarrow> 'w \<Rightarrow> FileMeta result \<times> File \<times> 'w" where
  "BackupFromFileName sv f fileNameWithPath pw w =
     (case GetMetaFromFileName sv fileNameWithPath pw (flUser f) w of
        (Inl e, w1) \<Rightarrow> (Inl e, f, w1)
      | (Inr p, w1) \<Rightarrow>
          (case deleteMeta sv f p pw w1 of
             (Inl e, w2) \<Rightarrow> (Inl e, f, w2)
           | (Inr u, w2) \<Rightarrow>
               (case NowUnix sv w2 of (t1, w3) \<Rightarrow>
                case NowUnix sv w3 of (t2, w4) \<Rightarrow>
                let p' = p\<lparr>fName := FormatInt t1 @ ''_'' @ fName p, fModificationTime := t2\<rparr> in
                case uploadMeta sv f p' pw w4 of
                  (Inl e, w5) \<Rightarrow> (Inl e, f, w5)
                | (Inr u, w5) \<Rightarrow>
                    (Inr p', AddToFileMap (CombinePathAndFile (fPath p') (fName p')) p' f, w5))))"

definition RenameFromFileName ::
  "'w services \<Rightarrow> File \<Rightarrow> string \<Rightarrow> string \<Rightarrow> string \<Rightarrow> 'w \<Rightarrow> FileMeta result \<times> File \<times> 'w" where
  "RenameFromFileName sv f fileNameWithPath newFileNameWithPath pw w =
     (case FileGetInode sv f pw fileNameWithPath w of
        (None, f1, w1) \<Rightarrow> (Inl ErrFileNotFound, f1, w1)
      | (Some p, f1, w1) \<Rightarrow>
          (case deleteMeta sv f1 p pw w1 of
             (Inl e, w2) \<Rightarrow> (Inl e, f1, w2)
           | (Inr u, w2) \<Rightarrow>
               let f2 = RemoveFromFileMap fileNameWithPath f1 in
               (case NowUnix sv w2 of (t, w3) \<Rightarrow>
                let p' = p\<lparr>fName := path_Base newFileNameWithPath, fPath := path_Dir newFileNameWithPath,
                           fModificationTime := t\<rparr> in
                case handleMeta sv f2 p' pw w3 of
                  (Inl e, w4) \<Rightarrow> (Inl e, f2, w4)
                | (Inr u, w4) \<Rightarrow> (Inr p', AddToFileMap newFileNameWithPath p' f2, w4))))"

definition FileChmod ::
  "'w services \<Rightarrow> File \<Rightarrow> string \<Rightarrow> string \<Rightarrow> 32 word \<Rightarrow> 'w \<Rightarrow> unit result \<times> File \<times> 'w" where
  "FileChmod sv f podFileWithPath pw mode w =
     (if IsReadOnlyFeed sv w then (Inl ErrFeedReadOnly, f, w) else
      let totalFilePath = CombinePathAndFile podFileWithPath [] in
      case FileGetInode sv f pw totalFilePath w of
        (None, f1, w1) \<Rightarrow> (Inl ErrFileNotFound, f1, w1)
      | (Some m, f1, w1) \<Rightarrow>
          if fMode m = or S_IFREG mode then (Inr (), f1, w1)
          else
            (case NowUnix sv w1 of (t, w2) \<Rightarrow>
             let m' = m\<lparr>fMode := or S_IFREG mode, fAccessTime := t\<rparr>;
                 f2 = AddToFileMap totalFilePath m' f1 in
             case updateMeta sv f2 m' pw w2 of (r, w3) \<Rightarrow> (r, f2, w3)))"

end
