(* ===== verification/FileReader.thy ===== *)
theory FileReader
  imports FileModel
begin

text \<open>
  pkg/file/reader.go: reading a file through its blocks.  Sizes and offsets are
  natural numbers; the one place where the code's 32-bit subtraction can wrap is
  written with u32_sub.  A slice beyond the length of a block is a panic (Go
  allows it up to the capacity of the slice, which the model does not know).
  Blocks hold bytes; the text of a document is not a block in this model.
  The cache of a reader that asks for one keeps blocks by reference; what the LRU
  evicts is downloaded again, so eviction is left out.
\<close>

section \<open>The reader\<close>

record Reader =
  rdOffset :: nat
  rdBlocks :: "BlockInfo option list"
  rdLast :: "bytes option"
  rdFileSize :: nat
  rdBlockSize :: nat
  rdCursor :: nat
  rdTotal :: nat
  rdCompression :: string
  rdCache :: "(bytes \<rightharpoonup> bytes) option"
  rlBuffer :: "(bytes \<times> nat) option"
  rlOffset :: nat
  rlReadNewLine :: bool

definition NewReader :: "BlockInfo option list \<Rightarrow> nat \<Rightarrow> nat \<Rightarrow> string \<Rightarrow> bool \<Rightarrow> Reader" where
  "NewReader blocks fileSize blockSize compression cache =
     \<lparr>rdOffset = 0, rdBlocks = blocks, rdLast = None, rdFileSize = fileSize, rdBlockSize = blockSize,
      rdCursor = 0, rdTotal = 0, rdCompression = compression,
      rdCache = (if cache then Some Map.empty else None),
      rlBuffer = None, rlOffset = 0, rlReadNewLine = False\<rparr>"

definition u32_sub :: "nat \<Rightarrow> nat \<Rightarrow> nat" where
  "u32_sub a b = (if b \<le> a then a - b else a + 2 ^ 32 - b)"

definition getBlock ::
  "'w services \<Rightarrow> libs \<Rightarrow> Reader \<Rightarrow> bytes \<Rightarrow> 'w \<Rightarrow> bytes result \<times> Reader \<times> 'w" where
  "getBlock sv lb r ref w =
     (case (case rdCache r of None \<Rightarrow> None | Some c \<Rightarrow> c ref) of
        Some d \<Rightarrow> (Inr d, r, w)
      | None \<Rightarrow>
          (case DownloadBlob sv ref w of
             (Inl e, w1) \<Rightarrow> (Inl e, r, w1)
           | (Inr (Raw stdoutBytes, c), w1) \<Rightarrow>
               (case Decompress lb stdoutBytes (rdCompression r) (rdBlockSize r) of
                  Inl e \<Rightarrow> (Inl e, r, w1)
                | Inr d \<Rightarrow> (Inr d, r\<lparr>rdCache := map_option (\<lambda>c. c(ref \<mapsto> d)) (rdCache r)\<rparr>, w1))
           | (Inr (d, c), w1) \<Rightarrow> (Inl (Service ''not the bytes of a block''), r, w1)))"

text \<open>The second half of Read: the block at the current offset is fetched and its
  beginning copied behind the bytes that were read already.  The loop of the code
  ends in its first round, because it sets bytesToRead to zero.\<close>

definition read_block ::
  "'w services \<Rightarrow> libs \<Rightarrow> bytes \<Rightarrow> nat \<Rightarrow> Reader \<Rightarrow> 'w \<Rightarrow> (bytes \<times> goerror option) \<times> Reader \<times> 'w" where
  "read_block sv lb got k r w =
     (if rdBlockSize r = 0 then (([], Some (Panic ''integer divide by zero'')), r, w) else
      let blockIndex = rdOffset r div rdBlockSize r in
      if blockIndex \<ge> length (rdBlocks r) then ((got, Some EOF), r, w) else
      case rdBlocks r ! blockIndex of
        None \<Rightarrow> (([], Some (Panic ''nil pointer dereference'')), r, w)
      | Some bi \<Rightarrow>
          (case getBlock sv lb r (bReference bi) w of
             (Inl e, r1, w1) \<Rightarrow> ((got, Some e), r1, w1)
           | (Inr blk, r1, w1) \<Rightarrow>
               let bs = length blk;
                   n = min k bs;
                   r2 = r1\<lparr>rdBlockSize := bs, rdTotal := rdTotal r1 + n, rdOffset := rdOffset r1 + n,
                           rdLast := (if n = bs then None else Some blk),
                           rdCursor := (if n = bs then 0 else rdCursor r1 + n)\<rparr>
               in ((got @ take n blk, None), r2, w1)))"

text \<open>Read into a buffer of k bytes: the bytes, the error if there is one, and the
  reader after it.\<close>

definition Read ::
  "'w services \<Rightarrow> libs \<Rightarrow> nat \<Rightarrow> Reader \<Rightarrow> 'w \<Rightarrow> (bytes \<times> goerror option) \<times> Reader \<times> 'w" where
  "Read sv lb buflen r w =
     (if rdTotal r \<ge> rdFileSize r then (([], Some EOF), r, w) else
      let k = buflen mod 2 ^ 32 in
      case rdLast r of
        None \<Rightarrow> read_block sv lb [] k r w
      | Some blk \<Rightarrow>
          let remDataSize = u32_sub (rdBlockSize r) (rdCursor r) in
          if k \<le> remDataSize then
            if rdCursor r + k > length blk then (([], Some (Panic ''slice bounds out of range'')), r, w)
            else
              let c = rdCursor r + k;
                  r1 = r\<lparr>rdOffset := rdOffset r + k, rdTotal := rdTotal r + k,
                         rdLast := (if c = rdBlockSize r then None else Some blk),
                         rdCursor := (if c = rdBlockSize r then 0 else c)\<rparr>
              in ((take k (drop (rdCursor r) blk), None), r1, w)
          else if rdCursor r > rdBlockSize r \<or> rdBlockSize r > length blk
            then (([], Some (Panic ''slice bounds out of range'')), r, w)
          else
            let d = take remDataSize (drop (rdCursor r) blk);
                r1 = r\<lparr>rdLast := None, rdCursor := 0, rdOffset := rdOffset r + remDataSize,
                       rdTotal := rdTotal r + remDataSize\<rparr>
            in if rdTotal r1 \<ge> rdFileSize r1 then ((d, Some EOF), r1, w)
               else read_block sv lb d (k - remDataSize) r1 w)"

definition Seek ::
  "'w services \<Rightarrow> libs \<Rightarrow> int \<Rightarrow> Reader \<Rightarrow> 'w \<Rightarrow> nat result \<times> Reader \<times> 'w" where
  "Seek sv lb seekOffset r w =
     (if seekOffset < 0 \<or> seekOffset > int (rdFileSize r) then (Inl ErrInvalidOffset, r, w) else
      let off = nat seekOffset in
      if off \<noteq> 0 \<and> rdBlockSize r = 0 then (Inl (Panic ''integer divide by zero''), r, w) else
      let blockIndex = (if off = 0 then 0 else off div rdBlockSize r);
          blockOffset = (if off = 0 then 0 else off mod rdBlockSize r)
      in if blockIndex \<ge> length (rdBlocks r) then (Inl (Panic ''index out of range''), r, w) else
      case rdBlocks r ! blockIndex of
        None \<Rightarrow> (Inl (Panic ''nil pointer dereference''), r, w)
      | Some bi \<Rightarrow>
          (case getBlock sv lb r (bReference bi) w of
             (Inl e, r1, w1) \<Rightarrow> (Inl e, r1, w1)
           | (Inr blk, r1, w1) \<Rightarrow>
               (Inr off, r1\<lparr>rdLast := Some blk, rdCursor := blockOffset, rdOffset := off,
                            rdBlockSize := length blk, rdTotal := off, rlBuffer := None, rlOffset := 0\<rparr>, w1)))"

definition CloseReader :: "Reader \<Rightarrow> Reader" where
  "CloseReader r = r\<lparr>rdCache := map_option (\<lambda>c. Map.empty) (rdCache r), rlBuffer := None\<rparr>"

text \<open>Reading to the end, as io.ReadAll and bytes.Buffer.ReadFrom do: buffer sizes
  come from the library, the end of the file ends the loop without an error.  The
  first argument bounds the number of calls.\<close>

primrec read_all ::
  "nat \<Rightarrow> 'w services \<Rightarrow> libs \<Rightarrow> nat \<Rightarrow> bytes \<Rightarrow> Reader \<Rightarrow> 'w \<Rightarrow> bytes result \<times> Reader \<times> 'w" where
  "read_all 0 sv lb i acc r w = (Inl (Panic ''out of fuel''), r, w)"
| "read_all (Suc n) sv lb i acc r w =
     (case Read sv lb (BufCap lb i) r w of
        ((d, None), r1, w1) \<Rightarrow> read_all n sv lb (Suc i) (acc @ d) r1 w1
      | ((d, Some e), r1, w1) \<Rightarrow> (if e = EOF then Inr (acc @ d) else Inl e, r1, w1))"

section \<open>Opening a file for reading\<close>

definition inode_of :: "content \<Rightarrow> BlockInfo option list result" where
  "inode_of c =
     (case c of Doc (DFileInode bs) \<Rightarrow> Inr bs | Doc d \<Rightarrow> Inr [] | _ \<Rightarrow> Inl (Errorf ''invalid file inode''))"

definition ReadSeeker ::
  "'w services \<Rightarrow> File \<Rightarrow> string \<Rightarrow> string \<Rightarrow> 'w \<Rightarrow> (Reader \<times> nat) result \<times> File \<times> 'w" where
  "ReadSeeker sv f podFileWithPath pw w =
     (case FileGetInode sv f pw (CombinePathAndFile podFileWithPath []) w of
        (None, f1, w1) \<Rightarrow> (Inl ErrFileNotFound, f1, w1)
      | (Some m, f1, w1) \<Rightarrow>
          (case DownloadBlob sv (fInodeAddress m) w1 of
             (Inl e, w2) \<Rightarrow> (Inl e, f1, w2)
           | (Inr (d, c), w2) \<Rightarrow>
               (case inode_of d of
                  Inl e \<Rightarrow> (Inl e, f1, w2)
                | Inr blocks \<Rightarrow>
                    (Inr (NewReader blocks (unat (fSize m)) (unat (fBlockSize m)) (fCompression m) False,
                          unat (fSize m)), f1, w2))))"

definition Download ::
  "'w services \<Rightarrow> File \<Rightarrow> string \<Rightarrow> string \<Rightarrow> 'w \<Rightarrow> (Reader \<times> nat) result \<times> File \<times> 'w" where
  "Download = ReadSeeker"

text \<open>OpenFileForIndex decrypts the inode before it parses it; open_sealed says what
  decrypting gives.\<close>

definition open_sealed :: "'w services \<Rightarrow> bytes \<Rightarrow> content \<Rightarrow> content result" where
  "open_sealed sv passphrase c =
     (if content_len sv c < 16 then Inl (Errorf ''ciphertext block size is too short'')
      else case c of
        Sealed p d \<Rightarrow> if p = passphrase then Inr d else Inr (Junk passphrase c)
      | _ \<Rightarrow> Inr (Junk passphrase c))"

definition OpenFileForIndex ::
  "'w services \<Rightarrow> File \<Rightarrow> string \<Rightarrow> string \<Rightarrow> 'w \<Rightarrow> Reader result \<times> File \<times> 'w" where
  "OpenFileForIndex sv f podFile pw w =
     (case FileGetInode sv f pw podFile w of
        (None, f1, w1) \<Rightarrow> (Inl ErrFileNotFound, f1, w1)
      | (Some m, f1, w1) \<Rightarrow>
          (case DownloadBlob sv (fInodeAddress m) w1 of
             (Inl e, w2) \<Rightarrow> (Inl e, f1, w2)
           | (Inr (d, c), w2) \<Rightarrow>
               (case open_sealed sv (bytes_of pw) d of
                  Inl e \<Rightarrow> (Inl e, f1, w2)
                | Inr d' \<Rightarrow>
                    (case inode_of d' of
                       Inl e \<Rightarrow> (Inl e, f1, w2)
                     | Inr blocks \<Rightarrow>
                         (Inr (NewReader blocks (unat (fSize m)) (unat (fBlockSize m)) (fCompression m) True), f1, w2)))))"

section \<open>ReadLine\<close>

text \<open>The line buffer is a slice: an array of the block size at the time it was
  made, and the length in use.  scan_line looks for a newline from readOffset on
  and refills the buffer when there is none (the refill keeps the whole array as
  the buffer).  The first argument bounds the number of refills.\<close>

definition pad_to :: "nat \<Rightarrow> bytes \<Rightarrow> bytes" where
  "pad_to n b = take n b @ replicate (n - length b) 0"

fun index_of :: "byte \<Rightarrow> bytes \<Rightarrow> nat option" where
  "index_of c [] = None"
| "index_of c (b # bs) = (if b = c then Some 0 else map_option Suc (index_of c bs))"

definition newline :: byte where "newline = 10"

primrec scan_line ::
  "nat \<Rightarrow> 'w services \<Rightarrow> libs \<Rightarrow> bytes \<Rightarrow> bytes \<times> nat \<Rightarrow> Reader \<Rightarrow> 'w \<Rightarrow> (bytes \<times> goerror option) \<times> Reader \<times> 'w" where
  "scan_line 0 sv lb dest buf r w = (([], Some (Panic ''out of fuel'')), r, w)"
| "scan_line (Suc n) sv lb dest buf r w =
     (case buf of (arr, len) \<Rightarrow>
      let skip = (rlOffset r \<noteq> 0 \<or> rlReadNewLine r);
          readOffset = (if skip then rlOffset r + 1 else rlOffset r);
          r0 = (if skip then r\<lparr>rlReadNewLine := False\<rparr> else r) in
      if readOffset > len then (([], Some (Panic ''slice bounds out of range'')), r0, w) else
      case index_of newline (drop readOffset (take len arr)) of
        Some idx \<Rightarrow>
          let line = dest @ take (idx + 1) (drop readOffset arr);
              r1 = r0\<lparr>rlOffset := readOffset + idx\<rparr>;
              r2 = (if readOffset + idx = 0 \<and> hd arr = newline then r1\<lparr>rlReadNewLine := True\<rparr> else r1);
              r3 = (if len = readOffset + idx + 1 then r2\<lparr>rlBuffer := None, rlOffset := 0\<rparr> else r2)
          in ((line, None), r3, w)
      | None \<Rightarrow>
          if rdBlockSize r0 < readOffset \<or> rdBlockSize r0 > length arr
            then (([], Some (Panic ''slice bounds out of range'')), r0, w)
          else
            let dest1 = dest @ take (rdBlockSize r0 - readOffset) (drop readOffset arr) in
            if rdTotal r0 = rdFileSize r0 then ((dest1, Some EOF), r0, w)
            else
              (case Read sv lb (rdBlockSize r0) r0 w of
                 ((d, Some e), r1, w1) \<Rightarrow> (([], Some e), r1, w1)
               | ((d, None), r1, w1) \<Rightarrow>
                   let buf1 = (pad_to (rdBlockSize r0) d, rdBlockSize r0) in
                   scan_line n sv lb dest1 buf1 (r1\<lparr>rlBuffer := Some buf1, rlOffset := 0\<rparr>) w1))"

definition ReadLine ::
  "nat \<Rightarrow> 'w services \<Rightarrow> libs \<Rightarrow> Reader \<Rightarrow> 'w \<Rightarrow> (bytes \<times> goerror option) \<times> Reader \<times> 'w" where
  "ReadLine n sv lb r w =
     (case rlBuffer r of
        Some buf \<Rightarrow> scan_line n sv lb [] buf r w
      | None \<Rightarrow>
          (case Read sv lb (rdBlockSize r) r w of
             ((d, e), r1, w1) \<Rightarrow>
               if e = None \<or> (e = Some EOF \<and> d \<noteq> [] \<and> List.last d = newline)
               then let buf = (pad_to (rdBlockSize r) d, length d) in
                 scan_line n sv lb [] buf (r1\<lparr>rlBuffer := Some buf, rlOffset := 0\<rparr>) w1
               else (([], e), r1, w1)))"

end
