(* ===== verification/FileRead.thy ===== *)
theory FileRead
  imports FileReader
begin

text \<open>
  Reading a file returns its content: whatever the sizes of the buffers, the calls
  of Read give consecutive pieces of the concatenated blocks, make progress, and
  report the end of the file exactly at the end.
\<close>

section \<open>A sequence of blocks\<close>

definition chunked :: "nat \<Rightarrow> bytes list \<Rightarrow> bool" where
  "chunked B bs \<longleftrightarrow> 0 < B \<and> (\<forall>b \<in> set bs. b \<noteq> [] \<and> length b \<le> B) \<and> (\<forall>b \<in> set (butlast bs). length b = B)"

lemma chunked_pos: "chunked B bs \<Longrightarrow> 0 < B"
  by (simp add: chunked_def)

lemma chunked_nth:
  assumes "chunked B bs" "i < length bs"
  shows "bs ! i \<noteq> []" "length (bs ! i) \<le> B" "Suc i < length bs \<Longrightarrow> length (bs ! i) = B"
proof -
  show "bs ! i \<noteq> []" "length (bs ! i) \<le> B" using assms by (auto simp: chunked_def)
  assume "Suc i < length bs"
  then have "bs ! i = butlast bs ! i" "i < length (butlast bs)" by (simp_all add: nth_butlast)
  with assms show "length (bs ! i) = B" unfolding chunked_def by (metis nth_mem)
qed

lemma length_concat_take:
  assumes "chunked B bs" "i < length bs" shows "length (concat (take i bs)) = i * B"
  using assms(2)
proof (induction i)
  case (Suc i)
  then have "length (bs ! i) = B" using chunked_nth(3) [OF assms(1), of i] by simp
  with Suc show ?case by (simp add: take_Suc_conv_app_nth)
qed simp

lemma drop_concat_block:
  assumes "chunked B bs" "i < length bs"
  shows "drop (i * B) (concat bs) = bs ! i @ concat (drop (Suc i) bs)"
proof -
  have "concat bs = concat (take i bs) @ concat (drop i bs)" by (metis append_take_drop_id concat_append)
  with length_concat_take [OF assms] have "drop (i * B) (concat bs) = concat (drop i bs)" by simp
  with assms(2) show ?thesis by (simp add: Cons_nth_drop_Suc [symmetric])
qed

lemma length_concat_block:
  assumes "chunked B bs" "i < length bs"
  shows "length (concat bs) = i * B + length (bs ! i) + length (concat (drop (Suc i) bs))"
proof -
  have "length (concat bs) - i * B = length (bs ! i) + length (concat (drop (Suc i) bs))"
    using arg_cong [OF drop_concat_block [OF assms], of length] by simp
  moreover have "i * B \<le> length (concat bs)"
    using length_concat_take [OF assms] by (metis append_take_drop_id concat_append le_add1 length_append)
  ultimately show ?thesis by simp
qed

lemma block_index:
  assumes "chunked B bs" "off < length (concat bs)" shows "off div B < length bs"
proof (rule ccontr)
  assume "\<not> off div B < length bs"
  then have le: "length bs * B \<le> off"
    using chunked_pos [OF assms(1)] by (metis div_times_less_eq_dividend leI mult_le_mono1 order_trans)
  have "\<forall>b \<in> set bs. length b \<le> B" using assms(1) by (simp add: chunked_def)
  then have "length (concat bs) \<le> length bs * B" by (induction bs) auto
  with le assms(2) show False by simp
qed

lemma last_block_end:
  assumes "chunked B bs" "i < length bs" "i * B + length (bs ! i) < length (concat bs)"
  shows "Suc i < length bs" "length (bs ! i) = B"
proof -
  show "Suc i < length bs"
  proof (rule ccontr)
    assume "\<not> Suc i < length bs"
    then have "drop (Suc i) bs = []" by simp
    with length_concat_block [OF assms(1,2)] assms(3) show False by simp
  qed
  then show "length (bs ! i) = B" using chunked_nth(3) [OF assms(1,2)] by simp
qed

section \<open>Stored blocks and the reader on them\<close>

definition blocks_at :: "libs \<Rightarrow> blobview \<Rightarrow> string \<Rightarrow> BlockInfo option list \<Rightarrow> bytes list \<Rightarrow> bool" where
  "blocks_at lb V cmp blocks bs \<longleftrightarrow>
     length blocks = length bs \<and>
     (\<forall>i < length bs. \<exists>bi z. blocks ! i = Some bi \<and> V (bReference bi) = Some (Raw z)
        \<and> (\<forall>n. Decompress lb z cmp n = Inr (bs ! i)))"

definition reader_at :: "nat \<Rightarrow> bytes list \<Rightarrow> Reader \<Rightarrow> nat \<Rightarrow> bool" where
  "reader_at B bs r off \<longleftrightarrow>
     rdTotal r = off \<and> rdOffset r = off \<and> rdFileSize r = length (concat bs) \<and> off \<le> length (concat bs)
     \<and> rdCache r = None
     \<and> (case rdLast r of
          None \<Rightarrow> rdCursor r = 0 \<and> (off < length (concat bs) \<longrightarrow> rdBlockSize r = B \<and> B dvd off)
        | Some blk \<Rightarrow> \<exists>i < length bs. blk = bs ! i \<and> rdBlockSize r = length blk
            \<and> off = i * B + rdCursor r \<and> rdCursor r < length blk)"

definition same_file :: "Reader \<Rightarrow> Reader \<Rightarrow> bool" where
  "same_file r r' \<longleftrightarrow> rdBlocks r' = rdBlocks r \<and> rdCompression r' = rdCompression r"

lemma same_file_simps [simp]:
  "same_file r r"
  by (simp add: same_file_def)

lemma reader_at_new:
  "chunked B bs \<Longrightarrow> reader_at B bs (NewReader blocks (length (concat bs)) B cmp False) 0"
  by (simp add: reader_at_def NewReader_def)

lemma take_piece: "n \<le> length b \<Longrightarrow> drop off C = b @ rest \<Longrightarrow> take n b = take n (drop off C)"
  by simp

context storage
begin

lemma getBlock_ok:
  assumes "inv b w" "blocks_at lb (blobs w) (rdCompression r) (rdBlocks r) bs" "i < length bs" "rdCache r = None"
  obtains bi w' where "rdBlocks r ! i = Some bi" "getBlock sv lb r (bReference bi) w = (Inr (bs ! i), r, w')"
    "inv b w'" "feeds w' = feeds w" "blobs w' = blobs w"
proof -
  from assms(2,3) obtain bi z where bi: "rdBlocks r ! i = Some bi" "blobs w (bReference bi) = Some (Raw z)"
    "\<forall>n. Decompress lb z (rdCompression r) n = Inr (bs ! i)" by (auto simp: blocks_at_def)
  obtain q w' where d: "DownloadBlob sv (bReference bi) w = (q, w')" by fastforce
  from download_blob [OF assms(1) d] bi(2) have 1: "q = Inr (Raw z, 200)" "inv b w'" "feeds w' = feeds w" "blobs w' = blobs w"
    by auto
  show thesis
    by (rule that [OF bi(1) _ 1(2-4)]) (use assms(4) d 1(1) bi(3) in \<open>simp add: getBlock_def\<close>)
qed

lemma read_block_ok:
  assumes b: "inv b w" and st: "blocks_at lb (blobs w) (rdCompression r) (rdBlocks r) bs" and ch: "chunked B bs"
    and r: "reader_at B bs r off" "rdLast r = None" and off: "off < length (concat bs)"
  obtains d r' w' where "read_block sv lb got k r w = ((got @ d, None), r', w')" "inv b w'"
    "feeds w' = feeds w" "blobs w' = blobs w" "same_file r r'" "length d \<le> k" "0 < k \<Longrightarrow> d \<noteq> []"
    "d = take (length d) (drop off (concat bs))" "reader_at B bs r' (off + length d)"
proof -
  from r off have B: "rdBlockSize r = B" "B dvd off" and r0: "rdTotal r = off" "rdOffset r = off"
    "rdFileSize r = length (concat bs)" "rdCache r = None" "rdCursor r = 0"
    by (auto simp: reader_at_def)
  define i where "i = off div B"
  have i: "i < length bs" "i * B = off" using block_index [OF ch off] B(2) by (simp_all add: i_def)
  have lb: "length (rdBlocks r) = length bs" using st by (simp add: blocks_at_def)
  obtain bi w' where g: "rdBlocks r ! i = Some bi" "getBlock sv lb r (bReference bi) w = (Inr (bs ! i), r, w')"
    "inv b w'" "feeds w' = feeds w" "blobs w' = blobs w"
    by (rule getBlock_ok [OF b st i(1) r0(4)])
  let ?blk = "bs ! i" and ?n = "min k (length (bs ! i))"
  let ?d = "take ?n ?blk"
  define r' where "r' = r\<lparr>rdBlockSize := length ?blk, rdTotal := off + ?n, rdOffset := off + ?n,
      rdLast := (if ?n = length ?blk then None else Some ?blk), rdCursor := (if ?n = length ?blk then 0 else ?n)\<rparr>"
  have run: "read_block sv lb got k r w = ((got @ ?d, None), r', w')"
    using chunked_pos [OF ch] i(1) g(1,2)
    by (simp add: read_block_def Let_def B(1) r0 lb r'_def flip: i_def)
  note dc = drop_concat_block [OF ch i(1), unfolded i(2)] and lc = length_concat_block [OF ch i(1), unfolded i(2)]
  have piece: "?d = take (length ?d) (drop off (concat bs))"
    unfolding dc by (simp add: min_def)
  have ra: "reader_at B bs r' (off + length ?d)"
  proof (cases "?n = length ?blk")
    case True
    have "length ?blk = B \<and> B dvd off + length ?blk" if "off + length ?blk < length (concat bs)"
    proof -
      have "length ?blk = B" using last_block_end(2) [OF ch i(1)] that i(2) by simp
      then show ?thesis using B(2) by simp
    qed
    with True lc B(2) show ?thesis by (simp add: reader_at_def r'_def r0)
  next
    case False
    with lc i show ?thesis by (auto simp: reader_at_def r'_def r0 intro!: exI [of _ i])
  qed
  show thesis
    by (rule that [OF run g(3-5) _ _ _ piece ra])
       (use chunked_nth(1) [OF ch i(1)] in \<open>auto simp: same_file_def r'_def\<close>)
qed

lemma Read_ok:
  assumes b: "inv b w" and st: "blocks_at lb (blobs w) (rdCompression r) (rdBlocks r) bs" and ch: "chunked B bs"
    and r: "reader_at B bs r off" and k: "0 < k" "k < 2 ^ 32"
  obtains d e r' w' where "Read sv lb k r w = ((d, e), r', w')" "inv b w'"
    "feeds w' = feeds w" "blobs w' = blobs w" "same_file r r'" "length d \<le> k"
    "d = take (length d) (drop off (concat bs))" "reader_at B bs r' (off + length d)"
    "e = None \<Longrightarrow> d \<noteq> []" "e \<noteq> None \<Longrightarrow> e = Some EOF \<and> off + length d = length (concat bs)"
proof (cases "off = length (concat bs)")
  case True
  with r have "Read sv lb k r w = (([], Some EOF), r, w)" by (simp add: Read_def reader_at_def)
  from that [OF this b] r True show thesis by simp
next
  case False
  with r have off: "off < length (concat bs)" by (simp add: reader_at_def)
  have r0: "rdTotal r = off" "rdOffset r = off" "rdFileSize r = length (concat bs)" "rdCache r = None"
    using r by (simp_all add: reader_at_def)
  have km: "k mod 2 ^ 32 = k" using k(2) by simp
  show thesis
  proof (cases "rdLast r")
    case None
    obtain d r' w' where g: "read_block sv lb [] k r w = (([] @ d, None), r', w')" "inv b w'"
      "feeds w' = feeds w" "blobs w' = blobs w" "same_file r r'" "length d \<le> k" "0 < k \<Longrightarrow> d \<noteq> []"
      "d = take (length d) (drop off (concat bs))" "reader_at B bs r' (off + length d)"
      by (rule read_block_ok [OF b st ch r None off, of "[]" k]) blast
    have "Read sv lb k r w = ((d, None), r', w')" using g(1) off None r0 km by (simp add: Read_def Let_def)
    from that [OF this g(2-6) g(8,9)] g(7) k(1) show thesis by simp
  next
    case (Some blk)
    then obtain i where i: "i < length bs" "blk = bs ! i" "rdBlockSize r = length blk" "off = i * B + rdCursor r"
      "rdCursor r < length blk" using r by (auto simp: reader_at_def)
    let ?c = "rdCursor r"
    note dc = drop_concat_block [OF ch i(1)] and lc = length_concat_block [OF ch i(1)]
    have dr: "drop off (concat bs) = drop ?c blk @ concat (drop (Suc i) bs)"
    proof -
      have "drop off (concat bs) = drop ?c (drop (i * B) (concat bs))" using i(4) by (simp add: add.commute)
      also have "\<dots> = drop ?c blk @ concat (drop (Suc i) bs)" unfolding dc using i(2,5) by simp
      finally show ?thesis .
    qed
    have rem: "u32_sub (rdBlockSize r) ?c = length blk - ?c" using i(3,5) by (simp add: u32_sub_def)
    have next_block: "length blk = B \<and> B dvd i * B + length blk" if "i * B + length blk < length (concat bs)"
      using last_block_end(2) [OF ch i(1)] that i(2) by simp
    show thesis
    proof (cases "k \<le> length blk - ?c")
      case True
      let ?d = "take k (drop ?c blk)"
      define r' where "r' = r\<lparr>rdOffset := off + k, rdTotal := off + k,
          rdLast := (if ?c + k = length blk then None else Some blk),
          rdCursor := (if ?c + k = length blk then 0 else ?c + k)\<rparr>"
      have ld: "length ?d = k" using True by simp
      have run: "Read sv lb k r w = ((?d, None), r', w)"
        using off Some r0 km rem True i(3,5) by (simp add: Read_def Let_def r'_def)
      have ra: "reader_at B bs r' (off + length ?d)"
      proof (cases "?c + k = length blk")
        case True
        then have "off + k = i * B + length blk" using i(4) by simp
        with True ld lc next_block i(2) show ?thesis by (simp add: reader_at_def r'_def r0 i(3))
      next
        case False
        with \<open>k \<le> length blk - ?c\<close> ld lc i show ?thesis
          by (auto simp: reader_at_def r'_def r0 intro!: exI [of _ i])
      qed
      have piece: "?d = take (length ?d) (drop off (concat bs))" unfolding dr using ld True by simp
      have sf: "same_file r r'" by (simp add: same_file_def r'_def)
      show thesis by (rule that [OF run b refl refl sf _ piece ra]) (use k(1) ld in auto)
    next
      case False
      let ?m = "length blk - ?c"
      let ?d = "drop ?c blk"
      define r1 where "r1 = r\<lparr>rdLast := None, rdCursor := 0, rdOffset := off + ?m, rdTotal := off + ?m\<rparr>"
      have om: "off + ?m = i * B + length blk" using i(4,5) by simp
      have le: "i * B + length blk \<le> length (concat bs)" using lc i(2) by simp
      have ra1: "reader_at B bs r1 (off + ?m)"
        using next_block le i(3) unfolding om by (simp add: reader_at_def r1_def r0 om)
      have piece: "?d = take ?m (drop off (concat bs))" unfolding dr using i(5) by simp
      show thesis
      proof (cases "off + ?m = length (concat bs)")
        case True
        have run: "Read sv lb k r w = ((?d, Some EOF), r1, w)"
          using off Some r0 km rem False i(3,5) True by (simp add: Read_def Let_def r1_def)
        from that [OF run b refl refl] piece ra1 True False show thesis by (auto simp: same_file_def r1_def)
      next
        case nend: False
        with le om have off1: "off + ?m < length (concat bs)" by simp
        have st1: "blocks_at lb (blobs w) (rdCompression r1) (rdBlocks r1) bs" using st by (simp add: r1_def)
        obtain d r' w' where g: "read_block sv lb ?d (k - ?m) r1 w = ((?d @ d, None), r', w')" "inv b w'"
          "feeds w' = feeds w" "blobs w' = blobs w" "same_file r1 r'" "length d \<le> k - ?m" "0 < k - ?m \<Longrightarrow> d \<noteq> []"
          "d = take (length d) (drop (off + ?m) (concat bs))" "reader_at B bs r' (off + ?m + length d)"
          by (rule read_block_ok [OF b st1 ch ra1 _ off1, of ?d "k - ?m"]) (simp add: r1_def, rule that)
        have run: "Read sv lb k r w = ((?d @ d, None), r', w')"
          using off Some r0 km rem False i(3,5) off1 g(1) by (simp add: Read_def Let_def r1_def)
        have ld: "length (?d @ d) = ?m + length d" by simp
        then have all: "?d @ d = take (length (?d @ d)) (drop off (concat bs))"
          by (simp only: take_add drop_drop add.commute [of ?m off] piece [symmetric] g(8) [symmetric])
        have sf: "same_file r r'" using g(5) by (simp add: same_file_def r1_def)
        have "off + length (?d @ d) = off + ?m + length d" by simp
        then have ra: "reader_at B bs r' (off + length (?d @ d))" using g(9) by (simp only:)
        have "length (?d @ d) \<le> k" using ld g(6) False by simp
        moreover have "?d \<noteq> []" using i(5) by simp
        ultimately show thesis by (intro that [OF run g(2-4) sf _ all ra]) simp_all
      qed
    qed
  qed
qed

text \<open>Reading to the end from any offset gives the rest of the content.\<close>

lemma read_all_ok:
  "\<lbrakk>inv b w; blocks_at lb (blobs w) (rdCompression r) (rdBlocks r) bs; chunked B bs; reader_at B bs r off;
    \<forall>i. 0 < BufCap lb i \<and> BufCap lb i < 2 ^ 32; length (concat bs) - off < n\<rbrakk> \<Longrightarrow>
   \<exists>r' w'. read_all n sv lb i acc r w = (Inr (acc @ drop off (concat bs)), r', w') \<and> inv b w'
     \<and> feeds w' = feeds w \<and> blobs w' = blobs w"
proof (induction n arbitrary: i acc r w off)
  case (Suc n)
  have k: "0 < BufCap lb i" "BufCap lb i < 2 ^ 32" using Suc.prems(5) by simp_all
  obtain d e r' w' where g: "Read sv lb (BufCap lb i) r w = ((d, e), r', w')" "inv b w'"
    "feeds w' = feeds w" "blobs w' = blobs w" "same_file r r'" "length d \<le> BufCap lb i"
    "d = take (length d) (drop off (concat bs))" "reader_at B bs r' (off + length d)"
    "e = None \<Longrightarrow> d \<noteq> []" "e \<noteq> None \<Longrightarrow> e = Some EOF \<and> off + length d = length (concat bs)"
    by (rule Read_ok [OF Suc.prems(1-4) k]) (rule that)
  have split: "drop off (concat bs) = d @ drop (off + length d) (concat bs)"
    using g(7) by (metis append_take_drop_id drop_drop add.commute)
  show ?case
  proof (cases e)
    case None
    have "off + length d \<le> length (concat bs)" using g(8) by (simp add: reader_at_def)
    with g(9) [OF None] Suc.prems(6) have "length (concat bs) - (off + length d) < n" by (cases d) auto
    moreover have "blocks_at lb (blobs w') (rdCompression r') (rdBlocks r') bs"
      using Suc.prems(2) g(4,5) by (simp add: same_file_def)
    ultimately obtain r'' w'' where "read_all n sv lb (Suc i) (acc @ d) r' w' =
        (Inr ((acc @ d) @ drop (off + length d) (concat bs)), r'', w'')" "inv b w''" "feeds w'' = feeds w'" "blobs w'' = blobs w'"
      using Suc.IH [OF g(2) _ Suc.prems(3) g(8) Suc.prems(5)] by blast
    with g(1,3,4) None split show ?thesis by simp
  next
    case (Some x)
    with g(10) have "x = EOF" "drop (off + length d) (concat bs) = []" by simp_all
    with g(1-4) Some split show ?thesis by simp
  qed
qed simp

end

end
