(* ===== verification/FileUpload.thy ===== *)
theory FileUpload
  imports FileRead
begin

text \<open>
  pkg/file/upload.go, writeAt.go, rm.go, ls.go and stat.go.  The goroutine that
  cuts the data into blocks starts one worker per block.  In the model the worker
  of a block runs when it is started; what the schedule decides is whether the
  cutting loop sees the worker's error: late i says that the worker of block i
  ends after the loop's last look at mainErr.
\<close>

section \<open>Upload\<close>

text \<open>Reads of at most n bytes from a source that hands out the given pieces (a
  bufio.Reader passes a read of at least its buffer size on to the source).\<close>

function source_reads :: "nat \<Rightarrow> bytes list \<Rightarrow> bytes list" where
  "source_reads n [] = []"
| "source_reads n (c # cs) =
     (if n = 0 \<or> length c \<le> n then c # source_reads n cs
      else take n c # source_reads n (drop n c # cs))"
  by pat_completeness auto
termination
  by (relation "measure (\<lambda>(n, cs). length (concat cs) + length cs)") auto

record upload =
  upErr :: "goerror option"
  upRefs :: "(nat \<times> BlockInfo) list"
  upTotal :: nat
  upHead :: bytes
  upType :: string

definition sniff :: "libs \<Rightarrow> bytes \<Rightarrow> bytes \<times> string \<Rightarrow> bytes \<times> string" where
  "sniff lb d ht =
     (case ht of (h, t) \<Rightarrow>
      if length h < 512 then
        let h' = h @ d in (h', if length h' \<ge> 512 then DetectContentType lb (take 512 h') else t)
      else (h, t))"

text \<open>The worker of one block: sz is the size that the block's record gets.\<close>

definition upload_block ::
  "'w services \<Rightarrow> libs \<Rightarrow> (nat \<Rightarrow> bool) \<Rightarrow> string \<Rightarrow> nat \<Rightarrow> nat \<Rightarrow> bytes \<Rightarrow> nat
    \<Rightarrow> goerror option \<times> (nat \<times> BlockInfo) list \<Rightarrow> 'w
    \<Rightarrow> (goerror option \<times> (nat \<times> BlockInfo) list) \<times> 'w" where
  "upload_block sv lb late compression blockSize counter dat sz st w =
     (case st of (mainErr, refs) \<Rightarrow>
      let failed = (\<lambda>e. if late counter then mainErr else Some e) in
      case (if compression \<noteq> [] then Compress lb dat compression blockSize else Inr dat) of
        Inl e \<Rightarrow> ((failed e, refs), w)
      | Inr uploadData \<Rightarrow>
          (case UploadBlob sv (Raw uploadData) w of
             (Inl e, w1) \<Rightarrow> ((failed e, refs), w1)
           | (Inr addr, w1) \<Rightarrow>
               ((mainErr, (counter, \<lparr>bSize = of_nat sz, bCompressedSize = of_nat (length uploadData),
                   bReference = addr\<rparr>) # refs), w1)))"

primrec upload_loop ::
  "'w services \<Rightarrow> libs \<Rightarrow> (nat \<Rightarrow> bool) \<Rightarrow> string \<Rightarrow> nat \<Rightarrow> nat \<Rightarrow> nat \<Rightarrow> bytes list \<Rightarrow> upload \<Rightarrow> 'w
    \<Rightarrow> upload result \<times> 'w" where
  "upload_loop sv lb late compression blockSize fileSize i [] u w =
     (case upErr u of
        Some e \<Rightarrow> (Inl e, w)
      | None \<Rightarrow> (if upTotal u < fileSize then Inl errFileLength else Inr u, w))"
| "upload_loop sv lb late compression blockSize fileSize i (dat # ds) u w =
     (case upErr u of
        Some e \<Rightarrow> (Inl e, w)
      | None \<Rightarrow>
          (case sniff lb dat (upHead u, upType u) of (h, t) \<Rightarrow>
           case upload_block sv lb late compression blockSize i dat (length dat) (upErr u, upRefs u) w of
             ((err, refs), w1) \<Rightarrow>
               upload_loop sv lb late compression blockSize fileSize (Suc i) ds
                 \<lparr>upErr = err, upRefs = refs, upTotal = upTotal u + length dat, upHead = h, upType = t\<rparr> w1))"

definition Upload ::
  "'w services \<Rightarrow> libs \<Rightarrow> (nat \<Rightarrow> bool) \<Rightarrow> File \<Rightarrow> bytes list \<Rightarrow> string \<Rightarrow> 64 word \<Rightarrow> 32 word \<Rightarrow> 32 word
    \<Rightarrow> string \<Rightarrow> string \<Rightarrow> string \<Rightarrow> 'w \<Rightarrow> unit result \<times> File \<times> 'w" where
  "Upload sv lb late f fd podFileName fileSize blockSize mode podPath compression pw w =
     (if unat blockSize < MinBlockSize \<or> unat blockSize > MaxBlockSize then (Inl ErrInvalidBlockSize, f, w) else
      case NowUnix sv w of (now, w1) \<Rightarrow>
      case upload_loop sv lb late compression (unat blockSize) (unat fileSize) 0
             (source_reads (unat blockSize) fd)
             \<lparr>upErr = None, upRefs = [], upTotal = 0, upHead = [], upType = []\<rparr> w1 of
        (Inl e, w2) \<Rightarrow> (Inl e, f, w2)
      | (Inr u, w2) \<Rightarrow>
          let blocks = map (map_of (upRefs u)) [0..<length (upRefs u)] in
          (case UploadBlob sv (Doc (DFileInode blocks)) w2 of
             (Inl e, w3) \<Rightarrow> (Inl e, f, w3)
           | (Inr addr, w3) \<Rightarrow>
               let m = \<lparr>fVersion = FileMetaVersion, fPath = podPath, fName = podFileName, fSize = fileSize,
                        fBlockSize = blockSize, fContentType = upType u, fCompression = compression,
                        fCreationTime = now, fAccessTime = now, fModificationTime = now,
                        fInodeAddress = addr, fMode = (if mode = 0 then or S_IFREG defaultMode else mode)\<rparr> in
               (case handleMeta sv f m pw w3 of
                  (Inl e, w4) \<Rightarrow> (Inl e, f, w4)
                | (Inr v, w4) \<Rightarrow> (Inr (), AddToFileMap (CombinePathAndFile (fPath m) (fName m)) m f, w4))))"

section \<open>WriteAt\<close>

text \<open>A read of n bytes from a bytes.Buffer: what it gives, and the end-of-file error
  when the buffer is empty and n is not zero.\<close>

definition buf_read :: "nat \<Rightarrow> bytes \<Rightarrow> bytes option \<times> bytes" where
  "buf_read n b = (if b = [] \<and> n \<noteq> 0 then (None, []) else (Some (take n b), drop n b))"

text \<open>The state of the cutting loop of WriteAt: the old content from the current
  position on, the rest of the update, the position, the next block, and the
  content type seen so far.\<close>

record cutting =
  ctReader :: bytes
  ctUpdater :: bytes
  ctTotal :: nat
  ctBlock :: nat
  ctErr :: "goerror option"
  ctRefs :: "(nat \<times> BlockInfo) list"
  ctHead :: bytes
  ctType :: string

text \<open>The data of one block: what is before the offset, then the update, then the
  old content after it, which is read into a buffer of the missing size.  The
  result has the data, the length of the last read, and what is left; None is
  an end of file inside the block.\<close>

definition cut_block ::
  "nat \<Rightarrow> nat \<Rightarrow> nat \<Rightarrow> nat \<Rightarrow> nat \<Rightarrow> bool \<Rightarrow> bytes \<Rightarrow> bytes \<Rightarrow> nat \<Rightarrow> (bytes \<times> nat \<times> bytes \<times> bytes \<times> nat) option" where
  "cut_block B dataSize offset endofst blockOffset trunc rd up total0 =
     (case (if total0 < offset then
              (case buf_read blockOffset rd of
                 (None, r) \<Rightarrow> None | (Some d, r) \<Rightarrow> Some (d, length d, r, total0 + length d))
            else Some ([], 0, rd, total0)) of
        None \<Rightarrow> None
      | Some (d1, n1, rd1, total1) \<Rightarrow>
          (case (if total1 \<ge> offset \<and> total1 < endofst \<and> length d1 \<noteq> B then
                   (case buf_read (u32_sub B n1) up of
                      (None, r) \<Rightarrow> None
                    | (Some d, u) \<Rightarrow> Some (d1 @ d, length d, drop (length d) rd1, u, total1 + length d))
                 else Some (d1, n1, rd1, up, total1)) of
             None \<Rightarrow> None
           | Some (d2, n2, rd2, up2, total2) \<Rightarrow>
               if length d2 \<noteq> B \<and> \<not> trunc \<and> total2 < dataSize then
                 let sz = (if dataSize < B then dataSize else B); k = u32_sub sz (length d2) in
                 (case buf_read k rd2 of
                    (None, r) \<Rightarrow> None
                  | (Some d, r) \<Rightarrow> Some (d2 @ d @ replicate (k - length d) 0, length d, r, up2, total2 + length d))
               else Some (d2, n2, rd2, up2, total2)))"

primrec cut_loop ::
  "nat \<Rightarrow> 'w services \<Rightarrow> libs \<Rightarrow> (nat \<Rightarrow> bool) \<Rightarrow> FileMeta \<Rightarrow> nat \<Rightarrow> nat \<Rightarrow> nat \<Rightarrow> nat \<Rightarrow> bool \<Rightarrow> cutting \<Rightarrow> 'w
    \<Rightarrow> unit result \<times> cutting \<times> 'w" where
  "cut_loop 0 sv lb late m dataSize newDataSize offset endofst trunc c w = (Inl (Panic ''out of fuel''), c, w)"
| "cut_loop (Suc n) sv lb late m dataSize newDataSize offset endofst trunc c w =
     (let B = unat (fBlockSize m) in
      if \<not> (ctTotal c < newDataSize \<and> ctUpdater c \<noteq> []) then (Inr (), c, w) else
      case ctErr c of
        Some e \<Rightarrow> (Inl e, c, w)
      | None \<Rightarrow>
          (case cut_block B dataSize offset endofst (offset mod B) trunc (ctReader c) (ctUpdater c) (ctTotal c) of
             None \<Rightarrow> (if ctTotal c < unat (fSize m) then Inl errFileLength else Inr (), c, w)
           | Some (d, k, rd, up, tot) \<Rightarrow>
               (case sniff lb (take k d) (ctHead c, ctType c) of (h, t) \<Rightarrow>
                case upload_block sv lb late (fCompression m) B (ctBlock c) d k (ctErr c, ctRefs c) w of
                  ((err, refs), w1) \<Rightarrow>
                    cut_loop n sv lb late m dataSize newDataSize offset endofst trunc
                      \<lparr>ctReader = rd, ctUpdater = up, ctTotal = tot, ctBlock = Suc (ctBlock c),
                       ctErr = err, ctRefs = refs, ctHead = h, ctType = t\<rparr> w1)))"

text \<open>The new list of blocks: refMap starts with the old blocks, a written block
  replaces the one with its number.\<close>

definition new_blocks :: "BlockInfo option list \<Rightarrow> (nat \<times> BlockInfo) list \<Rightarrow> bool \<Rightarrow> nat \<Rightarrow> BlockInfo option list" where
  "new_blocks old refs trunc i =
     (let refMap = (\<lambda>j. case map_of refs j of
            Some b \<Rightarrow> Some b | None \<Rightarrow> if j < length old then old ! j else None);
          n = length old + length (remdups (filter (\<lambda>j. j \<ge> length old) (map fst refs)))
      in map refMap [0..<(if trunc \<and> i < n then Suc i else n)])"

definition WriteAt ::
  "'w services \<Rightarrow> libs \<Rightarrow> (nat \<Rightarrow> bool) \<Rightarrow> File \<Rightarrow> string \<Rightarrow> string \<Rightarrow> bytes \<Rightarrow> nat \<Rightarrow> bool \<Rightarrow> 'w
    \<Rightarrow> nat result \<times> File \<times> 'w" where
  "WriteAt sv lb late f podFileWithPath pw update offset trunc w =
     (let totalFilePath = CombinePathAndFile podFileWithPath [] in
      case FileGetInode sv f pw totalFilePath w of
        (None, f1, w1) \<Rightarrow> (Inl ErrFileNotFound, f1, w1)
      | (Some m, f1, w1) \<Rightarrow>
          (case DownloadBlob sv (fInodeAddress m) w1 of
             (Inl e, w2) \<Rightarrow> (Inl e, f1, w2)
           | (Inr (ino, c), w2) \<Rightarrow>
               (case inode_of ino of
                  Inl e \<Rightarrow> (Inl e, f1, w2)
                | Inr blocks \<Rightarrow>
                    (case read_all (Suc (unat (fSize m))) sv lb 0 []
                            (NewReader blocks (unat (fSize m)) (unat (fBlockSize m)) (fCompression m) False) w2 of
                       (Inl e, r, w3) \<Rightarrow> (Inl e, f1, w3)
                     | (Inr old, r, w3) \<Rightarrow>
                         let dataSize = length old; updaterSize = length update;
                             endofst = offset + updaterSize;
                             newDataSize = (if endofst > dataSize then endofst
                                            else if trunc then updaterSize else dataSize);
                             B = unat (fBlockSize m) in
                         if offset > dataSize then (Inl (Errorf ''wrong offset''), f1, w3)
                         else if B = 0 then (Inl (Panic ''integer divide by zero''), f1, w3)
                         else
                           (case cut_loop (Suc updaterSize) sv lb late m dataSize newDataSize offset endofst trunc
                                  \<lparr>ctReader = drop (offset div B * B) old, ctUpdater = update,
                                   ctTotal = offset div B * B, ctBlock = offset div B, ctErr = None, ctRefs = [],
                                   ctHead = [], ctType = fContentType m\<rparr> w3 of
                              (Inl e, ct, w4) \<Rightarrow>
                                (Inl e, AddToFileMap totalFilePath (m\<lparr>fContentType := ctType ct\<rparr>) f1, w4)
                            | (Inr u, ct, w4) \<Rightarrow>
                                (case UploadBlob sv (Doc (DFileInode (new_blocks blocks (ctRefs ct) trunc (ctBlock ct)))) w4 of
                                   (Inl e, w5) \<Rightarrow> (Inl e, AddToFileMap totalFilePath (m\<lparr>fContentType := ctType ct\<rparr>) f1, w5)
                                 | (Inr addr, w5) \<Rightarrow>
                                     let m' = m\<lparr>fContentType := ctType ct, fInodeAddress := addr,
                                                fSize := of_nat newDataSize\<rparr>;
                                         f2 = AddToFileMap totalFilePath m' f1 in
                                     (case handleMeta sv f2 m' pw w5 of
                                        (Inl e, w6) \<Rightarrow> (Inl e, f2, w6)
                                      | (Inr v, w6) \<Rightarrow>
                                          (Inr updaterSize,
                                           AddToFileMap (CombinePathAndFile (fPath m') (fName m')) m' f2, w6))))))))"

section \<open>Removing, listing, stat\<close>

fun delete_blocks :: "'w services \<Rightarrow> BlockInfo option list \<Rightarrow> 'w \<Rightarrow> unit result \<times> 'w" where
  "delete_blocks sv [] w = (Inr (), w)"
| "delete_blocks sv (None # bs) w = (Inl (Panic ''nil pointer dereference''), w)"
| "delete_blocks sv (Some b # bs) w =
     (case DeleteReference sv (bReference b) w of
        (Inl e, w1) \<Rightarrow> (Inl (Errorf ''could not delete file inode''), w1)
      | (Inr u, w1) \<Rightarrow> delete_blocks sv bs w1)"

definition RmFile ::
  "'w services \<Rightarrow> File \<Rightarrow> string \<Rightarrow> string \<Rightarrow> 'w \<Rightarrow> unit result \<times> File \<times> 'w" where
  "RmFile sv f podFileWithPath pw w =
     (let totalFilePath = CombinePathAndFile podFileWithPath [] in
      case FileGetInode sv f pw totalFilePath w of
        (None, f1, w1) \<Rightarrow> (Inl ErrFileNotFound, f1, w1)
      | (Some m, f1, w1) \<Rightarrow>
          (case DownloadBlob sv (fInodeAddress m) w1 of
             (Inl e, w2) \<Rightarrow> (Inl e, f1, w2)
           | (Inr (ino, respCode), w2) \<Rightarrow>
               if respCode \<noteq> 200 then (Inl (Errorf ''could not remove blocks''), f1, w2) else
               (case inode_of ino of
                  Inl e \<Rightarrow> (Inl (Errorf ''could not unmarshall data''), f1, w2)
                | Inr blocks \<Rightarrow>
                    (case DeleteReference sv (fInodeAddress m) w2 of
                       (Inl e, w3) \<Rightarrow> (Inl (Errorf ''could not delete file inode''), f1, w3)
                     | (Inr u, w3) \<Rightarrow>
                         (case delete_blocks sv blocks w3 of
                            (Inl e, w4) \<Rightarrow> (Inl e, f1, w4)
                          | (Inr u, w4) \<Rightarrow>
                              (case UpdateFeed sv (flUser f1) (HashString sv totalFilePath) deleted_mark (bytes_of pw) w4 of
                                 (Inl e, w5) \<Rightarrow> (Inl e, f1, w5)
                               | (Inr u, w5) \<Rightarrow> (Inr (), RemoveFromFileMap totalFilePath f1, w5)))))))"

record FileEntry =
  feName :: string
  feContentType :: string
  feSize :: string
  feBlockSize :: string
  feCreationTime :: string
  feAccessTime :: string
  feModificationTime :: string
  feMode :: "32 word"

definition file_entry :: "FileMeta \<Rightarrow> FileEntry" where
  "file_entry m = \<lparr>feName = fName m, feContentType = fContentType m, feSize = digits (unat (fSize m)),
     feBlockSize = digits (unat (fBlockSize m)), feCreationTime = FormatInt (fCreationTime m),
     feAccessTime = FormatInt (fAccessTime m), feModificationTime = FormatInt (fModificationTime m), feMode = fMode m\<rparr>"

text \<open>One listing task.  A task that fails only logs; the entries come in the order
  in which the tasks end.  order gives, for the tasks that ListFiles starts, those that the
  task manager accepts in the order of their ends.\<close>

definition ls_task ::
  "'w services \<Rightarrow> File \<Rightarrow> string \<Rightarrow> string \<Rightarrow> FileEntry list \<Rightarrow> 'w \<Rightarrow> FileEntry list \<times> File \<times> 'w" where
  "ls_task sv f filePath pw entries w =
     (case GetFeedData sv (HashString sv (CombinePathAndFile filePath [])) (flUser f) (bytes_of pw) w of
        (Inr (a, d), w1) \<Rightarrow>
          if d = deleted_mark then (entries, f, w1)
          else (case json_meta d of
                  Some m \<Rightarrow>
                    (entries @ [file_entry m], AddToFileMap (CombinePathAndFile (fPath m) (fName m)) m f, w1)
                | None \<Rightarrow> (entries, f, w1))
      | (Inl e, w1) \<Rightarrow> (entries, f, w1))"

primrec ls_tasks ::
  "'w services \<Rightarrow> File \<Rightarrow> string list \<Rightarrow> string \<Rightarrow> FileEntry list \<Rightarrow> 'w \<Rightarrow> FileEntry list \<times> File \<times> 'w" where
  "ls_tasks sv f [] pw entries w = (entries, f, w)"
| "ls_tasks sv f (p # ps) pw entries w =
     (case ls_task sv f p pw entries w of (es, f1, w1) \<Rightarrow> ls_tasks sv f1 ps pw es w1)"

definition ListFiles ::
  "'w services \<Rightarrow> (string list \<Rightarrow> string list) \<Rightarrow> File \<Rightarrow> string list \<Rightarrow> string \<Rightarrow> 'w \<Rightarrow> FileEntry list \<times> File \<times> 'w" where
  "ListFiles sv order f files pw w = ls_tasks sv f (order files) pw [] w"

record Stats =
  stPodName :: string
  stPath :: string
  stEntry :: FileEntry
  stCompression :: string

definition GetStats ::
  "'w services \<Rightarrow> File \<Rightarrow> string \<Rightarrow> string \<Rightarrow> string \<Rightarrow> 'w \<Rightarrow> Stats result \<times> File \<times> 'w" where
  "GetStats sv f podName podFileWithPath pw w =
     (case FileGetInode sv f pw podFileWithPath w of
        (None, f1, w1) \<Rightarrow> (Inl ErrFileNotFound, f1, w1)
      | (Some m, f1, w1) \<Rightarrow>
          (Inr \<lparr>stPodName = podName, stPath = fPath m, stEntry = file_entry m, stCompression = fCompression m\<rparr>,
           AddToFileMap podFileWithPath m f1, w1))"

end
