(* ===== verification/FileProps.thy ===== *)
theory FileProps
  imports FileUpload
begin

text \<open>
  Uploading a file and reading it back gives the data, over any storage that keeps
  the contract: the blocks are stored under references that stay valid, the inode
  names them in order, and the metadata feed leads to the inode.
\<close>

section \<open>What the source hands out\<close>

lemma concat_source_reads: "concat (source_reads n cs) = concat cs"
  by (induction n cs rule: source_reads.induct) auto

lemma chunked_Cons:
  assumes "0 < B" "length a = B" "chunked B bs" "bs \<noteq> []" shows "chunked B (a # bs)"
proof -
  have "a \<noteq> []" using assms(1,2) by auto
  with assms show ?thesis by (simp add: chunked_def)
qed

lemma source_reads_full:
  assumes "0 < n" "d \<noteq> []" shows "chunked n (source_reads n [d])"
  using assms(2)
proof (induction "length d" arbitrary: d rule: less_induct)
  case less
  show ?case
  proof (cases "length d \<le> n")
    case True
    with less.prems assms(1) show ?thesis by (simp add: chunked_def)
  next
    case False
    then have ne: "drop n d \<noteq> []" and lt: "length (drop n d) < length d" using assms(1) by simp_all
    have ih: "chunked n (source_reads n [drop n d])" using less.hyps [OF lt ne] .
    have "source_reads n [drop n d] \<noteq> []" using concat_source_reads [of n "[drop n d]"] ne by force
    then have "chunked n (take n d # source_reads n [drop n d])"
      using False by (intro chunked_Cons [OF assms(1) _ ih]) simp_all
    with False assms(1) show ?thesis by simp
  qed
qed

section \<open>Storing the blocks\<close>

text \<open>Compression at the block size of a file that the library undoes.  (pgzip refuses to write
  with small blocks, so no law speaks of compressing with all sizes, but the tenth of
  MinBlockSize is large enough; its reader takes its own size in place of a small one.)\<close>

definition codec_ok :: "libs \<Rightarrow> string \<Rightarrow> nat \<Rightarrow> bool" where
  "codec_ok lb cmp B \<longleftrightarrow>
     (\<forall>d. \<exists>z. Compress lb d cmp B = Inr z \<and> (\<forall>n. Decompress lb z cmp n = Inr d))"

definition caps_ok :: "libs \<Rightarrow> bool" where
  "caps_ok lb \<longleftrightarrow> (\<forall>i. 0 < BufCap lb i \<and> BufCap lb i < 2 ^ 32)"

lemma codec_none: "cmp \<noteq> ''gzip'' \<Longrightarrow> cmp \<noteq> ''snappy'' \<Longrightarrow> codec_ok lb cmp B"
  by (simp add: codec_ok_def Compress_def Decompress_def)

lemma Compress_empty: "Compress lb d [] B = Inr d"
  by (simp add: Compress_def)

definition stored :: "libs \<Rightarrow> blobview \<Rightarrow> string \<Rightarrow> BlockInfo \<Rightarrow> bytes \<Rightarrow> bool" where
  "stored lb V cmp bi d \<longleftrightarrow> (\<exists>z. V (bReference bi) = Some (Raw z) \<and> (\<forall>n. Decompress lb z cmp n = Inr d))"

lemma stored_mono: "\<lbrakk>stored lb V cmp bi d; V \<subseteq>\<^sub>m V'\<rbrakk> \<Longrightarrow> stored lb V' cmp bi d"
  unfolding stored_def map_le_def by (metis domI)

lemma blocks_at_stored:
  "blocks_at lb V cmp blocks bs \<longleftrightarrow>
     length blocks = length bs \<and> (\<forall>i < length bs. \<exists>bi. blocks ! i = Some bi \<and> stored lb V cmp bi (bs ! i))"
  by (auto simp: blocks_at_def stored_def)

lemma blocks_at_mono: "\<lbrakk>blocks_at lb V cmp blocks bs; V \<subseteq>\<^sub>m V'\<rbrakk> \<Longrightarrow> blocks_at lb V' cmp blocks bs"
  unfolding blocks_at_stored using stored_mono by blast

context storage
begin

lemma upload_le:
  assumes "inv (Suc b) w" "UploadBlob sv c w = (r, w')"
  obtains ref where "r = Inr ref" "inv b w'" "feeds w' = feeds w" "blobs w \<subseteq>\<^sub>m blobs w'" "blobs w' ref = Some c"
proof -
  from upload_blob [OF assms] obtain ref where 1: "r = Inr ref" "inv b w'" "feeds w' = feeds w"
    "blobs w ref = None \<or> blobs w ref = Some c" "blobs w' = (blobs w)(ref \<mapsto> c)" by auto
  from 1(4,5) have "blobs w \<subseteq>\<^sub>m blobs w'" by (auto simp: map_le_def)
  with 1 that show thesis by simp
qed

lemma upload_block_ok:
  assumes "inv (Suc b) w" "codec_ok lb cmp B"
  obtains bi w' where "upload_block sv lb late cmp B i d sz (None, refs) w = ((None, (i, bi) # refs), w')"
    "inv b w'" "feeds w' = feeds w" "blobs w \<subseteq>\<^sub>m blobs w'" "stored lb (blobs w') cmp bi d"
proof -
  from assms(2) obtain z where z: "Compress lb d cmp B = Inr z" "\<forall>n. Decompress lb z cmp n = Inr d"
    unfolding codec_ok_def by blast
  have c: "(if cmp \<noteq> [] then Compress lb d cmp B else Inr d) = Inr z"
    using z(1) by (cases "cmp = []") (simp_all add: Compress_empty)
  obtain r w' where u: "UploadBlob sv (Raw z) w = (r, w')" by fastforce
  from upload_le [OF assms(1) u] obtain ref where 1: "r = Inr ref" "inv b w'" "feeds w' = feeds w"
    "blobs w \<subseteq>\<^sub>m blobs w'" "blobs w' ref = Some (Raw z)" by blast
  show thesis
    by (rule that [OF _ 1(2-4)]) (use c u 1 z in \<open>auto simp: upload_block_def Let_def stored_def\<close>)
qed

text \<open>The references of the blocks uploaded so far.\<close>

lemma upload_loop_ok:
  "\<lbrakk>inv (b + length ds) w; codec_ok lb cmp B; length refs = length don; fst ` set refs \<subseteq> {..<length don};
    \<forall>j < length don. \<exists>bi. map_of refs j = Some bi \<and> stored lb (blobs w) cmp bi (don ! j);
    fileSize \<le> tot + length (concat ds)\<rbrakk> \<Longrightarrow>
   \<exists>u w'. upload_loop sv lb late cmp B fileSize (length don) ds
        \<lparr>upErr = None, upRefs = refs, upTotal = tot, upHead = h, upType = t\<rparr> w = (Inr u, w')
     \<and> inv b w' \<and> feeds w' = feeds w \<and> blobs w \<subseteq>\<^sub>m blobs w'
     \<and> blocks_at lb (blobs w') cmp (map (map_of (upRefs u)) [0..<length (upRefs u)]) (don @ ds)"
proof (induction ds arbitrary: w refs don tot h t)
  case Nil
  then show ?case by (auto simp: blocks_at_stored map_le_refl)
next
  case (Cons d ds)
  obtain h' t' where s: "sniff lb d (h, t) = (h', t')" by fastforce
  have b: "inv (Suc (b + length ds)) w" using Cons.prems(1) by simp
  obtain bi w1 where u: "upload_block sv lb late cmp B (length don) d (length d) (None, refs) w
      = ((None, (length don, bi) # refs), w1)"
    "inv (b + length ds) w1" "feeds w1 = feeds w" "blobs w \<subseteq>\<^sub>m blobs w1" "stored lb (blobs w1) cmp bi d"
    by (rule upload_block_ok [OF b Cons.prems(2)])
  have "\<forall>j < length (don @ [d]). \<exists>bj. map_of ((length don, bi) # refs) j = Some bj
      \<and> stored lb (blobs w1) cmp bj ((don @ [d]) ! j)"
    using Cons.prems(5) u(5) stored_mono [OF _ u(4)] by (auto simp: less_Suc_eq nth_append)
  moreover have "fst ` set ((length don, bi) # refs) \<subseteq> {..<length (don @ [d])}" using Cons.prems(4) by auto
  ultimately obtain u' w' where r: "upload_loop sv lb late cmp B fileSize (length (don @ [d])) ds
        \<lparr>upErr = None, upRefs = (length don, bi) # refs, upTotal = tot + length d, upHead = h', upType = t'\<rparr> w1 = (Inr u', w')"
     "inv b w'" "feeds w' = feeds w1" "blobs w1 \<subseteq>\<^sub>m blobs w'"
     "blocks_at lb (blobs w') cmp (map (map_of (upRefs u')) [0..<length (upRefs u')]) ((don @ [d]) @ ds)"
    using Cons.IH [of w1 "(length don, bi) # refs" "don @ [d]" "tot + length d" h' t'] u(2) Cons.prems(2,3,6)
    by auto
  with s u(1,3,4) map_le_trans [OF u(4) r(4)] show ?case by simp
qed

end

section \<open>The metadata\<close>

definition file_topic_ok :: "feedview \<Rightarrow> 'w services \<Rightarrow> Address \<Rightarrow> string \<Rightarrow> string \<Rightarrow> bool" where
  "file_topic_ok fs sv u path pw \<longleftrightarrow>
     (case fs (u, HashString sv path, bytes_of pw) of
        None \<Rightarrow> True
      | Some d \<Rightarrow> d = deleted_mark \<or> (\<exists>m. d = Doc (DFileMeta m)))"

context storage
begin

lemma GetMeta_ok:
  assumes "inv b w" "GetMetaFromFileName sv path pw u w = (r, w')"
  shows "inv b w'" "feeds w' = feeds w" "blobs w' = blobs w"
    "\<lbrakk>file_topic_ok (feeds w) sv u path pw; \<not> is_ok r; r \<noteq> Inl ErrDeletedFeed\<rbrakk>
      \<Longrightarrow> feeds w (u, HashString sv path, bytes_of pw) = None"
    "feeds w (u, HashString sv path, bytes_of pw) = Some (Doc (DFileMeta m)) \<Longrightarrow> r = Inr m"
    "feeds w (u, HashString sv path, bytes_of pw) = Some deleted_mark \<Longrightarrow> r = Inl ErrDeletedFeed"
    "feeds w (u, HashString sv path, bytes_of pw) = None \<Longrightarrow> \<not> is_ok r"
proof -
  let ?k = "(u, HashString sv path, bytes_of pw)"
  obtain g w1 where g: "GetFeedData sv (HashString sv path) u (bytes_of pw) w = (g, w1)" by fastforce
  note l = get_feed [OF assms(1) g]
  have w': "w' = w1" using assms(2) g
    by (auto simp: GetMetaFromFileName_def split: sum.splits if_splits option.splits)
  with l show "inv b w'" "feeds w' = feeds w" "blobs w' = blobs w" by simp_all
  show "r = Inr m" if "feeds w ?k = Some (Doc (DFileMeta m))"
    using l that assms(2) g by (auto simp: GetMetaFromFileName_def deleted_mark_def)
  show "r = Inl ErrDeletedFeed" if "feeds w ?k = Some deleted_mark"
    using l that assms(2) g by (auto simp: GetMetaFromFileName_def)
  show "\<not> is_ok r" if "feeds w ?k = None"
    using l that assms(2) g by (auto simp: GetMetaFromFileName_def)
  show "feeds w ?k = None" if "file_topic_ok (feeds w) sv u path pw" "\<not> is_ok r" "r \<noteq> Inl ErrDeletedFeed"
    using l that assms(2) g
    by (cases "feeds w ?k") (auto simp: GetMetaFromFileName_def file_topic_ok_def deleted_mark_def)
qed

lemma handleMeta_ok:
  assumes "inv (Suc b) w" "length (CombinePathAndFile (fPath m) (fName m)) \<le> maxlen"
    and fit: "storable sv (bytes_of pw) (Doc (DFileMeta m))"
    and t: "file_topic_ok (feeds w) sv (flUser f) (CombinePathAndFile (fPath m) (fName m)) pw"
  obtains w' where "handleMeta sv f m pw w = (Inr (), w')" "inv b w'" "blobs w' = blobs w"
    "feed_written (feeds w) (feeds w') (flUser f) (HashString sv (CombinePathAndFile (fPath m) (fName m)))
       (bytes_of pw) (Doc (DFileMeta m))"
proof -
  let ?p = "CombinePathAndFile (fPath m) (fName m)"
  obtain r w1 where g: "GetMetaFromFileName sv ?p pw (flUser f) w = (r, w1)" by fastforce
  note 1 = GetMeta_ok [OF assms(1) g]
  obtain r2 w2 where u: "updateMeta sv f m pw w1 = (r2, w2)" by fastforce
  from update_feed [OF 1(1) fit assms(2) refl u [unfolded updateMeta_def meta_topic_def]] 1
  have u': "r2 = Inr ()" "inv b w2" "blobs w2 = blobs w"
    "feed_written (feeds w) (feeds w2) (flUser f) (HashString sv ?p) (bytes_of pw) (Doc (DFileMeta m))" by simp_all
  obtain r3 w3 where c: "uploadMeta sv f m pw w1 = (r3, w3)" by fastforce
  have c': "r3 = Inr ()" "inv b w3" "blobs w3 = blobs w"
    "feed_written (feeds w) (feeds w3) (flUser f) (HashString sv ?p) (bytes_of pw) (Doc (DFileMeta m))"
    if "\<not> (is_ok r \<or> r = Inl ErrDeletedFeed)"
  proof -
    have "feeds w1 (flUser f, HashString sv ?p, bytes_of pw) = None" using 1(2,4) t that by simp
    from create_feed [OF 1(1) fit assms(2) refl this c [unfolded uploadMeta_def meta_topic_def]] 1
    show "r3 = Inr ()" "inv b w3" "blobs w3 = blobs w"
      "feed_written (feeds w) (feeds w3) (flUser f) (HashString sv ?p) (bytes_of pw) (Doc (DFileMeta m))" by simp_all
  qed
  show thesis
  proof (cases "is_ok r \<or> r = Inl ErrDeletedFeed")
    case True
    with g u u' that show thesis by (simp add: handleMeta_def)
  next
    case False
    with g c c' [OF False] that show thesis by (simp add: handleMeta_def)
  qed
qed

text \<open>A file that is stored at a path: its metadata is the one in the feed, and
  the inode leads to the blocks.\<close>

end

definition file_at :: "'w services \<Rightarrow> libs \<Rightarrow> feedview \<Rightarrow> blobview \<Rightarrow> Address \<Rightarrow> string \<Rightarrow> string \<Rightarrow> FileMeta \<Rightarrow> bytes list \<Rightarrow> bool" where
  "file_at sv lb fs V u path pw m bs \<longleftrightarrow>
     fs (u, HashString sv path, bytes_of pw) = Some (Doc (DFileMeta m))
     \<and> chunked (unat (fBlockSize m)) bs \<and> unat (fSize m) = length (concat bs)
     \<and> (\<exists>blocks. V (fInodeAddress m) = Some (Doc (DFileInode blocks)) \<and> blocks_at lb V (fCompression m) blocks bs)"

context storage
begin

lemma FileGetInode_ok:
  assumes "inv b w" "feeds w (flUser f, HashString sv path, bytes_of pw) = Some (Doc (DFileMeta m))"
    "flMap f path \<in> {None, Some m}"
  obtains w' where "FileGetInode sv f pw path w = (Some m, AddToFileMap path m f, w')" "inv b w'"
    "feeds w' = feeds w" "blobs w' = blobs w"
proof (cases "flMap f path")
  case None
  obtain g w' where g: "GetFeedData sv (HashString sv path) (flUser f) (bytes_of pw) w = (g, w')" by fastforce
  from get_feed [OF assms(1) g] assms(2) obtain a where "g = Inr (a, Doc (DFileMeta m))" "inv b w'"
    "feeds w' = feeds w" "blobs w' = blobs w" by auto
  with that g None show thesis by (simp add: FileGetInode_def GetFromFileMap_def deleted_mark_def)
next
  case (Some m')
  then have "f\<lparr>flMap := (flMap f)(path \<mapsto> m)\<rparr> = f" using assms(3) by (simp add: map_upd_triv)
  with that [of w] Some assms(1,3) show thesis by (simp add: FileGetInode_def GetFromFileMap_def AddToFileMap_def)
qed

lemma Download_ok:
  assumes "inv b w" "file_at sv lb (feeds w) (blobs w) (flUser f) path pw m bs" "caps_ok lb"
    "CombinePathAndFile arg [] = path" "flMap f path \<in> {None, Some m}"
  obtains r w' where "Download sv f arg pw w = (Inr (r, length (concat bs)), AddToFileMap path m f, w')"
    "inv b w'" "feeds w' = feeds w" "blobs w' = blobs w" "reader_at (unat (fBlockSize m)) bs r 0"
    "blocks_at lb (blobs w') (rdCompression r) (rdBlocks r) bs"
    "\<And>n. length (concat bs) < n \<Longrightarrow> \<exists>r' w''. read_all n sv lb 0 [] r w' = (Inr (concat bs), r', w'') \<and> inv b w''
       \<and> feeds w'' = feeds w \<and> blobs w'' = blobs w"
proof -
  from assms(2) obtain blocks where m: "feeds w (flUser f, HashString sv path, bytes_of pw) = Some (Doc (DFileMeta m))"
    "chunked (unat (fBlockSize m)) bs" "unat (fSize m) = length (concat bs)"
    "blobs w (fInodeAddress m) = Some (Doc (DFileInode blocks))" "blocks_at lb (blobs w) (fCompression m) blocks bs"
    by (auto simp: file_at_def)
  obtain w1 where 1: "FileGetInode sv f pw path w = (Some m, AddToFileMap path m f, w1)" "inv b w1"
    "feeds w1 = feeds w" "blobs w1 = blobs w" by (rule FileGetInode_ok [OF assms(1) m(1) assms(5)])
  obtain d w2 where d: "DownloadBlob sv (fInodeAddress m) w1 = (d, w2)" by fastforce
  from download_blob [OF 1(2) d] m(4) 1 have 2: "d = Inr (Doc (DFileInode blocks), 200)" "inv b w2"
    "feeds w2 = feeds w" "blobs w2 = blobs w" by auto
  let ?r = "NewReader blocks (length (concat bs)) (unat (fBlockSize m)) (fCompression m) False"
  have ra: "reader_at (unat (fBlockSize m)) bs ?r 0" by (rule reader_at_new [OF m(2)])
  have ba: "blocks_at lb (blobs w2) (rdCompression ?r) (rdBlocks ?r) bs" using m(5) 2(4) by (simp add: NewReader_def)
  show thesis
  proof (rule that [OF _ 2(2-4) ra ba])
    show "Download sv f arg pw w = (Inr (?r, length (concat bs)), AddToFileMap path m f, w2)"
      using 1(1) d 2(1) m(3) assms(4) by (simp add: Download_def ReadSeeker_def inode_of_def)
    show "\<exists>r' w''. read_all n sv lb 0 [] ?r w2 = (Inr (concat bs), r', w'') \<and> inv b w'' \<and> feeds w'' = feeds w \<and> blobs w'' = blobs w"
      if "length (concat bs) < n" for n
      using read_all_ok [OF 2(2) ba m(2) ra, of n 0 "[]"] assms(3) that 2(3,4) by (simp add: caps_ok_def)
  qed
qed

lemma Upload_ok:
  assumes b: "inv (b + length (source_reads (unat blockSize) fd) + 2) w"
    and B: "MinBlockSize \<le> unat blockSize" "unat blockSize \<le> MaxBlockSize"
    and fd: "chunked (unat blockSize) (source_reads (unat blockSize) fd)" "unat fileSize = length (concat fd)"
    and cd: "codec_ok lb cmp (unat blockSize)"
    and p: "path = CombinePathAndFile podPath name" "length path \<le> maxlen"
    and t: "file_topic_ok (feeds w) sv (flUser f) path pw"
    and fit: "\<And>m. fPath m = podPath \<and> fName m = name \<Longrightarrow> storable sv (bytes_of pw) (Doc (DFileMeta m))"
  obtains m w' where "Upload sv lb late f fd name fileSize blockSize mode podPath cmp pw w
      = (Inr (), AddToFileMap path m f, w')" "inv b w'" "blobs w \<subseteq>\<^sub>m blobs w'"
    "file_at sv lb (feeds w') (blobs w') (flUser f) path pw m (source_reads (unat blockSize) fd)"
    "feed_written (feeds w) (feeds w') (flUser f) (HashString sv path) (bytes_of pw) (Doc (DFileMeta m))"
    "fPath m = podPath" "fName m = name" "fSize m = fileSize" "fBlockSize m = blockSize" "fCompression m = cmp"
proof -
  let ?B = "unat blockSize"
  let ?ds = "source_reads ?B fd"
  obtain now w1 where n: "NowUnix sv w = (now, w1)" by fastforce
  from clock [OF b n] have 1: "inv (b + length ?ds + 2) w1" "feeds w1 = feeds w" "blobs w1 = blobs w" by auto
  then have "inv ((b + 2) + length ?ds) w1" by (simp add: ac_simps)
  then obtain u w2 where l: "upload_loop sv lb late cmp ?B (unat fileSize) 0 ?ds
        \<lparr>upErr = None, upRefs = [], upTotal = 0, upHead = [], upType = []\<rparr> w1 = (Inr u, w2)"
      "inv (b + 2) w2" "feeds w2 = feeds w" "blobs w \<subseteq>\<^sub>m blobs w2"
      "blocks_at lb (blobs w2) cmp (map (map_of (upRefs u)) [0..<length (upRefs u)]) ?ds"
    using upload_loop_ok [of "b + 2" ?ds w1 lb cmp ?B "[]" "[]" "unat fileSize" 0 late "[]" "[]"] cd fd(2) 1(2,3)
    by (auto simp: concat_source_reads)
  let ?blocks = "map (map_of (upRefs u)) [0..<length (upRefs u)]"
  obtain r w3 where i: "UploadBlob sv (Doc (DFileInode ?blocks)) w2 = (r, w3)" by fastforce
  have "inv (Suc (Suc b)) w2" using l(2) by simp
  from upload_le [OF this i] obtain addr where 3: "r = Inr addr" "inv (Suc b) w3" "feeds w3 = feeds w2"
    "blobs w2 \<subseteq>\<^sub>m blobs w3" "blobs w3 addr = Some (Doc (DFileInode ?blocks))" by blast
  define m where "m = \<lparr>fVersion = FileMetaVersion, fPath = podPath, fName = name, fSize = fileSize,
      fBlockSize = blockSize, fContentType = upType u, fCompression = cmp,
      fCreationTime = now, fAccessTime = now, fModificationTime = now,
      fInodeAddress = addr, fMode = (if mode = 0 then or S_IFREG defaultMode else mode)\<rparr>"
  have pm: "CombinePathAndFile (fPath m) (fName m) = path" "fPath m = podPath" "fName m = name" using p(1) by (simp_all add: m_def)
  have len: "length (CombinePathAndFile (fPath m) (fName m)) \<le> maxlen" using pm(1) p(2) by simp
  have t': "file_topic_ok (feeds w3) sv (flUser f) (CombinePathAndFile (fPath m) (fName m)) pw"
    using t 3(3) l(3) pm(1) by (simp add: file_topic_ok_def)
  obtain w4 where h: "handleMeta sv f m pw w3 = (Inr (), w4)" "inv b w4" "blobs w4 = blobs w3"
    "feed_written (feeds w3) (feeds w4) (flUser f) (HashString sv path) (bytes_of pw) (Doc (DFileMeta m))"
    by (rule handleMeta_ok [OF 3(2) len fit t']) (use pm in auto)
  have at: "file_at sv lb (feeds w4) (blobs w4) (flUser f) path pw m ?ds"
    using feed_writtenD(1) [OF h(4)] fd 3(5) h(3) blocks_at_mono [OF l(5) 3(4)]
    by (auto simp: file_at_def m_def concat_source_reads)
  have run: "Upload sv lb late f fd name fileSize blockSize mode podPath cmp pw w = (Inr (), AddToFileMap path m f, w4)"
    using B n l(1) i 3(1) h(1) pm(1) by (simp add: Upload_def Let_def flip: m_def)
  show thesis
  proof (rule that [OF run h(2) _ at])
    show "blobs w \<subseteq>\<^sub>m blobs w4" unfolding h(3) by (rule map_le_trans [OF l(4) 3(4)])
    show "feed_written (feeds w) (feeds w4) (flUser f) (HashString sv path) (bytes_of pw) (Doc (DFileMeta m))"
      using h(4) 3(3) l(3) by simp
  qed (simp_all add: m_def)
qed

end

section \<open>Properties\<close>

text \<open>C8: a file comes back as it was uploaded.  If every read of the source fills
  the block (the last one excepted), Upload succeeds under every schedule of its
  workers, and Download followed by reading to the end gives exactly the bytes of
  the source, for the File object that uploaded it and for one with an empty file
  map; the size that Download reports is their number.\<close>

theorem upload_download:
  assumes "storage sv maxlen good feeds blobs" "good (b + length (source_reads (unat blockSize) fd) + 2) w"
    "MinBlockSize \<le> unat blockSize" "unat blockSize \<le> MaxBlockSize"
    "chunked (unat blockSize) (source_reads (unat blockSize) fd)" "unat fileSize = length (concat fd)"
    "codec_ok lb cmp (unat blockSize)" "caps_ok lb"
    "path = CombinePathAndFile podPath name" "length path \<le> maxlen" "CombinePathAndFile path [] = path"
    "file_topic_ok (feeds w) sv (flUser f) path pw"
    "\<And>m. fPath m = podPath \<and> fName m = name \<Longrightarrow> storable sv (bytes_of pw) (Doc (DFileMeta m))"
  shows "\<exists>f' w'. Upload sv lb late f fd name fileSize blockSize mode podPath cmp pw w = (Inr (), f', w') \<and> good b w'
    \<and> (\<forall>g \<in> {f', RemoveAllFromFileMap f}.
         \<exists>r g' w1 r' w2. Download sv g path pw w' = (Inr (r, length (concat fd)), g', w1)
           \<and> read_all (Suc (length (concat fd))) sv lb 0 [] r w1 = (Inr (concat fd), r', w2))"
proof -
  obtain m w' where u: "Upload sv lb late f fd name fileSize blockSize mode podPath cmp pw w
      = (Inr (), AddToFileMap path m f, w')" "good b w'"
    "file_at sv lb (feeds w') (blobs w') (flUser f) path pw m (source_reads (unat blockSize) fd)"
    by (rule storage.Upload_ok [OF assms(1-7,9,10,12,13), of late mode]) auto
  have "\<exists>r g' w1 r' w2. Download sv g path pw w' = (Inr (r, length (concat fd)), g', w1)
      \<and> read_all (Suc (length (concat fd))) sv lb 0 [] r w1 = (Inr (concat fd), r', w2)"
    if g: "g \<in> {AddToFileMap path m f, RemoveAllFromFileMap f}" for g
  proof -
    have g': "flUser g = flUser f" "flMap g path \<in> {None, Some m}"
      using g by (auto simp: AddToFileMap_def RemoveAllFromFileMap_def)
    have at: "file_at sv lb (feeds w') (blobs w') (flUser g) path pw m (source_reads (unat blockSize) fd)"
      using u(3) g'(1) by simp
    obtain r w1 where d: "Download sv g path pw w' = (Inr (r, length (concat fd)), AddToFileMap path m g, w1)"
      "\<And>n. length (concat fd) < n \<Longrightarrow> \<exists>r' w2. read_all n sv lb 0 [] r w1 = (Inr (concat fd), r', w2) \<and> good b w2
         \<and> feeds w2 = feeds w' \<and> blobs w2 = blobs w'"
      using storage.Download_ok [OF assms(1) u(2) at assms(8,11) g'(2), unfolded concat_source_reads] by metis
    from d(2) [of "Suc (length (concat fd))"] d(1) show ?thesis by blast
  qed
  with u(1,2) show ?thesis by blast
qed

end
