(* ===== verification/FileEdit.thy ===== *)
theory FileEdit
  imports FileProps
begin

text \<open>
  Changing and removing stored files: RmFile, Chmod and WriteAt.
\<close>

section \<open>RmFile\<close>

text \<open>What RmFile relies on, when any call may fail: a call that fails changes neither feeds
  nor blobs, what is read is what is stored, a reference that is deleted is gone, and no
  other one is.\<close>

locale removal =
  fixes sv :: "'w services"
    and maxlen :: nat
    and inv :: "nat \<Rightarrow> 'w \<Rightarrow> bool"
    and feeds :: "'w \<Rightarrow> feedview"
    and blobs :: "'w \<Rightarrow> blobview"
  assumes read_feed: "\<lbrakk>inv b w; GetFeedData sv t u pw w = (rg, w')\<rbrakk> \<Longrightarrow>
        inv b w' \<and> feeds w' = feeds w \<and> blobs w' = blobs w
        \<and> (\<forall>a d. rg = Inr (a, d) \<longrightarrow> feeds w (u, t, pw) = Some d)"
    and read_blob: "\<lbrakk>inv b w; DownloadBlob sv ref w = (rd, w')\<rbrakk> \<Longrightarrow>
        inv b w' \<and> feeds w' = feeds w \<and> blobs w' = blobs w
        \<and> (\<forall>c code. rd = Inr (c, code) \<longrightarrow> blobs w ref = Some c)"
    and remove_ref: "\<lbrakk>inv b w; blobs w ref \<noteq> None; DeleteReference sv ref w = (rn, w')\<rbrakk> \<Longrightarrow>
        inv b w' \<and> feeds w' = feeds w
        \<and> blobs w' = (if is_ok rn then (blobs w)(ref := None) else blobs w)"
    and mark_feed: "\<lbrakk>inv (Suc b) w; storable sv pw d; length s \<le> maxlen; t = HashString sv s;
        UpdateFeed sv u t d pw w = (rn, w')\<rbrakk> \<Longrightarrow>
        blobs w' = blobs w
        \<and> (if is_ok rn then inv b w' \<and> feed_written (feeds w) (feeds w') u t pw d else feeds w' = feeds w)"

definition without :: "bytes list \<Rightarrow> blobview \<Rightarrow> blobview" where
  "without refs V = (\<lambda>ref. if ref \<in> set refs then None else V ref)"

lemma without_simps [simp]:
  "without [] V = V" "without refs (V(ref := None)) = without (ref # refs) V"
  by (auto simp: without_def fun_eq_iff)

definition not_file :: "'w services \<Rightarrow> File \<Rightarrow> string \<Rightarrow> string \<Rightarrow> 'w \<Rightarrow> bool" where
  "not_file sv f path pw w \<longleftrightarrow> fst (Download sv f path pw w) = Inl ErrFileNotFound"

text \<open>The references of a file: its inode and its blocks.\<close>

definition file_refs :: "FileMeta \<Rightarrow> BlockInfo option list \<Rightarrow> bytes list" where
  "file_refs m bl = fInodeAddress m # map (\<lambda>x. bReference (the x)) bl"

context removal
begin

lemma delete_blocks_prefix:
  "\<lbrakk>inv b w; \<forall>x \<in> set bl. \<exists>bi. x = Some bi \<and> blobs w (bReference bi) \<noteq> None;
    distinct (map (\<lambda>x. bReference (the x)) bl); delete_blocks sv bl w = (r, w')\<rbrakk> \<Longrightarrow>
   inv b w' \<and> feeds w' = feeds w \<and> (\<exists>k \<le> length bl. (is_ok r \<longrightarrow> k = length bl)
     \<and> blobs w' = without (take k (map (\<lambda>x. bReference (the x)) bl)) (blobs w))"
proof (induction bl arbitrary: w)
  case (Cons x bl)
  then obtain bi where x: "x = Some bi" "blobs w (bReference bi) \<noteq> None" by auto
  obtain q w1 where d: "DeleteReference sv (bReference bi) w = (q, w1)" by fastforce
  note 1 = remove_ref [OF Cons.prems(1) x(2) d]
  show ?case
  proof (cases q)
    case (Inl e)
    with d Cons.prems(4) x(1) 1 show ?thesis by (auto intro!: exI [of _ 0])
  next
    case (Inr u)
    have "\<forall>y \<in> set bl. \<exists>bj. y = Some bj \<and> blobs w1 (bReference bj) \<noteq> None"
    proof
      fix y assume y: "y \<in> set bl"
      then obtain bj where bj: "y = Some bj" "blobs w (bReference bj) \<noteq> None" using Cons.prems(2) by auto
      have "bReference bj \<noteq> bReference bi" using Cons.prems(3) x(1) y bj(1) by force
      with 1 Inr bj show "\<exists>bj. y = Some bj \<and> blobs w1 (bReference bj) \<noteq> None" by simp
    qed
    moreover have "inv b w1" "distinct (map (\<lambda>x. bReference (the x)) bl)" "delete_blocks sv bl w1 = (r, w')"
      using 1 Cons.prems(3,4) d Inr x(1) by simp_all
    ultimately obtain k where k: "inv b w'" "feeds w' = feeds w1" "k \<le> length bl" "is_ok r \<longrightarrow> k = length bl"
      "blobs w' = without (take k (map (\<lambda>x. bReference (the x)) bl)) (blobs w1)" using Cons.IH [of w1] by blast
    have w1: "blobs w1 = (blobs w)(bReference bi := None)" "feeds w1 = feeds w" using 1 Inr by simp_all
    have "blobs w' = without (take (Suc k) (map (\<lambda>x. bReference (the x)) (x # bl))) (blobs w)"
      unfolding k(5) w1(1) without_simps(2) by (simp add: x(1))
    with k(1-4) w1(2) show ?thesis by (intro conjI exI [of _ "Suc k"]) simp_all
  qed
qed simp

lemma marked_not_file:
  assumes "inv b w" "feeds w (flUser f, HashString sv path, bytes_of pw) = Some deleted_mark"
    "flMap f path = None" "CombinePathAndFile arg [] = path"
  shows "not_file sv f arg pw w"
proof -
  obtain g w' where g: "GetFeedData sv (HashString sv path) (flUser f) (bytes_of pw) w = (g, w')" by fastforce
  from read_feed [OF assms(1) g] assms(2) have "g = Inr (a, d) \<Longrightarrow> d = deleted_mark" for a d by auto
  with g assms(3,4) show ?thesis
    by (cases g) (auto simp: not_file_def Download_def ReadSeeker_def FileGetInode_def GetFromFileMap_def)
qed

lemma RmFile_steps:
  assumes "inv (Suc b) w" and at: "file_at sv lb (feeds w) (blobs w) (flUser f) path pw m bs"
    and p: "CombinePathAndFile arg [] = path" "length path \<le> maxlen" "flMap f path \<in> {None, Some m}"
    and bl: "blobs w (fInodeAddress m) = Some (Doc (DFileInode bl))" "distinct (file_refs m bl)"
    and run: "RmFile sv f arg pw w = (r, f', w')"
  shows "\<exists>k \<le> length (file_refs m bl). blobs w' = without (take k (file_refs m bl)) (blobs w) \<and>
    (case r of
       Inl e \<Rightarrow> feeds w' = feeds w \<and> f' \<in> {f, AddToFileMap path m f}
     | Inr u \<Rightarrow> k = length (file_refs m bl) \<and> inv b w' \<and> f' = RemoveFromFileMap path (AddToFileMap path m f)
         \<and> feed_written (feeds w) (feeds w') (flUser f) (HashString sv path) (bytes_of pw) deleted_mark)"
proof -
  from at bl(1) have m: "feeds w (flUser f, HashString sv path, bytes_of pw) = Some (Doc (DFileMeta m))"
    "blocks_at lb (blobs w) (fCompression m) bl bs" by (auto simp: file_at_def)
  have fu: "flUser (AddToFileMap path m f) = flUser f" by (simp add: AddToFileMap_def)
  obtain mo f1 w1 where i: "FileGetInode sv f pw path w = (mo, f1, w1)" by (rule prod_cases3)
  obtain g v where g: "GetFeedData sv (HashString sv path) (flUser f) (bytes_of pw) w = (g, v)" by fastforce
  have 1: "inv (Suc b) w1" "feeds w1 = feeds w" "blobs w1 = blobs w"
    "(mo = None \<and> f1 = f) \<or> (mo = Some m \<and> f1 = AddToFileMap path m f)"
  proof -
    have a: "f\<lparr>flMap := (flMap f)(path \<mapsto> m)\<rparr> = f" if "flMap f path = Some m" using that by (simp add: map_upd_triv)
    from i g read_feed [OF assms(1) g] m(1) p(3) assms(1) a
    show "inv (Suc b) w1" "feeds w1 = feeds w" "blobs w1 = blobs w"
      "(mo = None \<and> f1 = f) \<or> (mo = Some m \<and> f1 = AddToFileMap path m f)"
      by (auto simp: FileGetInode_def GetFromFileMap_def AddToFileMap_def deleted_mark_def
          split: option.splits sum.splits prod.splits if_splits)
  qed
  show ?thesis
  proof (cases "mo = None")
    case True
    with run i 1 p(1) show ?thesis by (auto simp: RmFile_def intro!: exI [of _ 0])
  next
    case False
    with 1(4) have mo: "mo = Some m" "f1 = AddToFileMap path m f" by simp_all
    obtain d w2 where d: "DownloadBlob sv (fInodeAddress m) w1 = (d, w2)" by fastforce
    note 2 = read_blob [OF 1(1) d]
    have dd: "d = Inr (c, code) \<Longrightarrow> c = Doc (DFileInode bl)" for c code using 2 bl(1) 1(3) by simp
    obtain q w3 where q: "DeleteReference sv (fInodeAddress m) w2 = (q, w3)" by fastforce
    have here: "blobs w2 (fInodeAddress m) \<noteq> None" using 2 1(3) bl(1) by simp
    from remove_ref [OF _ here q] 2 have 3: "inv (Suc b) w3" "feeds w3 = feeds w2"
      "blobs w3 = (if is_ok q then (blobs w2)(fInodeAddress m := None) else blobs w2)" by auto
    show ?thesis
    proof (cases "\<exists>c. d = Inr (c, 200) \<and> is_ok q")
      case False
      then have "r \<noteq> Inr u \<and> f' = f1 \<and> feeds w' = feeds w \<and> blobs w' = blobs w" for u
        using run i mo d q 1(2,3) 2 3 p(1) dd
        by (cases d; cases q) (auto simp: RmFile_def inode_of_def split: if_splits)
      with mo(2) show ?thesis by (cases r) (auto intro!: exI [of _ 0])
    next
      case True
      then obtain u where ok: "d = Inr (Doc (DFileInode bl), 200)" "q = Inr u" using dd by (cases q) auto
      have V3: "blobs w3 = (blobs w)(fInodeAddress m := None)" using 3(3) ok(2) 2 1(3) by simp
      have bl3: "\<forall>x \<in> set bl. \<exists>bi. x = Some bi \<and> blobs w3 (bReference bi) \<noteq> None"
      proof
        fix x assume x: "x \<in> set bl"
        then obtain j where j: "j < length bl" "x = bl ! j" by (metis in_set_conv_nth)
        with m(2) obtain bi z where bi: "x = Some bi" "blobs w (bReference bi) = Some (Raw z)" by (auto simp: blocks_at_def)
        have "bReference bi \<noteq> fInodeAddress m" using bl(2) x bi(1) by (force simp: file_refs_def)
        with V3 bi show "\<exists>bi. x = Some bi \<and> blobs w3 (bReference bi) \<noteq> None" by simp
      qed
      obtain s w4 where s: "delete_blocks sv bl w3 = (s, w4)" by fastforce
      have "distinct (map (\<lambda>x. bReference (the x)) bl)" using bl(2) by (simp add: file_refs_def)
      from delete_blocks_prefix [OF 3(1) bl3 this s] obtain k where 4: "inv (Suc b) w4" "feeds w4 = feeds w3" "k \<le> length bl"
        "is_ok s \<longrightarrow> k = length bl" "blobs w4 = without (take (Suc k) (file_refs m bl)) (blobs w)"
        unfolding V3 by (auto simp: file_refs_def)
      obtain t w5 where t: "UpdateFeed sv (flUser f) (HashString sv path) deleted_mark (bytes_of pw) w4 = (t, w5)" by fastforce
      note 5 = mark_feed [OF 4(1) storable_deleted p(2) refl t]
      have k: "Suc k \<le> length (file_refs m bl)" "is_ok s \<Longrightarrow> Suc k = length (file_refs m bl)"
        using 4(3,4) by (simp_all add: file_refs_def)
      have f: "feeds w4 = feeds w" using 4(2) 3(2) 2 1(2) by simp
      show ?thesis
        using run i mo d q ok s t p(1) fu 4(5) 5 f k
        by (cases s; cases t) (auto simp: RmFile_def inode_of_def intro!: exI [of _ "Suc k"])
    qed
  qed
qed

end

text \<open>With a storage that keeps its contract all of it succeeds.\<close>

context storage
begin

lemma delete_blocks_ok:
  "\<lbrakk>inv b w; \<forall>x \<in> set bl. \<exists>bi. x = Some bi \<and> blobs w (bReference bi) \<noteq> None;
    distinct (map (\<lambda>x. bReference (the x)) bl)\<rbrakk> \<Longrightarrow>
   \<exists>w'. delete_blocks sv bl w = (Inr (), w') \<and> inv b w'"
proof (induction bl arbitrary: w)
  case (Cons x bl)
  then obtain bi where x: "x = Some bi" "blobs w (bReference bi) \<noteq> None" by auto
  obtain q w1 where d: "DeleteReference sv (bReference bi) w = (q, w1)" by fastforce
  from delete_ref [OF Cons.prems(1) x(2) d] have 1: "inv b w1" "q = Inr ()"
    "\<forall>ref'. ref' \<noteq> bReference bi \<longrightarrow> blobs w1 ref' = blobs w ref'" by auto
  have "\<forall>y \<in> set bl. \<exists>bj. y = Some bj \<and> blobs w1 (bReference bj) \<noteq> None"
  proof
    fix y assume y: "y \<in> set bl"
    then obtain bj where bj: "y = Some bj" "blobs w (bReference bj) \<noteq> None" using Cons.prems(2) by auto
    have "bReference bj \<noteq> bReference bi" using Cons.prems(3) x(1) y bj(1) by force
    with 1(3) bj show "\<exists>bj. y = Some bj \<and> blobs w1 (bReference bj) \<noteq> None" by simp
  qed
  with Cons.IH [OF 1(1)] Cons.prems(3) d 1(2) x(1) show ?case by simp
qed simp

lemma RmFile_ok:
  assumes "inv (Suc b) w" and at: "file_at sv lb (feeds w) (blobs w) (flUser f) path pw m bs"
    and p: "CombinePathAndFile arg [] = path" "length path \<le> maxlen" "flMap f path \<in> {None, Some m}"
    and bl: "blobs w (fInodeAddress m) = Some (Doc (DFileInode bl))" "distinct (file_refs m bl)"
  obtains f' w' where "RmFile sv f arg pw w = (Inr (), f', w')" "inv b w'"
proof -
  from at bl(1) have m: "feeds w (flUser f, HashString sv path, bytes_of pw) = Some (Doc (DFileMeta m))"
    "blocks_at lb (blobs w) (fCompression m) bl bs" by (auto simp: file_at_def)
  obtain w1 where 1: "FileGetInode sv f pw path w = (Some m, AddToFileMap path m f, w1)" "inv (Suc b) w1"
    "blobs w1 = blobs w" by (rule FileGetInode_ok [OF assms(1) m(1) p(3)])
  obtain d w2 where d: "DownloadBlob sv (fInodeAddress m) w1 = (d, w2)" by fastforce
  from download_blob [OF 1(2) d] bl(1) 1 have 2: "d = Inr (Doc (DFileInode bl), 200)" "inv (Suc b) w2" "blobs w2 = blobs w" by auto
  obtain q w3 where q: "DeleteReference sv (fInodeAddress m) w2 = (q, w3)" by fastforce
  from delete_ref [OF 2(2) _ q] bl(1) 2 have 3: "q = Inr ()" "inv (Suc b) w3"
    "\<forall>ref'. ref' \<noteq> fInodeAddress m \<longrightarrow> blobs w3 ref' = blobs w ref'" by auto
  have bl3: "\<forall>x \<in> set bl. \<exists>bi. x = Some bi \<and> blobs w3 (bReference bi) \<noteq> None"
  proof
    fix x assume x: "x \<in> set bl"
    then obtain j where j: "j < length bl" "x = bl ! j" by (metis in_set_conv_nth)
    with m(2) obtain bi z where bi: "x = Some bi" "blobs w (bReference bi) = Some (Raw z)" by (auto simp: blocks_at_def)
    have "bReference bi \<noteq> fInodeAddress m" using bl(2) x bi(1) by (force simp: file_refs_def)
    with 3(3) bi show "\<exists>bi. x = Some bi \<and> blobs w3 (bReference bi) \<noteq> None" by simp
  qed
  have "distinct (map (\<lambda>x. bReference (the x)) bl)" using bl(2) by (simp add: file_refs_def)
  from delete_blocks_ok [OF 3(2) bl3 this] obtain w4 where 4: "delete_blocks sv bl w3 = (Inr (), w4)" "inv (Suc b) w4" by blast
  obtain t w5 where t: "UpdateFeed sv (flUser f) (HashString sv path) deleted_mark (bytes_of pw) w4 = (t, w5)" by fastforce
  from update_feed [OF 4(2) storable_deleted p(2) refl t] have 5: "t = Inr ()" "inv b w5" by auto
  have "flUser (AddToFileMap path m f) = flUser f" by (simp add: AddToFileMap_def)
  then show thesis
    using 1(1) d 2(1) q 3(1) 4(1) t 5 p(1) by (intro that [OF _ 5(2)]) (simp add: RmFile_def inode_of_def)
qed

end

section \<open>WriteAt\<close>

definition patched :: "bytes \<Rightarrow> nat \<Rightarrow> bytes \<Rightarrow> bytes" where
  "patched old off up = take off old @ up @ drop (off + length up) old"

text \<open>The updates that WriteAt writes exactly: the rest of the last block that is
  touched is the end of the file, or is a whole block of the old content.\<close>

definition clean_cut :: "nat \<Rightarrow> nat \<Rightarrow> nat \<Rightarrow> bool" where
  "clean_cut B len e \<longleftrightarrow> len \<le> e \<or> len < B \<or> e \<le> len div B * B"

lemma length_patched: "off \<le> length old \<Longrightarrow> length (patched old off up) = max (length old) (off + length up)"
  by (simp add: patched_def)

lemma block_of_patched_before:
  "\<lbrakk>off \<le> length old; Suc j * B \<le> off\<rbrakk> \<Longrightarrow> take B (drop (j * B) (patched old off up)) = take B (drop (j * B) old)"
proof -
  assume a: "off \<le> length old" "Suc j * B \<le> off"
  then have b: "j * B \<le> off" "B \<le> off - j * B" by simp_all
  with a(1) show ?thesis by (simp add: patched_def drop_take)
qed

lemma block_of_patched_after:
  "\<lbrakk>off + length up \<le> j * B; off \<le> length old\<rbrakk> \<Longrightarrow>
    take B (drop (j * B) (patched old off up)) = take B (drop (j * B) old)"
  by (simp add: patched_def)

lemma cut_block_ok:
  assumes B: "0 < B" and off: "off \<le> length old" and i: "off div B \<le> i" "i * B - off < length up"
    and ok: "clean_cut B (length old) (off + length up)"
  shows "\<exists>k rd up' tot. cut_block B (length old) off (off + length up) (off mod B) False
      (drop (i * B) old) (drop (i * B - off) up) (i * B)
      = Some (take B (drop (i * B) (patched old off up)), k, rd, up', tot)
    \<and> up' = drop (Suc i * B - off) up \<and> (up' \<noteq> [] \<longrightarrow> rd = drop (Suc i * B) old \<and> tot = Suc i * B)"
proof -
  let ?e = "off + length up" and ?q = "off - i * B"
  define p where "p = take ?q (drop (i * B) old)"
  have q: "?q \<le> length old - i * B" "?q < B"
  proof -
    show "?q \<le> length old - i * B" using off by simp
    have "off < Suc (off div B) * B" using B using mod_less_divisor [OF B, of off] div_mult_mod_eq [of off B] unfolding mult_Suc by linarith
    also have "\<dots> \<le> Suc i * B" using i(1) by simp
    finally show "?q < B" using B by simp
  qed
  have lp: "length p = ?q" using q(1) by (simp add: p_def)
  have first: "(if i * B < off then
        (case buf_read (off mod B) (drop (i * B) old) of
           (None, r) \<Rightarrow> None | (Some d, r) \<Rightarrow> Some (d, length d, r, i * B + length d))
      else Some ([], 0, drop (i * B) old, i * B))
      = Some (p, ?q, drop (max (i * B) off) old, max (i * B) off)"
  proof (cases "i * B < off")
    case True
    have "off div B = i"
    proof (rule antisym [OF i(1)])
      have "i * B < Suc (off div B) * B" using True dividend_less_times_div [OF B, of off] by (simp add: mult.commute)
      then have "i < Suc (off div B)" using mult_less_cancel2 by blast
      then show "i \<le> off div B" by simp
    qed
    then have m: "off mod B = ?q" by (metis minus_div_mult_eq_mod)
    have "drop (i * B) old \<noteq> []" using True off by simp
    with True m lp show ?thesis by (simp add: buf_read_def p_def max_def)
  next
    case False
    then show ?thesis by (simp add: p_def max_def)
  qed
  let ?u = "drop (i * B - off) up"
  define x where "x = take (B - ?q) ?u"
  have un: "?u \<noteq> []" using i(2) by simp
  have second: "buf_read (u32_sub B ?q) ?u = (Some x, drop (Suc i * B - off) up)"
  proof -
    have "B - ?q + (i * B - off) = Suc i * B - off"
      using q(2) by (cases "i * B < off") simp_all
    with un q(2) show ?thesis by (simp add: buf_read_def u32_sub_def x_def)
  qed
  have lx: "length x = min (B - ?q) (length up - (i * B - off))" by (simp add: x_def min.commute)
  have t2: "max (i * B) off + length x = min (Suc i * B) ?e"
    using q(2) lx i(2) by (cases "i * B < off") (auto simp: min_def max_def)
  have t1: "off \<le> max (i * B) off" "max (i * B) off < ?e" using i(2) un by auto
  have px: "p @ x = take (min B (?e - i * B)) (drop (i * B) (patched old off up))"
  proof (cases "i * B < off")
    case True
    then have "drop (i * B) (patched old off up) = drop (i * B) (take off old) @ up @ drop ?e old"
      using off by (simp add: patched_def)
    moreover have "drop (i * B) (take off old) = p" by (simp add: p_def drop_take)
    ultimately show ?thesis using lp True q(2) by (simp add: x_def min_def)
  next
    case False
    then have "drop (i * B) (patched old off up) = drop (i * B - off) up @ drop ?e old"
      using off i(2) by (simp add: patched_def)
    with False show ?thesis using i(2) by (simp add: p_def x_def min_def)
  qed
  have lpx: "length (p @ x) = min B (?e - i * B)"
    using lp lx q(2) i(2) by (cases "i * B < off") (auto simp: min_def)
  show ?thesis
  proof (cases "Suc i * B \<le> ?e")
    case True
    then have "length (p @ x) = B" "p @ x = take B (drop (i * B) (patched old off up))"
      using lpx px by (simp_all add: min_def)
    moreover have "max (i * B) off + length x = Suc i * B" using t2 True by simp
    ultimately show ?thesis
      using first second t1 lp q(2) by (simp add: cut_block_def add.commute)
  next
    case False
    then have end2: "max (i * B) off + length x = ?e" and short: "length (p @ x) = ?e - i * B" "length (p @ x) \<noteq> B"
      using t2 lpx by (auto simp: min_def)
    have lt: "i * B < ?e" using i(2) un by simp
    have up0: "drop (Suc i * B - off) up = []" using False by simp
    show ?thesis
    proof (cases "?e < length old")
      case no_fill: False
      have "p @ x = drop (i * B) (patched old off up)"
        using px False no_fill length_patched [OF off, of up] by (simp add: min_def)
      then have "p @ x = take B (drop (i * B) (patched old off up))"
        using short(1) False by (metis take_all nat_le_linear le_diff_conv add.commute mult_Suc)
      with first second t1 lp q(2) end2 no_fill up0 short(2) show ?thesis by (simp add: cut_block_def)
    next
      case True
      let ?sz = "if length old < B then length old else B"
      define k where "k = ?sz - length (p @ x)"
      have kr: "k = min (Suc i * B) (length old) - ?e" "k + ?e \<le> length old"
      proof -
        show "k = min (Suc i * B) (length old) - ?e"
        proof (cases "length old < B")
          case small: True
          then have "i = 0" using lt True by (cases i) auto
          with small short(1) True show ?thesis by (simp add: k_def min_def)
        next
          case big: False
          then have "?e \<le> length old div B * B" using ok True by (simp add: clean_cut_def)
          with lt have "i * B < length old div B * B" by (rule less_le_trans)
          then have "Suc i \<le> length old div B" using mult_less_cancel2 by (simp add: Suc_le_eq)
          then have "Suc i * B \<le> length old" by (metis div_times_less_eq_dividend mult_le_mono1 order_trans)
          with big short(1) lt show ?thesis by (simp add: k_def min_def)
        qed
        then show "k + ?e \<le> length old" using True False by (simp add: min_def)
      qed
      have sub: "u32_sub ?sz (length (p @ x)) = k"
        using short(1) lt True False kr(1) by (auto simp: u32_sub_def k_def min_def split: if_splits)
      have rd: "drop (length x) (drop (max (i * B) off) old) = drop ?e old" using end2 by (simp add: add.commute)
      have third: "buf_read k (drop ?e old) = (Some (take k (drop ?e old)), drop (k + ?e) old)"
        using True by (simp add: buf_read_def)
      have full: "k - length (take k (drop ?e old)) = 0" using kr(2) by simp
      have dat: "p @ x @ take k (drop ?e old) = take B (drop (i * B) (patched old off up))"
      proof -
        have N: "drop (i * B) (patched old off up) = (p @ x) @ drop ?e old"
        proof -
          have "?e - i * B \<le> B" using False unfolding mult_Suc by linarith
          then have px': "p @ x = take (?e - i * B) (drop (i * B) (patched old off up))"
            using px by (simp only: min.absorb2)
          have "drop (?e - i * B) (drop (i * B) (patched old off up)) = drop ?e (patched old off up)"
            using lt by simp
          also have "\<dots> = drop ?e old" using off by (simp add: patched_def)
          finally show ?thesis using px' by (metis append_take_drop_id)
        qed
        have "take B ((p @ x) @ drop ?e old) = (p @ x) @ take (B - length (p @ x)) (drop ?e old)"
          using short False by (simp add: le_diff_conv)
        also have "take (B - length (p @ x)) (drop ?e old) = take k (drop ?e old)"
          using kr(1) short(1) False True lt by (cases "Suc i * B \<le> length old") (auto simp: min_def le_diff_conv)
        finally show ?thesis unfolding N by simp
      qed
      show ?thesis
        using first second t1 lp q(2) end2 True short(2) sub rd third full dat up0
        by (simp add: cut_block_def Let_def)
    qed
  qed
qed

text \<open>The blocks that the loop has written are those of the patched content.\<close>

definition written :: "libs \<Rightarrow> blobview \<Rightarrow> string \<Rightarrow> nat \<Rightarrow> bytes \<Rightarrow> nat \<Rightarrow> nat \<Rightarrow> (nat \<times> BlockInfo) list \<Rightarrow> bool" where
  "written lb V cmp B new s i refs \<longleftrightarrow> s \<le> i \<and> map fst refs = rev [s..<i]
     \<and> (\<forall>j \<in> {s..<i}. \<exists>bi. map_of refs j = Some bi \<and> stored lb V cmp bi (take B (drop (j * B) new)))"

lemma written_Cons:
  assumes "written lb V cmp B new s i refs" "stored lb V' cmp bi (take B (drop (i * B) new))" "V \<subseteq>\<^sub>m V'"
  shows "written lb V' cmp B new s (Suc i) ((i, bi) # refs)"
  unfolding written_def
proof (intro conjI ballI)
  from assms(1) have s: "s \<le> i" "map fst refs = rev [s..<i]" by (simp_all add: written_def)
  then show "s \<le> Suc i" "map fst ((i, bi) # refs) = rev [s..<Suc i]" by simp_all
  fix j assume j: "j \<in> {s..<Suc i}"
  show "\<exists>b. map_of ((i, bi) # refs) j = Some b \<and> stored lb V' cmp b (take B (drop (j * B) new))"
  proof (cases "j = i")
    case True
    with assms(2) show ?thesis by simp
  next
    case False
    with j have "j \<in> {s..<i}" by auto
    with assms(1) obtain b where "map_of refs j = Some b" "stored lb V cmp b (take B (drop (j * B) new))"
      unfolding written_def by blast
    with False stored_mono [OF _ assms(3)] show ?thesis by auto
  qed
qed

context storage
begin

lemma cut_loop_ok:
  assumes B: "0 < unat (fBlockSize m)" and off: "off \<le> length old" and cd: "codec_ok lb (fCompression m) (unat (fBlockSize m))"
    and cut: "clean_cut (unat (fBlockSize m)) (length old) (off + length up)"
    and nds: "newDataSize = max (length old) (off + length up)"
  shows "\<lbrakk>off div unat (fBlockSize m) \<le> i; length up - (i * unat (fBlockSize m) - off) < n;
    inv (b + (length up - (i * unat (fBlockSize m) - off))) w;
    written lb (blobs w) (fCompression m) (unat (fBlockSize m)) (patched old off up) (off div unat (fBlockSize m)) i refs;
    ctUpdater c = drop (i * unat (fBlockSize m) - off) up;
    ctUpdater c \<noteq> [] \<Longrightarrow> ctReader c = drop (i * unat (fBlockSize m)) old \<and> ctTotal c = i * unat (fBlockSize m);
    ctBlock c = i; ctErr c = None; ctRefs c = refs\<rbrakk> \<Longrightarrow>
   \<exists>i' c' w'. cut_loop n sv lb late m (length old) newDataSize off (off + length up) False c w = (Inr (), c', w')
     \<and> inv b w' \<and> feeds w' = feeds w \<and> blobs w \<subseteq>\<^sub>m blobs w' \<and> i \<le> i'
     \<and> written lb (blobs w') (fCompression m) (unat (fBlockSize m)) (patched old off up) (off div unat (fBlockSize m)) i' (ctRefs c')
     \<and> off + length up \<le> max off (i' * unat (fBlockSize m)) \<and> (i < i' \<longrightarrow> (i' - 1) * unat (fBlockSize m) < off + length up)"
proof (induction n arbitrary: i c w refs)
  case (Suc n)
  let ?B = "unat (fBlockSize m)" and ?e = "off + length up" and ?new = "patched old off up"
  show ?case
  proof (cases "ctUpdater c = []")
    case True
    then have "?e \<le> max off (i * ?B)" using Suc.prems(5) by auto
    moreover have "inv b w" by (rule inv_mono [OF Suc.prems(3)]) simp
    ultimately show ?thesis using True Suc.prems(4,9) by (auto simp: map_le_refl)
  next
    case False
    then have rest: "i * ?B - off < length up" using Suc.prems(5) by simp
    have rt: "ctReader c = drop (i * ?B) old" "ctTotal c = i * ?B" using Suc.prems(6) [OF False] by simp_all
    have lt: "i * ?B < ?e" using rest by simp
    from cut_block_ok [OF B off Suc.prems(1) rest cut] obtain k rd up' tot where
      cb: "cut_block ?B (length old) off ?e (off mod ?B) False (drop (i * ?B) old) (drop (i * ?B - off) up) (i * ?B)
        = Some (take ?B (drop (i * ?B) ?new), k, rd, up', tot)"
      "up' = drop (Suc i * ?B - off) up" "up' \<noteq> [] \<longrightarrow> rd = drop (Suc i * ?B) old \<and> tot = Suc i * ?B" by blast
    obtain h t where s: "sniff lb (take k (take ?B (drop (i * ?B) ?new))) (ctHead c, ctType c) = (h, t)" by fastforce
    have dec: "length up - (Suc i * ?B - off) < length up - (i * ?B - off)"
    proof -
      have "i * ?B - off < length up \<Longrightarrow> i * ?B - off < Suc i * ?B - off \<or> Suc i * ?B \<le> off" using B by auto
      moreover have "off < Suc i * ?B"
      proof -
        have "off < Suc (off div ?B) * ?B"
          using mod_less_divisor [OF B, of off] div_mult_mod_eq [of off ?B] unfolding mult_Suc by linarith
        also have "\<dots> \<le> Suc i * ?B" using Suc.prems(1) by simp
        finally show ?thesis .
      qed
      ultimately show ?thesis using rest by linarith
    qed
    have "inv (Suc (b + (length up - (Suc i * ?B - off)))) w"
      by (rule inv_mono [OF Suc.prems(3)]) (use dec in simp)
    then obtain bi w1 where u: "upload_block sv lb late (fCompression m) ?B i (take ?B (drop (i * ?B) ?new)) k (None, refs) w
        = ((None, (i, bi) # refs), w1)"
      "inv (b + (length up - (Suc i * ?B - off))) w1" "feeds w1 = feeds w" "blobs w \<subseteq>\<^sub>m blobs w1"
      "stored lb (blobs w1) (fCompression m) bi (take ?B (drop (i * ?B) ?new))"
      by (rule upload_block_ok [OF _ cd])
    let ?c = "\<lparr>ctReader = rd, ctUpdater = up', ctTotal = tot, ctBlock = Suc i, ctErr = None,
        ctRefs = (i, bi) # refs, ctHead = h, ctType = t\<rparr>"
    have run: "cut_loop (Suc n) sv lb late m (length old) newDataSize off ?e False c w
      = cut_loop n sv lb late m (length old) newDataSize off ?e False ?c w1"
    proof -
      have "ctTotal c < newDataSize" using rt lt nds by simp
      then show ?thesis using False rt cb(1) s u(1) Suc.prems(5,7-9)
        by (subst cut_loop.simps) (simp del: cut_loop.simps)
    qed
    have "\<exists>i' c' w'. cut_loop n sv lb late m (length old) newDataSize off ?e False ?c w1 = (Inr (), c', w')
     \<and> inv b w' \<and> feeds w' = feeds w1 \<and> blobs w1 \<subseteq>\<^sub>m blobs w' \<and> Suc i \<le> i'
     \<and> written lb (blobs w') (fCompression m) ?B ?new (off div ?B) i' (ctRefs c')
     \<and> ?e \<le> max off (i' * ?B) \<and> (Suc i < i' \<longrightarrow> (i' - 1) * ?B < ?e)"
      by (rule Suc.IH [of "Suc i" w1 "(i, bi) # refs"])
         (use Suc.prems(1,2) dec u(2) cb(2,3) written_Cons [OF Suc.prems(4) u(5) u(4)] in \<open>auto simp del: mult_Suc\<close>)
    then obtain i' c' w' where r: "cut_loop n sv lb late m (length old) newDataSize off ?e False ?c w1 = (Inr (), c', w')"
      "inv b w'" "feeds w' = feeds w1" "blobs w1 \<subseteq>\<^sub>m blobs w'" "Suc i \<le> i'"
      "written lb (blobs w') (fCompression m) ?B ?new (off div ?B) i' (ctRefs c')"
      "?e \<le> max off (i' * ?B)" "Suc i < i' \<longrightarrow> (i' - 1) * ?B < ?e" by blast
    have "(i' - 1) * ?B < ?e" using r(5,8) lt by (cases "i' = Suc i") auto
    with run r u(3) map_le_trans [OF u(4) r(4)] show ?thesis by (intro exI [of _ i']) auto
  qed
qed simp

end

text \<open>The list of blocks after the write.\<close>

lemma chunked_block:
  assumes "chunked B bs" "j < length bs" shows "bs ! j = take B (drop (j * B) (concat bs))"
proof (cases "Suc j < length bs")
  case True
  with drop_concat_block [OF assms] chunked_nth(3) [OF assms] show ?thesis by simp
next
  case False
  with drop_concat_block [OF assms] chunked_nth(2) [OF assms] show ?thesis by simp
qed

lemma chunked_length:
  assumes "chunked B bs" shows "j < length bs \<longleftrightarrow> j * B < length (concat bs)"
proof
  assume "j < length bs"
  with length_concat_block [OF assms this] chunked_nth(1) [OF assms this] show "j * B < length (concat bs)" by simp
next
  assume "j * B < length (concat bs)"
  from block_index [OF assms this] chunked_pos [OF assms] show "j < length bs" by simp
qed

lemma filter_ge_upt: "filter (\<lambda>j. L \<le> j) [s..<i] = [max L s..<i]"
  by (induction i) auto

lemma new_blocks_ok:
  assumes ch: "chunked B bs" and old: "blocks_at lb V cmp blocks bs" and off: "off \<le> length (concat bs)" and up: "up \<noteq> []"
    and wr: "written lb V cmp B (patched (concat bs) off up) (off div B) i refs"
    and i: "off + length up \<le> max off (i * B)" "(i - 1) * B < off + length up"
  obtains bs' where "concat bs' = patched (concat bs) off up" "chunked B bs'"
    "blocks_at lb V cmp (new_blocks blocks refs False x) bs'"
proof -
  let ?N = "patched (concat bs) off up" and ?L = "length bs" and ?s = "off div B"
  define bs' where "bs' = source_reads B [?N]"
  have B: "0 < B" using chunked_pos [OF ch] .
  have N: "?N \<noteq> []" using up by (simp add: patched_def)
  have cc: "concat bs' = ?N" and ch': "chunked B bs'"
    using concat_source_reads [of B "[?N]"] source_reads_full [OF B N] by (simp_all add: bs'_def)
  have e: "off + length up \<le> i * B" using i(1) up by (cases up) auto
  have sB: "?s * B \<le> off" by simp
  have sL: "?s \<le> ?L"
  proof (rule ccontr)
    assume "\<not> ?s \<le> ?L"
    then have "?L < ?s" by simp
    moreover have "length (concat bs) \<le> ?L * B" using chunked_length [OF ch, of ?L] by simp
    ultimately have "off \<le> ?L * B" "Suc ?L * B \<le> ?s * B" using off by (simp, intro mult_le_mono1, simp)
    with sB B show False unfolding mult_Suc by linarith
  qed
  have lb': "length blocks = ?L" using old by (simp add: blocks_at_def)
  from wr have keys: "map fst refs = rev [?s..<i]" "?s \<le> i" by (simp_all add: written_def)
  have n: "?L + length (remdups (filter (\<lambda>j. ?L \<le> j) (map fst refs))) = max ?L i"
  proof -
    have "filter (\<lambda>j. ?L \<le> j) (map fst refs) = rev [max ?L ?s..<i]"
      unfolding keys(1) rev_filter [symmetric] filter_ge_upt ..
    then show ?thesis using sL by (simp add: distinct_remdups_id)
  qed
  have i0: "0 < i" using e up by (cases i) auto
  have len: "j < max ?L i \<longleftrightarrow> j < length bs'" for j
  proof -
    have "j < i \<longleftrightarrow> j * B < off + length up"
    proof
      assume "j < i"
      then have "j \<le> i - 1" by simp
      then have "j * B \<le> (i - 1) * B" by (rule mult_le_mono1)
      then show "j * B < off + length up" using i(2) by (rule le_less_trans)
    next
      assume "j * B < off + length up"
      then have "j * B < i * B" using e by (rule less_le_trans)
      then show "j < i" using B by (simp only: mult_less_cancel2)
    qed
    moreover have "j < length bs' \<longleftrightarrow> j * B < max (length (concat bs)) (off + length up)"
      using chunked_length [OF ch', of j] length_patched [OF off, of up] cc by simp
    ultimately show ?thesis using chunked_length [OF ch, of j] by auto
  qed
  have eq: "length bs' = max ?L i"
  proof (rule antisym)
    show "length bs' \<le> max ?L i" using len [of "max ?L i"] by auto
    show "max ?L i \<le> length bs'" using len [of "length bs'"] by auto
  qed
  define rm where "rm = (\<lambda>j. case map_of refs j of
      Some b \<Rightarrow> Some b | None \<Rightarrow> if j < length blocks then blocks ! j else None)"
  have nb: "new_blocks blocks refs False x = map rm [0..<length bs']"
    using n lb' eq by (simp add: new_blocks_def rm_def Let_def)
  have at: "\<exists>bi. rm j = Some bi \<and> stored lb V cmp bi (bs' ! j)" if j: "j < length bs'" for j
  proof -
    have bj: "bs' ! j = take B (drop (j * B) ?N)" using chunked_block [OF ch' j] cc by simp
    show ?thesis
    proof (cases "j \<in> {?s..<i}")
      case True
      with wr obtain bi where "map_of refs j = Some bi" "stored lb V cmp bi (take B (drop (j * B) ?N))"
        unfolding written_def by blast
      with bj show ?thesis by (simp add: rm_def)
    next
      case False
      have "j \<notin> fst ` set refs" using False keys(1) by (metis atLeastLessThan_upt image_set set_rev)
      then have none: "map_of refs j = None" by (simp add: map_of_eq_None_iff)
      have jL: "j < ?L" using False j eq sL by auto
      with old obtain bi where bi: "blocks ! j = Some bi" "stored lb V cmp bi (bs ! j)"
        unfolding blocks_at_stored by blast
      have "take B (drop (j * B) ?N) = take B (drop (j * B) (concat bs))"
      proof (cases "j < ?s")
        case True
        then have "Suc j * B \<le> ?s * B" by (intro mult_le_mono1) simp
        then have "Suc j * B \<le> off" using sB by (rule order_trans)
        then show ?thesis by (rule block_of_patched_before [OF off])
      next
        case False
        then have "i * B \<le> j * B" using \<open>j \<notin> {?s..<i}\<close> by simp
        with e have "off + length up \<le> j * B" by (rule order_trans)
        then show ?thesis by (rule block_of_patched_after [OF _ off])
      qed
      with bj chunked_block [OF ch jL] bi none jL lb' show ?thesis by (simp add: rm_def)
    qed
  qed
  show thesis
    by (rule that [OF cc ch']) (simp add: blocks_at_stored nb at)
qed

context storage
begin

lemma WriteAt_ok:
  assumes b: "inv (b + length up + 2) w" and at: "file_at sv lb (feeds w) (blobs w) (flUser f) path pw m bs"
    and lbs: "caps_ok lb" "codec_ok lb (fCompression m) (unat (fBlockSize m))"
    and p: "CombinePathAndFile arg [] = path" "length path \<le> maxlen" "flMap f path \<in> {None, Some m}"
      "CombinePathAndFile (fPath m) (fName m) = path"
    and fit: "\<And>m'. fPath m' = fPath m \<and> fName m' = fName m \<Longrightarrow> storable sv (bytes_of pw) (Doc (DFileMeta m'))"
    and up: "up \<noteq> []" "off \<le> length (concat bs)"
      "clean_cut (unat (fBlockSize m)) (length (concat bs)) (off + length up)"
      "length (patched (concat bs) off up) < 2 ^ 64"
  obtains m' bs' w' where "WriteAt sv lb late f arg pw up off False w
      = (Inr (length up), AddToFileMap path m' (AddToFileMap path m' (AddToFileMap path m f)), w')"
    "inv b w'" "concat bs' = patched (concat bs) off up"
    "file_at sv lb (feeds w') (blobs w') (flUser f) path pw m' bs'"
    "feed_written (feeds w) (feeds w') (flUser f) (HashString sv path) (bytes_of pw) (Doc (DFileMeta m'))"
proof -
  let ?B = "unat (fBlockSize m)" and ?C = "concat bs" and ?f1 = "AddToFileMap path m f"
  from at obtain blocks where m: "feeds w (flUser f, HashString sv path, bytes_of pw) = Some (Doc (DFileMeta m))"
    "chunked ?B bs" "unat (fSize m) = length ?C"
    "blobs w (fInodeAddress m) = Some (Doc (DFileInode blocks))" "blocks_at lb (blobs w) (fCompression m) blocks bs"
    by (auto simp: file_at_def)
  have B: "0 < ?B" using chunked_pos [OF m(2)] .
  obtain w1 where 1: "FileGetInode sv f pw path w = (Some m, ?f1, w1)" "inv (b + length up + 2) w1"
    "feeds w1 = feeds w" "blobs w1 = blobs w" by (rule FileGetInode_ok [OF b m(1) p(3)])
  obtain d w2 where d: "DownloadBlob sv (fInodeAddress m) w1 = (d, w2)" by fastforce
  from download_blob [OF 1(2) d] m(4) 1 have 2: "d = Inr (Doc (DFileInode blocks), 200)" "inv (b + length up + 2) w2"
    "feeds w2 = feeds w" "blobs w2 = blobs w" by auto
  let ?r = "NewReader blocks (length ?C) ?B (fCompression m) False"
  have ba: "blocks_at lb (blobs w2) (rdCompression ?r) (rdBlocks ?r) bs" using m(5) 2(4) by (simp add: NewReader_def)
  obtain r' w3 where 3: "read_all (Suc (length ?C)) sv lb 0 [] ?r w2 = (Inr ?C, r', w3)" "inv (b + length up + 2) w3"
    "feeds w3 = feeds w" "blobs w3 = blobs w"
    using read_all_ok [OF 2(2) ba m(2) reader_at_new [OF m(2)], of "Suc (length ?C)" 0 "[]"] lbs(1) 2(3,4)
    by (auto simp: caps_ok_def simp del: read_all.simps)
  let ?N = "patched ?C off up"
  define ct0 where "ct0 = \<lparr>ctReader = drop (off div ?B * ?B) ?C, ctUpdater = up,
      ctTotal = off div ?B * ?B, ctBlock = off div ?B, ctErr = None, ctRefs = [],
      ctHead = [], ctType = fContentType m\<rparr>"
  define nds where "nds = (if off + length up > length ?C then off + length up else length ?C)"
  have nds: "nds = max (length ?C) (off + length up)" by (simp add: nds_def max_def)
  have i0: "off div ?B * ?B - off = 0" by simp
  have inv3: "inv (b + 2 + (length up - (off div ?B * ?B - off))) w3" using 3(2) by (simp add: ac_simps)
  have w0: "written lb (blobs w3) (fCompression m) ?B ?N (off div ?B) (off div ?B) []"
    by (simp add: written_def)
  obtain i' ct w4 where 4: "cut_loop (Suc (length up)) sv lb late m (length ?C) nds off (off + length up) False ct0 w3 = (Inr (), ct, w4)"
    "inv (b + 2) w4" "feeds w4 = feeds w3" "blobs w3 \<subseteq>\<^sub>m blobs w4" "off div ?B \<le> i'"
    "written lb (blobs w4) (fCompression m) ?B ?N (off div ?B) i' (ctRefs ct)"
    "off + length up \<le> max off (i' * ?B)" "off div ?B < i' \<longrightarrow> (i' - 1) * ?B < off + length up"
    using cut_loop_ok [OF B up(2) lbs(2) up(3) nds, of "off div ?B" "Suc (length up)" "b + 2" w3 "[]" ct0 late] inv3 w0
    by (fastforce simp: ct0_def)
  have "off div ?B < i'"
  proof (rule ccontr)
    assume "\<not> off div ?B < i'"
    then have "i' * ?B \<le> off div ?B * ?B" by (intro mult_le_mono1) simp
    also have "\<dots> \<le> off" by simp
    finally show False using 4(7) up(1) by (simp add: max_def split: if_splits)
  qed
  with 4(8) have i': "(i' - 1) * ?B < off + length up" by blast
  have V: "blobs w \<subseteq>\<^sub>m blobs w4" using 4(4) 3(4) by simp
  obtain bs' where nb: "concat bs' = ?N" "chunked ?B bs'"
    "blocks_at lb (blobs w4) (fCompression m) (new_blocks blocks (ctRefs ct) False (ctBlock ct)) bs'"
    by (rule new_blocks_ok [OF m(2) blocks_at_mono [OF m(5) V] up(2,1) 4(6,7) i'])
  let ?blocks = "new_blocks blocks (ctRefs ct) False (ctBlock ct)"
  obtain q w5 where q: "UploadBlob sv (Doc (DFileInode ?blocks)) w4 = (q, w5)" by fastforce
  have "inv (Suc (Suc b)) w4" using 4(2) by simp
  from upload_le [OF this q] obtain addr where 5: "q = Inr addr" "inv (Suc b) w5" "feeds w5 = feeds w4"
    "blobs w4 \<subseteq>\<^sub>m blobs w5" "blobs w5 addr = Some (Doc (DFileInode ?blocks))" by blast
  define m' where "m' = m\<lparr>fContentType := ctType ct, fInodeAddress := addr, fSize := of_nat nds\<rparr>"
  let ?f2 = "AddToFileMap path m' ?f1"
  have pm: "CombinePathAndFile (fPath m') (fName m') = path" using p(4) by (simp add: m'_def)
  have fu: "flUser ?f2 = flUser f" by (simp add: AddToFileMap_def)
  have len: "length (CombinePathAndFile (fPath m') (fName m')) \<le> maxlen" using pm p(2) by simp
  have t': "file_topic_ok (feeds w5) sv (flUser ?f2) (CombinePathAndFile (fPath m') (fName m')) pw"
    unfolding pm fu using m(1) 5(3) 4(3) 3(3) by (simp add: file_topic_ok_def)
  obtain w6 where h: "handleMeta sv ?f2 m' pw w5 = (Inr (), w6)" "inv b w6" "blobs w6 = blobs w5"
    "feed_written (feeds w5) (feeds w6) (flUser f) (HashString sv path) (bytes_of pw) (Doc (DFileMeta m'))"
    by (rule handleMeta_ok [OF 5(2) len fit t', unfolded pm fu]) (simp_all add: m'_def)
  have sz: "unat (fSize m') = length (concat bs')"
    using up(4) nb(1) length_patched [OF up(2), of up] by (simp add: m'_def nds unat_of_nat take_bit_nat_eq_self)
  have "blocks_at lb (blobs w6) (fCompression m) ?blocks bs'"
    unfolding h(3) by (rule blocks_at_mono [OF nb(3) 5(4)])
  then have at': "file_at sv lb (feeds w6) (blobs w6) (flUser f) path pw m' bs'"
    using feed_writtenD(1) [OF h(4)] nb(2) sz 5(5) h(3) by (auto simp: file_at_def m'_def)
  have nd: "(if length ?C < off + length up then off + length up else if False then length up else length ?C) = nds"
    by (simp add: nds_def)
  have run: "WriteAt sv lb late f arg pw up off False w = (Inr (length up), AddToFileMap path m' ?f2, w6)"
    using p(1) 1(1) d 2(1) 3(1) m(3) up(2) B 4(1) q 5(1) h(1) pm
    by (simp add: WriteAt_def Let_def inode_of_def nd ct0_def [symmetric] m'_def [symmetric]
        del: read_all.simps cut_loop.simps mult_Suc split del: if_split)
  have "feed_written (feeds w) (feeds w6) (flUser f) (HashString sv path) (bytes_of pw) (Doc (DFileMeta m'))"
    using h(4) 5(3) 4(3) 3(3) by simp
  with that run h(2) nb(1) at' show thesis by blast
qed

end

section \<open>Properties\<close>

text \<open>C10: RmFile removes a file or leaves its metadata.  Any call to the feeds and the blob
  store may fail (removal).  When RmFile returns without an error, the inode and all blocks
  of the file are gone and no other blob is, the path is no file any more, for the File
  object that removed it and for one with an empty map, and no other feed has changed.  When
  it returns an error, no feed has changed, so the metadata is still there, and what is gone
  is the inode and the blocks up to the one that could not be deleted.  Over a storage that
  keeps its contract it returns without an error.  The hypothesis about the references
  excludes a file whose blocks share a blob.\<close>

theorem RmFile_removes:
  assumes "removal sv maxlen good feeds blobs" "good (Suc b) w"
    "file_at sv lb (feeds w) (blobs w) (flUser f) path pw m bs"
    "CombinePathAndFile path [] = path" "length path \<le> maxlen" "flMap f path \<in> {None, Some m}"
    "blobs w (fInodeAddress m) = Some (Doc (DFileInode bl))" "distinct (file_refs m bl)"
    "RmFile sv f path pw w = (r, f', w')"
  shows "(case r of
      Inl e \<Rightarrow> feeds w' = feeds w \<and> flMap f' path \<in> {flMap f path, Some m}
        \<and> (\<exists>k \<le> length (file_refs m bl). blobs w' = without (take k (file_refs m bl)) (blobs w))
    | Inr u \<Rightarrow> blobs w' = without (file_refs m bl) (blobs w)
        \<and> not_file sv f' path pw w' \<and> not_file sv (RemoveAllFromFileMap f) path pw w'
        \<and> (\<forall>u' t p. (u', t) = (flUser f, HashString sv path) \<or> feeds w' (u', t, p) = feeds w (u', t, p)))
    \<and> (storage sv maxlen good feeds blobs \<longrightarrow> r = Inr ())"
proof -
  from removal.RmFile_steps [OF assms] obtain k where k: "k \<le> length (file_refs m bl)"
    "blobs w' = without (take k (file_refs m bl)) (blobs w)"
    "case r of
       Inl e \<Rightarrow> feeds w' = feeds w \<and> f' \<in> {f, AddToFileMap path m f}
     | Inr u \<Rightarrow> k = length (file_refs m bl) \<and> good b w' \<and> f' = RemoveFromFileMap path (AddToFileMap path m f)
         \<and> feed_written (feeds w) (feeds w') (flUser f) (HashString sv path) (bytes_of pw) deleted_mark" by blast
  have "r = Inr ()" if st: "storage sv maxlen good feeds blobs"
    by (rule storage.RmFile_ok [OF st assms(2-8)]) (use assms(9) in simp)
  moreover have "not_file sv g path pw w'" if "r = Inr u" "flUser g = flUser f" "flMap g path = None" for g u
    by (rule removal.marked_not_file [OF assms(1) _ _ that(3) assms(4), where b = b])
       (use k(3) that feed_writtenD(1) in auto)
  ultimately show ?thesis
    using k by (cases r) (auto simp: RemoveFromFileMap_def AddToFileMap_def RemoveAllFromFileMap_def feed_written_def)
qed

text \<open>C9: WriteAt patches a file.  On a file whose content is in the store, an
  update that starts inside the file, is not empty and does not end inside a
  partial last block (clean_cut) succeeds without truncation: it reports the
  length of the update, and a download by the same File object, or by one that
  has lost its map, gives the old content with the update written over it.\<close>

theorem WriteAt_patches:
  assumes "storage sv maxlen good feeds blobs" "good (b + length up + 2) w"
    "file_at sv lb (feeds w) (blobs w) (flUser f) path pw m bs" "caps_ok lb" "codec_ok lb (fCompression m) (unat (fBlockSize m))"
    "CombinePathAndFile path [] = path" "length path \<le> maxlen" "flMap f path \<in> {None, Some m}"
    "CombinePathAndFile (fPath m) (fName m) = path"
    "\<And>m'. fPath m' = fPath m \<and> fName m' = fName m \<Longrightarrow> storable sv (bytes_of pw) (Doc (DFileMeta m'))"
    "up \<noteq> []" "off \<le> length (concat bs)" "clean_cut (unat (fBlockSize m)) (length (concat bs)) (off + length up)"
    "length (patched (concat bs) off up) < 2 ^ 64"
  shows "\<exists>f' w'. WriteAt sv lb late f path pw up off False w = (Inr (length up), f', w') \<and> good b w'
    \<and> (\<forall>g \<in> {f', RemoveAllFromFileMap f}. \<exists>r g' w1.
         Download sv g path pw w' = (Inr (r, max (length (concat bs)) (off + length up)), g', w1)
         \<and> (\<forall>n > max (length (concat bs)) (off + length up).
              \<exists>r' w2. read_all n sv lb 0 [] r w1 = (Inr (patched (concat bs) off up), r', w2)))"
proof -
  obtain m' bs' w' where u: "WriteAt sv lb late f path pw up off False w
      = (Inr (length up), AddToFileMap path m' (AddToFileMap path m' (AddToFileMap path m f)), w')"
    "good b w'" "concat bs' = patched (concat bs) off up"
    "file_at sv lb (feeds w') (blobs w') (flUser f) path pw m' bs'"
    by (rule storage.WriteAt_ok [OF assms(1-14), of late]) auto
  have len: "length (concat bs') = max (length (concat bs)) (off + length up)"
    unfolding u(3) by (rule length_patched [OF assms(12)])
  have "\<exists>r g' w1. Download sv g path pw w' = (Inr (r, length (concat bs')), g', w1)
      \<and> (\<forall>n > length (concat bs'). \<exists>r' w2. read_all n sv lb 0 [] r w1 = (Inr (concat bs'), r', w2))"
    if g: "g \<in> {AddToFileMap path m' (AddToFileMap path m' (AddToFileMap path m f)), RemoveAllFromFileMap f}" for g
  proof -
    have g': "flUser g = flUser f" "flMap g path \<in> {None, Some m'}"
      using g by (auto simp: AddToFileMap_def RemoveAllFromFileMap_def)
    have at: "file_at sv lb (feeds w') (blobs w') (flUser g) path pw m' bs'"
      using u(4) g'(1) by simp
    show ?thesis
    proof (rule storage.Download_ok [OF assms(1) u(2) at assms(4,6) g'(2)])
      fix r w1
      assume d: "Download sv g path pw w' = (Inr (r, length (concat bs')), AddToFileMap path m' g, w1)"
        and a: "\<And>n. length (concat bs') < n \<Longrightarrow> \<exists>r' w''. read_all n sv lb 0 [] r w1 = (Inr (concat bs'), r', w'')
          \<and> good b w'' \<and> feeds w'' = feeds w' \<and> blobs w'' = blobs w'"
      from a have "\<forall>n > length (concat bs'). \<exists>r' w2. read_all n sv lb 0 [] r w1 = (Inr (concat bs'), r', w2)" by blast
      with d show ?thesis by blast
    qed
  qed
  then have "\<forall>g \<in> {AddToFileMap path m' (AddToFileMap path m' (AddToFileMap path m f)), RemoveAllFromFileMap f}.
      \<exists>r g' w1. Download sv g path pw w' = (Inr (r, length (concat bs')), g', w1)
        \<and> (\<forall>n > length (concat bs'). \<exists>r' w2. read_all n sv lb 0 [] r w1 = (Inr (concat bs'), r', w2))"
    by (rule ballI)
  from this [unfolded len, unfolded u(3)] show ?thesis
    by (intro exI conjI) (rule u(1), rule u(2), assumption)
qed

end
