(* ===== verification/FileRuns.thy ===== *)
theory FileRuns
  imports MemSwarm FileEdit
begin

text \<open>
  Runs of the file operations on the Swarm in memory: witnesses that the
  hypotheses of the file properties can hold.
\<close>

definition run_libs :: libs where
  "run_libs = \<lparr>GzipC = \<lambda>n d. if n \<le> 16384 then Inl (Service ''gzip'') else Inr d, GzipD = \<lambda>n d. Inr d, SnappyC = \<lambda>d. d, SnappyD = \<lambda>d. Inr d,
     DetectContentType = \<lambda>d. ''text/plain'', BufCap = \<lambda>i. 512\<rparr>"

definition run_file :: File where
  "run_file = \<lparr>flUser = [1], flMap = Map.empty\<rparr>"

lemma run_libs_ok: "caps_ok run_libs" "codec_ok run_libs ''gzip'' MinBlockSize"
  by (simp_all add: caps_ok_def codec_ok_def run_libs_def Compress_def Decompress_def MinBlockSize_def)

lemma run_codec: "codec_ok run_libs ''gzip'' (unat (1000000 :: 32 word))"
  using run_libs_ok(2) by (simp add: MinBlockSize_def)

lemma run_reads: "source_reads 1000000 [[1, 2, 3]] = [[1, 2, 3]]"
  by simp

lemma run_path: "CombinePathAndFile ''/'' ''a'' = ''/a''" "CombinePathAndFile ''/a'' [] = ''/a''"
  by (simp_all add: CombinePathAndFile_def TrimPrefix_def)

lemma run_storable: "storable mem_services pw (Doc d)"
  by (simp add: storable_def services_of_def mem_bee_def MaxChunkLength_def)

text \<open>The file /a with the content 1 2 3 in the store.\<close>

abbreviation run_bytes :: "bytes list" where "run_bytes \<equiv> [[1, 2, 3]]"

abbreviation run_upload :: "((bytes \<times> Address) Handler \<times> memnet) \<Rightarrow> unit result \<times> File \<times> ((bytes \<times> Address) Handler \<times> memnet)" where
  "run_upload \<equiv> Upload mem_services run_libs (\<lambda>i. False) run_file run_bytes ''a'' 3 1000000 0 ''/'' ''gzip'' []"

lemma run_uploaded:
  obtains m w where "mem_good 100 w" "run_upload mem_start = (Inr (), AddToFileMap ''/a'' m run_file, w)"
    "file_at mem_services run_libs (mem_feeds w) (mem_blobs w) (flUser run_file) ''/a'' [] m run_bytes"
    "fCompression m = ''gzip''" "fBlockSize m = 1000000" "fPath m = ''/''" "fName m = ''a''"
proof -
  have g: "mem_good (100 + length (source_reads (unat (1000000 :: 32 word)) run_bytes) + 2) mem_start"
    by (simp add: mem_start_good)
  show thesis
    by (rule storage.Upload_ok [OF mem_storage g _ _ _ _ run_codec run_path(1) [symmetric],
          of "3" run_file "[]" "\<lambda>i. False" 0])
       (use that in \<open>simp_all add: MinBlockSize_def MaxBlockSize_def chunked_def file_topic_ok_def mem_start_empty
          run_storable bytes_of_def\<close>)
qed

lemma upload_download_witness:
  "\<exists>f w r g w1 r' w2. run_upload mem_start = (Inr (), f, w)
     \<and> Download mem_services (RemoveAllFromFileMap run_file) ''/a'' [] w = (Inr (r, 3), g, w1)
     \<and> read_all 4 mem_services run_libs 0 [] r w1 = (Inr [1, 2, 3], r', w2)"
proof -
  have g: "mem_good (100 + length (source_reads (unat (1000000 :: 32 word)) run_bytes) + 2) mem_start"
    by (simp add: mem_start_good)
  have "\<exists>f' w'. run_upload mem_start = (Inr (), f', w') \<and> mem_good 100 w' \<and> (\<forall>g \<in> {f', RemoveAllFromFileMap run_file}.
     \<exists>r g' w1 r' w2. Download mem_services g ''/a'' [] w' = (Inr (r, length (concat run_bytes)), g', w1)
       \<and> read_all (Suc (length (concat run_bytes))) mem_services run_libs 0 [] r w1 = (Inr (concat run_bytes), r', w2))"
    by (rule upload_download [OF mem_storage g _ _ _ _ run_codec run_libs_ok(1) run_path(1) [symmetric]])
       (simp_all add: MinBlockSize_def MaxBlockSize_def chunked_def file_topic_ok_def mem_start_empty
          run_storable bytes_of_def run_path)
  then show ?thesis by (simp add: eval_nat_numeral(2,3)) blast
qed

text \<open>Services that refuse to delete some references.\<close>

definition stubborn :: "bytes set \<Rightarrow> 'w services \<Rightarrow> 'w services" where
  "stubborn bad sv = sv\<lparr>DeleteReference :=
     (\<lambda>ref w. if ref \<in> bad then (Inl (Service ''not deleted''), w) else DeleteReference sv ref w)\<rparr>"

lemma stubborn_simps [simp]:
  "GetFeedData (stubborn bad sv) = GetFeedData sv" "DownloadBlob (stubborn bad sv) = DownloadBlob sv"
  "UpdateFeed (stubborn bad sv) = UpdateFeed sv" "HashString (stubborn bad sv) = HashString sv"
  "DocLen (stubborn bad sv) = DocLen sv"
  by (simp_all add: stubborn_def)

lemma stubborn_len [simp]: "content_len (stubborn bad sv) c = content_len sv c"
  by (induction c) simp_all

lemma stubborn_none: "stubborn {} sv = sv"
  by (simp add: stubborn_def)

interpretation mem_rm: removal "stubborn bad mem_services" 31 mem_good mem_feeds mem_blobs for bad
proof
  fix b w t u pw rg w'
  assume "mem_good b w" "GetFeedData (stubborn bad mem_services) t u pw w = (rg, w')"
  with storage.get_feed [OF mem_storage, of b w t u pw rg w']
  show "mem_good b w' \<and> mem_feeds w' = mem_feeds w \<and> mem_blobs w' = mem_blobs w
        \<and> (\<forall>a d. rg = Inr (a, d) \<longrightarrow> mem_feeds w (u, t, pw) = Some d)"
    by (cases "mem_feeds w (u, t, pw)") auto
next
  fix b w ref rd w'
  assume "mem_good b w" "DownloadBlob (stubborn bad mem_services) ref w = (rd, w')"
  with storage.download_blob [OF mem_storage, of b w ref rd w']
  show "mem_good b w' \<and> mem_feeds w' = mem_feeds w \<and> mem_blobs w' = mem_blobs w
        \<and> (\<forall>c code. rd = Inr (c, code) \<longrightarrow> mem_blobs w ref = Some c)"
    by (cases "mem_blobs w ref") auto
next
  fix b w ref rn w'
  assume a: "mem_good b w" "mem_blobs w ref \<noteq> None" "DeleteReference (stubborn bad mem_services) ref w = (rn, w')"
  show "mem_good b w' \<and> mem_feeds w' = mem_feeds w
        \<and> mem_blobs w' = (if is_ok rn then (mem_blobs w)(ref := None) else mem_blobs w)"
  proof (cases "ref \<in> bad")
    case True
    with a show ?thesis by (auto simp: stubborn_def)
  next
    case False
    with a(3) have d: "DeleteReference mem_services ref w = (rn, w')" by (simp add: stubborn_def)
    with a(2) have "mem_blobs w' = (mem_blobs w)(ref := None)" by (auto simp: services_of_def mem_bee_def split: prod.splits)
    with storage.delete_ref [OF mem_storage a(1,2) d] show ?thesis by simp
  qed
next
  fix b w pw d s t u rn w'
  assume "mem_good (Suc b) w" "storable (stubborn bad mem_services) pw d" "length s \<le> 31" "t = HashString (stubborn bad mem_services) s"
    "UpdateFeed (stubborn bad mem_services) u t d pw w = (rn, w')"
  with storage.update_feed [OF mem_storage, of b w pw d s t u rn w']
  show "mem_blobs w' = mem_blobs w \<and> (if is_ok rn then mem_good b w' \<and> feed_written (mem_feeds w) (mem_feeds w') u t pw d
      else mem_feeds w' = mem_feeds w)"
    by (simp add: storable_def)
qed

text \<open>The file is removed, or, where its inode cannot be deleted, still there.\<close>

lemma RmFile_removes_witness:
  "\<exists>(m :: FileMeta) w f1 w1 e f2 w2. mem_blobs w (fInodeAddress m) \<noteq> None
     \<and> RmFile mem_services run_file ''/a'' [] w = (Inr (), f1, w1) \<and> not_file mem_services f1 ''/a'' [] w1
     \<and> mem_blobs w1 (fInodeAddress m) = None
     \<and> RmFile (stubborn {fInodeAddress m} mem_services) run_file ''/a'' [] w = (Inl e, f2, w2) \<and> mem_feeds w2 = mem_feeds w"
proof -
  obtain m w where u: "mem_good 100 w" 
    "file_at mem_services run_libs (mem_feeds w) (mem_blobs w) (flUser run_file) ''/a'' [] m run_bytes"
    by (rule run_uploaded)
  have g: "mem_good (Suc 99) w" using u(1) by simp
  from u(2) obtain bi z where b: "mem_blobs w (fInodeAddress m) = Some (Doc (DFileInode [Some bi]))"
    "mem_blobs w (bReference bi) = Some (Raw z)"
    "mem_feeds w (flUser run_file, HashString mem_services ''/a'', bytes_of []) = Some (Doc (DFileMeta m))"
    by (auto simp: file_at_def blocks_at_def length_Suc_conv)
  then have "fInodeAddress m \<noteq> bReference bi" by auto
  with b obtain bl where bl: "mem_blobs w (fInodeAddress m) = Some (Doc (DFileInode bl))" "distinct (file_refs m bl)"
    "mem_feeds w (flUser run_file, HashString mem_services ''/a'', bytes_of []) = Some (Doc (DFileMeta m))"
    by (auto simp: file_refs_def)
  have p: "length ''/a'' \<le> 31" "flMap run_file ''/a'' \<in> {None, Some m}" by (simp_all add: run_file_def)
  obtain r1 f1 w1 where r1: "RmFile mem_services run_file ''/a'' [] w = (r1, f1, w1)" by (rule prod_cases3)
  note 1 = RmFile_removes [OF mem_rm.removal_axioms [of "{}", unfolded stubborn_none] g u(2) run_path(2) p bl(1,2) r1]
  have ok: "r1 = Inr ()" using 1 mem_storage by blast
  have fu: "flUser run_file = [1]" by (simp add: run_file_def)
  let ?sv = "stubborn {fInodeAddress m} mem_services"
  have at: "file_at ?sv run_libs (mem_feeds w) (mem_blobs w) (flUser run_file) ''/a'' [] m run_bytes"
    using u(2) by (simp add: file_at_def)
  obtain r2 f2 w2 where r2: "RmFile ?sv run_file ''/a'' [] w = (r2, f2, w2)" by (rule prod_cases3)
  note 2 = RmFile_removes [OF mem_rm.removal_axioms [of "{fInodeAddress m}"] g at run_path(2) p bl(1,2) r2]
  obtain v where v: "FileGetInode mem_services run_file [] ''/a'' w = (Some m, AddToFileMap ''/a'' m run_file, v)"
    "mem_good 99 v" "mem_blobs v = mem_blobs w"
    by (rule storage.FileGetInode_ok [OF mem_storage _ bl(3) p(2)])
       (use storage.inv_mono [OF mem_storage u(1), of 99] in auto)
  obtain d v2 where d: "DownloadBlob mem_services (fInodeAddress m) v = (d, v2)" by (rule prod.exhaust)
  from storage.download_blob [OF mem_storage v(2) d] bl(1) v(3) have d': "d = Inr (Doc (DFileInode bl), 200)" by auto
  have "FileGetInode ?sv = FileGetInode mem_services" by (intro ext) (simp add: FileGetInode_def split: option.split)
  then have "r2 = Inl (Errorf ''could not delete file inode'')"
    using r2 v(1) d d' run_path(2) by (simp add: RmFile_def inode_of_def) (simp add: stubborn_def)
  with 2 have r2': "r2 = Inl (Errorf ''could not delete file inode'')" "mem_feeds w2 = mem_feeds w" by simp_all
  have r1': "not_file mem_services f1 ''/a'' [] w1" "mem_blobs w1 (fInodeAddress m) = None"
    using 1 ok by (simp_all add: without_def file_refs_def)
  have "mem_blobs w (fInodeAddress m) \<noteq> None" using bl(1) by simp
  with r1 ok r1' r2 r2' show ?thesis
    by blast
qed

lemma WriteAt_patches_witness:
  "\<exists>w f w'. WriteAt mem_services run_libs (\<lambda>i. False) run_file ''/a'' [] [9, 8] 2 False w = (Inr 2, f, w')
     \<and> (\<exists>r g w1. Download mem_services (RemoveAllFromFileMap run_file) ''/a'' [] w' = (Inr (r, 4), g, w1)
          \<and> (\<exists>r' w2. read_all 9 mem_services run_libs 0 [] r w1 = (Inr [1, 2, 9, 8], r', w2)))"
proof -
  obtain m w where u: "mem_good 100 w" 
    "file_at mem_services run_libs (mem_feeds w) (mem_blobs w) (flUser run_file) ''/a'' [] m run_bytes"
    "fCompression m = ''gzip''" "fBlockSize m = 1000000" "fPath m = ''/''" "fName m = ''a''"
    by (rule run_uploaded)
  have g: "mem_good (96 + length [9, 8 :: byte] + 2) w" using u(1) by simp
  have c: "codec_ok run_libs (fCompression m) (unat (fBlockSize m))" using u(3,4) run_codec by simp
  have p: "CombinePathAndFile (fPath m) (fName m) = ''/a''" using u(5,6) run_path by simp
  have cut: "length run_bytes = 1" "2 \<le> length (concat run_bytes)"
    "clean_cut (unat (fBlockSize m)) (length (concat run_bytes)) (2 + length [9, 8 :: byte])"
    "patched (concat run_bytes) 2 [9, 8] = [1, 2, 9, 8]"
    "max (length (concat run_bytes)) (2 + length [9, 8 :: byte]) = 4" "length [9, 8 :: byte] = 2"
    "max (length (concat run_bytes)) (2 + 2) = 4"
    by (simp_all add: clean_cut_def patched_def)
  have small: "length (patched (concat run_bytes) 2 [9, 8]) < 2 ^ 64" unfolding cut(4) by simp
  have none: "flMap run_file ''/a'' \<in> {None, Some m}" "length ''/a'' \<le> 31" "[9, 8 :: byte] \<noteq> []"
    by (simp_all add: run_file_def)
  note run = WriteAt_patches [OF mem_storage g u(2) run_libs_ok(1) c run_path(2) none(2,1) p run_storable none(3) cut(2,3) small,
    unfolded cut(4,5,6) cut(7), of "\<lambda>i. False"]
  then obtain f w' where w': "WriteAt mem_services run_libs (\<lambda>i. False) run_file ''/a'' [] [9, 8] 2 False w = (Inr 2, f, w')"
    and d: "\<forall>g \<in> {f, RemoveAllFromFileMap run_file}. \<exists>r g' w1. Download mem_services g ''/a'' [] w' = (Inr (r, 4), g', w1)
       \<and> (\<forall>n > 4. \<exists>r' w2. read_all n mem_services run_libs 0 [] r w1 = (Inr [1, 2, 9, 8], r', w2))" by (elim exE conjE) rule
  from d obtain r g' w1 where "Download mem_services (RemoveAllFromFileMap run_file) ''/a'' [] w' = (Inr (r, 4), g', w1)"
    and a: "\<forall>n > 4. \<exists>r' w2. read_all n mem_services run_libs 0 [] r w1 = (Inr [1, 2, 9, 8], r', w2)" by blast
  moreover from a have "\<exists>r' w2. read_all 9 mem_services run_libs 0 [] r w1 = (Inr [1, 2, 9, 8], r', w2)"
    by (rule allE [of _ 9]) simp
  ultimately show ?thesis using w' by blast
qed

end
