(* ===== verification/Iterator.thy ===== *)
theory Iterator
  imports Index
begin

text \<open>
  The iterator of pkg/collection, iterator.go, and the executable parts that
  its properties talk about.  An iterator keeps a stack of manifests, each with
  the position of its next entry; the head of itStack is the top of the code's
  slice.  A mutable index is read from the store manifest by manifest, an
  immutable one from the tree in memory, where a manifest may be missing (the
  nil pointer, None).
\<close>

section \<open>The order of keys\<close>

text \<open>Go compares strings byte by byte.\<close>

fun str_less :: "string \<Rightarrow> string \<Rightarrow> bool" where
  "str_less [] [] = False"
| "str_less [] (y # ys) = True"
| "str_less (x # xs) [] = False"
| "str_less (x # xs) (y # ys) = ((of_char x :: nat) < of_char y \<or> (x = y \<and> str_less xs ys))"

section \<open>State\<close>

abbreviation "ErrEmptyIndex \<equiv> Sentinel ''empty Index''"

record ManifestState =
  currentManifest :: "Manifest option"
  currentIndex :: nat

record Iterator =
  itIndex :: Index
  itIndexType :: IndexType
  itStart :: string
  itEnd :: string
  itLimit :: int
  itGiven :: int
  itKey :: string
  itValue :: "bytes list"
  itStack :: "ManifestState list"
  itError :: "goerror option"

abbreviation state_at :: "Manifest option \<Rightarrow> nat \<Rightarrow> ManifestState" where
  "state_at m i \<equiv> \<lparr>currentManifest = m, currentIndex = i\<rparr>"

definition push :: "ManifestState \<Rightarrow> Iterator \<Rightarrow> Iterator" where
  "push ms it = it\<lparr>itStack := ms # itStack it\<rparr>"

section \<open>Seek\<close>

text \<open>The loop of seekStringKey over the entries of one manifest: it ends at an
  entry (SeekHere), or goes into the child of an entry with the rest of the key
  (SeekChild; the flag says whether the first of the two branches is taken).\<close>

datatype seeking = SeekNone | SeekHere nat | SeekChild nat Entry string bool

text \<open>The inner loop: whether the first byte in which the reduced key differs
  from the name is smaller.\<close>

fun reduced_less :: "string \<Rightarrow> string \<Rightarrow> bool" where
  "reduced_less (k # ks) (n # ns) =
     (if k = n then reduced_less ks ns else (of_char k :: nat) < of_char n)"
| "reduced_less ks ns = False"

fun seek_scan :: "Entry list \<Rightarrow> string \<Rightarrow> nat \<Rightarrow> seeking" where
  "seek_scan [] key i = SeekNone"
| "seek_scan (entry # es) key i =
     (if eName entry \<noteq> [] \<and> (key = [] \<or> byte_gt (hd (eName entry)) (hd key)) then SeekHere i
      else if eName entry \<noteq> [] \<and> eEType entry = leafEntry \<and> str_less key (eName entry) then SeekHere i
      else if eEType entry = leafEntry \<and> eName entry = key then SeekHere i
      else if eEType entry = intermediateEntry \<and> HasPrefix key (eName entry)
        then SeekChild i entry (TrimPrefix key (eName entry)) True
      else if eEType entry = intermediateEntry \<and> length (eName entry) < length key
          \<and> reduced_less (take (length (eName entry)) key) (eName entry)
        then SeekChild i entry (drop (length (eName entry)) key) False
      else seek_scan es key (Suc i))"

text \<open>The manifest that an iterator starts from, and the child of an entry.  The
  flag says that a child missing in memory is loaded as well.\<close>

definition iter_root :: "'w services \<Rightarrow> Index \<Rightarrow> 'w \<Rightarrow> Manifest option result \<times> 'w" where
  "iter_root sv idx w =
     (if ixMutable idx then
        (case loadManifest sv idx (ixName idx) (ixPassword idx) w of
           (Inl e, w1) \<Rightarrow> (Inl e, w1) | (Inr m, w1) \<Rightarrow> (Inr (Some m), w1))
      else (Inr (ixMemDB idx), w))"

definition iter_child ::
  "'w services \<Rightarrow> Index \<Rightarrow> bool \<Rightarrow> Manifest \<Rightarrow> Entry \<Rightarrow> 'w \<Rightarrow> Manifest option result \<times> 'w" where
  "iter_child sv idx missing manifest entry w =
     (if ixMutable idx \<or> (missing \<and> eManifest entry = None) then
        (case loadManifest sv idx (mName manifest @ eName entry) (ixPassword idx) w of
           (Inl e, w1) \<Rightarrow> (Inl e, w1) | (Inr m, w1) \<Rightarrow> (Inr (Some m), w1))
      else (Inr (eManifest entry), w))"

text \<open>A missing child ends the program when it is used; labels that are not
  empty make the key shorter, so Suc (length key) calls are enough.\<close>

fun seekStringKey ::
  "nat \<Rightarrow> 'w services \<Rightarrow> Manifest option \<Rightarrow> string \<Rightarrow> Iterator \<Rightarrow> 'w \<Rightarrow> unit result \<times> Iterator \<times> 'w" where
  "seekStringKey n sv None key it w = (Inl (Panic ''nil pointer dereference''), it, w)"
| "seekStringKey 0 sv (Some manifest) key it w = (Inl (Panic ''stack overflow''), it, w)"
| "seekStringKey (Suc n) sv (Some manifest) key it w =
     (case seek_scan (mEntries manifest) key 0 of
        SeekNone \<Rightarrow> (Inl ErrEntryNotFound, it, w)
      | SeekHere i \<Rightarrow> (Inr (), push (state_at (Some manifest) i) it, w)
      | SeekChild i entry childKey whole \<Rightarrow>
          let it1 = push (state_at (Some manifest) (Suc i)) it in
          (case iter_child sv (itIndex it) whole manifest entry w of
             (Inl e, w1) \<Rightarrow> (Inl e, it1, w1)
           | (Inr child, w1) \<Rightarrow>
               (case seekStringKey n sv child childKey it1 w1 of
                  (r, it2, w2) \<Rightarrow> (if r = Inl ErrEntryNotFound then Inr () else r, it2, w2))))"

definition Iterator_Seek :: "'w services \<Rightarrow> string \<Rightarrow> Iterator \<Rightarrow> 'w \<Rightarrow> unit result \<times> Iterator \<times> 'w" where
  "Iterator_Seek sv key it w =
     (let idx = itIndex it in
      case iter_root sv idx w of
        (Inl e, w1) \<Rightarrow> (Inl e, it, w1)
      | (Inr None, w1) \<Rightarrow> (Inl (Panic ''nil pointer dereference''), it, w1)
      | (Inr (Some manifest), w1) \<Rightarrow>
          seekStringKey (Suc (length key)) sv (Some manifest) key (it\<lparr>itIndexType := mIdxType manifest\<rparr>) w1)"

text \<open>The common part of the two constructors.\<close>

definition new_iterator ::
  "'w services \<Rightarrow> Index \<Rightarrow> string \<Rightarrow> string \<Rightarrow> int \<Rightarrow> 'w \<Rightarrow> Iterator result \<times> 'w" where
  "new_iterator sv idx start endp limit w =
     (case iter_root sv idx w of
        (Inl e, w1) \<Rightarrow> (Inl ErrEmptyIndex, w1)
      | (Inr manifest, w1) \<Rightarrow>
          let it = \<lparr>itIndex = idx, itIndexType = InvalidIndex, itStart = start, itEnd = endp, itLimit = limit,
                    itGiven = 0, itKey = [], itValue = [], itStack = [], itError = None\<rparr> in
          if start \<noteq> [] then
            (case Iterator_Seek sv start it w1 of
               (Inl e, it1, w2) \<Rightarrow> (Inl e, w2)
             | (Inr u, it1, w2) \<Rightarrow> (Inr it1, w2))
          else (Inr (it\<lparr>itStack := [state_at manifest 0]\<rparr>), w1))"

definition NewStringIterator ::
  "'w services \<Rightarrow> Index \<Rightarrow> string \<Rightarrow> string \<Rightarrow> int \<Rightarrow> 'w \<Rightarrow> Iterator result \<times> 'w" where
  "NewStringIterator = new_iterator"

text \<open>fmt.Sprintf of a float64 with %020g is the parameter fmtG.\<close>

definition NewIntIterator ::
  "(int \<Rightarrow> string) \<Rightarrow> 'w services \<Rightarrow> Index \<Rightarrow> int \<Rightarrow> int \<Rightarrow> int \<Rightarrow> 'w \<Rightarrow> Iterator result \<times> 'w" where
  "NewIntIterator fmtG sv idx start endp limit w =
     new_iterator sv idx (if start = -1 then [] else fmtG start) (if endp = -1 then [] else fmtG endp) limit w"

section \<open>Next\<close>

text \<open>The loop that pops the manifests that have no entries left.  None: a nil
  manifest is met, or the last manifest is exhausted (the error is set, and the
  bottom of the stack stays).\<close>

fun pop_exhausted :: "ManifestState list \<Rightarrow> (ManifestState list, ManifestState list \<times> goerror option) sum" where
  "pop_exhausted [] = Inr ([], Some ErrNoNextElement)"
| "pop_exhausted (ms # st) =
     (case currentManifest ms of
        None \<Rightarrow> Inr (ms # st, None)
      | Some m \<Rightarrow>
          if currentIndex ms \<ge> length (mEntries m) then
            (if st = [] then Inr (ms # st, Some ErrNoNextElement) else pop_exhausted st)
          else Inl (ms # st))"

fun nextStringKey :: "nat \<Rightarrow> 'w services \<Rightarrow> Iterator \<Rightarrow> 'w \<Rightarrow> bool \<times> Iterator \<times> 'w" where
  "nextStringKey n sv it w =
     (if itLimit it \<ge> 0 \<and> itGiven it \<ge> itLimit it then (False, it, w)
      else case pop_exhausted (itStack it) of
        Inr (st, None) \<Rightarrow> (False, it\<lparr>itStack := st\<rparr>, w)
      | Inr (st, Some e) \<Rightarrow> (False, it\<lparr>itStack := st, itError := Some e\<rparr>, w)
      | Inl [] \<Rightarrow> (False, it, w)
      | Inl (ms # st) \<Rightarrow>
          (case currentManifest ms of
             None \<Rightarrow> (False, it, w)
           | Some m \<Rightarrow>
               let entry = mEntries m ! currentIndex ms;
                   it1 = it\<lparr>itStack := state_at (Some m) (Suc (currentIndex ms)) # st\<rparr>;
                   actualKey = TrimPrefix (mName m @ eName entry) (ixName (itIndex it)) in
               if itEnd it \<noteq> [] \<and> (str_less (itEnd it) actualKey \<or> actualKey = itEnd it) then (False, it1, w)
               else if eEType entry = leafEntry then
                 (True, it1\<lparr>itKey := actualKey, itValue := eRef entry, itGiven := itGiven it + 1\<rparr>, w)
               else if eEType entry = intermediateEntry then
                 (case iter_child sv (itIndex it) False m entry w of
                    (Inl e, w1) \<Rightarrow> (False, it1\<lparr>itError := Some e\<rparr>, w1)
                  | (Inr newManifest, w1) \<Rightarrow>
                      (case n of
                         0 \<Rightarrow> (False, it1\<lparr>itError := Some (Panic ''stack overflow'')\<rparr>, w1)
                       | Suc n' \<Rightarrow> nextStringKey n' sv (push (state_at newManifest 0) it1) w1))
               else (False, it1, w)))"

declare nextStringKey.simps [simp del]

definition Next :: "nat \<Rightarrow> 'w services \<Rightarrow> Iterator \<Rightarrow> 'w \<Rightarrow> bool \<times> Iterator \<times> 'w" where
  "Next = nextStringKey"

definition StringKey :: "Iterator \<Rightarrow> string" where
  "StringKey it = itKey it"

definition Value :: "Iterator \<Rightarrow> bytes result" where
  "Value it = (case itValue it of [] \<Rightarrow> Inl (Panic ''index out of range'') | v # vs \<Rightarrow> Inr v)"

definition ValueAll :: "Iterator \<Rightarrow> bytes list" where
  "ValueAll it = itValue it"

definition IntegerKey :: "Iterator \<Rightarrow> int" where
  "IntegerKey it = (case ParseInt (itKey it) of None \<Rightarrow> -1 | Some i \<Rightarrow> i)"

text \<open>A client's loop: for it.Next() it collects the keys and all their values.
  The first argument bounds the number of rounds.\<close>

fun drain :: "nat \<Rightarrow> nat \<Rightarrow> 'w services \<Rightarrow> Iterator \<Rightarrow> 'w \<Rightarrow> (string \<times> bytes list) list \<times> Iterator \<times> 'w" where
  "drain 0 n sv it w = ([], it, w)"
| "drain (Suc k) n sv it w =
     (case Next n sv it w of
        (False, it1, w1) \<Rightarrow> ([], it1, w1)
      | (True, it1, w1) \<Rightarrow>
          (case drain k n sv it1 w1 of (xs, it2, w2) \<Rightarrow> ((StringKey it1, ValueAll it1) # xs, it2, w2)))"

end
