(* ===== verification/IterProps.thy ===== *)
theory IterProps
  imports Iterator IndexPut
begin

text \<open>
  What an iterator returns.  The enumeration of a trie is the list of its keys
  with their values in the order of the entries; the lemmas show that it is
  sorted, that it agrees with tfind, and that the stack of an iterator stands
  for the rest of the enumeration.
\<close>

section \<open>The order\<close>

lemma str_less_append [simp]: "str_less (p @ a) (p @ b) = str_less a b"
  by (induction p) auto

lemma str_less_bkey: "bkey a < bkey b \<Longrightarrow> str_less a b"
  by (cases a; cases b) auto

lemma str_less_irrefl [simp]: "\<not> str_less a a"
  by (induction a) auto

lemma str_less_asym: "str_less a b \<Longrightarrow> \<not> str_less b a"
  by (induction a b rule: str_less.induct) auto

lemma str_less_trans: "\<lbrakk>str_less a b; str_less b c\<rbrakk> \<Longrightarrow> str_less a c"
proof (induction a b arbitrary: c rule: str_less.induct)
  case (2 y ys)
  then show ?case by (cases c) auto
next
  case (4 x xs y ys)
  then show ?case by (cases c) auto
qed auto

lemma str_less_linear: "a = b \<or> str_less a b \<or> str_less b a"
proof (induction a b rule: str_less.induct)
  case (4 x xs y ys)
  have "x = y \<or> (of_char x :: nat) < of_char y \<or> (of_char y :: nat) < of_char x"
    by (metis char_of_nat of_char_eq_iff linorder_neqE_nat)
  with 4 show ?case by auto
qed auto

lemma str_less_prefix: "prefix a b \<Longrightarrow> \<not> str_less b a"
proof (induction a arbitrary: b)
  case Nil
  then show ?case by (cases b) auto
next
  case (Cons x xs)
  then show ?case by (cases b) auto
qed

section \<open>The enumeration of a trie\<close>

inductive enum :: "manview \<Rightarrow> Manifest \<Rightarrow> (string \<times> bytes list) list \<Rightarrow> nat \<Rightarrow> bool"
  and enum_entries :: "manview \<Rightarrow> string \<Rightarrow> Entry list \<Rightarrow> (string \<times> bytes list) list \<Rightarrow> nat \<Rightarrow> bool" for V where
  enum_node: "enum_entries V (mName m) (mEntries m) xs n \<Longrightarrow> enum V m xs (Suc n)"
| enum_Nil: "enum_entries V p [] [] 0"
| enum_leaf: "\<lbrakk>eEType e = leafEntry; enum_entries V p es xs n\<rbrakk> \<Longrightarrow>
    enum_entries V p (e # es) ((p @ eName e, eRef e) # xs) n"
| enum_branch: "\<lbrakk>eEType e = intermediateEntry; V (p @ eName e) = Some c; mName c = p @ eName e;
    enum V c ys k; enum_entries V p es xs n\<rbrakk> \<Longrightarrow> enum_entries V p (e # es) (ys @ xs) (k + n)"

inductive_cases enumE: "enum V m xs n"
inductive_cases enum_ConsE: "enum_entries V p (e # es) xs n"
inductive_cases enum_NilE: "enum_entries V p [] xs n"

lemma entry_types [simp]: "leafEntry \<noteq> intermediateEntry" "intermediateEntry \<noteq> leafEntry"
  by (simp_all add: leafEntry_def intermediateEntry_def)

lemma enum_entries_exist:
  assumes "\<forall>e \<in> set es. eEType e = leafEntry \<or> eEType e = intermediateEntry"
    "\<forall>e \<in> set es. eEType e = intermediateEntry \<longrightarrow>
       (\<exists>c. V (p @ eName e) = Some c \<and> mName c = p @ eName e \<and> (\<exists>ys k. enum V c ys k))"
  shows "\<exists>xs n. enum_entries V p es xs n"
  using assms
proof (induction es)
  case Nil
  show ?case using enum_Nil by blast
next
  case (Cons e es)
  from Cons obtain xs n where es: "enum_entries V p es xs n" by auto
  from Cons.prems consider "eEType e = leafEntry" | "eEType e = intermediateEntry" by auto
  then show ?case
  proof cases
    case 1
    from enum_leaf [of e, OF 1 es] show ?thesis by blast
  next
    case 2
    with Cons.prems obtain c ys k where "V (p @ eName e) = Some c" "mName c = p @ eName e" "enum V c ys k" by auto
    from enum_branch [of e, OF 2 this es] show ?thesis by blast
  qed
qed

lemma enum_exist: "trie V m \<Longrightarrow> \<exists>xs n. enum V m xs n"
proof (induction rule: trie.induct)
  case (trieI m)
  have "\<exists>xs n. enum_entries V (mName m) (mEntries m) xs n"
    by (rule enum_entries_exist) (use trieI node_okD(2) in blast)+
  then show ?case using enum_node by blast
qed

text \<open>tfind on a list of entries.\<close>

definition efind :: "manview \<Rightarrow> string \<Rightarrow> Entry list \<Rightarrow> string \<Rightarrow> bytes list option" where
  "efind V p es s =
     (case cand es s of
        None \<Rightarrow> None
      | Some e \<Rightarrow>
          if eEType e = leafEntry then (if eName e = s then Some (eRef e) else None)
          else if prefix (eName e) s then
            (case V (p @ eName e) of None \<Rightarrow> None | Some c \<Rightarrow> tfind V c (drop (length (eName e)) s))
          else None)"

definition str_le :: "string \<times> 'a \<Rightarrow> string \<times> 'a \<Rightarrow> bool" where
  "str_le a b \<longleftrightarrow> \<not> str_less (fst b) (fst a)"

definition under :: "Entry list \<Rightarrow> string \<Rightarrow> bool" where
  "under es s \<longleftrightarrow> (\<exists>e \<in> set es. if eEType e = leafEntry then s = eName e else prefix (eName e) s)"

lemma node_ok_Cons: "node_ok (e # es) \<Longrightarrow> node_ok es"
  by (simp add: node_ok_alt)

lemma under_after:
  assumes "node_ok (e # es)" "under es s" "eName e \<noteq> []"
  shows "bkey (eName e) < bkey s"
proof -
  from assms(2) obtain x where x: "x \<in> set es" "if eEType x = leafEntry then s = eName x else prefix (eName x) s"
    by (auto simp: under_def)
  with assms(1,3) have lt: "bkey (eName e) < bkey (eName x)" by (auto simp: node_ok_alt ent_less_def)
  then have "eName x \<noteq> []" by auto
  then have "bkey s = bkey (eName x)" using x(2) bkey_prefix by (auto split: if_splits)
  with lt show ?thesis by simp
qed

lemma efind_Cons:
  "efind V p (e # es) s =
     (if bkey (eName e) = bkey s then
        (if eEType e = leafEntry then (if eName e = s then Some (eRef e) else None)
         else if prefix (eName e) s then
           (case V (p @ eName e) of None \<Rightarrow> None | Some c \<Rightarrow> tfind V c (drop (length (eName e)) s))
         else None)
      else efind V p es s)"
  by (simp add: efind_def cand_Cons)

lemma efind_under: "efind V p es s = Some v \<Longrightarrow> under es s"
  by (auto simp: efind_def under_def split: option.splits if_splits dest!: cand_SomeD)

lemma tfind_efind: "tfind V m s = efind V (mName m) (mEntries m) s" if "node_ok (mEntries m)"
proof (cases "cand (mEntries m) s")
  case None
  then show ?thesis by (simp add: tfind_None efind_def)
next
  case (Some e)
  with node_okD(2,3) [OF that] cand_SomeD [OF Some]
  show ?thesis by (subst tfind.simps) (auto simp: efind_def split: option.split)
qed

definition enum_facts :: "manview \<Rightarrow> string \<Rightarrow> (string \<Rightarrow> bool) \<Rightarrow> (string \<Rightarrow> bytes list option) \<Rightarrow> (string \<times> bytes list) list \<Rightarrow> bool" where
  "enum_facts V p U f xs \<longleftrightarrow>
     (\<forall>k \<in> fst ` set xs. \<exists>s. k = p @ s \<and> U s) \<and> sorted_wrt str_le xs \<and> (\<forall>s. map_of xs (p @ s) = f s)"

lemma under_tl: "under es s \<Longrightarrow> under (e # es) s"
  by (auto simp: under_def)

lemma under_hd: "if eEType e = leafEntry then s = eName e else prefix (eName e) s \<Longrightarrow> under (e # es) s"
  by (simp add: under_def)

lemma enum_facts_leaf:
  assumes ok: "node_ok (e # es)" and e: "eEType e = leafEntry"
    and xs: "enum_facts V p (under es) (efind V p es) xs"
  shows "enum_facts V p (under (e # es)) (efind V p (e # es)) ((p @ eName e, eRef e) # xs)"
proof -
  have before: "str_le (p @ eName e, eRef e) (k, v)" if kv: "(k, v) \<in> set xs" for k v
  proof -
    have "k \<in> fst ` set xs" using kv by force
    with xs obtain s where s: "k = p @ s" "under es s" unfolding enum_facts_def by blast
    show ?thesis
    proof (cases "eName e = []")
      case True
      then show ?thesis using s(1) by (simp add: str_le_def str_less_prefix)
    next
      case False
      from str_less_asym [OF str_less_bkey [OF under_after [OF ok s(2) False]]] s(1)
      show ?thesis by (simp add: str_le_def)
    qed
  qed
  have find: "map_of ((p @ eName e, eRef e) # xs) (p @ s) = efind V p (e # es) s" for s
  proof (cases "eName e = s")
    case True
    then show ?thesis using e by (simp add: efind_Cons)
  next
    case False
    have m: "map_of xs (p @ s) = efind V p es s" using xs by (simp add: enum_facts_def)
    have "efind V p es s = None" if b: "bkey (eName e) = bkey s"
    proof (rule ccontr)
      assume "efind V p es s \<noteq> None"
      then have u: "under es s" using efind_under by blast
      from b False have "eName e \<noteq> []" by (cases s) auto
      from under_after [OF ok u this] b show False by simp
    qed
    with m False e show ?thesis by (simp add: efind_Cons)
  qed
  show ?thesis unfolding enum_facts_def
  proof (intro conjI)
    show "\<forall>k \<in> fst ` set ((p @ eName e, eRef e) # xs). \<exists>s. k = p @ s \<and> under (e # es) s"
      using xs e under_tl under_hd [of e "eName e" es] unfolding enum_facts_def by auto
    show "sorted_wrt str_le ((p @ eName e, eRef e) # xs)"
      using xs before by (auto simp: enum_facts_def)
    show "\<forall>s. map_of ((p @ eName e, eRef e) # xs) (p @ s) = efind V p (e # es) s" using find by blast
  qed
qed

lemma enum_facts_branch:
  assumes ok: "node_ok (e # es)" and e: "eEType e = intermediateEntry" and c: "V (p @ eName e) = Some c" "mName c = p @ eName e"
    and ys: "enum_facts V (p @ eName e) (\<lambda>s. True) (tfind V c) ys"
    and xs: "enum_facts V p (under es) (efind V p es) xs"
  shows "enum_facts V p (under (e # es)) (efind V p (e # es)) (ys @ xs)"
proof -
  have ne: "eName e \<noteq> []" using node_okD(3) [OF ok _ e] by simp
  have before: "str_le a b" if a: "a \<in> set ys" and b: "b \<in> set xs" for a b
  proof -
    have "fst a \<in> fst ` set ys" "fst b \<in> fst ` set xs" using a b by force+
    with xs ys obtain t s where t: "fst a = (p @ eName e) @ t" and s: "fst b = p @ s" "under es s"
      unfolding enum_facts_def by blast
    from under_after [OF ok s(2) ne] ne have "str_less (eName e @ t) s" by (intro str_less_bkey) simp
    with t s(1) show ?thesis by (simp add: str_le_def str_less_asym)
  qed
  have find: "map_of (ys @ xs) (p @ s) = efind V p (e # es) s" for s
  proof (cases "prefix (eName e) s")
    case True
    then obtain t where t: "s = eName e @ t" by (auto simp: prefix_def)
    have b: "bkey (eName e) = bkey s" using True ne by (rule bkey_prefix)
    have "map_of ys (p @ s) = tfind V c t" using ys t by (simp add: enum_facts_def)
    moreover have "efind V p es s = None"
    proof (rule ccontr)
      assume "efind V p es s \<noteq> None"
      then have "under es s" using efind_under by blast
      from under_after [OF ok this ne] b show False by simp
    qed
    then have "map_of xs (p @ s) = None" using xs by (simp add: enum_facts_def)
    ultimately show ?thesis using b t c e by (simp add: efind_Cons map_add_def split: option.split)
  next
    case False
    have "map_of ys (p @ s) = None"
    proof (rule ccontr)
      assume "map_of ys (p @ s) \<noteq> None"
      then have "p @ s \<in> fst ` set ys" by (simp add: map_of_eq_None_iff)
      with ys obtain t where "p @ s = (p @ eName e) @ t" unfolding enum_facts_def by blast
      with False show False by simp
    qed
    moreover have "efind V p es s = None" if b: "bkey (eName e) = bkey s"
    proof (rule ccontr)
      assume "efind V p es s \<noteq> None"
      then have "under es s" using efind_under by blast
      from under_after [OF ok this ne] b show False by simp
    qed
    moreover have "map_of xs (p @ s) = efind V p es s" using xs by (simp add: enum_facts_def)
    ultimately show ?thesis using False e by (simp add: efind_Cons map_add_def)
  qed
  show ?thesis unfolding enum_facts_def
  proof (intro conjI)
    show "\<forall>k \<in> fst ` set (ys @ xs). \<exists>s. k = p @ s \<and> under (e # es) s"
    proof
      fix k assume "k \<in> fst ` set (ys @ xs)"
      then consider "k \<in> fst ` set ys" | "k \<in> fst ` set xs" by auto
      then show "\<exists>s. k = p @ s \<and> under (e # es) s"
      proof cases
        case 1
        with ys obtain t where "k = (p @ eName e) @ t" unfolding enum_facts_def by blast
        moreover have "under (e # es) (eName e @ t)" by (rule under_hd) (simp add: e)
        ultimately show ?thesis by simp
      next
        case 2
        with xs obtain s where "k = p @ s" "under es s" unfolding enum_facts_def by blast
        then show ?thesis using under_tl by blast
      qed
    qed
    show "sorted_wrt str_le (ys @ xs)" using xs ys before by (auto simp: enum_facts_def sorted_wrt_append)
    show "\<forall>s. map_of (ys @ xs) (p @ s) = efind V p (e # es) s" using find by blast
  qed
qed

lemma enum_spec:
  "enum V m xs n \<Longrightarrow> trie V m \<Longrightarrow> enum_facts V (mName m) (\<lambda>s. True) (tfind V m) xs"
  "enum_entries V p es xs n \<Longrightarrow> node_ok es \<Longrightarrow>
     (\<forall>e \<in> set es. eEType e = intermediateEntry \<longrightarrow> (\<forall>c. V (p @ eName e) = Some c \<longrightarrow> trie V c)) \<Longrightarrow>
     enum_facts V p (under es) (efind V p es) xs"
proof (induction rule: enum_enum_entries.inducts)
  case (enum_node m xs n)
  have ok: "node_ok (mEntries m)" using trie_node [OF enum_node.prems] .
  have "\<forall>e \<in> set (mEntries m). eEType e = intermediateEntry \<longrightarrow> (\<forall>c. V (mName m @ eName e) = Some c \<longrightarrow> trie V c)"
    using trie_childD [OF enum_node.prems] by (metis option.inject)
  from enum_node.IH [rule_format] ok this have "enum_facts V (mName m) (under (mEntries m)) (efind V (mName m) (mEntries m)) xs"
    by blast
  then show ?case
    using tfind_efind [OF ok] unfolding enum_facts_def by auto
next
  case (enum_Nil p)
  then show ?case by (simp add: enum_facts_def efind_def)
next
  case (enum_leaf e p es xs n)
  from enum_leaf.prems(1) have "node_ok es" by (rule node_ok_Cons)
  with enum_leaf have "enum_facts V p (under es) (efind V p es) xs" by simp
  from enum_facts_leaf [OF enum_leaf.prems(1) enum_leaf.hyps(1) this] show ?case .
next
  case (enum_branch e p c ys k es xs n)
  from enum_branch.prems(1) have "node_ok es" by (rule node_ok_Cons)
  with enum_branch have xs: "enum_facts V p (under es) (efind V p es) xs" by simp
  have "trie V c" using enum_branch by simp
  with enum_branch have "enum_facts V (p @ eName e) (\<lambda>s. True) (tfind V c) ys" by simp
  moreover have "eEType e = intermediateEntry" "V (p @ eName e) = Some c" "mName c = p @ eName e"
    using enum_branch by blast+
  ultimately show ?case using enum_facts_branch [OF enum_branch.prems(1)] xs by blast
qed

text \<open>A key that is put again at a branching point leaves its old entry behind, in the same
  manifest and with the same, empty name.  Where no manifest has two entries of one name,
  the enumeration has every key once.\<close>

definition single_entries :: "manview \<Rightarrow> string \<Rightarrow> bool" where
  "single_entries V q \<longleftrightarrow> (\<forall>n m. V n = Some m \<longrightarrow> prefix q n \<longrightarrow> distinct (map eName (mEntries m)))"

lemma under_name:
  assumes "node_ok (e # es)" "under es (eName e)" "distinct (map eName (e # es))"
  shows False
proof (cases "eName e = []")
  case True
  from assms(2) obtain g where g: "g \<in> set es" "if eEType g = leafEntry then eName e = eName g else prefix (eName g) (eName e)"
    by (auto simp: under_def)
  then have "eName g = []" using True by (auto split: if_splits)
  with g(1) assms(3) True show False by force
next
  case False
  from under_after [OF assms(1,2) this] show False by simp
qed

lemma enum_distinct:
  "enum V m xs n \<Longrightarrow> trie V m \<Longrightarrow> single_entries V q \<Longrightarrow> prefix q (mName m) \<Longrightarrow> V (mName m) = Some m \<Longrightarrow> distinct (map fst xs)"
  "enum_entries V p es xs n \<Longrightarrow> node_ok es \<Longrightarrow>
     (\<forall>e \<in> set es. eEType e = intermediateEntry \<longrightarrow> (\<forall>c. V (p @ eName e) = Some c \<longrightarrow> trie V c)) \<Longrightarrow>
     single_entries V q \<Longrightarrow> prefix q p \<Longrightarrow> distinct (map eName es) \<Longrightarrow> distinct (map fst xs)"
proof (induction rule: enum_enum_entries.inducts)
  case (enum_node m xs n)
  have "\<forall>e \<in> set (mEntries m). eEType e = intermediateEntry \<longrightarrow> (\<forall>c. V (mName m @ eName e) = Some c \<longrightarrow> trie V c)"
    using trie_childD [OF enum_node.prems(1)] by (metis option.inject)
  moreover have "distinct (map eName (mEntries m))" using enum_node.prems(2-4) by (auto simp: single_entries_def)
  ultimately show ?case using enum_node.IH trie_node [OF enum_node.prems(1)] enum_node.prems(2,3) by blast
next
  case (enum_leaf e p es xs n)
  have ok: "node_ok es" using enum_leaf.prems(1) by (rule node_ok_Cons)
  have "p @ eName e \<notin> fst ` set xs"
  proof
    assume "p @ eName e \<in> fst ` set xs"
    moreover have "enum_facts V p (under es) (efind V p es) xs" using enum_spec(2) [OF enum_leaf(2) ok] enum_leaf.prems(2) by simp
    ultimately have "under es (eName e)" unfolding enum_facts_def by force
    with under_name [OF enum_leaf.prems(1) _ enum_leaf.prems(5)] show False by blast
  qed
  moreover have "distinct (map fst xs)" using enum_leaf ok by simp
  ultimately show ?case by auto
next
  case (enum_branch e p c ys k es xs n)
  have ok: "node_ok es" using enum_branch.prems(1) by (rule node_ok_Cons)
  have ne: "eName e \<noteq> []" using node_okD(3) [OF enum_branch.prems(1) _ enum_branch(1)] by simp
  have tc: "trie V c" using enum_branch by simp
  have nm: "mName c = p @ eName e" using enum_branch by blast
  have fy: "enum_facts V (mName c) (\<lambda>s. True) (tfind V c) ys" by (rule enum_spec(1) [OF enum_branch(4) tc])
  have fx: "enum_facts V p (under es) (efind V p es) xs" using enum_spec(2) [OF enum_branch(6) ok] enum_branch.prems(2) by simp
  have "fst ` set ys \<inter> fst ` set xs = {}"
  proof (rule ccontr)
    assume "fst ` set ys \<inter> fst ` set xs \<noteq> {}"
    then obtain z where z: "z \<in> fst ` set ys" "z \<in> fst ` set xs" by blast
    from z(1) fy obtain t where t: "z = (p @ eName e) @ t" unfolding enum_facts_def nm by blast
    from z(2) fx obtain u where u: "z = p @ u" "under es u" unfolding enum_facts_def by blast
    from t u(1) have "u = eName e @ t" by simp
    with under_after [OF enum_branch.prems(1) u(2) ne] ne show False by simp
  qed
  moreover have "prefix q (mName c)" using enum_branch.prems(4) nm by simp
  then have "distinct (map fst ys)" using enum_branch tc by simp
  moreover have "distinct (map fst xs)" using enum_branch ok by simp
  ultimately show ?case by auto
qed simp

section \<open>The stack of an iterator\<close>

text \<open>rest q V st xs n: the entries that the stack st has still to give are xs,
  and at most n manifests have to be loaded for them.  Everything a lower frame
  gives comes after all that is below the frame on top of it.\<close>

inductive rest :: "string \<Rightarrow> manview \<Rightarrow> ManifestState list \<Rightarrow> (string \<times> bytes list) list \<Rightarrow> nat \<Rightarrow> bool" for q V where
  rest_Nil: "rest q V [] [] 0"
| rest_Cons: "\<lbrakk>trie V m; prefix q (mName m); enum_entries V (mName m) (drop i (mEntries m)) xs n; rest q V st ys k;
     \<forall>z \<in> fst ` set ys. \<forall>t. str_less (mName m @ t) z\<rbrakk>
   \<Longrightarrow> rest q V (state_at (Some m) i # st) (xs @ ys) (n + k)"

inductive_cases rest_ConsE: "rest q V (ms # st) xs n"
inductive_cases rest_NilE: "rest q V [] xs n"

lemma pop_rest:
  "rest q V st xs n \<Longrightarrow> (case pop_exhausted st of
      Inr r \<Rightarrow> xs = []
    | Inl st' \<Rightarrow> \<exists>m i st''. st' = state_at (Some m) i # st'' \<and> i < length (mEntries m) \<and> rest q V st' xs n)"
proof (induction rule: rest.induct)
  case rest_Nil
  show ?case by simp
next
  case (rest_Cons m i xs n st ys k)
  show ?case
  proof (cases "i < length (mEntries m)")
    case True
    with rest.rest_Cons [OF rest_Cons.hyps] show ?thesis by simp
  next
    case False
    then have e: "xs = []" "n = 0" using rest_Cons.hyps(3) by (auto elim: enum_NilE)
    moreover have "ys = []" if "st = []" using that rest_Cons.hyps(4) by (auto elim: rest_NilE)
    ultimately show ?thesis unfolding e append_Nil add_0 using False rest_Cons.IH by (cases "st = []") simp_all
  qed
qed

lemma drop_entries:
  assumes "trie V m" "i < length (mEntries m)"
  shows "drop i (mEntries m) = mEntries m ! i # drop (Suc i) (mEntries m)" "node_ok (mEntries m ! i # drop (Suc i) (mEntries m))"
    "\<forall>e \<in> set (drop j (mEntries m)). eEType e = intermediateEntry \<longrightarrow> (\<forall>c. V (mName m @ eName e) = Some c \<longrightarrow> trie V c)"
proof -
  show d: "drop i (mEntries m) = mEntries m ! i # drop (Suc i) (mEntries m)" using assms(2) by (simp add: Cons_nth_drop_Suc)
  have "node_ok (take i (mEntries m) @ drop i (mEntries m))" using trie_node [OF assms(1)] by simp
  then have "node_ok (drop i (mEntries m))" unfolding node_ok_alt sorted_wrt_append
    by (metis Un_iff set_append)
  then show "node_ok (mEntries m ! i # drop (Suc i) (mEntries m))" unfolding d .
  show "\<forall>e \<in> set (drop j (mEntries m)). eEType e = intermediateEntry \<longrightarrow> (\<forall>c. V (mName m @ eName e) = Some c \<longrightarrow> trie V c)"
    using trie_childD [OF assms(1)] in_set_dropD by (metis option.inject)
qed

text \<open>What comes after entry i of the manifest on top.\<close>

lemma rest_after:
  assumes t: "trie V m" and i: "i < length (mEntries m)" and xs: "enum_entries V (mName m) (drop (Suc i) (mEntries m)) xs n"
    and ne: "eName (mEntries m ! i) \<noteq> []" and k: "k \<in> fst ` set xs"
  shows "str_less (mName m @ eName (mEntries m ! i) @ t') k"
proof -
  note d = drop_entries [OF t i]
  from enum_spec(2) [OF xs node_ok_Cons [OF d(2)] d(3)] k obtain s where
    s: "k = mName m @ s" "under (drop (Suc i) (mEntries m)) s" unfolding enum_facts_def by blast
  from under_after [OF d(2) s(2) ne] ne have "str_less (eName (mEntries m ! i) @ t') s" by (intro str_less_bkey) simp
  with s(1) show ?thesis by simp
qed

lemma TrimPrefix_less: "\<lbrakk>prefix q a; prefix q b\<rbrakk> \<Longrightarrow> str_less (TrimPrefix a q) (TrimPrefix b q) = str_less a b"
  by (auto simp: prefix_def)

definition next_result :: "string \<Rightarrow> manview \<Rightarrow> Iterator \<Rightarrow> (string \<times> bytes list) list \<Rightarrow> nat \<Rightarrow> bool \<Rightarrow> Iterator \<Rightarrow> bool" where
  "next_result q V it xs n r it' \<longleftrightarrow>
     (case xs of
        [] \<Rightarrow> \<not> r
      | (k, v) # zs \<Rightarrow>
          if itEnd it = [] \<or> str_less (TrimPrefix k q) (itEnd it) then
            r \<and> itKey it' = TrimPrefix k q \<and> itValue it' = v \<and> itIndex it' = itIndex it \<and> itEnd it' = itEnd it
            \<and> itLimit it' = itLimit it \<and> itGiven it' = itGiven it + 1 \<and> (\<exists>n' \<le> n. rest q V (itStack it') zs n')
          else \<not> r)"

lemma next_result_mono: "\<lbrakk>next_result q V it xs n r it'; n \<le> n'\<rbrakk> \<Longrightarrow> next_result q V it xs n' r it'"
  by (auto simp: next_result_def split: list.splits if_splits intro: order_trans)

lemma next_result_stack [simp]: "next_result q V (it\<lparr>itStack := st\<rparr>) = next_result q V it"
  by (intro ext) (simp add: next_result_def split: list.split)

lemma rest_prefix: "\<lbrakk>rest q V st xs n; z \<in> fst ` set xs\<rbrakk> \<Longrightarrow> prefix q z"
proof (induction rule: rest.induct)
  case (rest_Cons m i xs n st ys k)
  show ?case
  proof (cases "z \<in> fst ` set xs")
    case True
    have ok: "node_ok (drop i (mEntries m))" using drop_entries(1,2) [OF rest_Cons.hyps(1)] True rest_Cons.hyps(3)
      by (cases "i < length (mEntries m)") (auto elim: enum_NilE)
    have "\<forall>e \<in> set (drop i (mEntries m)). eEType e = intermediateEntry \<longrightarrow> (\<forall>c. V (mName m @ eName e) = Some c \<longrightarrow> trie V c)"
      using trie_childD [OF rest_Cons.hyps(1)] in_set_dropD by (metis option.inject)
    from enum_spec(2) [OF rest_Cons.hyps(3) ok this] True obtain s where "z = mName m @ s" unfolding enum_facts_def by blast
    with rest_Cons.hyps(2) show ?thesis by (auto simp: prefix_def)
  next
    case False
    with rest_Cons show ?thesis by auto
  qed
qed simp

context storage
begin

lemma child_ok:
  assumes "inv b w" "ixMutable idx" "ixview sv maxlen feeds blobs idx w (mName m @ eName e) = Some c"
  obtains w' where "iter_child sv idx f m e w = (Inr (Some c), w')" "inv b w'" "feeds w' = feeds w" "blobs w' = blobs w"
proof -
  obtain w' where "loadManifest sv idx (mName m @ eName e) (ixPassword idx) w = (Inr c, w')" "inv b w'"
    "feeds w' = feeds w" "blobs w' = blobs w" by (rule load_ok [OF assms(1,3)])
  with assms(2) show thesis by (intro that [of w']) (simp_all add: iter_child_def)
qed

lemma next_ok:
  "\<lbrakk>inv b w; ixMutable (itIndex it); q = ixName (itIndex it); rest q (ixview sv maxlen feeds blobs (itIndex it) w) (itStack it) xs n;
    n \<le> f; itLimit it < 0 \<or> itGiven it < itLimit it\<rbrakk> \<Longrightarrow>
   \<exists>r it' w'. nextStringKey f sv it w = (r, it', w') \<and> inv b w' \<and> feeds w' = feeds w \<and> blobs w' = blobs w
     \<and> next_result q (ixview sv maxlen feeds blobs (itIndex it) w) it xs n r it'"
proof (induction f arbitrary: it w xs n rule: less_induct)
  fix f xs n w and it :: Iterator
  let ?V = "ixview sv maxlen feeds blobs (itIndex it) w"
  assume IH: "\<And>f' (it :: Iterator) w xs n. \<lbrakk>f' < f; inv b w; ixMutable (itIndex it); q = ixName (itIndex it);
      rest q (ixview sv maxlen feeds blobs (itIndex it) w) (itStack it) xs n; n \<le> f'; itLimit it < 0 \<or> itGiven it < itLimit it\<rbrakk> \<Longrightarrow>
     \<exists>r it' w'. nextStringKey f' sv it w = (r, it', w') \<and> inv b w' \<and> feeds w' = feeds w \<and> blobs w' = blobs w
       \<and> next_result q (ixview sv maxlen feeds blobs (itIndex it) w) it xs n r it'"
    and w: "inv b w" and mu: "ixMutable (itIndex it)" "q = ixName (itIndex it)" and rs: "rest q ?V (itStack it) xs n" and n: "n \<le> f"
    and lim: "itLimit it < 0 \<or> itGiven it < itLimit it"
  show "\<exists>r it' w'. nextStringKey f sv it w = (r, it', w') \<and> inv b w' \<and> feeds w' = feeds w \<and> blobs w' = blobs w
      \<and> next_result q ?V it xs n r it'"
  proof (cases "pop_exhausted (itStack it)")
    case (Inr p)
    then show ?thesis using pop_rest [OF rs] w lim
      by (subst nextStringKey.simps) (auto simp: next_result_def split: option.split prod.split)
  next
    case (Inl st')
    with pop_rest [OF rs] obtain m i st where st: "pop_exhausted (itStack it) = Inl (state_at (Some m) i # st)"
      "i < length (mEntries m)" "rest q ?V (state_at (Some m) i # st) xs n" by auto
    from st(3) obtain xs1 n1 ys k where r: "xs = xs1 @ ys" "n = n1 + k" "trie ?V m" "prefix q (mName m)"
      "enum_entries ?V (mName m) (drop i (mEntries m)) xs1 n1" "rest q ?V st ys k"
      "\<forall>z \<in> fst ` set ys. \<forall>t. str_less (mName m @ t) z"
      by (elim rest_ConsE) auto
    let ?e = "mEntries m ! i" and ?es = "drop (Suc i) (mEntries m)"
    let ?a = "mName m @ eName ?e" and ?it1 = "it\<lparr>itStack := state_at (Some m) (Suc i) # st\<rparr>"
    note d = drop_entries [OF r(3) st(2)]
    have lim': "\<not> (0 \<le> itLimit it \<and> itLimit it \<le> itGiven it)" using lim by auto
    have pa: "prefix q ?a" using r(4) by (auto simp: prefix_def)
    have em: "?e \<in> set (mEntries m)" using st(2) by simp
    consider (leaf) "eEType ?e = leafEntry" | (branch) "eEType ?e = intermediateEntry" "eName ?e \<noteq> []"
      using node_okD(2,3) [OF trie_node [OF r(3)] em] by blast
    then show ?thesis
    proof cases
      case leaf
      with r(5) obtain zs where zs: "xs1 = (?a, eRef ?e) # zs" "enum_entries ?V (mName m) ?es zs n1"
        unfolding d(1) by (auto elim: enum_ConsE)
      have "rest q ?V (state_at (Some m) (Suc i) # st) (zs @ ys) (n1 + k)"
        using rest_Cons [OF r(3,4) zs(2) r(6,7)] .
      then have "\<exists>n' \<le> n. rest q ?V (state_at (Some m) (Suc i) # st) (zs @ ys) n'" using r(2) by blast
      with leaf st(1) w lim zs(1) r(1) mu(2) show ?thesis
        using str_less_linear [of "TrimPrefix ?a q" "itEnd it"] str_less_asym
        by (subst nextStringKey.simps) (auto simp: next_result_def Let_def)
    next
      case branch
      with r(5) obtain c zs1 k1 zs2 n2 where z: "xs1 = zs1 @ zs2" "n1 = k1 + n2" "?V ?a = Some c" "mName c = ?a"
        "enum ?V c zs1 k1" "enum_entries ?V (mName m) ?es zs2 n2"
        unfolding d(1) by (auto elim: enum_ConsE)
      have tc: "trie ?V c" using d(3) [of i] branch z(3) d(1) by auto
      have ge: "\<not> str_less z ?a" if "z \<in> fst ` set xs" for z
      proof -
        from that consider "z \<in> fst ` set zs1" | "z \<in> fst ` set zs2" | "z \<in> fst ` set ys" unfolding r(1) z(1) by auto
        then show ?thesis
        proof cases
          case 1
          with enum_spec(1) [OF z(5) tc] z(4) show ?thesis unfolding enum_facts_def by (auto intro!: str_less_prefix)
        next
          case 2
          from rest_after [OF r(3) st(2) z(6) branch(2) 2, of "[]"] show ?thesis by (simp add: str_less_asym)
        next
          case 3
          with r(7) str_less_asym show ?thesis by blast
        qed
      qed
      show ?thesis
      proof (cases "itEnd it \<noteq> [] \<and> (str_less (itEnd it) (TrimPrefix ?a q) \<or> TrimPrefix ?a q = itEnd it)")
        case True
        have "\<not> str_less (TrimPrefix z q) (itEnd it)" if z: "z \<in> fst ` set xs" "prefix q z" for z
        proof
          assume lt: "str_less (TrimPrefix z q) (itEnd it)"
          have "str_less (TrimPrefix z q) (TrimPrefix ?a q)"
            using True lt str_less_trans by metis
          with TrimPrefix_less [OF z(2) pa] ge [OF z(1)] show False by simp
        qed
        moreover have "prefix q z" if "z \<in> fst ` set xs" for z
          using rest_prefix [OF rs that] .
        ultimately have nr: "next_result q ?V it xs n False ?it1"
          using True by (auto simp: next_result_def split: list.split)
        have "nextStringKey f sv it w = (False, ?it1, w)"
          using st(1) lim' True unfolding mu(2) by (subst nextStringKey.simps) (simp add: Let_def, argo)
        then show ?thesis using w nr by (intro exI conjI) simp_all
      next
        case False
        obtain w1 where ch: "iter_child sv (itIndex it) False m ?e w = (Inr (Some c), w1)" "inv b w1"
          "feeds w1 = feeds w" "blobs w1 = blobs w" by (rule child_ok [OF w mu(1) z(3)])
        have V1: "ixview sv maxlen feeds blobs (itIndex it) w1 = ?V" by (rule ixview_same [OF ch(3,4)])
        from z(5) obtain k0 where k0: "k1 = Suc k0" "enum_entries ?V (mName c) (mEntries c) zs1 k0" by (auto elim: enumE)
        have later: "\<forall>x \<in> fst ` set (zs2 @ ys). \<forall>t. str_less (mName c @ t) x"
          using rest_after [OF r(3) st(2) z(6) branch(2)] r(7) z(4) by auto
        have "rest q ?V (state_at (Some c) 0 # state_at (Some m) (Suc i) # st) (zs1 @ (zs2 @ ys)) (k0 + (n2 + k))"
          using rest_Cons [OF tc _ _ rest_Cons [OF r(3,4) z(6) r(6,7)] later, of 0 zs1 k0] pa z(4) k0(2) by simp
        then have rs': "rest q ?V (itStack (push (state_at (Some c) 0) ?it1)) xs (k0 + (n2 + k))"
          by (simp add: push_def r(1) z(1))
        from n r(2) z(2) k0(1) obtain f' where f: "f = Suc f'" "k0 + (n2 + k) \<le> f'" "k0 + (n2 + k) \<le> n" by (cases f) auto
        obtain r' it' w' where nx: "nextStringKey f' sv (push (state_at (Some c) 0) ?it1) w1 = (r', it', w')" "inv b w'"
          "feeds w' = feeds w1" "blobs w' = blobs w1"
          "next_result q ?V (push (state_at (Some c) 0) ?it1) xs (k0 + (n2 + k)) r' it'"
          using IH [OF _ ch(2), of f' "push (state_at (Some c) 0) ?it1" xs "k0 + (n2 + k)"] mu V1 rs' f lim
          by (auto simp: push_def)
        have "next_result q ?V it xs n r' it'"
          using next_result_mono [OF nx(5) f(3)] by (simp add: push_def)
        moreover have "nextStringKey f sv it w = (r', it', w')"
          using st(1) lim' False branch ch(1) nx(1) f(1) unfolding mu(2) by (subst nextStringKey.simps) (simp add: Let_def, argo)
        moreover have "feeds w' = feeds w" "blobs w' = blobs w" using nx(3,4) ch(3,4) by simp_all
        ultimately show ?thesis using nx(2) by blast
      qed
    qed
  qed
qed

end

section \<open>A whole iteration\<close>

text \<open>The entries with which an iterator bounded by endp and limit answers.\<close>

definition window :: "string \<Rightarrow> int \<Rightarrow> (string \<times> 'a) list \<Rightarrow> (string \<times> 'a) list" where
  "window endp limit xs =
     (let ys = takeWhile (\<lambda>(k, v). endp = [] \<or> str_less k endp) xs in
      if limit < 0 then ys else take (nat limit) ys)"

definition strip :: "string \<Rightarrow> (string \<times> 'a) list \<Rightarrow> (string \<times> 'a) list" where
  "strip q xs = map (\<lambda>(k, v). (TrimPrefix k q, v)) xs"

lemma strip_simps [simp]: "strip q [] = []" "strip q ((k, v) # xs) = (TrimPrefix k q, v) # strip q xs"
  by (simp_all add: strip_def)

lemma window_Nil [simp]: "window e l [] = []"
  by (simp add: window_def)

lemma window_Cons:
  "window e l ((k, v) # xs) =
     (if (e = [] \<or> str_less k e) \<and> l \<noteq> 0 then (k, v) # window e (if l < 0 then l else l - 1) xs else [])"
  by (cases "nat l") (auto simp: window_def Let_def nat_diff_distrib' le_nat_iff)

context storage
begin

lemma drain_ok:
  "\<lbrakk>inv b w; ixMutable (itIndex it); q = ixName (itIndex it); rest q (ixview sv maxlen feeds blobs (itIndex it) w) (itStack it) xs n;
    n \<le> f; itLimit it < 0 \<or> itGiven it \<le> itLimit it; length xs < k\<rbrakk> \<Longrightarrow>
   \<exists>it' w'. drain k f sv it w = (window (itEnd it) (if itLimit it < 0 then -1 else itLimit it - itGiven it) (strip q xs), it', w')
     \<and> inv b w' \<and> feeds w' = feeds w \<and> blobs w' = blobs w"
proof (induction k arbitrary: it w xs n)
  case (Suc k)
  show ?case
  proof (cases "0 \<le> itLimit it \<and> itGiven it = itLimit it")
    case True
    then have "nextStringKey f sv it w = (False, it, w)" by (subst nextStringKey.simps) simp
    with True Suc.prems(1) show ?thesis by (simp add: Next_def window_def)
  next
    case False
    with Suc.prems(6) have lim: "itLimit it < 0 \<or> itGiven it < itLimit it" by auto
    obtain r it' w' where nx: "nextStringKey f sv it w = (r, it', w')" "inv b w'" "feeds w' = feeds w" "blobs w' = blobs w"
      "next_result q (ixview sv maxlen feeds blobs (itIndex it) w) it xs n r it'"
      using next_ok [OF Suc.prems(1-5) lim] by blast
    show ?thesis
    proof (cases "\<exists>k v zs. xs = (k, v) # zs \<and> (itEnd it = [] \<or> str_less (TrimPrefix k q) (itEnd it))")
      case False
      with nx(5) have "\<not> r" "window (itEnd it) l (strip q xs) = []" for l
        by (auto simp: next_result_def window_Cons split: list.splits if_splits)
      with nx show ?thesis by (simp add: Next_def)
    next
      case True
      then obtain key v zs where xs: "xs = (key, v) # zs" "itEnd it = [] \<or> str_less (TrimPrefix key q) (itEnd it)" by blast
      with nx(5) obtain n' where it': "r" "itKey it' = TrimPrefix key q" "itValue it' = v" "itIndex it' = itIndex it"
        "itEnd it' = itEnd it" "itLimit it' = itLimit it" "itGiven it' = itGiven it + 1" "n' \<le> n"
        "rest q (ixview sv maxlen feeds blobs (itIndex it) w) (itStack it') zs n'"
        by (auto simp: next_result_def)
      have V: "ixview sv maxlen feeds blobs (itIndex it') w' = ixview sv maxlen feeds blobs (itIndex it) w"
        using ixview_same [OF nx(3,4)] it'(4) by simp
      obtain it2 w2 where "drain k f sv it' w' =
          (window (itEnd it') (if itLimit it' < 0 then -1 else itLimit it' - itGiven it') (strip q zs), it2, w2)"
        "inv b w2" "feeds w2 = feeds w'" "blobs w2 = blobs w'"
        using Suc.IH [OF nx(2), of it' zs n'] Suc.prems(2,3,5,7) it' V lim xs(1) by auto
      with nx it' xs lim show ?thesis by (auto simp: Next_def StringKey_def ValueAll_def window_Cons diff_diff_eq)
    qed
  qed
qed simp

end

section \<open>Properties\<close>

text \<open>C12: An iterator over a mutable index goes through it in order.  There is a
  list of all keys of the index, sorted by the bytes of the keys, in which the first
  item of a key has the values that Get gives for it; if no manifest of the index has two
  entries of one name, the list has every key once; otherwise further items of a key may
  follow its first one (left behind by older puts).  An iterator from the beginning
  gives the elements of this list one after the other: those before the end
  key, when one is given, and at most limit of them, when the limit is not
  negative.  Then Next returns false.\<close>

theorem iterator_lists_index:
  assumes "storage sv maxlen good feeds blobs" "good b w" "index_ok sv maxlen feeds blobs idx w"
  shows "\<exists>xs N. sorted_wrt (\<lambda>a b. \<not> str_less (fst b) (fst a)) xs
    \<and> (\<forall>k. fst (Get sv idx k w) = (case map_of xs k of None \<Rightarrow> Inl ErrEntryNotFound | Some refs \<Rightarrow> Inr refs))
    \<and> (single_entries (ixview sv maxlen feeds blobs idx w) (ixName idx) \<longrightarrow> distinct (map fst xs))
    \<and> (\<forall>endp limit. \<exists>it w1. NewStringIterator sv idx [] endp limit w = (Inr it, w1)
        \<and> (\<forall>n \<ge> N. \<forall>k > length xs. fst (drain k n sv it w1) = window endp limit xs))"
proof -
  let ?V = "ixview sv maxlen feeds blobs idx w" and ?q = "ixName idx"
  from assms(3) obtain m where m: "ixMutable idx" "?V ?q = Some m" "mName m = ?q" "trie ?V m" by (auto simp: index_ok_def)
  from enum_exist [OF m(4)] obtain ys N where ys: "enum ?V m ys N" by blast
  then obtain N' where N': "N = Suc N'" "enum_entries ?V ?q (mEntries m) ys N'" using m(3) by (auto elim: enumE)
  note spec = enum_spec(1) [OF ys m(4), unfolded m(3) enum_facts_def]
  have pre: "prefix ?q (fst z)" if "z \<in> set ys" for z using spec that by fastforce
  have rest: "rest ?q ?V [state_at (Some m) 0] ys N'"
    using rest_Cons [OF m(4) _ _ rest_Nil, of ?q 0 ys N'] N' m(3) by simp
  have lookup: "map_of (strip ?q ys) k = tfind ?V m k" for k
  proof -
    have "map_of (strip ?q zs) k = map_of zs (?q @ k)" if "\<forall>z \<in> set zs. prefix ?q (fst z)" for zs :: "(string \<times> bytes list) list"
      using that by (induction zs) (auto simp: prefix_def)
    with pre spec show ?thesis by simp
  qed
  obtain w1 where l: "loadManifest sv idx ?q (ixPassword idx) w = (Inr m, w1)" "good b w1"
    "feeds w1 = feeds w" "blobs w1 = blobs w" by (rule storage.load_ok [OF assms(1,2) m(2)])
  show ?thesis
  proof (intro exI conjI allI impI)
    have "sorted_wrt str_le ys" using spec by blast
    then show "sorted_wrt (\<lambda>a b. \<not> str_less (fst b) (fst a)) (strip ?q ys)"
      unfolding strip_def sorted_wrt_map
      by (rule sorted_wrt_mono_rel [rotated]) (use pre TrimPrefix_less in \<open>auto simp: str_le_def\<close>)
    show "fst (Get sv idx k w) = (case map_of (strip ?q ys) k of None \<Rightarrow> Inl ErrEntryNotFound | Some refs \<Rightarrow> Inr refs)" for k
      by (rule storage.Get_ok [OF assms, of k]) (simp add: lookup index_find_def m(2))
    show "distinct (map fst (strip ?q ys))" if "single_entries ?V ?q"
    proof -
      have "distinct (map fst ys)" by (rule enum_distinct(1) [OF ys m(4) that]) (simp_all add: m)
      moreover have "inj_on (\<lambda>k. TrimPrefix k ?q) (fst ` set ys)"
      proof (rule inj_onI)
        fix a b assume ab: "a \<in> fst ` set ys" "b \<in> fst ` set ys" "TrimPrefix a ?q = TrimPrefix b ?q"
        from ab(1,2) pre obtain u v where "a = ?q @ u" "b = ?q @ v" by (force simp: prefix_def)
        with ab(3) show "a = b" by simp
      qed
      moreover have "map fst (strip ?q ys) = map (\<lambda>k. TrimPrefix k ?q) (map fst ys)" by (simp add: strip_def case_prod_beta)
      ultimately show ?thesis by (simp only: distinct_map [of _ "map fst ys"] set_map)
    qed
    fix endp limit
    let ?it = "\<lparr>itIndex = idx, itIndexType = InvalidIndex, itStart = [], itEnd = endp, itLimit = limit,
                    itGiven = 0, itKey = [], itValue = [], itStack = [state_at (Some m) 0], itError = None\<rparr>"
    show "NewStringIterator sv idx [] endp limit w = (Inr ?it, w1)"
      using l(1) m(1) by (simp add: NewStringIterator_def new_iterator_def iter_root_def)
    show "fst (drain k n sv ?it w1) = window endp limit (strip ?q ys)" if "N \<le> n" "length (strip ?q ys) < k" for n k
      using storage.drain_ok [OF assms(1) l(2), of ?it ?q ys N' n k] ixview_same [OF l(3,4)] m(1) rest that N'(1)
      by (auto simp: strip_def window_def Let_def split: if_splits)
  qed
qed

end
