(* ===== verification/Batch.thy ===== *)
theory Batch
  imports Iterator
begin

text \<open>
  Batches of pkg/collection, batch.go.  A batch collects entries in a manifest
  in memory and writes it over the stored index.  With the flag memory the
  children of intermediate entries hang in the tree (Entry.Manifest); without it
  every change goes to the store as Put does.  A batch shares the index with the
  table it was made from, so the index is an argument and a result.
\<close>

section \<open>addOrUpdateStringEntry with the manifest it changes\<close>

text \<open>The code changes the manifest in place: the result holds it as well.  With
  memory the new manifest becomes the child of the entry and nothing is stored.\<close>

definition finish_add ::
  "'w services \<Rightarrow> Index \<Rightarrow> bool \<Rightarrow> Manifest \<Rightarrow> Entry list \<Rightarrow> 'w \<Rightarrow> unit result \<times> Index \<times> Manifest \<times> 'w" where
  "finish_add sv idx memory manifest es w =
     (let m1 = set_mDirty True (set_mEntries es manifest) in
      if memory then (Inr (), idx, m1, w) else
      let idx1 = idx\<lparr>ixCount := ixCount idx + 1\<rparr>; m2 = set_mCount (ixCount idx1) m1 in
      case updateManifest sv idx1 m2 (ixPassword idx) w of (r, w1) \<Rightarrow> (r, idx1, m2, w1))"

definition split_add ::
  "'w services \<Rightarrow> Index \<Rightarrow> bool \<Rightarrow> Manifest \<Rightarrow> nat \<Rightarrow> string \<Rightarrow> string \<Rightarrow> IndexType \<Rightarrow> Entry \<Rightarrow> Entry \<Rightarrow> 'w
    \<Rightarrow> unit result \<times> Index \<times> Manifest \<times> 'w" where
  "split_add sv idx memory manifest i pfx label ty entry1 entry2 w =
     (case NowUnix sv w of (now, w1) \<Rightarrow>
      let entry = mEntries manifest ! i;
          newManifest = split_manifest (mName manifest @ pfx) ty now entry1 entry2 in
      if memory then
        finish_add sv idx memory manifest
          ((mEntries manifest)[i := Entry label intermediateEntry (eRef entry) (Some newManifest)]) w1
      else
        (case storeManifest sv idx newManifest (ixPassword idx) w1 of
           (Inl e, w2) \<Rightarrow> (Inl e, idx, manifest, w2)
         | (Inr u, w2) \<Rightarrow>
             finish_add sv idx memory manifest
               ((mEntries manifest)[i := Entry label intermediateEntry (eRef entry) (eManifest entry)]) w2))"

text \<open>The child that gets the rest of the key: in memory it is the entry's own
  manifest, which is changed in place; a nil one ends the program.\<close>

function (sequential) addOrUpdate ::
  "'w services \<Rightarrow> Index \<Rightarrow> bool \<Rightarrow> Manifest \<Rightarrow> string \<Rightarrow> IndexType \<Rightarrow> bytes \<Rightarrow> bool \<Rightarrow> 'w
    \<Rightarrow> unit result \<times> Index \<times> Manifest \<times> 'w" where
  "addOrUpdate sv idx memory manifest key ty val apnd w =
     (case first_sharing (mEntries manifest) key of
        None \<Rightarrow>
          finish_add sv idx memory manifest
            (addEntrySorted (mEntries manifest) (Entry key leafEntry [val] None)) w
      | Some i \<Rightarrow>
          let entry = mEntries manifest ! i in
          if eEType entry = leafEntry \<and> eName entry = key then
            finish_add sv idx memory manifest
              ((mEntries manifest)[i := Entry (eName entry) (eEType entry)
                 ((if apnd then eRef entry else []) @ [val]) (eManifest entry)]) w
          else
          (case longestCommonPrefix (eName entry) key of (pfx, entrySuffix, keySuffix) \<Rightarrow>
            if pfx = [] then (Inl (Panic ''unreachable''), idx, manifest, w)
            else if eEType entry = leafEntry then
              split_add sv idx memory manifest i pfx pfx ty
                (Entry keySuffix leafEntry [val] None)
                (Entry entrySuffix leafEntry (eRef entry) None) w
            else if entrySuffix \<noteq> [] then
              split_add sv idx memory manifest i pfx (if keySuffix \<noteq> [] then pfx else key) ty
                (Entry keySuffix leafEntry [val] None)
                (Entry entrySuffix intermediateEntry [] (if memory then eManifest entry else None)) w
            else if memory then
              (case eManifest entry of
                 None \<Rightarrow> (Inl (Panic ''nil pointer dereference''), idx, manifest, w)
               | Some child \<Rightarrow>
                   (case addOrUpdate sv idx memory child keySuffix ty val apnd w of
                      (r, idx1, child', w1) \<Rightarrow>
                        (r, idx1, set_mEntries ((mEntries manifest)[i :=
                           Entry (eName entry) (eEType entry) (eRef entry) (Some child')]) manifest, w1)))
            else
              (case loadManifest sv idx (mName manifest @ eName entry) (ixPassword idx) w of
                 (Inl e, w1) \<Rightarrow> (Inl e, idx, manifest, w1)
               | (Inr im, w1) \<Rightarrow>
                   (case addOrUpdate sv idx memory im keySuffix ty val apnd w1 of
                      (r, idx1, im', w2) \<Rightarrow> (r, idx1, manifest, w2)))))"
  by pat_completeness auto
termination
  by (relation "measure (\<lambda>(sv, idx, memory, manifest, key, ty, val, apnd, w). length key)")
     (auto dest: lcp_shorter [OF sym])

declare addOrUpdate.simps [simp del]

section \<open>Batches\<close>

record Batch =
  memDb :: "Manifest option"
  manifestStack :: "Manifest list"

definition NewBatch :: Batch where
  "NewBatch = \<lparr>memDb = None, manifestStack = []\<rparr>"

text \<open>fmt.Sprintf with %020d: padded with zeros behind the sign.\<close>

fun nat_digits :: "nat \<Rightarrow> string" where
  "nat_digits n = (if n < 10 then [char_of (48 + n)] else nat_digits (n div 10) @ [char_of (48 + n mod 10)])"

declare nat_digits.simps [simp del]

definition Sprintf_020d :: "int \<Rightarrow> string" where
  "Sprintf_020d i =
     (let ds = nat_digits (nat \<bar>i\<bar>) in
      if i < 0 then CHR ''-'' # replicate (19 - length ds) CHR ''0'' @ ds
      else replicate (20 - length ds) CHR ''0'' @ ds)"

abbreviation "ErrKVKeyNotANumber \<equiv> Sentinel ''kv key not a number''"

definition batch_key :: "Index \<Rightarrow> string \<Rightarrow> string result" where
  "batch_key idx key =
     (if ixType idx = NumberIndex then
        (case ParseInt key of None \<Rightarrow> Inl ErrKVKeyNotANumber | Some i \<Rightarrow> Inr (Sprintf_020d i))
      else Inr key)"

definition batch_mem :: "'w services \<Rightarrow> Index \<Rightarrow> Batch \<Rightarrow> 'w \<Rightarrow> Manifest \<times> 'w" where
  "batch_mem sv idx b w =
     (case memDb b of
        Some m \<Rightarrow> (m, w)
      | None \<Rightarrow> (case NowUnix sv w of (now, w1) \<Rightarrow> (Manifest (ixName idx) False [] (ixType idx) now [] 0 True, w1)))"

definition Batch_Put ::
  "'w services \<Rightarrow> Index \<Rightarrow> Batch \<Rightarrow> string \<Rightarrow> bytes \<Rightarrow> bool \<Rightarrow> bool \<Rightarrow> 'w \<Rightarrow> unit result \<times> Index \<times> Batch \<times> 'w" where
  "Batch_Put sv idx b key val apnd memory w =
     (if IsReadOnlyFeed sv w then (Inl ErrReadOnlyIndex, idx, b, w) else
      case batch_mem sv idx b w of (m, w1) \<Rightarrow>
      let b1 = b\<lparr>memDb := Some m\<rparr> in
      case batch_key idx key of
        Inl e \<Rightarrow> (Inl e, idx, b1, w1)
      | Inr stringKey \<Rightarrow>
          (case (if ixType idx = BytesIndex then UploadBlob sv (Raw val) w1 else (Inr val, w1)) of
             (Inl e, w2) \<Rightarrow> (Inl e, idx, b1, w2)
           | (Inr val', w2) \<Rightarrow>
               (case addOrUpdate sv idx memory m stringKey (ixType idx) val' apnd w2 of
                  (r, idx1, m', w3) \<Rightarrow> (r, idx1, b1\<lparr>memDb := Some m'\<rparr>, w3))))"

definition Batch_Get :: "'w services \<Rightarrow> Index \<Rightarrow> Batch \<Rightarrow> string \<Rightarrow> 'w \<Rightarrow> (bytes list) result \<times> 'w" where
  "Batch_Get sv idx b key w =
     (case memDb b of
        None \<Rightarrow> (Inl ErrEntryNotFound, w)
      | Some m \<Rightarrow>
          if mEntries m = [] then (Inl ErrEntryNotFound, w)
          else (case batch_key idx key of
                  Inl e \<Rightarrow> (Inl e, w)
                | Inr stringKey \<Rightarrow>
                    (case findManifest (Suc (length stringKey)) sv idx m stringKey w of
                       (Inl e, w1) \<Rightarrow> (Inl e, w1)
                     | (Inr (manifest, i), w1) \<Rightarrow> (Inr (eRef (mEntries manifest ! i)), w1))))"

text \<open>Del changes the manifest that findManifest found, in place: in the tree, or
  in a copy read from the store, which is then forgotten.  A manifest other than
  the root that has only an entry with an empty name asks its parent to drop the
  branch (the last component of the result).\<close>

fun replace_child :: "string \<Rightarrow> Manifest \<Rightarrow> Entry list \<Rightarrow> Entry list" where
  "replace_child key c [] = []"
| "replace_child key c (e # es) =
     (if eEType e = intermediateEntry \<and> HasPrefix key (eName e)
      then Entry (eName e) (eEType e) (eRef e) (Some c) # es else e # replace_child key c es)"

primrec batch_del ::
  "nat \<Rightarrow> 'w services \<Rightarrow> Index \<Rightarrow> bool \<Rightarrow> Manifest \<Rightarrow> string \<Rightarrow> 'w
    \<Rightarrow> (bytes list) result \<times> Manifest \<times> string option \<times> 'w" where
  "batch_del 0 sv idx atRoot m key w = (Inl (Panic ''stack overflow''), m, None, w)"
| "batch_del (Suc n) sv idx atRoot m key w =
     (case scan_entries (mEntries m) key 0 of
        NotHere \<Rightarrow> (Inl ErrEntryNotFound, m, None, w)
      | Here i \<Rightarrow>
          let deletedRef = eRef (mEntries m ! i) in
          if \<not> atRoot \<and> length (mEntries m) = 1 \<and> eName (mEntries m ! 0) = [] then
            (Inr deletedRef, m, Some (path_Base (mName m)), w)
          else (Inr deletedRef, set_mEntries (remove_at i (mEntries m)) m, None, w)
      | Below entry \<Rightarrow>
          (case (case eManifest entry of
                   None \<Rightarrow> loadManifest sv idx (mName m @ eName entry) (ixPassword idx) w
                 | Some c \<Rightarrow> (Inr c, w)) of
             (Inl e, w1) \<Rightarrow> (Inl e, m, None, w1)
           | (Inr child, w1) \<Rightarrow>
               (case batch_del n sv idx False child (TrimPrefix key (eName entry)) w1 of
                  (r, child', ask, w2) \<Rightarrow>
                    let m1 = (if eManifest entry = None then m
                              else set_mEntries (replace_child key child' (mEntries m)) m) in
                    (case ask of
                       None \<Rightarrow> (r, m1, None, w2)
                     | Some k \<Rightarrow>
                         (case drop_branch k (mEntries m1) of
                            None \<Rightarrow> (r, m1, None, w2)
                          | Some (ref, es) \<Rightarrow> (Inr ref, set_mEntries es m1, None, w2))))))"

definition Batch_Del :: "'w services \<Rightarrow> Index \<Rightarrow> Batch \<Rightarrow> string \<Rightarrow> 'w \<Rightarrow> (bytes list) result \<times> Batch \<times> 'w" where
  "Batch_Del sv idx b key w =
     (if IsReadOnlyFeed sv w then (Inl ErrReadOnlyIndex, b, w)
      else if \<not> ixMutable idx then (Inl ErrCannotModifyImmutableIndex, b, w)
      else case memDb b of
        None \<Rightarrow> (Inl ErrEntryNotFound, b, w)
      | Some m \<Rightarrow>
          if mEntries m = [] then (Inl ErrEntryNotFound, b, w)
          else (case batch_key idx key of
                  Inl e \<Rightarrow> (Inl e, b, w)
                | Inr stringKey \<Rightarrow>
                    (case batch_del (Suc (length stringKey)) sv idx True m stringKey w of
                       (r, m1, ask, w1) \<Rightarrow> (r, b\<lparr>memDb := Some m1\<rparr>, w1))))"

section \<open>Write\<close>

definition maxManifestDepth :: nat where "maxManifestDepth = 3"

definition drop_manifest :: "Entry \<Rightarrow> Entry" where
  "drop_manifest e = Entry (eName e) (eEType e) (eRef e) None"

text \<open>storeMemoryManifest: the children first, then the manifest itself.  At the
  greatest depth the first child that is met is put off to the stack and cut off
  the tree, and the function returns at once, without storing the manifest.
  Children that have been stored stay in the tree: they are written once more
  inside the manifest above them.  The result has the manifest as it is left.\<close>

function (sequential) storeMemoryManifest ::
  "'w services \<Rightarrow> Index \<Rightarrow> Manifest \<Rightarrow> nat \<Rightarrow> Manifest list \<Rightarrow> 'w \<Rightarrow> unit result \<times> Manifest \<times> Manifest list \<times> 'w"
  and store_children ::
  "'w services \<Rightarrow> Index \<Rightarrow> Entry list \<Rightarrow> nat \<Rightarrow> Manifest list \<Rightarrow> 'w \<Rightarrow> bool result \<times> Entry list \<times> Manifest list \<times> 'w" where
  "storeMemoryManifest sv idx (Manifest nm mu pf ty ct es c d) depth stack w =
     (case store_children sv idx es depth stack w of
        (Inl e, es1, stack1, w1) \<Rightarrow> (Inl e, Manifest nm mu pf ty ct es1 c d, stack1, w1)
      | (Inr True, es1, stack1, w1) \<Rightarrow> (Inr (), Manifest nm mu pf ty ct es1 c d, stack1, w1)
      | (Inr False, es1, stack1, w1) \<Rightarrow>
          (case storeManifest sv idx (Manifest nm mu pf ty ct es1 c d) (ixPassword idx) w1 of
             (r, w2) \<Rightarrow> (r, Manifest nm mu pf ty ct es1 c d, stack1, w2)))"
| "store_children sv idx [] depth stack w = (Inr False, [], stack, w)"
| "store_children sv idx (Entry n t r (Some m) # es) depth stack w =
     (if t = intermediateEntry then
        if depth \<ge> maxManifestDepth then (Inr True, Entry n t r None # es, stack @ [m], w)
        else (case storeMemoryManifest sv idx m (Suc depth) stack w of
                (Inl e, m1, stack1, w1) \<Rightarrow> (Inl e, Entry n t r (Some m1) # es, stack1, w1)
              | (Inr u, m1, stack1, w1) \<Rightarrow>
                  (case store_children sv idx es depth stack1 w1 of
                     (q, es1, stack2, w2) \<Rightarrow> (q, Entry n t r (Some m1) # es1, stack2, w2)))
      else (case store_children sv idx es depth stack w of
              (q, es1, stack1, w1) \<Rightarrow> (q, Entry n t r (Some m) # es1, stack1, w1)))"
| "store_children sv idx (Entry n t r None # es) depth stack w =
     (case store_children sv idx es depth stack w of
        (q, es1, stack1, w1) \<Rightarrow> (q, Entry n t r None # es1, stack1, w1))"
  by pat_completeness auto
termination by lexicographic_order

text \<open>emptyManifestStack: what is put off is stored, which may put off more; the
  first argument bounds the rounds.\<close>

fun store_all :: "'w services \<Rightarrow> Index \<Rightarrow> Manifest list \<Rightarrow> Manifest list \<Rightarrow> 'w \<Rightarrow> unit result \<times> Manifest list \<times> 'w" where
  "store_all sv idx [] stack w = (Inr (), stack, w)"
| "store_all sv idx (man # ms) stack w =
     (case storeMemoryManifest sv idx man 0 stack w of
        (Inl e, man1, stack1, w1) \<Rightarrow> (Inl e, stack1, w1)
      | (Inr u, man1, stack1, w1) \<Rightarrow> store_all sv idx ms stack1 w1)"

fun emptyManifestStack :: "nat \<Rightarrow> 'w services \<Rightarrow> Index \<Rightarrow> Manifest list \<Rightarrow> 'w \<Rightarrow> unit result \<times> Manifest list \<times> 'w" where
  "emptyManifestStack n sv idx tempStack w =
     (case store_all sv idx tempStack [] w of
        (Inl e, stack1, w1) \<Rightarrow> (Inl e, stack1, w1)
      | (Inr u, stack1, w1) \<Rightarrow>
          if stack1 = [] then (Inr (), [], w1)
          else (case n of 0 \<Rightarrow> (Inl (Panic ''stack overflow''), stack1, w1)
                | Suc n' \<Rightarrow> emptyManifestStack n' sv idx stack1 w1))"

declare emptyManifestStack.simps [simp del]

text \<open>The loop of mergeAndWriteManifest over the entries of the batch: each is
  put into the manifest read from the store, then its child is stored and
  cleared.  The result has the entries of the stored manifest and of the batch.
  Both hold the same entries, but the children still in the stored manifest are
  all cleared before it is used.\<close>

fun merge_entries ::
  "'w services \<Rightarrow> Index \<Rightarrow> Entry list \<Rightarrow> Entry list \<Rightarrow> Manifest list \<Rightarrow> 'w
    \<Rightarrow> unit result \<times> Entry list \<times> Entry list \<times> Manifest list \<times> 'w" where
  "merge_entries sv idx [] disk stack w = (Inr (), disk, [], stack, w)"
| "merge_entries sv idx (dirtyEntry # es) disk stack w =
     (let disk1 = addEntrySorted disk dirtyEntry in
      case (case eManifest dirtyEntry of
              Some m \<Rightarrow>
                if eEType dirtyEntry = intermediateEntry then
                  (case storeMemoryManifest sv idx m 0 stack w of
                     (Inl e, m1, stack1, w1) \<Rightarrow> (Inl e, Entry (eName dirtyEntry) (eEType dirtyEntry) (eRef dirtyEntry) (Some m1), stack1, w1)
                   | (Inr u, m1, stack1, w1) \<Rightarrow> (Inr (), drop_manifest dirtyEntry, stack1, w1))
                else (Inr (), dirtyEntry, stack, w)
            | None \<Rightarrow> (Inr (), dirtyEntry, stack, w)) of
        (Inl e, x, stack1, w1) \<Rightarrow> (Inl e, disk1, x # es, stack1, w1)
      | (Inr u, x, stack1, w1) \<Rightarrow>
          (case merge_entries sv idx es disk1 stack1 w1 of
             (r, disk2, es2, stack2, w2) \<Rightarrow> (r, disk2, x # es2, stack2, w2)))"

definition mergeAndWriteManifest ::
  "nat \<Rightarrow> 'w services \<Rightarrow> Index \<Rightarrow> Manifest \<Rightarrow> Manifest \<Rightarrow> Batch \<Rightarrow> 'w \<Rightarrow> Manifest result \<times> Batch \<times> 'w" where
  "mergeAndWriteManifest n sv idx diskManifest memManifest b w =
     (if mDirty memManifest then
        (case merge_entries sv idx (mEntries memManifest) (mEntries diskManifest) (manifestStack b) w of
           (r, disk, mem, stack, w1) \<Rightarrow>
             let b1 = b\<lparr>manifestStack := stack, memDb := Some (set_mEntries mem memManifest)\<rparr> in
             (case r of
                Inl e \<Rightarrow> (Inl e, b1, w1)
              | Inr u \<Rightarrow>
                  let dirty = (mDirty diskManifest \<or> mEntries memManifest \<noteq> []);
                      disk1 = (case diskManifest of Manifest nm mu pf ty ct es c d \<Rightarrow>
                                 Manifest nm (mMutable memManifest) pf ty ct (map drop_manifest disk) c dirty) in
                  (case (if dirty then updateManifest sv idx disk1 (ixPassword idx) w1 else (Inr (), w1)) of
                     (Inl e, w2) \<Rightarrow> (Inl e, b1, w2)
                   | (Inr v, w2) \<Rightarrow>
                       (case emptyManifestStack n sv idx stack w2 of
                          (Inl e, stack1, w3) \<Rightarrow> (Inl e, b1\<lparr>manifestStack := stack1\<rparr>, w3)
                        | (Inr u, stack1, w3) \<Rightarrow> (Inr disk1, b1\<lparr>manifestStack := []\<rparr>, w3)))))
      else (Inr diskManifest, b, w))"

text \<open>Write: an error of loadManifest other than ErrNoManifestFound leaves the
  code with a nil manifest, which it then writes to.\<close>

definition set_mPodFile :: "string \<Rightarrow> Manifest \<Rightarrow> Manifest" where
  "set_mPodFile pf m = (case m of Manifest nm mu pf' ty ct es c d \<Rightarrow> Manifest nm mu pf ty ct es c d)"

definition Batch_Write ::
  "nat \<Rightarrow> 'w services \<Rightarrow> Index \<Rightarrow> Batch \<Rightarrow> string \<Rightarrow> 'w \<Rightarrow> Manifest result \<times> Index \<times> Batch \<times> 'w" where
  "Batch_Write n sv idx b podFile w =
     (if IsReadOnlyFeed sv w then (Inl ErrReadOnlyIndex, idx, b, w) else
      case memDb b of
        None \<Rightarrow> (Inl ErrEntryNotFound, idx, b, w)
      | Some m \<Rightarrow>
          if mDirty m then
            (case loadManifest sv idx (mName m) (ixPassword idx) w of
               (Inl e, w1) \<Rightarrow>
                 (Inl (if e = ErrNoManifestFound then e else Panic ''nil pointer dereference''), idx, b, w1)
             | (Inr diskManifest, w1) \<Rightarrow>
                 let m1 = set_mPodFile podFile m; idx1 = idx\<lparr>ixPodFile := podFile\<rparr> in
                 (case mergeAndWriteManifest n sv idx1 (set_mPodFile podFile diskManifest) m1 (b\<lparr>memDb := Some m1\<rparr>) w1 of
                    (r, b1, w2) \<Rightarrow> (r, idx1, b1, w2)))
          else (Inr m, idx, b, w))"

end
