(* ===== verification/KV.thy ===== *)
theory KV
  imports Batch "HOL-Library.AList"
begin

text \<open>
  Key value tables, pkg/collection/kv.go.  The tables of a pod are listed in a
  text feed, one line per table; the entries of a table are an index.  KeyValue
  keeps the tables that are open.  The indexes behind them are Go pointers, which
  a table shares with the batches made from it: kvHeap holds what the addresses
  point to.

  A Go map that is ranged over is an association list; the order in which the
  program meets its entries is the parameter ord.  The floating point numbers of
  strconv and fmt are the parameter of type floats.
\<close>

section \<open>Numbers as keys\<close>

record 'f floats =
  ParseFloat :: "string \<Rightarrow> 'f option"
  FormatKey :: "'f \<Rightarrow> string"
  FormatSeek :: "'f \<Rightarrow> string"
  OfInt :: "int \<Rightarrow> 'f"

definition PutNumber ::
  "'f floats \<Rightarrow> 'w services \<Rightarrow> Index \<Rightarrow> 'f \<Rightarrow> bytes \<Rightarrow> IndexType \<Rightarrow> bool \<Rightarrow> 'w \<Rightarrow> unit result \<times> Index \<times> 'w" where
  "PutNumber fl sv idx key refValue ty apnd w = Put sv idx (FormatKey fl key) refValue ty apnd w"

definition GetNumber :: "'f floats \<Rightarrow> 'w services \<Rightarrow> Index \<Rightarrow> 'f \<Rightarrow> 'w \<Rightarrow> (bytes list) result \<times> 'w" where
  "GetNumber fl sv idx key w = Get sv idx (FormatKey fl key) w"

definition DeleteNumber :: "'f floats \<Rightarrow> 'w services \<Rightarrow> Index \<Rightarrow> 'f \<Rightarrow> 'w \<Rightarrow> (bytes list) result \<times> Index \<times> 'w" where
  "DeleteNumber fl sv idx key w = Delete sv idx (FormatKey fl key) w"

definition Batch_PutNumber ::
  "'f floats \<Rightarrow> 'w services \<Rightarrow> Index \<Rightarrow> Batch \<Rightarrow> 'f \<Rightarrow> bytes \<Rightarrow> bool \<Rightarrow> bool \<Rightarrow> 'w \<Rightarrow> unit result \<times> Index \<times> Batch \<times> 'w" where
  "Batch_PutNumber fl sv idx b key val apnd memory w = Batch_Put sv idx b (FormatKey fl key) val apnd memory w"

definition Batch_DelNumber ::
  "'f floats \<Rightarrow> 'w services \<Rightarrow> Index \<Rightarrow> Batch \<Rightarrow> 'f \<Rightarrow> 'w \<Rightarrow> (bytes list) result \<times> Batch \<times> 'w" where
  "Batch_DelNumber fl sv idx b key w = Batch_Del sv idx b (FormatKey fl key) w"

section \<open>State and errors\<close>

abbreviation "ErrKvTableAlreadyPresent \<equiv> Sentinel ''kv table already present''"
abbreviation "ErrKVTableNotPresent \<equiv> Sentinel ''kv table not present''"
abbreviation "ErrKVTableNotOpened \<equiv> Sentinel ''kv table not opened''"
abbreviation "ErrKVInvalidIndexType \<equiv> Sentinel ''kv invalid index type''"
abbreviation "ErrKVNilIterator \<equiv> Sentinel ''iterator not set, seek first''"
abbreviation "ErrKVIndexTypeNotSupported \<equiv> Sentinel ''kv index type not supported yet''"

definition kvFile :: string where "kvFile = ''key_value_tables''"
definition defaultCollectionName :: string where "defaultCollectionName = ''KV''"
definition CSVHeaderKey :: string where "CSVHeaderKey = ''__csv_header__''"

record KVTable =
  tblIndex :: nat
  tblType :: IndexType
  tblColumns :: "string list"

record KeyValue =
  kvPodName :: string
  kvUser :: Address
  kvOpen :: "string \<rightharpoonup> KVTable"
  kvHeap :: "nat \<Rightarrow> Index"
  kvNext :: nat
  kvIterator :: "Iterator option"

type_synonym kvtables = "(string \<times> string list) list"

definition NewKeyValueStore :: "string \<Rightarrow> Address \<Rightarrow> (nat \<Rightarrow> Index) \<Rightarrow> KeyValue" where
  "NewKeyValueStore podName user heap =
     \<lparr>kvPodName = podName, kvUser = user, kvOpen = Map.empty, kvHeap = heap, kvNext = 0, kvIterator = None\<rparr>"

section \<open>The list of the tables\<close>

text \<open>The text behind a feed.  A JSON text has no line break, and neither of the
  other contents is a text that the program wrote here: they give no line.\<close>

definition feed_text :: "content \<Rightarrow> string" where
  "feed_text c = (case c of Raw b \<Rightarrow> string_of b | _ \<Rightarrow> [])"

definition newline_char :: char where "newline_char = CHR 0x0A"
definition comma :: char where "comma = CHR '',''"

text \<open>One line: the name of the table and its columns.  bufio's ReadString gives
  the lines that end in a line break; what is behind the last one is dropped.\<close>

definition add_line :: "kvtables \<Rightarrow> string \<Rightarrow> kvtables" where
  "add_line t line = (case SplitChar comma line of [] \<Rightarrow> t | name # cols \<Rightarrow> AList.update name cols t)"

definition parse_tables :: "string \<Rightarrow> kvtables" where
  "parse_tables s = foldl add_line [] (butlast (SplitChar newline_char s))"

definition LoadKVTables :: "'w services \<Rightarrow> KeyValue \<Rightarrow> string \<Rightarrow> 'w \<Rightarrow> kvtables result \<times> 'w" where
  "LoadKVTables sv kv pw w =
     (case GetFeedData sv (HashString sv kvFile) (kvUser kv) (bytes_of pw) w of
        (Inl e, w1) \<Rightarrow>
          if error_string e \<noteq> ''feed does not exist or was not updated yet'' then (Inl e, w1) else (Inr [], w1)
      | (Inr (a, d), w1) \<Rightarrow> (Inr (parse_tables (feed_text d)), w1))"

definition table_line :: "string \<times> string list \<Rightarrow> string" where
  "table_line t = fst t @ comma # JoinChar comma (snd t) @ [newline_char]"

definition print_tables :: "kvtables \<Rightarrow> string" where
  "print_tables t = concat (map table_line t)"

definition storeKVTables ::
  "'w services \<Rightarrow> (kvtables \<Rightarrow> kvtables) \<Rightarrow> KeyValue \<Rightarrow> kvtables \<Rightarrow> string \<Rightarrow> 'w \<Rightarrow> unit result \<times> 'w" where
  "storeKVTables sv ord kv tables pw w =
     (let text = print_tables (ord tables);
          payload = (if text = [] then deleted_mark else Raw (bytes_of text)) in
      UpdateFeed sv (kvUser kv) (HashString sv kvFile) payload (bytes_of pw) w)"

section \<open>Creating, opening and deleting tables\<close>

definition CreateKVTable ::
  "'w services \<Rightarrow> (kvtables \<Rightarrow> kvtables) \<Rightarrow> KeyValue \<Rightarrow> string \<Rightarrow> string \<Rightarrow> IndexType \<Rightarrow> 'w \<Rightarrow> unit result \<times> 'w" where
  "CreateKVTable sv ord kv name pw ty w =
     (if IsReadOnlyFeed sv w then (Inl ErrReadOnlyIndex, w) else
      case LoadKVTables sv kv pw w of
        (Inl e, w1) \<Rightarrow> (Inl e, w1)
      | (Inr kvtables, w1) \<Rightarrow>
          if map_of kvtables name \<noteq> None then (Inl ErrKvTableAlreadyPresent, w1)
          else (case CreateIndex sv (kvPodName kv) defaultCollectionName name pw ty (kvUser kv) True w1 of
                  (Inl e, w2) \<Rightarrow> (Inl e, w2)
                | (Inr u, w2) \<Rightarrow> storeKVTables sv ord kv (AList.update name [IndexType_String ty] kvtables) pw w2))"

text \<open>The index of a table is deleted through the open table or, when it is not
  open, through an index opened for it.\<close>

definition delete_table ::
  "'w services \<Rightarrow> KeyValue \<Rightarrow> string \<Rightarrow> string \<Rightarrow> 'w \<Rightarrow> unit result \<times> bool \<times> KeyValue \<times> 'w" where
  "delete_table sv kv name pw w =
     (case kvOpen kv name of
        Some table \<Rightarrow>
          (case DeleteIndex sv (kvHeap kv (tblIndex table)) pw w of
             (Inl e, w1) \<Rightarrow> (Inl e, False, kv, w1)
           | (Inr u, w1) \<Rightarrow> (Inr (), False, kv\<lparr>kvOpen := (kvOpen kv)(name := None)\<rparr>, w1))
      | None \<Rightarrow>
          (case OpenIndex sv (kvPodName kv) defaultCollectionName name pw (kvUser kv) w of
             (Inl e, w1) \<Rightarrow> (Inl e, True, kv, w1)
           | (Inr idx, w1) \<Rightarrow>
               (case DeleteIndex sv idx pw w1 of (r, w2) \<Rightarrow> (r, False, kv, w2))))"

definition DeleteKVTable ::
  "'w services \<Rightarrow> (kvtables \<Rightarrow> kvtables) \<Rightarrow> KeyValue \<Rightarrow> string \<Rightarrow> string \<Rightarrow> 'w \<Rightarrow> unit result \<times> KeyValue \<times> 'w" where
  "DeleteKVTable sv ord kv name pw w =
     (if IsReadOnlyFeed sv w then (Inl ErrReadOnlyIndex, kv, w) else
      case LoadKVTables sv kv pw w of
        (Inl e, w1) \<Rightarrow> (Inl e, kv, w1)
      | (Inr kvtables, w1) \<Rightarrow>
          if map_of kvtables name = None then (Inl ErrKVTableNotPresent, kv, w1)
          else (case delete_table sv kv name pw w1 of
                  (Inl e, opening, kv1, w2) \<Rightarrow> (Inl e, kv1, w2)
                | (Inr u, opening, kv1, w2) \<Rightarrow>
                    (case storeKVTables sv ord kv1 (AList.delete name kvtables) pw w2 of (r, w3) \<Rightarrow> (r, kv1, w3))))"

text \<open>The loop of DeleteAllKVTables over the names of the map: a table whose
  index cannot be opened because it is not there is skipped and stays listed.\<close>

fun delete_tables ::
  "'w services \<Rightarrow> KeyValue \<Rightarrow> string \<Rightarrow> string list \<Rightarrow> kvtables \<Rightarrow> 'w \<Rightarrow> kvtables result \<times> KeyValue \<times> 'w" where
  "delete_tables sv kv pw [] kvtables w = (Inr kvtables, kv, w)"
| "delete_tables sv kv pw (name # names) kvtables w =
     (case delete_table sv kv name pw w of
        (Inl e, opening, kv1, w1) \<Rightarrow>
          if opening \<and> e = ErrIndexNotPresent then delete_tables sv kv1 pw names kvtables w1 else (Inl e, kv1, w1)
      | (Inr u, opening, kv1, w1) \<Rightarrow> delete_tables sv kv1 pw names (AList.delete name kvtables) w1)"

definition DeleteAllKVTables ::
  "'w services \<Rightarrow> (kvtables \<Rightarrow> kvtables) \<Rightarrow> KeyValue \<Rightarrow> string \<Rightarrow> 'w \<Rightarrow> unit result \<times> KeyValue \<times> 'w" where
  "DeleteAllKVTables sv ord kv pw w =
     (if IsReadOnlyFeed sv w then (Inl ErrReadOnlyIndex, kv, w) else
      case LoadKVTables sv kv pw w of
        (Inl e, w1) \<Rightarrow> (Inl e, kv, w1)
      | (Inr kvtables, w1) \<Rightarrow>
          (case delete_tables sv kv pw (map fst (ord kvtables)) kvtables w1 of
             (Inl e, kv1, w2) \<Rightarrow> (Inl e, kv1, w2)
           | (Inr left, kv1, w2) \<Rightarrow> (case storeKVTables sv ord kv1 left pw w2 of (r, w3) \<Rightarrow> (r, kv1, w3))))"

definition OpenKVTable ::
  "'w services \<Rightarrow> KeyValue \<Rightarrow> string \<Rightarrow> string \<Rightarrow> 'w \<Rightarrow> unit result \<times> KeyValue \<times> 'w" where
  "OpenKVTable sv kv name pw w =
     (case LoadKVTables sv kv pw w of
        (Inl e, w1) \<Rightarrow> (Inl e, kv, w1)
      | (Inr kvtables, w1) \<Rightarrow>
          (case map_of kvtables name of
             None \<Rightarrow> (Inl ErrKVTableNotPresent, kv, w1)
           | Some [] \<Rightarrow> (Inl (Panic ''index out of range''), kv, w1)
           | Some (ty # cols) \<Rightarrow>
               (case OpenIndex sv (kvPodName kv) defaultCollectionName name pw (kvUser kv) w1 of
                  (Inl e, w2) \<Rightarrow> (Inl e, kv, w2)
                | (Inr idx, w2) \<Rightarrow>
                    (case Get sv idx CSVHeaderKey w2 of
                       (hdr, w3) \<Rightarrow>
                         let columns = (case hdr of Inr (h # hs) \<Rightarrow> SplitChar comma (string_of h) | _ \<Rightarrow> []);
                             table = \<lparr>tblIndex = kvNext kv, tblType = toIndexTypeEnum ty, tblColumns = columns\<rparr> in
                         (Inr (), kv\<lparr>kvOpen := (kvOpen kv)(name \<mapsto> table),
                            kvHeap := (kvHeap kv)(kvNext kv := idx), kvNext := Suc (kvNext kv)\<rparr>, w3)))))"

section \<open>Entries of a table\<close>

definition KVCount :: "KeyValue \<Rightarrow> string \<Rightarrow> (64 word \<times> string) result" where
  "KVCount kv name =
     (case kvOpen kv name of
        Some table \<Rightarrow> Inr (ixCount (kvHeap kv (tblIndex table)), name)
      | None \<Rightarrow> Inl ErrKVTableNotOpened)"

definition set_index :: "nat \<Rightarrow> Index \<Rightarrow> KeyValue \<Rightarrow> KeyValue" where
  "set_index a idx kv = kv\<lparr>kvHeap := (kvHeap kv)(a := idx)\<rparr>"

definition KV_IsEmpty :: "'w services \<Rightarrow> KeyValue \<Rightarrow> string \<Rightarrow> 'w \<Rightarrow> bool result \<times> KeyValue \<times> 'w" where
  "KV_IsEmpty sv kv name w =
     (case kvOpen kv name of
        Some table \<Rightarrow>
          (case IsEmpty sv (kvHeap kv (tblIndex table)) (ixPassword (kvHeap kv (tblIndex table))) w of
             (r, idx, w1) \<Rightarrow> (r, set_index (tblIndex table) idx kv, w1))
      | None \<Rightarrow> (Inl ErrKVTableNotOpened, kv, w))"

definition KVPut ::
  "'f floats \<Rightarrow> 'w services \<Rightarrow> KeyValue \<Rightarrow> string \<Rightarrow> string \<Rightarrow> bytes \<Rightarrow> 'w \<Rightarrow> unit result \<times> KeyValue \<times> 'w" where
  "KVPut fl sv kv name key val w =
     (if IsReadOnlyFeed sv w then (Inl ErrReadOnlyIndex, kv, w) else
      case kvOpen kv name of
        None \<Rightarrow> (Inl ErrKVTableNotOpened, kv, w)
      | Some table \<Rightarrow>
          let a = tblIndex table; idx = kvHeap kv a in
          (case tblType table of
             StringIndex \<Rightarrow>
               (case Put sv idx key val StringIndex False w of (r, idx1, w1) \<Rightarrow> (r, set_index a idx1 kv, w1))
           | NumberIndex \<Rightarrow>
               (case ParseFloat fl key of
                  None \<Rightarrow> (Inl ErrKVKeyNotANumber, kv, w)
                | Some fkey \<Rightarrow>
                    (case PutNumber fl sv idx fkey val NumberIndex False w of
                       (r, idx1, w1) \<Rightarrow> (r, set_index a idx1 kv, w1)))
           | BytesIndex \<Rightarrow>
               (case UploadBlob sv (Raw val) w of
                  (Inl e, w1) \<Rightarrow> (Inl e, kv, w1)
                | (Inr ref, w1) \<Rightarrow>
                    (case Put sv idx key ref StringIndex False w1 of (r, idx1, w2) \<Rightarrow> (r, set_index a idx1 kv, w2)))
           | _ \<Rightarrow> (Inl ErrKVInvalidIndexType, kv, w)))"

text \<open>What a blob holds is bytes; only blobs that KVPut wrote are read here.\<close>

definition KVGet :: "'w services \<Rightarrow> KeyValue \<Rightarrow> string \<Rightarrow> string \<Rightarrow> 'w \<Rightarrow> (string list \<times> content) result \<times> 'w" where
  "KVGet sv kv name key w =
     (case kvOpen kv name of
        None \<Rightarrow> (Inl ErrKVTableNotOpened, w)
      | Some table \<Rightarrow>
          (case Get sv (kvHeap kv (tblIndex table)) key w of
             (Inl e, w1) \<Rightarrow> (Inl e, w1)
           | (Inr [], w1) \<Rightarrow> (Inl (Panic ''index out of range''), w1)
           | (Inr (v # vs), w1) \<Rightarrow>
               if tblType table = BytesIndex then
                 (case DownloadBlob sv v w1 of
                    (Inl e, w2) \<Rightarrow> (Inl e, w2)
                  | (Inr (d, c), w2) \<Rightarrow> (Inr (tblColumns table, d), w2))
               else (Inr (tblColumns table, Raw v), w1)))"

definition KVDelete ::
  "'w services \<Rightarrow> KeyValue \<Rightarrow> string \<Rightarrow> string \<Rightarrow> 'w \<Rightarrow> bytes result \<times> KeyValue \<times> 'w" where
  "KVDelete sv kv name key w =
     (if IsReadOnlyFeed sv w then (Inl ErrReadOnlyIndex, kv, w) else
      case kvOpen kv name of
        None \<Rightarrow> (Inl ErrKVTableNotOpened, kv, w)
      | Some table \<Rightarrow>
          (case Delete sv (kvHeap kv (tblIndex table)) key w of
             (Inl e, idx, w1) \<Rightarrow> (Inl e, set_index (tblIndex table) idx kv, w1)
           | (Inr [], idx, w1) \<Rightarrow> (Inl (Panic ''index out of range''), set_index (tblIndex table) idx kv, w1)
           | (Inr (r # rs), idx, w1) \<Rightarrow> (Inr r, set_index (tblIndex table) idx kv, w1)))"

section \<open>Batches\<close>

text \<open>A batch of a table carries the address of its index.\<close>

definition KVBatch ::
  "'w services \<Rightarrow> KeyValue \<Rightarrow> string \<Rightarrow> string list \<Rightarrow> 'w \<Rightarrow> (nat \<times> Batch) result \<times> KeyValue" where
  "KVBatch sv kv name columns w =
     (if IsReadOnlyFeed sv w then (Inl ErrReadOnlyIndex, kv) else
      case kvOpen kv name of
        None \<Rightarrow> (Inl ErrKVTableNotOpened, kv)
      | Some table \<Rightarrow>
          (Inr (tblIndex table, NewBatch), kv\<lparr>kvOpen := (kvOpen kv)(name \<mapsto> table\<lparr>tblColumns := columns\<rparr>)\<rparr>))"

definition KVBatchPut ::
  "'w services \<Rightarrow> KeyValue \<Rightarrow> nat \<times> Batch \<Rightarrow> string \<Rightarrow> bytes \<Rightarrow> 'w \<Rightarrow> unit result \<times> (nat \<times> Batch) \<times> KeyValue \<times> 'w" where
  "KVBatchPut sv kv batch key val w =
     (if IsReadOnlyFeed sv w then (Inl ErrReadOnlyIndex, batch, kv, w) else
      case batch of (a, b) \<Rightarrow>
      let idx = kvHeap kv a;
          kv1 = (if key = CSVHeaderKey then
                   (case kvOpen kv (ixName idx) of
                      None \<Rightarrow> kv
                    | Some table \<Rightarrow> kv\<lparr>kvOpen := (kvOpen kv)(ixName idx \<mapsto>
                        table\<lparr>tblColumns := SplitChar comma (string_of val)\<rparr>)\<rparr>)
                 else kv) in
      case Batch_Put sv idx b key val False False w of
        (r, idx1, b1, w1) \<Rightarrow> (r, (a, b1), set_index a idx1 kv1, w1))"

definition KVBatchWrite ::
  "nat \<Rightarrow> 'w services \<Rightarrow> KeyValue \<Rightarrow> nat \<times> Batch \<Rightarrow> 'w \<Rightarrow> unit result \<times> (nat \<times> Batch) \<times> KeyValue \<times> 'w" where
  "KVBatchWrite n sv kv batch w =
     (if IsReadOnlyFeed sv w then (Inl ErrReadOnlyIndex, batch, kv, w) else
      case batch of (a, b) \<Rightarrow>
      (case Batch_Write n sv (kvHeap kv a) b [] w of
         (r, idx1, b1, w1) \<Rightarrow>
           (case r of Inl e \<Rightarrow> Inl e | Inr m \<Rightarrow> Inr (), (a, b1), set_index a idx1 kv, w1)))"

section \<open>Iteration\<close>

definition KVSeek ::
  "'f floats \<Rightarrow> 'w services \<Rightarrow> KeyValue \<Rightarrow> string \<Rightarrow> string \<Rightarrow> string \<Rightarrow> int \<Rightarrow> 'w
    \<Rightarrow> Iterator result \<times> KeyValue \<times> 'w" where
  "KVSeek fl sv kv name start endp limit w =
     (case kvOpen kv name of
        None \<Rightarrow> (Inl ErrKVTableNotOpened, kv, w)
      | Some table \<Rightarrow>
          let idx = kvHeap kv (tblIndex table) in
          (case (case tblType table of
                   StringIndex \<Rightarrow> NewStringIterator sv idx start endp limit w
                 | NumberIndex \<Rightarrow>
                     (case ParseInt start of
                        None \<Rightarrow> (Inl (Errorf ''strconv.ParseInt''), w)
                      | Some startInt \<Rightarrow>
                          (case ParseInt endp of
                             None \<Rightarrow> (Inl (Errorf ''strconv.ParseInt''), w)
                           | Some endInt \<Rightarrow> NewIntIterator (\<lambda>i. FormatSeek fl (OfInt fl i)) sv idx startInt endInt limit w))
                 | BytesIndex \<Rightarrow> (Inl ErrKVIndexTypeNotSupported, w)
                 | _ \<Rightarrow> (Inl ErrKVInvalidIndexType, w)) of
             (Inl e, w1) \<Rightarrow> (Inl e, kv, w1)
           | (Inr itr, w1) \<Rightarrow> (Inr itr, kv\<lparr>kvIterator := Some itr\<rparr>, w1)))"

text \<open>KVGetNext asks the last iterator of the store, whatever table it is of.\<close>

definition KVGetNext ::
  "nat \<Rightarrow> 'w services \<Rightarrow> KeyValue \<Rightarrow> string \<Rightarrow> 'w \<Rightarrow> (string list \<times> string \<times> bytes) result \<times> KeyValue \<times> 'w" where
  "KVGetNext n sv kv name w =
     (case kvOpen kv name of
        None \<Rightarrow> (Inl ErrKVTableNotOpened, kv, w)
      | Some table \<Rightarrow>
          (case kvIterator kv of
             None \<Rightarrow> (Inl ErrKVNilIterator, kv, w)
           | Some itr \<Rightarrow>
               (case Next n sv itr w of
                  (ok, itr1, w1) \<Rightarrow>
                    let kv1 = kv\<lparr>kvIterator := Some itr1\<rparr> in
                    if \<not> ok then (Inl ErrNoNextElement, kv1, w1)
                    else (case Value itr1 of
                            Inl e \<Rightarrow> (Inl e, kv1, w1)
                          | Inr v \<Rightarrow> (Inr (tblColumns table, StringKey itr1, v), kv1, w1)))))"

end
