(* ===== verification/IndexFrame.thy ===== *)
theory IndexFrame
  imports IndexPut
begin

text \<open>
  What one index does to another.  The manifests of an index have names that
  extend its own name; a change that touches only other names keeps the index
  as it is, and with it all that Get says.
\<close>

lemma at_branch_below: "\<lbrakk>trie V m; below V V' (mName m)\<rbrakk> \<Longrightarrow> at_branch V' m k = at_branch V m k"
proof (induction V m k rule: at_branch.induct)
  case (1 V m k)
  show ?case
  proof (cases "cand (mEntries m) k")
    case None
    then show ?thesis by (simp add: at_branch.simps)
  next
    case (Some e)
    then have e: "e \<in> set (mEntries m)" by (auto dest: cand_SomeD)
    show ?thesis
    proof (cases "eEType e = leafEntry \<or> \<not> (eName e \<noteq> [] \<and> prefix (eName e) k)")
      case True
      with Some show ?thesis by (auto simp: at_branch.simps)
    next
      case False
      then have it: "eEType e = intermediateEntry"
        using node_okD(2) [OF trie_node [OF 1(2)] e] by simp
      from trie_childD [OF 1(2) e it] obtain c
        where c: "V (mName m @ eName e) = Some c" "mName c = mName m @ eName e" "trie V c" .
      have c': "V' (mName m @ eName e) = Some c"
        using belowD [OF 1(3) c(1)] False by (simp add: strict_prefix_append)
      have "below V V' (mName c)" using 1(3) by (rule below_mono) (simp add: c(2))
      with 1(1) [OF Some _ _ c(1)] False c(3) have "at_branch V' c (drop (length (eName e)) k) = at_branch V c (drop (length (eName e)) k)"
        by blast
      with Some False c(1) c' show ?thesis by (subst (1 2) at_branch.simps) simp
    qed
  qed
qed

context storage
begin

lemma view_frame:
  assumes t: "touched sv maxlen u S (feeds w) (blobs w) (feeds w') (blobs w')"
    and v: "ixview sv maxlen feeds blobs idx w n = Some x" and n: "ixUser idx = u \<Longrightarrow> n \<notin> S"
  shows "ixview sv maxlen feeds blobs idx w' n = Some x"
proof -
  from v obtain ref where r: "feeds w (ixUser idx, HashString sv n, bytes_of (ixPassword idx)) = Some (Raw ref)"
    "blobs w ref = Some (Doc (DManifest x))" "length n \<le> maxlen" by (rule view_SomeE)
  have "feeds w' (ixUser idx, HashString sv n, bytes_of (ixPassword idx)) = feeds w (ixUser idx, HashString sv n, bytes_of (ixPassword idx))"
  proof (rule touchedD [OF t])
    fix s assume s: "ixUser idx = u" "s \<in> S" "length s \<le> maxlen"
    with n hash_inj [OF r(3) s(3)] show "HashString sv n \<noteq> HashString sv s" by auto
  qed
  moreover have "blobs w' ref = Some (Doc (DManifest x))" using t r(2) unfolding touched_def map_le_def by (metis domI)
  ultimately show ?thesis using r by (simp add: ixview_def manifest_view_def)
qed

lemma index_frame:
  assumes t: "touched sv maxlen u S (feeds w) (blobs w) (feeds w') (blobs w')"
    and ok: "index_ok sv maxlen feeds blobs idx w"
    and S: "\<And>s. \<lbrakk>ixUser idx = u; s \<in> S\<rbrakk> \<Longrightarrow> \<not> prefix (ixName idx) s"
  shows "index_ok sv maxlen feeds blobs idx w'"
    "index_find sv maxlen feeds blobs idx w' = index_find sv maxlen feeds blobs idx w"
    "ixview sv maxlen feeds blobs idx w' (ixName idx) = ixview sv maxlen feeds blobs idx w (ixName idx)"
    "index_at_branch sv maxlen feeds blobs idx w' = index_at_branch sv maxlen feeds blobs idx w"
proof -
  let ?V = "ixview sv maxlen feeds blobs idx"
  from ok obtain m where m: "ixMutable idx" "?V w (ixName idx) = Some m" "mName m = ixName idx" "trie (?V w) m"
    by (auto simp: index_ok_def)
  have root: "?V w' (ixName idx) = Some m" using S by (intro view_frame [OF t m(2)]) auto
  have b: "below (?V w) (?V w') (mName m)"
    unfolding below_def m(3)
  proof (intro allI impI)
    fix n x assume "?V w n = Some x" "strict_prefix (ixName idx) n"
    then show "?V w' n = Some x" using S by (intro view_frame [OF t]) (auto simp: strict_prefix_def)
  qed
  show "index_ok sv maxlen feeds blobs idx w'" using m root trie_below [OF m(4) b] by (auto simp: index_ok_def)
  show "index_find sv maxlen feeds blobs idx w' = index_find sv maxlen feeds blobs idx w"
    using m(2) root tfind_below [OF m(4) b] by (simp add: index_find_def fun_eq_iff)
  show "?V w' (ixName idx) = ?V w (ixName idx)" using m(2) root by simp
  show "index_at_branch sv maxlen feeds blobs idx w' = index_at_branch sv maxlen feeds blobs idx w"
    using m(2) root at_branch_below [OF m(4) b] by (simp add: index_at_branch_def fun_eq_iff)
qed

lemma OpenIndex_ok:
  assumes "inv b w" "ixview sv maxlen feeds blobs idx w (p @ c @ n) = Some m"
  obtains w' where "OpenIndex sv p c n (ixPassword idx) (ixUser idx) w =
      (Inr \<lparr>ixName = mName m, ixMutable = mMutable m, ixType = mIdxType m, ixPodFile = mPodFile m,
         ixPassword = ixPassword idx, ixUser = ixUser idx, ixCount = mCount m, ixMemDB = Some m\<rparr>, w')"
    "inv b w'" "feeds w' = feeds w" "blobs w' = blobs w"
proof -
  from assms(2) obtain ref where r: "feeds w (ixUser idx, HashString sv (p @ c @ n), bytes_of (ixPassword idx)) = Some (Raw ref)"
    "blobs w ref = Some (Doc (DManifest m))" by (rule view_SomeE)
  obtain w' where "getRootManifestOfIndex sv (p @ c @ n) (ixPassword idx) (ixUser idx) w = (Some m, w')" "inv b w'"
    "feeds w' = feeds w" "blobs w' = blobs w" by (rule getRoot_ok [OF assms(1) r])
  then show thesis by (intro that [of w']) (simp_all add: OpenIndex_def)
qed

text \<open>An index that differs only in what is not part of its contents.\<close>

lemma index_ok_cong:
  assumes "index_ok sv maxlen feeds blobs idx w" "ixName idx' = ixName idx" "ixPassword idx' = ixPassword idx"
    "ixUser idx' = ixUser idx" "ixMutable idx'"
  shows "index_ok sv maxlen feeds blobs idx' w"
    "index_find sv maxlen feeds blobs idx' w = index_find sv maxlen feeds blobs idx w"
proof -
  have V: "ixview sv maxlen feeds blobs idx' w = ixview sv maxlen feeds blobs idx w"
    using assms by (simp add: ixview_def)
  show "index_ok sv maxlen feeds blobs idx' w" using assms by (auto simp: index_ok_def V)
  show "index_find sv maxlen feeds blobs idx' w = index_find sv maxlen feeds blobs idx w"
    unfolding index_find_def V assms(2) ..
qed

end

end
