(* ===== verification/KVProps.thy ===== *)
theory KVProps
  imports KV IndexFrame "HOL-Library.Multiset"
begin

text \<open>
  Key value tables: the text of the list of tables is read back as it was
  written, a table goes through its life as documented, and KVPut and KVGet are
  a dictionary that leaves other tables alone.
\<close>

section \<open>The list of tables as a text\<close>

definition clean :: "string \<Rightarrow> bool" where
  "clean s \<longleftrightarrow> comma \<notin> set s \<and> newline_char \<notin> set s"

definition tables_ok :: "kvtables \<Rightarrow> bool" where
  "tables_ok t \<longleftrightarrow> distinct (map fst t) \<and> (\<forall>(k, v) \<in> set t. clean k \<and> v \<noteq> [] \<and> (\<forall>c \<in> set v. clean c))"

lemma comma_newline [simp]: "comma \<noteq> newline_char" "newline_char \<noteq> comma"
  by (simp_all add: comma_def newline_char_def)

lemma set_JoinChar: "set (JoinChar d ws) \<subseteq> insert d (\<Union>w \<in> set ws. set w)"
  by (induction d ws rule: JoinChar.induct) auto

lemma table_line_split:
  assumes "clean k" "\<forall>c \<in> set v. clean c"
  shows "SplitChar newline_char (table_line (k, v) @ s) = (k @ comma # JoinChar comma v) # SplitChar newline_char s"
proof -
  have "newline_char \<notin> set (k @ comma # JoinChar comma v)"
    using assms set_JoinChar [of comma v] by (auto simp: clean_def)
  then show ?thesis using SplitChar_append [of newline_char "k @ comma # JoinChar comma v" s] by (simp add: table_line_def)
qed

lemma lines_of_tables:
  "\<forall>(k, v) \<in> set t. clean k \<and> v \<noteq> [] \<and> (\<forall>c \<in> set v. clean c) \<Longrightarrow>
     SplitChar newline_char (print_tables t) = map (\<lambda>(k, v). k @ comma # JoinChar comma v) t @ [[]]"
proof (induction t)
  case Nil
  show ?case by (simp add: print_tables_def)
next
  case (Cons x t)
  then obtain k v where x: "x = (k, v)" "clean k" "\<forall>c \<in> set v. clean c" by (cases x) auto
  with Cons table_line_split [OF x(2,3), of "print_tables t"] show ?case by (simp add: print_tables_def)
qed

lemma add_line_table:
  assumes "clean k" "v \<noteq> []" "\<forall>c \<in> set v. clean c"
  shows "add_line t (k @ comma # JoinChar comma v) = AList.update k v t"
proof -
  have "SplitChar comma (k @ comma # JoinChar comma v) = k # v"
    using assms SplitChar_append [of comma k] Split_Join [of v comma] by (simp add: clean_def)
  then show ?thesis by (simp add: add_line_def)
qed

lemma update_new: "k \<notin> fst ` set t \<Longrightarrow> AList.update k v t = t @ [(k, v)]"
  by (induction t) auto

lemma parse_lines:
  "\<lbrakk>\<forall>(k, v) \<in> set t. clean k \<and> v \<noteq> [] \<and> (\<forall>c \<in> set v. clean c); distinct (map fst t); \<forall>k \<in> fst ` set t. k \<notin> fst ` set acc\<rbrakk> \<Longrightarrow>
     foldl add_line acc (map (\<lambda>(k, v). k @ comma # JoinChar comma v) t) = acc @ t"
proof (induction t arbitrary: acc)
  case (Cons x t)
  obtain k v where x: "x = (k, v)" by (cases x)
  with Cons.prems have u: "add_line acc (k @ comma # JoinChar comma v) = acc @ [(k, v)]"
    using add_line_table [of k v acc] update_new [of k acc v] by simp
  have "\<forall>k' \<in> fst ` set t. k' \<notin> fst ` set (acc @ [(k, v)])" using Cons.prems(2,3) x by auto
  with Cons.IH [of "acc @ [(k, v)]"] Cons.prems(1,2) show ?case by (simp add: x u)
qed simp

lemma parse_print_tables: "tables_ok t \<Longrightarrow> parse_tables (print_tables t) = t"
  using lines_of_tables [of t] parse_lines [of t "[]"] by (simp add: parse_tables_def tables_ok_def)

text \<open>The order in which a Go program meets the entries of a map.\<close>

definition range_order :: "(kvtables \<Rightarrow> kvtables) \<Rightarrow> bool" where
  "range_order ord \<longleftrightarrow> (\<forall>t. mset (ord t) = mset t)"

lemma range_order_ok:
  assumes "range_order ord" "tables_ok t"
  shows "tables_ok (ord t)" "map_of (ord t) = map_of t"
proof -
  have m: "mset (ord t) = mset t" using assms(1) by (simp add: range_order_def)
  then have s: "set (ord t) = set t" by (rule mset_eq_setD)
  have "mset (map fst (ord t)) = mset (map fst t)" using m by simp
  then have d: "distinct (map fst (ord t))" using assms(2) unfolding tables_ok_def by (metis mset_eq_imp_distinct_iff)
  with s assms(2) show "tables_ok (ord t)" by (simp add: tables_ok_def)
  have "map_of (ord t) k = Some v \<longleftrightarrow> map_of t k = Some v" for k v
    using d assms(2) s by (simp add: tables_ok_def)
  then show "map_of (ord t) = map_of t" by (intro ext) (metis not_None_eq)
qed

lemma set_AList_update: "set (AList.update k v t) \<subseteq> insert (k, v) (set t)"
  by (induction t) auto

lemma tables_ok_update: "\<lbrakk>tables_ok t; clean k; v \<noteq> []; \<forall>c \<in> set v. clean c\<rbrakk> \<Longrightarrow> tables_ok (AList.update k v t)"
proof -
  assume t: "tables_ok t" and kv: "clean k" "v \<noteq> []" "\<forall>c \<in> set v. clean c"
  then have "\<forall>x \<in> insert (k, v) (set t). case x of (k, v) \<Rightarrow> clean k \<and> v \<noteq> [] \<and> (\<forall>c \<in> set v. clean c)"
    by (simp add: tables_ok_def)
  with set_AList_update [of k v t] t show ?thesis unfolding tables_ok_def by (blast intro: AList.distinct_update)
qed

lemma tables_ok_delete: "tables_ok t \<Longrightarrow> tables_ok (AList.delete k t)"
  unfolding tables_ok_def AList.delete_eq by (auto simp: distinct_map_filter)

lemma type_string [simp]: "toIndexTypeEnum (IndexType_String ty) = ty"
  by (cases ty) (simp_all add: toIndexTypeEnum_def)

lemma clean_type: "clean (IndexType_String ty)"
  by (cases ty) (simp_all add: clean_def comma_def newline_char_def)

section \<open>Loading and storing the list\<close>

definition kv_tables :: "'w services \<Rightarrow> feedview \<Rightarrow> Address \<Rightarrow> string \<Rightarrow> kvtables" where
  "kv_tables sv fs u pw =
     (case fs (u, HashString sv kvFile, bytes_of pw) of None \<Rightarrow> [] | Some d \<Rightarrow> parse_tables (feed_text d))"

definition list_fits :: "'w services \<Rightarrow> string \<Rightarrow> kvtables \<Rightarrow> bool" where
  "list_fits sv pw t \<longleftrightarrow> t = [] \<or> storable sv (bytes_of pw) (Raw (bytes_of (print_tables t)))"

lemma print_tables_empty: "print_tables t = [] \<longleftrightarrow> t = []"
  by (cases t) (auto simp: print_tables_def table_line_def)

lemma parse_deleted: "parse_tables (feed_text deleted_mark) = []"
  by (simp add: parse_tables_def feed_text_def deleted_mark_def DeletedFeedMagicWord_def newline_char_def)

context storage
begin

lemma LoadKVTables_ok:
  assumes "inv b w" "length kvFile \<le> maxlen"
  obtains w' where "LoadKVTables sv kv pw w = (Inr (kv_tables sv (feeds w) (kvUser kv) pw), w')" "inv b w'"
    "feeds w' = feeds w" "blobs w' = blobs w"
proof -
  obtain r w1 where g: "GetFeedData sv (HashString sv kvFile) (kvUser kv) (bytes_of pw) w = (r, w1)" by fastforce
  note 1 = get_feed [OF assms(1) g]
  show thesis
  proof (cases "feeds w (kvUser kv, HashString sv kvFile, bytes_of pw)")
    case None
    from get_absent [OF assms None g] g 1 None show thesis
      by (intro that [of w1]) (auto simp: LoadKVTables_def kv_tables_def error_string_def)
  next
    case (Some d)
    with g 1 show thesis by (intro that [of w1]) (auto simp: LoadKVTables_def kv_tables_def)
  qed
qed

lemma storeKVTables_ok:
  assumes "inv (Suc b) w" "length kvFile \<le> maxlen" "range_order ord" "tables_ok t" "list_fits sv pw (ord t)"
  obtains w' where "storeKVTables sv ord kv t pw w = (Inr (), w')" "inv b w'" "blobs w' = blobs w"
    "map_of (kv_tables sv (feeds w') (kvUser kv) pw) = map_of t" "tables_ok (kv_tables sv (feeds w') (kvUser kv) pw)"
    "\<And>v t p. (v, t) \<noteq> (kvUser kv, HashString sv kvFile) \<Longrightarrow> feeds w' (v, t, p) = feeds w (v, t, p)"
proof -
  define d where "d = (if ord t = [] then deleted_mark else Raw (bytes_of (print_tables (ord t))))"
  have fit: "storable sv (bytes_of pw) d" using assms(5) by (auto simp: d_def list_fits_def)
  obtain r w' where u: "UpdateFeed sv (kvUser kv) (HashString sv kvFile) d (bytes_of pw) w = (r, w')" by fastforce
  note 1 = update_feed [OF assms(1) fit assms(2) refl u]
  note o = range_order_ok [OF assms(3,4)]
  have "parse_tables (feed_text d) = ord t"
    using parse_deleted parse_print_tables [OF o(1)] by (auto simp: d_def feed_text_def)
  then have k: "kv_tables sv (feeds w') (kvUser kv) pw = ord t"
    using 1 feed_writtenD(1) by (fastforce simp: kv_tables_def)
  have run: "storeKVTables sv ord kv t pw w = (Inr (), w')"
    using u 1 by (simp add: storeKVTables_def Let_def print_tables_empty d_def)
  show thesis
    by (rule that [of w']) (use run 1 k o feed_writtenD(2) in \<open>auto simp: \<close>)
qed

text \<open>No name of an index is the name of the list: the former have a K.\<close>

lemma kvFile_no_K: "CHR ''K'' \<notin> set kvFile"
  by (simp add: kvFile_def)

lemma not_kvFile: "prefix (p @ defaultCollectionName @ n) s \<Longrightarrow> s \<noteq> kvFile"
proof
  assume "prefix (p @ defaultCollectionName @ n) s" "s = kvFile"
  then obtain t where "kvFile = p @ CHR ''K'' # (CHR ''V'' # n @ t)" by (auto simp: prefix_def defaultCollectionName_def)
  then have "CHR ''K'' \<in> set kvFile" by (metis in_set_conv_decomp)
  with kvFile_no_K show False ..
qed

lemma list_kept:
  assumes "touched sv maxlen u S (feeds w) (blobs w) (feeds w') (blobs w')" "length kvFile \<le> maxlen" "kvFile \<notin> S"
  shows "kv_tables sv (feeds w') v pw = kv_tables sv (feeds w) v pw"
proof -
  have "feeds w' (v, HashString sv kvFile, bytes_of pw) = feeds w (v, HashString sv kvFile, bytes_of pw)"
  proof (rule touchedD [OF assms(1)])
    fix s assume "s \<in> S" "length s \<le> maxlen"
    with hash_inj [OF assms(2), of s] assms(3) show "HashString sv kvFile \<noteq> HashString sv s" by auto
  qed
  then show ?thesis by (simp add: kv_tables_def)
qed

lemma store_touched:
  assumes "blobs w' = blobs w" "\<And>v t p. (v, t) \<noteq> (u, HashString sv kvFile) \<Longrightarrow> feeds w' (v, t, p) = feeds w (v, t, p)"
    "length kvFile \<le> maxlen"
  shows "touched sv maxlen u {kvFile} (feeds w) (blobs w) (feeds w') (blobs w')"
  unfolding touched_def using assms by auto

lemma CreateKVTable_ok:
  assumes b: "inv (b + 3) w" and len: "length kvFile \<le> maxlen" "length (kvPodName kv @ defaultCollectionName @ name) \<le> maxlen"
    and ord: "range_order ord" and t: "tables_ok (kv_tables sv (feeds w) (kvUser kv) pw)"
    and new: "map_of (kv_tables sv (feeds w) (kvUser kv) pw) name = None" "clean name"
    and free: "feeds w (kvUser kv, HashString sv (kvPodName kv @ defaultCollectionName @ name), bytes_of pw) \<in> {None, Some deleted_mark}"
    and fit: "list_fits sv pw (ord (AList.update name [IndexType_String ty] (kv_tables sv (feeds w) (kvUser kv) pw)))"
    and valid: "valid_utf8 (kvPodName kv @ defaultCollectionName @ name)"
  obtains w' idx m where "CreateKVTable sv ord kv name pw ty w = (Inr (), w')" "inv b w'"
    "map_of (kv_tables sv (feeds w') (kvUser kv) pw) = (map_of (kv_tables sv (feeds w) (kvUser kv) pw))(name \<mapsto> [IndexType_String ty])"
    "tables_ok (kv_tables sv (feeds w') (kvUser kv) pw)"
    "ixName idx = kvPodName kv @ defaultCollectionName @ name" "ixPassword idx = pw" "ixUser idx = kvUser kv"
    "index_ok sv maxlen feeds blobs idx w'" "index_find sv maxlen feeds blobs idx w' = (\<lambda>k. None)"
    "ixview sv maxlen feeds blobs idx w' (ixName idx) = Some m" "mName m = ixName idx" "mMutable m"
proof -
  let ?t = "kv_tables sv (feeds w) (kvUser kv) pw"
  obtain w0 where 0: "LoadKVTables sv kv pw w = (Inr ?t, w0)" "inv (b + 3) w0" "feeds w0 = feeds w" "blobs w0 = blobs w"
    by (rule LoadKVTables_ok [OF b len(1)])
  have b0: "inv (Suc b + 2) w0" using 0(2) by (simp add: eval_nat_numeral)
  have free0: "feeds w0 (kvUser kv, HashString sv (kvPodName kv @ defaultCollectionName @ name), bytes_of pw) \<in> {None, Some deleted_mark}"
    using free 0(3) by simp
  obtain w1 idx m where 1: "CreateIndex sv (kvPodName kv) defaultCollectionName name pw ty (kvUser kv) True w0 = (Inr (), w1)" "inv (Suc b) w1"
    "ixName idx = kvPodName kv @ defaultCollectionName @ name" "ixPassword idx = pw" "ixUser idx = kvUser kv"
    "index_ok sv maxlen feeds blobs idx w1" "index_find sv maxlen feeds blobs idx w1 = (\<lambda>k. None)"
    "ixview sv maxlen feeds blobs idx w1 (ixName idx) = Some m" "mName m = ixName idx" "mMutable m"
    "touched sv maxlen (kvUser kv) {kvPodName kv @ defaultCollectionName @ name} (feeds w0) (blobs w0) (feeds w1) (blobs w1)"
    by (rule CreateIndex_ok [OF b0 len(2) free0 valid, of ty]) (rule that)
  let ?t1 = "AList.update name [IndexType_String ty] ?t"
  have t1: "tables_ok ?t1" using tables_ok_update [OF t new(2)] clean_type by simp
  obtain w2 where 2: "storeKVTables sv ord kv ?t1 pw w1 = (Inr (), w2)" "inv b w2" "blobs w2 = blobs w1"
    "map_of (kv_tables sv (feeds w2) (kvUser kv) pw) = map_of ?t1" "tables_ok (kv_tables sv (feeds w2) (kvUser kv) pw)"
    "\<And>v t p. (v, t) \<noteq> (kvUser kv, HashString sv kvFile) \<Longrightarrow> feeds w2 (v, t, p) = feeds w1 (v, t, p)"
    by (rule storeKVTables_ok [OF 1(2) len(1) ord t1 fit, of kv]) (rule that)
  note tc = store_touched [OF 2(3,6) len(1)]
  have np: "\<not> prefix (ixName idx) s" if "s \<in> {kvFile}" for s
    using that not_kvFile unfolding 1(3) by blast
  note fr = index_frame [OF tc 1(6) np]
  show thesis
  proof (rule that [of w2 idx m])
    show "CreateKVTable sv ord kv name pw ty w = (Inr (), w2)"
      using writable [OF b] 0(1) new(1) 1(1) 2(1) by (simp add: CreateKVTable_def)
    show "index_find sv maxlen feeds blobs idx w2 = (\<lambda>k. None)" using fr(2) 1(7) by simp
    show "ixview sv maxlen feeds blobs idx w2 (ixName idx) = Some m" using fr(3) 1(8) by simp
  qed (use 1 2 fr AList.update_conv' in auto)
qed

lemma OpenKVTable_ok:
  assumes b: "inv b w" and len: "length kvFile \<le> maxlen"
    and listed: "map_of (kv_tables sv (feeds w) (kvUser kv) pw) name = Some (ty # cols)"
    and idx: "ixName idx = kvPodName kv @ defaultCollectionName @ name" "ixPassword idx = pw" "ixUser idx = kvUser kv"
      "index_ok sv maxlen feeds blobs idx w" "ixview sv maxlen feeds blobs idx w (ixName idx) = Some m" "mName m = ixName idx" "mMutable m"
  obtains w' kv' columns idx' where "OpenKVTable sv kv name pw w = (Inr (), kv', w')" "inv b w'" "feeds w' = feeds w" "blobs w' = blobs w"
    "kv' = kv\<lparr>kvOpen := (kvOpen kv)(name \<mapsto> \<lparr>tblIndex = kvNext kv, tblType = toIndexTypeEnum ty, tblColumns = columns\<rparr>),
       kvHeap := (kvHeap kv)(kvNext kv := idx'), kvNext := Suc (kvNext kv)\<rparr>"
    "ixName idx' = ixName idx" "ixPassword idx' = pw" "ixUser idx' = kvUser kv"
    "index_ok sv maxlen feeds blobs idx' w'" "index_find sv maxlen feeds blobs idx' w' = index_find sv maxlen feeds blobs idx w"
proof -
  obtain w0 where 0: "LoadKVTables sv kv pw w = (Inr (kv_tables sv (feeds w) (kvUser kv) pw), w0)" "inv b w0" "feeds w0 = feeds w" "blobs w0 = blobs w"
    by (rule LoadKVTables_ok [OF b len])
  have v0: "ixview sv maxlen feeds blobs idx w0 (kvPodName kv @ defaultCollectionName @ name) = Some m"
    using idx(1,5) ixview_same [OF 0(3,4)] by metis
  define idx' where "idx' = \<lparr>ixName = mName m, ixMutable = mMutable m, ixType = mIdxType m, ixPodFile = mPodFile m,
         ixPassword = ixPassword idx, ixUser = ixUser idx, ixCount = mCount m, ixMemDB = Some m\<rparr>"
  obtain w1 where 1: "OpenIndex sv (kvPodName kv) defaultCollectionName name pw (kvUser kv) w0 = (Inr idx', w1)"
    "inv b w1" "feeds w1 = feeds w0" "blobs w1 = blobs w0"
    by (rule OpenIndex_ok [OF 0(2) v0]) (use that idx in \<open>simp add: idx'_def\<close>)
  have i: "ixName idx' = ixName idx" "ixPassword idx' = ixPassword idx" "ixUser idx' = ixUser idx" "ixMutable idx'"
    using idx(6,7) by (simp_all add: idx'_def)
  have V: "ixview sv maxlen feeds blobs x w' = ixview sv maxlen feeds blobs x w" if "feeds w' = feeds w" "blobs w' = blobs w" for x w'
    using that by (rule ixview_same)
  have ok: "index_ok sv maxlen feeds blobs idx' w'" "index_find sv maxlen feeds blobs idx' w' = index_find sv maxlen feeds blobs idx w"
    if "feeds w' = feeds w" "blobs w' = blobs w" for w'
    using index_ok_cong [OF idx(4) i] unfolding index_ok_def index_find_def V [OF that] by blast+
  have ok1: "index_ok sv maxlen feeds blobs idx' w1" using ok(1) 0 1 by simp
  obtain g w2 where 2: "Get sv idx' CSVHeaderKey w1 = (g, w2)" "inv b w2" "feeds w2 = feeds w1" "blobs w2 = blobs w1"
    by (rule Get_ok [OF 1(2) ok1, of CSVHeaderKey])
  show thesis
  proof (rule that [of _ w2 idx' "case g of Inr (h # hs) \<Rightarrow> SplitChar comma (string_of h) | _ \<Rightarrow> []"])
    show "OpenKVTable sv kv name pw w = (Inr (), kv\<lparr>kvOpen := (kvOpen kv)(name \<mapsto> \<lparr>tblIndex = kvNext kv, tblType = toIndexTypeEnum ty,
          tblColumns = (case g of Inr (h # hs) \<Rightarrow> SplitChar comma (string_of h) | _ \<Rightarrow> [])\<rparr>),
        kvHeap := (kvHeap kv)(kvNext kv := idx'), kvNext := Suc (kvNext kv)\<rparr>, w2)"
      using 0(1) listed 1(1) 2(1) by (simp add: OpenKVTable_def Let_def)
  qed (use 0 1 2 ok i idx in simp_all)
qed

lemma DeleteKVTable_ok:
  assumes b: "inv (b + 2) w" and len: "length kvFile \<le> maxlen" "length (ixName (kvHeap kv (tblIndex t))) \<le> maxlen"
    and ord: "range_order ord" and ts: "tables_ok (kv_tables sv (feeds w) (kvUser kv) pw)"
    and listed: "map_of (kv_tables sv (feeds w) (kvUser kv) pw) name \<noteq> None"
    and t: "kvOpen kv name = Some t" "index_ok sv maxlen feeds blobs (kvHeap kv (tblIndex t)) w"
      "ixName (kvHeap kv (tblIndex t)) = kvPodName kv @ defaultCollectionName @ name"
      "ixPassword (kvHeap kv (tblIndex t)) = pw" "ixUser (kvHeap kv (tblIndex t)) = kvUser kv"
    and fit: "list_fits sv pw (ord (AList.delete name (kv_tables sv (feeds w) (kvUser kv) pw)))"
  obtains w' where "DeleteKVTable sv ord kv name pw w = (Inr (), kv\<lparr>kvOpen := (kvOpen kv)(name := None)\<rparr>, w')" "inv b w'"
    "map_of (kv_tables sv (feeds w') (kvUser kv) pw) = (map_of (kv_tables sv (feeds w) (kvUser kv) pw))(name := None)"
    "tables_ok (kv_tables sv (feeds w') (kvUser kv) pw)"
    "feeds w' (kvUser kv, HashString sv (kvPodName kv @ defaultCollectionName @ name), bytes_of pw) = Some deleted_mark"
proof -
  let ?t = "kv_tables sv (feeds w) (kvUser kv) pw" and ?idx = "kvHeap kv (tblIndex t)"
  let ?kv = "kv\<lparr>kvOpen := (kvOpen kv)(name := None)\<rparr>"
  obtain w0 where 0: "LoadKVTables sv kv pw w = (Inr ?t, w0)" "inv (b + 2) w0" "feeds w0 = feeds w" "blobs w0 = blobs w"
    by (rule LoadKVTables_ok [OF b len(1)])
  have b0: "inv (Suc (Suc b)) w0" using 0(2) by simp
  have ok0: "index_ok sv maxlen feeds blobs ?idx w0" using t(2) unfolding index_ok_def ixview_same [OF 0(3,4)] .
  obtain w1 where 1: "DeleteIndex sv ?idx (ixPassword ?idx) w0 = (Inr (), w1)" "inv (Suc b) w1"
    "feed_written (feeds w0) (feeds w1) (ixUser ?idx) (HashString sv (ixName ?idx)) (bytes_of (ixPassword ?idx)) deleted_mark"
    "blobs w1 = blobs w0"
    by (rule DeleteIndex_ok [OF b0 ok0 len(2)]) (rule that)
  have tc: "touched sv maxlen (ixUser ?idx) {ixName ?idx} (feeds w0) (blobs w0) (feeds w1) (blobs w1)"
    using 1(3,4) len(2) by (auto simp: touched_def feed_written_def)
  have ne: "ixName ?idx \<noteq> kvFile" using not_kvFile [of "kvPodName kv" name "ixName ?idx"] t(3) by simp
  have k1: "kv_tables sv (feeds w1) (kvUser kv) pw = ?t" using list_kept [OF tc len(1)] ne 0(3) by simp
  have t1: "tables_ok (AList.delete name ?t)" by (rule tables_ok_delete [OF ts])
  have kvs: "kvUser ?kv = kvUser kv" by simp
  obtain w2 where 2: "storeKVTables sv ord ?kv (AList.delete name ?t) pw w1 = (Inr (), w2)" "inv b w2" "blobs w2 = blobs w1"
    "map_of (kv_tables sv (feeds w2) (kvUser ?kv) pw) = map_of (AList.delete name ?t)" "tables_ok (kv_tables sv (feeds w2) (kvUser ?kv) pw)"
    "\<And>v t p. (v, t) \<noteq> (kvUser ?kv, HashString sv kvFile) \<Longrightarrow> feeds w2 (v, t, p) = feeds w1 (v, t, p)"
    by (rule storeKVTables_ok [OF 1(2) len(1) ord t1 fit, of ?kv]) (rule that)
  have hn: "HashString sv (ixName ?idx) \<noteq> HashString sv kvFile" using hash_inj [OF len(2,1)] ne by auto
  show thesis
  proof (rule that [of w2])
    show "DeleteKVTable sv ord kv name pw w = (Inr (), ?kv, w2)"
      using writable [OF b] 0(1) listed t(1,4) 1(1) 2(1) by (auto simp: DeleteKVTable_def delete_table_def)
    show "feeds w2 (kvUser kv, HashString sv (kvPodName kv @ defaultCollectionName @ name), bytes_of pw) = Some deleted_mark"
      using 2(6) hn feed_writtenD(1) [OF 1(3)] t(3-5) by simp
    show "map_of (kv_tables sv (feeds w2) (kvUser kv) pw) = (map_of ?t)(name := None)"
      using 2(4) by (simp add: AList.delete_conv')
  qed (use 2 in simp_all)
qed

end

context storage
begin

text \<open>The value of a key, as KVGet gives it without the columns.\<close>

lemma KVGet_ok:
  assumes "inv b w" "kvOpen kv name = Some t" "index_ok sv maxlen feeds blobs (kvHeap kv (tblIndex t)) w"
  shows "fst (KVGet sv kv name key w) =
     (case index_find sv maxlen feeds blobs (kvHeap kv (tblIndex t)) w key of
        None \<Rightarrow> Inl ErrEntryNotFound
      | Some [] \<Rightarrow> Inl (Panic ''index out of range'')
      | Some (v # vs) \<Rightarrow>
          if tblType t = BytesIndex then map_sum id (\<lambda>d. (tblColumns t, fst d)) (fst (DownloadBlob sv v (snd (Get sv (kvHeap kv (tblIndex t)) key w))))
          else Inr (tblColumns t, Raw v))"
    "inv b (snd (Get sv (kvHeap kv (tblIndex t)) key w))" "blobs (snd (Get sv (kvHeap kv (tblIndex t)) key w)) = blobs w"
proof -
  let ?idx = "kvHeap kv (tblIndex t)"
  obtain w1 where g: "Get sv ?idx key w =
      ((case index_find sv maxlen feeds blobs ?idx w key of None \<Rightarrow> Inl ErrEntryNotFound | Some refs \<Rightarrow> Inr refs), w1)"
    "inv b w1" "feeds w1 = feeds w" "blobs w1 = blobs w" by (rule Get_ok [OF assms(1,3)])
  show "fst (KVGet sv kv name key w) = (case index_find sv maxlen feeds blobs ?idx w key of
        None \<Rightarrow> Inl ErrEntryNotFound
      | Some [] \<Rightarrow> Inl (Panic ''index out of range'')
      | Some (v # vs) \<Rightarrow>
          if tblType t = BytesIndex then map_sum id (\<lambda>d. (tblColumns t, fst d)) (fst (DownloadBlob sv v (snd (Get sv ?idx key w))))
          else Inr (tblColumns t, Raw v))"
    using assms(2) g(1) by (auto simp: KVGet_def split: option.split list.split sum.split prod.split)
  show "inv b (snd (Get sv ?idx key w))" "blobs (snd (Get sv ?idx key w)) = blobs w" using g by simp_all
qed

text \<open>What KVGet says of a key, as far as it depends on what is stored: found with
  a value, or not there.\<close>

definition kv_entry :: "KeyValue \<Rightarrow> 'w \<Rightarrow> string \<Rightarrow> string \<Rightarrow> (string list \<times> content) option" where
  "kv_entry kv w name key =
     (case kvOpen kv name of
        None \<Rightarrow> None
      | Some t \<Rightarrow>
          (case index_find sv maxlen feeds blobs (kvHeap kv (tblIndex t)) w key of
             None \<Rightarrow> None
           | Some [] \<Rightarrow> None
           | Some (v # vs) \<Rightarrow>
               if tblType t = BytesIndex then map_option (\<lambda>d. (tblColumns t, d)) (blobs w v)
               else Some (tblColumns t, Raw v)))"

lemma KVGet_entry:
  assumes "inv b w" "kvOpen kv name = Some t" "index_ok sv maxlen feeds blobs (kvHeap kv (tblIndex t)) w"
  shows "fst (KVGet sv kv name key w) = Inr x \<longleftrightarrow> kv_entry kv w name key = Some x"
    "index_find sv maxlen feeds blobs (kvHeap kv (tblIndex t)) w key = None \<Longrightarrow> fst (KVGet sv kv name key w) = Inl ErrEntryNotFound"
proof -
  let ?w1 = "snd (Get sv (kvHeap kv (tblIndex t)) key w)"
  note g = KVGet_ok [OF assms, of key]
  show "index_find sv maxlen feeds blobs (kvHeap kv (tblIndex t)) w key = None \<Longrightarrow> fst (KVGet sv kv name key w) = Inl ErrEntryNotFound"
    using g(1) by simp
  have d: "map_sum id (\<lambda>d. (cs, fst d)) (fst (DownloadBlob sv v ?w1)) = Inr x \<longleftrightarrow> map_option (\<lambda>d. (cs, d)) (blobs w v) = Some x" for v cs
  proof -
    obtain r w2 where r: "DownloadBlob sv v ?w1 = (r, w2)" by fastforce
    from download_blob [OF g(2) r] g(3) r show ?thesis by (cases "blobs w v") auto
  qed
  show "fst (KVGet sv kv name key w) = Inr x \<longleftrightarrow> kv_entry kv w name key = Some x"
    unfolding g(1) kv_entry_def using assms(2) d by (auto split: option.split list.split)
qed

lemma kv_entry_kept:
  assumes tc: "touched sv maxlen u S (feeds w) (blobs w) (feeds w') (blobs w')"
    and t: "kvOpen kv name = Some t" "index_ok sv maxlen feeds blobs (kvHeap kv (tblIndex t)) w"
    and S: "\<And>s. s \<in> S \<Longrightarrow> \<not> prefix (ixName (kvHeap kv (tblIndex t))) s"
    and kv': "kvOpen kv' name = Some t" "index_find sv maxlen feeds blobs (kvHeap kv' (tblIndex t)) w' = index_find sv maxlen feeds blobs (kvHeap kv (tblIndex t)) w'"
    and e: "kv_entry kv w name key = Some x"
  shows "kv_entry kv' w' name key = Some x"
proof -
  have f: "index_find sv maxlen feeds blobs (kvHeap kv' (tblIndex t)) w' = index_find sv maxlen feeds blobs (kvHeap kv (tblIndex t)) w"
    using index_frame(2) [OF tc t(2) S] kv'(2) by simp
  have b: "blobs w v = Some c \<Longrightarrow> blobs w' v = Some c" for v c using tc unfolding touched_def map_le_def by (metis domI)
  from e t(1) kv'(1) f b show ?thesis by (auto simp: kv_entry_def split: option.splits list.splits if_splits)
qed

lemma set_index_same:
  assumes "kvHeap kv a = idx"
  shows "index_ok sv maxlen feeds blobs (kvHeap (set_index a (idx\<lparr>ixCount := c\<rparr>) kv) a') w = index_ok sv maxlen feeds blobs (kvHeap kv a') w"
    "index_find sv maxlen feeds blobs (kvHeap (set_index a (idx\<lparr>ixCount := c\<rparr>) kv) a') w = index_find sv maxlen feeds blobs (kvHeap kv a') w"
    "ixName (kvHeap (set_index a (idx\<lparr>ixCount := c\<rparr>) kv) a') = ixName (kvHeap kv a')"
  using assms by (simp_all add: set_index_def)

lemma KVPut_ok:
  assumes b: "inv (b + 5) w" and t: "kvOpen kv name = Some t" "tblType t \<in> {StringIndex, BytesIndex}"
    "index_ok sv maxlen feeds blobs (kvHeap kv (tblIndex t)) w"
    and len: "length (ixName (kvHeap kv (tblIndex t))) + length key \<le> maxlen" "ascii key"
  obtains kv' w' where "KVPut fl sv kv name key val w = (Inr (), kv', w')" "inv b w'"
    "kvOpen kv' = kvOpen kv" "index_ok sv maxlen feeds blobs (kvHeap kv' (tblIndex t)) w'"
    "kv_entry kv' w' name key = Some (tblColumns t, Raw val)"
    "\<And>k. k \<noteq> key \<Longrightarrow> index_find sv maxlen feeds blobs (kvHeap kv' (tblIndex t)) w' k = index_find sv maxlen feeds blobs (kvHeap kv (tblIndex t)) w k"
    "touched sv maxlen (ixUser (kvHeap kv (tblIndex t))) {n. prefix (ixName (kvHeap kv (tblIndex t))) n} (feeds w) (blobs w) (feeds w') (blobs w')"
    "\<And>a w0. index_ok sv maxlen feeds blobs (kvHeap kv' a) w0 = index_ok sv maxlen feeds blobs (kvHeap kv a) w0"
    "\<And>a w0. index_find sv maxlen feeds blobs (kvHeap kv' a) w0 = index_find sv maxlen feeds blobs (kvHeap kv a) w0"
    "\<And>a. ixName (kvHeap kv' a) = ixName (kvHeap kv a)"
proof -
  let ?idx = "kvHeap kv (tblIndex t)"
  define v where "v = (if tblType t = BytesIndex then (case fst (UploadBlob sv (Raw val) w) of Inr ref \<Rightarrow> ref | Inl e \<Rightarrow> []) else val)"
  obtain r w1 where u: "UploadBlob sv (Raw val) w = (r, w1)" by fastforce
  have b5: "inv (Suc (b + 4)) w" using b by (simp add: eval_nat_numeral)
  from upload_blob [OF b5 u] obtain ref where 1: "r = Inr ref" "inv (b + 4) w1" "feeds w1 = feeds w"
    "blobs w1 = (blobs w)(ref \<mapsto> Raw val)" "blobs w ref = None \<or> blobs w ref = Some (Raw val)" by auto
  define w0 where "w0 = (if tblType t = BytesIndex then w1 else w)"
  have le: "blobs w \<subseteq>\<^sub>m blobs w0" "feeds w0 = feeds w" using 1(3-5) by (auto simp: w0_def map_le_def)
  have tc0: "touched sv maxlen (ixUser ?idx) {} (feeds w) (blobs w) (feeds w0) (blobs w0)" using le by (simp add: touched_def)
  have ok0: "index_ok sv maxlen feeds blobs ?idx w0" and f0: "index_find sv maxlen feeds blobs ?idx w0 = index_find sv maxlen feeds blobs ?idx w"
    using index_frame(1,2) [OF tc0 t(3)] by simp_all
  have b0: "inv (b + 2 + 2) w0" using 1(2) inv_mono [OF b, of "b + 4"] by (simp add: w0_def eval_nat_numeral)
  obtain w2 where 2: "Put sv ?idx key v StringIndex False w0 = (Inr (), ?idx\<lparr>ixCount := ixCount ?idx + 1\<rparr>, w2)" "inv b w2"
    "index_ok sv maxlen feeds blobs ?idx w2"
    "\<And>k. index_find sv maxlen feeds blobs ?idx w2 k = (if k = key then Some [v] else index_find sv maxlen feeds blobs ?idx w0 k)"
    "touched sv maxlen (ixUser ?idx) {n. prefix (ixName ?idx) n} (feeds w0) (blobs w0) (feeds w2) (blobs w2)"
    by (rule Put_ok [OF b0 ok0 len, of v StringIndex False]) (auto split: option.splits)
  let ?kv = "set_index (tblIndex t) (?idx\<lparr>ixCount := ixCount ?idx + 1\<rparr>) kv"
  note si = set_index_same [of kv "tblIndex t" ?idx "ixCount ?idx + 1", OF refl]
  have run: "KVPut fl sv kv name key val w = (Inr (), ?kv, w2)"
    using writable [OF b] t(1,2) u 1(1) 2(1) by (auto simp: KVPut_def Let_def v_def w0_def)
  have tc: "touched sv maxlen (ixUser ?idx) {n. prefix (ixName ?idx) n} (feeds w) (blobs w) (feeds w2) (blobs w2)"
    using touched_trans [OF touched_mono [OF tc0, of "{n. prefix (ixName ?idx) n}"] 2(5)] by simp
  have bl: "tblType t = BytesIndex \<Longrightarrow> blobs w2 v = Some (Raw val)"
    using 2(5) 1(1,4) u by (auto simp: touched_def map_le_def w0_def v_def)
  show thesis
  proof (rule that [OF run 2(2)])
    show "kvOpen ?kv = kvOpen kv" by (simp add: set_index_def)
    show "kv_entry ?kv w2 name key = Some (tblColumns t, Raw val)"
      using t(1) 2(4) bl by (auto simp: kv_entry_def si set_index_def v_def)
    show "k \<noteq> key \<Longrightarrow> index_find sv maxlen feeds blobs (kvHeap ?kv (tblIndex t)) w2 k = index_find sv maxlen feeds blobs ?idx w k" for k
      using 2(4) f0 by (simp add: si)
  qed (use 2(3) tc si in simp_all)
qed

end

section \<open>Properties\<close>

text \<open>C13: The list of tables survives its text.  storeKVTables, whatever order it
  ranges over the map in, followed by LoadKVTables gives the same map back, for
  names and columns without comma and line break; an empty map is stored as the
  mark of a deleted feed and comes back empty.\<close>

theorem kv_tables_round_trip:
  assumes "storage sv maxlen good feeds blobs" "good (Suc b) w" "length kvFile \<le> maxlen" "range_order ord"
    "tables_ok t" "list_fits sv pw (ord t)"
  shows "\<exists>w1 t' w2. storeKVTables sv ord kv t pw w = (Inr (), w1) \<and> LoadKVTables sv kv pw w1 = (Inr t', w2)
    \<and> map_of t' = map_of t"
proof -
  obtain w1 where 1: "storeKVTables sv ord kv t pw w = (Inr (), w1)" "good b w1"
    "map_of (kv_tables sv (feeds w1) (kvUser kv) pw) = map_of t"
    by (rule storage.storeKVTables_ok [OF assms(1-6), of kv]) (rule that)
  obtain w2 where "LoadKVTables sv kv pw w1 = (Inr (kv_tables sv (feeds w1) (kvUser kv) pw), w2)"
    by (rule storage.LoadKVTables_ok [OF assms(1) 1(2) assms(3)])
  with 1 show ?thesis by blast
qed

text \<open>C14: A key value table goes through its life.  CreateKVTable of a new, valid name adds
  exactly this table to the list, and a second one is refused; OpenKVTable opens
  it with its type, and it is empty; DeleteKVTable takes exactly this table off
  the list and closes it, and then it can neither be opened nor deleted.\<close>

theorem kv_table_life_cycle:
  assumes st: "storage sv maxlen good feeds blobs" and w: "good (b + 5) w"
    and len: "length kvFile \<le> maxlen" "length (kvPodName kv @ defaultCollectionName @ name) \<le> maxlen"
    and ord: "range_order ord" and t: "tables_ok (kv_tables sv (feeds w) (kvUser kv) pw)"
    and new: "map_of (kv_tables sv (feeds w) (kvUser kv) pw) name = None" "clean name"
    and free: "feeds w (kvUser kv, HashString sv (kvPodName kv @ defaultCollectionName @ name), bytes_of pw) \<in> {None, Some deleted_mark}"
    and fit: "\<forall>t. tables_ok t \<and> (map_of t = map_of (kv_tables sv (feeds w) (kvUser kv) pw) \<or>
        map_of t = (map_of (kv_tables sv (feeds w) (kvUser kv) pw))(name \<mapsto> [IndexType_String ty])) \<longrightarrow> list_fits sv pw t"
    and valid: "valid_utf8 (kvPodName kv @ defaultCollectionName @ name)"
  shows "\<exists>w1 kv2 w2 w3. CreateKVTable sv ord kv name pw ty w = (Inr (), w1)
     \<and> map_of (kv_tables sv (feeds w1) (kvUser kv) pw) = (map_of (kv_tables sv (feeds w) (kvUser kv) pw))(name \<mapsto> [IndexType_String ty])
     \<and> fst (CreateKVTable sv ord kv name pw ty w1) = Inl ErrKvTableAlreadyPresent
     \<and> OpenKVTable sv kv name pw w1 = (Inr (), kv2, w2) \<and> map_option tblType (kvOpen kv2 name) = Some ty
     \<and> (\<forall>k. fst (KVGet sv kv2 name k w2) = Inl ErrEntryNotFound)
     \<and> DeleteKVTable sv ord kv2 name pw w2 = (Inr (), kv2\<lparr>kvOpen := (kvOpen kv2)(name := None)\<rparr>, w3) \<and> good b w3
     \<and> map_of (kv_tables sv (feeds w3) (kvUser kv) pw) = map_of (kv_tables sv (feeds w) (kvUser kv) pw)
     \<and> fst (OpenKVTable sv kv2 name pw w3) = Inl ErrKVTableNotPresent
     \<and> fst (DeleteKVTable sv ord kv2 name pw w3) = Inl ErrKVTableNotPresent"
proof -
  let ?t = "\<lambda>w. kv_tables sv (feeds w) (kvUser kv) pw"
  have o1: "tables_ok (ord (AList.update name [IndexType_String ty] (?t w)))"
    "map_of (ord (AList.update name [IndexType_String ty] (?t w))) = (map_of (?t w))(name \<mapsto> [IndexType_String ty])"
    using range_order_ok [OF ord tables_ok_update [OF t new(2), of "[IndexType_String ty]"]] clean_type
    by (simp_all add: AList.update_conv')
  have fit1: "list_fits sv pw (ord (AList.update name [IndexType_String ty] (?t w)))" using fit o1 by blast
  have w': "good ((b + 2) + 3) w" using w by (simp add: eval_nat_numeral)
  obtain w1 idx m where 1: "CreateKVTable sv ord kv name pw ty w = (Inr (), w1)" "good (b + 2) w1"
    "map_of (?t w1) = (map_of (?t w))(name \<mapsto> [IndexType_String ty])" "tables_ok (?t w1)"
    "ixName idx = kvPodName kv @ defaultCollectionName @ name" "ixPassword idx = pw" "ixUser idx = kvUser kv"
    "index_ok sv maxlen feeds blobs idx w1" "index_find sv maxlen feeds blobs idx w1 = (\<lambda>k. None)"
    "ixview sv maxlen feeds blobs idx w1 (ixName idx) = Some m" "mName m = ixName idx" "mMutable m"
    by (rule storage.CreateKVTable_ok [OF st w' len ord t new free fit1 valid]) (rule that)
  obtain w0 where "LoadKVTables sv kv pw w1 = (Inr (?t w1), w0)"
    by (rule storage.LoadKVTables_ok [OF st 1(2) len(1)])
  then have again: "fst (CreateKVTable sv ord kv name pw ty w1) = Inl ErrKvTableAlreadyPresent"
    using storage.writable [OF st 1(2)] 1(3) by (simp add: CreateKVTable_def)
  have listed: "map_of (?t w1) name = Some [IndexType_String ty]" using 1(3) by simp
  obtain w2 kv2 columns idx' where 2: "OpenKVTable sv kv name pw w1 = (Inr (), kv2, w2)" "good (b + 2) w2" "feeds w2 = feeds w1" "blobs w2 = blobs w1"
    "kv2 = kv\<lparr>kvOpen := (kvOpen kv)(name \<mapsto> \<lparr>tblIndex = kvNext kv, tblType = toIndexTypeEnum (IndexType_String ty), tblColumns = columns\<rparr>),
       kvHeap := (kvHeap kv)(kvNext kv := idx'), kvNext := Suc (kvNext kv)\<rparr>"
    "ixName idx' = ixName idx" "ixPassword idx' = pw" "ixUser idx' = kvUser kv"
    "index_ok sv maxlen feeds blobs idx' w2" "index_find sv maxlen feeds blobs idx' w2 = index_find sv maxlen feeds blobs idx w1"
    by (rule storage.OpenKVTable_ok [OF st 1(2) len(1) listed 1(5-8,10-12)]) (rule that)
  have op: "kvOpen kv2 name = Some \<lparr>tblIndex = kvNext kv, tblType = ty, tblColumns = columns\<rparr>" "kvHeap kv2 (kvNext kv) = idx'"
    "kvUser kv2 = kvUser kv" "kvPodName kv2 = kvPodName kv" by (simp_all add: 2(5))
  have get: "fst (KVGet sv kv2 name k w2) = Inl ErrEntryNotFound" for k
    by (rule storage.KVGet_entry(2) [OF st 2(2) op(1)]) (simp_all add: op 2(9,10) 1(9))
  have d: "length (ixName (kvHeap kv2 (tblIndex \<lparr>tblIndex = kvNext kv, tblType = ty, tblColumns = columns\<rparr>))) \<le> maxlen"
    "map_of (kv_tables sv (feeds w2) (kvUser kv2) pw) name \<noteq> None" "tables_ok (kv_tables sv (feeds w2) (kvUser kv2) pw)"
    using len(2) listed 1(4) by (simp_all add: op 2(3,6) 1(5))
  have o2: "tables_ok (ord (AList.delete name (kv_tables sv (feeds w2) (kvUser kv2) pw)))"
    "map_of (ord (AList.delete name (kv_tables sv (feeds w2) (kvUser kv2) pw))) = map_of (?t w)"
    using range_order_ok [OF ord tables_ok_delete [OF d(3)], of name] 1(3) new(1)
    by (auto simp: AList.delete_conv' op(3) 2(3))
  have fit2: "list_fits sv pw (ord (AList.delete name (kv_tables sv (feeds w2) (kvUser kv2) pw)))" using fit o2 by blast
  obtain w3 where 3: "DeleteKVTable sv ord kv2 name pw w2 = (Inr (), kv2\<lparr>kvOpen := (kvOpen kv2)(name := None)\<rparr>, w3)" "good b w3"
    "map_of (kv_tables sv (feeds w3) (kvUser kv2) pw) = (map_of (kv_tables sv (feeds w2) (kvUser kv2) pw))(name := None)"
    by (rule storage.DeleteKVTable_ok [OF st 2(2) len(1) d(1) ord d(3,2) op(1) _ _ _ _ fit2])
       (simp_all add: op 2(6-9) 1(5))
  obtain w4 where l: "LoadKVTables sv kv2 pw w3 = (Inr (kv_tables sv (feeds w3) (kvUser kv2) pw), w4)"
    by (rule storage.LoadKVTables_ok [OF st 3(2) len(1)])
  have old: "map_of (?t w3) = map_of (?t w)" using 3(3) 1(3) new(1) by (auto simp: op(3) 2(3))
  have gone: "map_of (kv_tables sv (feeds w3) (kvUser kv2) pw) name = None" using 3(3) by simp
  have "fst (OpenKVTable sv kv2 name pw w3) = Inl ErrKVTableNotPresent"
    "fst (DeleteKVTable sv ord kv2 name pw w3) = Inl ErrKVTableNotPresent"
    using l gone storage.writable [OF st 3(2)] by (simp_all add: OpenKVTable_def DeleteKVTable_def)
  moreover have "map_option tblType (kvOpen kv2 name) = Some ty" by (simp add: op)
  ultimately show ?thesis using 1(1,3) again 2(1) get 3(1,2) old by blast
qed


end
