(* ===== verification/BatchProps.thy ===== *)
theory BatchProps
  imports Batch IndexPut
begin

text \<open>
  A batch in memory is a dictionary: on the tree of manifests that hang in their
  entries, Put with the flag memory adds one key and Get finds what was put last.
\<close>

section \<open>Trees of manifests in memory\<close>

definition mentry :: "Entry \<Rightarrow> bool" where
  "mentry e \<longleftrightarrow> eEType e = leafEntry \<or> (eEType e = intermediateEntry \<and> eName e \<noteq> [])"

definition mnode :: "Entry list \<Rightarrow> bool" where
  "mnode es \<longleftrightarrow> sorted_wrt ent_less es \<and> (\<forall>e \<in> set es. mentry e)"

inductive mtrie :: "Manifest \<Rightarrow> bool" where
  mtrieI: "\<lbrakk>mnode (mEntries m);
     \<forall>e \<in> set (mEntries m). eEType e = intermediateEntry \<longrightarrow> (\<exists>c. eManifest e = Some c \<and> mtrie c)\<rbrakk> \<Longrightarrow> mtrie m"

inductive_simps mtrie_iff: "mtrie m"

function mfind :: "Manifest \<Rightarrow> string \<Rightarrow> bytes list option" where
  "mfind m k =
     (case cand (mEntries m) k of
        None \<Rightarrow> None
      | Some e \<Rightarrow>
          if eEType e = leafEntry then (if eName e = k then Some (eRef e) else None)
          else if prefix (eName e) k \<and> eName e \<noteq> [] then
            (case eManifest e of None \<Rightarrow> None | Some c \<Rightarrow> mfind c (drop (length (eName e)) k))
          else None)"
  by pat_completeness auto
termination
  by (relation "measure (\<lambda>(m, k). length k)")
     (auto intro!: diff_less simp: prefix_def)

declare mfind.simps [simp del]

definition mlook :: "Entry \<Rightarrow> string \<Rightarrow> bytes list option" where
  "mlook e k =
     (if eEType e = leafEntry then (if eName e = k then Some (eRef e) else None)
      else if prefix (eName e) k \<and> eName e \<noteq> [] then
        (case eManifest e of None \<Rightarrow> None | Some c \<Rightarrow> mfind c (drop (length (eName e)) k))
      else None)"

lemma mlook_Entry:
  "mlook (Entry n t r mf) k =
     (if t = leafEntry then (if n = k then Some r else None)
      else if prefix n k \<and> n \<noteq> [] then
        (case mf of None \<Rightarrow> None | Some c \<Rightarrow> mfind c (drop (length n) k))
      else None)"
  by (subst mlook_def) (simp cong: option.case_cong)

lemma mfind_mlook: "mfind m k = (case cand (mEntries m) k of None \<Rightarrow> None | Some e \<Rightarrow> mlook e k)"
  by (subst mfind.simps) (simp add: mlook_def cong: option.case_cong)

lemma drop_manifest_simps [simp]:
  "eName (drop_manifest e) = eName e" "eEType (drop_manifest e) = eEType e" "eRef (drop_manifest e) = eRef e"
  "eManifest (drop_manifest e) = None"
  by (simp_all add: drop_manifest_def)

lemma mnode_drop: "mnode es \<longleftrightarrow> node_ok (map drop_manifest es)"
  by (simp add: mnode_def node_ok_entry sorted_wrt_map ent_less_def [abs_def] mentry_def entry_ok_def)

lemma cand_drop: "cand (map drop_manifest es) k = map_option drop_manifest (cand es k)"
  by (induction es) (simp_all add: cand_Cons)

lemma add_loop_drop:
  "add_loop (drop_manifest x) (map drop_manifest es) b (map drop_manifest acc) = map_option (map drop_manifest) (add_loop x es b acc)"
proof (induction es arbitrary: b acc)
  case (Cons e es)
  show ?case using Cons.IH [of b "acc @ [e]"] Cons.IH [of True "acc @ [x, e]"] by simp
qed simp

lemma mnode_insert:
  assumes "mnode (es1 @ es2)" "mentry x"
    "\<forall>e \<in> set es1. bkey (eName e) < bkey (eName x)" "\<forall>e \<in> set es2. bkey (eName x) < bkey (eName e)"
  shows "mnode (es1 @ x # es2)"
    "cand (es1 @ x # es2) k = (if bkey k = bkey (eName x) then Some x else cand (es1 @ es2) k)"
proof -
  show "mnode (es1 @ x # es2)" using assms by (auto simp: mnode_def sorted_wrt_append ent_less_def)
  have "bkey k = bkey (eName x) \<Longrightarrow> cand es1 k = None" using assms(3) by (auto simp: cand_None_iff)
  then show "cand (es1 @ x # es2) k = (if bkey k = bkey (eName x) then Some x else cand (es1 @ es2) k)"
    by (auto simp: cand_append cand_Cons split: option.split)
qed

lemma mnode_replace:
  assumes ok: "mnode es" and i: "i < length es" "bkey (eName (es ! i)) = bkey (eName x)"
    and x: "mentry x" "eName x \<noteq> []"
  shows "mnode (es[i := x])"
    "cand (es[i := x]) k = (if bkey k = bkey (eName x) then Some x else cand es k)"
proof -
  define es1 es2 where d: "es1 = take i es" "es2 = drop (Suc i) es"
  define e0 where "e0 = es ! i"
  have es: "es = es1 @ e0 # es2" using i(1) by (simp add: d e0_def id_take_nth_drop [symmetric])
  have es': "es[i := x] = es1 @ x # es2" using i(1) by (simp add: d upd_conv_take_nth_drop)
  have b0: "bkey (eName e0) = bkey (eName x)" using i(2) by (simp add: e0_def)
  then have ne: "eName e0 \<noteq> []" using x(2) by (metis bkey_simps(3))
  have lt: "\<forall>e \<in> set es1. bkey (eName e) < bkey (eName x)" "\<forall>e \<in> set es2. bkey (eName x) < bkey (eName e)" "mnode (es1 @ es2)"
    using ok b0 ne unfolding es by (auto simp: mnode_def sorted_wrt_append ent_less_def)
  note ins = mnode_insert [OF lt(3) x(1) lt(1,2)]
  show "mnode (es[i := x])" using ins(1) es' by simp
  show "cand (es[i := x]) k = (if bkey k = bkey (eName x) then Some x else cand es k)"
    unfolding es' ins(2) using b0 by (auto simp: es cand_append cand_Cons split: option.split)
qed

lemma madd_new:
  assumes ok: "mnode es" and c: "eName x = [] \<or> cand es (eName x) = None" and x: "mentry x"
  shows "mnode (addEntrySorted es x)"
    "cand (addEntrySorted es x) k = (if bkey k = bkey (eName x) then Some x else cand es k)"
    "set (addEntrySorted es x) = insert x (set es)"
proof -
  have "mnode (addEntrySorted es x) \<and> (\<forall>k. cand (addEntrySorted es x) k = (if bkey k = bkey (eName x) then Some x else cand es k))
      \<and> set (addEntrySorted es x) = insert x (set es)"
  proof (cases "eName x = []")
    case True
    then show ?thesis using ok x
      by (auto simp: addEntrySorted_def mnode_def ent_less_def cand_Cons)
  next
    case False
    with c have ne: "\<forall>e \<in> set es. bkey (eName e) \<noteq> bkey (eName x)" by (simp add: cand_None_iff)
    let ?P = "\<lambda>e. bkey (eName e) \<le> bkey (eName x)"
    from ne have "\<forall>e \<in> set es. eName e \<noteq> eName x" by fastforce
    then have a: "addEntrySorted es x = takeWhile ?P es @ x # dropWhile ?P es"
      using False by (auto simp: addEntrySorted_def add_loop_False)
    have s: "\<forall>e \<in> set (dropWhile ?P es). bkey (eName x) < bkey (eName e)"
      using ok ne False by (intro takeWhile_sorted_split) (auto simp: mnode_def)
    have t: "\<forall>e \<in> set (takeWhile ?P es). bkey (eName e) < bkey (eName x)"
      using ne by (metis le_neq_implies_less set_takeWhileD)
    have "set (takeWhile ?P es) \<union> set (dropWhile ?P es) = set es"
      by (metis set_append takeWhile_dropWhile_id)
    with mnode_insert [of "takeWhile ?P es" "dropWhile ?P es" x, OF _ x t s] ok show ?thesis
      unfolding a takeWhile_dropWhile_id by auto
  qed
  then show "mnode (addEntrySorted es x)" "set (addEntrySorted es x) = insert x (set es)"
    "cand (addEntrySorted es x) k = (if bkey k = bkey (eName x) then Some x else cand es k)" by blast+
qed

section \<open>Put\<close>

text \<open>The result of a put in memory.\<close>

definition mput_done :: "Manifest \<Rightarrow> Manifest \<Rightarrow> string \<Rightarrow> bytes \<Rightarrow> bool" where
  "mput_done m m' key val \<longleftrightarrow> mtrie m' \<and> mEntries m' \<noteq> [] \<and>
     (\<forall>k. mfind m' k = (if k = key then Some [val] else mfind m k))"

lemma mput_doneI:
  assumes ok: "mnode (mEntries m')" and t: "mtrie m"
    and set: "\<forall>e \<in> set (mEntries m'). e = x \<or> e \<in> set (mEntries m)"
    and x: "eEType x = intermediateEntry \<Longrightarrow> \<exists>c. eManifest x = Some c \<and> mtrie c"
    and c: "\<And>k. cand (mEntries m') k = (if bkey k = bkey key then Some x else cand (mEntries m) k)"
    and l: "\<And>k. bkey k = bkey key \<Longrightarrow> mlook x k = (if k = key then Some [val] else mfind m k)"
  shows "mput_done m m' key val"
proof -
  have "mtrie m'"
    by (rule mtrieI [OF ok]) (use set x t in \<open>auto simp: mtrie_iff [of m]\<close>)
  moreover have "mEntries m' \<noteq> []" using c [of key] by auto
  moreover have "mfind m' k = (if k = key then Some [val] else mfind m k)" for k
    using c [of k] l [of k] by (auto simp: mfind_mlook)
  ultimately show ?thesis by (simp add: mput_done_def)
qed

lemma mnode_unique:
  "\<lbrakk>mnode es; a \<in> set es; b \<in> set es; bkey (eName a) = bkey (eName b); eName b \<noteq> []\<rbrakk> \<Longrightarrow> a = b"
  by (induction es) (auto simp: mnode_def ent_less_def)

lemma mnode_type: "\<lbrakk>mnode es; e \<in> set es\<rbrakk> \<Longrightarrow> eEType e = leafEntry \<or> eEType e = intermediateEntry"
  "\<lbrakk>mnode es; e \<in> set es; eEType e = intermediateEntry\<rbrakk> \<Longrightarrow> eName e \<noteq> []"
  by (auto simp: mnode_def mentry_def)

lemma mtrie_node: "mtrie m \<Longrightarrow> mnode (mEntries m)"
  by (simp add: mtrie_iff [of m])

lemma mtrie_child: "\<lbrakk>mtrie m; e \<in> set (mEntries m); eEType e = intermediateEntry\<rbrakk> \<Longrightarrow> \<exists>c. eManifest e = Some c \<and> mtrie c"
  by (simp add: mtrie_iff [of m])

text \<open>The two entries below a split: the new key and what was there before.\<close>

lemma split_lookup:
  assumes x: "mentry (Entry x t rf mf)" "t = intermediateEntry \<longrightarrow> (\<exists>c. mf = Some c \<and> mtrie c)"
    and ne: "bkey x \<noteq> bkey y" and N: "mEntries N = addEntrySorted (addEntrySorted [] (Entry y leafEntry [val] None)) (Entry x t rf mf)"
    and p: "p \<noteq> []"
  shows "mtrie N"
    "mlook (Entry p intermediateEntry r (Some N)) k
       = (if k = p @ y then Some [val] else mlook (Entry (p @ x) t rf mf) k)"
proof -
  let ?y = "Entry y leafEntry [val] None" and ?x = "Entry x t rf mf"
  have 1: "addEntrySorted [] ?y = [?y]" by (simp add: addEntrySorted_def)
  have oky: "mnode [?y]" by (simp add: mnode_def mentry_def)
  have cy: "eName ?x = [] \<or> cand [?y] (eName ?x) = None" using ne by (simp add: cand_Cons)
  note new = madd_new [OF oky cy x(1)]
  have ok: "mnode (mEntries N)" using new(1) by (simp add: N 1)
  have c: "cand (mEntries N) k = (if bkey k = bkey x then Some ?x else if bkey k = bkey y then Some ?y else None)" for k
    using new(2) [of k] by (simp add: N 1 cand_Cons)
  show "mtrie N" by (rule mtrieI [OF ok]) (use new(3) x(2) in \<open>auto simp: N 1\<close>)
  have l: "mfind N k2 = (if k2 = y then Some [val] else mlook (Entry (p @ x) t rf mf) (p @ k2))" for k2
  proof -
    have lx: "mlook (Entry (p @ x) t rf mf) (p @ k2) = mlook ?x k2"
      using x(1) p by (auto simp: mlook_Entry mentry_def split: option.split)
    have "mlook ?x k2 = None" if "bkey k2 \<noteq> bkey x"
      using that x(1) bkey_prefix [of x k2] by (auto simp: mlook_def mentry_def)
    then show ?thesis using ne by (auto simp: mfind_mlook c lx mlook_def [of ?y])
  qed
  show "mlook (Entry p intermediateEntry r (Some N)) k
       = (if k = p @ y then Some [val] else mlook (Entry (p @ x) t rf mf) k)"
  proof (cases "prefix p k")
    case True
    then obtain k2 where k: "k = p @ k2" by (auto simp: prefix_def)
    show ?thesis using p by (simp add: mlook_def [of "Entry p intermediateEntry r (Some N)"] k l)
  next
    case False
    then have "\<not> prefix (p @ x) k" by (meson append_prefixD)
    with False x(1) show ?thesis by (auto simp: mlook_def mentry_def)
  qed
qed

context storage
begin

text \<open>A put in memory writes nothing; it may read the clock.\<close>

definition quiet :: "nat \<Rightarrow> 'w \<Rightarrow> 'w \<Rightarrow> bool" where
  "quiet b w w' \<longleftrightarrow> inv b w' \<and> feeds w' = feeds w \<and> blobs w' = blobs w"

lemma mput_ok:
  "\<lbrakk>mtrie m; inv b w\<rbrakk> \<Longrightarrow> \<exists>m' w'. addOrUpdate sv idx True m key ty val False w = (Inr (), idx, m', w')
     \<and> mput_done m m' key val \<and> quiet b w w'"
proof (induction key arbitrary: m w rule: length_induct)
  case (1 key)
  let ?es = "mEntries m"
  note t = 1(2)
  have qw: "quiet b w w" using 1(3) by (simp add: quiet_def)
  have ok: "mnode ?es" by (rule mtrie_node [OF t])
  have ty: "\<forall>e \<in> set ?es. eEType e = leafEntry \<or> eEType e = intermediateEntry" using mnode_type(1) [OF ok] by blast
  show ?case
  proof (cases "first_sharing ?es key")
    case None
    have c: "eName (Entry key leafEntry [val] None) = [] \<or> cand ?es (eName (Entry key leafEntry [val] None)) = None"
      using first_sharing_cand [OF _ ty, of key] None by (cases "key = []") auto
    let ?x = "Entry key leafEntry [val] None"
    have mx: "mentry ?x" by (simp add: mentry_def)
    let ?m' = "set_mDirty True (set_mEntries (addEntrySorted ?es ?x) m)"
    note new = madd_new [OF ok c mx]
    have "mput_done m ?m' key val"
    proof (rule mput_doneI [where x = ?x, OF _ t])
      show "mlook ?x k = (if k = key then Some [val] else mfind m k)" if k: "bkey k = bkey key" for k
      proof (cases "k = key")
        case False
        with k have "key \<noteq> []" by (metis bkey_simps(3))
        with c have "cand ?es k = None" using k by (simp add: cand_None_iff)
        with False show ?thesis by (simp add: mlook_def mfind_mlook)
      qed (simp add: mlook_def)
    qed (use new in simp_all)
    then show ?thesis using None qw by (subst addOrUpdate.simps) (auto simp: finish_add_def Let_def)
  next
    case (Some i)
    define e where "e = ?es ! i"
    from first_sharing_SomeD [OF Some] have i: "i < length ?es" and key: "key \<noteq> []"
      and sh: "fst (longestCommonPrefix (eName e) key) \<noteq> []" by (auto simp: e_def)
    have em: "e \<in> set ?es" using i by (simp add: e_def)
    have cd: "cand ?es key = Some e" using first_sharing_cand [OF key ty] Some by (simp add: e_def)
    then have cdk: "cand ?es k = Some e" if "bkey k = bkey key" for k using that by (simp add: cand_def)
    then have fk: "mfind m k = mlook e k" if "bkey k = bkey key" for k using that by (simp add: mfind_mlook)
    have be: "bkey (eName e) = bkey key" using cand_SomeD [OF cd] by simp
    obtain p x y where lcp: "longestCommonPrefix (eName e) key = (p, x, y)" by (cases "longestCommonPrefix (eName e) key") auto
    with sh have p: "p \<noteq> []" by simp
    note pr = lcp_props [OF lcp p]
    have bp: "bkey p = bkey key" using pr(2) p by simp
    have upd: "\<exists>m'. set_mDirty d (set_mEntries (?es[i := z]) m) = m' \<and> mput_done m m' key val"
      if z: "mentry z" "eName z \<noteq> []" "bkey (eName z) = bkey key"
        "eEType z = intermediateEntry \<Longrightarrow> \<exists>c. eManifest z = Some c \<and> mtrie c"
        "\<And>k. bkey k = bkey key \<Longrightarrow> mlook z k = (if k = key then Some [val] else mlook e k)" for z d
    proof -
      have "bkey (eName (?es ! i)) = bkey (eName z)" using be z(3) by (simp add: e_def)
      note rep = mnode_replace [OF ok i this z(1,2)]
      have "mput_done m (set_mDirty d (set_mEntries (?es[i := z]) m)) key val"
        by (rule mput_doneI [where x = z, OF _ t])
           (use rep z(3,4,5) fk set_update_subset_insert [of ?es i z] in auto)
      then show ?thesis by simp
    qed
    show ?thesis
    proof (cases "eEType e = leafEntry \<and> eName e = key")
      case True
      let ?z = "Entry (eName e) (eEType e) [val] (eManifest e)"
      have "\<exists>m'. set_mDirty True (set_mEntries (?es[i := ?z]) m) = m' \<and> mput_done m m' key val"
        by (rule upd) (use True key in \<open>auto simp: mlook_def mentry_def\<close>)
      then show ?thesis using Some True qw by (subst addOrUpdate.simps) (auto simp: e_def [symmetric] Let_def finish_add_def)
    next
      case False
      have split: "\<exists>m' w'. split_add sv idx True m i p p ty (Entry y leafEntry [val] None) (Entry x (eEType e) rf mf) w
            = (Inr (), idx, m', w') \<and> mput_done m m' key val \<and> quiet b w w'"
        if rf: "eEType e = leafEntry \<Longrightarrow> rf = eRef e" "eEType e = intermediateEntry \<Longrightarrow> x \<noteq> [] \<and> mf = eManifest e" for rf mf
      proof -
        obtain now w1 where n: "NowUnix sv w = (now, w1)" by fastforce
        have ne: "bkey x \<noteq> bkey y"
        proof
          assume b: "bkey x = bkey y"
          then have "x = []" using pr(3) by (cases x; cases y) auto
          with b have "y = []" by (metis bkey_simps(3))
          with \<open>x = []\<close> pr(1,2) have "eName e = key" by simp
          with False rf(2) \<open>x = []\<close> mnode_type(1) [OF ok em] show False by auto
        qed
        let ?N = "split_manifest (mName m @ p) ty now (Entry y leafEntry [val] None) (Entry x (eEType e) rf mf)"
        have N: "mEntries ?N = addEntrySorted (addEntrySorted [] (Entry y leafEntry [val] None)) (Entry x (eEType e) rf mf)"
          by (simp add: split_manifest_def)
        have mx: "mentry (Entry x (eEType e) rf mf)" using mnode_type(1) [OF ok em] rf(2) by (auto simp: mentry_def)
        have cx: "eEType e = intermediateEntry \<longrightarrow> (\<exists>c. mf = Some c \<and> mtrie c)" using mtrie_child [OF t em] rf(2) by auto
        note sl = split_lookup [OF mx cx ne N p]
        have lk: "mlook (Entry (p @ x) (eEType e) rf mf) k = mlook e k" for k
          using rf pr(1) mnode_type(1) [OF ok em] by (cases e) (auto simp: mlook_Entry)
        have "\<exists>m'. set_mDirty True (set_mEntries (?es[i := Entry p intermediateEntry (eRef e) (Some ?N)]) m) = m'
            \<and> mput_done m m' key val"
        proof (rule upd)
          show "mentry (Entry p intermediateEntry (eRef e) (Some ?N))" using p by (simp add: mentry_def)
          show "\<exists>c. eManifest (Entry p intermediateEntry (eRef e) (Some ?N)) = Some c \<and> mtrie c" using sl(1) by simp
          show "mlook (Entry p intermediateEntry (eRef e) (Some ?N)) k = (if k = key then Some [val] else mlook e k)" for k
            using sl(2) [of "eRef e" k] lk [of k] pr(2) by simp
        qed (use p bp in simp_all)
        moreover have "quiet b w w1" using clock [OF 1(3) n] by (simp add: quiet_def)
        ultimately show ?thesis using n by (auto simp: split_add_def finish_add_def Let_def e_def [symmetric])
      qed
      show ?thesis
      proof (cases "eEType e = leafEntry")
        case leaf: True
        with split [of "eRef e" None] False Some lcp p show ?thesis
          by (subst addOrUpdate.simps) (simp add: e_def [symmetric] Let_def)
      next
        case nleaf: False
        then have it: "eEType e = intermediateEntry" using mnode_type(1) [OF ok em] by simp
        from mtrie_child [OF t em it] obtain c where c: "eManifest e = Some c" "mtrie c" by blast
        show ?thesis
        proof (cases "x = []")
          case xne: False
          have "(if y \<noteq> [] then p else key) = p" using pr(2) by auto
          with split [of "[]" "eManifest e"] it nleaf xne False Some lcp p show ?thesis
            by (subst addOrUpdate.simps) (simp add: e_def [symmetric] Let_def)
        next
          case True
          with pr(1) have ep: "eName e = p" by simp
          have "length y < length key" using pr(2) p by simp
          with 1(1) c(2) obtain c' w' where
            r: "addOrUpdate sv idx True c y ty val False w = (Inr (), idx, c', w')" "mput_done c c' y val" "quiet b w w'"
            using 1(3) by blast
          let ?z = "Entry (eName e) (eEType e) (eRef e) (Some c')"
          have lk: "mlook ?z k = (if k = key then Some [val] else mlook e k)" for k
          proof (cases "prefix p k")
            case pk: True
            then obtain k2 where "k = p @ k2" by (auto simp: prefix_def)
            then show ?thesis using r(2) p it ep c(1) pr(2) by (simp add: mlook_def mput_done_def)
          next
            case pk: False
            then show ?thesis using it ep pr(2) by (auto simp: mlook_def)
          qed
          have dm: "set_mDirty (mDirty m) (set_mEntries (?es[i := ?z]) m) = set_mEntries (?es[i := ?z]) m"
            by (cases m) (simp add: set_mDirty_def set_mEntries_def)
          have "\<exists>m'. set_mDirty (mDirty m) (set_mEntries (?es[i := ?z]) m) = m' \<and> mput_done m m' key val"
          proof (rule upd)
            show "mlook ?z k = (if k = key then Some [val] else mlook e k)" for k by (rule lk)
          qed (use p ep bp it r(2) in \<open>simp_all add: mentry_def mput_done_def\<close>)
          then show ?thesis using Some False nleaf True lcp p c(1) r(1,3) dm
            by (subst addOrUpdate.simps) (auto simp: e_def [symmetric] Let_def)
        qed
      qed
    qed
  qed
qed

end

section \<open>Get\<close>

lemma scan_drop:
  "scan_entries (map drop_manifest es) k i =
     (case scan_entries es k i of NotHere \<Rightarrow> NotHere | Here j \<Rightarrow> Here j | Below e \<Rightarrow> Below (drop_manifest e))"
  by (induction es arbitrary: i) (auto split: found.splits)

lemma scan_Below: "scan_entries es k i = Below e \<Longrightarrow> e \<in> set es \<and> prefix (eName e) k"
  by (induction es arbitrary: i) (auto simp: HasPrefix_def split: if_splits)

lemma mfind_run:
  "\<lbrakk>mtrie m; length k < n\<rbrakk> \<Longrightarrow>
     case mfind m k of
       None \<Rightarrow> findManifest n sv idx m k w = (Inl ErrEntryNotFound, w)
     | Some vs \<Rightarrow> \<exists>mm i. findManifest n sv idx m k w = (Inr (mm, i), w) \<and> eRef (mEntries mm ! i) = vs"
proof (induction n arbitrary: m k)
  case (Suc n)
  let ?es = "mEntries m"
  have ok: "mnode ?es" and okd: "node_ok (map drop_manifest ?es)"
    using mtrie_node [OF Suc.prems(1)] by (simp_all add: mnode_drop)
  show ?case
  proof (cases "cand ?es k")
    case None
    then have "scan_entries (map drop_manifest ?es) k 0 = NotHere" by (intro scan_None [OF okd]) (simp add: cand_drop)
    then have "scan_entries ?es k 0 = NotHere" by (simp add: scan_drop split: found.splits)
    then show ?thesis by (simp add: mfind_mlook None)
  next
    case (Some e)
    note e = cand_SomeD [OF Some]
    have "cand (map drop_manifest ?es) k = Some (drop_manifest e)" by (simp add: cand_drop Some)
    note sc = scan_Some [OF okd this, of 0]
    show ?thesis
    proof (cases "eEType e = leafEntry \<and> eName e = k")
      case True
      with sc obtain j where j: "j < length ?es" "drop_manifest (?es ! j) = drop_manifest e"
        "scan_entries (map drop_manifest ?es) k 0 = Here j" by auto
      have "scan_entries ?es k 0 = Here j" using j(3) by (simp add: scan_drop split: found.splits)
      moreover have "eRef (?es ! j) = eRef e" using j(2) by (metis drop_manifest_simps(3))
      ultimately show ?thesis using True by (simp add: mfind_mlook Some mlook_def)
    next
      case False
      show ?thesis
      proof (cases "eEType e = intermediateEntry \<and> prefix (eName e) k")
        case br: True
        with sc False have "scan_entries (map drop_manifest ?es) k 0 = Below (drop_manifest e)" by simp
        then obtain e' where e': "scan_entries ?es k 0 = Below e'" "drop_manifest e' = drop_manifest e"
          by (auto simp: scan_drop split: found.splits)
        have ne: "eName e \<noteq> []" using mnode_type(2) [OF ok] e br by blast
        have "eName e' = eName e" using e'(2) by (metis drop_manifest_simps(1))
        then have [simp]: "e' = e" using mnode_unique [OF ok _ _ _ ne] scan_Below [OF e'(1)] e by simp
        obtain c where c: "eManifest e = Some c" "mtrie c" using mtrie_child [OF Suc.prems(1)] e br by blast
        have "0 < length (eName e)" "length (eName e) \<le> length k" using ne br by (auto dest: prefix_length_le)
        then have "length (drop (length (eName e)) k) < n" using Suc.prems(2) unfolding length_drop by linarith
        note IH = Suc.IH [OF c(2) this]
        have "mfind m k = mfind c (drop (length (eName e)) k)" using br ne c(1) by (simp add: mfind_mlook [of m] Some mlook_def)
        moreover have "findManifest (Suc n) sv idx m k w = findManifest n sv idx c (drop (length (eName e)) k) w"
          using e'(1) c(1) br by (simp add: TrimPrefix_drop)
        ultimately show ?thesis using IH by (simp only:)
      next
        case nbr: False
        with sc False have "scan_entries (map drop_manifest ?es) k 0 = NotHere" by auto
        then have "scan_entries ?es k 0 = NotHere" by (simp add: scan_drop split: found.splits)
        moreover have "mlook e k = None" using False nbr mnode_type(1) [OF ok] e by (auto simp: mlook_def)
        ultimately show ?thesis by (simp add: mfind_mlook Some)
      qed
    qed
  qed
qed simp

section \<open>A batch is a dictionary\<close>

text \<open>The puts of a batch one after the other, as a client makes them.\<close>

fun mem_puts :: "'w services \<Rightarrow> Index \<Rightarrow> Batch \<Rightarrow> (string \<times> bytes) list \<Rightarrow> 'w \<Rightarrow> unit result \<times> Index \<times> Batch \<times> 'w" where
  "mem_puts sv idx b [] w = (Inr (), idx, b, w)"
| "mem_puts sv idx b ((k, v) # kvs) w =
     (case Batch_Put sv idx b k v False True w of
        (Inl e, r) \<Rightarrow> (Inl e, r)
      | (Inr u, idx1, b1, w1) \<Rightarrow> mem_puts sv idx1 b1 kvs w1)"

definition batch_holds :: "Index \<Rightarrow> Batch \<Rightarrow> (string \<Rightarrow> bytes option) \<Rightarrow> bool" where
  "batch_holds idx b f \<longleftrightarrow>
     (case memDb b of None \<Rightarrow> f = (\<lambda>k. None)
      | Some m \<Rightarrow> mtrie m \<and> mEntries m \<noteq> [] \<and> (\<forall>k. mfind m k = map_option (\<lambda>v. [v]) (f k)))"

context storage
begin

lemma Batch_Put_mem:
  assumes "inv b w" "ixType idx \<noteq> BytesIndex" "batch_key idx k = Inr s" "batch_holds idx B f"
  shows "\<exists>B' w'. Batch_Put sv idx B k v False True w = (Inr (), idx, B', w') \<and> memDb B' \<noteq> None
    \<and> batch_holds idx B' (f(s \<mapsto> v)) \<and> quiet b w w'"
proof -
  obtain m w1 where m: "batch_mem sv idx B w = (m, w1)" by fastforce
  have t: "mtrie m" "\<forall>k. mfind m k = map_option (\<lambda>v. [v]) (f k)" and q: "quiet b w w1"
  proof -
    have "mtrie m \<and> (\<forall>k. mfind m k = map_option (\<lambda>v. [v]) (f k)) \<and> quiet b w w1"
    proof (cases "memDb B")
      case None
      then have "mEntries m = []" "f = (\<lambda>k. None)" using assms(4) m
        by (auto simp: batch_mem_def batch_holds_def split: prod.splits)
      moreover have "quiet b w w1" using None m clock [OF assms(1)] by (auto simp: batch_mem_def quiet_def split: prod.splits)
      ultimately show ?thesis by (simp add: mtrie_iff [of m] mnode_def mfind_mlook)
    next
      case (Some m0)
      then show ?thesis using assms(1,4) m by (simp add: batch_mem_def batch_holds_def quiet_def)
    qed
    then show "mtrie m" "\<forall>k. mfind m k = map_option (\<lambda>v. [v]) (f k)" "quiet b w w1" by blast+
  qed
  have "inv b w1" using q by (simp add: quiet_def)
  from mput_ok [OF t(1) this, of idx s "ixType idx" v] obtain m' w' where
    p: "addOrUpdate sv idx True m s (ixType idx) v False w1 = (Inr (), idx, m', w')" "mput_done m m' s v" "quiet b w1 w'"
    by blast
  have "quiet b w w'" using q p(3) by (simp add: quiet_def)
  then show ?thesis using assms(2,3) writable [OF assms(1)] m p t
    by (simp add: Batch_Put_def Let_def batch_holds_def mput_done_def)
qed

lemma mem_puts_ok:
  assumes ty: "ixType idx \<noteq> BytesIndex"
  shows "\<lbrakk>list_all2 (\<lambda>(k, v) (s, v'). batch_key idx k = Inr s \<and> v' = v) kvs svs; batch_holds idx B f; inv b w\<rbrakk> \<Longrightarrow>
    \<exists>B' w'. mem_puts sv idx B kvs w = (Inr (), idx, B', w') \<and> (kvs \<noteq> [] \<longrightarrow> memDb B' \<noteq> None)
      \<and> batch_holds idx B' (f ++ map_of (rev svs)) \<and> quiet b w w'"
proof (induction kvs arbitrary: svs B f w)
  case Nil
  then show ?case by (simp add: quiet_def)
next
  case (Cons kv kvs)
  obtain k v where kv: "kv = (k, v)" by (cases kv)
  with Cons.prems(1) obtain s svs' where s: "svs = (s, v) # svs'" "batch_key idx k = Inr s"
    "list_all2 (\<lambda>(k, v) (s, v'). batch_key idx k = Inr s \<and> v' = v) kvs svs'"
    by (auto simp: list_all2_Cons1)
  from Batch_Put_mem [OF Cons.prems(3) ty s(2) Cons.prems(2), of v] obtain B1 w1 where
    1: "Batch_Put sv idx B k v False True w = (Inr (), idx, B1, w1)" "memDb B1 \<noteq> None" "batch_holds idx B1 (f(s \<mapsto> v))"
      "quiet b w w1" by blast
  have i: "inv b w1" using 1(4) by (simp add: quiet_def)
  from Cons.IH [OF s(3) 1(3) i] obtain B' w' where
    2: "mem_puts sv idx B1 kvs w1 = (Inr (), idx, B', w')" "kvs \<noteq> [] \<longrightarrow> memDb B' \<noteq> None"
      "batch_holds idx B' (f(s \<mapsto> v) ++ map_of (rev svs'))" "quiet b w1 w'" by blast
  have "memDb B' \<noteq> None" using 1(2) 2(1,2) by (cases "kvs = []") auto
  moreover have "quiet b w w'" using 1(4) 2(4) by (simp add: quiet_def)
  ultimately show ?case using 1(1) 2(1,3) by (simp add: kv s(1))
qed

end

lemma batch_holds_Get:
  assumes "batch_holds idx b f" "memDb b \<noteq> None"
  shows "Batch_Get sv idx b k w =
    ((case batch_key idx k of Inl e \<Rightarrow> Inl e
      | Inr s \<Rightarrow> (case f s of None \<Rightarrow> Inl ErrEntryNotFound | Some v \<Rightarrow> Inr [v])), w)"
proof -
  obtain m where m: "memDb b = Some m" "mtrie m" "mEntries m \<noteq> []" "\<forall>k. mfind m k = map_option (\<lambda>v. [v]) (f k)"
    using assms by (auto simp: batch_holds_def)
  show ?thesis
  proof (cases "batch_key idx k")
    case (Inr s)
    from mfind_run [OF m(2), of s "Suc (length s)" sv idx w] m show ?thesis
      by (auto simp: Batch_Get_def Inr split: option.splits)
  qed (simp add: Batch_Get_def m)
qed

text \<open>C15: A batch that is filled in memory is a dictionary.  After any sequence of
  Puts with the flag memory into a new batch of a string or number index, every
  one of which succeeds, Get of a key that was put returns the one value put
  last, Get of any other key reports ErrEntryNotFound, and a key of a number
  index that is no number is refused.  Keys of a number index are the same when
  their padded forms are.  Nothing is written to Swarm.\<close>

theorem batch_memory_dictionary:
  assumes "storage sv maxlen good feeds blobs" "good b w" "ixType idx \<noteq> BytesIndex" "kvs \<noteq> []"
    and keys: "list_all2 (\<lambda>(k, v) (s, v'). batch_key idx k = Inr s \<and> v' = v) kvs svs"
  shows "\<exists>B w'. mem_puts sv idx NewBatch kvs w = (Inr (), idx, B, w') \<and> good b w' \<and> feeds w' = feeds w \<and> blobs w' = blobs w
    \<and> (\<forall>k w. Batch_Get sv idx B k w =
          ((case batch_key idx k of Inl e \<Rightarrow> Inl e
            | Inr s \<Rightarrow> (case map_of (rev svs) s of None \<Rightarrow> Inl ErrEntryNotFound | Some v \<Rightarrow> Inr [v])), w))"
proof -
  have "batch_holds idx NewBatch (\<lambda>k. None)" by (simp add: batch_holds_def NewBatch_def)
  from storage.mem_puts_ok [OF assms(1,3) keys this assms(2)] obtain B w' where
    "mem_puts sv idx NewBatch kvs w = (Inr (), idx, B, w')" "memDb B \<noteq> None" "batch_holds idx B (map_of (rev svs))"
    "storage.quiet good feeds blobs b w w'"
    using assms(4) by auto
  then show ?thesis by (auto simp: storage.quiet_def [OF assms(1)] batch_holds_Get)
qed

end
