(* ===== verification/CollectionRuns.thy ===== *)
theory CollectionRuns
  imports IndexRuns IterProps KVProps BatchProps
begin

text \<open>
  Runs of iterators and key value tables on the Swarm in memory: witnesses that
  the hypotheses of the properties can hold, and runs in which the code does not
  do what it is meant to.
\<close>

section \<open>Iterators\<close>

lemma iterator_lists_index_witness:
  "\<exists>w it w1 k n. NewStringIterator mem_services run_idx [] [] (-1) w = (Inr it, w1)
     \<and> (''k'', [[7]]) \<in> set (fst (drain k n mem_services it w1))"
proof -
  obtain w where w: "mem_good 100 w" "index_ok mem_services 31 mem_feeds mem_blobs run_idx w"
    "ixview mem_services 31 mem_feeds mem_blobs run_idx w (ixName run_idx) = Some run_manifest"
    by (rule run_start)
  have get: "fst (Get mem_services run_idx ''k'' w) = Inr [[7]]"
    by (rule storage.Get_ok [OF mem_storage w(1,2), of "''k''"]) (simp add: run_find(1) [OF w(3)])
  from iterator_lists_index [OF mem_storage w(1,2)] obtain xs N where
    x: "\<forall>k. fst (Get mem_services run_idx k w) = (case map_of xs k of None \<Rightarrow> Inl ErrEntryNotFound | Some refs \<Rightarrow> Inr refs)"
    "\<forall>endp limit. \<exists>it w1. NewStringIterator mem_services run_idx [] endp limit w = (Inr it, w1)
        \<and> (\<forall>n \<ge> N. \<forall>k > length xs. fst (drain k n mem_services it w1) = window endp limit xs)" by blast
  from x(1) get have "map_of xs ''k'' = Some [[7]]" by (simp split: option.splits)
  then have k: "(''k'', [[7]]) \<in> set xs" by (rule map_of_SomeD)
  from x(2) obtain it w1 where "NewStringIterator mem_services run_idx [] [] (-1) w = (Inr it, w1)"
    "\<forall>n \<ge> N. \<forall>k > length xs. fst (drain k n mem_services it w1) = window [] (-1) xs" by blast
  moreover have "window [] (-1) xs = xs" by (simp add: window_def takeWhile_eq_all_conv)
  ultimately show ?thesis using k by (metis lessI order_refl)
qed

text \<open>Seek in the branch "bb" with the keys "bba" and "bbc".  A start "bac", that is
  before both, gives only the second; a start "b", that is a proper part of the
  label, gives none at all.\<close>

definition seek_index :: Index where
  "seek_index = \<lparr>ixName = ''n'', ixMutable = False, ixType = StringIndex, ixPodFile = [], ixPassword = [],
     ixUser = [], ixCount = 2, ixMemDB = Some (Manifest ''n'' False [] StringIndex 0
       [Entry ''bb'' intermediateEntry [] (Some (Manifest ''nbb'' False [] StringIndex 0
          [Entry ''a'' leafEntry [[1]] None, Entry ''c'' leafEntry [[2]] None] 0 False))] 0 False)\<rparr>"

lemma seek_skips_keys:
  "\<exists>it. NewStringIterator sv seek_index ''bac'' [] (-1) w = (Inr it, w) \<and> fst (drain 5 5 sv it w) = [(''bbc'', [[2]])]"
  "fst (NewStringIterator sv seek_index ''b'' [] (-1) w) = Inl ErrEntryNotFound"
  "\<exists>it. NewStringIterator sv seek_index [] [] (-1) w = (Inr it, w) \<and> fst (drain 5 5 sv it w) = [(''bba'', [[1]]), (''bbc'', [[2]])]"
  by (simp_all add: NewStringIterator_def new_iterator_def iter_root_def seek_index_def Iterator_Seek_def byte_gt_def
      leafEntry_def intermediateEntry_def HasPrefix_def iter_child_def push_def eval_nat_numeral nextStringKey.simps
      Next_def StringKey_def ValueAll_def Let_def TrimPrefix_def)

section \<open>Batches\<close>

lemma batch_memory_dictionary_witness:
  "\<exists>B w'. mem_puts mem_services run_idx NewBatch [(''ab'', [1]), (''ac'', [2]), (''ab'', [3])] mem_start = (Inr (), run_idx, B, w')
    \<and> fst (Batch_Get mem_services run_idx B ''ab'' w') = Inr [[3]]
    \<and> fst (Batch_Get mem_services run_idx B ''a'' w') = Inl ErrEntryNotFound"
proof -
  have ty: "ixType run_idx \<noteq> BytesIndex" by (simp add: run_idx_def)
  have key: "batch_key run_idx k = Inr k" for k by (simp add: batch_key_def run_idx_def)
  have kk: "list_all2 (\<lambda>(k, v) (s, v'). batch_key run_idx k = Inr s \<and> v' = v)
      [(''ab'', [1]), (''ac'', [2]), (''ab'', [3])] [(''ab'', [1]), (''ac'', [2]), (''ab'', [3])]"
    by (auto simp: key list_all2_same)
  let ?kvs = "[(''ab'', [1]), (''ac'', [2]), (''ab'', [3])]"
  have g: "mem_good 0 mem_start" by (rule mem_start_good) simp
  have ne: "?kvs \<noteq> []" by simp
  from batch_memory_dictionary [OF mem_storage g ty ne kk] obtain B w' where
    "mem_puts mem_services run_idx NewBatch ?kvs mem_start = (Inr (), run_idx, B, w')"
    "\<forall>k w. Batch_Get mem_services run_idx B k w =
       ((case batch_key run_idx k of Inl e \<Rightarrow> Inl e
         | Inr s \<Rightarrow> (case map_of (rev ?kvs) s of None \<Rightarrow> Inl ErrEntryNotFound | Some v \<Rightarrow> Inr [v])), w)" by blast
  moreover from this(2) [rule_format, of _ w'] have "fst (Batch_Get mem_services run_idx B ''ab'' w') = Inr [[3]]"
    "fst (Batch_Get mem_services run_idx B ''a'' w') = Inl ErrEntryNotFound" by (simp_all only:) (simp_all add: key)
  ultimately show ?thesis by blast
qed

section \<open>Key value tables\<close>

definition run_kv :: KeyValue where
  "run_kv = \<lparr>kvPodName = ''p'', kvUser = [1], kvOpen = [''t'' \<mapsto> \<lparr>tblIndex = 0, tblType = StringIndex, tblColumns = []\<rparr>],
     kvHeap = (\<lambda>a. run_idx), kvNext = 1, kvIterator = None\<rparr>"

definition run_floats :: "int floats" where
  "run_floats = \<lparr>ParseFloat = ParseInt, FormatKey = Sprintf_020d, FormatSeek = Sprintf_020d, OfInt = (\<lambda>i. i)\<rparr>"

lemma range_order_id: "range_order (\<lambda>t. t)"
  by (simp add: range_order_def)

lemma mem_list_fits:
  "length (print_tables t) \<le> 4000 \<Longrightarrow> list_fits mem_services ''pw'' t"
  by (simp add: list_fits_def storable_def MaxChunkLength_def bytes_of_def)

lemma kv_file_length: "length kvFile \<le> 31"
  by (simp add: kvFile_def)

lemma kv_tables_round_trip_witness:
  "\<exists>w1 t' w2. storeKVTables mem_services (\<lambda>t. t) run_kv [(''t'', [''StringIndex''])] ''pw'' mem_start = (Inr (), w1)
    \<and> LoadKVTables mem_services run_kv ''pw'' w1 = (Inr t', w2) \<and> map_of t' = [''t'' \<mapsto> [''StringIndex'']]"
proof -
  have t: "tables_ok [(''t'', [''StringIndex''])]" by (simp add: tables_ok_def clean_def comma_def newline_char_def)
  have f: "list_fits mem_services ''pw'' [(''t'', [''StringIndex''])]"
    by (rule mem_list_fits) (simp add: print_tables_def table_line_def)
  show ?thesis
    using kv_tables_round_trip [OF mem_storage mem_start_good kv_file_length range_order_id t f, of 9 run_kv] by simp
qed

lemma map_of_single: "\<lbrakk>distinct (map fst t); map_of t = [k \<mapsto> v]\<rbrakk> \<Longrightarrow> t = [(k, v)]"
proof -
  assume d: "distinct (map fst t)" and m: "map_of t = [k \<mapsto> v]"
  have "set t = {(k, v)}" using d m by (auto simp: set_eq_iff simp flip: map_of_eq_Some_iff split: if_splits)
  moreover have "distinct t" using d by (simp add: distinct_map)
  ultimately have "length t = 1" using distinct_card by fastforce
  with \<open>set t = {(k, v)}\<close> show "t = [(k, v)]" by (cases t) auto
qed

lemma kv_table_life_cycle_witness:
  "\<exists>w1 kv2 w2 w3. CreateKVTable mem_services (\<lambda>t. t) run_kv ''u'' ''pw'' StringIndex mem_start = (Inr (), w1)
     \<and> OpenKVTable mem_services run_kv ''u'' ''pw'' w1 = (Inr (), kv2, w2)
     \<and> fst (KVGet mem_services kv2 ''u'' ''k'' w2) = Inl ErrEntryNotFound
     \<and> DeleteKVTable mem_services (\<lambda>t. t) kv2 ''u'' ''pw'' w2 = (Inr (), kv2\<lparr>kvOpen := (kvOpen kv2)(''u'' := None)\<rparr>, w3)
     \<and> fst (OpenKVTable mem_services kv2 ''u'' ''pw'' w3) = Inl ErrKVTableNotPresent"
proof -
  have g: "mem_good (0 + 5) mem_start" by (rule mem_start_good) simp
  have empty: "kv_tables mem_services (mem_feeds mem_start) (kvUser run_kv) ''pw'' = []"
    by (simp add: kv_tables_def mem_start_empty)
  have len: "length (kvPodName run_kv @ defaultCollectionName @ ''u'') \<le> 31" by (simp add: run_kv_def defaultCollectionName_def)
  have c: "clean ''u''" by (simp add: clean_def comma_def newline_char_def)
  have t: "tables_ok (kv_tables mem_services (mem_feeds mem_start) (kvUser run_kv) ''pw'')"
    unfolding empty by (simp add: tables_ok_def)
  have fit: "\<forall>t. tables_ok t \<and> (map_of t = map_of (kv_tables mem_services (mem_feeds mem_start) (kvUser run_kv) ''pw'')
      \<or> map_of t = (map_of (kv_tables mem_services (mem_feeds mem_start) (kvUser run_kv) ''pw''))(''u'' \<mapsto> [IndexType_String StringIndex]))
      \<longrightarrow> list_fits mem_services ''pw'' t"
  proof (intro allI impI, unfold empty, elim conjE)
    fix t assume "tables_ok t" "map_of t = map_of [] \<or> map_of t = (map_of [])(''u'' \<mapsto> [IndexType_String StringIndex])"
    then have "t = [] \<or> t = [(''u'', [''StringIndex''])]"
      using map_of_single [of t] by (auto simp: tables_ok_def)
    then show "list_fits mem_services ''pw'' t" by (intro mem_list_fits) (auto simp: print_tables_def table_line_def)
  qed
  have none: "map_of (kv_tables mem_services (mem_feeds mem_start) (kvUser run_kv) ''pw'') ''u'' = None"
    unfolding empty by simp
  have valid: "valid_utf8 (kvPodName run_kv @ defaultCollectionName @ ''u'')"
    by (rule ascii_valid) (simp add: run_kv_def defaultCollectionName_def)
  have free: "mem_feeds mem_start (kvUser run_kv, HashString mem_services (kvPodName run_kv @ defaultCollectionName @ ''u''), bytes_of ''pw'')
      \<in> {None, Some deleted_mark}" by (simp add: mem_start_empty)
  show ?thesis
    using kv_table_life_cycle [OF mem_storage g kv_file_length len range_order_id t none c free fit valid]
    by (elim exE conjE) (intro exI conjI, assumption+, erule spec, assumption+)
qed


section \<open>Where batches and number tables go wrong\<close>

context storage
begin

text \<open>The first put of a batch that is not kept in memory, the way KVBatchPut does
  it, stores the manifest of the batch over the root of the index: every other
  key is lost, and the index that is opened from it is immutable.\<close>

lemma batch_put_loses_index:
  assumes b: "inv (b + 2) w" and idx: "index_ok sv maxlen feeds blobs idx w" "length (ixName idx) \<le> maxlen" "ixType idx = StringIndex"
    and key: "ascii key"
  obtains idx' b' w' m where "Batch_Put sv idx NewBatch key val False False w = (Inr (), idx', b', w')" "inv b w'"
    "\<And>k. k \<noteq> key \<Longrightarrow> index_find sv maxlen feeds blobs idx w' k = None"
    "ixview sv maxlen feeds blobs idx w' (ixName idx) = Some m" "\<not> mMutable m"
proof -
  obtain now w1 where n: "NowUnix sv w = (now, w1)" by fastforce
  from clock [OF b n] have 1: "inv (b + 2) w1" "feeds w1 = feeds w" "blobs w1 = blobs w" by auto
  define m0 where "m0 = Manifest (ixName idx) False [] StringIndex now [] 0 True"
  define es where "es = [Entry key leafEntry [val] None]"
  let ?idx1 = "idx\<lparr>ixCount := ixCount idx + 1\<rparr>"
  define m2 where "m2 = set_mCount (ixCount ?idx1) (set_mDirty True (set_mEntries es m0))"
  obtain w2 where u: "updateManifest sv ?idx1 m2 (ixPassword ?idx1) w1 = (Inr (), w2)" "inv b w2"
    "ixview sv maxlen feeds blobs ?idx1 w2 (mName m2) = Some (json_manifest m2)"
    by (rule update_ok [OF 1(1), of m2 ?idx1]) (use idx(2) in \<open>simp_all add: m2_def m0_def\<close>)
  have V: "ixview sv maxlen feeds blobs idx w2 (ixName idx) = Some (json_manifest m2)"
    using u(3) by (simp add: m2_def m0_def)
  have e: "mEntries (json_manifest m2) = es" "\<not> mMutable (json_manifest m2)"
    using json_string_ascii [OF key] by (simp_all add: m2_def m0_def es_def set_mEntries_def set_mDirty_def set_mCount_def)
  show thesis
  proof (rule that [OF _ u(2) _ V e(2)])
    show "Batch_Put sv idx NewBatch key val False False w = (Inr (), ?idx1, \<lparr>memDb = Some m2, manifestStack = []\<rparr>, w2)"
      using writable [OF b] n u(1) idx(3)
      by (simp add: Batch_Put_def batch_mem_def NewBatch_def batch_key_def addOrUpdate.simps finish_add_def Let_def
          m2_def m0_def es_def addEntrySorted_def)
    show "index_find sv maxlen feeds blobs idx w2 k = None" if "k \<noteq> key" for k
      using that V e(1) by (simp add: index_find_def tfind.simps es_def cand_def)
  qed
qed

text \<open>KVPut of a table of numbers stores the value under the number's padded text,
  but KVGet looks for the text it is given.\<close>

lemma number_table_get_misses:
  assumes b: "inv (b + 2 + 2) w" and t: "kvOpen kv name = Some t" "tblType t = NumberIndex"
    "index_ok sv maxlen feeds blobs (kvHeap kv (tblIndex t)) w"
    and k: "ParseFloat fl key = Some f" "FormatKey fl f \<noteq> key"
    and len: "length (ixName (kvHeap kv (tblIndex t))) + length (FormatKey fl f) \<le> maxlen" "ascii (FormatKey fl f)"
    and none: "index_find sv maxlen feeds blobs (kvHeap kv (tblIndex t)) w key = None"
  shows "\<exists>kv' w'. KVPut fl sv kv name key val w = (Inr (), kv', w') \<and> fst (KVGet sv kv' name key w') = Inl ErrEntryNotFound"
proof -
  let ?idx = "kvHeap kv (tblIndex t)"
  obtain w' where p: "Put sv ?idx (FormatKey fl f) val NumberIndex False w = (Inr (), ?idx\<lparr>ixCount := ixCount ?idx + 1\<rparr>, w')"
    "inv b w'" "index_ok sv maxlen feeds blobs ?idx w'"
    "index_find sv maxlen feeds blobs ?idx w' key = None"
    by (rule Put_ok [OF b t(3) len, of val NumberIndex False]) (use k(2) none in auto)
  let ?kv = "set_index (tblIndex t) (?idx\<lparr>ixCount := ixCount ?idx + 1\<rparr>) kv"
  have "KVPut fl sv kv name key val w = (Inr (), ?kv, w')"
    using writable [OF b] t(1,2) k(1) p(1) by (simp add: KVPut_def PutNumber_def Let_def)
  moreover have "fst (KVGet sv ?kv name key w') = Inl ErrEntryNotFound"
    by (rule KVGet_entry(2) [OF p(2), of ?kv name t]) (use t p(3,4) in \<open>simp_all add: set_index_def\<close>)
  ultimately show ?thesis by blast
qed

end

end
