(* ===== verification/DirModel.thy ===== *)
theory DirModel
  imports FileUpload
begin

text \<open>
  Directories, pkg/dir.  The inode of a directory (its metadata and the names of
  its children, "_F_" in front of a file and "_D_" in front of a directory) is
  stored as JSON in the file index.dfs inside it.  A Directory keeps the inodes
  it has read in dirMap, as pointers: GetInode gives out the pointer and the
  callers change the inode behind it, so the model has a heap of inodes.

  What encoding/json does with the stored structures is the record json.  Tasks
  that the code runs concurrently (listing, SyncDirectoryAsync) are run in the
  order in which they are started; they are independent of each other.
\<close>

section \<open>JSON, errors and constants\<close>

record json =
  Marshal :: "doc \<Rightarrow> bytes"
  UnmarshalInode :: "bytes \<Rightarrow> Inode option"
  UnmarshalPodList :: "bytes \<Rightarrow> PodList option"
  UnmarshalGroupList :: "bytes \<Rightarrow> GroupList option"
  UnmarshalPermissions :: "bytes \<Rightarrow> permissions option"

abbreviation "ErrResourceDeleted \<equiv> Sentinel ''resource was deleted''"
abbreviation "ErrInvalidDirectoryName \<equiv> Sentinel ''invalid directory name''"
abbreviation "ErrTooLongDirectoryName \<equiv> Sentinel ''too long directory name''"
abbreviation "ErrDirectoryAlreadyPresent \<equiv> Sentinel ''directory name already present''"
abbreviation "ErrDirectoryNotPresent \<equiv> Sentinel ''directory not present''"
abbreviation "ErrInvalidFileOrDirectoryName \<equiv> Sentinel ''invalid file or directory name''"
abbreviation "NilDereference \<equiv> Panic ''nil pointer dereference''"

definition IndexFileName :: string where "IndexFileName = ''index.dfs''"
definition nameLength :: nat where "nameLength = 100"
definition S_IFDIR :: "32 word" where "S_IFDIR = 0x4000"
definition dirDefaultMode :: "32 word" where "dirDefaultMode = 0x1C0"
definition DirMetaVersion :: "8 word" where "DirMetaVersion = 2"
definition file_mark :: string where "file_mark = ''_F_''"
definition dir_mark :: string where "dir_mark = ''_D_''"

section \<open>The directory map\<close>

record Directory =
  drUser :: Address
  drFile :: File
  drHeap :: "nat \<Rightarrow> Inode"
  drNext :: nat
  drMap :: "string \<rightharpoonup> nat"

definition AddToDirectoryMap :: "string \<Rightarrow> nat \<Rightarrow> Directory \<Rightarrow> Directory" where
  "AddToDirectoryMap path a d = d\<lparr>drMap := (drMap d)(path \<mapsto> a)\<rparr>"

definition RemoveFromDirectoryMap :: "string \<Rightarrow> Directory \<Rightarrow> Directory" where
  "RemoveFromDirectoryMap path d = d\<lparr>drMap := (drMap d)(path := None)\<rparr>"

definition GetDirFromDirectoryMap :: "Directory \<Rightarrow> string \<Rightarrow> nat option" where
  "GetDirFromDirectoryMap d path = drMap d path"

definition RemoveAllFromDirectoryMap :: "Directory \<Rightarrow> Directory" where
  "RemoveAllFromDirectoryMap d = d\<lparr>drMap := Map.empty\<rparr>"

definition NewDirectory :: "Address \<Rightarrow> File \<Rightarrow> (nat \<Rightarrow> Inode) \<Rightarrow> Directory" where
  "NewDirectory user f h = \<lparr>drUser = user, drFile = f, drHeap = h, drNext = 0, drMap = Map.empty\<rparr>"

text \<open>A new inode, and a change of the inode behind a pointer.\<close>

definition new_inode :: "Inode \<Rightarrow> Directory \<Rightarrow> nat \<times> Directory" where
  "new_inode i d = (drNext d, d\<lparr>drHeap := (drHeap d)(drNext d := i), drNext := Suc (drNext d)\<rparr>)"

definition change_inode :: "nat \<Rightarrow> (Inode \<Rightarrow> Inode) \<Rightarrow> Directory \<Rightarrow> Directory" where
  "change_inode a g d = d\<lparr>drHeap := (drHeap d)(a := g (drHeap d a))\<rparr>"

abbreviation set_drFile :: "File \<Rightarrow> Directory \<Rightarrow> Directory" where
  "set_drFile f d \<equiv> d\<lparr>drFile := f\<rparr>"

section \<open>Inodes\<close>

definition inode_path :: "Inode \<Rightarrow> string" where
  "inode_path i = CombinePathAndFile (dPath (iMeta i)) (dName (iMeta i))"

text \<open>What is left of JSON that is no inode: the text of another structure parses, but
  gives an inode without metadata, which SetInode dereferences.\<close>

definition InodeUnmarshal :: "json \<Rightarrow> bytes \<Rightarrow> Inode result" where
  "InodeUnmarshal js b =
     (if b = bytes_of DeletedFeedMagicWord then Inl ErrResourceDeleted
      else case UnmarshalInode js b of None \<Rightarrow> Inl (Errorf ''json'') | Some i \<Rightarrow> Inr i)"

definition inode_of_feed :: "content \<Rightarrow> Inode result" where
  "inode_of_feed c =
     (if c = deleted_mark then Inl ErrResourceDeleted
      else case c of
        Doc (DInode i) \<Rightarrow> Inr i
      | Doc x \<Rightarrow> Inl NilDereference
      | _ \<Rightarrow> Inl (Errorf ''json''))"

definition SetInode ::
  "'w services \<Rightarrow> libs \<Rightarrow> json \<Rightarrow> (nat \<Rightarrow> bool) \<Rightarrow> Directory \<Rightarrow> string \<Rightarrow> nat \<Rightarrow> 'w \<Rightarrow> unit result \<times> Directory \<times> 'w" where
  "SetInode sv lb js late d pw a w =
     (let totalPath = inode_path (drHeap d a); data = Marshal js (DInode (drHeap d a)) in
      case Upload sv lb late (drFile d) [data] IndexFileName (of_nat (length data)) (of_nat MinBlockSize) 0
             totalPath ''gzip'' pw w of
        (Inl e, f, w1) \<Rightarrow> (Inl e, set_drFile f d, w1)
      | (Inr u, f, w1) \<Rightarrow> (Inr (), AddToDirectoryMap totalPath a (set_drFile f d), w1))"

definition GetInode ::
  "'w services \<Rightarrow> libs \<Rightarrow> json \<Rightarrow> (nat \<Rightarrow> bool) \<Rightarrow> Directory \<Rightarrow> string \<Rightarrow> string \<Rightarrow> 'w \<Rightarrow> nat result \<times> Directory \<times> 'w" where
  "GetInode sv lb js late d pw path w =
     (case GetDirFromDirectoryMap d path of
        Some a \<Rightarrow> (Inr a, d, w)
      | None \<Rightarrow>
          (case Download sv (drFile d) (CombinePathAndFile path IndexFileName) pw w of
             (Inl e, f, w1) \<Rightarrow>
               (case GetFeedData sv (HashString sv path) (drUser d) (bytes_of pw) w1 of
                  (Inl e, w2) \<Rightarrow> (Inl ErrDirectoryNotPresent, set_drFile f d, w2)
                | (Inr (adr, c), w2) \<Rightarrow>
                    (case inode_of_feed c of
                       Inl e \<Rightarrow> (Inl e, set_drFile f d, w2)
                     | Inr i \<Rightarrow>
                         (case new_inode i (set_drFile f d) of (a, d1) \<Rightarrow>
                          case SetInode sv lb js late d1 pw a w2 of
                            (Inl e, d2, w3) \<Rightarrow> (Inl e, d2, w3)
                          | (Inr u, d2, w3) \<Rightarrow>
                              (case DeleteFeedFromTopic sv (HashString sv path) (drUser d) w3 of
                                 (ignored, w4) \<Rightarrow> (Inr a, AddToDirectoryMap path a d2, w4)))))
           | (Inr (r, n), f, w1) \<Rightarrow>
               (case read_all (Suc n) sv lb 0 [] r w1 of
                  (Inl e, r1, w2) \<Rightarrow> (Inl e, set_drFile f d, w2)
                | (Inr data, r1, w2) \<Rightarrow>
                    (case InodeUnmarshal js data of
                       Inl e \<Rightarrow> (Inl e, set_drFile f d, w2)
                     | Inr i \<Rightarrow>
                         (case new_inode i (set_drFile f d) of
                            (a, d1) \<Rightarrow> (Inr a, AddToDirectoryMap path a d1, w2))))))"

text \<open>An error that the code replaces by another one; a panic is not caught.\<close>

definition masked :: "goerror \<Rightarrow> goerror \<Rightarrow> goerror" where
  "masked e e' = (case e of Panic p \<Rightarrow> Panic p | _ \<Rightarrow> e')"

definition panicking :: "goerror \<Rightarrow> bool" where
  "panicking e = (case e of Panic p \<Rightarrow> True | _ \<Rightarrow> False)"

lemma panicking_simps [simp]: "\<not> panicking (Sentinel s)" "\<not> panicking (Errorf s)" "\<not> panicking (Service s)" "panicking (Panic s)"
  by (simp_all add: panicking_def)

lemma masked_simps [simp]:
  "masked (Sentinel s) e = e" "masked (Errorf s) e = e" "masked (Service s) e = e" "masked (Panic p) e = Panic p"
  by (simp_all add: masked_def)

section \<open>Entries of a directory\<close>

definition entry_name :: "string \<Rightarrow> bool \<Rightarrow> string" where
  "entry_name item isFile = (if isFile then file_mark else dir_mark) @ item"

definition set_modified :: "int \<Rightarrow> Inode \<Rightarrow> Inode" where
  "set_modified t i = i\<lparr>iMeta := (iMeta i)\<lparr>dModificationTime := t\<rparr>\<rparr>"

definition AddEntryToDir ::
  "'w services \<Rightarrow> libs \<Rightarrow> json \<Rightarrow> (nat \<Rightarrow> bool) \<Rightarrow> Directory \<Rightarrow> string \<Rightarrow> string \<Rightarrow> string \<Rightarrow> bool \<Rightarrow> 'w
    \<Rightarrow> unit result \<times> Directory \<times> 'w" where
  "AddEntryToDir sv lb js late d parentDir pw itemToAdd isFile w =
     (if parentDir = [] then (Inl ErrInvalidDirectoryName, d, w)
      else if itemToAdd = [] then (Inl ErrInvalidFileOrDirectoryName, d, w)
      else case GetInode sv lb js late d pw parentDir w of
        (Inl e, d1, w1) \<Rightarrow> (Inl (masked e ErrDirectoryNotPresent), d1, w1)
      | (Inr a, d1, w1) \<Rightarrow>
          (case NowUnix sv w1 of (now, w2) \<Rightarrow>
           SetInode sv lb js late
             (change_inode a (\<lambda>i. set_modified now
                (i\<lparr>FileOrDirNames := FileOrDirNames i @ [entry_name itemToAdd isFile]\<rparr>)) d1) pw a w2))"

definition RemoveEntryFromDir ::
  "'w services \<Rightarrow> libs \<Rightarrow> json \<Rightarrow> (nat \<Rightarrow> bool) \<Rightarrow> Directory \<Rightarrow> string \<Rightarrow> string \<Rightarrow> string \<Rightarrow> bool \<Rightarrow> 'w
    \<Rightarrow> unit result \<times> Directory \<times> 'w" where
  "RemoveEntryFromDir sv lb js late d parentDir pw itemToDelete isFile w =
     (if parentDir = [] then (Inl ErrInvalidDirectoryName, d, w)
      else if itemToDelete = [] then (Inl ErrInvalidFileOrDirectoryName, d, w)
      else case GetInode sv lb js late d pw parentDir w of
        (Inl e, d1, w1) \<Rightarrow> (Inl (masked e ErrDirectoryNotPresent), d1, w1)
      | (Inr a, d1, w1) \<Rightarrow>
          (case NowUnix sv w1 of (now, w2) \<Rightarrow>
           SetInode sv lb js late
             (change_inode a (\<lambda>i. set_modified now
                (i\<lparr>FileOrDirNames := filter (\<lambda>x. x \<noteq> entry_name itemToDelete isFile) (FileOrDirNames i)\<rparr>)) d1) pw a w2))"

text \<open>RemoveInode takes the entry out of the directory above the parent.\<close>

definition total_path :: "string \<Rightarrow> string" where
  "total_path path =
     (if path_Dir path = ''/'' \<and> path_Base path = ''/'' then CombinePathAndFile (path_Dir path) []
      else CombinePathAndFile (path_Dir path) (path_Base path))"

definition RemoveInode ::
  "'w services \<Rightarrow> libs \<Rightarrow> json \<Rightarrow> (nat \<Rightarrow> bool) \<Rightarrow> Directory \<Rightarrow> string \<Rightarrow> string \<Rightarrow> 'w \<Rightarrow> unit result \<times> Directory \<times> 'w" where
  "RemoveInode sv lb js late d pw path w =
     (let parentPath = path_Dir path; totalPath = total_path path in
      case RmFile sv (drFile d) (CombinePathAndFile totalPath IndexFileName) pw w of
        (Inl e, f, w1) \<Rightarrow> (Inl e, set_drFile f d, w1)
      | (Inr u, f, w1) \<Rightarrow>
          let d1 = RemoveFromDirectoryMap totalPath (set_drFile f d) in
          if parentPath = [] \<or> (parentPath = ''/'' \<and> totalPath = ''/'') then (Inr (), d1, w1)
          else RemoveEntryFromDir sv lb js late d1 (path_Dir parentPath) pw (path_Base totalPath) False w1)"

section \<open>Creating directories\<close>

definition dir_meta :: "string \<Rightarrow> string \<Rightarrow> int \<Rightarrow> 32 word \<Rightarrow> DirMeta" where
  "dir_meta path name now mode =
     \<lparr>dVersion = DirMetaVersion, dPath = path, dName = name, dCreationTime = now, dAccessTime = now,
      dModificationTime = now, dMode = mode\<rparr>"

definition MkDir ::
  "'w services \<Rightarrow> libs \<Rightarrow> json \<Rightarrow> (nat \<Rightarrow> bool) \<Rightarrow> Directory \<Rightarrow> string \<Rightarrow> string \<Rightarrow> 32 word \<Rightarrow> 'w
    \<Rightarrow> unit result \<times> Directory \<times> 'w" where
  "MkDir sv lb js late d path pw mode w =
     (let parentPath = path_Dir path; dirName = path_Base path in
      if dirName = [] \<or> HasPrefix dirName ''/'' then (Inl ErrInvalidDirectoryName, d, w)
      else if length dirName > nameLength then (Inl ErrTooLongDirectoryName, d, w)
      else
        let totalPath = CombinePathAndFile parentPath dirName in
        case GetInode sv lb js late d pw parentPath w of
          (Inl e, d1, w1) \<Rightarrow> (Inl (masked e ErrDirectoryNotPresent), d1, w1)
        | (Inr pa, d1, w1) \<Rightarrow>
            (case GetInode sv lb js late d1 pw totalPath w1 of
               (Inr ta, d2, w2) \<Rightarrow> (Inl ErrDirectoryAlreadyPresent, d2, w2)
             | (Inl e, d2, w2) \<Rightarrow>
                 if panicking e then (Inl e, d2, w2) else
                 let md = (if mode = 0 then or S_IFDIR dirDefaultMode else mode) in
                 (case NowUnix sv w2 of (now, w3) \<Rightarrow>
                  case new_inode \<lparr>iMeta = dir_meta parentPath dirName now md, FileOrDirNames = []\<rparr> d2 of (a, d3) \<Rightarrow>
                  case SetInode sv lb js late d3 pw a w3 of
                    (Inl e, d4, w4) \<Rightarrow> (Inl e, d4, w4)
                  | (Inr u, d4, w4) \<Rightarrow> AddEntryToDir sv lb js late d4 parentPath pw dirName False w4)))"

definition MkRootDir ::
  "'w services \<Rightarrow> libs \<Rightarrow> json \<Rightarrow> (nat \<Rightarrow> bool) \<Rightarrow> Directory \<Rightarrow> string \<Rightarrow> 'w \<Rightarrow> unit result \<times> Directory \<times> 'w" where
  "MkRootDir sv lb js late d pw w =
     (case NowUnix sv w of (now, w1) \<Rightarrow>
      case new_inode \<lparr>iMeta = dir_meta [] ''/'' now 0, FileOrDirNames = []\<rparr> d of (a, d1) \<Rightarrow>
      SetInode sv lb js late d1 pw a w1)"

definition AddRootDir ::
  "'w services \<Rightarrow> libs \<Rightarrow> json \<Rightarrow> (nat \<Rightarrow> bool) \<Rightarrow> Directory \<Rightarrow> string \<Rightarrow> 'w \<Rightarrow> unit result \<times> Directory \<times> 'w" where
  "AddRootDir sv lb js late d pw w =
     (case GetInode sv lb js late d pw (CombinePathAndFile ''/'' []) w of
        (Inl e, d1, w1) \<Rightarrow> (Inl e, d1, w1)
      | (Inr a, d1, w1) \<Rightarrow> (Inr (), AddToDirectoryMap ''/'' a d1, w1))"

end
