(* ===== verification/DirOps.thy ===== *)
theory DirOps
  imports DirModel
begin

text \<open>
  The operations of pkg/dir on whole directories: removal, renaming, the syncs,
  listing and stat.  Each walks the tree of stored inodes, whose depth the code
  does not bound; the first argument is the depth after which the model gives up.
  A loop over the entries of a directory runs over the slice that it found when
  it started.
\<close>

section \<open>Removing directories\<close>

type_synonym 'w dir_step = "Directory \<Rightarrow> 'w \<Rightarrow> unit result \<times> Directory \<times> 'w"

primrec rm_entries ::
  "(string \<Rightarrow> 'w dir_step) \<Rightarrow> 'w services \<Rightarrow> libs \<Rightarrow> json \<Rightarrow> (nat \<Rightarrow> bool) \<Rightarrow> string \<Rightarrow> string \<Rightarrow> string list \<Rightarrow> 'w dir_step" where
  "rm_entries rm_dir sv lb js late path pw [] d w = (Inr (), d, w)"
| "rm_entries rm_dir sv lb js late path pw (x # xs) d w =
     (if HasPrefix x file_mark then
        let fileName = TrimPrefix x file_mark in
        (case RmFile sv (drFile d) (CombinePathAndFile path fileName) pw w of
           (Inl e, f, w1) \<Rightarrow> (Inl e, set_drFile f d, w1)
         | (Inr u, f, w1) \<Rightarrow>
             (case RemoveEntryFromDir sv lb js late (set_drFile f d) path pw fileName True w1 of
                (Inl e, d1, w2) \<Rightarrow> (Inl e, d1, w2)
              | (Inr u, d1, w2) \<Rightarrow> rm_entries rm_dir sv lb js late path pw xs d1 w2))
      else if HasPrefix x dir_mark then
        (case rm_dir (CombinePathAndFile path (TrimPrefix x dir_mark)) d w of
           (Inl e, d1, w1) \<Rightarrow> (Inl e, d1, w1)
         | (Inr u, d1, w1) \<Rightarrow> rm_entries rm_dir sv lb js late path pw xs d1 w1)
      else rm_entries rm_dir sv lb js late path pw xs d w)"

primrec RmDir ::
  "nat \<Rightarrow> 'w services \<Rightarrow> libs \<Rightarrow> json \<Rightarrow> (nat \<Rightarrow> bool) \<Rightarrow> string \<Rightarrow> string \<Rightarrow> 'w dir_step" where
  "RmDir 0 sv lb js late pw path d w = (Inl (Panic ''stack overflow''), d, w)"
| "RmDir (Suc n) sv lb js late pw path d w =
     (if path = [] \<or> path_Dir path = ''.'' \<or> path_Base path = ''.'' then (Inl ErrInvalidDirectoryName, d, w)
      else case GetInode sv lb js late d pw (total_path path) w of
        (Inl e, d1, w1) \<Rightarrow> (Inl (masked e ErrDirectoryNotPresent), d1, w1)
      | (Inr a, d1, w1) \<Rightarrow>
          (case rm_entries (RmDir n sv lb js late pw) sv lb js late path pw (FileOrDirNames (drHeap d1 a)) d1 w1 of
             (Inl e, d2, w2) \<Rightarrow> (Inl e, d2, w2)
           | (Inr u, d2, w2) \<Rightarrow> RemoveInode sv lb js late d2 pw path w2))"

definition RmRootDir ::
  "nat \<Rightarrow> 'w services \<Rightarrow> libs \<Rightarrow> json \<Rightarrow> (nat \<Rightarrow> bool) \<Rightarrow> Directory \<Rightarrow> string \<Rightarrow> 'w \<Rightarrow> unit result \<times> Directory \<times> 'w" where
  "RmRootDir n sv lb js late d pw w =
     (case GetDirFromDirectoryMap d (CombinePathAndFile ''/'' []) of
        None \<Rightarrow> (Inl ErrDirectoryNotPresent, d, w)
      | Some a \<Rightarrow>
          (case rm_entries (RmDir n sv lb js late pw) sv lb js late ''/'' pw (FileOrDirNames (drHeap d a)) d w of
             (Inl e, d1, w1) \<Rightarrow> (Inl e, d1, w1)
           | (Inr u, d1, w1) \<Rightarrow> RemoveInode sv lb js late d1 pw ''/'' w1))"

section \<open>Syncing\<close>

text \<open>A file whose metadata cannot be loaded is only logged, and a directory that
  is not there counts as empty.\<close>

primrec sync_entries ::
  "(string \<Rightarrow> 'w dir_step) \<Rightarrow> 'w services \<Rightarrow> string \<Rightarrow> string \<Rightarrow> string list \<Rightarrow> 'w dir_step" where
  "sync_entries sync_dir sv path pw [] d w = (Inr (), d, w)"
| "sync_entries sync_dir sv path pw (x # xs) d w =
     (if HasPrefix x file_mark then
        (case LoadFileMeta sv (drFile d) (CombinePathAndFile path (TrimPrefix x file_mark)) pw w of
           (r, f, w1) \<Rightarrow> sync_entries sync_dir sv path pw xs (set_drFile f d) w1)
      else if HasPrefix x dir_mark then
        (case sync_dir (CombinePathAndFile path (TrimPrefix x dir_mark)) d w of
           (Inl e, d1, w1) \<Rightarrow> (Inl e, d1, w1)
         | (Inr u, d1, w1) \<Rightarrow> sync_entries sync_dir sv path pw xs d1 w1)
      else sync_entries sync_dir sv path pw xs d w)"

primrec SyncDirectory ::
  "nat \<Rightarrow> 'w services \<Rightarrow> libs \<Rightarrow> json \<Rightarrow> (nat \<Rightarrow> bool) \<Rightarrow> string \<Rightarrow> string \<Rightarrow> 'w dir_step" where
  "SyncDirectory 0 sv lb js late pw path d w = (Inl (Panic ''stack overflow''), d, w)"
| "SyncDirectory (Suc n) sv lb js late pw path d w =
     (case GetInode sv lb js late d pw path w of
        (Inl e, d1, w1) \<Rightarrow> (if panicking e then Inl e else Inr (), d1, w1)
      | (Inr a, d1, w1) \<Rightarrow>
          sync_entries (SyncDirectory n sv lb js late pw) sv path pw (FileOrDirNames (drHeap d1 a))
            (AddToDirectoryMap path a d1) w1)"

text \<open>SyncDirectoryAsync does not put the directory itself into the map (GetInode
  has done so) and loads every file in a task of its own.\<close>

primrec SyncDirectoryAsync ::
  "nat \<Rightarrow> 'w services \<Rightarrow> libs \<Rightarrow> json \<Rightarrow> (nat \<Rightarrow> bool) \<Rightarrow> string \<Rightarrow> string \<Rightarrow> 'w dir_step" where
  "SyncDirectoryAsync 0 sv lb js late pw path d w = (Inl (Panic ''stack overflow''), d, w)"
| "SyncDirectoryAsync (Suc n) sv lb js late pw path d w =
     (case GetInode sv lb js late d pw path w of
        (Inl e, d1, w1) \<Rightarrow> (if panicking e then Inl e else Inr (), d1, w1)
      | (Inr a, d1, w1) \<Rightarrow>
          sync_entries (SyncDirectoryAsync n sv lb js late pw) sv path pw (FileOrDirNames (drHeap d1 a)) d1 w1)"

section \<open>Renaming\<close>

text \<open>The metadata of a file is moved: read from the feed of the old path, written
  to that of the new one, and deleted under the old path.  The file map keeps
  both as they are.\<close>

definition move_file ::
  "'w services \<Rightarrow> Address \<Rightarrow> string \<Rightarrow> string \<Rightarrow> string \<Rightarrow> string \<Rightarrow> 'w \<Rightarrow> unit result \<times> 'w" where
  "move_file sv user filePath newFilePath newTotalPath pw w =
     (case GetFeedData sv (HashString sv filePath) user (bytes_of pw) w of
        (Inl e, w1) \<Rightarrow> (Inl e, w1)
      | (Inr (adr, c), w1) \<Rightarrow>
          if c = deleted_mark then (Inr (), w1)
          else (case json_meta c of
            Some p \<Rightarrow>
              (case NowUnix sv w1 of (now, w2) \<Rightarrow>
               let p' = p\<lparr>fPath := newTotalPath, fModificationTime := now\<rparr>; newTopic = HashString sv newFilePath in
               case GetFeedData sv newTopic user (bytes_of pw) w2 of
                 (prev, w3) \<Rightarrow>
                   (case (case prev of
                            Inr (addr, c') \<Rightarrow>
                              if addr \<noteq> [] then UpdateFeed sv user newTopic (Doc (DFileMeta p')) (bytes_of pw) w3
                              else CreateFeed sv user newTopic (Doc (DFileMeta p')) (bytes_of pw) w3
                          | Inl e \<Rightarrow> CreateFeed sv user newTopic (Doc (DFileMeta p')) (bytes_of pw) w3) of
                      (Inl e, w4) \<Rightarrow> (Inl e, w4)
                    | (Inr u, w4) \<Rightarrow> UpdateFeed sv user (HashString sv filePath) deleted_mark (bytes_of pw) w4))
          | None \<Rightarrow> (Inl (Errorf ''json''), w1)))"

definition set_place :: "string \<Rightarrow> string \<Rightarrow> int \<Rightarrow> Inode \<Rightarrow> Inode" where
  "set_place path name now i = i\<lparr>iMeta := (iMeta i)\<lparr>dPath := path, dName := name, dModificationTime := now\<rparr>\<rparr>"

text \<open>The children of a directory that is renamed.  A child directory whose inode
  is not in the map ends the program: the recursion dereferences it before
  GetInode has read it.\<close>

primrec map_entries ::
  "(string \<Rightarrow> string \<Rightarrow> 'w dir_step) \<Rightarrow> 'w services \<Rightarrow> libs \<Rightarrow> json \<Rightarrow> (nat \<Rightarrow> bool) \<Rightarrow> string \<Rightarrow> string \<Rightarrow> string \<Rightarrow> string list
    \<Rightarrow> 'w dir_step" where
  "map_entries map_dir sv lb js late totalPath newTotalPath pw [] d w = (Inr (), d, w)"
| "map_entries map_dir sv lb js late totalPath newTotalPath pw (x # xs) d w =
     (if HasPrefix x file_mark then
        let fileName = TrimPrefix x file_mark in
        (case move_file sv (drUser d) (CombinePathAndFile totalPath fileName)
                (CombinePathAndFile newTotalPath fileName) newTotalPath pw w of
           (Inl e, w1) \<Rightarrow> (Inl e, d, w1)
         | (Inr u, w1) \<Rightarrow> map_entries map_dir sv lb js late totalPath newTotalPath pw xs d w1)
      else if HasPrefix x dir_mark then
        let dirName = TrimPrefix x dir_mark; pathWithDir = CombinePathAndFile totalPath dirName in
        (case map_dir pathWithDir (CombinePathAndFile newTotalPath dirName) d w of
           (Inl e, d1, w1) \<Rightarrow> (Inl e, d1, w1)
         | (Inr u, d1, w1) \<Rightarrow>
             (case GetInode sv lb js late d1 pw pathWithDir w1 of
                (Inl e, d2, w2) \<Rightarrow> (Inl e, d2, w2)
              | (Inr a, d2, w2) \<Rightarrow>
                  (case NowUnix sv w2 of (now, w3) \<Rightarrow>
                   case SetInode sv lb js late
                          (change_inode a (\<lambda>i. set_place newTotalPath (dName (iMeta i)) now i) d2) pw a w3 of
                     (Inl e, d3, w4) \<Rightarrow> (Inl e, d3, w4)
                   | (Inr u, d3, w4) \<Rightarrow>
                       (case RemoveInode sv lb js late d3 pw pathWithDir w4 of
                          (Inl e, d4, w5) \<Rightarrow> (Inl e, d4, w5)
                        | (Inr u, d4, w5) \<Rightarrow> map_entries map_dir sv lb js late totalPath newTotalPath pw xs d4 w5))))
      else map_entries map_dir sv lb js late totalPath newTotalPath pw xs d w)"

primrec mapChildrenToNewPath ::
  "nat \<Rightarrow> 'w services \<Rightarrow> libs \<Rightarrow> json \<Rightarrow> (nat \<Rightarrow> bool) \<Rightarrow> string \<Rightarrow> string \<Rightarrow> string \<Rightarrow> 'w dir_step" where
  "mapChildrenToNewPath 0 sv lb js late pw totalPath newTotalPath d w = (Inl (Panic ''stack overflow''), d, w)"
| "mapChildrenToNewPath (Suc n) sv lb js late pw totalPath newTotalPath d w =
     (case GetDirFromDirectoryMap d totalPath of
        None \<Rightarrow> (Inl NilDereference, d, w)
      | Some a \<Rightarrow>
          map_entries (mapChildrenToNewPath n sv lb js late pw) sv lb js late totalPath newTotalPath pw
            (FileOrDirNames (drHeap d a)) d w)"

definition rename_checks :: "string \<Rightarrow> goerror option" where
  "rename_checks dirName =
     (if dirName = [] \<or> HasPrefix dirName ''/'' then Some ErrInvalidDirectoryName
      else if length dirName > nameLength then Some ErrTooLongDirectoryName
      else if dirName = ''/'' then Some (Errorf ''cannot rename root dir'') else None)"

text \<open>The end of RenameDir: the entry moves from the old parent to the new one and
  both are synced.\<close>

definition rename_entries ::
  "nat \<Rightarrow> 'w services \<Rightarrow> libs \<Rightarrow> json \<Rightarrow> (nat \<Rightarrow> bool) \<Rightarrow> Directory \<Rightarrow> string \<Rightarrow> string \<Rightarrow> string \<Rightarrow> string \<Rightarrow> string \<Rightarrow> 'w
    \<Rightarrow> unit result \<times> Directory \<times> 'w" where
  "rename_entries n sv lb js late d parentPath dirName newParentPath newDirName pw w =
     (case RemoveEntryFromDir sv lb js late d parentPath pw dirName False w of
        (Inl e, d1, w1) \<Rightarrow> (Inl e, d1, w1)
      | (Inr u, d1, w1) \<Rightarrow>
          (case AddEntryToDir sv lb js late d1 newParentPath pw newDirName False w1 of
             (Inl e, d2, w2) \<Rightarrow> (Inl e, d2, w2)
           | (Inr u, d2, w2) \<Rightarrow>
               (case SyncDirectory n sv lb js late pw parentPath d2 w2 of
                  (Inl e, d3, w3) \<Rightarrow> (Inl e, d3, w3)
                | (Inr u, d3, w3) \<Rightarrow>
                    if parentPath \<noteq> newParentPath then SyncDirectory n sv lb js late pw newParentPath d3 w3
                    else (Inr (), d3, w3))))"

text \<open>The new index file goes to the directory's new path without SetInode, so the
  map has no entry for it before the syncs.\<close>

definition rename_inode ::
  "'w services \<Rightarrow> libs \<Rightarrow> json \<Rightarrow> (nat \<Rightarrow> bool) \<Rightarrow> Directory \<Rightarrow> string \<Rightarrow> string \<Rightarrow> string \<Rightarrow> 'w \<Rightarrow> unit result \<times> Directory \<times> 'w" where
  "rename_inode sv lb js late d path newPath pw w =
     (case GetInode sv lb js late d pw path w of
        (Inl e, d1, w1) \<Rightarrow> (Inl e, d1, w1)
      | (Inr a, d1, w1) \<Rightarrow>
          (case NowUnix sv w1 of (now, w2) \<Rightarrow>
           let d2 = change_inode a (set_place (path_Dir newPath) (path_Base newPath) now) d1;
               data = Marshal js (DInode (drHeap d2 a)) in
           case Upload sv lb late (drFile d2) [data] IndexFileName (of_nat (length data)) (of_nat MinBlockSize) 0
                  newPath ''gzip'' pw w2 of
             (Inl e, f, w3) \<Rightarrow> (Inl e, set_drFile f d2, w3)
           | (Inr u, f, w3) \<Rightarrow>
               (case RmFile sv f (CombinePathAndFile path IndexFileName) pw w3 of
                  (Inl e, f1, w4) \<Rightarrow> (Inl e, set_drFile f1 d2, w4)
                | (Inr u, f1, w4) \<Rightarrow> (Inr (), RemoveFromDirectoryMap path (set_drFile f1 d2), w4))))"

definition RenameDir ::
  "nat \<Rightarrow> 'w services \<Rightarrow> libs \<Rightarrow> json \<Rightarrow> (nat \<Rightarrow> bool) \<Rightarrow> Directory \<Rightarrow> string \<Rightarrow> string \<Rightarrow> string \<Rightarrow> 'w
    \<Rightarrow> unit result \<times> Directory \<times> 'w" where
  "RenameDir n sv lb js late d path newPath pw w =
     (case rename_checks (path_Base path) of
        Some e \<Rightarrow> (Inl e, d, w)
      | None \<Rightarrow>
          (case GetInode sv lb js late d pw path w of
             (Inl e, d1, w1) \<Rightarrow> (Inl (masked e ErrDirectoryNotPresent), d1, w1)
           | (Inr a, d1, w1) \<Rightarrow>
               (case GetInode sv lb js late d1 pw (path_Dir path) w1 of
                  (Inl e, d2, w2) \<Rightarrow> (Inl (masked e ErrDirectoryNotPresent), d2, w2)
                | (Inr pa, d2, w2) \<Rightarrow>
                    (case GetInode sv lb js late d2 pw newPath w2 of
                       (Inr na, d3, w3) \<Rightarrow> (Inl ErrDirectoryAlreadyPresent, d3, w3)
                     | (Inl e, d3, w3) \<Rightarrow>
                         if panicking e then (Inl e, d3, w3) else
                         (case mapChildrenToNewPath n sv lb js late pw path newPath d3 w3 of
                            (Inl e, d4, w4) \<Rightarrow> (Inl e, d4, w4)
                          | (Inr u, d4, w4) \<Rightarrow>
                              (case rename_inode sv lb js late d4 path newPath pw w4 of
                                 (Inl e, d5, w5) \<Rightarrow> (Inl e, d5, w5)
                               | (Inr u, d5, w5) \<Rightarrow>
                                   rename_entries n sv lb js late d5 (path_Dir path) (path_Base path)
                                     (path_Dir newPath) (path_Base newPath) pw w5))))))"

section \<open>Listing, stat and mode\<close>

record DirEntry =
  deName :: string
  deContentType :: string
  deCreationTime :: string
  deAccessTime :: string
  deModificationTime :: string
  deMode :: "32 word"

definition dir_entry :: "Inode \<Rightarrow> DirEntry" where
  "dir_entry i = \<lparr>deName = dName (iMeta i), deContentType = ''inode/directory'',
     deCreationTime = FormatInt (dCreationTime (iMeta i)), deAccessTime = FormatInt (dAccessTime (iMeta i)),
     deModificationTime = FormatInt (dModificationTime (iMeta i)), deMode = dMode (iMeta i)\<rparr>"

text \<open>The listing tasks of the child directories, one after the other in the order in which
  they end; a task that fails is only logged by the task manager.\<close>

primrec list_dirs ::
  "'w services \<Rightarrow> libs \<Rightarrow> json \<Rightarrow> (nat \<Rightarrow> bool) \<Rightarrow> string \<Rightarrow> string \<Rightarrow> string list \<Rightarrow> Directory \<Rightarrow> DirEntry list \<Rightarrow> 'w
    \<Rightarrow> DirEntry list result \<times> Directory \<times> 'w" where
  "list_dirs sv lb js late path pw [] d entries w = (Inr entries, d, w)"
| "list_dirs sv lb js late path pw (x # xs) d entries w =
     (let dirPath = CombinePathAndFile path (TrimPrefix x dir_mark) in
      case GetInode sv lb js late d pw dirPath w of
        (Inl e, d1, w1) \<Rightarrow>
          if panicking e then (Inl e, d1, w1)
          else list_dirs sv lb js late path pw xs d1 entries w1
      | (Inr a, d1, w1) \<Rightarrow>
          list_dirs sv lb js late path pw xs (AddToDirectoryMap dirPath a d1) (entries @ [dir_entry (drHeap d1 a)]) w1)"

definition child_dirs :: "string list \<Rightarrow> string list" where
  "child_dirs names = filter (\<lambda>x. HasPrefix x dir_mark) names"

definition child_files :: "string \<Rightarrow> string list \<Rightarrow> string list" where
  "child_files path names =
     map (\<lambda>x. CombinePathAndFile path (TrimPrefix x file_mark))
       (filter (\<lambda>x. \<not> HasPrefix x dir_mark \<and> HasPrefix x file_mark) names)"

text \<open>order gives, for the child directories, those whose task the task manager accepts in
  the order in which the tasks end; the files are in the order of the inode.\<close>

definition ListDir ::
  "'w services \<Rightarrow> libs \<Rightarrow> json \<Rightarrow> (nat \<Rightarrow> bool) \<Rightarrow> (string list \<Rightarrow> string list) \<Rightarrow> Directory \<Rightarrow> string \<Rightarrow> string \<Rightarrow> 'w
    \<Rightarrow> (DirEntry list \<times> string list) result \<times> Directory \<times> 'w" where
  "ListDir sv lb js late order d path pw w =
     (case GetInode sv lb js late d pw path w of
        (Inl e, d1, w1) \<Rightarrow> (Inl (masked e (Errorf ''list dir'')), d1, w1)
      | (Inr a, d1, w1) \<Rightarrow>
          let names = FileOrDirNames (drHeap d1 a) in
          (case list_dirs sv lb js late path pw (order (child_dirs names)) d1 [] w1 of
             (Inl e, d2, w2) \<Rightarrow> (Inl e, d2, w2)
           | (Inr entries, d2, w2) \<Rightarrow> (Inr (entries, child_files path names), d2, w2)))"

record DirStats =
  dsPodName :: string
  dsDirPath :: string
  dsDirName :: string
  dsMode :: "32 word"
  dsCreationTime :: string
  dsModificationTime :: string
  dsAccessTime :: string
  dsNoOfDirectories :: string
  dsNoOfFiles :: string

definition DirStat ::
  "'w services \<Rightarrow> libs \<Rightarrow> json \<Rightarrow> (nat \<Rightarrow> bool) \<Rightarrow> Directory \<Rightarrow> string \<Rightarrow> string \<Rightarrow> string \<Rightarrow> 'w \<Rightarrow> DirStats result \<times> Directory \<times> 'w" where
  "DirStat sv lb js late d podName pw path w =
     (case GetInode sv lb js late d pw path w of
        (Inl e, d1, w1) \<Rightarrow> (Inl e, d1, w1)
      | (Inr a, d1, w1) \<Rightarrow>
          let i = drHeap d1 a; meta = iMeta i;
              dirs = filter (\<lambda>k. HasPrefix k dir_mark) (FileOrDirNames i);
              files = filter (\<lambda>k. \<not> HasPrefix k dir_mark \<and> HasPrefix k file_mark) (FileOrDirNames i) in
          (Inr \<lparr>dsPodName = podName, dsDirPath = dPath meta, dsDirName = dName meta, dsMode = dMode meta,
                dsCreationTime = FormatInt (dCreationTime meta),
                dsModificationTime = FormatInt (dModificationTime meta),
                dsAccessTime = FormatInt (dAccessTime meta),
                dsNoOfDirectories = FormatInt (int (length dirs)), dsNoOfFiles = FormatInt (int (length files))\<rparr>, d1, w1))"

definition DirChmod ::
  "'w services \<Rightarrow> libs \<Rightarrow> json \<Rightarrow> (nat \<Rightarrow> bool) \<Rightarrow> Directory \<Rightarrow> string \<Rightarrow> string \<Rightarrow> 32 word \<Rightarrow> 'w \<Rightarrow> unit result \<times> Directory \<times> 'w" where
  "DirChmod sv lb js late d path pw mode w =
     (case GetInode sv lb js late d pw path w of
        (Inl e, d1, w1) \<Rightarrow> (Inl (masked e (Errorf ''dir chmod'')), d1, w1)
      | (Inr a, d1, w1) \<Rightarrow>
          (case NowUnix sv w1 of (now, w2) \<Rightarrow>
           SetInode sv lb js late
             (change_inode a (\<lambda>i. i\<lparr>iMeta := (iMeta i)\<lparr>dMode := or S_IFDIR mode, dAccessTime := now\<rparr>\<rparr>) d1) pw a w2))"

definition IsDirectoryPresent ::
  "'w services \<Rightarrow> libs \<Rightarrow> json \<Rightarrow> (nat \<Rightarrow> bool) \<Rightarrow> Directory \<Rightarrow> string \<Rightarrow> string \<Rightarrow> 'w \<Rightarrow> bool result \<times> Directory \<times> 'w" where
  "IsDirectoryPresent sv lb js late d path pw w =
     (case GetInode sv lb js late d pw path w of
        (Inl e, d1, w1) \<Rightarrow> (if panicking e then Inl e else Inr False, d1, w1)
      | (Inr a, d1, w1) \<Rightarrow> (Inr True, d1, w1))"

end
