(* ===== verification/DirProps.thy ===== *)
theory DirProps
  imports DirOps FileEdit
begin

text \<open>
  The directories of a pod as a tree of stored inodes.  inode_at says that an
  inode is stored at a path, no_dir that there is no directory, and dir_ok that
  what a Directory remembers (its file map and its inodes) is what is stored.
  The operations keep dir_ok and change the stored tree as they should.
\<close>

section \<open>Paths of index files\<close>

definition rooted :: "string \<Rightarrow> bool" where
  "rooted p \<longleftrightarrow> (\<exists>r. p = CHR ''/'' # r)"

definition index_path :: "string \<Rightarrow> string" where
  "index_path path = CombinePathAndFile path IndexFileName"

lemma TrimPrefix_slash [simp]: "TrimPrefix (CHR ''/'' # r) ''/'' = r"
  by (simp add: TrimPrefix_def)

lemma index_path_Cons:
  "index_path (CHR ''/'' # r) = (if r = [] then CHR ''/'' # IndexFileName else CHR ''/'' # r @ CHR ''/'' # IndexFileName)"
  by (simp add: index_path_def CombinePathAndFile_def IndexFileName_def TrimPrefix_def)

lemma rooted_Combine [simp]: "p = [] \<or> rooted p \<Longrightarrow> rooted (CombinePathAndFile p n)"
  by (auto simp: rooted_def CombinePathAndFile_def)

lemma rooted_inode_path: "rooted (inode_path i) \<or> dName (iMeta i) = [] \<and> \<not> rooted (dPath (iMeta i))"
  by (auto simp: inode_path_def rooted_def CombinePathAndFile_def)

lemma rooted_abs_path [simp]: "rooted (abs_path cs)"
  by (simp add: rooted_def abs_path_def)

lemma index_path_inj: "\<lbrakk>rooted p; rooted q; index_path p = index_path q\<rbrakk> \<Longrightarrow> p = q"
  by (auto simp: rooted_def index_path_Cons IndexFileName_def split: if_splits)

lemma index_path_again [simp]: "CombinePathAndFile (index_path p) [] = index_path p"
  by (auto simp: index_path_def CombinePathAndFile_def IndexFileName_def TrimPrefix_def)

lemma abs_path_snoc_ne: "n \<noteq> [] \<Longrightarrow> abs_path (cs @ [n]) \<noteq> abs_path cs"
  by (cases "cs = []") (auto dest: arg_cong [where f = length])

lemma Combine_abs:
  assumes "proper_name n" "list_all proper_name cs"
  shows "CombinePathAndFile (abs_path cs) n = abs_path (cs @ [n])"
proof (cases cs rule: rev_cases)
  case Nil
  with assms(1) show ?thesis
    by (cases n) (auto simp: CombinePathAndFile_def TrimPrefix_def proper_name_def)
next
  case (snoc ds d)
  then have d: "d \<noteq> []" using assms(2) by (simp add: proper_name_def)
  have "abs_path cs \<noteq> ''/''"
    using snoc d by (cases "ds = []") (auto simp: abs_path_def JoinChar_snoc)
  moreover obtain r where "abs_path cs = CHR ''/'' # r" by (auto simp: abs_path_def)
  moreover have "n \<noteq> []" "TrimPrefix n ''/'' = n"
    using assms(1) by (cases n; auto simp: proper_name_def TrimPrefix_def)+
  moreover have "cs \<noteq> []" using snoc by simp
  ultimately show ?thesis by (simp add: CombinePathAndFile_def)
qed

section \<open>Stored inodes\<close>

definition inode_at ::
  "'w services \<Rightarrow> libs \<Rightarrow> json \<Rightarrow> feedview \<Rightarrow> blobview \<Rightarrow> Address \<Rightarrow> string \<Rightarrow> string \<Rightarrow> Inode \<Rightarrow> bool" where
  "inode_at sv lb js fs V u pw path i \<longleftrightarrow>
     inode_path i = path \<and>
     (\<exists>m bs. file_at sv lb fs V u (index_path path) pw m bs \<and> InodeUnmarshal js (concat bs) = Inr i)"

definition no_dir :: "'w services \<Rightarrow> feedview \<Rightarrow> Address \<Rightarrow> string \<Rightarrow> string \<Rightarrow> bool" where
  "no_dir sv fs u pw path \<longleftrightarrow>
     fs (u, HashString sv (index_path path), bytes_of pw) \<in> {None, Some deleted_mark}
     \<and> fs (u, HashString sv path, bytes_of pw) \<in> {None, Some deleted_mark}"

text \<open>An inode that can be stored: it survives JSON, fits into one block, and its
  file's metadata fits into a chunk.\<close>

definition inode_fits :: "'w services \<Rightarrow> json \<Rightarrow> nat \<Rightarrow> string \<Rightarrow> Inode \<Rightarrow> bool" where
  "inode_fits sv js maxlen pw i \<longleftrightarrow>
     InodeUnmarshal js (Marshal js (DInode i)) = Inr i
     \<and> Marshal js (DInode i) \<noteq> [] \<and> length (Marshal js (DInode i)) \<le> MinBlockSize
     \<and> length (index_path (inode_path i)) \<le> maxlen
     \<and> (\<forall>m. fPath m = inode_path i \<and> fName m = IndexFileName \<longrightarrow> storable sv (bytes_of pw) (Doc (DFileMeta m)))"

text \<open>The times that the clock can show.\<close>

definition clock_time :: "'w services \<Rightarrow> int \<Rightarrow> bool" where
  "clock_time sv now \<longleftrightarrow> (\<exists>w w'. NowUnix sv w = (now, w'))"

lemma clock_timeI: "NowUnix sv w = (now, w') \<Longrightarrow> clock_time sv now"
  by (auto simp: clock_time_def)

lemma clock_time_ex: obtains now where "clock_time sv now"
proof -
  obtain now w' where "NowUnix sv undefined = (now, w')" by fastforce
  then show thesis by (rule that [OF clock_timeI])
qed

text \<open>The inodes in X are in memory only, or newer there.\<close>

definition dir_inv ::
  "'w services \<Rightarrow> libs \<Rightarrow> json \<Rightarrow> nat \<Rightarrow> feedview \<Rightarrow> blobview \<Rightarrow> string \<Rightarrow> nat set \<Rightarrow> Directory \<Rightarrow> bool" where
  "dir_inv sv lb js maxlen fs V pw X d \<longleftrightarrow>
     flUser (drFile d) = drUser d
     \<and> (\<forall>p m. flMap (drFile d) p = Some m \<longrightarrow>
          length p \<le> maxlen \<and> Option.bind (fs (drUser d, HashString sv p, bytes_of pw)) json_meta = Some m)
     \<and> (\<forall>p a. drMap d p = Some a \<longrightarrow>
          a < drNext d \<and> rooted p \<and> inode_path (drHeap d a) = p \<and> length (index_path p) \<le> maxlen
          \<and> (a \<notin> X \<longrightarrow> inode_at sv lb js fs V (drUser d) pw p (drHeap d a)))"

abbreviation dir_ok where
  "dir_ok sv lb js maxlen fs V pw d \<equiv> dir_inv sv lb js maxlen fs V pw {} d"

lemma file_at_mono:
  "\<lbrakk>file_at sv lb fs V u path pw m bs; V \<subseteq>\<^sub>m V';
    fs' (u, HashString sv path, bytes_of pw) = fs (u, HashString sv path, bytes_of pw)\<rbrakk>
   \<Longrightarrow> file_at sv lb fs' V' u path pw m bs"
  unfolding file_at_def using blocks_at_mono map_le_def by (metis domI)

lemma inode_at_mono:
  "\<lbrakk>inode_at sv lb js fs V u pw path i; V \<subseteq>\<^sub>m V';
    fs' (u, HashString sv (index_path path), bytes_of pw) = fs (u, HashString sv (index_path path), bytes_of pw)\<rbrakk>
   \<Longrightarrow> inode_at sv lb js fs' V' u pw path i"
  unfolding inode_at_def using file_at_mono by metis

lemma blocks_at_unique:
  assumes "blocks_at lb V cmp blocks bs" "blocks_at lb V cmp blocks bs'" shows "bs = bs'"
proof (rule nth_equalityI)
  show "length bs = length bs'" using assms by (simp add: blocks_at_def)
  fix i assume "i < length bs"
  with assms show "bs ! i = bs' ! i" unfolding blocks_at_def by (metis option.inject content.inject(1) sum.inject(2))
qed

lemma file_at_unique:
  "\<lbrakk>file_at sv lb fs V u path pw m bs; file_at sv lb fs V u path pw m' bs'\<rbrakk> \<Longrightarrow> m' = m \<and> bs' = bs"
  by (auto simp: file_at_def intro: blocks_at_unique)

lemma inode_at_unique:
  "\<lbrakk>inode_at sv lb js fs V u pw path i; inode_at sv lb js fs V u pw path j\<rbrakk> \<Longrightarrow> i = j"
  by (auto simp: inode_at_def dest: file_at_unique)

lemma inode_at_topic: "inode_at sv lb js fs V u pw path i \<Longrightarrow> file_topic_ok fs sv u (index_path path) pw"
  by (auto simp: inode_at_def file_at_def file_topic_ok_def)

lemma no_dir_topic: "no_dir sv fs u pw path \<Longrightarrow> file_topic_ok fs sv u (index_path path) pw"
  by (auto simp: no_dir_def file_topic_ok_def)

definition grows :: "Directory \<Rightarrow> Directory \<Rightarrow> bool" where
  "grows d d' \<longleftrightarrow> dom (drMap d) \<subseteq> dom (drMap d') \<and> dom (flMap (drFile d)) \<subseteq> dom (flMap (drFile d')) \<and> drUser d' = drUser d"

lemma grows_trans: "\<lbrakk>grows d d'; grows d' d''\<rbrakk> \<Longrightarrow> grows d d''"
  unfolding grows_def by (metis subset_trans)

lemma dir_inv_mono: "\<lbrakk>dir_inv sv lb js maxlen fs V pw X d; X \<subseteq> Y\<rbrakk> \<Longrightarrow> dir_inv sv lb js maxlen fs V pw Y d"
  unfolding dir_inv_def by blast

context storage
begin

lemma SetInode_ok:
  assumes b: "inv (b + 3) w" and ok: "dir_inv sv lb js maxlen (feeds w) (blobs w) pw (insert a X) d"
    and a: "a < drNext d" and fit: "inode_fits sv js maxlen pw (drHeap d a)" and r: "rooted (inode_path (drHeap d a))"
    and t: "file_topic_ok (feeds w) sv (drUser d) (index_path (inode_path (drHeap d a))) pw"
    and cd: "codec_ok lb ''gzip'' MinBlockSize"
  obtains w' d' where "SetInode sv lb js late d pw a w = (Inr (), d', w')" "inv b w'"
    "dir_inv sv lb js maxlen (feeds w') (blobs w') pw X d'"
    "drUser d' = drUser d" "drHeap d' = drHeap d" "drNext d' = drNext d"
    "drMap d' = (drMap d)(inode_path (drHeap d a) \<mapsto> a)"
    "inode_at sv lb js (feeds w') (blobs w') (drUser d) pw (inode_path (drHeap d a)) (drHeap d a)"
    "blobs w \<subseteq>\<^sub>m blobs w'"
    "\<And>u' t p. (u', t) \<noteq> (drUser d, HashString sv (index_path (inode_path (drHeap d a)))) \<Longrightarrow>
       feeds w' (u', t, p) = feeds w (u', t, p)"
proof -
  define i p where "i = drHeap d a" and "p = inode_path i"
  let ?data = "Marshal js (DInode i)"
  have f: "InodeUnmarshal js ?data = Inr i" "?data \<noteq> []" "length ?data \<le> MinBlockSize" "length (index_path p) \<le> maxlen"
    "\<And>m. fPath m = p \<and> fName m = IndexFileName \<Longrightarrow> storable sv (bytes_of pw) (Doc (DFileMeta m))"
    using fit by (auto simp: inode_fits_def i_def p_def)
  have B: "unat (of_nat MinBlockSize :: 32 word) = MinBlockSize" by (simp add: MinBlockSize_def)
  have cd': "codec_ok lb ''gzip'' (unat (of_nat MinBlockSize :: 32 word))" unfolding B by (rule cd)
  have sr: "source_reads MinBlockSize [?data] = [?data]" using f(2,3) by simp
  have len: "unat (of_nat (length ?data) :: 64 word) = length ?data"
    using f(3) by (simp add: unat_of_nat take_bit_nat_eq_self MinBlockSize_def)
  have fu: "flUser (drFile d) = drUser d" using ok by (simp add: dir_inv_def)
  have 1: "inv (b + length (source_reads (unat (of_nat MinBlockSize :: 32 word)) [?data]) + 2) w"
    unfolding B sr using b by (simp add: numeral_3_eq_3)
  have ch: "chunked (unat (of_nat MinBlockSize :: 32 word)) (source_reads (unat (of_nat MinBlockSize :: 32 word)) [?data])"
    unfolding B using f(2) by (intro source_reads_full) (simp_all add: MinBlockSize_def)
  have t': "file_topic_ok (feeds w) sv (flUser (drFile d)) (index_path p) pw" using t fu by (simp add: p_def i_def)
  obtain m w' where u: "Upload sv lb late (drFile d) [?data] IndexFileName (of_nat (length ?data)) (of_nat MinBlockSize) 0 p ''gzip'' pw w
      = (Inr (), AddToFileMap (index_path p) m (drFile d), w')" "inv b w'" "blobs w \<subseteq>\<^sub>m blobs w'"
    "file_at sv lb (feeds w') (blobs w') (flUser (drFile d)) (index_path p) pw m
       (source_reads (unat (of_nat MinBlockSize :: 32 word)) [?data])"
    "feed_written (feeds w) (feeds w') (flUser (drFile d)) (HashString sv (index_path p)) (bytes_of pw) (Doc (DFileMeta m))"
    by (rule Upload_ok [OF 1 _ _ ch _ cd' index_path_def f(4) t' f(5), where mode = 0 and late = late and fileSize = "of_nat (length ?data)"])
       (simp_all add: B len MaxBlockSize_def MinBlockSize_def)
  define d' where "d' = AddToDirectoryMap p a (set_drFile (AddToFileMap (index_path p) m (drFile d)) d)"
  have run: "SetInode sv lb js late d pw a w = (Inr (), d', w')"
    using u(1) by (simp add: SetInode_def Let_def d'_def i_def p_def)
  have fr: "feeds w' (u', t, q) = feeds w (u', t, q)" if "(u', t) \<noteq> (drUser d, HashString sv (index_path p))" for u' t q
    using feed_writtenD(2) [OF u(5)] that fu by simp
  have at: "inode_at sv lb js (feeds w') (blobs w') (drUser d) pw p i"
    using u(4) [unfolded B sr fu] f(1) by (auto simp: inode_at_def p_def intro!: exI [of _ "[Marshal js (DInode i)]"])
  have other: "inode_at sv lb js (feeds w') (blobs w') (drUser d) pw q j"
    if "inode_at sv lb js (feeds w) (blobs w) (drUser d) pw q j" "rooted q" "length (index_path q) \<le> maxlen" "q \<noteq> p" for q j
  proof (rule inode_at_mono [OF that(1) u(3)])
    have "index_path q \<noteq> index_path p" using index_path_inj [OF that(2)] r that(4) by (auto simp: p_def i_def)
    then have "HashString sv (index_path q) \<noteq> HashString sv (index_path p)" using hash_inj [OF that(3) f(4)] by blast
    then show "feeds w' (drUser d, HashString sv (index_path q), bytes_of pw) = feeds w (drUser d, HashString sv (index_path q), bytes_of pw)"
      by (simp add: fr)
  qed
  have ok': "dir_inv sv lb js maxlen (feeds w') (blobs w') pw X d'"
    unfolding dir_inv_def
  proof (intro conjI allI impI)
    show "flUser (drFile d') = drUser d'" using fu by (simp add: d'_def AddToDirectoryMap_def AddToFileMap_def)
  next
    fix q n assume q: "flMap (drFile d') q = Some n"
    have "length q \<le> maxlen \<and> Option.bind (feeds w' (drUser d, HashString sv q, bytes_of pw)) json_meta = Some n"
    proof (cases "q = index_path p")
      case True
      then show ?thesis using q f(4) feed_writtenD(1) [OF u(5)] fu
        by (simp add: d'_def AddToDirectoryMap_def AddToFileMap_def)
    next
      case False
      then have "flMap (drFile d) q = Some n" using q by (simp add: d'_def AddToDirectoryMap_def AddToFileMap_def)
      then have l: "length q \<le> maxlen" "Option.bind (feeds w (drUser d, HashString sv q, bytes_of pw)) json_meta = Some n"
        using ok by (auto simp: dir_inv_def)
      have "HashString sv q \<noteq> HashString sv (index_path p)" using hash_inj [OF l(1) f(4)] False by blast
      with l show ?thesis by (simp add: fr)
    qed
    then show "length q \<le> maxlen" "Option.bind (feeds w' (drUser d', HashString sv q, bytes_of pw)) json_meta = Some n"
      by (simp_all add: d'_def AddToDirectoryMap_def)
  next
    fix q c assume q: "drMap d' q = Some c"
    have all: "c < drNext d \<and> rooted q \<and> inode_path (drHeap d c) = q \<and> length (index_path q) \<le> maxlen
        \<and> (c \<notin> X \<longrightarrow> inode_at sv lb js (feeds w') (blobs w') (drUser d) pw q (drHeap d c))"
    proof (cases "q = p")
      case True
      then have "c = a" using q by (simp add: d'_def AddToDirectoryMap_def)
      with True a r f(4) at show ?thesis by (simp add: i_def p_def)
    next
      case False
      then have "drMap d q = Some c" using q by (simp add: d'_def AddToDirectoryMap_def)
      then have l: "c < drNext d" "rooted q" "inode_path (drHeap d c) = q" "length (index_path q) \<le> maxlen"
        "c \<notin> insert a X \<longrightarrow> inode_at sv lb js (feeds w) (blobs w) (drUser d) pw q (drHeap d c)"
        using ok by (auto simp: dir_inv_def)
      have "c \<noteq> a" using l(3) False by (auto simp: p_def i_def)
      with l False other show ?thesis by simp
    qed
    then show "c < drNext d'" "rooted q" "inode_path (drHeap d' c) = q" "length (index_path q) \<le> maxlen"
      "c \<notin> X \<Longrightarrow> inode_at sv lb js (feeds w') (blobs w') (drUser d') pw q (drHeap d' c)"
      by (simp_all add: d'_def AddToDirectoryMap_def)
  qed
  show thesis
    by (rule that [OF run u(2) ok'])
       (use at u(3) fr in \<open>simp_all add: d'_def AddToDirectoryMap_def i_def p_def\<close>)
qed

lemma GetInode_cached:
  assumes "dir_ok sv lb js maxlen (feeds w) (blobs w) pw d" "drMap d path = Some a"
  shows "GetInode sv lb js late d pw path w = (Inr a, d, w)"
    "inode_at sv lb js (feeds w) (blobs w) (drUser d) pw path (drHeap d a)" "a < drNext d"
  using assms by (auto simp: GetInode_def GetDirFromDirectoryMap_def dir_inv_def)

lemma GetInode_found:
  assumes b: "inv b w" and ok: "dir_ok sv lb js maxlen (feeds w) (blobs w) pw d"
    and at: "inode_at sv lb js (feeds w) (blobs w) (drUser d) pw path i"
    and p: "rooted path" "length (index_path path) \<le> maxlen" and caps: "caps_ok lb"
  obtains a d' w' where "GetInode sv lb js late d pw path w = (Inr a, d', w')" "inv b w'" "feeds w' = feeds w"
    "blobs w' = blobs w" "dir_ok sv lb js maxlen (feeds w) (blobs w) pw d'" "drHeap d' a = i" "drMap d' path = Some a"
    "a < drNext d'" "drUser d' = drUser d" "grows d d'"
proof (cases "drMap d path")
  case (Some a)
  note c = GetInode_cached [OF ok Some]
  have "drHeap d a = i" using inode_at_unique [OF c(2) at] .
  with that [of a d w] c b ok Some show thesis by (simp add: grows_def)
next
  case None
  obtain m bs where m: "file_at sv lb (feeds w) (blobs w) (drUser d) (index_path path) pw m bs"
    "InodeUnmarshal js (concat bs) = Inr i" "inode_path i = path"
    using at by (auto simp: inode_at_def)
  have fu: "flUser (drFile d) = drUser d" using ok by (simp add: dir_inv_def)
  have fm: "flMap (drFile d) (index_path path) \<in> {None, Some m}"
  proof (cases "flMap (drFile d) (index_path path)")
    case (Some n)
    then have "Option.bind (feeds w (drUser d, HashString sv (index_path path), bytes_of pw)) json_meta = Some n"
      using ok by (simp add: dir_inv_def)
    with m(1) Some show ?thesis by (simp add: file_at_def)
  qed simp
  obtain r w1 where dl: "Download sv (drFile d) (index_path path) pw w
        = (Inr (r, length (concat bs)), AddToFileMap (index_path path) m (drFile d), w1)"
    "\<And>n. length (concat bs) < n \<Longrightarrow> \<exists>r' w''. read_all n sv lb 0 [] r w1 = (Inr (concat bs), r', w'') \<and> inv b w''
       \<and> feeds w'' = feeds w \<and> blobs w'' = blobs w"
    by (rule Download_ok [OF b _ caps index_path_again fm]) (use m(1) fu in auto)
  from dl(2) [of "Suc (length (concat bs))"] obtain r' w2 where
    ra: "read_all (Suc (length (concat bs))) sv lb 0 [] r w1 = (Inr (concat bs), r', w2)" "inv b w2"
      "feeds w2 = feeds w" "blobs w2 = blobs w" by (auto simp del: read_all.simps)
  define a where "a = drNext d"
  define d' where "d' = AddToDirectoryMap path a (snd (new_inode i (set_drFile (AddToFileMap (index_path path) m (drFile d)) d)))"
  have run: "GetInode sv lb js late d pw path w = (Inr a, d', w2)"
    using None dl(1) ra(1) m(2)
    by (simp add: GetInode_def GetDirFromDirectoryMap_def index_path_def [symmetric] new_inode_def d'_def a_def
        del: read_all.simps)
  have d'_simps: "drUser d' = drUser d" "drFile d' = AddToFileMap (index_path path) m (drFile d)"
    "drHeap d' = (drHeap d)(a := i)" "drNext d' = Suc a" "drMap d' = (drMap d)(path \<mapsto> a)"
    by (simp_all add: d'_def AddToDirectoryMap_def new_inode_def a_def)
  have ok': "dir_ok sv lb js maxlen (feeds w) (blobs w) pw d'"
    unfolding dir_inv_def
  proof (intro conjI allI impI)
    show "flUser (drFile d') = drUser d'" using fu by (simp add: d'_simps AddToFileMap_def)
  next
    fix q n assume "flMap (drFile d') q = Some n"
    then have "q = index_path path \<and> n = m \<or> flMap (drFile d) q = Some n"
      by (auto simp: d'_simps AddToFileMap_def split: if_splits)
    with ok m(1) p(2) show "length q \<le> maxlen" "Option.bind (feeds w (drUser d', HashString sv q, bytes_of pw)) json_meta = Some n"
      by (auto simp: d'_simps dir_inv_def file_at_def)
  next
    fix q c assume q: "drMap d' q = Some c"
    have "c < Suc a \<and> rooted q \<and> inode_path (drHeap d' c) = q \<and> length (index_path q) \<le> maxlen
        \<and> inode_at sv lb js (feeds w) (blobs w) (drUser d) pw q (drHeap d' c)"
    proof (cases "q = path")
      case True
      with q p at m(3) show ?thesis by (simp add: d'_simps)
    next
      case False
      then have "drMap d q = Some c" using q by (simp add: d'_simps)
      then have l: "c < drNext d" "rooted q" "inode_path (drHeap d c) = q" "length (index_path q) \<le> maxlen"
        "inode_at sv lb js (feeds w) (blobs w) (drUser d) pw q (drHeap d c)" using ok by (auto simp: dir_inv_def)
      moreover have "c \<noteq> a" using l(1) by (simp add: a_def)
      ultimately show ?thesis by (simp add: d'_simps a_def)
    qed
    then show "c < drNext d'" "rooted q" "inode_path (drHeap d' c) = q" "length (index_path q) \<le> maxlen"
      "inode_at sv lb js (feeds w) (blobs w) (drUser d') pw q (drHeap d' c)" by (simp_all add: d'_simps)
  qed
  show thesis by (rule that [OF run ra(2-4) ok']) (auto simp: d'_simps grows_def AddToFileMap_def)
qed

lemma GetInode_ok:
  assumes b: "inv b w" and ok: "dir_ok sv lb js maxlen (feeds w) (blobs w) pw d"
    and at: "inode_at sv lb js (feeds w) (blobs w) (drUser d) pw path i"
    and p: "rooted path" "length (index_path path) \<le> maxlen" and caps: "caps_ok lb"
  obtains a d' w' where "GetInode sv lb js late d pw path w = (Inr a, d', w')" "inv b w'" "feeds w' = feeds w"
    "blobs w' = blobs w" "dir_ok sv lb js maxlen (feeds w) (blobs w) pw d'" "drHeap d' a = i" "drMap d' path = Some a"
    "a < drNext d'" "drUser d' = drUser d"
  by (rule GetInode_found [OF b ok at p caps, where late = late]) (rule that)

lemma GetInode_absent:
  assumes b: "inv b w" and ok: "dir_ok sv lb js maxlen (feeds w) (blobs w) pw d"
    and no: "no_dir sv (feeds w) (drUser d) pw path"
  obtains e w' where "GetInode sv lb js late d pw path w = (Inl e, d, w')" "\<not> panicking e" "inv b w'"
    "feeds w' = feeds w" "blobs w' = blobs w"
proof -
  have fu: "flUser (drFile d) = drUser d" using ok by (simp add: dir_inv_def)
  let ?k = "(drUser d, HashString sv (index_path path), bytes_of pw)"
  have k: "feeds w ?k \<in> {None, Some deleted_mark}" using no by (simp add: no_dir_def)
  have fm: "flMap (drFile d) (index_path path) = None"
  proof (cases "flMap (drFile d) (index_path path)")
    case (Some n)
    then have "Option.bind (feeds w ?k) json_meta = Some n" using ok by (simp add: dir_inv_def)
    with k show ?thesis by (auto simp: deleted_mark_def)
  qed
  have dm: "drMap d path = None"
  proof (cases "drMap d path")
    case (Some a)
    then obtain m bs where "file_at sv lb (feeds w) (blobs w) (drUser d) (index_path path) pw m bs"
      using GetInode_cached(2) [OF ok Some] by (auto simp: inode_at_def)
    with k show ?thesis by (simp add: file_at_def deleted_mark_def)
  qed
  obtain g w1 where g: "GetFeedData sv (HashString sv (index_path path)) (drUser d) (bytes_of pw) w = (g, w1)" by fastforce
  from get_feed [OF b g] have 1: "inv b w1" "feeds w1 = feeds w" "blobs w1 = blobs w" by auto
  have fi: "FileGetInode sv (drFile d) pw (index_path path) w = (None, drFile d, w1)"
    using get_feed [OF b g] k fm g fu by (auto simp: FileGetInode_def GetFromFileMap_def)
  obtain h w2 where h: "GetFeedData sv (HashString sv path) (drUser d) (bytes_of pw) w1 = (h, w2)" by fastforce
  from get_feed [OF 1(1) h] 1 have 2: "inv b w2" "feeds w2 = feeds w" "blobs w2 = blobs w" by auto
  have dl: "Download sv (drFile d) (index_path path) pw w = (Inl ErrFileNotFound, drFile d, w1)"
    using fi by (simp add: Download_def ReadSeeker_def)
  have "\<exists>e. GetInode sv lb js late d pw path w = (Inl e, d, w2) \<and> \<not> panicking e"
  proof (cases "feeds w (drUser d, HashString sv path, bytes_of pw)")
    case None
    then obtain e where "h = Inl e" using get_feed [OF 1(1) h] 1(2) by auto
    then show ?thesis using dm dl h by (simp add: GetInode_def GetDirFromDirectoryMap_def index_path_def [symmetric])
  next
    case (Some c)
    then have "c = deleted_mark" using no by (simp add: no_dir_def)
    then obtain adr where "h = Inr (adr, deleted_mark)" using get_feed [OF 1(1) h] 1(2) Some by auto
    then show ?thesis using dm dl h
      by (simp add: GetInode_def GetDirFromDirectoryMap_def index_path_def [symmetric] inode_of_feed_def)
  qed
  with that 2 show thesis by blast
qed

lemma new_inode_ok:
  assumes "dir_ok sv lb js maxlen fs V pw d" "new_inode i d = (a, d')"
  shows "drHeap d' a = i" "a < drNext d'" "drUser d' = drUser d" "dir_inv sv lb js maxlen fs V pw (insert a {}) d'"
proof -
  have d': "a = drNext d" "d' = d\<lparr>drHeap := (drHeap d)(drNext d := i), drNext := Suc (drNext d)\<rparr>"
    using assms(2) by (auto simp: new_inode_def)
  then show "drHeap d' a = i" "a < drNext d'" "drUser d' = drUser d" by simp_all
  have "c < drNext d" if "drMap d p = Some c" for p c using assms(1) that by (auto simp: dir_inv_def)
  then have "c \<noteq> drNext d \<and> c < Suc (drNext d)" if "drMap d p = Some c" for p c using that by fastforce
  then show "dir_inv sv lb js maxlen fs V pw (insert a {}) d'" using assms(1) by (simp add: d' dir_inv_def)
qed

lemma change_inode_inv:
  assumes "dir_ok sv lb js maxlen fs V pw d" "inode_path (g (drHeap d a)) = inode_path (drHeap d a)"
  shows "dir_inv sv lb js maxlen fs V pw {a} (change_inode a g d)"
  using assms by (auto simp: dir_inv_def change_inode_def)

text \<open>Changing one inode in memory and storing it.\<close>

lemma update_inode_ok:
  assumes b: "inv (b + 3) w" and ok: "dir_ok sv lb js maxlen (feeds w) (blobs w) pw d"
    and at: "inode_at sv lb js (feeds w) (blobs w) (drUser d) pw path i"
    and p: "rooted path" "length (index_path path) \<le> maxlen" and caps: "caps_ok lb" and cd: "codec_ok lb ''gzip'' MinBlockSize"
    and g: "\<And>now. inode_path (g now i) = path" "\<And>now. clock_time sv now \<Longrightarrow> inode_fits sv js maxlen pw (g now i)"
  obtains a d1 w1 now w2 d' w' where "GetInode sv lb js late d pw path w = (Inr a, d1, w1)" "NowUnix sv w1 = (now, w2)"
    "SetInode sv lb js late (change_inode a (g now) d1) pw a w2 = (Inr (), d', w')"
    "inv b w'" "dir_ok sv lb js maxlen (feeds w') (blobs w') pw d'" "drUser d' = drUser d"
    "inode_at sv lb js (feeds w') (blobs w') (drUser d) pw path (g now i)" "blobs w \<subseteq>\<^sub>m blobs w'"
    "\<And>u' t p. (u', t) \<noteq> (drUser d, HashString sv (index_path path)) \<Longrightarrow> feeds w' (u', t, p) = feeds w (u', t, p)"
proof -
  obtain a d1 w1 where 1: "GetInode sv lb js late d pw path w = (Inr a, d1, w1)" "inv (b + 3) w1" "feeds w1 = feeds w"
    "blobs w1 = blobs w" "dir_ok sv lb js maxlen (feeds w) (blobs w) pw d1" "drHeap d1 a = i" "drMap d1 path = Some a"
    "a < drNext d1" "drUser d1 = drUser d" by (rule GetInode_ok [OF b ok at p caps, where late = late])
  obtain now w2 where n: "NowUnix sv w1 = (now, w2)" by fastforce
  from clock [OF 1(2) n] 1 have 2: "inv (b + 3) w2" "feeds w2 = feeds w" "blobs w2 = blobs w" by auto
  let ?d = "change_inode a (g now) d1"
  have pi: "inode_path i = path" using at by (simp add: inode_at_def)
  have h: "drHeap ?d a = g now i" "drUser ?d = drUser d" "drNext ?d = drNext d1"
    using 1 by (simp_all add: change_inode_def)
  have ok2: "dir_inv sv lb js maxlen (feeds w2) (blobs w2) pw (insert a {}) ?d"
    using change_inode_inv [OF 1(5), where g = "g now" and a = a] 1(6) g(1) pi 2 by simp
  have fit: "inode_fits sv js maxlen pw (drHeap ?d a)" unfolding h by (rule g(2) [OF clock_timeI [OF n]])
  have rt: "rooted (inode_path (drHeap ?d a))" unfolding h g(1) by (rule p(1))
  have tp: "file_topic_ok (feeds w2) sv (drUser ?d) (index_path (inode_path (drHeap ?d a))) pw"
    unfolding h g(1) 2 by (rule inode_at_topic [OF at])
  show thesis
    by (rule SetInode_ok [OF 2(1) ok2 _ fit rt tp cd, where late = late])
       (use 1(1,8) n that h g(1) 2 in \<open>simp_all\<close>)
qed

lemma AddEntryToDir_ok:
  assumes b: "inv (b + 3) w" and ok: "dir_ok sv lb js maxlen (feeds w) (blobs w) pw d"
    and at: "inode_at sv lb js (feeds w) (blobs w) (drUser d) pw path i"
    and p: "rooted path" "length (index_path path) \<le> maxlen" and caps: "caps_ok lb" and cd: "codec_ok lb ''gzip'' MinBlockSize"
    and item: "item \<noteq> []"
    and fit: "\<And>now. clock_time sv now \<Longrightarrow> inode_fits sv js maxlen pw
      (set_modified now (i\<lparr>FileOrDirNames := FileOrDirNames i @ [entry_name item isFile]\<rparr>))"
  obtains now d' w' where "AddEntryToDir sv lb js late d path pw item isFile w = (Inr (), d', w')"
    "inv b w'" "dir_ok sv lb js maxlen (feeds w') (blobs w') pw d'" "drUser d' = drUser d"
    "inode_at sv lb js (feeds w') (blobs w') (drUser d) pw path
       (set_modified now (i\<lparr>FileOrDirNames := FileOrDirNames i @ [entry_name item isFile]\<rparr>))"
    "blobs w \<subseteq>\<^sub>m blobs w'"
    "\<And>u' t p. (u', t) \<noteq> (drUser d, HashString sv (index_path path)) \<Longrightarrow> feeds w' (u', t, p) = feeds w (u', t, p)"
    "clock_time sv now"
proof -
  let ?g = "\<lambda>now i. set_modified now (i\<lparr>FileOrDirNames := FileOrDirNames i @ [entry_name item isFile]\<rparr>)"
  have ne: "path \<noteq> []" using p(1) by (auto simp: rooted_def)
  have gp: "inode_path (?g now i) = path" for now using at by (simp add: inode_at_def set_modified_def inode_path_def)
  obtain a d1 w1 now w2 d' w' where u: "GetInode sv lb js late d pw path w = (Inr a, d1, w1)" "NowUnix sv w1 = (now, w2)"
    "SetInode sv lb js late (change_inode a (?g now) d1) pw a w2 = (Inr (), d', w')"
    "inv b w'" "dir_ok sv lb js maxlen (feeds w') (blobs w') pw d'" "drUser d' = drUser d"
    "inode_at sv lb js (feeds w') (blobs w') (drUser d) pw path (?g now i)" "blobs w \<subseteq>\<^sub>m blobs w'"
    "\<And>u' t p. (u', t) \<noteq> (drUser d, HashString sv (index_path path)) \<Longrightarrow> feeds w' (u', t, p) = feeds w (u', t, p)"
    by (rule update_inode_ok [OF b ok at p caps cd, where g = ?g and late = late, OF gp fit]) (assumption, rule that)
  show thesis
    by (rule that [OF _ u(4-9) clock_timeI [OF u(2)]]) (use ne item u(1-3) in \<open>simp_all add: AddEntryToDir_def\<close>)
qed

lemma RemoveEntryFromDir_ok:
  assumes b: "inv (b + 3) w" and ok: "dir_ok sv lb js maxlen (feeds w) (blobs w) pw d"
    and at: "inode_at sv lb js (feeds w) (blobs w) (drUser d) pw path i"
    and p: "rooted path" "length (index_path path) \<le> maxlen" and caps: "caps_ok lb" and cd: "codec_ok lb ''gzip'' MinBlockSize"
    and item: "item \<noteq> []"
    and fit: "\<And>now. clock_time sv now \<Longrightarrow> inode_fits sv js maxlen pw
      (set_modified now (i\<lparr>FileOrDirNames := filter (\<lambda>x. x \<noteq> entry_name item isFile) (FileOrDirNames i)\<rparr>))"
  obtains now d' w' where "RemoveEntryFromDir sv lb js late d path pw item isFile w = (Inr (), d', w')"
    "inv b w'" "dir_ok sv lb js maxlen (feeds w') (blobs w') pw d'" "drUser d' = drUser d"
    "inode_at sv lb js (feeds w') (blobs w') (drUser d) pw path
       (set_modified now (i\<lparr>FileOrDirNames := filter (\<lambda>x. x \<noteq> entry_name item isFile) (FileOrDirNames i)\<rparr>))"
    "blobs w \<subseteq>\<^sub>m blobs w'"
    "\<And>u' t p. (u', t) \<noteq> (drUser d, HashString sv (index_path path)) \<Longrightarrow> feeds w' (u', t, p) = feeds w (u', t, p)"
    "clock_time sv now"
proof -
  let ?g = "\<lambda>now i. set_modified now (i\<lparr>FileOrDirNames := filter (\<lambda>x. x \<noteq> entry_name item isFile) (FileOrDirNames i)\<rparr>)"
  have ne: "path \<noteq> []" using p(1) by (auto simp: rooted_def)
  have gp: "inode_path (?g now i) = path" for now using at by (simp add: inode_at_def set_modified_def inode_path_def)
  obtain a d1 w1 now w2 d' w' where u: "GetInode sv lb js late d pw path w = (Inr a, d1, w1)" "NowUnix sv w1 = (now, w2)"
    "SetInode sv lb js late (change_inode a (?g now) d1) pw a w2 = (Inr (), d', w')"
    "inv b w'" "dir_ok sv lb js maxlen (feeds w') (blobs w') pw d'" "drUser d' = drUser d"
    "inode_at sv lb js (feeds w') (blobs w') (drUser d) pw path (?g now i)" "blobs w \<subseteq>\<^sub>m blobs w'"
    "\<And>u' t p. (u', t) \<noteq> (drUser d, HashString sv (index_path path)) \<Longrightarrow> feeds w' (u', t, p) = feeds w (u', t, p)"
    by (rule update_inode_ok [OF b ok at p caps cd, where g = ?g and late = late, OF gp fit]) (assumption, rule that)
  show thesis
    by (rule that [OF _ u(4-9) clock_timeI [OF u(2)]]) (use ne item u(1-3) in \<open>simp_all add: RemoveEntryFromDir_def\<close>)
qed

lemma MkDir_ok:
  fixes cs n parent path
  defines "parent \<equiv> abs_path cs" and "path \<equiv> abs_path (cs @ [n])"
  assumes b: "inv (b + 6) w" and ok: "dir_ok sv lb js maxlen (feeds w) (blobs w) pw d"
    and names: "list_all proper_name cs" "proper_name n" "length n \<le> nameLength"
    and at: "inode_at sv lb js (feeds w) (blobs w) (drUser d) pw parent i"
    and no: "no_dir sv (feeds w) (drUser d) pw path"
    and caps: "caps_ok lb" and cd: "codec_ok lb ''gzip'' MinBlockSize"
    and fit1: "\<And>now. clock_time sv now \<Longrightarrow> inode_fits sv js maxlen pw
      \<lparr>iMeta = dir_meta parent n now (if mode = 0 then or S_IFDIR dirDefaultMode else mode), FileOrDirNames = []\<rparr>"
    and fit2: "\<And>now. clock_time sv now \<Longrightarrow> inode_fits sv js maxlen pw
      (set_modified now (i\<lparr>FileOrDirNames := FileOrDirNames i @ [entry_name n False]\<rparr>))"
  obtains t1 t2 d' w' where "MkDir sv lb js late d path pw mode w = (Inr (), d', w')" "inv b w'"
    "dir_ok sv lb js maxlen (feeds w') (blobs w') pw d'" "drUser d' = drUser d"
    "inode_at sv lb js (feeds w') (blobs w') (drUser d) pw path
       \<lparr>iMeta = dir_meta parent n t1 (if mode = 0 then or S_IFDIR dirDefaultMode else mode), FileOrDirNames = []\<rparr>"
    "inode_at sv lb js (feeds w') (blobs w') (drUser d) pw parent
       (set_modified t2 (i\<lparr>FileOrDirNames := FileOrDirNames i @ [entry_name n False]\<rparr>))"
    "blobs w \<subseteq>\<^sub>m blobs w'"
    "\<And>u' t p. (u', t) \<notin> {(drUser d, HashString sv (index_path path)), (drUser d, HashString sv (index_path parent))}
       \<Longrightarrow> feeds w' (u', t, p) = feeds w (u', t, p)"
    "clock_time sv t1" "clock_time sv t2"
proof -
  let ?new = "\<lambda>now. \<lparr>iMeta = dir_meta parent n now (if mode = 0 then or S_IFDIR dirDefaultMode else mode), FileOrDirNames = []\<rparr>"
  have pn: "path_Dir path = parent" "path_Base path = n" "CombinePathAndFile parent n = path"
    using names path_Dir_abs path_Base_abs Combine_abs by (simp_all add: path_def parent_def)
  have ipn: "inode_path (?new t) = path" for t using pn(3) by (simp add: inode_path_def dir_meta_def)
  have ipi: "inode_path i = parent" using at by (simp add: inode_at_def)
  obtain n0 where n0: "clock_time sv n0" by (rule clock_time_ex)
  have len1: "length (index_path path) \<le> maxlen" using fit1 [OF n0] ipn [of n0] by (simp add: inode_fits_def)
  have "inode_path (set_modified n0 (i\<lparr>FileOrDirNames := FileOrDirNames i @ [entry_name n False]\<rparr>)) = parent"
    using ipi by (simp add: inode_path_def set_modified_def)
  then have len2: "length (index_path parent) \<le> maxlen" using fit2 [OF n0] by (simp add: inode_fits_def)
  have r: "rooted parent" "rooted path" by (simp_all add: parent_def path_def)
  have ne: "path \<noteq> parent" using abs_path_snoc_ne names(2) by (simp add: path_def parent_def proper_name_def)
  obtain pa d1 w1 where 1: "GetInode sv lb js late d pw parent w = (Inr pa, d1, w1)" "inv (b + 6) w1" "feeds w1 = feeds w"
    "blobs w1 = blobs w" "dir_ok sv lb js maxlen (feeds w) (blobs w) pw d1" "drUser d1 = drUser d"
    by (rule GetInode_ok [OF b ok at r(1) len2 caps, where late = late])
  have ok1: "dir_ok sv lb js maxlen (feeds w1) (blobs w1) pw d1" "no_dir sv (feeds w1) (drUser d1) pw path"
    using 1 no by simp_all
  obtain e w2 where 2: "GetInode sv lb js late d1 pw path w1 = (Inl e, d1, w2)" "\<not> panicking e" "inv (b + 6) w2"
    "feeds w2 = feeds w" "blobs w2 = blobs w"
    by (rule GetInode_absent [OF 1(2) ok1, where late = late]) (use 1 in auto)
  obtain now w3 where n: "NowUnix sv w2 = (now, w3)" by fastforce
  from clock [OF 2(3) n] 2 have 3: "inv ((b + 3) + 3) w3" "feeds w3 = feeds w" "blobs w3 = blobs w"
    by (simp_all add: eval_nat_numeral)
  obtain a d3 where a: "new_inode (?new now) d1 = (a, d3)" by fastforce
  have d3: "drHeap d3 a = ?new now" "a < drNext d3" "drUser d3 = drUser d"
    "dir_inv sv lb js maxlen (feeds w3) (blobs w3) pw (insert a {}) d3"
    using new_inode_ok [OF 1(5) a] 1(6) 3(2,3) by simp_all
  have fit: "inode_fits sv js maxlen pw (drHeap d3 a)" unfolding d3 by (rule fit1 [OF clock_timeI [OF n]])
  have rt: "rooted (inode_path (drHeap d3 a))" unfolding d3 ipn by (rule r)
  have tp: "file_topic_ok (feeds w3) sv (drUser d3) (index_path (inode_path (drHeap d3 a))) pw"
    unfolding d3 ipn 3 by (rule no_dir_topic [OF no])
  obtain w4 d4 where 4: "SetInode sv lb js late d3 pw a w3 = (Inr (), d4, w4)" "inv (b + 3) w4"
    "dir_ok sv lb js maxlen (feeds w4) (blobs w4) pw d4" "drUser d4 = drUser d"
    "inode_at sv lb js (feeds w4) (blobs w4) (drUser d) pw path (?new now)" "blobs w \<subseteq>\<^sub>m blobs w4"
    "\<And>u' t p. (u', t) \<noteq> (drUser d, HashString sv (index_path path)) \<Longrightarrow> feeds w4 (u', t, p) = feeds w (u', t, p)"
    by (rule SetInode_ok [OF 3(1) d3(4,2) fit rt tp cd, where late = late]) (use that d3 ipn 3 in simp_all)
  have ipd: "index_path path \<noteq> index_path parent" using index_path_inj [OF r(2,1)] ne by blast
  then have hd: "HashString sv (index_path path) \<noteq> HashString sv (index_path parent)" using hash_inj [OF len1 len2] by blast
  have at4: "inode_at sv lb js (feeds w4) (blobs w4) (drUser d4) pw parent i"
    unfolding 4(4) by (rule inode_at_mono [OF at 4(6)]) (use hd 4(7) in simp)
  have item: "n \<noteq> []" using names(2) by (simp add: proper_name_def)
  obtain t2 d5 w5 where 5: "AddEntryToDir sv lb js late d4 parent pw n False w4 = (Inr (), d5, w5)" "inv b w5"
    "dir_ok sv lb js maxlen (feeds w5) (blobs w5) pw d5" "drUser d5 = drUser d4"
    "inode_at sv lb js (feeds w5) (blobs w5) (drUser d4) pw parent
       (set_modified t2 (i\<lparr>FileOrDirNames := FileOrDirNames i @ [entry_name n False]\<rparr>))" "blobs w4 \<subseteq>\<^sub>m blobs w5"
    "\<And>u' t p. (u', t) \<noteq> (drUser d4, HashString sv (index_path parent)) \<Longrightarrow> feeds w5 (u', t, p) = feeds w4 (u', t, p)"
    "clock_time sv t2"
    by (rule AddEntryToDir_ok [OF 4(2,3) at4 r(1) len2 caps cd item fit2, where late = late]) (assumption, rule that)
  have at5: "inode_at sv lb js (feeds w5) (blobs w5) (drUser d) pw path (?new now)"
    by (rule inode_at_mono [OF 4(5) 5(6)]) (use hd 4(4) 5(7) in simp)
  have nh: "\<not> HasPrefix n ''/''" using names(2) by (auto simp: HasPrefix_def proper_name_def prefix_def)
  have run: "MkDir sv lb js late d path pw mode w = (Inr (), d5, w5)"
    using 1(1) 2(1,2) n a 4(1) 5(1) pn item names(3) nh by (simp add: MkDir_def Let_def)
  show thesis
    by (rule that [OF run 5(2,3) _ at5]) (use 5 4 clock_timeI [OF n] map_le_trans [OF 4(6) 5(6)] in \<open>simp_all\<close>)
qed

lemma MkRootDir_ok:
  assumes b: "inv (b + 3) w" and ok: "dir_ok sv lb js maxlen (feeds w) (blobs w) pw d"
    and t: "file_topic_ok (feeds w) sv (drUser d) (index_path ''/'') pw" and cd: "codec_ok lb ''gzip'' MinBlockSize"
    and fit: "\<And>now. clock_time sv now \<Longrightarrow> inode_fits sv js maxlen pw \<lparr>iMeta = dir_meta [] ''/'' now 0, FileOrDirNames = []\<rparr>"
  obtains now d' w' where "MkRootDir sv lb js late d pw w = (Inr (), d', w')" "inv b w'"
    "dir_ok sv lb js maxlen (feeds w') (blobs w') pw d'" "drUser d' = drUser d"
    "inode_at sv lb js (feeds w') (blobs w') (drUser d) pw ''/'' \<lparr>iMeta = dir_meta [] ''/'' now 0, FileOrDirNames = []\<rparr>"
    "\<And>u' t p. (u', t) \<noteq> (drUser d, HashString sv (index_path ''/'')) \<Longrightarrow> feeds w' (u', t, p) = feeds w (u', t, p)"
    "clock_time sv now" "blobs w \<subseteq>\<^sub>m blobs w'"
proof -
  let ?new = "\<lambda>now. \<lparr>iMeta = dir_meta [] ''/'' now 0, FileOrDirNames = []\<rparr>"
  have ipn: "inode_path (?new t) = ''/''" for t by (simp add: inode_path_def dir_meta_def CombinePathAndFile_def)
  obtain now w1 where n: "NowUnix sv w = (now, w1)" by fastforce
  from clock [OF b n] have 1: "inv (b + 3) w1" "feeds w1 = feeds w" "blobs w1 = blobs w" by auto
  obtain a d1 where a: "new_inode (?new now) d = (a, d1)" by fastforce
  have d1: "drHeap d1 a = ?new now" "a < drNext d1" "drUser d1 = drUser d"
    "dir_inv sv lb js maxlen (feeds w1) (blobs w1) pw (insert a {}) d1"
    using new_inode_ok [OF ok a] 1(2,3) by simp_all
  have fit': "inode_fits sv js maxlen pw (drHeap d1 a)" unfolding d1 by (rule fit [OF clock_timeI [OF n]])
  have rt: "rooted (inode_path (drHeap d1 a))" unfolding d1 ipn by (simp add: rooted_def)
  have tp: "file_topic_ok (feeds w1) sv (drUser d1) (index_path (inode_path (drHeap d1 a))) pw"
    unfolding d1 ipn 1 by (rule t)
  obtain w' d' where s: "SetInode sv lb js late d1 pw a w1 = (Inr (), d', w')" "inv b w'"
    "dir_ok sv lb js maxlen (feeds w') (blobs w') pw d'" "drUser d' = drUser d"
    "inode_at sv lb js (feeds w') (blobs w') (drUser d) pw ''/'' (?new now)"
    "\<And>u' t p. (u', t) \<noteq> (drUser d, HashString sv (index_path ''/'')) \<Longrightarrow> feeds w' (u', t, p) = feeds w (u', t, p)"
    "blobs w \<subseteq>\<^sub>m blobs w'"
    by (rule SetInode_ok [OF 1(1) d1(4,2) fit' rt tp cd, where late = late]) (use that d1 ipn 1 in simp_all)
  show thesis by (rule that [OF _ s(2-6) clock_timeI [OF n] s(7)]) (use n a s(1) in \<open>simp_all add: MkRootDir_def\<close>)
qed

end

end
