(* ===== verification/DirTree.thy ===== *)
theory DirTree
  imports DirProps "HOL-Library.Multiset"
begin

text \<open>
  Walking the tree of a pod: what ListDir lists and what SyncDirectory loads, and
  the properties of pkg/dir.
\<close>

section \<open>Listing\<close>

context storage
begin

definition same_store :: "nat \<Rightarrow> 'w \<Rightarrow> 'w \<Rightarrow> bool" where
  "same_store b w w' \<longleftrightarrow> inv b w' \<and> feeds w' = feeds w \<and> blobs w' = blobs w"

lemma AddToDirectoryMap_same: "drMap d p = Some a \<Longrightarrow> AddToDirectoryMap p a d = d"
  by (cases d) (simp add: AddToDirectoryMap_def map_upd_triv)

lemma list_dirs_ok:
  "\<lbrakk>inv b w; dir_ok sv lb js maxlen (feeds w) (blobs w) pw d; caps_ok lb; drUser d = u;
    \<forall>x \<in> set xs.
      inode_at sv lb js (feeds w) (blobs w) u pw (CombinePathAndFile path (TrimPrefix x dir_mark)) (c x)
      \<and> rooted (CombinePathAndFile path (TrimPrefix x dir_mark))
      \<and> length (index_path (CombinePathAndFile path (TrimPrefix x dir_mark))) \<le> maxlen\<rbrakk> \<Longrightarrow>
   \<exists>d' w'. list_dirs sv lb js late path pw xs d es w = (Inr (es @ map (\<lambda>x. dir_entry (c x)) xs), d', w')
     \<and> same_store b w w' \<and> dir_ok sv lb js maxlen (feeds w) (blobs w) pw d' \<and> drUser d' = u"
proof (induction xs arbitrary: d es w)
  case Nil
  then show ?case by (simp add: same_store_def)
next
  case (Cons x xs)
  let ?p = "CombinePathAndFile path (TrimPrefix x dir_mark)"
  from Cons.prems(4,5) have at: "inode_at sv lb js (feeds w) (blobs w) (drUser d) pw ?p (c x)" "rooted ?p"
    "length (index_path ?p) \<le> maxlen" by simp_all
  obtain a d1 w1 where 1: "GetInode sv lb js late d pw ?p w = (Inr a, d1, w1)" "inv b w1" "feeds w1 = feeds w"
    "blobs w1 = blobs w" "dir_ok sv lb js maxlen (feeds w) (blobs w) pw d1" "drHeap d1 a = c x" "drMap d1 ?p = Some a"
    "a < drNext d1" "drUser d1 = drUser d"
    by (rule GetInode_ok [OF Cons.prems(1,2) at Cons.prems(3), where late = late])
  from Cons.IH [of w1 d1 "es @ [dir_entry (c x)]"] 1 Cons.prems obtain d' w' where
    "list_dirs sv lb js late path pw xs d1 (es @ [dir_entry (c x)]) w1 =
       (Inr ((es @ [dir_entry (c x)]) @ map (\<lambda>x. dir_entry (c x)) xs), d', w')"
    "same_store b w1 w'" "dir_ok sv lb js maxlen (feeds w1) (blobs w1) pw d'" "drUser d' = u" by auto
  with 1 show ?case by (simp add: Let_def AddToDirectoryMap_same same_store_def)
qed

section \<open>Syncing\<close>

text \<open>A tree of directories of bounded height that is stored as it should be.\<close>

primrec tree_ok :: "nat \<Rightarrow> libs \<Rightarrow> json \<Rightarrow> feedview \<Rightarrow> blobview \<Rightarrow> Address \<Rightarrow> string \<Rightarrow> string \<Rightarrow> bool" where
  "tree_ok 0 lb js fs V u pw path = False"
| "tree_ok (Suc n) lb js fs V u pw path =
     (rooted path \<and> length (index_path path) \<le> maxlen \<and>
      (\<exists>i. inode_at sv lb js fs V u pw path i \<and>
        (\<forall>x \<in> set (FileOrDirNames i).
           if HasPrefix x file_mark then length (CombinePathAndFile path (TrimPrefix x file_mark)) \<le> maxlen
           else HasPrefix x dir_mark \<longrightarrow> tree_ok n lb js fs V u pw (CombinePathAndFile path (TrimPrefix x dir_mark)))))"

definition entry_ok :: "nat \<Rightarrow> libs \<Rightarrow> json \<Rightarrow> feedview \<Rightarrow> blobview \<Rightarrow> Address \<Rightarrow> string \<Rightarrow> string \<Rightarrow> string \<Rightarrow> bool" where
  "entry_ok n lb js fs V u pw path x \<longleftrightarrow>
     (if HasPrefix x file_mark then length (CombinePathAndFile path (TrimPrefix x file_mark)) \<le> maxlen
      else HasPrefix x dir_mark \<longrightarrow> tree_ok n lb js fs V u pw (CombinePathAndFile path (TrimPrefix x dir_mark)))"

end

text \<open>The directories of the tree below a path, and the files in them.\<close>

inductive tree_dir :: "'w services \<Rightarrow> libs \<Rightarrow> json \<Rightarrow> feedview \<Rightarrow> blobview \<Rightarrow> Address \<Rightarrow> string \<Rightarrow> string \<Rightarrow> string \<Rightarrow> bool"
  for sv lb js fs V u pw where
  tree_dir_here: "tree_dir sv lb js fs V u pw path path"
| tree_dir_child: "\<lbrakk>inode_at sv lb js fs V u pw path i; x \<in> set (FileOrDirNames i); \<not> HasPrefix x file_mark; HasPrefix x dir_mark;
    tree_dir sv lb js fs V u pw (CombinePathAndFile path (TrimPrefix x dir_mark)) q\<rbrakk>
   \<Longrightarrow> tree_dir sv lb js fs V u pw path q"

definition tree_file :: "'w services \<Rightarrow> libs \<Rightarrow> json \<Rightarrow> feedview \<Rightarrow> blobview \<Rightarrow> Address \<Rightarrow> string \<Rightarrow> string \<Rightarrow> string \<Rightarrow> bool" where
  "tree_file sv lb js fs V u pw path p \<longleftrightarrow>
     (\<exists>q i x. tree_dir sv lb js fs V u pw path q \<and> inode_at sv lb js fs V u pw q i \<and> x \<in> set (FileOrDirNames i)
        \<and> HasPrefix x file_mark \<and> p = CombinePathAndFile q (TrimPrefix x file_mark))"

definition loaded :: "'w services \<Rightarrow> libs \<Rightarrow> json \<Rightarrow> feedview \<Rightarrow> blobview \<Rightarrow> Address \<Rightarrow> string \<Rightarrow> Directory \<Rightarrow> string \<Rightarrow> bool" where
  "loaded sv lb js fs V u pw d path \<longleftrightarrow>
     (\<forall>q. tree_dir sv lb js fs V u pw path q \<longrightarrow> q \<in> dom (drMap d))
     \<and> (\<forall>p m. tree_file sv lb js fs V u pw path p \<longrightarrow> fs (u, HashString sv p, bytes_of pw) = Some (Doc (DFileMeta m)) \<longrightarrow>
          p \<in> dom (flMap (drFile d)))"

lemma loaded_grows: "\<lbrakk>loaded sv lb js fs V u pw d path; grows d d'\<rbrakk> \<Longrightarrow> loaded sv lb js fs V u pw d' path"
  unfolding loaded_def grows_def by blast

definition entry_loaded :: "'w services \<Rightarrow> libs \<Rightarrow> json \<Rightarrow> feedview \<Rightarrow> blobview \<Rightarrow> Address \<Rightarrow> string \<Rightarrow> Directory \<Rightarrow> string \<Rightarrow> string \<Rightarrow> bool" where
  "entry_loaded sv lb js fs V u pw d path x \<longleftrightarrow>
     (if HasPrefix x file_mark then
        \<forall>m. fs (u, HashString sv (CombinePathAndFile path (TrimPrefix x file_mark)), bytes_of pw) = Some (Doc (DFileMeta m)) \<longrightarrow>
          CombinePathAndFile path (TrimPrefix x file_mark) \<in> dom (flMap (drFile d))
      else HasPrefix x dir_mark \<longrightarrow> loaded sv lb js fs V u pw d (CombinePathAndFile path (TrimPrefix x dir_mark)))"

lemma entry_loaded_grows:
  assumes "entry_loaded sv lb js fs V u pw d path x" "grows d d'"
  shows "entry_loaded sv lb js fs V u pw d' path x"
proof (cases "HasPrefix x file_mark")
  case True
  have "dom (flMap (drFile d)) \<subseteq> dom (flMap (drFile d'))" using assms(2) by (simp add: grows_def)
  with assms(1) True show ?thesis unfolding entry_loaded_def by (simp only: if_True) blast
next
  case False
  with assms(1) loaded_grows [OF _ assms(2)] show ?thesis by (auto simp: entry_loaded_def)
qed

text \<open>A directory is loaded when it is in the map and its entries are.\<close>

lemma loaded_node:
  assumes at: "inode_at sv lb js fs V u pw path i" and dm: "path \<in> dom (drMap d)"
    and ent: "\<forall>x \<in> set (FileOrDirNames i). entry_loaded sv lb js fs V u pw d path x"
  shows "loaded sv lb js fs V u pw d path"
proof -
  note en = ent [unfolded entry_loaded_def]
  have sub: "q = path \<or> (\<exists>x \<in> set (FileOrDirNames i). \<not> HasPrefix x file_mark \<and> HasPrefix x dir_mark
      \<and> tree_dir sv lb js fs V u pw (CombinePathAndFile path (TrimPrefix x dir_mark)) q)"
    if "tree_dir sv lb js fs V u pw path q" for q
    using that
  proof cases
    case (tree_dir_child j x)
    then show ?thesis using inode_at_unique [OF at tree_dir_child(1)] by blast
  qed simp
  show ?thesis
    unfolding loaded_def
  proof (intro conjI allI impI)
    fix q assume "tree_dir sv lb js fs V u pw path q"
    from sub [OF this] show "q \<in> dom (drMap d)"
    proof (elim disjE bexE conjE)
      fix x assume "x \<in> set (FileOrDirNames i)" "\<not> HasPrefix x file_mark" "HasPrefix x dir_mark"
      with en have "loaded sv lb js fs V u pw d (CombinePathAndFile path (TrimPrefix x dir_mark))" by auto
      moreover assume "tree_dir sv lb js fs V u pw (CombinePathAndFile path (TrimPrefix x dir_mark)) q"
      ultimately show ?thesis unfolding loaded_def by blast
    qed (simp add: dm)
  next
    fix p m assume p: "tree_file sv lb js fs V u pw path p" and m: "fs (u, HashString sv p, bytes_of pw) = Some (Doc (DFileMeta m))"
    from p obtain q j y where q: "tree_dir sv lb js fs V u pw path q" "inode_at sv lb js fs V u pw q j"
      "y \<in> set (FileOrDirNames j)" "HasPrefix y file_mark" "p = CombinePathAndFile q (TrimPrefix y file_mark)"
      by (auto simp: tree_file_def)
    from sub [OF q(1)] show "p \<in> dom (flMap (drFile d))"
    proof (elim disjE bexE conjE)
      assume "q = path"
      then have "j = i" using inode_at_unique [OF at] q(2) by blast
      with q \<open>q = path\<close> en m show ?thesis by auto
    next
      fix x assume x: "x \<in> set (FileOrDirNames i)" "\<not> HasPrefix x file_mark" "HasPrefix x dir_mark"
        "tree_dir sv lb js fs V u pw (CombinePathAndFile path (TrimPrefix x dir_mark)) q"
      then have "tree_file sv lb js fs V u pw (CombinePathAndFile path (TrimPrefix x dir_mark)) p"
        using q by (auto simp: tree_file_def)
      moreover have "loaded sv lb js fs V u pw d (CombinePathAndFile path (TrimPrefix x dir_mark))" using x en by auto
      ultimately show ?thesis using m unfolding loaded_def by blast
    qed
  qed
qed

context storage
begin

lemma LoadFileMeta_ok:
  assumes b: "inv b w" and ok: "dir_ok sv lb js maxlen (feeds w) (blobs w) pw d" and len: "length p \<le> maxlen"
  obtains r f w' where "LoadFileMeta sv (drFile d) p pw w = (r, f, w')" "same_store b w w'"
    "dir_ok sv lb js maxlen (feeds w) (blobs w) pw (set_drFile f d)" "grows d (set_drFile f d)"
    "\<And>m. feeds w (drUser d, HashString sv p, bytes_of pw) = Some (Doc (DFileMeta m)) \<Longrightarrow> p \<in> dom (flMap f)"
proof -
  have fu: "flUser (drFile d) = drUser d" using ok by (simp add: dir_inv_def)
  obtain g w1 where g: "GetFeedData sv (HashString sv p) (drUser d) (bytes_of pw) w = (g, w1)" by fastforce
  note 1 = get_feed [OF b g]
  obtain r f w' where l: "LoadFileMeta sv (drFile d) p pw w = (r, f, w')" by (metis prod_cases3)
  have res: "w' = w1 \<and> (f = drFile d \<and> Option.bind (feeds w (drUser d, HashString sv p, bytes_of pw)) json_meta = None
      \<or> (\<exists>m. f = AddToFileMap p m (drFile d) \<and> Option.bind (feeds w (drUser d, HashString sv p, bytes_of pw)) json_meta = Some m))"
    using l g 1 fu
    by (cases "feeds w (drUser d, HashString sv p, bytes_of pw)")
       (auto simp: LoadFileMeta_def GetMetaFromFileName_def deleted_mark_def split: if_splits option.splits)
  have same: "same_store b w w'" using res 1 by (simp add: same_store_def)
  have ok': "dir_ok sv lb js maxlen (feeds w) (blobs w) pw (set_drFile f d)"
    using res ok len by (auto simp: dir_inv_def AddToFileMap_def split: if_splits)
  have gr: "grows d (set_drFile f d)" using res by (auto simp: grows_def AddToFileMap_def)
  show thesis by (rule that [OF l same ok' gr]) (use res in \<open>auto simp: AddToFileMap_def\<close>)
qed

text \<open>What loading a directory has to do, as a condition on one result.\<close>

definition syncs :: "libs \<Rightarrow> json \<Rightarrow> nat \<Rightarrow> string \<Rightarrow> string \<Rightarrow> Directory \<Rightarrow> 'w \<Rightarrow> unit result \<times> Directory \<times> 'w \<Rightarrow> bool" where
  "syncs lb js b pw path d w res \<longleftrightarrow>
     (\<exists>d' w'. res = (Inr (), d', w') \<and> same_store b w w' \<and> dir_ok sv lb js maxlen (feeds w) (blobs w) pw d' \<and> grows d d'
        \<and> loaded sv lb js (feeds w) (blobs w) (drUser d) pw d' path)"

lemma sync_entries_ok:
  assumes sd: "\<forall>p d w. inv b w \<longrightarrow> dir_ok sv lb js maxlen (feeds w) (blobs w) pw d \<longrightarrow>
      tree_ok n lb js (feeds w) (blobs w) (drUser d) pw p \<longrightarrow> syncs lb js b pw p d w (sync_dir p d w)"
  shows "\<lbrakk>inv b w; dir_ok sv lb js maxlen (feeds w) (blobs w) pw d;
    \<forall>x \<in> set xs. entry_ok n lb js (feeds w) (blobs w) (drUser d) pw path x\<rbrakk> \<Longrightarrow>
   \<exists>d' w'. sync_entries sync_dir sv path pw xs d w = (Inr (), d', w') \<and> same_store b w w'
     \<and> dir_ok sv lb js maxlen (feeds w) (blobs w) pw d' \<and> grows d d'
     \<and> (\<forall>x \<in> set xs. entry_loaded sv lb js (feeds w) (blobs w) (drUser d) pw d' path x)"
proof (induction xs arbitrary: d w)
  case Nil
  then show ?case by (simp add: same_store_def grows_def)
next
  case (Cons x xs)
  have x: "entry_ok n lb js (feeds w) (blobs w) (drUser d) pw path x" using Cons.prems(3) by simp
  have step: ?case
    if 1: "sync_entries sync_dir sv path pw (x # xs) d w = sync_entries sync_dir sv path pw xs d1 w1" "same_store b w w1"
      "dir_ok sv lb js maxlen (feeds w) (blobs w) pw d1" "grows d d1"
      "entry_loaded sv lb js (feeds w) (blobs w) (drUser d) pw d1 path x" for d1 w1
  proof -
    have s1: "inv b w1" "feeds w1 = feeds w" "blobs w1 = blobs w" "drUser d1 = drUser d"
      using 1(2,4) by (simp_all add: same_store_def grows_def)
    obtain d' w' where 2: "sync_entries sync_dir sv path pw xs d1 w1 = (Inr (), d', w')" "same_store b w1 w'"
      "dir_ok sv lb js maxlen (feeds w1) (blobs w1) pw d'" "grows d1 d'"
      "\<forall>x \<in> set xs. entry_loaded sv lb js (feeds w1) (blobs w1) (drUser d1) pw d' path x"
      using Cons.IH [of w1 d1] s1 1(3) Cons.prems(3) by auto
    show ?thesis
      using 1(1) 2 s1 grows_trans [OF 1(4) 2(4)] entry_loaded_grows [OF 1(5) 2(4)] by (auto simp: same_store_def)
  qed
  let ?fp = "CombinePathAndFile path (TrimPrefix x file_mark)" and ?dp = "CombinePathAndFile path (TrimPrefix x dir_mark)"
  consider "HasPrefix x file_mark" | "\<not> HasPrefix x file_mark" "HasPrefix x dir_mark"
    | "\<not> HasPrefix x file_mark" "\<not> HasPrefix x dir_mark" by blast
  then show ?case
  proof cases
    case 1
    then have "length ?fp \<le> maxlen" using x by (simp add: entry_ok_def)
    then obtain r f w1 where l: "LoadFileMeta sv (drFile d) ?fp pw w = (r, f, w1)" "same_store b w w1"
      "dir_ok sv lb js maxlen (feeds w) (blobs w) pw (set_drFile f d)" "grows d (set_drFile f d)"
      "\<And>m. feeds w (drUser d, HashString sv ?fp, bytes_of pw) = Some (Doc (DFileMeta m)) \<Longrightarrow> ?fp \<in> dom (flMap f)"
      by (rule LoadFileMeta_ok [OF Cons.prems(1,2)]) (rule that)
    show ?thesis by (rule step [OF _ l(2,3,4)]) (use l(1,5) 1 in \<open>simp_all add: entry_loaded_def\<close>)
  next
    case 2
    then have "tree_ok n lb js (feeds w) (blobs w) (drUser d) pw ?dp" using x by (simp add: entry_ok_def)
    with sd Cons.prems(1,2) have "syncs lb js b pw ?dp d w (sync_dir ?dp d w)" by blast
    then obtain d1 w1 where l: "sync_dir ?dp d w = (Inr (), d1, w1)" "same_store b w w1"
      "dir_ok sv lb js maxlen (feeds w) (blobs w) pw d1" "grows d d1"
      "loaded sv lb js (feeds w) (blobs w) (drUser d) pw d1 ?dp" by (auto simp: syncs_def)
    show ?thesis by (rule step [OF _ l(2,3,4)]) (use l(1,5) 2 in \<open>simp_all add: entry_loaded_def\<close>)
  next
    case 3
    have "same_store b w w" "grows d d" using Cons.prems(1) by (simp_all add: same_store_def grows_def)
    with 3 Cons.prems(2) show ?thesis by (intro step [of d w]) (simp_all add: entry_loaded_def)
  qed
qed

lemma SyncDirectory_ok:
  "\<lbrakk>inv b w; dir_ok sv lb js maxlen (feeds w) (blobs w) pw d; caps_ok lb;
    tree_ok n lb js (feeds w) (blobs w) (drUser d) pw path\<rbrakk> \<Longrightarrow>
   syncs lb js b pw path d w (SyncDirectory n sv lb js late pw path d w)"
proof (induction n arbitrary: path d w)
  case (Suc n)
  from Suc.prems(4) obtain i where i: "rooted path" "length (index_path path) \<le> maxlen"
    "inode_at sv lb js (feeds w) (blobs w) (drUser d) pw path i"
    "\<forall>x \<in> set (FileOrDirNames i). entry_ok n lb js (feeds w) (blobs w) (drUser d) pw path x"
    unfolding tree_ok.simps entry_ok_def [symmetric] by (elim conjE exE) (rule that)
  obtain a d1 w1 where 1: "GetInode sv lb js late d pw path w = (Inr a, d1, w1)" "inv b w1" "feeds w1 = feeds w"
    "blobs w1 = blobs w" "dir_ok sv lb js maxlen (feeds w) (blobs w) pw d1" "drHeap d1 a = i" "drMap d1 path = Some a"
    "a < drNext d1" "drUser d1 = drUser d" "grows d d1"
    by (rule GetInode_found [OF Suc.prems(1,2) i(3,1,2) Suc.prems(3), where late = late])
  have sd: "\<forall>p d w. inv b w \<longrightarrow> dir_ok sv lb js maxlen (feeds w) (blobs w) pw d \<longrightarrow>
      tree_ok n lb js (feeds w) (blobs w) (drUser d) pw p \<longrightarrow> syncs lb js b pw p d w (SyncDirectory n sv lb js late pw p d w)" for p
    using Suc.IH Suc.prems(3) by blast
  have en: "\<forall>x \<in> set (FileOrDirNames i). entry_ok n lb js (feeds w1) (blobs w1) (drUser d1) pw path x"
    "dir_ok sv lb js maxlen (feeds w1) (blobs w1) pw d1" using i(4) 1 by simp_all
  from sync_entries_ok [OF sd 1(2) en(2,1)] obtain d' w' where
    2: "sync_entries (SyncDirectory n sv lb js late pw) sv path pw (FileOrDirNames i) d1 w1 = (Inr (), d', w')" "same_store b w1 w'"
      "dir_ok sv lb js maxlen (feeds w) (blobs w) pw d'" "grows d1 d'"
      "\<forall>x \<in> set (FileOrDirNames i). entry_loaded sv lb js (feeds w) (blobs w) (drUser d) pw d' path x"
    unfolding 1(3,4,9) by (elim exE conjE) (rule that)
  have "path \<in> dom (drMap d')" using 1(7) 2(4) by (auto simp: grows_def)
  from loaded_node [OF i(3) this 2(5)] grows_trans [OF 1(10) 2(4)] show ?case
    using 1 2 by (simp add: syncs_def same_store_def AddToDirectoryMap_same)
qed simp

end

section \<open>Where the code goes wrong\<close>

text \<open>RemoveInode of a directory below another one edits the inode two levels up:
  the parent, which lists the directory, keeps its entry.\<close>

lemma total_path_abs:
  assumes "list_all proper_name cs" "proper_name n"
  shows "total_path (abs_path (cs @ [n])) = abs_path (cs @ [n])"
proof -
  have "n \<noteq> ''/''" using assms(2) by (auto simp: proper_name_def)
  with assms show ?thesis by (simp add: total_path_def path_Base_abs path_Dir_abs Combine_abs)
qed

lemma RemoveInode_forgets_parent:
  assumes names: "list_all proper_name cs" "proper_name m" "proper_name n"
    and run: "RemoveInode sv lb js late d pw (abs_path ((cs @ [m]) @ [n])) w = (Inr (), d', w')"
    and cached: "drMap d (abs_path cs) = Some r" "drMap d (abs_path (cs @ [m])) = Some a" "a \<noteq> r"
  shows "drHeap d' a = drHeap d a"
proof -
  let ?p = "abs_path ((cs @ [m]) @ [n])"
  have l: "list_all proper_name (cs @ [m])" using names by simp
  have "abs_path (cs @ [m]) \<noteq> ''/''" using abs_path_snoc_ne [of m "[]"] names(2)
    by (cases "cs = []") (auto simp: proper_name_def abs_path_def JoinChar_snoc)
  then have p: "path_Dir ?p = abs_path (cs @ [m])" "path_Dir (abs_path (cs @ [m])) = abs_path cs" "total_path ?p = ?p"
    "path_Base ?p = n" "abs_path (cs @ [m]) \<noteq> ''/''" "abs_path (cs @ [m]) \<noteq> []"
    using path_Dir_abs [OF names(3) l] path_Dir_abs [OF names(2,1)] total_path_abs [OF l names(3)] path_Base_abs [OF names(3)]
    by (simp_all del: append_assoc add: abs_path_def)
  have ne: "abs_path cs \<noteq> ?p"
  proof
    assume "abs_path cs = ?p"
    then have "length (abs_path cs) = length ?p" by simp
    then show False by (cases "cs = []") (auto simp: abs_path_def JoinChar_snoc simp del: append_assoc)
  qed
  show ?thesis
    using run cached ne unfolding RemoveInode_def Let_def p
    by (auto simp: RemoveEntryFromDir_def GetInode_def GetDirFromDirectoryMap_def RemoveFromDirectoryMap_def
        SetInode_def change_inode_def AddToDirectoryMap_def Let_def p split: sum.splits prod.splits if_splits)
qed

text \<open>GetInode at the path of a file ends the program: the metadata of the file is
  in the feed of that path, parses as an inode without metadata, and is written
  back at once.\<close>

lemma GetInode_of_file_panics:
  assumes st: "storage sv maxlen good feeds blobs" and b: "good b w"
    and m: "feeds w (drUser d, HashString sv path, bytes_of pw) = Some (Doc (DFileMeta m))"
    and no: "feeds w (drUser d, HashString sv (index_path path), bytes_of pw) = None"
      "drMap d path = None" "flMap (drFile d) (index_path path) = None" "flUser (drFile d) = drUser d"
  shows "\<exists>w'. GetInode sv lb js late d pw path w = (Inl NilDereference, d, w')"
proof -
  obtain g w1 where g: "GetFeedData sv (HashString sv (index_path path)) (drUser d) (bytes_of pw) w = (g, w1)" by fastforce
  from storage.get_feed [OF st b g] have 1: "good b w1" "feeds w1 = feeds w" by auto
  obtain h w2 where h: "GetFeedData sv (HashString sv path) (drUser d) (bytes_of pw) w1 = (h, w2)" by fastforce
  from storage.get_feed [OF st 1(1) h] m 1(2) obtain adr where "h = Inr (adr, Doc (DFileMeta m))" by auto
  moreover obtain e where "g = Inl e" using storage.get_feed [OF st b g] no(1) by auto
  ultimately show ?thesis using no g h
    by (simp add: GetInode_def GetDirFromDirectoryMap_def Download_def ReadSeeker_def FileGetInode_def GetFromFileMap_def
        index_path_def [symmetric] inode_of_feed_def deleted_mark_def)
qed

section \<open>Properties\<close>

text \<open>C16: MkDir adds one directory.  For a new name below a stored directory it
  succeeds; afterwards the new directory is stored under its path with no
  entries, the parent has one more entry, every feed but those of the two index
  files is as before, and every directory that was stored elsewhere still is.
  The Directory and the store stay consistent (dir_ok), so that GetInode gives
  what is stored.\<close>

theorem MkDir_creates:
  assumes st: "storage sv maxlen good feeds blobs" "good (b + 6) w" "dir_ok sv lb js maxlen (feeds w) (blobs w) pw d"
    and names: "list_all proper_name cs" "proper_name n" "length n \<le> nameLength"
    and at: "inode_at sv lb js (feeds w) (blobs w) (drUser d) pw (abs_path cs) i"
    and no: "no_dir sv (feeds w) (drUser d) pw (abs_path (cs @ [n]))"
    and libs: "caps_ok lb" "codec_ok lb ''gzip'' MinBlockSize"
    and fit1: "\<And>now. clock_time sv now \<Longrightarrow> inode_fits sv js maxlen pw
      \<lparr>iMeta = dir_meta (abs_path cs) n now (if mode = 0 then or S_IFDIR dirDefaultMode else mode), FileOrDirNames = []\<rparr>"
    and fit2: "\<And>now. clock_time sv now \<Longrightarrow> inode_fits sv js maxlen pw
      (set_modified now (i\<lparr>FileOrDirNames := FileOrDirNames i @ [entry_name n False]\<rparr>))"
  shows "\<exists>t1 t2 d' w'. MkDir sv lb js late d (abs_path (cs @ [n])) pw mode w = (Inr (), d', w') \<and> good b w'
    \<and> clock_time sv t1 \<and> clock_time sv t2
    \<and> dir_ok sv lb js maxlen (feeds w') (blobs w') pw d' \<and> drUser d' = drUser d
    \<and> inode_at sv lb js (feeds w') (blobs w') (drUser d) pw (abs_path (cs @ [n]))
       \<lparr>iMeta = dir_meta (abs_path cs) n t1 (if mode = 0 then or S_IFDIR dirDefaultMode else mode), FileOrDirNames = []\<rparr>
    \<and> inode_at sv lb js (feeds w') (blobs w') (drUser d) pw (abs_path cs)
       (set_modified t2 (i\<lparr>FileOrDirNames := FileOrDirNames i @ [entry_name n False]\<rparr>))
    \<and> (\<forall>u' t p. (u', t) \<notin> {(drUser d, HashString sv (index_path (abs_path (cs @ [n])))),
                             (drUser d, HashString sv (index_path (abs_path cs)))} \<longrightarrow> feeds w' (u', t, p) = feeds w (u', t, p))
    \<and> (\<forall>q j. rooted q \<longrightarrow> length (index_path q) \<le> maxlen \<longrightarrow> q \<noteq> abs_path cs \<longrightarrow> q \<noteq> abs_path (cs @ [n]) \<longrightarrow>
         inode_at sv lb js (feeds w) (blobs w) (drUser d) pw q j \<longrightarrow> inode_at sv lb js (feeds w') (blobs w') (drUser d) pw q j)"
proof -
  note hash_inj = storage.hash_inj [OF st(1)]
  obtain n0 where n0: "clock_time sv n0" by (rule clock_time_ex)
  obtain t1 t2 d' w' where m: "MkDir sv lb js late d (abs_path (cs @ [n])) pw mode w = (Inr (), d', w')" "good b w'"
    "dir_ok sv lb js maxlen (feeds w') (blobs w') pw d'" "drUser d' = drUser d"
    "inode_at sv lb js (feeds w') (blobs w') (drUser d) pw (abs_path (cs @ [n]))
       \<lparr>iMeta = dir_meta (abs_path cs) n t1 (if mode = 0 then or S_IFDIR dirDefaultMode else mode), FileOrDirNames = []\<rparr>"
    "inode_at sv lb js (feeds w') (blobs w') (drUser d) pw (abs_path cs)
       (set_modified t2 (i\<lparr>FileOrDirNames := FileOrDirNames i @ [entry_name n False]\<rparr>))"
    "blobs w \<subseteq>\<^sub>m blobs w'"
    "\<And>u' t p. (u', t) \<notin> {(drUser d, HashString sv (index_path (abs_path (cs @ [n])))), (drUser d, HashString sv (index_path (abs_path cs)))}
       \<Longrightarrow> feeds w' (u', t, p) = feeds w (u', t, p)"
    "clock_time sv t1" "clock_time sv t2"
    by (rule storage.MkDir_ok [OF st names at no libs fit1 fit2, where late = late]) (assumption, assumption, rule that)
  have len: "length (index_path (abs_path (cs @ [n]))) \<le> maxlen" "length (index_path (abs_path cs)) \<le> maxlen"
  proof -
    have "CombinePathAndFile (abs_path cs) n = abs_path (cs @ [n])" by (rule Combine_abs [OF names(2,1)])
    then show "length (index_path (abs_path (cs @ [n]))) \<le> maxlen"
      using fit1 [OF n0] by (simp add: inode_fits_def inode_path_def dir_meta_def)
    have "inode_path (set_modified n0 (i\<lparr>FileOrDirNames := FileOrDirNames i @ [entry_name n False]\<rparr>)) = abs_path cs"
      using at by (simp add: inode_at_def inode_path_def set_modified_def)
    then show "length (index_path (abs_path cs)) \<le> maxlen" using fit2 [OF n0] by (simp add: inode_fits_def)
  qed
  have other: "inode_at sv lb js (feeds w') (blobs w') (drUser d) pw q j"
    if q: "rooted q" "length (index_path q) \<le> maxlen" "q \<noteq> abs_path cs" "q \<noteq> abs_path (cs @ [n])"
      "inode_at sv lb js (feeds w) (blobs w) (drUser d) pw q j" for q j
  proof (rule inode_at_mono [OF q(5) m(7)])
    have "index_path q \<noteq> index_path (abs_path cs)" "index_path q \<noteq> index_path (abs_path (cs @ [n]))"
      using index_path_inj [OF q(1)] q(3,4) rooted_abs_path by blast+
    then show "feeds w' (drUser d, HashString sv (index_path q), bytes_of pw) = feeds w (drUser d, HashString sv (index_path q), bytes_of pw)"
      using hash_inj [OF q(2) len(1)] hash_inj [OF q(2) len(2)] by (intro m(8)) auto
  qed
  show ?thesis using m other by blast
qed

lemma MkDir_refusals:
  assumes st: "storage sv maxlen good feeds blobs" "good b w" "dir_ok sv lb js maxlen (feeds w) (blobs w) pw d"
    and libs: "caps_ok lb"
  shows "fst (MkDir sv lb js late d ''/'' pw mode w) = Inl ErrInvalidDirectoryName"
    "\<lbrakk>path_Base path \<noteq> []; \<not> HasPrefix (path_Base path) ''/''; length (path_Base path) > 100\<rbrakk> \<Longrightarrow>
       MkDir sv lb js late d path pw mode w = (Inl ErrTooLongDirectoryName, d, w)"
    "\<lbrakk>path_Base path \<noteq> []; \<not> HasPrefix (path_Base path) ''/''; length (path_Base path) \<le> 100;
      no_dir sv (feeds w) (drUser d) pw (path_Dir path)\<rbrakk> \<Longrightarrow>
       \<exists>w'. MkDir sv lb js late d path pw mode w = (Inl ErrDirectoryNotPresent, d, w') \<and> feeds w' = feeds w \<and> blobs w' = blobs w"
    "\<lbrakk>list_all proper_name cs; proper_name n; length n \<le> 100;
      inode_at sv lb js (feeds w) (blobs w) (drUser d) pw (abs_path cs) i; length (index_path (abs_path cs)) \<le> maxlen;
      inode_at sv lb js (feeds w) (blobs w) (drUser d) pw (abs_path (cs @ [n])) j; length (index_path (abs_path (cs @ [n]))) \<le> maxlen\<rbrakk> \<Longrightarrow>
       \<exists>d' w'. MkDir sv lb js late d (abs_path (cs @ [n])) pw mode w = (Inl ErrDirectoryAlreadyPresent, d', w')
         \<and> dir_ok sv lb js maxlen (feeds w) (blobs w) pw d' \<and> feeds w' = feeds w \<and> blobs w' = blobs w"
proof -
  show "fst (MkDir sv lb js late d ''/'' pw mode w) = Inl ErrInvalidDirectoryName"
  proof -
    have "HasPrefix (path_Base ''/'') ''/''" by (simp add: path_examples HasPrefix_def)
    then show ?thesis by (simp add: MkDir_def Let_def)
  qed
  show "MkDir sv lb js late d path pw mode w = (Inl ErrTooLongDirectoryName, d, w)"
    if "path_Base path \<noteq> []" "\<not> HasPrefix (path_Base path) ''/''" "length (path_Base path) > 100"
    using that by (simp add: MkDir_def nameLength_def)
  show "\<exists>w'. MkDir sv lb js late d path pw mode w = (Inl ErrDirectoryNotPresent, d, w') \<and> feeds w' = feeds w \<and> blobs w' = blobs w"
    if p: "path_Base path \<noteq> []" "\<not> HasPrefix (path_Base path) ''/''" "length (path_Base path) \<le> 100"
      "no_dir sv (feeds w) (drUser d) pw (path_Dir path)"
  proof -
    obtain e w' where g: "GetInode sv lb js late d pw (path_Dir path) w = (Inl e, d, w')" "\<not> panicking e" "feeds w' = feeds w" "blobs w' = blobs w"
      by (rule storage.GetInode_absent [OF st p(4), where late = late])
    then have "masked e ErrDirectoryNotPresent = ErrDirectoryNotPresent" by (cases e) simp_all
    with g p show ?thesis by (simp add: MkDir_def nameLength_def)
  qed
  show "\<exists>d' w'. MkDir sv lb js late d (abs_path (cs @ [n])) pw mode w = (Inl ErrDirectoryAlreadyPresent, d', w')
      \<and> dir_ok sv lb js maxlen (feeds w) (blobs w) pw d' \<and> feeds w' = feeds w \<and> blobs w' = blobs w"
    if p: "list_all proper_name cs" "proper_name n" "length n \<le> 100"
      "inode_at sv lb js (feeds w) (blobs w) (drUser d) pw (abs_path cs) i" "length (index_path (abs_path cs)) \<le> maxlen"
      "inode_at sv lb js (feeds w) (blobs w) (drUser d) pw (abs_path (cs @ [n])) j" "length (index_path (abs_path (cs @ [n]))) \<le> maxlen"
  proof -
    obtain a d1 w1 where 1: "GetInode sv lb js late d pw (abs_path cs) w = (Inr a, d1, w1)" "good b w1" "feeds w1 = feeds w"
      "blobs w1 = blobs w" "dir_ok sv lb js maxlen (feeds w) (blobs w) pw d1" "drUser d1 = drUser d"
      by (rule storage.GetInode_ok [OF st p(4) rooted_abs_path p(5) libs, where late = late])
    have ok1: "dir_ok sv lb js maxlen (feeds w1) (blobs w1) pw d1"
      "inode_at sv lb js (feeds w1) (blobs w1) (drUser d1) pw (abs_path (cs @ [n])) j" using 1 p(6) by simp_all
    obtain a2 d2 w2 where 2: "GetInode sv lb js late d1 pw (abs_path (cs @ [n])) w1 = (Inr a2, d2, w2)" "feeds w2 = feeds w1"
      "blobs w2 = blobs w1" "dir_ok sv lb js maxlen (feeds w1) (blobs w1) pw d2"
      by (rule storage.GetInode_ok [OF st(1) 1(2) ok1 rooted_abs_path p(7) libs, where late = late])
    have "path_Dir (abs_path (cs @ [n])) = abs_path cs" "path_Base (abs_path (cs @ [n])) = n"
      "CombinePathAndFile (abs_path cs) n = abs_path (cs @ [n])" "\<not> HasPrefix n ''/''" "n \<noteq> []"
      using p path_Dir_abs path_Base_abs Combine_abs by (auto simp: proper_name_def HasPrefix_def prefix_def)
    with 1 2 p(3) show ?thesis by (simp add: MkDir_def nameLength_def)
  qed
qed

text \<open>C17: MkDir refuses what it must.  A name with a slash, a name that is too long,
  a parent that is not there and a directory that is there already are reported
  each with its own error, and nothing stored changes.\<close>

theorem MkDir_refuses:
  assumes st: "storage sv maxlen good feeds blobs" "good b w" "dir_ok sv lb js maxlen (feeds w) (blobs w) pw d"
    and libs: "caps_ok lb"
  shows "fst (MkDir sv lb js late d ''/'' pw mode w) = Inl ErrInvalidDirectoryName
    \<and> (path_Base path \<noteq> [] \<and> \<not> HasPrefix (path_Base path) ''/'' \<and> length (path_Base path) > 100 \<longrightarrow>
        MkDir sv lb js late d path pw mode w = (Inl ErrTooLongDirectoryName, d, w))
    \<and> (path_Base path \<noteq> [] \<and> \<not> HasPrefix (path_Base path) ''/'' \<and> length (path_Base path) \<le> 100
        \<and> no_dir sv (feeds w) (drUser d) pw (path_Dir path) \<longrightarrow>
        (\<exists>w'. MkDir sv lb js late d path pw mode w = (Inl ErrDirectoryNotPresent, d, w') \<and> feeds w' = feeds w \<and> blobs w' = blobs w))
    \<and> (list_all proper_name cs \<and> proper_name n \<and> length n \<le> 100
        \<and> inode_at sv lb js (feeds w) (blobs w) (drUser d) pw (abs_path cs) i \<and> length (index_path (abs_path cs)) \<le> maxlen
        \<and> inode_at sv lb js (feeds w) (blobs w) (drUser d) pw (abs_path (cs @ [n])) j \<and> length (index_path (abs_path (cs @ [n]))) \<le> maxlen \<longrightarrow>
        (\<exists>d' w'. MkDir sv lb js late d (abs_path (cs @ [n])) pw mode w = (Inl ErrDirectoryAlreadyPresent, d', w')
         \<and> dir_ok sv lb js maxlen (feeds w) (blobs w) pw d' \<and> feeds w' = feeds w \<and> blobs w' = blobs w))"
proof -
  note r = MkDir_refusals [OF st libs, where late = late and mode = mode]
  show ?thesis by (intro conjI impI; (elim conjE)?) (rule r(1), rule r(2), assumption+, rule r(3), assumption+, rule r(4), assumption+)
qed

text \<open>C18: ListDir lists a directory.  For a stored directory whose child directories
  are stored it returns one entry for each of them, made from the child's own metadata, in
  whatever order the listing tasks end, and the full path of every file, in the order of the
  inode; nothing stored changes.\<close>

theorem ListDir_lists:
  assumes st: "storage sv maxlen good feeds blobs" "good b w" "dir_ok sv lb js maxlen (feeds w) (blobs w) pw d"
    and at: "inode_at sv lb js (feeds w) (blobs w) (drUser d) pw path i" "rooted path" "length (index_path path) \<le> maxlen"
    and libs: "caps_ok lb"
    and order: "mset (order (child_dirs (FileOrDirNames i))) = mset (child_dirs (FileOrDirNames i))"
    and children: "\<forall>x \<in> set (FileOrDirNames i). HasPrefix x dir_mark \<longrightarrow>
      inode_at sv lb js (feeds w) (blobs w) (drUser d) pw (CombinePathAndFile path (TrimPrefix x dir_mark)) (c x)
      \<and> rooted (CombinePathAndFile path (TrimPrefix x dir_mark))
      \<and> length (index_path (CombinePathAndFile path (TrimPrefix x dir_mark))) \<le> maxlen"
  shows "\<exists>entries d' w'. ListDir sv lb js late order d path pw w =
       (Inr (entries, map (\<lambda>x. CombinePathAndFile path (TrimPrefix x file_mark))
                 (filter (\<lambda>x. \<not> HasPrefix x dir_mark \<and> HasPrefix x file_mark) (FileOrDirNames i))), d', w')
     \<and> mset entries = mset (map (\<lambda>x. dir_entry (c x)) (filter (\<lambda>x. HasPrefix x dir_mark) (FileOrDirNames i)))
     \<and> entries = map (\<lambda>x. dir_entry (c x)) (order (child_dirs (FileOrDirNames i)))
     \<and> good b w' \<and> feeds w' = feeds w \<and> blobs w' = blobs w \<and> dir_ok sv lb js maxlen (feeds w) (blobs w) pw d'"
proof -
  obtain a d1 w1 where 1: "GetInode sv lb js late d pw path w = (Inr a, d1, w1)" "good b w1" "feeds w1 = feeds w"
    "blobs w1 = blobs w" "dir_ok sv lb js maxlen (feeds w) (blobs w) pw d1" "drHeap d1 a = i" "drUser d1 = drUser d"
    by (rule storage.GetInode_ok [OF st at libs, where late = late])
  have d1: "dir_ok sv lb js maxlen (feeds w1) (blobs w1) pw d1" using 1 by simp
  let ?ds = "order (child_dirs (FileOrDirNames i))"
  have "set ?ds = set (child_dirs (FileOrDirNames i))" by (rule mset_eq_setD [OF order])
  then have ch: "\<forall>x \<in> set ?ds.
      inode_at sv lb js (feeds w1) (blobs w1) (drUser d) pw (CombinePathAndFile path (TrimPrefix x dir_mark)) (c x)
      \<and> rooted (CombinePathAndFile path (TrimPrefix x dir_mark))
      \<and> length (index_path (CombinePathAndFile path (TrimPrefix x dir_mark))) \<le> maxlen"
    using children 1(3,4) by (simp add: child_dirs_def)
  from storage.list_dirs_ok [OF st(1) 1(2) d1 libs 1(7) ch, of late "[]"] obtain d' w' where
    l: "list_dirs sv lb js late path pw ?ds d1 [] w1 = (Inr (map (\<lambda>x. dir_entry (c x)) ?ds), d', w')"
    "storage.same_store good feeds blobs b w1 w'" "dir_ok sv lb js maxlen (feeds w1) (blobs w1) pw d'" by auto
  have "mset (map (\<lambda>x. dir_entry (c x)) ?ds) = mset (map (\<lambda>x. dir_entry (c x)) (filter (\<lambda>x. HasPrefix x dir_mark) (FileOrDirNames i)))"
    using order by (simp add: child_dirs_def)
  with 1 l show ?thesis by (auto simp: ListDir_def child_files_def Let_def storage.same_store_def [OF st(1)])
qed

text \<open>C19: SyncDirectory ends and loads the whole tree.  On a stored tree of height
  below its bound it returns without an error, changes nothing that is stored, and
  afterwards every directory of the tree is in the directory map and every file
  whose metadata is stored is in the file map, both with what is stored.\<close>

theorem SyncDirectory_loads_tree:
  assumes "storage sv maxlen good feeds blobs" "good b w" "dir_ok sv lb js maxlen (feeds w) (blobs w) pw d" "caps_ok lb"
    "storage.tree_ok sv maxlen n lb js (feeds w) (blobs w) (drUser d) pw path"
  shows "\<exists>d' w'. SyncDirectory n sv lb js late pw path d w = (Inr (), d', w') \<and> good b w'
     \<and> feeds w' = feeds w \<and> blobs w' = blobs w \<and> dir_ok sv lb js maxlen (feeds w) (blobs w) pw d'
     \<and> (\<forall>q. tree_dir sv lb js (feeds w) (blobs w) (drUser d) pw path q \<longrightarrow> q \<in> dom (drMap d'))
     \<and> (\<forall>p m. tree_file sv lb js (feeds w) (blobs w) (drUser d) pw path p \<longrightarrow>
          feeds w (drUser d, HashString sv p, bytes_of pw) = Some (Doc (DFileMeta m)) \<longrightarrow> flMap (drFile d') p = Some m)"
proof -
  from storage.SyncDirectory_ok [OF assms, where late = late] obtain d' w' where
    s: "SyncDirectory n sv lb js late pw path d w = (Inr (), d', w')" "storage.same_store good feeds blobs b w w'"
      "dir_ok sv lb js maxlen (feeds w) (blobs w) pw d'" "grows d d'"
      "loaded sv lb js (feeds w) (blobs w) (drUser d) pw d' path"
    by (auto simp: storage.syncs_def [OF assms(1)])
  have "flMap (drFile d') p = Some m"
    if "tree_file sv lb js (feeds w) (blobs w) (drUser d) pw path p"
      and m: "feeds w (drUser d, HashString sv p, bytes_of pw) = Some (Doc (DFileMeta m))" for p m
  proof -
    from that s(5) have "p \<in> dom (flMap (drFile d'))" unfolding loaded_def by blast
    then obtain m' where "flMap (drFile d') p = Some m'" by blast
    moreover from this have "Option.bind (feeds w (drUser d, HashString sv p, bytes_of pw)) json_meta = Some m'"
      using s(3,4) by (simp add: dir_inv_def grows_def)
    ultimately show ?thesis using m by simp
  qed
  with s show ?thesis unfolding storage.same_store_def [OF assms(1)] loaded_def by blast
qed

end
