(* ===== verification/DirRuns.thy ===== *)
theory DirRuns
  imports FileRuns DirTree
begin

text \<open>
  Runs of the directory operations on the Swarm in memory: witnesses that the
  hypotheses of the properties can hold.  JSON is played by a simple encoding of
  the inodes whose decoder is its inverse.
\<close>

section \<open>An encoding\<close>

fun enc_strings :: "string list \<Rightarrow> bytes" where
  "enc_strings [] = []"
| "enc_strings ([] # ss) = 0 # enc_strings ss"
| "enc_strings ((c # s) # ss) = 1 # of_char c # enc_strings (s # ss)"

fun dec_strings :: "string \<Rightarrow> bytes \<Rightarrow> string list" where
  "dec_strings acc (b # r) =
     (if b = 0 then acc # dec_strings [] r
      else case r of [] \<Rightarrow> [] | c # r' \<Rightarrow> dec_strings (acc @ [char_of (unat c)]) r')"
| "dec_strings acc [] = []"

lemma char_of_byte: "char_of (unat (of_char c :: byte)) = c"
  using string_of_bytes_of [of "[c]"] by (simp add: string_of_def bytes_of_def)

lemma dec_enc_strings:
  "dec_strings acc (enc_strings ss) = (case ss of [] \<Rightarrow> [] | s # r \<Rightarrow> (acc @ s) # r)"
  by (induction ss arbitrary: acc rule: enc_strings.induct) (auto simp: char_of_byte split: list.splits)

lemma length_enc_strings: "length (enc_strings ss) = (\<Sum>s \<leftarrow> ss. 2 * length s + 1)"
  by (induction ss rule: enc_strings.induct) auto

definition enc_inode :: "Inode \<Rightarrow> bytes" where
  "enc_inode i =
     (let m = iMeta i in
      9 # PutUint64 (ucast (dVersion m)) @ PutUint64 (of_int (dCreationTime m)) @ PutUint64 (of_int (dAccessTime m))
        @ PutUint64 (of_int (dModificationTime m)) @ PutUint64 (ucast (dMode m))
        @ enc_strings (dPath m # dName m # FileOrDirNames i))"

definition dec_inode :: "bytes \<Rightarrow> Inode option" where
  "dec_inode b =
     (case dec_strings [] (drop 41 b) of
        p # n # ns \<Rightarrow>
          Some \<lparr>iMeta = \<lparr>dVersion = ucast (Uint64 (take 8 (drop 1 b))), dPath = p, dName = n,
                  dCreationTime = uint (Uint64 (take 8 (drop 9 b))), dAccessTime = uint (Uint64 (take 8 (drop 17 b))),
                  dModificationTime = uint (Uint64 (take 8 (drop 25 b))), dMode = ucast (Uint64 (take 8 (drop 33 b)))\<rparr>,
                FileOrDirNames = ns\<rparr>
      | _ \<Rightarrow> None)"

definition word_time :: "int \<Rightarrow> bool" where
  "word_time t \<longleftrightarrow> 0 \<le> t \<and> t < 2 ^ 64"

lemma dec_enc_inode:
  assumes "word_time (dCreationTime (iMeta i))" "word_time (dAccessTime (iMeta i))" "word_time (dModificationTime (iMeta i))"
  shows "dec_inode (enc_inode i) = Some i"
proof -
  have t: "uint (of_int x :: u64) = x" if "word_time x" for x
    using that by (simp add: word_time_def uint_word_of_int)
  have v: "ucast (ucast a :: u64) = a" for a :: "8 word" by (rule bit_word_eqI, simp add: bit_simps)
  have m: "ucast (ucast a :: u64) = a" for a :: "32 word" by (rule bit_word_eqI, simp add: bit_simps)
  show ?thesis using assms
    by (simp add: dec_inode_def enc_inode_def Let_def dec_enc_strings Uint64_PutUint64 t v m)
qed

definition run_json :: json where
  "run_json = \<lparr>Marshal = \<lambda>d. (case d of DInode i \<Rightarrow> enc_inode i | _ \<Rightarrow> [0]), UnmarshalInode = dec_inode,
     UnmarshalPodList = \<lambda>b. None, UnmarshalGroupList = \<lambda>b. None, UnmarshalPermissions = \<lambda>b. None\<rparr>"

lemma run_clock: "clock_time mem_services t \<Longrightarrow> word_time t"
proof -
  have "uint (x :: u64) < 2 ^ 64" for x using uint_bounded [of x] by simp
  then show "clock_time mem_services t \<Longrightarrow> word_time t"
    by (auto simp: clock_time_def services_of_def mem_bee_def word_time_def)
qed

lemma run_fits:
  assumes "word_time (dCreationTime (iMeta i))" "word_time (dAccessTime (iMeta i))" "word_time (dModificationTime (iMeta i))"
    and "length (enc_inode i) \<le> 1000000" "length (index_path (inode_path i)) \<le> 31"
  shows "inode_fits mem_services run_json 31 pw i"
proof -
  have "InodeUnmarshal run_json (enc_inode i) = Inr i"
    using dec_enc_inode [OF assms(1-3)]
    by (simp add: InodeUnmarshal_def run_json_def enc_inode_def Let_def bytes_of_def DeletedFeedMagicWord_def)
  moreover have "enc_inode i \<noteq> []" by (simp add: enc_inode_def Let_def)
  ultimately show ?thesis
    using assms(4,5) by (simp add: inode_fits_def run_json_def run_storable MinBlockSize_def)
qed

section \<open>A pod with a root and one directory\<close>

definition run_dir :: Directory where
  "run_dir = NewDirectory [1] run_file (\<lambda>a. \<lparr>iMeta = dir_meta [] [] 0 0, FileOrDirNames = []\<rparr>)"

abbreviation "run_dir_ok w \<equiv> dir_ok mem_services run_libs run_json 31 (mem_feeds w) (mem_blobs w) []"
abbreviation "run_inode_at w \<equiv> inode_at mem_services run_libs run_json (mem_feeds w) (mem_blobs w) [1] []"
abbreviation "root_inode now \<equiv> \<lparr>iMeta = dir_meta [] ''/'' now 0, FileOrDirNames = []\<rparr>"
abbreviation "dir_a now \<equiv> \<lparr>iMeta = dir_meta ''/'' ''a'' now (or S_IFDIR dirDefaultMode), FileOrDirNames = []\<rparr>"

lemma run_paths:
  "inode_path (root_inode now) = ''/''" "inode_path (dir_a now) = ''/a''"
  "index_path ''/'' = ''/index.dfs''" "index_path ''/a'' = ''/a/index.dfs''"
  by (simp_all add: inode_path_def dir_meta_def CombinePathAndFile_def TrimPrefix_def index_path_def IndexFileName_def)

lemma run_root_fits:
  assumes "word_time now" "word_time t" "sum_list (map (\<lambda>s. 2 * length s + 1) ns) \<le> 1000"
  shows "inode_fits mem_services run_json 31 pw (set_modified t ((root_inode now)\<lparr>FileOrDirNames := ns\<rparr>))"
proof (rule run_fits)
  have "inode_path (set_modified t ((root_inode now)\<lparr>FileOrDirNames := ns\<rparr>)) = ''/''"
    using run_paths(1) by (simp add: inode_path_def set_modified_def dir_meta_def)
  then show "length (index_path (inode_path (set_modified t ((root_inode now)\<lparr>FileOrDirNames := ns\<rparr>)))) \<le> 31"
    by (simp add: run_paths)
qed (use assms in \<open>simp_all add: set_modified_def dir_meta_def enc_inode_def Let_def length_enc_strings\<close>)

lemma run_root:
  obtains now d w where "word_time now" "mem_good 100 w" "run_dir_ok w d" "drUser d = [1]" "run_inode_at w ''/'' (root_inode now)"
    "\<And>p pw. length p \<le> 31 \<Longrightarrow> p \<noteq> ''/index.dfs'' \<Longrightarrow> mem_feeds w ([1], HashString mem_services p, pw) = None"
proof -
  have g: "mem_good (100 + 3) mem_start" by (simp add: mem_start_good)
  have ok: "run_dir_ok mem_start run_dir" by (simp add: dir_inv_def run_dir_def NewDirectory_def run_file_def)
  have t: "file_topic_ok (mem_feeds mem_start) mem_services (drUser run_dir) (index_path ''/'') []"
    by (simp add: file_topic_ok_def mem_start_empty)
  have fit: "inode_fits mem_services run_json 31 [] (root_inode now)" if "clock_time mem_services now" for now
  proof -
    have "set_modified now ((root_inode now)\<lparr>FileOrDirNames := []\<rparr>) = root_inode now"
      by (simp add: set_modified_def dir_meta_def)
    with run_root_fits [OF run_clock [OF that] run_clock [OF that], of "[]"] show ?thesis by simp
  qed
  obtain now d w where m: "MkRootDir mem_services run_libs run_json (\<lambda>i. False) run_dir [] mem_start = (Inr (), d, w)"
    "mem_good 100 w" "run_dir_ok w d" "drUser d = drUser run_dir"
    "inode_at mem_services run_libs run_json (mem_feeds w) (mem_blobs w) (drUser run_dir) [] ''/'' (root_inode now)"
    "\<And>u' t p. (u', t) \<noteq> (drUser run_dir, HashString mem_services (index_path ''/'')) \<Longrightarrow>
       mem_feeds w (u', t, p) = mem_feeds mem_start (u', t, p)" "clock_time mem_services now"
    by (rule storage.MkRootDir_ok [OF mem_storage g ok t run_libs_ok(2) fit, where late = "\<lambda>i. False"]) (assumption, rule that)
  have now: "word_time now" using m(7) by (rule run_clock)
  have u: "drUser run_dir = [1]" by (simp add: run_dir_def NewDirectory_def)
  show thesis
  proof (rule that [OF now m(2,3)])
    fix p pw assume "length p \<le> 31" "p \<noteq> ''/index.dfs''"
    then have "HashString mem_services p \<noteq> HashString mem_services ''/index.dfs''"
      using storage.hash_inj [OF mem_storage, of p "''/index.dfs''"] by auto
    then show "mem_feeds w ([1], HashString mem_services p, pw) = None"
      using m(6) [of "[1]" "HashString mem_services p" pw] by (simp add: u run_paths mem_start_empty)
  qed (use m(4,5) u in simp_all)
qed

text \<open>The directory /a in it.\<close>

lemma run_a_fits: "word_time now \<Longrightarrow> inode_fits mem_services run_json 31 pw (dir_a now)"
proof (rule run_fits)
  show "length (index_path (inode_path (dir_a now))) \<le> 31" unfolding run_paths by (simp add: run_paths)
qed (simp_all add: dir_meta_def enc_inode_def Let_def length_enc_strings)

lemma run_dir_a:
  obtains now t1 t2 d w where "word_time now" "word_time t2" "mem_good 94 w" "run_dir_ok w d" "drUser d = [1]"
    "run_inode_at w ''/a'' (dir_a t1)"
    "run_inode_at w ''/'' (set_modified t2 ((root_inode now)\<lparr>FileOrDirNames := [''_D_a'']\<rparr>))"
    "mem_feeds w ([1], HashString mem_services ''/b/index.dfs'', []) = None"
    "mem_feeds w ([1], HashString mem_services ''/b'', []) = None"
proof -
  obtain now d w where r: "word_time now" "mem_good 100 w" "run_dir_ok w d" "drUser d = [1]" "run_inode_at w ''/'' (root_inode now)"
    "\<And>p pw. length p \<le> 31 \<Longrightarrow> p \<noteq> ''/index.dfs'' \<Longrightarrow> mem_feeds w ([1], HashString mem_services p, pw) = None"
    by (rule run_root) (rule that)
  have g: "mem_good (94 + 6) w" using r(2) by simp
  have at: "inode_at mem_services run_libs run_json (mem_feeds w) (mem_blobs w) (drUser d) [] (abs_path []) (root_inode now)"
    using r(4,5) by simp
  have no: "no_dir mem_services (mem_feeds w) (drUser d) [] (abs_path ([] @ [''a'']))"
    using r(4,6) by (simp add: no_dir_def run_paths)
  have pn: "list_all proper_name []" "proper_name ''a''" "length ''a'' \<le> nameLength"
    by (simp_all add: proper_name_def nameLength_def)
  have f1: "inode_fits mem_services run_json 31 []
      \<lparr>iMeta = dir_meta (abs_path []) ''a'' t (if 0 = (0 :: 32 word) then or S_IFDIR dirDefaultMode else 0), FileOrDirNames = []\<rparr>"
    if "clock_time mem_services t" for t using run_a_fits [OF run_clock [OF that]] by simp
  have f2: "inode_fits mem_services run_json 31 []
      (set_modified t ((root_inode now)\<lparr>FileOrDirNames := FileOrDirNames (root_inode now) @ [entry_name ''a'' False]\<rparr>))"
    if "clock_time mem_services t" for t
    using run_root_fits [OF r(1) run_clock [OF that], of "[''_D_a'']"] by (simp add: entry_name_def dir_mark_def)
  obtain t1 t2 d' w' where m: "mem_good 94 w'" "run_dir_ok w' d'" "drUser d' = drUser d"
    "inode_at mem_services run_libs run_json (mem_feeds w') (mem_blobs w') (drUser d) [] (abs_path ([] @ [''a'']))
       \<lparr>iMeta = dir_meta (abs_path []) ''a'' t1 (if 0 = (0 :: 32 word) then or S_IFDIR dirDefaultMode else 0), FileOrDirNames = []\<rparr>"
    "inode_at mem_services run_libs run_json (mem_feeds w') (mem_blobs w') (drUser d) [] (abs_path [])
       (set_modified t2 ((root_inode now)\<lparr>FileOrDirNames := FileOrDirNames (root_inode now) @ [entry_name ''a'' False]\<rparr>))"
    "\<And>u' t p. (u', t) \<notin> {(drUser d, HashString mem_services (index_path (abs_path ([] @ [''a''])))),
        (drUser d, HashString mem_services (index_path (abs_path [])))} \<Longrightarrow> mem_feeds w' (u', t, p) = mem_feeds w (u', t, p)"
    "clock_time mem_services t2"
    by (rule storage.MkDir_ok [OF mem_storage g r(3) pn at no run_libs_ok f1 f2, where late = "\<lambda>i. False"])
       (assumption, assumption, rule that)
  have none: "mem_feeds w' ([1], HashString mem_services p, []) = None"
    if p: "length p \<le> 31" "p \<noteq> ''/index.dfs''" "p \<noteq> ''/a/index.dfs''" for p
  proof -
    have "HashString mem_services p \<noteq> HashString mem_services ''/index.dfs''"
      "HashString mem_services p \<noteq> HashString mem_services ''/a/index.dfs''"
      using p storage.hash_inj [OF mem_storage, of p "''/index.dfs''"] storage.hash_inj [OF mem_storage, of p "''/a/index.dfs''"]
      by auto
    then have "([1], HashString mem_services p) \<notin> {(drUser d, HashString mem_services (index_path (abs_path ([] @ [''a''])))),
        (drUser d, HashString mem_services (index_path (abs_path [])))}" using r(4) by (simp add: run_paths)
    from m(6) [OF this, of "[]"] r(6) [OF p(1,2), of "[]"] show ?thesis by (simp only:)
  qed
  have b: "mem_feeds w' ([1], HashString mem_services ''/b/index.dfs'', []) = None"
    "mem_feeds w' ([1], HashString mem_services ''/b'', []) = None" by (rule none; simp)+
  have a: "drUser d' = [1]" "run_inode_at w' ''/a'' (dir_a t1)"
    "run_inode_at w' ''/'' (set_modified t2 ((root_inode now)\<lparr>FileOrDirNames := [''_D_a'']\<rparr>))"
    using m(3-5) r(4) by (simp_all add: entry_name_def dir_mark_def)
  show thesis by (rule that [OF r(1) run_clock [OF m(7)] m(1,2) a b])
qed

section \<open>Witnesses\<close>

lemma MkDir_creates_witness:
  "\<exists>d w d' w' j. run_dir_ok w d \<and> MkDir mem_services run_libs run_json (\<lambda>i. False) d ''/a'' [] 0 w = (Inr (), d', w')
     \<and> run_inode_at w' ''/a'' j \<and> FileOrDirNames j = []"
proof -
  obtain now d w where r: "word_time now" "mem_good 100 w" "run_dir_ok w d" "drUser d = [1]" "run_inode_at w ''/'' (root_inode now)"
    "\<And>p pw. length p \<le> 31 \<Longrightarrow> p \<noteq> ''/index.dfs'' \<Longrightarrow> mem_feeds w ([1], HashString mem_services p, pw) = None"
    by (rule run_root) (rule that)
  have g: "mem_good (94 + 6) w" using r(2) by simp
  have at: "inode_at mem_services run_libs run_json (mem_feeds w) (mem_blobs w) (drUser d) [] (abs_path []) (root_inode now)"
    using r(4,5) by simp
  have no: "no_dir mem_services (mem_feeds w) (drUser d) [] (abs_path ([] @ [''a'']))"
    using r(4,6) by (simp add: no_dir_def run_paths)
  have pn: "list_all proper_name []" "proper_name ''a''" "length ''a'' \<le> nameLength"
    by (simp_all add: proper_name_def nameLength_def)
  have f1: "inode_fits mem_services run_json 31 []
      \<lparr>iMeta = dir_meta (abs_path []) ''a'' t (if 0 = (0 :: 32 word) then or S_IFDIR dirDefaultMode else 0), FileOrDirNames = []\<rparr>"
    if "clock_time mem_services t" for t using run_a_fits [OF run_clock [OF that]] by simp
  have f2: "inode_fits mem_services run_json 31 []
      (set_modified t ((root_inode now)\<lparr>FileOrDirNames := FileOrDirNames (root_inode now) @ [entry_name ''a'' False]\<rparr>))"
    if "clock_time mem_services t" for t
    using run_root_fits [OF r(1) run_clock [OF that], of "[''_D_a'']"] by (simp add: entry_name_def dir_mark_def)
  obtain t1 d' w' where m: "MkDir mem_services run_libs run_json (\<lambda>i. False) d (abs_path ([] @ [''a''])) [] 0 w = (Inr (), d', w')"
      "inode_at mem_services run_libs run_json (mem_feeds w') (mem_blobs w') (drUser d) [] (abs_path ([] @ [''a'']))
        \<lparr>iMeta = dir_meta (abs_path []) ''a'' t1 (if 0 = (0 :: 32 word) then or S_IFDIR dirDefaultMode else 0), FileOrDirNames = []\<rparr>"
    using MkDir_creates [OF mem_storage g r(3) pn at no run_libs_ok f1 f2, of "\<lambda>i. False"] by blast
  show ?thesis
    by (intro exI [of _ d] exI [of _ w] exI [of _ d'] exI [of _ w'] exI [of _ "dir_a t1"] conjI) (use r(3,4) m in simp_all)
qed

lemma MkDir_refuses_witness:
  "\<exists>d w w1 d2 w2. run_dir_ok w d
     \<and> MkDir mem_services run_libs run_json (\<lambda>i. False) d ''/b/c'' [] 0 w = (Inl ErrDirectoryNotPresent, d, w1)
     \<and> MkDir mem_services run_libs run_json (\<lambda>i. False) d ''/a'' [] 0 w = (Inl ErrDirectoryAlreadyPresent, d2, w2)"
proof -
  obtain now t1 t2 d w where r: "word_time now" "word_time t2" "mem_good 94 w" "run_dir_ok w d" "drUser d = [1]"
    "run_inode_at w ''/a'' (dir_a t1)"
    "run_inode_at w ''/'' (set_modified t2 ((root_inode now)\<lparr>FileOrDirNames := [''_D_a'']\<rparr>))"
    "mem_feeds w ([1], HashString mem_services ''/b/index.dfs'', []) = None"
    "mem_feeds w ([1], HashString mem_services ''/b'', []) = None"
    by (rule run_dir_a) (rule that)
  note refuses = MkDir_refuses [OF mem_storage r(3,4) run_libs_ok(1), where late = "\<lambda>i. False" and mode = 0]
  have bc: "path_Base ''/b/c'' = ''c''" "path_Dir ''/b/c'' = ''/b''" "index_path ''/b'' = ''/b/index.dfs''"
    by (simp_all add: path_Dir_def path_Base_def strip_slashes_def path_Clean_def clean_step_def Let_def index_path_def
        CombinePathAndFile_def IndexFileName_def TrimPrefix_def)
  have no: "no_dir mem_services (mem_feeds w) (drUser d) [] (path_Dir ''/b/c'')"
    using r(5,8,9) by (simp add: no_dir_def bc bytes_of_def)
  obtain w1 where 1: "MkDir mem_services run_libs run_json (\<lambda>i. False) d ''/b/c'' [] 0 w = (Inl ErrDirectoryNotPresent, d, w1)"
    using refuses [where path = "''/b/c''"] no by (simp add: bc HasPrefix_def) blast
  have pn: "list_all proper_name []" "proper_name ''a''" "length ''a'' \<le> 100" by (simp_all add: proper_name_def)
  obtain d2 w2 where 2: "MkDir mem_services run_libs run_json (\<lambda>i. False) d (abs_path ([] @ [''a''])) [] 0 w
      = (Inl ErrDirectoryAlreadyPresent, d2, w2)"
  proof -
    have "inode_at mem_services run_libs run_json (mem_feeds w) (mem_blobs w) (drUser d) [] (abs_path ([] @ [''a''])) (dir_a t1)"
      "inode_at mem_services run_libs run_json (mem_feeds w) (mem_blobs w) (drUser d) [] (abs_path [])
        (set_modified t2 ((root_inode now)\<lparr>FileOrDirNames := [''_D_a'']\<rparr>))"
      "length (index_path (abs_path [])) \<le> 31" "length (index_path (abs_path ([] @ [''a'']))) \<le> 31"
      using r(5-7) by (simp_all add: run_paths)
    with pn refuses [THEN conjunct2, THEN conjunct2, THEN conjunct2, THEN mp, of "[]" "''a''"] that show thesis by blast
  qed
  show ?thesis
    by (intro exI [of _ d] exI [of _ w] exI [of _ w1] exI [of _ d2] exI [of _ w2] conjI) (use r(4) 1 2 in simp_all)
qed

lemma ListDir_lists_witness:
  "\<exists>d w t d' w'. run_dir_ok w d
     \<and> ListDir mem_services run_libs run_json (\<lambda>i. False) rev d ''/'' [] w = (Inr ([dir_entry (dir_a t)], []), d', w')"
proof -
  obtain now t1 t2 d w where r: "word_time now" "word_time t2" "mem_good 94 w" "run_dir_ok w d" "drUser d = [1]"
    "run_inode_at w ''/a'' (dir_a t1)"
    "run_inode_at w ''/'' (set_modified t2 ((root_inode now)\<lparr>FileOrDirNames := [''_D_a'']\<rparr>))"
    by (rule run_dir_a) (rule that)
  have c: "HasPrefix ''_D_a'' dir_mark" "TrimPrefix ''_D_a'' dir_mark = ''a''" "CombinePathAndFile ''/'' ''a'' = ''/a''"
    by (simp_all add: HasPrefix_def TrimPrefix_def dir_mark_def CombinePathAndFile_def)
  have at: "inode_at mem_services run_libs run_json (mem_feeds w) (mem_blobs w) (drUser d) [] ''/''
      (set_modified t2 ((root_inode now)\<lparr>FileOrDirNames := [''_D_a'']\<rparr>))" using r(5,7) by simp
  have "\<exists>d' w'. ListDir mem_services run_libs run_json (\<lambda>i. False) rev d ''/'' [] w = (Inr ([dir_entry (dir_a t1)], []), d', w')"
    using ListDir_lists [OF mem_storage r(3,4) at _ _ run_libs_ok(1), of rev "\<lambda>x. dir_a t1" "\<lambda>i. False"] r(5,6)
    by (auto simp: rooted_def run_paths set_modified_def child_dirs_def c)
  with r(4) show ?thesis by blast
qed

lemma SyncDirectory_loads_tree_witness:
  "\<exists>d w d' w'. run_dir_ok w d
     \<and> SyncDirectory 2 mem_services run_libs run_json (\<lambda>i. False) [] ''/'' d w = (Inr (), d', w') \<and> ''/a'' \<in> dom (drMap d')"
proof -
  obtain now t1 t2 d w where r: "word_time now" "word_time t2" "mem_good 94 w" "run_dir_ok w d" "drUser d = [1]"
    "run_inode_at w ''/a'' (dir_a t1)"
    "run_inode_at w ''/'' (set_modified t2 ((root_inode now)\<lparr>FileOrDirNames := [''_D_a'']\<rparr>))"
    by (rule run_dir_a) (rule that)
  have c: "HasPrefix ''_D_a'' dir_mark" "\<not> HasPrefix ''_D_a'' file_mark" "CombinePathAndFile ''/'' (TrimPrefix ''_D_a'' dir_mark) = ''/a''"
    by (simp_all add: HasPrefix_def TrimPrefix_def dir_mark_def file_mark_def CombinePathAndFile_def)
  let ?t = "tree_dir mem_services run_libs run_json (mem_feeds w) (mem_blobs w) (drUser d) []"
  have tr: "storage.tree_ok mem_services 31 2 run_libs run_json (mem_feeds w) (mem_blobs w) (drUser d) [] ''/''"
  proof -
    let ?ok = "\<lambda>n. storage.tree_ok mem_services 31 n run_libs run_json (mem_feeds w) (mem_blobs w) (drUser d) []"
    note tree = storage.tree_ok.simps(2) [OF mem_storage]
    have "?ok (Suc 0) ''/a''"
      unfolding tree using r(5,6) by (intro conjI exI [of _ "dir_a t1"]) (simp_all add: rooted_def run_paths)
    then have "?ok (Suc (Suc 0)) ''/''"
      unfolding tree [of "Suc 0"] using r(5,7) c
      by (intro conjI exI [of _ "set_modified t2 ((root_inode now)\<lparr>FileOrDirNames := [''_D_a'']\<rparr>)"])
         (simp_all add: rooted_def run_paths set_modified_def)
    then show ?thesis by (simp only: numeral_2_eq_2)
  qed
  have "?t ''/'' ''/a''"
  proof (rule tree_dir_child [where x = "''_D_a''"])
    show "inode_at mem_services run_libs run_json (mem_feeds w) (mem_blobs w) (drUser d) [] ''/''
        (set_modified t2 ((root_inode now)\<lparr>FileOrDirNames := [''_D_a'']\<rparr>))" using r(5,7) by simp
    show "?t (CombinePathAndFile ''/'' (TrimPrefix ''_D_a'' dir_mark)) ''/a''" unfolding c(3) by (rule tree_dir_here)
  qed (use c in \<open>simp_all add: set_modified_def\<close>)
  with SyncDirectory_loads_tree [OF mem_storage r(3,4) run_libs_ok(1) tr, of "\<lambda>i. False"] r(4) show ?thesis by blast
qed

end
