(* ===== verification/Encodings.thy ===== *)
theory Encodings
  imports Documents
begin

text \<open>
  Functions of Go's standard library that the document databases and the pods
  use on text: strings.Split with a separator that is a string, ReplaceAll of a
  single character by nothing, encoding/hex, and the unsigned varints of
  encoding/binary.
\<close>

section \<open>Package strings\<close>

text \<open>strings.Cut: the text before and behind the first occurrence.\<close>

fun Cut :: "string \<Rightarrow> string \<Rightarrow> (string \<times> string) option" where
  "Cut sep [] = (if sep = [] then Some ([], []) else None)"
| "Cut sep (c # s) =
     (if prefix sep (c # s) then Some ([], drop (length sep) (c # s))
      else map_option (apfst (Cons c)) (Cut sep s))"

lemma Cut_Some: "Cut sep s = Some (a, b) \<Longrightarrow> s = a @ sep @ b"
  by (induction s arbitrary: a) (auto split: if_splits simp: prefix_def)

lemma Cut_None_iff: "Cut sep s = None \<longleftrightarrow> \<not> Contains s sep"
  by (induction s) auto

lemma Cut_length: "\<lbrakk>Cut sep s = Some (a, b); sep \<noteq> []\<rbrakk> \<Longrightarrow> length b < length s"
  by (drule Cut_Some) simp

text \<open>strings.Split; the program's separators are not empty.\<close>

function StringsSplit :: "string \<Rightarrow> string \<Rightarrow> string list" where
  "StringsSplit sep s =
     (if sep = [] then map (\<lambda>c. [c]) s
      else case Cut sep s of None \<Rightarrow> [s] | Some (a, b) \<Rightarrow> a # StringsSplit sep b)"
  by pat_completeness auto
termination by (relation "measure (\<lambda>(sep, s). length s)") (auto dest: Cut_length)

declare StringsSplit.simps [simp del]

lemma Split_of_Cut:
  assumes "Cut sep s = Some (a, b)" "sep \<noteq> []"
  shows "StringsSplit sep s = a # StringsSplit sep b" "StringsSplit sep b \<noteq> []"
  using assms by (simp_all add: StringsSplit.simps [of sep s] StringsSplit.simps [of sep b] split: option.split)

definition drop_char :: "char \<Rightarrow> string \<Rightarrow> string" where
  "drop_char d s = filter (\<lambda>c. c \<noteq> d) s"

section \<open>Package encoding/hex\<close>

definition hex_digit :: "nat \<Rightarrow> char" where
  "hex_digit n = (if n < 10 then char_of (48 + n) else char_of (87 + n))"

definition hex_value :: "char \<Rightarrow> nat option" where
  "hex_value c =
     (let n = of_char c :: nat in
      if 48 \<le> n \<and> n \<le> 57 then Some (n - 48)
      else if 97 \<le> n \<and> n \<le> 102 then Some (n - 87)
      else if 65 \<le> n \<and> n \<le> 70 then Some (n - 55) else None)"

definition HexEncode :: "bytes \<Rightarrow> string" where
  "HexEncode b = concat (map (\<lambda>x. [hex_digit (unat x div 16), hex_digit (unat x mod 16)]) b)"

text \<open>None: a character that is no digit, or an odd length.\<close>

fun HexDecode :: "string \<Rightarrow> bytes option" where
  "HexDecode [] = Some []"
| "HexDecode [c] = None"
| "HexDecode (c # d # s) =
     (case (hex_value c, hex_value d, HexDecode s) of
        (Some h, Some l, Some b) \<Rightarrow> Some (of_nat (16 * h + l) # b)
      | _ \<Rightarrow> None)"

lemma hex_value_digit: "n < 16 \<Longrightarrow> hex_value (hex_digit n) = Some n"
  by (simp add: hex_value_def hex_digit_def Let_def take_bit_nat_eq_self of_char_of)

lemma unat_small: "n < 256 \<Longrightarrow> unat (of_nat n :: byte) = n"
  by (simp add: unat_of_nat take_bit_nat_eq_self)

lemma HexDecode_Encode [simp]: "HexDecode (HexEncode b) = Some b"
proof (induction b)
  case (Cons x b)
  have "unat x < 256" using unsigned_less [of x] by simp
  then have "unat x div 16 < 16" "unat x mod 16 < 16" by auto
  moreover have "16 * (unat x div 16) + unat x mod 16 = unat x" by simp
  ultimately show ?case using Cons.IH by (simp add: HexEncode_def hex_value_digit del: of_nat_add of_nat_mult)
qed (simp add: HexEncode_def)

lemma HexEncode_inj: "HexEncode a = HexEncode b \<Longrightarrow> a = b"
  using HexDecode_Encode by (metis option.inject)

lemma length_HexEncode [simp]: "length (HexEncode b) = 2 * length b"
  by (induction b) (simp_all add: HexEncode_def)

section \<open>Package encoding/binary\<close>

text \<open>Seven bits a byte, the lowest first; the top bit says that more follow.\<close>

function PutUvarint :: "nat \<Rightarrow> bytes" where
  "PutUvarint x = (if x < 128 then [of_nat x] else of_nat (x mod 128 + 128) # PutUvarint (x div 128))"
  by pat_completeness auto
termination by (relation "measure id") auto

declare PutUvarint.simps [simp del]

text \<open>ReadUvarint reads at most ten bytes (overflow behind them) of the buffer;
  the first argument counts them.  None stands for its errors.\<close>

fun read_uvarint :: "nat \<Rightarrow> nat \<Rightarrow> nat \<Rightarrow> bytes \<Rightarrow> nat option" where
  "read_uvarint i s x [] = None"
| "read_uvarint i s x (b # r) =
     (if i \<ge> 10 then None
      else if unat b < 128 then (if i = 9 \<and> unat b > 1 then None else Some (x + unat b * 2 ^ s))
      else read_uvarint (Suc i) (s + 7) (x + (unat b - 128) * 2 ^ s) r)"

definition ReadUvarint :: "bytes \<Rightarrow> nat option" where
  "ReadUvarint b = read_uvarint 0 0 0 b"

lemma read_put_uvarint:
  "\<lbrakk>y < 2 ^ (64 - 7 * i); i \<le> 9\<rbrakk> \<Longrightarrow> read_uvarint i (7 * i) x (PutUvarint y @ r) = Some (x + y * 2 ^ (7 * i))"
proof (induction y arbitrary: i x rule: less_induct)
  case (less y)
  show ?case
  proof (cases "y < 128")
    case True
    then have "unat (of_nat y :: byte) = y" by (simp add: unat_small)
    moreover have "i = 9 \<Longrightarrow> y < 2" using less.prems by simp
    ultimately show ?thesis using True less.prems by (subst PutUvarint.simps) auto
  next
    case False
    have i: "i < 9"
    proof (rule ccontr)
      assume "\<not> i < 9" then have "i = 9" using less.prems by simp
      with less.prems False show False by simp
    qed
    have b: "unat (of_nat (y mod 128 + 128) :: byte) = y mod 128 + 128" by (rule unat_small) (use mod_less_divisor [of 128 y] in linarith)
    have "(2 :: nat) ^ (64 - 7 * i) = 128 * 2 ^ (64 - 7 * Suc i)"
    proof -
      have "64 - 7 * i = 7 + (64 - 7 * Suc i)" using i by simp
      then have "(2 :: nat) ^ (64 - 7 * i) = 2 ^ 7 * 2 ^ (64 - 7 * Suc i)" by (simp only: power_add)
      then show ?thesis by simp
    qed
    with less.prems(1) have "y < 2 ^ (64 - 7 * Suc i) * 128" by (simp only: mult.commute)
    then have d: "y div 128 < 2 ^ (64 - 7 * Suc i)" by (rule less_mult_imp_div_less)
    have "y div 128 < y" using False by simp
    from less.IH [OF this d, of "x + y mod 128 * 2 ^ (7 * i)"] i
    have "read_uvarint (Suc i) (7 * i + 7) (x + y mod 128 * 2 ^ (7 * i)) (PutUvarint (y div 128) @ r)
        = Some (x + y mod 128 * 2 ^ (7 * i) + y div 128 * 2 ^ (7 * i + 7))" by (simp add: add.commute)
    moreover have "y mod 128 * 2 ^ (7 * i) + y div 128 * 2 ^ (7 * i + 7) = y * 2 ^ (7 * i)"
    proof -
      have "(y mod 128 + y div 128 * 128) * 2 ^ (7 * i) = y * 2 ^ (7 * i)" by (simp only: mod_div_mult_eq)
      moreover have "(2 :: nat) ^ (7 * i + 7) = 128 * 2 ^ (7 * i)" by (simp add: power_add)
      ultimately show ?thesis by (simp only: add_mult_distrib mult.assoc)
    qed
    moreover have "read_uvarint i (7 * i) x (PutUvarint y @ r)
        = read_uvarint (Suc i) (7 * i + 7) (x + y mod 128 * 2 ^ (7 * i)) (PutUvarint (y div 128) @ r)"
      using False b i by (subst PutUvarint.simps) (simp add: add.commute)
    ultimately show ?thesis by (simp only: add.assoc)
  qed
qed

lemma ReadUvarint_Put [simp]: "y < 2 ^ 64 \<Longrightarrow> ReadUvarint (PutUvarint y) = Some y"
  using read_put_uvarint [of y 0 0 "[]"] by (simp add: ReadUvarint_def)

end
