(* ===== verification/DocModel.thy ===== *)
theory DocModel
  imports KV FileReader Encodings
begin

text \<open>
  Document databases, the first part of pkg/collection/document.go: the store,
  the schemas of the databases, creating, opening, deleting and counting.  The
  schemas of a pod are listed in a text feed, one JSON text a line.  An open
  database maps the names of its fields to indexes; the indexes are Go pointers,
  shared with the batches made from them: dsHeap holds what the addresses point
  to.  As in KV, a Go map that is ranged over is an association list and ord the
  order in which its keys are met.

  The library record doclib holds what encoding/json, regexp, encoding/gob and
  the floating point numbers give: 'f is float64, 'v is float32.
\<close>

section \<open>Data\<close>

datatype 'f jvalue =
  JNull | JBool bool | JNumber 'f | JString string | JArray "'f jvalue list" | JObject "(string \<times> 'f jvalue) list"

record SIndex =
  FieldName :: string
  FieldType :: IndexType

record DBSchema =
  scName :: string
  scMutable :: bool
  SimpleIndexes :: "SIndex list"
  MapIndexes :: "SIndex list"
  ListIndexes :: "SIndex list"
  VectorIndexes :: "SIndex list"
  CompoundIndexes :: "SIndex list list"

record ('f, 'v) doclib =
  UnmarshalAny :: "bytes \<Rightarrow> 'f jvalue option"
  MarshalSchema :: "DBSchema \<Rightarrow> string"
  UnmarshalSchema :: "string \<Rightarrow> DBSchema option"
  Regexp :: "string \<Rightarrow> (string \<Rightarrow> bool) option"
  FormatFixed6 :: "'f \<Rightarrow> string"
  Truncate :: "'f \<Rightarrow> int"
  EncodeVector :: "'v list \<Rightarrow> bytes"
  DecodeVector :: "bytes \<Rightarrow> 'v list option"
  ToFloat32 :: "'f \<Rightarrow> 'v"
  ToFloat64 :: "'v \<Rightarrow> 'f"
  Mul32 :: "'v \<Rightarrow> 'v \<Rightarrow> 'v"
  HalfFromOne :: "'v \<Rightarrow> 'v"
  Less32 :: "'v \<Rightarrow> 'v \<Rightarrow> bool"
  Zero64 :: 'f
  Add64 :: "'f \<Rightarrow> 'f \<Rightarrow> 'f"
  Mul64 :: "'f \<Rightarrow> 'f \<Rightarrow> 'f"
  Div64 :: "'f \<Rightarrow> 'f \<Rightarrow> 'f"
  Sqrt64 :: "'f \<Rightarrow> 'f"
  Eq64 :: "'f \<Rightarrow> 'f \<Rightarrow> bool"

text \<open>The four maps of a database from the names of fields to the addresses of
  their indexes.\<close>

type_synonym index_map = "(string \<times> nat) list"

record DocumentDB =
  dbName :: string
  dbMutable :: bool
  simpleIndexes :: index_map
  mapIndexes :: index_map
  listIndexes :: index_map
  vectorIndexes :: index_map

record DocStore =
  dsPodName :: string
  dsUser :: Address
  openDocDBs :: "string \<rightharpoonup> DocumentDB"
  dsHeap :: "nat \<Rightarrow> Index"
  dsNext :: nat

abbreviation "ErrIndexNotSupported \<equiv> Sentinel ''index not supported''"
abbreviation "ErrInvalidIndexType \<equiv> Sentinel ''invalid index type''"
abbreviation "ErrUnmarshallingDBSchema \<equiv> Sentinel ''could not unmarshall document db schema''"
abbreviation "ErrDocumentDBAlreadyPresent \<equiv> Sentinel ''document db already present''"
abbreviation "ErrDocumentDBNotPresent \<equiv> Sentinel ''document db  not present''"
abbreviation "ErrDocumentDBNotOpened \<equiv> Sentinel ''document db not opened''"
abbreviation "ErrDocumentDBAlreadyOpened \<equiv> Sentinel ''document db already opened''"
abbreviation "ErrDocumentDBIndexFieldNotPresent \<equiv> Sentinel ''document db index field not present''"
abbreviation "ErrModifyingImmutableDocDB \<equiv> Sentinel ''trying to modify immutable document db''"
abbreviation "ErrInvalidOperator \<equiv> Sentinel ''invalid operator''"
abbreviation "ErrDocumentNotPresent \<equiv> Sentinel ''document not present''"
abbreviation "ErrInvalidDocumentId \<equiv> Sentinel ''invalid document id''"
abbreviation "ErrUnknownJsonFormat \<equiv> Sentinel ''unknown json format''"
abbreviation "NilPointer \<equiv> Panic ''nil pointer dereference''"
abbreviation "BadAssertion \<equiv> Panic ''interface conversion''"

definition documentFile :: string where "documentFile = ''document_dbs''"
definition DefaultIndexFieldName :: string where "DefaultIndexFieldName = ''id''"

definition NewDocumentStore :: "string \<Rightarrow> Address \<Rightarrow> (nat \<Rightarrow> Index) \<Rightarrow> DocStore" where
  "NewDocumentStore podName user heap =
     \<lparr>dsPodName = podName, dsUser = user, openDocDBs = Map.empty, dsHeap = heap, dsNext = 0\<rparr>"

definition IsDBOpened :: "DocStore \<Rightarrow> string \<Rightarrow> bool" where
  "IsDBOpened ds name = (openDocDBs ds name \<noteq> None)"

definition getOpenedDb :: "DocStore \<Rightarrow> string \<Rightarrow> DocumentDB option" where
  "getOpenedDb ds name = openDocDBs ds name"

definition addToOpenedDb :: "string \<Rightarrow> DocumentDB \<Rightarrow> DocStore \<Rightarrow> DocStore" where
  "addToOpenedDb name db ds = ds\<lparr>openDocDBs := (openDocDBs ds)(name \<mapsto> db)\<rparr>"

definition removeFromOpenedDB :: "string \<Rightarrow> DocStore \<Rightarrow> DocStore" where
  "removeFromOpenedDB name ds = ds\<lparr>openDocDBs := (openDocDBs ds)(name := None)\<rparr>"

text \<open>The index behind an address, and ranging over a map.\<close>

definition set_doc_index :: "nat \<Rightarrow> Index \<Rightarrow> DocStore \<Rightarrow> DocStore" where
  "set_doc_index a idx ds = ds\<lparr>dsHeap := (dsHeap ds)(a := idx)\<rparr>"

definition ranged :: "(string list \<Rightarrow> string list) \<Rightarrow> (string \<times> 'a) list \<Rightarrow> (string \<times> 'a) list" where
  "ranged ord m = map (\<lambda>k. (k, the (map_of m k))) (ord (map fst m))"

section \<open>The list of the schemas\<close>

primrec parse_schemas ::
  "('f, 'v) doclib \<Rightarrow> string list \<Rightarrow> (string \<times> DBSchema) list \<Rightarrow> (string \<times> DBSchema) list result" where
  "parse_schemas dl [] acc = Inr acc"
| "parse_schemas dl (line # ls) acc =
     (case UnmarshalSchema dl line of
        None \<Rightarrow> Inl ErrUnmarshallingDBSchema
      | Some schema \<Rightarrow> parse_schemas dl ls (AList.update (scName schema) schema acc))"

definition LoadDocumentDBSchemas ::
  "('f, 'v) doclib \<Rightarrow> 'w services \<Rightarrow> DocStore \<Rightarrow> string \<Rightarrow> 'w \<Rightarrow> (string \<times> DBSchema) list result \<times> 'w" where
  "LoadDocumentDBSchemas dl sv ds pw w =
     (case GetFeedData sv (HashString sv documentFile) (dsUser ds) (bytes_of pw) w of
        (Inl e, w1) \<Rightarrow>
          if error_string e \<noteq> ''feed does not exist or was not updated yet'' then (Inl e, w1) else (Inr [], w1)
      | (Inr (a, d), w1) \<Rightarrow> (parse_schemas dl (butlast (SplitChar newline_char (feed_text d))) [], w1))"

definition print_schemas :: "('f, 'v) doclib \<Rightarrow> (string \<times> DBSchema) list \<Rightarrow> string" where
  "print_schemas dl cs = concat (map (\<lambda>c. MarshalSchema dl (snd c) @ [newline_char]) cs)"

definition storeDocumentDBSchemas ::
  "('f, 'v) doclib \<Rightarrow> 'w services \<Rightarrow> (string list \<Rightarrow> string list) \<Rightarrow> DocStore \<Rightarrow> string
    \<Rightarrow> (string \<times> DBSchema) list \<Rightarrow> 'w \<Rightarrow> unit result \<times> 'w" where
  "storeDocumentDBSchemas dl sv ord ds pw cs w =
     UpdateFeed sv (dsUser ds) (HashString sv documentFile)
       (Raw (bytes_of (print_schemas dl (ranged ord cs)))) (bytes_of pw) w"

section \<open>Creating a database\<close>

text \<open>The loop over the given fields: an index for each, listed by its kind.\<close>

definition add_index :: "SIndex \<Rightarrow> DBSchema \<Rightarrow> DBSchema" where
  "add_index si sc =
     (if FieldType si = MapIndex then sc\<lparr>MapIndexes := MapIndexes sc @ [si]\<rparr>
      else if FieldType si = ListIndex then sc\<lparr>ListIndexes := ListIndexes sc @ [si]\<rparr>
      else if FieldType si = VectorIndex then sc\<lparr>VectorIndexes := VectorIndexes sc @ [si]\<rparr>
      else sc\<lparr>SimpleIndexes := SimpleIndexes sc @ [si]\<rparr>)"

primrec create_indexes ::
  "'w services \<Rightarrow> DocStore \<Rightarrow> string \<Rightarrow> string \<Rightarrow> bool \<Rightarrow> (string \<times> IndexType) list \<Rightarrow> DBSchema \<Rightarrow> 'w
    \<Rightarrow> DBSchema result \<times> 'w" where
  "create_indexes sv ds dbname pw mu [] sc w = (Inr sc, w)"
| "create_indexes sv ds dbname pw mu (f # fs) sc w =
     (case CreateIndex sv (dsPodName ds) dbname (fst f) pw (snd f) (dsUser ds) mu w of
        (Inl e, w1) \<Rightarrow> (Inl e, w1)
      | (Inr u, w1) \<Rightarrow>
          create_indexes sv ds dbname pw mu fs (add_index \<lparr>FieldName = fst f, FieldType = snd f\<rparr> sc) w1)"

definition CreateDocumentDB ::
  "('f, 'v) doclib \<Rightarrow> 'w services \<Rightarrow> (string list \<Rightarrow> string list) \<Rightarrow> DocStore \<Rightarrow> string \<Rightarrow> string
    \<Rightarrow> (string \<times> IndexType) list \<Rightarrow> bool \<Rightarrow> 'w \<Rightarrow> unit result \<times> 'w" where
  "CreateDocumentDB dl sv ord ds name pw indexes mu w =
     (if IsReadOnlyFeed sv w then (Inl ErrReadOnlyIndex, w)
      else if IsDBOpened ds name then (Inl ErrDocumentDBAlreadyOpened, w)
      else case LoadDocumentDBSchemas dl sv ds pw w of
        (Inl e, w1) \<Rightarrow> (Inl e, w1)
      | (Inr docTables, w1) \<Rightarrow>
          if map_of docTables name \<noteq> None then (Inl ErrDocumentDBAlreadyPresent, w1)
          else (case CreateIndex sv (dsPodName ds) name DefaultIndexFieldName pw StringIndex (dsUser ds) mu w1 of
             (Inl e, w2) \<Rightarrow> (Inl e, w2)
           | (Inr u, w2) \<Rightarrow>
               (case create_indexes sv ds name pw mu (ranged ord indexes)
                       \<lparr>scName = name, scMutable = mu,
                        SimpleIndexes = [\<lparr>FieldName = DefaultIndexFieldName, FieldType = StringIndex\<rparr>],
                        MapIndexes = [], ListIndexes = [], VectorIndexes = [], CompoundIndexes = []\<rparr> w2 of
                  (Inl e, w3) \<Rightarrow> (Inl e, w3)
                | (Inr schema, w3) \<Rightarrow>
                    storeDocumentDBSchemas dl sv ord ds pw (AList.update name schema docTables) w3)))"

section \<open>Opening a database\<close>

text \<open>The loop over one list of the schema: every index is opened and put behind a
  fresh address.\<close>

primrec open_indexes ::
  "'w services \<Rightarrow> string \<Rightarrow> string \<Rightarrow> SIndex list \<Rightarrow> index_map \<Rightarrow> DocStore \<Rightarrow> 'w
    \<Rightarrow> index_map result \<times> DocStore \<times> 'w" where
  "open_indexes sv dbname pw [] m ds w = (Inr m, ds, w)"
| "open_indexes sv dbname pw (si # ss) m ds w =
     (case OpenIndex sv (dsPodName ds) dbname (FieldName si) pw (dsUser ds) w of
        (Inl e, w1) \<Rightarrow> (Inl e, ds, w1)
      | (Inr idx, w1) \<Rightarrow>
          open_indexes sv dbname pw ss (AList.update (FieldName si) (dsNext ds) m)
            (ds\<lparr>dsHeap := (dsHeap ds)(dsNext ds := idx), dsNext := Suc (dsNext ds)\<rparr>) w1)"

definition open_schema ::
  "'w services \<Rightarrow> DocStore \<Rightarrow> string \<Rightarrow> string \<Rightarrow> DBSchema \<Rightarrow> 'w \<Rightarrow> unit result \<times> DocStore \<times> 'w" where
  "open_schema sv ds name pw schema w =
     (case open_indexes sv name pw (SimpleIndexes schema) [] ds w of
        (Inl e, ds1, w1) \<Rightarrow> (Inl e, ds1, w1)
      | (Inr ss, ds1, w1) \<Rightarrow>
     (case open_indexes sv name pw (MapIndexes schema) [] ds1 w1 of
        (Inl e, ds2, w2) \<Rightarrow> (Inl e, ds2, w2)
      | (Inr ms, ds2, w2) \<Rightarrow>
     (case open_indexes sv name pw (ListIndexes schema) [] ds2 w2 of
        (Inl e, ds3, w3) \<Rightarrow> (Inl e, ds3, w3)
      | (Inr ls, ds3, w3) \<Rightarrow>
     (case open_indexes sv name pw (VectorIndexes schema) [] ds3 w3 of
        (Inl e, ds4, w4) \<Rightarrow> (Inl e, ds4, w4)
      | (Inr vs, ds4, w4) \<Rightarrow>
          (Inr (), addToOpenedDb name
             \<lparr>dbName = scName schema, dbMutable = scMutable schema, simpleIndexes = ss, mapIndexes = ms,
              listIndexes = ls, vectorIndexes = vs\<rparr> ds4, w4)))))"

definition OpenDocumentDB ::
  "('f, 'v) doclib \<Rightarrow> 'w services \<Rightarrow> DocStore \<Rightarrow> string \<Rightarrow> string \<Rightarrow> 'w \<Rightarrow> unit result \<times> DocStore \<times> 'w" where
  "OpenDocumentDB dl sv ds name pw w =
     (if IsDBOpened ds name then (Inl ErrDocumentDBAlreadyOpened, ds, w) else
      case LoadDocumentDBSchemas dl sv ds pw w of
        (Inl e, w1) \<Rightarrow> (Inl e, ds, w1)
      | (Inr docTables, w1) \<Rightarrow>
          (case map_of docTables name of
             None \<Rightarrow> (Inl ErrDocumentDBNotPresent, ds, w1)
           | Some schema \<Rightarrow> open_schema sv ds name pw schema w1))"

section \<open>Deleting databases\<close>

primrec delete_indexes :: "'w services \<Rightarrow> DocStore \<Rightarrow> string \<Rightarrow> nat list \<Rightarrow> 'w \<Rightarrow> unit result \<times> 'w" where
  "delete_indexes sv ds pw [] w = (Inr (), w)"
| "delete_indexes sv ds pw (a # as) w =
     (case DeleteIndex sv (dsHeap ds a) pw w of
        (Inl e, w1) \<Rightarrow> (Inl e, w1)
      | (Inr u, w1) \<Rightarrow> delete_indexes sv ds pw as w1)"

text \<open>The part that DeleteDocumentDB and DeleteAllDocumentDBs share: the database is
  opened when it is not open, and its indexes deleted, one map after the other.\<close>

definition delete_db ::
  "('f, 'v) doclib \<Rightarrow> 'w services \<Rightarrow> (string list \<Rightarrow> string list) \<Rightarrow> DocStore \<Rightarrow> string \<Rightarrow> string \<Rightarrow> 'w
    \<Rightarrow> unit result \<times> DocStore \<times> 'w" where
  "delete_db dl sv ord ds name pw w =
     (case (if IsDBOpened ds name then (Inr (), ds, w) else OpenDocumentDB dl sv ds name pw w) of
        (Inl e, ds1, w1) \<Rightarrow> (Inl e, ds1, w1)
      | (Inr u, ds1, w1) \<Rightarrow>
          (case getOpenedDb ds1 name of
             None \<Rightarrow> (Inl NilPointer, ds1, w1)
           | Some db \<Rightarrow>
               (case delete_indexes sv ds1 pw
                       (map snd (ranged ord (simpleIndexes db)) @ map snd (ranged ord (mapIndexes db))
                        @ map snd (ranged ord (listIndexes db)) @ map snd (ranged ord (vectorIndexes db))) w1 of
                  (r, w2) \<Rightarrow> (r, ds1, w2))))"

definition DeleteDocumentDB ::
  "('f, 'v) doclib \<Rightarrow> 'w services \<Rightarrow> (string list \<Rightarrow> string list) \<Rightarrow> DocStore \<Rightarrow> string \<Rightarrow> string \<Rightarrow> 'w
    \<Rightarrow> unit result \<times> DocStore \<times> 'w" where
  "DeleteDocumentDB dl sv ord ds name pw w =
     (if IsReadOnlyFeed sv w then (Inl ErrReadOnlyIndex, ds, w) else
      case LoadDocumentDBSchemas dl sv ds pw w of
        (Inl e, w1) \<Rightarrow> (Inl e, ds, w1)
      | (Inr docTables, w1) \<Rightarrow>
          if map_of docTables name = None then (Inl ErrDocumentDBNotPresent, ds, w1)
          else (case delete_db dl sv ord ds name pw w1 of
             (Inl e, ds1, w2) \<Rightarrow>
               (Inl e, if IsDBOpened ds1 name then removeFromOpenedDB name ds1 else ds1, w2)
           | (Inr u, ds1, w2) \<Rightarrow>
               (case storeDocumentDBSchemas dl sv ord ds1 pw (AList.delete name docTables) w2 of
                  (r, w3) \<Rightarrow> (r, removeFromOpenedDB name ds1, w3))))"

text \<open>The deferred calls of DeleteAllDocumentDBs remove the databases when it
  returns; the third component collects their names.\<close>

primrec delete_dbs ::
  "('f, 'v) doclib \<Rightarrow> 'w services \<Rightarrow> (string list \<Rightarrow> string list) \<Rightarrow> string \<Rightarrow> string list \<Rightarrow> DocStore \<Rightarrow> 'w
    \<Rightarrow> unit result \<times> DocStore \<times> string list \<times> 'w" where
  "delete_dbs dl sv ord pw [] ds w = (Inr (), ds, [], w)"
| "delete_dbs dl sv ord pw (name # names) ds w =
     (case delete_db dl sv ord ds name pw w of
        (Inl e, ds1, w1) \<Rightarrow> (Inl e, ds1, if IsDBOpened ds1 name then [name] else [], w1)
      | (Inr u, ds1, w1) \<Rightarrow>
          (case delete_dbs dl sv ord pw names ds1 w1 of
             (r, ds2, deferred, w2) \<Rightarrow> (r, ds2, name # deferred, w2)))"

definition DeleteAllDocumentDBs ::
  "('f, 'v) doclib \<Rightarrow> 'w services \<Rightarrow> (string list \<Rightarrow> string list) \<Rightarrow> DocStore \<Rightarrow> string \<Rightarrow> 'w
    \<Rightarrow> unit result \<times> DocStore \<times> 'w" where
  "DeleteAllDocumentDBs dl sv ord ds pw w =
     (if IsReadOnlyFeed sv w then (Inl ErrReadOnlyIndex, ds, w) else
      case LoadDocumentDBSchemas dl sv ds pw w of
        (Inl e, w1) \<Rightarrow> (Inl e, ds, w1)
      | (Inr docTables, w1) \<Rightarrow>
          (case delete_dbs dl sv ord pw (ord (map fst docTables)) ds w1 of
             (r, ds1, deferred, w2) \<Rightarrow>
               let closed = fold removeFromOpenedDB deferred ds1 in
               (case r of
                  Inl e \<Rightarrow> (Inl e, closed, w2)
                | Inr u \<Rightarrow>
                    (case storeDocumentDBSchemas dl sv ord ds1 pw [] w2 of (r', w3) \<Rightarrow> (r', closed, w3)))))"

end
