(* ===== verification/DocOps.thy ===== *)
theory DocOps
  imports DocModel
begin

text \<open>
  Document databases, the second part of pkg/collection/document.go: inserting,
  reading and deleting documents, and counting and finding them by an expression.
  fuel n bounds the depth of the tries, k the rounds of a loop over an iterator.
\<close>

section \<open>The indexes of a document\<close>

text \<open>One case of the loop of Put over the indexes: the values are put one after
  the other; mp are the entries of a map value in the order of the range.  A value
  of the wrong type makes the type assertion panic; so does a field that is not in
  the document, which is checked for the simple indexes only.\<close>

fun as_string :: "'f jvalue option \<Rightarrow> string result" where
  "as_string (Some (JString s)) = Inr s"
| "as_string v = Inl BadAssertion"

fun as_number :: "'f jvalue option \<Rightarrow> 'f result" where
  "as_number (Some (JNumber x)) = Inr x"
| "as_number v = Inl BadAssertion"

fun as_array :: "'f jvalue option \<Rightarrow> 'f jvalue list result" where
  "as_array (Some (JArray vs)) = Inr vs"
| "as_array v = Inl BadAssertion"

fun as_object :: "'f jvalue option \<Rightarrow> (string \<times> 'f jvalue) list result" where
  "as_object (Some (JObject m)) = Inr m"
| "as_object v = Inl BadAssertion"

text \<open>A loop that puts string keys, each of which may be a panic.\<close>

primrec put_keys ::
  "'w services \<Rightarrow> bytes \<Rightarrow> string result list \<Rightarrow> Index \<Rightarrow> 'w \<Rightarrow> unit result \<times> Index \<times> 'w" where
  "put_keys sv ref [] idx w = (Inr (), idx, w)"
| "put_keys sv ref (k # ks) idx w =
     (case k of
        Inl e \<Rightarrow> (Inl e, idx, w)
      | Inr key \<Rightarrow>
          (case Put sv idx key ref StringIndex True w of
             (Inl e, idx1, w1) \<Rightarrow> (Inl e, idx1, w1)
           | (Inr u, idx1, w1) \<Rightarrow> put_keys sv ref ks idx1 w1))"

text \<open>The keys of a map value and of a list value.\<close>

definition map_keys :: "(string \<times> 'f jvalue) list \<Rightarrow> string result list" where
  "map_keys m = map (\<lambda>(k, v). case as_string (Some v) of Inl e \<Rightarrow> Inl e | Inr s \<Rightarrow> Inr (k @ s)) m"

definition list_keys :: "'f jvalue list \<Rightarrow> string result list" where
  "list_keys vs = map (\<lambda>v. as_string (Some v)) vs"

primrec vector_of :: "('f, 'v) doclib \<Rightarrow> 'f jvalue list \<Rightarrow> 'v list result" where
  "vector_of dl [] = Inr []"
| "vector_of dl (x # xs) =
     (case as_number (Some x) of
        Inl e \<Rightarrow> Inl e
      | Inr f \<Rightarrow> (case vector_of dl xs of Inl e \<Rightarrow> Inl e | Inr vs \<Rightarrow> Inr (ToFloat32 dl f # vs)))"

definition put_field ::
  "('f, 'v) doclib \<Rightarrow> 'f floats \<Rightarrow> 'w services \<Rightarrow> (string list \<Rightarrow> string list) \<Rightarrow> string \<Rightarrow> 'f jvalue option \<Rightarrow> bytes \<Rightarrow> Index \<Rightarrow> 'w
    \<Rightarrow> unit result \<times> Index \<times> 'w" where
  "put_field dl fl sv ord field v ref idx w =
     (case ixType idx of
        VectorIndex \<Rightarrow>
          (case as_array v of
             Inl e \<Rightarrow> (Inl e, idx, w)
           | Inr embedding \<Rightarrow>
               (case vector_of dl embedding of
                  Inl e \<Rightarrow> (Inl e, idx, w)
                | Inr vec \<Rightarrow> Put sv idx (HexEncode (EncodeVector dl vec)) ref StringIndex True w))
      | StringIndex \<Rightarrow>
          (case as_string v of
             Inl e \<Rightarrow> (Inl e, idx, w)
           | Inr s \<Rightarrow> Put sv idx s ref StringIndex (field \<noteq> DefaultIndexFieldName) w)
      | MapIndex \<Rightarrow>
          (case as_object v of
             Inl e \<Rightarrow> (Inl e, idx, w)
           | Inr m \<Rightarrow> put_keys sv ref (map_keys (ranged ord m)) idx w)
      | ListIndex \<Rightarrow>
          (case as_array v of
             Inl e \<Rightarrow> (Inl e, idx, w)
           | Inr vs \<Rightarrow> put_keys sv ref (list_keys vs) idx w)
      | NumberIndex \<Rightarrow>
          (case as_number v of
             Inl e \<Rightarrow> (Inl e, idx, w)
           | Inr x \<Rightarrow> PutNumber fl sv idx x ref NumberIndex True w)
      | BytesIndex \<Rightarrow> (Inl ErrIndexNotSupported, idx, w)
      | InvalidIndex \<Rightarrow> (Inl ErrInvalidIndexType, idx, w))"

text \<open>A loop over the indexes of a map, each of which the body may change.\<close>

primrec over_fields ::
  "(string \<Rightarrow> Index \<Rightarrow> 'w \<Rightarrow> unit result \<times> Index \<times> 'w) \<Rightarrow> index_map \<Rightarrow> DocStore \<Rightarrow> 'w
    \<Rightarrow> unit result \<times> DocStore \<times> 'w" where
  "over_fields body [] ds w = (Inr (), ds, w)"
| "over_fields body (fa # fs) ds w =
     (case body (fst fa) (dsHeap ds (snd fa)) w of
        (Inl e, idx, w1) \<Rightarrow> (Inl e, set_doc_index (snd fa) idx ds, w1)
      | (Inr u, idx, w1) \<Rightarrow> over_fields body fs (set_doc_index (snd fa) idx ds) w1)"

definition put_fields ::
  "('f, 'v) doclib \<Rightarrow> 'f floats \<Rightarrow> 'w services \<Rightarrow> (string list \<Rightarrow> string list) \<Rightarrow> (string \<times> 'f jvalue) list \<Rightarrow> bytes
    \<Rightarrow> index_map \<Rightarrow> DocStore \<Rightarrow> 'w \<Rightarrow> unit result \<times> DocStore \<times> 'w" where
  "put_fields dl fl sv ord docMap ref =
     over_fields (\<lambda>field. put_field dl fl sv ord field (map_of docMap field) ref)"

text \<open>The map in which Put collects the indexes: a field in two of the maps is
  taken from the later one.\<close>

definition all_indexes :: "DocumentDB \<Rightarrow> index_map" where
  "all_indexes db =
     fold (\<lambda>(f, a) m. AList.update f a m)
       (simpleIndexes db @ mapIndexes db @ listIndexes db @ vectorIndexes db) []"

section \<open>Deleting a document\<close>

primrec delete_keys ::
  "'w services \<Rightarrow> string result list \<Rightarrow> Index \<Rightarrow> 'w \<Rightarrow> unit result \<times> Index \<times> 'w" where
  "delete_keys sv [] idx w = (Inr (), idx, w)"
| "delete_keys sv (k # ks) idx w =
     (case k of
        Inl e \<Rightarrow> (Inl e, idx, w)
      | Inr key \<Rightarrow>
          (case Delete sv idx key w of
             (Inl e, idx1, w1) \<Rightarrow> (Inl e, idx1, w1)
           | (Inr r, idx1, w1) \<Rightarrow> delete_keys sv ks idx1 w1))"

definition delete_field ::
  "'f floats \<Rightarrow> 'w services \<Rightarrow> (string list \<Rightarrow> string list) \<Rightarrow> 'f jvalue option \<Rightarrow> Index \<Rightarrow> 'w
    \<Rightarrow> unit result \<times> Index \<times> 'w" where
  "delete_field fl sv ord v idx w =
     (case ixType idx of
        StringIndex \<Rightarrow>
          (case as_string v of Inl e \<Rightarrow> (Inl e, idx, w) | Inr s \<Rightarrow> delete_keys sv [Inr s] idx w)
      | MapIndex \<Rightarrow>
          (case as_object v of
             Inl e \<Rightarrow> (Inl e, idx, w)
           | Inr m \<Rightarrow> delete_keys sv (map_keys (ranged ord m)) idx w)
      | ListIndex \<Rightarrow>
          (case as_array v of Inl e \<Rightarrow> (Inl e, idx, w) | Inr vs \<Rightarrow> delete_keys sv (list_keys vs) idx w)
      | NumberIndex \<Rightarrow>
          (case as_number v of
             Inl e \<Rightarrow> (Inl e, idx, w)
           | Inr x \<Rightarrow> (case DeleteNumber fl sv idx x w of
               (Inl e, idx1, w1) \<Rightarrow> (Inl e, idx1, w1) | (Inr r, idx1, w1) \<Rightarrow> (Inr (), idx1, w1)))
      | BytesIndex \<Rightarrow> (Inl ErrIndexNotSupported, idx, w)
      | _ \<Rightarrow> (Inl ErrInvalidIndexType, idx, w))"

definition delete_fields ::
  "'f floats \<Rightarrow> 'w services \<Rightarrow> (string list \<Rightarrow> string list) \<Rightarrow> (string \<times> 'f jvalue) list \<Rightarrow> index_map \<Rightarrow> DocStore \<Rightarrow> 'w
    \<Rightarrow> unit result \<times> DocStore \<times> 'w" where
  "delete_fields fl sv ord docMap = over_fields (\<lambda>field. delete_field fl sv ord (map_of docMap field))"

text \<open>A document is a blob of bytes; other blobs are not texts of documents.\<close>

definition doc_text :: "content \<Rightarrow> bytes" where
  "doc_text c = (case c of Raw b \<Rightarrow> b | _ \<Rightarrow> [])"

text \<open>json.Unmarshal into an interface, and the assertion that it is an object.\<close>

definition parse_doc :: "('f, 'v) doclib \<Rightarrow> bytes \<Rightarrow> (string \<times> 'f jvalue) list result" where
  "parse_doc dl b =
     (case UnmarshalAny dl b of
        None \<Rightarrow> Inl (Errorf ''json'')
      | Some v \<Rightarrow> as_object (Some v))"

definition Doc_Del ::
  "('f, 'v) doclib \<Rightarrow> 'f floats \<Rightarrow> 'w services \<Rightarrow> (string list \<Rightarrow> string list) \<Rightarrow> DocStore \<Rightarrow> string \<Rightarrow> string \<Rightarrow> 'w
    \<Rightarrow> unit result \<times> DocStore \<times> 'w" where
  "Doc_Del dl fl sv ord ds name did w =
     (if IsReadOnlyFeed sv w then (Inl ErrReadOnlyIndex, ds, w) else
      case getOpenedDb ds name of
        None \<Rightarrow> (Inl ErrDocumentDBNotOpened, ds, w)
      | Some db \<Rightarrow>
          if \<not> dbMutable db then (Inl ErrModifyingImmutableDocDB, ds, w) else
          (case map_of (simpleIndexes db) DefaultIndexFieldName of
             None \<Rightarrow> (Inl NilPointer, ds, w)
           | Some a \<Rightarrow>
               (case Get sv (dsHeap ds a) did w of
                  (Inl e, w1) \<Rightarrow> (if e = ErrEntryNotFound then Inr () else Inl e, ds, w1)
                | (Inr [], w1) \<Rightarrow> (Inr (), ds, w1)
                | (Inr (r # rs), w1) \<Rightarrow>
                    (case DownloadBlob sv r w1 of
                       (Inl e, w2) \<Rightarrow> (Inl e, ds, w2)
                     | (Inr (d, c), w2) \<Rightarrow>
                         (case parse_doc dl (doc_text d) of
                            Inl e \<Rightarrow> (Inl e, ds, w2)
                          | Inr docMap \<Rightarrow>
                              (case delete_fields fl sv ord docMap (ranged ord (simpleIndexes db)) ds w2 of
                                 (Inl e, ds1, w3) \<Rightarrow> (Inl e, ds1, w3)
                               | (Inr u, ds1, w3) \<Rightarrow>
                                   (case DeleteReference sv r w3 of (x, w4) \<Rightarrow> (x, ds1, w4))))))))"

section \<open>Inserting a document\<close>

text \<open>The part of Put that looks for a document of the same id and removes it.  An
  error of the search ends only the switch.\<close>

definition replace_doc ::
  "('f, 'v) doclib \<Rightarrow> 'f floats \<Rightarrow> 'w services \<Rightarrow> (string list \<Rightarrow> string list) \<Rightarrow> DocStore \<Rightarrow> string \<Rightarrow> DocumentDB
    \<Rightarrow> (string \<times> 'f jvalue) list \<Rightarrow> 'w \<Rightarrow> unit result \<times> DocStore \<times> 'w" where
  "replace_doc dl fl sv ord ds name db docMap w =
     (case map_of docMap DefaultIndexFieldName of
        Some (JString v) \<Rightarrow>
          if v = [] then (Inl ErrInvalidDocumentId, ds, w) else
          (case map_of (simpleIndexes db) DefaultIndexFieldName of
             None \<Rightarrow> (Inl NilPointer, ds, w)
           | Some a \<Rightarrow>
               (case Get sv (dsHeap ds a) v w of
                  (Inl e, w1) \<Rightarrow> (Inr (), ds, w1)
                | (Inr refs, w1) \<Rightarrow>
                    if refs \<noteq> [] then Doc_Del dl fl sv ord ds name v w1 else (Inr (), ds, w1)))
      | _ \<Rightarrow> (Inl ErrInvalidIndexType, ds, w))"

definition Doc_Put ::
  "('f, 'v) doclib \<Rightarrow> 'f floats \<Rightarrow> 'w services \<Rightarrow> (string list \<Rightarrow> string list) \<Rightarrow> DocStore \<Rightarrow> string \<Rightarrow> bytes \<Rightarrow> 'w
    \<Rightarrow> unit result \<times> DocStore \<times> 'w" where
  "Doc_Put dl fl sv ord ds name doc w =
     (if IsReadOnlyFeed sv w then (Inl ErrReadOnlyIndex, ds, w) else
      case getOpenedDb ds name of
        None \<Rightarrow> (Inl ErrDocumentDBNotOpened, ds, w)
      | Some db \<Rightarrow>
          if \<not> dbMutable db then (Inl ErrModifyingImmutableDocDB, ds, w) else
          (case parse_doc dl doc of
             Inl e \<Rightarrow> (Inl e, ds, w)
           | Inr docMap \<Rightarrow>
               if \<exists>f \<in> set (map fst (simpleIndexes db)). map_of docMap f = None
               then (Inl ErrDocumentDBIndexFieldNotPresent, ds, w)
               else (case replace_doc dl fl sv ord ds name db docMap w of
                  (Inl e, ds1, w1) \<Rightarrow> (Inl e, ds1, w1)
                | (Inr u, ds1, w1) \<Rightarrow>
                    (case UploadBlob sv (Raw doc) w1 of
                       (Inl e, w2) \<Rightarrow> (Inl e, ds1, w2)
                     | (Inr ref, w2) \<Rightarrow>
                         put_fields dl fl sv ord docMap ref (ranged ord (all_indexes db)) ds1 w2))))"

section \<open>Reading documents\<close>

text \<open>A line of the file that an immutable database was built from.\<close>

definition getLineFromFile ::
  "nat \<Rightarrow> 'w services \<Rightarrow> libs \<Rightarrow> File \<Rightarrow> string \<Rightarrow> string \<Rightarrow> nat \<Rightarrow> 'w \<Rightarrow> bytes result \<times> File \<times> 'w" where
  "getLineFromFile n sv lb f podFile pw seekOffset w =
     (case OpenFileForIndex sv f podFile pw w of
        (Inl e, f1, w1) \<Rightarrow> (Inl e, f1, w1)
      | (Inr r, f1, w1) \<Rightarrow>
          (case Seek sv lb (sint (of_nat seekOffset :: 64 word)) r w1 of
             (Inl e, r1, w2) \<Rightarrow> (Inl e, f1, w2)
           | (Inr o1, r1, w2) \<Rightarrow>
               (case ReadLine n sv lb r1 w2 of
                  ((d, Some e), r2, w3) \<Rightarrow> (Inl e, f1, w3)
                | ((d, None), r2, w3) \<Rightarrow> (Inr d, f1, w3))))"

text \<open>What an entry of an index refers to: a blob, or an offset in the file.\<close>

definition stored_line ::
  "nat \<Rightarrow> 'w services \<Rightarrow> libs \<Rightarrow> Index \<Rightarrow> File \<Rightarrow> string \<Rightarrow> bytes \<Rightarrow> 'w \<Rightarrow> bytes result \<times> File \<times> 'w" where
  "stored_line n sv lb idx f pw ref w =
     (case ReadUvarint ref of
        None \<Rightarrow> (Inl (if ref = [] then EOF else Errorf ''binary: uvarint''), f, w)
      | Some seekOffset \<Rightarrow> getLineFromFile n sv lb f (ixPodFile idx) pw seekOffset w)"

definition Doc_Get ::
  "nat \<Rightarrow> 'w services \<Rightarrow> libs \<Rightarrow> DocStore \<Rightarrow> File \<Rightarrow> string \<Rightarrow> string \<Rightarrow> string \<Rightarrow> 'w \<Rightarrow> bytes result \<times> File \<times> 'w" where
  "Doc_Get n sv lb ds f name did pw w =
     (case getOpenedDb ds name of
        None \<Rightarrow> (Inl ErrDocumentDBNotOpened, f, w)
      | Some db \<Rightarrow>
          (case map_of (simpleIndexes db) DefaultIndexFieldName of
             None \<Rightarrow> (Inl NilPointer, f, w)
           | Some a \<Rightarrow>
               let idIndex = dsHeap ds a in
               (case Get sv idIndex did w of
                  (Inl e, w1) \<Rightarrow> (Inl e, f, w1)
                | (Inr [], w1) \<Rightarrow> (Inl ErrDocumentNotPresent, f, w1)
                | (Inr (r # rs), w1) \<Rightarrow>
                    if ixMutable idIndex then
                      (case DownloadBlob sv r w1 of
                         (Inl e, w2) \<Rightarrow> (Inl e, f, w2)
                       | (Inr (d, c), w2) \<Rightarrow> (Inr (doc_text d), f, w2))
                    else stored_line n sv lb idIndex f pw r w1)))"

end
