(* ===== verification/DocFind.thy ===== *)
theory DocFind
  imports DocOps
begin

text \<open>
  Document databases, the third part of pkg/collection/document.go: expressions,
  Count, Find and NearestNodes.  fuel n bounds the depth of the tries and the
  lines that ReadLine scans, k the rounds of a loop over an iterator.
\<close>

section \<open>Expressions\<close>

definition expr_operators :: "string list" where
  "expr_operators = [''=>'', ''<='', ''<'', ''>'', ''!='', ''='']"

definition resolveExpression :: "string \<Rightarrow> (string \<times> string \<times> string) result" where
  "resolveExpression expr =
     (case filter (Contains expr) expr_operators of
        [] \<Rightarrow> Inl ErrInvalidOperator
      | operator # os \<Rightarrow>
          (case StringsSplit operator expr of
             f0 # f1 # fs \<Rightarrow> Inr (f0, operator, f1)
           | _ \<Rightarrow> Inl (Panic ''index out of range'')))"

text \<open>Which index a field has; the value of a map field loses its colons.\<close>

definition field_index ::
  "DocumentDB \<Rightarrow> bool \<Rightarrow> string \<Rightarrow> string \<Rightarrow> (nat \<times> string) option" where
  "field_index db vectors field val =
     (case map_of (simpleIndexes db) field of
        Some a \<Rightarrow> Some (a, val)
      | None \<Rightarrow>
          (case map_of (mapIndexes db) field of
             Some a \<Rightarrow> Some (a, drop_char (CHR '':'') val)
           | None \<Rightarrow>
               (case map_of (listIndexes db) field of
                  Some a \<Rightarrow> Some (a, val)
                | None \<Rightarrow>
                    (case (if vectors then map_of (vectorIndexes db) field else None) of
                       Some a \<Rightarrow> Some (a, val) | None \<Rightarrow> None))))"

section \<open>Loops over an iterator\<close>

text \<open>for itr.Next() with a body that changes the accumulator and says whether to go on.\<close>

primrec iter_loop ::
  "nat \<Rightarrow> nat \<Rightarrow> 'w services \<Rightarrow> (Iterator \<Rightarrow> 'a \<Rightarrow> 'a \<times> bool) \<Rightarrow> 'a \<Rightarrow> Iterator \<Rightarrow> 'w \<Rightarrow> 'a result \<times> 'w" where
  "iter_loop 0 n sv body acc it w = (Inl (Panic ''out of fuel''), w)"
| "iter_loop (Suc k) n sv body acc it w =
     (case Next n sv it w of
        (False, it1, w1) \<Rightarrow> (Inr acc, w1)
      | (True, it1, w1) \<Rightarrow>
          (case body it1 acc of
             (acc1, go) \<Rightarrow> if go then iter_loop k n sv body acc1 it1 w1 else (Inr acc1, w1)))"

definition count_body :: "(Iterator \<Rightarrow> bool) \<Rightarrow> Iterator \<Rightarrow> 64 word \<Rightarrow> 64 word \<times> bool" where
  "count_body keep it acc = (if keep it then acc + of_nat (length (ValueAll it)) else acc, True)"

definition find_body ::
  "int \<Rightarrow> (Iterator \<Rightarrow> bool) \<Rightarrow> (Iterator \<Rightarrow> bool) \<Rightarrow> Iterator \<Rightarrow> bytes list \<Rightarrow> bytes list \<times> bool" where
  "find_body limit stop keep it acc =
     (if limit > 0 \<and> int (length acc) > limit then (acc, False)
      else if stop it then (acc, False)
      else (if keep it then acc @ ValueAll it else acc, True))"

section \<open>Count\<close>

definition count_string ::
  "nat \<Rightarrow> nat \<Rightarrow> ('f, 'v) doclib \<Rightarrow> 'w services \<Rightarrow> Index \<Rightarrow> string \<Rightarrow> string \<Rightarrow> 'w \<Rightarrow> (64 word) result \<times> 'w" where
  "count_string k n dl sv idx operator val w =
     (case NewStringIterator sv idx val [] (-1) w of
        (Inl e, w1) \<Rightarrow> (Inl e, w1)
      | (Inr itr, w1) \<Rightarrow>
          if operator = ''='' then
            (case Next n sv itr w1 of
               (ok, itr1, w2) \<Rightarrow>
                 (case Regexp dl val of
                    None \<Rightarrow> (Inl (Errorf ''regexp''), w2)
                  | Some re \<Rightarrow> (Inr (if re (StringKey itr1) then of_nat (length (ValueAll itr1)) else 0), w2)))
          else if operator = ''=>'' \<or> operator = ''>'' then
            (case Regexp dl val of
               None \<Rightarrow> (Inl (Errorf ''regexp''), w1)
             | Some re \<Rightarrow> iter_loop k n sv (count_body (\<lambda>it. re (StringKey it))) 0 itr w1)
          else (Inr 0, w1))"

text \<open>The cases of the maps, lists and numbers differ in the test for the start.\<close>

definition count_from ::
  "nat \<Rightarrow> nat \<Rightarrow> 'w services \<Rightarrow> (Iterator \<Rightarrow> bool) \<Rightarrow> string \<Rightarrow> Iterator \<Rightarrow> 'w \<Rightarrow> (64 word) result \<times> 'w" where
  "count_from k n sv at_start operator itr w =
     (if operator = ''='' then
        (case Next n sv itr w of (ok, itr1, w1) \<Rightarrow> (Inr (of_nat (length (ValueAll itr1))), w1))
      else if operator = ''=>'' then iter_loop k n sv (count_body (\<lambda>it. True)) 0 itr w
      else if operator = ''>'' then iter_loop k n sv (count_body (\<lambda>it. \<not> at_start it)) 0 itr w
      else (Inr 0, w))"

definition Doc_Count ::
  "nat \<Rightarrow> nat \<Rightarrow> ('f, 'v) doclib \<Rightarrow> 'f floats \<Rightarrow> 'w services \<Rightarrow> DocStore \<Rightarrow> string \<Rightarrow> string \<Rightarrow> 'w
    \<Rightarrow> (64 word) result \<times> DocStore \<times> 'w" where
  "Doc_Count k n dl fl sv ds name expr w =
     (case getOpenedDb ds name of
        None \<Rightarrow> (Inl ErrDocumentDBNotOpened, ds, w)
      | Some db \<Rightarrow>
          if expr = [] then
            (case map_of (simpleIndexes db) DefaultIndexFieldName of
               None \<Rightarrow> (Inl ErrIndexNotPresent, ds, w)
             | Some a \<Rightarrow>
                 (case CountIndex n sv (dsHeap ds a) (ixPassword (dsHeap ds a)) w of
                    (r, idx, w1) \<Rightarrow> (r, set_doc_index a idx ds, w1)))
          else
            (case resolveExpression expr of
               Inl e \<Rightarrow> (Inl e, ds, w)
             | Inr (field, operator, val0) \<Rightarrow>
                 (case field_index db True field val0 of
                    None \<Rightarrow> (Inl ErrIndexNotPresent, ds, w)
                  | Some (a, val) \<Rightarrow>
                      let idx = dsHeap ds a in
                      (case (case ixType idx of
                               VectorIndex \<Rightarrow> (Inl (Errorf ''vector index is not supported''), w)
                             | StringIndex \<Rightarrow> count_string k n dl sv idx operator val w
                             | NumberIndex \<Rightarrow>
                                 (case ParseInt val of
                                    None \<Rightarrow> (Inl (Errorf ''strconv.ParseInt''), w)
                                  | Some start \<Rightarrow>
                                      (case NewIntIterator (\<lambda>i. FormatSeek fl (OfInt fl i)) sv idx start (-1) (-1) w of
                                         (Inl e, w1) \<Rightarrow> (Inl e, w1)
                                       | (Inr itr, w1) \<Rightarrow>
                                           count_from k n sv (\<lambda>it. IntegerKey it = start) operator itr w1))
                             | BytesIndex \<Rightarrow> (Inl ErrIndexNotSupported, w)
                             | InvalidIndex \<Rightarrow> (Inl ErrInvalidIndexType, w)
                             | _ \<Rightarrow>
                                 (case NewStringIterator sv idx val [] (-1) w of
                                    (Inl e, w1) \<Rightarrow> (Inl e, w1)
                                  | (Inr itr, w1) \<Rightarrow> count_from k n sv (\<lambda>it. StringKey it = val) operator itr w1)) of
                         (r, w1) \<Rightarrow> (r, ds, w1)))))"

section \<open>Find\<close>

definition find_string ::
  "nat \<Rightarrow> nat \<Rightarrow> ('f, 'v) doclib \<Rightarrow> 'w services \<Rightarrow> Index \<Rightarrow> string \<Rightarrow> string \<Rightarrow> 'w \<Rightarrow> (bytes list) result \<times> 'w" where
  "find_string k n dl sv idx operator val w =
     (case NewStringIterator sv idx val [] (-1) w of
        (Inl e, w1) \<Rightarrow> (Inl e, w1)
      | (Inr itr, w1) \<Rightarrow>
          if operator = ''='' then
            (case Next n sv itr w1 of
               (ok, itr1, w2) \<Rightarrow>
                 (case Regexp dl val of
                    None \<Rightarrow> (Inl (Errorf ''regexp''), w2)
                  | Some re \<Rightarrow> (Inr (if re (StringKey itr1) then ValueAll itr1 else []), w2)))
          else if operator = ''=>'' \<or> operator = ''>'' then
            (case Regexp dl val of
               None \<Rightarrow> (Inl (Errorf ''regexp''), w1)
             | Some re \<Rightarrow> iter_loop k n sv (find_body 0 (\<lambda>it. False) (\<lambda>it. re (StringKey it))) [] itr w1)
          else (Inl (Errorf ''operator is not available''), w1))"

definition find_composite ::
  "nat \<Rightarrow> nat \<Rightarrow> 'w services \<Rightarrow> Index \<Rightarrow> string \<Rightarrow> string \<Rightarrow> int \<Rightarrow> 'w \<Rightarrow> (bytes list) result \<times> 'w" where
  "find_composite k n sv idx operator val limit w =
     (case NewStringIterator sv idx val [] limit w of
        (Inl e, w1) \<Rightarrow> (Inl e, w1)
      | (Inr itr, w1) \<Rightarrow>
          if operator = ''='' then
            (case Next n sv itr w1 of (ok, itr1, w2) \<Rightarrow> (Inr (ValueAll itr1), w2))
          else if operator = ''=>'' then
            iter_loop k n sv (find_body limit (\<lambda>it. False) (\<lambda>it. True)) [] itr w1
          else if operator = ''>'' then
            iter_loop k n sv (find_body limit (\<lambda>it. False) (\<lambda>it. StringKey it \<noteq> val)) [] itr w1
          else (Inl (Errorf ''operator is not available''), w1))"

text \<open>The bodies of the loops over numbers.  A key that is not an integer is
  skipped by the loops of < and <=, and ends that of !=.\<close>

definition float_differs :: "('f, 'v) doclib \<Rightarrow> 'f floats \<Rightarrow> string \<Rightarrow> Iterator \<Rightarrow> bool" where
  "float_differs dl fl val it =
     (case (ParseFloat fl (StringKey it), ParseFloat fl val) of
        (Some x, Some y) \<Rightarrow> \<not> Eq64 dl x y | _ \<Rightarrow> False)"

definition not_floats :: "'f floats \<Rightarrow> string \<Rightarrow> Iterator \<Rightarrow> bool" where
  "not_floats fl val it = (ParseFloat fl (StringKey it) = None \<or> ParseFloat fl val = None)"

definition key_int :: "(int \<Rightarrow> bool) \<Rightarrow> Iterator \<Rightarrow> bool" where
  "key_int P it = (case ParseInt (StringKey it) of None \<Rightarrow> False | Some v \<Rightarrow> P v)"

definition find_number ::
  "nat \<Rightarrow> nat \<Rightarrow> ('f, 'v) doclib \<Rightarrow> 'f floats \<Rightarrow> 'w services \<Rightarrow> Index \<Rightarrow> string \<Rightarrow> string \<Rightarrow> int \<Rightarrow> 'w
    \<Rightarrow> (bytes list) result \<times> 'w" where
  "find_number k n dl fl sv idx operator val limit w =
     (case (if operator \<noteq> ''<'' \<and> operator \<noteq> ''<='' then ParseInt val else Some 0) of
        None \<Rightarrow> (Inl (Errorf ''strconv.ParseInt''), w)
      | Some start \<Rightarrow>
          (case NewIntIterator (\<lambda>i. FormatSeek fl (OfInt fl i)) sv idx start (-1) limit w of
             (Inl e, w1) \<Rightarrow> (Inl e, w1)
           | (Inr itr, w1) \<Rightarrow>
               let loop = (\<lambda>stop keep. iter_loop k n sv (find_body limit stop keep) [] itr w1) in
               if operator = ''='' then
                 (case Next n sv itr w1 of (ok, itr1, w2) \<Rightarrow> (Inr (ValueAll itr1), w2))
               else if operator = ''!='' then loop (not_floats fl val) (float_differs dl fl val)
               else if operator = ''=>'' then loop (\<lambda>it. False) (\<lambda>it. True)
               else if operator = ''<'' then
                 (case ParseInt val of
                    None \<Rightarrow> (Inr [], w1)
                  | Some e \<Rightarrow> loop (key_int (\<lambda>v. v \<ge> e)) (key_int (\<lambda>v. True)))
               else if operator = ''<='' then
                 (case ParseInt val of
                    None \<Rightarrow> (Inr [], w1)
                  | Some e \<Rightarrow> loop (key_int (\<lambda>v. v > e)) (key_int (\<lambda>v. True)))
               else if operator = ''>'' then loop (\<lambda>it. False) (\<lambda>it. IntegerKey it \<noteq> start)
               else (Inl (Errorf ''operator is not available''), w1)))"

text \<open>The documents behind the references: a blob that cannot be read is logged and
  left out; an error of the file ends the search.\<close>

primrec fetch_blobs ::
  "'w services \<Rightarrow> int \<Rightarrow> bytes list \<Rightarrow> bytes list \<Rightarrow> 'w \<Rightarrow> bytes list \<times> 'w" where
  "fetch_blobs sv limit [] docs w = (docs, w)"
| "fetch_blobs sv limit (ref # refs) docs w =
     (if limit > 0 \<and> int (length docs) \<ge> limit then (docs, w) else
      case DownloadBlob sv ref w of
        (Inl e, w1) \<Rightarrow> fetch_blobs sv limit refs docs w1
      | (Inr (d, c), w1) \<Rightarrow> fetch_blobs sv limit refs (docs @ [doc_text d]) w1)"

primrec fetch_lines ::
  "nat \<Rightarrow> 'w services \<Rightarrow> libs \<Rightarrow> Index \<Rightarrow> string \<Rightarrow> int \<Rightarrow> bytes list \<Rightarrow> bytes list \<Rightarrow> File \<Rightarrow> 'w
    \<Rightarrow> (bytes list) result \<times> File \<times> 'w" where
  "fetch_lines n sv lb idx pw limit [] docs f w = (Inr docs, f, w)"
| "fetch_lines n sv lb idx pw limit (ref # refs) docs f w =
     (if limit > 0 \<and> int (length docs) \<ge> limit then (Inr docs, f, w) else
      case stored_line n sv lb idx f pw ref w of
        (Inl e, f1, w1) \<Rightarrow> (Inl e, f1, w1)
      | (Inr d, f1, w1) \<Rightarrow> fetch_lines n sv lb idx pw limit refs (docs @ [d]) f1 w1)"

definition fetch_docs ::
  "nat \<Rightarrow> 'w services \<Rightarrow> libs \<Rightarrow> Index \<Rightarrow> string \<Rightarrow> int \<Rightarrow> bytes list \<Rightarrow> File \<Rightarrow> 'w \<Rightarrow> (bytes list) result \<times> File \<times> 'w" where
  "fetch_docs n sv lb idx pw limit refs f w =
     (if ixMutable idx then (case fetch_blobs sv limit refs [] w of (docs, w1) \<Rightarrow> (Inr docs, f, w1))
      else fetch_lines n sv lb idx pw limit refs [] f w)"

definition Doc_Find ::
  "nat \<Rightarrow> nat \<Rightarrow> ('f, 'v) doclib \<Rightarrow> 'f floats \<Rightarrow> 'w services \<Rightarrow> libs \<Rightarrow> DocStore \<Rightarrow> File \<Rightarrow> string \<Rightarrow> string \<Rightarrow> string \<Rightarrow> int
    \<Rightarrow> 'w \<Rightarrow> (bytes list) result \<times> File \<times> 'w" where
  "Doc_Find k n dl fl sv lb ds f name expr pw limit w =
     (case getOpenedDb ds name of
        None \<Rightarrow> (Inl ErrDocumentDBNotOpened, f, w)
      | Some db \<Rightarrow>
          if expr = [] then
            (case map_of (simpleIndexes db) DefaultIndexFieldName of
               None \<Rightarrow> (Inl ErrIndexNotPresent, f, w)
             | Some a \<Rightarrow> (case Get sv (dsHeap ds a) [] w of (r, w1) \<Rightarrow> (r, f, w1)))
          else
            (case resolveExpression expr of
               Inl e \<Rightarrow> (Inl e, f, w)
             | Inr (field, operator, val0) \<Rightarrow>
                 (case field_index db False field val0 of
                    None \<Rightarrow> (Inl ErrIndexNotPresent, f, w)
                  | Some (a, val) \<Rightarrow>
                      let idx = dsHeap ds a in
                      (case (case ixType idx of
                               StringIndex \<Rightarrow> find_string k n dl sv idx operator val w
                             | MapIndex \<Rightarrow> find_composite k n sv idx operator val limit w
                             | ListIndex \<Rightarrow> find_composite k n sv idx operator val limit w
                             | NumberIndex \<Rightarrow> find_number k n dl fl sv idx operator val limit w
                             | BytesIndex \<Rightarrow> (Inl ErrIndexNotSupported, w)
                             | _ \<Rightarrow> (Inl ErrInvalidIndexType, w)) of
                         (Inl e, w1) \<Rightarrow> (Inl e, f, w1)
                       | (Inr refs, w1) \<Rightarrow> fetch_docs n sv lb idx pw limit refs f w1))))"

section \<open>Vectors\<close>

definition cosineSim :: "('f, 'v) doclib \<Rightarrow> 'v list \<Rightarrow> 'v list \<Rightarrow> 'v result" where
  "cosineSim dl a b =
     (if length a \<noteq> length b then Inl (Errorf ''vectors have different dimensions'') else
      let total = (\<lambda>xs ys. foldl (\<lambda>s (x, y). Add64 dl s (ToFloat64 dl (Mul32 dl x y))) (Zero64 dl) (zip xs ys)) in
      Inr (ToFloat32 dl (Div64 dl (total a b)
        (Mul64 dl (Sqrt64 dl (total a a)) (Sqrt64 dl (total b b))))))"

definition NormalizedDistance :: "('f, 'v) doclib \<Rightarrow> 'v list \<Rightarrow> 'v list \<Rightarrow> 'v result" where
  "NormalizedDistance dl a b =
     (case cosineSim dl a b of
        Inl e \<Rightarrow> Inl (Errorf ''normalized distance'')
      | Inr sim \<Rightarrow> Inr (HalfFromOne dl sim))"

text \<open>The body of the loop of NearestNodes; the first component is the error with
  which it returns.\<close>

definition nearest_body ::
  "('f, 'v) doclib \<Rightarrow> 'v list \<Rightarrow> 'v \<Rightarrow> int \<Rightarrow> Iterator \<Rightarrow> goerror option \<times> bytes list
    \<Rightarrow> (goerror option \<times> bytes list) \<times> bool" where
  "nearest_body dl v force limit it acc =
     (if limit > 0 \<and> int (length (snd acc)) > limit then (acc, False) else
      case HexDecode (StringKey it) of
        None \<Rightarrow> (acc, True)
      | Some b \<Rightarrow>
          (case DecodeVector dl b of
             None \<Rightarrow> ((Some (Errorf ''gob''), snd acc), False)
           | Some vec \<Rightarrow>
               (case NormalizedDistance dl v vec of
                  Inl e \<Rightarrow> (acc, True)
                | Inr dist \<Rightarrow>
                    ((fst acc, if Less32 dl dist force then snd acc @ ValueAll it else snd acc), True))))"

definition NearestNodes ::
  "nat \<Rightarrow> nat \<Rightarrow> ('f, 'v) doclib \<Rightarrow> 'w services \<Rightarrow> libs \<Rightarrow> DocStore \<Rightarrow> File \<Rightarrow> string \<Rightarrow> string \<Rightarrow> string \<Rightarrow> 'v list \<Rightarrow> 'v \<Rightarrow> int
    \<Rightarrow> 'w \<Rightarrow> (bytes list) result \<times> File \<times> 'w" where
  "NearestNodes k n dl sv lb ds f name pw field v force limit w =
     (case getOpenedDb ds name of
        None \<Rightarrow> (Inl ErrDocumentDBNotOpened, f, w)
      | Some db \<Rightarrow>
          if v = [] then (Inl (Errorf ''vector is empty''), f, w) else
          (case map_of (vectorIndexes db) field of
             None \<Rightarrow> (Inl ErrIndexNotPresent, f, w)
           | Some a \<Rightarrow>
               let idx = dsHeap ds a in
               (case NewStringIterator sv idx [] [] (-1) w of
                  (Inl e, w1) \<Rightarrow> (Inl e, f, w1)
                | (Inr itr, w1) \<Rightarrow>
                    (case iter_loop k n sv (nearest_body dl v force limit) (None, []) itr w1 of
                       (Inl e, w2) \<Rightarrow> (Inl e, f, w2)
                     | (Inr (Some e, refs), w2) \<Rightarrow> (Inl e, f, w2)
                     | (Inr (None, refs), w2) \<Rightarrow> fetch_docs n sv lb idx pw limit refs f w2))))"

end
