(* ===== verification/DocBatch.thy ===== *)
theory DocBatch
  imports DocFind
begin

text \<open>
  Document databases, the last part of pkg/collection/document.go: batches of
  documents and the indexing of a file of JSON lines.  A batch of documents holds
  one batch for each index, with the address of the index that it shares with the
  database.
\<close>

section \<open>Batches of documents\<close>

record DocBatch =
  btDB :: DocumentDB
  btBatches :: "(string \<times> nat \<times> Batch) list"

text \<open>A batch for every simple, map and list index of an open database.\<close>

definition new_doc_batch :: "DocStore \<Rightarrow> string \<Rightarrow> DocBatch result" where
  "new_doc_batch ds name =
     (case getOpenedDb ds name of
        None \<Rightarrow> Inl ErrDocumentDBNotOpened
      | Some db \<Rightarrow>
          Inr \<lparr>btDB = db, btBatches =
            fold (\<lambda>(field, a) m. AList.update field (a, NewBatch) m)
              (simpleIndexes db @ mapIndexes db @ listIndexes db) []\<rparr>)"

text \<open>The test whether the database is empty asks Find for all documents, which asks
  the default index for the empty key.\<close>

definition CreateDocBatch ::
  "nat \<Rightarrow> nat \<Rightarrow> ('f, 'v) doclib \<Rightarrow> 'f floats \<Rightarrow> 'w services \<Rightarrow> libs \<Rightarrow> DocStore \<Rightarrow> File \<Rightarrow> string \<Rightarrow> string \<Rightarrow> 'w
    \<Rightarrow> DocBatch result \<times> File \<times> 'w" where
  "CreateDocBatch k n dl fl sv lb ds f name pw w =
     (if IsReadOnlyFeed sv w then (Inl ErrReadOnlyIndex, f, w) else
      case Doc_Find k n dl fl sv lb ds f name [] pw 1 w of
        (r, f1, w1) \<Rightarrow>
          (case r of
             Inl e \<Rightarrow> if e \<noteq> ErrEntryNotFound then (Inl e, f1, w1) else (new_doc_batch ds name, f1, w1)
           | Inr refs \<Rightarrow>
               if refs \<noteq> [] then (Inl ErrModifyingImmutableDocDB, f1, w1) else (new_doc_batch ds name, f1, w1)))"

text \<open>The batches of the map and the indexes that they share change together.\<close>

definition set_batch :: "string \<Rightarrow> Index \<Rightarrow> Batch \<Rightarrow> DocBatch \<times> DocStore \<Rightarrow> DocBatch \<times> DocStore" where
  "set_batch field idx b st =
     (case map_of (btBatches (fst st)) field of
        None \<Rightarrow> st
      | Some (a, b0) \<Rightarrow>
          ((fst st)\<lparr>btBatches := AList.update field (a, b) (btBatches (fst st))\<rparr>, set_doc_index a idx (snd st)))"

section \<open>Removing a document that the batch replaces\<close>

primrec batch_delete_keys ::
  "'w services \<Rightarrow> Index \<Rightarrow> string result list \<Rightarrow> Batch \<Rightarrow> 'w \<Rightarrow> unit result \<times> Batch \<times> 'w" where
  "batch_delete_keys sv idx [] b w = (Inr (), b, w)"
| "batch_delete_keys sv idx (k # ks) b w =
     (case k of
        Inl e \<Rightarrow> (Inl e, b, w)
      | Inr key \<Rightarrow>
          (case Batch_Del sv idx b key w of
             (Inl e, b1, w1) \<Rightarrow> (Inl e, b1, w1)
           | (Inr r, b1, w1) \<Rightarrow> batch_delete_keys sv idx ks b1 w1))"

definition batch_delete_field ::
  "'f floats \<Rightarrow> 'w services \<Rightarrow> (string list \<Rightarrow> string list) \<Rightarrow> 'f jvalue option \<Rightarrow> Index \<Rightarrow> Batch \<Rightarrow> 'w
    \<Rightarrow> unit result \<times> Batch \<times> 'w" where
  "batch_delete_field fl sv ord v idx b w =
     (case ixType idx of
        StringIndex \<Rightarrow>
          (case as_string v of Inl e \<Rightarrow> (Inl e, b, w) | Inr s \<Rightarrow> batch_delete_keys sv idx [Inr s] b w)
      | MapIndex \<Rightarrow>
          (case as_object v of
             Inl e \<Rightarrow> (Inl e, b, w)
           | Inr m \<Rightarrow> batch_delete_keys sv idx (map_keys (ranged ord m)) b w)
      | ListIndex \<Rightarrow>
          (case as_array v of
             Inl e \<Rightarrow> (Inl e, b, w)
           | Inr vs \<Rightarrow> batch_delete_keys sv idx (list_keys vs) b w)
      | NumberIndex \<Rightarrow>
          (case as_number v of
             Inl e \<Rightarrow> (Inl e, b, w)
           | Inr x \<Rightarrow> (case Batch_DelNumber fl sv idx b x w of
               (Inl e, b1, w1) \<Rightarrow> (Inl e, b1, w1) | (Inr r, b1, w1) \<Rightarrow> (Inr (), b1, w1)))
      | BytesIndex \<Rightarrow> (Inl ErrIndexNotSupported, b, w)
      | _ \<Rightarrow> (Inl ErrInvalidIndexType, b, w))"

primrec batch_delete_fields ::
  "'f floats \<Rightarrow> 'w services \<Rightarrow> (string list \<Rightarrow> string list) \<Rightarrow> (string \<times> 'f jvalue) list \<Rightarrow> (string \<times> nat \<times> Batch) list
    \<Rightarrow> DocBatch \<times> DocStore \<Rightarrow> 'w \<Rightarrow> unit result \<times> (DocBatch \<times> DocStore) \<times> 'w" where
  "batch_delete_fields fl sv ord docMap [] st w = (Inr (), st, w)"
| "batch_delete_fields fl sv ord docMap (fb # fbs) st w =
     (case fb of (field, a, b) \<Rightarrow>
      let idx = dsHeap (snd st) a in
      (case batch_delete_field fl sv ord (map_of docMap field) idx b w of
         (Inl e, b1, w1) \<Rightarrow> (Inl e, set_batch field idx b1 st, w1)
       | (Inr u, b1, w1) \<Rightarrow> batch_delete_fields fl sv ord docMap fbs (set_batch field idx b1 st) w1))"

text \<open>The id of a document as a key of the batch.\<close>

definition batch_id :: "('f, 'v) doclib \<Rightarrow> (string \<times> 'f jvalue) list \<Rightarrow> string result" where
  "batch_id dl docMap =
     (case map_of docMap DefaultIndexFieldName of
        Some (JNumber x) \<Rightarrow> Inr (FormatFixed6 dl x)
      | Some (JString s) \<Rightarrow> Inr s
      | _ \<Rightarrow> Inl ErrInvalidIndexType)"

definition batch_replace ::
  "('f, 'v) doclib \<Rightarrow> 'f floats \<Rightarrow> 'w services \<Rightarrow> (string list \<Rightarrow> string list) \<Rightarrow> (string \<times> 'f jvalue) list
    \<Rightarrow> DocBatch \<times> DocStore \<Rightarrow> 'w \<Rightarrow> unit result \<times> (DocBatch \<times> DocStore) \<times> 'w" where
  "batch_replace dl fl sv ord docMap st w =
     (case batch_id dl docMap of
        Inl e \<Rightarrow> (Inl e, st, w)
      | Inr valStr \<Rightarrow>
          if valStr = [] then (Inl ErrInvalidDocumentId, st, w) else
          (case map_of (btBatches (fst st)) DefaultIndexFieldName of
             None \<Rightarrow> (Inl NilPointer, st, w)
           | Some (a, b) \<Rightarrow>
               (case Batch_Get sv (dsHeap (snd st) a) b valStr w of
                  (Inl e, w1) \<Rightarrow> (Inr (), st, w1)
                | (Inr [], w1) \<Rightarrow> (Inr (), st, w1)
                | (Inr (r # rs), w1) \<Rightarrow>
                    (case DownloadBlob sv r w1 of
                       (Inl e, w2) \<Rightarrow> (Inl e, st, w2)
                     | (Inr (d, c), w2) \<Rightarrow>
                         (case parse_doc dl (doc_text d) of
                            Inl e \<Rightarrow> (Inl e, st, w2)
                          | Inr oldDocMap \<Rightarrow>
                              (case batch_delete_fields fl sv ord oldDocMap (ranged ord (btBatches (fst st))) st w2 of
                                 (Inl e, st1, w3) \<Rightarrow> (Inl e, st1, w3)
                               | (Inr u, st1, w3) \<Rightarrow>
                                   (case DeleteReference sv r w3 of (x, w4) \<Rightarrow> (x, st1, w4))))))))"

section \<open>Putting a document\<close>

definition Sprintf_d :: "int \<Rightarrow> string" where
  "Sprintf_d i = (if i < 0 then CHR ''-'' # nat_digits (nat (- i)) else nat_digits (nat i))"

primrec batch_put_keys ::
  "'w services \<Rightarrow> bool \<Rightarrow> bytes \<Rightarrow> string result list \<Rightarrow> Index \<Rightarrow> Batch \<Rightarrow> 'w \<Rightarrow> unit result \<times> Index \<times> Batch \<times> 'w" where
  "batch_put_keys sv memory ref [] idx b w = (Inr (), idx, b, w)"
| "batch_put_keys sv memory ref (k # ks) idx b w =
     (case k of
        Inl e \<Rightarrow> (Inl e, idx, b, w)
      | Inr key \<Rightarrow>
          (case Batch_Put sv idx b key ref True memory w of
             (Inl e, idx1, b1, w1) \<Rightarrow> (Inl e, idx1, b1, w1)
           | (Inr u, idx1, b1, w1) \<Rightarrow> batch_put_keys sv memory ref ks idx1 b1 w1))"

definition batch_put_field ::
  "('f, 'v) doclib \<Rightarrow> 'f floats \<Rightarrow> 'w services \<Rightarrow> (string list \<Rightarrow> string list) \<Rightarrow> bool \<Rightarrow> string \<Rightarrow> 'f jvalue \<Rightarrow> bytes
    \<Rightarrow> Index \<Rightarrow> Batch \<Rightarrow> 'w \<Rightarrow> unit result \<times> Index \<times> Batch \<times> 'w" where
  "batch_put_field dl fl sv ord memory field v ref idx b w =
     (case ixType idx of
        StringIndex \<Rightarrow>
          (case v of
             JNumber x \<Rightarrow>
               Batch_Put sv idx b (if field = DefaultIndexFieldName then Sprintf_d (Truncate dl x) else FormatKey fl x)
                 ref (field \<noteq> DefaultIndexFieldName) memory w
           | JString s \<Rightarrow> Batch_Put sv idx b s ref (field \<noteq> DefaultIndexFieldName) memory w
           | _ \<Rightarrow> (Inl ErrInvalidIndexType, idx, b, w))
      | MapIndex \<Rightarrow>
          (case as_object (Some v) of
             Inl e \<Rightarrow> (Inl e, idx, b, w)
           | Inr m \<Rightarrow> batch_put_keys sv memory ref (map_keys (ranged ord m)) idx b w)
      | ListIndex \<Rightarrow>
          (case as_array (Some v) of
             Inl e \<Rightarrow> (Inl e, idx, b, w)
           | Inr vs \<Rightarrow> batch_put_keys sv memory ref (list_keys vs) idx b w)
      | NumberIndex \<Rightarrow>
          (case v of
             JString s \<Rightarrow> Batch_Put sv idx b s ref True memory w
           | JNumber x \<Rightarrow> Batch_PutNumber fl sv idx b x ref True memory w
           | _ \<Rightarrow> (Inl ErrIndexNotSupported, idx, b, w))
      | BytesIndex \<Rightarrow> (Inl ErrIndexNotSupported, idx, b, w)
      | _ \<Rightarrow> (Inl ErrInvalidIndexType, idx, b, w))"

primrec batch_put_fields ::
  "('f, 'v) doclib \<Rightarrow> 'f floats \<Rightarrow> 'w services \<Rightarrow> (string list \<Rightarrow> string list) \<Rightarrow> bool \<Rightarrow> (string \<times> 'f jvalue) list \<Rightarrow> bytes
    \<Rightarrow> (string \<times> nat \<times> Batch) list \<Rightarrow> DocBatch \<times> DocStore \<Rightarrow> 'w \<Rightarrow> unit result \<times> (DocBatch \<times> DocStore) \<times> 'w" where
  "batch_put_fields dl fl sv ord memory docMap ref [] st w = (Inr (), st, w)"
| "batch_put_fields dl fl sv ord memory docMap ref (fb # fbs) st w =
     (case fb of (field, a, b) \<Rightarrow>
      (case map_of docMap field of
         None \<Rightarrow> batch_put_fields dl fl sv ord memory docMap ref fbs st w
       | Some v \<Rightarrow>
           (case batch_put_field dl fl sv ord memory field v ref (dsHeap (snd st) a) b w of
              (Inl e, idx1, b1, w1) \<Rightarrow> (Inl e, set_batch field idx1 b1 st, w1)
            | (Inr u, idx1, b1, w1) \<Rightarrow>
                batch_put_fields dl fl sv ord memory docMap ref fbs (set_batch field idx1 b1 st) w1)))"

text \<open>What the entries of the batch refer to: the blob of the document, or its
  offset in the file when the database is not mutable.\<close>

definition batch_ref ::
  "('f, 'v) doclib \<Rightarrow> 'f floats \<Rightarrow> 'w services \<Rightarrow> (string list \<Rightarrow> string list) \<Rightarrow> (string \<times> 'f jvalue) list \<Rightarrow> bytes \<Rightarrow> int
    \<Rightarrow> DocBatch \<times> DocStore \<Rightarrow> 'w \<Rightarrow> bytes result \<times> (DocBatch \<times> DocStore) \<times> 'w" where
  "batch_ref dl fl sv ord docMap doc index st w =
     (if dbMutable (btDB (fst st)) then
        (case batch_replace dl fl sv ord docMap st w of
           (Inl e, st1, w1) \<Rightarrow> (Inl e, st1, w1)
         | (Inr u, st1, w1) \<Rightarrow> (case UploadBlob sv (Raw doc) w1 of (r, w2) \<Rightarrow> (r, st1, w2)))
      else (Inr (PutUvarint (unat (of_int index :: 64 word))), st, w))"

definition DocBatchPut ::
  "('f, 'v) doclib \<Rightarrow> 'f floats \<Rightarrow> 'w services \<Rightarrow> (string list \<Rightarrow> string list) \<Rightarrow> bytes \<Rightarrow> int
    \<Rightarrow> DocBatch \<times> DocStore \<Rightarrow> 'w \<Rightarrow> unit result \<times> (DocBatch \<times> DocStore) \<times> 'w" where
  "DocBatchPut dl fl sv ord doc index st w =
     (if IsReadOnlyFeed sv w then (Inl ErrReadOnlyIndex, st, w) else
      case UnmarshalAny dl doc of
        None \<Rightarrow> (Inl (Errorf ''json''), st, w)
      | Some (JObject docMap) \<Rightarrow>
          if \<exists>f \<in> set (map fst (simpleIndexes (btDB (fst st)))). map_of docMap f = None
          then (Inl ErrDocumentDBIndexFieldNotPresent, st, w)
          else (case batch_ref dl fl sv ord docMap doc index st w of
             (Inl e, st1, w1) \<Rightarrow> (Inl e, st1, w1)
           | (Inr ref, st1, w1) \<Rightarrow>
               batch_put_fields dl fl sv ord (\<not> dbMutable (btDB (fst st1))) docMap ref
                 (ranged ord (btBatches (fst st1))) st1 w1)
      | Some v \<Rightarrow> (Inl ErrUnknownJsonFormat, st, w))"

section \<open>Writing a batch, and indexing a file\<close>

primrec write_batches ::
  "nat \<Rightarrow> 'w services \<Rightarrow> string \<Rightarrow> (string \<times> nat \<times> Batch) list \<Rightarrow> DocBatch \<times> DocStore \<Rightarrow> 'w
    \<Rightarrow> unit result \<times> (DocBatch \<times> DocStore) \<times> 'w" where
  "write_batches n sv podFile [] st w = (Inr (), st, w)"
| "write_batches n sv podFile (fb # fbs) st w =
     (case fb of (field, a, b) \<Rightarrow>
      (case Batch_Write n sv (dsHeap (snd st) a) b podFile w of
         (Inl e, idx1, b1, w1) \<Rightarrow> (Inl e, set_batch field idx1 b1 st, w1)
       | (Inr man, idx1, b1, w1) \<Rightarrow>
           write_batches n sv podFile fbs
             (set_batch field (idx1\<lparr>ixMemDB := Some man, ixPodFile := mPodFile man\<rparr>) (b1\<lparr>memDb := Some man\<rparr>) st) w1))"

definition DocBatchWrite ::
  "nat \<Rightarrow> 'w services \<Rightarrow> (string list \<Rightarrow> string list) \<Rightarrow> string \<Rightarrow> DocBatch \<times> DocStore \<Rightarrow> 'w
    \<Rightarrow> unit result \<times> (DocBatch \<times> DocStore) \<times> 'w" where
  "DocBatchWrite n sv ord podFile st w =
     (if IsReadOnlyFeed sv w then (Inl ErrReadOnlyIndex, st, w)
      else write_batches n sv podFile (ranged ord (btBatches (fst st))) st w)"

text \<open>The loop over the lines; the end of the file ends it, and what is read behind
  the last line break is not a line.\<close>

primrec index_lines ::
  "nat \<Rightarrow> nat \<Rightarrow> ('f, 'v) doclib \<Rightarrow> 'f floats \<Rightarrow> 'w services \<Rightarrow> libs \<Rightarrow> (string list \<Rightarrow> string list) \<Rightarrow> int \<Rightarrow> Reader
    \<Rightarrow> DocBatch \<times> DocStore \<Rightarrow> 'w \<Rightarrow> unit result \<times> (DocBatch \<times> DocStore) \<times> 'w" where
  "index_lines 0 n dl fl sv lb ord seekIndex r st w = (Inl (Panic ''out of fuel''), st, w)"
| "index_lines (Suc k) n dl fl sv lb ord seekIndex r st w =
     (case ReadLine n sv lb r w of
        ((d, Some e), r1, w1) \<Rightarrow> (if e = EOF then Inr () else Inl e, st, w1)
      | ((d, None), r1, w1) \<Rightarrow>
          (case DocBatchPut dl fl sv ord d seekIndex st w1 of
             (Inl e, st1, w2) \<Rightarrow> (Inl e, st1, w2)
           | (Inr u, st1, w2) \<Rightarrow>
               index_lines k n dl fl sv lb ord (seekIndex + int (length d)) r1 st1 w2))"

definition DocFileIndex ::
  "nat \<Rightarrow> nat \<Rightarrow> ('f, 'v) doclib \<Rightarrow> 'f floats \<Rightarrow> 'w services \<Rightarrow> libs \<Rightarrow> (string list \<Rightarrow> string list) \<Rightarrow> DocStore \<Rightarrow> File
    \<Rightarrow> string \<Rightarrow> string \<Rightarrow> string \<Rightarrow> 'w \<Rightarrow> unit result \<times> DocStore \<times> File \<times> 'w" where
  "DocFileIndex k n dl fl sv lb ord ds f name podFile pw w =
     (case OpenFileForIndex sv f podFile pw w of
        (Inl e, f1, w1) \<Rightarrow> (Inl e, ds, f1, w1)
      | (Inr reader, f1, w1) \<Rightarrow>
          (case Seek sv lb 0 reader w1 of
             (Inl e, r1, w2) \<Rightarrow> (Inl e, ds, f1, w2)
           | (Inr o1, r1, w2) \<Rightarrow>
               (case CreateDocBatch k n dl fl sv lb ds f1 name pw w2 of
                  (Inl e, f2, w3) \<Rightarrow> (Inl e, ds, f2, w3)
                | (Inr batch, f2, w3) \<Rightarrow>
                    (case index_lines k n dl fl sv lb ord 0 r1 (batch, ds) w3 of
                       (Inl e, st1, w4) \<Rightarrow> (Inl e, snd st1, f2, w4)
                     | (Inr u, st1, w4) \<Rightarrow>
                         (case DocBatchWrite n sv ord podFile st1 w4 of
                            (r, st2, w5) \<Rightarrow> (r, snd st2, f2, w5))))))"

end
