(* ===== verification/DocProps.thy ===== *)
theory DocProps
  imports DocBatch KVProps
begin

text \<open>
  Correctness of the document databases: the loops over the indexes of a database,
  documents as a dictionary from ids to texts, and the list of the schemas.
\<close>

lemma map_leD: "\<lbrakk>m \<subseteq>\<^sub>m m'; m x = Some y\<rbrakk> \<Longrightarrow> m' x = Some y"
  unfolding map_le_def by (metis domI)

section \<open>Ranging over a map\<close>

definition names_order :: "(string list \<Rightarrow> string list) \<Rightarrow> bool" where
  "names_order ord \<longleftrightarrow> (\<forall>xs. mset (ord xs) = mset xs)"

lemma names_orderD: "names_order ord \<Longrightarrow> set (ord xs) = set xs" "names_order ord \<Longrightarrow> distinct (ord xs) = distinct xs"
  unfolding names_order_def by (metis mset_eq_setD) (metis mset_eq_imp_distinct_iff)

lemma ranged_set:
  assumes "names_order ord" "distinct (map fst m)"
  shows "set (ranged ord m) = set m" "map fst (ranged ord m) = ord (map fst m)"
proof -
  have "(k, the (map_of m k)) \<in> set m" if "k \<in> fst ` set m" for k
    using that assms(2) by (auto simp: image_iff)
  moreover have "(k, v) \<in> set m \<Longrightarrow> v = the (map_of m k)" for k v using assms(2) by simp
  ultimately show "set (ranged ord m) = set m"
    using names_orderD(1) [OF assms(1), of "map fst m"] by (force simp: ranged_def)
  show "map fst (ranged ord m) = ord (map fst m)" by (simp add: ranged_def comp_def)
qed

lemma ranged_map_of: "\<lbrakk>names_order ord; distinct (map fst m)\<rbrakk> \<Longrightarrow> map_of (ranged ord m) = map_of m"
  using ranged_set [of ord m] names_orderD(2) [of ord "map fst m"]
  by (metis map_of_inject_set)

lemma ranged_distinct:
  assumes "names_order ord" "distinct (map fst m)"
  shows "distinct (map fst (ranged ord m))" "distinct (ranged ord m)"
proof -
  show "distinct (map fst (ranged ord m))" using ranged_set(2) [OF assms] names_orderD(2) [OF assms(1)] assms(2) by simp
  then show "distinct (ranged ord m)" by (simp add: distinct_map)
qed

section \<open>The loop over the indexes\<close>

text \<open>What a body must do to its own index: succeed, keep it well formed, change its
  dictionary as eff says, and touch only names that extend the index's name.  The
  precondition pre speaks of the dictionary and of the keys at its branches.\<close>

context storage
begin

abbreviation "find_in \<equiv> index_find sv maxlen feeds blobs"
abbreviation "branch_in \<equiv> index_at_branch sv maxlen feeds blobs"
abbreviation "ok_in \<equiv> index_ok sv maxlen feeds blobs"

definition body_ok ::
  "(string \<Rightarrow> Index \<Rightarrow> 'w \<Rightarrow> unit result \<times> Index \<times> 'w) \<Rightarrow> nat \<Rightarrow> string \<Rightarrow> Index
    \<Rightarrow> ((string \<Rightarrow> bytes list option) \<Rightarrow> (string \<Rightarrow> bool) \<Rightarrow> bool)
    \<Rightarrow> ((string \<Rightarrow> bytes list option) \<Rightarrow> (string \<Rightarrow> bytes list option) \<Rightarrow> bool) \<Rightarrow> bool" where
  "body_ok body cost field idx pre eff \<longleftrightarrow>
     (\<forall>b w. inv (b + cost) w \<longrightarrow> ok_in idx w \<longrightarrow> pre (find_in idx w) (branch_in idx w) \<longrightarrow>
        (\<exists>c w'. body field idx w = (Inr (), idx\<lparr>ixCount := c\<rparr>, w') \<and> inv b w' \<and> ok_in idx w'
           \<and> eff (find_in idx w) (find_in idx w')
           \<and> touched sv maxlen (ixUser idx) {n. prefix (ixName idx) n} (feeds w) (blobs w) (feeds w') (blobs w')))"

lemma not_both: "\<lbrakk>parallel a b; prefix a n\<rbrakk> \<Longrightarrow> \<not> prefix b n"
  using prefix_same_cases unfolding parallel_def by blast

lemma set_doc_index_simps [simp]:
  "openDocDBs (set_doc_index a idx ds) = openDocDBs ds" "dsUser (set_doc_index a idx ds) = dsUser ds"
  "dsPodName (set_doc_index a idx ds) = dsPodName ds"
  "dsHeap (set_doc_index a idx ds) x = (if x = a then idx else dsHeap ds x)"
  by (simp_all add: set_doc_index_def)

lemma over_fields_ok:
  "\<lbrakk>inv (b + sum_list (map cost fs)) w; distinct fs; distinct (map snd fs);
    \<forall>fa \<in> set fs. ok_in (dsHeap ds (snd fa)) w \<and> ixUser (dsHeap ds (snd fa)) = u
      \<and> pre fa (find_in (dsHeap ds (snd fa)) w) (branch_in (dsHeap ds (snd fa)) w)
      \<and> body_ok body (cost fa) (fst fa) (dsHeap ds (snd fa)) (pre fa) (eff fa);
    \<forall>x \<in> set fs. \<forall>y \<in> set fs. x \<noteq> y \<longrightarrow> parallel (ixName (dsHeap ds (snd x))) (ixName (dsHeap ds (snd y)))\<rbrakk> \<Longrightarrow>
   \<exists>ds' w'. over_fields body fs ds w = (Inr (), ds', w') \<and> inv b w'
     \<and> openDocDBs ds' = openDocDBs ds \<and> dsUser ds' = dsUser ds \<and> dsPodName ds' = dsPodName ds
     \<and> (\<forall>a. a \<notin> snd ` set fs \<longrightarrow> dsHeap ds' a = dsHeap ds a)
     \<and> (\<forall>fa \<in> set fs. (\<exists>c. dsHeap ds' (snd fa) = (dsHeap ds (snd fa))\<lparr>ixCount := c\<rparr>)
          \<and> ok_in (dsHeap ds' (snd fa)) w'
          \<and> eff fa (find_in (dsHeap ds (snd fa)) w) (find_in (dsHeap ds' (snd fa)) w'))
     \<and> touched sv maxlen u {n. \<exists>fa \<in> set fs. prefix (ixName (dsHeap ds (snd fa))) n} (feeds w) (blobs w) (feeds w') (blobs w')"
proof (induction fs arbitrary: ds w)
  case (Cons fa fs)
  let ?idx = "dsHeap ds (snd fa)"
  have "inv ((b + sum_list (map cost fs)) + cost fa) w" using Cons.prems(1) by (simp add: ac_simps)
  moreover have "body_ok body (cost fa) (fst fa) ?idx (pre fa) (eff fa)" "ok_in ?idx w" "pre fa (find_in ?idx w) (branch_in ?idx w)"
    using Cons.prems(4) by simp_all
  ultimately obtain c w1 where 1: "body (fst fa) ?idx w = (Inr (), ?idx\<lparr>ixCount := c\<rparr>, w1)" "inv (b + sum_list (map cost fs)) w1"
    "ok_in ?idx w1" "eff fa (find_in ?idx w) (find_in ?idx w1)"
    "touched sv maxlen (ixUser ?idx) {n. prefix (ixName ?idx) n} (feeds w) (blobs w) (feeds w1) (blobs w1)"
    unfolding body_ok_def by blast
  let ?ds = "set_doc_index (snd fa) (?idx\<lparr>ixCount := c\<rparr>) ds"
  have fresh: "snd g \<noteq> snd fa" if "g \<in> set fs" for g using that Cons.prems(3) by (metis distinct.simps(2) image_eqI list.set_map list.simps(9))
  then have same: "dsHeap ?ds (snd g) = dsHeap ds (snd g)" if "g \<in> set fs" for g using that by simp
  have np: "\<not> prefix (ixName (dsHeap ds (snd g))) s" if "g \<in> set fs" "s \<in> {n. prefix (ixName ?idx) n}" for g s
    using that Cons.prems(2,5) not_both by (metis distinct.simps(2) list.set_intros(1,2) mem_Collect_eq)
  have fr: "ok_in (dsHeap ds (snd g)) w1" "find_in (dsHeap ds (snd g)) w1 = find_in (dsHeap ds (snd g)) w"
    "branch_in (dsHeap ds (snd g)) w1 = branch_in (dsHeap ds (snd g)) w" if "g \<in> set fs" for g
    using index_frame(1,2,4) [OF 1(5), of "dsHeap ds (snd g)"] Cons.prems(4) np [OF that] that by auto
  have "\<exists>ds' w'. over_fields body fs ?ds w1 = (Inr (), ds', w') \<and> inv b w'
     \<and> openDocDBs ds' = openDocDBs ?ds \<and> dsUser ds' = dsUser ?ds \<and> dsPodName ds' = dsPodName ?ds
     \<and> (\<forall>a. a \<notin> snd ` set fs \<longrightarrow> dsHeap ds' a = dsHeap ?ds a)
     \<and> (\<forall>fa \<in> set fs. (\<exists>c. dsHeap ds' (snd fa) = (dsHeap ?ds (snd fa))\<lparr>ixCount := c\<rparr>)
          \<and> ok_in (dsHeap ds' (snd fa)) w'
          \<and> eff fa (find_in (dsHeap ?ds (snd fa)) w1) (find_in (dsHeap ds' (snd fa)) w'))
     \<and> touched sv maxlen u {n. \<exists>fa \<in> set fs. prefix (ixName (dsHeap ?ds (snd fa))) n} (feeds w1) (blobs w1) (feeds w') (blobs w')"
    by (rule Cons.IH [OF 1(2)]) (use Cons.prems fr same in auto)
  then obtain ds' w' where 2: "over_fields body fs ?ds w1 = (Inr (), ds', w')" "inv b w'"
    "openDocDBs ds' = openDocDBs ?ds" "dsUser ds' = dsUser ?ds" "dsPodName ds' = dsPodName ?ds"
    "\<forall>a. a \<notin> snd ` set fs \<longrightarrow> dsHeap ds' a = dsHeap ?ds a"
    "\<forall>fa \<in> set fs. (\<exists>c. dsHeap ds' (snd fa) = (dsHeap ?ds (snd fa))\<lparr>ixCount := c\<rparr>)
          \<and> ok_in (dsHeap ds' (snd fa)) w'
          \<and> eff fa (find_in (dsHeap ?ds (snd fa)) w1) (find_in (dsHeap ds' (snd fa)) w')"
    "touched sv maxlen u {n. \<exists>fa \<in> set fs. prefix (ixName (dsHeap ?ds (snd fa))) n} (feeds w1) (blobs w1) (feeds w') (blobs w')"
    by blast
  have rest: "(\<exists>c. dsHeap ds' (snd g) = (dsHeap ds (snd g))\<lparr>ixCount := c\<rparr>) \<and> ok_in (dsHeap ds' (snd g)) w'
      \<and> eff g (find_in (dsHeap ds (snd g)) w) (find_in (dsHeap ds' (snd g)) w')" if "g \<in> set fs" for g
    using bspec [OF 2(7) that] same [OF that] fr(2) [OF that] by simp
  have tc: "touched sv maxlen u {n. \<exists>g \<in> set fs. prefix (ixName (dsHeap ds (snd g))) n} (feeds w1) (blobs w1) (feeds w') (blobs w')"
    by (rule touched_mono [OF 2(8)]) (use same in auto)
  have u: "ixUser ?idx = u" using Cons.prems(4) by simp
  have own: "dsHeap ds' (snd fa) = ?idx\<lparr>ixCount := c\<rparr>" 
  proof -
    have "snd fa \<notin> snd ` set fs" by (metis imageE fresh)
    with 2(6) have "dsHeap ds' (snd fa) = dsHeap ?ds (snd fa)" by blast
    then show ?thesis by simp
  qed
  have np': "\<not> prefix (ixName ?idx) s" if "s \<in> {n. \<exists>g \<in> set fs. prefix (ixName (dsHeap ds (snd g))) n}" for s
    using that np by blast
  note fa' = index_frame(1,2) [OF tc 1(3) np']
  have all: "touched sv maxlen u {n. \<exists>g \<in> set (fa # fs). prefix (ixName (dsHeap ds (snd g))) n} (feeds w) (blobs w) (feeds w') (blobs w')"
    by (rule touched_trans [OF touched_mono [OF 1(5) [unfolded u]] tc]) auto
  show ?case
  proof (intro exI [of _ ds'] exI [of _ w'] conjI)
    show "over_fields body (fa # fs) ds w = (Inr (), ds', w')" using 1(1) 2(1) by simp
    show "\<forall>a. a \<notin> snd ` set (fa # fs) \<longrightarrow> dsHeap ds' a = dsHeap ds a" using 2(6) by simp
    show "\<forall>g \<in> set (fa # fs). (\<exists>c. dsHeap ds' (snd g) = (dsHeap ds (snd g))\<lparr>ixCount := c\<rparr>) \<and> ok_in (dsHeap ds' (snd g)) w'
        \<and> eff g (find_in (dsHeap ds (snd g)) w) (find_in (dsHeap ds' (snd g)) w')"
      using rest own fa' 1(4) by auto
  qed (use 2 all in simp_all)
qed simp

lemma over_fields_run:
  assumes "inv (b + sum_list (map cost fs)) w" "distinct fs" "distinct (map snd fs)"
    and "\<And>fa. fa \<in> set fs \<Longrightarrow> ok_in (dsHeap ds (snd fa)) w \<and> ixUser (dsHeap ds (snd fa)) = u
      \<and> pre fa (find_in (dsHeap ds (snd fa)) w) (branch_in (dsHeap ds (snd fa)) w)
      \<and> body_ok body (cost fa) (fst fa) (dsHeap ds (snd fa)) (pre fa) (eff fa)"
    and "\<forall>x \<in> set fs. \<forall>y \<in> set fs. x \<noteq> y \<longrightarrow> parallel (ixName (dsHeap ds (snd x))) (ixName (dsHeap ds (snd y)))"
  obtains ds' w' where "over_fields body fs ds w = (Inr (), ds', w')" "inv b w'"
    "openDocDBs ds' = openDocDBs ds" "dsUser ds' = dsUser ds" "dsPodName ds' = dsPodName ds"
    "\<forall>a. a \<notin> snd ` set fs \<longrightarrow> dsHeap ds' a = dsHeap ds a"
    "\<forall>fa \<in> set fs. (\<exists>c. dsHeap ds' (snd fa) = (dsHeap ds (snd fa))\<lparr>ixCount := c\<rparr>)
          \<and> ok_in (dsHeap ds' (snd fa)) w'
          \<and> eff fa (find_in (dsHeap ds (snd fa)) w) (find_in (dsHeap ds' (snd fa)) w')"
    "touched sv maxlen u {n. \<exists>fa \<in> set fs. prefix (ixName (dsHeap ds (snd fa))) n} (feeds w) (blobs w) (feeds w') (blobs w')"
  using over_fields_ok [OF assms(1-3) _ assms(5), of u pre body eff] assms(4) by blast

end

section \<open>Putting and deleting the keys of a document\<close>

text \<open>The keys under which an index files a document, when its value has the right
  type.\<close>

definition proper_keys :: "string result list \<Rightarrow> string list option" where
  "proper_keys ks = those (map (\<lambda>k. case k of Inl e \<Rightarrow> None | Inr s \<Rightarrow> Some s) ks)"

lemma proper_keys_simps [simp]:
  "proper_keys [] = Some []" "proper_keys (Inl e # ks) = None"
  "proper_keys (Inr s # ks) = map_option (Cons s) (proper_keys ks)"
  by (simp_all add: proper_keys_def)

definition field_keys ::
  "('f, 'v) doclib \<Rightarrow> 'f floats \<Rightarrow> (string list \<Rightarrow> string list) \<Rightarrow> IndexType \<Rightarrow> 'f jvalue option \<Rightarrow> string list option" where
  "field_keys dl fl ord ty v =
     (case ty of
        VectorIndex \<Rightarrow>
          (case v of Some (JArray xs) \<Rightarrow>
             (case vector_of dl xs of Inr vec \<Rightarrow> Some [HexEncode (EncodeVector dl vec)] | Inl e \<Rightarrow> None) | _ \<Rightarrow> None)
      | StringIndex \<Rightarrow> (case v of Some (JString s) \<Rightarrow> Some [s] | _ \<Rightarrow> None)
      | MapIndex \<Rightarrow> (case v of Some (JObject m) \<Rightarrow> proper_keys (map_keys (ranged ord m)) | _ \<Rightarrow> None)
      | ListIndex \<Rightarrow> (case v of Some (JArray vs) \<Rightarrow> proper_keys (list_keys vs) | _ \<Rightarrow> None)
      | NumberIndex \<Rightarrow> (case v of Some (JNumber x) \<Rightarrow> Some [FormatKey fl x] | _ \<Rightarrow> None)
      | _ \<Rightarrow> None)"

text \<open>After a put every key finds the reference, and the other keys find what they
  found; the key of the default index finds nothing else.\<close>

definition filed ::
  "bool \<Rightarrow> string list \<Rightarrow> bytes \<Rightarrow> (string \<Rightarrow> bytes list option) \<Rightarrow> (string \<Rightarrow> bytes list option) \<Rightarrow> bool" where
  "filed only ks ref D D' \<longleftrightarrow>
     (\<forall>k. if k \<in> set ks then \<exists>refs. D' k = Some refs \<and> ref \<in> set refs \<and> (only \<longrightarrow> refs = [ref]) else D' k = D k)"

lemma filed_key: "\<lbrakk>filed True ks ref D D'; k \<in> set ks\<rbrakk> \<Longrightarrow> D' k = Some [ref]"
  unfolding filed_def by (metis (full_types))

definition unfiled :: "string list \<Rightarrow> (string \<Rightarrow> bytes list option) \<Rightarrow> (string \<Rightarrow> bytes list option) \<Rightarrow> bool" where
  "unfiled ks D D' \<longleftrightarrow> (\<forall>k. D' k = (if k \<in> set ks then None else D k))"

context storage
begin

lemma Put_filed:
  assumes "inv (b + 4) w" "ok_in idx w" "length (ixName idx) + length key \<le> maxlen" "ascii key"
  obtains c w' where "Put sv idx key ref ty apnd w = (Inr (), idx\<lparr>ixCount := c\<rparr>, w')" "inv b w'" "ok_in idx w'"
    "filed (\<not> apnd) [key] ref (find_in idx w) (find_in idx w')"
    "touched sv maxlen (ixUser idx) {n. prefix (ixName idx) n} (feeds w) (blobs w) (feeds w') (blobs w')"
proof -
  have "inv (b + 2 + 2) w" using assms(1) by (simp add: eval_nat_numeral)
  then obtain w' where p: "Put sv idx key ref ty apnd w = (Inr (), idx\<lparr>ixCount := ixCount idx + 1\<rparr>, w')" "inv b w'" "ok_in idx w'"
    "\<And>k. find_in idx w' k =
       (if k = key then Some (case find_in idx w key of
            Some old \<Rightarrow> if apnd \<and> \<not> branch_in idx w key then old @ [ref] else [ref]
          | None \<Rightarrow> [ref])
        else find_in idx w k)"
    "touched sv maxlen (ixUser idx) {n. prefix (ixName idx) n} (feeds w) (blobs w) (feeds w') (blobs w')"
    by (rule Put_ok [OF _ assms(2-4), of b ref ty apnd]) (rule that)
  show thesis
    by (rule that [OF p(1-3) _ p(5)]) (simp add: filed_def p(4) split: option.split)
qed

lemma put_keys_ok:
  "\<lbrakk>inv (b + 4 * length ks) w; ok_in idx w; proper_keys rs = Some ks; \<forall>k \<in> set ks. length (ixName idx) + length k \<le> maxlen \<and> ascii k\<rbrakk> \<Longrightarrow>
   \<exists>c w'. put_keys sv ref rs idx w = (Inr (), idx\<lparr>ixCount := c\<rparr>, w') \<and> inv b w' \<and> ok_in idx w'
     \<and> filed False ks ref (find_in idx w) (find_in idx w')
     \<and> touched sv maxlen (ixUser idx) {n. prefix (ixName idx) n} (feeds w) (blobs w) (feeds w') (blobs w')"
proof (induction rs arbitrary: ks idx w)
  case Nil
  have "\<exists>c. idx = idx\<lparr>ixCount := c\<rparr>" by (rule exI [of _ "ixCount idx"]) simp
  with Nil show ?case by (auto simp: filed_def)
next
  case (Cons r rs)
  then obtain key ks' where k: "r = Inr key" "ks = key # ks'" "proper_keys rs = Some ks'" by (cases r) auto
  have i: "inv ((b + 4 * length ks') + 4) w" using Cons.prems(1) k(2) by (simp add: ac_simps)
  have l: "length (ixName idx) + length key \<le> maxlen" "ascii key" using Cons.prems(4) k(2) by simp_all
  obtain c w1 where 1: "Put sv idx key ref StringIndex True w = (Inr (), idx\<lparr>ixCount := c\<rparr>, w1)" "inv (b + 4 * length ks') w1"
    "ok_in idx w1" "filed (\<not> True) [key] ref (find_in idx w) (find_in idx w1)"
    "touched sv maxlen (ixUser idx) {n. prefix (ixName idx) n} (feeds w) (blobs w) (feeds w1) (blobs w1)"
    by (rule Put_filed [OF i Cons.prems(2) l, of ref StringIndex True]) (rule that)
  have "\<exists>c' w'. put_keys sv ref rs (idx\<lparr>ixCount := c\<rparr>) w1 = (Inr (), idx\<lparr>ixCount := c\<rparr>\<lparr>ixCount := c'\<rparr>, w') \<and> inv b w'
     \<and> ok_in (idx\<lparr>ixCount := c\<rparr>) w' \<and> filed False ks' ref (find_in (idx\<lparr>ixCount := c\<rparr>) w1) (find_in (idx\<lparr>ixCount := c\<rparr>) w')
     \<and> touched sv maxlen (ixUser (idx\<lparr>ixCount := c\<rparr>)) {n. prefix (ixName (idx\<lparr>ixCount := c\<rparr>)) n} (feeds w1) (blobs w1) (feeds w') (blobs w')"
    by (rule Cons.IH [OF 1(2) _ k(3)]) (use 1(3) Cons.prems(4) k in auto)
  then obtain c' w' where 2: "put_keys sv ref rs (idx\<lparr>ixCount := c\<rparr>) w1 = (Inr (), idx\<lparr>ixCount := c'\<rparr>, w')" "inv b w'" "ok_in idx w'"
     "filed False ks' ref (find_in idx w1) (find_in idx w')"
     "touched sv maxlen (ixUser idx) {n. prefix (ixName idx) n} (feeds w1) (blobs w1) (feeds w') (blobs w')" by auto
  have "filed False ks ref (find_in idx w) (find_in idx w')"
    using 1(4) 2(4) k(2) unfolding filed_def by (auto split: if_splits)
  with 1 2 k touched_trans [OF 1(5) 2(5)] show ?case by auto
qed

lemma put_field_ok:
  assumes "field_keys dl fl ord (ixType idx) v = Some ks" "\<forall>k \<in> set ks. length (ixName idx) + length k \<le> maxlen \<and> ascii k"
  shows "body_ok (\<lambda>field. put_field dl fl sv ord field v ref) (4 * length ks) field idx (\<lambda>D B. True)
    (filed (ixType idx = StringIndex \<and> field = DefaultIndexFieldName) ks ref)"
  unfolding body_ok_def
proof (intro allI impI)
  fix b w assume w: "inv (b + 4 * length ks) w" "ok_in idx w"
  let ?goal = "\<lambda>body only. \<exists>c w'. body = (Inr (), idx\<lparr>ixCount := c\<rparr>, w') \<and> inv b w' \<and> ok_in idx w'
     \<and> filed only ks ref (find_in idx w) (find_in idx w')
     \<and> touched sv maxlen (ixUser idx) {n. prefix (ixName idx) n} (feeds w) (blobs w) (feeds w') (blobs w')"
  have one: "?goal (Put sv idx key ref ty apnd w) (\<not> apnd)" if "ks = [key]" for key ty apnd
  proof -
    have i: "inv (b + 4) w" "length (ixName idx) + length key \<le> maxlen" "ascii key" using w(1) assms(2) that by simp_all
    show ?thesis by (rule Put_filed [OF i(1) w(2) i(2,3), of ref ty apnd]) (use that in blast)
  qed
  have more: "?goal (put_keys sv ref rs idx w) False" if "proper_keys rs = Some ks" for rs
    by (rule put_keys_ok [OF w that assms(2)])
  show "?goal (put_field dl fl sv ord field v ref idx w) (ixType idx = StringIndex \<and> field = DefaultIndexFieldName)"
  proof (cases "ixType idx")
    case StringIndex
    with assms(1) obtain s where "v = Some (JString s)" "ks = [s]" by (auto simp: field_keys_def split: option.splits jvalue.splits)
    with one [of s StringIndex "field \<noteq> DefaultIndexFieldName"] StringIndex show ?thesis by (simp add: put_field_def)
  next
    case NumberIndex
    with assms(1) obtain x where "v = Some (JNumber x)" "ks = [FormatKey fl x]" by (auto simp: field_keys_def split: option.splits jvalue.splits)
    with one [of "FormatKey fl x" NumberIndex True] NumberIndex show ?thesis by (simp add: put_field_def PutNumber_def)
  next
    case MapIndex
    with assms(1) obtain m where "v = Some (JObject m)" "proper_keys (map_keys (ranged ord m)) = Some ks"
      by (auto simp: field_keys_def split: option.splits jvalue.splits)
    with more MapIndex show ?thesis by (simp add: put_field_def)
  next
    case ListIndex
    with assms(1) obtain vs where "v = Some (JArray vs)" "proper_keys (list_keys vs) = Some ks"
      by (auto simp: field_keys_def split: option.splits jvalue.splits)
    with more ListIndex show ?thesis by (simp add: put_field_def)
  next
    case VectorIndex
    with assms(1) obtain xs vec where "v = Some (JArray xs)" "vector_of dl xs = Inr vec" "ks = [HexEncode (EncodeVector dl vec)]"
      by (auto simp: field_keys_def split: option.splits jvalue.splits sum.splits)
    with one [of "HexEncode (EncodeVector dl vec)" StringIndex True] VectorIndex show ?thesis by (simp add: put_field_def)
  qed (use assms(1) in \<open>simp_all add: field_keys_def\<close>)
qed

lemma delete_field_ok:
  assumes "field_keys dl fl ord (ixType idx) v = Some ks" "ixType idx \<in> {StringIndex, NumberIndex}"
  shows "body_ok (\<lambda>field. delete_field fl sv ord v) 2 field idx (\<lambda>D B. \<forall>k \<in> set ks. D k \<noteq> None \<and> \<not> B k) (unfiled ks)"
  unfolding body_ok_def
proof (intro allI impI)
  fix b w assume w: "inv (b + 2) w" "ok_in idx w" "\<forall>k \<in> set ks. find_in idx w k \<noteq> None \<and> \<not> branch_in idx w k"
  obtain k where k: "ks = [k]" using assms by (auto simp: field_keys_def split: option.splits jvalue.splits)
  then obtain refs where r: "find_in idx w k = Some refs" "\<not> branch_in idx w k" using w(3) by auto
  obtain w' where d: "Delete sv idx k w = (Inr refs, idx\<lparr>ixCount := ixCount idx - 1\<rparr>, w')" "inv b w'" "ok_in idx w'"
    "\<And>x. find_in idx w' x = (if x = k then None else find_in idx w x)"
    "touched sv maxlen (ixUser idx) {n. prefix (ixName idx) n} (feeds w) (blobs w) (feeds w') (blobs w')"
    by (rule Delete_ok [OF w(1,2) r]) (rule that)
  have "delete_field fl sv ord v idx w = (Inr (), idx\<lparr>ixCount := ixCount idx - 1\<rparr>, w')"
    using assms d(1) k by (auto simp: field_keys_def delete_field_def DeleteNumber_def split: option.splits jvalue.splits)
  moreover have "unfiled ks (find_in idx w) (find_in idx w')" by (simp add: unfiled_def k d(4))
  ultimately show "\<exists>c w'. delete_field fl sv ord v idx w = (Inr (), idx\<lparr>ixCount := c\<rparr>, w') \<and> inv b w' \<and> ok_in idx w'
      \<and> unfiled ks (find_in idx w) (find_in idx w')
      \<and> touched sv maxlen (ixUser idx) {n. prefix (ixName idx) n} (feeds w) (blobs w) (feeds w') (blobs w')"
    using d by blast
qed

end

section \<open>Databases\<close>

definition db_indexes :: "DocumentDB \<Rightarrow> index_map" where
  "db_indexes db = simpleIndexes db @ mapIndexes db @ listIndexes db @ vectorIndexes db"

lemma fold_update_new:
  "\<lbrakk>distinct (map fst xs); fst ` set xs \<inter> fst ` set m = {}\<rbrakk> \<Longrightarrow> fold (\<lambda>(f, a) m. AList.update f a m) xs m = m @ xs"
proof (induction xs arbitrary: m)
  case (Cons x xs)
  obtain f a where x: "x = (f, a)" by fastforce
  have "AList.update f a m = m @ [(f, a)]" by (rule update_new) (use Cons.prems x in auto)
  moreover have "fst ` set xs \<inter> fst ` set (m @ [(f, a)]) = {}" using Cons.prems x by auto
  ultimately show ?case using Cons.IH [of "m @ [(f, a)]"] Cons.prems x by simp
qed simp

lemma all_indexes_distinct: "distinct (map fst (db_indexes db)) \<Longrightarrow> all_indexes db = db_indexes db"
  unfolding all_indexes_def db_indexes_def by (subst fold_update_new) simp_all

lemma ranged_sum:
  fixes c :: "string \<times> 'a \<Rightarrow> nat"
  assumes "names_order ord" "distinct (map fst m)"
  shows "sum_list (map c (ranged ord m)) = sum_list (map c m)"
proof -
  have "distinct m" using assms(2) by (simp add: distinct_map)
  then have "mset (ranged ord m) = mset m"
    using ranged_set(1) [OF assms] ranged_distinct(2) [OF assms] by (simp add: set_eq_iff_mset_eq_distinct [symmetric])
  then have "mset (map c (ranged ord m)) = mset (map c m)" by simp
  then show ?thesis by (metis sum_mset_sum_list)
qed

text \<open>The keys of a document in one index, and that every index can file it.\<close>

definition doc_keys ::
  "('f, 'v) doclib \<Rightarrow> 'f floats \<Rightarrow> (string list \<Rightarrow> string list) \<Rightarrow> DocStore \<Rightarrow> (string \<times> 'f jvalue) list \<Rightarrow> string \<times> nat
    \<Rightarrow> string list option" where
  "doc_keys dl fl ord ds docMap fa = field_keys dl fl ord (ixType (dsHeap ds (snd fa))) (map_of docMap (fst fa))"

definition doc_fits ::
  "('f, 'v) doclib \<Rightarrow> 'f floats \<Rightarrow> (string list \<Rightarrow> string list) \<Rightarrow> nat \<Rightarrow> DocStore \<Rightarrow> DocumentDB \<Rightarrow> (string \<times> 'f jvalue) list \<Rightarrow> bool" where
  "doc_fits dl fl ord maxlen ds db docMap \<longleftrightarrow>
     (\<forall>fa \<in> set (db_indexes db). \<exists>ks. doc_keys dl fl ord ds docMap fa = Some ks
        \<and> (\<forall>k \<in> set ks. length (ixName (dsHeap ds (snd fa))) + length k \<le> maxlen \<and> ascii k))"

definition doc_cost ::
  "('f, 'v) doclib \<Rightarrow> 'f floats \<Rightarrow> (string list \<Rightarrow> string list) \<Rightarrow> DocStore \<Rightarrow> DocumentDB \<Rightarrow> (string \<times> 'f jvalue) list \<Rightarrow> nat" where
  "doc_cost dl fl ord ds db docMap =
     (\<Sum>fa \<leftarrow> db_indexes db. 4 * length (the (doc_keys dl fl ord ds docMap fa)))"

text \<open>The documents of an open database, from their ids to their texts.\<close>

context storage
begin

definition id_index :: "DocStore \<Rightarrow> DocumentDB \<Rightarrow> Index" where
  "id_index ds db = dsHeap ds (the (map_of (simpleIndexes db) DefaultIndexFieldName))"

definition documents :: "DocStore \<Rightarrow> DocumentDB \<Rightarrow> 'w \<Rightarrow> string \<Rightarrow> bytes option" where
  "documents ds db w did =
     (case find_in (id_index ds db) w did of
        Some (r # rs) \<Rightarrow> map_option doc_text (blobs w r) | _ \<Rightarrow> None)"

text \<open>The invariant of an open database: its indexes are sound and apart from each
  other, and every id leads to a document that has this id.\<close>

definition indexes_ok :: "DocStore \<Rightarrow> DocumentDB \<Rightarrow> 'w \<Rightarrow> bool" where
  "indexes_ok ds db w \<longleftrightarrow>
     distinct (map fst (db_indexes db)) \<and> distinct (map snd (db_indexes db))
     \<and> (\<forall>fa \<in> set (db_indexes db). ok_in (dsHeap ds (snd fa)) w \<and> ixUser (dsHeap ds (snd fa)) = dsUser ds)
     \<and> (\<forall>x \<in> set (db_indexes db). \<forall>y \<in> set (db_indexes db). x \<noteq> y \<longrightarrow>
          parallel (ixName (dsHeap ds (snd x))) (ixName (dsHeap ds (snd y))))"

definition db_ok :: "('f, 'v) doclib \<Rightarrow> DocStore \<Rightarrow> DocumentDB \<Rightarrow> 'w \<Rightarrow> bool" where
  "db_ok dl ds db w \<longleftrightarrow>
     dbMutable db \<and> indexes_ok ds db w
     \<and> map_of (simpleIndexes db) DefaultIndexFieldName \<noteq> None \<and> ixType (id_index ds db) = StringIndex
     \<and> (\<forall>did refs. find_in (id_index ds db) w did = Some refs \<longrightarrow>
          (\<exists>r rs d m. refs = r # rs \<and> blobs w r = Some (Raw d) \<and> parse_doc dl d = Inr m
             \<and> map_of m DefaultIndexFieldName = Some (JString did)))"

lemma db_okD:
  assumes "db_ok dl ds db w"
  obtains a where "map_of (simpleIndexes db) DefaultIndexFieldName = Some a" "id_index ds db = dsHeap ds a"
    "(DefaultIndexFieldName, a) \<in> set (db_indexes db)" "(DefaultIndexFieldName, a) \<in> set (simpleIndexes db)"
    "ok_in (id_index ds db) w" "ixMutable (id_index ds db)" "dbMutable db"
proof -
  from assms obtain a where a: "map_of (simpleIndexes db) DefaultIndexFieldName = Some a" by (auto simp: db_ok_def)
  then have m: "(DefaultIndexFieldName, a) \<in> set (simpleIndexes db)" by (rule map_of_SomeD)
  then have "(DefaultIndexFieldName, a) \<in> set (db_indexes db)" by (simp add: db_indexes_def)
  moreover have "id_index ds db = dsHeap ds a" by (simp add: id_index_def a)
  moreover from calculation assms have "ok_in (dsHeap ds a) w" by (force simp: db_ok_def indexes_ok_def)
  ultimately show thesis using that a m assms by (simp add: db_ok_def index_ok_def)
qed

lemma db_ok_apart:
  "\<lbrakk>db_ok dl ds db w; x \<in> set (db_indexes db); y \<in> set (db_indexes db); x \<noteq> y\<rbrakk> \<Longrightarrow>
   parallel (ixName (dsHeap ds (snd x))) (ixName (dsHeap ds (snd y)))"
  unfolding db_ok_def indexes_ok_def by blast

lemma db_ok_entry:
  assumes "db_ok dl ds db w" "find_in (id_index ds db) w did = Some refs"
  obtains r rs d m where "refs = r # rs" "blobs w r = Some (Raw d)" "parse_doc dl d = Inr m"
    "map_of m DefaultIndexFieldName = Some (JString did)"
  using assms unfolding db_ok_def by metis

lemma documents_None: "db_ok dl ds db w \<Longrightarrow> documents ds db w did = None \<longleftrightarrow> find_in (id_index ds db) w did = None"
  unfolding db_ok_def documents_def by (cases "find_in (id_index ds db) w did") fastforce+

text \<open>Get is the dictionary.\<close>

lemma Doc_Get_ok:
  assumes "inv b w" "openDocDBs ds name = Some db" "db_ok dl ds db w"
  shows "fst (Doc_Get n sv lb ds f name did pw w) =
     (case documents ds db w did of None \<Rightarrow> Inl ErrEntryNotFound | Some d \<Rightarrow> Inr d)"
proof -
  obtain a where a: "map_of (simpleIndexes db) DefaultIndexFieldName = Some a" "id_index ds db = dsHeap ds a"
    "ok_in (id_index ds db) w" "ixMutable (id_index ds db)" using assms(3) by (rule db_okD)
  obtain w1 where g: "Get sv (id_index ds db) did w =
      ((case find_in (id_index ds db) w did of None \<Rightarrow> Inl ErrEntryNotFound | Some refs \<Rightarrow> Inr refs), w1)"
    "inv b w1" "feeds w1 = feeds w" "blobs w1 = blobs w" by (rule Get_ok [OF assms(1) a(3)])
  show ?thesis
  proof (cases "find_in (id_index ds db) w did")
    case None
    with g a assms(2) show ?thesis by (simp add: Doc_Get_def getOpenedDb_def documents_def Let_def)
  next
    case (Some refs)
    obtain r rs d where r: "refs = r # rs" "blobs w r = Some (Raw d)" by (rule db_ok_entry [OF assms(3) Some]) (rule that)
    obtain x w2 where x: "DownloadBlob sv r w1 = (x, w2)" by fastforce
    from download_blob [OF g(2) x] r(2) g(4) have "x = Inr (Raw d, 200)" by simp
    with Some g a assms(2) r x show ?thesis by (simp add: Doc_Get_def getOpenedDb_def documents_def Let_def doc_text_def)
  qed
qed

text \<open>More blobs, or the blob of a document less, change nothing for the indexes.\<close>

lemma more_blobs:
  assumes "feeds w' = feeds w" "blobs w \<subseteq>\<^sub>m blobs w'" "ok_in idx w"
  shows "ok_in idx w'" "find_in idx w' = find_in idx w" "branch_in idx w' = branch_in idx w"
proof -
  have t: "touched sv maxlen (ixUser idx) {} (feeds w) (blobs w) (feeds w') (blobs w')" using assms by (simp add: touched_def)
  show "ok_in idx w'" "find_in idx w' = find_in idx w" "branch_in idx w' = branch_in idx w"
    using index_frame(1,2,4) [OF t assms(3)] by simp_all
qed

lemma blob_less:
  assumes "feeds w' = feeds w" "\<And>r'. r' \<noteq> r \<Longrightarrow> blobs w' r' = blobs w r'" "blobs w' \<subseteq>\<^sub>m blobs w" "blobs w r = Some (Raw d)"
  shows "ok_in idx w' = ok_in idx w" "find_in idx w' = find_in idx w" "branch_in idx w' = branch_in idx w"
proof -
  have "blobs w' r = None \<or> blobs w' r = Some (Raw d)"
    using assms(3,4) unfolding map_le_def by (metis domIff)
  then have "(case blobs w' ref of Some (Doc (DManifest m)) \<Rightarrow> Some m | _ \<Rightarrow> None) = (case blobs w ref of Some (Doc (DManifest m)) \<Rightarrow> Some m | _ \<Rightarrow> None)" for ref
    using assms(2) [of ref] assms(4) by (cases "ref = r") auto
  then have V: "ixview sv maxlen feeds blobs idx w' = ixview sv maxlen feeds blobs idx w"
    unfolding ixview_def manifest_view_def assms(1) by presburger
  show "ok_in idx w' = ok_in idx w" by (simp add: index_ok_def V)
  show "find_in idx w' = find_in idx w" by (rule ext) (unfold index_find_def V, rule refl)
  show "branch_in idx w' = branch_in idx w" by (rule ext) (unfold index_at_branch_def V, rule refl)
qed

section \<open>Putting a document\<close>

lemma put_doc_ok:
  assumes b: "inv (b + doc_cost dl fl ord ds db docMap) w" and ok: "db_ok dl ds db w" and ord: "names_order ord"
    and fits: "doc_fits dl fl ord maxlen ds db docMap"
    and doc: "blobs w ref = Some (Raw doc)" "parse_doc dl doc = Inr docMap" "map_of docMap DefaultIndexFieldName = Some (JString did)"
  obtains ds' w' where "put_fields dl fl sv ord docMap ref (ranged ord (all_indexes db)) ds w = (Inr (), ds', w')" "inv b w'"
    "openDocDBs ds' = openDocDBs ds" "dsUser ds' = dsUser ds" "dsPodName ds' = dsPodName ds"
    "db_ok dl ds' db w'" "documents ds' db w' = (documents ds db w)(did \<mapsto> doc)"
    "\<And>fa. fa \<in> set (db_indexes db) \<Longrightarrow>
       filed False (the (doc_keys dl fl ord ds docMap fa)) ref (find_in (dsHeap ds (snd fa)) w) (find_in (dsHeap ds' (snd fa)) w')"
    "blobs w \<subseteq>\<^sub>m blobs w'"
proof -
  let ?fs = "ranged ord (db_indexes db)"
  let ?ks = "\<lambda>fa. the (doc_keys dl fl ord ds docMap fa)"
  let ?only = "\<lambda>fa. ixType (dsHeap ds (snd fa)) = StringIndex \<and> fst fa = DefaultIndexFieldName"
  have ix: "distinct (map fst (db_indexes db))" "distinct (map snd (db_indexes db))" using ok by (simp_all add: db_ok_def indexes_ok_def)
  note r = ranged_set [OF ord ix(1)] ranged_distinct [OF ord ix(1)]
  have cost: "sum_list (map (\<lambda>fa. 4 * length (?ks fa)) ?fs) = doc_cost dl fl ord ds db docMap"
    by (simp add: ranged_sum [OF ord ix(1)] doc_cost_def)
  have ds2: "distinct (map snd ?fs)"
    using ix(2) r(1,4) by (simp add: distinct_map)
  have fa: "ok_in (dsHeap ds (snd fa)) w \<and> ixUser (dsHeap ds (snd fa)) = dsUser ds 
      \<and> (\<lambda>fa D B. True) fa (find_in (dsHeap ds (snd fa)) w) (branch_in (dsHeap ds (snd fa)) w)
      \<and> body_ok (\<lambda>field. put_field dl fl sv ord field (map_of docMap field) ref) (4 * length (?ks fa)) (fst fa) (dsHeap ds (snd fa))
          (\<lambda>D B. True) (filed (?only fa) (?ks fa) ref)" if "fa \<in> set ?fs" for fa
  proof -
    have m: "fa \<in> set (db_indexes db)" using that r(1) by simp
    with fits obtain ks where ks: "doc_keys dl fl ord ds docMap fa = Some ks"
      "\<forall>k \<in> set ks. length (ixName (dsHeap ds (snd fa))) + length k \<le> maxlen \<and> ascii k" by (auto simp: doc_fits_def)
    have "body_ok (\<lambda>field. put_field dl fl sv ord field (map_of docMap (fst fa)) ref) (4 * length ks) (fst fa) (dsHeap ds (snd fa))
          (\<lambda>D B. True) (filed (?only fa) ks ref)"
      by (rule put_field_ok) (use ks in \<open>simp_all add: doc_keys_def\<close>)
    with m ok ks(1) show ?thesis by (simp add: db_ok_def indexes_ok_def body_ok_def)
  qed
  have par: "\<forall>x \<in> set ?fs. \<forall>y \<in> set ?fs. x \<noteq> y \<longrightarrow> parallel (ixName (dsHeap ds (snd x))) (ixName (dsHeap ds (snd y)))"
    using ok r(1) by (simp add: db_ok_def indexes_ok_def)
  obtain ds' w' where p: "over_fields (\<lambda>field. put_field dl fl sv ord field (map_of docMap field) ref) ?fs ds w = (Inr (), ds', w')" "inv b w'"
     "openDocDBs ds' = openDocDBs ds" "dsUser ds' = dsUser ds" "dsPodName ds' = dsPodName ds"
     "\<forall>a. a \<notin> snd ` set ?fs \<longrightarrow> dsHeap ds' a = dsHeap ds a"
     "\<forall>fa \<in> set ?fs. (\<exists>c. dsHeap ds' (snd fa) = (dsHeap ds (snd fa))\<lparr>ixCount := c\<rparr>)
          \<and> ok_in (dsHeap ds' (snd fa)) w'
          \<and> filed (?only fa) (?ks fa) ref (find_in (dsHeap ds (snd fa)) w) (find_in (dsHeap ds' (snd fa)) w')"
     "touched sv maxlen (dsUser ds) {n. \<exists>fa \<in> set ?fs. prefix (ixName (dsHeap ds (snd fa))) n} (feeds w) (blobs w) (feeds w') (blobs w')"
    by (rule over_fields_run [where cost = "\<lambda>fa. 4 * length (?ks fa)" and pre = "\<lambda>fa D B. True" and u = "dsUser ds"
        and eff = "\<lambda>fa. filed (?only fa) (?ks fa) ref", OF b [folded cost] r(4) ds2 fa par]) (assumption, rule that)
  have le: "blobs w \<subseteq>\<^sub>m blobs w'" using p(8) by (simp add: touched_def)
  have each: "(\<exists>c. dsHeap ds' (snd fa) = (dsHeap ds (snd fa))\<lparr>ixCount := c\<rparr>) \<and> ok_in (dsHeap ds' (snd fa)) w'
      \<and> filed (?only fa) (?ks fa) ref (find_in (dsHeap ds (snd fa)) w) (find_in (dsHeap ds' (snd fa)) w')"
    if "fa \<in> set (db_indexes db)" for fa using p(7) that r(1) by simp
  have nm: "ixName (dsHeap ds' (snd fa)) = ixName (dsHeap ds (snd fa))" "ixUser (dsHeap ds' (snd fa)) = ixUser (dsHeap ds (snd fa))"
    "ixType (dsHeap ds' (snd fa)) = ixType (dsHeap ds (snd fa))" if "fa \<in> set (db_indexes db)" for fa
    using each [OF that] by auto
  have iok: "indexes_ok ds' db w'"
    using ok each nm p(4) by (simp add: db_ok_def indexes_ok_def)
  obtain a where a: "map_of (simpleIndexes db) DefaultIndexFieldName = Some a" "id_index ds db = dsHeap ds a"
    "(DefaultIndexFieldName, a) \<in> set (db_indexes db)" "dbMutable db" using ok by (rule db_okD)
  have a': "id_index ds' db = dsHeap ds' a" by (simp add: id_index_def a(1))
  have ty: "ixType (dsHeap ds a) = StringIndex" using ok a(2) by (simp add: db_ok_def)
  have "?ks (DefaultIndexFieldName, a) = [did]" by (simp add: doc_keys_def field_keys_def ty doc(3))
  with each [OF a(3)] ty have f: "filed True [did] ref (find_in (id_index ds db) w) (find_in (id_index ds' db) w')"
    by (simp add: a(2) a')
  have refs: "blobs w' ref = Some (Raw doc)" by (rule map_leD [OF le doc(1)])
  have new: "find_in (id_index ds' db) w' did = Some [ref]" by (rule filed_key [OF f]) simp
  have old: "find_in (id_index ds' db) w' k = find_in (id_index ds db) w k" if "k \<noteq> did" for k using f that by (simp add: filed_def)
  have dok: "db_ok dl ds' db w'"
    unfolding db_ok_def
  proof (intro conjI allI impI)
    show "ixType (id_index ds' db) = StringIndex" using nm(3) [OF a(3)] ty by (simp add: a')
    fix k refs' assume k: "find_in (id_index ds' db) w' k = Some refs'"
    show "\<exists>r rs d m. refs' = r # rs \<and> blobs w' r = Some (Raw d) \<and> parse_doc dl d = Inr m
             \<and> map_of m DefaultIndexFieldName = Some (JString k)"
    proof (cases "k = did")
      case True
      with k new have "refs' = ref # []" by simp
      with True refs doc(2,3) show ?thesis
        by (intro exI [of _ ref] exI [of _ "[]"] exI [of _ doc] exI [of _ docMap]) simp
    next
      case False
      with k old have "find_in (id_index ds db) w k = Some refs'" by simp
      then obtain r rs d m where q: "refs' = r # rs" "blobs w r = Some (Raw d)" "parse_doc dl d = Inr m"
        "map_of m DefaultIndexFieldName = Some (JString k)" by (rule db_ok_entry [OF ok])
      have "blobs w' r = Some (Raw d)" by (rule map_leD [OF le q(2)])
      with q show ?thesis by (intro exI [of _ r] exI [of _ rs] exI [of _ d] exI [of _ m]) simp
    qed
  qed (use a iok in simp_all)
  have docs: "documents ds' db w' k = ((documents ds db w)(did \<mapsto> doc)) k" for k
  proof (cases "k = did")
    case True
    then show ?thesis using new refs by (simp add: documents_def doc_text_def)
  next
    case False
    show ?thesis
    proof (cases "find_in (id_index ds db) w k")
      case None
      with False old show ?thesis by (simp add: documents_def)
    next
      case (Some refs')
      then obtain r rs d m where q: "refs' = r # rs" "blobs w r = Some (Raw d)" by (rule db_ok_entry [OF ok])
      have "blobs w' r = Some (Raw d)" by (rule map_leD [OF le q(2)])
      with q show ?thesis using Some False old by (simp add: documents_def)
    qed
  qed
  show thesis
  proof (rule that [OF _ p(2-5) dok ext [OF docs] _ le])
    show "put_fields dl fl sv ord docMap ref (ranged ord (all_indexes db)) ds w = (Inr (), ds', w')"
      using p(1) all_indexes_distinct [OF ix(1)] by (simp add: put_fields_def)
    show "filed False (?ks fa) ref (find_in (dsHeap ds (snd fa)) w) (find_in (dsHeap ds' (snd fa)) w')" if "fa \<in> set (db_indexes db)" for fa
      using each [OF that] by (fastforce simp: filed_def split: if_splits)
  qed
qed

section \<open>Deleting a document\<close>

text \<open>What Del relies on: every simple index is of strings or numbers, has the entry
  of the document, and not at one of its branches.\<close>

definition removable ::
  "('f, 'v) doclib \<Rightarrow> 'f floats \<Rightarrow> (string list \<Rightarrow> string list) \<Rightarrow> DocStore \<Rightarrow> DocumentDB \<Rightarrow> (string \<times> 'f jvalue) list \<Rightarrow> 'w \<Rightarrow> bool" where
  "removable dl fl ord ds db docMap w \<longleftrightarrow>
     (\<forall>fa \<in> set (simpleIndexes db). ixType (dsHeap ds (snd fa)) \<in> {StringIndex, NumberIndex}
        \<and> (\<exists>ks. doc_keys dl fl ord ds docMap fa = Some ks
           \<and> (\<forall>k \<in> set ks. find_in (dsHeap ds (snd fa)) w k \<noteq> None \<and> \<not> branch_in (dsHeap ds (snd fa)) w k)))"

lemma Doc_Del_ok:
  assumes b: "inv (b + 2 * length (simpleIndexes db)) w" and op: "openDocDBs ds name = Some db" and ok: "db_ok dl ds db w"
    and ord: "names_order ord" and doc: "documents ds db w did = Some doc" "parse_doc dl doc = Inr docMap"
    and rem: "removable dl fl ord ds db docMap w"
  obtains ds' w' where "Doc_Del dl fl sv ord ds name did w = (Inr (), ds', w')" "inv b w'"
    "openDocDBs ds' = openDocDBs ds" "dsUser ds' = dsUser ds" "dsPodName ds' = dsPodName ds"
    "db_ok dl ds' db w'" "documents ds' db w' = (documents ds db w)(did := None)"
    "\<And>fa. fa \<in> set (db_indexes db) \<Longrightarrow> \<exists>c. dsHeap ds' (snd fa) = (dsHeap ds (snd fa))\<lparr>ixCount := c\<rparr>"
    "\<And>fa. fa \<in> set (simpleIndexes db) \<Longrightarrow>
       unfiled (the (doc_keys dl fl ord ds docMap fa)) (find_in (dsHeap ds (snd fa)) w) (find_in (dsHeap ds' (snd fa)) w')"
proof -
  let ?fs = "ranged ord (simpleIndexes db)"
  let ?ks = "\<lambda>fa. the (doc_keys dl fl ord ds docMap fa)"
  let ?body = "\<lambda>field. delete_field fl sv ord (map_of docMap field)"
  obtain a where a: "map_of (simpleIndexes db) DefaultIndexFieldName = Some a" "id_index ds db = dsHeap ds a"
    "(DefaultIndexFieldName, a) \<in> set (db_indexes db)" "(DefaultIndexFieldName, a) \<in> set (simpleIndexes db)"
    "ok_in (id_index ds db) w" "ixMutable (id_index ds db)" "dbMutable db" using ok by (rule db_okD)
  have sub: "set (simpleIndexes db) \<subseteq> set (db_indexes db)" by (auto simp: db_indexes_def)
  have ix: "distinct (map fst (simpleIndexes db))" "distinct (map snd (simpleIndexes db))"
    using ok by (simp_all add: db_ok_def indexes_ok_def db_indexes_def)
  note r = ranged_set [OF ord ix(1)] ranged_distinct [OF ord ix(1)]
  text \<open>the document is found and read\<close>
  from doc(1) have "find_in (id_index ds db) w did \<noteq> None" by (cases "find_in (id_index ds db) w did") (simp_all add: documents_def)
  then obtain refs where refs: "find_in (id_index ds db) w did = Some refs" by blast
  obtain ref rs d m where e: "refs = ref # rs" "blobs w ref = Some (Raw d)" "parse_doc dl d = Inr m"
    "map_of m DefaultIndexFieldName = Some (JString did)" by (rule db_ok_entry [OF ok refs])
  have "d = doc" using doc(1) refs e(1,2) by (simp add: documents_def doc_text_def)
  with doc(2) e have d: "blobs w ref = Some (Raw doc)" "map_of docMap DefaultIndexFieldName = Some (JString did)" by simp_all
  obtain w1 where g: "Get sv (id_index ds db) did w = (Inr refs, w1)" "inv (b + 2 * length (simpleIndexes db)) w1"
    "feeds w1 = feeds w" "blobs w1 = blobs w" by (rule Get_ok [OF b a(5), of did]) (use refs that in simp)
  obtain x w2 where x: "DownloadBlob sv ref w1 = (x, w2)" by fastforce
  from download_blob [OF g(2) x] d(1) g have x2: "x = Inr (Raw doc, 200)" "inv (b + 2 * length (simpleIndexes db)) w2"
    "feeds w2 = feeds w" "blobs w2 = blobs w" by simp_all
  have same: "ok_in idx w2 = ok_in idx w" "find_in idx w2 = find_in idx w" "branch_in idx w2 = branch_in idx w" for idx
  proof -
    have V: "ixview sv maxlen feeds blobs idx w2 = ixview sv maxlen feeds blobs idx w" using x2(3,4) by (rule ixview_same)
    show "ok_in idx w2 = ok_in idx w" by (simp add: index_ok_def V)
    show "find_in idx w2 = find_in idx w" by (rule ext) (unfold index_find_def V, rule refl)
    show "branch_in idx w2 = branch_in idx w" by (rule ext) (unfold index_at_branch_def V, rule refl)
  qed
  text \<open>the loop over the simple indexes\<close>
  have cost: "b + sum_list (map (\<lambda>fa. 2) ?fs) = b + 2 * length (simpleIndexes db)"
  proof -
    have "sum_list (map (\<lambda>fa. 2) ?fs) = sum_list (map (\<lambda>fa. 2 :: nat) (simpleIndexes db))" by (rule ranged_sum [OF ord ix(1)])
    then show ?thesis by (simp add: sum_list_triv)
  qed
  have ds2: "distinct (map snd ?fs)" using ix(2) r(1,4) by (simp add: distinct_map)
  have fa: "ok_in (dsHeap ds (snd fa)) w2 \<and> ixUser (dsHeap ds (snd fa)) = dsUser ds
      \<and> (\<lambda>fa D B. \<forall>k \<in> set (?ks fa). D k \<noteq> None \<and> \<not> B k) fa (find_in (dsHeap ds (snd fa)) w2) (branch_in (dsHeap ds (snd fa)) w2)
      \<and> body_ok ?body 2 (fst fa) (dsHeap ds (snd fa))
          ((\<lambda>fa D B. \<forall>k \<in> set (?ks fa). D k \<noteq> None \<and> \<not> B k) fa) (unfiled (?ks fa))" if "fa \<in> set ?fs" for fa
  proof -
    have m: "fa \<in> set (simpleIndexes db)" using that r(1) by simp
    with rem obtain ks where ks: "doc_keys dl fl ord ds docMap fa = Some ks" "ixType (dsHeap ds (snd fa)) \<in> {StringIndex, NumberIndex}"
      "\<forall>k \<in> set ks. find_in (dsHeap ds (snd fa)) w k \<noteq> None \<and> \<not> branch_in (dsHeap ds (snd fa)) w k"
      unfolding removable_def by blast
    have "body_ok (\<lambda>field. delete_field fl sv ord (map_of docMap (fst fa))) 2 (fst fa) (dsHeap ds (snd fa))
          (\<lambda>D B. \<forall>k \<in> set ks. D k \<noteq> None \<and> \<not> B k) (unfiled ks)"
      by (rule delete_field_ok [where dl = dl and ord = ord]) (use ks in \<open>simp_all add: doc_keys_def\<close>)
    with m sub ok ks same show ?thesis by (auto simp: db_ok_def indexes_ok_def body_ok_def)
  qed
  have par: "\<forall>x \<in> set ?fs. \<forall>y \<in> set ?fs. x \<noteq> y \<longrightarrow> parallel (ixName (dsHeap ds (snd x))) (ixName (dsHeap ds (snd y)))"
    unfolding r(1) by (intro ballI impI db_ok_apart [OF ok]) (use sub in blast)+
  obtain ds' w3 where p: "over_fields ?body ?fs ds w2 = (Inr (), ds', w3)" "inv b w3"
     "openDocDBs ds' = openDocDBs ds" "dsUser ds' = dsUser ds" "dsPodName ds' = dsPodName ds"
     "\<forall>a. a \<notin> snd ` set ?fs \<longrightarrow> dsHeap ds' a = dsHeap ds a"
     "\<forall>fa \<in> set ?fs. (\<exists>c. dsHeap ds' (snd fa) = (dsHeap ds (snd fa))\<lparr>ixCount := c\<rparr>)
          \<and> ok_in (dsHeap ds' (snd fa)) w3
          \<and> unfiled (?ks fa) (find_in (dsHeap ds (snd fa)) w2) (find_in (dsHeap ds' (snd fa)) w3)"
     "touched sv maxlen (dsUser ds) {n. \<exists>fa \<in> set ?fs. prefix (ixName (dsHeap ds (snd fa))) n} (feeds w2) (blobs w2) (feeds w3) (blobs w3)"
    by (rule over_fields_run [where cost = "\<lambda>fa. 2" and pre = "\<lambda>fa D B. \<forall>k \<in> set (?ks fa). D k \<noteq> None \<and> \<not> B k" and u = "dsUser ds"
        and eff = "\<lambda>fa. unfiled (?ks fa)", OF x2(2) [folded cost] r(4) ds2 fa par]) (assumption, rule that)
  have le: "blobs w \<subseteq>\<^sub>m blobs w3" using p(8) x2(4) by (simp add: touched_def)
  text \<open>the blob of the document\<close>
  obtain y w4 where y: "DeleteReference sv ref w3 = (y, w4)" by fastforce
  have r3: "blobs w3 ref = Some (Raw doc)" by (rule map_leD [OF le d(1)])
  from delete_ref [OF p(2) _ y] r3 have w4: "inv b w4" "feeds w4 = feeds w3" "blobs w4 \<subseteq>\<^sub>m blobs w3"
    "\<And>r'. r' \<noteq> ref \<Longrightarrow> blobs w4 r' = blobs w3 r'" "y = Inr ()" by simp_all
  have le4: "blobs w4 r' = Some (Raw c)" if "r' \<noteq> ref" "blobs w r' = Some (Raw c)" for r' c
    using that w4(4) map_leD [OF le that(2)] by simp
  note same4 = blob_less [OF w4(2,4,3) r3]
  have tr: "touched sv maxlen (dsUser ds) {n. \<exists>fa \<in> set (simpleIndexes db). prefix (ixName (dsHeap ds (snd fa))) n} (feeds w2) (blobs w2) (feeds w3) (blobs w3)"
    by (rule touched_mono [OF p(8)]) (use r(1) in auto)
  have simple: "(\<exists>c. dsHeap ds' (snd fa) = (dsHeap ds (snd fa))\<lparr>ixCount := c\<rparr>) \<and> ok_in (dsHeap ds' (snd fa)) w4
      \<and> unfiled (?ks fa) (find_in (dsHeap ds (snd fa)) w) (find_in (dsHeap ds' (snd fa)) w4)" if "fa \<in> set (simpleIndexes db)" for fa
    using p(7) that r(1) same same4 by simp
  have other: "dsHeap ds' (snd fa) = dsHeap ds (snd fa) \<and> ok_in (dsHeap ds (snd fa)) w4"
    if "fa \<in> set (db_indexes db)" "fa \<notin> set (simpleIndexes db)" for fa
  proof
    have "snd fa \<notin> snd ` set (simpleIndexes db)"
    proof
      assume "snd fa \<in> snd ` set (simpleIndexes db)"
      then obtain g where "g \<in> set (simpleIndexes db)" "snd g = snd fa" by (metis imageE)
      moreover have "distinct (map snd (db_indexes db))" using ok by (simp add: db_ok_def indexes_ok_def)
      ultimately have "g = fa" using sub that(1) by (meson distinct_map inj_onD subsetD)
      with that(2) \<open>g \<in> set (simpleIndexes db)\<close> show False by simp
    qed
    with p(6) r(1) show "dsHeap ds' (snd fa) = dsHeap ds (snd fa)" by simp
    have o: "ok_in (dsHeap ds (snd fa)) w2" using that(1) ok same by (simp add: db_ok_def indexes_ok_def)
    have np: "\<not> prefix (ixName (dsHeap ds (snd fa))) s"
      if "s \<in> {n. \<exists>fa \<in> set (simpleIndexes db). prefix (ixName (dsHeap ds (snd fa))) n}" for s
    proof -
      from that obtain g where g: "g \<in> set (simpleIndexes db)" "prefix (ixName (dsHeap ds (snd g))) s" by blast
      have "parallel (ixName (dsHeap ds (snd g))) (ixName (dsHeap ds (snd fa)))"
        by (rule db_ok_apart [OF ok]) (use g(1) sub \<open>fa \<in> set (db_indexes db)\<close> \<open>fa \<notin> set (simpleIndexes db)\<close> in auto)
      with g(2) not_both show ?thesis by blast
    qed
    show "ok_in (dsHeap ds (snd fa)) w4" using index_frame(1) [OF tr o np] same4(1) by simp
  qed
  have each: "(\<exists>c. dsHeap ds' (snd fa) = (dsHeap ds (snd fa))\<lparr>ixCount := c\<rparr>) \<and> ok_in (dsHeap ds' (snd fa)) w4"
    if "fa \<in> set (db_indexes db)" for fa
  proof (cases "fa \<in> set (simpleIndexes db)")
    case False
    have "dsHeap ds (snd fa) = (dsHeap ds (snd fa))\<lparr>ixCount := ixCount (dsHeap ds (snd fa))\<rparr>" by simp
    with other [OF that False] show ?thesis by metis
  qed (use simple in blast)
  have nm: "ixName (dsHeap ds' (snd fa)) = ixName (dsHeap ds (snd fa))" "ixUser (dsHeap ds' (snd fa)) = ixUser (dsHeap ds (snd fa))"
    "ixType (dsHeap ds' (snd fa)) = ixType (dsHeap ds (snd fa))" if "fa \<in> set (db_indexes db)" for fa
    using each [OF that] by auto
  have iok: "indexes_ok ds' db w4" using ok each nm p(4) by (simp add: db_ok_def indexes_ok_def)
  have a': "id_index ds' db = dsHeap ds' a" by (simp add: id_index_def a(1))
  have ty: "ixType (dsHeap ds a) = StringIndex" using ok a(2) by (simp add: db_ok_def)
  have "?ks (DefaultIndexFieldName, a) = [did]" by (simp add: doc_keys_def field_keys_def ty d(2))
  with simple [OF a(4)] have f: "unfiled [did] (find_in (id_index ds db) w) (find_in (id_index ds' db) w4)" by (simp add: a(2) a')
  then have look: "find_in (id_index ds' db) w4 k = (if k = did then None else find_in (id_index ds db) w k)" for k
    by (simp add: unfiled_def)
  have entry: "\<exists>r rs d m. refs' = r # rs \<and> blobs w r = Some (Raw d) \<and> blobs w4 r = Some (Raw d) \<and> parse_doc dl d = Inr m
             \<and> map_of m DefaultIndexFieldName = Some (JString k)" if "k \<noteq> did" "find_in (id_index ds db) w k = Some refs'" for k refs'
  proof -
    note kd = that
    obtain r' rs' d' m' where q: "refs' = r' # rs'" "blobs w r' = Some (Raw d')" "parse_doc dl d' = Inr m'"
      "map_of m' DefaultIndexFieldName = Some (JString k)" by (rule db_ok_entry [OF ok kd(2)])
    have "r' \<noteq> ref" using q(2-4) d kd(1) doc(2) by auto
    from le4 [OF this q(2)] q show ?thesis
      by (intro exI [of _ r'] exI [of _ rs'] exI [of _ d'] exI [of _ m']) simp
  qed
  have dok: "db_ok dl ds' db w4"
    unfolding db_ok_def
  proof (intro conjI allI impI)
    show "ixType (id_index ds' db) = StringIndex" using nm(3) [OF a(3)] ty by (simp add: a')
    fix k refs' assume k: "find_in (id_index ds' db) w4 k = Some refs'"
    then have "k \<noteq> did" "find_in (id_index ds db) w k = Some refs'" using look by (auto split: if_splits)
    from entry [OF this] show "\<exists>r rs d m. refs' = r # rs \<and> blobs w4 r = Some (Raw d) \<and> parse_doc dl d = Inr m
             \<and> map_of m DefaultIndexFieldName = Some (JString k)" by metis
  qed (use a iok in simp_all)
  have docs: "documents ds' db w4 k = ((documents ds db w)(did := None)) k" for k
  proof (cases "k = did \<or> find_in (id_index ds db) w k = None")
    case True
    then show ?thesis using look by (auto simp: documents_def)
  next
    case False
    then obtain refs' where s: "find_in (id_index ds db) w k = Some refs'" "k \<noteq> did" by blast
    from entry [OF s(2,1)] obtain r' rs' d' where "refs' = r' # rs'" "blobs w r' = Some (Raw d')" "blobs w4 r' = Some (Raw d')" by metis
    with s look show ?thesis by (simp add: documents_def)
  qed
  have "delete_fields fl sv ord docMap (ranged ord (simpleIndexes db)) ds w2 = (Inr (), ds', w3)"
    using p(1) by (simp add: delete_fields_def)
  then have run: "Doc_Del dl fl sv ord ds name did w = (Inr (), ds', w4)"
    using op a g(1) x x2(1) doc(2) e(1) y w4(5) writable [OF b] by (simp add: Doc_Del_def getOpenedDb_def doc_text_def)
  show thesis
    by (rule that [OF run w4(1) p(3-5) dok ext [OF docs]]) (use each simple in simp_all)
qed

section \<open>Inserting a document\<close>

text \<open>A document that Put replaces has to be one that Del can remove.\<close>

definition replaceable ::
  "('f, 'v) doclib \<Rightarrow> 'f floats \<Rightarrow> (string list \<Rightarrow> string list) \<Rightarrow> DocStore \<Rightarrow> DocumentDB \<Rightarrow> string \<Rightarrow> 'w \<Rightarrow> bool" where
  "replaceable dl fl ord ds db did w \<longleftrightarrow>
     (\<forall>old. documents ds db w did = Some old \<longrightarrow> (\<exists>m. parse_doc dl old = Inr m \<and> removable dl fl ord ds db m w))"

lemma doc_keys_cong:
  "(\<And>fa. fa \<in> set (db_indexes db) \<Longrightarrow> \<exists>c. dsHeap ds' (snd fa) = (dsHeap ds (snd fa))\<lparr>ixCount := c\<rparr>) \<Longrightarrow> fa \<in> set (db_indexes db) \<Longrightarrow>
   doc_keys dl fl ord ds' docMap fa = doc_keys dl fl ord ds docMap fa \<and> ixName (dsHeap ds' (snd fa)) = ixName (dsHeap ds (snd fa))"
  unfolding doc_keys_def by (metis Index.select_convs(1,3) Index.surjective Index.update_convs(7))

lemma replace_doc_ok:
  assumes b: "inv (b + 2 * length (simpleIndexes db)) w" and op: "openDocDBs ds name = Some db" and ok: "db_ok dl ds db w"
    and ord: "names_order ord" and did: "map_of docMap DefaultIndexFieldName = Some (JString did)" "did \<noteq> []"
    and rep: "replaceable dl fl ord ds db did w"
  obtains ds' w' where "replace_doc dl fl sv ord ds name db docMap w = (Inr (), ds', w')" "inv b w'"
    "openDocDBs ds' = openDocDBs ds" "dsUser ds' = dsUser ds" "dsPodName ds' = dsPodName ds"
    "db_ok dl ds' db w'" "documents ds' db w' = (documents ds db w)(did := None)"
    "\<And>fa. fa \<in> set (db_indexes db) \<Longrightarrow> \<exists>c. dsHeap ds' (snd fa) = (dsHeap ds (snd fa))\<lparr>ixCount := c\<rparr>"
proof -
  obtain a where a: "map_of (simpleIndexes db) DefaultIndexFieldName = Some a" "id_index ds db = dsHeap ds a"
    "ok_in (id_index ds db) w" using ok by (rule db_okD)
  obtain w1 where g: "Get sv (id_index ds db) did w =
      ((case find_in (id_index ds db) w did of None \<Rightarrow> Inl ErrEntryNotFound | Some refs \<Rightarrow> Inr refs), w1)"
    "inv (b + 2 * length (simpleIndexes db)) w1" "feeds w1 = feeds w" "blobs w1 = blobs w" by (rule Get_ok [OF b a(3)])
  have V: "ixview sv maxlen feeds blobs idx w1 = ixview sv maxlen feeds blobs idx w" for idx using g(3,4) by (rule ixview_same)
  have same: "ok_in idx w1 = ok_in idx w" "find_in idx w1 = find_in idx w" "branch_in idx w1 = branch_in idx w" for idx
  proof -
    show "ok_in idx w1 = ok_in idx w" by (simp add: index_ok_def V)
    show "find_in idx w1 = find_in idx w" by (rule ext) (unfold index_find_def V, rule refl)
    show "branch_in idx w1 = branch_in idx w" by (rule ext) (unfold index_at_branch_def V, rule refl)
  qed
  have docs1: "documents ds db w1 = documents ds db w" by (rule ext) (unfold documents_def same(2) g(4), rule refl)
  have ok1: "db_ok dl ds db w1" using ok by (simp add: db_ok_def indexes_ok_def same g(4))
  show thesis
  proof (cases "find_in (id_index ds db) w did")
    case None
    have none: "documents ds db w did = None" using None by (simp add: documents_def)
    have run: "replace_doc dl fl sv ord ds name db docMap w = (Inr (), ds, w1)"
      using did a(1,2) g(1) None by (simp add: replace_doc_def)
    show thesis
    proof (rule that [OF run _ refl refl refl ok1])
      show "inv b w1" by (rule inv_mono [OF g(2)]) simp
      show "documents ds db w1 = (documents ds db w)(did := None)" using none by (simp add: docs1 fun_upd_idem)
      show "\<exists>c. dsHeap ds (snd fa) = (dsHeap ds (snd fa))\<lparr>ixCount := c\<rparr>" for fa :: "string \<times> nat"
        by (rule exI [of _ "ixCount (dsHeap ds (snd fa))"]) simp
    qed
  next
    case (Some refs)
    obtain r rs d m where e: "refs = r # rs" "blobs w r = Some (Raw d)" by (rule db_ok_entry [OF ok Some]) (rule that)
    then have old: "documents ds db w did = Some d" using Some by (simp add: documents_def doc_text_def)
    with rep obtain mm where m: "parse_doc dl d = Inr mm" "removable dl fl ord ds db mm w" by (auto simp: replaceable_def)
    have rem: "removable dl fl ord ds db mm w1" using m(2) by (simp add: removable_def same)
    have old1: "documents ds db w1 did = Some d" using old by (simp add: docs1)
    obtain ds' w' where D: "Doc_Del dl fl sv ord ds name did w1 = (Inr (), ds', w')" "inv b w'"
      "openDocDBs ds' = openDocDBs ds" "dsUser ds' = dsUser ds" "dsPodName ds' = dsPodName ds"
      "db_ok dl ds' db w'" "documents ds' db w' = (documents ds db w1)(did := None)"
      "\<And>fa. fa \<in> set (db_indexes db) \<Longrightarrow> \<exists>c. dsHeap ds' (snd fa) = (dsHeap ds (snd fa))\<lparr>ixCount := c\<rparr>"
      by (rule Doc_Del_ok [OF g(2) op ok1 ord old1 m(1) rem]) (rule that)
    have run: "replace_doc dl fl sv ord ds name db docMap w = (Inr (), ds', w')"
      using did a(1,2) g(1) Some e(1) D(1) by (simp add: replace_doc_def)
    show thesis by (rule that [OF run D(2-6) D(7) [unfolded docs1] D(8)])
  qed
qed

lemma Doc_Put_ok:
  assumes b: "inv (b + doc_cost dl fl ord ds db docMap + 1 + 2 * length (simpleIndexes db)) w"
    and op: "openDocDBs ds name = Some db" and ok: "db_ok dl ds db w"
    and ord: "names_order ord" and fits: "doc_fits dl fl ord maxlen ds db docMap"
    and doc: "parse_doc dl doc = Inr docMap" "map_of docMap DefaultIndexFieldName = Some (JString did)" "did \<noteq> []"
    and rep: "replaceable dl fl ord ds db did w"
  obtains ds' w' ref where "Doc_Put dl fl sv ord ds name doc w = (Inr (), ds', w')" "inv b w'"
    "openDocDBs ds' = openDocDBs ds" "dsUser ds' = dsUser ds" "dsPodName ds' = dsPodName ds"
    "db_ok dl ds' db w'" "documents ds' db w' = (documents ds db w)(did \<mapsto> doc)" "blobs w' ref = Some (Raw doc)"
    "\<And>fa k. \<lbrakk>fa \<in> set (db_indexes db); k \<in> set (the (doc_keys dl fl ord ds docMap fa))\<rbrakk> \<Longrightarrow>
       \<exists>refs. find_in (dsHeap ds' (snd fa)) w' k = Some refs \<and> ref \<in> set refs"
proof -
  have mu: "dbMutable db" using ok by (simp add: db_ok_def)
  have present: "\<not> (\<exists>f \<in> set (map fst (simpleIndexes db)). map_of docMap f = None)"
  proof
    assume "\<exists>f \<in> set (map fst (simpleIndexes db)). map_of docMap f = None"
    then obtain fa where fa: "fa \<in> set (simpleIndexes db)" "map_of docMap (fst fa) = None" by auto
    then have "fa \<in> set (db_indexes db)" by (simp add: db_indexes_def)
    with fits obtain ks where "doc_keys dl fl ord ds docMap fa = Some ks" unfolding doc_fits_def by blast
    with fa(2) show False by (simp add: doc_keys_def field_keys_def split: IndexType.splits)
  qed
  obtain ds1 w1 where 1: "replace_doc dl fl sv ord ds name db docMap w = (Inr (), ds1, w1)" "inv (b + doc_cost dl fl ord ds db docMap + 1) w1"
    "openDocDBs ds1 = openDocDBs ds" "dsUser ds1 = dsUser ds" "dsPodName ds1 = dsPodName ds"
    "db_ok dl ds1 db w1" "documents ds1 db w1 = (documents ds db w)(did := None)"
    "\<And>fa. fa \<in> set (db_indexes db) \<Longrightarrow> \<exists>c. dsHeap ds1 (snd fa) = (dsHeap ds (snd fa))\<lparr>ixCount := c\<rparr>"
    by (rule replace_doc_ok [OF b op ok ord doc(2,3) rep]) (rule that)
  have cong: "doc_keys dl fl ord ds1 docMap fa = doc_keys dl fl ord ds docMap fa" "ixName (dsHeap ds1 (snd fa)) = ixName (dsHeap ds (snd fa))"
    if "fa \<in> set (db_indexes db)" for fa
    using doc_keys_cong [of db ds1 ds fa dl fl ord docMap, OF 1(8) that] by simp_all
  obtain q w2 where u: "UploadBlob sv (Raw doc) w1 = (q, w2)" by fastforce
  have i1: "inv (Suc (b + doc_cost dl fl ord ds db docMap)) w1" using 1(2) by simp
  from upload_blob [OF i1 u] obtain ref where 2: "q = Inr ref" "inv (b + doc_cost dl fl ord ds db docMap) w2" "feeds w2 = feeds w1"
    "blobs w2 = (blobs w1)(ref \<mapsto> Raw doc)" "blobs w1 ref = None \<or> blobs w1 ref = Some (Raw doc)" by blast
  have le: "blobs w1 \<subseteq>\<^sub>m blobs w2" using 2(4,5) by (auto simp: map_le_def)
  note mb = more_blobs [OF 2(3) le]
  have idok: "ok_in (id_index ds1 db) w1" using 1(6) by (rule db_okD)
  have entry: "find_in (id_index ds1 db) w2 k = find_in (id_index ds1 db) w1 k" for k using mb(2) [OF idok] by simp
  have ok2: "db_ok dl ds1 db w2"
    unfolding db_ok_def
  proof (intro conjI allI impI)
    show "indexes_ok ds1 db w2" using 1(6) mb(1) by (simp add: db_ok_def indexes_ok_def)
    fix k refs' assume "find_in (id_index ds1 db) w2 k = Some refs'"
    then have "find_in (id_index ds1 db) w1 k = Some refs'" by (simp add: entry)
    then obtain r rs d m where e: "refs' = r # rs" "blobs w1 r = Some (Raw d)" "parse_doc dl d = Inr m"
      "map_of m DefaultIndexFieldName = Some (JString k)" by (rule db_ok_entry [OF 1(6)])
    have "blobs w2 r = Some (Raw d)" by (rule map_leD [OF le e(2)])
    with e show "\<exists>r rs d m. refs' = r # rs \<and> blobs w2 r = Some (Raw d) \<and> parse_doc dl d = Inr m
        \<and> map_of m DefaultIndexFieldName = Some (JString k)" by (intro exI [of _ r] exI [of _ rs] exI [of _ d] exI [of _ m]) simp
  qed (use 1(6) in \<open>simp_all add: db_ok_def\<close>)
  have docs2: "documents ds1 db w2 k = documents ds1 db w1 k" for k
  proof (cases "find_in (id_index ds1 db) w1 k")
    case None
    then show ?thesis by (simp add: documents_def entry)
  next
    case (Some refs')
    obtain r rs d where e: "refs' = r # rs" "blobs w1 r = Some (Raw d)" by (rule db_ok_entry [OF 1(6) Some]) (rule that)
    have "blobs w2 r = Some (Raw d)" by (rule map_leD [OF le e(2)])
    with e Some show ?thesis by (simp add: documents_def entry)
  qed
  have cost: "doc_cost dl fl ord ds1 db docMap = doc_cost dl fl ord ds db docMap"
    unfolding doc_cost_def using cong by (intro arg_cong [of _ _ sum_list] map_cong) simp_all
  have fits1: "doc_fits dl fl ord maxlen ds1 db docMap" using fits cong by (simp add: doc_fits_def)
  have blob: "blobs w2 ref = Some (Raw doc)" by (simp add: 2(4))
  obtain ds' w' where 3: "put_fields dl fl sv ord docMap ref (ranged ord (all_indexes db)) ds1 w2 = (Inr (), ds', w')" "inv b w'"
    "openDocDBs ds' = openDocDBs ds1" "dsUser ds' = dsUser ds1" "dsPodName ds' = dsPodName ds1"
    "db_ok dl ds' db w'" "documents ds' db w' = (documents ds1 db w2)(did \<mapsto> doc)"
    "\<And>fa. fa \<in> set (db_indexes db) \<Longrightarrow>
       filed False (the (doc_keys dl fl ord ds1 docMap fa)) ref (find_in (dsHeap ds1 (snd fa)) w2) (find_in (dsHeap ds' (snd fa)) w')"
    "blobs w2 \<subseteq>\<^sub>m blobs w'"
    by (rule put_doc_ok [OF 2(2) [folded cost] ok2 ord fits1 blob doc(1,2)]) (rule that)
  have run: "Doc_Put dl fl sv ord ds name doc w = (Inr (), ds', w')"
    using writable [OF b] op mu doc(1) present 1(1) u 2(1) 3(1) by (simp add: Doc_Put_def getOpenedDb_def)
  show thesis
  proof (rule that [OF run 3(2) _ _ _ 3(6) _ map_leD [OF 3(9) blob]])
    show "documents ds' db w' = (documents ds db w)(did \<mapsto> doc)" by (rule ext) (simp add: 3(7) docs2 1(7))
    fix fa k assume fa: "fa \<in> set (db_indexes db)" "k \<in> set (the (doc_keys dl fl ord ds docMap fa))"
    then have "k \<in> set (the (doc_keys dl fl ord ds1 docMap fa))" using cong by simp
    with 3(8) [OF fa(1)] show "\<exists>refs. find_in (dsHeap ds' (snd fa)) w' k = Some refs \<and> ref \<in> set refs"
      unfolding filed_def by presburger
  qed (use 1 3 in simp_all)
qed

end

end
