(* ===== verification/DocLife.thy ===== *)
theory DocLife
  imports DocProps
begin

text \<open>
  The life of a document database: the list of the schemas is read back as it was
  written, and a database that is created and then opened is empty, with an index
  for every field.
\<close>

section \<open>The list of the schemas\<close>

definition schemas ::
  "('f, 'v) doclib \<Rightarrow> 'w services \<Rightarrow> feedview \<Rightarrow> Address \<Rightarrow> string \<Rightarrow> (string \<times> DBSchema) list result" where
  "schemas dl sv fs u pw =
     (case fs (u, HashString sv documentFile, bytes_of pw) of
        None \<Rightarrow> Inr []
      | Some d \<Rightarrow> parse_schemas dl (butlast (SplitChar newline_char (feed_text d))) [])"

text \<open>encoding/json reads back the schemas that it has written, each on one line.\<close>

definition schema_json :: "('f, 'v) doclib \<Rightarrow> (string \<times> DBSchema) list \<Rightarrow> bool" where
  "schema_json dl cs \<longleftrightarrow>
     (\<forall>s \<in> snd ` set cs. UnmarshalSchema dl (MarshalSchema dl s) = Some s \<and> newline_char \<notin> set (MarshalSchema dl s))"

definition schemas_ok :: "(string \<times> DBSchema) list \<Rightarrow> bool" where
  "schemas_ok cs \<longleftrightarrow> distinct (map fst cs) \<and> (\<forall>(n, s) \<in> set cs. scName s = n)"

lemma lines_of_schemas:
  "schema_json dl cs \<Longrightarrow> SplitChar newline_char (print_schemas dl cs) = map (\<lambda>c. MarshalSchema dl (snd c)) cs @ [[]]"
proof (induction cs)
  case (Cons c cs)
  then have "newline_char \<notin> set (MarshalSchema dl (snd c))" by (simp add: schema_json_def)
  from SplitChar_append [OF this, of "print_schemas dl cs"] Cons show ?case by (simp add: print_schemas_def schema_json_def)
qed (simp add: print_schemas_def)

lemma parse_schemas_lines:
  "\<lbrakk>schema_json dl cs; schemas_ok (acc @ cs)\<rbrakk> \<Longrightarrow>
     parse_schemas dl (map (\<lambda>c. MarshalSchema dl (snd c)) cs) acc = Inr (acc @ cs)"
proof (induction cs arbitrary: acc)
  case (Cons c cs)
  obtain n s where c: "c = (n, s)" by fastforce
  from Cons.prems c have "UnmarshalSchema dl (MarshalSchema dl s) = Some s" "scName s = n" "n \<notin> fst ` set acc"
    by (auto simp: schema_json_def schemas_ok_def)
  moreover from this have "AList.update n s acc = acc @ [(n, s)]" by (simp add: update_new)
  ultimately show ?case using Cons.IH [of "acc @ [(n, s)]"] Cons.prems c by (simp add: schema_json_def)
qed simp

lemma parse_print_schemas:
  "\<lbrakk>schema_json dl cs; schemas_ok cs\<rbrakk> \<Longrightarrow> parse_schemas dl (butlast (SplitChar newline_char (print_schemas dl cs))) [] = Inr cs"
  using lines_of_schemas [of dl cs] parse_schemas_lines [of dl cs "[]"] by simp

lemma ranged_schemas: "\<lbrakk>names_order ord; schemas_ok cs\<rbrakk> \<Longrightarrow> schemas_ok (ranged ord cs) \<and> map_of (ranged ord cs) = map_of cs"
  using ranged_set(1) [of ord cs] ranged_distinct(1) [of ord cs] ranged_map_of [of ord cs] by (simp add: schemas_ok_def)

lemma schemas_ok_update: "\<lbrakk>schemas_ok cs; scName s = n\<rbrakk> \<Longrightarrow> schemas_ok (AList.update n s cs)"
  using set_AList_update [of n s cs] AList.distinct_update [of cs n s] by (auto simp: schemas_ok_def)

definition all_sindexes :: "DBSchema \<Rightarrow> SIndex list" where
  "all_sindexes sc = SimpleIndexes sc @ MapIndexes sc @ ListIndexes sc @ VectorIndexes sc"

text \<open>The index of a field, as it stands in the storage when nobody has it open.\<close>

definition root_index :: "DocStore \<Rightarrow> string \<Rightarrow> string \<Rightarrow> SIndex \<Rightarrow> Index" where
  "root_index ds dbname pw si =
     \<lparr>ixName = dsPodName ds @ dbname @ FieldName si, ixMutable = True, ixType = FieldType si, ixPodFile = [],
      ixPassword = pw, ixUser = dsUser ds, ixCount = 0, ixMemDB = None\<rparr>"

text \<open>Names of which none extends another.\<close>

definition apart :: "string list \<Rightarrow> bool" where
  "apart ns \<longleftrightarrow> distinct ns \<and> (\<forall>x \<in> set ns. \<forall>y \<in> set ns. x \<noteq> y \<longrightarrow> parallel x y)"

lemma apart_Cons: "apart (n # ns) \<Longrightarrow> apart ns \<and> n \<notin> set ns \<and> (\<forall>y \<in> set ns. parallel n y)"
  by (auto simp: apart_def)

context storage
begin

abbreviation "schemas_in \<equiv> \<lambda>dl ds pw w. schemas dl sv (feeds w) (dsUser ds) pw"

lemma LoadDocumentDBSchemas_ok:
  assumes "inv b w" "length documentFile \<le> maxlen"
  obtains w' where "LoadDocumentDBSchemas dl sv ds pw w = (schemas_in dl ds pw w, w')" "inv b w'"
    "feeds w' = feeds w" "blobs w' = blobs w"
proof -
  obtain r w1 where g: "GetFeedData sv (HashString sv documentFile) (dsUser ds) (bytes_of pw) w = (r, w1)" by fastforce
  note 1 = get_feed [OF assms(1) g]
  show thesis
  proof (cases "feeds w (dsUser ds, HashString sv documentFile, bytes_of pw)")
    case None
    from get_absent [OF assms None g] g 1 None show thesis
      by (intro that [of w1]) (auto simp: LoadDocumentDBSchemas_def schemas_def error_string_def)
  next
    case (Some d)
    with g 1 show thesis by (intro that [of w1]) (auto simp: LoadDocumentDBSchemas_def schemas_def)
  qed
qed

lemma storeDocumentDBSchemas_ok:
  assumes "inv (Suc b) w" "length documentFile \<le> maxlen" "names_order ord" "schema_json dl cs" "schemas_ok cs"
    "storable sv (bytes_of pw) (Raw (bytes_of (print_schemas dl (ranged ord cs))))"
  obtains w' where "storeDocumentDBSchemas dl sv ord ds pw cs w = (Inr (), w')" "inv b w'" "blobs w' = blobs w"
    "schemas_in dl ds pw w' = Inr (ranged ord cs)"
    "touched sv maxlen (dsUser ds) {documentFile} (feeds w) (blobs w) (feeds w') (blobs w')"
proof -
  obtain r w' where u: "UpdateFeed sv (dsUser ds) (HashString sv documentFile)
      (Raw (bytes_of (print_schemas dl (ranged ord cs)))) (bytes_of pw) w = (r, w')" by fastforce
  note 1 = update_feed [OF assms(1,6,2) refl u]
  have "distinct (map fst cs)" using assms(5) by (simp add: schemas_ok_def)
  then have "schema_json dl (ranged ord cs)" using assms(4) ranged_set(1) [OF assms(3), of cs] by (simp add: schema_json_def)
  then have "schemas_in dl ds pw w' = Inr (ranged ord cs)"
    using 1 feed_writtenD(1) parse_print_schemas [of dl "ranged ord cs"] ranged_schemas [OF assms(3,5)]
    by (fastforce simp: schemas_def feed_text_def)
  moreover have "touched sv maxlen (dsUser ds) {documentFile} (feeds w) (blobs w) (feeds w') (blobs w')"
    unfolding touched_def using 1 assms(2) by (auto dest: feed_writtenD(2))
  ultimately show thesis using u 1 by (intro that [of w']) (simp_all add: storeDocumentDBSchemas_def)
qed

lemma schemas_kept:
  assumes "touched sv maxlen u S (feeds w) (blobs w) (feeds w') (blobs w')" "length documentFile \<le> maxlen" "documentFile \<notin> S"
  shows "schemas dl sv (feeds w') v pw = schemas dl sv (feeds w) v pw"
proof -
  have "feeds w' (v, HashString sv documentFile, bytes_of pw) = feeds w (v, HashString sv documentFile, bytes_of pw)"
  proof (rule touchedD [OF assms(1)])
    fix s assume "s \<in> S" "length s \<le> maxlen"
    with hash_inj [OF assms(2), of s] assms(3) show "HashString sv documentFile \<noteq> HashString sv s" by auto
  qed
  then show ?thesis by (simp add: schemas_def)
qed

section \<open>The indexes of a new database\<close>

definition stored_index :: "DocStore \<Rightarrow> string \<Rightarrow> string \<Rightarrow> SIndex \<Rightarrow> 'w \<Rightarrow> bool" where
  "stored_index ds dbname pw si w \<longleftrightarrow>
     (let idx = root_index ds dbname pw si in
      ok_in idx w \<and> (\<exists>m. ixview sv maxlen feeds blobs idx w (ixName idx) = Some m \<and> mMutable m \<and> mIdxType m = FieldType si))"

lemma stored_index_frame:
  assumes "touched sv maxlen u S (feeds w) (blobs w) (feeds w') (blobs w')" "stored_index ds dbname pw si w"
    "\<And>s. s \<in> S \<Longrightarrow> \<not> prefix (dsPodName ds @ dbname @ FieldName si) s"
  shows "stored_index ds dbname pw si w'" "find_in (root_index ds dbname pw si) w' = find_in (root_index ds dbname pw si) w"
proof -
  let ?idx = "root_index ds dbname pw si"
  have ok: "ok_in ?idx w" using assms(2) by (simp add: stored_index_def Let_def)
  have np: "\<not> prefix (ixName ?idx) s" if "s \<in> S" for s using assms(3) that by (simp add: root_index_def)
  note fr = index_frame [OF assms(1) ok np]
  from fr show "stored_index ds dbname pw si w'" using assms(2) by (simp add: stored_index_def Let_def)
  from fr show "find_in ?idx w' = find_in ?idx w" by blast
qed

lemma CreateIndex_stored:
  assumes "inv (b + 2) w" "length (dsPodName ds @ dbname @ FieldName si) \<le> maxlen"
    and "feeds w (dsUser ds, HashString sv (dsPodName ds @ dbname @ FieldName si), bytes_of pw) \<in> {None, Some deleted_mark}"
    and "valid_utf8 (dsPodName ds @ dbname @ FieldName si)"
  obtains w' where "CreateIndex sv (dsPodName ds) dbname (FieldName si) pw (FieldType si) (dsUser ds) True w = (Inr (), w')" "inv b w'"
    "stored_index ds dbname pw si w'" "find_in (root_index ds dbname pw si) w' = (\<lambda>k. None)"
    "touched sv maxlen (dsUser ds) {dsPodName ds @ dbname @ FieldName si} (feeds w) (blobs w) (feeds w') (blobs w')"
proof -
  obtain w' idx m where 1: "CreateIndex sv (dsPodName ds) dbname (FieldName si) pw (FieldType si) (dsUser ds) True w = (Inr (), w')" "inv b w'"
    "ixName idx = dsPodName ds @ dbname @ FieldName si" "ixPassword idx = pw" "ixUser idx = dsUser ds"
    "index_ok sv maxlen feeds blobs idx w'" "index_find sv maxlen feeds blobs idx w' = (\<lambda>k. None)"
    "ixview sv maxlen feeds blobs idx w' (ixName idx) = Some m" "mName m = ixName idx" "mMutable m"
    "touched sv maxlen (dsUser ds) {dsPodName ds @ dbname @ FieldName si} (feeds w) (blobs w) (feeds w') (blobs w')"
    "mIdxType m = FieldType si"
    by (rule CreateIndex_ok [OF assms, of "FieldType si"]) (rule that)
  let ?idx = "root_index ds dbname pw si"
  note c = index_ok_cong [OF 1(6), of ?idx]
  have "ixview sv maxlen feeds blobs ?idx w' = ixview sv maxlen feeds blobs idx w'"
    using 1(3-5) by (simp add: ixview_def root_index_def)
  with c 1 show thesis by (intro that [of w']) (auto simp: stored_index_def Let_def root_index_def)
qed

lemma create_indexes_ok:
  "\<lbrakk>inv (b + 2 * length fs) w; apart (map fst fs);
    \<forall>f \<in> set fs. length (dsPodName ds @ dbname @ fst f) \<le> maxlen \<and> valid_utf8 (dsPodName ds @ dbname @ fst f)
      \<and> feeds w (dsUser ds, HashString sv (dsPodName ds @ dbname @ fst f), bytes_of pw) \<in> {None, Some deleted_mark}\<rbrakk> \<Longrightarrow>
   \<exists>w'. create_indexes sv ds dbname pw True fs sc w
        = (Inr (fold (\<lambda>f. add_index \<lparr>FieldName = fst f, FieldType = snd f\<rparr>) fs sc), w') \<and> inv b w'
     \<and> (\<forall>f \<in> set fs. stored_index ds dbname pw \<lparr>FieldName = fst f, FieldType = snd f\<rparr> w'
          \<and> find_in (root_index ds dbname pw \<lparr>FieldName = fst f, FieldType = snd f\<rparr>) w' = (\<lambda>k. None))
     \<and> touched sv maxlen (dsUser ds) ((\<lambda>f. dsPodName ds @ dbname @ fst f) ` set fs) (feeds w) (blobs w) (feeds w') (blobs w')"
proof (induction fs arbitrary: sc w)
  case (Cons f fs)
  let ?nm = "\<lambda>f. dsPodName ds @ dbname @ fst f" and ?si = "\<lambda>f. \<lparr>FieldName = fst f, FieldType = snd f\<rparr>"
  have i: "inv ((b + 2 * length fs) + 2) w" using Cons.prems(1) by (simp add: ac_simps)
  obtain w1 where 1: "CreateIndex sv (dsPodName ds) dbname (fst f) pw (snd f) (dsUser ds) True w = (Inr (), w1)"
    "inv (b + 2 * length fs) w1" "stored_index ds dbname pw (?si f) w1" "find_in (root_index ds dbname pw (?si f)) w1 = (\<lambda>k. None)"
    "touched sv maxlen (dsUser ds) {?nm f} (feeds w) (blobs w) (feeds w1) (blobs w1)"
    using CreateIndex_stored [OF i, of ds dbname "?si f" pw] Cons.prems(3) by auto
  have a: "apart (map fst fs)" "fst f \<notin> set (map fst fs)" "\<forall>y \<in> set (map fst fs). parallel (fst f) y"
    using Cons.prems(2) apart_Cons [of "fst f" "map fst fs"] by simp_all
  have ne: "?nm f \<noteq> ?nm g" if "g \<in> set fs" for g using that a(2) by force
  have kept: "feeds w1 (dsUser ds, HashString sv (?nm g), bytes_of pw) = feeds w (dsUser ds, HashString sv (?nm g), bytes_of pw)"
    if "g \<in> set fs" for g
  proof (rule touchedD [OF 1(5)])
    fix s assume "s \<in> {?nm f}" "length s \<le> maxlen"
    with hash_inj [of "?nm g" s] Cons.prems(3) ne [OF that] that show "HashString sv (?nm g) \<noteq> HashString sv s" by auto
  qed
  have "\<exists>w'. create_indexes sv ds dbname pw True fs (add_index (?si f) sc) w1
        = (Inr (fold (\<lambda>f. add_index (?si f)) fs (add_index (?si f) sc)), w') \<and> inv b w'
     \<and> (\<forall>f \<in> set fs. stored_index ds dbname pw (?si f) w' \<and> find_in (root_index ds dbname pw (?si f)) w' = (\<lambda>k. None))
     \<and> touched sv maxlen (dsUser ds) (?nm ` set fs) (feeds w1) (blobs w1) (feeds w') (blobs w')"
    by (rule Cons.IH [OF 1(2) a(1)]) (use kept Cons.prems(3) in auto)
  then obtain w' where 2: "create_indexes sv ds dbname pw True fs (add_index (?si f) sc) w1
        = (Inr (fold (\<lambda>f. add_index (?si f)) fs (add_index (?si f) sc)), w')" "inv b w'"
     "\<forall>f \<in> set fs. stored_index ds dbname pw (?si f) w' \<and> find_in (root_index ds dbname pw (?si f)) w' = (\<lambda>k. None)"
     "touched sv maxlen (dsUser ds) (?nm ` set fs) (feeds w1) (blobs w1) (feeds w') (blobs w')" by blast
  have np: "\<not> prefix (dsPodName ds @ dbname @ FieldName (?si f)) s" if "s \<in> ?nm ` set fs" for s
    using that a(3) by (auto simp: parallel_def)
  note own = stored_index_frame [OF 2(4) 1(3) np]
  have "touched sv maxlen (dsUser ds) (?nm ` set (f # fs)) (feeds w) (blobs w) (feeds w') (blobs w')"
    by (rule touched_trans [OF touched_mono [OF 1(5)] 2(4)]) auto
  then show ?case using 1(1) 2 own 1(4) by (intro exI [of _ w']) simp
qed (simp add: apart_def)

section \<open>Opening\<close>

text \<open>An index as OpenDocumentDB finds it: the one that is stored.\<close>

definition opened_index :: "DocStore \<Rightarrow> string \<Rightarrow> string \<Rightarrow> SIndex \<Rightarrow> Index \<Rightarrow> 'w \<Rightarrow> bool" where
  "opened_index ds dbname pw si idx w \<longleftrightarrow>
     ixName idx = dsPodName ds @ dbname @ FieldName si \<and> ixPassword idx = pw \<and> ixUser idx = dsUser ds
     \<and> ixType idx = FieldType si \<and> ok_in idx w \<and> find_in idx w = find_in (root_index ds dbname pw si) w"

lemma OpenIndex_stored:
  assumes "inv b w" "stored_index ds dbname pw si w"
  obtains idx w' where "OpenIndex sv (dsPodName ds) dbname (FieldName si) pw (dsUser ds) w = (Inr idx, w')" "inv b w'"
    "feeds w' = feeds w" "blobs w' = blobs w" "opened_index ds dbname pw si idx w"
proof -
  let ?r = "root_index ds dbname pw si"
  from assms(2) obtain m where m: "ok_in ?r w" "ixview sv maxlen feeds blobs ?r w (ixName ?r) = Some m" "mMutable m" "mIdxType m = FieldType si"
    by (auto simp: stored_index_def Let_def)
  then have n: "mName m = ixName ?r" by (auto simp: index_ok_def)
  have v: "ixview sv maxlen feeds blobs ?r w (dsPodName ds @ dbname @ FieldName si) = Some m" using m(2) by (simp add: root_index_def)
  let ?idx = "\<lparr>ixName = mName m, ixMutable = mMutable m, ixType = mIdxType m, ixPodFile = mPodFile m,
         ixPassword = ixPassword ?r, ixUser = ixUser ?r, ixCount = mCount m, ixMemDB = Some m\<rparr>"
  obtain w' where o: "OpenIndex sv (dsPodName ds) dbname (FieldName si) (ixPassword ?r) (ixUser ?r) w = (Inr ?idx, w')" "inv b w'"
    "feeds w' = feeds w" "blobs w' = blobs w" by (rule OpenIndex_ok [OF assms(1) v])
  have c: "ok_in ?idx w" "find_in ?idx w = find_in ?r w" using index_ok_cong [OF m(1), of ?idx] n m(3) by simp_all
  have "opened_index ds dbname pw si ?idx w" using c n m(4) by (simp add: opened_index_def root_index_def)
  with o show thesis by (intro that [of ?idx w']) (simp_all add: root_index_def)
qed

lemma open_indexes_ok:
  "\<lbrakk>inv b w; \<forall>si \<in> set ss. stored_index ds dbname pw si w; distinct (map FieldName ss); FieldName ` set ss \<inter> fst ` set m = {}\<rbrakk> \<Longrightarrow>
   \<exists>heap w'. open_indexes sv dbname pw ss m ds w
        = (Inr (m @ zip (map FieldName ss) [dsNext ds ..< dsNext ds + length ss]),
           ds\<lparr>dsHeap := heap, dsNext := dsNext ds + length ss\<rparr>, w')
     \<and> inv b w' \<and> feeds w' = feeds w \<and> blobs w' = blobs w \<and> (\<forall>a < dsNext ds. heap a = dsHeap ds a)
     \<and> (\<forall>i < length ss. opened_index ds dbname pw (ss ! i) (heap (dsNext ds + i)) w)"
proof (induction ss arbitrary: m ds w)
  case Nil
  show ?case using Nil(1) by (intro exI [of _ "dsHeap ds"] exI [of _ w]) simp
next
  case (Cons si ss)
  have si: "stored_index ds dbname pw si w" using Cons.prems(2) by simp
  obtain idx w1 where 1: "OpenIndex sv (dsPodName ds) dbname (FieldName si) pw (dsUser ds) w = (Inr idx, w1)" "inv b w1"
    "feeds w1 = feeds w" "blobs w1 = blobs w" "opened_index ds dbname pw si idx w"
    by (rule OpenIndex_stored [OF Cons.prems(1) si])
  let ?ds = "ds\<lparr>dsHeap := (dsHeap ds)(dsNext ds := idx), dsNext := Suc (dsNext ds)\<rparr>"
  have V: "ixview sv maxlen feeds blobs x w1 = ixview sv maxlen feeds blobs x w" for x using 1(3,4) by (rule ixview_same)
  have fi: "find_in x w1 = find_in x w" for x by (rule ext) (unfold index_find_def V, rule refl)
  have rt: "root_index ?ds = root_index ds" by (intro ext) (simp add: root_index_def)
  have st: "stored_index ?ds dbname pw x w1 = stored_index ds dbname pw x w" for x
    by (simp add: stored_index_def rt Let_def index_ok_def V)
  have op: "opened_index ?ds dbname pw x y w1 = opened_index ds dbname pw x y w" for x y
    by (simp add: opened_index_def rt index_ok_def V fi)
  have new: "AList.update (FieldName si) (dsNext ds) m = m @ [(FieldName si, dsNext ds)]"
    by (rule update_new) (use Cons.prems(4) in auto)
  have "\<exists>heap w'. open_indexes sv dbname pw ss (m @ [(FieldName si, dsNext ds)]) ?ds w1
        = (Inr ((m @ [(FieldName si, dsNext ds)]) @ zip (map FieldName ss) [dsNext ?ds ..< dsNext ?ds + length ss]),
           ?ds\<lparr>dsHeap := heap, dsNext := dsNext ?ds + length ss\<rparr>, w')
     \<and> inv b w' \<and> feeds w' = feeds w1 \<and> blobs w' = blobs w1 \<and> (\<forall>a < dsNext ?ds. heap a = dsHeap ?ds a)
     \<and> (\<forall>i < length ss. opened_index ?ds dbname pw (ss ! i) (heap (dsNext ?ds + i)) w1)"
    by (rule Cons.IH [OF 1(2)]) (use Cons.prems(2-4) st in auto)
  then obtain heap w' where 2: "open_indexes sv dbname pw ss (m @ [(FieldName si, dsNext ds)]) ?ds w1
        = (Inr (m @ (FieldName si, dsNext ds) # zip (map FieldName ss) [Suc (dsNext ds) ..< Suc (dsNext ds) + length ss]),
           ds\<lparr>dsHeap := heap, dsNext := Suc (dsNext ds) + length ss\<rparr>, w')" "inv b w'" "feeds w' = feeds w1" "blobs w' = blobs w1"
     "\<forall>a < Suc (dsNext ds). heap a = dsHeap ?ds a" "\<forall>i < length ss. opened_index ds dbname pw (ss ! i) (heap (Suc (dsNext ds) + i)) w"
    by (auto simp: op)
  have low: "heap a = dsHeap ds a" if "a < dsNext ds" for a using 2(5) that by simp
  have own: "heap (dsNext ds) = idx" using 2(5) by simp
  have all: "opened_index ds dbname pw ((si # ss) ! i) (heap (dsNext ds + i)) w" if "i < length (si # ss)" for i
    using that 2(6) 1(5) own by (cases i) simp_all
  have run: "open_indexes sv dbname pw (si # ss) m ds w = (Inr (m @ zip (map FieldName (si # ss)) [dsNext ds ..< dsNext ds + length (si # ss)]),
           ds\<lparr>dsHeap := heap, dsNext := dsNext ds + length (si # ss)\<rparr>, w')"
    using 1(1) new 2(1) by (simp add: upt_rec)
  show ?case by (intro exI [of _ heap] exI [of _ w']) (use run 2(2-4) 1(3,4) low all in simp)
qed

lemma open_indexes_run:
  assumes "inv b w" "\<And>si. si \<in> set ss \<Longrightarrow> stored_index ds dbname pw si w" "distinct (map FieldName ss)"
  obtains heap w' where "open_indexes sv dbname pw ss [] ds w
        = (Inr (zip (map FieldName ss) [dsNext ds ..< dsNext ds + length ss]), ds\<lparr>dsHeap := heap, dsNext := dsNext ds + length ss\<rparr>, w')"
     "inv b w'" "feeds w' = feeds w" "blobs w' = blobs w" "\<And>a. a < dsNext ds \<Longrightarrow> heap a = dsHeap ds a"
     "\<And>i. i < length ss \<Longrightarrow> opened_index ds dbname pw (ss ! i) (heap (dsNext ds + i)) w"
  using open_indexes_ok [OF assms(1) _ assms(3), of ds dbname pw "[]"] assms(2) by auto

lemma same_view:
  assumes "feeds w' = feeds w" "blobs w' = blobs w"
  shows "stored_index (ds\<lparr>dsHeap := heap, dsNext := n\<rparr>) dbname pw si w' = stored_index ds dbname pw si w"
    "opened_index (ds\<lparr>dsHeap := heap, dsNext := n\<rparr>) dbname pw si idx w' = opened_index ds dbname pw si idx w"
proof -
  have V: "ixview sv maxlen feeds blobs x w' = ixview sv maxlen feeds blobs x w" for x using assms by (rule ixview_same)
  have fi: "find_in x w' = find_in x w" for x by (rule ext) (unfold index_find_def V, rule refl)
  have rt: "root_index (ds\<lparr>dsHeap := heap, dsNext := n\<rparr>) = root_index ds" by (intro ext) (simp add: root_index_def)
  show "stored_index (ds\<lparr>dsHeap := heap, dsNext := n\<rparr>) dbname pw si w' = stored_index ds dbname pw si w"
    by (simp add: stored_index_def rt Let_def index_ok_def V)
  show "opened_index (ds\<lparr>dsHeap := heap, dsNext := n\<rparr>) dbname pw si idx w' = opened_index ds dbname pw si idx w"
    by (simp add: opened_index_def rt index_ok_def V fi)
qed

text \<open>Two of the four loops, one after the other, are one loop over both lists.\<close>

lemma opened_append:
  assumes "\<And>i. i < length ss \<Longrightarrow> P (ss ! i) (heap1 (n + i))" "\<And>a. a < n + length ss \<Longrightarrow> heap2 a = heap1 a"
    "\<And>i. i < length ts \<Longrightarrow> P (ts ! i) (heap2 (n + length ss + i))" "i < length (ss @ ts)"
  shows "P ((ss @ ts) ! i) (heap2 (n + i))"
proof (cases "i < length ss")
  case True
  with assms(1) [OF True] assms(2) [of "n + i"] show ?thesis by (simp add: nth_append)
next
  case False
  with assms(3) [of "i - length ss"] assms(4) show ?thesis by (simp add: nth_append)
qed

lemma zip_append_upt:
  "zip xs [n ..< n + length xs] @ zip ys [n + length xs ..< n + length xs + length ys] = zip (xs @ ys) [n ..< n + length (xs @ ys)]"
proof -
  have "[n ..< n + length (xs @ ys)] = [n ..< n + length xs] @ [n + length xs ..< n + length xs + length ys]"
    using upt_add_eq_append [of n "n + length xs" "length ys"] by (simp add: add.assoc)
  then show ?thesis by simp
qed

lemma open_schema_ok:
  assumes "inv b w" "\<And>si. si \<in> set (all_sindexes sc) \<Longrightarrow> stored_index ds name pw si w" "distinct (map FieldName (all_sindexes sc))"
  obtains ds' w' db where "open_schema sv ds name pw sc w = (Inr (), ds', w')" "inv b w'" "feeds w' = feeds w" "blobs w' = blobs w"
    "openDocDBs ds' = (openDocDBs ds)(name \<mapsto> db)" "dsUser ds' = dsUser ds" "dsPodName ds' = dsPodName ds" "dbMutable db = scMutable sc"
    "simpleIndexes db = zip (map FieldName (SimpleIndexes sc)) [dsNext ds ..< dsNext ds + length (SimpleIndexes sc)]"
    "db_indexes db = zip (map FieldName (all_sindexes sc)) [dsNext ds ..< dsNext ds + length (all_sindexes sc)]"
    "\<And>i. i < length (all_sindexes sc) \<Longrightarrow> opened_index ds name pw (all_sindexes sc ! i) (dsHeap ds' (dsNext ds + i)) w"
proof -
  let ?a = "SimpleIndexes sc" and ?b = "MapIndexes sc" and ?c = "ListIndexes sc" and ?d = "VectorIndexes sc"
  let ?n = "dsNext ds"
  have st: "stored_index ds name pw si w" if "si \<in> set ?a \<union> set ?b \<union> set ?c \<union> set ?d" for si
    using assms(2) that by (auto simp: all_sindexes_def)
  have di: "distinct (map FieldName ?a)" "distinct (map FieldName ?b)" "distinct (map FieldName ?c)" "distinct (map FieldName ?d)"
    using assms(3) by (simp_all add: all_sindexes_def)
  obtain h1 w1 where 1: "open_indexes sv name pw ?a [] ds w = (Inr (zip (map FieldName ?a) [?n ..< ?n + length ?a]), ds\<lparr>dsHeap := h1, dsNext := ?n + length ?a\<rparr>, w1)"
     "inv b w1" "feeds w1 = feeds w" "blobs w1 = blobs w" "\<And>i. i < length ?a \<Longrightarrow> opened_index ds name pw (?a ! i) (h1 (?n + i)) w"
    by (rule open_indexes_run [OF assms(1) st di(1)]) (blast, rule that)
  let ?ds1 = "ds\<lparr>dsHeap := h1, dsNext := ?n + length ?a\<rparr>"
  have st1: "stored_index ?ds1 name pw si w1" if "si \<in> set ?b" for si using st that same_view(1) [OF 1(3,4)] by simp
  obtain h2 w2 where 2: "open_indexes sv name pw ?b [] ?ds1 w1 = (Inr (zip (map FieldName ?b) [dsNext ?ds1 ..< dsNext ?ds1 + length ?b]), ?ds1\<lparr>dsHeap := h2, dsNext := dsNext ?ds1 + length ?b\<rparr>, w2)"
     "inv b w2" "feeds w2 = feeds w1" "blobs w2 = blobs w1" "\<And>a. a < dsNext ?ds1 \<Longrightarrow> h2 a = dsHeap ?ds1 a"
     "\<And>i. i < length ?b \<Longrightarrow> opened_index ?ds1 name pw (?b ! i) (h2 (dsNext ?ds1 + i)) w1"
    by (rule open_indexes_run [OF 1(2) st1 di(2)]) (assumption, rule that)
  let ?ds2 = "ds\<lparr>dsHeap := h2, dsNext := ?n + length (?a @ ?b)\<rparr>"
  have v2: "feeds w2 = feeds w" "blobs w2 = blobs w" using 1 2 by simp_all
  have o2: "opened_index ds name pw ((?a @ ?b) ! i) (h2 (?n + i)) w" if "i < length (?a @ ?b)" for i
    by (rule opened_append [where P = "\<lambda>si idx. opened_index ds name pw si idx w" and ?heap1.0 = h1, OF 1(5) _ _ that])
       (use 2(5,6) same_view(2) [OF 1(3,4)] in \<open>simp_all add: add.assoc\<close>)
  have st2: "stored_index ?ds2 name pw si w2" if "si \<in> set ?c" for si using st that same_view(1) [OF v2] by simp
  obtain h3 w3 where 3: "open_indexes sv name pw ?c [] ?ds2 w2 = (Inr (zip (map FieldName ?c) [dsNext ?ds2 ..< dsNext ?ds2 + length ?c]), ?ds2\<lparr>dsHeap := h3, dsNext := dsNext ?ds2 + length ?c\<rparr>, w3)"
     "inv b w3" "feeds w3 = feeds w2" "blobs w3 = blobs w2" "\<And>a. a < dsNext ?ds2 \<Longrightarrow> h3 a = dsHeap ?ds2 a"
     "\<And>i. i < length ?c \<Longrightarrow> opened_index ?ds2 name pw (?c ! i) (h3 (dsNext ?ds2 + i)) w2"
    by (rule open_indexes_run [OF 2(2) st2 di(3)]) (assumption, rule that)
  let ?ds3 = "ds\<lparr>dsHeap := h3, dsNext := ?n + length ((?a @ ?b) @ ?c)\<rparr>"
  have v3: "feeds w3 = feeds w" "blobs w3 = blobs w" using v2 3 by simp_all
  have o3: "opened_index ds name pw (((?a @ ?b) @ ?c) ! i) (h3 (?n + i)) w" if "i < length ((?a @ ?b) @ ?c)" for i
    by (rule opened_append [where P = "\<lambda>si idx. opened_index ds name pw si idx w" and ?heap1.0 = h2, OF o2 _ _ that])
       (use 3(5,6) same_view(2) [OF v2] in \<open>simp_all add: add.assoc\<close>)
  have st3: "stored_index ?ds3 name pw si w3" if "si \<in> set ?d" for si using st that same_view(1) [OF v3] by simp
  obtain h4 w4 where 4: "open_indexes sv name pw ?d [] ?ds3 w3 = (Inr (zip (map FieldName ?d) [dsNext ?ds3 ..< dsNext ?ds3 + length ?d]), ?ds3\<lparr>dsHeap := h4, dsNext := dsNext ?ds3 + length ?d\<rparr>, w4)"
     "inv b w4" "feeds w4 = feeds w3" "blobs w4 = blobs w3" "\<And>a. a < dsNext ?ds3 \<Longrightarrow> h4 a = dsHeap ?ds3 a"
     "\<And>i. i < length ?d \<Longrightarrow> opened_index ?ds3 name pw (?d ! i) (h4 (dsNext ?ds3 + i)) w3"
    by (rule open_indexes_run [OF 3(2) st3 di(4)]) (assumption, rule that)
  have o4: "opened_index ds name pw ((((?a @ ?b) @ ?c) @ ?d) ! i) (h4 (?n + i)) w" if "i < length (((?a @ ?b) @ ?c) @ ?d)" for i
    by (rule opened_append [where P = "\<lambda>si idx. opened_index ds name pw si idx w" and ?heap1.0 = h3, OF o3 _ _ that])
       (use 4(5,6) same_view(2) [OF v3] in \<open>simp_all add: add.assoc\<close>)
  have al: "all_sindexes sc = ((?a @ ?b) @ ?c) @ ?d" by (simp add: all_sindexes_def)
  let ?db = "\<lparr>dbName = scName sc, dbMutable = scMutable sc, simpleIndexes = zip (map FieldName ?a) [?n ..< ?n + length ?a],
     mapIndexes = zip (map FieldName ?b) [dsNext ?ds1 ..< dsNext ?ds1 + length ?b],
     listIndexes = zip (map FieldName ?c) [dsNext ?ds2 ..< dsNext ?ds2 + length ?c],
     vectorIndexes = zip (map FieldName ?d) [dsNext ?ds3 ..< dsNext ?ds3 + length ?d]\<rparr>"
  have z1: "zip (map FieldName ?a) [?n ..< ?n + length ?a] @ zip (map FieldName ?b) [dsNext ?ds1 ..< dsNext ?ds1 + length ?b]
      = zip (map FieldName (?a @ ?b)) [?n ..< ?n + length (?a @ ?b)]"
    using zip_append_upt [of "map FieldName ?a" ?n "map FieldName ?b"] by (simp add: add.assoc)
  have z2: "zip (map FieldName (?a @ ?b)) [?n ..< ?n + length (?a @ ?b)] @ zip (map FieldName ?c) [dsNext ?ds2 ..< dsNext ?ds2 + length ?c]
      = zip (map FieldName ((?a @ ?b) @ ?c)) [?n ..< ?n + length ((?a @ ?b) @ ?c)]"
    using zip_append_upt [of "map FieldName (?a @ ?b)" ?n "map FieldName ?c"] by (simp add: add.assoc)
  have z3: "zip (map FieldName ((?a @ ?b) @ ?c)) [?n ..< ?n + length ((?a @ ?b) @ ?c)] @ zip (map FieldName ?d) [dsNext ?ds3 ..< dsNext ?ds3 + length ?d]
      = zip (map FieldName (((?a @ ?b) @ ?c) @ ?d)) [?n ..< ?n + length (((?a @ ?b) @ ?c) @ ?d)]"
    using zip_append_upt [of "map FieldName ((?a @ ?b) @ ?c)" ?n "map FieldName ?d"] by (simp add: add.assoc)
  have dbi: "db_indexes ?db = zip (map FieldName (all_sindexes sc)) [?n ..< ?n + length (all_sindexes sc)]"
    by (simp only: db_indexes_def DocumentDB.select_convs append_assoc [symmetric] z1 z2 z3 al)
  have run: "open_schema sv ds name pw sc w = (Inr (), addToOpenedDb name ?db (ds\<lparr>dsHeap := h4, dsNext := dsNext ?ds3 + length ?d\<rparr>), w4)"
    using 1(1) 2(1) 3(1) 4(1) by (simp add: open_schema_def add.assoc)
  show thesis
    by (rule that [OF run 4(2), of ?db]) (use 4(3,4) v3 o4 dbi in \<open>simp_all add: addToOpenedDb_def al\<close>)
qed

end

section \<open>Creating and opening\<close>

definition default_sindex :: SIndex where
  "default_sindex = \<lparr>FieldName = DefaultIndexFieldName, FieldType = StringIndex\<rparr>"

definition new_schema :: "(string list \<Rightarrow> string list) \<Rightarrow> string \<Rightarrow> (string \<times> IndexType) list \<Rightarrow> DBSchema" where
  "new_schema ord name indexes =
     fold (\<lambda>f. add_index \<lparr>FieldName = fst f, FieldType = snd f\<rparr>) (ranged ord indexes)
       \<lparr>scName = name, scMutable = True, SimpleIndexes = [default_sindex],
        MapIndexes = [], ListIndexes = [], VectorIndexes = [], CompoundIndexes = []\<rparr>"

lemma add_index_sindexes:
  "mset (all_sindexes (add_index si sc)) = add_mset si (mset (all_sindexes sc))"
  "\<exists>xs. SimpleIndexes (add_index si sc) = SimpleIndexes sc @ xs"
  "scName (add_index si sc) = scName sc" "scMutable (add_index si sc) = scMutable sc"
  by (simp_all add: add_index_def all_sindexes_def)

lemma fold_add_index:
  "mset (all_sindexes (fold (\<lambda>f. add_index (g f)) fs sc)) = mset (all_sindexes sc) + mset (map g fs)
   \<and> (\<exists>xs. SimpleIndexes (fold (\<lambda>f. add_index (g f)) fs sc) = SimpleIndexes sc @ xs)
   \<and> scName (fold (\<lambda>f. add_index (g f)) fs sc) = scName sc \<and> scMutable (fold (\<lambda>f. add_index (g f)) fs sc) = scMutable sc"
proof (induction fs arbitrary: sc)
  case (Cons f fs)
  obtain xs where xs: "SimpleIndexes (add_index (g f) sc) = SimpleIndexes sc @ xs" using add_index_sindexes(2) by blast
  from Cons [of "add_index (g f) sc"] obtain ys where "SimpleIndexes (fold (\<lambda>f. add_index (g f)) fs (add_index (g f) sc)) = SimpleIndexes (add_index (g f) sc) @ ys"
    by blast
  then have "\<exists>zs. SimpleIndexes (fold (\<lambda>f. add_index (g f)) (f # fs) sc) = SimpleIndexes sc @ zs" using xs by simp
  with Cons [of "add_index (g f) sc"] add_index_sindexes show ?case by simp
qed simp

lemma new_schema_facts:
  assumes "names_order ord" "distinct (DefaultIndexFieldName # map fst indexes)"
  shows "set (all_sindexes (new_schema ord name indexes)) = insert default_sindex ((\<lambda>f. \<lparr>FieldName = fst f, FieldType = snd f\<rparr>) ` set indexes)"
    "distinct (map FieldName (all_sindexes (new_schema ord name indexes)))"
    "\<exists>xs. SimpleIndexes (new_schema ord name indexes) = default_sindex # xs"
    "scName (new_schema ord name indexes) = name" "scMutable (new_schema ord name indexes)"
proof -
  let ?g = "\<lambda>f :: string \<times> IndexType. \<lparr>FieldName = fst f, FieldType = snd f\<rparr>"
  let ?sc = "\<lparr>scName = name, scMutable = True, SimpleIndexes = [default_sindex],
        MapIndexes = [], ListIndexes = [], VectorIndexes = [], CompoundIndexes = []\<rparr>"
  have d: "distinct (map fst indexes)" using assms(2) by simp
  note f = fold_add_index [of ?g "ranged ord indexes" ?sc, folded new_schema_def]
  have m: "mset (all_sindexes (new_schema ord name indexes)) = mset (default_sindex # map ?g (ranged ord indexes))"
    using f by (simp add: all_sindexes_def)
  show s: "set (all_sindexes (new_schema ord name indexes)) = insert default_sindex (?g ` set indexes)"
    using mset_eq_setD [OF m] ranged_set(1) [OF assms(1) d] by simp
  have "mset (map FieldName (all_sindexes (new_schema ord name indexes))) = mset (map FieldName (default_sindex # map ?g (ranged ord indexes)))"
    using m by (metis mset_map)
  also have "map FieldName (default_sindex # map ?g (ranged ord indexes)) = DefaultIndexFieldName # map fst (ranged ord indexes)"
    by (simp add: default_sindex_def comp_def)
  finally have "distinct (map FieldName (all_sindexes (new_schema ord name indexes))) \<longleftrightarrow> distinct (DefaultIndexFieldName # map fst (ranged ord indexes))"
    by (rule mset_eq_imp_distinct_iff)
  also have "\<dots>" using assms(2) ranged_set [OF assms(1) d] ranged_distinct(1) [OF assms(1) d] names_orderD(1) [OF assms(1)]
    by (simp flip: set_map)
  finally show "distinct (map FieldName (all_sindexes (new_schema ord name indexes)))" .
  show "\<exists>xs. SimpleIndexes (new_schema ord name indexes) = default_sindex # xs"
    "scName (new_schema ord name indexes) = name" "scMutable (new_schema ord name indexes)" using f by simp_all
qed

text \<open>What a pod has to be like for a database with the given fields to be created:
  no index name extends another or the name of the list, and their topics are free.\<close>

definition db_creatable ::
  "'w services \<Rightarrow> nat \<Rightarrow> feedview \<Rightarrow> DocStore \<Rightarrow> string \<Rightarrow> string \<Rightarrow> string list \<Rightarrow> bool" where
  "db_creatable sv maxlen fs ds name pw fns \<longleftrightarrow>
     openDocDBs ds name = None \<and> length documentFile \<le> maxlen \<and> apart fns
     \<and> (\<forall>f \<in> set fns. length (dsPodName ds @ name @ f) \<le> maxlen \<and> valid_utf8 (dsPodName ds @ name @ f) \<and> \<not> prefix (dsPodName ds @ name @ f) documentFile
          \<and> fs (dsUser ds, HashString sv (dsPodName ds @ name @ f), bytes_of pw) \<in> {None, Some deleted_mark})"

context storage
begin

lemma CreateDocumentDB_ok:
  assumes b: "inv (b + 3 + 2 * length indexes) w" and ord: "names_order ord" and js: "schema_json dl (AList.update name (new_schema ord name indexes) cs)"
    and cs: "schemas_in dl ds pw w = Inr cs" "schemas_ok cs" "map_of cs name = None"
    and can: "db_creatable sv maxlen (feeds w) ds name pw (DefaultIndexFieldName # map fst indexes)"
    and fit: "storable sv (bytes_of pw) (Raw (bytes_of (print_schemas dl (ranged ord (AList.update name (new_schema ord name indexes) cs)))))"
  obtains w' where "CreateDocumentDB dl sv ord ds name pw indexes True w = (Inr (), w')" "inv b w'"
    "schemas_in dl ds pw w' = Inr (ranged ord (AList.update name (new_schema ord name indexes) cs))"
    "\<And>si. si \<in> set (all_sindexes (new_schema ord name indexes)) \<Longrightarrow> stored_index ds name pw si w'"
    "\<And>si. si \<in> set (all_sindexes (new_schema ord name indexes)) \<Longrightarrow> find_in (root_index ds name pw si) w' = (\<lambda>k. None)"
proof -
  let ?g = "\<lambda>f :: string \<times> IndexType. \<lparr>FieldName = fst f, FieldType = snd f\<rparr>"
  let ?nm = "\<lambda>f. dsPodName ds @ name @ f"
  let ?fs = "ranged ord indexes" and ?id = DefaultIndexFieldName and ?sc = "new_schema ord name indexes"
  have ap: "apart (map fst indexes)" "?id \<notin> set (map fst indexes)" "\<forall>y \<in> set (map fst indexes). parallel ?id y"
    and ap0: "apart (?id # map fst indexes)"
    using can apart_Cons [of ?id "map fst indexes"] by (simp_all add: db_creatable_def)
  then have d: "distinct (map fst indexes)" by (simp add: apart_def)
  note r = ranged_set [OF ord d] ranged_distinct [OF ord d]
  have rf: "set (map fst ?fs) = set (map fst indexes)" using r(1) by simp
  have len: "length documentFile \<le> maxlen" using can by (simp add: db_creatable_def)
  have each: "length (?nm f) \<le> maxlen \<and> valid_utf8 (?nm f) \<and> \<not> prefix (?nm f) documentFile
      \<and> feeds w (dsUser ds, HashString sv (?nm f), bytes_of pw) \<in> {None, Some deleted_mark}"
    if "f \<in> set (?id # map fst indexes)" for f using can that unfolding db_creatable_def by blast
  obtain w0 where 0: "LoadDocumentDBSchemas dl sv ds pw w = (schemas_in dl ds pw w, w0)" "inv (b + 3 + 2 * length indexes) w0"
    "feeds w0 = feeds w" "blobs w0 = blobs w" by (rule LoadDocumentDBSchemas_ok [OF b len])
  have b0: "inv (b + 1 + 2 * length ?fs + 2) w0"
  proof -
    have "length ?fs = length indexes" using arg_cong [OF r(2), of length] names_orderD(2) ord
      by (metis length_map mset_eq_length names_order_def)
    then show ?thesis using 0(2) by (simp add: eval_nat_numeral)
  qed
  have c0: "length (dsPodName ds @ name @ FieldName default_sindex) \<le> maxlen"
    "feeds w0 (dsUser ds, HashString sv (dsPodName ds @ name @ FieldName default_sindex), bytes_of pw) \<in> {None, Some deleted_mark}"
    "valid_utf8 (dsPodName ds @ name @ FieldName default_sindex)"
    using each [of ?id] 0(3) by (simp_all add: default_sindex_def)
  obtain w1 where 1: "CreateIndex sv (dsPodName ds) name (FieldName default_sindex) pw (FieldType default_sindex) (dsUser ds) True w0 = (Inr (), w1)"
    "inv (b + 1 + 2 * length ?fs) w1" "stored_index ds name pw default_sindex w1" "find_in (root_index ds name pw default_sindex) w1 = (\<lambda>k. None)"
    "touched sv maxlen (dsUser ds) {?nm (FieldName default_sindex)} (feeds w0) (blobs w0) (feeds w1) (blobs w1)"
    by (rule CreateIndex_stored [OF b0 c0]) (rule that)
  have t1: "touched sv maxlen (dsUser ds) {?nm ?id} (feeds w0) (blobs w0) (feeds w1) (blobs w1)" using 1(5) by (simp add: default_sindex_def)
  have apf: "apart (map fst ?fs)" using ap(1) r(3) rf unfolding apart_def by metis
  have pre: "\<forall>f \<in> set ?fs. length (?nm (fst f)) \<le> maxlen \<and> valid_utf8 (?nm (fst f))
      \<and> feeds w1 (dsUser ds, HashString sv (?nm (fst f)), bytes_of pw) \<in> {None, Some deleted_mark}"
  proof
    fix f assume "f \<in> set ?fs"
    then have f: "fst f \<in> set (map fst indexes)" using r(1) by simp
    have "feeds w1 (dsUser ds, HashString sv (?nm (fst f)), bytes_of pw) = feeds w0 (dsUser ds, HashString sv (?nm (fst f)), bytes_of pw)"
    proof (rule touchedD [OF t1])
      fix s assume "s \<in> {?nm ?id}" "length s \<le> maxlen"
      moreover have "fst f \<noteq> ?id" using f ap(2) by metis
      ultimately show "HashString sv (?nm (fst f)) \<noteq> HashString sv s" using hash_inj [of "?nm (fst f)" s] each [of "fst f"] f by auto
    qed
    with each [of "fst f"] f 0(3) show "length (?nm (fst f)) \<le> maxlen \<and> valid_utf8 (?nm (fst f))
      \<and> feeds w1 (dsUser ds, HashString sv (?nm (fst f)), bytes_of pw) \<in> {None, Some deleted_mark}" by simp
  qed
  let ?base = "\<lparr>scName = name, scMutable = True, SimpleIndexes = [default_sindex],
        MapIndexes = [], ListIndexes = [], VectorIndexes = [], CompoundIndexes = []\<rparr>"
  obtain w2 where 2: "create_indexes sv ds name pw True ?fs ?base w1 = (Inr ?sc, w2)" "inv (b + 1) w2"
     "\<forall>f \<in> set ?fs. stored_index ds name pw (?g f) w2 \<and> find_in (root_index ds name pw (?g f)) w2 = (\<lambda>k. None)"
     "touched sv maxlen (dsUser ds) ((\<lambda>f. ?nm (fst f)) ` set ?fs) (feeds w1) (blobs w1) (feeds w2) (blobs w2)"
    using create_indexes_ok [OF 1(2) apf pre, of ?base, folded new_schema_def] by (elim exE conjE) (rule that)
  have np2: "\<not> prefix (dsPodName ds @ name @ FieldName default_sindex) s" if "s \<in> (\<lambda>f. ?nm (fst f)) ` set ?fs" for s
    using that ap(3) r(1) by (auto simp: default_sindex_def parallel_def)
  note s2 = stored_index_frame [OF 2(4) 1(3) np2]
  have all2: "stored_index ds name pw si w2 \<and> find_in (root_index ds name pw si) w2 = (\<lambda>k. None)" if "si \<in> set (all_sindexes ?sc)" for si
    using that new_schema_facts(1) [OF ord, of indexes name] ap0 s2 1(4) 2(3) r(1) by (auto simp: apart_def)
  have kept: "schemas_in dl ds pw w2 = Inr cs"
  proof -
    have n1: "documentFile \<notin> {?nm ?id}" using each [of ?id] by auto
    have n2: "documentFile \<notin> (\<lambda>f. ?nm (fst f)) ` set ?fs"
    proof
      assume "documentFile \<in> (\<lambda>f. ?nm (fst f)) ` set ?fs"
      then obtain f where f: "f \<in> set indexes" "documentFile = ?nm (fst f)" using r(1) by blast
      then have "fst f \<in> set (?id # map fst indexes)" by simp
      with each f(2) show False by (metis prefix_order.refl)
    qed
    show ?thesis using schemas_kept [OF 2(4) len n2, of dl "dsUser ds" pw] schemas_kept [OF t1 len n1, of dl "dsUser ds" pw] 0(3) cs(1) by simp
  qed
  have ok': "schemas_ok (AList.update name ?sc cs)"
    by (rule schemas_ok_update [OF cs(2)]) (use new_schema_facts(4) [OF ord, of indexes name] ap0 in \<open>simp add: apart_def\<close>)
  have i2: "inv (Suc b) w2" using 2(2) by simp
  obtain w3 where 3: "storeDocumentDBSchemas dl sv ord ds pw (AList.update name ?sc cs) w2 = (Inr (), w3)" "inv b w3" "blobs w3 = blobs w2"
    "schemas_in dl ds pw w3 = Inr (ranged ord (AList.update name ?sc cs))"
    "touched sv maxlen (dsUser ds) {documentFile} (feeds w2) (blobs w2) (feeds w3) (blobs w3)"
    by (rule storeDocumentDBSchemas_ok [OF i2 len ord js ok' fit]) (rule that)
  have np3: "\<not> prefix (dsPodName ds @ name @ FieldName si) s" if "s \<in> {documentFile}" "si \<in> set (all_sindexes ?sc)" for s si
  proof -
    have "FieldName si \<in> set (?id # map fst indexes)"
    proof -
      have "si \<in> insert default_sindex (?g ` set indexes)"
        using that(2) new_schema_facts(1) [OF ord, of indexes name] ap0 by (simp add: apart_def)
      then show ?thesis by (force simp: default_sindex_def)
    qed
    with each that(1) show ?thesis by simp
  qed
  have open0: "\<not> IsDBOpened ds name" using can by (simp add: IsDBOpened_def db_creatable_def)
  have run: "CreateDocumentDB dl sv ord ds name pw indexes True w = (Inr (), w3)"
    using writable [OF b] open0 0(1) cs(1,3) 1(1) 2(1) 3(1) by (simp add: CreateDocumentDB_def default_sindex_def)
  show thesis
  proof (rule that [OF run 3(2,4)])
    fix si assume si: "si \<in> set (all_sindexes ?sc)"
    with all2 have "stored_index ds name pw si w2" by blast
    note fr = stored_index_frame [OF 3(5) this np3]
    show "stored_index ds name pw si w3" using fr(1) si by blast
    show "find_in (root_index ds name pw si) w3 = (\<lambda>k. None)" using fr(2) si all2 by metis
  qed
qed

lemma OpenDocumentDB_ok:
  assumes "inv b w" "length documentFile \<le> maxlen" "openDocDBs ds name = None"
    and cs: "schemas_in dl ds pw w = Inr cs" "map_of cs name = Some sc" "scMutable sc" "SimpleIndexes sc = default_sindex # xs"
    and ix: "\<And>si. si \<in> set (all_sindexes sc) \<Longrightarrow> stored_index ds name pw si w" "apart (map FieldName (all_sindexes sc))"
    and empty: "find_in (root_index ds name pw default_sindex) w = (\<lambda>k. None)"
  obtains ds' w' db where "OpenDocumentDB dl sv ds name pw w = (Inr (), ds', w')" "inv b w'" "feeds w' = feeds w" "blobs w' = blobs w"
    "openDocDBs ds' = (openDocDBs ds)(name \<mapsto> db)" "dsUser ds' = dsUser ds" "dsPodName ds' = dsPodName ds"
    "map fst (db_indexes db) = map FieldName (all_sindexes sc)"
    "map (\<lambda>fa. ixType (dsHeap ds' (snd fa))) (db_indexes db) = map FieldType (all_sindexes sc)"
    "map (\<lambda>fa. ixName (dsHeap ds' (snd fa))) (db_indexes db) = map (\<lambda>si. dsPodName ds @ name @ FieldName si) (all_sindexes sc)"
    "length (simpleIndexes db) = length (SimpleIndexes sc)"
    "db_ok dl ds' db w'" "documents ds' db w' = Map.empty"
proof -
  obtain w0 where 0: "LoadDocumentDBSchemas dl sv ds pw w = (schemas_in dl ds pw w, w0)" "inv b w0"
    "feeds w0 = feeds w" "blobs w0 = blobs w" by (rule LoadDocumentDBSchemas_ok [OF assms(1,2)])
  have V: "ixview sv maxlen feeds blobs x w0 = ixview sv maxlen feeds blobs x w" for x using 0(3,4) by (rule ixview_same)
  have st: "stored_index ds name pw si w0" if "si \<in> set (all_sindexes sc)" for si
    using ix(1) [OF that] by (simp add: stored_index_def Let_def index_ok_def V)
  have di: "distinct (map FieldName (all_sindexes sc))" using ix(2) by (simp add: apart_def)
  let ?n = "dsNext ds" and ?all = "all_sindexes sc"
  obtain ds' w' db where 1: "open_schema sv ds name pw sc w0 = (Inr (), ds', w')" "inv b w'" "feeds w' = feeds w0" "blobs w' = blobs w0"
    "openDocDBs ds' = (openDocDBs ds)(name \<mapsto> db)" "dsUser ds' = dsUser ds" "dsPodName ds' = dsPodName ds" "dbMutable db = scMutable sc"
    "simpleIndexes db = zip (map FieldName (SimpleIndexes sc)) [?n ..< ?n + length (SimpleIndexes sc)]"
    "db_indexes db = zip (map FieldName ?all) [?n ..< ?n + length ?all]"
    "\<And>i. i < length ?all \<Longrightarrow> opened_index ds name pw (?all ! i) (dsHeap ds' (?n + i)) w0"
    by (rule open_schema_ok [OF 0(2) st di]) (assumption, rule that)
  have W: "ixview sv maxlen feeds blobs x w' = ixview sv maxlen feeds blobs x w0" for x using 1(3,4) by (rule ixview_same)
  have fw: "find_in x w0 = find_in x w" "find_in x w' = find_in x w" for x
  proof -
    show "find_in x w0 = find_in x w" by (rule ext) (unfold index_find_def V, rule refl)
    show "find_in x w' = find_in x w" by (rule ext) (unfold index_find_def V W, rule refl)
  qed
  have okW: "ok_in x w' = ok_in x w0" for x by (simp add: index_ok_def W)
  have op: "ixName (dsHeap ds' (?n + i)) = dsPodName ds @ name @ FieldName (?all ! i)" "ixUser (dsHeap ds' (?n + i)) = dsUser ds"
    "ixType (dsHeap ds' (?n + i)) = FieldType (?all ! i)" "ok_in (dsHeap ds' (?n + i)) w'"
    "find_in (dsHeap ds' (?n + i)) w' = find_in (root_index ds name pw (?all ! i)) w" if "i < length ?all" for i
    using 1(11) [OF that] okW by (simp_all add: opened_index_def fw)
  have nth: "db_indexes db ! i = (FieldName (?all ! i), ?n + i)" if "i < length ?all" for i using that by (simp add: 1(10))
  have ld: "length (db_indexes db) = length ?all" by (simp add: 1(10))
  have mem: "\<exists>i < length ?all. fa = (FieldName (?all ! i), ?n + i)" if "fa \<in> set (db_indexes db)" for fa
    using that nth ld by (metis in_set_conv_nth)
  have iok: "indexes_ok ds' db w'"
    unfolding indexes_ok_def
  proof (intro conjI ballI impI)
    show "distinct (map fst (db_indexes db))" "distinct (map snd (db_indexes db))" using di by (simp_all add: 1(10))
    fix x assume "x \<in> set (db_indexes db)"
    then obtain i where i: "i < length ?all" "x = (FieldName (?all ! i), ?n + i)" using mem by blast
    then show "ok_in (dsHeap ds' (snd x)) w'" "ixUser (dsHeap ds' (snd x)) = dsUser ds'" using op 1(6) by simp_all
    fix y assume "y \<in> set (db_indexes db)" "x \<noteq> y"
    then obtain j where j: "j < length ?all" "y = (FieldName (?all ! j), ?n + j)" "i \<noteq> j" using mem i by blast
    then have "FieldName (?all ! i) \<noteq> FieldName (?all ! j)" using di i(1) by (metis distinct_conv_nth length_map nth_map)
    moreover have "FieldName (?all ! i) \<in> set (map FieldName ?all)" "FieldName (?all ! j) \<in> set (map FieldName ?all)"
      using i(1) j(1) by simp_all
    ultimately have "parallel (FieldName (?all ! i)) (FieldName (?all ! j))" using ix(2) unfolding apart_def by blast
    then show "parallel (ixName (dsHeap ds' (snd x))) (ixName (dsHeap ds' (snd y)))" using op i j by (simp add: parallel_def)
  qed
  have a0: "?all ! 0 = default_sindex" "0 < length ?all" by (simp_all add: all_sindexes_def cs(4))
  have map0: "map_of (simpleIndexes db) DefaultIndexFieldName = Some ?n"
    by (simp add: 1(9) cs(4) upt_conv_Cons default_sindex_def del: upt_Suc)
  then have id: "id_index ds' db = dsHeap ds' (?n + 0)" by (simp add: id_index_def)
  have none: "find_in (id_index ds' db) w' = (\<lambda>k. None)" using op(5) [OF a0(2)] a0(1) empty by (simp only: id)
  have dok: "db_ok dl ds' db w'"
    using 1(8) cs(3) iok map0 op(3) [OF a0(2)] a0(1) none by (simp add: db_ok_def id default_sindex_def)
  show thesis
  proof (rule that [OF _ 1(2) _ _ 1(5-7) _ _ _ _ dok])
    show "OpenDocumentDB dl sv ds name pw w = (Inr (), ds', w')"
      using assms(3) 0(1) cs(1,2) 1(1) by (simp add: OpenDocumentDB_def IsDBOpened_def)
    show "map (\<lambda>fa. ixType (dsHeap ds' (snd fa))) (db_indexes db) = map FieldType ?all"
      "map (\<lambda>fa. ixName (dsHeap ds' (snd fa))) (db_indexes db) = map (\<lambda>si. dsPodName ds @ name @ FieldName si) ?all"
      by (rule nth_equalityI; simp add: ld nth op)+
    show "documents ds' db w' = Map.empty" by (rule ext) (simp add: documents_def none)
  qed (use 1(3,4,9,10) 0(3,4) in simp_all)
qed

end

end
