(* ===== verification/DocRuns.thy ===== *)
theory DocRuns
  imports DocLife CollectionRuns
begin

text \<open>
  The properties of the document databases, and runs of them on the Swarm in
  memory.
\<close>

section \<open>Properties\<close>

text \<open>C22: a database is created and opened.  CreateDocumentDB of a new name, whose indexes
  can be created, succeeds; OpenDocumentDB then gives a database that has an index for every
  field and finds no document; creating it again is refused, opened or not.\<close>

theorem doc_create_open:
  assumes st: "storage sv maxlen good feeds blobs" and w: "good (b + 3 + 2 * length indexes) w"
    and ord: "names_order ord"
    and cs: "schemas dl sv (feeds w) (dsUser ds) pw = Inr cs" "schemas_ok cs" "map_of cs name = None"
    and js: "schema_json dl (AList.update name (new_schema ord name indexes) cs)"
    and can: "db_creatable sv maxlen (feeds w) ds name pw (DefaultIndexFieldName # map fst indexes)"
    and fit: "storable sv (bytes_of pw) (Raw (bytes_of (print_schemas dl (ranged ord (AList.update name (new_schema ord name indexes) cs)))))"
  shows "\<exists>w1 ds' w2 db. CreateDocumentDB dl sv ord ds name pw indexes True w = (Inr (), w1)
     \<and> OpenDocumentDB dl sv ds name pw w1 = (Inr (), ds', w2) \<and> good b w2
     \<and> openDocDBs ds' = (openDocDBs ds)(name \<mapsto> db)
     \<and> set (map fst (db_indexes db)) = insert DefaultIndexFieldName (fst ` set indexes)
     \<and> storage.db_ok sv maxlen feeds blobs dl ds' db w2
     \<and> (\<forall>n lb f did pw'. fst (Doc_Get n sv lb ds' f name did pw' w2) = Inl ErrEntryNotFound)
     \<and> fst (CreateDocumentDB dl sv ord ds' name pw indexes True w2) = Inl ErrDocumentDBAlreadyOpened
     \<and> fst (CreateDocumentDB dl sv ord ds name pw indexes True w2) = Inl ErrDocumentDBAlreadyPresent"
proof -
  let ?sc = "new_schema ord name indexes" and ?id = DefaultIndexFieldName
  have ap: "apart (?id # map fst indexes)" "length documentFile \<le> maxlen" "openDocDBs ds name = None"
    using can by (simp_all add: db_creatable_def)
  then have di: "distinct (?id # map fst indexes)" unfolding apart_def by blast
  obtain w1 where 1: "CreateDocumentDB dl sv ord ds name pw indexes True w = (Inr (), w1)" "good b w1"
    "schemas dl sv (feeds w1) (dsUser ds) pw = Inr (ranged ord (AList.update name ?sc cs))"
    "\<And>si. si \<in> set (all_sindexes ?sc) \<Longrightarrow> storage.stored_index sv maxlen feeds blobs ds name pw si w1"
    "\<And>si. si \<in> set (all_sindexes ?sc) \<Longrightarrow> index_find sv maxlen feeds blobs (root_index ds name pw si) w1 = (\<lambda>k. None)"
    by (rule storage.CreateDocumentDB_ok [OF st w ord js cs can fit]) (rule that)
  note sc = new_schema_facts [OF ord di, of name]
  have upd: "schemas_ok (AList.update name ?sc cs)" by (rule schemas_ok_update [OF cs(2) sc(4)])
  then have m: "map_of (ranged ord (AList.update name ?sc cs)) name = Some ?sc"
    using ranged_schemas [OF ord upd] by (simp add: AList.update_conv')
  obtain xs where xs: "SimpleIndexes ?sc = default_sindex # xs" using sc(3) by blast
  have fn: "set (map FieldName (all_sindexes ?sc)) = set (?id # map fst indexes)"
    unfolding set_map sc(1) by (simp add: default_sindex_def image_image)
  have aps: "apart (map FieldName (all_sindexes ?sc))" using ap(1) sc(2) unfolding apart_def fn by blast
  have e0: "index_find sv maxlen feeds blobs (root_index ds name pw default_sindex) w1 = (\<lambda>k. None)" using 1(5) sc(1) by simp
  obtain ds' w2 db where 2: "OpenDocumentDB dl sv ds name pw w1 = (Inr (), ds', w2)" "good b w2" "feeds w2 = feeds w1"
    "openDocDBs ds' = (openDocDBs ds)(name \<mapsto> db)" "map fst (db_indexes db) = map FieldName (all_sindexes ?sc)"
    "storage.db_ok sv maxlen feeds blobs dl ds' db w2" "storage.documents sv maxlen feeds blobs ds' db w2 = Map.empty"
    by (rule storage.OpenDocumentDB_ok [OF st 1(2) ap(2,3) 1(3) m sc(5) xs 1(4) aps e0]) (assumption, rule that)
  have op: "openDocDBs ds' name = Some db" by (simp add: 2(4))
  have get: "fst (Doc_Get n sv lb ds' f name did pw' w2) = Inl ErrEntryNotFound" for n lb f did pw'
    using storage.Doc_Get_ok [OF st 2(2) op 2(6)] by (simp add: 2(7))
  obtain w3 where "LoadDocumentDBSchemas dl sv ds pw w2 = (schemas dl sv (feeds w2) (dsUser ds) pw, w3)"
    by (rule storage.LoadDocumentDBSchemas_ok [OF st 2(2) ap(2)])
  then have again: "fst (CreateDocumentDB dl sv ord ds name pw indexes True w2) = Inl ErrDocumentDBAlreadyPresent"
    using storage.writable [OF st 2(2)] ap(3) m by (simp add: CreateDocumentDB_def IsDBOpened_def 2(3) 1(3))
  have opened: "fst (CreateDocumentDB dl sv ord ds' name pw indexes True w2) = Inl ErrDocumentDBAlreadyOpened"
    using storage.writable [OF st 2(2)] op by (simp add: CreateDocumentDB_def IsDBOpened_def)
  have "set (map fst (db_indexes db)) = insert ?id (fst ` set indexes)" unfolding 2(5) fn by simp
  with 1(1) 2(1,2,4,6) get again opened show ?thesis by blast
qed

text \<open>C20: Put and Get of documents.  A document with a non-empty id, with a field of the
  right type and with ASCII keys for every index (doc_fits), is stored: Get of its id gives
  it, Get of every other id what it gave, and the keys of its fields lead to its blob.  If
  the id is taken, the old document must be removable (replaceable): its fields have keys
  of texts or numbers in the simple indexes, each of which is there and at no branching
  point.\<close>

theorem doc_put_get:
  assumes st: "storage sv maxlen good feeds blobs"
    and w: "good (b + doc_cost dl fl ord ds db docMap + 1 + 2 * length (simpleIndexes db)) w"
    and db: "openDocDBs ds name = Some db" "storage.db_ok sv maxlen feeds blobs dl ds db w"
    and ord: "names_order ord" and fits: "doc_fits dl fl ord maxlen ds db docMap"
    and doc: "parse_doc dl doc = Inr docMap" "map_of docMap DefaultIndexFieldName = Some (JString did)" "did \<noteq> []"
    and rep: "storage.replaceable sv maxlen feeds blobs dl fl ord ds db did w"
  shows "\<exists>ds' w' ref. Doc_Put dl fl sv ord ds name doc w = (Inr (), ds', w') \<and> good b w'
     \<and> openDocDBs ds' = openDocDBs ds \<and> storage.db_ok sv maxlen feeds blobs dl ds' db w'
     \<and> (\<forall>n lb f pw k. fst (Doc_Get n sv lb ds' f name k pw w')
            = (if k = did then Inr doc else fst (Doc_Get n sv lb ds f name k pw w)))
     \<and> blobs w' ref = Some (Raw doc)
     \<and> (\<forall>fa \<in> set (db_indexes db). \<forall>k \<in> set (the (doc_keys dl fl ord ds docMap fa)).
            \<exists>refs. fst (Get sv (dsHeap ds' (snd fa)) k w') = Inr refs \<and> ref \<in> set refs)"
proof -
  obtain ds' w' ref where p: "Doc_Put dl fl sv ord ds name doc w = (Inr (), ds', w')" "good b w'"
    "openDocDBs ds' = openDocDBs ds" "storage.db_ok sv maxlen feeds blobs dl ds' db w'"
    "storage.documents sv maxlen feeds blobs ds' db w' = (storage.documents sv maxlen feeds blobs ds db w)(did \<mapsto> doc)"
    "blobs w' ref = Some (Raw doc)"
    "\<And>fa k. \<lbrakk>fa \<in> set (db_indexes db); k \<in> set (the (doc_keys dl fl ord ds docMap fa))\<rbrakk> \<Longrightarrow>
       \<exists>refs. index_find sv maxlen feeds blobs (dsHeap ds' (snd fa)) w' k = Some refs \<and> ref \<in> set refs"
    by (rule storage.Doc_Put_ok [OF st w db ord fits doc rep]) (rule that)
  have op': "openDocDBs ds' name = Some db" using p(3) db(1) by simp
  have get: "fst (Doc_Get n sv lb ds' f name k pw w') = (if k = did then Inr doc else fst (Doc_Get n sv lb ds f name k pw w))" for n lb f pw k
    unfolding storage.Doc_Get_ok [OF st p(2) op' p(4)] storage.Doc_Get_ok [OF st w db] p(5) by simp
  have found: "\<exists>refs. fst (Get sv (dsHeap ds' (snd fa)) k w') = Inr refs \<and> ref \<in> set refs"
    if "fa \<in> set (db_indexes db)" "k \<in> set (the (doc_keys dl fl ord ds docMap fa))" for fa k
  proof -
    note k = that
    obtain refs where r: "index_find sv maxlen feeds blobs (dsHeap ds' (snd fa)) w' k = Some refs" "ref \<in> set refs" using p(7) [OF k] by blast
    have "index_ok sv maxlen feeds blobs (dsHeap ds' (snd fa)) w'"
      using p(4) k(1) by (simp add: storage.db_ok_def [OF st] storage.indexes_ok_def [OF st])
    from storage.Get_ok [OF st p(2) this, of k] obtain w2 where "Get sv (dsHeap ds' (snd fa)) k w' = (Inr refs, w2)"
      by (metis (no_types, lifting) option.simps(5) r(1))
    with r(2) show ?thesis by simp
  qed
  show ?thesis using p(1-4,6) get found by blast
qed

text \<open>C21: Del of a document that is removable: all simple indexes are of texts or numbers,
  and each key of the document in them is there and at no branching point.  Then Del
  succeeds, Get no longer finds the id and gives every other id what it gave, and exactly
  the keys of the document leave the simple indexes.\<close>

theorem doc_delete:
  assumes st: "storage sv maxlen good feeds blobs" and w: "good (b + 2 * length (simpleIndexes db)) w"
    and db: "openDocDBs ds name = Some db" "storage.db_ok sv maxlen feeds blobs dl ds db w"
    and ord: "names_order ord"
    and doc: "storage.documents sv maxlen feeds blobs ds db w did = Some doc" "parse_doc dl doc = Inr docMap"
    and rem: "storage.removable sv maxlen feeds blobs dl fl ord ds db docMap w"
  shows "\<exists>ds' w'. Doc_Del dl fl sv ord ds name did w = (Inr (), ds', w') \<and> good b w'
     \<and> openDocDBs ds' = openDocDBs ds \<and> storage.db_ok sv maxlen feeds blobs dl ds' db w'
     \<and> (\<forall>n lb f pw k. fst (Doc_Get n sv lb ds' f name k pw w')
            = (if k = did then Inl ErrEntryNotFound else fst (Doc_Get n sv lb ds f name k pw w)))
     \<and> (\<forall>fa \<in> set (simpleIndexes db). \<forall>k.
            index_find sv maxlen feeds blobs (dsHeap ds' (snd fa)) w' k
              = (if k \<in> set (the (doc_keys dl fl ord ds docMap fa)) then None
                 else index_find sv maxlen feeds blobs (dsHeap ds (snd fa)) w k))"
proof -
  obtain ds' w' where p: "Doc_Del dl fl sv ord ds name did w = (Inr (), ds', w')" "good b w'"
    "openDocDBs ds' = openDocDBs ds" "storage.db_ok sv maxlen feeds blobs dl ds' db w'"
    "storage.documents sv maxlen feeds blobs ds' db w' = (storage.documents sv maxlen feeds blobs ds db w)(did := None)"
    "\<And>fa. fa \<in> set (simpleIndexes db) \<Longrightarrow>
       unfiled (the (doc_keys dl fl ord ds docMap fa)) (index_find sv maxlen feeds blobs (dsHeap ds (snd fa)) w)
         (index_find sv maxlen feeds blobs (dsHeap ds' (snd fa)) w')"
    by (rule storage.Doc_Del_ok [OF st w db ord doc rem]) (rule that)
  have op': "openDocDBs ds' name = Some db" using p(3) db(1) by simp
  have get: "fst (Doc_Get n sv lb ds' f name k pw w') = (if k = did then Inl ErrEntryNotFound else fst (Doc_Get n sv lb ds f name k pw w))" for n lb f pw k
    unfolding storage.Doc_Get_ok [OF st p(2) op' p(4)] storage.Doc_Get_ok [OF st w db] p(5) by simp
  show ?thesis using p(1-4,6) get unfolding unfiled_def by blast
qed

section \<open>Expressions\<close>

definition operator_free :: "string \<Rightarrow> bool" where
  "operator_free s \<longleftrightarrow> set s \<inter> set ''=<>!'' = {}"

lemma Contains_head: "\<lbrakk>operator_free f; p \<noteq> []; set p \<subseteq> set ''=<>!''\<rbrakk> \<Longrightarrow> Contains (f @ s) p = Contains s p"
  by (induction f) (cases p; auto simp: operator_free_def)+

lemma prefix_tail:
  assumes "operator_free v" "set p \<subseteq> set ''=<>!''"
  shows "prefix p (s @ v) = prefix p s"
proof
  assume "prefix p (s @ v)"
  then show "prefix p s"
  proof (rule prefix_append [THEN iffD1, THEN disjE])
    assume "\<exists>us. p = s @ us \<and> prefix us v"
    then obtain us where us: "p = s @ us" "prefix us v" by blast
    then have "set us \<subseteq> set v" "set us \<subseteq> set ''=<>!''" using assms(2) set_mono_prefix by auto
    with assms(1) have "us = []" unfolding operator_free_def by (cases us) auto
    with us show "prefix p s" by simp
  qed
qed (auto simp: prefix_append)

lemma Contains_tail: "\<lbrakk>operator_free v; p \<noteq> []; set p \<subseteq> set ''=<>!''\<rbrakk> \<Longrightarrow> Contains (s @ v) p = Contains s p"
proof (induction s)
  case Nil
  then show ?case using Contains_head [of v p "[]"] by simp
next
  case (Cons c s)
  then show ?case using prefix_tail [of v p "c # s"] by simp
qed

lemma Cut_head: "\<lbrakk>operator_free f; p \<noteq> []; set p \<subseteq> set ''=<>!''\<rbrakk> \<Longrightarrow> Cut p (f @ s) = map_option (apfst ((@) f)) (Cut p s)"
proof (induction f)
  case Nil
  show ?case by (cases "Cut p s") auto
next
  case (Cons c f)
  have "\<not> prefix p (c # f @ s)" using Cons.prems by (cases p) (auto simp: operator_free_def)
  moreover have "Cut p (f @ s) = map_option (apfst ((@) f)) (Cut p s)"
    by (rule Cons.IH) (use Cons.prems in \<open>auto simp: operator_free_def\<close>)
  ultimately show ?case by (cases "Cut p s") auto
qed

lemma Split_operator:
  assumes "operator_free f" "operator_free v" "p \<noteq> []" "set p \<subseteq> set ''=<>!''"
  shows "StringsSplit p (f @ p @ v) = [f, v]"
proof -
  have "Cut p (p @ v) = Some ([], v)" using assms(3) by (cases p) simp_all
  then have "Cut p (f @ p @ v) = Some (f, v)" using Cut_head [OF assms(1,3,4), of "p @ v"] by simp
  moreover have "Cut p v = None"
    using Cut_None_iff Contains_head [OF assms(2,3,4), of "[]"] assms(3) by simp
  ultimately show ?thesis
    using Split_of_Cut(1) [of p "f @ p @ v" f v] assms(3) by (simp add: StringsSplit.simps [of p v])
qed

text \<open>Every operator is the first of the list that it contains.\<close>

lemma operator_first: "list_all (\<lambda>p. take 1 (filter (Contains p) expr_operators) = [p]) expr_operators"
  by code_simp

text \<open>C23: an expression is taken apart as it was written.\<close>

theorem resolveExpression_parts:
  assumes "operator_free field" "operator_free val" "operator \<in> set expr_operators"
  shows "resolveExpression (field @ operator @ val) = Inr (field, operator, val)"
proof -
  have op: "operator \<noteq> []" "set operator \<subseteq> set ''=<>!''" using assms(3) by (auto simp: expr_operators_def)
  have c: "Contains (field @ operator @ val) p = Contains operator p" if "p \<noteq> []" "set p \<subseteq> set ''=<>!''" for p
    using Contains_head [OF assms(1) that, of "operator @ val"] Contains_tail [OF assms(2) that, of operator] by simp
  have "filter (Contains (field @ operator @ val)) expr_operators = filter (Contains operator) expr_operators"
    by (rule filter_cong [OF refl]) (rule c; auto simp: expr_operators_def)
  moreover have "\<exists>os. filter (Contains operator) expr_operators = operator # os"
    using operator_first assms(3) by (cases "filter (Contains operator) expr_operators") (auto simp: list_all_iff)
  ultimately show ?thesis using Split_operator [OF assms(1,2) op] by (auto simp: resolveExpression_def)
qed

lemma resolveExpression_parts_witness: "resolveExpression ''age=>18'' = Inr (''age'', ''=>'', ''18'')"
  using resolveExpression_parts [of "''age''" "''18''" "''=>''"] by (simp add: operator_free_def expr_operators_def)

text \<open>The usual spelling of at least is taken for a strict comparison with a text.\<close>

lemma resolveExpression_misspelt: "resolveExpression ''age>=18'' = Inr (''age'', ''>'', ''=18'')"
  by (simp add: resolveExpression_def expr_operators_def StringsSplit.simps)

section \<open>Runs\<close>

text \<open>A library in which the text of a document is its id, and every document has a
  field v; the line of a schema is the name of the database.\<close>

definition run_lib :: "(int, int) doclib" where
  "run_lib =
     \<lparr>UnmarshalAny = (\<lambda>b. Some (JObject [(''id'', JString (string_of b)), (''v'', JString ''x'')])),
      MarshalSchema = scName, UnmarshalSchema = (\<lambda>s. Some (new_schema (\<lambda>x. x) s [(''v'', StringIndex)])),
      Regexp = (\<lambda>p. Some (\<lambda>s. prefix p s)), FormatFixed6 = Sprintf_020d, Truncate = (\<lambda>i. i),
      EncodeVector = map word_of_int, DecodeVector = (\<lambda>b. Some (map uint b)), ToFloat32 = (\<lambda>i. i), ToFloat64 = (\<lambda>i. i),
      Mul32 = (\<lambda>x y. x * y), HalfFromOne = (\<lambda>x. (1 - x) div 2), Less32 = (\<lambda>x y. x < y), Zero64 = 0,
      Add64 = (\<lambda>x y. x + y), Mul64 = (\<lambda>x y. x * y), Div64 = (\<lambda>x y. x div y), Sqrt64 = (\<lambda>x. x), Eq64 = (\<lambda>x y. x = y)\<rparr>"

definition run_ds :: DocStore where
  "run_ds = NewDocumentStore ''p'' [1] (\<lambda>a. run_idx)"

lemma names_order_id: "names_order (\<lambda>x. x)"
  by (simp add: names_order_def)

lemma run_new_schema:
  "new_schema (\<lambda>x. x) name [(''v'', StringIndex)] =
     \<lparr>scName = name, scMutable = True, SimpleIndexes = [default_sindex, \<lparr>FieldName = ''v'', FieldType = StringIndex\<rparr>],
      MapIndexes = [], ListIndexes = [], VectorIndexes = [], CompoundIndexes = []\<rparr>"
  by (simp add: new_schema_def ranged_def add_index_def)

lemma run_schemas:
  "schemas run_lib mem_services (mem_feeds mem_start) (dsUser run_ds) ''pw'' = Inr []"
  "schema_json run_lib (AList.update ''d'' (new_schema (\<lambda>x. x) ''d'' [(''v'', StringIndex)]) [])"
  "db_creatable mem_services 31 (mem_feeds mem_start) run_ds ''d'' ''pw'' (DefaultIndexFieldName # map fst [(''v'', StringIndex)])"
  "storable mem_services (bytes_of ''pw'') (Raw (bytes_of (print_schemas run_lib
     (ranged (\<lambda>x. x) (AList.update ''d'' (new_schema (\<lambda>x. x) ''d'' [(''v'', StringIndex)]) [])))))"
proof -
  show "schemas run_lib mem_services (mem_feeds mem_start) (dsUser run_ds) ''pw'' = Inr []"
    by (simp add: schemas_def mem_start_empty)
  show "schema_json run_lib (AList.update ''d'' (new_schema (\<lambda>x. x) ''d'' [(''v'', StringIndex)]) [])"
    by (simp add: schema_json_def run_lib_def run_new_schema newline_char_def)
  show "db_creatable mem_services 31 (mem_feeds mem_start) run_ds ''d'' ''pw'' (DefaultIndexFieldName # map fst [(''v'', StringIndex)])"
    by (simp add: ascii_valid db_creatable_def run_ds_def NewDocumentStore_def documentFile_def DefaultIndexFieldName_def apart_def parallel_def mem_start_empty)
  show "storable mem_services (bytes_of ''pw'') (Raw (bytes_of (print_schemas run_lib
     (ranged (\<lambda>x. x) (AList.update ''d'' (new_schema (\<lambda>x. x) ''d'' [(''v'', StringIndex)]) [])))))"
    by (simp add: storable_def MaxChunkLength_def bytes_of_def print_schemas_def ranged_def run_lib_def run_new_schema)
qed

lemma doc_create_open_witness:
  "\<exists>w1 ds w2. CreateDocumentDB run_lib mem_services (\<lambda>x. x) run_ds ''d'' ''pw'' [(''v'', StringIndex)] True mem_start = (Inr (), w1)
     \<and> OpenDocumentDB run_lib mem_services run_ds ''d'' ''pw'' w1 = (Inr (), ds, w2)
     \<and> fst (CreateDocumentDB run_lib mem_services (\<lambda>x. x) run_ds ''d'' ''pw'' [(''v'', StringIndex)] True w2) = Inl ErrDocumentDBAlreadyPresent"
proof -
  have g: "mem_good (0 + 3 + 2 * length [(''v'', StringIndex)]) mem_start" by (rule mem_start_good) simp
  have "schemas_ok []" "map_of [] ''d'' = (None :: DBSchema option)" by (simp_all add: schemas_ok_def)
  from doc_create_open [OF mem_storage g names_order_id run_schemas(1) this run_schemas(2-4)] show ?thesis by blast
qed

text \<open>The empty database of this run.\<close>

lemma run_db:
  obtains ds w db a1 a2 where "mem_good 100 w" "openDocDBs ds ''d'' = Some db" "storage.db_ok mem_services 31 mem_feeds mem_blobs run_lib ds db w"
    "storage.documents mem_services 31 mem_feeds mem_blobs ds db w = Map.empty"
    "db_indexes db = [(''id'', a1), (''v'', a2)]" "length (simpleIndexes db) = 2"
    "ixType (dsHeap ds a1) = StringIndex" "ixType (dsHeap ds a2) = StringIndex"
    "ixName (dsHeap ds a1) = ''pdid''" "ixName (dsHeap ds a2) = ''pdv''"
proof -
  have g: "mem_good (100 + 3 + 2 * length [(''v'', StringIndex)]) mem_start" by (rule mem_start_good) simp
  have e: "schemas_ok []" "map_of [] ''d'' = (None :: DBSchema option)" by (simp_all add: schemas_ok_def)
  let ?sc = "new_schema (\<lambda>x. x) ''d'' [(''v'', StringIndex)]"
  obtain w1 where 1: "mem_good 100 w1"
    "schemas run_lib mem_services (mem_feeds w1) (dsUser run_ds) ''pw'' = Inr (ranged (\<lambda>x. x) (AList.update ''d'' ?sc []))"
    "\<And>si. si \<in> set (all_sindexes ?sc) \<Longrightarrow> storage.stored_index mem_services 31 mem_feeds mem_blobs run_ds ''d'' ''pw'' si w1"
    "\<And>si. si \<in> set (all_sindexes ?sc) \<Longrightarrow> index_find mem_services 31 mem_feeds mem_blobs (root_index run_ds ''d'' ''pw'' si) w1 = (\<lambda>k. None)"
    by (rule storage.CreateDocumentDB_ok [OF mem_storage g names_order_id run_schemas(2) run_schemas(1) e run_schemas(3,4)]) (rule that)
  have len: "length documentFile \<le> 31" "openDocDBs run_ds ''d'' = None" by (simp_all add: documentFile_def run_ds_def NewDocumentStore_def)
  have m: "map_of (ranged (\<lambda>x. x) (AList.update ''d'' ?sc [])) ''d'' = Some ?sc" "scMutable ?sc"
    "SimpleIndexes ?sc = default_sindex # [\<lparr>FieldName = ''v'', FieldType = StringIndex\<rparr>]" by (simp_all add: ranged_def run_new_schema)
  have all: "all_sindexes ?sc = [default_sindex, \<lparr>FieldName = ''v'', FieldType = StringIndex\<rparr>]" by (simp add: all_sindexes_def run_new_schema)
  have ap: "apart (map FieldName (all_sindexes ?sc))"
    by (simp add: all apart_def default_sindex_def DefaultIndexFieldName_def parallel_def)
  have e0: "index_find mem_services 31 mem_feeds mem_blobs (root_index run_ds ''d'' ''pw'' default_sindex) w1 = (\<lambda>k. None)"
    using 1(4) by (simp add: all)
  obtain ds w db where 2: "mem_good 100 w" "openDocDBs ds = (openDocDBs run_ds)(''d'' \<mapsto> db)"
    "map fst (db_indexes db) = map FieldName (all_sindexes ?sc)"
    "map (\<lambda>fa. ixType (dsHeap ds (snd fa))) (db_indexes db) = map FieldType (all_sindexes ?sc)"
    "map (\<lambda>fa. ixName (dsHeap ds (snd fa))) (db_indexes db) = map (\<lambda>si. dsPodName run_ds @ ''d'' @ FieldName si) (all_sindexes ?sc)"
    "length (simpleIndexes db) = length (SimpleIndexes ?sc)"
    "storage.db_ok mem_services 31 mem_feeds mem_blobs run_lib ds db w" "storage.documents mem_services 31 mem_feeds mem_blobs ds db w = Map.empty"
    by (rule storage.OpenDocumentDB_ok [OF mem_storage 1(1) len 1(2) m 1(3) ap e0]) (assumption, rule that)
  from 2(3) obtain a1 a2 where "db_indexes db = [(''id'', a1), (''v'', a2)]"
    by (auto simp: all default_sindex_def DefaultIndexFieldName_def)
  then show thesis
    using 2 by (intro that [of w ds db a1 a2]) (simp_all add: all m(3) default_sindex_def DefaultIndexFieldName_def run_ds_def NewDocumentStore_def)
qed

lemma run_parse: "parse_doc run_lib b = Inr [(''id'', JString (string_of b)), (''v'', JString ''x'')]"
  by (simp add: parse_doc_def run_lib_def)

lemma doc_put_get_witness:
  "\<exists>ds w ds' w'. Doc_Put run_lib run_floats mem_services (\<lambda>x. x) ds ''d'' (bytes_of ''a'') w = (Inr (), ds', w')
     \<and> (\<forall>n lb f pw. fst (Doc_Get n mem_services lb ds' f ''d'' ''a'' pw w') = Inr (bytes_of ''a'')
         \<and> fst (Doc_Get n mem_services lb ds' f ''d'' ''b'' pw w') = Inl ErrEntryNotFound)"
proof -
  let ?ok = "storage.db_ok mem_services 31 mem_feeds mem_blobs" and ?docs = "storage.documents mem_services 31 mem_feeds mem_blobs"
  obtain ds w db a1 a2 where d: "mem_good 100 w" "openDocDBs ds ''d'' = Some db" "?ok run_lib ds db w" "?docs ds db w = Map.empty"
    "db_indexes db = [(''id'', a1), (''v'', a2)]" "length (simpleIndexes db) = 2"
    "ixType (dsHeap ds a1) = StringIndex" "ixType (dsHeap ds a2) = StringIndex"
    "ixName (dsHeap ds a1) = ''pdid''" "ixName (dsHeap ds a2) = ''pdv''" by (rule run_db)
  let ?m = "[(''id'', JString ''a''), (''v'', JString ''x'')] :: (string \<times> int jvalue) list"
  have k: "doc_keys run_lib run_floats (\<lambda>x. x) ds ?m (''id'', a1) = Some [''a'']" "doc_keys run_lib run_floats (\<lambda>x. x) ds ?m (''v'', a2) = Some [''x'']"
    using d by (simp_all add: doc_keys_def field_keys_def)
  have g: "mem_good (87 + doc_cost run_lib run_floats (\<lambda>x. x) ds db ?m + 1 + 2 * length (simpleIndexes db)) w"
    using d(1,5,6) k by (simp add: doc_cost_def)
  have f: "doc_fits run_lib run_floats (\<lambda>x. x) 31 ds db ?m" using d k by (simp add: doc_fits_def)
  have p: "parse_doc run_lib (bytes_of ''a'') = Inr ?m" "map_of ?m DefaultIndexFieldName = Some (JString ''a'')" "''a'' \<noteq> []"
    by (simp_all add: run_parse DefaultIndexFieldName_def)
  have r: "storage.replaceable mem_services 31 mem_feeds mem_blobs run_lib run_floats (\<lambda>x. x) ds db ''a'' w"
    using d(4) by (simp add: storage.replaceable_def [OF mem_storage])
  have b: "fst (Doc_Get n mem_services lb ds f' ''d'' ''b'' pw w) = Inl ErrEntryNotFound" for n lb f' pw
    using storage.Doc_Get_ok [OF mem_storage d(1-3)] d(4) by simp
  from doc_put_get [OF mem_storage g d(2,3) names_order_id f p r] obtain ds' w' where
    q: "Doc_Put run_lib run_floats mem_services (\<lambda>x. x) ds ''d'' (bytes_of ''a'') w = (Inr (), ds', w')"
    "\<forall>n lb f pw k. fst (Doc_Get n mem_services lb ds' f ''d'' k pw w') = (if k = ''a'' then Inr (bytes_of ''a'') else fst (Doc_Get n mem_services lb ds f ''d'' k pw w))"
    by (elim exE conjE) (rule that; assumption)
  have "fst (Doc_Get n mem_services lb ds' f ''d'' ''a'' pw w') = Inr (bytes_of ''a'') \<and> fst (Doc_Get n mem_services lb ds' f ''d'' ''b'' pw w') = Inl ErrEntryNotFound"
    for n lb f pw using q(2) b by simp
  with q(1) show ?thesis by blast
qed

text \<open>A database with one document, put into the storage by hand.\<close>

definition run_doc_db :: DocumentDB where
  "run_doc_db = \<lparr>dbName = ''d'', dbMutable = True, simpleIndexes = [(''id'', 0)], mapIndexes = [], listIndexes = [], vectorIndexes = []\<rparr>"

definition run_doc_ds :: DocStore where
  "run_doc_ds = run_ds\<lparr>openDocDBs := [''d'' \<mapsto> run_doc_db]\<rparr>"

lemma run_doc:
  obtains w where "mem_good 50 w" "storage.db_ok mem_services 31 mem_feeds mem_blobs run_lib run_doc_ds run_doc_db w"
    "storage.documents mem_services 31 mem_feeds mem_blobs run_doc_ds run_doc_db w ''a'' = Some (bytes_of ''a'')"
    "\<not> index_at_branch mem_services 31 mem_feeds mem_blobs run_idx w ''a''"
    "index_find mem_services 31 mem_feeds mem_blobs run_idx w ''a'' \<noteq> None"
proof -
  let ?c = "Raw (bytes_of ''a'')"
  obtain q w0 where u: "UploadBlob mem_services ?c mem_start = (q, w0)" by (rule prod.exhaust)
  have g0: "mem_good (Suc 100) mem_start" by (rule mem_start_good) simp
  from storage.upload_blob [OF mem_storage g0 u] obtain ref where r: "mem_good 100 w0" "mem_feeds w0 = mem_feeds mem_start"
    "mem_blobs w0 = (mem_blobs mem_start)(ref \<mapsto> ?c)" by blast
  let ?m = "Manifest ''pcn'' True [] StringIndex 1700000000 [Entry ''a'' leafEntry [ref] None] 1 False"
  have g1: "mem_good (50 + 2) w0" by (rule storage.inv_mono [OF mem_storage r(1)]) simp
  obtain w where w: "mem_good 50 w" "index_ok mem_services 31 mem_feeds mem_blobs run_idx w"
    "ixview mem_services 31 mem_feeds mem_blobs run_idx w (ixName run_idx) = Some ?m" "mem_blobs w0 \<subseteq>\<^sub>m mem_blobs w"
    by (rule storage.leaf_index [OF mem_storage g1, of run_idx ?m])
       (simp_all add: run_idx_def node_ok_def text_ok_def ascii_valid mem_start_empty r(2))
  have blob: "mem_blobs w ref = Some ?c" by (rule map_leD [OF w(4)]) (simp add: r(3))
  have find: "index_find mem_services 31 mem_feeds mem_blobs run_idx w k = (if k = ''a'' then Some [ref] else None)" for k
    using w(3) by (auto simp: index_find_def tfind.simps cand_def split: list.splits)
  have br: "\<not> index_at_branch mem_services 31 mem_feeds mem_blobs run_idx w ''a''"
    using w(3) by (simp add: index_at_branch_def at_branch.simps cand_def)
  have id: "storage.id_index run_doc_ds run_doc_db = run_idx"
    by (simp add: storage.id_index_def [OF mem_storage] run_doc_ds_def run_doc_db_def run_ds_def NewDocumentStore_def DefaultIndexFieldName_def)
  have ok: "storage.db_ok mem_services 31 mem_feeds mem_blobs run_lib run_doc_ds run_doc_db w"
    unfolding storage.db_ok_def [OF mem_storage] storage.indexes_ok_def [OF mem_storage] id find
    using w(2) blob
    by (auto simp: run_doc_db_def run_doc_ds_def run_ds_def NewDocumentStore_def db_indexes_def run_idx_def run_parse DefaultIndexFieldName_def)
  have "storage.documents mem_services 31 mem_feeds mem_blobs run_doc_ds run_doc_db w ''a'' = Some (bytes_of ''a'')"
    by (simp add: storage.documents_def [OF mem_storage] id find blob doc_text_def)
  with w(1) ok br find show thesis by (intro that [of w]) simp_all
qed

lemma doc_delete_witness:
  "\<exists>w ds' w'. Doc_Del run_lib run_floats mem_services (\<lambda>x. x) run_doc_ds ''d'' ''a'' w = (Inr (), ds', w')
     \<and> (\<forall>n lb f pw. fst (Doc_Get n mem_services lb ds' f ''d'' ''a'' pw w') = Inl ErrEntryNotFound)"
proof -
  obtain w where w: "mem_good 50 w" "storage.db_ok mem_services 31 mem_feeds mem_blobs run_lib run_doc_ds run_doc_db w"
    "storage.documents mem_services 31 mem_feeds mem_blobs run_doc_ds run_doc_db w ''a'' = Some (bytes_of ''a'')"
    "\<not> index_at_branch mem_services 31 mem_feeds mem_blobs run_idx w ''a''"
    "index_find mem_services 31 mem_feeds mem_blobs run_idx w ''a'' \<noteq> None" by (rule run_doc)
  have g: "mem_good (48 + 2 * length (simpleIndexes run_doc_db)) w" using w(1) by (simp add: run_doc_db_def)
  have o: "openDocDBs run_doc_ds ''d'' = Some run_doc_db" by (simp add: run_doc_ds_def)
  let ?m = "[(''id'', JString ''a''), (''v'', JString ''x'')] :: (string \<times> int jvalue) list"
  have p: "parse_doc run_lib (bytes_of ''a'') = Inr ?m" by (simp add: run_parse)
  have r: "storage.removable mem_services 31 mem_feeds mem_blobs run_lib run_floats (\<lambda>x. x) run_doc_ds run_doc_db ?m w"
    using w(4,5)
    by (simp add: storage.removable_def [OF mem_storage] run_doc_db_def run_doc_ds_def run_ds_def NewDocumentStore_def
        doc_keys_def field_keys_def run_idx_def)
  from doc_delete [OF mem_storage g o w(2) names_order_id w(3) p r] obtain ds' w' where
    q: "Doc_Del run_lib run_floats mem_services (\<lambda>x. x) run_doc_ds ''d'' ''a'' w = (Inr (), ds', w')"
    "\<forall>n lb f pw k. fst (Doc_Get n mem_services lb ds' f ''d'' k pw w') = (if k = ''a'' then Inl ErrEntryNotFound else fst (Doc_Get n mem_services lb run_doc_ds f ''d'' k pw w))"
    by (elim exE conjE) (rule that; assumption)
  have "fst (Doc_Get n mem_services lb ds' f ''d'' ''a'' pw w') = Inl ErrEntryNotFound" for n lb f pw using q(2) by simp
  with q(1) show ?thesis by blast
qed

end
