(* ===== verification/Addresses.thy ===== *)
theory Addresses
  imports FileModel Encodings
begin

text \<open>
  Addresses and references as texts, pkg/utils/address.go, utils.go, reference.go
  and sharing.go: an address is an array of 20 bytes, printed in hex (with the
  EIP-55 capitals by Hex) and read back by HexToAddress.  The Keccak hash is a
  parameter.
\<close>

section \<open>Addresses\<close>

definition AddressLength :: nat where "AddressLength = 20"

definition zero_address :: Address where "zero_address = replicate AddressLength 0"

definition SetBytes :: "bytes \<Rightarrow> Address \<Rightarrow> Address" where
  "SetBytes b a =
     (let b' = (if length b > length a then drop (length b - AddressLength) b else b) in
      take (AddressLength - length b') a @ b')"

definition bytesToAddress :: "bytes \<Rightarrow> Address" where
  "bytesToAddress b = SetBytes b zero_address"

text \<open>hex.DecodeString gives the bytes before the first bad digit along with its
  error, which hex2Bytes ignores; an odd digit at the end is dropped.\<close>

fun hex2Bytes :: "string \<Rightarrow> bytes" where
  "hex2Bytes (c # d # s) =
     (case (hex_value c, hex_value d) of
        (Some h, Some l) \<Rightarrow> of_nat (16 * h + l) # hex2Bytes s
      | _ \<Rightarrow> [])"
| "hex2Bytes s = []"

definition has0xPrefix :: "string \<Rightarrow> bool" where
  "has0xPrefix s \<longleftrightarrow> length s \<ge> 2 \<and> hd s = CHR ''0'' \<and> s ! 1 \<in> {CHR ''x'', CHR ''X''}"

definition fromHex :: "string \<Rightarrow> bytes" where
  "fromHex s =
     (let s1 = (if length s > 1 \<and> has0xPrefix s then drop 2 s else s);
          s2 = (if length s1 mod 2 = 1 then CHR ''0'' # s1 else s1) in
      hex2Bytes s2)"

definition HexToAddress :: "string \<Rightarrow> Address" where
  "HexToAddress s = bytesToAddress (fromHex s)"

definition Address_String :: "Address \<Rightarrow> string" where
  "Address_String a = HexEncode a"

text \<open>A letter becomes a capital when the digit of the hash at its place exceeds 7.\<close>

definition hash_digit :: "bytes \<Rightarrow> nat \<Rightarrow> nat" where
  "hash_digit sumHash i =
     (let b = unat (sumHash ! (i div 2)) in if i mod 2 = 0 then b div 16 else b mod 16)"

definition checksum_char :: "bytes \<Rightarrow> nat \<Rightarrow> char \<Rightarrow> char" where
  "checksum_char sumHash i c =
     (if (of_char c :: nat) > 57 \<and> hash_digit sumHash i > 7 then char_of ((of_char c :: nat) - 32) else c)"

definition Address_Hex :: "(string \<Rightarrow> bytes) \<Rightarrow> Address \<Rightarrow> string" where
  "Address_Hex keccak a =
     (let unchecksummed = HexEncode a; sumHash = keccak unchecksummed in
      ''0x'' @ map (\<lambda>i. checksum_char sumHash i (unchecksummed ! i)) [0..<length unchecksummed])"

section \<open>utils.Decode\<close>

definition Decode :: "string \<Rightarrow> bytes result" where
  "Decode input =
     (if input = [] then Inl (Sentinel ''empty hex string'')
      else if \<not> has0xPrefix input then Inl (Sentinel ''hex string without 0x prefix'')
      else case HexDecode (drop 2 input) of
        Some b \<Rightarrow> Inr b
      | None \<Rightarrow>
          if list_all (\<lambda>c. hex_value c \<noteq> None) (drop 2 input) then Inl (Sentinel ''hex string of odd length'')
          else Inl (Sentinel ''invalid hex string''))"

section \<open>References\<close>

definition referenceLength :: nat where "referenceLength = 32"
definition encryptedRefLength :: nat where "encryptedRefLength = 64"

definition ParseHexReference :: "string \<Rightarrow> bytes result" where
  "ParseHexReference s = (case HexDecode s of None \<Rightarrow> Inl (Errorf ''encoding/hex'') | Some b \<Rightarrow> Inr b)"

definition Reference_String :: "bytes \<Rightarrow> string" where
  "Reference_String r = HexEncode r"

record SharingReference =
  srRef :: bytes
  srTime :: int

text \<open>The time of the call decides where the reference ends and the time begins.\<close>

definition ParseSharingReference :: "int \<Rightarrow> string \<Rightarrow> SharingReference result" where
  "ParseSharingReference now s =
     (let timeLen = length (FormatInt now);
          refLen = (if length s > referenceLength * 2 + timeLen then encryptedRefLength * 2 else referenceLength * 2) in
      if length s < refLen + 1 then Inl (Errorf ''invalid reference length'')
      else case HexDecode (take refLen s) of
        None \<Rightarrow> Inl (Errorf ''encoding/hex'')
      | Some b \<Rightarrow>
          (case ParseInt (drop refLen s) of
             None \<Rightarrow> Inl (Errorf ''strconv.ParseInt'')
           | Some n \<Rightarrow> Inr \<lparr>srRef = b, srTime = n\<rparr>))"

definition SharingReference_String :: "SharingReference \<Rightarrow> string" where
  "SharingReference_String r = HexEncode (srRef r) @ FormatInt (srTime r)"

section \<open>Reading back\<close>

lemma hex2Bytes_Encode [simp]: "hex2Bytes (HexEncode b) = b"
proof (induction b)
  case (Cons x b)
  have "unat x < 256" using unsigned_less [of x] by simp
  then have "unat x div 16 < 16" "unat x mod 16 < 16" by auto
  moreover have "16 * (unat x div 16) + unat x mod 16 = unat x" by simp
  ultimately show ?case using Cons.IH by (simp add: HexEncode_def hex_value_digit del: of_nat_add of_nat_mult)
qed (simp add: HexEncode_def)

text \<open>A capital has the value of its small letter.\<close>

lemma of_char_small: "m < 256 \<Longrightarrow> (of_char (char_of m) :: nat) = m"
  by (simp add: of_char_of take_bit_nat_eq_self)

lemma hex_value_checksum:
  assumes "n < 16" shows "hex_value (checksum_char h i (hex_digit n)) = Some n"
proof (cases "n < 10 \<or> hash_digit h i \<le> 7")
  case True
  then have "checksum_char h i (hex_digit n) = hex_digit n"
    by (auto simp: checksum_char_def hex_digit_def of_char_small)
  then show ?thesis using hex_value_digit [OF assms] by simp
next
  case False
  then have "checksum_char h i (hex_digit n) = char_of (55 + n)"
    using assms by (simp add: checksum_char_def hex_digit_def of_char_small)
  then show ?thesis using False assms by (simp add: hex_value_def Let_def of_char_small)
qed

text \<open>hex2Bytes looks at the values of the characters only.\<close>

lemma hex2Bytes_cong:
  "map hex_value s = map hex_value t \<Longrightarrow> hex2Bytes s = hex2Bytes t"
proof (induction s arbitrary: t rule: hex2Bytes.induct)
  case (1 c d s)
  then obtain c' d' t' where t: "t = c' # d' # t'" "hex_value c = hex_value c'" "hex_value d = hex_value d'"
    "map hex_value s = map hex_value t'" by (auto simp: Cons_eq_map_conv)
  with 1 show ?case by (cases "hex_value c'"; cases "hex_value d'") simp_all
qed (auto simp: Cons_eq_map_conv)

lemma HexEncode_digit:
  assumes "i < length (HexEncode b)"
  obtains n where "n < 16" "HexEncode b ! i = hex_digit n"
proof -
  have "\<forall>c \<in> set (HexEncode b). \<exists>n < 16. c = hex_digit n"
  proof (induction b)
    case (Cons x b)
    have "unat x < 256" using unsigned_less [of x] by simp
    then have "unat x div 16 < 16" "unat x mod 16 < 16" by auto
    then have "\<exists>n < 16. hex_digit (unat x div 16) = hex_digit n" "\<exists>n < 16. hex_digit (unat x mod 16) = hex_digit n"
      by blast+
    then show ?case using Cons.IH by (simp add: HexEncode_def)
  qed (simp add: HexEncode_def)
  with assms that show thesis using nth_mem by blast
qed

lemma hex2Bytes_checksum:
  "hex2Bytes (map (\<lambda>i. checksum_char h i (HexEncode b ! i)) [0..<length (HexEncode b)]) = b"
proof -
  let ?s = "map (\<lambda>i. checksum_char h i (HexEncode b ! i)) [0..<length (HexEncode b)]"
  have "hex_value (?s ! i) = hex_value (HexEncode b ! i)" if "i < length (HexEncode b)" for i
  proof -
    note l = that
    obtain n where "n < 16" "HexEncode b ! i = hex_digit n" by (rule HexEncode_digit [OF l])
    with l show ?thesis by (simp add: hex_value_checksum hex_value_digit)
  qed
  then have "map hex_value ?s = map hex_value (HexEncode b)" by (intro nth_equalityI) simp_all
  then have "hex2Bytes ?s = hex2Bytes (HexEncode b)" by (rule hex2Bytes_cong)
  then show ?thesis by simp
qed

lemma bytesToAddress_id: "length a = AddressLength \<Longrightarrow> bytesToAddress a = a"
  by (simp add: bytesToAddress_def SetBytes_def zero_address_def)

lemma length_bytesToAddress [simp]: "length (bytesToAddress b) = AddressLength"
  by (simp add: bytesToAddress_def SetBytes_def zero_address_def Let_def)

lemma hex_not_x: "n < 16 \<Longrightarrow> hex_digit n \<notin> {CHR ''x'', CHR ''X''}"
proof
  assume n: "n < 16" and "hex_digit n \<in> {CHR ''x'', CHR ''X''}"
  moreover have "hex_value (CHR ''x'') = None" "hex_value (CHR ''X'') = None" by (simp_all add: hex_value_def)
  ultimately have "hex_value (hex_digit n) = None" by auto
  with hex_value_digit [OF n] show False by simp
qed

lemma no_prefix_HexEncode: "\<not> has0xPrefix (HexEncode a)"
proof
  assume p: "has0xPrefix (HexEncode a)"
  then have "1 < length (HexEncode a)" by (simp add: has0xPrefix_def)
  then obtain n where "n < 16" "HexEncode a ! 1 = hex_digit n" by (rule HexEncode_digit)
  with p hex_not_x show False by (metis has0xPrefix_def)
qed

lemma HexToAddress_Hex:
  assumes "length a = AddressLength" shows "HexToAddress (Address_Hex keccak a) = a"
proof -
  have "fromHex (Address_Hex keccak a) = hex2Bytes (drop 2 (Address_Hex keccak a))"
    by (simp add: fromHex_def Address_Hex_def Let_def has0xPrefix_def)
  also have "\<dots> = a" using hex2Bytes_checksum by (simp add: Address_Hex_def Let_def)
  finally show ?thesis using assms by (simp add: HexToAddress_def bytesToAddress_id)
qed

lemma Address_Hex_inj:
  "\<lbrakk>Address_Hex keccak a = Address_Hex keccak b; length a = AddressLength; length b = AddressLength\<rbrakk> \<Longrightarrow> a = b"
  using HexToAddress_Hex by metis

text \<open>The zero address has no letters, so that no hash changes it.\<close>

lemma Address_Hex_zero: "Address_Hex keccak zero_address = ''0x'' @ replicate 40 CHR ''0''"
proof -
  have zero: "char_of (48 :: nat) = CHR ''0''" by code_simp
  have h: "HexEncode (replicate n 0) = replicate (2 * n) CHR ''0''" for n
    by (induction n) (simp_all add: HexEncode_def hex_digit_def zero)
  have c: "checksum_char x i (CHR ''0'') = CHR ''0''" for x i by (simp add: checksum_char_def)
  have z: "HexEncode zero_address = replicate 40 CHR ''0''" using h [of 20] by (simp add: zero_address_def AddressLength_def)
  have "map (\<lambda>i. checksum_char (keccak (replicate 40 CHR ''0'')) i (replicate 40 CHR ''0'' ! i)) [0..<40]
      = map (\<lambda>i. CHR ''0'') [0..<40]"
    by (rule map_cong) (simp_all add: c)
  also have "\<dots> = replicate 40 CHR ''0''" by (simp add: map_replicate_const)
  finally show ?thesis by (simp only: Address_Hex_def Let_def z length_replicate)
qed

text \<open>C34: addresses are read back.\<close>

theorem HexToAddress_round_trip:
  assumes "length a = AddressLength"
  shows "HexToAddress (Address_String a) = a \<and> HexToAddress (Address_Hex keccak a) = a"
  using assms HexToAddress_Hex
  by (simp add: HexToAddress_def fromHex_def Address_String_def no_prefix_HexEncode bytesToAddress_id)

lemma HexToAddress_round_trip_witness:
  "HexToAddress (Address_String (replicate 20 0xAB)) = replicate 20 0xAB
     \<and> HexToAddress (Address_Hex (\<lambda>s. replicate 32 0xF0) (replicate 20 0xAB)) = replicate 20 0xAB"
  by (rule HexToAddress_round_trip) (simp add: AddressLength_def)

text \<open>Every text gives an address of 20 bytes.\<close>

lemma HexToAddress_length: "length (HexToAddress s) = AddressLength"
  by (simp add: HexToAddress_def)

section \<open>Sharing references\<close>

lemma digit_char: "n < 10 \<Longrightarrow> digit (char_of (48 + n)) = Some n"
  by (simp add: digit_def Let_def of_char_of take_bit_nat_eq_self)

lemma digits_not_Nil [simp]: "digits n \<noteq> []"
  by (subst digits.simps) simp

lemma parse_digits_digits: "parse_digits (digits n) = Some n"
proof (induction n rule: digits.induct)
  case (1 n)
  let ?f = "\<lambda>acc c. case acc of None \<Rightarrow> None
                    | Some n \<Rightarrow> (case digit c of None \<Rightarrow> None | Some d \<Rightarrow> Some (10 * n + d))"
  show ?case
  proof (cases "n < 10")
    case True
    then show ?thesis using digit_char by (subst digits.simps) (simp add: parse_digits_def)
  next
    case False
    then have "foldl ?f (Some 0) (digits (n div 10)) = Some (n div 10)" using 1 by (simp add: parse_digits_def)
    with False show ?thesis using digit_char [of "n mod 10"] by (subst digits.simps) (simp add: parse_digits_def)
  qed
qed

lemma digits_head: "hd (digits n) \<notin> {CHR ''-'', CHR ''+''}"
proof (induction n rule: digits.induct)
  case (1 n)
  have c: "char_of (48 + d) \<notin> {CHR ''-'', CHR ''+''}" if "d < 10" for d :: nat
  proof -
    have "digit (CHR ''-'') = None" "digit (CHR ''+'') = None" by (simp_all add: digit_def)
    then show ?thesis using digit_char [OF that] by auto
  qed
  show ?case using 1 c [of n] by (subst digits.simps) (cases "n < 10"; simp)
qed

lemma ParseInt_FormatInt: "\<lbrakk>0 \<le> n; n < 2 ^ 63\<rbrakk> \<Longrightarrow> ParseInt (FormatInt n) = Some n"
proof -
  assume n: "0 \<le> n" "n < 2 ^ 63"
  obtain c cs where d: "digits (nat n) = c # cs" using digits_not_Nil by (cases "digits (nat n)") auto
  with digits_head [of "nat n"] have "c \<noteq> CHR ''-''" "c \<noteq> CHR ''+''" by auto
  with d n parse_digits_digits [of "nat n"] show ?thesis by (simp add: ParseInt_def FormatInt_def)
qed

text \<open>C35: sharing references are read back as long as the clock shows as many digits
  as the time in the reference.\<close>

theorem ParseSharingReference_round_trip:
  assumes "length (srRef r) = referenceLength \<or> length (srRef r) = encryptedRefLength"
    and "0 \<le> srTime r" "srTime r < 2 ^ 63" "length (FormatInt now) = length (FormatInt (srTime r))"
  shows "ParseSharingReference now (SharingReference_String r) = Inr r"
proof -
  have "FormatInt (srTime r) \<noteq> []" using assms(2) by (simp add: FormatInt_def)
  then have "0 < length (FormatInt (srTime r))" by simp
  then show ?thesis
    using assms ParseInt_FormatInt [OF assms(2,3)]
    by (auto simp: ParseSharingReference_def SharingReference_String_def Let_def referenceLength_def encryptedRefLength_def)
qed

lemma ParseSharingReference_round_trip_witness:
  "ParseSharingReference 17 (SharingReference_String \<lparr>srRef = replicate 32 7, srTime = 42\<rparr>) = Inr \<lparr>srRef = replicate 32 7, srTime = 42\<rparr>"
  by (rule ParseSharingReference_round_trip) (simp_all add: referenceLength_def FormatInt_def digits.simps)

text \<open>A reference made when the time had fewer digits is taken for an encrypted one.\<close>

lemma ParseSharingReference_too_early:
  "ParseSharingReference 7 (SharingReference_String \<lparr>srRef = replicate 32 7, srTime = 42\<rparr>) = Inl (Errorf ''invalid reference length'')"
  by (simp add: ParseSharingReference_def SharingReference_String_def Let_def referenceLength_def encryptedRefLength_def FormatInt_def digits.simps)

end
