(* ===== verification/Accounts.thy ===== *)
theory Accounts
  imports Addresses FeedApi
begin

text \<open>
  Accounts, pkg/account/account.go and wallet.go: the key pair of the user, the
  key pairs derived from the seed of the wallet for the pods, and the portable
  form of the seed, padded to exactly one chunk.

  Code outside the repository is a parameter: the HD wallet and the BIP-39 word
  list (hdlib; a wallet is given by its seed, an account by its path), the random
  bytes, and the bytes of a text (padded chunks are encrypted, and what a wrong
  password gives is arbitrary).
\<close>

section \<open>Wallets\<close>

record hdlib =
  NewFromSeed :: "bytes \<Rightarrow> unit result"
  Derive :: "bytes \<Rightarrow> string \<Rightarrow> unit result"
  PrivateKey :: "bytes \<Rightarrow> string \<Rightarrow> bytes result"
  PublicKey :: "bytes \<Rightarrow> string \<Rightarrow> bytes result"
  NewEthereumAddress :: "bytes \<Rightarrow> bytes result"
  NewEntropy :: "bytes result"
  NewMnemonic :: "bytes \<Rightarrow> string result"
  NewFromMnemonic :: "string \<Rightarrow> bytes result"
  NewSeedFromMnemonic :: "string \<Rightarrow> bytes result"
  IsMnemonicValid :: "string \<Rightarrow> bool"

definition rootPath :: string where "rootPath = ''m/44'/60'/0'/0/0''"
definition genericPath :: string where "genericPath = ''m/44'/60'/0'/0/''"

record Wallet =
  waSeed :: "bytes option"

definition newWallet :: "bytes option \<Rightarrow> Wallet" where
  "newWallet seed = \<lparr>waSeed = seed\<rparr>"

text \<open>strings.Split at every space.\<close>

fun Split_space :: "string \<Rightarrow> string list" where
  "Split_space [] = [[]]"
| "Split_space (c # s) =
     (if c = CHR '' '' then [] # Split_space s
      else case Split_space s of [] \<Rightarrow> [[c]] | w # ws \<Rightarrow> (c # w) # ws)"

definition IsValidMnemonic :: "hdlib \<Rightarrow> string \<Rightarrow> unit result" where
  "IsValidMnemonic wl mnemonic =
     (if length (Split_space mnemonic) \<noteq> 12 then Inl (Errorf ''number of word in mnemonic is not 12'')
      else if \<not> IsMnemonicValid wl mnemonic then Inl (Errorf ''one or more of the mnemonic words is not in bip39 word list'')
      else Inr ())"

definition LoadMnemonicAndCreateRootAccount :: "hdlib \<Rightarrow> string \<Rightarrow> Wallet \<Rightarrow> string result \<times> Wallet" where
  "LoadMnemonicAndCreateRootAccount wl mnemonic w =
     (case NewEntropy wl of Inl e \<Rightarrow> (Inl e, w) | Inr entropy \<Rightarrow>
      case (if mnemonic = [] then NewMnemonic wl entropy
            else case IsValidMnemonic wl mnemonic of Inl e \<Rightarrow> Inl e | Inr u \<Rightarrow> Inr mnemonic) of
        Inl e \<Rightarrow> (Inl e, w) | Inr mn \<Rightarrow>
      case NewFromMnemonic wl mn of Inl e \<Rightarrow> (Inl e, w) | Inr wallet \<Rightarrow>
      case Derive wl wallet rootPath of Inl e \<Rightarrow> (Inl e, w) | Inr u \<Rightarrow>
      case NewSeedFromMnemonic wl mn of Inl e \<Rightarrow> (Inl e, w) | Inr seed \<Rightarrow>
      (Inr mn, w\<lparr>waSeed := Some seed\<rparr>))"

definition CreateAccountFromSeed :: "hdlib \<Rightarrow> string \<Rightarrow> bytes \<Rightarrow> Wallet \<Rightarrow> string result \<times> Wallet" where
  "CreateAccountFromSeed wl walletPath seed w =
     (case NewFromSeed wl seed of Inl e \<Rightarrow> (Inl e, w) | Inr u \<Rightarrow>
      case Derive wl seed walletPath of Inl e \<Rightarrow> (Inl e, w) | Inr u \<Rightarrow>
      (Inr walletPath, w\<lparr>waSeed := Some seed\<rparr>))"

section \<open>Accounts\<close>

record AccInfo =
  aiKey :: "bytes option"
  aiPublic :: "bytes option"
  aiAddress :: Address

record Account =
  acWallet :: Wallet
  acUser :: AccInfo
  acPods :: "int \<rightharpoonup> AccInfo"

definition GetEmptyAccountInfo :: AccInfo where
  "GetEmptyAccountInfo = \<lparr>aiKey = None, aiPublic = None, aiAddress = zero_address\<rparr>"

definition NewAccount :: Account where
  "NewAccount = \<lparr>acWallet = newWallet None, acUser = GetEmptyAccountInfo, acPods = Map.empty\<rparr>"

definition UserAccountIndex :: int where "UserAccountIndex = -1"

definition IsReadOnlyPod :: "AccInfo \<Rightarrow> bool" where
  "IsReadOnlyPod ai = (aiKey ai = None)"

definition SetAddress :: "Address \<Rightarrow> AccInfo \<Rightarrow> AccInfo" where
  "SetAddress a ai = ai\<lparr>aiAddress := a\<rparr>"

text \<open>The three fields are set one after the other, an error leaves nil behind.\<close>

definition set_keys :: "hdlib \<Rightarrow> bytes \<Rightarrow> string \<Rightarrow> AccInfo \<Rightarrow> unit result \<times> AccInfo" where
  "set_keys wl seed acc ai =
     (case PrivateKey wl seed acc of Inl e \<Rightarrow> (Inl e, ai\<lparr>aiKey := None\<rparr>) | Inr k \<Rightarrow>
      let ai1 = ai\<lparr>aiKey := Some k\<rparr> in
      case PublicKey wl seed acc of Inl e \<Rightarrow> (Inl e, ai1\<lparr>aiPublic := None\<rparr>) | Inr p \<Rightarrow>
      let ai2 = ai1\<lparr>aiPublic := Some p\<rparr> in
      case NewEthereumAddress wl k of Inl e \<Rightarrow> (Inl e, ai2) | Inr addrBytes \<Rightarrow>
      (Inr (), ai2\<lparr>aiAddress := SetBytes addrBytes (aiAddress ai2)\<rparr>))"

definition CreateUserAccount :: "hdlib \<Rightarrow> string \<Rightarrow> Account \<Rightarrow> (string \<times> bytes) result \<times> Account" where
  "CreateUserAccount wl mnemonic a =
     (case LoadMnemonicAndCreateRootAccount wl mnemonic (newWallet None) of
        (Inl e, wal) \<Rightarrow> (Inl e, a\<lparr>acWallet := wal\<rparr>)
      | (Inr mn, wal) \<Rightarrow>
          let a1 = a\<lparr>acWallet := wal\<rparr> in
          case NewFromMnemonic wl mn of Inl e \<Rightarrow> (Inl e, a1) | Inr hdw \<Rightarrow>
          case set_keys wl hdw rootPath (acUser a1) of
            (Inl e, ai) \<Rightarrow> (Inl e, a1\<lparr>acUser := ai\<rparr>)
          | (Inr u, ai) \<Rightarrow>
              (case NewSeedFromMnemonic wl mn of
                 Inl e \<Rightarrow> (Inl e, a1\<lparr>acUser := ai\<rparr>)
               | Inr seed \<Rightarrow> (Inr (mn, seed), a1\<lparr>acUser := ai\<rparr>)))"

definition LoadUserAccountFromSeed :: "hdlib \<Rightarrow> bytes \<Rightarrow> Account \<Rightarrow> unit result \<times> Account" where
  "LoadUserAccountFromSeed wl seed a =
     (case CreateAccountFromSeed wl rootPath seed (acWallet a) of
        (Inl e, wal) \<Rightarrow> (Inl e, a\<lparr>acWallet := wal\<rparr>)
      | (Inr acc, wal) \<Rightarrow>
          let a1 = a\<lparr>acWallet := wal\<rparr> in
          case NewFromSeed wl seed of Inl e \<Rightarrow> (Inl e, a1) | Inr hdw \<Rightarrow>
          case set_keys wl seed acc (acUser a1) of (r, ai) \<Rightarrow> (r, a1\<lparr>acUser := ai\<rparr>))"

text \<open>Without a seed the wallet of the HD library stays nil.\<close>

definition CreatePodAccount :: "hdlib \<Rightarrow> int \<Rightarrow> Account \<Rightarrow> AccInfo result \<times> Account" where
  "CreatePodAccount wl accountId a =
     (case acPods a accountId of
        Some acc \<Rightarrow> (Inr acc, a)
      | None \<Rightarrow>
          (case waSeed (acWallet a) of
             None \<Rightarrow> (Inl (Panic ''nil pointer dereference''), a)
           | Some seed \<Rightarrow>
               (case CreateAccountFromSeed wl (genericPath @ FormatInt accountId) seed (acWallet a) of
                  (Inl e, wal) \<Rightarrow> (Inl e, a\<lparr>acWallet := wal\<rparr>)
                | (Inr acc, wal) \<Rightarrow>
                    let a1 = a\<lparr>acWallet := wal\<rparr> in
                    case NewFromSeed wl seed of Inl e \<Rightarrow> (Inl e, a1) | Inr hdw \<Rightarrow>
                    case set_keys wl seed acc GetEmptyAccountInfo of
                      (Inl e, ai) \<Rightarrow> (Inl e, a1)
                    | (Inr u, ai) \<Rightarrow> (Inr ai, a1\<lparr>acPods := (acPods a1)(accountId \<mapsto> ai)\<rparr>))))"

definition DeletePodAccount :: "int \<Rightarrow> Account \<Rightarrow> Account" where
  "DeletePodAccount accountId a = a\<lparr>acPods := (acPods a)(accountId := None)\<rparr>"

text \<open>The address of a pod account that is not loaded is read through nil.\<close>

definition GetAddress :: "Account \<Rightarrow> int \<Rightarrow> Address result" where
  "GetAddress a index =
     (if index = UserAccountIndex then Inr (aiAddress (acUser a))
      else case acPods a index of
        None \<Rightarrow> Inl (Panic ''nil pointer dereference'') | Some ai \<Rightarrow> Inr (aiAddress ai))"

section \<open>Portable accounts\<close>

definition seedSize :: nat where "seedSize = 64"
definition usernameLengthSize :: nat where "usernameLengthSize = 1"
definition aesBlockSize :: nat where "aesBlockSize = 16"

definition PadSeed :: "(nat \<Rightarrow> bytes result) \<Rightarrow> bytes \<Rightarrow> string \<Rightarrow> content result" where
  "PadSeed rand seed passphrase =
     (let paddingLength = MaxChunkLength - aesBlockSize - seedSize in
      case rand paddingLength of Inl e \<Rightarrow> Inl e | Inr randomBytes \<Rightarrow>
      Inr (EncryptBytes (bytes_of passphrase) (Raw (seed @ randomBytes))))"

definition RemovePadFromSeed :: "('n, 'k) bee \<Rightarrow> (content \<Rightarrow> bytes) \<Rightarrow> content \<Rightarrow> string \<Rightarrow> bytes result" where
  "RemovePadFromSeed bc data_of paddedSeed passphrase =
     (case DecryptBytes bc (bytes_of passphrase) paddedSeed of
        Inl e \<Rightarrow> Inl (Errorf ''seed decryption failed'')
      | Inr d \<Rightarrow>
          if length (data_of d) < seedSize then Inl (Panic ''slice bounds out of range'')
          else Inr (take seedSize (data_of d)))"

definition PadSeedName :: "(nat \<Rightarrow> bytes result) \<Rightarrow> bytes \<Rightarrow> string \<Rightarrow> string \<Rightarrow> content result" where
  "PadSeedName rand seed username passphrase =
     (if length username > 255 then Inl (Errorf ''username length is too long'') else
      let paddingLength = MaxChunkLength - aesBlockSize - seedSize - usernameLengthSize - length username in
      case rand paddingLength of Inl e \<Rightarrow> Inl e | Inr randomBytes \<Rightarrow>
      Inr (EncryptBytes (bytes_of passphrase)
        (Raw (seed @ [of_nat (length username)] @ bytes_of username @ randomBytes))))"

definition RemovePadFromSeedName ::
  "('n, 'k) bee \<Rightarrow> (content \<Rightarrow> bytes) \<Rightarrow> content \<Rightarrow> string \<Rightarrow> (bytes \<times> string) result" where
  "RemovePadFromSeedName bc data_of paddedSeed passphrase =
     (case DecryptBytes bc (bytes_of passphrase) paddedSeed of
        Inl e \<Rightarrow> Inl (Errorf ''seed decryption failed'')
      | Inr d \<Rightarrow>
          let decryptedBytes = data_of d in
          if length decryptedBytes \<le> seedSize then Inl (Panic ''index out of range'') else
          let usernameLength = unat (decryptedBytes ! seedSize); start = seedSize + usernameLengthSize in
          if length decryptedBytes < start + usernameLength then Inl (Panic ''slice bounds out of range'')
          else Inr (take seedSize decryptedBytes, string_of (take usernameLength (drop start decryptedBytes))))"

section \<open>Lemmas\<close>

lemma set_keys_ok:
  assumes "set_keys wl seed acc ai = (Inr u, ai')"
  shows "aiKey ai' \<noteq> None \<and> aiPublic ai' \<noteq> None"
  using assms by (auto simp: set_keys_def Let_def split: sum.splits)

text \<open>A pod account that was handed out stays the same until it is deleted.\<close>

lemma CreatePodAccount_ok:
  assumes "CreatePodAccount wl i a = (Inr ai, a')"
  shows "acPods a' i = Some ai \<and> GetAddress a' i = (if i = UserAccountIndex then Inr (aiAddress (acUser a)) else Inr (aiAddress ai))
    \<and> acUser a' = acUser a \<and> (\<forall>j. j \<noteq> i \<longrightarrow> acPods a' j = acPods a j)"
  using assms
  by (auto simp: CreatePodAccount_def CreateAccountFromSeed_def GetAddress_def Let_def
        split: option.splits sum.splits prod.splits)

lemma CreatePodAccount_error:
  assumes "CreatePodAccount wl i a = (Inl e, a')"
  shows "acPods a' = acPods a \<and> acUser a' = acUser a"
  using assms
  by (auto simp: CreatePodAccount_def CreateAccountFromSeed_def Let_def split: option.splits sum.splits prod.splits)

lemma CreatePodAccount_again:
  "acPods a i = Some ai \<Longrightarrow> CreatePodAccount wl i a = (Inr ai, a)"
  by (simp add: CreatePodAccount_def)

text \<open>C36: a padded account fills a chunk exactly, whatever the length of the name, and is
  read back with the same passphrase; longer names are refused.\<close>

theorem PadSeedName_fits:
  assumes "length seed = seedSize" "\<And>n. \<exists>r. rand n = Inr r \<and> length r = n" "\<And>b. data_of (Raw b) = b"
  shows "if length username > 255 then PadSeedName rand seed username pass = Inl (Errorf ''username length is too long'')
    else \<exists>c. PadSeedName rand seed username pass = Inr c \<and> clen bc c = MaxChunkLength
      \<and> RemovePadFromSeedName bc data_of c pass = Inr (seed, username)"
proof (cases "length username > 255")
  case False
  define n where "n = MaxChunkLength - aesBlockSize - seedSize - usernameLengthSize - length username"
  obtain r where r: "rand n = Inr r" "length r = n" using assms(2) by blast
  have n: "n + length username = 4015"
    using False by (simp add: n_def MaxChunkLength_def aesBlockSize_def seedSize_def usernameLengthSize_def)
  have u: "unat (of_nat (length username) :: byte) = length username"
    using False by (simp add: unat_of_nat take_bit_nat_eq_self)
  define d where "d = seed @ [of_nat (length username)] @ bytes_of username @ r"
  have len: "length (bytes_of username) = length username" by (simp add: bytes_of_def)
  have d: "length d = 4080" "take seedSize d = seed" "d ! seedSize = of_nat (length username)"
    "take (length username) (drop (seedSize + usernameLengthSize) d) = bytes_of username"
    using assms(1) r(2) n len by (simp_all add: d_def seedSize_def usernameLengthSize_def nth_append)
  let ?c = "Sealed (bytes_of pass) (Raw d)"
  have "PadSeedName rand seed username pass = Inr ?c"
    using False r(1) unfolding PadSeedName_def Let_def n_def [symmetric] by (simp add: EncryptBytes_def d_def)
  moreover have l: "clen bc ?c = MaxChunkLength" using d(1) by (simp add: MaxChunkLength_def)
  moreover have "DecryptBytes bc (bytes_of pass) ?c = Inr (Raw d)"
    using d(1) by (simp add: DecryptBytes_def)
  moreover have "seedSize + usernameLengthSize + length username \<le> 4080" "seedSize < 4080"
    using False by (simp_all add: seedSize_def usernameLengthSize_def)
  ultimately show ?thesis
    using False d u assms(3) by (simp add: RemovePadFromSeedName_def Let_def)
qed (simp add: PadSeedName_def)

lemma PadSeedName_fits_witness:
  "\<forall>bc :: (unit, unit) bee. \<exists>c. PadSeedName (\<lambda>n. Inr (replicate n 65)) (replicate 64 7) ''alice'' ''secret'' = Inr c \<and> clen bc c = MaxChunkLength
      \<and> RemovePadFromSeedName bc (\<lambda>c. case c of Raw b \<Rightarrow> b | _ \<Rightarrow> []) c ''secret'' = Inr (replicate 64 7, ''alice'')"
proof
  fix bc :: "(unit, unit) bee"
  show "\<exists>c. PadSeedName (\<lambda>n. Inr (replicate n 65)) (replicate 64 7) ''alice'' ''secret'' = Inr c \<and> clen bc c = MaxChunkLength
      \<and> RemovePadFromSeedName bc (\<lambda>c. case c of Raw b \<Rightarrow> b | _ \<Rightarrow> []) c ''secret'' = Inr (replicate 64 7, ''alice'')"
    using PadSeedName_fits [of "replicate 64 7" "\<lambda>n. Inr (replicate n 65)" "\<lambda>c. case c of Raw b \<Rightarrow> b | _ \<Rightarrow> []" "''alice''" "''secret''" bc]
    by (simp add: seedSize_def)
qed

end
