(* ===== verification/PodModel.thy ===== *)
theory PodModel
  imports DirOps KV DocModel Accounts
begin

text \<open>
  Pods, pkg/pod.  A user's pods are listed in a file of the user, encrypted with
  the user's private key: PodsV2, and before it the feed Pods.  An own pod has an
  account derived from the user's seed at the pod's index, a shared pod only the
  address of its owner's account.  Pod keeps the account of the user and the pods
  that are open, by name (podMap); an Info holds the directory tree, the tables
  and the document databases of an open pod.

  The feed object of an account is given by the account (peFeed): its handler and
  cache are part of the world.  The other fields of podenv are the libraries.
\<close>

section \<open>Texts stored as files\<close>

definition NewFile :: "Address \<Rightarrow> File" where
  "NewFile user = \<lparr>flUser = user, flMap = Map.empty\<rparr>"

definition upload_text ::
  "'w services \<Rightarrow> libs \<Rightarrow> (nat \<Rightarrow> bool) \<Rightarrow> Address \<Rightarrow> string \<Rightarrow> bytes \<Rightarrow> string \<Rightarrow> 'w \<Rightarrow> unit result \<times> 'w" where
  "upload_text sv lb late user name data pw w =
     (case Upload sv lb late (NewFile user) [data] name (of_nat (length data)) (of_nat MinBlockSize) 0
        ''/'' ''gzip'' pw w of (r, f2, w1) \<Rightarrow> (r, w1))"

definition download_text ::
  "'w services \<Rightarrow> libs \<Rightarrow> Address \<Rightarrow> string \<Rightarrow> string \<Rightarrow> 'w \<Rightarrow> bytes result \<times> 'w" where
  "download_text sv lb user topic pw w =
     (case Download sv (NewFile user) topic pw w of
        (Inl e, f2, w1) \<Rightarrow> (Inl e, w1)
      | (Inr (r, n), f2, w1) \<Rightarrow> (case read_all (Suc n) sv lb 0 [] r w1 of (d, r1, w2) \<Rightarrow> (d, w2)))"

section \<open>Pods\<close>

abbreviation "ErrInvalidPodName \<equiv> Sentinel ''pod does not exist''"
abbreviation "ErrTooLongPodName \<equiv> Sentinel ''pod name too long''"
abbreviation "ErrPodAlreadyExists \<equiv> Sentinel ''pod already exists''"
abbreviation "ErrMaxPodsReached \<equiv> Sentinel ''max number of pods reached''"
abbreviation "errFeedAbsent \<equiv> Sentinel ''feed does not exist or was not updated yet''"

definition maxPodId :: nat where "maxPodId = 65535"
definition MaxPodNameLength :: nat where "MaxPodNameLength = 64"
definition podFile :: string where "podFile = ''Pods''"
definition podFileV2 :: string where "podFileV2 = ''PodsV2''"

record ('w, 'f, 'v) podenv =
  peFeed :: "AccInfo \<Rightarrow> 'w services"
  peCommit :: "AccInfo \<Rightarrow> 'w \<Rightarrow> unit result \<times> 'w"
  peWallet :: hdlib
  peLibs :: libs
  peJson :: json
  peListV1 :: "content \<Rightarrow> PodList option"
  peShareInfo :: "content \<Rightarrow> ShareInfo option"
  peDocs :: "('f, 'v) doclib"
  peLate :: "nat \<Rightarrow> bool"
  peTables :: "kvtables \<Rightarrow> kvtables"
  peDBs :: "string list \<Rightarrow> string list"
  peInodes :: "nat \<Rightarrow> Inode"
  peIndexes :: "nat \<Rightarrow> Index"

record Info =
  inName :: string
  inPassword :: string
  inUser :: Address
  inDir :: Directory
  inAccount :: AccInfo
  inFeed :: AccInfo
  inKV :: KeyValue
  inDoc :: DocStore

record Pod =
  pdAccount :: Account
  podMap :: "string \<rightharpoonup> Info"

definition NewPod :: "Account \<Rightarrow> Pod" where
  "NewPod acc = \<lparr>pdAccount = acc, podMap = Map.empty\<rparr>"

definition addPodToPodMap :: "string \<Rightarrow> Info \<Rightarrow> Pod \<Rightarrow> Pod" where
  "addPodToPodMap podName podInfo p = p\<lparr>podMap := (podMap p)(podName \<mapsto> podInfo)\<rparr>"

definition removePodFromPodMap :: "string \<Rightarrow> Pod \<Rightarrow> Pod" where
  "removePodFromPodMap podName p = p\<lparr>podMap := (podMap p)(podName := None)\<rparr>"

definition GetPodInfoFromPodMap :: "Pod \<Rightarrow> string \<Rightarrow> Info result" where
  "GetPodInfoFromPodMap p podName =
     (case podMap p podName of Some i \<Rightarrow> Inr i | None \<Rightarrow> Inl (Errorf ''could not find pod''))"

text \<open>The user's own feed object, and the objects of a pod over its feed.\<close>

abbreviation user_feed :: "('w, 'f, 'v) podenv \<Rightarrow> Pod \<Rightarrow> 'w services" where
  "user_feed env p \<equiv> peFeed env (acUser (pdAccount p))"

definition user_secret :: "AccInfo \<Rightarrow> string" where
  "user_secret ai = HexEncode (case aiKey ai of None \<Rightarrow> [] | Some k \<Rightarrow> k)"

definition new_info :: "('w, 'f, 'v) podenv \<Rightarrow> string \<Rightarrow> string \<Rightarrow> Address \<Rightarrow> AccInfo \<Rightarrow> AccInfo \<Rightarrow> Info" where
  "new_info env podName pw user ai fd =
     \<lparr>inName = podName, inPassword = pw, inUser = user,
      inDir = NewDirectory (aiAddress fd) (NewFile (aiAddress fd)) (peInodes env),
      inAccount = ai, inFeed = fd,
      inKV = NewKeyValueStore podName user (peIndexes env),
      inDoc = NewDocumentStore podName user (peIndexes env)\<rparr>"

text \<open>The account of a pod that was shared: an address without keys.\<close>

definition shared_account :: "string \<Rightarrow> AccInfo" where
  "shared_account addressString = SetAddress (HexToAddress addressString) GetEmptyAccountInfo"

definition CleanPodName :: "string \<Rightarrow> string result" where
  "CleanPodName podName =
     (if podName = [] then Inl ErrInvalidPodName
      else if length podName > MaxPodNameLength then Inl ErrTooLongPodName
      else Inr (TrimSpace podName))"

section \<open>The list of the pods\<close>

definition checkIfPodPresent :: "PodList \<Rightarrow> string \<Rightarrow> bool" where
  "checkIfPodPresent l podName = list_ex (\<lambda>p. lName p = podName) (Pods l)"

definition checkIfSharedPodPresent :: "PodList \<Rightarrow> string \<Rightarrow> bool" where
  "checkIfSharedPodPresent l podName = list_ex (\<lambda>p. sName p = podName) (SharedPods l)"

definition getIndexPassword :: "PodList \<Rightarrow> string \<Rightarrow> int \<times> string" where
  "getIndexPassword l podName =
     (case List.find (\<lambda>p. lName p = podName) (Pods l) of Some p \<Rightarrow> (lIndex p, lPassword p) | None \<Rightarrow> (-1, []))"

definition getSharedAddressPassword :: "PodList \<Rightarrow> string \<Rightarrow> string \<times> string" where
  "getSharedAddressPassword l podName =
     (case List.find (\<lambda>p. sName p = podName) (SharedPods l) of Some p \<Rightarrow> (sAddress p, sPassword p) | None \<Rightarrow> ([], []))"

text \<open>The smallest positive index that no pod has.\<close>

definition getFreeId :: "(int \<rightharpoonup> string) \<Rightarrow> int result" where
  "getFreeId pods =
     (case List.find (\<lambda>i. pods (int i) = None \<and> i \<noteq> 0) [0..<maxPodId] of
        Some i \<Rightarrow> Inr (int i) | None \<Rightarrow> Inl ErrMaxPodsReached)"

definition pod_indexes :: "PodList \<Rightarrow> (int \<rightharpoonup> string)" where
  "pod_indexes l = fold (\<lambda>p m. m(lIndex p \<mapsto> lName p)) (Pods l) Map.empty"

text \<open>A range loop over a slice that deletes from the slice: the loop reads the
  array behind the slice, which the deletions shift, up to the length the slice
  had at the start; m is the length the slice has now.\<close>

primrec delete_ranging :: "('a \<Rightarrow> bool) \<Rightarrow> nat \<Rightarrow> nat \<Rightarrow> 'a list \<Rightarrow> nat \<Rightarrow> nat option \<Rightarrow> ('a list \<times> nat option) result" where
  "delete_ranging P 0 i arr m found = Inr (take m arr, found)"
| "delete_ranging P (Suc k) i arr m found =
     (if \<not> P (arr ! i) then delete_ranging P k (Suc i) arr m found
      else if Suc i > m then Inl (Panic ''slice bounds out of range'')
      else delete_ranging P k (Suc i) (take i arr @ drop (Suc i) (take m arr) @ drop (m - 1) arr) (m - 1) (Some i))"

definition delete_items :: "('a \<Rightarrow> bool) \<Rightarrow> 'a list \<Rightarrow> ('a list \<times> nat option) result" where
  "delete_items P xs = delete_ranging P (length xs) 0 xs (length xs) None"

definition loadUserPods :: "('w, 'f, 'v) podenv \<Rightarrow> Pod \<Rightarrow> 'w \<Rightarrow> PodList result \<times> 'w" where
  "loadUserPods env p w =
     (let sv = user_feed env p; u = acUser (pdAccount p); none = \<lparr>Pods = [], SharedPods = []\<rparr> in
      case GetFeedData sv (HashString sv podFile) (aiAddress u) (bytes_of (user_secret u)) w of
        (Inl e, w1) \<Rightarrow> if e \<noteq> errFeedAbsent then (Inl e, w1) else (Inr none, w1)
      | (Inr (a, data), w1) \<Rightarrow>
          if content_len sv data = 0 then (Inr none, w1)
          else (case peListV1 env data of None \<Rightarrow> (Inl (Errorf ''json''), w1) | Some l \<Rightarrow> (Inr l, w1)))"

definition loadUserPodsV2 :: "('w, 'f, 'v) podenv \<Rightarrow> Pod \<Rightarrow> 'w \<Rightarrow> PodList result \<times> 'w" where
  "loadUserPodsV2 env p w =
     (let u = acUser (pdAccount p) in
      case download_text (user_feed env p) (peLibs env) (aiAddress u) (CombinePathAndFile [] podFileV2) (user_secret u) w of
        (Inl e, w1) \<Rightarrow> (Inl e, w1)
      | (Inr data, w1) \<Rightarrow>
          if data = [] then (Inr \<lparr>Pods = [], SharedPods = []\<rparr>, w1)
          else (case UnmarshalPodList (peJson env) data of
                  None \<Rightarrow> (Inl (Errorf ''json''), w1) | Some l \<Rightarrow> (Inr l, w1)))"

definition storeUserPodsV2 :: "('w, 'f, 'v) podenv \<Rightarrow> Pod \<Rightarrow> PodList \<Rightarrow> 'w \<Rightarrow> unit result \<times> 'w" where
  "storeUserPodsV2 env p l w =
     (let u = acUser (pdAccount p) in
      upload_text (user_feed env p) (peLibs env) (peLate env) (aiAddress u) podFileV2
        (Marshal (peJson env) (DPodList l)) (user_secret u) w)"

text \<open>PodList: if the file cannot be read, for whatever reason, the old feed is
  taken and stored as the file; an error of the store is only printed.\<close>

definition GetPodList :: "('w, 'f, 'v) podenv \<Rightarrow> Pod \<Rightarrow> 'w \<Rightarrow> PodList result \<times> 'w" where
  "GetPodList env p w =
     (case loadUserPodsV2 env p w of
        (Inr l, w1) \<Rightarrow> (Inr l, w1)
      | (Inl (Panic s), w1) \<Rightarrow> (Inl (Panic s), w1)
      | (Inl e, w1) \<Rightarrow>
          (case loadUserPods env p w1 of
             (Inl e, w2) \<Rightarrow> (Inl e, w2)
           | (Inr l, w2) \<Rightarrow> (case storeUserPodsV2 env p l w2 of (ignored, w3) \<Rightarrow> (Inr l, w3))))"

definition ListPods :: "('w, 'f, 'v) podenv \<Rightarrow> Pod \<Rightarrow> 'w \<Rightarrow> (string list \<times> string list) result \<times> 'w" where
  "ListPods env p w =
     (let names = (\<lambda>l. (map lName (Pods l), map sName (SharedPods l))) in
      case loadUserPodsV2 env p w of
        (Inr l, w1) \<Rightarrow> (Inr (names l), w1)
      | (Inl (Panic s), w1) \<Rightarrow> (Inl (Panic s), w1)
      | (Inl e, w1) \<Rightarrow>
          (case loadUserPods env p w1 of
             (Inl e, w2) \<Rightarrow> (Inl e, w2)
           | (Inr l, w2) \<Rightarrow>
               if Pods l \<noteq> [] \<or> SharedPods l \<noteq> []
               then (case storeUserPodsV2 env p l w2 of (ignored, w3) \<Rightarrow> (Inr (names l), w3))
               else (Inr (names l), w2)))"

definition getPodIndex :: "('w, 'f, 'v) podenv \<Rightarrow> Pod \<Rightarrow> string \<Rightarrow> 'w \<Rightarrow> int result \<times> 'w" where
  "getPodIndex env p podName w =
     (case GetPodList env p w of
        (Inl e, w1) \<Rightarrow> (Inl e, w1)
      | (Inr l, w1) \<Rightarrow> (Inr (fst (getIndexPassword l podName)), w1))"

definition IsOwnPodPresent :: "('w, 'f, 'v) podenv \<Rightarrow> Pod \<Rightarrow> string \<Rightarrow> 'w \<Rightarrow> bool result \<times> 'w" where
  "IsOwnPodPresent env p podName w =
     (case CleanPodName podName of Inl e \<Rightarrow> (Inr False, w) | Inr name \<Rightarrow>
      case GetPodList env p w of
        (Inl e, w1) \<Rightarrow> (if panicking e then Inl e else Inr False, w1)
      | (Inr l, w1) \<Rightarrow> (Inr (checkIfPodPresent l name), w1))"

definition IsPodPresent :: "('w, 'f, 'v) podenv \<Rightarrow> Pod \<Rightarrow> string \<Rightarrow> 'w \<Rightarrow> bool result \<times> 'w" where
  "IsPodPresent env p podName w =
     (case CleanPodName podName of Inl e \<Rightarrow> (Inr False, w) | Inr name \<Rightarrow>
      case GetPodList env p w of
        (Inl e, w1) \<Rightarrow> (if panicking e then Inl e else Inr False, w1)
      | (Inr l, w1) \<Rightarrow> (Inr (checkIfPodPresent l name \<or> checkIfSharedPodPresent l name), w1))"

section \<open>Creating and opening pods\<close>

text \<open>An Info is a pointer: an operation on an open pod changes the entry of podMap.\<close>

definition change_info :: "string \<Rightarrow> (Info \<Rightarrow> Info) \<Rightarrow> Pod \<Rightarrow> Pod" where
  "change_info podName g p = p\<lparr>podMap := (podMap p)(podName := map_option g (podMap p podName))\<rparr>"

abbreviation set_inDir :: "Directory \<Rightarrow> Info \<Rightarrow> Info" where
  "set_inDir d i \<equiv> i\<lparr>inDir := d\<rparr>"

definition create_shared ::
  "('w, 'f, 'v) podenv \<Rightarrow> Pod \<Rightarrow> PodList \<Rightarrow> string \<Rightarrow> string \<Rightarrow> string \<Rightarrow> 'w \<Rightarrow> Info result \<times> Pod \<times> 'w" where
  "create_shared env p podList podName addressString podPassword w =
     (let accountInfo = shared_account addressString;
          l = podList\<lparr>SharedPods := SharedPods podList @ [\<lparr>sName = podName, sAddress = addressString, sPassword = podPassword\<rparr>]\<rparr> in
      case storeUserPodsV2 env p l w of
        (Inl e, w1) \<Rightarrow> (Inl e, p, w1)
      | (Inr u, w1) \<Rightarrow>
          let podInfo = new_info env podName podPassword (HexToAddress addressString) accountInfo accountInfo in
          (Inr podInfo, addPodToPodMap podName podInfo p, w1))"

definition create_own ::
  "('w, 'f, 'v) podenv \<Rightarrow> Pod \<Rightarrow> PodList \<Rightarrow> string \<Rightarrow> string \<Rightarrow> 'w \<Rightarrow> Info result \<times> Pod \<times> 'w" where
  "create_own env p podList podName podPassword w =
     (case getFreeId (pod_indexes podList) of Inl e \<Rightarrow> (Inl e, p, w) | Inr freeId \<Rightarrow>
      case CreatePodAccount (peWallet env) freeId (pdAccount p) of
        (Inl e, a1) \<Rightarrow> (Inl e, p\<lparr>pdAccount := a1\<rparr>, w)
      | (Inr accountInfo, a1) \<Rightarrow>
          let p1 = p\<lparr>pdAccount := a1\<rparr>;
              l = podList\<lparr>Pods := Pods podList @ [\<lparr>lName = podName, lIndex = freeId, lPassword = podPassword\<rparr>]\<rparr> in
          case storeUserPodsV2 env p1 l w of
            (Inl e, w1) \<Rightarrow> (Inl e, p1, w1)
          | (Inr u, w1) \<Rightarrow>
              (case GetAddress a1 freeId of
                 Inl e \<Rightarrow> (Inl e, p1, w1)
               | Inr user \<Rightarrow>
                   let podInfo = new_info env podName podPassword user accountInfo accountInfo;
                       p2 = addPodToPodMap podName podInfo p1 in
                   case MkRootDir (peFeed env accountInfo) (peLibs env) (peJson env) (peLate env) (inDir podInfo) podPassword w1 of
                     (Inl e, d, w2) \<Rightarrow> (Inl e, change_info podName (set_inDir d) p2, w2)
                   | (Inr u, d, w2) \<Rightarrow> (Inr (set_inDir d podInfo), change_info podName (set_inDir d) p2, w2)))"

definition CreatePod ::
  "('w, 'f, 'v) podenv \<Rightarrow> Pod \<Rightarrow> string \<Rightarrow> string \<Rightarrow> string \<Rightarrow> 'w \<Rightarrow> Info result \<times> Pod \<times> 'w" where
  "CreatePod env p podName0 addressString podPassword w =
     (case CleanPodName podName0 of Inl e \<Rightarrow> (Inl e, p, w) | Inr podName \<Rightarrow>
      case GetPodList env p w of
        (Inl e, w1) \<Rightarrow> (Inl e, p, w1)
      | (Inr podList, w1) \<Rightarrow>
          if checkIfPodPresent podList podName then (Inl ErrPodAlreadyExists, p, w1)
          else if checkIfSharedPodPresent podList podName then (Inl ErrPodAlreadyExists, p, w1)
          else if addressString \<noteq> [] then create_shared env p podList podName addressString podPassword w1
          else create_own env p podList podName podPassword w1)"

text \<open>What OpenPod and OpenPodAsync have in common: the new Info, in podMap.\<close>

definition open_listed ::
  "('w, 'f, 'v) podenv \<Rightarrow> Pod \<Rightarrow> PodList \<Rightarrow> string \<Rightarrow> (Info \<times> bool) result \<times> Pod" where
  "open_listed env p podList podName =
     (if \<not> checkIfPodPresent podList podName then
        if \<not> checkIfSharedPodPresent podList podName then (Inl ErrInvalidPodName, p)
        else
          (case getSharedAddressPassword podList podName of (addressString, podPassword) \<Rightarrow>
           if addressString = [] then (Inl (Errorf ''shared pod does not exist''), p)
           else
             let accountInfo = shared_account addressString;
                 podInfo = new_info env podName podPassword (HexToAddress addressString) accountInfo accountInfo in
             (Inr (podInfo, True), addPodToPodMap podName podInfo p))
      else
        (case getIndexPassword podList podName of (index, podPassword) \<Rightarrow>
         if index = -1 then (Inl (Errorf ''pod does not exist''), p)
         else
           (case CreatePodAccount (peWallet env) index (pdAccount p) of
              (Inl e, a1) \<Rightarrow> (Inl e, p\<lparr>pdAccount := a1\<rparr>)
            | (Inr accountInfo, a1) \<Rightarrow>
                let p1 = p\<lparr>pdAccount := a1\<rparr> in
                case GetAddress a1 index of
                  Inl e \<Rightarrow> (Inl e, p1)
                | Inr user \<Rightarrow>
                    let podInfo = new_info env podName podPassword user accountInfo accountInfo in
                    (Inr (podInfo, False), addPodToPodMap podName podInfo p1))))"

definition OpenPod :: "('w, 'f, 'v) podenv \<Rightarrow> Pod \<Rightarrow> string \<Rightarrow> 'w \<Rightarrow> Info result \<times> Pod \<times> 'w" where
  "OpenPod env p podName w =
     (case GetPodInfoFromPodMap p podName of
        Inr i \<Rightarrow> (Inr i, p, w)
      | Inl ignored \<Rightarrow>
          (case GetPodList env p w of
             (Inl e, w1) \<Rightarrow> (Inl e, p, w1)
           | (Inr podList, w1) \<Rightarrow>
               (case open_listed env p podList podName of
                  (Inl e, p1) \<Rightarrow> (Inl e, p1, w1)
                | (Inr (podInfo, sharedPodType), p1) \<Rightarrow>
                    if sharedPodType then (Inr podInfo, p1, w1)
                    else
                      (case AddRootDir (peFeed env (inFeed podInfo)) (peLibs env) (peJson env) (peLate env)
                              (inDir podInfo) (inPassword podInfo) w1 of
                         (Inl e, d, w2) \<Rightarrow> (Inl e, change_info podName (set_inDir d) p1, w2)
                       | (Inr u, d, w2) \<Rightarrow> (Inr (set_inDir d podInfo), change_info podName (set_inDir d) p1, w2)))))"

definition GetPodInfo :: "('w, 'f, 'v) podenv \<Rightarrow> Pod \<Rightarrow> string \<Rightarrow> 'w \<Rightarrow> Info result \<times> Pod \<times> 'w" where
  "GetPodInfo env p podName w =
     (case GetPodInfoFromPodMap p podName of Inr i \<Rightarrow> (Inr i, p, w) | Inl ignored \<Rightarrow> OpenPod env p podName w)"

definition GetAccountInfo :: "('w, 'f, 'v) podenv \<Rightarrow> Pod \<Rightarrow> string \<Rightarrow> 'w \<Rightarrow> AccInfo result \<times> Pod \<times> 'w" where
  "GetAccountInfo env p podName w =
     (case GetPodInfo env p podName w of (Inl e, p1, w1) \<Rightarrow> (Inl e, p1, w1) | (Inr i, p1, w1) \<Rightarrow> (Inr (inAccount i), p1, w1))"

section \<open>Synchronising pods\<close>

text \<open>n bounds the depth of the directories.\<close>

definition sync_pod ::
  "(Info \<Rightarrow> 'w dir_step) \<Rightarrow> ('w, 'f, 'v) podenv \<Rightarrow> Pod \<Rightarrow> string \<Rightarrow> 'w \<Rightarrow> unit result \<times> Pod \<times> 'w" where
  "sync_pod sync env p podName0 w =
     (case CleanPodName podName0 of Inl e \<Rightarrow> (Inl e, p, w) | Inr podName \<Rightarrow>
      case GetPodInfo env p podName w of
        (Inl e, p1, w1) \<Rightarrow> (Inl e, p1, w1)
      | (Inr i, p1, w1) \<Rightarrow>
          (case sync i (inDir i) w1 of (r, d, w2) \<Rightarrow> (r, change_info podName (set_inDir d) p1, w2)))"

definition SyncPod :: "nat \<Rightarrow> ('w, 'f, 'v) podenv \<Rightarrow> Pod \<Rightarrow> string \<Rightarrow> 'w \<Rightarrow> unit result \<times> Pod \<times> 'w" where
  "SyncPod n env =
     sync_pod (\<lambda>i. SyncDirectory n (peFeed env (inFeed i)) (peLibs env) (peJson env) (peLate env) (inPassword i) ''/'') env"

definition SyncPodAsync :: "nat \<Rightarrow> ('w, 'f, 'v) podenv \<Rightarrow> Pod \<Rightarrow> string \<Rightarrow> 'w \<Rightarrow> unit result \<times> Pod \<times> 'w" where
  "SyncPodAsync n env =
     sync_pod (\<lambda>i. SyncDirectoryAsync n (peFeed env (inFeed i)) (peLibs env) (peJson env) (peLate env) (inPassword i) ''/'') env"

text \<open>The Info that OpenPodAsync returns is the one in podMap.\<close>

definition OpenPodAsync :: "nat \<Rightarrow> ('w, 'f, 'v) podenv \<Rightarrow> Pod \<Rightarrow> string \<Rightarrow> 'w \<Rightarrow> Info option result \<times> Pod \<times> 'w" where
  "OpenPodAsync n env p podName w =
     (case GetPodList env p w of
        (Inl e, w1) \<Rightarrow> (Inl e, p, w1)
      | (Inr podList, w1) \<Rightarrow>
          (case open_listed env p podList podName of
             (Inl e, p1) \<Rightarrow> (Inl e, p1, w1)
           | (Inr (podInfo, sharedPodType), p1) \<Rightarrow>
               (case SyncPodAsync n env p1 podName w1 of
                  (Inl e, p2, w2) \<Rightarrow> if e \<noteq> ErrResourceDeleted then (Inl e, p2, w2) else (Inr (podMap p2 podName), p2, w2)
                | (Inr u, p2, w2) \<Rightarrow> (Inr (podMap p2 podName), p2, w2))))"

section \<open>Pods opened from a sharing\<close>

definition shared_info :: "('w, 'f, 'v) podenv \<Rightarrow> ShareInfo \<Rightarrow> Info" where
  "shared_info env si =
     (let accountInfo = shared_account (shAddress si) in
      new_info env (shPodName si) (shPassword si) (HexToAddress (shAddress si)) accountInfo accountInfo)"

definition OpenActPod :: "('w, 'f, 'v) podenv \<Rightarrow> Pod \<Rightarrow> ShareInfo \<Rightarrow> string \<Rightarrow> Info \<times> Pod" where
  "OpenActPod env p si actName = (shared_info env si, addPodToPodMap actName (shared_info env si) p)"

definition OpenFromShareInfo :: "('w, 'f, 'v) podenv \<Rightarrow> Pod \<Rightarrow> ShareInfo \<Rightarrow> Info \<times> Pod" where
  "OpenFromShareInfo env p si = (shared_info env si, addPodToPodMap (shPodName si) (shared_info env si) p)"

section \<open>Closing and deleting pods\<close>

definition forget_dir :: "Info \<Rightarrow> Info" where
  "forget_dir i = set_inDir (set_drFile (RemoveAllFromFileMap (drFile (inDir i))) (RemoveAllFromDirectoryMap (inDir i))) i"

definition ClosePod :: "('w, 'f, 'v) podenv \<Rightarrow> Pod \<Rightarrow> string \<Rightarrow> 'w \<Rightarrow> unit result \<times> Pod \<times> 'w" where
  "ClosePod env p podName w =
     (case GetPodInfoFromPodMap p podName of Inl e \<Rightarrow> (Inl e, p, w) | Inr podInfo \<Rightarrow>
      case peCommit env (inFeed podInfo) w of (Inl e, w1) \<Rightarrow> (Inl e, p, w1) | (Inr u, w1) \<Rightarrow>
      (case peCommit env (acUser (pdAccount p)) w1 of (Inl e, w2) \<Rightarrow> (Inl e, p, w2) | (Inr u, w2) \<Rightarrow>
      (case getPodIndex env p podName w2 of (Inl e, w3) \<Rightarrow> (Inl e, p, w3) | (Inr podIndex, w3) \<Rightarrow>
         (Inr (), (removePodFromPodMap podName (change_info podName forget_dir p))
            \<lparr>pdAccount := DeletePodAccount podIndex (pdAccount p)\<rparr>, w3))))"

text \<open>names: the order in which the range loop visits podMap.\<close>

primrec CloseAllPods :: "('w, 'f, 'v) podenv \<Rightarrow> string list \<Rightarrow> Pod \<Rightarrow> 'w \<Rightarrow> unit result \<times> Pod \<times> 'w" where
  "CloseAllPods env [] p w = (Inr (), p, w)"
| "CloseAllPods env (podName # names) p w =
     (case ClosePod env p podName w of
        (Inl e, p1, w1) \<Rightarrow> (Inl (masked e (Errorf ''error closing pod'')), p1, w1)
      | (Inr u, p1, w1) \<Rightarrow> CloseAllPods env names p1 w1)"

definition DeleteOwnPod :: "('w, 'f, 'v) podenv \<Rightarrow> Pod \<Rightarrow> string \<Rightarrow> 'w \<Rightarrow> unit result \<times> Pod \<times> 'w" where
  "DeleteOwnPod env p podName w =
     (case GetPodList env p w of (Inl e, w1) \<Rightarrow> (Inl e, p, w1) | (Inr podList, w1) \<Rightarrow>
      case delete_items (\<lambda>q. lName q = podName) (Pods podList) of
        Inl e \<Rightarrow> (Inl e, p, w1)
      | Inr (left, None) \<Rightarrow> (Inl (Errorf ''pod not found''), p, w1)
      | Inr (left, Some podIndex) \<Rightarrow>
          (case GetPodInfo env p podName w1 of (Inl e, p1, w2) \<Rightarrow> (Inl e, p1, w2) | (Inr podInfo, p1, w2) \<Rightarrow>
           let sv = peFeed env (inFeed podInfo) in
           case DeleteAllDocumentDBs (peDocs env) sv (peDBs env) (inDoc podInfo) (inPassword podInfo) w2 of
             (Inl e, ds, w3) \<Rightarrow> (Inl e, change_info podName (\<lambda>i. i\<lparr>inDoc := ds\<rparr>) p1, w3)
           | (Inr u, ds, w3) \<Rightarrow>
               (case DeleteAllKVTables sv (peTables env) (inKV podInfo) (inPassword podInfo) w3 of
                  (Inl e, kv, w4) \<Rightarrow> (Inl e, change_info podName (\<lambda>i. i\<lparr>inDoc := ds, inKV := kv\<rparr>) p1, w4)
                | (Inr u, kv, w4) \<Rightarrow>
                    let p2 = (removePodFromPodMap podName p1)\<lparr>pdAccount := DeletePodAccount (int podIndex) (pdAccount p1)\<rparr> in
                    case storeUserPodsV2 env p2 (podList\<lparr>Pods := left\<rparr>) w4 of (r, w5) \<Rightarrow> (r, p2, w5))))"

definition DeleteSharedPod :: "('w, 'f, 'v) podenv \<Rightarrow> Pod \<Rightarrow> string \<Rightarrow> 'w \<Rightarrow> unit result \<times> Pod \<times> 'w" where
  "DeleteSharedPod env p podName w =
     (case GetPodList env p w of (Inl e, w1) \<Rightarrow> (Inl e, p, w1) | (Inr podList, w1) \<Rightarrow>
      case delete_items (\<lambda>q. sName q = podName) (SharedPods podList) of
        Inl e \<Rightarrow> (Inl e, p, w1)
      | Inr (left, None) \<Rightarrow> (Inl (Errorf ''pod not found''), p, w1)
      | Inr (left, Some i) \<Rightarrow>
          let p1 = removePodFromPodMap podName p in
          case storeUserPodsV2 env p1 (podList\<lparr>SharedPods := left\<rparr>) w1 of (r, w2) \<Rightarrow> (r, p1, w2))"

section \<open>Stat\<close>

record PodStats =
  psName :: string
  psAddress :: string

definition PodStat :: "('w, 'f, 'v) podenv \<Rightarrow> Pod \<Rightarrow> string \<Rightarrow> 'w \<Rightarrow> PodStats result \<times> Pod \<times> 'w" where
  "PodStat env p podName w =
     (case GetPodInfo env p podName w of
        (Inr podInfo, p1, w1) \<Rightarrow> (Inr \<lparr>psName = inName podInfo, psAddress = Address_String (inUser podInfo)\<rparr>, p1, w1)
      | (Inl (Panic s), p1, w1) \<Rightarrow> (Inl (Panic s), p1, w1)
      | (Inl ignored, p1, w1) \<Rightarrow>
          (case GetPodList env p1 w1 of (Inl e, w2) \<Rightarrow> (Inl e, p1, w2) | (Inr podList, w2) \<Rightarrow>
           case getIndexPassword podList podName of (index, pw) \<Rightarrow>
           if index = -1 then (Inl (Errorf ''pod does not exist''), p1, w2)
           else
             (case CreatePodAccount (peWallet env) index (pdAccount p1) of
                (Inl e, a1) \<Rightarrow> (Inl e, p1\<lparr>pdAccount := a1\<rparr>, w2)
              | (Inr accountInfo, a1) \<Rightarrow>
                  (Inr \<lparr>psName = podName, psAddress = Address_String (aiAddress accountInfo)\<rparr>, p1\<lparr>pdAccount := a1\<rparr>, w2))))"

end
