(* ===== verification/PodOps.thy ===== *)
theory PodOps
  imports PodModel
begin

text \<open>
  Sharing and forking pods, pkg/pod/sharing.go and fork.go.  A sharing is a blob
  with the name, the address and the password of the pod; its reference is given
  to the receiver, who adds the pod to the list of shared pods.  A fork copies the
  files and directories of one pod into another.
\<close>

section \<open>Sharing\<close>

text \<open>The index and the password of an own pod, and its account.\<close>

definition own_pod ::
  "('w, 'f, 'v) podenv \<Rightarrow> Pod \<Rightarrow> string \<Rightarrow> 'w \<Rightarrow> (AccInfo \<times> string) result \<times> Pod \<times> 'w" where
  "own_pod env p podName w =
     (case GetPodList env p w of (Inl e, w1) \<Rightarrow> (Inl e, p, w1) | (Inr podList, w1) \<Rightarrow>
      if \<not> checkIfPodPresent podList podName then (Inl ErrInvalidPodName, p, w1) else
      case getIndexPassword podList podName of (index, podPassword) \<Rightarrow>
      if index = -1 then (Inl (Errorf ''pod does not exist''), p, w1) else
      case CreatePodAccount (peWallet env) index (pdAccount p) of
        (Inl e, a1) \<Rightarrow> (Inl e, p\<lparr>pdAccount := a1\<rparr>, w1)
      | (Inr accountInfo, a1) \<Rightarrow> (Inr (accountInfo, podPassword), p\<lparr>pdAccount := a1\<rparr>, w1))"

definition share_info :: "Pod \<Rightarrow> string \<Rightarrow> AccInfo \<Rightarrow> string \<Rightarrow> ShareInfo" where
  "share_info p name accountInfo podPassword =
     \<lparr>shPodName = name, shAddress = Address_String (aiAddress accountInfo), shPassword = podPassword,
      shUserAddress = Address_String (aiAddress (acUser (pdAccount p)))\<rparr>"

definition PodShare ::
  "('w, 'f, 'v) podenv \<Rightarrow> Pod \<Rightarrow> string \<Rightarrow> string \<Rightarrow> 'w \<Rightarrow> string result \<times> Pod \<times> 'w" where
  "PodShare env p podName sharedPodName w =
     (case own_pod env p podName w of (Inl e, p1, w1) \<Rightarrow> (Inl e, p1, w1) | (Inr (accountInfo, podPassword), p1, w1) \<Rightarrow>
      let name = (if sharedPodName = [] then podName else sharedPodName) in
      case UploadBlob (user_feed env p1) (Doc (DShareInfo (share_info p1 name accountInfo podPassword))) w1 of
        (Inl e, w2) \<Rightarrow> (Inl e, p1, w2)
      | (Inr ref, w2) \<Rightarrow> (Inr (Reference_String ref), p1, w2))"

definition GetPodSharingInfo ::
  "('w, 'f, 'v) podenv \<Rightarrow> Pod \<Rightarrow> string \<Rightarrow> 'w \<Rightarrow> ShareInfo result \<times> Pod \<times> 'w" where
  "GetPodSharingInfo env p podName w =
     (case own_pod env p podName w of
        (Inl e, p1, w1) \<Rightarrow> (Inl e, p1, w1)
      | (Inr (accountInfo, podPassword), p1, w1) \<Rightarrow> (Inr (share_info p1 podName accountInfo podPassword), p1, w1))"

definition ReceivePodInfo ::
  "('w, 'f, 'v) podenv \<Rightarrow> Pod \<Rightarrow> bytes \<Rightarrow> 'w \<Rightarrow> ShareInfo result \<times> 'w" where
  "ReceivePodInfo env p ref w =
     (case DownloadBlob (user_feed env p) ref w of
        (Inl e, w1) \<Rightarrow> (Inl e, w1)
      | (Inr (data, resp), w1) \<Rightarrow>
          if resp \<noteq> 200 then (Inl (Errorf ''could not download blob''), w1)
          else (case peShareInfo env data of None \<Rightarrow> (Inl (Errorf ''json''), w1) | Some si \<Rightarrow> (Inr si, w1)))"

definition ReceivePod ::
  "('w, 'f, 'v) podenv \<Rightarrow> Pod \<Rightarrow> string \<Rightarrow> bytes \<Rightarrow> 'w \<Rightarrow> Info result \<times> Pod \<times> 'w" where
  "ReceivePod env p sharedPodName ref w =
     (case ReceivePodInfo env p ref w of
        (Inl e, w1) \<Rightarrow> (Inl e, p, w1)
      | (Inr si, w1) \<Rightarrow>
          CreatePod env p (if sharedPodName \<noteq> [] then sharedPodName else shPodName si) (shAddress si) (shPassword si) w1)"

section \<open>Forking\<close>

text \<open>Reading a source block by block, as Upload does.  (A last read that gives bytes
  together with the end of the file counts as a block here; it does not occur when
  the blocks of the source have the size of the buffer.)\<close>

primrec drain ::
  "nat \<Rightarrow> 'w services \<Rightarrow> libs \<Rightarrow> nat \<Rightarrow> bytes list \<Rightarrow> Reader \<Rightarrow> 'w \<Rightarrow> bytes list result \<times> 'w" where
  "drain 0 sv lb k acc r w = (Inl (Panic ''out of memory''), w)"
| "drain (Suc n) sv lb k acc r w =
     (case Read sv lb k r w of
        ((d, None), r1, w1) \<Rightarrow> drain n sv lb k (acc @ [d]) r1 w1
      | ((d, Some e), r1, w1) \<Rightarrow> if e = EOF then (Inr (if d = [] then acc else acc @ [d]), w1) else (Inl e, w1))"

text \<open>The two pods are places of a store of Infos, so that a pod can be forked onto itself.\<close>

type_synonym infos = "string option \<Rightarrow> Info"

definition put_dir :: "string option \<Rightarrow> Directory \<Rightarrow> infos \<Rightarrow> infos" where
  "put_dir k d I = I(k := set_inDir d (I k))"

definition clone_file ::
  "('w, 'f, 'v) podenv \<Rightarrow> string option \<Rightarrow> string option \<Rightarrow> string \<Rightarrow> string \<Rightarrow> infos \<Rightarrow> 'w \<Rightarrow> unit result \<times> infos \<times> 'w" where
  "clone_file env source dst dirNameWithPath fileName I w =
     (let lb = peLibs env; filePath = CombinePathAndFile dirNameWithPath fileName;
          s = I source; sv = peFeed env (inFeed s) in
      case FileGetInode sv (drFile (inDir s)) (inPassword s) filePath w of (fm, f1, w1) \<Rightarrow>
      case Download sv f1 filePath (inPassword s) w1 of
        (Inl e, f2, w2) \<Rightarrow> (Inl e, put_dir source (set_drFile f2 (inDir s)) I, w2)
      | (Inr (r, n), f2, w2) \<Rightarrow>
          let I1 = put_dir source (set_drFile f2 (inDir s)) I in
          (case fm of
             None \<Rightarrow> (Inl NilDereference, I1, w2)
           | Some m \<Rightarrow>
               (case drain (Suc n) sv lb (unat (fBlockSize m)) [] r w2 of
                  (Inl e, w3) \<Rightarrow> (Inl e, I1, w3)
                | (Inr fd, w3) \<Rightarrow>
                    let d = I1 dst; dv = peFeed env (inFeed d) in
                    (case Upload dv lb (peLate env) (drFile (inDir d)) fd (fName m) (fSize m) (fBlockSize m) 0
                            (fPath m) (fCompression m) (inPassword d) w3 of
                       (Inl e, f3, w4) \<Rightarrow> (Inl e, put_dir dst (set_drFile f3 (inDir d)) I1, w4)
                     | (Inr u, f3, w4) \<Rightarrow>
                         (case AddEntryToDir dv lb (peJson env) (peLate env) (set_drFile f3 (inDir d)) dirNameWithPath
                                 (inPassword d) fileName True w4 of
                            (res, d1, w5) \<Rightarrow> (res, put_dir dst d1 I1, w5))))))"

text \<open>n bounds the depth; rec clones a directory that is nested.\<close>

primrec clone_entries ::
  "(string \<Rightarrow> Inode \<Rightarrow> infos \<Rightarrow> 'w \<Rightarrow> unit result \<times> infos \<times> 'w) \<Rightarrow> ('w, 'f, 'v) podenv \<Rightarrow> string option \<Rightarrow> string option
    \<Rightarrow> string \<Rightarrow> string list \<Rightarrow> infos \<Rightarrow> 'w \<Rightarrow> unit result \<times> infos \<times> 'w" where
  "clone_entries rec env source dst path [] I w = (Inr (), I, w)"
| "clone_entries rec env source dst path (name # names) I w =
     (if HasPrefix name file_mark then
        (case clone_file env source dst path (TrimPrefix name file_mark) I w of
           (Inl e, I1, w1) \<Rightarrow> (Inl e, I1, w1)
         | (Inr u, I1, w1) \<Rightarrow> clone_entries rec env source dst path names I1 w1)
      else if HasPrefix name dir_mark then
        (let dirName = TrimPrefix name dir_mark; sub = CombinePathAndFile path dirName; s = I source in
         case GetInode (peFeed env (inFeed s)) (peLibs env) (peJson env) (peLate env) (inDir s) (inPassword s) sub w of
           (Inl e, ds, w1) \<Rightarrow> (Inl e, put_dir source ds I, w1)
         | (Inr a, ds, w1) \<Rightarrow>
             let I1 = put_dir source ds I; d = I1 dst in
             (case MkDir (peFeed env (inFeed d)) (peLibs env) (peJson env) (peLate env) (inDir d) sub (inPassword d) 0 w1 of
                (Inl e, dd, w2) \<Rightarrow> (Inl e, put_dir dst dd I1, w2)
              | (Inr u, dd, w2) \<Rightarrow>
                  let I2 = put_dir dst dd I1 in
                  (case rec sub (drHeap (inDir (I2 source)) a) I2 w2 of
                     (Inl e, I3, w3) \<Rightarrow> (Inl e, I3, w3)
                   | (Inr u, I3, w3) \<Rightarrow> clone_entries rec env source dst path names I3 w3)))
      else clone_entries rec env source dst path names I w)"

primrec cloneFolder ::
  "nat \<Rightarrow> ('w, 'f, 'v) podenv \<Rightarrow> string option \<Rightarrow> string option \<Rightarrow> string \<Rightarrow> Inode \<Rightarrow> infos \<Rightarrow> 'w
    \<Rightarrow> unit result \<times> infos \<times> 'w" where
  "cloneFolder 0 env source dst path dirInode I w = (Inl (Panic ''stack overflow''), I, w)"
| "cloneFolder (Suc n) env source dst path dirInode I w =
     clone_entries (cloneFolder n env source dst) env source dst path (FileOrDirNames dirInode) I w"

text \<open>The open pods as such a store; None is an Info outside podMap.\<close>

definition infos_of :: "Pod \<Rightarrow> Info \<Rightarrow> infos" where
  "infos_of p loose k = (case k of None \<Rightarrow> loose | Some n \<Rightarrow> (case podMap p n of Some i \<Rightarrow> i | None \<Rightarrow> loose))"

definition put_infos :: "infos \<Rightarrow> Pod \<Rightarrow> Pod" where
  "put_infos I p = p\<lparr>podMap := \<lambda>n. map_option (\<lambda>i. I (Some n)) (podMap p n)\<rparr>"

definition PodFork ::
  "nat \<Rightarrow> ('w, 'f, 'v) podenv \<Rightarrow> Pod \<Rightarrow> string \<Rightarrow> string \<Rightarrow> 'w \<Rightarrow> unit result \<times> Pod \<times> 'w" where
  "PodFork n env p podName0 forkName0 w =
     (case CleanPodName podName0 of Inl e \<Rightarrow> (Inl e, p, w) | Inr podName \<Rightarrow>
      case GetPodInfo env p podName w of (Inl e, p1, w1) \<Rightarrow> (Inl e, p1, w1) | (Inr podInfo, p1, w1) \<Rightarrow>
      (case CleanPodName forkName0 of Inl e \<Rightarrow> (Inl e, p1, w1) | Inr forkName \<Rightarrow>
       case GetPodInfo env p1 forkName w1 of (Inl e, p2, w2) \<Rightarrow> (Inl e, p2, w2) | (Inr forkInfo, p2, w2) \<Rightarrow>
       (case GetInode (peFeed env (inFeed podInfo)) (peLibs env) (peJson env) (peLate env)
               (inDir (infos_of p2 podInfo (Some podName))) (inPassword podInfo) ''/'' w2 of
          (Inl e, d, w3) \<Rightarrow> (Inl (masked e (Errorf ''root inode not found'')), change_info podName (set_inDir d) p2, w3)
        | (Inr a, d, w3) \<Rightarrow>
            let p3 = change_info podName (set_inDir d) p2 in
            (case cloneFolder n env (Some podName) (Some forkName) ''/'' (drHeap d a) (infos_of p3 podInfo) w3 of
               (r, I, w4) \<Rightarrow> (r, put_infos I p3, w4)))))"

text \<open>After the synchronisation the root is in the map of the source; without it
  (it was deleted) cloneFolder is called with nil.\<close>

definition forkPod ::
  "nat \<Rightarrow> ('w, 'f, 'v) podenv \<Rightarrow> Pod \<Rightarrow> Info \<Rightarrow> string \<Rightarrow> 'w \<Rightarrow> unit result \<times> Pod \<times> 'w" where
  "forkPod n env p podInfo forkName0 w =
     (case SyncDirectory n (peFeed env (inFeed podInfo)) (peLibs env) (peJson env) (peLate env) (inPassword podInfo) ''/''
             (inDir podInfo) w of
        (Inl e, d, w1) \<Rightarrow> (Inl e, p, w1)
      | (Inr u, d, w1) \<Rightarrow>
          (case CleanPodName forkName0 of Inl e \<Rightarrow> (Inl e, p, w1) | Inr forkName \<Rightarrow>
           case GetPodInfo env p forkName w1 of (Inl e, p1, w2) \<Rightarrow> (Inl e, p1, w2) | (Inr forkInfo, p1, w2) \<Rightarrow>
           (case GetDirFromDirectoryMap d ''/'' of
              None \<Rightarrow> (Inl NilDereference, p1, w2)
            | Some a \<Rightarrow>
                (case cloneFolder n env None (Some forkName) ''/'' (drHeap d a) (infos_of p1 (set_inDir d podInfo)) w2 of
                   (r, I, w3) \<Rightarrow> (r, put_infos I p1, w3)))))"

text \<open>An invalid reference is no error.\<close>

definition PodForkFromRef ::
  "nat \<Rightarrow> ('w, 'f, 'v) podenv \<Rightarrow> Pod \<Rightarrow> string \<Rightarrow> string \<Rightarrow> 'w \<Rightarrow> unit result \<times> Pod \<times> 'w" where
  "PodForkFromRef n env p forkName refString w =
     (case ParseHexReference refString of Inl e \<Rightarrow> (Inr (), p, w) | Inr ref \<Rightarrow>
      case ReceivePodInfo env p ref w of
        (Inl e, w1) \<Rightarrow> (Inl e, p, w1)
      | (Inr si, w1) \<Rightarrow> forkPod n env p (shared_info env si) forkName w1)"

end
