(* ===== verification/PodProps.thy ===== *)
theory PodProps
  imports PodOps DirTree
begin

text \<open>
  Pods: the list of the pods as a stored text, its well-formedness, and the
  operations on it.  The locale pods states what they rely on: the feeds of all
  the accounts that have a private key are views of one storage, gzip is undone,
  and JSON gives back the lists and sharings that were written.
\<close>

section \<open>Deleting while ranging\<close>

lemma delete_ranging_none:
  "\<lbrakk>\<And>j. \<lbrakk>i \<le> j; j < i + k\<rbrakk> \<Longrightarrow> \<not> P (arr ! j)\<rbrakk> \<Longrightarrow> delete_ranging P k i arr m found = Inr (take m arr, found)"
proof (induction k arbitrary: i)
  case (Suc k)
  then have "\<not> P (arr ! i)" by simp
  moreover have "delete_ranging P k (Suc i) arr m found = Inr (take m arr, found)" using Suc.prems by (intro Suc.IH) simp
  ultimately show ?case by simp
qed simp

lemma delete_ranging_skip:
  "\<lbrakk>\<And>j. \<lbrakk>i \<le> j; j < i + k\<rbrakk> \<Longrightarrow> \<not> P (arr ! j)\<rbrakk> \<Longrightarrow>
    delete_ranging P (k + n) i arr m found = delete_ranging P n (i + k) arr m found"
proof (induction k arbitrary: i)
  case (Suc k)
  then have "\<not> P (arr ! i)" by simp
  moreover have "delete_ranging P (k + n) (Suc i) arr m found = delete_ranging P n (Suc i + k) arr m found"
    using Suc.prems by (intro Suc.IH) simp
  ultimately show ?case by simp
qed simp

lemma delete_items_one:
  assumes "\<And>x. x \<in> set ys \<union> set zs \<Longrightarrow> \<not> P x" "P x"
  shows "delete_items P (ys @ x # zs) = Inr (ys @ zs, Some (length ys))"
proof -
  let ?arr = "ys @ x # zs"
  define arr' where "arr' = ys @ zs @ drop (length ys + length zs) ?arr"
  have 1: "delete_items P ?arr = delete_ranging P (Suc (length zs)) (length ys) ?arr (length ?arr) None"
    using delete_ranging_skip [of 0 "length ys" P ?arr "Suc (length zs)"] assms(1)
    by (simp add: delete_items_def nth_append)
  have len: "length (drop (length ys + length zs) ?arr) = 1" by simp
  have last: "\<not> P (drop (length ys + length zs) ?arr ! 0)" if "zs \<noteq> []"
  proof -
    have "drop (length ys + length zs) ?arr ! 0 = (x # zs) ! length zs" by (simp add: nth_append)
    also have "\<dots> \<in> set zs" using that by (cases zs rule: rev_cases) (simp_all add: nth_append nth_Cons')
    finally show ?thesis using assms(1) by simp
  qed
  have 2: "delete_ranging P (length zs) (Suc (length ys)) arr' (length ys + length zs) (Some (length ys))
      = Inr (take (length ys + length zs) arr', Some (length ys))"
  proof (rule delete_ranging_none)
    fix j assume j: "Suc (length ys) \<le> j" "j < Suc (length ys) + length zs"
    then have "zs \<noteq> []" by auto
    have "arr' ! j = (if j - length ys < length zs then zs ! (j - length ys) else drop (length ys + length zs) ?arr ! 0)"
      using j by (auto simp: arr'_def nth_append)
    then show "\<not> P (arr' ! j)" using assms(1) last [OF \<open>zs \<noteq> []\<close>] by (simp add: nth_mem)
  qed
  have 3: "take (length ys + length zs) arr' = ys @ zs" by (simp add: arr'_def)
  have 4: "arr' = take (length ys) ?arr @ drop (Suc (length ys)) (take (length ?arr) ?arr) @ drop (length ?arr - 1) ?arr"
    by (simp add: arr'_def)
  have "delete_ranging P (Suc (length zs)) (length ys) ?arr (length ?arr) None
      = delete_ranging P (length zs) (Suc (length ys)) arr' (length ys + length zs) (Some (length ys))"
    unfolding 4 using assms(2) by simp
  with 1 2 3 show ?thesis by simp
qed

lemma delete_items_single:
  assumes "length (filter P xs) \<le> 1"
  shows "delete_items P xs = Inr (filter (\<lambda>x. \<not> P x) xs,
      if filter P xs = [] then None else Some (length (takeWhile (\<lambda>x. \<not> P x) xs)))"
proof (cases "filter P xs")
  case Nil
  then have no: "\<forall>x \<in> set xs. \<not> P x" by (simp add: filter_empty_conv)
  then have "delete_ranging P (length xs) 0 xs (length xs) None = Inr (take (length xs) xs, None)"
    by (intro delete_ranging_none) auto
  moreover have "filter (\<lambda>x. \<not> P x) xs = xs" using no by (simp add: filter_id_conv)
  ultimately show ?thesis using Nil by (simp add: delete_items_def)
next
  case (Cons x us)
  with assms have "filter P xs = [x]" by simp
  then obtain ys zs where xs: "xs = ys @ x # zs" "P x" "\<forall>y \<in> set ys. \<not> P y" "filter P zs = []"
    by (auto simp: filter_eq_Cons_iff)
  then have no: "\<not> P y" if "y \<in> set ys \<union> set zs" for y using that by (auto simp: filter_empty_conv)
  then have "filter (\<lambda>x. \<not> P x) ys = ys" "filter (\<lambda>x. \<not> P x) zs = zs" "takeWhile (\<lambda>x. \<not> P x) xs = ys"
    using xs by (auto simp: filter_id_conv takeWhile_tail intro: takeWhile_append2)
  moreover have "delete_items P (ys @ x # zs) = Inr (ys @ zs, Some (length ys))"
    by (rule delete_items_one) (use no xs(2) in auto)
  ultimately show ?thesis using Cons xs by simp
qed

lemma delete_items_distinct:
  assumes "distinct (map f xs)"
  shows "delete_items (\<lambda>x. f x = k) xs =
    Inr (filter (\<lambda>x. f x \<noteq> k) xs,
         if k \<in> f ` set xs then Some (length (takeWhile (\<lambda>x. f x \<noteq> k) xs)) else None)"
proof -
  have d: "distinct (map f (filter (\<lambda>x. f x = k) xs))" using assms by (rule distinct_map_filter)
  have "set (map f (filter (\<lambda>x. f x = k) xs)) \<subseteq> {k}" by auto
  with card_mono [OF _ this] distinct_card [OF d] have "length (filter (\<lambda>x. f x = k) xs) \<le> 1" by simp
  from delete_items_single [OF this] show ?thesis by (auto simp: filter_empty_conv)
qed

text \<open>C33: The loop that deletes while ranging is filter, for a list in which at most one
  item matches: it keeps the others in their order and reports the position of the deleted
  item.\<close>

theorem delete_items_filter:
  assumes "length (filter P xs) \<le> 1"
  shows "delete_items P xs = Inr (filter (\<lambda>x. \<not> P x) xs,
      if filter P xs = [] then None else Some (length (takeWhile (\<lambda>x. \<not> P x) xs)))"
  by (rule delete_items_single [OF assms])

lemma delete_items_filter_witness:
  "delete_items (\<lambda>x. fst x = 2) [(1::nat, ''a''), (2, ''b''), (3, ''c'')] = Inr ([(1, ''a''), (3, ''c'')], Some 1)"
  using delete_items_filter [of "\<lambda>x. fst x = 2" "[(1::nat, ''a''), (2, ''b''), (3, ''c'')]"] by simp

text \<open>With two items that match it may panic, next to each other or not.\<close>

lemma delete_items_panics:
  "delete_items (\<lambda>x. x = a) [a, a] = Inl (Panic ''slice bounds out of range'')"
  "delete_items (\<lambda>x. x = 1) [1, 2 :: nat, 1] = Inl (Panic ''slice bounds out of range'')"
  by (simp_all add: delete_items_def numeral_2_eq_2 numeral_3_eq_3)

section \<open>Indexes\<close>

text \<open>C32: the index of a new pod is the smallest positive one that is not taken; only
  when all of 1 to 65534 are taken there is none.\<close>

theorem getFreeId_least:
  "case getFreeId pods of
     Inr i \<Rightarrow> 0 < i \<and> i < 65535 \<and> i \<notin> dom pods \<and> {0<..<i} \<subseteq> dom pods
   | Inl e \<Rightarrow> e = ErrMaxPodsReached \<and> {0<..<65535} \<subseteq> dom pods"
proof (cases "List.find (\<lambda>i. pods (int i) = None \<and> i \<noteq> 0) [0..<maxPodId]")
  case None
  have "j \<in> dom pods" if "0 < j" "j < 65535" for j
  proof -
    have "nat j \<in> set [0..<maxPodId]" using that by (simp add: maxPodId_def)
    then have "\<not> (pods (int (nat j)) = None \<and> nat j \<noteq> 0)" using None unfolding find_None_iff by blast
    then show ?thesis using that by auto
  qed
  then have "{0<..<65535} \<subseteq> dom pods" by (intro subsetI) simp
  with None show ?thesis by (simp add: getFreeId_def)
next
  case (Some i)
  from Some [unfolded find_Some_iff] have n: "i < maxPodId" "pods (int i) = None" "i \<noteq> 0"
    "\<forall>j < i. \<not> (pods (int j) = None \<and> j \<noteq> 0)" by auto
  have "j \<in> dom pods" if "0 < j" "j < int i" for j
    using n(4) [rule_format, of "nat j"] that by auto
  then have "{0<..<int i} \<subseteq> dom pods" by (intro subsetI) simp
  moreover have "getFreeId pods = Inr (int i)" unfolding getFreeId_def Some by simp
  ultimately show ?thesis using n(1-3) by (simp add: maxPodId_def domIff)
qed

section \<open>Stored texts\<close>

definition text_at ::
  "'w services \<Rightarrow> libs \<Rightarrow> feedview \<Rightarrow> blobview \<Rightarrow> Address \<Rightarrow> string \<Rightarrow> string \<Rightarrow> bytes \<Rightarrow> bool" where
  "text_at sv lb fs V u path pw data \<longleftrightarrow> (\<exists>m bs. file_at sv lb fs V u path pw m bs \<and> concat bs = data)"

lemma text_at_mono:
  "\<lbrakk>text_at sv lb fs V u path pw data; V \<subseteq>\<^sub>m V';
    fs' (u, HashString sv path, bytes_of pw) = fs (u, HashString sv path, bytes_of pw)\<rbrakk>
   \<Longrightarrow> text_at sv lb fs' V' u path pw data"
  unfolding text_at_def using file_at_mono by metis

lemma text_at_unique:
  "\<lbrakk>text_at sv lb fs V u path pw d; text_at sv lb fs V u path pw d'\<rbrakk> \<Longrightarrow> d = d'"
  by (auto simp: text_at_def dest: file_at_unique)

lemma text_at_topic: "text_at sv lb fs V u path pw data \<Longrightarrow> file_topic_ok fs sv u path pw"
  by (auto simp: text_at_def file_at_def file_topic_ok_def)

context storage
begin

lemma upload_text_ok:
  assumes b: "inv (b + 3) w" and data: "data \<noteq> []" "length data \<le> MinBlockSize" and cd: "codec_ok lb ''gzip'' MinBlockSize"
    and p: "path = CombinePathAndFile ''/'' name" "length path \<le> maxlen" and t: "file_topic_ok (feeds w) sv u path pw"
    and fit: "\<And>m. fPath m = ''/'' \<and> fName m = name \<Longrightarrow> storable sv (bytes_of pw) (Doc (DFileMeta m))"
  obtains w' where "upload_text sv lb late u name data pw w = (Inr (), w')" "inv b w'" "blobs w \<subseteq>\<^sub>m blobs w'"
    "text_at sv lb (feeds w') (blobs w') u path pw data"
    "\<And>u' t p. (u', t) \<noteq> (u, HashString sv path) \<Longrightarrow> feeds w' (u', t, p) = feeds w (u', t, p)"
proof -
  have B: "unat (of_nat MinBlockSize :: 32 word) = MinBlockSize" by (simp add: MinBlockSize_def)
  have cd': "codec_ok lb ''gzip'' (unat (of_nat MinBlockSize :: 32 word))" unfolding B by (rule cd)
  have sr: "source_reads MinBlockSize [data] = [data]" using data by simp
  have len: "unat (of_nat (length data) :: 64 word) = length data"
    using data(2) by (simp add: unat_of_nat take_bit_nat_eq_self MinBlockSize_def)
  have 1: "inv (b + length (source_reads (unat (of_nat MinBlockSize :: 32 word)) [data]) + 2) w"
    unfolding B sr using b by (simp add: numeral_3_eq_3)
  have ch: "chunked (unat (of_nat MinBlockSize :: 32 word)) (source_reads (unat (of_nat MinBlockSize :: 32 word)) [data])"
    unfolding B using data by (intro source_reads_full) (simp_all add: MinBlockSize_def)
  have t': "file_topic_ok (feeds w) sv (flUser (NewFile u)) path pw" using t by (simp add: NewFile_def)
  obtain m w' where up: "Upload sv lb late (NewFile u) [data] name (of_nat (length data)) (of_nat MinBlockSize) 0 ''/'' ''gzip'' pw w
      = (Inr (), AddToFileMap path m (NewFile u), w')" "inv b w'" "blobs w \<subseteq>\<^sub>m blobs w'"
    "file_at sv lb (feeds w') (blobs w') (flUser (NewFile u)) path pw m
       (source_reads (unat (of_nat MinBlockSize :: 32 word)) [data])"
    "feed_written (feeds w) (feeds w') (flUser (NewFile u)) (HashString sv path) (bytes_of pw) (Doc (DFileMeta m))"
    by (rule Upload_ok [OF 1 _ _ ch _ cd' p t' fit, where mode = 0 and late = late and fileSize = "of_nat (length data)"])
       (simp_all add: B len MaxBlockSize_def MinBlockSize_def)
  have at: "text_at sv lb (feeds w') (blobs w') u path pw data"
    using up(4) unfolding B sr text_at_def NewFile_def by (intro exI [of _ m] exI [of _ "[data]"]) simp
  show thesis
    by (rule that [OF _ up(2,3) at])
       (use up(1) feed_writtenD(2) [OF up(5)] in \<open>simp_all add: upload_text_def NewFile_def\<close>)
qed

lemma download_text_ok:
  assumes b: "inv b w" and at: "text_at sv lb (feeds w) (blobs w) u path pw data" and caps: "caps_ok lb"
    and p: "CombinePathAndFile topic [] = path"
  obtains w' where "download_text sv lb u topic pw w = (Inr data, w')" "inv b w'" "feeds w' = feeds w" "blobs w' = blobs w"
proof -
  obtain m bs where m: "file_at sv lb (feeds w) (blobs w) u path pw m bs" "concat bs = data"
    using at by (auto simp: text_at_def)
  have m': "file_at sv lb (feeds w) (blobs w) (flUser (NewFile u)) path pw m bs" using m(1) by (simp add: NewFile_def)
  obtain r w1 where d: "Download sv (NewFile u) topic pw w = (Inr (r, length data), AddToFileMap path m (NewFile u), w1)"
    "\<And>n. length data < n \<Longrightarrow> \<exists>r' w2. read_all n sv lb 0 [] r w1 = (Inr data, r', w2) \<and> inv b w2
       \<and> feeds w2 = feeds w \<and> blobs w2 = blobs w"
    by (rule Download_ok [OF b m' caps p]) (use m(2) that in \<open>auto simp: NewFile_def\<close>)
  from d(2) [of "Suc (length data)"] obtain r' w2 where r: "read_all (Suc (length data)) sv lb 0 [] r w1 = (Inr data, r', w2)"
    "inv b w2" "feeds w2 = feeds w" "blobs w2 = blobs w" by (metis lessI)
  show thesis by (rule that [OF _ r(2-4)]) (simp only: download_text_def d(1) r(1) prod.case sum.case)
qed

lemma download_text_absent:
  assumes b: "inv b w" and no: "feeds w (u, HashString sv path, bytes_of pw) \<in> {None, Some deleted_mark}"
    and p: "CombinePathAndFile topic [] = path"
  obtains w' where "download_text sv lb u topic pw w = (Inl ErrFileNotFound, w')" "inv b w'"
    "feeds w' = feeds w" "blobs w' = blobs w"
proof -
  obtain g w' where g: "GetFeedData sv (HashString sv path) u (bytes_of pw) w = (g, w')" by fastforce
  from get_feed [OF b g] have 1: "inv b w'" "feeds w' = feeds w" "blobs w' = blobs w" by blast+
  have "FileGetInode sv (NewFile u) pw path w = (None, NewFile u, w')"
    using no get_feed [OF b g] g by (auto simp: FileGetInode_def GetFromFileMap_def NewFile_def)
  then have "Download sv (NewFile u) topic pw w = (Inl ErrFileNotFound, NewFile u, w')"
    by (simp add: Download_def ReadSeeker_def p)
  with 1 that show thesis by (simp add: download_text_def)
qed

end

end
