(* ===== verification/PodLife.thy ===== *)
theory PodLife
  imports PodProps
begin

text \<open>
  The life of a pod: the list of the pods as it is stored, and what creating,
  opening, sharing, receiving and deleting a pod do to it.  The locale pods holds
  the laws, the properties are stated for every environment that satisfies them.
\<close>

section \<open>The stored list\<close>

definition pods_ok :: "PodList \<Rightarrow> bool" where
  "pods_ok l \<longleftrightarrow> distinct (map lName (Pods l) @ map sName (SharedPods l)) \<and> distinct (map lIndex (Pods l))
     \<and> (\<forall>q \<in> set (Pods l). 0 < lIndex q \<and> lIndex q < 65535) \<and> (\<forall>q \<in> set (SharedPods l). sAddress q \<noteq> [])"

definition pod_names :: "PodList \<Rightarrow> string set" where
  "pod_names l = lName ` set (Pods l) \<union> sName ` set (SharedPods l)"

definition pods_path :: string where "pods_path = ''/PodsV2''"

definition pods_at :: "('w, 'f, 'v) podenv \<Rightarrow> feedview \<Rightarrow> blobview \<Rightarrow> AccInfo \<Rightarrow> PodList \<Rightarrow> bool" where
  "pods_at env fs V u l \<longleftrightarrow>
     text_at (peFeed env u) (peLibs env) fs V (aiAddress u) pods_path (user_secret u) (Marshal (peJson env) (DPodList l))"

definition no_pods :: "('w, 'f, 'v) podenv \<Rightarrow> feedview \<Rightarrow> AccInfo \<Rightarrow> bool" where
  "no_pods env fs u \<longleftrightarrow>
     fs (aiAddress u, HashString (peFeed env u) pods_path, bytes_of (user_secret u)) = None
     \<and> fs (aiAddress u, HashString (peFeed env u) podFile, bytes_of (user_secret u)) = None"

definition user_ok :: "('w, 'f, 'v) podenv \<Rightarrow> nat \<Rightarrow> AccInfo \<Rightarrow> bool" where
  "user_ok env maxlen u \<longleftrightarrow> aiKey u \<noteq> None \<and> length pods_path \<le> maxlen
     \<and> (\<forall>m. fPath m = ''/'' \<and> fName m = podFileV2 \<longrightarrow> storable (peFeed env u) (bytes_of (user_secret u)) (Doc (DFileMeta m)))"

definition podlist_fits :: "('w, 'f, 'v) podenv \<Rightarrow> PodList \<Rightarrow> bool" where
  "podlist_fits env l \<longleftrightarrow> length (Marshal (peJson env) (DPodList l)) \<le> MinBlockSize"

lemma checkIfPodPresent_names: "checkIfPodPresent l n \<longleftrightarrow> n \<in> lName ` set (Pods l)"
  by (auto simp: checkIfPodPresent_def list_ex_iff)

lemma checkIfSharedPodPresent_names: "checkIfSharedPodPresent l n \<longleftrightarrow> n \<in> sName ` set (SharedPods l)"
  by (auto simp: checkIfSharedPodPresent_def list_ex_iff)

lemma present_names: "checkIfPodPresent l n \<or> checkIfSharedPodPresent l n \<longleftrightarrow> n \<in> pod_names l"
  by (simp add: pod_names_def checkIfPodPresent_names checkIfSharedPodPresent_names)

lemma find_distinct:
  assumes "distinct (map f xs)" "x \<in> set xs" shows "List.find (\<lambda>y. f y = f x) xs = Some x"
  using assms by (induction xs) (auto simp: image_iff)

lemma getIndexPassword_in:
  "\<lbrakk>pods_ok l; q \<in> set (Pods l)\<rbrakk> \<Longrightarrow> getIndexPassword l (lName q) = (lIndex q, lPassword q)"
  using find_distinct [of lName "Pods l" q] by (simp add: getIndexPassword_def pods_ok_def)

lemma getSharedAddressPassword_in:
  "\<lbrakk>pods_ok l; q \<in> set (SharedPods l)\<rbrakk> \<Longrightarrow> getSharedAddressPassword l (sName q) = (sAddress q, sPassword q)"
  using find_distinct [of sName "SharedPods l" q] by (simp add: getSharedAddressPassword_def pods_ok_def)

lemma dom_pod_indexes: "dom (pod_indexes l) = lIndex ` set (Pods l)"
proof -
  have gen: "dom (fold (\<lambda>p m. m(lIndex p \<mapsto> lName p)) ps m) = dom m \<union> lIndex ` set ps" for ps and m :: "int \<rightharpoonup> string"
    by (induction ps arbitrary: m) auto
  show ?thesis unfolding pod_indexes_def gen by simp
qed

text \<open>Adding a pod keeps the list well-formed.\<close>

lemma free_index:
  assumes "getFreeId (pod_indexes l) = Inr i"
  shows "0 < i \<and> i < 65535 \<and> i \<notin> lIndex ` set (Pods l)"
proof -
  from assms obtain n where n: "List.find (\<lambda>i. pod_indexes l (int i) = None \<and> i \<noteq> 0) [0..<maxPodId] = Some n" "i = int n"
    by (auto simp: getFreeId_def split: option.splits)
  from n(1) [unfolded find_Some_iff] have "n < maxPodId" "pod_indexes l (int n) = None" "n \<noteq> 0" by auto
  then show ?thesis using n(2) dom_pod_indexes [of l] by (auto simp: maxPodId_def)
qed

lemma pods_ok_add_own:
  assumes "pods_ok l" "n \<notin> pod_names l" "getFreeId (pod_indexes l) = Inr i"
  shows "pods_ok (l\<lparr>Pods := Pods l @ [\<lparr>lName = n, lIndex = i, lPassword = pw\<rparr>]\<rparr>)"
  using assms(1,2) free_index [OF assms(3)] by (auto simp: pods_ok_def pod_names_def)

lemma pods_ok_add_shared:
  assumes "pods_ok l" "n \<notin> pod_names l" "a \<noteq> []"
  shows "pods_ok (l\<lparr>SharedPods := SharedPods l @ [\<lparr>sName = n, sAddress = a, sPassword = pw\<rparr>]\<rparr>)"
  using assms by (auto simp: pods_ok_def pod_names_def)

lemma distinct_map_filter': "distinct (map f xs) \<Longrightarrow> distinct (map f (filter P xs))"
  by (induction xs) auto

lemma pods_ok_remove_shared:
  "pods_ok l \<Longrightarrow> pods_ok (l\<lparr>SharedPods := filter P (SharedPods l)\<rparr>)"
  by (auto simp: pods_ok_def distinct_map_filter')

section \<open>The laws\<close>

locale pods =
  fixes env :: "('w, 'f, 'v) podenv"
    and maxlen :: nat
    and inv :: "nat \<Rightarrow> 'w \<Rightarrow> bool"
    and feeds :: "'w \<Rightarrow> feedview"
    and blobs :: "'w \<Rightarrow> blobview"
  assumes net: "aiKey ai \<noteq> None \<Longrightarrow> storage (peFeed env ai) maxlen inv feeds blobs"
    and gzip: "codec_ok (peLibs env) ''gzip'' MinBlockSize"
    and caps: "caps_ok (peLibs env)"
    and list_json: "UnmarshalPodList (peJson env) (Marshal (peJson env) (DPodList l)) = Some l"
    and list_text: "Marshal (peJson env) (DPodList l) \<noteq> []"
    and share_json: "peShareInfo env (Doc (DShareInfo si)) = Some si"
begin

lemma load_ok:
  assumes "inv b w" "user_ok env maxlen (acUser (pdAccount p))" "pods_at env (feeds w) (blobs w) (acUser (pdAccount p)) l"
  obtains w' where "loadUserPodsV2 env p w = (Inr l, w')" "inv b w'" "feeds w' = feeds w" "blobs w' = blobs w"
proof -
  let ?u = "acUser (pdAccount p)"
  have st: "storage (peFeed env ?u) maxlen inv feeds blobs" using assms(2) by (intro net) (simp add: user_ok_def)
  have path: "CombinePathAndFile (CombinePathAndFile [] podFileV2) [] = pods_path"
    by (simp add: CombinePathAndFile_def podFileV2_def pods_path_def TrimPrefix_def)
  obtain w' where d: "download_text (peFeed env ?u) (peLibs env) (aiAddress ?u) (CombinePathAndFile [] podFileV2) (user_secret ?u) w
      = (Inr (Marshal (peJson env) (DPodList l)), w')" "inv b w'" "feeds w' = feeds w" "blobs w' = blobs w"
    by (rule storage.download_text_ok [OF st assms(1) assms(3) [unfolded pods_at_def] caps path])
  show thesis by (rule that [OF _ d(2-4)]) (simp add: loadUserPodsV2_def Let_def d(1) list_json list_text)
qed

lemma GetPodList_ok:
  assumes "inv b w" "user_ok env maxlen (acUser (pdAccount p))" "pods_at env (feeds w) (blobs w) (acUser (pdAccount p)) l"
  obtains w' where "GetPodList env p w = (Inr l, w')" "inv b w'" "feeds w' = feeds w" "blobs w' = blobs w"
proof -
  obtain w' where d: "loadUserPodsV2 env p w = (Inr l, w')" "inv b w'" "feeds w' = feeds w" "blobs w' = blobs w"
    by (rule load_ok [OF assms])
  show thesis by (rule that [OF _ d(2-4)]) (simp add: GetPodList_def d(1))
qed

lemma store_ok:
  assumes b: "inv (b + 3) w" and u: "user_ok env maxlen (acUser (pdAccount p))" and fit: "podlist_fits env l"
    and t: "file_topic_ok (feeds w) (user_feed env p) (aiAddress (acUser (pdAccount p))) pods_path (user_secret (acUser (pdAccount p)))"
  obtains w' where "storeUserPodsV2 env p l w = (Inr (), w')" "inv b w'" "blobs w \<subseteq>\<^sub>m blobs w'"
    "pods_at env (feeds w') (blobs w') (acUser (pdAccount p)) l"
    "\<And>u' t q. (u', t) \<noteq> (aiAddress (acUser (pdAccount p)), HashString (user_feed env p) pods_path) \<Longrightarrow>
       feeds w' (u', t, q) = feeds w (u', t, q)"
proof -
  let ?u = "acUser (pdAccount p)" and ?d = "Marshal (peJson env) (DPodList l)"
  have st: "storage (peFeed env ?u) maxlen inv feeds blobs" using u by (intro net) (simp add: user_ok_def)
  have path: "pods_path = CombinePathAndFile ''/'' podFileV2"
    by (simp add: CombinePathAndFile_def podFileV2_def pods_path_def TrimPrefix_def)
  have len: "length pods_path \<le> maxlen" using u by (simp add: user_ok_def)
  obtain w' where up: "upload_text (peFeed env ?u) (peLibs env) (peLate env) (aiAddress ?u) podFileV2 ?d (user_secret ?u) w = (Inr (), w')"
    "inv b w'" "blobs w \<subseteq>\<^sub>m blobs w'"
    "text_at (peFeed env ?u) (peLibs env) (feeds w') (blobs w') (aiAddress ?u) pods_path (user_secret ?u) ?d"
    "\<And>u' t q. (u', t) \<noteq> (aiAddress ?u, HashString (peFeed env ?u) pods_path) \<Longrightarrow> feeds w' (u', t, q) = feeds w (u', t, q)"
    by (rule storage.upload_text_ok [OF st b list_text _ gzip path len t, where late = "peLate env"])
       (use fit u in \<open>auto simp: podlist_fits_def user_ok_def\<close>)
  show thesis
    by (rule that [OF _ up(2,3) _ up(5)]) (use up(1,4) in \<open>simp_all add: storeUserPodsV2_def Let_def pods_at_def\<close>)
qed

text \<open>A user without a list gets the empty one, which is stored.\<close>

lemma GetPodList_fresh:
  assumes b: "inv (b + 3) w" and u: "user_ok env maxlen (acUser (pdAccount p))"
    and no: "no_pods env (feeds w) (acUser (pdAccount p))" and fit: "podlist_fits env \<lparr>Pods = [], SharedPods = []\<rparr>"
  obtains w' where "GetPodList env p w = (Inr \<lparr>Pods = [], SharedPods = []\<rparr>, w')" "inv b w'" "blobs w \<subseteq>\<^sub>m blobs w'"
    "pods_at env (feeds w') (blobs w') (acUser (pdAccount p)) \<lparr>Pods = [], SharedPods = []\<rparr>"
    "\<And>u' t q. (u', t) \<noteq> (aiAddress (acUser (pdAccount p)), HashString (user_feed env p) pods_path) \<Longrightarrow>
       feeds w' (u', t, q) = feeds w (u', t, q)"
proof -
  let ?u = "acUser (pdAccount p)"
  have st: "storage (peFeed env ?u) maxlen inv feeds blobs" using u by (intro net) (simp add: user_ok_def)
  have path: "CombinePathAndFile (CombinePathAndFile [] podFileV2) [] = pods_path"
    by (simp add: CombinePathAndFile_def podFileV2_def pods_path_def TrimPrefix_def)
  have v2: "feeds w (aiAddress ?u, HashString (peFeed env ?u) pods_path, bytes_of (user_secret ?u)) \<in> {None, Some deleted_mark}"
    using no by (simp add: no_pods_def)
  obtain w1 where d: "download_text (peFeed env ?u) (peLibs env) (aiAddress ?u) (CombinePathAndFile [] podFileV2) (user_secret ?u) w
      = (Inl ErrFileNotFound, w1)" "inv (b + 3) w1" "feeds w1 = feeds w" "blobs w1 = blobs w"
    by (rule storage.download_text_absent [OF st b v2 path])
  obtain g w2 where g: "GetFeedData (peFeed env ?u) (HashString (peFeed env ?u) podFile) (aiAddress ?u) (bytes_of (user_secret ?u)) w1 = (g, w2)"
    by fastforce
  have len: "length podFile \<le> maxlen" using u by (simp add: user_ok_def podFile_def pods_path_def)
  have "feeds w1 (aiAddress ?u, HashString (peFeed env ?u) podFile, bytes_of (user_secret ?u)) = None"
    using no d(3) by (simp add: no_pods_def)
  from storage.get_absent [OF st d(2) len this g] have ge: "g = Inl errFeedAbsent" .
  from storage.get_feed [OF st d(2) g] d have 2: "inv (b + 3) w2" "feeds w2 = feeds w" "blobs w2 = blobs w" by auto
  have t: "file_topic_ok (feeds w2) (user_feed env p) (aiAddress ?u) pods_path (user_secret ?u)"
    using no 2(2) by (simp add: file_topic_ok_def no_pods_def)
  obtain w' where s: "storeUserPodsV2 env p \<lparr>Pods = [], SharedPods = []\<rparr> w2 = (Inr (), w')" "inv b w'" "blobs w2 \<subseteq>\<^sub>m blobs w'"
    "pods_at env (feeds w') (blobs w') ?u \<lparr>Pods = [], SharedPods = []\<rparr>"
    "\<And>u' t q. (u', t) \<noteq> (aiAddress ?u, HashString (user_feed env p) pods_path) \<Longrightarrow> feeds w' (u', t, q) = feeds w2 (u', t, q)"
    by (rule store_ok [OF 2(1) u fit t]) (rule that)
  show thesis
  proof (rule that [OF _ s(2) _ s(4)])
    show "GetPodList env p w = (Inr \<lparr>Pods = [], SharedPods = []\<rparr>, w')"
      by (simp add: GetPodList_def loadUserPodsV2_def Let_def d(1) loadUserPods_def g ge s(1))
  qed (use s(3,5) 2 in simp_all)
qed

text \<open>Creating a pod of one's own, after the checks.\<close>

lemma create_own_ok:
  assumes b: "inv (b + 6) w" and u: "user_ok env maxlen (acUser (pdAccount p))"
    and at: "pods_at env (feeds w) (blobs w) (acUser (pdAccount p)) l" and i: "getFreeId (pod_indexes l) = Inr i"
    and acc: "CreatePodAccount (peWallet env) i (pdAccount p) = (Inr ai, a1)" "aiKey ai \<noteq> None"
      "aiAddress ai \<noteq> aiAddress (acUser (pdAccount p))"
    and fit: "podlist_fits env (l\<lparr>Pods := Pods l @ [\<lparr>lName = name, lIndex = i, lPassword = pw\<rparr>]\<rparr>)"
    and root: "file_topic_ok (feeds w) (peFeed env ai) (aiAddress ai) (index_path ''/'') pw"
      "\<And>now. clock_time (peFeed env ai) now \<Longrightarrow>
         inode_fits (peFeed env ai) (peJson env) maxlen pw \<lparr>iMeta = dir_meta [] ''/'' now 0, FileOrDirNames = []\<rparr>"
  obtains now info p' w' where "create_own env p l name pw w = (Inr info, p', w')" "inv b w'"
    "pods_at env (feeds w') (blobs w') (acUser (pdAccount p)) (l\<lparr>Pods := Pods l @ [\<lparr>lName = name, lIndex = i, lPassword = pw\<rparr>]\<rparr>)"
    "inode_at (peFeed env ai) (peLibs env) (peJson env) (feeds w') (blobs w') (aiAddress ai) pw ''/''
       \<lparr>iMeta = dir_meta [] ''/'' now 0, FileOrDirNames = []\<rparr>"
    "dir_ok (peFeed env ai) (peLibs env) (peJson env) maxlen (feeds w') (blobs w') pw (inDir info)"
    "inName info = name" "inPassword info = pw" "inUser info = aiAddress ai" "inAccount info = ai" "inFeed info = ai"
    "drUser (inDir info) = aiAddress ai" "podMap p' = (podMap p)(name \<mapsto> info)" "pdAccount p' = a1"
proof -
  let ?u = "acUser (pdAccount p)" and ?l = "l\<lparr>Pods := Pods l @ [\<lparr>lName = name, lIndex = i, lPassword = pw\<rparr>]\<rparr>"
  define p1 where "p1 = p\<lparr>pdAccount := a1\<rparr>"
  note a = CreatePodAccount_ok [OF acc(1)]
  have p1: "acUser (pdAccount p1) = ?u" using a by (simp add: p1_def)
  have ga: "GetAddress a1 i = Inr (aiAddress ai)" using a free_index [OF i] by (simp add: UserAccountIndex_def)
  have t: "file_topic_ok (feeds w) (user_feed env p1) (aiAddress (acUser (pdAccount p1))) pods_path (user_secret (acUser (pdAccount p1)))"
    unfolding p1 by (rule text_at_topic [OF at [unfolded pods_at_def]])
  have b3: "inv ((b + 3) + 3) w" using b by (simp add: add.assoc)
  obtain w1 where s: "storeUserPodsV2 env p1 ?l w = (Inr (), w1)" "inv (b + 3) w1" "blobs w \<subseteq>\<^sub>m blobs w1"
    "pods_at env (feeds w1) (blobs w1) ?u ?l"
    "\<And>u' t q. (u', t) \<noteq> (aiAddress ?u, HashString (user_feed env p) pods_path) \<Longrightarrow> feeds w1 (u', t, q) = feeds w (u', t, q)"
    by (rule store_ok [OF b3 u [folded p1] fit t]) (use that p1 in auto)
  define info0 where "info0 = new_info env name pw (aiAddress ai) ai ai"
  have d0: "drUser (inDir info0) = aiAddress ai" "dir_ok (peFeed env ai) (peLibs env) (peJson env) maxlen (feeds w1) (blobs w1) pw (inDir info0)"
    by (simp_all add: info0_def new_info_def NewDirectory_def NewFile_def dir_inv_def)
  have r1: "file_topic_ok (feeds w1) (peFeed env ai) (drUser (inDir info0)) (index_path ''/'') pw"
    using root(1) s(5) acc(3) d0(1) by (simp add: file_topic_ok_def)
  obtain now d w' where m: "MkRootDir (peFeed env ai) (peLibs env) (peJson env) (peLate env) (inDir info0) pw w1 = (Inr (), d, w')"
    "inv b w'" "dir_ok (peFeed env ai) (peLibs env) (peJson env) maxlen (feeds w') (blobs w') pw d" "drUser d = drUser (inDir info0)"
    "inode_at (peFeed env ai) (peLibs env) (peJson env) (feeds w') (blobs w') (drUser (inDir info0)) pw ''/''
       \<lparr>iMeta = dir_meta [] ''/'' now 0, FileOrDirNames = []\<rparr>"
    "\<And>u' t q. (u', t) \<noteq> (drUser (inDir info0), HashString (peFeed env ai) (index_path ''/'')) \<Longrightarrow> feeds w' (u', t, q) = feeds w1 (u', t, q)"
    "clock_time (peFeed env ai) now" "blobs w1 \<subseteq>\<^sub>m blobs w'"
    by (rule storage.MkRootDir_ok [OF net [OF acc(2)] s(2) d0(2) r1 gzip root(2), where late = "peLate env"]) (assumption, rule that)
  have at': "pods_at env (feeds w') (blobs w') ?u ?l"
    unfolding pods_at_def
    by (rule text_at_mono [OF s(4) [unfolded pods_at_def] m(8)]) (use m(6) d0(1) acc(3) in auto)
  show thesis
  proof (rule that [OF _ m(2) at' m(5) [unfolded d0(1)]])
    show "create_own env p l name pw w = (Inr (set_inDir d info0), addPodToPodMap name (set_inDir d info0) p1, w')"
      by (simp add: create_own_def i acc(1) Let_def s(1) ga m(1) flip: p1_def info0_def)
        (simp add: change_info_def addPodToPodMap_def)
  qed (use m(3,4) d0(1) in \<open>simp_all add: info0_def new_info_def addPodToPodMap_def p1_def\<close>)
qed

text \<open>Adding a pod that was shared.\<close>

lemma create_shared_ok:
  assumes b: "inv (b + 3) w" and u: "user_ok env maxlen (acUser (pdAccount p))"
    and at: "pods_at env (feeds w) (blobs w) (acUser (pdAccount p)) l"
    and fit: "podlist_fits env (l\<lparr>SharedPods := SharedPods l @ [\<lparr>sName = name, sAddress = a, sPassword = pw\<rparr>]\<rparr>)"
  obtains w' where "create_shared env p l name a pw w =
      (Inr (new_info env name pw (HexToAddress a) (shared_account a) (shared_account a)),
       addPodToPodMap name (new_info env name pw (HexToAddress a) (shared_account a) (shared_account a)) p, w')"
    "inv b w'" "blobs w \<subseteq>\<^sub>m blobs w'"
    "pods_at env (feeds w') (blobs w') (acUser (pdAccount p)) (l\<lparr>SharedPods := SharedPods l @ [\<lparr>sName = name, sAddress = a, sPassword = pw\<rparr>]\<rparr>)"
    "\<And>u' t q. (u', t) \<noteq> (aiAddress (acUser (pdAccount p)), HashString (user_feed env p) pods_path) \<Longrightarrow>
       feeds w' (u', t, q) = feeds w (u', t, q)"
proof -
  let ?l = "l\<lparr>SharedPods := SharedPods l @ [\<lparr>sName = name, sAddress = a, sPassword = pw\<rparr>]\<rparr>"
  obtain w1 where s: "storeUserPodsV2 env p ?l w = (Inr (), w1)" "inv b w1" "blobs w \<subseteq>\<^sub>m blobs w1"
    "pods_at env (feeds w1) (blobs w1) (acUser (pdAccount p)) ?l"
    "\<And>u' t q. (u', t) \<noteq> (aiAddress (acUser (pdAccount p)), HashString (user_feed env p) pods_path) \<Longrightarrow> feeds w1 (u', t, q) = feeds w (u', t, q)"
    by (rule store_ok [OF b u fit text_at_topic [OF at [unfolded pods_at_def]]]) (rule that)
  show thesis by (rule that [OF _ s(2-5)]) (simp add: create_shared_def Let_def s(1))
qed

text \<open>Opening a pod of one's own, whose root directory is stored.\<close>

lemma OpenPod_own_ok:
  assumes b: "inv b w" and u: "user_ok env maxlen (acUser (pdAccount q))"
    and at: "pods_at env (feeds w) (blobs w) (acUser (pdAccount q)) l" "pods_ok l" "\<lparr>lName = name, lIndex = i, lPassword = pw\<rparr> \<in> set (Pods l)"
    and acc: "CreatePodAccount (peWallet env) i (pdAccount q) = (Inr ai, a2)" "aiKey ai \<noteq> None" "0 < i" and no: "podMap q name = None"
    and root: "inode_at (peFeed env ai) (peLibs env) (peJson env) (feeds w) (blobs w) (aiAddress ai) pw ''/'' nd"
      "length (index_path ''/'') \<le> maxlen"
  obtains info q' w' r where "OpenPod env q name w = (Inr info, q', w')" "podMap q' name = Some info"
    "inName info = name" "inPassword info = pw" "inUser info = aiAddress ai" "inAccount info = ai" "inFeed info = ai"
    "drMap (inDir info) ''/'' = Some r" "drHeap (inDir info) r = nd"
proof -
  obtain w1 where h: "GetPodList env q w = (Inr l, w1)" "inv b w1" "feeds w1 = feeds w" "blobs w1 = blobs w"
    by (rule GetPodList_ok [OF b u at(1)])
  have pr: "checkIfPodPresent l name" using at(3) by (force simp: checkIfPodPresent_names)
  have ix: "getIndexPassword l name = (i, pw)" using getIndexPassword_in [OF at(2,3)] by simp
  have ga: "GetAddress a2 i = Inr (aiAddress ai)" using CreatePodAccount_ok [OF acc(1)] acc(3) by (simp add: UserAccountIndex_def)
  define k where "k = new_info env name pw (aiAddress ai) ai ai"
  define q1 where "q1 = addPodToPodMap name k (q\<lparr>pdAccount := a2\<rparr>)"
  have op: "open_listed env q l name = (Inr (k, False), q1)"
    using pr ix acc(1,3) ga by (simp add: open_listed_def Let_def k_def q1_def)
  have k: "inName k = name" "inPassword k = pw" "inUser k = aiAddress ai" "inAccount k = ai" "inFeed k = ai"
    "drUser (inDir k) = aiAddress ai" "dir_ok (peFeed env ai) (peLibs env) (peJson env) maxlen (feeds w1) (blobs w1) pw (inDir k)"
    by (simp_all add: k_def new_info_def NewDirectory_def NewFile_def dir_inv_def)
  have root1: "inode_at (peFeed env ai) (peLibs env) (peJson env) (feeds w1) (blobs w1) (drUser (inDir k)) pw ''/'' nd"
    using root(1) h(3,4) k(6) by simp
  have rt: "rooted ''/''" by (simp add: rooted_def)
  obtain a d w2 where r: "GetInode (peFeed env ai) (peLibs env) (peJson env) (peLate env) (inDir k) pw ''/'' w1 = (Inr a, d, w2)"
    "drHeap d a = nd"
    by (rule storage.GetInode_ok [OF net [OF acc(2)] h(2) k(7) root1 rt root(2) caps])
  define d' where "d' = AddToDirectoryMap ''/'' a d"
  have add: "AddRootDir (peFeed env ai) (peLibs env) (peJson env) (peLate env) (inDir k) pw w1 = (Inr (), d', w2)"
    using r(1) by (simp add: AddRootDir_def CombinePathAndFile_def TrimPrefix_def d'_def)
  have opq: "OpenPod env q name w = (Inr (set_inDir d' k), change_info name (set_inDir d') q1, w2)"
    using no h(1) op add k by (simp add: OpenPod_def GetPodInfoFromPodMap_def)
  have q1: "podMap (change_info name (set_inDir d') q1) name = Some (set_inDir d' k)"
    by (simp add: change_info_def q1_def addPodToPodMap_def)
  show thesis
    by (rule that [OF opq q1]) (use k(1-5) r(2) in \<open>simp_all add: d'_def AddToDirectoryMap_def\<close>)
qed

text \<open>Sharing a pod of one's own, and receiving what was shared.\<close>

lemma PodShare_ok:
  assumes b: "inv (Suc b) w" and u: "user_ok env maxlen (acUser (pdAccount p))"
    and at: "pods_at env (feeds w) (blobs w) (acUser (pdAccount p)) l" "pods_ok l" "item \<in> set (Pods l)"
    and acc: "CreatePodAccount (peWallet env) (lIndex item) (pdAccount p) = (Inr ai, a1)" and sh: "shared \<noteq> []"
  obtains ref p' w' where "PodShare env p (lName item) shared w = (Inr (Reference_String ref), p', w')" "inv b w'"
    "feeds w' = feeds w" "blobs w \<subseteq>\<^sub>m blobs w'"
    "blobs w' ref = Some (Doc (DShareInfo (share_info p' shared ai (lPassword item))))"
proof -
  let ?u = "acUser (pdAccount p)"
  have st: "storage (peFeed env ?u) maxlen inv feeds blobs" using u by (intro net) (simp add: user_ok_def)
  obtain w0 where g: "GetPodList env p w = (Inr l, w0)" "inv (Suc b) w0" "feeds w0 = feeds w" "blobs w0 = blobs w"
    by (rule GetPodList_ok [OF b u at(1)])
  define p1 where "p1 = p\<lparr>pdAccount := a1\<rparr>"
  have p1: "acUser (pdAccount p1) = ?u" using CreatePodAccount_ok [OF acc] by (simp add: p1_def)
  have idx: "0 < lIndex item" using at(2,3) by (auto simp: pods_ok_def)
  have pr: "checkIfPodPresent l (lName item)" using at(3) by (auto simp: checkIfPodPresent_names)
  have own: "own_pod env p (lName item) w = (Inr (ai, lPassword item), p1, w0)"
    using pr g(1) getIndexPassword_in [OF at(2,3)] idx acc by (simp add: own_pod_def p1_def)
  let ?si = "share_info p1 shared ai (lPassword item)"
  obtain rb w1 where ub: "UploadBlob (peFeed env ?u) (Doc (DShareInfo ?si)) w0 = (rb, w1)" by fastforce
  from storage.upload_blob [OF st g(2) ub] obtain ref where ref: "rb = Inr ref" "inv b w1" "feeds w1 = feeds w0"
    "blobs w1 = (blobs w0)(ref \<mapsto> Doc (DShareInfo ?si))" "blobs w0 ref = None \<or> blobs w0 ref = Some (Doc (DShareInfo ?si))" by blast
  have run: "PodShare env p (lName item) shared w = (Inr (Reference_String ref), p1, w1)"
    using own ub ref(1) sh p1 by (simp add: PodShare_def Let_def)
  show thesis
    by (rule that [OF run ref(2)]) (use ref(3-5) g(3,4) in \<open>auto simp: map_le_def\<close>)
qed

lemma ReceivePod_ok:
  assumes b: "inv (b + 3) w" and u: "user_ok env maxlen (acUser (pdAccount q))"
    and at: "pods_at env (feeds w) (blobs w) (acUser (pdAccount q)) m"
    and blob: "blobs w ref = Some (Doc (DShareInfo si))" "shAddress si \<noteq> []"
    and name: "CleanPodName (shPodName si) = Inr name" "name \<notin> pod_names m"
    and fit: "podlist_fits env (m\<lparr>SharedPods := SharedPods m @ [\<lparr>sName = name, sAddress = shAddress si, sPassword = shPassword si\<rparr>]\<rparr>)"
  obtains info q' w' where "ReceivePod env q [] ref w = (Inr info, q', w')"
    "info = new_info env name (shPassword si) (HexToAddress (shAddress si)) (shared_account (shAddress si)) (shared_account (shAddress si))"
    "podMap q' = (podMap q)(name \<mapsto> info)"
    "pods_at env (feeds w') (blobs w') (acUser (pdAccount q))
       (m\<lparr>SharedPods := SharedPods m @ [\<lparr>sName = name, sAddress = shAddress si, sPassword = shPassword si\<rparr>]\<rparr>)"
proof -
  let ?v = "acUser (pdAccount q)" and ?a = "shAddress si"
  have st: "storage (peFeed env ?v) maxlen inv feeds blobs" using u by (intro net) (simp add: user_ok_def)
  obtain rd w1 where db: "DownloadBlob (peFeed env ?v) ref w = (rd, w1)" by fastforce
  from storage.download_blob [OF st b db] blob(1) have d: "inv (b + 3) w1" "feeds w1 = feeds w" "blobs w1 = blobs w"
    "rd = Inr (Doc (DShareInfo si), 200)" by auto
  have info: "ReceivePodInfo env q ref w = (Inr si, w1)" using db d(4) share_json by (simp add: ReceivePodInfo_def)
  have at1: "pods_at env (feeds w1) (blobs w1) ?v m" using at d(2,3) by simp
  obtain w2 where h: "GetPodList env q w1 = (Inr m, w2)" "inv (b + 3) w2" "feeds w2 = feeds w1" "blobs w2 = blobs w1"
    by (rule GetPodList_ok [OF d(1) u at1])
  have at2: "pods_at env (feeds w2) (blobs w2) ?v m" using at1 h(3,4) by simp
  define k where "k = new_info env name (shPassword si) (HexToAddress ?a) (shared_account ?a) (shared_account ?a)"
  obtain w3 where c: "create_shared env q m name ?a (shPassword si) w2 = (Inr k, addPodToPodMap name k q, w3)"
    "pods_at env (feeds w3) (blobs w3) ?v (m\<lparr>SharedPods := SharedPods m @ [\<lparr>sName = name, sAddress = ?a, sPassword = shPassword si\<rparr>]\<rparr>)"
    unfolding k_def by (rule create_shared_ok [OF h(2) u at2 fit])
  have "\<not> checkIfPodPresent m name" "\<not> checkIfSharedPodPresent m name" using name(2) present_names [of m name] by auto
  then have run: "ReceivePod env q [] ref w = (Inr k, addPodToPodMap name k q, w3)"
    using info name(1) h(1) blob(2) c(1) by (simp add: ReceivePod_def CreatePod_def)
  show thesis by (rule that [OF run k_def _ c(2)]) (simp add: addPodToPodMap_def)
qed

end

section \<open>Properties\<close>

text \<open>C29: the list of the pods is read back as it was stored, in this session and in
  a new one of the same user, by PodList and by ListPods.\<close>

theorem pod_list_round_trip:
  assumes "pods env maxlen good feeds blobs" "good (b + 3) w" "user_ok env maxlen (acUser (pdAccount p))" "podlist_fits env l"
    "file_topic_ok (feeds w) (user_feed env p) (aiAddress (acUser (pdAccount p))) pods_path (user_secret (acUser (pdAccount p)))"
    "acUser (pdAccount q) = acUser (pdAccount p)"
  shows "\<exists>w1 w2 w3. storeUserPodsV2 env p l w = (Inr (), w1) \<and> good b w1 \<and> GetPodList env q w1 = (Inr l, w2)
    \<and> ListPods env q w1 = (Inr (map lName (Pods l), map sName (SharedPods l)), w3)"
proof -
  obtain w1 where s: "storeUserPodsV2 env p l w = (Inr (), w1)" "good b w1" "pods_at env (feeds w1) (blobs w1) (acUser (pdAccount p)) l"
    by (rule pods.store_ok [OF assms(1-5)]) (rule that)
  have u: "user_ok env maxlen (acUser (pdAccount q))" "pods_at env (feeds w1) (blobs w1) (acUser (pdAccount q)) l"
    using assms(3,6) s(3) by simp_all
  obtain w2 where l: "loadUserPodsV2 env q w1 = (Inr l, w2)" by (rule pods.load_ok [OF assms(1) s(2) u])
  show ?thesis using s(1,2) l by (auto simp: GetPodList_def ListPods_def Let_def)
qed

text \<open>C31: CreatePod refuses an empty and a too long name before it reads anything, and
  a name that is taken by an own or a shared pod; it writes nothing then.\<close>

theorem CreatePod_refuses:
  assumes "pods env maxlen good feeds blobs" "good b w" "user_ok env maxlen (acUser (pdAccount p))"
    "pods_at env (feeds w) (blobs w) (acUser (pdAccount p)) l" "TrimSpace taken \<in> pod_names l" "taken \<noteq> []" "length taken \<le> 64"
    "64 < length long"
  shows "CreatePod env p [] a pw w = (Inl ErrInvalidPodName, p, w)
    \<and> CreatePod env p long a pw w = (Inl ErrTooLongPodName, p, w)
    \<and> (\<exists>w'. CreatePod env p taken a pw w = (Inl ErrPodAlreadyExists, p, w') \<and> feeds w' = feeds w \<and> blobs w' = blobs w)"
proof -
  obtain w' where g: "GetPodList env p w = (Inr l, w')" "feeds w' = feeds w" "blobs w' = blobs w"
    by (rule pods.GetPodList_ok [OF assms(1-4)])
  have "long \<noteq> []" using assms(8) by auto
  moreover have "checkIfPodPresent l (TrimSpace taken) \<or> checkIfSharedPodPresent l (TrimSpace taken)"
    using assms(5) by (simp add: present_names)
  ultimately show ?thesis using g assms(6-8) by (auto simp: CreatePod_def CleanPodName_def MaxPodNameLength_def)
qed

text \<open>C27: CreatePod of a new name without an address derives the account of the smallest
  free index, appends the pod to the list, which stays well-formed, stores the root
  directory under the address of the account and opens the pod; a new session of the
  user then opens it by name with the same account, address and password, and finds
  the root directory.\<close>

theorem CreatePod_OpenPod:
  assumes "pods env maxlen good feeds blobs" "good (b + 6) w" "user_ok env maxlen (acUser (pdAccount p))"
    "pods_at env (feeds w) (blobs w) (acUser (pdAccount p)) l" "pods_ok l"
    "CleanPodName n = Inr name" "name \<notin> pod_names l" "getFreeId (pod_indexes l) = Inr i"
    "CreatePodAccount (peWallet env) i (pdAccount p) = (Inr ai, a1)" "aiKey ai \<noteq> None"
    "aiAddress ai \<noteq> aiAddress (acUser (pdAccount p))"
    "podlist_fits env (l\<lparr>Pods := Pods l @ [\<lparr>lName = name, lIndex = i, lPassword = pw\<rparr>]\<rparr>)"
    "file_topic_ok (feeds w) (peFeed env ai) (aiAddress ai) (index_path ''/'') pw"
    "\<And>now. clock_time (peFeed env ai) now \<Longrightarrow>
       inode_fits (peFeed env ai) (peJson env) maxlen pw \<lparr>iMeta = dir_meta [] ''/'' now 0, FileOrDirNames = []\<rparr>"
    "podMap q name = None" "acUser (pdAccount q) = acUser (pdAccount p)"
    "CreatePodAccount (peWallet env) i (pdAccount q) = (Inr ai, a2)"
  shows "\<exists>info p' w' info2 q' w2 r now.
    CreatePod env p n [] pw w = (Inr info, p', w') \<and> podMap p' = (podMap p)(name \<mapsto> info) \<and> pdAccount p' = a1
    \<and> pods_at env (feeds w') (blobs w') (acUser (pdAccount p)) (l\<lparr>Pods := Pods l @ [\<lparr>lName = name, lIndex = i, lPassword = pw\<rparr>]\<rparr>)
    \<and> pods_ok (l\<lparr>Pods := Pods l @ [\<lparr>lName = name, lIndex = i, lPassword = pw\<rparr>]\<rparr>)
    \<and> OpenPod env q name w' = (Inr info2, q', w2) \<and> podMap q' name = Some info2
    \<and> (\<forall>k \<in> {info, info2}. inName k = name \<and> inPassword k = pw \<and> inUser k = aiAddress ai \<and> inAccount k = ai \<and> inFeed k = ai)
    \<and> drMap (inDir info2) ''/'' = Some r
    \<and> drHeap (inDir info2) r = \<lparr>iMeta = dir_meta [] ''/'' now 0, FileOrDirNames = []\<rparr>"
proof -
  let ?u = "acUser (pdAccount p)" and ?l = "l\<lparr>Pods := Pods l @ [\<lparr>lName = name, lIndex = i, lPassword = pw\<rparr>]\<rparr>"
  note ok' = pods_ok_add_own [OF assms(5,7,8), of pw]
  have no: "\<not> checkIfPodPresent l name" "\<not> checkIfSharedPodPresent l name"
    using assms(7) present_names [of l name] by auto
  obtain w0 where g: "GetPodList env p w = (Inr l, w0)" "good (b + 6) w0" "feeds w0 = feeds w" "blobs w0 = blobs w"
    by (rule pods.GetPodList_ok [OF assms(1-4)])
  have at0: "pods_at env (feeds w0) (blobs w0) ?u l" "file_topic_ok (feeds w0) (peFeed env ai) (aiAddress ai) (index_path ''/'') pw"
    using assms(4,13) g(3,4) by simp_all
  obtain now info p' w' where c: "create_own env p l name pw w0 = (Inr info, p', w')" "good b w'"
    "pods_at env (feeds w') (blobs w') ?u ?l"
    "inode_at (peFeed env ai) (peLibs env) (peJson env) (feeds w') (blobs w') (aiAddress ai) pw ''/''
       \<lparr>iMeta = dir_meta [] ''/'' now 0, FileOrDirNames = []\<rparr>"
    "inName info = name" "inPassword info = pw" "inUser info = aiAddress ai" "inAccount info = ai" "inFeed info = ai"
    "podMap p' = (podMap p)(name \<mapsto> info)" "pdAccount p' = a1"
    by (rule pods.create_own_ok [OF assms(1) g(2) assms(3) at0(1) assms(8-12) at0(2) assms(14)]) (assumption, rule that)
  have run: "CreatePod env p n [] pw w = (Inr info, p', w')"
    using assms(6) g(1) no c(1) by (simp add: CreatePod_def)
  have uq: "user_ok env maxlen (acUser (pdAccount q))" "pods_at env (feeds w') (blobs w') (acUser (pdAccount q)) ?l"
    using assms(3,16) c(3) by simp_all
  have i: "0 < i" using free_index [OF assms(8)] by simp
  have mem: "\<lparr>lName = name, lIndex = i, lPassword = pw\<rparr> \<in> set (Pods ?l)" by simp
  obtain t where "clock_time (peFeed env ai) t" by (rule clock_time_ex)
  from assms(14) [OF this] have len: "length (index_path ''/'') \<le> maxlen"
    by (simp add: inode_fits_def inode_path_def dir_meta_def CombinePathAndFile_def)
  obtain info2 q' w2 r where o: "OpenPod env q name w' = (Inr info2, q', w2)" "podMap q' name = Some info2"
    "inName info2 = name" "inPassword info2 = pw" "inUser info2 = aiAddress ai" "inAccount info2 = ai" "inFeed info2 = ai"
    "drMap (inDir info2) ''/'' = Some r" "drHeap (inDir info2) r = \<lparr>iMeta = dir_meta [] ''/'' now 0, FileOrDirNames = []\<rparr>"
    by (rule pods.OpenPod_own_ok [OF assms(1) c(2) uq ok' mem assms(17,10) i assms(15) c(4) len])
  show ?thesis
    by (intro exI conjI, rule run, rule c(10), rule c(11), rule c(3), rule ok', rule o(1), rule o(2))
       (use c(5-9) o(3-9) in simp_all)
qed

text \<open>C28: a pod that one user shares is received by another under the given name: the
  reference that PodShare prints leads ReceivePod to the address and the password of
  the pod, the receiver's list gains the pod and stays well-formed, and the opened
  pod is the owner's by its address but has no private key.\<close>

theorem PodShare_ReceivePod:
  assumes "pods env maxlen good feeds blobs" "good (b + 4) w"
    "user_ok env maxlen (acUser (pdAccount p))" "pods_at env (feeds w) (blobs w) (acUser (pdAccount p)) l" "pods_ok l"
    "item \<in> set (Pods l)" "CreatePodAccount (peWallet env) (lIndex item) (pdAccount p) = (Inr ai, a1)" "length (aiAddress ai) = 20"
    "user_ok env maxlen (acUser (pdAccount q))" "pods_at env (feeds w) (blobs w) (acUser (pdAccount q)) m" "pods_ok m"
    "CleanPodName shared = Inr name" "name \<notin> pod_names m"
    "podlist_fits env (m\<lparr>SharedPods := SharedPods m @ [\<lparr>sName = name, sAddress = Address_String (aiAddress ai), sPassword = lPassword item\<rparr>]\<rparr>)"
  shows "\<exists>text p' w1 ref info q' w2. PodShare env p (lName item) shared w = (Inr text, p', w1)
    \<and> ParseHexReference text = Inr ref \<and> ReceivePod env q [] ref w1 = (Inr info, q', w2)
    \<and> inName info = name \<and> inPassword info = lPassword item \<and> inUser info = aiAddress ai
    \<and> aiAddress (inFeed info) = aiAddress ai \<and> IsReadOnlyPod (inFeed info) \<and> podMap q' = (podMap q)(name \<mapsto> info)
    \<and> pods_at env (feeds w2) (blobs w2) (acUser (pdAccount q))
        (m\<lparr>SharedPods := SharedPods m @ [\<lparr>sName = name, sAddress = Address_String (aiAddress ai), sPassword = lPassword item\<rparr>]\<rparr>)
    \<and> pods_ok (m\<lparr>SharedPods := SharedPods m @ [\<lparr>sName = name, sAddress = Address_String (aiAddress ai), sPassword = lPassword item\<rparr>]\<rparr>)"
proof -
  let ?v = "acUser (pdAccount q)" and ?a = "Address_String (aiAddress ai)"
  have sh: "shared \<noteq> []" using assms(12) by (auto simp: CleanPodName_def)
  have hex: "HexToAddress ?a = aiAddress ai"
    using assms(8) by (simp add: HexToAddress_def fromHex_def Address_String_def no_prefix_HexEncode bytesToAddress_id AddressLength_def)
  have ne: "?a \<noteq> []" using arg_cong [OF hex, of length] assms(8) by (auto simp: Address_String_def HexEncode_def)
  have g: "good (Suc (b + 3)) w" using assms(2) by (simp add: numeral_eq_Suc)
  obtain ref p' w1 where s: "PodShare env p (lName item) shared w = (Inr (Reference_String ref), p', w1)" "good (b + 3) w1"
    "feeds w1 = feeds w" "blobs w \<subseteq>\<^sub>m blobs w1"
    "blobs w1 ref = Some (Doc (DShareInfo (share_info p' shared ai (lPassword item))))"
    by (rule pods.PodShare_ok [OF assms(1) g assms(3-7) sh])
  have si: "shPodName (share_info p' shared ai (lPassword item)) = shared" "shAddress (share_info p' shared ai (lPassword item)) = ?a"
    "shPassword (share_info p' shared ai (lPassword item)) = lPassword item" by (simp_all add: share_info_def)
  have at: "pods_at env (feeds w1) (blobs w1) ?v m"
    unfolding pods_at_def by (rule text_at_mono [OF assms(10) [unfolded pods_at_def] s(4)]) (simp add: s(3))
  obtain info q' w2 where r: "ReceivePod env q [] ref w1 = (Inr info, q', w2)"
    "info = new_info env name (lPassword item) (HexToAddress ?a) (shared_account ?a) (shared_account ?a)"
    "podMap q' = (podMap q)(name \<mapsto> info)"
    "pods_at env (feeds w2) (blobs w2) ?v (m\<lparr>SharedPods := SharedPods m @ [\<lparr>sName = name, sAddress = ?a, sPassword = lPassword item\<rparr>]\<rparr>)"
    by (rule pods.ReceivePod_ok [OF assms(1) s(2) assms(9) at s(5), unfolded si, OF ne assms(12-14)])
  have parse: "ParseHexReference (Reference_String ref) = Inr ref" by (simp add: ParseHexReference_def Reference_String_def)
  show ?thesis
    by (intro exI conjI, rule s(1), rule parse, rule r(1))
       (use r(3,4) hex pods_ok_add_shared [OF assms(11,13) ne] in
         \<open>simp_all add: r(2) new_info_def shared_account_def SetAddress_def IsReadOnlyPod_def GetEmptyAccountInfo_def\<close>)
qed

text \<open>C30: DeleteSharedPod takes exactly the named pod off the list, which stays
  well-formed, and closes it; an unknown name is refused and nothing is written.\<close>

theorem DeleteSharedPod_removes:
  assumes "pods env maxlen good feeds blobs" "good (b + 3) w" "user_ok env maxlen (acUser (pdAccount p))"
    "pods_at env (feeds w) (blobs w) (acUser (pdAccount p)) l" "pods_ok l"
    "podlist_fits env (l\<lparr>SharedPods := filter (\<lambda>q. sName q \<noteq> name) (SharedPods l)\<rparr>)"
  shows "\<exists>r p' w'. DeleteSharedPod env p name w = (r, p', w') \<and>
    (if name \<in> sName ` set (SharedPods l)
     then r = Inr () \<and> p' = removePodFromPodMap name p
       \<and> pods_at env (feeds w') (blobs w') (acUser (pdAccount p)) (l\<lparr>SharedPods := filter (\<lambda>q. sName q \<noteq> name) (SharedPods l)\<rparr>)
       \<and> pods_ok (l\<lparr>SharedPods := filter (\<lambda>q. sName q \<noteq> name) (SharedPods l)\<rparr>)
     else r = Inl (Errorf ''pod not found'') \<and> p' = p \<and> feeds w' = feeds w \<and> blobs w' = blobs w)"
proof -
  let ?left = "filter (\<lambda>q. sName q \<noteq> name) (SharedPods l)" and ?p = "removePodFromPodMap name p"
  obtain w0 where g: "GetPodList env p w = (Inr l, w0)" "good (b + 3) w0" "feeds w0 = feeds w" "blobs w0 = blobs w"
    by (rule pods.GetPodList_ok [OF assms(1-4)])
  have dl: "delete_items (\<lambda>q. sName q = name) (SharedPods l)
      = Inr (?left, if name \<in> sName ` set (SharedPods l) then Some (length (takeWhile (\<lambda>q. sName q \<noteq> name) (SharedPods l))) else None)"
    using assms(5) by (intro delete_items_distinct) (simp add: pods_ok_def)
  show ?thesis
  proof (cases "name \<in> sName ` set (SharedPods l)")
    case True
    have u: "acUser (pdAccount ?p) = acUser (pdAccount p)" by (simp add: removePodFromPodMap_def)
    have t: "file_topic_ok (feeds w0) (user_feed env ?p) (aiAddress (acUser (pdAccount ?p))) pods_path (user_secret (acUser (pdAccount ?p)))"
      unfolding u g(3) by (rule text_at_topic [OF assms(4) [unfolded pods_at_def]])
    obtain w1 where s: "storeUserPodsV2 env ?p (l\<lparr>SharedPods := ?left\<rparr>) w0 = (Inr (), w1)"
      "pods_at env (feeds w1) (blobs w1) (acUser (pdAccount ?p)) (l\<lparr>SharedPods := ?left\<rparr>)"
      by (rule pods.store_ok [OF assms(1) g(2) assms(3) [folded u] assms(6) t])
    have "DeleteSharedPod env p name w = (Inr (), ?p, w1)" using g(1) dl True s(1) by (simp add: DeleteSharedPod_def)
    with True s(2) u pods_ok_remove_shared [OF assms(5)] show ?thesis by auto
  next
    case False
    have "DeleteSharedPod env p name w = (Inl (Errorf ''pod not found''), p, w0)"
      using g(1) dl False by (simp add: DeleteSharedPod_def)
    with False g(3,4) show ?thesis by auto
  qed
qed

end
