(* ===== verification/PodRuns.thy ===== *)
theory PodRuns
  imports PodLife DirRuns DocRuns
begin

text \<open>
  Runs of the pod operations on the Swarm in memory, and the interpretation of the
  locale pods.  One handler serves the feeds of every account that has a key; the
  derived keys are the derivation paths.
\<close>

section \<open>An encoding of the list\<close>

definition enc_int :: "int \<Rightarrow> string" where
  "enc_int i = (if i < 0 then CHR ''-'' # replicate (nat (- i)) CHR ''1'' else replicate (nat i) CHR ''1'')"

definition dec_int :: "string \<Rightarrow> int" where
  "dec_int s = (if s \<noteq> [] \<and> hd s = CHR ''-'' then - int (length s - 1) else int (length s))"

definition list_strings :: "PodList \<Rightarrow> string list" where
  "list_strings l =
     concat (map (\<lambda>q. [''o'', lName q, enc_int (lIndex q), lPassword q]) (Pods l))
     @ concat (map (\<lambda>q. [''s'', sName q, sAddress q, sPassword q]) (SharedPods l))"

fun strings_list :: "string list \<Rightarrow> PodList" where
  "strings_list (k # n # x # pw # ss) =
     (let l = strings_list ss in
      if k = ''o'' then l\<lparr>Pods := \<lparr>lName = n, lIndex = dec_int x, lPassword = pw\<rparr> # Pods l\<rparr>
      else l\<lparr>SharedPods := \<lparr>sName = n, sAddress = x, sPassword = pw\<rparr> # SharedPods l\<rparr>)"
| "strings_list ss = \<lparr>Pods = [], SharedPods = []\<rparr>"

lemma dec_enc_int [simp]: "dec_int (enc_int i) = i"
  by (cases "nat i") (auto simp: dec_int_def enc_int_def)

lemma strings_list_inv: "strings_list (list_strings l) = l"
proof -
  have s: "strings_list (concat (map (\<lambda>q. [''s'', sName q, sAddress q, sPassword q]) qs)) = \<lparr>Pods = [], SharedPods = qs\<rparr>" for qs
    by (induction qs) simp_all
  have "strings_list (concat (map (\<lambda>q. [''o'', lName q, enc_int (lIndex q), lPassword q]) ps)
      @ concat (map (\<lambda>q. [''s'', sName q, sAddress q, sPassword q]) qs)) = \<lparr>Pods = ps, SharedPods = qs\<rparr>" for ps qs
    by (induction ps) (simp_all add: s)
  then show ?thesis by (simp add: list_strings_def)
qed

definition pod_json :: json where
  "pod_json = \<lparr>Marshal = (\<lambda>d. case d of DInode i \<Rightarrow> enc_inode i | DPodList l \<Rightarrow> 7 # enc_strings (list_strings l) | _ \<Rightarrow> [0]),
     UnmarshalInode = dec_inode, UnmarshalPodList = (\<lambda>b. Some (strings_list (dec_strings [] (tl b)))),
     UnmarshalGroupList = (\<lambda>b. None), UnmarshalPermissions = (\<lambda>b. None)\<rparr>"

lemma pod_list_json: "UnmarshalPodList pod_json (Marshal pod_json (DPodList l)) = Some l"
proof -
  have "dec_strings [] (enc_strings ss) = ss" for ss by (simp add: dec_enc_strings split: list.split)
  then show ?thesis by (simp add: pod_json_def strings_list_inv)
qed

section \<open>The environment\<close>

definition pod_wallet :: hdlib where
  "pod_wallet = \<lparr>NewFromSeed = (\<lambda>s. Inr ()), Derive = (\<lambda>s path. Inr ()), PrivateKey = (\<lambda>s path. Inr (bytes_of path)),
     PublicKey = (\<lambda>s path. Inr (bytes_of path)), NewEthereumAddress = (\<lambda>k. Inr k), NewEntropy = Inr [], NewMnemonic = (\<lambda>e. Inr []),
     NewFromMnemonic = (\<lambda>m. Inr []), NewSeedFromMnemonic = (\<lambda>m. Inr []), IsMnemonicValid = (\<lambda>m. True)\<rparr>"

definition pod_feed :: "AccInfo \<Rightarrow> ((bytes \<times> Address) Handler \<times> memnet) services" where
  "pod_feed ai = (if aiKey ai = None then mem_services\<lparr>IsReadOnlyFeed := \<lambda>w. True\<rparr> else mem_services)"

definition run_env :: "((bytes \<times> Address) Handler \<times> memnet, int, int) podenv" where
  "run_env = \<lparr>peFeed = pod_feed, peCommit = (\<lambda>ai w. (Inr (), w)), peWallet = pod_wallet, peLibs = run_libs, peJson = pod_json,
     peListV1 = (\<lambda>c. case c of Doc (DPodList l) \<Rightarrow> Some l | _ \<Rightarrow> None),
     peShareInfo = (\<lambda>c. case c of Doc (DShareInfo si) \<Rightarrow> Some si | _ \<Rightarrow> None),
     peDocs = run_lib, peLate = (\<lambda>i. False), peTables = (\<lambda>t. t), peDBs = (\<lambda>d. d),
     peInodes = (\<lambda>a. \<lparr>iMeta = dir_meta [] [] 0 0, FileOrDirNames = []\<rparr>), peIndexes = (\<lambda>a. run_idx)\<rparr>"

interpretation run: pods run_env 31 mem_good mem_feeds mem_blobs
proof (rule pods.intro)
  show "storage (peFeed run_env ai) 31 mem_good mem_feeds mem_blobs" if "aiKey ai \<noteq> None" for ai
    using mem_storage that by (simp add: run_env_def pod_feed_def del: not_None_eq)
  show "codec_ok (peLibs run_env) ''gzip'' MinBlockSize" using run_libs_ok(2) by (simp add: run_env_def)
  show "caps_ok (peLibs run_env)" using run_libs_ok(1) by (simp add: run_env_def)
  show "UnmarshalPodList (peJson run_env) (Marshal (peJson run_env) (DPodList l)) = Some l" for l
    using pod_list_json by (simp add: run_env_def)
  show "Marshal (peJson run_env) (DPodList l) \<noteq> []" for l by (simp add: run_env_def pod_json_def)
  show "peShareInfo run_env (Doc (DShareInfo si)) = Some si" for si by (simp add: run_env_def)
qed

text \<open>Two users, the first with the account of the path of its wallet, and a list.\<close>

definition run_user :: "byte \<Rightarrow> Account" where
  "run_user b = \<lparr>acWallet = newWallet (Some []), acUser = \<lparr>aiKey = Some [b], aiPublic = Some [b], aiAddress = replicate 20 b\<rparr>,
     acPods = Map.empty\<rparr>"

definition run_pods :: PodList where
  "run_pods = \<lparr>Pods = [\<lparr>lName = ''a'', lIndex = 1, lPassword = ''x''\<rparr>],
     SharedPods = [\<lparr>sName = ''s'', sAddress = ''ab'', sPassword = ''y''\<rparr>]\<rparr>"

lemma run_users:
  "user_ok run_env 31 (acUser (pdAccount (NewPod (run_user b))))"
  by (simp add: user_ok_def NewPod_def run_user_def pods_path_def run_env_def pod_feed_def run_storable)

lemma run_list_fits:
  "sum_list (map (\<lambda>s. 2 * length s + 1) (list_strings l)) < 1000000 \<Longrightarrow> podlist_fits run_env l"
  by (simp add: podlist_fits_def run_env_def pod_json_def length_enc_strings MinBlockSize_def)

lemma run_pods_ok: "pods_ok run_pods" "podlist_fits run_env run_pods"
proof -
  show "pods_ok run_pods" by (simp add: pods_ok_def run_pods_def)
  show "podlist_fits run_env run_pods"
    by (rule run_list_fits) (simp add: list_strings_def run_pods_def enc_int_def)
qed

lemma run_no_topic: "file_topic_ok (mem_feeds mem_start) sv u path pw"
  by (simp add: file_topic_ok_def mem_start_empty)

lemma pod_list_round_trip_witness:
  "\<exists>w1 w2 w3. storeUserPodsV2 run_env (NewPod (run_user 1)) run_pods mem_start = (Inr (), w1) \<and> mem_good 0 w1
    \<and> GetPodList run_env (NewPod (run_user 1)) w1 = (Inr run_pods, w2)
    \<and> ListPods run_env (NewPod (run_user 1)) w1 = (Inr (map lName (Pods run_pods), map sName (SharedPods run_pods)), w3)"
  by (rule pod_list_round_trip [OF run.pods_axioms _ run_users run_pods_ok(2) run_no_topic refl]) (simp add: mem_start_good)

text \<open>Both users have the list.\<close>

lemma run_stored:
  obtains w where "mem_good 100 w" "pods_at run_env (mem_feeds w) (mem_blobs w) (acUser (pdAccount (NewPod (run_user 1)))) run_pods"
    "pods_at run_env (mem_feeds w) (mem_blobs w) (acUser (pdAccount (NewPod (run_user 2)))) run_pods"
    "\<And>u t pw. u \<notin> {replicate 20 1, replicate 20 2} \<Longrightarrow> mem_feeds w (u, t, pw) = None"
proof -
  let ?u = "acUser (pdAccount (NewPod (run_user 1)))" and ?v = "acUser (pdAccount (NewPod (run_user 2)))"
  have a: "aiAddress ?u = replicate 20 1" "aiAddress ?v = replicate 20 2" by (simp_all add: NewPod_def run_user_def)
  have ne: "replicate 20 (1 :: byte) \<noteq> replicate 20 2"
  proof
    assume "replicate 20 (1 :: byte) = replicate 20 2"
    from arg_cong [OF this, of hd] show False by simp
  qed
  have g: "mem_good (103 + 3) mem_start" by (simp add: mem_start_good)
  obtain w1 where 1: "mem_good 103 w1" "pods_at run_env (mem_feeds w1) (mem_blobs w1) ?u run_pods"
    "\<And>u' t q. (u', t) \<noteq> (aiAddress ?u, HashString (user_feed run_env (NewPod (run_user 1))) pods_path) \<Longrightarrow>
       mem_feeds w1 (u', t, q) = mem_feeds mem_start (u', t, q)"
    by (rule run.store_ok [OF g run_users run_pods_ok(2) run_no_topic]) (rule that)
  have g1: "mem_good (100 + 3) w1" using 1(1) by simp
  have t: "file_topic_ok (mem_feeds w1) (user_feed run_env (NewPod (run_user 2))) (aiAddress ?v) pods_path (user_secret ?v)"
    using 1(3) a ne by (simp add: file_topic_ok_def mem_start_empty)
  obtain w2 where 2: "mem_good 100 w2" "mem_blobs w1 \<subseteq>\<^sub>m mem_blobs w2" "pods_at run_env (mem_feeds w2) (mem_blobs w2) ?v run_pods"
    "\<And>u' t q. (u', t) \<noteq> (aiAddress ?v, HashString (user_feed run_env (NewPod (run_user 2))) pods_path) \<Longrightarrow>
       mem_feeds w2 (u', t, q) = mem_feeds w1 (u', t, q)"
    by (rule run.store_ok [OF g1 run_users run_pods_ok(2) t]) (rule that)
  have at: "pods_at run_env (mem_feeds w2) (mem_blobs w2) ?u run_pods"
    unfolding pods_at_def by (rule text_at_mono [OF 1(2) [unfolded pods_at_def] 2(2)]) (use 2(4) a ne in simp)
  show thesis
    by (rule that [OF 2(1) at 2(3)]) (use 1(3) 2(4) a in \<open>simp add: mem_start_empty\<close>)
qed

lemma run_names: "pod_names run_pods = {''a'', ''s''}"
  by (auto simp: pod_names_def run_pods_def)

lemma CreatePod_refuses_witness:
  "\<exists>w. CreatePod run_env (NewPod (run_user 1)) [] [] ''z'' w = (Inl ErrInvalidPodName, NewPod (run_user 1), w)
    \<and> CreatePod run_env (NewPod (run_user 1)) (replicate 65 CHR ''n'') [] ''z'' w = (Inl ErrTooLongPodName, NewPod (run_user 1), w)
    \<and> (\<exists>w'. CreatePod run_env (NewPod (run_user 1)) '' s'' [] ''z'' w = (Inl ErrPodAlreadyExists, NewPod (run_user 1), w')
        \<and> mem_feeds w' = mem_feeds w \<and> mem_blobs w' = mem_blobs w)"
proof -
  obtain w where w: "mem_good 100 w" "pods_at run_env (mem_feeds w) (mem_blobs w) (acUser (pdAccount (NewPod (run_user 1)))) run_pods"
    by (rule run_stored)
  have "TrimSpace '' s'' \<in> pod_names run_pods" by (simp only: run_names) code_simp
  from CreatePod_refuses [OF run.pods_axioms w(1) run_users w(2) this, of "replicate 65 CHR ''n''" "[]" "''z''"]
  show ?thesis by (intro exI [of _ w]) simp
qed

text \<open>The account of the index 2.\<close>

definition run_account :: AccInfo where
  "run_account = \<lparr>aiKey = Some (bytes_of ''m/44'/60'/0'/0/2''), aiPublic = Some (bytes_of ''m/44'/60'/0'/0/2''),
     aiAddress = replicate 4 0 @ bytes_of ''m/44'/60'/0'/0/2''\<rparr>"

lemma run_pod_path: "genericPath @ FormatInt 2 = ''m/44'/60'/0'/0/2''"
proof -
  have "(of_char (CHR ''2'') :: nat) = 50" by simp
  then have "char_of (50 :: nat) = CHR ''2''" by (metis char_of_char)
  then have "FormatInt 2 = ''2''" by (subst FormatInt_def, subst digits.simps) simp
  then show ?thesis by (simp add: genericPath_def)
qed

lemma run_derive:
  "CreatePodAccount (peWallet run_env) 2 (run_user b) = (Inr run_account, (run_user b)\<lparr>acPods := [2 \<mapsto> run_account]\<rparr>)"
proof -
  have "length (bytes_of ''m/44'/60'/0'/0/2'') = 16" by simp
  then have "SetBytes (bytes_of ''m/44'/60'/0'/0/2'') zero_address = replicate 4 0 @ bytes_of ''m/44'/60'/0'/0/2''"
    by (simp add: SetBytes_def AddressLength_def zero_address_def)
  then show ?thesis
    by (simp add: CreatePodAccount_def run_user_def newWallet_def CreateAccountFromSeed_def run_env_def pod_wallet_def
        set_keys_def Let_def run_pod_path GetEmptyAccountInfo_def run_account_def)
qed

lemma run_free: "getFreeId (pod_indexes run_pods) = Inr 2"
proof -
  have m: "3 + (maxPodId - 3) = maxPodId" by (simp add: maxPodId_def)
  have "[0..<0 + 3 + (maxPodId - 3)] = [0..<0 + 3] @ [0 + 3..<0 + 3 + (maxPodId - 3)]" by (rule upt_add_eq_append) simp
  then have "[0..<maxPodId] = [0..<3] @ [3..<maxPodId]" by (simp only: add_0 m)
  moreover have "[0..<3] = [0, 1, 2]" by (simp add: upt_rec)
  ultimately obtain rest where "[0..<maxPodId] = 0 # 1 # 2 # rest" by (metis append_Cons append_Nil)
  then show ?thesis by (simp add: getFreeId_def pod_indexes_def run_pods_def)
qed

lemma CreatePod_OpenPod_witness:
  "\<exists>w info p' w' info2 q' w2. CreatePod run_env (NewPod (run_user 1)) ''b'' [] ''z'' w = (Inr info, p', w')
    \<and> OpenPod run_env (NewPod (run_user 1)) ''b'' w' = (Inr info2, q', w2) \<and> inUser info2 = aiAddress run_account"
proof -
  let ?p = "NewPod (run_user 1)"
  let ?l = "run_pods\<lparr>Pods := Pods run_pods @ [\<lparr>lName = ''b'', lIndex = 2, lPassword = ''z''\<rparr>]\<rparr>"
  obtain w where w: "mem_good 100 w" "pods_at run_env (mem_feeds w) (mem_blobs w) (acUser (pdAccount ?p)) run_pods"
    "pods_at run_env (mem_feeds w) (mem_blobs w) (acUser (pdAccount (NewPod (run_user 2)))) run_pods"
    "\<And>u t pw. u \<notin> {replicate 20 1, replicate 20 2} \<Longrightarrow> mem_feeds w (u, t, pw) = None"
    by (rule run_stored) (rule that)
  have g: "mem_good (94 + 6) w" using w(1) by simp
  have cl: "CleanPodName ''b'' = Inr ''b''" by code_simp
  have nn: "''b'' \<notin> pod_names run_pods" by (simp add: run_names)
  have d: "CreatePodAccount (peWallet run_env) 2 (pdAccount ?p) = (Inr run_account, (run_user 1)\<lparr>acPods := [2 \<mapsto> run_account]\<rparr>)"
    using run_derive by (simp add: NewPod_def)
  have key: "aiKey run_account \<noteq> None" by (simp add: run_account_def)
  have ne: "aiAddress run_account \<noteq> aiAddress (acUser (pdAccount ?p))" "aiAddress run_account \<notin> {replicate 20 1, replicate 20 2}"
  proof -
    have "hd (aiAddress run_account) = 0" by (simp add: run_account_def)
    moreover have "hd (replicate 20 c) = c" for c :: byte by simp
    ultimately have "aiAddress run_account \<noteq> replicate 20 c" if "c \<noteq> 0" for c using that by metis
    then show "aiAddress run_account \<noteq> aiAddress (acUser (pdAccount ?p))" "aiAddress run_account \<notin> {replicate 20 1, replicate 20 2}"
      by (simp_all add: NewPod_def run_user_def)
  qed
  have fit: "podlist_fits run_env ?l" by (rule run_list_fits) (simp add: list_strings_def run_pods_def enc_int_def)
  have t: "file_topic_ok (mem_feeds w) (peFeed run_env run_account) (aiAddress run_account) (index_path ''/'') ''z''"
    using w(4) [OF ne(2)] by (simp add: file_topic_ok_def)
  have root: "inode_fits (peFeed run_env run_account) (peJson run_env) 31 ''z'' (root_inode now)"
    if "clock_time (peFeed run_env run_account) now" for now
  proof -
    have ms: "peFeed run_env run_account = mem_services" by (simp add: run_env_def pod_feed_def run_account_def)
    have "word_time now" using that run_clock unfolding ms by blast
    then have "dec_inode (enc_inode (root_inode now)) = Some (root_inode now)" by (intro dec_enc_inode) (simp_all add: dir_meta_def)
    then show ?thesis unfolding ms
      by (simp add: inode_fits_def InodeUnmarshal_def run_env_def pod_json_def enc_inode_def Let_def bytes_of_def
          DeletedFeedMagicWord_def length_enc_strings dir_meta_def run_storable MinBlockSize_def)
         (simp add: inode_path_def index_path_def CombinePathAndFile_def IndexFileName_def TrimPrefix_def)
  qed
  have pm: "podMap ?p ''b'' = None" by (simp add: NewPod_def)
  from CreatePod_OpenPod [OF run.pods_axioms g run_users w(2) run_pods_ok(1) cl nn run_free d key ne(1) fit t root pm refl d]
  obtain info p' w' info2 q' w2 where
    "CreatePod run_env ?p ''b'' [] ''z'' w = (Inr info, p', w')" "OpenPod run_env ?p ''b'' w' = (Inr info2, q', w2)"
    "inUser info2 = aiAddress run_account" by blast
  then show ?thesis by blast
qed

lemma PodShare_ReceivePod_witness:
  "\<exists>w text p' w1 ref info q' w2. PodShare run_env (NewPod ((run_user 1)\<lparr>acPods := [1 \<mapsto> run_account]\<rparr>)) ''a'' ''t'' w = (Inr text, p', w1)
    \<and> ParseHexReference text = Inr ref \<and> ReceivePod run_env (NewPod (run_user 2)) [] ref w1 = (Inr info, q', w2)
    \<and> inUser info = aiAddress run_account \<and> inPassword info = ''x'' \<and> IsReadOnlyPod (inFeed info)"
proof -
  let ?p = "NewPod ((run_user 1)\<lparr>acPods := [1 \<mapsto> run_account]\<rparr>)" and ?q = "NewPod (run_user 2)"
  let ?item = "\<lparr>lName = ''a'', lIndex = 1, lPassword = ''x''\<rparr>"
  let ?m = "run_pods\<lparr>SharedPods := SharedPods run_pods @
      [\<lparr>sName = ''t'', sAddress = Address_String (aiAddress run_account), sPassword = lPassword ?item\<rparr>]\<rparr>"
  obtain w where w: "mem_good 100 w" "pods_at run_env (mem_feeds w) (mem_blobs w) (acUser (pdAccount (NewPod (run_user 1)))) run_pods"
    "pods_at run_env (mem_feeds w) (mem_blobs w) (acUser (pdAccount ?q)) run_pods"
    by (rule run_stored)
  have g: "mem_good (96 + 4) w" using w(1) by simp
  have u: "acUser (pdAccount ?p) = acUser (pdAccount (NewPod (run_user 1)))" by (simp add: NewPod_def)
  have it: "?item \<in> set (Pods run_pods)" by (simp add: run_pods_def)
  have d: "CreatePodAccount (peWallet run_env) (lIndex ?item) (pdAccount ?p) = (Inr run_account, pdAccount ?p)"
    by (simp add: CreatePodAccount_def NewPod_def)
  have len: "length (aiAddress run_account) = 20" by (simp add: run_account_def)
  have cl: "CleanPodName ''t'' = Inr ''t''" by code_simp
  have nn: "''t'' \<notin> pod_names run_pods" by (simp add: run_names)
  have "length (Address_String (aiAddress run_account)) \<le> 40"
    using len by (simp add: Address_String_def HexEncode_def length_concat comp_def sum_list_triv)
  then have fit: "podlist_fits run_env ?m"
    by (intro run_list_fits) (simp add: list_strings_def run_pods_def enc_int_def)
  from PodShare_ReceivePod [OF run.pods_axioms g run_users [of 1, folded u] w(2) [folded u] run_pods_ok(1) it d len
      run_users w(3) run_pods_ok(1) cl nn fit]
  show ?thesis unfolding ListItem.select_convs by (elim exE conjE) (intro exI conjI; assumption)
qed

lemma DeleteSharedPod_removes_witness:
  "\<exists>w p' w'. DeleteSharedPod run_env (NewPod (run_user 1)) ''s'' w = (Inr (), p', w')
    \<and> pods_at run_env (mem_feeds w') (mem_blobs w') (acUser (pdAccount (NewPod (run_user 1)))) (run_pods\<lparr>SharedPods := []\<rparr>)"
proof -
  let ?p = "NewPod (run_user 1)"
  obtain w where w: "mem_good 100 w" "pods_at run_env (mem_feeds w) (mem_blobs w) (acUser (pdAccount ?p)) run_pods"
    by (rule run_stored)
  have g: "mem_good (97 + 3) w" using w(1) by simp
  have l: "run_pods\<lparr>SharedPods := filter (\<lambda>q. sName q \<noteq> ''s'') (SharedPods run_pods)\<rparr> = run_pods\<lparr>SharedPods := []\<rparr>"
    by (simp add: run_pods_def)
  have fit: "podlist_fits run_env (run_pods\<lparr>SharedPods := filter (\<lambda>q. sName q \<noteq> ''s'') (SharedPods run_pods)\<rparr>)"
    unfolding l by (rule run_list_fits) (simp add: list_strings_def run_pods_def enc_int_def)
  have s: "''s'' \<in> sName ` set (SharedPods run_pods)" by (simp add: run_pods_def)
  from DeleteSharedPod_removes [OF run.pods_axioms g run_users w(2) run_pods_ok(1) fit] show ?thesis
    unfolding l if_P [OF s] by blast
qed

end
