(* ===== verification/Acl.thy ===== *)
theory Acl
  imports PodProps
begin

text \<open>
  Access control lists of groups, pkg/acl/acl/controller.go.  The permissions of a
  group, a map from addresses to permissions, are a file under the address of the
  owner; ACL keeps the lists it has seen in listMap.  An entry of listMap is itself
  a map that the operations change in place.
\<close>

section \<open>The operations\<close>

definition NoPermission :: "8 word" where "NoPermission = 0"
definition PermissionRead :: "8 word" where "PermissionRead = 1"
definition PermissionWrite :: "8 word" where "PermissionWrite = 2"
definition PermissionExecute :: "8 word" where "PermissionExecute = 4"

record 'w aclenv =
  aeFeed :: "'w services"
  aeLibs :: libs
  aeJson :: json
  aeLate :: "nat \<Rightarrow> bool"

record ACL =
  listMap :: "string \<rightharpoonup> permissions"

definition NewACL :: ACL where
  "NewACL = \<lparr>listMap = Map.empty\<rparr>"

definition loadPermissions :: "'w aclenv \<Rightarrow> ACL \<Rightarrow> string \<Rightarrow> string \<Rightarrow> 'w \<Rightarrow> unit result \<times> ACL \<times> 'w" where
  "loadPermissions ae a grp ownerAddress w =
     (case download_text (aeFeed ae) (aeLibs ae) (HexToAddress ownerAddress) (CombinePathAndFile ownerAddress grp) [] w of
        (Inl e, w1) \<Rightarrow> (Inl e, a, w1)
      | (Inr data, w1) \<Rightarrow>
          if data = [] then (Inr (), a\<lparr>listMap := (listMap a)(grp \<mapsto> Map.empty)\<rparr>, w1)
          else (case UnmarshalPermissions (aeJson ae) data of
                  None \<Rightarrow> (Inl (Errorf ''json''), a, w1)
                | Some permissions \<Rightarrow> (Inr (), a\<lparr>listMap := (listMap a)(grp \<mapsto> permissions)\<rparr>, w1)))"

text \<open>A group that is not in listMap starts with its owner alone.\<close>

definition storePermissions :: "'w aclenv \<Rightarrow> ACL \<Rightarrow> string \<Rightarrow> string \<Rightarrow> 'w \<Rightarrow> unit result \<times> ACL \<times> 'w" where
  "storePermissions ae a grp ownerAddress w =
     (let permissions = (case listMap a grp of Some m \<Rightarrow> m | None \<Rightarrow> [ownerAddress \<mapsto> PermissionWrite]);
          a1 = a\<lparr>listMap := (listMap a)(grp \<mapsto> permissions)\<rparr>;
          data = Marshal (aeJson ae) (DPermissions permissions);
          topicString = CombinePathAndFile ownerAddress grp in
      case upload_text (aeFeed ae) (aeLibs ae) (aeLate ae) (HexToAddress ownerAddress) topicString data [] w of
        (r, w1) \<Rightarrow> (r, a1, w1))"

definition GetGroupMembers :: "'w aclenv \<Rightarrow> ACL \<Rightarrow> string \<Rightarrow> string \<Rightarrow> 'w \<Rightarrow> permissions result \<times> ACL \<times> 'w" where
  "GetGroupMembers ae a groupName ownerAddress w =
     (case loadPermissions ae a groupName ownerAddress w of
        (Inl e, a1, w1) \<Rightarrow> (Inl e, a1, w1)
      | (Inr u, a1, w1) \<Rightarrow> (Inr (case listMap a1 groupName of Some m \<Rightarrow> m | None \<Rightarrow> Map.empty), a1, w1))"

definition GetPermission :: "'w aclenv \<Rightarrow> ACL \<Rightarrow> string \<Rightarrow> string \<Rightarrow> string \<Rightarrow> 'w \<Rightarrow> 8 word result \<times> ACL \<times> 'w" where
  "GetPermission ae a groupName ownerAddress memberAddress w =
     (case loadPermissions ae a groupName ownerAddress w of
        (Inl e, a1, w1) \<Rightarrow> (Inl e, a1, w1)
      | (Inr u, a1, w1) \<Rightarrow>
          (Inr (case listMap a1 groupName of
                  Some m \<Rightarrow> (case m memberAddress of Some perm \<Rightarrow> perm | None \<Rightarrow> 0) | None \<Rightarrow> 0), a1, w1))"

definition ACL_CreateGroup :: "'w aclenv \<Rightarrow> ACL \<Rightarrow> string \<Rightarrow> string \<Rightarrow> 'w \<Rightarrow> unit result \<times> ACL \<times> 'w" where
  "ACL_CreateGroup ae a groupName ownerAddress w = storePermissions ae a groupName ownerAddress w"

text \<open>Without an entry in listMap this writes into a nil map.\<close>

definition ACL_AddMember ::
  "'w aclenv \<Rightarrow> ACL \<Rightarrow> string \<Rightarrow> string \<Rightarrow> string \<Rightarrow> 8 word \<Rightarrow> 'w \<Rightarrow> unit result \<times> ACL \<times> 'w" where
  "ACL_AddMember ae a groupName ownerAddress memberAddress permission w =
     (case listMap a groupName of
        None \<Rightarrow> (Inl (Panic ''assignment to entry in nil map''), a, w)
      | Some m \<Rightarrow> storePermissions ae (a\<lparr>listMap := (listMap a)(groupName \<mapsto> m(memberAddress \<mapsto> permission))\<rparr>)
                    groupName ownerAddress w)"

definition ACL_UpdatePermission ::
  "'w aclenv \<Rightarrow> ACL \<Rightarrow> string \<Rightarrow> string \<Rightarrow> string \<Rightarrow> 8 word \<Rightarrow> 'w \<Rightarrow> unit result \<times> ACL \<times> 'w" where
  "ACL_UpdatePermission ae a groupName ownerAddress memberAddress permission w =
     (case listMap a groupName of
        None \<Rightarrow> (Inl (Panic ''assignment to entry in nil map''), a, w)
      | Some m \<Rightarrow> storePermissions ae (a\<lparr>listMap := (listMap a)(groupName \<mapsto> m(memberAddress \<mapsto> permission))\<rparr>)
                    groupName ownerAddress w)"

text \<open>Deleting from a nil map does nothing.\<close>

definition ACL_RemoveMember ::
  "'w aclenv \<Rightarrow> ACL \<Rightarrow> string \<Rightarrow> string \<Rightarrow> string \<Rightarrow> 'w \<Rightarrow> unit result \<times> ACL \<times> 'w" where
  "ACL_RemoveMember ae a groupName ownerAddress memberAddress w =
     storePermissions ae
       (a\<lparr>listMap := (listMap a)(groupName := map_option (\<lambda>m. m(memberAddress := None)) (listMap a groupName))\<rparr>)
       groupName ownerAddress w"

definition ACL_RemoveGroup :: "'w aclenv \<Rightarrow> ACL \<Rightarrow> string \<Rightarrow> string \<Rightarrow> 'w \<Rightarrow> unit result \<times> ACL \<times> 'w" where
  "ACL_RemoveGroup ae a groupName ownerAddress w =
     storePermissions ae (a\<lparr>listMap := (listMap a)(groupName := None)\<rparr>) groupName ownerAddress w"

section \<open>The stored permissions\<close>

text \<open>The path of the file of a group, whose owner is written without a slash.\<close>

definition acl_path :: "string \<Rightarrow> string \<Rightarrow> string" where
  "acl_path ownerAddress grp = CombinePathAndFile ownerAddress grp"

definition acl_at :: "'w aclenv \<Rightarrow> feedview \<Rightarrow> blobview \<Rightarrow> string \<Rightarrow> string \<Rightarrow> permissions \<Rightarrow> bool" where
  "acl_at ae fs V owner grp m \<longleftrightarrow> finite (dom m) \<and>
     text_at (aeFeed ae) (aeLibs ae) fs V (HexToAddress owner) (acl_path owner grp) [] (Marshal (aeJson ae) (DPermissions m))"

definition owner_name :: "string \<Rightarrow> bool" where
  "owner_name s \<longleftrightarrow> s \<noteq> [] \<and> hd s \<noteq> CHR ''/''"

lemma acl_path_root:
  assumes "owner_name owner"
  shows "CombinePathAndFile (acl_path owner grp) [] = acl_path owner grp"
    "CombinePathAndFile ''/'' (acl_path owner grp) = acl_path owner grp \<or> grp = []"
proof -
  from assms obtain c s where o: "owner = c # s" "c \<noteq> CHR ''/''" by (cases owner) (auto simp: owner_name_def)
  have t: "TrimPrefix owner ''/'' = owner" using o by (simp add: TrimPrefix_def)
  have p: "acl_path owner grp = (if grp = [] then owner else ''/'' @ owner @ ''/'' @ TrimPrefix grp ''/'')"
    using o t by (simp add: acl_path_def CombinePathAndFile_def)
  show "CombinePathAndFile (acl_path owner grp) [] = acl_path owner grp"
    using o by (cases "grp = []") (simp_all add: acl_path_def CombinePathAndFile_def)
  show "CombinePathAndFile ''/'' (acl_path owner grp) = acl_path owner grp \<or> grp = []"
    using o by (cases "grp = []") (simp_all add: p [unfolded o(1)] CombinePathAndFile_def TrimPrefix_def)
qed

definition acl_fits :: "'w aclenv \<Rightarrow> nat \<Rightarrow> string \<Rightarrow> string \<Rightarrow> permissions \<Rightarrow> bool" where
  "acl_fits ae maxlen owner grp m \<longleftrightarrow>
     finite (dom m) \<and> length (Marshal (aeJson ae) (DPermissions m)) \<le> MinBlockSize \<and> length (acl_path owner grp) \<le> maxlen
     \<and> (\<forall>fm. fPath fm = ''/'' \<and> fName fm = acl_path owner grp \<longrightarrow> storable (aeFeed ae) [] (Doc (DFileMeta fm)))"

locale acl_store = storage "aeFeed ae" maxlen inv feeds blobs
  for ae :: "'w aclenv" and maxlen inv feeds blobs +
  assumes gzip: "codec_ok (aeLibs ae) ''gzip'' MinBlockSize"
    and caps: "caps_ok (aeLibs ae)"
    and perm_json: "finite (dom m) \<Longrightarrow> UnmarshalPermissions (aeJson ae) (Marshal (aeJson ae) (DPermissions m)) = Some m"
    and perm_text: "Marshal (aeJson ae) (DPermissions m) \<noteq> []"
begin

lemma loadPermissions_ok:
  assumes "inv b w" "acl_at ae (feeds w) (blobs w) owner grp m" "owner_name owner"
  obtains w' where "loadPermissions ae a grp owner w = (Inr (), a\<lparr>listMap := (listMap a)(grp \<mapsto> m)\<rparr>, w')"
    "inv b w'" "feeds w' = feeds w" "blobs w' = blobs w"
proof -
  from assms(2) have fin: "finite (dom m)" and at: "text_at (aeFeed ae) (aeLibs ae) (feeds w) (blobs w) (HexToAddress owner)
      (acl_path owner grp) [] (Marshal (aeJson ae) (DPermissions m))" by (simp_all add: acl_at_def)
  obtain w' where d: "download_text (aeFeed ae) (aeLibs ae) (HexToAddress owner) (acl_path owner grp) [] w
      = (Inr (Marshal (aeJson ae) (DPermissions m)), w')" "inv b w'" "feeds w' = feeds w" "blobs w' = blobs w"
    by (rule download_text_ok [OF assms(1) at caps acl_path_root(1) [OF assms(3)]])
  show thesis
    by (rule that [OF _ d(2-4)]) (use d(1) in \<open>simp add: loadPermissions_def acl_path_def perm_json [OF fin] perm_text\<close>)
qed

lemma storePermissions_ok:
  assumes b: "inv (b + 3) w" and o: "owner_name owner" "grp \<noteq> []"
    and m: "m = (case listMap a grp of Some m \<Rightarrow> m | None \<Rightarrow> [owner \<mapsto> PermissionWrite])"
    and fit: "acl_fits ae maxlen owner grp m"
    and t: "file_topic_ok (feeds w) (aeFeed ae) (HexToAddress owner) (acl_path owner grp) []"
  obtains w' where "storePermissions ae a grp owner w = (Inr (), a\<lparr>listMap := (listMap a)(grp \<mapsto> m)\<rparr>, w')"
    "inv b w'" "acl_at ae (feeds w') (blobs w') owner grp m" "blobs w \<subseteq>\<^sub>m blobs w'"
    "\<And>u' t p. (u', t) \<noteq> (HexToAddress owner, HashString (aeFeed ae) (acl_path owner grp)) \<Longrightarrow>
       feeds w' (u', t, p) = feeds w (u', t, p)"
proof -
  let ?d = "Marshal (aeJson ae) (DPermissions m)"
  have p: "acl_path owner grp = CombinePathAndFile ''/'' (acl_path owner grp)"
    using acl_path_root(2) [OF o(1), of grp] o(2) by simp
  obtain w' where up: "upload_text (aeFeed ae) (aeLibs ae) (aeLate ae) (HexToAddress owner) (acl_path owner grp) ?d [] w = (Inr (), w')"
    "inv b w'" "blobs w \<subseteq>\<^sub>m blobs w'"
    "text_at (aeFeed ae) (aeLibs ae) (feeds w') (blobs w') (HexToAddress owner) (acl_path owner grp) [] ?d"
    "\<And>u' t p. (u', t) \<noteq> (HexToAddress owner, HashString (aeFeed ae) (acl_path owner grp)) \<Longrightarrow> feeds w' (u', t, p) = feeds w (u', t, p)"
    by (rule upload_text_ok [OF b perm_text _ gzip p _ t, where late = "aeLate ae"])
       (use fit in \<open>auto simp: acl_fits_def bytes_of_def\<close>)
  show thesis
    by (rule that [OF _ up(2) _ up(3,5)]) (use up(1,4) m fit in \<open>simp_all add: storePermissions_def Let_def acl_path_def acl_at_def acl_fits_def\<close>)
qed

end

section \<open>Properties\<close>

text \<open>What the operations mean for the table of a group, None being a group that is
  not in listMap: adding a member to it panics, and removing one starts the group
  anew, with its owner alone.\<close>

datatype acl_op = CreateOp | AddOp string "8 word" | UpdateOp string "8 word" | RemoveOp string | RemoveGroupOp

fun acl_run :: "'w aclenv \<Rightarrow> ACL \<Rightarrow> string \<Rightarrow> string \<Rightarrow> acl_op \<Rightarrow> 'w \<Rightarrow> unit result \<times> ACL \<times> 'w" where
  "acl_run ae a grp owner CreateOp w = ACL_CreateGroup ae a grp owner w"
| "acl_run ae a grp owner (AddOp x p) w = ACL_AddMember ae a grp owner x p w"
| "acl_run ae a grp owner (UpdateOp x p) w = ACL_UpdatePermission ae a grp owner x p w"
| "acl_run ae a grp owner (RemoveOp x) w = ACL_RemoveMember ae a grp owner x w"
| "acl_run ae a grp owner RemoveGroupOp w = ACL_RemoveGroup ae a grp owner w"

fun acl_spec :: "string \<Rightarrow> acl_op \<Rightarrow> permissions option \<Rightarrow> permissions option" where
  "acl_spec owner CreateOp (Some m) = Some m"
| "acl_spec owner (AddOp x p) (Some m) = Some (m(x \<mapsto> p))"
| "acl_spec owner (UpdateOp x p) (Some m) = Some (m(x \<mapsto> p))"
| "acl_spec owner (RemoveOp x) (Some m) = Some (m(x := None))"
| "acl_spec owner (AddOp x p) None = None"
| "acl_spec owner (UpdateOp x p) None = None"
| "acl_spec owner op t = Some [owner \<mapsto> PermissionWrite]"

lemma acl_run_stores:
  assumes "acl_spec owner op (listMap a grp) = Some m"
  obtains a0 where "acl_run ae a grp owner op w = storePermissions ae a0 grp owner w"
    "m = (case listMap a0 grp of Some m \<Rightarrow> m | None \<Rightarrow> [owner \<mapsto> PermissionWrite])"
    "(listMap a0)(grp \<mapsto> m) = (listMap a)(grp \<mapsto> m)"
proof -
  define a0 where "a0 = a\<lparr>listMap := (listMap a)(grp := if op = RemoveGroupOp \<or> listMap a grp = None then None else Some m)\<rparr>"
  have same: "a\<lparr>listMap := (listMap a)(grp := t)\<rparr> = a" if "listMap a grp = t" for t
    using that by (simp add: fun_upd_idem)
  show thesis
  proof (rule that [of a0])
    show "acl_run ae a grp owner op w = storePermissions ae a0 grp owner w"
      using assms same
      by (cases op; cases "listMap a grp")
        (auto simp: a0_def ACL_CreateGroup_def ACL_AddMember_def ACL_UpdatePermission_def ACL_RemoveMember_def ACL_RemoveGroup_def)
    show "m = (case listMap a0 grp of Some m \<Rightarrow> m | None \<Rightarrow> [owner \<mapsto> PermissionWrite])"
      using assms by (cases op; cases "listMap a grp") (auto simp: a0_def)
  qed (simp add: a0_def)
qed

text \<open>C26: the list of a group is a table of permissions.  Every operation on it does
  what acl_spec says: it stores the new table, keeps the lists of the other groups,
  and every party that loads the list afterwards finds for each address the permission
  that was given last, or none; where acl_spec gives no table the operation panics and
  stores nothing.\<close>

theorem acl_is_a_table:
  assumes "acl_store ae maxlen good feeds blobs" "good (b + 3) w" "owner_name owner" "grp \<noteq> []"
    "file_topic_ok (feeds w) (aeFeed ae) (HexToAddress owner) (acl_path owner grp) []"
    "\<And>m. acl_spec owner op (listMap a grp) = Some m \<Longrightarrow> acl_fits ae maxlen owner grp m"
  shows "case acl_spec owner op (listMap a grp) of
      None \<Rightarrow> acl_run ae a grp owner op w = (Inl (Panic ''assignment to entry in nil map''), a, w)
    | Some m \<Rightarrow> \<exists>w'. acl_run ae a grp owner op w = (Inr (), a\<lparr>listMap := (listMap a)(grp \<mapsto> m)\<rparr>, w') \<and> good b w'
        \<and> (\<forall>a2 x. \<exists>r w2. GetPermission ae a2 grp owner x w' = (Inr (case m x of None \<Rightarrow> NoPermission | Some q \<Rightarrow> q), r, w2))"
proof (cases "acl_spec owner op (listMap a grp)")
  case None
  then show ?thesis
    by (cases op; cases "listMap a grp") (simp_all add: ACL_AddMember_def ACL_UpdatePermission_def)
next
  case (Some m)
  obtain a0 where a0: "acl_run ae a grp owner op w = storePermissions ae a0 grp owner w"
    "m = (case listMap a0 grp of Some m \<Rightarrow> m | None \<Rightarrow> [owner \<mapsto> PermissionWrite])"
    "(listMap a0)(grp \<mapsto> m) = (listMap a)(grp \<mapsto> m)"
    by (rule acl_run_stores [OF Some])
  obtain w' where s: "storePermissions ae a0 grp owner w = (Inr (), a0\<lparr>listMap := (listMap a0)(grp \<mapsto> m)\<rparr>, w')"
    "good b w'" "acl_at ae (feeds w') (blobs w') owner grp m"
    by (rule acl_store.storePermissions_ok [OF assms(1-4) a0(2) assms(6) [OF Some] assms(5)])
  have "a0\<lparr>listMap := (listMap a0)(grp \<mapsto> m)\<rparr> = a\<lparr>listMap := (listMap a)(grp \<mapsto> m)\<rparr>"
    unfolding a0(3) by (cases a0; cases a) simp
  moreover have "\<exists>r w2. GetPermission ae a2 grp owner x w' = (Inr (case m x of None \<Rightarrow> NoPermission | Some q \<Rightarrow> q), r, w2)" for a2 x
  proof -
    obtain w2 where "loadPermissions ae a2 grp owner w' = (Inr (), a2\<lparr>listMap := (listMap a2)(grp \<mapsto> m)\<rparr>, w2)"
      by (rule acl_store.loadPermissions_ok [OF assms(1) s(2,3) assms(3)])
    then show ?thesis by (simp add: GetPermission_def NoPermission_def cong: option.case_cong)
  qed
  ultimately show ?thesis using Some a0(1) s(1,2) by simp
qed

end
