(* ===== verification/GroupModel.thy ===== *)
theory GroupModel
  imports PodOps Acl
begin

text \<open>
  Groups, pkg/pod/group.go and groupMember.go: pods that several users share.  A
  group has a secret, the seed of its account; the owner keeps it in the list of the
  groups, encrypted with the own private key, and gives it to a member encrypted with
  the key that the two share.  The permissions of the members are the ACL of the
  group.  The list of the groups is a file like the list of the pods.

  Cryptography outside the repository is the record grouplib: SHA-256, random bytes, the
  stream ciphers of AES in CFB mode, the multiplication of a point of the curve, and the
  parsing of keys and printing of addresses by go-ethereum.  glEncrypt and glDecrypt are
  utils.EncryptBytes and DecryptBytes on the bytes of a secret (the version of theory
  FeedApi keeps the contents symbolic).  The new secret and the password of CreateGroup are random; they are
  arguments.
\<close>

section \<open>State\<close>

abbreviation "ErrGroupAlreadyExists \<equiv> Sentinel ''group already exists''"
abbreviation "ErrGroupDoesNotExist \<equiv> Sentinel ''group does not exist''"
abbreviation "ErrPermissionDenied \<equiv> Sentinel ''permission denied''"

definition GroupFile :: string where "GroupFile = ''Groups''"

record grouplib =
  glSum256 :: "bytes \<Rightarrow> bytes"
  glRand :: "nat \<Rightarrow> bytes result"
  glCFBEncrypter :: "bytes \<Rightarrow> bytes \<Rightarrow> bytes \<Rightarrow> bytes"
  glCFBDecrypter :: "bytes \<Rightarrow> bytes \<Rightarrow> bytes \<Rightarrow> bytes"
  glScalarMult :: "bytes \<Rightarrow> bytes \<Rightarrow> bytes"
  glParsePublic :: "bytes \<Rightarrow> bytes result"
  glHex :: "Address \<Rightarrow> string"
  glItem :: "content \<Rightarrow> GroupItem option"

definition glEncrypt :: "grouplib \<Rightarrow> bytes \<Rightarrow> bytes \<Rightarrow> bytes result" where
  "glEncrypt gl passphrase message =
     (let aesKey = glSum256 gl passphrase in
      case glRand gl aesBlockSize of Inl e \<Rightarrow> Inl e
      | Inr iv \<Rightarrow> Inr (iv @ glCFBEncrypter gl aesKey iv message))"

definition glDecrypt :: "grouplib \<Rightarrow> bytes \<Rightarrow> bytes \<Rightarrow> bytes result" where
  "glDecrypt gl passphrase cipherText =
     (let aesKey = glSum256 gl passphrase in
      if length cipherText < aesBlockSize then Inl (Errorf ''ciphertext block size is too short'')
      else Inr (glCFBDecrypter gl aesKey (take aesBlockSize cipherText) (drop aesBlockSize cipherText)))"

text \<open>The key that the owner of one key and the holder of another one share.\<close>

definition glShared :: "grouplib \<Rightarrow> bytes \<Rightarrow> bytes \<Rightarrow> bytes" where
  "glShared gl publicKey k = glSum256 gl (glScalarMult gl publicKey k)"

record Group =
  grAccount :: Account
  groupsMap :: "string \<rightharpoonup> Info"
  grACL :: ACL

definition NewGroup :: "Account \<Rightarrow> ACL \<Rightarrow> Group" where
  "NewGroup acc ac = \<lparr>grAccount = acc, groupsMap = Map.empty, grACL = ac\<rparr>"

definition addGroupToMap :: "string \<Rightarrow> Info \<Rightarrow> Group \<Rightarrow> Group" where
  "addGroupToMap name info g = g\<lparr>groupsMap := (groupsMap g)(name \<mapsto> info)\<rparr>"

definition removeGroupFromMap :: "string \<Rightarrow> Group \<Rightarrow> Group" where
  "removeGroupFromMap name g = g\<lparr>groupsMap := (groupsMap g)(name := None)\<rparr>"

definition GetGroupInfoFromMap :: "Group \<Rightarrow> string \<Rightarrow> Info result" where
  "GetGroupInfoFromMap g name =
     (case groupsMap g name of Some i \<Rightarrow> Inr i | None \<Rightarrow> Inl (Errorf ''could not find pod''))"

abbreviation owner_feed :: "('w, 'f, 'v) podenv \<Rightarrow> Group \<Rightarrow> 'w services" where
  "owner_feed env g \<equiv> peFeed env (acUser (grAccount g))"

definition acl_env :: "('w, 'f, 'v) podenv \<Rightarrow> Group \<Rightarrow> 'w aclenv" where
  "acl_env env g = \<lparr>aeFeed = owner_feed env g, aeLibs = peLibs env, aeJson = peJson env, aeLate = peLate env\<rparr>"

definition user_address :: "grouplib \<Rightarrow> Group \<Rightarrow> string" where
  "user_address gl g = glHex gl (aiAddress (acUser (grAccount g)))"

text \<open>crypto.FromECDSA of the user's private key; nil gives no bytes.\<close>

definition private_bytes :: "Group \<Rightarrow> bytes" where
  "private_bytes g = (case aiKey (acUser (grAccount g)) of None \<Rightarrow> [] | Some k \<Rightarrow> k)"

definition public_bytes :: "Group \<Rightarrow> bytes" where
  "public_bytes g = (case aiPublic (acUser (grAccount g)) of None \<Rightarrow> [] | Some k \<Rightarrow> k)"

section \<open>The list of the groups\<close>

definition load_groups :: "('w, 'f, 'v) podenv \<Rightarrow> Group \<Rightarrow> 'w \<Rightarrow> GroupList result \<times> 'w" where
  "load_groups env g w =
     (let u = acUser (grAccount g) in
      case download_text (owner_feed env g) (peLibs env) (aiAddress u) (CombinePathAndFile [] GroupFile) (user_secret u) w of
        (Inl e, w1) \<Rightarrow> (Inl e, w1)
      | (Inr data, w1) \<Rightarrow>
          if data = [] then (Inr \<lparr>Groups = [], SharedGroups = []\<rparr>, w1)
          else (case UnmarshalGroupList (peJson env) data of
                  None \<Rightarrow> (Inl (Errorf ''json''), w1) | Some l \<Rightarrow> (Inr l, w1)))"

definition store_groups :: "('w, 'f, 'v) podenv \<Rightarrow> Group \<Rightarrow> GroupList \<Rightarrow> 'w \<Rightarrow> unit result \<times> 'w" where
  "store_groups env g l w =
     (let u = acUser (grAccount g) in
      upload_text (owner_feed env g) (peLibs env) (peLate env) (aiAddress u) GroupFile
        (Marshal (peJson env) (DGroupList l)) (user_secret u) w)"

text \<open>ListGroup returns the list beside its error; callers that accept
  ErrFileNotFound go on with the empty list.\<close>

definition known_groups :: "('w, 'f, 'v) podenv \<Rightarrow> Group \<Rightarrow> 'w \<Rightarrow> GroupList result \<times> 'w" where
  "known_groups env g w =
     (case load_groups env g w of
        (Inr l, w1) \<Rightarrow> (Inr l, w1)
      | (Inl e, w1) \<Rightarrow> if e = ErrFileNotFound then (Inr \<lparr>Groups = [], SharedGroups = []\<rparr>, w1) else (Inl e, w1))"

definition checkIfGroupPresent :: "GroupList \<Rightarrow> string \<Rightarrow> bool" where
  "checkIfGroupPresent l name \<longleftrightarrow> list_ex (\<lambda>x. gName x = name) (Groups l) \<or> list_ex (\<lambda>x. gName x = name) (SharedGroups l)"

definition find_group :: "string \<Rightarrow> GroupItem list \<Rightarrow> GroupItem option" where
  "find_group name l = List.find (\<lambda>x. gName x = name) l"

section \<open>Permissions\<close>

definition Group_GetPermission ::
  "('w, 'f, 'v) podenv \<Rightarrow> grouplib \<Rightarrow> Group \<Rightarrow> string \<Rightarrow> 'w \<Rightarrow> 8 word result \<times> Group \<times> 'w" where
  "Group_GetPermission env gl g groupName0 w =
     (let groupName = TrimSpace groupName0 in
      case known_groups env g w of (Inl e, w1) \<Rightarrow> (Inl e, g, w1) | (Inr groups, w1) \<Rightarrow>
      if \<not> checkIfGroupPresent groups groupName then (Inl ErrGroupDoesNotExist, g, w1) else
      case (case find_group groupName (Groups groups) of Some x \<Rightarrow> Some x | None \<Rightarrow> find_group groupName (SharedGroups groups)) of
        None \<Rightarrow> (Inl ErrGroupDoesNotExist, g, w1)
      | Some gr \<Rightarrow>
          (case GetPermission (acl_env env g) (grACL g) groupName (gOwnerAddress gr) (user_address gl g) w1 of
             (r, a, w2) \<Rightarrow> (r, g\<lparr>grACL := a\<rparr>, w2)))"

text \<open>What the four operations on the members of one's own group share.\<close>

definition on_acl ::
  "(string \<Rightarrow> 'w aclenv \<Rightarrow> ACL \<Rightarrow> 'w \<Rightarrow> 'r result \<times> ACL \<times> 'w) \<Rightarrow> ('w, 'f, 'v) podenv \<Rightarrow> Group \<Rightarrow> string \<Rightarrow> 'w
    \<Rightarrow> 'r result \<times> Group \<times> 'w" where
  "on_acl op env g groupName0 w =
     (let groupName = TrimSpace groupName0 in
      case known_groups env g w of (Inl e, w1) \<Rightarrow> (Inl e, g, w1) | (Inr groups, w1) \<Rightarrow>
      if \<not> checkIfGroupPresent groups groupName then (Inl ErrGroupDoesNotExist, g, w1) else
      case op groupName (acl_env env g) (grACL g) w1 of (r, a, w2) \<Rightarrow> (r, g\<lparr>grACL := a\<rparr>, w2))"

definition Group_RemoveMember ::
  "('w, 'f, 'v) podenv \<Rightarrow> grouplib \<Rightarrow> Group \<Rightarrow> string \<Rightarrow> string \<Rightarrow> 'w \<Rightarrow> unit result \<times> Group \<times> 'w" where
  "Group_RemoveMember env gl g groupName memberAddress =
     on_acl (\<lambda>n ae a. ACL_RemoveMember ae a n (user_address gl g) memberAddress) env g groupName"

definition Group_UpdatePermission ::
  "('w, 'f, 'v) podenv \<Rightarrow> grouplib \<Rightarrow> Group \<Rightarrow> string \<Rightarrow> string \<Rightarrow> 8 word \<Rightarrow> 'w \<Rightarrow> unit result \<times> Group \<times> 'w" where
  "Group_UpdatePermission env gl g groupName memberAddress permission =
     on_acl (\<lambda>n ae a. ACL_UpdatePermission ae a n (user_address gl g) memberAddress permission) env g groupName"

definition Group_GetGroupMembers ::
  "('w, 'f, 'v) podenv \<Rightarrow> grouplib \<Rightarrow> Group \<Rightarrow> string \<Rightarrow> 'w \<Rightarrow> permissions result \<times> Group \<times> 'w" where
  "Group_GetGroupMembers env gl g groupName =
     on_acl (\<lambda>n ae a. GetGroupMembers ae a n (user_address gl g)) env g groupName"

section \<open>Opening and closing\<close>

definition RemoveSharedGroup ::
  "('w, 'f, 'v) podenv \<Rightarrow> Group \<Rightarrow> string \<Rightarrow> 'w \<Rightarrow> unit result \<times> Group \<times> 'w" where
  "RemoveSharedGroup env g groupName0 w =
     (let groupName = TrimSpace groupName0 in
      case known_groups env g w of (Inl e, w1) \<Rightarrow> (Inl e, g, w1) | (Inr groups, w1) \<Rightarrow>
      case delete_items (\<lambda>x. gName x = groupName) (SharedGroups groups) of
        Inl e \<Rightarrow> (Inl e, g, w1)
      | Inr (left, None) \<Rightarrow> (Inl ErrGroupDoesNotExist, g, w1)
      | Inr (left, Some i) \<Rightarrow>
          let g1 = removeGroupFromMap groupName g in
          case store_groups env g1 (groups\<lparr>SharedGroups := left\<rparr>) w1 of (r, w2) \<Rightarrow> (r, g1, w2))"

text \<open>The account of the secret; an account of its own, of which only the user's key
  pair is used.\<close>

definition secret_account :: "('w, 'f, 'v) podenv \<Rightarrow> bytes \<Rightarrow> AccInfo result" where
  "secret_account env seed =
     (case LoadUserAccountFromSeed (peWallet env) seed NewAccount of
        (Inl e, a) \<Rightarrow> Inl e | (Inr u, a) \<Rightarrow> Inr (acUser a))"

definition shared_seed :: "grouplib \<Rightarrow> Group \<Rightarrow> GroupItem \<Rightarrow> bytes result" where
  "shared_seed gl g gr =
     (case glParsePublic gl (gOwnerPublicKey gr) of Inl e \<Rightarrow> Inl e | Inr ownerPublicKey \<Rightarrow>
      case aiKey (acUser (grAccount g)) of None \<Rightarrow> Inl NilDereference | Some k \<Rightarrow>
      glDecrypt gl (glShared gl ownerPublicKey k) (gSecret gr))"

text \<open>A member who may only read gets a feed object without the key; who may do
  neither loses the group.\<close>

definition OpenGroup ::
  "('w, 'f, 'v) podenv \<Rightarrow> grouplib \<Rightarrow> Group \<Rightarrow> string \<Rightarrow> 'w \<Rightarrow> Info result \<times> Group \<times> 'w" where
  "OpenGroup env gl g name0 w =
     (let name = TrimSpace name0 in
      case GetGroupInfoFromMap g name of
        Inr i \<Rightarrow> (Inr i, g, w)
      | Inl ignored \<Rightarrow>
          (case load_groups env g w of (Inl e, w1) \<Rightarrow> (Inl e, g, w1) | (Inr groups, w1) \<Rightarrow>
           let found = (\<lambda>gr ai fd g1 w2.
                  let info = new_info env name (gPassword gr) (aiAddress ai) ai fd in (Inr info, addGroupToMap name info g1, w2)) in
           case find_group name (Groups groups) of
             Some gr \<Rightarrow>
               (case glDecrypt gl (private_bytes g) (gSecret gr) of Inl e \<Rightarrow> (Inl e, g, w1) | Inr seed \<Rightarrow>
                case secret_account env seed of Inl e \<Rightarrow> (Inl e, g, w1) | Inr ai \<Rightarrow> found gr ai ai g w1)
           | None \<Rightarrow>
               (case find_group name (SharedGroups groups) of
                  None \<Rightarrow> (Inl ErrGroupDoesNotExist, g, w1)
                | Some gr \<Rightarrow>
                    (case Group_GetPermission env gl g (gName gr) w1 of
                       (Inl e, g1, w2) \<Rightarrow> (Inl e, g1, w2)
                     | (Inr permission, g1, w2) \<Rightarrow>
                         if permission \<noteq> PermissionRead \<and> permission \<noteq> PermissionWrite then
                           (case RemoveSharedGroup env g1 (gName gr) w2 of
                              (Inl (Panic s), g2, w3) \<Rightarrow> (Inl (Panic s), g2, w3)
                            | (ignored, g2, w3) \<Rightarrow> (Inl ErrPermissionDenied, g2, w3))
                         else
                           (case shared_seed gl g1 gr of Inl e \<Rightarrow> (Inl e, g1, w2) | Inr seed \<Rightarrow>
                            case secret_account env seed of Inl e \<Rightarrow> (Inl e, g1, w2) | Inr ai \<Rightarrow>
                            found gr ai (if permission = PermissionRead then SetAddress (aiAddress ai) GetEmptyAccountInfo else ai) g1 w2)))))"

definition CloseGroup :: "('w, 'f, 'v) podenv \<Rightarrow> Group \<Rightarrow> string \<Rightarrow> 'w \<Rightarrow> unit result \<times> Group \<times> 'w" where
  "CloseGroup env g podName w =
     (case GetGroupInfoFromMap g podName of Inl e \<Rightarrow> (Inl e, g, w) | Inr podInfo \<Rightarrow>
      case peCommit env (inFeed podInfo) w of (Inl e, w1) \<Rightarrow> (Inl e, g, w1) | (Inr u, w1) \<Rightarrow>
      case peCommit env (acUser (grAccount g)) w1 of (Inl e, w2) \<Rightarrow> (Inl e, g, w2) | (Inr u, w2) \<Rightarrow>
      (Inr (), removeGroupFromMap podName g, w2))"

section \<open>Creating and removing\<close>

definition change_group :: "string \<Rightarrow> (Info \<Rightarrow> Info) \<Rightarrow> Group \<Rightarrow> Group" where
  "change_group name h g = g\<lparr>groupsMap := (groupsMap g)(name := map_option h (groupsMap g name))\<rparr>"

text \<open>The Info is returned beside the error of MkRootDir.\<close>

definition CreateGroup ::
  "('w, 'f, 'v) podenv \<Rightarrow> grouplib \<Rightarrow> Group \<Rightarrow> bytes result \<Rightarrow> bytes \<Rightarrow> string \<Rightarrow> 'w \<Rightarrow> Info result \<times> Group \<times> 'w" where
  "CreateGroup env gl g newSeed podPasswordBytes name0 w =
     (let name = TrimSpace name0 in
      case known_groups env g w of (Inl e, w1) \<Rightarrow> (Inl e, g, w1) | (Inr groups, w1) \<Rightarrow>
      if checkIfGroupPresent groups name then (Inl ErrGroupAlreadyExists, g, w1) else
      case newSeed of Inl e \<Rightarrow> (Inl e, g, w1) | Inr seed \<Rightarrow>
      (case glEncrypt gl (private_bytes g) seed of Inl e \<Rightarrow> (Inl e, g, w1) | Inr key \<Rightarrow>
       let podPassword = HexEncode podPasswordBytes;
           item = \<lparr>gName = name, gOwnerPublicKey = public_bytes g, gOwnerAddress = user_address gl g,
                   gPassword = podPassword, gSecret = key\<rparr> in
       case store_groups env g (groups\<lparr>Groups := Groups groups @ [item]\<rparr>) w1 of (Inl e, w2) \<Rightarrow> (Inl e, g, w2) | (Inr u, w2) \<Rightarrow>
       (case ACL_CreateGroup (acl_env env g) (grACL g) name (user_address gl g) w2 of
          (Inl e, a, w3) \<Rightarrow> (Inl e, g\<lparr>grACL := a\<rparr>, w3)
        | (Inr u, a, w3) \<Rightarrow>
            let g1 = g\<lparr>grACL := a\<rparr> in
            (case secret_account env seed of Inl e \<Rightarrow> (Inl e, g1, w3) | Inr ai \<Rightarrow>
             let info = new_info env name podPassword (aiAddress ai) ai ai; g2 = addGroupToMap name info g1 in
             (case MkRootDir (peFeed env ai) (peLibs env) (peJson env) (peLate env) (inDir info) podPassword w3 of
                (Inl e, d, w4) \<Rightarrow> (Inl e, change_group name (set_inDir d) g2, w4)
              | (Inr u, d, w4) \<Rightarrow> (Inr (set_inDir d info), change_group name (set_inDir d) g2, w4))))))"

definition RemoveGroup ::
  "('w, 'f, 'v) podenv \<Rightarrow> grouplib \<Rightarrow> Group \<Rightarrow> string \<Rightarrow> 'w \<Rightarrow> unit result \<times> Group \<times> 'w" where
  "RemoveGroup env gl g groupName0 w =
     (let groupName = TrimSpace groupName0 in
      case known_groups env g w of (Inl e, w1) \<Rightarrow> (Inl e, g, w1) | (Inr groups, w1) \<Rightarrow>
      case delete_items (\<lambda>x. gName x = groupName) (Groups groups) of
        Inl e \<Rightarrow> (Inl e, g, w1)
      | Inr (left, None) \<Rightarrow> (Inl ErrGroupDoesNotExist, g, w1)
      | Inr (left, Some i) \<Rightarrow>
          (case OpenGroup env gl g groupName w1 of (Inl e, g1, w2) \<Rightarrow> (Inl e, g1, w2) | (Inr gi, g1, w2) \<Rightarrow>
           let sv = peFeed env (inFeed gi) in
           case DeleteAllDocumentDBs (peDocs env) sv (peDBs env) (inDoc gi) (inPassword gi) w2 of
             (Inl e, ds, w3) \<Rightarrow> (Inl e, change_group groupName (\<lambda>i. i\<lparr>inDoc := ds\<rparr>) g1, w3)
           | (Inr u, ds, w3) \<Rightarrow>
               (case DeleteAllKVTables sv (peTables env) (inKV gi) (inPassword gi) w3 of
                  (Inl e, kv, w4) \<Rightarrow> (Inl e, change_group groupName (\<lambda>i. i\<lparr>inDoc := ds, inKV := kv\<rparr>) g1, w4)
                | (Inr u, kv, w4) \<Rightarrow>
                    let g2 = change_group groupName (\<lambda>i. i\<lparr>inDoc := ds, inKV := kv\<rparr>) g1 in
                    (case ACL_RemoveGroup (acl_env env g2) (grACL g2) groupName (user_address gl g2) w4 of
                       (Inl e, a, w5) \<Rightarrow> (Inl e, g2\<lparr>grACL := a\<rparr>, w5)
                     | (Inr u, a, w5) \<Rightarrow>
                         let g3 = removeGroupFromMap groupName (g2\<lparr>grACL := a\<rparr>) in
                         case store_groups env g3 (groups\<lparr>Groups := left\<rparr>) w5 of (r, w6) \<Rightarrow> (r, g3, w6)))))"

section \<open>Members\<close>

definition Group_AddMember ::
  "('w, 'f, 'v) podenv \<Rightarrow> grouplib \<Rightarrow> Group \<Rightarrow> string \<Rightarrow> string \<Rightarrow> bytes \<Rightarrow> 8 word \<Rightarrow> 'w \<Rightarrow> bytes result \<times> Group \<times> 'w" where
  "Group_AddMember env gl g groupName0 memberAddress memberPublicKey permission w =
     (let groupName = TrimSpace groupName0 in
      case known_groups env g w of (Inl e, w1) \<Rightarrow> (Inl e, g, w1) | (Inr groups, w1) \<Rightarrow>
      if \<not> checkIfGroupPresent groups groupName then (Inl ErrGroupDoesNotExist, g, w1) else
      case aiKey (acUser (grAccount g)) of None \<Rightarrow> (Inl NilDereference, g, w1) | Some k \<Rightarrow>
      (case find_group groupName (Groups groups) of None \<Rightarrow> (Inl ErrGroupDoesNotExist, g, w1) | Some gr \<Rightarrow>
       case glDecrypt gl (private_bytes g) (gSecret gr) of Inl e \<Rightarrow> (Inl e, g, w1) | Inr seed \<Rightarrow>
       (case glEncrypt gl (glShared gl memberPublicKey k) seed of Inl e \<Rightarrow> (Inl e, g, w1) | Inr encData \<Rightarrow>
        case UploadBlob (owner_feed env g) (Doc (DGroupItem (gr\<lparr>gSecret := encData\<rparr>))) w1 of
          (Inl e, w2) \<Rightarrow> (Inl e, g, w2)
        | (Inr ref, w2) \<Rightarrow>
            (case ACL_AddMember (acl_env env g) (grACL g) groupName (user_address gl g) memberAddress permission w2 of
               (Inl e, a, w3) \<Rightarrow> (Inl e, g\<lparr>grACL := a\<rparr>, w3)
             | (Inr u, a, w3) \<Rightarrow> (Inr ref, g\<lparr>grACL := a\<rparr>, w3)))))"

definition AcceptGroupInvite ::
  "('w, 'f, 'v) podenv \<Rightarrow> grouplib \<Rightarrow> Group \<Rightarrow> bytes \<Rightarrow> 'w \<Rightarrow> unit result \<times> Group \<times> 'w" where
  "AcceptGroupInvite env gl g ref w =
     (case known_groups env g w of (Inl e, w1) \<Rightarrow> (Inl e, g, w1) | (Inr groups, w1) \<Rightarrow>
      case DownloadBlob (owner_feed env g) ref w1 of (Inl e, w2) \<Rightarrow> (Inl e, g, w2) | (Inr (data, resp), w2) \<Rightarrow>
      (case glItem gl data of None \<Rightarrow> (Inl (Errorf ''json''), g, w2) | Some item \<Rightarrow>
       case GetPermission (acl_env env g) (grACL g) (gName item) (gOwnerAddress item) (user_address gl g) w2 of
         (Inl e, a, w3) \<Rightarrow> (Inl e, g\<lparr>grACL := a\<rparr>, w3)
       | (Inr perm, a, w3) \<Rightarrow>
           let g1 = g\<lparr>grACL := a\<rparr> in
           if perm \<noteq> PermissionRead \<and> perm \<noteq> PermissionWrite then (Inl ErrPermissionDenied, g1, w3)
           else (case store_groups env g1 (groups\<lparr>SharedGroups := SharedGroups groups @ [item]\<rparr>) w3 of (r, w4) \<Rightarrow> (r, g1, w4))))"

end
