(* ===== verification/GroupLife.thy ===== *)
theory GroupLife
  imports GroupModel PodLife
begin

text \<open>
  Members of groups: an invitation is a blob with the group's secret under the key
  that owner and member share, and the permission of the member is an entry of the
  table that the owner stores.  The locale groups extends the laws of the pods.
\<close>

section \<open>The laws\<close>

definition groups_path :: string where "groups_path = ''/Groups''"

definition groups_at :: "('w, 'f, 'v) podenv \<Rightarrow> feedview \<Rightarrow> blobview \<Rightarrow> AccInfo \<Rightarrow> GroupList \<Rightarrow> bool" where
  "groups_at env fs V u l \<longleftrightarrow>
     text_at (peFeed env u) (peLibs env) fs V (aiAddress u) groups_path (user_secret u) (Marshal (peJson env) (DGroupList l))"

definition grouplist_fits :: "('w, 'f, 'v) podenv \<Rightarrow> nat \<Rightarrow> AccInfo \<Rightarrow> GroupList \<Rightarrow> bool" where
  "grouplist_fits env maxlen u l \<longleftrightarrow> length (Marshal (peJson env) (DGroupList l)) \<le> MinBlockSize
     \<and> length groups_path \<le> maxlen
     \<and> (\<forall>m. fPath m = ''/'' \<and> fName m = GroupFile \<longrightarrow> storable (peFeed env u) (bytes_of (user_secret u)) (Doc (DFileMeta m)))"

definition group_names :: "GroupList \<Rightarrow> string set" where
  "group_names l = gName ` set (Groups l) \<union> gName ` set (SharedGroups l)"

lemma checkIfGroupPresent_names: "checkIfGroupPresent l n \<longleftrightarrow> n \<in> group_names l"
  by (auto simp: checkIfGroupPresent_def group_names_def list_ex_iff)

lemma find_group_None: "find_group n xs = None \<longleftrightarrow> n \<notin> gName ` set xs"
  by (auto simp: find_group_def find_None_iff)

lemma find_group_append:
  "\<lbrakk>n \<notin> gName ` set xs; gName x = n\<rbrakk> \<Longrightarrow> find_group n (xs @ [x]) = Some x"
  by (induction xs) (auto simp: find_group_def)

lemma find_group_Some: "find_group n xs = Some x \<Longrightarrow> x \<in> set xs \<and> gName x = n"
  by (auto simp: find_group_def find_Some_iff)

locale groups = pods env maxlen inv feeds blobs
  for env :: "('w, 'f, 'v) podenv" and maxlen inv feeds blobs +
  fixes gl :: grouplib
  assumes one_hash: "\<lbrakk>aiKey a \<noteq> None; aiKey c \<noteq> None\<rbrakk> \<Longrightarrow> HashString (peFeed env a) = HashString (peFeed env c)"
    and group_json: "UnmarshalGroupList (peJson env) (Marshal (peJson env) (DGroupList gls)) = Some gls"
    and group_text: "Marshal (peJson env) (DGroupList gls) \<noteq> []"
    and perm_json: "finite (dom m) \<Longrightarrow> UnmarshalPermissions (peJson env) (Marshal (peJson env) (DPermissions m)) = Some m"
    and perm_text: "Marshal (peJson env) (DPermissions m) \<noteq> []"
    and item_json: "glItem gl (Doc (DGroupItem x)) = Some x"
    and full_rand: "glRand gl n = Inr iv \<Longrightarrow> length iv = n"
    and cfb: "glCFBDecrypter gl k iv (glCFBEncrypter gl k iv s) = s"
begin

lemma unseal: "glEncrypt gl k s = Inr z \<Longrightarrow> glDecrypt gl k z = Inr s"
  by (auto simp: glEncrypt_def glDecrypt_def Let_def cfb dest: full_rand split: sum.splits)

lemma acl_laws:
  assumes "aiKey (acUser (grAccount g)) \<noteq> None"
  shows "acl_store (acl_env env g) maxlen inv feeds blobs"
proof (rule acl_store.intro)
  show "storage (aeFeed (acl_env env g)) maxlen inv feeds blobs" using net [OF assms] by (simp add: acl_env_def)
  show "acl_store_axioms (acl_env env g)"
    using gzip caps perm_json perm_text by (simp add: acl_store_axioms_def acl_env_def)
qed

lemma acl_at_any:
  assumes "aiKey (acUser (grAccount g)) \<noteq> None" "aiKey (acUser (grAccount h)) \<noteq> None"
  shows "acl_at (acl_env env g) fs V owner n m \<longleftrightarrow> acl_at (acl_env env h) fs V owner n m"
  using one_hash [OF assms] by (simp add: acl_at_def text_at_def file_at_def acl_env_def)

lemma load_groups_ok:
  assumes "inv b w" "aiKey (acUser (grAccount g)) \<noteq> None" "groups_at env (feeds w) (blobs w) (acUser (grAccount g)) l"
  obtains w' where "load_groups env g w = (Inr l, w')" "known_groups env g w = (Inr l, w')"
    "inv b w'" "feeds w' = feeds w" "blobs w' = blobs w"
proof -
  let ?u = "acUser (grAccount g)"
  have path: "CombinePathAndFile (CombinePathAndFile [] GroupFile) [] = groups_path"
    by (simp add: CombinePathAndFile_def GroupFile_def groups_path_def TrimPrefix_def)
  obtain w' where d: "download_text (peFeed env ?u) (peLibs env) (aiAddress ?u) (CombinePathAndFile [] GroupFile) (user_secret ?u) w
      = (Inr (Marshal (peJson env) (DGroupList l)), w')" "inv b w'" "feeds w' = feeds w" "blobs w' = blobs w"
    by (rule storage.download_text_ok [OF net [OF assms(2)] assms(1) assms(3) [unfolded groups_at_def] caps path])
  have l: "load_groups env g w = (Inr l, w')" by (simp add: load_groups_def Let_def d(1) group_json group_text)
  show thesis by (rule that [OF l _ d(2-4)]) (simp add: known_groups_def l)
qed

lemma store_groups_ok:
  assumes b: "inv (b + 3) w" and k: "aiKey (acUser (grAccount g)) \<noteq> None"
    and fit: "grouplist_fits env maxlen (acUser (grAccount g)) l"
    and t: "file_topic_ok (feeds w) (owner_feed env g) (aiAddress (acUser (grAccount g))) groups_path (user_secret (acUser (grAccount g)))"
  obtains w' where "store_groups env g l w = (Inr (), w')" "inv b w'" "blobs w \<subseteq>\<^sub>m blobs w'"
    "groups_at env (feeds w') (blobs w') (acUser (grAccount g)) l"
    "\<And>u' t q. (u', t) \<noteq> (aiAddress (acUser (grAccount g)), HashString (owner_feed env g) groups_path) \<Longrightarrow>
       feeds w' (u', t, q) = feeds w (u', t, q)"
proof -
  let ?u = "acUser (grAccount g)" and ?d = "Marshal (peJson env) (DGroupList l)"
  have path: "groups_path = CombinePathAndFile ''/'' GroupFile"
    by (simp add: CombinePathAndFile_def GroupFile_def groups_path_def TrimPrefix_def)
  have len: "length groups_path \<le> maxlen" using fit by (simp add: grouplist_fits_def)
  obtain w' where up: "upload_text (peFeed env ?u) (peLibs env) (peLate env) (aiAddress ?u) GroupFile ?d (user_secret ?u) w = (Inr (), w')"
    "inv b w'" "blobs w \<subseteq>\<^sub>m blobs w'"
    "text_at (peFeed env ?u) (peLibs env) (feeds w') (blobs w') (aiAddress ?u) groups_path (user_secret ?u) ?d"
    "\<And>u' t q. (u', t) \<noteq> (aiAddress ?u, HashString (peFeed env ?u) groups_path) \<Longrightarrow> feeds w' (u', t, q) = feeds w (u', t, q)"
    by (rule storage.upload_text_ok [OF net [OF k] b group_text _ gzip path len t,
          where late = "peLate env"])
       (use fit in \<open>auto simp: grouplist_fits_def\<close>)
  show thesis
    by (rule that [OF _ up(2,3) _ up(5)]) (use up(1,4) in \<open>simp_all add: store_groups_def Let_def groups_at_def\<close>)
qed

text \<open>What the owner's table says, read by a member.\<close>

lemma member_permission:
  assumes "inv b w" "aiKey (acUser (grAccount g)) \<noteq> None" "acl_at (acl_env env g) (feeds w) (blobs w) owner n m" "owner_name owner"
  obtains w' where "GetPermission (acl_env env g) a n owner x w
      = (Inr (case m x of None \<Rightarrow> NoPermission | Some p \<Rightarrow> p), a\<lparr>listMap := (listMap a)(n \<mapsto> m)\<rparr>, w')"
    "inv b w'" "feeds w' = feeds w" "blobs w' = blobs w"
proof -
  obtain w' where l: "loadPermissions (acl_env env g) a n owner w = (Inr (), a\<lparr>listMap := (listMap a)(n \<mapsto> m)\<rparr>, w')"
    "inv b w'" "feeds w' = feeds w" "blobs w' = blobs w"
    by (rule acl_store.loadPermissions_ok [OF acl_laws [OF assms(2)] assms(1,3,4)])
  show thesis
    by (rule that [OF _ l(2-4)]) (simp add: GetPermission_def l(1) NoPermission_def cong: option.case_cong)
qed

lemma accept_ok:
  assumes b: "inv (b + 3) w" and k: "aiKey (acUser (grAccount h)) \<noteq> None"
    and at: "groups_at env (feeds w) (blobs w) (acUser (grAccount h)) l"
    and blob: "blobs w ref = Some (Doc (DGroupItem item))"
    and acl: "acl_at (acl_env env h) (feeds w) (blobs w) (gOwnerAddress item) (gName item) m" "owner_name (gOwnerAddress item)"
    and fit: "grouplist_fits env maxlen (acUser (grAccount h)) (l\<lparr>SharedGroups := SharedGroups l @ [item]\<rparr>)"
  obtains (accepted) w' where "m (user_address gl h) \<in> {Some PermissionRead, Some PermissionWrite}"
      "AcceptGroupInvite env gl h ref w =
        (Inr (), h\<lparr>grACL := (grACL h)\<lparr>listMap := (listMap (grACL h))(gName item \<mapsto> m)\<rparr>\<rparr>, w')"
      "inv b w'" "blobs w \<subseteq>\<^sub>m blobs w'"
      "groups_at env (feeds w') (blobs w') (acUser (grAccount h)) (l\<lparr>SharedGroups := SharedGroups l @ [item]\<rparr>)"
      "\<And>u' t q. (u', t) \<noteq> (aiAddress (acUser (grAccount h)), HashString (owner_feed env h) groups_path) \<Longrightarrow>
         feeds w' (u', t, q) = feeds w (u', t, q)"
    | (denied) w' where "m (user_address gl h) \<notin> {Some PermissionRead, Some PermissionWrite}"
      "AcceptGroupInvite env gl h ref w =
        (Inl ErrPermissionDenied, h\<lparr>grACL := (grACL h)\<lparr>listMap := (listMap (grACL h))(gName item \<mapsto> m)\<rparr>\<rparr>, w')"
      "feeds w' = feeds w" "blobs w' = blobs w"
proof -
  let ?h = "h\<lparr>grACL := (grACL h)\<lparr>listMap := (listMap (grACL h))(gName item \<mapsto> m)\<rparr>\<rparr>"
  let ?p = "case m (user_address gl h) of None \<Rightarrow> NoPermission | Some p \<Rightarrow> p"
  obtain w1 where 1: "known_groups env h w = (Inr l, w1)" "inv (b + 3) w1" "feeds w1 = feeds w" "blobs w1 = blobs w"
    by (rule load_groups_ok [OF b k at])
  obtain rd w2 where d: "DownloadBlob (owner_feed env h) ref w1 = (rd, w2)" by fastforce
  from storage.download_blob [OF net [OF k] 1(2) d] blob 1(4)
  have 2: "rd = Inr (Doc (DGroupItem item), 200)" "inv (b + 3) w2" "feeds w2 = feeds w" "blobs w2 = blobs w" using 1(3) by auto
  obtain w3 where 3: "GetPermission (acl_env env h) (grACL h) (gName item) (gOwnerAddress item) (user_address gl h) w2
      = (Inr ?p, (grACL h)\<lparr>listMap := (listMap (grACL h))(gName item \<mapsto> m)\<rparr>, w3)"
    "inv (b + 3) w3" "feeds w3 = feeds w2" "blobs w3 = blobs w2"
    by (rule member_permission [OF 2(2) k acl(1) [folded 2(3,4)] acl(2)])
  have run: "AcceptGroupInvite env gl h ref w =
      (if ?p \<noteq> PermissionRead \<and> ?p \<noteq> PermissionWrite then (Inl ErrPermissionDenied, ?h, w3)
       else case store_groups env ?h (l\<lparr>SharedGroups := SharedGroups l @ [item]\<rparr>) w3 of (r, w4) \<Rightarrow> (r, ?h, w4))"
    by (simp add: AcceptGroupInvite_def 1(1) d 2(1) item_json 3(1) Let_def)
  have p: "?p \<noteq> PermissionRead \<and> ?p \<noteq> PermissionWrite \<longleftrightarrow> m (user_address gl h) \<notin> {Some PermissionRead, Some PermissionWrite}"
    by (auto simp: NoPermission_def PermissionRead_def PermissionWrite_def split: option.splits)
  show thesis
  proof (cases "m (user_address gl h) \<in> {Some PermissionRead, Some PermissionWrite}")
    case False
    then have "AcceptGroupInvite env gl h ref w = (Inl ErrPermissionDenied, ?h, w3)" using run p by simp
    then show thesis by (rule denied [OF False]) (simp_all add: 3 2)
  next
    case True
    have kh: "aiKey (acUser (grAccount ?h)) \<noteq> None" "acUser (grAccount ?h) = acUser (grAccount h)" using k by simp_all
    have ath: "groups_at env (feeds w3) (blobs w3) (acUser (grAccount ?h)) l" using at by (simp add: 3 2)
    obtain w4 where 4: "store_groups env ?h (l\<lparr>SharedGroups := SharedGroups l @ [item]\<rparr>) w3 = (Inr (), w4)" "inv b w4"
      "blobs w3 \<subseteq>\<^sub>m blobs w4" "groups_at env (feeds w4) (blobs w4) (acUser (grAccount h)) (l\<lparr>SharedGroups := SharedGroups l @ [item]\<rparr>)"
      "\<And>u' t q. (u', t) \<noteq> (aiAddress (acUser (grAccount h)), HashString (owner_feed env h) groups_path) \<Longrightarrow>
         feeds w4 (u', t, q) = feeds w3 (u', t, q)"
      by (rule store_groups_ok [OF 3(2) kh(1) fit [folded kh(2)] text_at_topic [OF ath [unfolded groups_at_def]]]) (unfold kh(2), rule that)
    have "AcceptGroupInvite env gl h ref w = (Inr (), ?h, w4)" using run p True 4(1) by simp
    then show thesis
      by (rule accepted [OF True _ 4(2) _ 4(4)]) (use 4(3,5) in \<open>simp_all add: 3 2\<close>)
  qed
qed

lemma accept_member:
  assumes "inv (b + 3) w" "aiKey (acUser (grAccount h)) \<noteq> None"
    and "groups_at env (feeds w) (blobs w) (acUser (grAccount h)) l" "blobs w ref = Some (Doc (DGroupItem item))"
    and "acl_at (acl_env env h) (feeds w) (blobs w) (gOwnerAddress item) (gName item) m" "owner_name (gOwnerAddress item)"
    and "grouplist_fits env maxlen (acUser (grAccount h)) (l\<lparr>SharedGroups := SharedGroups l @ [item]\<rparr>)"
    and mp: "m (user_address gl h) \<in> {Some PermissionRead, Some PermissionWrite}"
  obtains w' where "AcceptGroupInvite env gl h ref w =
        (Inr (), h\<lparr>grACL := (grACL h)\<lparr>listMap := (listMap (grACL h))(gName item \<mapsto> m)\<rparr>\<rparr>, w')"
      "inv b w'" "blobs w \<subseteq>\<^sub>m blobs w'"
      "groups_at env (feeds w') (blobs w') (acUser (grAccount h)) (l\<lparr>SharedGroups := SharedGroups l @ [item]\<rparr>)"
      "\<And>u' t q. (u', t) \<noteq> (aiAddress (acUser (grAccount h)), HashString (owner_feed env h) groups_path) \<Longrightarrow>
         feeds w' (u', t, q) = feeds w (u', t, q)"
proof (rule accept_ok [OF assms(1-7)])
  fix w' assume "m (user_address gl h) \<notin> {Some PermissionRead, Some PermissionWrite}"
  with mp show thesis by simp
qed (rule that)

text \<open>An accepted invitation is opened by its name: for reading only, the feed object has
  no key.\<close>

lemma open_shared_ok:
  assumes b: "inv b w" and k: "aiKey (acUser (grAccount h)) = Some key"
    and at: "groups_at env (feeds w) (blobs w) (acUser (grAccount h)) (l\<lparr>SharedGroups := SharedGroups l @ [item]\<rparr>)"
    and name: "gName item \<notin> group_names l" "TrimSpace (gName item) = gName item" "groupsMap h (gName item) = None"
    and acl: "acl_at (acl_env env h) (feeds w) (blobs w) (gOwnerAddress item) (gName item) m" "owner_name (gOwnerAddress item)"
    and perm: "m (user_address gl h) = Some p" "p \<in> {PermissionRead, PermissionWrite}"
    and seed: "shared_seed gl h item = Inr seed" "secret_account env seed = Inr ai"
  obtains info h' w' where "OpenGroup env gl h (gName item) w = (Inr info, h', w')"
    "inName info = gName item" "inPassword info = gPassword item" "inUser info = aiAddress ai" "inAccount info = ai"
    "inFeed info = (if p = PermissionRead then SetAddress (aiAddress ai) GetEmptyAccountInfo else ai)"
    "drUser (inDir info) = aiAddress ai" "groupsMap h' (gName item) = Some info"
proof -
  let ?n = "gName item" and ?l = "l\<lparr>SharedGroups := SharedGroups l @ [item]\<rparr>"
  have key: "aiKey (acUser (grAccount h)) \<noteq> None" using k by simp
  obtain w1 where 1: "load_groups env h w = (Inr ?l, w1)" "inv b w1" "feeds w1 = feeds w" "blobs w1 = blobs w"
    by (rule load_groups_ok [OF b key at])
  have at1: "groups_at env (feeds w1) (blobs w1) (acUser (grAccount h)) ?l" using at by (simp add: 1)
  obtain w2 where 2: "known_groups env h w1 = (Inr ?l, w2)" "inv b w2" "feeds w2 = feeds w1" "blobs w2 = blobs w1"
    by (rule load_groups_ok [OF 1(2) key at1])
  let ?h = "h\<lparr>grACL := (grACL h)\<lparr>listMap := (listMap (grACL h))(?n \<mapsto> m)\<rparr>\<rparr>"
  obtain w3 where 3: "GetPermission (acl_env env h) (grACL h) ?n (gOwnerAddress item) (user_address gl h) w2
      = (Inr p, (grACL h)\<lparr>listMap := (listMap (grACL h))(?n \<mapsto> m)\<rparr>, w3)"
    by (rule member_permission [OF 2(2) key, where n = ?n and m = m and owner = "gOwnerAddress item"
          and a = "grACL h" and x = "user_address gl h"])
       (use acl 1 2 perm(1) in simp_all)
  have f: "find_group ?n (Groups ?l) = None" "find_group ?n (SharedGroups ?l) = Some item"
    using name(1) find_group_append [of ?n "SharedGroups l" item] by (simp_all add: find_group_None group_names_def)
  have "checkIfGroupPresent ?l ?n" by (simp add: checkIfGroupPresent_names group_names_def)
  then have gp: "Group_GetPermission env gl h ?n w1 = (Inr p, ?h, w3)"
    using 2(1) f 3(1) name(2) by (simp add: Group_GetPermission_def Let_def)
  have e: "acUser (grAccount ?h) = acUser (grAccount h)" by simp
  have ss: "shared_seed gl ?h item = Inr seed" unfolding shared_seed_def e by (rule seed(1) [unfolded shared_seed_def])
  let ?fd = "if p = PermissionRead then SetAddress (aiAddress ai) GetEmptyAccountInfo else ai"
  let ?info = "new_info env ?n (gPassword item) (aiAddress ai) ai ?fd"
  have run: "OpenGroup env gl h ?n w = (Inr ?info, addGroupToMap ?n ?info ?h, w3)"
    using 1(1) f gp perm(2) ss seed(2) name(2,3)
    by (auto simp: OpenGroup_def GetGroupInfoFromMap_def Let_def)
  show thesis
    by (rule that [OF run]) (simp_all add: new_info_def NewDirectory_def SetAddress_def addGroupToMap_def)
qed

text \<open>Adding a member: the invitation is a blob, and the owner's table has the member.\<close>

lemma AddMember_ok:
  assumes b: "inv (b + 4) w" and k: "aiKey (acUser (grAccount g)) = Some gk" and n: "TrimSpace name = name" "name \<noteq> []"
    and at: "groups_at env (feeds w) (blobs w) (acUser (grAccount g)) l" "find_group name (Groups l) = Some item"
    and tab: "owner_name (user_address gl g)" "listMap (grACL g) name = Some m"
      "file_topic_ok (feeds w) (owner_feed env g) (HexToAddress (user_address gl g)) (acl_path (user_address gl g) name) []"
      "acl_fits (acl_env env g) maxlen (user_address gl g) name (m(member \<mapsto> p))"
    and keys: "glDecrypt gl gk (gSecret item) = Inr seed" "glEncrypt gl (glShared gl mpk gk) seed = Inr z"
  obtains ref g' w' where "Group_AddMember env gl g name member mpk p w = (Inr ref, g', w')" "inv b w'" "blobs w \<subseteq>\<^sub>m blobs w'"
    "blobs w' ref = Some (Doc (DGroupItem (item\<lparr>gSecret := z\<rparr>)))"
    "acl_at (acl_env env g) (feeds w') (blobs w') (user_address gl g) name (m(member \<mapsto> p))"
    "\<And>u' t q. (u', t) \<noteq> (HexToAddress (user_address gl g), HashString (owner_feed env g) (acl_path (user_address gl g) name)) \<Longrightarrow>
       feeds w' (u', t, q) = feeds w (u', t, q)"
proof -
  let ?o = "user_address gl g" and ?m = "m(member \<mapsto> p)" and ?it = "item\<lparr>gSecret := z\<rparr>"
  have key: "aiKey (acUser (grAccount g)) \<noteq> None" using k by simp
  have pb: "private_bytes g = gk" using k by (simp add: private_bytes_def)
  obtain w0 where 0: "known_groups env g w = (Inr l, w0)" "inv (b + 4) w0" "feeds w0 = feeds w" "blobs w0 = blobs w"
    by (rule load_groups_ok [OF b key at(1)])
  have pr: "checkIfGroupPresent l name"
    using find_group_Some [OF at(2)] by (auto simp: checkIfGroupPresent_names group_names_def)
  obtain rb w1 where ub: "UploadBlob (owner_feed env g) (Doc (DGroupItem ?it)) w0 = (rb, w1)" by fastforce
  have b4: "inv (Suc (b + 3)) w0" using 0(2) by (simp add: numeral_eq_Suc)
  from storage.upload_blob [OF net [OF key] b4 ub] obtain ref where ref: "rb = Inr ref" "inv (b + 3) w1" "feeds w1 = feeds w0"
    "blobs w1 = (blobs w0)(ref \<mapsto> Doc (DGroupItem ?it))" "blobs w0 ref = None \<or> blobs w0 ref = Some (Doc (DGroupItem ?it))" by blast
  have le1: "blobs w \<subseteq>\<^sub>m blobs w1" using ref(4,5) 0(4) by (auto simp: map_le_def)
  let ?a = "(grACL g)\<lparr>listMap := (listMap (grACL g))(name \<mapsto> ?m)\<rparr>"
  have t1: "file_topic_ok (feeds w1) (aeFeed (acl_env env g)) (HexToAddress ?o) (acl_path ?o name) []"
    using tab(3) ref(3) 0(3) by (simp add: acl_env_def)
  obtain w2 where s: "storePermissions (acl_env env g) ?a name ?o w1 = (Inr (), ?a\<lparr>listMap := (listMap ?a)(name \<mapsto> ?m)\<rparr>, w2)"
    "inv b w2" "acl_at (acl_env env g) (feeds w2) (blobs w2) ?o name ?m" "blobs w1 \<subseteq>\<^sub>m blobs w2"
    "\<And>u' t q. (u', t) \<noteq> (HexToAddress ?o, HashString (aeFeed (acl_env env g)) (acl_path ?o name)) \<Longrightarrow>
       feeds w2 (u', t, q) = feeds w1 (u', t, q)"
    by (rule acl_store.storePermissions_ok [OF acl_laws [OF key] ref(2) tab(1) n(2) _ tab(4) t1, of ?a])
       (simp, rule that)
  have run: "Group_AddMember env gl g name member mpk p w = (Inr ref, g\<lparr>grACL := ?a\<rparr>, w2)"
    using 0(1) pr at(2) k tab(2) keys ub ref(1) s(1) n(1) pb
    by (simp add: Group_AddMember_def ACL_AddMember_def Let_def)
  have blob: "blobs w2 ref = Some (Doc (DGroupItem ?it))" using s(4) ref(4) by (auto simp: map_le_def)
  show thesis
    by (rule that [OF run s(2) map_le_trans [OF le1 s(4)] blob s(3)]) (use s(5) ref(3) 0(3) in \<open>simp add: acl_env_def\<close>)
qed

end

section \<open>Properties\<close>

text \<open>C25: an invitation is accepted only by a user whom the owner's table allows to read
  or to write; then the group is appended to the user's list of shared groups.  For
  everybody else it is refused, and nothing is written.\<close>

theorem AcceptGroupInvite_guard:
  assumes "groups env maxlen good feeds blobs gl" "good (b + 3) w" "aiKey (acUser (grAccount h)) \<noteq> None"
    "groups_at env (feeds w) (blobs w) (acUser (grAccount h)) l" "blobs w ref = Some (Doc (DGroupItem item))"
    "acl_at (acl_env env h) (feeds w) (blobs w) (gOwnerAddress item) (gName item) m" "owner_name (gOwnerAddress item)"
    "grouplist_fits env maxlen (acUser (grAccount h)) (l\<lparr>SharedGroups := SharedGroups l @ [item]\<rparr>)"
  shows "\<exists>r h' w'. AcceptGroupInvite env gl h ref w = (r, h', w') \<and>
    (if m (user_address gl h) \<in> {Some PermissionRead, Some PermissionWrite}
     then r = Inr () \<and> groups_at env (feeds w') (blobs w') (acUser (grAccount h)) (l\<lparr>SharedGroups := SharedGroups l @ [item]\<rparr>)
     else r = Inl ErrPermissionDenied \<and> feeds w' = feeds w \<and> blobs w' = blobs w)"
  by (rule groups.accept_ok [OF assms]) (simp_all only: if_P if_not_P simp_thms prod.inject ex_simps, auto)

text \<open>C24: the owner of a group invites a user with AddMember, the user accepts the
  reference and opens the group: the account of the group, its address and password are
  those of the owner's secret, and the user's feed object can write exactly if the
  permission that was given is to write.\<close>

theorem group_invitation:
  assumes "groups env maxlen good feeds blobs gl" "good (b + 7) w" "TrimSpace name = name" "name \<noteq> []"
    and owner: "aiKey (acUser (grAccount g)) = Some gk" "groups_at env (feeds w) (blobs w) (acUser (grAccount g)) lg"
      "find_group name (Groups lg) = Some item" "gOwnerAddress item = user_address gl g" "owner_name (user_address gl g)"
      "glDecrypt gl gk (gSecret item) = Inr seed" "listMap (grACL g) name = Some m"
      "file_topic_ok (feeds w) (owner_feed env g) (HexToAddress (user_address gl g)) (acl_path (user_address gl g) name) []"
      "acl_fits (acl_env env g) maxlen (user_address gl g) name (m(user_address gl h \<mapsto> p))"
    and member: "aiKey (acUser (grAccount h)) = Some hk" "groups_at env (feeds w) (blobs w) (acUser (grAccount h)) lh"
      "name \<notin> group_names lh" "groupsMap h name = None"
      "HexToAddress (user_address gl g) \<noteq> aiAddress (acUser (grAccount h))"
      "grouplist_fits env maxlen (acUser (grAccount h)) (lh\<lparr>SharedGroups := SharedGroups lh @ [item\<lparr>gSecret := z\<rparr>]\<rparr>)"
    and keys: "glParsePublic gl (gOwnerPublicKey item) = Inr gpk" "glShared gl mpk gk = glShared gl gpk hk"
      "glEncrypt gl (glShared gl mpk gk) seed = Inr z"
      "secret_account env seed = Inr ai" "p \<in> {PermissionRead, PermissionWrite}"
  shows "\<exists>ref g' w1 h1 w2 info h2 w3. Group_AddMember env gl g name (user_address gl h) mpk p w = (Inr ref, g', w1)
    \<and> AcceptGroupInvite env gl h ref w1 = (Inr (), h1, w2) \<and> OpenGroup env gl h1 name w2 = (Inr info, h2, w3)
    \<and> inUser info = aiAddress ai \<and> inPassword info = gPassword item \<and> drUser (inDir info) = aiAddress ai
    \<and> inFeed info = (if p = PermissionWrite then ai else SetAddress (aiAddress ai) GetEmptyAccountInfo)"
proof -
  let ?u = "acUser (grAccount g)" and ?v = "acUser (grAccount h)" and ?o = "user_address gl g" and ?m = "m(user_address gl h \<mapsto> p)"
  let ?it = "item\<lparr>gSecret := z\<rparr>" and ?l = "lh\<lparr>SharedGroups := SharedGroups lh @ [item\<lparr>gSecret := z\<rparr>]\<rparr>"
  have kg: "aiKey ?u \<noteq> None" and kh: "aiKey ?v \<noteq> None" using owner(1) member(1) by simp_all
  have iname: "gName item = name" using find_group_Some [OF owner(3)] by simp
  have g: "good ((b + 3) + 4) w" using assms(2) by (simp add: add.assoc)
  obtain ref g' w2 where add: "Group_AddMember env gl g name (user_address gl h) mpk p w = (Inr ref, g', w2)"
    and s: "good (b + 3) w2" "blobs w \<subseteq>\<^sub>m blobs w2"
    and blob: "blobs w2 ref = Some (Doc (DGroupItem ?it))"
    and acl2: "acl_at (acl_env env g) (feeds w2) (blobs w2) ?o name ?m"
    and frame: "\<And>u' t q. (u', t) \<noteq> (HexToAddress ?o, HashString (owner_feed env g) (acl_path ?o name)) \<Longrightarrow>
       feeds w2 (u', t, q) = feeds w (u', t, q)"
    by (rule groups.AddMember_ok [OF assms(1) g owner(1) assms(3,4) owner(2,3,5,7,8,9,6) keys(3)]) (rule that)
  have ath: "groups_at env (feeds w2) (blobs w2) ?v lh"
    unfolding groups_at_def
    by (rule text_at_mono [OF member(2) [unfolded groups_at_def] s(2)]) (use frame member(5) in simp)
  have aclh: "acl_at (acl_env env h) (feeds w2) (blobs w2) (gOwnerAddress ?it) (gName ?it) ?m" "owner_name (gOwnerAddress ?it)"
    using acl2 groups.acl_at_any [OF assms(1) kg kh] owner(4,5) iname by simp_all
  have mp: "?m (user_address gl h) \<in> {Some PermissionRead, Some PermissionWrite}" using keys(5) by auto
  let ?h1 = "h\<lparr>grACL := (grACL h)\<lparr>listMap := (listMap (grACL h))(gName ?it \<mapsto> ?m)\<rparr>\<rparr>"
  obtain w3 where acc: "AcceptGroupInvite env gl h ref w2 = (Inr (), ?h1, w3)" "good b w3" "blobs w2 \<subseteq>\<^sub>m blobs w3"
    "groups_at env (feeds w3) (blobs w3) ?v ?l"
    "\<And>u' t q. (u', t) \<noteq> (aiAddress ?v, HashString (owner_feed env h) groups_path) \<Longrightarrow> feeds w3 (u', t, q) = feeds w2 (u', t, q)"
    by (rule groups.accept_member [OF assms(1) s(1) kh ath blob aclh member(6) mp]) (rule that)
  have h1: "acUser (grAccount ?h1) = ?v" "acl_env env ?h1 = acl_env env h" by (simp_all add: acl_env_def)
  have nm: "gName ?it = name" using iname by simp
  have ua: "user_address gl ?h1 = user_address gl h" by (simp add: user_address_def)
  have acl3: "acl_at (acl_env env ?h1) (feeds w3) (blobs w3) (gOwnerAddress ?it) (gName ?it) ?m"
    unfolding h1(2) acl_at_def
    using aclh(1) [unfolded acl_at_def]
    by (auto intro!: text_at_mono [OF _ acc(3)]) (use acc(5) owner(4) member(5) in simp)
  have seed: "shared_seed gl ?h1 ?it = Inr seed"
    using keys(1,2) member(1) groups.unseal [OF assms(1) keys(3)] unfolding shared_seed_def h1(1) by simp
  obtain info h2 w4 where op: "OpenGroup env gl ?h1 (gName ?it) w3 = (Inr info, h2, w4)" "inPassword info = gPassword ?it"
    "inUser info = aiAddress ai" "drUser (inDir info) = aiAddress ai"
    "inFeed info = (if p = PermissionRead then SetAddress (aiAddress ai) GetEmptyAccountInfo else ai)"
    by (rule groups.open_shared_ok [OF assms(1) acc(2), of ?h1 hk lh ?it ?m p seed ai])
       (use acc(4) member h1 nm assms(3) acl3 aclh(2) keys(4,5) seed ua in simp_all)
  have pw: "(if p = PermissionRead then SetAddress (aiAddress ai) GetEmptyAccountInfo else ai)
      = (if p = PermissionWrite then ai else SetAddress (aiAddress ai) GetEmptyAccountInfo)"
    using keys(5) by (auto simp: PermissionRead_def PermissionWrite_def)
  show ?thesis
    by (intro exI conjI, rule add, rule acc(1) [unfolded nm], rule op(1) [unfolded nm]) (use op(2-5) pw in simp_all)
qed

end
