(* ===== verification/GroupRuns.thy ===== *)
theory GroupRuns
  imports GroupLife PodRuns "HOL-Library.List_Lexorder" "HOL-Library.Char_ord"
begin

text \<open>
  Runs of the group operations on the Swarm in memory, and the interpretation of the
  locales groups and acl_store.  Encryption puts the key in front of the text, and
  the key that two users share is the concatenation of both of theirs, in order.  The
  name of an address is its last byte.
\<close>

section \<open>Encodings\<close>

definition perm_strings :: "permissions \<Rightarrow> string list" where
  "perm_strings m = concat (map (\<lambda>k. [k, enc_int (uint (the (m k)))]) (sorted_list_of_set (dom m)))"

fun strings_perm :: "string list \<Rightarrow> permissions" where
  "strings_perm (k # x # ss) = (strings_perm ss)(k \<mapsto> of_int (dec_int x))"
| "strings_perm ss = Map.empty"

lemma strings_perm_inv: "finite (dom m) \<Longrightarrow> strings_perm (perm_strings m) = m"
proof -
  assume fin: "finite (dom m)"
  have gen: "strings_perm (concat (map (\<lambda>k. [k, enc_int (uint (the (m k)))]) ks)) = m |` set ks" if "set ks \<subseteq> dom m" for ks
    using that
  proof (induction ks)
    case (Cons k ks)
    then show ?case by (auto simp: fun_eq_iff restrict_map_def)
  qed simp
  have "m |` dom m = m" by (auto simp: restrict_map_def fun_eq_iff domIff)
  then show ?thesis using fin gen [of "sorted_list_of_set (dom m)"] by (simp add: perm_strings_def)
qed

definition item_strings :: "string \<Rightarrow> GroupItem \<Rightarrow> string list" where
  "item_strings k x = [k, gName x, string_of (gOwnerPublicKey x), gOwnerAddress x, gPassword x, string_of (gSecret x)]"

definition group_strings :: "GroupList \<Rightarrow> string list" where
  "group_strings l = concat (map (item_strings ''o'') (Groups l)) @ concat (map (item_strings ''s'') (SharedGroups l))"

fun strings_groups :: "string list \<Rightarrow> GroupList" where
  "strings_groups (k # n # pk # a # pw # sec # ss) =
     (let l = strings_groups ss;
          x = \<lparr>gName = n, gOwnerPublicKey = bytes_of pk, gOwnerAddress = a, gPassword = pw, gSecret = bytes_of sec\<rparr> in
      if k = ''o'' then l\<lparr>Groups := x # Groups l\<rparr> else l\<lparr>SharedGroups := x # SharedGroups l\<rparr>)"
| "strings_groups ss = \<lparr>Groups = [], SharedGroups = []\<rparr>"

lemma bytes_of_string_of [simp]: "bytes_of (string_of b) = b"
proof -
  have "of_char (char_of (unat x)) = x" for x :: byte
  proof -
    have "unat x < 256" using unsigned_less [of x] by simp
    then have "(of_char (char_of (unat x)) :: nat) = unat x" by (rule of_char_small)
    then have "(of_nat (of_char (char_of (unat x))) :: byte) = of_nat (unat x)" by simp
    then show ?thesis by (metis of_nat_of_char of_nat_unat ucast_id)
  qed
  then show ?thesis by (simp add: string_of_def bytes_of_def comp_def)
qed

lemma strings_groups_item:
  "strings_groups (item_strings k x @ ss) =
     (if k = ''o'' then (strings_groups ss)\<lparr>Groups := x # Groups (strings_groups ss)\<rparr>
      else (strings_groups ss)\<lparr>SharedGroups := x # SharedGroups (strings_groups ss)\<rparr>)"
  by (simp add: item_strings_def Let_def)

lemma strings_groups_inv: "strings_groups (group_strings l) = l"
proof -
  have s: "strings_groups (concat (map (item_strings ''s'') qs)) = \<lparr>Groups = [], SharedGroups = qs\<rparr>" for qs
    by (induction qs) (simp_all add: strings_groups_item)
  have "strings_groups (concat (map (item_strings ''o'') ps) @ concat (map (item_strings ''s'') qs)) = \<lparr>Groups = ps, SharedGroups = qs\<rparr>" for ps qs
    by (induction ps) (simp_all add: s strings_groups_item)
  then show ?thesis by (simp add: group_strings_def)
qed

definition group_json :: json where
  "group_json = pod_json\<lparr>Marshal := (\<lambda>d. case d of DGroupList l \<Rightarrow> 8 # enc_strings (group_strings l)
       | DPermissions m \<Rightarrow> 6 # enc_strings (perm_strings m) | _ \<Rightarrow> Marshal pod_json d),
     UnmarshalGroupList := (\<lambda>b. Some (strings_groups (dec_strings [] (tl b)))),
     UnmarshalPermissions := (\<lambda>b. Some (strings_perm (dec_strings [] (tl b))))\<rparr>"

lemma dec_enc [simp]: "dec_strings [] (enc_strings ss) = ss"
  by (simp add: dec_enc_strings split: list.split)

section \<open>The interpretations\<close>

definition run_groups :: "((bytes \<times> Address) Handler \<times> memnet, int, int) podenv" where
  "run_groups = run_env\<lparr>peJson := group_json\<rparr>"

definition run_gl :: grouplib where
  "run_gl = \<lparr>glSum256 = (\<lambda>b. b), glRand = (\<lambda>n. Inr (replicate n 0)),
     glCFBEncrypter = (\<lambda>k iv s. k @ s), glCFBDecrypter = (\<lambda>k iv c. drop (length k) c),
     glScalarMult = (\<lambda>p k. if p \<le> k then p @ k else k @ p), glParsePublic = Inr, glHex = (\<lambda>a. HexEncode (drop 19 a)),
     glItem = (\<lambda>c. case c of Doc (DGroupItem x) \<Rightarrow> Some x | _ \<Rightarrow> None)\<rparr>"

interpretation run_groups: groups run_groups 31 mem_good mem_feeds mem_blobs run_gl
proof (rule groups.intro)
  show "pods run_groups 31 mem_good mem_feeds mem_blobs"
    using run.net run.gzip run.caps run.share_json pod_list_json
    by (auto intro!: pods.intro simp: run_groups_def run_env_def group_json_def pod_json_def strings_list_inv)
  show "groups_axioms run_groups run_gl"
    by (auto intro!: groups_axioms.intro simp: run_groups_def run_env_def group_json_def run_gl_def pod_feed_def
        strings_groups_inv strings_perm_inv)
qed

definition run_acl :: "((bytes \<times> Address) Handler \<times> memnet) aclenv" where
  "run_acl = \<lparr>aeFeed = mem_services, aeLibs = run_libs, aeJson = group_json, aeLate = (\<lambda>i. False)\<rparr>"

interpretation run_acl: acl_store run_acl 31 mem_good mem_feeds mem_blobs
proof (rule acl_store.intro)
  show "storage (aeFeed run_acl) 31 mem_good mem_feeds mem_blobs" using mem_storage by (simp add: run_acl_def)
  show "acl_store_axioms run_acl"
    using run_libs_ok by (auto intro!: acl_store_axioms.intro simp: run_acl_def group_json_def strings_perm_inv)
qed

section \<open>A table\<close>

lemma length_perm_strings:
  assumes "finite (dom m)"
  shows "length (enc_strings (perm_strings m)) = (\<Sum>k \<in> dom m. 2 * length k + 2 * length (enc_int (uint (the (m k)))) + 2)"
proof -
  have "length (enc_strings (concat (map (\<lambda>k. [k, enc_int (uint (the (m k)))]) ks)))
      = (\<Sum>k \<leftarrow> ks. 2 * length k + 2 * length (enc_int (uint (the (m k)))) + 2)" for ks
    by (induction ks) (simp_all add: length_enc_strings)
  then show ?thesis using assms by (simp add: perm_strings_def sum_list_distinct_conv_sum_set)
qed

lemma run_owner: "owner_name ''01''"
  by (simp add: owner_name_def)

lemma run_acl_fits:
  "acl_fits run_acl 31 ''01'' ''g'' [''01'' \<mapsto> 2]"
  "acl_fits run_acl 31 ''01'' ''g'' [''01'' \<mapsto> 2, ''02'' \<mapsto> 1]"
  "acl_fits run_acl 31 ''01'' ''g'' [''01'' \<mapsto> 2, ''02'' \<mapsto> 2]"
proof -
  have fit: "acl_fits run_acl 31 ''01'' ''g'' m" if "finite (dom m)" "length (enc_strings (perm_strings m)) \<le> 1000" for m
    using that
    by (simp add: acl_fits_def run_acl_def group_json_def MinBlockSize_def run_storable)
      (simp add: acl_path_def CombinePathAndFile_def TrimPrefix_def)
  show "acl_fits run_acl 31 ''01'' ''g'' [''01'' \<mapsto> 2]"
    by (rule fit, simp, subst length_perm_strings) (simp_all add: enc_int_def)
  show "acl_fits run_acl 31 ''01'' ''g'' [''01'' \<mapsto> 2, ''02'' \<mapsto> 1]"
    by (rule fit, simp, subst length_perm_strings) (simp_all add: enc_int_def)
  show "acl_fits run_acl 31 ''01'' ''g'' [''01'' \<mapsto> 2, ''02'' \<mapsto> 2]"
    by (rule fit, simp, subst length_perm_strings) (simp_all add: enc_int_def)
qed

lemma acl_is_a_table_witness:
  "\<exists>w'. acl_run run_acl \<lparr>listMap = [''g'' \<mapsto> [''01'' \<mapsto> 2]]\<rparr> ''g'' ''01'' (AddOp ''02'' 1) mem_start
      = (Inr (), \<lparr>listMap = [''g'' \<mapsto> [''01'' \<mapsto> 2, ''02'' \<mapsto> 1]]\<rparr>, w') \<and> mem_good 0 w'
    \<and> (\<forall>a2 x. \<exists>r w2. GetPermission run_acl a2 ''g'' ''01'' x w'
        = (Inr (case [''01'' \<mapsto> 2, ''02'' \<mapsto> 1] x of None \<Rightarrow> NoPermission | Some q \<Rightarrow> q), r, w2))"
proof -
  let ?a = "\<lparr>listMap = [''g'' \<mapsto> [''01'' \<mapsto> 2]]\<rparr>"
  have sp: "acl_spec ''01'' (AddOp ''02'' 1) (listMap ?a ''g'') = Some [''01'' \<mapsto> 2, ''02'' \<mapsto> 1]" by simp
  have fit: "acl_fits run_acl 31 ''01'' ''g'' m" if "acl_spec ''01'' (AddOp ''02'' 1) (listMap ?a ''g'') = Some m" for m
    using that run_acl_fits(2) by simp
  have g: "mem_good (0 + 3) mem_start" by (simp add: mem_start_good)
  have n: "''g'' \<noteq> []" by simp
  have eq: "?a\<lparr>listMap := (listMap ?a)(''g'' \<mapsto> m)\<rparr> = \<lparr>listMap = [''g'' \<mapsto> m]\<rparr>" for m by simp
  show ?thesis
    using acl_is_a_table [where a = ?a and op = "AddOp ''02'' 1", OF run_acl.acl_store_axioms g run_owner n run_no_topic fit]
    unfolding sp option.case eq .
qed

section \<open>An invitation\<close>

definition run_item :: GroupItem where
  "run_item = \<lparr>gName = ''g'', gOwnerPublicKey = [1], gOwnerAddress = ''01'', gPassword = ''pw'', gSecret = replicate 16 0 @ [1, 5]\<rparr>"

definition run_group :: "byte \<Rightarrow> Group" where
  "run_group b = NewGroup (run_user b) \<lparr>listMap = [''g'' \<mapsto> [''01'' \<mapsto> 2]]\<rparr>"

lemma run_group_simps:
  "acUser (grAccount (run_group b)) = \<lparr>aiKey = Some [b], aiPublic = Some [b], aiAddress = replicate 20 b\<rparr>"
  "groupsMap (run_group b) n = None" "listMap (grACL (run_group b)) ''g'' = Some [''01'' \<mapsto> 2]"
  by (simp_all add: run_group_def NewGroup_def run_user_def)

lemma run_grouplist_fits:
  "sum_list (map (\<lambda>s. 2 * length s + 1) (group_strings l)) < 1000000 \<Longrightarrow> grouplist_fits run_groups 31 (acUser (grAccount (run_group b))) l"
  by (simp add: grouplist_fits_def run_groups_def run_env_def pod_feed_def group_json_def length_enc_strings MinBlockSize_def
      groups_path_def run_storable run_group_simps)

lemma run_address:
  "user_address run_gl (run_group 1) = ''01''" "user_address run_gl (run_group 2) = ''02''"
proof -
  have "(of_char CHR ''0'' :: nat) = 48" "(of_char CHR ''1'' :: nat) = 49" "(of_char CHR ''2'' :: nat) = 50" by simp_all
  then have "char_of (48 :: nat) = CHR ''0''" "char_of (49 :: nat) = CHR ''1''" "char_of (50 :: nat) = CHR ''2''"
    by (metis char_of_char)+
  then show "user_address run_gl (run_group 1) = ''01''" "user_address run_gl (run_group 2) = ''02''"
    by (simp_all add: user_address_def run_gl_def run_group_simps HexEncode_def hex_digit_def)
qed

lemma run_acl_env: "acl_env run_groups (run_group b) = run_acl"
  by (simp add: acl_env_def run_groups_def run_env_def pod_feed_def run_group_simps run_acl_def)

lemma run_addresses: "replicate 20 (1 :: byte) \<noteq> replicate 20 2" "HexToAddress ''01'' \<notin> {replicate 20 1, replicate 20 2}"
proof -
  have h: "hd (replicate 20 c) = c" for c :: byte by simp
  show "replicate 20 (1 :: byte) \<noteq> replicate 20 2"
  proof
    assume "replicate 20 (1 :: byte) = replicate 20 2"
    from arg_cong [OF this, of hd] show False by simp
  qed
  have "hex_value CHR ''0'' = Some 0" "hex_value CHR ''1'' = Some 1" by (simp_all add: hex_value_def)
  then have "hd (HexToAddress ''01'') = 0"
    by (simp add: HexToAddress_def fromHex_def has0xPrefix_def bytesToAddress_def SetBytes_def
        zero_address_def AddressLength_def)
  then have "HexToAddress ''01'' \<noteq> replicate 20 c" if "c \<noteq> 0" for c using h that by metis
  then show "HexToAddress ''01'' \<notin> {replicate 20 1, replicate 20 2}" by simp
qed

text \<open>The owner has the group, the other user has none.\<close>

lemma run_grouplists:
  obtains w where "mem_good 100 w"
    "groups_at run_groups (mem_feeds w) (mem_blobs w) (acUser (grAccount (run_group 1))) \<lparr>Groups = [run_item], SharedGroups = []\<rparr>"
    "groups_at run_groups (mem_feeds w) (mem_blobs w) (acUser (grAccount (run_group 2))) \<lparr>Groups = [], SharedGroups = []\<rparr>"
    "\<And>(sv :: ((bytes \<times> Address) Handler \<times> memnet) services) path pw. file_topic_ok (mem_feeds w) sv (HexToAddress ''01'') path pw"
proof -
  let ?u = "acUser (grAccount (run_group 1))" and ?v = "acUser (grAccount (run_group 2))"
  let ?l = "\<lparr>Groups = [run_item], SharedGroups = []\<rparr>" and ?e = "\<lparr>Groups = [], SharedGroups = []\<rparr>"
  have k: "aiKey ?u \<noteq> None" "aiKey ?v \<noteq> None" by (simp_all add: run_group_simps)
  have f: "grouplist_fits run_groups 31 ?u ?l" "grouplist_fits run_groups 31 ?v ?e"
    by (rule run_grouplist_fits; simp add: group_strings_def item_strings_def run_item_def string_of_def)+
  have g: "mem_good (103 + 3) mem_start" by (simp add: mem_start_good)
  obtain w1 where 1: "mem_good 103 w1" "groups_at run_groups (mem_feeds w1) (mem_blobs w1) ?u ?l"
    "\<And>u' t q. (u', t) \<noteq> (aiAddress ?u, HashString (owner_feed run_groups (run_group 1)) groups_path) \<Longrightarrow>
       mem_feeds w1 (u', t, q) = mem_feeds mem_start (u', t, q)"
    by (rule run_groups.store_groups_ok [OF g k(1) f(1) run_no_topic]) (rule that)
  have g1: "mem_good (100 + 3) w1" using 1(1) by simp
  have t: "file_topic_ok (mem_feeds w1) (owner_feed run_groups (run_group 2)) (aiAddress ?v) groups_path (user_secret ?v)"
    using 1(3) run_addresses(1) by (simp add: file_topic_ok_def mem_start_empty run_group_simps)
  obtain w2 where 2: "mem_good 100 w2" "mem_blobs w1 \<subseteq>\<^sub>m mem_blobs w2" "groups_at run_groups (mem_feeds w2) (mem_blobs w2) ?v ?e"
    "\<And>u' t q. (u', t) \<noteq> (aiAddress ?v, HashString (owner_feed run_groups (run_group 2)) groups_path) \<Longrightarrow>
       mem_feeds w2 (u', t, q) = mem_feeds w1 (u', t, q)"
    by (rule run_groups.store_groups_ok [OF g1 k(2) f(2) t]) (rule that)
  have at: "groups_at run_groups (mem_feeds w2) (mem_blobs w2) ?u ?l"
    unfolding groups_at_def
    by (rule text_at_mono [OF 1(2) [unfolded groups_at_def] 2(2)]) (use 2(4) run_addresses(1) in \<open>simp add: run_group_simps\<close>)
  show thesis
    by (rule that [OF 2(1) at 2(3)])
       (use 1(3) 2(4) run_addresses(2) in \<open>simp add: mem_start_empty run_group_simps file_topic_ok_def\<close>)
qed

definition run_secret :: AccInfo where
  "run_secret = \<lparr>aiKey = Some (bytes_of rootPath), aiPublic = Some (bytes_of rootPath), aiAddress = SetBytes (bytes_of rootPath) zero_address\<rparr>"

lemma run_secret_account: "secret_account run_groups [5] = Inr run_secret"
  by (simp add: secret_account_def LoadUserAccountFromSeed_def run_groups_def run_env_def pod_wallet_def
      CreateAccountFromSeed_def set_keys_def Let_def NewAccount_def GetEmptyAccountInfo_def newWallet_def run_secret_def)

lemma group_invitation_witness:
  "\<exists>w ref g' w1 h1 w2 info h2 w3. Group_AddMember run_groups run_gl (run_group 1) ''g'' ''02'' [2] PermissionWrite w = (Inr ref, g', w1)
    \<and> AcceptGroupInvite run_groups run_gl (run_group 2) ref w1 = (Inr (), h1, w2)
    \<and> OpenGroup run_groups run_gl h1 ''g'' w2 = (Inr info, h2, w3)
    \<and> inUser info = aiAddress run_secret \<and> inPassword info = ''pw'' \<and> inFeed info = run_secret"
proof -
  let ?l = "\<lparr>Groups = [run_item], SharedGroups = []\<rparr>" and ?e = "\<lparr>Groups = [], SharedGroups = []\<rparr>"
  obtain w where w: "mem_good 100 w"
    "groups_at run_groups (mem_feeds w) (mem_blobs w) (acUser (grAccount (run_group 1))) ?l"
    "groups_at run_groups (mem_feeds w) (mem_blobs w) (acUser (grAccount (run_group 2))) ?e"
    "\<And>(sv :: ((bytes \<times> Address) Handler \<times> memnet) services) path pw. file_topic_ok (mem_feeds w) sv (HexToAddress ''01'') path pw"
    by (rule run_grouplists) (rule that)
  have g: "mem_good (93 + 7) w" using w(1) by simp
  have tr: "TrimSpace ''g'' = ''g''" "''g'' \<noteq> []" by code_simp+
  have key: "aiKey (acUser (grAccount (run_group b))) = Some [b]" for b by (simp add: run_group_simps)
  have fg: "find_group ''g'' (Groups ?l) = Some run_item" by (simp add: find_group_def run_item_def)
  have ow: "gOwnerAddress run_item = user_address run_gl (run_group 1)" "owner_name (user_address run_gl (run_group 1))"
    using run_owner by (simp_all add: run_address run_item_def)
  have dec: "glDecrypt run_gl [1] (gSecret run_item) = Inr [5]" "glParsePublic run_gl (gOwnerPublicKey run_item) = Inr [1]"
    "glShared run_gl [2] [1] = glShared run_gl [1] [2]" "glEncrypt run_gl (glShared run_gl [2] [1]) [5] = Inr (replicate 16 0 @ [1, 2, 5])"
    by (simp_all add: run_gl_def run_item_def glEncrypt_def glDecrypt_def glShared_def aesBlockSize_def Let_def)
  have tab: "listMap (grACL (run_group 1)) ''g'' = Some [''01'' \<mapsto> 2]" by (rule run_group_simps)
  have t: "file_topic_ok (mem_feeds w) (owner_feed run_groups (run_group 1)) (HexToAddress (user_address run_gl (run_group 1)))
      (acl_path (user_address run_gl (run_group 1)) ''g'') []" unfolding run_address by (rule w(4))
  have fit: "acl_fits (acl_env run_groups (run_group 1)) 31 (user_address run_gl (run_group 1)) ''g''
      [''01'' \<mapsto> 2, user_address run_gl (run_group 2) \<mapsto> PermissionWrite]"
    using run_acl_fits(3) by (simp add: run_acl_env run_address PermissionWrite_def)
  have new: "''g'' \<notin> group_names ?e" "groupsMap (run_group 2) ''g'' = None" by (simp_all add: group_names_def run_group_simps)
  have ne: "HexToAddress (user_address run_gl (run_group 1)) \<noteq> aiAddress (acUser (grAccount (run_group 2)))"
    using run_addresses(2) by (simp add: run_address run_group_simps)
  have gf: "grouplist_fits run_groups 31 (acUser (grAccount (run_group 2)))
      (?e\<lparr>SharedGroups := SharedGroups ?e @ [run_item\<lparr>gSecret := replicate 16 0 @ [1, 2, 5]\<rparr>]\<rparr>)"
    by (rule run_grouplist_fits) (simp add: group_strings_def item_strings_def run_item_def string_of_def)
  have pw: "PermissionWrite \<in> {PermissionRead, PermissionWrite}" by simp
  from group_invitation [OF run_groups.groups_axioms g tr key w(2) fg ow dec(1) tab t fit key w(3) new ne gf dec(2-4) run_secret_account pw]
  obtain ref g' w1 h1 w2 info h2 w3 where
    1: "Group_AddMember run_groups run_gl (run_group 1) ''g'' ''02'' [2] PermissionWrite w = (Inr ref, g', w1)" and
    2: "AcceptGroupInvite run_groups run_gl (run_group 2) ref w1 = (Inr (), h1, w2)" and
    3: "OpenGroup run_groups run_gl h1 ''g'' w2 = (Inr info, h2, w3)" and
    4: "inUser info = aiAddress run_secret" "inPassword info = gPassword run_item"
      "inFeed info = (if PermissionWrite = PermissionWrite then run_secret else SetAddress (aiAddress run_secret) GetEmptyAccountInfo)"
    unfolding run_address by blast
  show ?thesis by (intro exI conjI, rule 1, rule 2, rule 3) (use 4 in \<open>simp_all add: run_item_def\<close>)
qed

lemma AcceptGroupInvite_guard_witness:
  "\<exists>w ref h' w'. AcceptGroupInvite run_groups run_gl (run_group 2) ref w = (Inl ErrPermissionDenied, h', w')
    \<and> mem_feeds w' = mem_feeds w \<and> mem_blobs w' = mem_blobs w"
proof -
  let ?e = "\<lparr>Groups = [], SharedGroups = []\<rparr>" and ?v = "acUser (grAccount (run_group 2))"
  obtain w where w: "mem_good 100 w" "groups_at run_groups (mem_feeds w) (mem_blobs w) ?v ?e"
    "\<And>(sv :: ((bytes \<times> Address) Handler \<times> memnet) services) path pw. file_topic_ok (mem_feeds w) sv (HexToAddress ''01'') path pw"
    by (rule run_grouplists) (rule that)
  have key: "aiKey ?v \<noteq> None" by (simp add: run_group_simps)
  \<comment> \<open>the invitation\<close>
  obtain rb w1 where ub: "UploadBlob (owner_feed run_groups (run_group 2)) (Doc (DGroupItem run_item)) w = (rb, w1)"
    by (metis prod.exhaust)
  have g: "mem_good (Suc 99) w" using w(1) by simp
  from storage.upload_blob [OF run_groups.net [OF key] g ub] obtain ref where ref: "rb = Inr ref" "mem_good 99 w1"
    "mem_feeds w1 = mem_feeds w" "mem_blobs w1 = (mem_blobs w)(ref \<mapsto> Doc (DGroupItem run_item))"
    "mem_blobs w ref = None \<or> mem_blobs w ref = Some (Doc (DGroupItem run_item))" by blast
  \<comment> \<open>the table, which has the owner alone\<close>
  let ?a = "\<lparr>listMap = [''g'' \<mapsto> [''01'' \<mapsto> 2]]\<rparr>"
  have g1: "mem_good (96 + 3) w1" using ref(2) by simp
  obtain w2 where 2: "mem_good 96 w2" "acl_at run_acl (mem_feeds w2) (mem_blobs w2) ''01'' ''g'' [''01'' \<mapsto> 2]" "mem_blobs w1 \<subseteq>\<^sub>m mem_blobs w2"
    "\<And>u' t q. (u', t) \<noteq> (HexToAddress ''01'', HashString (aeFeed run_acl) (acl_path ''01'' ''g'')) \<Longrightarrow>
       mem_feeds w2 (u', t, q) = mem_feeds w1 (u', t, q)"
    by (rule run_acl.storePermissions_ok [OF g1 run_owner, of "''g''" "[''01'' \<mapsto> 2]" ?a])
       (use run_acl_fits(1) w(3) ref(3) that in simp_all)
  have "mem_blobs w \<subseteq>\<^sub>m mem_blobs w1" using ref(4,5) by (auto simp: map_le_def)
  then have le: "mem_blobs w \<subseteq>\<^sub>m mem_blobs w2" using 2(3) by (rule map_le_trans)
  have ne: "replicate 20 2 \<noteq> HexToAddress ''01''" using run_addresses(2) by auto
  have at: "groups_at run_groups (mem_feeds w2) (mem_blobs w2) ?v ?e"
    unfolding groups_at_def
    by (rule text_at_mono [OF w(2) [unfolded groups_at_def] le]) (use 2(4) ref(3) ne in \<open>simp add: run_group_simps\<close>)
  have blob: "mem_blobs w2 ref = Some (Doc (DGroupItem run_item))" using 2(3) ref(4) by (auto simp: map_le_def)
  have acl: "acl_at (acl_env run_groups (run_group 2)) (mem_feeds w2) (mem_blobs w2) (gOwnerAddress run_item) (gName run_item) [''01'' \<mapsto> 2]"
    "owner_name (gOwnerAddress run_item)"
    using 2(2) run_owner by (simp_all add: run_acl_env run_item_def)
  have gf: "grouplist_fits run_groups 31 ?v (?e\<lparr>SharedGroups := SharedGroups ?e @ [run_item]\<rparr>)"
    by (rule run_grouplist_fits) (simp add: group_strings_def item_strings_def run_item_def string_of_def)
  have g2: "mem_good (93 + 3) w2" using 2(1) by simp
  have no: "[''01'' \<mapsto> 2] (user_address run_gl (run_group 2)) \<notin> {Some PermissionRead, Some PermissionWrite}"
    by (simp add: run_address)
  from AcceptGroupInvite_guard [OF run_groups.groups_axioms g2 key at blob acl gf]
  show ?thesis unfolding if_not_P [OF no] by (intro exI [of _ w2] exI [of _ ref]) blast
qed

end
