(* ===== verification/ActModel.thy ===== *)
theory ActModel
  imports PodModel
begin

text \<open>
  The access control lists of pods, pkg/act: a user keeps a list of ACTs by name in
  the file /ACTs.  Each has the reference of its list of grantees and of the history
  of this list, which the package swarm-act keeps on Swarm, and the contents that
  were shared under it.  The feed of the topic name-owner points to the last
  history.

  swarm-act, the parsing of public keys and encoding/json are outside the
  repository, the record actlib: a private key comes first, addresses and public
  keys are bytes.
\<close>

section \<open>State\<close>

abbreviation "ErrACTAlreadyExists \<equiv> Sentinel ''ACT already exists''"
abbreviation "ErrACTDoesNowExist \<equiv> Sentinel ''ACT does not exist''"

definition actFile :: string where "actFile = ''ACTs''"

record ActContent =
  ctReference :: string
  ctTopic :: bytes
  ctOwner :: Address
  ctOwnerPublicKey :: string
  ctAddedAt :: int

record Act =
  atName :: string
  atHistoryRef :: string
  atGranteesRef :: string
  atCreatedAt :: int
  atContent :: "ActContent list"

type_synonym actlist = "string \<rightharpoonup> Act"

record 'w actlib =
  alMarshal :: "actlist \<Rightarrow> bytes"
  alUnmarshal :: "bytes \<Rightarrow> actlist option"
  alCreateGrantee :: "bytes \<Rightarrow> bytes \<Rightarrow> bytes option list \<Rightarrow> 'w \<Rightarrow> (bytes \<times> bytes) result \<times> 'w"
  alRevokeGrant :: "bytes \<Rightarrow> bytes \<Rightarrow> bytes \<Rightarrow> bytes option list \<Rightarrow> bytes option list \<Rightarrow> 'w \<Rightarrow> (bytes \<times> bytes) result \<times> 'w"
  alHandleUpload :: "bytes \<Rightarrow> bytes \<Rightarrow> bytes \<Rightarrow> 'w \<Rightarrow> (bytes \<times> bytes) result \<times> 'w"
  alHandleDownload :: "bytes \<Rightarrow> bytes \<Rightarrow> bytes \<Rightarrow> bytes \<Rightarrow> int \<Rightarrow> 'w \<Rightarrow> bytes result \<times> 'w"
  alGetGrantees :: "bytes \<Rightarrow> bytes \<Rightarrow> 'w \<Rightarrow> (bytes option list) result \<times> 'w"
  alEncodeKey :: "bytes \<Rightarrow> bytes"
  alParseKey :: "bytes \<Rightarrow> bytes result"

record ACT =
  taAccount :: Account
  taKey :: bytes

text \<open>Without a private key NewACT reads it through nil.\<close>

definition NewACT :: "Account \<Rightarrow> ACT result" where
  "NewACT acc = (case aiKey (acUser acc) of None \<Rightarrow> Inl NilDereference | Some k \<Rightarrow> Inr \<lparr>taAccount = acc, taKey = k\<rparr>)"

abbreviation act_feed :: "('w, 'f, 'v) podenv \<Rightarrow> ACT \<Rightarrow> 'w services" where
  "act_feed env t \<equiv> peFeed env (acUser (taAccount t))"

text \<open>swarm.ParseHexAddress and Address.String; the zero address is empty.\<close>

definition parse_address :: "string \<Rightarrow> bytes result" where
  "parse_address s = (case HexDecode s of None \<Rightarrow> Inl (Errorf ''encoding/hex'') | Some b \<Rightarrow> Inr b)"

definition storeUserACTs :: "('w, 'f, 'v) podenv \<Rightarrow> 'w actlib \<Rightarrow> ACT \<Rightarrow> actlist \<Rightarrow> 'w \<Rightarrow> unit result \<times> 'w" where
  "storeUserACTs env al t actList w =
     (let u = acUser (taAccount t) in
      upload_text (peFeed env u) (peLibs env) (peLate env) (aiAddress u) actFile (alMarshal al actList) (user_secret u) w)"

text \<open>A list that cannot be opened is an empty list.\<close>

definition loadUserACTs :: "('w, 'f, 'v) podenv \<Rightarrow> 'w actlib \<Rightarrow> ACT \<Rightarrow> 'w \<Rightarrow> actlist result \<times> 'w" where
  "loadUserACTs env al t w =
     (let u = acUser (taAccount t); sv = peFeed env u in
      case Download sv (NewFile (aiAddress u)) (CombinePathAndFile [] actFile) (user_secret u) w of
        (Inl e, f2, w1) \<Rightarrow> (if panicking e then Inl e else Inr Map.empty, w1)
      | (Inr (r, n), f2, w1) \<Rightarrow>
          (case read_all (Suc n) sv (peLibs env) 0 [] r w1 of
             (Inl e, r1, w2) \<Rightarrow> (Inl e, w2)
           | (Inr data, r1, w2) \<Rightarrow>
               if data = [] then (Inr Map.empty, w2)
               else (case alUnmarshal al data of None \<Rightarrow> (Inl (Errorf ''json''), w2) | Some l \<Rightarrow> (Inr l, w2))))"

section \<open>Grantees\<close>

text \<open>A public key is encoded and parsed again.\<close>

definition parsed_key :: "'w actlib \<Rightarrow> bytes option \<Rightarrow> (bytes option) result" where
  "parsed_key al k =
     (case k of None \<Rightarrow> Inr None | Some p \<Rightarrow>
      (case alParseKey al (alEncodeKey al p) of Inl e \<Rightarrow> Inl e | Inr q \<Rightarrow> Inr (Some q)))"

definition act_topic :: "('w, 'f, 'v) podenv \<Rightarrow> ACT \<Rightarrow> string \<Rightarrow> bytes" where
  "act_topic env t actName =
     HashString (act_feed env t) (actName @ ''-'' @ Address_String (aiAddress (acUser (taAccount t))))"

text \<open>The new reference of the grantees and that of their history.\<close>

definition create_grantees ::
  "('w, 'f, 'v) podenv \<Rightarrow> 'w actlib \<Rightarrow> ACT \<Rightarrow> string \<Rightarrow> bytes option \<Rightarrow> 'w \<Rightarrow> (Act \<times> bytes \<times> bytes) result \<times> 'w" where
  "create_grantees env al t actName grant w =
     (case NowUnix (act_feed env t) w of (now, w1) \<Rightarrow>
      let act = \<lparr>atName = actName, atHistoryRef = [], atGranteesRef = [], atCreatedAt = now, atContent = []\<rparr> in
      case parse_address (atHistoryRef act) of Inl e \<Rightarrow> (Inl e, w1) | Inr addr \<Rightarrow>
      case alCreateGrantee al (taKey t) addr [grant] w1 of (Inl e, w2) \<Rightarrow> (Inl e, w2) | (Inr (ref, hist), w2) \<Rightarrow>
      (case CreateFeed (act_feed env t) (aiAddress (acUser (taAccount t))) (act_topic env t actName) (Raw hist) [] w2 of
         (Inl e, w3) \<Rightarrow> (Inl e, w3) | (Inr u, w3) \<Rightarrow> (Inr (act, ref, hist), w3)))"

definition revoke_grant ::
  "('w, 'f, 'v) podenv \<Rightarrow> 'w actlib \<Rightarrow> ACT \<Rightarrow> string \<Rightarrow> Act \<Rightarrow> bytes option \<Rightarrow> bytes option \<Rightarrow> 'w
    \<Rightarrow> (Act \<times> bytes \<times> bytes) result \<times> 'w" where
  "revoke_grant env al t actName act grant revoke w =
     (if grant = None \<and> revoke = None then (Inl (Errorf ''grant or revoke key is required''), w) else
      let keys = (\<lambda>k. case k of None \<Rightarrow> [] | Some p \<Rightarrow> [Some p]) in
      case parse_address (atHistoryRef act) of Inl e \<Rightarrow> (Inl e, w) | Inr haddr \<Rightarrow>
      case parse_address (atGranteesRef act) of Inl e \<Rightarrow> (Inl e, w) | Inr gaddr \<Rightarrow>
      case alRevokeGrant al (taKey t) gaddr haddr (keys grant) (keys revoke) w of
        (Inl e, w1) \<Rightarrow> (Inl e, w1)
      | (Inr (ref, hist), w1) \<Rightarrow>
          (case UpdateFeed (act_feed env t) (aiAddress (acUser (taAccount t))) (act_topic env t actName) (Raw hist) [] w1 of
             (Inl e, w2) \<Rightarrow> (Inl e, w2) | (Inr u, w2) \<Rightarrow> (Inr (act, ref, hist), w2)))"

definition CreateUpdateACT ::
  "('w, 'f, 'v) podenv \<Rightarrow> 'w actlib \<Rightarrow> ACT \<Rightarrow> string \<Rightarrow> bytes option \<Rightarrow> bytes option \<Rightarrow> 'w \<Rightarrow> Act result \<times> 'w" where
  "CreateUpdateACT env al t actName publicKeyGrant publicKeyRevoke w =
     (if actName = [] then (Inl (Errorf ''act name is required''), w) else
      case loadUserACTs env al t w of (Inl e, w1) \<Rightarrow> (Inl e, w1) | (Inr list, w1) \<Rightarrow>
      case parsed_key al publicKeyGrant of Inl e \<Rightarrow> (Inl e, w1) | Inr grant \<Rightarrow>
      case parsed_key al publicKeyRevoke of Inl e \<Rightarrow> (Inl e, w1) | Inr revoke \<Rightarrow>
      case (case list actName of
              None \<Rightarrow> create_grantees env al t actName grant w1
            | Some act \<Rightarrow> revoke_grant env al t actName act grant revoke w1) of
        (Inl e, w2) \<Rightarrow> (Inl e, w2)
      | (Inr (act, ref, hist), w2) \<Rightarrow>
          let act' = act\<lparr>atGranteesRef := HexEncode ref, atHistoryRef := HexEncode hist\<rparr> in
          case storeUserACTs env al t (list(actName \<mapsto> act')) w2 of
            (Inl e, w3) \<Rightarrow> (Inl e, w3) | (Inr u, w3) \<Rightarrow> (Inr act', w3))"

section \<open>Looking an ACT up\<close>

definition with_act ::
  "('w, 'f, 'v) podenv \<Rightarrow> 'w actlib \<Rightarrow> ACT \<Rightarrow> string \<Rightarrow> (actlist \<Rightarrow> Act \<Rightarrow> 'w \<Rightarrow> 'a result \<times> 'w) \<Rightarrow> 'w \<Rightarrow> 'a result \<times> 'w" where
  "with_act env al t actName f w =
     (if actName = [] then (Inl (Errorf ''act name is required''), w) else
      case loadUserACTs env al t w of (Inl e, w1) \<Rightarrow> (Inl e, w1) | (Inr list, w1) \<Rightarrow>
      case list actName of None \<Rightarrow> (Inl ErrACTDoesNowExist, w1) | Some act \<Rightarrow> f list act w1)"

definition GetACT :: "('w, 'f, 'v) podenv \<Rightarrow> 'w actlib \<Rightarrow> ACT \<Rightarrow> string \<Rightarrow> 'w \<Rightarrow> Act result \<times> 'w" where
  "GetACT env al t actName = with_act env al t actName (\<lambda>list act w. (Inr act, w))"

definition GetList :: "('w, 'f, 'v) podenv \<Rightarrow> 'w actlib \<Rightarrow> ACT \<Rightarrow> 'w \<Rightarrow> actlist result \<times> 'w" where
  "GetList = loadUserACTs"

definition GetContentList :: "('w, 'f, 'v) podenv \<Rightarrow> 'w actlib \<Rightarrow> ACT \<Rightarrow> string \<Rightarrow> 'w \<Rightarrow> (ActContent list) result \<times> 'w" where
  "GetContentList env al t actName = with_act env al t actName (\<lambda>list act w. (Inr (atContent act), w))"

definition encodeKey :: "'w actlib \<Rightarrow> bytes option \<Rightarrow> string result" where
  "encodeKey al key = (case key of None \<Rightarrow> Inl (Errorf ''nil key found'') | Some k \<Rightarrow> Inr (HexEncode (alEncodeKey al k)))"

primrec encodeKeys :: "'w actlib \<Rightarrow> bytes option list \<Rightarrow> (string list) result" where
  "encodeKeys al [] = Inr []"
| "encodeKeys al (key # keys) =
     (case encodeKey al key of Inl e \<Rightarrow> Inl e | Inr encoded \<Rightarrow>
      case encodeKeys al keys of Inl e \<Rightarrow> Inl e | Inr encodedList \<Rightarrow> Inr (encoded # encodedList))"

definition parseKey :: "'w actlib \<Rightarrow> string \<Rightarrow> bytes result" where
  "parseKey al g =
     (case HexDecode g of None \<Rightarrow> Inl (Errorf ''failed to decode grantee'') | Some h \<Rightarrow>
      case alParseKey al h of Inl e \<Rightarrow> Inl (Errorf ''failed to parse grantee public key'') | Inr k \<Rightarrow> Inr k)"

definition GetGrantees :: "('w, 'f, 'v) podenv \<Rightarrow> 'w actlib \<Rightarrow> ACT \<Rightarrow> string \<Rightarrow> 'w \<Rightarrow> (string list) result \<times> 'w" where
  "GetGrantees env al t actName =
     with_act env al t actName (\<lambda>list act w.
       case parse_address (atGranteesRef act) of Inl e \<Rightarrow> (Inl e, w) | Inr addr \<Rightarrow>
       case alGetGrantees al (taKey t) addr w of
         (Inl e, w1) \<Rightarrow> (Inl e, w1)
       | (Inr grantees, w1) \<Rightarrow> (encodeKeys al grantees, w1))"

section \<open>Contents\<close>

text \<open>The feed is moved on to the new history; the ACT keeps the old one.\<close>

definition GrantAccess :: "('w, 'f, 'v) podenv \<Rightarrow> 'w actlib \<Rightarrow> ACT \<Rightarrow> string \<Rightarrow> bytes \<Rightarrow> 'w \<Rightarrow> ActContent result \<times> 'w" where
  "GrantAccess env al t actName address =
     with_act env al t actName (\<lambda>list act w.
       let sv = act_feed env t; owner = aiAddress (acUser (taAccount t)); topicBytes = act_topic env t actName in
       case parse_address (atHistoryRef act) of Inl e \<Rightarrow> (Inl e, w) | Inr addr \<Rightarrow>
       case alHandleUpload al (taKey t) address addr w of (Inl e, w1) \<Rightarrow> (Inl e, w1) | (Inr (ref, hist), w1) \<Rightarrow>
       (case UpdateFeed sv owner topicBytes (Raw hist) [] w1 of (Inl e, w2) \<Rightarrow> (Inl e, w2) | (Inr u, w2) \<Rightarrow>
       (case encodeKey al (aiPublic (acUser (taAccount t))) of Inl e \<Rightarrow> (Inl e, w2) | Inr opk \<Rightarrow>
       (case NowUnix sv w2 of (now, w3) \<Rightarrow>
        let content = \<lparr>ctReference = HexEncode ref, ctTopic = topicBytes, ctOwner = owner, ctOwnerPublicKey = opk, ctAddedAt = now\<rparr>;
            act' = act\<lparr>atContent := atContent act @ [content]\<rparr> in
        case storeUserACTs env al t (list(actName \<mapsto> act')) w3 of
          (Inl e, w4) \<Rightarrow> (Inl e, w4) | (Inr u, w4) \<Rightarrow> (Inr content, w4)))))"

definition GetPodAccess :: "('w, 'f, 'v) podenv \<Rightarrow> 'w actlib \<Rightarrow> ACT \<Rightarrow> string \<Rightarrow> 'w \<Rightarrow> bytes result \<times> 'w" where
  "GetPodAccess env al t actName =
     with_act env al t actName (\<lambda>list act w.
       case atContent act of [] \<Rightarrow> (Inl ErrACTDoesNowExist, w) | c # rest \<Rightarrow>
       case GetFeedData (act_feed env t) (ctTopic c) (ctOwner c) [] w of (Inl e, w1) \<Rightarrow> (Inl e, w1) | (Inr (a, href), w1) \<Rightarrow>
       (case parseKey al (ctOwnerPublicKey c) of Inl e \<Rightarrow> (Inl e, w1) | Inr ownerPubKey \<Rightarrow>
       (case parse_address (ctReference c) of Inl e \<Rightarrow> (Inl e, w1) | Inr reference \<Rightarrow>
       (case NowUnix (act_feed env t) w1 of (now, w2) \<Rightarrow>
       (case href of
          Raw h \<Rightarrow> alHandleDownload al (taKey t) reference h ownerPubKey now w2
        | other \<Rightarrow> (Inl (Service ''error downloading data''), w2))))))"

definition SaveGrantedPod :: "('w, 'f, 'v) podenv \<Rightarrow> 'w actlib \<Rightarrow> ACT \<Rightarrow> string \<Rightarrow> ActContent \<Rightarrow> 'w \<Rightarrow> unit result \<times> 'w" where
  "SaveGrantedPod env al t actName c w =
     (if actName = [] then (Inl (Errorf ''act name is required''), w) else
      case loadUserACTs env al t w of (Inl e, w1) \<Rightarrow> (Inl e, w1) | (Inr list, w1) \<Rightarrow>
      if list actName \<noteq> None then (Inl ErrACTAlreadyExists, w1) else
      case parse_address (ctReference c) of Inl e \<Rightarrow> (Inl e, w1) | Inr reference \<Rightarrow>
      storeUserACTs env al t (list(actName \<mapsto>
        \<lparr>atName = actName, atHistoryRef = [], atGranteesRef = HexEncode reference, atCreatedAt = ctAddedAt c, atContent = [c]\<rparr>)) w1)"

end
