(* ===== verification/Signatures.thy ===== *)
theory Signatures
  imports Accounts
begin

text \<open>
  Accounts that are made from a signature instead of a mnemonic,
  pkg/account/wallet.go and account.go: the first 32 bytes of the signature are the
  entropy of the mnemonic.  With a password, the key of that first wallet signs the
  hash of the password, and this second signature is the one that counts.  The
  signer and the hash are outside the repository, the record siglib.
\<close>

record siglib =
  SignData :: "bytes \<Rightarrow> bytes \<Rightarrow> bytes result"
  Sha256 :: "bytes \<Rightarrow> bytes"

definition MaxEntropyLength :: nat where "MaxEntropyLength = 32"

text \<open>A derivation alone, on a wallet of its own.\<close>

definition CreateAccount :: "hdlib \<Rightarrow> string \<Rightarrow> string \<Rightarrow> string result" where
  "CreateAccount wl walletPath plainMnemonic =
     (case NewFromMnemonic wl plainMnemonic of Inl e \<Rightarrow> Inl e | Inr wallet \<Rightarrow>
      case Derive wl wallet walletPath of Inl e \<Rightarrow> Inl e | Inr u \<Rightarrow> Inr walletPath)"

text \<open>The wallet, its account and the mnemonic; a short signature is sliced out of range.\<close>

definition signatureToWallet :: "hdlib \<Rightarrow> bytes \<Rightarrow> (bytes \<times> string \<times> string) result" where
  "signatureToWallet wl signatureBytes =
     (if length signatureBytes < MaxEntropyLength then Inl (Panic ''slice bounds out of range'') else
      case NewMnemonic wl (take MaxEntropyLength signatureBytes) of Inl e \<Rightarrow> Inl e | Inr mnemonic \<Rightarrow>
      case NewFromMnemonic wl mnemonic of Inl e \<Rightarrow> Inl e | Inr wallet \<Rightarrow>
      case Derive wl wallet rootPath of Inl e \<Rightarrow> Inl e | Inr u \<Rightarrow> Inr (wallet, rootPath, mnemonic))"

definition GenerateWalletFromSignature ::
  "hdlib \<Rightarrow> siglib \<Rightarrow> string \<Rightarrow> string \<Rightarrow> Wallet \<Rightarrow> (string \<times> string) result \<times> Wallet" where
  "GenerateWalletFromSignature wl sg signature password w =
     (if signature = [] then (Inl (Errorf ''signature is empty''), w) else
      case HexDecode signature of None \<Rightarrow> (Inl (Errorf ''encoding/hex''), w) | Some signatureBytes \<Rightarrow>
      case signatureToWallet wl signatureBytes of Inl e \<Rightarrow> (Inl e, w) | Inr (wallet, acc, mnemonic) \<Rightarrow>
      case (if password = [] then Inr (acc, mnemonic) else
            case PrivateKey wl wallet acc of Inl e \<Rightarrow> Inl e | Inr pk \<Rightarrow>
            case SignData sg pk (bytes_of (''0x'' @ HexEncode (Sha256 sg (bytes_of password)))) of Inl e \<Rightarrow> Inl e | Inr sig2 \<Rightarrow>
            case signatureToWallet wl sig2 of Inl e \<Rightarrow> Inl e | Inr (wallet2, acc2, mnemonic2) \<Rightarrow> Inr (acc2, mnemonic2)) of
        Inl e \<Rightarrow> (Inl e, w)
      | Inr (acc1, mnemonic1) \<Rightarrow>
          (case NewSeedFromMnemonic wl mnemonic1 of
             Inl e \<Rightarrow> (Inl e, w)
           | Inr seed \<Rightarrow> (Inr (acc1, mnemonic1), w\<lparr>waSeed := Some seed\<rparr>)))"

definition GenerateUserAccountFromSignature ::
  "hdlib \<Rightarrow> siglib \<Rightarrow> string \<Rightarrow> string \<Rightarrow> Account \<Rightarrow> (string \<times> bytes) result \<times> Account" where
  "GenerateUserAccountFromSignature wl sg signature password a =
     (case GenerateWalletFromSignature wl sg signature password (newWallet None) of
        (Inl e, wal) \<Rightarrow> (Inl e, a\<lparr>acWallet := wal\<rparr>)
      | (Inr (acc, mnemonic), wal) \<Rightarrow>
          let a1 = a\<lparr>acWallet := wal\<rparr> in
          case NewFromMnemonic wl mnemonic of Inl e \<Rightarrow> (Inl e, a1) | Inr hdw \<Rightarrow>
          case set_keys wl hdw acc (acUser a1) of
            (Inl e, ai) \<Rightarrow> (Inl e, a1\<lparr>acUser := ai\<rparr>)
          | (Inr u, ai) \<Rightarrow>
              (case NewSeedFromMnemonic wl mnemonic of
                 Inl e \<Rightarrow> (Inl e, a1\<lparr>acUser := ai\<rparr>)
               | Inr seed \<Rightarrow> (Inr (mnemonic, seed), a1\<lparr>acUser := ai\<rparr>)))"

text \<open>The account is a function of the first 32 bytes of the signature: what follows
  them does not change it, without a password and with one.\<close>

lemma signatureToWallet_prefix:
  "\<lbrakk>MaxEntropyLength \<le> length s; take MaxEntropyLength s = take MaxEntropyLength t; MaxEntropyLength \<le> length t\<rbrakk> \<Longrightarrow>
   signatureToWallet wl s = signatureToWallet wl t"
  by (simp add: signatureToWallet_def)

lemma GenerateUserAccountFromSignature_prefix:
  assumes "HexDecode s = Some b" "HexDecode t = Some c" "MaxEntropyLength \<le> length b" "MaxEntropyLength \<le> length c"
    "take MaxEntropyLength b = take MaxEntropyLength c"
  shows "GenerateUserAccountFromSignature wl sg s pw a = GenerateUserAccountFromSignature wl sg t pw a"
proof -
  have "s \<noteq> []" "t \<noteq> []" using assms by (auto simp: MaxEntropyLength_def)
  then have "GenerateWalletFromSignature wl sg s pw w = GenerateWalletFromSignature wl sg t pw w" for w
    using assms signatureToWallet_prefix [OF assms(3,5,4)] by (simp add: GenerateWalletFromSignature_def)
  then show ?thesis by (simp add: GenerateUserAccountFromSignature_def)
qed

text \<open>Every short signature panics.\<close>

lemma short_signature_panics:
  "\<lbrakk>HexDecode s = Some b; b \<noteq> []; length b < 32\<rbrakk> \<Longrightarrow>
   GenerateWalletFromSignature wl sg s pw w = (Inl (Panic ''slice bounds out of range''), w)"
  by (cases s) (auto simp: GenerateWalletFromSignature_def signatureToWallet_def MaxEntropyLength_def)

end
