(* ===== verification/Ens.thy ===== *)
theory Ens
  imports Addresses
begin

text \<open>
  The names of the users on the Ethereum name service, pkg/ensm/eth/eth.go: the owner
  of a name, the registration of a name, its resolver and the public key that the
  resolver publishes.

  The Ethereum client and the contracts are outside the repository, the records
  chain and contracts; every call sees and may change the world.  A private key is
  its bytes, a public key the pair of its coordinates.  The context of checkReceipt
  ends after ecPolls waits of transactionReceiptPollingInterval.
\<close>

section \<open>Ethereum\<close>

record Receipt =
  rcStatus :: "64 word"
  rcBlockNumber :: int

record TransactOpts =
  toSigner :: "bytes \<times> int"
  toNonce :: int
  toValue :: "int option"
  toGasLimit :: "64 word"
  toGasPrice :: int
  toFrom :: Address

record 'w chain =
  ecPendingNonceAt :: "Address \<Rightarrow> 'w \<Rightarrow> 64 word result \<times> 'w"
  ecSuggestGasPrice :: "'w \<Rightarrow> int result \<times> 'w"
  ecChainID :: "'w \<Rightarrow> int result \<times> 'w"
  ecBalanceAt :: "Address \<Rightarrow> 'w \<Rightarrow> int result \<times> 'w"
  ecKeyedTransactor :: "bytes \<Rightarrow> int \<Rightarrow> unit result"
  ecTransactionReceipt :: "bytes \<Rightarrow> 'w \<Rightarrow> Receipt result \<times> 'w"
  ecBlockNumber :: "'w \<Rightarrow> 64 word result \<times> 'w"
  ecHeaderByNumber :: "64 word \<Rightarrow> 'w \<Rightarrow> unit result \<times> 'w"
  ecWait :: "'w \<Rightarrow> 'w"
  ecPolls :: nat

abbreviation "NilPointer \<equiv> Panic ''nil pointer dereference''"
abbreviation "EthereumNotFound \<equiv> Sentinel ''not found''"
abbreviation "ErrInsufficientBalance \<equiv> Sentinel ''insufficient balance''"

definition additionalConfirmations :: "64 word" where "additionalConfirmations = 1"
definition minRequiredBalance :: int where "minRequiredBalance = 10000000000000000"

text \<open>newTransactor with the value that the transaction carries.\<close>

definition newTransactor :: "'w chain \<Rightarrow> bytes option \<Rightarrow> Address \<Rightarrow> int option \<Rightarrow> 'w \<Rightarrow> TransactOpts result \<times> 'w" where
  "newTransactor ec key account value w =
     (case ecPendingNonceAt ec account w of (Inl e, w1) \<Rightarrow> (Inl e, w1) | (Inr nonce, w1) \<Rightarrow>
     (case ecSuggestGasPrice ec w1 of (Inl e, w2) \<Rightarrow> (Inl e, w2) | (Inr gasPrice, w2) \<Rightarrow>
     (case ecChainID ec w2 of (Inl e, w3) \<Rightarrow> (Inl e, w3) | (Inr chainID, w3) \<Rightarrow>
     (case key of None \<Rightarrow> (Inl NilPointer, w3) | Some k \<Rightarrow>
      case ecKeyedTransactor ec k chainID of Inl e \<Rightarrow> (Inl e, w3) | Inr u \<Rightarrow>
        (Inr \<lparr>toSigner = (k, chainID), toNonce = sint nonce, toValue = value, toGasLimit = 1000000,
              toGasPrice = gasPrice, toFrom = account\<rparr>, w3)))))"

text \<open>One round of checkReceipt: settled, or again after a wait, with the error if the
  context ends during this wait.\<close>

datatype poll = Settled "unit result" | Again goerror

definition receipt_round :: "'w chain \<Rightarrow> bytes \<Rightarrow> 'w \<Rightarrow> poll \<times> 'w" where
  "receipt_round ec tx w =
     (case ecTransactionReceipt ec tx w of
        (Inl e, w1) \<Rightarrow> (if e \<noteq> EthereumNotFound then Settled (Inl e) else Again (Sentinel ''context deadline exceeded''), w1)
      | (Inr receipt, w1) \<Rightarrow>
          if rcStatus receipt = 0 then (Settled (Inl (Errorf ''transaction failed'')), w1) else
          (case ecBlockNumber ec w1 of
             (Inl e, w2) \<Rightarrow> (Settled (Inl e), w2)
           | (Inr bn, w2) \<Rightarrow>
               let nextBlock = of_int (rcBlockNumber receipt) + 1 in
               if bn \<ge> nextBlock + additionalConfirmations then
                 (case ecHeaderByNumber ec nextBlock w2 of
                    (Inl e, w3) \<Rightarrow> (if e \<noteq> EthereumNotFound then Settled (Inl e) else Again (Sentinel ''context timeout''), w3)
                  | (Inr h, w3) \<Rightarrow> (Settled (Inr ()), w3))
               else (Again (Sentinel ''context timeout''), w2)))"

primrec receipt_rounds :: "'w chain \<Rightarrow> bytes \<Rightarrow> nat \<Rightarrow> 'w \<Rightarrow> unit result \<times> 'w" where
  "receipt_rounds ec tx 0 w = (case receipt_round ec tx w of (Settled r, w1) \<Rightarrow> (r, w1) | (Again e, w1) \<Rightarrow> (Inl e, w1))"
| "receipt_rounds ec tx (Suc n) w =
     (case receipt_round ec tx w of (Settled r, w1) \<Rightarrow> (r, w1) | (Again e, w1) \<Rightarrow> receipt_rounds ec tx n (ecWait ec w1))"

definition checkReceipt :: "'w chain \<Rightarrow> bytes \<Rightarrow> 'w \<Rightarrow> unit result \<times> 'w" where
  "checkReceipt ec tx = receipt_rounds ec tx (ecPolls ec)"

text \<open>A transaction and the wait for its receipt.\<close>

definition transact :: "'w chain \<Rightarrow> ('w \<Rightarrow> bytes result \<times> 'w) \<Rightarrow> 'w \<Rightarrow> unit result \<times> 'w" where
  "transact ec send w = (case send w of (Inl e, w1) \<Rightarrow> (Inl e, w1) | (Inr tx, w1) \<Rightarrow> checkReceipt ec tx w1)"

section \<open>Numbers as bytes\<close>

text \<open>SetBytes and Bytes of math/big, and copy into an array of 32 bytes.\<close>

definition big_SetBytes :: "bytes \<Rightarrow> nat" where
  "big_SetBytes b = foldl (\<lambda>n x. 256 * n + unat x) 0 b"

fun big_Bytes :: "nat \<Rightarrow> bytes" where
  "big_Bytes n = (if n = 0 then [] else big_Bytes (n div 256) @ [of_nat (n mod 256)])"

declare big_Bytes.simps [simp del]

definition copy32 :: "bytes \<Rightarrow> bytes" where
  "copy32 b = take 32 b @ replicate (32 - length b) 0"

section \<open>The client\<close>

record ENSConfig =
  PublicResolverAddress :: string
  ProviderDomain :: string

record 'w contracts =
  goNameHash :: "string \<Rightarrow> bytes result"
  legacyKeccak :: "bytes \<Rightarrow> bytes"
  keyPublic :: "bytes \<Rightarrow> nat \<times> nat"
  crOwner :: "bytes \<Rightarrow> 'w \<Rightarrow> Address result \<times> 'w"
  crSetResolver :: "TransactOpts \<Rightarrow> bytes \<Rightarrow> Address \<Rightarrow> 'w \<Rightarrow> bytes result \<times> 'w"
  crRegister :: "TransactOpts \<Rightarrow> nat \<Rightarrow> Address \<Rightarrow> nat \<Rightarrow> 'w \<Rightarrow> bytes result \<times> 'w"
  crSetPubkey :: "TransactOpts \<Rightarrow> bytes \<Rightarrow> bytes \<Rightarrow> bytes \<Rightarrow> 'w \<Rightarrow> bytes result \<times> 'w"
  crGetAll :: "bytes \<Rightarrow> 'w \<Rightarrow> (Address \<times> bytes \<times> bytes) result \<times> 'w"

definition Encode :: "bytes \<Rightarrow> string" where "Encode b = HexEncode b"

definition ENS_GetNameHash :: "ENSConfig \<Rightarrow> 'w contracts \<Rightarrow> string \<Rightarrow> bytes result" where
  "ENS_GetNameHash cf ct username = goNameHash ct (username @ ''.'' @ ProviderDomain cf)"

definition ENS_GetOwner :: "ENSConfig \<Rightarrow> 'w contracts \<Rightarrow> string \<Rightarrow> 'w \<Rightarrow> Address result \<times> 'w" where
  "ENS_GetOwner cf ct username w =
     (case goNameHash ct (username @ ''.'' @ ProviderDomain cf) of Inl e \<Rightarrow> (Inl e, w) | Inr node \<Rightarrow> crOwner ct node w)"

text \<open>The duration is the number of the digits' character codes.\<close>

definition ENS_RegisterSubdomain ::
  "ENSConfig \<Rightarrow> 'w contracts \<Rightarrow> 'w chain \<Rightarrow> string \<Rightarrow> Address \<Rightarrow> bytes option \<Rightarrow> 'w \<Rightarrow> unit result \<times> 'w" where
  "ENS_RegisterSubdomain cf ct ec username owner key w =
     (case ecBalanceAt ec owner w of (Inl e, w1) \<Rightarrow> (Inl e, w1) | (Inr balance, w1) \<Rightarrow>
      if balance < minRequiredBalance then (Inl ErrInsufficientBalance, w1) else
      (case newTransactor ec key owner (Some 0) w1 of (Inl e, w2) \<Rightarrow> (Inl e, w2) | (Inr opts, w2) \<Rightarrow>
       let label = big_SetBytes (legacyKeccak ct (bytes_of username)); exp = big_SetBytes (bytes_of ''86400'') in
       transact ec (crRegister ct opts label owner exp) w2))"

definition ENS_SetResolver ::
  "ENSConfig \<Rightarrow> 'w contracts \<Rightarrow> 'w chain \<Rightarrow> string \<Rightarrow> Address \<Rightarrow> bytes option \<Rightarrow> 'w \<Rightarrow> string result \<times> 'w" where
  "ENS_SetResolver cf ct ec username owner key w =
     (case goNameHash ct (username @ ''.'' @ ProviderDomain cf) of Inl e \<Rightarrow> (Inl e, w) | Inr node \<Rightarrow>
      case newTransactor ec key owner (Some 0) w of (Inl e, w1) \<Rightarrow> (Inl e, w1) | (Inr opts, w1) \<Rightarrow>
     (case transact ec (crSetResolver ct opts node (HexToAddress (PublicResolverAddress cf))) w1 of
        (Inl e, w2) \<Rightarrow> (Inl e, w2) | (Inr u, w2) \<Rightarrow> (Inr (Encode node), w2)))"

definition ENS_SetAll ::
  "ENSConfig \<Rightarrow> 'w contracts \<Rightarrow> 'w chain \<Rightarrow> string \<Rightarrow> Address \<Rightarrow> bytes option \<Rightarrow> 'w \<Rightarrow> unit result \<times> 'w" where
  "ENS_SetAll cf ct ec username owner key w =
     (case goNameHash ct (username @ ''.'' @ ProviderDomain cf) of Inl e \<Rightarrow> (Inl e, w) | Inr node \<Rightarrow>
      case key of None \<Rightarrow> (Inl NilPointer, w) | Some k \<Rightarrow>
      let x = copy32 (big_Bytes (fst (keyPublic ct k))); y = copy32 (big_Bytes (snd (keyPublic ct k))) in
      case newTransactor ec key owner (Some 0) w of (Inl e, w1) \<Rightarrow> (Inl e, w1) | (Inr opts, w1) \<Rightarrow>
      transact ec (crSetPubkey ct opts node x y) w1)"

definition ENS_GetInfoFromNameHash ::
  "'w contracts \<Rightarrow> bytes \<Rightarrow> 'w \<Rightarrow> (Address \<times> (nat \<times> nat) \<times> string) result \<times> 'w" where
  "ENS_GetInfoFromNameHash ct node w =
     (case crGetAll ct node w of
        (Inl e, w1) \<Rightarrow> (Inl e, w1)
      | (Inr (addr, x, y), w1) \<Rightarrow> (Inr (addr, (big_SetBytes x, big_SetBytes y), Encode node), w1))"

definition ENS_GetInfo :: "ENSConfig \<Rightarrow> 'w contracts \<Rightarrow> string \<Rightarrow> 'w \<Rightarrow> ((nat \<times> nat) \<times> string) result \<times> 'w" where
  "ENS_GetInfo cf ct username w =
     (case goNameHash ct (username @ ''.'' @ ProviderDomain cf) of Inl e \<Rightarrow> (Inl e, w) | Inr node \<Rightarrow>
      case ENS_GetInfoFromNameHash ct node w of
        (Inl e, w1) \<Rightarrow> (Inl e, w1) | (Inr (a, pub, nameHashStr), w1) \<Rightarrow> (Inr (pub, nameHashStr), w1))"

section \<open>Numbers as bytes and back\<close>

lemma big_SetBytes_snoc: "big_SetBytes (b @ [x]) = 256 * big_SetBytes b + unat x"
  by (simp add: big_SetBytes_def)

lemma big_SetBytes_Nil [simp]: "big_SetBytes [] = 0"
  by (simp add: big_SetBytes_def)

lemma big_round_trip [simp]: "big_SetBytes (big_Bytes n) = n"
proof (induction n rule: big_Bytes.induct)
  case (1 n)
  have "unat (of_nat (n mod 256) :: byte) = n mod 256" by (rule unat_small) simp
  then show ?case using 1 by (subst big_Bytes.simps) (auto simp: big_SetBytes_snoc simp del: of_nat_mod)
qed

lemma big_Bytes_length: "length (big_Bytes n) \<le> k \<longleftrightarrow> n < 256 ^ k"
proof (induction n arbitrary: k rule: big_Bytes.induct)
  case (1 n)
  show ?case
  proof (cases "n = 0")
    case False
    show ?thesis
    proof (cases k)
      case 0 then show ?thesis using False by (subst big_Bytes.simps) simp
    next
      case (Suc j)
      have "n div 256 < 256 ^ j \<longleftrightarrow> n < 256 ^ k" unfolding Suc by (simp add: div_less_iff_less_mult mult.commute)
      then show ?thesis using False 1 [OF False, of j] Suc by (subst big_Bytes.simps) simp
    qed
  qed (simp add: big_Bytes.simps)
qed

lemma big_SetBytes_zeros: "big_SetBytes (b @ replicate k 0) = big_SetBytes b * 256 ^ k"
proof (induction k)
  case (Suc k)
  have "b @ replicate (Suc k) 0 = (b @ replicate k 0) @ [0]" by (simp add: replicate_append_same)
  then show ?case using Suc by (simp add: big_SetBytes_snoc del: append_assoc)
qed simp

text \<open>A number that was copied to the left of an array of 32 bytes is multiplied by 256
  for each byte that it is shorter.\<close>

lemma copy32_big:
  assumes "n < 256 ^ 32"
  shows "big_SetBytes (copy32 (big_Bytes n)) = n * 256 ^ (32 - length (big_Bytes n))"
  using assms big_Bytes_length [of n 32] by (simp add: copy32_def big_SetBytes_zeros)

lemma copy32_exact:
  assumes "n < 256 ^ 32"
  shows "big_SetBytes (copy32 (big_Bytes n)) = n \<longleftrightarrow> n = 0 \<or> 256 ^ 31 \<le> n"
proof -
  have "length (big_Bytes n) \<le> 32" using assms by (simp add: big_Bytes_length)
  moreover have "length (big_Bytes n) \<le> 31 \<longleftrightarrow> n < 256 ^ 31" by (rule big_Bytes_length)
  ultimately have "32 - length (big_Bytes n) = 0 \<longleftrightarrow> 256 ^ 31 \<le> n" by linarith
  then show ?thesis using copy32_big [OF assms] by (cases "32 - length (big_Bytes n)") auto
qed

end
