(* ===== verification/UserModel.thy ===== *)
theory UserModel
  imports ActModel GroupModel Signatures Ens
begin

text \<open>
  The users, pkg/user: signing up, logging in and out, and sharing files.  Users keeps
  who is logged in, by session.  The seed of an account is stored as the portable
  account: a chunk whose topic is made of the name and the password, encrypted with the
  password.  The address behind a name comes from the name service, the interface
  ENSManager of pkg/ensm (the record ens), which the client of theory Ens implements.

  The objects of a user share the pointer to the account; only uiPod changes the
  accounts of pods in it, all others read the user's own keys, which are set before
  the objects are made.  Random bytes, session ids, tokens, json and the printing of
  keys are outside the repository, the record userenv.
\<close>

section \<open>The interface of the name service\<close>

record 'w ens =
  GetOwner :: "string \<Rightarrow> 'w \<Rightarrow> Address result \<times> 'w"
  RegisterSubdomain :: "string \<Rightarrow> Address \<Rightarrow> bytes option \<Rightarrow> 'w \<Rightarrow> unit result \<times> 'w"
  SetResolver :: "string \<Rightarrow> Address \<Rightarrow> bytes option \<Rightarrow> 'w \<Rightarrow> string result \<times> 'w"
  SetAll :: "string \<Rightarrow> Address \<Rightarrow> bytes option \<Rightarrow> 'w \<Rightarrow> unit result \<times> 'w"
  GetInfo :: "string \<Rightarrow> 'w \<Rightarrow> ((nat \<times> nat) option \<times> string) result \<times> 'w"
  GetInfoFromNameHash :: "bytes \<Rightarrow> 'w \<Rightarrow> (Address \<times> (nat \<times> nat) option \<times> string) result \<times> 'w"
  GetNameHash :: "string \<Rightarrow> bytes result"

definition ens_of :: "ENSConfig \<Rightarrow> 'w contracts \<Rightarrow> 'w chain \<Rightarrow> 'w ens" where
  "ens_of cf ct ec =
     \<lparr>GetOwner = ENS_GetOwner cf ct, RegisterSubdomain = ENS_RegisterSubdomain cf ct ec,
      SetResolver = ENS_SetResolver cf ct ec, SetAll = ENS_SetAll cf ct ec,
      GetInfo = (\<lambda>username w. case ENS_GetInfo cf ct username w of
         (Inl e, w1) \<Rightarrow> (Inl e, w1) | (Inr (pub, h), w1) \<Rightarrow> (Inr (Some pub, h), w1)),
      GetInfoFromNameHash = (\<lambda>node w. case ENS_GetInfoFromNameHash ct node w of
         (Inl e, w1) \<Rightarrow> (Inl e, w1) | (Inr (a, pub, h), w1) \<Rightarrow> (Inr (a, Some pub, h), w1)),
      GetNameHash = ENS_GetNameHash cf ct\<rparr>"

section \<open>State\<close>

abbreviation "ErrUserAlreadyLoggedIn \<equiv> Sentinel ''user already logged-in''"
abbreviation "ErrInvalidUserName \<equiv> Sentinel ''invalid user name''"
abbreviation "ErrUserNameNotFound \<equiv> Sentinel ''no user available''"
abbreviation "ErrUserAlreadyPresent \<equiv> Sentinel ''user name already present''"
abbreviation "ErrUserNotLoggedIn \<equiv> Sentinel ''user not logged-in''"
abbreviation "ErrInvalidPassword \<equiv> Sentinel ''invalid password''"
abbreviation "ErrPasswordTooSmall \<equiv> Sentinel ''password should be at least 12 characters long''"
abbreviation "ErrBlankPassword \<equiv> Sentinel ''password is blank''"
abbreviation "ErrBlankUsername \<equiv> Sentinel ''username is blank''"

record SharingEntry =
  seMeta :: "FileMeta option"
  seSender :: string
  seReceiver :: string
  seSharedTime :: string

record ('w, 'f, 'v, 'n, 'k) userenv =
  uePods :: "('w, 'f, 'v) podenv"
  ueEns :: "'w ens"
  ueClient :: "'w services"
  ueCreateTopic :: "AccInfo \<Rightarrow> bytes \<Rightarrow> Address \<Rightarrow> content \<Rightarrow> 'w \<Rightarrow> bytes result \<times> 'w"
  ueGetTopic :: "AccInfo \<Rightarrow> bytes \<Rightarrow> Address \<Rightarrow> 'w \<Rightarrow> (bytes \<times> content) result \<times> 'w"
  ueHash :: "string \<Rightarrow> bytes"
  ueBee :: "('n, 'k) bee"
  ueData :: "content \<Rightarrow> bytes"
  ueRand :: "nat \<Rightarrow> bytes result"
  ueSigner :: siglib
  ueKeccak :: "string \<Rightarrow> bytes"
  ueSession :: string
  ueToken :: "string \<Rightarrow> string result"
  ueFromECDSAPub :: "nat \<times> nat \<Rightarrow> bytes"
  ueMarshalEntry :: "SharingEntry \<Rightarrow> bytes"
  ueUnmarshalEntry :: "bytes \<Rightarrow> SharingEntry option"

text \<open>uiOpenPods: the keys of the map openPods, whose values are never read.\<close>

record UserInfo =
  uiName :: string
  uiSession :: string
  uiFile :: File
  uiDir :: Directory
  uiPod :: Pod
  uiGroup :: Group
  uiOpenPods :: "string set"
  uiACT :: "ACT option"

record Users =
  userMap :: "string \<rightharpoonup> UserInfo"

abbreviation ui_account :: "UserInfo \<Rightarrow> Account" where
  "ui_account ui \<equiv> pdAccount (uiPod ui)"

definition NewUsers :: Users where "NewUsers = \<lparr>userMap = Map.empty\<rparr>"

definition addUserToMap :: "UserInfo \<Rightarrow> Users \<Rightarrow> Users" where
  "addUserToMap info u = u\<lparr>userMap := (userMap u)(uiSession info \<mapsto> info)\<rparr>"

definition removeUserFromMap :: "string \<Rightarrow> Users \<Rightarrow> Users" where
  "removeUserFromMap sessionId u = u\<lparr>userMap := (userMap u)(sessionId := None)\<rparr>"

definition getUserFromMap :: "Users \<Rightarrow> string \<Rightarrow> UserInfo option" where
  "getUserFromMap u sessionId = userMap u sessionId"

definition isUserPresentInMap :: "Users \<Rightarrow> string \<Rightarrow> bool" where
  "isUserPresentInMap u sessionId \<longleftrightarrow> userMap u sessionId \<noteq> None"

definition isUserNameInMap :: "Users \<Rightarrow> string \<Rightarrow> bool" where
  "isUserNameInMap u userName \<longleftrightarrow> (\<exists>ui \<in> ran (userMap u). uiName ui = userName)"

definition AddPodName :: "string \<Rightarrow> UserInfo \<Rightarrow> UserInfo" where
  "AddPodName podName ui = ui\<lparr>uiOpenPods := insert podName (uiOpenPods ui)\<rparr>"

definition RemovePodName :: "string \<Rightarrow> UserInfo \<Rightarrow> UserInfo" where
  "RemovePodName podName ui = ui\<lparr>uiOpenPods := uiOpenPods ui - {podName}\<rparr>"

text \<open>The objects of a user whose account is loaded.\<close>

definition new_user :: "('w, 'f, 'v, 'n, 'k) userenv \<Rightarrow> string \<Rightarrow> string \<Rightarrow> Account \<Rightarrow> ACT option \<Rightarrow> UserInfo" where
  "new_user ue name sessionId acc actList =
     (let addr = aiAddress (acUser acc); file = NewFile addr in
      \<lparr>uiName = name, uiSession = (if sessionId = [] then ueSession ue else sessionId),
       uiFile = file, uiDir = NewDirectory addr file (peInodes (uePods ue)),
       uiPod = NewPod acc, uiGroup = NewGroup acc NewACL, uiOpenPods = {}, uiACT = actList\<rparr>)"

section \<open>Names\<close>

definition minPasswordLength :: nat where "minPasswordLength = 12"

text \<open>The characters of the two regular expressions.\<close>

definition lower_char :: "char \<Rightarrow> bool" where
  "lower_char c \<longleftrightarrow>
     (let n = of_char c :: nat in (97 \<le> n \<and> n \<le> 122) \<or> (48 \<le> n \<and> n \<le> 57) \<or> c = CHR ''_'' \<or> c = CHR ''-'')"

definition upper_char :: "char \<Rightarrow> bool" where
  "upper_char c \<longleftrightarrow> (let n = of_char c :: nat in 65 \<le> n \<and> n \<le> 90)"

definition isUserNameValid :: "string \<Rightarrow> bool" where
  "isUserNameValid username =
     (if username = [] then False
      else list_all lower_char username \<and> \<not> list_all upper_char username)"

definition zeroAddressHex :: string where "zeroAddressHex = ''0x0000000000000000000000000000000000000000''"

definition user_hex :: "('w, 'f, 'v, 'n, 'k) userenv \<Rightarrow> Address \<Rightarrow> string" where
  "user_hex ue a = Address_Hex (ueKeccak ue) a"

definition IsUsernameAvailableV2 :: "('w, 'f, 'v, 'n, 'k) userenv \<Rightarrow> string \<Rightarrow> 'w \<Rightarrow> bool \<times> 'w" where
  "IsUsernameAvailableV2 ue userName w =
     (case GetOwner (ueEns ue) userName w of
        (Inl e, w1) \<Rightarrow> (False, w1)
      | (Inr addr, w1) \<Rightarrow> (user_hex ue addr \<noteq> zeroAddressHex, w1))"

definition createENS :: "('w, 'f, 'v, 'n, 'k) userenv \<Rightarrow> string \<Rightarrow> AccInfo \<Rightarrow> 'w \<Rightarrow> string result \<times> 'w" where
  "createENS ue userName ai w =
     (let address = HexToAddress (user_hex ue (aiAddress ai)) in
      case RegisterSubdomain (ueEns ue) userName address (aiKey ai) w of (Inl e, w1) \<Rightarrow> (Inl e, w1) | (Inr u, w1) \<Rightarrow>
     (case SetResolver (ueEns ue) userName address (aiKey ai) w1 of (Inl e, w2) \<Rightarrow> (Inl e, w2) | (Inr nameHash, w2) \<Rightarrow>
     (case SetAll (ueEns ue) userName address (aiKey ai) w2 of (Inl e, w3) \<Rightarrow> (Inl e, w3) | (Inr u, w3) \<Rightarrow> (Inr nameHash, w3))))"

definition GetUserInfoFromENS :: "('w, 'f, 'v, 'n, 'k) userenv \<Rightarrow> bytes \<Rightarrow> 'w \<Rightarrow> (Address \<times> (nat \<times> nat) option) result \<times> 'w" where
  "GetUserInfoFromENS ue nameHash w =
     (case GetInfoFromNameHash (ueEns ue) nameHash w of
        (Inl e, w1) \<Rightarrow> (Inl e, w1) | (Inr (addr, publicKey, h), w1) \<Rightarrow> (Inr (addr, publicKey), w1))"

section \<open>The portable account\<close>

definition AuthVersion :: string where "AuthVersion = ''FDP-login-v1.0''"

definition portable_topic :: "('w, 'f, 'v, 'n, 'k) userenv \<Rightarrow> string \<Rightarrow> string \<Rightarrow> bytes" where
  "portable_topic ue username password = ueHash ue (AuthVersion @ username @ password)"

definition uploadPortableAccount ::
  "('w, 'f, 'v, 'n, 'k) userenv \<Rightarrow> AccInfo \<Rightarrow> string \<Rightarrow> string \<Rightarrow> content \<Rightarrow> 'w \<Rightarrow> unit result \<times> 'w" where
  "uploadPortableAccount ue ai username password dat w =
     (case ueCreateTopic ue ai (portable_topic ue username password) (aiAddress ai) dat w of
        (Inl e, w1) \<Rightarrow> (Inl e, w1) | (Inr r, w1) \<Rightarrow> (Inr (), w1))"

definition downloadPortableAccount ::
  "('w, 'f, 'v, 'n, 'k) userenv \<Rightarrow> AccInfo \<Rightarrow> Address \<Rightarrow> string \<Rightarrow> string \<Rightarrow> 'w \<Rightarrow> content result \<times> 'w" where
  "downloadPortableAccount ue ai address username password w =
     (case ueGetTopic ue ai (portable_topic ue username password) address w of
        (Inl e, w1) \<Rightarrow> (Inl e, w1) | (Inr (a, dat), w1) \<Rightarrow> (Inr dat, w1))"

definition deletePortableAccount ::
  "('w, 'f, 'v, 'n, 'k) userenv \<Rightarrow> AccInfo \<Rightarrow> Address \<Rightarrow> string \<Rightarrow> string \<Rightarrow> 'w \<Rightarrow> unit result \<times> 'w" where
  "deletePortableAccount ue ai address username password w =
     DeleteFeedFromTopic (peFeed (uePods ue) ai) (portable_topic ue username password) address w"

definition token_of :: "('w, 'f, 'v, 'n, 'k) userenv \<Rightarrow> string \<Rightarrow> string" where
  "token_of ue sessionId = (case ueToken ue sessionId of Inl e \<Rightarrow> [] | Inr t \<Rightarrow> t)"

definition print_public :: "AccInfo \<Rightarrow> string" where
  "print_public ai = HexEncode (case aiPublic ai of None \<Rightarrow> [] | Some p \<Rightarrow> p)"

section \<open>Signing up\<close>

record SignupResponse =
  srAddress :: string
  srMnemonic :: string
  srNameHash :: string
  srPublicKey :: string
  srUserInfo :: "UserInfo option"
  srAccessToken :: string

text \<open>The name of a new owner is registered, the name of an old owner only looked up.\<close>

definition name_hash :: "('w, 'f, 'v, 'n, 'k) userenv \<Rightarrow> string \<Rightarrow> Address \<Rightarrow> AccInfo \<Rightarrow> 'w \<Rightarrow> string result \<times> 'w" where
  "name_hash ue userName ownerAddress ai w =
     (if user_hex ue ownerAddress = zeroAddressHex then createENS ue userName ai w
      else (case GetInfo (ueEns ue) userName w of (Inl e, w1) \<Rightarrow> (Inl e, w1) | (Inr (p, h), w1) \<Rightarrow> (Inr h, w1)))"

definition store_account :: "('w, 'f, 'v, 'n, 'k) userenv \<Rightarrow> string \<Rightarrow> string \<Rightarrow> bytes \<Rightarrow> AccInfo \<Rightarrow> 'w \<Rightarrow> unit result \<times> 'w" where
  "store_account ue userName passPhrase seed ai w =
     (case PadSeed (ueRand ue) seed passPhrase of Inl e \<Rightarrow> (Inl e, w) | Inr key \<Rightarrow>
      uploadPortableAccount ue ai userName passPhrase key w)"

text \<open>The response and the error, as the two results of the method: without enough
  balance both are given.\<close>

definition CreateNewUserV2 ::
  "('w, 'f, 'v, 'n, 'k) userenv \<Rightarrow> Users \<Rightarrow> string \<Rightarrow> string \<Rightarrow> string \<Rightarrow> string \<Rightarrow> 'w
    \<Rightarrow> SignupResponse option \<times> unit result \<times> Users \<times> 'w" where
  "CreateNewUserV2 ue us userName passPhrase mnemonic0 sessionId w =
     (if userName = [] then (None, Inl ErrBlankUsername, us, w)
      else if passPhrase = [] then (None, Inl ErrBlankPassword, us, w)
      else if length passPhrase < minPasswordLength then (None, Inl ErrPasswordTooSmall, us, w)
      else if \<not> isUserNameValid userName then (None, Inl ErrInvalidUserName, us, w) else
      case GetOwner (ueEns ue) userName w of (Inl e, w1) \<Rightarrow> (None, Inl e, us, w1) | (Inr ownerAddress, w1) \<Rightarrow>
     (case CreateUserAccount (peWallet (uePods ue)) mnemonic0 NewAccount of (Inl e, acc) \<Rightarrow> (None, Inl e, us, w1) | (Inr (mnemonic, seed), acc) \<Rightarrow>
      let ai = acUser acc; address = aiAddress ai in
      if user_hex ue ownerAddress \<noteq> zeroAddressHex \<and> user_hex ue ownerAddress \<noteq> user_hex ue address
      then (None, Inl ErrUserAlreadyPresent, us, w1) else
      let signUp = \<lparr>srAddress = user_hex ue address, srMnemonic = mnemonic, srNameHash = [], srPublicKey = [],
                    srUserInfo = None, srAccessToken = []\<rparr> in
      case name_hash ue userName ownerAddress ai w1 of
        (Inl e, w2) \<Rightarrow>
          (if user_hex ue ownerAddress = zeroAddressHex \<and> e = ErrInsufficientBalance then Some signUp else None, Inl e, us, w2)
      | (Inr nameHash, w2) \<Rightarrow>
     (case store_account ue userName passPhrase seed ai w2 of (Inl e, w3) \<Rightarrow> (None, Inl e, us, w3) | (Inr u, w3) \<Rightarrow>
     (case NewACT acc of Inl e \<Rightarrow> (None, Inl e, us, w3) | Inr actList \<Rightarrow>
      let ui = new_user ue userName sessionId acc (Some actList) in
      (Some (signUp\<lparr>srNameHash := nameHash, srUserInfo := Some ui, srPublicKey := print_public ai,
                    srAccessToken := token_of ue (uiSession ui)\<rparr>), Inr (), addUserToMap ui us, w3)))))"

section \<open>Logging in\<close>

definition IsUserLoggedIn :: "Users \<Rightarrow> string \<Rightarrow> bool" where
  "IsUserLoggedIn u sessionId = isUserPresentInMap u sessionId"

definition GetLoggedInUserInfo :: "Users \<Rightarrow> string \<Rightarrow> UserInfo option" where
  "GetLoggedInUserInfo u sessionId = getUserFromMap u sessionId"

record LoginResponse =
  lrAddress :: string
  lrNameHash :: string
  lrPublicKey :: string
  lrUserInfo :: UserInfo
  lrAccessToken :: string

text \<open>The new session, with the response for it.\<close>

definition start_session ::
  "('w, 'f, 'v, 'n, 'k) userenv \<Rightarrow> Users \<Rightarrow> string \<Rightarrow> string \<Rightarrow> Account \<Rightarrow> UserInfo result \<times> Users" where
  "start_session ue us name sessionId acc =
     (case NewACT acc of Inl e \<Rightarrow> (Inl e, us) | Inr actList \<Rightarrow>
      let ui = new_user ue name sessionId acc (Some actList) in (Inr ui, addUserToMap ui us))"

definition LoginUserV2 ::
  "('w, 'f, 'v, 'n, 'k) userenv \<Rightarrow> Users \<Rightarrow> string \<Rightarrow> string \<Rightarrow> string \<Rightarrow> 'w \<Rightarrow> LoginResponse result \<times> Users \<times> 'w" where
  "LoginUserV2 ue us userName passPhrase sessionId w =
     (if IsUserLoggedIn us sessionId then (Inl ErrUserAlreadyLoggedIn, us, w) else
      case IsUsernameAvailableV2 ue userName w of (available, w1) \<Rightarrow>
      if \<not> available then (Inl ErrUserNameNotFound, us, w1) else
     (case GetOwner (ueEns ue) userName w1 of (Inl e, w2) \<Rightarrow> (Inl e, us, w2) | (Inr address, w2) \<Rightarrow>
     (case downloadPortableAccount ue (acUser NewAccount) address userName passPhrase w2 of
        (Inl e, w3) \<Rightarrow> (Inl (masked e ErrInvalidPassword), us, w3)
      | (Inr key, w3) \<Rightarrow>
     (case GetInfo (ueEns ue) userName w3 of (Inl e, w4) \<Rightarrow> (Inl e, us, w4) | (Inr (publicKey, nameHash), w4) \<Rightarrow>
     (case publicKey of None \<Rightarrow> (Inl (Errorf ''public key not found''), us, w4) | Some pub \<Rightarrow>
      case RemovePadFromSeed (ueBee ue) (ueData ue) key passPhrase of Inl e \<Rightarrow> (Inl e, us, w4) | Inr seed \<Rightarrow>
      case LoadUserAccountFromSeed (peWallet (uePods ue)) seed NewAccount of (Inl e, acc) \<Rightarrow> (Inl e, us, w4) | (Inr u, acc) \<Rightarrow>
      case start_session ue us userName sessionId acc of (Inl e, us1) \<Rightarrow> (Inl e, us1, w4) | (Inr ui, us1) \<Rightarrow>
      (Inr \<lparr>lrAddress = user_hex ue address, lrNameHash = nameHash, lrPublicKey = HexEncode (ueFromECDSAPub ue pub),
            lrUserInfo = ui, lrAccessToken = token_of ue (uiSession ui)\<rparr>, us1, w4))))))"

definition LoginUserWithSignature ::
  "('w, 'f, 'v, 'n, 'k) userenv \<Rightarrow> Users \<Rightarrow> string \<Rightarrow> string \<Rightarrow> string \<Rightarrow> LoginResponse result \<times> Users" where
  "LoginUserWithSignature ue us signature password sessionId =
     (if IsUserLoggedIn us sessionId then (Inl ErrUserAlreadyLoggedIn, us) else
      case GenerateUserAccountFromSignature (peWallet (uePods ue)) (ueSigner ue) signature password NewAccount of
        (Inl e, acc) \<Rightarrow> (Inl e, us)
      | (Inr r, acc) \<Rightarrow>
          let addr = aiAddress (acUser acc) in
          case start_session ue us (Address_String addr) sessionId acc of (Inl e, us1) \<Rightarrow> (Inl e, us1) | (Inr ui, us1) \<Rightarrow>
          (Inr \<lparr>lrAddress = user_hex ue addr, lrNameHash = [], lrPublicKey = print_public (acUser acc),
                lrUserInfo = ui, lrAccessToken = token_of ue (uiSession ui)\<rparr>, us1))"

text \<open>A second copy of the portable account, under the address of a wallet and a signature.\<close>

definition ConnectWallet ::
  "('w, 'f, 'v, 'n, 'k) userenv \<Rightarrow> string \<Rightarrow> string \<Rightarrow> string \<Rightarrow> string \<Rightarrow> 'w \<Rightarrow> unit result \<times> 'w" where
  "ConnectWallet ue userName passPhrase walletAddressHex signature w =
     (case IsUsernameAvailableV2 ue userName w of (available, w1) \<Rightarrow>
      if \<not> available then (Inl ErrUserNameNotFound, w1) else
     (case GetOwner (ueEns ue) userName w1 of (Inl e, w2) \<Rightarrow> (Inl e, w2) | (Inr address, w2) \<Rightarrow>
      if user_hex ue address \<noteq> walletAddressHex then (Inl (Errorf ''wallet doesnot match portable account address''), w2) else
     (case downloadPortableAccount ue (acUser NewAccount) address userName passPhrase w2 of (Inl e, w3) \<Rightarrow> (Inl e, w3) | (Inr key, w3) \<Rightarrow>
     (case RemovePadFromSeed (ueBee ue) (ueData ue) key passPhrase of Inl e \<Rightarrow> (Inl e, w3) | Inr seed \<Rightarrow>
      case LoadUserAccountFromSeed (peWallet (uePods ue)) seed NewAccount of (Inl e, acc) \<Rightarrow> (Inl e, w3) | (Inr u, acc) \<Rightarrow>
      case PadSeedName (ueRand ue) seed userName signature of Inl e \<Rightarrow> (Inl e, w3) | Inr key1 \<Rightarrow>
      uploadPortableAccount ue (acUser acc) walletAddressHex signature key1 w3))))"

definition LoginWithWallet ::
  "('w, 'f, 'v, 'n, 'k) userenv \<Rightarrow> Users \<Rightarrow> string \<Rightarrow> string \<Rightarrow> string \<Rightarrow> 'w \<Rightarrow> (UserInfo \<times> string) result \<times> Users \<times> 'w" where
  "LoginWithWallet ue us addressHex signature sessionId w =
     (let address = HexToAddress addressHex in
      case downloadPortableAccount ue (acUser NewAccount) address addressHex signature w of
        (Inl e, w1) \<Rightarrow> (Inl (masked e ErrInvalidPassword), us, w1)
      | (Inr key, w1) \<Rightarrow>
     (case RemovePadFromSeedName (ueBee ue) (ueData ue) key signature of Inl e \<Rightarrow> (Inl e, us, w1) | Inr (seed, username) \<Rightarrow>
      case GetNameHash (ueEns ue) username of Inl e \<Rightarrow> (Inl e, us, w1) | Inr nameHash \<Rightarrow>
      case LoadUserAccountFromSeed (peWallet (uePods ue)) seed NewAccount of (Inl e, acc) \<Rightarrow> (Inl e, us, w1) | (Inr u, acc) \<Rightarrow>
      if IsUserLoggedIn us sessionId then (Inl ErrUserAlreadyLoggedIn, us, w1) else
      case start_session ue us username sessionId acc of (Inl e, us1) \<Rightarrow> (Inl e, us1, w1) | (Inr ui, us1) \<Rightarrow>
      (Inr (ui, Encode nameHash), us1, w1)))"

text \<open>A light user has no name and no list of ACTs; the private key is returned in hexadecimal.\<close>

definition LoadLiteUser ::
  "('w, 'f, 'v, 'n, 'k) userenv \<Rightarrow> Users \<Rightarrow> string \<Rightarrow> string \<Rightarrow> string \<Rightarrow> (string \<times> string \<times> UserInfo) result \<times> Users" where
  "LoadLiteUser ue us userName mnemonic0 sessionId =
     (if \<not> isUserNameValid userName then (Inl ErrInvalidUserName, us) else
      case CreateUserAccount (peWallet (uePods ue)) mnemonic0 NewAccount of (Inl e, acc) \<Rightarrow> (Inl e, us) | (Inr (mnemonic, seed), acc) \<Rightarrow>
      let ui = new_user ue userName sessionId acc None in
      (Inr (mnemonic, user_secret (acUser acc), ui), addUserToMap ui us))"

section \<open>Logging out\<close>

definition Users_Logout :: "('w, 'f, 'v, 'n, 'k) userenv \<Rightarrow> Users \<Rightarrow> string \<Rightarrow> 'w \<Rightarrow> unit result \<times> Users \<times> 'w" where
  "Users_Logout ue us sessionId w =
     (case getUserFromMap us sessionId of
        None \<Rightarrow> (Inl ErrUserNotLoggedIn, us, w)
      | Some ui \<Rightarrow>
          (case peCommit (uePods ue) (acUser (ui_account ui)) w of (r, w1) \<Rightarrow> (Inr (), removeUserFromMap sessionId us, w1)))"

definition Users_LogoutUser :: "('w, 'f, 'v, 'n, 'k) userenv \<Rightarrow> Users \<Rightarrow> string \<Rightarrow> 'w \<Rightarrow> unit result \<times> Users \<times> 'w" where
  "Users_LogoutUser ue us sessionId w =
     (if \<not> IsUserLoggedIn us sessionId then (Inl ErrUserNotLoggedIn, us, w) else Users_Logout ue us sessionId w)"

text \<open>Deleting a user deletes the portable account, not the pods.\<close>

definition Users_DeleteUserV2 ::
  "('w, 'f, 'v, 'n, 'k) userenv \<Rightarrow> Users \<Rightarrow> string \<Rightarrow> string \<Rightarrow> string \<Rightarrow> UserInfo \<Rightarrow> 'w \<Rightarrow> unit result \<times> Users \<times> 'w" where
  "Users_DeleteUserV2 ue us userName password sessionId ui w =
     (case getUserFromMap us sessionId of None \<Rightarrow> (Inl ErrUserNotLoggedIn, us, w) | Some userInfo \<Rightarrow>
      case IsUsernameAvailableV2 ue userName w of (available, w1) \<Rightarrow>
      if \<not> available then (Inl ErrInvalidUserName, us, w1) else
     (case deletePortableAccount ue (acUser (ui_account ui)) (aiAddress (acUser (ui_account userInfo))) userName password w1 of
        (Inl e, w2) \<Rightarrow> (Inl e, us, w2) | (Inr u, w2) \<Rightarrow> Users_Logout ue us sessionId w2))"

definition Users_GetUserStat :: "('w, 'f, 'v, 'n, 'k) userenv \<Rightarrow> UserInfo \<Rightarrow> 'w \<Rightarrow> (string \<times> string) result \<times> 'w" where
  "Users_GetUserStat ue ui w =
     (case IsUsernameAvailableV2 ue (uiName ui) w of (available, w1) \<Rightarrow>
      if \<not> available then (Inl ErrInvalidUserName, w1) else
      case GetAddress (ui_account ui) UserAccountIndex of Inl e \<Rightarrow> (Inl e, w1) | Inr addr \<Rightarrow>
      (Inr (uiName ui, user_hex ue addr), w1))"

section \<open>Sharing files\<close>

record ReceivedFile =
  rfFileName :: string
  rfSize :: string
  rfBlockSize :: string
  rfNumberOfBlocks :: string
  rfContentType :: string
  rfCompression :: string
  rfSender :: string
  rfReceiver :: string
  rfSharedTime :: string

definition ShareFileWithUser ::
  "('w, 'f, 'v, 'n, 'k) userenv \<Rightarrow> string \<Rightarrow> string \<Rightarrow> string \<Rightarrow> UserInfo \<Rightarrow> Address \<Rightarrow> 'w \<Rightarrow> string result \<times> 'w" where
  "ShareFileWithUser ue podPassword podFileWithPath destinationRef ui userAddress w =
     (let totalFilePath = CombinePathAndFile podFileWithPath [] in
      case GetMetaFromFileName (peFeed (uePods ue) (acUser (ui_account ui))) totalFilePath podPassword userAddress w of
        (Inl e, w1) \<Rightarrow> (Inl e, w1)
      | (Inr meta, w1) \<Rightarrow>
          (case NowUnix (ueClient ue) w1 of (now, w2) \<Rightarrow>
           let sharingEntry = \<lparr>seMeta = Some meta, seSender = Address_String userAddress, seReceiver = destinationRef,
                               seSharedTime = FormatInt now\<rparr> in
           case UploadBlob (ueClient ue) (Raw (ueMarshalEntry ue sharingEntry)) w2 of
             (Inl e, w3) \<Rightarrow> (Inl e, w3) | (Inr ref, w3) \<Rightarrow> (Inr (HexEncode ref), w3)))"

text \<open>The entry behind a reference; a response other than 200 is no error but an empty
  answer, here None.\<close>

definition sharing_entry :: "('w, 'f, 'v, 'n, 'k) userenv \<Rightarrow> string \<Rightarrow> 'w \<Rightarrow> SharingEntry option result \<times> 'w" where
  "sharing_entry ue ref w =
     (case parse_address ref of Inl e \<Rightarrow> (Inl e, w) | Inr refBytes \<Rightarrow>
      case DownloadBlob (ueClient ue) refBytes w of
        (Inl e, w1) \<Rightarrow> (Inl e, w1)
      | (Inr (c, respCode), w1) \<Rightarrow>
          if respCode \<noteq> 200 then (Inr None, w1)
          else (case (case c of Raw data \<Rightarrow> ueUnmarshalEntry ue data | _ \<Rightarrow> None) of
                  None \<Rightarrow> (Inl (Errorf ''json''), w1) | Some x \<Rightarrow> (Inr (Some x), w1)))"

definition received_meta :: "FileMeta \<Rightarrow> string \<Rightarrow> int \<Rightarrow> FileMeta" where
  "received_meta m podDir now =
     \<lparr>fVersion = fVersion m, fPath = podDir, fName = fName m, fSize = fSize m, fBlockSize = fBlockSize m,
      fContentType = fContentType m, fCompression = fCompression m, fCreationTime = now, fAccessTime = now,
      fModificationTime = now, fInodeAddress = fInodeAddress m, fMode = 0\<rparr>"

text \<open>The file is added to an open pod.\<close>

definition receive_file ::
  "('w, 'f, 'v) podenv \<Rightarrow> FileMeta \<Rightarrow> string \<Rightarrow> Info \<Rightarrow> int \<times> 'w \<Rightarrow> unit result \<times> Info \<times> 'w" where
  "receive_file env newMeta totalPath podInfo nw =
     (let sv = peFeed env (inFeed podInfo); file1 = AddToFileMap totalPath newMeta (drFile (inDir podInfo));
          i1 = set_inDir (set_drFile file1 (inDir podInfo)) podInfo in
      case PutMetaForFile sv file1 newMeta (inPassword podInfo) (snd nw) of
        (Inl e, w1) \<Rightarrow> (Inl e, i1, w1)
      | (Inr u, w1) \<Rightarrow>
          (case AddEntryToDir sv (peLibs env) (peJson env) (peLate env) (inDir i1) (fPath newMeta) (inPassword podInfo)
                  (fName newMeta) True w1 of
             (r, d, w2) \<Rightarrow> (r, set_inDir d i1, w2)))"

definition ReceiveFileFromUser ::
  "('w, 'f, 'v, 'n, 'k) userenv \<Rightarrow> Pod \<Rightarrow> string \<Rightarrow> string \<Rightarrow> string \<Rightarrow> 'w \<Rightarrow> string result \<times> Pod \<times> 'w" where
  "ReceiveFileFromUser ue pd podName ref podDir w =
     (let env = uePods ue in
      case sharing_entry ue ref w of
        (Inl e, w1) \<Rightarrow> (Inl e, pd, w1)
      | (Inr None, w1) \<Rightarrow> (Inr [], pd, w1)
      | (Inr (Some x), w1) \<Rightarrow>
     (case GetPodInfo env pd podName w1 of (Inl e, p1, w2) \<Rightarrow> (Inl e, p1, w2) | (Inr podInfo, p1, w2) \<Rightarrow>
     (case seMeta x of None \<Rightarrow> (Inl NilPointer, p1, w2) | Some m \<Rightarrow>
      let totalPath = CombinePathAndFile podDir (fName m); sv = peFeed env (inFeed podInfo) in
      case IsFileAlreadyPresent sv (drFile (inDir podInfo)) (inPassword podInfo) totalPath w2 of
        (present, file1, w3) \<Rightarrow>
          let i1 = set_inDir (set_drFile file1 (inDir podInfo)) podInfo in
          if present then (Inl ErrFileAlreadyPresent, change_info podName (\<lambda>i. i1) p1, w3) else
         (case receive_file env (received_meta m podDir (fst (NowUnix (ueClient ue) w3))) totalPath i1 (NowUnix (ueClient ue) w3) of
            (Inl e, i2, w4) \<Rightarrow> (Inl e, change_info podName (\<lambda>i. i2) p1, w4)
          | (Inr u, i2, w4) \<Rightarrow> (Inr totalPath, change_info podName (\<lambda>i. i2) p1, w4)))))"

definition ReceiveFileInfo :: "('w, 'f, 'v, 'n, 'k) userenv \<Rightarrow> string \<Rightarrow> 'w \<Rightarrow> ReceivedFile option result \<times> 'w" where
  "ReceiveFileInfo ue ref w =
     (case sharing_entry ue ref w of
        (Inl e, w1) \<Rightarrow> (Inl e, w1)
      | (Inr None, w1) \<Rightarrow> (Inr None, w1)
      | (Inr (Some x), w1) \<Rightarrow>
     (case seMeta x of None \<Rightarrow> (Inl NilPointer, w1) | Some m \<Rightarrow>
     (case DownloadBlob (ueClient ue) (fInodeAddress m) w1 of
        (Inl e, w2) \<Rightarrow> (Inl e, w2)
      | (Inr (c, respCode), w2) \<Rightarrow>
          if respCode \<noteq> 200 then (Inr None, w2)
          else (case inode_of c of
                  Inr blocks \<Rightarrow>
                    (Inr (Some \<lparr>rfFileName = fName m, rfSize = FormatInt (sint (fSize m)), rfBlockSize = FormatInt (uint (fBlockSize m)),
                       rfNumberOfBlocks = FormatInt (int (length blocks)), rfContentType = fContentType m,
                       rfCompression = fCompression m, rfSender = seSender x, rfReceiver = seReceiver x,
                       rfSharedTime = seSharedTime x\<rparr>), w2)
                | Inl e \<Rightarrow> (Inl (Errorf ''json''), w2)))))"

end
