(* ===== verification/Subscriptions.thy ===== *)
theory Subscriptions
  imports UserModel
begin

text \<open>
  The marketplace of pods, pkg/subscriptionManager/rpc/manager.go and
  pkg/pod/subscription.go.  A pod is listed in the contract DataHub; a subscriber bids
  and the owner sells: the sharing of the pod, encrypted with a key that both can
  derive, is uploaded and its reference written into the contract.

  The contract's bindings are generated and the contract is outside the repository,
  the record datahub; the Ethereum client is that of theory Ens, the Bee client the
  services of theory Storage.
\<close>

section \<open>The contract\<close>

record DataHubSub =
  shSubHash :: bytes
  shSellerNameHash :: bytes
  shSeller :: Address
  shSwarmLocation :: bytes
  shPrice :: int
  shActive :: bool
  shEarned :: int
  shCategory :: bytes
  shBids :: int
  shSells :: int
  shReports :: int
  shDaysValid :: int

record DataHubSubItem =
  siSubHash :: bytes
  siUnlockKeyLocation :: bytes
  siValidTill :: int

record DataHubSubRequest =
  sqBuyerNameHash :: bytes
  sqSubHash :: bytes
  sqRequestHash :: bytes
  sqBuyer :: Address
  sqServed :: bool

record SubscriptionItemInfo =
  ssCategory :: string
  ssDescription :: string
  ssSellerNameHash :: string
  ssImageURL :: string
  ssPodAddress :: string
  ssPodName :: string
  ssPrice :: string
  ssTitle :: string

record 'w datahub =
  dhListSub :: "TransactOpts \<Rightarrow> bytes \<Rightarrow> bytes \<Rightarrow> int \<Rightarrow> bytes \<Rightarrow> Address \<Rightarrow> int \<Rightarrow> 'w \<Rightarrow> bytes result \<times> 'w"
  dhEnableSub :: "TransactOpts \<Rightarrow> bytes \<Rightarrow> bool \<Rightarrow> 'w \<Rightarrow> bytes result \<times> 'w"
  dhBidSub :: "TransactOpts \<Rightarrow> bytes \<Rightarrow> bytes \<Rightarrow> 'w \<Rightarrow> bytes result \<times> 'w"
  dhSellSub :: "TransactOpts \<Rightarrow> bytes \<Rightarrow> bytes \<Rightarrow> 'w \<Rightarrow> bytes result \<times> 'w"
  dhGetSubBy :: "bytes \<Rightarrow> 'w \<Rightarrow> DataHubSub result \<times> 'w"
  dhGetAllSubItemsForNameHash :: "bytes \<Rightarrow> 'w \<Rightarrow> DataHubSubItem list result \<times> 'w"
  dhGetSubs :: "'w \<Rightarrow> DataHubSub list result \<times> 'w"
  dhGetSubRequests :: "Address \<Rightarrow> 'w \<Rightarrow> DataHubSubRequest list result \<times> 'w"

record ('w, 'n, 'k) submgr =
  smChain :: "'w chain"
  smHub :: "'w datahub"
  smStore :: "'w services"
  smUploadBzz :: "bytes \<Rightarrow> string \<Rightarrow> 'w \<Rightarrow> bytes result \<times> 'w"
  smDownloadBzz :: "bytes \<Rightarrow> 'w \<Rightarrow> (bytes \<times> nat) result \<times> 'w"
  smMarshalItem :: "SubscriptionItemInfo \<Rightarrow> bytes"
  smUnmarshalItem :: "bytes \<Rightarrow> SubscriptionItemInfo option"
  smShareInfo :: "content \<Rightarrow> ShareInfo option"
  smBee :: "('n, 'k) bee"
  smKeccak :: "string \<Rightarrow> bytes"
  smShared :: "bytes \<Rightarrow> bytes \<Rightarrow> bytes"

definition listMinFee :: int where "listMinFee = 1000000000000000"

section \<open>The manager\<close>

definition AddPodToMarketplace ::
  "('w, 'n, 'k) submgr \<Rightarrow> Address \<Rightarrow> Address \<Rightarrow> string \<Rightarrow> string \<Rightarrow> string \<Rightarrow> string \<Rightarrow> 64 word \<Rightarrow> 16 word \<Rightarrow> bytes \<Rightarrow> bytes
    \<Rightarrow> bytes option \<Rightarrow> 'w \<Rightarrow> unit result \<times> 'w" where
  "AddPodToMarketplace sm podAddress owner pod title desc thumbnail price daysValid category nameHash key w =
     (let info = \<lparr>ssCategory = Encode category, ssDescription = desc, ssSellerNameHash = Encode nameHash, ssImageURL = thumbnail,
                  ssPodAddress = Address_Hex (smKeccak sm) podAddress, ssPodName = pod, ssPrice = FormatInt (uint price),
                  ssTitle = title\<rparr> in
      case newTransactor (smChain sm) key owner (Some listMinFee) w of (Inl e, w1) \<Rightarrow> (Inl e, w1) | (Inr opts, w1) \<Rightarrow>
     (case NowUnix (smStore sm) w1 of (now, w2) \<Rightarrow>
      case smUploadBzz sm (smMarshalItem sm info) (FormatInt now @ ''.sub.json'') w2 of (Inl e, w3) \<Rightarrow> (Inl e, w3) | (Inr ref, w3) \<Rightarrow>
      transact (smChain sm)
        (dhListSub (smHub sm) opts nameHash (copy32 ref) (uint price) category podAddress (uint daysValid)) w3))"

definition HidePodFromMarketplace ::
  "('w, 'n, 'k) submgr \<Rightarrow> Address \<Rightarrow> bytes \<Rightarrow> bool \<Rightarrow> bytes option \<Rightarrow> 'w \<Rightarrow> unit result \<times> 'w" where
  "HidePodFromMarketplace sm owner subHash hide key w =
     (case newTransactor (smChain sm) key owner None w of (Inl e, w1) \<Rightarrow> (Inl e, w1) | (Inr opts, w1) \<Rightarrow>
      transact (smChain sm) (dhEnableSub (smHub sm) opts subHash (\<not> hide)) w1)"

definition RequestAccess ::
  "('w, 'n, 'k) submgr \<Rightarrow> Address \<Rightarrow> bytes \<Rightarrow> bytes \<Rightarrow> bytes option \<Rightarrow> 'w \<Rightarrow> unit result \<times> 'w" where
  "RequestAccess sm subscriber subHash nameHash key w =
     (case dhGetSubBy (smHub sm) subHash w of (Inl e, w1) \<Rightarrow> (Inl e, w1) | (Inr item, w1) \<Rightarrow>
     (case newTransactor (smChain sm) key subscriber (Some (shPrice item)) w1 of (Inl e, w2) \<Rightarrow> (Inl e, w2) | (Inr opts, w2) \<Rightarrow>
      transact (smChain sm) (dhBidSub (smHub sm) opts subHash nameHash) w2))"

definition AllowAccess ::
  "('w, 'n, 'k) submgr \<Rightarrow> Address \<Rightarrow> ShareInfo \<Rightarrow> bytes \<Rightarrow> bytes \<Rightarrow> bytes option \<Rightarrow> 'w \<Rightarrow> unit result \<times> 'w" where
  "AllowAccess sm owner shareInfo requestHash secret key w =
     (case newTransactor (smChain sm) key owner None w of (Inl e, w1) \<Rightarrow> (Inl e, w1) | (Inr opts, w1) \<Rightarrow>
     (case UploadBlob (smStore sm) (EncryptBytes secret (Doc (DShareInfo shareInfo))) w1 of (Inl e, w2) \<Rightarrow> (Inl e, w2) | (Inr ref, w2) \<Rightarrow>
      transact (smChain sm) (dhSellSub (smHub sm) opts requestHash (copy32 ref)) w2))"

definition unseal_share :: "('w, 'n, 'k) submgr \<Rightarrow> bytes \<Rightarrow> bytes \<Rightarrow> string \<Rightarrow> 'w \<Rightarrow> ShareInfo result \<times> 'w" where
  "unseal_share sm ref secret failure w =
     (case DownloadBlob (smStore sm) ref w of
        (Inl e, w1) \<Rightarrow> (Inl e, w1)
      | (Inr (encData, respCode), w1) \<Rightarrow>
          if respCode \<noteq> 200 then (Inl (Errorf failure), w1) else
          (case DecryptBytes (smBee sm) secret encData of Inl e \<Rightarrow> (Inl e, w1) | Inr dat \<Rightarrow>
           case smShareInfo sm dat of None \<Rightarrow> (Inl (Errorf ''json''), w1) | Some si \<Rightarrow> (Inr si, w1)))"

definition GetSubscription :: "('w, 'n, 'k) submgr \<Rightarrow> bytes \<Rightarrow> bytes \<Rightarrow> 'w \<Rightarrow> ShareInfo result \<times> 'w" where
  "GetSubscription sm infoLocation secret = unseal_share sm infoLocation secret ''ReceivePodInfo: could not download blob''"

definition SM_GetSubscribablePodInfo :: "('w, 'n, 'k) submgr \<Rightarrow> bytes \<Rightarrow> 'w \<Rightarrow> SubscriptionItemInfo result \<times> 'w" where
  "SM_GetSubscribablePodInfo sm subHash w =
     (case dhGetSubBy (smHub sm) subHash w of (Inl e, w1) \<Rightarrow> (Inl e, w1) | (Inr item, w1) \<Rightarrow>
     (case smDownloadBzz sm (shSwarmLocation item) w1 of
        (Inl e, w2) \<Rightarrow> (Inl e, w2)
      | (Inr (dat, respCode), w2) \<Rightarrow>
          if respCode \<noteq> 200 then (Inl (Errorf ''failed to get subscribable podInfo''), w2)
          else (case smUnmarshalItem sm dat of None \<Rightarrow> (Inl (Errorf ''json''), w2) | Some info \<Rightarrow> (Inr info, w2))))"

definition SM_GetSubscriptions :: "('w, 'n, 'k) submgr \<Rightarrow> bytes \<Rightarrow> 'w \<Rightarrow> DataHubSubItem list result \<times> 'w" where
  "SM_GetSubscriptions sm nameHash = dhGetAllSubItemsForNameHash (smHub sm) nameHash"

definition GetAllSubscribablePods :: "('w, 'n, 'k) submgr \<Rightarrow> 'w \<Rightarrow> DataHubSub list result \<times> 'w" where
  "GetAllSubscribablePods sm = dhGetSubs (smHub sm)"

definition GetOwnSubscribablePods :: "('w, 'n, 'k) submgr \<Rightarrow> Address \<Rightarrow> 'w \<Rightarrow> DataHubSub list result \<times> 'w" where
  "GetOwnSubscribablePods sm owner w =
     (case dhGetSubs (smHub sm) w of (Inl e, w1) \<Rightarrow> (Inl e, w1) | (Inr s, w1) \<Rightarrow> (Inr (filter (\<lambda>p. shSeller p = owner) s), w1))"

definition SM_GetSubRequests :: "('w, 'n, 'k) submgr \<Rightarrow> Address \<Rightarrow> 'w \<Rightarrow> DataHubSubRequest list result \<times> 'w" where
  "SM_GetSubRequests sm owner = dhGetSubRequests (smHub sm) owner"

definition GetSub :: "('w, 'n, 'k) submgr \<Rightarrow> bytes \<Rightarrow> 'w \<Rightarrow> DataHubSub result \<times> 'w" where
  "GetSub sm subHash = dhGetSubBy (smHub sm) subHash"

section \<open>The operations of a pod\<close>

text \<open>The address of an own pod is read from its account, which must be loaded.\<close>

definition getAddressPassword :: "(string \<Rightarrow> bytes) \<Rightarrow> Pod \<Rightarrow> PodList \<Rightarrow> string \<Rightarrow> (string \<times> string) result" where
  "getAddressPassword keccak p podList podName =
     (case List.find (\<lambda>x. lName x = podName) (Pods podList) of
        None \<Rightarrow> Inr ([], [])
      | Some x \<Rightarrow> (case GetAddress (pdAccount p) (lIndex x) of
                     Inl e \<Rightarrow> Inl e | Inr addr \<Rightarrow> Inr (Address_Hex keccak addr, lPassword x)))"

definition owner_address :: "('w, 'n, 'k) submgr \<Rightarrow> Pod \<Rightarrow> Address" where
  "owner_address sm p = HexToAddress (Address_Hex (smKeccak sm) (aiAddress (acUser (pdAccount p))))"

abbreviation owner_key :: "Pod \<Rightarrow> bytes option" where
  "owner_key p \<equiv> aiKey (acUser (pdAccount p))"

definition ListPodInMarketplace ::
  "('w, 'f, 'v) podenv \<Rightarrow> ('w, 'n, 'k) submgr \<Rightarrow> Pod \<Rightarrow> string \<Rightarrow> string \<Rightarrow> string \<Rightarrow> string \<Rightarrow> 64 word \<Rightarrow> 16 word \<Rightarrow> bytes \<Rightarrow> bytes
    \<Rightarrow> 'w \<Rightarrow> unit result \<times> 'w" where
  "ListPodInMarketplace env sm p podName title desc thumbnail price daysValid category nameHash w =
     (case GetPodList env p w of (Inl e, w1) \<Rightarrow> (Inl e, w1) | (Inr podList, w1) \<Rightarrow>
      if \<not> checkIfPodPresent podList podName then (Inl ErrInvalidPodName, w1) else
      case getAddressPassword (smKeccak sm) p podList podName of Inl e \<Rightarrow> (Inl e, w1) | Inr (strAddr, pw) \<Rightarrow>
      if strAddr = [] then (Inl (Errorf ''pod does not exist''), w1)
      else AddPodToMarketplace sm (HexToAddress strAddr) (owner_address sm p) podName title desc thumbnail price daysValid
             category nameHash (owner_key p) w1)"

definition PodStatusInMarketplace :: "('w, 'n, 'k) submgr \<Rightarrow> Pod \<Rightarrow> bytes \<Rightarrow> bool \<Rightarrow> 'w \<Rightarrow> unit result \<times> 'w" where
  "PodStatusInMarketplace sm p subHash show_pod =
     HidePodFromMarketplace sm (owner_address sm p) subHash (\<not> show_pod) (owner_key p)"

text \<open>The key that both sides derive from their own private and the other's public key.\<close>

definition shared_secret :: "('w, 'n, 'k) submgr \<Rightarrow> Pod \<Rightarrow> bytes \<Rightarrow> bytes result" where
  "shared_secret sm p publicKey =
     (case owner_key p of None \<Rightarrow> Inl NilPointer | Some k \<Rightarrow> Inr (smShared sm publicKey k))"

definition ApproveSubscription ::
  "('w, 'f, 'v) podenv \<Rightarrow> ('w, 'n, 'k) submgr \<Rightarrow> Pod \<Rightarrow> string \<Rightarrow> bytes \<Rightarrow> bytes \<Rightarrow> 'w \<Rightarrow> unit result \<times> Pod \<times> 'w" where
  "ApproveSubscription env sm p podName requestHash subscriberPublicKey w =
     (case shared_secret sm p subscriberPublicKey of Inl e \<Rightarrow> (Inl e, p, w) | Inr secret \<Rightarrow>
      case GetPodSharingInfo env p podName w of (Inl e, p1, w1) \<Rightarrow> (Inl e, p1, w1) | (Inr shareInfo, p1, w1) \<Rightarrow>
     (case AllowAccess sm (owner_address sm p1) shareInfo requestHash secret (owner_key p1) w1 of (r, w2) \<Rightarrow> (r, p1, w2)))"

definition EncryptUploadSubscriptionInfo ::
  "('w, 'f, 'v) podenv \<Rightarrow> ('w, 'n, 'k) submgr \<Rightarrow> Pod \<Rightarrow> string \<Rightarrow> bytes \<Rightarrow> 'w \<Rightarrow> string result \<times> Pod \<times> 'w" where
  "EncryptUploadSubscriptionInfo env sm p podName subscriberPublicKey w =
     (case shared_secret sm p subscriberPublicKey of Inl e \<Rightarrow> (Inl e, p, w) | Inr secret \<Rightarrow>
      case GetPodSharingInfo env p podName w of (Inl e, p1, w1) \<Rightarrow> (Inl e, p1, w1) | (Inr shareInfo, p1, w1) \<Rightarrow>
     (case UploadBlob (smStore sm) (EncryptBytes secret (Doc (DShareInfo shareInfo))) w1 of
        (Inl e, w2) \<Rightarrow> (Inl e, p1, w2) | (Inr ref, w2) \<Rightarrow> (Inr (HexEncode ref), p1, w2)))"

definition RequestSubscription :: "('w, 'n, 'k) submgr \<Rightarrow> Pod \<Rightarrow> bytes \<Rightarrow> bytes \<Rightarrow> 'w \<Rightarrow> unit result \<times> 'w" where
  "RequestSubscription sm p subHash nameHash = RequestAccess sm (owner_address sm p) subHash nameHash (owner_key p)"

definition Pod_GetSubscriptions :: "('w, 'n, 'k) submgr \<Rightarrow> bytes \<Rightarrow> 'w \<Rightarrow> DataHubSubItem list result \<times> 'w" where
  "Pod_GetSubscriptions = SM_GetSubscriptions"

definition GetMarketplace :: "('w, 'n, 'k) submgr \<Rightarrow> 'w \<Rightarrow> DataHubSub list result \<times> 'w" where
  "GetMarketplace = GetAllSubscribablePods"

definition Pod_GetSubscribablePodInfo :: "('w, 'n, 'k) submgr \<Rightarrow> bytes \<Rightarrow> 'w \<Rightarrow> SubscriptionItemInfo result \<times> 'w" where
  "Pod_GetSubscribablePodInfo = SM_GetSubscribablePodInfo"

definition OpenSubscribedPod ::
  "('w, 'f, 'v) podenv \<Rightarrow> ('w, 'n, 'k) submgr \<Rightarrow> Pod \<Rightarrow> bytes \<Rightarrow> bytes \<Rightarrow> 'w \<Rightarrow> Info result \<times> Pod \<times> 'w" where
  "OpenSubscribedPod env sm p reference ownerPublicKey w =
     (case shared_secret sm p ownerPublicKey of Inl e \<Rightarrow> (Inl e, p, w) | Inr secret \<Rightarrow>
      case GetSubscription sm reference secret w of (Inl e, w1) \<Rightarrow> (Inl e, p, w1) | (Inr info, w1) \<Rightarrow>
      case OpenFromShareInfo env p info of (i, p1) \<Rightarrow> (Inr i, p1, w1))"

definition OpenSubscribedPodFromReference ::
  "('w, 'f, 'v) podenv \<Rightarrow> ('w, 'n, 'k) submgr \<Rightarrow> Pod \<Rightarrow> string \<Rightarrow> bytes \<Rightarrow> 'w \<Rightarrow> Info result \<times> Pod \<times> 'w" where
  "OpenSubscribedPodFromReference env sm p reference ownerPublicKey w =
     (case shared_secret sm p ownerPublicKey of Inl e \<Rightarrow> (Inl e, p, w) | Inr secret \<Rightarrow>
      case parse_address reference of Inl e \<Rightarrow> (Inl e, p, w) | Inr ref \<Rightarrow>
      case unseal_share sm ref secret ''OpenSubscribedPodFromReference: could not get subscription info'' w of
        (Inl e, w1) \<Rightarrow> (Inl e, p, w1)
      | (Inr info, w1) \<Rightarrow> (case OpenFromShareInfo env p info of (i, p1) \<Rightarrow> (Inr i, p1, w1)))"

definition Pod_GetSubRequests :: "('w, 'n, 'k) submgr \<Rightarrow> Pod \<Rightarrow> 'w \<Rightarrow> DataHubSubRequest list result \<times> 'w" where
  "Pod_GetSubRequests sm p = SM_GetSubRequests sm (owner_address sm p)"

section \<open>Lemmas\<close>

text \<open>A pod can only be listed while its account is loaded.\<close>

lemma ListPod_not_opened:
  assumes "GetPodList env p w = (Inr l, w1)" "List.find (\<lambda>x. lName x = n) (Pods l) = Some x" "acPods (pdAccount p) (lIndex x) = None"
    "lIndex x \<noteq> UserAccountIndex"
  shows "ListPodInMarketplace env sm p n t d th pr dv c h w = (Inl NilPointer, w1)"
proof -
  have "checkIfPodPresent l n"
    using assms(2) by (auto simp: checkIfPodPresent_def list_ex_iff find_Some_iff)
  then show ?thesis using assms by (simp add: ListPodInMarketplace_def getAddressPassword_def GetAddress_def)
qed

text \<open>What the owner seals for a subscriber, the subscriber opens with the own private
  and the owner's public key, if the reference has 32 bytes.\<close>

lemma sealed_round_trip:
  assumes "DownloadBlob (smStore sm) ref w = (Inr (EncryptBytes secret (Doc (DShareInfo si)), 200), w1)"
    "smShareInfo sm (Doc (DShareInfo si)) = Some si"
  shows "unseal_share sm ref secret failure w = (Inr si, w1)"
  using assms by (simp add: unseal_share_def EncryptBytes_def DecryptBytes_def)

end
