(* ===== verification/DfsApi.thy ===== *)
theory DfsApi
  imports Subscriptions DocBatch DocFind
begin

text \<open>
  The API that the server, the command line and the bindings call, pkg/dfs.  Every
  operation finds the user of the session and works on one of its pods or groups.
  This theory has the state and fs_api.go, the files and directories; DfsPods has the
  pods, DfsData the rest.

  An Info is a pointer: what an operation changes in it is written back to the map of
  the pods or groups that it came from (pod_or_group), and the user back to the map of
  the sessions (with_user).  The tags of uploads are left out, and with them StatusFile.
\<close>

section \<open>State\<close>

text \<open>apDepth bounds the depth of directories, apSteps the steps of an iterator; the
  random bytes are fields.\<close>

record ('w, 'f, 'v, 'n, 'k) apienv =
  apUsers :: "('w, 'f, 'v, 'n, 'k) userenv"
  apGroups :: grouplib
  apActs :: "'w actlib"
  apFloats :: "'f floats"
  apSubs :: "('w, 'n, 'k) submgr option"
  apDepth :: nat
  apSteps :: nat
  apFields :: "string list \<Rightarrow> string list"
  apTasks :: "string list \<Rightarrow> string list"
  apPassword :: bytes
  apSecret :: "bytes result"
  apPods :: "Users \<Rightarrow> string \<Rightarrow> string list"

abbreviation "ErrFileNotPresent \<equiv> Sentinel ''file not present''"
abbreviation "ErrFileExists \<equiv> Sentinel ''file already exist with new name''"
abbreviation "errReadOnlyPod \<equiv> Sentinel ''operation not permitted: read only pod''"
abbreviation "errNilSubManager \<equiv> Sentinel ''subscription manager not initialised''"
abbreviation "ErrInvalidFile \<equiv> Sentinel ''file does not exist''"

abbreviation ap_pods :: "('w, 'f, 'v, 'n, 'k) apienv \<Rightarrow> ('w, 'f, 'v) podenv" where
  "ap_pods ap \<equiv> uePods (apUsers ap)"

abbreviation ap_sv :: "('w, 'f, 'v, 'n, 'k) apienv \<Rightarrow> Info \<Rightarrow> 'w services" where
  "ap_sv ap i \<equiv> peFeed (ap_pods ap) (inFeed i)"

abbreviation ap_lb :: "('w, 'f, 'v, 'n, 'k) apienv \<Rightarrow> libs" where "ap_lb ap \<equiv> peLibs (ap_pods ap)"
abbreviation ap_js :: "('w, 'f, 'v, 'n, 'k) apienv \<Rightarrow> json" where "ap_js ap \<equiv> peJson (ap_pods ap)"
abbreviation ap_late :: "('w, 'f, 'v, 'n, 'k) apienv \<Rightarrow> nat \<Rightarrow> bool" where "ap_late ap \<equiv> peLate (ap_pods ap)"

section \<open>Sessions\<close>

text \<open>The beginning of every operation: the user of the session, or the error.\<close>

definition with_user ::
  "Users \<Rightarrow> string \<Rightarrow> (UserInfo \<Rightarrow> 'w \<Rightarrow> 'a result \<times> UserInfo \<times> 'w) \<Rightarrow> 'w \<Rightarrow> 'a result \<times> Users \<times> 'w" where
  "with_user us sessionId f w =
     (case GetLoggedInUserInfo us sessionId of
        None \<Rightarrow> (Inl ErrUserNotLoggedIn, us, w)
      | Some ui \<Rightarrow> (case f ui w of (r, ui1, w1) \<Rightarrow> (r, us\<lparr>userMap := (userMap us)(sessionId \<mapsto> ui1)\<rparr>, w1)))"

definition on_pod :: "(Pod \<Rightarrow> 'w \<Rightarrow> 'a result \<times> Pod \<times> 'w) \<Rightarrow> UserInfo \<Rightarrow> 'w \<Rightarrow> 'a result \<times> UserInfo \<times> 'w" where
  "on_pod f ui w = (case f (uiPod ui) w of (r, p1, w1) \<Rightarrow> (r, ui\<lparr>uiPod := p1\<rparr>, w1))"

definition on_group :: "(Group \<Rightarrow> 'w \<Rightarrow> 'a result \<times> Group \<times> 'w) \<Rightarrow> UserInfo \<Rightarrow> 'w \<Rightarrow> 'a result \<times> UserInfo \<times> 'w" where
  "on_group f ui w = (case f (uiGroup ui) w of (r, g1, w1) \<Rightarrow> (r, ui\<lparr>uiGroup := g1\<rparr>, w1))"

text \<open>The pod or the group of the name; a pod that is not open is opened.\<close>

definition pod_or_group ::
  "('w, 'f, 'v) podenv \<Rightarrow> string \<Rightarrow> bool \<Rightarrow> (Info \<Rightarrow> 'w \<Rightarrow> 'a result \<times> Info \<times> 'w) \<Rightarrow> UserInfo \<Rightarrow> 'w
    \<Rightarrow> 'a result \<times> UserInfo \<times> 'w" where
  "pod_or_group env podName isGroup f ui w =
     (if isGroup then
        (case GetGroupInfoFromMap (uiGroup ui) podName of Inl e \<Rightarrow> (Inl e, ui, w) | Inr i \<Rightarrow>
         case f i w of (r, i1, w1) \<Rightarrow> (r, ui\<lparr>uiGroup := change_group podName (\<lambda>_. i1) (uiGroup ui)\<rparr>, w1))
      else
        (case GetPodInfo env (uiPod ui) podName w of
           (Inl e, p1, w1) \<Rightarrow> (Inl e, ui\<lparr>uiPod := p1\<rparr>, w1)
         | (Inr i, p1, w1) \<Rightarrow>
             (case f i w1 of (r, i1, w2) \<Rightarrow> (r, ui\<lparr>uiPod := change_info podName (\<lambda>_. i1) p1\<rparr>, w2))))"

section \<open>Steps on an open pod\<close>

definition on_dir :: "(Directory \<Rightarrow> 'w \<Rightarrow> 'a result \<times> Directory \<times> 'w) \<Rightarrow> Info \<Rightarrow> 'w \<Rightarrow> 'a result \<times> Info \<times> 'w" where
  "on_dir f i w = (case f (inDir i) w of (r, d, w1) \<Rightarrow> (r, set_inDir d i, w1))"

definition on_file :: "(File \<Rightarrow> 'w \<Rightarrow> 'a result \<times> File \<times> 'w) \<Rightarrow> Info \<Rightarrow> 'w \<Rightarrow> 'a result \<times> Info \<times> 'w" where
  "on_file f i w = (case f (drFile (inDir i)) w of (r, fl, w1) \<Rightarrow> (r, set_inDir (set_drFile fl (inDir i)) i, w1))"

definition info_bind ::
  "(Info \<Rightarrow> 'w \<Rightarrow> 'a result \<times> Info \<times> 'w) \<Rightarrow> ('a \<Rightarrow> Info \<Rightarrow> 'w \<Rightarrow> 'b result \<times> Info \<times> 'w) \<Rightarrow> Info \<Rightarrow> 'w \<Rightarrow> 'b result \<times> Info \<times> 'w" where
  "info_bind m k i w = (case m i w of (Inl e, i1, w1) \<Rightarrow> (Inl e, i1, w1) | (Inr a, i1, w1) \<Rightarrow> k a i1 w1)"

definition info_fail :: "goerror \<Rightarrow> Info \<Rightarrow> 'w \<Rightarrow> 'a result \<times> Info \<times> 'w" where
  "info_fail e i w = (Inl e, i, w)"

definition info_return :: "'a \<Rightarrow> Info \<Rightarrow> 'w \<Rightarrow> 'a result \<times> Info \<times> 'w" where
  "info_return a i w = (Inr a, i, w)"

definition info_error :: "(goerror \<Rightarrow> goerror) \<Rightarrow> (Info \<Rightarrow> 'w \<Rightarrow> 'a result \<times> Info \<times> 'w) \<Rightarrow> Info \<Rightarrow> 'w \<Rightarrow> 'a result \<times> Info \<times> 'w" where
  "info_error g m i w = (case m i w of (Inl e, i1, w1) \<Rightarrow> (Inl (g e), i1, w1) | (Inr a, i1, w1) \<Rightarrow> (Inr a, i1, w1))"

text \<open>The calls that the operations share.\<close>

definition file_present :: "('w, 'f, 'v, 'n, 'k) apienv \<Rightarrow> string \<Rightarrow> Info \<Rightarrow> 'w \<Rightarrow> bool result \<times> Info \<times> 'w" where
  "file_present ap path i =
     on_file (\<lambda>f w. case IsFileAlreadyPresent (ap_sv ap i) f (inPassword i) path w of (b, f1, w1) \<Rightarrow> (Inr b, f1, w1)) i"

definition get_inode :: "('w, 'f, 'v, 'n, 'k) apienv \<Rightarrow> string \<Rightarrow> Info \<Rightarrow> 'w \<Rightarrow> Inode result \<times> Info \<times> 'w" where
  "get_inode ap path i =
     on_dir (\<lambda>d w. case GetInode (ap_sv ap i) (ap_lb ap) (ap_js ap) (ap_late ap) d (inPassword i) path w of
        (Inl e, d1, w1) \<Rightarrow> (Inl e, d1, w1) | (Inr a, d1, w1) \<Rightarrow> (Inr (drHeap d1 a), d1, w1)) i"

definition add_entry :: "('w, 'f, 'v, 'n, 'k) apienv \<Rightarrow> string \<Rightarrow> string \<Rightarrow> Info \<Rightarrow> 'w \<Rightarrow> unit result \<times> Info \<times> 'w" where
  "add_entry ap dir name i =
     on_dir (\<lambda>d. AddEntryToDir (ap_sv ap i) (ap_lb ap) (ap_js ap) (ap_late ap) d dir (inPassword i) name True) i"

definition remove_entry :: "('w, 'f, 'v, 'n, 'k) apienv \<Rightarrow> string \<Rightarrow> string \<Rightarrow> Info \<Rightarrow> 'w \<Rightarrow> unit result \<times> Info \<times> 'w" where
  "remove_entry ap dir name i =
     on_dir (\<lambda>d. RemoveEntryFromDir (ap_sv ap i) (ap_lb ap) (ap_js ap) (ap_late ap) d dir (inPassword i) name True) i"

definition has_entry :: "string \<Rightarrow> string \<Rightarrow> Inode \<Rightarrow> bool" where
  "has_entry mark name inode \<longleftrightarrow> list_ex (\<lambda>n. TrimPrefix n mark = name) (FileOrDirNames inode)"

section \<open>Directories\<close>

definition API_Mkdir ::
  "('w, 'f, 'v, 'n, 'k) apienv \<Rightarrow> Users \<Rightarrow> string \<Rightarrow> string \<Rightarrow> string \<Rightarrow> 32 word \<Rightarrow> bool \<Rightarrow> 'w \<Rightarrow> unit result \<times> Users \<times> 'w" where
  "API_Mkdir ap us podName dirToCreateWithPath sessionId mode isGroup =
     with_user us sessionId (pod_or_group (ap_pods ap) podName isGroup (\<lambda>i.
       on_dir (\<lambda>d. MkDir (ap_sv ap i) (ap_lb ap) (ap_js ap) (ap_late ap) d dirToCreateWithPath (inPassword i) mode) i))"

definition API_RenameDir ::
  "('w, 'f, 'v, 'n, 'k) apienv \<Rightarrow> Users \<Rightarrow> string \<Rightarrow> string \<Rightarrow> string \<Rightarrow> string \<Rightarrow> bool \<Rightarrow> 'w \<Rightarrow> unit result \<times> Users \<times> 'w" where
  "API_RenameDir ap us podName dirToRenameWithPath newName sessionId isGroup =
     with_user us sessionId (pod_or_group (ap_pods ap) podName isGroup (\<lambda>i.
       on_dir (\<lambda>d. RenameDir (apDepth ap) (ap_sv ap i) (ap_lb ap) (ap_js ap) (ap_late ap) d dirToRenameWithPath newName
                     (inPassword i)) i))"

definition API_IsDirPresent ::
  "('w, 'f, 'v, 'n, 'k) apienv \<Rightarrow> Users \<Rightarrow> string \<Rightarrow> string \<Rightarrow> string \<Rightarrow> bool \<Rightarrow> 'w \<Rightarrow> bool result \<times> Users \<times> 'w" where
  "API_IsDirPresent ap us podName directoryNameWithPath sessionId isGroup =
     with_user us sessionId (pod_or_group (ap_pods ap) podName isGroup (\<lambda>i.
       on_dir (\<lambda>d. IsDirectoryPresent (ap_sv ap i) (ap_lb ap) (ap_js ap) (ap_late ap) d directoryNameWithPath (inPassword i)) i))"

definition API_RmDir ::
  "('w, 'f, 'v, 'n, 'k) apienv \<Rightarrow> Users \<Rightarrow> string \<Rightarrow> string \<Rightarrow> string \<Rightarrow> bool \<Rightarrow> 'w \<Rightarrow> unit result \<times> Users \<times> 'w" where
  "API_RmDir ap us podName directoryNameWithPath sessionId isGroup =
     with_user us sessionId (pod_or_group (ap_pods ap) podName isGroup (\<lambda>i.
       on_dir (RmDir (apDepth ap) (ap_sv ap i) (ap_lb ap) (ap_js ap) (ap_late ap) (inPassword i) directoryNameWithPath) i))"

definition API_ListDir ::
  "('w, 'f, 'v, 'n, 'k) apienv \<Rightarrow> Users \<Rightarrow> string \<Rightarrow> string \<Rightarrow> string \<Rightarrow> bool \<Rightarrow> 'w
    \<Rightarrow> (DirEntry list \<times> FileEntry list) result \<times> Users \<times> 'w" where
  "API_ListDir ap us podName currentDir sessionId isGroup =
     with_user us sessionId (pod_or_group (ap_pods ap) podName isGroup (\<lambda>i.
       info_bind (info_error (\<lambda>e. masked e ErrDirectoryNotPresent) (get_inode ap (CombinePathAndFile currentDir []))) (\<lambda>_.
       info_bind (on_dir (\<lambda>d. ListDir (ap_sv ap i) (ap_lb ap) (ap_js ap) (ap_late ap) (apTasks ap) d currentDir (inPassword i))) (\<lambda>(dEntries, fileList).
       on_file (\<lambda>f w. case ListFiles (ap_sv ap i) (apTasks ap) f fileList (inPassword i) w of
          (fEntries, f1, w1) \<Rightarrow> (Inr (dEntries, fEntries), f1, w1)))) i))"

definition API_DirectoryStat ::
  "('w, 'f, 'v, 'n, 'k) apienv \<Rightarrow> Users \<Rightarrow> string \<Rightarrow> string \<Rightarrow> string \<Rightarrow> bool \<Rightarrow> 'w \<Rightarrow> DirStats result \<times> Users \<times> 'w" where
  "API_DirectoryStat ap us podName directoryPath sessionId isGroup =
     with_user us sessionId (pod_or_group (ap_pods ap) podName isGroup (\<lambda>i.
       info_bind
         (if directoryPath \<noteq> ''/'' then
            info_bind (info_error (\<lambda>e. masked e ErrDirectoryNotPresent) (get_inode ap (path_Dir directoryPath))) (\<lambda>inode.
              if has_entry ''_D_'' (path_Base directoryPath) inode then info_return () else info_fail ErrDirectoryNotPresent)
          else info_return ()) (\<lambda>_.
       on_dir (\<lambda>d. DirStat (ap_sv ap i) (ap_lb ap) (ap_js ap) (ap_late ap) d podName (inPassword i) directoryPath)) i))"

definition API_DirectoryInode ::
  "('w, 'f, 'v, 'n, 'k) apienv \<Rightarrow> Users \<Rightarrow> string \<Rightarrow> string \<Rightarrow> string \<Rightarrow> bool \<Rightarrow> 'w \<Rightarrow> Inode result \<times> Users \<times> 'w" where
  "API_DirectoryInode ap us podName directoryName sessionId isGroup =
     with_user us sessionId (pod_or_group (ap_pods ap) podName isGroup
       (info_error (\<lambda>e. masked e (Errorf ''dir not found'')) (get_inode ap directoryName)))"

definition API_ChmodDir ::
  "('w, 'f, 'v, 'n, 'k) apienv \<Rightarrow> Users \<Rightarrow> string \<Rightarrow> string \<Rightarrow> string \<Rightarrow> 32 word \<Rightarrow> bool \<Rightarrow> 'w \<Rightarrow> unit result \<times> Users \<times> 'w" where
  "API_ChmodDir ap us podName directoryNameWithPath sessionId mode isGroup =
     with_user us sessionId (pod_or_group (ap_pods ap) podName isGroup (\<lambda>i.
       on_dir (\<lambda>d. DirChmod (ap_sv ap i) (ap_lb ap) (ap_js ap) (ap_late ap) d directoryNameWithPath (inPassword i) mode) i))"

section \<open>Files\<close>

definition API_DeleteFile ::
  "('w, 'f, 'v, 'n, 'k) apienv \<Rightarrow> Users \<Rightarrow> string \<Rightarrow> string \<Rightarrow> string \<Rightarrow> bool \<Rightarrow> 'w \<Rightarrow> unit result \<times> Users \<times> 'w" where
  "API_DeleteFile ap us podName podFileWithPath sessionId isGroup =
     with_user us sessionId (pod_or_group (ap_pods ap) podName isGroup (\<lambda>i.
       if IsReadOnlyPod (inAccount i) then info_fail errReadOnlyPod i else
       info_bind (info_error (\<lambda>e. if e = ErrDeletedFeed then ErrInvalidFile else e)
           (on_file (\<lambda>f. RmFile (ap_sv ap i) f podFileWithPath (inPassword i)))) (\<lambda>_.
         remove_entry ap (path_Dir podFileWithPath) (path_Base podFileWithPath)) i))"

text \<open>If the directory cannot be read the check is skipped.\<close>

definition API_FileStat ::
  "('w, 'f, 'v, 'n, 'k) apienv \<Rightarrow> Users \<Rightarrow> string \<Rightarrow> string \<Rightarrow> string \<Rightarrow> bool \<Rightarrow> 'w \<Rightarrow> Stats result \<times> Users \<times> 'w" where
  "API_FileStat ap us podName podFileWithPath sessionId isGroup =
     with_user us sessionId (pod_or_group (ap_pods ap) podName isGroup (\<lambda>i w.
       case get_inode ap (path_Dir podFileWithPath) i w of
         (r, i1, w1) \<Rightarrow>
           (case r of
              Inl e \<Rightarrow> if panicking e then (Inl e, i1, w1) else on_file (\<lambda>f. GetStats (ap_sv ap i) f podName podFileWithPath (inPassword i)) i1 w1
            | Inr inode \<Rightarrow>
                if has_entry ''_F_'' (path_Base podFileWithPath) inode
                then on_file (\<lambda>f. GetStats (ap_sv ap i) f podName podFileWithPath (inPassword i)) i1 w1
                else (Inl ErrFileNotFound, i1, w1))))"

text \<open>An existing file is backed up under another name or, with overwrite, replaced.\<close>

definition make_way :: "('w, 'f, 'v, 'n, 'k) apienv \<Rightarrow> string \<Rightarrow> string \<Rightarrow> bool \<Rightarrow> Info \<Rightarrow> 'w \<Rightarrow> unit result \<times> Info \<times> 'w" where
  "make_way ap podPath podFileName overwrite i =
     (let totalPath = CombinePathAndFile podPath podFileName in
      info_bind (file_present ap totalPath) (\<lambda>alreadyPresent.
        if \<not> alreadyPresent then info_return ()
        else info_bind
          (if overwrite then info_return ()
           else info_bind (on_file (\<lambda>f. BackupFromFileName (ap_sv ap i) f totalPath (inPassword i))) (\<lambda>m. add_entry ap podPath (fName m))) (\<lambda>_.
          remove_entry ap podPath podFileName)) i)"

definition API_UploadFile ::
  "('w, 'f, 'v, 'n, 'k) apienv \<Rightarrow> Users \<Rightarrow> string \<Rightarrow> string \<Rightarrow> string \<Rightarrow> 64 word \<Rightarrow> bytes list \<Rightarrow> string \<Rightarrow> string \<Rightarrow> 32 word
    \<Rightarrow> 32 word \<Rightarrow> bool \<Rightarrow> bool \<Rightarrow> 'w \<Rightarrow> unit result \<times> Users \<times> 'w" where
  "API_UploadFile ap us podName podFileName sessionId fileSize fd podPath compression blockSize mode overwrite isGroup =
     with_user us sessionId (pod_or_group (ap_pods ap) podName isGroup (\<lambda>i.
       info_bind (make_way ap podPath podFileName overwrite) (\<lambda>_.
       info_bind (on_file (\<lambda>f. Upload (ap_sv ap i) (ap_lb ap) (ap_late ap) f fd podFileName fileSize blockSize mode podPath compression
                                  (inPassword i))) (\<lambda>_.
       add_entry ap podPath podFileName)) i))"

definition API_RenameFile ::
  "('w, 'f, 'v, 'n, 'k) apienv \<Rightarrow> Users \<Rightarrow> string \<Rightarrow> string \<Rightarrow> string \<Rightarrow> string \<Rightarrow> bool \<Rightarrow> 'w \<Rightarrow> unit result \<times> Users \<times> 'w" where
  "API_RenameFile ap us podName fileNameWithPath newFileNameWithPath sessionId isGroup =
     with_user us sessionId (pod_or_group (ap_pods ap) podName isGroup (\<lambda>i.
       info_bind (file_present ap fileNameWithPath) (\<lambda>old. if \<not> old then info_fail ErrFileNotPresent else
       info_bind (file_present ap newFileNameWithPath) (\<lambda>new. if new then info_fail ErrFileExists else
       info_bind (on_file (\<lambda>f. RenameFromFileName (ap_sv ap i) f fileNameWithPath newFileNameWithPath (inPassword i))) (\<lambda>m.
       info_bind (add_entry ap (path_Dir newFileNameWithPath) (fName m)) (\<lambda>_.
       remove_entry ap (path_Dir fileNameWithPath) (path_Base fileNameWithPath))))) i))"

definition API_DownloadFile ::
  "('w, 'f, 'v, 'n, 'k) apienv \<Rightarrow> Users \<Rightarrow> string \<Rightarrow> string \<Rightarrow> string \<Rightarrow> bool \<Rightarrow> 'w \<Rightarrow> (Reader \<times> nat) result \<times> Users \<times> 'w" where
  "API_DownloadFile ap us podName podFileWithPath sessionId isGroup =
     with_user us sessionId (pod_or_group (ap_pods ap) podName isGroup (\<lambda>i.
       on_file (\<lambda>f. Download (ap_sv ap i) f podFileWithPath (inPassword i)) i))"

definition API_WriteAtFile ::
  "('w, 'f, 'v, 'n, 'k) apienv \<Rightarrow> Users \<Rightarrow> string \<Rightarrow> string \<Rightarrow> string \<Rightarrow> bytes \<Rightarrow> nat \<Rightarrow> bool \<Rightarrow> bool \<Rightarrow> 'w \<Rightarrow> nat result \<times> Users \<times> 'w" where
  "API_WriteAtFile ap us podName fileNameWithPath sessionId update offset trunc isGroup =
     with_user us sessionId (pod_or_group (ap_pods ap) podName isGroup (\<lambda>i.
       info_bind (file_present ap fileNameWithPath) (\<lambda>present. if \<not> present then info_fail ErrFileNotPresent else
       on_file (\<lambda>f. WriteAt (ap_sv ap i) (ap_lb ap) (ap_late ap) f fileNameWithPath (inPassword i) update offset trunc)) i))"

definition API_ReadSeekCloser ::
  "('w, 'f, 'v, 'n, 'k) apienv \<Rightarrow> Users \<Rightarrow> string \<Rightarrow> string \<Rightarrow> string \<Rightarrow> bool \<Rightarrow> 'w \<Rightarrow> (Reader \<times> nat) result \<times> Users \<times> 'w" where
  "API_ReadSeekCloser ap us podName podFileWithPath sessionId isGroup =
     with_user us sessionId (pod_or_group (ap_pods ap) podName isGroup (\<lambda>i.
       on_file (\<lambda>f. ReadSeeker (ap_sv ap i) f podFileWithPath (inPassword i)) i))"

definition API_ChmodFile ::
  "('w, 'f, 'v, 'n, 'k) apienv \<Rightarrow> Users \<Rightarrow> string \<Rightarrow> string \<Rightarrow> string \<Rightarrow> 32 word \<Rightarrow> bool \<Rightarrow> 'w \<Rightarrow> unit result \<times> Users \<times> 'w" where
  "API_ChmodFile ap us podName podFileWithPath sessionId mode isGroup =
     with_user us sessionId (pod_or_group (ap_pods ap) podName isGroup (\<lambda>i.
       on_file (\<lambda>f. FileChmod (ap_sv ap i) f podFileWithPath (inPassword i) mode) i))"

text \<open>ShareFile reads through the feed object of the user.\<close>

definition API_ShareFile ::
  "('w, 'f, 'v, 'n, 'k) apienv \<Rightarrow> Users \<Rightarrow> string \<Rightarrow> string \<Rightarrow> string \<Rightarrow> string \<Rightarrow> bool \<Rightarrow> 'w \<Rightarrow> string result \<times> Users \<times> 'w" where
  "API_ShareFile ap us podName podFileWithPath destinationUser sessionId isGroup =
     with_user us sessionId (\<lambda>ui. pod_or_group (ap_pods ap) podName isGroup (\<lambda>i w.
       case ShareFileWithUser (apUsers ap) (inPassword i) podFileWithPath destinationUser ui (aiAddress (inAccount i)) w of
         (r, w1) \<Rightarrow> (r, i, w1)) ui)"

definition API_ReceiveFile ::
  "('w, 'f, 'v, 'n, 'k) apienv \<Rightarrow> Users \<Rightarrow> string \<Rightarrow> string \<Rightarrow> string \<Rightarrow> string \<Rightarrow> 'w \<Rightarrow> string result \<times> Users \<times> 'w" where
  "API_ReceiveFile ap us podName sessionId ref dir =
     with_user us sessionId (on_pod (\<lambda>p. ReceiveFileFromUser (apUsers ap) p podName ref dir))"

definition API_ReceiveInfo ::
  "('w, 'f, 'v, 'n, 'k) apienv \<Rightarrow> Users \<Rightarrow> string \<Rightarrow> string \<Rightarrow> 'w \<Rightarrow> ReceivedFile option result \<times> Users \<times> 'w" where
  "API_ReceiveInfo ap us sessionId ref =
     with_user us sessionId (\<lambda>ui w. case ReceiveFileInfo (apUsers ap) ref w of (r, w1) \<Rightarrow> (r, ui, w1))"

end
