(* ===== verification/DfsPods.thy ===== *)
theory DfsPods
  imports DfsApi
begin

text \<open>
  Pods in the API: pkg/dfs/pod_api.go.  The operations on the pods of a user, on public
  pods, which need no user, and on the marketplace.

  Listing a public pod starts a goroutine for each entry of the directory.  They only
  read; the model runs them in the order of the entries and collects their results in
  an order that is given (ord).  The loop that collects ends when it has as many entries
  as there are names: None stands for a loop that never ends.
\<close>

section \<open>Pods of a user\<close>

text \<open>The new pod is opened under the name as it was given, not under the trimmed one.\<close>

definition prepareOwnPod ::
  "('w, 'f, 'v, 'n, 'k) apienv \<Rightarrow> string \<Rightarrow> Pod \<Rightarrow> 'w \<Rightarrow> Info result \<times> Pod \<times> 'w" where
  "prepareOwnPod ap podName p w =
     (case CreatePod (ap_pods ap) p podName [] (HexEncode (apPassword ap)) w of
        (Inl e, p1, w1) \<Rightarrow> (Inl e, p1, w1) | (Inr i, p1, w1) \<Rightarrow> OpenPod (ap_pods ap) p1 podName w1)"

text \<open>An operation on the pods that is followed by a change of the names in openPods.\<close>

definition pod_then ::
  "(Pod \<Rightarrow> 'w \<Rightarrow> 'a result \<times> Pod \<times> 'w) \<Rightarrow> ('a \<Rightarrow> UserInfo \<Rightarrow> UserInfo) \<Rightarrow> UserInfo \<Rightarrow> 'w \<Rightarrow> 'a result \<times> UserInfo \<times> 'w" where
  "pod_then f g ui w = (case on_pod f ui w of (Inl e, ui1, w1) \<Rightarrow> (Inl e, ui1, w1) | (Inr a, ui1, w1) \<Rightarrow> (Inr a, g a ui1, w1))"

definition API_CreatePod :: "('w, 'f, 'v, 'n, 'k) apienv \<Rightarrow> Users \<Rightarrow> string \<Rightarrow> string \<Rightarrow> 'w \<Rightarrow> Info result \<times> Users \<times> 'w" where
  "API_CreatePod ap us podName sessionId =
     with_user us sessionId (pod_then (prepareOwnPod ap podName) (\<lambda>i. AddPodName podName))"

definition delete_pod :: "('w, 'f, 'v, 'n, 'k) apienv \<Rightarrow> string \<Rightarrow> Pod \<Rightarrow> 'w \<Rightarrow> unit result \<times> Pod \<times> 'w" where
  "delete_pod ap podName p w =
     (case GetPodInfo (ap_pods ap) p podName w of
        (Inl e, p1, w1) \<Rightarrow> (Inl e, p1, w1)
      | (Inr i, p1, w1) \<Rightarrow>
          if IsReadOnlyFeed (ap_sv ap i) w1 then DeleteSharedPod (ap_pods ap) p1 podName w1
          else
            (case RmRootDir (apDepth ap) (ap_sv ap i) (ap_lb ap) (ap_js ap) (ap_late ap) (inDir i) (inPassword i) w1 of
               (r, d, w2) \<Rightarrow>
                 let p2 = change_info podName (set_inDir d) p1 in
                 (case r of
                    Inl e \<Rightarrow> if e \<noteq> ErrFileNotFound then (Inl e, p2, w2) else DeleteOwnPod (ap_pods ap) p2 podName w2
                  | Inr u \<Rightarrow> DeleteOwnPod (ap_pods ap) p2 podName w2)))"

definition API_DeletePod :: "('w, 'f, 'v, 'n, 'k) apienv \<Rightarrow> Users \<Rightarrow> string \<Rightarrow> string \<Rightarrow> 'w \<Rightarrow> unit result \<times> Users \<times> 'w" where
  "API_DeletePod ap us podName sessionId =
     with_user us sessionId (pod_then (delete_pod ap podName) (\<lambda>u. RemovePodName podName))"

definition API_OpenPod :: "('w, 'f, 'v, 'n, 'k) apienv \<Rightarrow> Users \<Rightarrow> string \<Rightarrow> string \<Rightarrow> 'w \<Rightarrow> Info result \<times> Users \<times> 'w" where
  "API_OpenPod ap us podName sessionId =
     with_user us sessionId (pod_then (\<lambda>p. GetPodInfo (ap_pods ap) p podName) (\<lambda>i. AddPodName podName))"

definition API_ClosePod :: "('w, 'f, 'v, 'n, 'k) apienv \<Rightarrow> Users \<Rightarrow> string \<Rightarrow> string \<Rightarrow> 'w \<Rightarrow> unit result \<times> Users \<times> 'w" where
  "API_ClosePod ap us podName sessionId =
     with_user us sessionId (pod_then (\<lambda>p. ClosePod (ap_pods ap) p podName) (\<lambda>u. RemovePodName podName))"

definition Pod_CommitFeeds :: "('w, 'f, 'v) podenv \<Rightarrow> Pod \<Rightarrow> string \<Rightarrow> 'w \<Rightarrow> unit result \<times> Pod \<times> 'w" where
  "Pod_CommitFeeds env p podName w =
     (case GetPodInfoFromPodMap p podName of Inl e \<Rightarrow> (Inl e, p, w) | Inr podInfo \<Rightarrow>
      case peCommit env (inFeed podInfo) w of (Inl e, w1) \<Rightarrow> (Inl e, p, w1) | (Inr u, w1) \<Rightarrow>
      (case peCommit env (acUser (pdAccount p)) w1 of (r, w2) \<Rightarrow> (r, p, w2)))"

definition API_CommitPodFeeds :: "('w, 'f, 'v, 'n, 'k) apienv \<Rightarrow> Users \<Rightarrow> string \<Rightarrow> string \<Rightarrow> 'w \<Rightarrow> unit result \<times> Users \<times> 'w" where
  "API_CommitPodFeeds ap us podName sessionId = with_user us sessionId (on_pod (\<lambda>p. Pod_CommitFeeds (ap_pods ap) p podName))"

definition API_PodStat :: "('w, 'f, 'v, 'n, 'k) apienv \<Rightarrow> Users \<Rightarrow> string \<Rightarrow> string \<Rightarrow> 'w \<Rightarrow> PodStats result \<times> Users \<times> 'w" where
  "API_PodStat ap us podName sessionId = with_user us sessionId (on_pod (\<lambda>p. PodStat (ap_pods ap) p podName))"

definition API_SyncPod :: "('w, 'f, 'v, 'n, 'k) apienv \<Rightarrow> Users \<Rightarrow> string \<Rightarrow> string \<Rightarrow> 'w \<Rightarrow> unit result \<times> Users \<times> 'w" where
  "API_SyncPod ap us podName sessionId = with_user us sessionId (on_pod (\<lambda>p. SyncPod (apDepth ap) (ap_pods ap) p podName))"

definition API_SyncPodAsync :: "('w, 'f, 'v, 'n, 'k) apienv \<Rightarrow> Users \<Rightarrow> string \<Rightarrow> string \<Rightarrow> 'w \<Rightarrow> unit result \<times> Users \<times> 'w" where
  "API_SyncPodAsync ap us podName sessionId =
     with_user us sessionId (on_pod (\<lambda>p. SyncPodAsync (apDepth ap) (ap_pods ap) p podName))"

text \<open>An operation that reads the pods and leaves them as they are.\<close>

definition reading :: "(Pod \<Rightarrow> 'w \<Rightarrow> 'a result \<times> 'w) \<Rightarrow> UserInfo \<Rightarrow> 'w \<Rightarrow> 'a result \<times> UserInfo \<times> 'w" where
  "reading f ui w = (case f (uiPod ui) w of (r, w1) \<Rightarrow> (r, ui, w1))"

definition API_ListPods :: "('w, 'f, 'v, 'n, 'k) apienv \<Rightarrow> Users \<Rightarrow> string \<Rightarrow> 'w \<Rightarrow> (string list \<times> string list) result \<times> Users \<times> 'w" where
  "API_ListPods ap us sessionId = with_user us sessionId (reading (ListPods (ap_pods ap)))"

definition API_PodList :: "('w, 'f, 'v, 'n, 'k) apienv \<Rightarrow> Users \<Rightarrow> string \<Rightarrow> 'w \<Rightarrow> PodList result \<times> Users \<times> 'w" where
  "API_PodList ap us sessionId = with_user us sessionId (reading (GetPodList (ap_pods ap)))"

definition API_PodShare :: "('w, 'f, 'v, 'n, 'k) apienv \<Rightarrow> Users \<Rightarrow> string \<Rightarrow> string \<Rightarrow> string \<Rightarrow> 'w \<Rightarrow> string result \<times> Users \<times> 'w" where
  "API_PodShare ap us podName sharedPodName sessionId =
     with_user us sessionId (on_pod (\<lambda>p. PodShare (ap_pods ap) p podName sharedPodName))"

definition API_PodReceiveInfo :: "('w, 'f, 'v, 'n, 'k) apienv \<Rightarrow> Users \<Rightarrow> string \<Rightarrow> bytes \<Rightarrow> 'w \<Rightarrow> ShareInfo result \<times> Users \<times> 'w" where
  "API_PodReceiveInfo ap us sessionId ref = with_user us sessionId (reading (\<lambda>p. ReceivePodInfo (ap_pods ap) p ref))"

definition API_PodReceive :: "('w, 'f, 'v, 'n, 'k) apienv \<Rightarrow> Users \<Rightarrow> string \<Rightarrow> string \<Rightarrow> bytes \<Rightarrow> 'w \<Rightarrow> Info result \<times> Users \<times> 'w" where
  "API_PodReceive ap us sessionId sharedPodName ref =
     with_user us sessionId (on_pod (\<lambda>p. ReceivePod (ap_pods ap) p sharedPodName ref))"

definition API_IsPodExist :: "('w, 'f, 'v, 'n, 'k) apienv \<Rightarrow> Users \<Rightarrow> string \<Rightarrow> string \<Rightarrow> 'w \<Rightarrow> bool result \<times> 'w" where
  "API_IsPodExist ap us podName sessionId w =
     (case GetLoggedInUserInfo us sessionId of None \<Rightarrow> (Inr False, w) | Some ui \<Rightarrow> IsPodPresent (ap_pods ap) (uiPod ui) podName w)"

definition fork_into ::
  "('w, 'f, 'v, 'n, 'k) apienv \<Rightarrow> string \<Rightarrow> (Pod \<Rightarrow> 'w \<Rightarrow> unit result \<times> Pod \<times> 'w) \<Rightarrow> Pod \<Rightarrow> 'w \<Rightarrow> unit result \<times> Pod \<times> 'w" where
  "fork_into ap forkName fork p w =
     (if forkName = [] then (Inl (Sentinel ''pod name cannot be blank''), p, w) else
      case IsPodPresent (ap_pods ap) p forkName w of
        (Inl e, w1) \<Rightarrow> (Inl e, p, w1)
      | (Inr present, w1) \<Rightarrow>
          if present then (Inl (Sentinel ''pod with fork name already exists''), p, w1) else
          (case prepareOwnPod ap forkName p w1 of (Inl e, p1, w2) \<Rightarrow> (Inl e, p1, w2) | (Inr i, p1, w2) \<Rightarrow> fork p1 w2))"

definition API_ForkPod :: "('w, 'f, 'v, 'n, 'k) apienv \<Rightarrow> Users \<Rightarrow> string \<Rightarrow> string \<Rightarrow> string \<Rightarrow> 'w \<Rightarrow> unit result \<times> Users \<times> 'w" where
  "API_ForkPod ap us podName forkName sessionId =
     with_user us sessionId (on_pod (fork_into ap forkName (\<lambda>p. PodFork (apDepth ap) (ap_pods ap) p podName forkName)))"

definition API_ForkPodFromRef :: "('w, 'f, 'v, 'n, 'k) apienv \<Rightarrow> Users \<Rightarrow> string \<Rightarrow> string \<Rightarrow> string \<Rightarrow> 'w \<Rightarrow> unit result \<times> Users \<times> 'w" where
  "API_ForkPodFromRef ap us forkName refString sessionId =
     with_user us sessionId (on_pod (\<lambda>p w.
       if refString = [] then (Inl (Sentinel ''pod sharing reference cannot be blank''), p, w)
       else fork_into ap forkName (\<lambda>p. PodForkFromRef (apDepth ap) (ap_pods ap) p forkName refString) p w))"

section \<open>Public pods\<close>

definition public_sv :: "('w, 'f, 'v, 'n, 'k) apienv \<Rightarrow> ShareInfo \<Rightarrow> 'w services" where
  "public_sv ap si = peFeed (ap_pods ap) (shared_account (shAddress si))"

definition PublicPodReceiveInfo :: "('w, 'f, 'v, 'n, 'k) apienv \<Rightarrow> bytes \<Rightarrow> 'w \<Rightarrow> ShareInfo result \<times> 'w" where
  "PublicPodReceiveInfo ap ref w =
     (case DownloadBlob (ueClient (apUsers ap)) ref w of
        (Inl e, w1) \<Rightarrow> (Inl e, w1)
      | (Inr (data, resp), w1) \<Rightarrow>
          if resp \<noteq> 200 then (Inl (Errorf ''ReceivePodInfo: could not download blob''), w1)
          else (case peShareInfo (ap_pods ap) data of None \<Rightarrow> (Inl (Errorf ''json''), w1) | Some si \<Rightarrow> (Inr si, w1)))"

text \<open>The response code is not looked at.\<close>

definition PublicPodFileDownloadFromMetadata ::
  "('w, 'f, 'v, 'n, 'k) apienv \<Rightarrow> FileMeta \<Rightarrow> 'w \<Rightarrow> (Reader \<times> nat) result \<times> 'w" where
  "PublicPodFileDownloadFromMetadata ap meta w =
     (case DownloadBlob (ueClient (apUsers ap)) (fInodeAddress meta) w of
        (Inl e, w1) \<Rightarrow> (Inl e, w1)
      | (Inr (c, code), w1) \<Rightarrow>
          (case inode_of c of Inl e \<Rightarrow> (Inl e, w1) | Inr blocks \<Rightarrow>
             (Inr (NewReader blocks (unat (fSize meta)) (unat (fBlockSize meta)) (fCompression meta) False, unat (fSize meta)), w1)))"

text \<open>The metadata of a file of the pod.\<close>

definition public_meta :: "content \<Rightarrow> FileMeta result" where
  "public_meta c = (case json_meta c of Some m \<Rightarrow> Inr m | None \<Rightarrow> Inl (Errorf ''json''))"

definition PublicPodFileDownload ::
  "('w, 'f, 'v, 'n, 'k) apienv \<Rightarrow> ShareInfo \<Rightarrow> string \<Rightarrow> 'w \<Rightarrow> (Reader \<times> nat) result \<times> 'w" where
  "PublicPodFileDownload ap si filePath w =
     (let sv = public_sv ap si in
      case GetFeedData sv (HashString sv filePath) (HexToAddress (shAddress si)) (bytes_of (shPassword si)) w of
        (Inl e, w1) \<Rightarrow> (Inl e, w1)
      | (Inr (a, metaBytes), w1) \<Rightarrow>
          if metaBytes = deleted_mark then (Inl ErrDeletedFeed, w1) else
          case public_meta metaBytes of Inl e \<Rightarrow> (Inl e, w1) | Inr meta \<Rightarrow> PublicPodFileDownloadFromMetadata ap meta w1)"

definition PublicPodKVGetter :: "('w, 'f, 'v, 'n, 'k) apienv \<Rightarrow> ShareInfo \<Rightarrow> KeyValue" where
  "PublicPodKVGetter ap si = NewKeyValueStore (shPodName si) (HexToAddress (shAddress si)) (peIndexes (ap_pods ap))"

definition PublicPodKVEntryGet ::
  "('w, 'f, 'v, 'n, 'k) apienv \<Rightarrow> ShareInfo \<Rightarrow> string \<Rightarrow> string \<Rightarrow> 'w \<Rightarrow> (string list \<times> content) result \<times> 'w" where
  "PublicPodKVEntryGet ap si name key w =
     (let sv = public_sv ap si in
      case OpenKVTable sv (PublicPodKVGetter ap si) name (shPassword si) w of
        (Inl e, kv, w1) \<Rightarrow> (Inl e, w1) | (Inr u, kv, w1) \<Rightarrow> KVGet sv kv name key w1)"

text \<open>The inode of a directory, from its index file or from the feed fallback; None is an
  inode without metadata, which the text of another structure gives.\<close>

definition public_inode ::
  "('w, 'f, 'v, 'n, 'k) apienv \<Rightarrow> ShareInfo \<Rightarrow> string \<Rightarrow> string \<Rightarrow> 'w \<Rightarrow> Inode option result \<times> 'w" where
  "public_inode ap si path fallback w =
     (let sv = public_sv ap si; addr = HexToAddress (shAddress si); pw = bytes_of (shPassword si) in
      case GetFeedData sv (HashString sv (CombinePathAndFile path IndexFileName)) addr pw w of
        (Inl e, w1) \<Rightarrow>
          (case GetFeedData sv (HashString sv fallback) addr pw w1 of
             (Inl e, w2) \<Rightarrow> (Inl (masked e (Errorf ''list dir'')), w2)
           | (Inr (a, c), w2) \<Rightarrow>
               (case c of
                  Doc (DInode i) \<Rightarrow> (Inr (Some i), w2)
                | Doc x \<Rightarrow> (Inr None, w2)
                | _ \<Rightarrow> (case inode_of_feed c of Inl e \<Rightarrow> (Inl e, w2) | Inr i \<Rightarrow> (Inr (Some i), w2))))
      | (Inr (a, metaBytes), w1) \<Rightarrow>
          if metaBytes = deleted_mark then (Inl ErrDeletedFeed, w1) else
          (case public_meta metaBytes of Inl e \<Rightarrow> (Inl e, w1) | Inr meta \<Rightarrow>
           case PublicPodFileDownloadFromMetadata ap meta w1 of (Inl e, w2) \<Rightarrow> (Inl e, w2) | (Inr (r, n), w2) \<Rightarrow>
          (case read_all (Suc n) (ueClient (apUsers ap)) (ap_lb ap) 0 [] r w2 of (Inl e, r1, w3) \<Rightarrow> (Inl e, w3) | (Inr dat, r1, w3) \<Rightarrow>
          (case InodeUnmarshal (ap_js ap) dat of Inl e \<Rightarrow> (Inl e, w3) | Inr i \<Rightarrow> (Inr (Some i), w3)))))"

text \<open>What the goroutine of one entry sends: a directory, a file, an error, or nothing at
  all for a deleted file and for a name without a mark.  The goroutines of PublicPodDisLs
  share the variable that holds the topic of the feed fallback: what one of them reads
  from it may be the topic of another child.  topicOf gives the name whose topic the
  goroutine of a directory finds there; a variable of its own gives the directory's name.\<close>

datatype event = DirEvent Inode | FileEvent FileMeta | ErrEvent goerror | NoEvent

definition entry_event ::
  "('w, 'f, 'v, 'n, 'k) apienv \<Rightarrow> (string \<Rightarrow> string) \<Rightarrow> ShareInfo \<Rightarrow> string \<Rightarrow> string \<Rightarrow> 'w \<Rightarrow> event \<times> 'w" where
  "entry_event ap topicOf si path x w =
     (let sv = public_sv ap si; addr = HexToAddress (shAddress si); pw = bytes_of (shPassword si) in
      if HasPrefix x dir_mark then
        (let dirName = TrimPrefix x dir_mark in
         case public_inode ap si (CombinePathAndFile path dirName) (topicOf dirName) w of
           (Inl e, w1) \<Rightarrow> (ErrEvent e, w1)
         | (Inr None, w1) \<Rightarrow> (ErrEvent NilDereference, w1)
         | (Inr (Some i), w1) \<Rightarrow> (DirEvent i, w1))
      else if HasPrefix x file_mark then
        (let filePath = CombinePathAndFile path (TrimPrefix x file_mark) in
         case GetFeedData sv (HashString sv (CombinePathAndFile filePath [])) addr pw w of
           (Inl e, w1) \<Rightarrow> (ErrEvent (masked e (Errorf ''file mtdt'')), w1)
         | (Inr (a, c), w1) \<Rightarrow>
             if c = deleted_mark then (NoEvent, w1)
             else (case public_meta c of Inl e \<Rightarrow> (ErrEvent (Errorf ''file mtdt''), w1) | Inr m \<Rightarrow> (FileEvent m, w1)))
      else (NoEvent, w))"

primrec entry_events ::
  "('w, 'f, 'v, 'n, 'k) apienv \<Rightarrow> (string \<Rightarrow> string) \<Rightarrow> ShareInfo \<Rightarrow> string \<Rightarrow> string list \<Rightarrow> 'w \<Rightarrow> event list \<times> 'w" where
  "entry_events ap topicOf si path [] w = ([], w)"
| "entry_events ap topicOf si path (x # xs) w =
     (case entry_event ap topicOf si path x w of (ev, w1) \<Rightarrow>
      case entry_events ap topicOf si path xs w1 of (evs, w2) \<Rightarrow> (ev # evs, w2))"

text \<open>The collecting loop: the first error that arrives is returned.\<close>

primrec collect_events ::
  "nat \<Rightarrow> event list \<Rightarrow> DirEntry list \<Rightarrow> FileEntry list \<Rightarrow> (DirEntry list \<times> FileEntry list) result option" where
  "collect_events n [] ds fs = (if length ds + length fs = n then Some (Inr (ds, fs)) else None)"
| "collect_events n (ev # evs) ds fs =
     (case ev of
        DirEvent i \<Rightarrow> collect_events n evs (ds @ [dir_entry i]) fs
      | FileEvent m \<Rightarrow> collect_events n evs ds (fs @ [file_entry m])
      | ErrEvent e \<Rightarrow> Some (Inl e)
      | NoEvent \<Rightarrow> collect_events n evs ds fs)"

definition PublicPodDisLs ::
  "('w, 'f, 'v, 'n, 'k) apienv \<Rightarrow> (string \<Rightarrow> string) \<Rightarrow> (event list \<Rightarrow> event list) \<Rightarrow> ShareInfo \<Rightarrow> string \<Rightarrow> 'w
    \<Rightarrow> (DirEntry list \<times> FileEntry list) result option \<times> 'w" where
  "PublicPodDisLs ap topicOf ord si dirPathToLs w =
     (case public_inode ap si dirPathToLs dirPathToLs w of
        (Inl e, w1) \<Rightarrow> (Some (Inl e), w1)
      | (Inr oi, w1) \<Rightarrow>
          let names = (case oi of None \<Rightarrow> [] | Some i \<Rightarrow> FileOrDirNames i) in
          (case entry_events ap topicOf si dirPathToLs names w1 of (evs, w2) \<Rightarrow> (collect_events (length names) (ord evs) [] [], w2)))"

section \<open>Snapshots\<close>

datatype DirSnapShot = DirSnapShot (ssDir: DirEntry) (ssFileList: "FileMeta list") (ssDirList: "DirSnapShot list")

primrec snapshot_events ::
  "(Inode \<Rightarrow> 'w \<Rightarrow> DirSnapShot result option \<times> 'w) \<Rightarrow> nat \<Rightarrow> event list \<Rightarrow> DirSnapShot list \<Rightarrow> FileMeta list \<Rightarrow> 'w
    \<Rightarrow> (DirSnapShot list \<times> FileMeta list) result option \<times> 'w" where
  "snapshot_events sub n [] ds fs w = (if length ds + length fs = n then Some (Inr (ds, fs)) else None, w)"
| "snapshot_events sub n (ev # evs) ds fs w =
     (case ev of
        DirEvent i \<Rightarrow>
          (case sub i w of
             (None, w1) \<Rightarrow> (None, w1)
           | (Some (Inl e), w1) \<Rightarrow> (Some (Inl e), w1)
           | (Some (Inr s), w1) \<Rightarrow> snapshot_events sub n evs (ds @ [s]) fs w1)
      | FileEvent m \<Rightarrow> snapshot_events sub n evs ds (fs @ [m]) w
      | ErrEvent e \<Rightarrow> (Some (Inl e), w)
      | NoEvent \<Rightarrow> snapshot_events sub n evs ds fs w)"

text \<open>The first argument bounds the depth.\<close>

primrec getSnapShotForDir ::
  "nat \<Rightarrow> ('w, 'f, 'v, 'n, 'k) apienv \<Rightarrow> (event list \<Rightarrow> event list) \<Rightarrow> ShareInfo \<Rightarrow> string \<Rightarrow> Inode \<Rightarrow> 'w
    \<Rightarrow> DirSnapShot result option \<times> 'w" where
  "getSnapShotForDir 0 ap ord si path i w = (Some (Inl (Panic ''stack overflow'')), w)"
| "getSnapShotForDir (Suc n) ap ord si path i w =
     (case entry_events ap (\<lambda>x. x) si path (FileOrDirNames i) w of (evs, w1) \<Rightarrow>
      case snapshot_events (\<lambda>j. getSnapShotForDir n ap ord si (CombinePathAndFile path (dName (iMeta j))) j)
             (length (FileOrDirNames i)) (ord evs) [] [] w1 of
        (None, w2) \<Rightarrow> (None, w2)
      | (Some (Inl e), w2) \<Rightarrow> (Some (Inl e), w2)
      | (Some (Inr (ds, fs)), w2) \<Rightarrow> (Some (Inr (DirSnapShot (dir_entry i) fs ds)), w2))"

definition PublicPodSnapshot ::
  "('w, 'f, 'v, 'n, 'k) apienv \<Rightarrow> (event list \<Rightarrow> event list) \<Rightarrow> ShareInfo \<Rightarrow> string \<Rightarrow> 'w \<Rightarrow> DirSnapShot result option \<times> 'w" where
  "PublicPodSnapshot ap ord si dirPathToLs w =
     (case public_inode ap si dirPathToLs dirPathToLs w of
        (Inl e, w1) \<Rightarrow> (Some (Inl e), w1)
      | (Inr None, w1) \<Rightarrow> (Some (Inl NilDereference), w1)
      | (Inr (Some i), w1) \<Rightarrow> getSnapShotForDir (apDepth ap) ap ord si dirPathToLs i w1)"

section \<open>The marketplace\<close>

text \<open>The manager may be missing.\<close>

definition with_sm ::
  "('w, 'f, 'v, 'n, 'k) apienv \<Rightarrow> (('w, 'n, 'k) submgr \<Rightarrow> UserInfo \<Rightarrow> 'w \<Rightarrow> 'a result \<times> UserInfo \<times> 'w) \<Rightarrow> UserInfo \<Rightarrow> 'w
    \<Rightarrow> 'a result \<times> UserInfo \<times> 'w" where
  "with_sm ap f ui w = (case apSubs ap of None \<Rightarrow> (Inl errNilSubManager, ui, w) | Some sm \<Rightarrow> f sm ui w)"

definition own_name_hash :: "('w, 'f, 'v, 'n, 'k) apienv \<Rightarrow> UserInfo \<Rightarrow> bytes result" where
  "own_name_hash ap ui = GetNameHash (ueEns (apUsers ap)) (uiName ui)"

text \<open>The public key that is published under a name, as bytes.\<close>

definition published_key_of :: "('w, 'f, 'v, 'n, 'k) apienv \<Rightarrow> bytes \<Rightarrow> 'w \<Rightarrow> bytes result \<times> 'w" where
  "published_key_of ap nameHash w =
     (case GetUserInfoFromENS (apUsers ap) nameHash w of
        (Inl e, w1) \<Rightarrow> (Inl e, w1)
      | (Inr (a, None), w1) \<Rightarrow> (Inl NilPointer, w1)
      | (Inr (a, Some pub), w1) \<Rightarrow> (Inr (ueFromECDSAPub (apUsers ap) pub), w1))"

definition API_ListPodInMarketplace ::
  "('w, 'f, 'v, 'n, 'k) apienv \<Rightarrow> Users \<Rightarrow> string \<Rightarrow> string \<Rightarrow> string \<Rightarrow> string \<Rightarrow> string \<Rightarrow> 64 word \<Rightarrow> 16 word \<Rightarrow> bytes \<Rightarrow> 'w
    \<Rightarrow> unit result \<times> Users \<times> 'w" where
  "API_ListPodInMarketplace ap us sessionId podName title desc thumbnail price daysValid category =
     with_user us sessionId (with_sm ap (\<lambda>sm ui w.
       case own_name_hash ap ui of Inl e \<Rightarrow> (Inl e, ui, w) | Inr nameHash \<Rightarrow>
       reading (\<lambda>p. ListPodInMarketplace (ap_pods ap) sm p podName title desc thumbnail price daysValid category nameHash) ui w))"

definition API_ChangePodListStatusInMarketplace ::
  "('w, 'f, 'v, 'n, 'k) apienv \<Rightarrow> Users \<Rightarrow> string \<Rightarrow> bytes \<Rightarrow> bool \<Rightarrow> 'w \<Rightarrow> unit result \<times> Users \<times> 'w" where
  "API_ChangePodListStatusInMarketplace ap us sessionId subHash show_pod =
     with_user us sessionId (with_sm ap (\<lambda>sm. reading (\<lambda>p. PodStatusInMarketplace sm p subHash show_pod)))"

definition API_RequestSubscription ::
  "('w, 'f, 'v, 'n, 'k) apienv \<Rightarrow> Users \<Rightarrow> string \<Rightarrow> bytes \<Rightarrow> 'w \<Rightarrow> unit result \<times> Users \<times> 'w" where
  "API_RequestSubscription ap us sessionId subHash =
     with_user us sessionId (with_sm ap (\<lambda>sm ui w.
       case own_name_hash ap ui of Inl e \<Rightarrow> (Inl e, ui, w) | Inr nameHash \<Rightarrow>
       reading (\<lambda>p. RequestSubscription sm p subHash nameHash) ui w))"

text \<open>An operation that needs the public key of another user.\<close>

definition with_key ::
  "('w, 'f, 'v, 'n, 'k) apienv \<Rightarrow> bytes \<Rightarrow> (bytes \<Rightarrow> Pod \<Rightarrow> 'w \<Rightarrow> 'a result \<times> Pod \<times> 'w) \<Rightarrow> Pod \<Rightarrow> 'w \<Rightarrow> 'a result \<times> Pod \<times> 'w" where
  "with_key ap nameHash f p w =
     (case published_key_of ap nameHash w of (Inl e, w1) \<Rightarrow> (Inl e, p, w1) | (Inr key, w1) \<Rightarrow> f key p w1)"

definition API_ApproveSubscription ::
  "('w, 'f, 'v, 'n, 'k) apienv \<Rightarrow> Users \<Rightarrow> string \<Rightarrow> string \<Rightarrow> bytes \<Rightarrow> bytes \<Rightarrow> 'w \<Rightarrow> unit result \<times> Users \<times> 'w" where
  "API_ApproveSubscription ap us sessionId podName reqHash nameHash =
     with_user us sessionId (with_sm ap (\<lambda>sm. on_pod (with_key ap nameHash (\<lambda>key p.
       ApproveSubscription (ap_pods ap) sm p podName reqHash key))))"

definition API_EncryptSubscription ::
  "('w, 'f, 'v, 'n, 'k) apienv \<Rightarrow> Users \<Rightarrow> string \<Rightarrow> string \<Rightarrow> bytes \<Rightarrow> 'w \<Rightarrow> string result \<times> Users \<times> 'w" where
  "API_EncryptSubscription ap us sessionId podName nameHash =
     with_user us sessionId (with_sm ap (\<lambda>sm. on_pod (with_key ap nameHash (\<lambda>key p.
       EncryptUploadSubscriptionInfo (ap_pods ap) sm p podName key))))"

text \<open>The pod of a sharing is opened and its root directory loaded.\<close>

definition open_subscribed ::
  "('w, 'f, 'v, 'n, 'k) apienv \<Rightarrow> ('w, 'n, 'k) submgr \<Rightarrow> string \<Rightarrow> bytes \<Rightarrow> Pod \<Rightarrow> 'w \<Rightarrow> Info result \<times> Pod \<times> 'w" where
  "open_subscribed ap sm reference key p w =
     (case OpenSubscribedPodFromReference (ap_pods ap) sm p reference key w of
        (Inl e, p1, w1) \<Rightarrow> (Inl e, p1, w1)
      | (Inr i, p1, w1) \<Rightarrow>
          (case AddRootDir (ap_sv ap i) (ap_lb ap) (ap_js ap) (ap_late ap) (inDir i) (inPassword i) w1 of
             (Inl e, d, w2) \<Rightarrow> (Inl e, change_info (inName i) (set_inDir d) p1, w2)
           | (Inr u, d, w2) \<Rightarrow> (Inr (set_inDir d i), change_info (inName i) (set_inDir d) p1, w2)))"

definition API_DecryptAndOpenSubscriptionPod ::
  "('w, 'f, 'v, 'n, 'k) apienv \<Rightarrow> Users \<Rightarrow> string \<Rightarrow> string \<Rightarrow> bytes \<Rightarrow> 'w \<Rightarrow> Info result \<times> Users \<times> 'w" where
  "API_DecryptAndOpenSubscriptionPod ap us sessionId reference sellerNameHash =
     with_user us sessionId (with_sm ap (\<lambda>sm.
       pod_then (with_key ap sellerNameHash (open_subscribed ap sm reference)) (\<lambda>i. AddPodName (inName i))))"

definition API_OpenSubscribedPod ::
  "('w, 'f, 'v, 'n, 'k) apienv \<Rightarrow> Users \<Rightarrow> string \<Rightarrow> bytes \<Rightarrow> string \<Rightarrow> 'w \<Rightarrow> Info result \<times> Users \<times> 'w" where
  "API_OpenSubscribedPod ap us sessionId subHash infoLocation =
     with_user us sessionId (with_sm ap (\<lambda>sm ui w.
       case GetSub sm subHash w of (Inl e, w1) \<Rightarrow> (Inl e, ui, w1) | (Inr sub, w1) \<Rightarrow>
       pod_then (with_key ap (shSellerNameHash sub) (open_subscribed ap sm infoLocation)) (\<lambda>i. AddPodName (''0x'' @ Encode subHash)) ui w1))"

record SubscriptionInfo =
  snSubHash :: bytes
  snPodName :: string
  snPodAddress :: string
  snCategory :: string
  snInfoLocation :: bytes
  snValidTill :: int

definition zero_subscription :: SubscriptionInfo where
  "zero_subscription = \<lparr>snSubHash = replicate 32 0, snPodName = [], snPodAddress = [], snCategory = [], snInfoLocation = [],
     snValidTill = 0\<rparr>"

text \<open>After an error the rest of the slice keeps its zero values, and both are returned.\<close>

primrec subscription_infos ::
  "('w, 'n, 'k) submgr \<Rightarrow> DataHubSubItem list \<Rightarrow> 'w \<Rightarrow> (SubscriptionInfo list \<times> goerror option) \<times> 'w" where
  "subscription_infos sm [] w = (([], None), w)"
| "subscription_infos sm (item # items) w =
     (case Pod_GetSubscribablePodInfo sm (siSubHash item) w of
        (Inl e, w1) \<Rightarrow> ((replicate (Suc (length items)) zero_subscription, Some e), w1)
      | (Inr info, w1) \<Rightarrow>
          (case subscription_infos sm items w1 of
             ((subs, err), w2) \<Rightarrow>
               ((\<lparr>snSubHash = siSubHash item, snPodName = ssPodName info, snPodAddress = ssPodAddress info,
                  snCategory = ssCategory info, snInfoLocation = copy32 (siUnlockKeyLocation item),
                  snValidTill = sint (word_of_int (siValidTill item) :: 64 word)\<rparr> # subs, err), w2)))"

definition API_GetSubscriptions ::
  "('w, 'f, 'v, 'n, 'k) apienv \<Rightarrow> Users \<Rightarrow> string \<Rightarrow> 'w \<Rightarrow> (SubscriptionInfo list \<times> goerror option) result \<times> Users \<times> 'w" where
  "API_GetSubscriptions ap us sessionId =
     with_user us sessionId (with_sm ap (\<lambda>sm ui w.
       case own_name_hash ap ui of Inl e \<Rightarrow> (Inl e, ui, w) | Inr nameHash \<Rightarrow>
       case Pod_GetSubscriptions sm nameHash w of
         (Inl e, w1) \<Rightarrow> (Inl e, ui, w1)
       | (Inr subscriptions, w1) \<Rightarrow> (case subscription_infos sm subscriptions w1 of (x, w2) \<Rightarrow> (Inr x, ui, w2))))"

definition API_GetSubscribablePodInfo ::
  "('w, 'f, 'v, 'n, 'k) apienv \<Rightarrow> Users \<Rightarrow> string \<Rightarrow> bytes \<Rightarrow> 'w \<Rightarrow> SubscriptionItemInfo result \<times> Users \<times> 'w" where
  "API_GetSubscribablePodInfo ap us sessionId subHash =
     with_user us sessionId (with_sm ap (\<lambda>sm. reading (\<lambda>p. SM_GetSubscribablePodInfo sm subHash)))"

definition API_GetSubscribablePods ::
  "('w, 'f, 'v, 'n, 'k) apienv \<Rightarrow> Users \<Rightarrow> string \<Rightarrow> 'w \<Rightarrow> DataHubSub list result \<times> Users \<times> 'w" where
  "API_GetSubscribablePods ap us sessionId = with_user us sessionId (with_sm ap (\<lambda>sm. reading (\<lambda>p. GetMarketplace sm)))"

definition API_GetSubsRequests ::
  "('w, 'f, 'v, 'n, 'k) apienv \<Rightarrow> Users \<Rightarrow> string \<Rightarrow> 'w \<Rightarrow> DataHubSubRequest list result \<times> Users \<times> 'w" where
  "API_GetSubsRequests ap us sessionId = with_user us sessionId (with_sm ap (\<lambda>sm. reading (Pod_GetSubRequests sm)))"

section \<open>Lemmas\<close>

text \<open>A listing returns exactly if every goroutine sends something or an error arrives: a
  directory with a deleted file in it, or a name without a mark, is never listed.\<close>

definition arrives :: "event list \<Rightarrow> bool" where
  "arrives evs \<longleftrightarrow> NoEvent \<notin> set evs \<or> (\<exists>e. ErrEvent e \<in> set evs)"

lemma collect_events_returns:
  "length ds + length fs + length evs = n \<Longrightarrow> collect_events n evs ds fs \<noteq> None \<longleftrightarrow> arrives evs"
proof -
  have short: "collect_events n evs ds fs \<noteq> None \<longleftrightarrow> (\<exists>e. ErrEvent e \<in> set evs)"
    if "length ds + length fs + length evs < n" for ds fs evs
    using that
  proof (induction evs arbitrary: ds fs)
    case (Cons ev evs) then show ?case by (cases ev) auto
  qed simp
  show "length ds + length fs + length evs = n \<Longrightarrow> ?thesis"
  proof (induction evs arbitrary: ds fs)
    case (Cons ev evs)
    then show ?case using short [of ds fs evs] by (cases ev) (auto simp: arrives_def)
  qed (simp add: arrives_def)
qed

end
