(* ===== verification/DfsData.thy ===== *)
theory DfsData
  imports DfsPods
begin

text \<open>
  The rest of the API, pkg/dfs: kv_api.go, doc_api.go, group_api.go, act_api.go,
  user_api.go and Close of api.go.  KVBatchPut and KVBatchWrite of the API are not
  modelled: they work on a batch whose table need not be that of an open pod any more;
  what they call is in the theory Batch.  A batch of documents is taken to belong to the
  store of the open pod.
\<close>

section \<open>Tables\<close>

definition on_kv :: "(KeyValue \<Rightarrow> 'w \<Rightarrow> 'a result \<times> KeyValue \<times> 'w) \<Rightarrow> Info \<Rightarrow> 'w \<Rightarrow> 'a result \<times> Info \<times> 'w" where
  "on_kv f i w = (case f (inKV i) w of (r, kv, w1) \<Rightarrow> (r, i\<lparr>inKV := kv\<rparr>, w1))"

definition keeps :: "('s \<Rightarrow> 'w \<Rightarrow> 'a result \<times> 'w) \<Rightarrow> 's \<Rightarrow> 'w \<Rightarrow> 'a result \<times> 's \<times> 'w" where
  "keeps f s w = (case f s w of (r, w1) \<Rightarrow> (r, s, w1))"

definition with_pod ::
  "('w, 'f, 'v, 'n, 'k) apienv \<Rightarrow> Users \<Rightarrow> string \<Rightarrow> string \<Rightarrow> (Info \<Rightarrow> 'w \<Rightarrow> 'a result \<times> Info \<times> 'w) \<Rightarrow> 'w \<Rightarrow> 'a result \<times> Users \<times> 'w" where
  "with_pod ap us sessionId podName f = with_user us sessionId (pod_or_group (ap_pods ap) podName False f)"

definition API_KVCreate ::
  "('w, 'f, 'v, 'n, 'k) apienv \<Rightarrow> Users \<Rightarrow> string \<Rightarrow> string \<Rightarrow> string \<Rightarrow> IndexType \<Rightarrow> 'w \<Rightarrow> unit result \<times> Users \<times> 'w" where
  "API_KVCreate ap us sessionId podName name indexType =
     with_pod ap us sessionId podName (\<lambda>i.
       on_kv (keeps (\<lambda>kv. CreateKVTable (ap_sv ap i) (peTables (ap_pods ap)) kv name (inPassword i) indexType)) i)"

definition API_KVDelete ::
  "('w, 'f, 'v, 'n, 'k) apienv \<Rightarrow> Users \<Rightarrow> string \<Rightarrow> string \<Rightarrow> string \<Rightarrow> 'w \<Rightarrow> unit result \<times> Users \<times> 'w" where
  "API_KVDelete ap us sessionId podName name =
     with_pod ap us sessionId podName (\<lambda>i.
       on_kv (\<lambda>kv. DeleteKVTable (ap_sv ap i) (peTables (ap_pods ap)) kv name (inPassword i)) i)"

definition API_KVOpen ::
  "('w, 'f, 'v, 'n, 'k) apienv \<Rightarrow> Users \<Rightarrow> string \<Rightarrow> string \<Rightarrow> string \<Rightarrow> 'w \<Rightarrow> unit result \<times> Users \<times> 'w" where
  "API_KVOpen ap us sessionId podName name =
     with_pod ap us sessionId podName (\<lambda>i. on_kv (\<lambda>kv. OpenKVTable (ap_sv ap i) kv name (inPassword i)) i)"

definition API_KVList ::
  "('w, 'f, 'v, 'n, 'k) apienv \<Rightarrow> Users \<Rightarrow> string \<Rightarrow> string \<Rightarrow> 'w \<Rightarrow> kvtables result \<times> Users \<times> 'w" where
  "API_KVList ap us sessionId podName =
     with_pod ap us sessionId podName (\<lambda>i. on_kv (keeps (\<lambda>kv. LoadKVTables (ap_sv ap i) kv (inPassword i))) i)"

definition API_KVCount ::
  "('w, 'f, 'v, 'n, 'k) apienv \<Rightarrow> Users \<Rightarrow> string \<Rightarrow> string \<Rightarrow> string \<Rightarrow> 'w \<Rightarrow> (64 word \<times> string) result \<times> Users \<times> 'w" where
  "API_KVCount ap us sessionId podName name =
     with_pod ap us sessionId podName (on_kv (\<lambda>kv w. (KVCount kv name, kv, w)))"

definition API_KVPut ::
  "('w, 'f, 'v, 'n, 'k) apienv \<Rightarrow> Users \<Rightarrow> string \<Rightarrow> string \<Rightarrow> string \<Rightarrow> string \<Rightarrow> bytes \<Rightarrow> 'w \<Rightarrow> unit result \<times> Users \<times> 'w" where
  "API_KVPut ap us sessionId podName name key val =
     with_pod ap us sessionId podName (\<lambda>i. on_kv (\<lambda>kv. KVPut (apFloats ap) (ap_sv ap i) kv name key val) i)"

definition API_KVGet ::
  "('w, 'f, 'v, 'n, 'k) apienv \<Rightarrow> Users \<Rightarrow> string \<Rightarrow> string \<Rightarrow> string \<Rightarrow> string \<Rightarrow> 'w \<Rightarrow> (string list \<times> content) result \<times> Users \<times> 'w" where
  "API_KVGet ap us sessionId podName name key =
     with_pod ap us sessionId podName (\<lambda>i. on_kv (keeps (\<lambda>kv. KVGet (ap_sv ap i) kv name key)) i)"

definition API_KVDel ::
  "('w, 'f, 'v, 'n, 'k) apienv \<Rightarrow> Users \<Rightarrow> string \<Rightarrow> string \<Rightarrow> string \<Rightarrow> string \<Rightarrow> 'w \<Rightarrow> bytes result \<times> Users \<times> 'w" where
  "API_KVDel ap us sessionId podName name key =
     with_pod ap us sessionId podName (\<lambda>i. on_kv (\<lambda>kv. KVDelete (ap_sv ap i) kv name key) i)"

definition API_KVBatch ::
  "('w, 'f, 'v, 'n, 'k) apienv \<Rightarrow> Users \<Rightarrow> string \<Rightarrow> string \<Rightarrow> string \<Rightarrow> string list \<Rightarrow> 'w \<Rightarrow> (nat \<times> Batch) result \<times> Users \<times> 'w" where
  "API_KVBatch ap us sessionId podName name columns =
     with_pod ap us sessionId podName (\<lambda>i. on_kv (\<lambda>kv w. case KVBatch (ap_sv ap i) kv name columns w of (r, kv1) \<Rightarrow> (r, kv1, w)) i)"

definition API_KVSeek ::
  "('w, 'f, 'v, 'n, 'k) apienv \<Rightarrow> Users \<Rightarrow> string \<Rightarrow> string \<Rightarrow> string \<Rightarrow> string \<Rightarrow> string \<Rightarrow> int \<Rightarrow> 'w \<Rightarrow> Iterator result \<times> Users \<times> 'w" where
  "API_KVSeek ap us sessionId podName name start endp limit =
     with_pod ap us sessionId podName (\<lambda>i. on_kv (\<lambda>kv. KVSeek (apFloats ap) (ap_sv ap i) kv name start endp limit) i)"

definition API_KVGetNext ::
  "('w, 'f, 'v, 'n, 'k) apienv \<Rightarrow> Users \<Rightarrow> string \<Rightarrow> string \<Rightarrow> string \<Rightarrow> 'w \<Rightarrow> (string list \<times> string \<times> bytes) result \<times> Users \<times> 'w" where
  "API_KVGetNext ap us sessionId podName name =
     with_pod ap us sessionId podName (\<lambda>i. on_kv (\<lambda>kv. KVGetNext (apSteps ap) (ap_sv ap i) kv name) i)"

section \<open>Documents\<close>

abbreviation ap_docs :: "('w, 'f, 'v, 'n, 'k) apienv \<Rightarrow> ('f, 'v) doclib" where "ap_docs ap \<equiv> peDocs (ap_pods ap)"

definition on_doc :: "(DocStore \<Rightarrow> 'w \<Rightarrow> 'a result \<times> DocStore \<times> 'w) \<Rightarrow> Info \<Rightarrow> 'w \<Rightarrow> 'a result \<times> Info \<times> 'w" where
  "on_doc f i w = (case f (inDoc i) w of (r, ds, w1) \<Rightarrow> (r, i\<lparr>inDoc := ds\<rparr>, w1))"

definition API_DocCreate ::
  "('w, 'f, 'v, 'n, 'k) apienv \<Rightarrow> Users \<Rightarrow> string \<Rightarrow> string \<Rightarrow> string \<Rightarrow> (string \<times> IndexType) list \<Rightarrow> bool \<Rightarrow> 'w
    \<Rightarrow> unit result \<times> Users \<times> 'w" where
  "API_DocCreate ap us sessionId podName name indexes mu =
     with_pod ap us sessionId podName (\<lambda>i.
       on_doc (keeps (\<lambda>ds. CreateDocumentDB (ap_docs ap) (ap_sv ap i) (peDBs (ap_pods ap)) ds name (inPassword i) indexes mu)) i)"

definition API_DocOpen ::
  "('w, 'f, 'v, 'n, 'k) apienv \<Rightarrow> Users \<Rightarrow> string \<Rightarrow> string \<Rightarrow> string \<Rightarrow> 'w \<Rightarrow> unit result \<times> Users \<times> 'w" where
  "API_DocOpen ap us sessionId podName name =
     with_pod ap us sessionId podName (\<lambda>i. on_doc (\<lambda>ds. OpenDocumentDB (ap_docs ap) (ap_sv ap i) ds name (inPassword i)) i)"

definition API_IsDBOpened ::
  "('w, 'f, 'v, 'n, 'k) apienv \<Rightarrow> Users \<Rightarrow> string \<Rightarrow> string \<Rightarrow> string \<Rightarrow> 'w \<Rightarrow> bool result \<times> Users \<times> 'w" where
  "API_IsDBOpened ap us sessionId podName name =
     with_pod ap us sessionId podName (on_doc (\<lambda>ds w. (Inr (IsDBOpened ds name), ds, w)))"

definition API_DocDelete ::
  "('w, 'f, 'v, 'n, 'k) apienv \<Rightarrow> Users \<Rightarrow> string \<Rightarrow> string \<Rightarrow> string \<Rightarrow> 'w \<Rightarrow> unit result \<times> Users \<times> 'w" where
  "API_DocDelete ap us sessionId podName name =
     with_pod ap us sessionId podName (\<lambda>i.
       on_doc (\<lambda>ds. DeleteDocumentDB (ap_docs ap) (ap_sv ap i) (peDBs (ap_pods ap)) ds name (inPassword i)) i)"

definition API_DocList ::
  "('w, 'f, 'v, 'n, 'k) apienv \<Rightarrow> Users \<Rightarrow> string \<Rightarrow> string \<Rightarrow> 'w \<Rightarrow> (string \<times> DBSchema) list result \<times> Users \<times> 'w" where
  "API_DocList ap us sessionId podName =
     with_pod ap us sessionId podName (\<lambda>i. on_doc (keeps (\<lambda>ds. LoadDocumentDBSchemas (ap_docs ap) (ap_sv ap i) ds (inPassword i))) i)"

definition API_DocCount ::
  "('w, 'f, 'v, 'n, 'k) apienv \<Rightarrow> Users \<Rightarrow> string \<Rightarrow> string \<Rightarrow> string \<Rightarrow> string \<Rightarrow> 'w \<Rightarrow> (64 word) result \<times> Users \<times> 'w" where
  "API_DocCount ap us sessionId podName name expr =
     with_pod ap us sessionId podName (\<lambda>i.
       on_doc (\<lambda>ds. Doc_Count (apSteps ap) (apSteps ap) (ap_docs ap) (apFloats ap) (ap_sv ap i) ds name expr) i)"

definition API_DocPut ::
  "('w, 'f, 'v, 'n, 'k) apienv \<Rightarrow> Users \<Rightarrow> string \<Rightarrow> string \<Rightarrow> string \<Rightarrow> bytes \<Rightarrow> 'w \<Rightarrow> unit result \<times> Users \<times> 'w" where
  "API_DocPut ap us sessionId podName name val =
     with_pod ap us sessionId podName (\<lambda>i.
       on_doc (\<lambda>ds. Doc_Put (ap_docs ap) (apFloats ap) (ap_sv ap i) (apFields ap) ds name val) i)"

definition API_DocGet ::
  "('w, 'f, 'v, 'n, 'k) apienv \<Rightarrow> Users \<Rightarrow> string \<Rightarrow> string \<Rightarrow> string \<Rightarrow> string \<Rightarrow> 'w \<Rightarrow> bytes result \<times> Users \<times> 'w" where
  "API_DocGet ap us sessionId podName name did =
     with_pod ap us sessionId podName (\<lambda>i.
       on_file (\<lambda>f. Doc_Get (apSteps ap) (ap_sv ap i) (ap_lb ap) (inDoc i) f name did (inPassword i)) i)"

definition API_DocDel ::
  "('w, 'f, 'v, 'n, 'k) apienv \<Rightarrow> Users \<Rightarrow> string \<Rightarrow> string \<Rightarrow> string \<Rightarrow> string \<Rightarrow> 'w \<Rightarrow> unit result \<times> Users \<times> 'w" where
  "API_DocDel ap us sessionId podName name did =
     with_pod ap us sessionId podName (\<lambda>i.
       on_doc (\<lambda>ds. Doc_Del (ap_docs ap) (apFloats ap) (ap_sv ap i) (apFields ap) ds name did) i)"

definition API_DocFind ::
  "('w, 'f, 'v, 'n, 'k) apienv \<Rightarrow> Users \<Rightarrow> string \<Rightarrow> string \<Rightarrow> string \<Rightarrow> string \<Rightarrow> int \<Rightarrow> 'w \<Rightarrow> (bytes list) result \<times> Users \<times> 'w" where
  "API_DocFind ap us sessionId podName name expr limit =
     with_pod ap us sessionId podName (\<lambda>i.
       on_file (\<lambda>f. Doc_Find (apSteps ap) (apSteps ap) (ap_docs ap) (apFloats ap) (ap_sv ap i) (ap_lb ap) (inDoc i) f name expr
                      (inPassword i) limit) i)"

definition API_DocBatch ::
  "('w, 'f, 'v, 'n, 'k) apienv \<Rightarrow> Users \<Rightarrow> string \<Rightarrow> string \<Rightarrow> string \<Rightarrow> 'w \<Rightarrow> DocBatch result \<times> Users \<times> 'w" where
  "API_DocBatch ap us sessionId podName name =
     with_pod ap us sessionId podName (\<lambda>i.
       on_file (\<lambda>f. CreateDocBatch (apSteps ap) (apSteps ap) (ap_docs ap) (apFloats ap) (ap_sv ap i) (ap_lb ap) (inDoc i) f name
                      (inPassword i)) i)"

text \<open>The batch is changed in place; it is part of the result.\<close>

definition on_batch ::
  "(DocBatch \<times> DocStore \<Rightarrow> 'w \<Rightarrow> unit result \<times> (DocBatch \<times> DocStore) \<times> 'w) \<Rightarrow> DocBatch \<Rightarrow> Info \<Rightarrow> 'w
    \<Rightarrow> (unit result \<times> DocBatch) result \<times> Info \<times> 'w" where
  "on_batch f b i w = (case f (b, inDoc i) w of (r, (b1, ds), w1) \<Rightarrow> (Inr (r, b1), i\<lparr>inDoc := ds\<rparr>, w1))"

definition API_DocBatchPut ::
  "('w, 'f, 'v, 'n, 'k) apienv \<Rightarrow> Users \<Rightarrow> string \<Rightarrow> string \<Rightarrow> bytes \<Rightarrow> DocBatch \<Rightarrow> 'w \<Rightarrow> (unit result \<times> DocBatch) result \<times> Users \<times> 'w" where
  "API_DocBatchPut ap us sessionId podName dat docBatch =
     with_pod ap us sessionId podName (\<lambda>i.
       on_batch (DocBatchPut (ap_docs ap) (apFloats ap) (ap_sv ap i) (apFields ap) dat 0) docBatch i)"

definition API_DocBatchWrite ::
  "('w, 'f, 'v, 'n, 'k) apienv \<Rightarrow> Users \<Rightarrow> string \<Rightarrow> string \<Rightarrow> DocBatch \<Rightarrow> 'w \<Rightarrow> (unit result \<times> DocBatch) result \<times> Users \<times> 'w" where
  "API_DocBatchWrite ap us sessionId podName docBatch =
     with_pod ap us sessionId podName (\<lambda>i. on_batch (DocBatchWrite (apSteps ap) (ap_sv ap i) (apFields ap) []) docBatch i)"

definition API_DocIndexJson ::
  "('w, 'f, 'v, 'n, 'k) apienv \<Rightarrow> Users \<Rightarrow> string \<Rightarrow> string \<Rightarrow> string \<Rightarrow> string \<Rightarrow> 'w \<Rightarrow> unit result \<times> Users \<times> 'w" where
  "API_DocIndexJson ap us sessionId podName name podFileWithPath =
     with_pod ap us sessionId podName (info_bind (file_present ap podFileWithPath) (\<lambda>present i w.
       if \<not> present then (Inl ErrFileNotPresent, i, w) else
       (case DocFileIndex (apSteps ap) (apSteps ap) (ap_docs ap) (apFloats ap) (ap_sv ap i) (ap_lb ap) (apFields ap) (inDoc i)
               (drFile (inDir i)) name podFileWithPath (inPassword i) w of
          (r, ds, f, w1) \<Rightarrow> (r, set_inDir (set_drFile f (inDir i)) (i\<lparr>inDoc := ds\<rparr>), w1))))"

section \<open>Groups\<close>

definition API_CreateGroup :: "('w, 'f, 'v, 'n, 'k) apienv \<Rightarrow> Users \<Rightarrow> string \<Rightarrow> string \<Rightarrow> 'w \<Rightarrow> Info result \<times> Users \<times> 'w" where
  "API_CreateGroup ap us sessionId groupName =
     with_user us sessionId (on_group (\<lambda>g. CreateGroup (ap_pods ap) (apGroups ap) g (apSecret ap) (apPassword ap) groupName))"

definition API_RemoveGroup :: "('w, 'f, 'v, 'n, 'k) apienv \<Rightarrow> Users \<Rightarrow> string \<Rightarrow> string \<Rightarrow> 'w \<Rightarrow> unit result \<times> Users \<times> 'w" where
  "API_RemoveGroup ap us sessionId groupName =
     with_user us sessionId (on_group (\<lambda>g. RemoveGroup (ap_pods ap) (apGroups ap) g groupName))"

definition API_RemoveSharedGroup :: "('w, 'f, 'v, 'n, 'k) apienv \<Rightarrow> Users \<Rightarrow> string \<Rightarrow> string \<Rightarrow> 'w \<Rightarrow> unit result \<times> Users \<times> 'w" where
  "API_RemoveSharedGroup ap us sessionId groupName =
     with_user us sessionId (on_group (\<lambda>g. RemoveSharedGroup (ap_pods ap) g groupName))"

definition API_ListGroups :: "('w, 'f, 'v, 'n, 'k) apienv \<Rightarrow> Users \<Rightarrow> string \<Rightarrow> 'w \<Rightarrow> GroupList result \<times> Users \<times> 'w" where
  "API_ListGroups ap us sessionId = with_user us sessionId (on_group (keeps (load_groups (ap_pods ap))))"

definition API_OpenGroup :: "('w, 'f, 'v, 'n, 'k) apienv \<Rightarrow> Users \<Rightarrow> string \<Rightarrow> string \<Rightarrow> 'w \<Rightarrow> Info result \<times> Users \<times> 'w" where
  "API_OpenGroup ap us sessionId groupName =
     with_user us sessionId (on_group (\<lambda>g. OpenGroup (ap_pods ap) (apGroups ap) g groupName))"

definition API_CloseGroup :: "('w, 'f, 'v, 'n, 'k) apienv \<Rightarrow> Users \<Rightarrow> string \<Rightarrow> string \<Rightarrow> 'w \<Rightarrow> unit result \<times> Users \<times> 'w" where
  "API_CloseGroup ap us sessionId groupName = with_user us sessionId (on_group (\<lambda>g. CloseGroup (ap_pods ap) g groupName))"

text \<open>The address and the public key behind the name of a user.\<close>

definition user_from_ens ::
  "('w, 'f, 'v, 'n, 'k) apienv \<Rightarrow> string \<Rightarrow> 'w \<Rightarrow> (string \<times> (nat \<times> nat) option) result \<times> 'w" where
  "user_from_ens ap username w =
     (case GetNameHash (ueEns (apUsers ap)) username of Inl e \<Rightarrow> (Inl e, w) | Inr nh \<Rightarrow>
      case GetUserInfoFromENS (apUsers ap) nh w of
        (Inl e, w1) \<Rightarrow> (Inl e, w1) | (Inr (addr, pub), w1) \<Rightarrow> (Inr (glHex (apGroups ap) addr, pub), w1))"

definition on_member ::
  "('w, 'f, 'v, 'n, 'k) apienv \<Rightarrow> string \<Rightarrow> (string \<Rightarrow> (nat \<times> nat) option \<Rightarrow> Group \<Rightarrow> 'w \<Rightarrow> 'a result \<times> Group \<times> 'w) \<Rightarrow> Group \<Rightarrow> 'w
    \<Rightarrow> 'a result \<times> Group \<times> 'w" where
  "on_member ap username f g w =
     (case user_from_ens ap username w of (Inl e, w1) \<Rightarrow> (Inl e, g, w1) | (Inr (addr, pub), w1) \<Rightarrow> f addr pub g w1)"

definition API_AddMember ::
  "('w, 'f, 'v, 'n, 'k) apienv \<Rightarrow> Users \<Rightarrow> string \<Rightarrow> string \<Rightarrow> string \<Rightarrow> 8 word \<Rightarrow> 'w \<Rightarrow> bytes result \<times> Users \<times> 'w" where
  "API_AddMember ap us sessionId groupName username permission =
     with_user us sessionId (on_group (on_member ap username (\<lambda>addr pub g w.
       case pub of None \<Rightarrow> (Inl NilPointer, g, w) | Some k \<Rightarrow>
       Group_AddMember (ap_pods ap) (apGroups ap) g groupName addr (ueFromECDSAPub (apUsers ap) k) permission w)))"

definition API_AcceptGroupInvite :: "('w, 'f, 'v, 'n, 'k) apienv \<Rightarrow> Users \<Rightarrow> string \<Rightarrow> bytes \<Rightarrow> 'w \<Rightarrow> unit result \<times> Users \<times> 'w" where
  "API_AcceptGroupInvite ap us sessionId ref =
     with_user us sessionId (on_group (\<lambda>g. AcceptGroupInvite (ap_pods ap) (apGroups ap) g ref))"

definition API_RemoveMember ::
  "('w, 'f, 'v, 'n, 'k) apienv \<Rightarrow> Users \<Rightarrow> string \<Rightarrow> string \<Rightarrow> string \<Rightarrow> 'w \<Rightarrow> unit result \<times> Users \<times> 'w" where
  "API_RemoveMember ap us sessionId groupName username =
     with_user us sessionId (on_group (on_member ap username (\<lambda>addr pub g. Group_RemoveMember (ap_pods ap) (apGroups ap) g groupName addr)))"

definition API_UpdatePermission ::
  "('w, 'f, 'v, 'n, 'k) apienv \<Rightarrow> Users \<Rightarrow> string \<Rightarrow> string \<Rightarrow> string \<Rightarrow> 8 word \<Rightarrow> 'w \<Rightarrow> unit result \<times> Users \<times> 'w" where
  "API_UpdatePermission ap us sessionId groupName username permission =
     with_user us sessionId (on_group (on_member ap username (\<lambda>addr pub g.
       Group_UpdatePermission (ap_pods ap) (apGroups ap) g groupName addr permission)))"

definition API_GetPermission :: "('w, 'f, 'v, 'n, 'k) apienv \<Rightarrow> Users \<Rightarrow> string \<Rightarrow> string \<Rightarrow> 'w \<Rightarrow> 8 word result \<times> Users \<times> 'w" where
  "API_GetPermission ap us sessionId groupName =
     with_user us sessionId (on_group (\<lambda>g. Group_GetPermission (ap_pods ap) (apGroups ap) g groupName))"

definition API_GetGroupMembers :: "('w, 'f, 'v, 'n, 'k) apienv \<Rightarrow> Users \<Rightarrow> string \<Rightarrow> string \<Rightarrow> 'w \<Rightarrow> permissions result \<times> Users \<times> 'w" where
  "API_GetGroupMembers ap us sessionId groupName =
     with_user us sessionId (on_group (\<lambda>g. Group_GetGroupMembers (ap_pods ap) (apGroups ap) g groupName))"

section \<open>Access control lists of pods\<close>

text \<open>A light user has no list: the methods of ACT dereference nil, once the name of the
  ACT has been checked.\<close>

definition with_list :: "(ACT \<Rightarrow> 'w \<Rightarrow> 'a result \<times> 'w) \<Rightarrow> UserInfo \<Rightarrow> 'w \<Rightarrow> 'a result \<times> UserInfo \<times> 'w" where
  "with_list f ui w = (case uiACT ui of None \<Rightarrow> (Inl NilPointer, ui, w) | Some t \<Rightarrow> (case f t w of (r, w1) \<Rightarrow> (r, ui, w1)))"

definition named_list :: "string \<Rightarrow> (ACT \<Rightarrow> 'w \<Rightarrow> 'a result \<times> 'w) \<Rightarrow> UserInfo \<Rightarrow> 'w \<Rightarrow> 'a result \<times> UserInfo \<times> 'w" where
  "named_list actName f ui w = (if actName = [] then (Inl (Errorf ''act name is required''), ui, w) else with_list f ui w)"

definition API_CreateGranteePublicKey ::
  "('w, 'f, 'v, 'n, 'k) apienv \<Rightarrow> Users \<Rightarrow> string \<Rightarrow> string \<Rightarrow> bytes option \<Rightarrow> 'w \<Rightarrow> Act result \<times> Users \<times> 'w" where
  "API_CreateGranteePublicKey ap us sessionId actName publicKey =
     with_user us sessionId (named_list actName (\<lambda>t. CreateUpdateACT (ap_pods ap) (apActs ap) t actName publicKey None))"

definition API_GrantRevokeGranteePublicKey ::
  "('w, 'f, 'v, 'n, 'k) apienv \<Rightarrow> Users \<Rightarrow> string \<Rightarrow> string \<Rightarrow> bytes option \<Rightarrow> bytes option \<Rightarrow> 'w \<Rightarrow> Act result \<times> Users \<times> 'w" where
  "API_GrantRevokeGranteePublicKey ap us sessionId actName publicKeyGrant publicKeyRevoke =
     with_user us sessionId (named_list actName (\<lambda>t.
       CreateUpdateACT (ap_pods ap) (apActs ap) t actName publicKeyGrant publicKeyRevoke))"

definition API_ListGrantees ::
  "('w, 'f, 'v, 'n, 'k) apienv \<Rightarrow> Users \<Rightarrow> string \<Rightarrow> string \<Rightarrow> 'w \<Rightarrow> (string list) result \<times> Users \<times> 'w" where
  "API_ListGrantees ap us sessionId actName =
     with_user us sessionId (named_list actName (\<lambda>t. GetGrantees (ap_pods ap) (apActs ap) t actName))"

definition API_ACTPodShare ::
  "('w, 'f, 'v, 'n, 'k) apienv \<Rightarrow> Users \<Rightarrow> string \<Rightarrow> string \<Rightarrow> string \<Rightarrow> 'w \<Rightarrow> ActContent result \<times> Users \<times> 'w" where
  "API_ACTPodShare ap us sessionId podName actName =
     with_user us sessionId (\<lambda>ui w.
       case on_pod (\<lambda>p. PodShare (ap_pods ap) p podName []) ui w of (Inl e, ui1, w1) \<Rightarrow> (Inl e, ui1, w1) | (Inr address, ui1, w1) \<Rightarrow>
       case parse_address address of Inl e \<Rightarrow> (Inl e, ui1, w1) | Inr addr \<Rightarrow>
       named_list actName (\<lambda>t. GrantAccess (ap_pods ap) (apActs ap) t actName addr) ui1 w1)"

definition API_OpenACTPod :: "('w, 'f, 'v, 'n, 'k) apienv \<Rightarrow> Users \<Rightarrow> string \<Rightarrow> string \<Rightarrow> 'w \<Rightarrow> unit result \<times> Users \<times> 'w" where
  "API_OpenACTPod ap us sessionId actName =
     with_user us sessionId (\<lambda>ui w.
       case named_list actName (\<lambda>t. GetPodAccess (ap_pods ap) (apActs ap) t actName) ui w of
         (Inl e, ui1, w1) \<Rightarrow> (Inl e, ui1, w1)
       | (Inr addr, ui1, w1) \<Rightarrow>
           on_pod (\<lambda>p w. case ReceivePodInfo (ap_pods ap) p addr w of
              (Inl e, w2) \<Rightarrow> (Inl e, p, w2)
            | (Inr info, w2) \<Rightarrow> (case OpenActPod (ap_pods ap) p info actName of (i, p1) \<Rightarrow> (Inr (), p1, w2))) ui1 w1)"

definition API_GetACTs :: "('w, 'f, 'v, 'n, 'k) apienv \<Rightarrow> Users \<Rightarrow> string \<Rightarrow> 'w \<Rightarrow> actlist result \<times> Users \<times> 'w" where
  "API_GetACTs ap us sessionId = with_user us sessionId (with_list (GetList (ap_pods ap) (apActs ap)))"

definition API_SaveACTPod ::
  "('w, 'f, 'v, 'n, 'k) apienv \<Rightarrow> Users \<Rightarrow> string \<Rightarrow> string \<Rightarrow> ActContent \<Rightarrow> 'w \<Rightarrow> unit result \<times> Users \<times> 'w" where
  "API_SaveACTPod ap us sessionId actName c =
     with_user us sessionId (named_list actName (\<lambda>t. SaveGrantedPod (ap_pods ap) (apActs ap) t actName c))"

definition API_GetACTContents ::
  "('w, 'f, 'v, 'n, 'k) apienv \<Rightarrow> Users \<Rightarrow> string \<Rightarrow> string \<Rightarrow> 'w \<Rightarrow> (ActContent list) result \<times> Users \<times> 'w" where
  "API_GetACTContents ap us sessionId actName =
     with_user us sessionId (named_list actName (\<lambda>t. GetContentList (ap_pods ap) (apActs ap) t actName))"

section \<open>Users\<close>

definition API_CreateUserV2 ::
  "('w, 'f, 'v, 'n, 'k) apienv \<Rightarrow> Users \<Rightarrow> string \<Rightarrow> string \<Rightarrow> string \<Rightarrow> string \<Rightarrow> 'w \<Rightarrow> SignupResponse option \<times> unit result \<times> Users \<times> 'w" where
  "API_CreateUserV2 ap = CreateNewUserV2 (apUsers ap)"

definition API_LoginUserV2 ::
  "('w, 'f, 'v, 'n, 'k) apienv \<Rightarrow> Users \<Rightarrow> string \<Rightarrow> string \<Rightarrow> string \<Rightarrow> 'w \<Rightarrow> LoginResponse result \<times> Users \<times> 'w" where
  "API_LoginUserV2 ap = LoginUserV2 (apUsers ap)"

definition API_LoginUserWithSignature ::
  "('w, 'f, 'v, 'n, 'k) apienv \<Rightarrow> Users \<Rightarrow> string \<Rightarrow> string \<Rightarrow> string \<Rightarrow> LoginResponse result \<times> Users" where
  "API_LoginUserWithSignature ap = LoginUserWithSignature (apUsers ap)"

definition API_LoadLiteUser ::
  "('w, 'f, 'v, 'n, 'k) apienv \<Rightarrow> Users \<Rightarrow> string \<Rightarrow> string \<Rightarrow> string \<Rightarrow> (string \<times> string \<times> UserInfo) result \<times> Users" where
  "API_LoadLiteUser ap = LoadLiteUser (apUsers ap)"

text \<open>apPods: the order in which the range loop over the open pods visits them.  An error
  of closing the pods is only logged.\<close>

definition API_LogoutUser :: "('w, 'f, 'v, 'n, 'k) apienv \<Rightarrow> Users \<Rightarrow> string \<Rightarrow> 'w \<Rightarrow> unit result \<times> Users \<times> 'w" where
  "API_LogoutUser ap us sessionId w =
     (case GetLoggedInUserInfo us sessionId of
        None \<Rightarrow> (Inl ErrUserNotLoggedIn, us, w)
      | Some ui \<Rightarrow>
          (case CloseAllPods (ap_pods ap) (apPods ap us sessionId) (uiPod ui) w of (r, p1, w1) \<Rightarrow>
           let us1 = us\<lparr>userMap := (userMap us)(sessionId \<mapsto> ui\<lparr>uiPod := p1\<rparr>)\<rparr> in
           if (case r of Inl e \<Rightarrow> panicking e | _ \<Rightarrow> False) then (r, us1, w1) else
           (case peCommit (ap_pods ap) (acUser (pdAccount p1)) w1 of (c, w2) \<Rightarrow> Users_LogoutUser (apUsers ap) us1 sessionId w2)))"

definition API_DeleteUserV2 :: "('w, 'f, 'v, 'n, 'k) apienv \<Rightarrow> Users \<Rightarrow> string \<Rightarrow> string \<Rightarrow> 'w \<Rightarrow> unit result \<times> Users \<times> 'w" where
  "API_DeleteUserV2 ap us passPhrase sessionId w =
     (case GetLoggedInUserInfo us sessionId of
        None \<Rightarrow> (Inl ErrUserNotLoggedIn, us, w)
      | Some ui \<Rightarrow> Users_DeleteUserV2 (apUsers ap) us (uiName ui) passPhrase sessionId ui w)"

definition API_IsUserNameAvailableV2 :: "('w, 'f, 'v, 'n, 'k) apienv \<Rightarrow> string \<Rightarrow> 'w \<Rightarrow> bool \<times> 'w" where
  "API_IsUserNameAvailableV2 ap = IsUsernameAvailableV2 (apUsers ap)"

definition API_IsUserLoggedIn :: "Users \<Rightarrow> string \<Rightarrow> bool" where
  "API_IsUserLoggedIn us userName = isUserNameInMap us userName"

definition API_GetUserStat :: "('w, 'f, 'v, 'n, 'k) apienv \<Rightarrow> Users \<Rightarrow> string \<Rightarrow> 'w \<Rightarrow> (string \<times> string) result \<times> Users \<times> 'w" where
  "API_GetUserStat ap us sessionId =
     with_user us sessionId (\<lambda>ui w. case Users_GetUserStat (apUsers ap) ui w of (r, w1) \<Rightarrow> (r, ui, w1))"

definition API_ConnectPortableAccountWithWallet ::
  "('w, 'f, 'v, 'n, 'k) apienv \<Rightarrow> string \<Rightarrow> string \<Rightarrow> string \<Rightarrow> string \<Rightarrow> 'w \<Rightarrow> unit result \<times> 'w" where
  "API_ConnectPortableAccountWithWallet ap = ConnectWallet (apUsers ap)"

definition API_LoginWithWallet ::
  "('w, 'f, 'v, 'n, 'k) apienv \<Rightarrow> Users \<Rightarrow> string \<Rightarrow> string \<Rightarrow> string \<Rightarrow> 'w \<Rightarrow> (UserInfo \<times> string) result \<times> Users \<times> 'w" where
  "API_LoginWithWallet ap = LoginWithWallet (apUsers ap)"

definition API_GetNameHash :: "('w, 'f, 'v, 'n, 'k) apienv \<Rightarrow> Users \<Rightarrow> string \<Rightarrow> string \<Rightarrow> bytes result" where
  "API_GetNameHash ap us sessionId username =
     (case GetLoggedInUserInfo us sessionId of
        None \<Rightarrow> Inl ErrUserNotLoggedIn | Some ui \<Rightarrow> GetNameHash (ueEns (apUsers ap)) username)"

text \<open>Close logs every session out, in the order of the range loop; an error is only logged.\<close>

primrec API_Close :: "('w, 'f, 'v, 'n, 'k) apienv \<Rightarrow> string list \<Rightarrow> Users \<Rightarrow> 'w \<Rightarrow> Users \<times> 'w" where
  "API_Close ap [] us w = (us, w)"
| "API_Close ap (sessionId # sessions) us w =
     (case API_LogoutUser ap us sessionId w of (r, us1, w1) \<Rightarrow> API_Close ap sessions us1 w1)"

end
