(* ===== verification/Sessions.thy ===== *)
theory Sessions
  imports DfsData
begin

text \<open>
  The API as a transition system.  A request is one operation of a session that is
  logged in (DfsApi, DfsPods, DfsData); the server makes requests, and lets users sign
  up, log in and log out, in any order.  Every step has an environment of its own, so
  that random bytes, session ids and orders of ranges differ from step to step.

  Shown: a session keeps the name, the session id and the keys it was started with
  until it is left, whatever the other sessions do, and its pods change by its own
  requests only.
\<close>

section \<open>Operations on the pods keep the keys of the user\<close>

abbreviation pod_user :: "Pod \<Rightarrow> AccInfo" where "pod_user p \<equiv> acUser (pdAccount p)"

lemma CreatePodAccount_user: "CreatePodAccount wl k a = (r, a1) \<Longrightarrow> acUser a1 = acUser a"
  by (auto simp: CreatePodAccount_def Let_def split: option.splits sum.splits prod.splits)

lemma pod_user_simps [simp]:
  "pod_user (addPodToPodMap n i p) = pod_user p" "pod_user (removePodFromPodMap n p) = pod_user p"
  "pod_user (change_info n g p) = pod_user p" "pod_user (put_infos I p) = pod_user p"
  "acUser (DeletePodAccount k a) = acUser a"
  by (simp_all add: addPodToPodMap_def removePodFromPodMap_def change_info_def put_infos_def DeletePodAccount_def)

named_theorems keeps_keys

lemma open_listed_user [keeps_keys]: "open_listed env p l n = (r, p1) \<Longrightarrow> pod_user p1 = pod_user p"
  by (auto simp: open_listed_def Let_def dest: CreatePodAccount_user split: prod.splits sum.splits if_splits)

lemma OpenPod_user [keeps_keys]: "OpenPod env p n w = (r, p1, w1) \<Longrightarrow> pod_user p1 = pod_user p"
  by (auto simp: OpenPod_def dest!: open_listed_user split: prod.splits sum.splits if_splits)

lemma GetPodInfo_user [keeps_keys]: "GetPodInfo env p n w = (r, p1, w1) \<Longrightarrow> pod_user p1 = pod_user p"
  by (auto simp: GetPodInfo_def dest: OpenPod_user split: sum.splits)

lemma create_shared_user: "create_shared env p l n a pw w = (r, p1, w1) \<Longrightarrow> pod_user p1 = pod_user p"
  by (auto simp: create_shared_def Let_def split: prod.splits sum.splits)

lemma create_own_user: "create_own env p l n pw w = (r, p1, w1) \<Longrightarrow> pod_user p1 = pod_user p"
  by (auto simp: create_own_def Let_def dest!: CreatePodAccount_user split: prod.splits sum.splits)

lemma CreatePod_user [keeps_keys]: "CreatePod env p n a pw w = (r, p1, w1) \<Longrightarrow> pod_user p1 = pod_user p"
  by (auto simp: CreatePod_def dest: create_shared_user create_own_user split: prod.splits sum.splits if_splits)

lemma sync_pod_user: "sync_pod sync env p n w = (r, p1, w1) \<Longrightarrow> pod_user p1 = pod_user p"
  by (auto simp: sync_pod_def dest!: GetPodInfo_user split: prod.splits sum.splits)

lemma SyncPod_user [keeps_keys]: "SyncPod k env p n w = (r, p1, w1) \<Longrightarrow> pod_user p1 = pod_user p"
  unfolding SyncPod_def by (rule sync_pod_user)

lemma SyncPodAsync_user [keeps_keys]: "SyncPodAsync k env p n w = (r, p1, w1) \<Longrightarrow> pod_user p1 = pod_user p"
  unfolding SyncPodAsync_def by (rule sync_pod_user)

lemma ClosePod_user [keeps_keys]: "ClosePod env p n w = (r, p1, w1) \<Longrightarrow> pod_user p1 = pod_user p"
  by (auto simp: ClosePod_def split: prod.splits sum.splits)

lemma DeleteOwnPod_user [keeps_keys]: "DeleteOwnPod env p n w = (r, p1, w1) \<Longrightarrow> pod_user p1 = pod_user p"
  by (auto simp: DeleteOwnPod_def Let_def dest!: GetPodInfo_user split: prod.splits sum.splits option.splits)

lemma DeleteSharedPod_user [keeps_keys]: "DeleteSharedPod env p n w = (r, p1, w1) \<Longrightarrow> pod_user p1 = pod_user p"
  by (auto simp: DeleteSharedPod_def Let_def split: prod.splits sum.splits option.splits)

lemma PodStat_user [keeps_keys]: "PodStat env p n w = (r, p1, w1) \<Longrightarrow> pod_user p1 = pod_user p"
  by (auto simp: PodStat_def dest!: GetPodInfo_user CreatePodAccount_user split: prod.splits sum.splits goerror.splits if_splits)

lemma own_pod_user: "own_pod env p n w = (r, p1, w1) \<Longrightarrow> pod_user p1 = pod_user p"
  by (auto simp: own_pod_def dest: CreatePodAccount_user split: prod.splits sum.splits if_splits)

lemma PodShare_user [keeps_keys]: "PodShare env p n s w = (r, p1, w1) \<Longrightarrow> pod_user p1 = pod_user p"
  by (auto simp: PodShare_def Let_def dest: own_pod_user split: prod.splits sum.splits)

lemma GetPodSharingInfo_user: "GetPodSharingInfo env p n w = (r, p1, w1) \<Longrightarrow> pod_user p1 = pod_user p"
  by (auto simp: GetPodSharingInfo_def dest: own_pod_user split: prod.splits sum.splits)

lemma ReceivePod_user [keeps_keys]: "ReceivePod env p n ref w = (r, p1, w1) \<Longrightarrow> pod_user p1 = pod_user p"
  by (auto simp: ReceivePod_def dest: CreatePod_user split: prod.splits sum.splits)

lemma PodFork_user [keeps_keys]: "PodFork k env p n f w = (r, p1, w1) \<Longrightarrow> pod_user p1 = pod_user p"
  by (auto simp: PodFork_def Let_def dest!: GetPodInfo_user split: prod.splits sum.splits)

lemma forkPod_user: "forkPod k env p i f w = (r, p1, w1) \<Longrightarrow> pod_user p1 = pod_user p"
  by (auto simp: forkPod_def dest!: GetPodInfo_user split: prod.splits sum.splits option.splits)

lemma PodForkFromRef_user [keeps_keys]: "PodForkFromRef k env p f ref w = (r, p1, w1) \<Longrightarrow> pod_user p1 = pod_user p"
  by (auto simp: PodForkFromRef_def dest: forkPod_user split: prod.splits sum.splits)

lemma ReceiveFile_user [keeps_keys]: "ReceiveFileFromUser ue p n ref d w = (r, p1, w1) \<Longrightarrow> pod_user p1 = pod_user p"
  by (auto simp: ReceiveFileFromUser_def Let_def dest!: GetPodInfo_user split: prod.splits sum.splits option.splits if_splits)


lemma prepareOwnPod_user [keeps_keys]: "prepareOwnPod ap n p w = (r, p1, w1) \<Longrightarrow> pod_user p1 = pod_user p"
  by (auto simp: prepareOwnPod_def dest!: CreatePod_user OpenPod_user split: prod.splits sum.splits)

lemma delete_pod_user [keeps_keys]: "delete_pod ap n p w = (r, p1, w1) \<Longrightarrow> pod_user p1 = pod_user p"
  by (auto simp: delete_pod_def Let_def dest!: GetPodInfo_user DeleteSharedPod_user DeleteOwnPod_user
      split: prod.splits sum.splits if_splits)

lemma Pod_CommitFeeds_user [keeps_keys]: "Pod_CommitFeeds env p n w = (r, p1, w1) \<Longrightarrow> pod_user p1 = pod_user p"
  by (auto simp: Pod_CommitFeeds_def split: prod.splits sum.splits)

lemma fork_into_user:
  "\<lbrakk>fork_into ap n f p w = (r, p1, w1); \<And>p w r p1 w1. f p w = (r, p1, w1) \<Longrightarrow> pod_user p1 = pod_user p\<rbrakk>
    \<Longrightarrow> pod_user p1 = pod_user p"
  by (auto simp: fork_into_def dest!: prepareOwnPod_user split: prod.splits sum.splits if_splits)

lemma with_key_user:
  "\<lbrakk>with_key ap h f p w = (r, p1, w1); \<And>k p w r p1 w1. f k p w = (r, p1, w1) \<Longrightarrow> pod_user p1 = pod_user p\<rbrakk>
    \<Longrightarrow> pod_user p1 = pod_user p"
  by (auto simp: with_key_def split: prod.splits sum.splits)

lemma Approve_user [keeps_keys]: "ApproveSubscription env sm p n h k w = (r, p1, w1) \<Longrightarrow> pod_user p1 = pod_user p"
  by (auto simp: ApproveSubscription_def dest!: GetPodSharingInfo_user split: prod.splits sum.splits)

lemma EncryptUpload_user [keeps_keys]: "EncryptUploadSubscriptionInfo env sm p n k w = (r, p1, w1) \<Longrightarrow> pod_user p1 = pod_user p"
  by (auto simp: EncryptUploadSubscriptionInfo_def dest!: GetPodSharingInfo_user split: prod.splits sum.splits)

lemma OpenSubscribed_user: "OpenSubscribedPodFromReference env sm p ref k w = (r, p1, w1) \<Longrightarrow> pod_user p1 = pod_user p"
  by (auto simp: OpenSubscribedPodFromReference_def OpenFromShareInfo_def split: prod.splits sum.splits)

lemma open_subscribed_user [keeps_keys]: "open_subscribed ap sm ref k p w = (r, p1, w1) \<Longrightarrow> pod_user p1 = pod_user p"
  by (auto simp: open_subscribed_def dest!: OpenSubscribed_user split: prod.splits sum.splits)

section \<open>Steady operations of a user\<close>

text \<open>What a user keeps during a session.\<close>

definition identity :: "UserInfo \<Rightarrow> string \<times> string \<times> AccInfo \<times> ACT option" where
  "identity ui = (uiName ui, uiSession ui, pod_user (uiPod ui), uiACT ui)"

definition steady :: "(UserInfo \<Rightarrow> 'w \<Rightarrow> 'a \<times> UserInfo \<times> 'w) \<Rightarrow> bool" where
  "steady f \<longleftrightarrow> (\<forall>ui w r ui1 w1. f ui w = (r, ui1, w1) \<longrightarrow> identity ui1 = identity ui)"

lemma steadyI: "(\<And>ui w r ui1 w1. f ui w = (r, ui1, w1) \<Longrightarrow> identity ui1 = identity ui) \<Longrightarrow> steady f"
  by (auto simp: steady_def)

lemma steadyD: "\<lbrakk>steady f; f ui w = (r, ui1, w1)\<rbrakk> \<Longrightarrow> identity ui1 = identity ui"
  unfolding steady_def by blast

named_theorems steady

lemma steady_on_pod [steady]: "(\<And>p w r p1 w1. f p w = (r, p1, w1) \<Longrightarrow> pod_user p1 = pod_user p) \<Longrightarrow> steady (on_pod f)"
  by (rule steadyI) (fastforce simp: on_pod_def identity_def split: prod.splits)

lemma steady_on_group [steady]: "steady (on_group f)"
  by (rule steadyI) (auto simp: on_group_def identity_def split: prod.splits)

lemma steady_pod_or_group [steady]: "steady (pod_or_group env n g f)"
  by (rule steadyI)
    (auto simp: pod_or_group_def identity_def dest!: GetPodInfo_user split: prod.splits sum.splits if_splits)

lemma steady_pod_then [steady]:
  assumes "\<And>p w r p1 w1. f p w = (r, p1, w1) \<Longrightarrow> pod_user p1 = pod_user p" "\<And>a ui. identity (g a ui) = identity ui"
  shows "steady (pod_then f g)"
  using steadyD [OF steady_on_pod [of f, OF assms(1)]] assms(2)
  by (fastforce intro!: steadyI simp: pod_then_def split: prod.splits sum.splits)

lemma identity_names [simp]: "identity (AddPodName n ui) = identity ui" "identity (RemovePodName n ui) = identity ui"
  by (simp_all add: identity_def AddPodName_def RemovePodName_def)

lemma steady_reading [steady]: "steady (reading f)"
  by (rule steadyI) (auto simp: reading_def split: prod.splits)

lemma steady_with_list [steady]: "steady (with_list f)"
  by (rule steadyI) (auto simp: with_list_def split: prod.splits option.splits)

lemma steady_named_list [steady]: "steady (named_list n f)"
  using steadyD [OF steady_with_list] by (auto intro!: steadyI simp: named_list_def split: if_splits)

lemma steady_with_sm [steady]: "(\<And>sm. steady (f sm)) \<Longrightarrow> steady (with_sm ap f)"
  by (rule steadyI) (auto simp: with_sm_def dest: steadyD split: option.splits)

text \<open>An operation between others, and an operation that only looks at the user.\<close>

lemma steady_case_sum [steady]:
  assumes "\<And>ui b. x ui = Inr b \<Longrightarrow> steady (f b)"
  shows "steady (\<lambda>ui w. case x ui of Inl e \<Rightarrow> (Inl e, ui, w) | Inr b \<Rightarrow> f b ui w)"
  by (rule steadyI) (auto split: sum.splits intro: steadyD [OF assms])

lemma steady_bind [steady]:
  assumes "steady m" "\<And>a. steady (f a)"
  shows "steady (\<lambda>ui w. case m ui w of (Inl e, ui1, w1) \<Rightarrow> (Inl e, ui1, w1) | (Inr a, ui1, w1) \<Rightarrow> f a ui1 w1)"
  using steadyD [OF assms(1)] steadyD [OF assms(2)] by (fastforce intro!: steadyI split: prod.splits sum.splits)

lemma steady_pure [steady]: "steady (\<lambda>ui w. case f ui w of (x, w1) \<Rightarrow> (g x, ui, w1))"
  by (rule steadyI) (auto split: prod.splits)

lemma steady_world [steady]:
  assumes "\<And>a. steady (f a)"
  shows "steady (\<lambda>ui w. case x w of (Inl e, w1) \<Rightarrow> (Inl e, ui, w1) | (Inr a, w1) \<Rightarrow> f a ui w1)"
  by (rule steadyI) (auto split: prod.splits sum.splits intro: steadyD [OF assms])

lemma steady_info [steady]: "steady (\<lambda>ui. pod_or_group env n g (f ui) ui)"
  by (rule steadyI) (rule steadyD [OF steady_pod_or_group])

text \<open>The last two operations on pods are written out in the API.\<close>

lemma fork_ref_user [keeps_keys]:
  "(if ref = [] then (Inl e, p, w) else fork_into ap n (\<lambda>p. PodForkFromRef k env p n ref) p w) = (r, p1, w1)
    \<Longrightarrow> pod_user p1 = pod_user p"
  by (auto dest: fork_into_user PodForkFromRef_user split: if_splits)

lemma open_act_user [keeps_keys]:
  "(case ReceivePodInfo env p a w of (Inl e, w2) \<Rightarrow> (Inl e, p, w2)
    | (Inr info, w2) \<Rightarrow> (case OpenActPod env p info n of (i, p1) \<Rightarrow> (Inr (), p1, w2))) = (r, p1, w1)
    \<Longrightarrow> pod_user p1 = pod_user p"
  by (auto simp: OpenActPod_def split: prod.splits sum.splits)


section \<open>Requests\<close>

definition err_of :: "'a result \<Rightarrow> goerror option" where
  "err_of r = (case r of Inl e \<Rightarrow> Some e | Inr a \<Rightarrow> None)"

text \<open>One operation of the session s, with the error that it reports.\<close>

inductive api_request ::
  "('w, 'f, 'v, 'n, 'k) apienv \<Rightarrow> string \<Rightarrow> Users \<Rightarrow> 'w \<Rightarrow> goerror option \<Rightarrow> Users \<Rightarrow> 'w \<Rightarrow> bool" where
  Mkdir: "API_Mkdir ap us x1 x2 s x3 x4 w = (r, us1, w1) \<Longrightarrow> api_request ap s us w (err_of r) us1 w1"
| RenameDir: "API_RenameDir ap us x1 x2 x3 s x4 w = (r, us1, w1) \<Longrightarrow> api_request ap s us w (err_of r) us1 w1"
| IsDirPresent: "API_IsDirPresent ap us x1 x2 s x3 w = (r, us1, w1) \<Longrightarrow> api_request ap s us w (err_of r) us1 w1"
| RmDir: "API_RmDir ap us x1 x2 s x3 w = (r, us1, w1) \<Longrightarrow> api_request ap s us w (err_of r) us1 w1"
| ListDir: "API_ListDir ap us x1 x2 s x3 w = (r, us1, w1) \<Longrightarrow> api_request ap s us w (err_of r) us1 w1"
| DirectoryStat: "API_DirectoryStat ap us x1 x2 s x3 w = (r, us1, w1) \<Longrightarrow> api_request ap s us w (err_of r) us1 w1"
| DirectoryInode: "API_DirectoryInode ap us x1 x2 s x3 w = (r, us1, w1) \<Longrightarrow> api_request ap s us w (err_of r) us1 w1"
| ChmodDir: "API_ChmodDir ap us x1 x2 s x3 x4 w = (r, us1, w1) \<Longrightarrow> api_request ap s us w (err_of r) us1 w1"
| DeleteFile: "API_DeleteFile ap us x1 x2 s x3 w = (r, us1, w1) \<Longrightarrow> api_request ap s us w (err_of r) us1 w1"
| FileStat: "API_FileStat ap us x1 x2 s x3 w = (r, us1, w1) \<Longrightarrow> api_request ap s us w (err_of r) us1 w1"
| UploadFile: "API_UploadFile ap us x1 x2 s x3 x4 x5 x6 x7 x8 x9 x10 w = (r, us1, w1) \<Longrightarrow> api_request ap s us w (err_of r) us1 w1"
| RenameFile: "API_RenameFile ap us x1 x2 x3 s x4 w = (r, us1, w1) \<Longrightarrow> api_request ap s us w (err_of r) us1 w1"
| DownloadFile: "API_DownloadFile ap us x1 x2 s x3 w = (r, us1, w1) \<Longrightarrow> api_request ap s us w (err_of r) us1 w1"
| WriteAtFile: "API_WriteAtFile ap us x1 x2 s x3 x4 x5 x6 w = (r, us1, w1) \<Longrightarrow> api_request ap s us w (err_of r) us1 w1"
| ReadSeekCloser: "API_ReadSeekCloser ap us x1 x2 s x3 w = (r, us1, w1) \<Longrightarrow> api_request ap s us w (err_of r) us1 w1"
| ChmodFile: "API_ChmodFile ap us x1 x2 s x3 x4 w = (r, us1, w1) \<Longrightarrow> api_request ap s us w (err_of r) us1 w1"
| ShareFile: "API_ShareFile ap us x1 x2 x3 s x4 w = (r, us1, w1) \<Longrightarrow> api_request ap s us w (err_of r) us1 w1"
| ReceiveFile: "API_ReceiveFile ap us x1 s x2 x3 w = (r, us1, w1) \<Longrightarrow> api_request ap s us w (err_of r) us1 w1"
| ReceiveInfo: "API_ReceiveInfo ap us s x1 w = (r, us1, w1) \<Longrightarrow> api_request ap s us w (err_of r) us1 w1"
| CreatePod: "API_CreatePod ap us x1 s w = (r, us1, w1) \<Longrightarrow> api_request ap s us w (err_of r) us1 w1"
| DeletePod: "API_DeletePod ap us x1 s w = (r, us1, w1) \<Longrightarrow> api_request ap s us w (err_of r) us1 w1"
| OpenPod: "API_OpenPod ap us x1 s w = (r, us1, w1) \<Longrightarrow> api_request ap s us w (err_of r) us1 w1"
| ClosePod: "API_ClosePod ap us x1 s w = (r, us1, w1) \<Longrightarrow> api_request ap s us w (err_of r) us1 w1"
| CommitPodFeeds: "API_CommitPodFeeds ap us x1 s w = (r, us1, w1) \<Longrightarrow> api_request ap s us w (err_of r) us1 w1"
| PodStat: "API_PodStat ap us x1 s w = (r, us1, w1) \<Longrightarrow> api_request ap s us w (err_of r) us1 w1"
| SyncPod: "API_SyncPod ap us x1 s w = (r, us1, w1) \<Longrightarrow> api_request ap s us w (err_of r) us1 w1"
| SyncPodAsync: "API_SyncPodAsync ap us x1 s w = (r, us1, w1) \<Longrightarrow> api_request ap s us w (err_of r) us1 w1"
| ListPods: "API_ListPods ap us s w = (r, us1, w1) \<Longrightarrow> api_request ap s us w (err_of r) us1 w1"
| PodList: "API_PodList ap us s w = (r, us1, w1) \<Longrightarrow> api_request ap s us w (err_of r) us1 w1"
| PodShare: "API_PodShare ap us x1 x2 s w = (r, us1, w1) \<Longrightarrow> api_request ap s us w (err_of r) us1 w1"
| PodReceiveInfo: "API_PodReceiveInfo ap us s x1 w = (r, us1, w1) \<Longrightarrow> api_request ap s us w (err_of r) us1 w1"
| PodReceive: "API_PodReceive ap us s x1 x2 w = (r, us1, w1) \<Longrightarrow> api_request ap s us w (err_of r) us1 w1"
| ForkPod: "API_ForkPod ap us x1 x2 s w = (r, us1, w1) \<Longrightarrow> api_request ap s us w (err_of r) us1 w1"
| ForkPodFromRef: "API_ForkPodFromRef ap us x1 x2 s w = (r, us1, w1) \<Longrightarrow> api_request ap s us w (err_of r) us1 w1"
| ListPodInMarketplace: "API_ListPodInMarketplace ap us s x1 x2 x3 x4 x5 x6 x7 w = (r, us1, w1) \<Longrightarrow> api_request ap s us w (err_of r) us1 w1"
| ChangePodListStatusInMarketplace: "API_ChangePodListStatusInMarketplace ap us s x1 x2 w = (r, us1, w1) \<Longrightarrow> api_request ap s us w (err_of r) us1 w1"
| RequestSubscription: "API_RequestSubscription ap us s x1 w = (r, us1, w1) \<Longrightarrow> api_request ap s us w (err_of r) us1 w1"
| ApproveSubscription: "API_ApproveSubscription ap us s x1 x2 x3 w = (r, us1, w1) \<Longrightarrow> api_request ap s us w (err_of r) us1 w1"
| EncryptSubscription: "API_EncryptSubscription ap us s x1 x2 w = (r, us1, w1) \<Longrightarrow> api_request ap s us w (err_of r) us1 w1"
| DecryptAndOpenSubscriptionPod: "API_DecryptAndOpenSubscriptionPod ap us s x1 x2 w = (r, us1, w1) \<Longrightarrow> api_request ap s us w (err_of r) us1 w1"
| OpenSubscribedPod: "API_OpenSubscribedPod ap us s x1 x2 w = (r, us1, w1) \<Longrightarrow> api_request ap s us w (err_of r) us1 w1"
| GetSubscriptions: "API_GetSubscriptions ap us s w = (r, us1, w1) \<Longrightarrow> api_request ap s us w (err_of r) us1 w1"
| GetSubscribablePodInfo: "API_GetSubscribablePodInfo ap us s x1 w = (r, us1, w1) \<Longrightarrow> api_request ap s us w (err_of r) us1 w1"
| GetSubscribablePods: "API_GetSubscribablePods ap us s w = (r, us1, w1) \<Longrightarrow> api_request ap s us w (err_of r) us1 w1"
| GetSubsRequests: "API_GetSubsRequests ap us s w = (r, us1, w1) \<Longrightarrow> api_request ap s us w (err_of r) us1 w1"
| KVCreate: "API_KVCreate ap us s x1 x2 x3 w = (r, us1, w1) \<Longrightarrow> api_request ap s us w (err_of r) us1 w1"
| KVDelete: "API_KVDelete ap us s x1 x2 w = (r, us1, w1) \<Longrightarrow> api_request ap s us w (err_of r) us1 w1"
| KVOpen: "API_KVOpen ap us s x1 x2 w = (r, us1, w1) \<Longrightarrow> api_request ap s us w (err_of r) us1 w1"
| KVList: "API_KVList ap us s x1 w = (r, us1, w1) \<Longrightarrow> api_request ap s us w (err_of r) us1 w1"
| KVCount: "API_KVCount ap us s x1 x2 w = (r, us1, w1) \<Longrightarrow> api_request ap s us w (err_of r) us1 w1"
| KVPut: "API_KVPut ap us s x1 x2 x3 x4 w = (r, us1, w1) \<Longrightarrow> api_request ap s us w (err_of r) us1 w1"
| KVGet: "API_KVGet ap us s x1 x2 x3 w = (r, us1, w1) \<Longrightarrow> api_request ap s us w (err_of r) us1 w1"
| KVDel: "API_KVDel ap us s x1 x2 x3 w = (r, us1, w1) \<Longrightarrow> api_request ap s us w (err_of r) us1 w1"
| KVBatch: "API_KVBatch ap us s x1 x2 x3 w = (r, us1, w1) \<Longrightarrow> api_request ap s us w (err_of r) us1 w1"
| KVSeek: "API_KVSeek ap us s x1 x2 x3 x4 x5 w = (r, us1, w1) \<Longrightarrow> api_request ap s us w (err_of r) us1 w1"
| KVGetNext: "API_KVGetNext ap us s x1 x2 w = (r, us1, w1) \<Longrightarrow> api_request ap s us w (err_of r) us1 w1"
| DocCreate: "API_DocCreate ap us s x1 x2 x3 x4 w = (r, us1, w1) \<Longrightarrow> api_request ap s us w (err_of r) us1 w1"
| DocOpen: "API_DocOpen ap us s x1 x2 w = (r, us1, w1) \<Longrightarrow> api_request ap s us w (err_of r) us1 w1"
| IsDBOpened: "API_IsDBOpened ap us s x1 x2 w = (r, us1, w1) \<Longrightarrow> api_request ap s us w (err_of r) us1 w1"
| DocDelete: "API_DocDelete ap us s x1 x2 w = (r, us1, w1) \<Longrightarrow> api_request ap s us w (err_of r) us1 w1"
| DocList: "API_DocList ap us s x1 w = (r, us1, w1) \<Longrightarrow> api_request ap s us w (err_of r) us1 w1"
| DocCount: "API_DocCount ap us s x1 x2 x3 w = (r, us1, w1) \<Longrightarrow> api_request ap s us w (err_of r) us1 w1"
| DocPut: "API_DocPut ap us s x1 x2 x3 w = (r, us1, w1) \<Longrightarrow> api_request ap s us w (err_of r) us1 w1"
| DocGet: "API_DocGet ap us s x1 x2 x3 w = (r, us1, w1) \<Longrightarrow> api_request ap s us w (err_of r) us1 w1"
| DocDel: "API_DocDel ap us s x1 x2 x3 w = (r, us1, w1) \<Longrightarrow> api_request ap s us w (err_of r) us1 w1"
| DocFind: "API_DocFind ap us s x1 x2 x3 x4 w = (r, us1, w1) \<Longrightarrow> api_request ap s us w (err_of r) us1 w1"
| DocBatch: "API_DocBatch ap us s x1 x2 w = (r, us1, w1) \<Longrightarrow> api_request ap s us w (err_of r) us1 w1"
| DocBatchPut: "API_DocBatchPut ap us s x1 x2 x3 w = (r, us1, w1) \<Longrightarrow> api_request ap s us w (err_of r) us1 w1"
| DocBatchWrite: "API_DocBatchWrite ap us s x1 x2 w = (r, us1, w1) \<Longrightarrow> api_request ap s us w (err_of r) us1 w1"
| DocIndexJson: "API_DocIndexJson ap us s x1 x2 x3 w = (r, us1, w1) \<Longrightarrow> api_request ap s us w (err_of r) us1 w1"
| CreateGroup: "API_CreateGroup ap us s x1 w = (r, us1, w1) \<Longrightarrow> api_request ap s us w (err_of r) us1 w1"
| RemoveGroup: "API_RemoveGroup ap us s x1 w = (r, us1, w1) \<Longrightarrow> api_request ap s us w (err_of r) us1 w1"
| RemoveSharedGroup: "API_RemoveSharedGroup ap us s x1 w = (r, us1, w1) \<Longrightarrow> api_request ap s us w (err_of r) us1 w1"
| ListGroups: "API_ListGroups ap us s w = (r, us1, w1) \<Longrightarrow> api_request ap s us w (err_of r) us1 w1"
| OpenGroup: "API_OpenGroup ap us s x1 w = (r, us1, w1) \<Longrightarrow> api_request ap s us w (err_of r) us1 w1"
| CloseGroup: "API_CloseGroup ap us s x1 w = (r, us1, w1) \<Longrightarrow> api_request ap s us w (err_of r) us1 w1"
| AddMember: "API_AddMember ap us s x1 x2 x3 w = (r, us1, w1) \<Longrightarrow> api_request ap s us w (err_of r) us1 w1"
| AcceptGroupInvite: "API_AcceptGroupInvite ap us s x1 w = (r, us1, w1) \<Longrightarrow> api_request ap s us w (err_of r) us1 w1"
| RemoveMember: "API_RemoveMember ap us s x1 x2 w = (r, us1, w1) \<Longrightarrow> api_request ap s us w (err_of r) us1 w1"
| UpdatePermission: "API_UpdatePermission ap us s x1 x2 x3 w = (r, us1, w1) \<Longrightarrow> api_request ap s us w (err_of r) us1 w1"
| GetPermission: "API_GetPermission ap us s x1 w = (r, us1, w1) \<Longrightarrow> api_request ap s us w (err_of r) us1 w1"
| GetGroupMembers: "API_GetGroupMembers ap us s x1 w = (r, us1, w1) \<Longrightarrow> api_request ap s us w (err_of r) us1 w1"
| CreateGranteePublicKey: "API_CreateGranteePublicKey ap us s x1 x2 w = (r, us1, w1) \<Longrightarrow> api_request ap s us w (err_of r) us1 w1"
| GrantRevokeGranteePublicKey: "API_GrantRevokeGranteePublicKey ap us s x1 x2 x3 w = (r, us1, w1) \<Longrightarrow> api_request ap s us w (err_of r) us1 w1"
| ListGrantees: "API_ListGrantees ap us s x1 w = (r, us1, w1) \<Longrightarrow> api_request ap s us w (err_of r) us1 w1"
| ACTPodShare: "API_ACTPodShare ap us s x1 x2 w = (r, us1, w1) \<Longrightarrow> api_request ap s us w (err_of r) us1 w1"
| OpenACTPod: "API_OpenACTPod ap us s x1 w = (r, us1, w1) \<Longrightarrow> api_request ap s us w (err_of r) us1 w1"
| GetACTs: "API_GetACTs ap us s w = (r, us1, w1) \<Longrightarrow> api_request ap s us w (err_of r) us1 w1"
| SaveACTPod: "API_SaveACTPod ap us s x1 x2 w = (r, us1, w1) \<Longrightarrow> api_request ap s us w (err_of r) us1 w1"
| GetACTContents: "API_GetACTContents ap us s x1 w = (r, us1, w1) \<Longrightarrow> api_request ap s us w (err_of r) us1 w1"
| GetUserStat: "API_GetUserStat ap us s w = (r, us1, w1) \<Longrightarrow> api_request ap s us w (err_of r) us1 w1"

lemmas operations =
  API_Mkdir_def API_RenameDir_def API_IsDirPresent_def API_RmDir_def API_ListDir_def API_DirectoryStat_def
  API_DirectoryInode_def API_ChmodDir_def API_DeleteFile_def API_FileStat_def API_UploadFile_def API_RenameFile_def
  API_DownloadFile_def API_WriteAtFile_def API_ReadSeekCloser_def API_ChmodFile_def API_ShareFile_def
  API_ReceiveFile_def API_ReceiveInfo_def API_CreatePod_def API_DeletePod_def API_OpenPod_def API_ClosePod_def
  API_CommitPodFeeds_def API_PodStat_def API_SyncPod_def API_SyncPodAsync_def API_ListPods_def API_PodList_def
  API_PodShare_def API_PodReceiveInfo_def API_PodReceive_def API_ForkPod_def API_ForkPodFromRef_def
  API_ListPodInMarketplace_def API_ChangePodListStatusInMarketplace_def API_RequestSubscription_def
  API_ApproveSubscription_def API_EncryptSubscription_def API_DecryptAndOpenSubscriptionPod_def
  API_OpenSubscribedPod_def API_GetSubscriptions_def API_GetSubscribablePodInfo_def API_GetSubscribablePods_def
  API_GetSubsRequests_def API_KVCreate_def API_KVDelete_def API_KVOpen_def API_KVList_def API_KVCount_def
  API_KVPut_def API_KVGet_def API_KVDel_def API_KVBatch_def API_KVSeek_def API_KVGetNext_def API_DocCreate_def
  API_DocOpen_def API_IsDBOpened_def API_DocDelete_def API_DocList_def API_DocCount_def API_DocPut_def API_DocGet_def
  API_DocDel_def API_DocFind_def API_DocBatch_def API_DocBatchPut_def API_DocBatchWrite_def API_DocIndexJson_def
  API_CreateGroup_def API_RemoveGroup_def API_RemoveSharedGroup_def API_ListGroups_def API_OpenGroup_def
  API_CloseGroup_def API_AddMember_def API_AcceptGroupInvite_def API_RemoveMember_def API_UpdatePermission_def
  API_GetPermission_def API_GetGroupMembers_def API_CreateGranteePublicKey_def API_GrantRevokeGranteePublicKey_def
  API_ListGrantees_def API_ACTPodShare_def API_OpenACTPod_def API_GetACTs_def API_SaveACTPod_def
  API_GetACTContents_def API_GetUserStat_def

text \<open>An operation sees and changes its own session only; without one it is refused.\<close>

definition own_session :: "string \<Rightarrow> Users \<Rightarrow> 'w \<Rightarrow> goerror option \<Rightarrow> Users \<Rightarrow> 'w \<Rightarrow> bool" where
  "own_session s us w e us1 w1 \<longleftrightarrow>
     (case userMap us s of
        None \<Rightarrow> e = Some ErrUserNotLoggedIn \<and> us1 = us \<and> w1 = w
      | Some ui \<Rightarrow> \<exists>ui1. us1 = us\<lparr>userMap := (userMap us)(s \<mapsto> ui1)\<rparr> \<and> identity ui1 = identity ui)"

lemma with_user_own: "\<lbrakk>with_user us s f w = (r, us1, w1); steady f\<rbrakk> \<Longrightarrow> own_session s us w (err_of r) us1 w1"
  by (auto simp: with_user_def GetLoggedInUserInfo_def getUserFromMap_def own_session_def err_of_def dest: steadyD
      split: option.splits prod.splits)

lemma request_own: "api_request ap s us w e us1 w1 \<Longrightarrow> own_session s us w e us1 w1"
  by (induction rule: api_request.induct; unfold operations with_pod_def; erule with_user_own;
      (rule steady identity_names | erule keeps_keys fork_into_user with_key_user | assumption)+)

section \<open>The server\<close>

text \<open>What a step is to the sessions: a request, the beginning or the end of a session, or
  an operation that needs none.  Without a session id a new one is made up.\<close>

datatype visit = Request string | Enter string | Leave string | Outside

definition session_id :: "('w, 'f, 'v, 'n, 'k) apienv \<Rightarrow> string \<Rightarrow> string" where
  "session_id ap s = (if s = [] then ueSession (apUsers ap) else s)"

inductive server ::
  "('w, 'f, 'v, 'n, 'k) apienv \<Rightarrow> visit \<Rightarrow> Users \<Rightarrow> 'w \<Rightarrow> Users \<Rightarrow> 'w \<Rightarrow> bool" where
  Ask: "api_request ap s us w e us1 w1 \<Longrightarrow> server ap (Request s) us w us1 w1"
| SignUp: "API_CreateUserV2 ap us n pw m s w = (x, r, us1, w1) \<Longrightarrow> server ap (Enter (session_id ap s)) us w us1 w1"
| LogIn: "API_LoginUserV2 ap us n pw s w = (r, us1, w1) \<Longrightarrow> server ap (Enter (session_id ap s)) us w us1 w1"
| LogInWithSignature: "API_LoginUserWithSignature ap us sg pw s = (r, us1) \<Longrightarrow> server ap (Enter (session_id ap s)) us w us1 w"
| LogInWithWallet: "API_LoginWithWallet ap us a sg s w = (r, us1, w1) \<Longrightarrow> server ap (Enter (session_id ap s)) us w us1 w1"
| LoadLite: "API_LoadLiteUser ap us n m s = (r, us1) \<Longrightarrow> server ap (Enter (session_id ap s)) us w us1 w"
| LogOut: "API_LogoutUser ap us s w = (r, us1, w1) \<Longrightarrow> server ap (Leave s) us w us1 w1"
| DeleteUser: "API_DeleteUserV2 ap us pw s w = (r, us1, w1) \<Longrightarrow> server ap (Leave s) us w us1 w1"
| Connect: "API_ConnectPortableAccountWithWallet ap n pw a sg w = (r, w1) \<Longrightarrow> server ap Outside us w us w1"
| AskName: "API_IsUserNameAvailableV2 ap n w = (b, w1) \<Longrightarrow> server ap Outside us w us w1"
| AskPod: "API_IsPodExist ap us n s w = (b, w1) \<Longrightarrow> server ap Outside us w us w1"
| PublicInfo: "PublicPodReceiveInfo ap ref w = (i, w1) \<Longrightarrow> server ap Outside us w us w1"
| PublicFile: "PublicPodFileDownload ap si path w = (d, w1) \<Longrightarrow> server ap Outside us w us w1"
| PublicEntry: "PublicPodKVEntryGet ap si n key w = (v, w1) \<Longrightarrow> server ap Outside us w us w1"
| PublicList: "PublicPodDisLs ap tp ord si path w = (l, w1) \<Longrightarrow> server ap Outside us w us w1"
| PublicAll: "PublicPodSnapshot ap ord si path w = (l2, w1) \<Longrightarrow> server ap Outside us w us w1"

text \<open>A run of the server, each of whose steps has one of the environments.\<close>

inductive run ::
  "('w, 'f, 'v, 'n, 'k) apienv set \<Rightarrow> visit list \<Rightarrow> Users \<Rightarrow> 'w \<Rightarrow> Users \<Rightarrow> 'w \<Rightarrow> bool" for aps where
  Done: "run aps [] us w us w"
| Step: "\<lbrakk>ap \<in> aps; server ap v us w us1 w1; run aps vs us1 w1 us2 w2\<rbrakk> \<Longrightarrow> run aps (v # vs) us w us2 w2"

lemma uiSession_new_user: "uiSession (new_user ue n s acc l) = (if s = [] then ueSession ue else s)"
  by (simp add: new_user_def Let_def)

lemmas entering = API_CreateUserV2_def CreateNewUserV2_def API_LoginUserV2_def LoginUserV2_def
  API_LoginUserWithSignature_def LoginUserWithSignature_def API_LoginWithWallet_def LoginWithWallet_def
  API_LoadLiteUser_def LoadLiteUser_def start_session_def addUserToMap_def uiSession_new_user

lemmas leaving = API_LogoutUser_def Users_LogoutUser_def Users_Logout_def API_DeleteUserV2_def Users_DeleteUserV2_def
  removeUserFromMap_def

text \<open>A step of the server leaves the sessions alone that it is not about.\<close>

lemma enter_frame:
  "\<lbrakk>server ap (Enter k) us w us1 w1; k \<noteq> s\<rbrakk> \<Longrightarrow> userMap us1 s = userMap us s"
  by (erule server.cases)
    (auto simp: entering session_id_def Let_def split: if_splits sum.splits prod.splits option.splits)

lemma leave_frame:
  "\<lbrakk>server ap (Leave k) us w us1 w1; k \<noteq> s\<rbrakk> \<Longrightarrow> userMap us1 s = userMap us s"
  by (erule server.cases)
    (auto simp: leaving Let_def split: if_splits sum.splits prod.splits option.splits)

lemma request_frame:
  "\<lbrakk>server ap (Request k) us w us1 w1; k \<noteq> s\<rbrakk> \<Longrightarrow> userMap us1 s = userMap us s"
  by (erule server.cases) (auto dest!: request_own simp: own_session_def split: option.splits)

lemma outside_frame: "server ap Outside us w us1 w1 \<Longrightarrow> us1 = us"
  by (erule server.cases) auto

lemma server_frame:
  "\<lbrakk>server ap v us w us1 w1; v \<notin> {Request s, Enter s, Leave s}\<rbrakk> \<Longrightarrow> userMap us1 s = userMap us s"
  by (cases v) (auto dest: enter_frame leave_frame request_frame outside_frame)

text \<open>A session between its beginning and its end.\<close>

definition same_session :: "bool \<Rightarrow> UserInfo option \<Rightarrow> UserInfo option \<Rightarrow> bool" where
  "same_session own x y \<longleftrightarrow>
     (case x of None \<Rightarrow> y = None
      | Some ui \<Rightarrow> \<exists>ui1. y = Some ui1 \<and> identity ui1 = identity ui \<and> (\<not> own \<longrightarrow> ui1 = ui))"

lemma same_session_refl: "same_session own x x"
  by (auto simp: same_session_def split: option.splits)

lemma same_session_trans: "\<lbrakk>same_session a x y; same_session b y z\<rbrakk> \<Longrightarrow> same_session (a \<or> b) x z"
  by (fastforce simp: same_session_def split: option.splits)

lemma server_session:
  assumes "server ap v us w us1 w1" "v \<notin> {Enter s, Leave s}"
  shows "same_session (v = Request s) (userMap us s) (userMap us1 s)"
proof (cases "v = Request s")
  case True
  with assms(1) obtain e where "api_request ap s us w e us1 w1" by (auto elim: server.cases)
  then show ?thesis using True
    by (auto dest!: request_own simp: own_session_def same_session_def split: option.splits)
next
  case False
  then have "userMap us1 s = userMap us s" using assms by (intro server_frame) auto
  then show ?thesis by (simp add: same_session_refl)
qed

lemma run_session:
  "\<lbrakk>run aps vs us w us1 w1; Enter s \<notin> set vs; Leave s \<notin> set vs\<rbrakk>
    \<Longrightarrow> same_session (Request s \<in> set vs) (userMap us s) (userMap us1 s)"
proof (induction rule: run.induct)
  case (Step ap v us w us1 w1 vs us2 w2)
  have "same_session (v = Request s) (userMap us s) (userMap us1 s)"
    using Step.hyps(2) Step.prems by (intro server_session) auto
  from same_session_trans [OF this Step.IH] show ?case using Step.prems by (auto simp: disj_commute eq_commute)
qed (rule same_session_refl)

section \<open>The property\<close>

text \<open>C37: Sessions stay apart.  However the requests, logins and logouts of a run of the server
  interleave, a session that is neither entered nor left in it keeps the name, the session
  id, the keys and the list of ACTs that it had, and its user does not change at all unless
  the session makes a request itself.  If there was no such session then there is none at
  the end either, and a request for it is answered with ErrUserNotLoggedIn and changes
  neither the server nor the world.\<close>

theorem sessions_stay_apart:
  assumes "run aps vs us w us1 w1" "Enter s \<notin> set vs" "Leave s \<notin> set vs"
  shows "case userMap us s of
      None \<Rightarrow> userMap us1 s = None \<and>
        (\<forall>ap e us2 w2. api_request ap s us1 w1 e us2 w2 \<longrightarrow> e = Some ErrUserNotLoggedIn \<and> us2 = us1 \<and> w2 = w1)
    | Some ui \<Rightarrow> \<exists>ui1. userMap us1 s = Some ui1 \<and> identity ui1 = identity ui \<and> (Request s \<notin> set vs \<longrightarrow> ui1 = ui)"
proof (cases "userMap us s")
  case None
  then have "userMap us1 s = None" using run_session [OF assms] by (simp add: same_session_def)
  then show ?thesis using None by (auto dest: request_own simp: own_session_def)
next
  case (Some ui)
  then show ?thesis using run_session [OF assms] by (auto simp: same_session_def)
qed

text \<open>Bob asks for the statistics of a pod without a session, while Alice, who is logged in,
  commits the feeds of a pod that is not open.\<close>

lemma sessions_stay_apart_witness:
  "\<forall>(ap :: (unit, unit, unit, unit, unit) apienv) (ue :: (unit, unit, unit, unit, unit) userenv) acc w.
     let us = \<lparr>userMap = [''alice'' \<mapsto> new_user ue ''Alice'' ''alice'' acc None]\<rparr> in
     run {ap} [Request ''bob'', Request ''alice''] us w us w \<and>
     (case userMap us ''alice'' of None \<Rightarrow> False | Some ui \<Rightarrow> \<exists>ui1. userMap us ''alice'' = Some ui1 \<and> identity ui1 = identity ui)"
proof (intro allI)
  fix ap :: "(unit, unit, unit, unit, unit) apienv" and ue :: "(unit, unit, unit, unit, unit) userenv" and acc w
  let ?ui = "new_user ue ''Alice'' ''alice'' acc None"
  let ?us = "\<lparr>userMap = [''alice'' \<mapsto> ?ui]\<rparr>"
  have pods: "podMap (uiPod ?ui) = Map.empty" by (simp add: new_user_def NewPod_def Let_def)
  have bob: "server ap (Request ''bob'') ?us w ?us w"
    by (rule server.Ask [OF api_request.PodStat [of ap ?us "''p''"]])
      (simp add: API_PodStat_def with_user_def GetLoggedInUserInfo_def getUserFromMap_def)
  have alice: "server ap (Request ''alice'') ?us w ?us w"
    by (rule server.Ask [OF api_request.CommitPodFeeds [of ap ?us "''p''"]])
      (simp add: API_CommitPodFeeds_def with_user_def GetLoggedInUserInfo_def getUserFromMap_def on_pod_def
        Pod_CommitFeeds_def GetPodInfoFromPodMap_def pods)
  have r: "run {ap} [Request ''bob'', Request ''alice''] ?us w ?us w"
    by (rule run.Step [OF _ bob], simp, rule run.Step [OF _ alice], simp, rule run.Done)
  show "let us = ?us in run {ap} [Request ''bob'', Request ''alice''] us w us w \<and>
     (case userMap us ''alice'' of None \<Rightarrow> False | Some ui \<Rightarrow> \<exists>ui1. userMap us ''alice'' = Some ui1 \<and> identity ui1 = identity ui)"
    using r sessions_stay_apart [OF r, of "''alice''"] by simp
qed

end
