(* ===== verification/PublicLists.thy ===== *)
theory PublicLists
  imports DfsPods "HOL-Library.Multiset"
begin

text \<open>
  Listing a public pod: what the goroutines of PublicPodDisLs send, and when the loop that
  collects it ends.
\<close>

section \<open>What is sent\<close>

text \<open>The entries in what was sent, and the errors.\<close>

primrec sent_dir :: "event \<Rightarrow> DirEntry option" where
  "sent_dir (DirEvent i) = Some (dir_entry i)" | "sent_dir (FileEvent m) = None"
| "sent_dir (ErrEvent e) = None" | "sent_dir NoEvent = None"

primrec sent_file :: "event \<Rightarrow> FileEntry option" where
  "sent_file (DirEvent i) = None" | "sent_file (FileEvent m) = Some (file_entry m)"
| "sent_file (ErrEvent e) = None" | "sent_file NoEvent = None"

text \<open>A name for which a goroutine may end without a word: one without a mark, or the name
  of a file whose metadata is the deleted mark.\<close>

definition silent_name ::
  "('w, 'f, 'v, 'n, 'k) apienv \<Rightarrow> ShareInfo \<Rightarrow> string \<Rightarrow> string \<Rightarrow> bool" where
  "silent_name ap si path x \<longleftrightarrow> \<not> HasPrefix x dir_mark \<and>
     (HasPrefix x file_mark \<longrightarrow>
       (\<exists>v a v1. GetFeedData (public_sv ap si)
          (HashString (public_sv ap si) (CombinePathAndFile (CombinePathAndFile path (TrimPrefix x file_mark)) []))
          (HexToAddress (shAddress si)) (bytes_of (shPassword si)) v = (Inr (a, deleted_mark), v1)))"

lemma entry_event_silent: "entry_event ap tp si path x w = (NoEvent, w1) \<Longrightarrow> silent_name ap si path x"
  by (fastforce simp: entry_event_def silent_name_def Let_def split: if_splits sum.splits option.splits prod.splits)

lemma entry_events_length: "entry_events ap tp si path xs w = (evs, w1) \<Longrightarrow> length evs = length xs"
  by (induction xs arbitrary: w evs w1) (auto split: prod.splits)

lemma entry_events_silent:
  "entry_events ap tp si path xs w = (evs, w1) \<Longrightarrow> list_all2 (\<lambda>x ev. ev = NoEvent \<longrightarrow> silent_name ap si path x) xs evs"
  by (induction xs arbitrary: w evs w1) (auto split: prod.splits dest: entry_event_silent)

section \<open>What is collected\<close>

lemma collect_events_error:
  "\<exists>e. ErrEvent e \<in> set evs \<Longrightarrow> length ds + length fs + length evs \<le> n \<Longrightarrow>
    \<exists>e. ErrEvent e \<in> set evs \<and> collect_events n evs ds fs = Some (Inl e)"
proof (induction evs arbitrary: ds fs)
  case (Cons ev evs)
  show ?case
  proof (cases ev)
    case (DirEvent i) with Cons.prems Cons.IH [of "ds @ [dir_entry i]" fs] show ?thesis by auto
  next
    case (FileEvent m) with Cons.prems Cons.IH [of ds "fs @ [file_entry m]"] show ?thesis by auto
  next
    case NoEvent with Cons.prems Cons.IH [of ds fs] show ?thesis by auto
  qed auto
qed simp

lemma collect_events_all:
  "\<lbrakk>NoEvent \<notin> set evs; \<forall>e. ErrEvent e \<notin> set evs; n = length ds + length fs + length evs\<rbrakk> \<Longrightarrow>
    collect_events n evs ds fs = Some (Inr (ds @ List.map_filter sent_dir evs, fs @ List.map_filter sent_file evs))"
proof (induction evs arbitrary: ds fs)
  case (Cons ev evs) then show ?case by (cases ev) auto
qed simp

section \<open>The property\<close>

text \<open>C39: A listing of a public pod, in whatever order its goroutines send and whatever
  they find in the variable that they share.  If any of them
  fails, one of their errors is returned; if all of them send an entry, each is in the
  listing once, in the order of arrival.  If none fails and one sends nothing, then the
  loop never ends, and only an unmarked name or a deleted file that is still named in its
  directory sends nothing.\<close>

theorem PublicPodDisLs_outcome:
  assumes ord: "\<And>l. mset (ord l) = mset l"
    and dir: "public_inode ap si path path w = (Inr (Some i), w1)"
    and events: "entry_events ap tp si path (FileOrDirNames i) w1 = (evs, w2)"
  shows "\<exists>r. PublicPodDisLs ap tp ord si path w = (r, w2) \<and>
    ((\<exists>e. ErrEvent e \<in> set evs) \<longrightarrow> (\<exists>e. ErrEvent e \<in> set evs \<and> r = Some (Inl e))) \<and>
    ((\<forall>e. ErrEvent e \<notin> set evs) \<longrightarrow> NoEvent \<notin> set evs \<longrightarrow>
       r = Some (Inr (List.map_filter sent_dir (ord evs), List.map_filter sent_file (ord evs)))) \<and>
    ((\<forall>e. ErrEvent e \<notin> set evs) \<longrightarrow> NoEvent \<in> set evs \<longrightarrow> r = None) \<and>
    list_all2 (\<lambda>x ev. ev = NoEvent \<longrightarrow> silent_name ap si path x) (FileOrDirNames i) evs"
proof -
  let ?n = "length (FileOrDirNames i)"
  have s: "set (ord evs) = set evs" by (metis ord set_mset_mset)
  have l: "length (ord evs) = ?n"
    using mset_eq_length [OF ord] entry_events_length [OF events] by simp
  have p: "PublicPodDisLs ap tp ord si path w = (collect_events ?n (ord evs) [] [], w2)"
    by (simp add: PublicPodDisLs_def dir events)
  have "collect_events ?n (ord evs) [] [] = None" if "\<forall>e. ErrEvent e \<notin> set evs" "NoEvent \<in> set evs"
    using collect_events_returns [of "[]" "[]" "ord evs" ?n] that by (auto simp: l s arrives_def)
  moreover have "\<exists>e. ErrEvent e \<in> set evs \<and> collect_events ?n (ord evs) [] [] = Some (Inl e)"
    if "\<exists>e. ErrEvent e \<in> set evs"
    using collect_events_error [of "ord evs" "[]" "[]" ?n] that by (simp add: l s)
  moreover have "collect_events ?n (ord evs) [] []
      = Some (Inr (List.map_filter sent_dir (ord evs), List.map_filter sent_file (ord evs)))"
    if "\<forall>e. ErrEvent e \<notin> set evs" "NoEvent \<notin> set evs"
    using collect_events_all [of "ord evs" ?n "[]" "[]"] that by (simp add: l s)
  ultimately show ?thesis using p entry_events_silent [OF events] by (intro exI [of _ "collect_events ?n (ord evs) [] []"]) blast
qed

section \<open>Two listings\<close>

text \<open>Feeds kept as a map from topics, which are the texts themselves.\<close>

definition shelf :: "(bytes \<rightharpoonup> content) services" where
  "shelf = \<lparr>IsReadOnlyFeed = (\<lambda>w. True),
     GetFeedData = (\<lambda>t a p w. (case w t of None \<Rightarrow> Inl (Service ''feed'') | Some c \<Rightarrow> Inr (t, c), w)),
     CreateFeed = (\<lambda>a t c p w. (Inl ErrReadOnlyFeed, w)), UpdateFeed = (\<lambda>a t c p w. (Inl ErrReadOnlyFeed, w)),
     UploadBlob = (\<lambda>c w. (Inl (Service ''blob''), w)), DownloadBlob = (\<lambda>r w. (Inl (Service ''blob''), w)),
     DeleteReference = (\<lambda>r w. (Inl (Service ''blob''), w)), NowUnix = (\<lambda>w. (0, w)),
     DeleteFeedFromTopic = (\<lambda>t a w. (Inl ErrReadOnlyFeed, w)), HashString = bytes_of, DocLen = (\<lambda>d. 0)\<rparr>"

definition on_shelf ::
  "(bytes \<rightharpoonup> content, 'f, 'v, 'n, 'k) apienv \<Rightarrow> (bytes \<rightharpoonup> content, 'f, 'v, 'n, 'k) apienv" where
  "on_shelf ap = ap\<lparr>apUsers := (apUsers ap)\<lparr>uePods := (ap_pods ap)\<lparr>peFeed := (\<lambda>ai. shelf)\<rparr>\<rparr>\<rparr>"

definition shelf_root :: "DirMeta \<Rightarrow> string list \<Rightarrow> Inode" where
  "shelf_root dm names = \<lparr>iMeta = dm, FileOrDirNames = names\<rparr>"

definition shelf_world :: "DirMeta \<Rightarrow> FileMeta \<Rightarrow> string list \<Rightarrow> bytes \<rightharpoonup> content" where
  "shelf_world dm m names = [bytes_of ''/'' \<mapsto> Doc (DInode (shelf_root dm names)), bytes_of ''/a'' \<mapsto> Doc (DFileMeta m),
     bytes_of ''/b'' \<mapsto> deleted_mark]"

lemma shelf_sv: "public_sv (on_shelf ap) si = shelf"
  by (simp add: public_sv_def on_shelf_def)

lemma shelf_look:
  "shelf_world dm m names (bytes_of ''/'') = Some (Doc (DInode (shelf_root dm names)))"
  "shelf_world dm m names (bytes_of ''/a'') = Some (Doc (DFileMeta m))"
  "shelf_world dm m names (bytes_of ''/b'') = Some deleted_mark"
  "shelf_world dm m names (bytes_of ''/index.dfs'') = None"
  by (simp_all add: shelf_world_def bytes_of_def)

lemma shelf_dir:
  "public_inode (on_shelf ap) si ''/'' ''/'' (shelf_world dm m names) = (Inr (Some (shelf_root dm names)), shelf_world dm m names)"
proof -
  have p: "CombinePathAndFile ''/'' IndexFileName = ''/index.dfs''" by code_simp
  show ?thesis
    by (simp add: public_inode_def shelf_sv p) (simp add: shelf_def shelf_look inode_of_feed_def deleted_mark_def)
qed

lemma shelf_events:
  "entry_event (on_shelf ap) tp si ''/'' ''_F_a'' (shelf_world dm m names) = (FileEvent m, shelf_world dm m names)"
  "entry_event (on_shelf ap) tp si ''/'' ''_F_b'' (shelf_world dm m names) = (NoEvent, shelf_world dm m names)"
proof -
  have a: "CombinePathAndFile (CombinePathAndFile ''/'' (TrimPrefix ''_F_a'' file_mark)) [] = ''/a''"
    "\<not> HasPrefix ''_F_a'' dir_mark" "HasPrefix ''_F_a'' file_mark" by code_simp+
  have b: "CombinePathAndFile (CombinePathAndFile ''/'' (TrimPrefix ''_F_b'' file_mark)) [] = ''/b''"
    "\<not> HasPrefix ''_F_b'' dir_mark" "HasPrefix ''_F_b'' file_mark" by code_simp+
  show "entry_event (on_shelf ap) tp si ''/'' ''_F_a'' (shelf_world dm m names) = (FileEvent m, shelf_world dm m names)"
    by (simp add: entry_event_def shelf_sv a) (simp add: shelf_def shelf_look public_meta_def deleted_mark_def)
  show "entry_event (on_shelf ap) tp si ''/'' ''_F_b'' (shelf_world dm m names) = (NoEvent, shelf_world dm m names)"
    by (simp add: entry_event_def shelf_sv b) (simp add: shelf_def shelf_look)
qed

text \<open>A directory with the file a is listed; with the deleted file b in it too it never is.\<close>

lemma PublicPodDisLs_outcome_witness:
  "\<forall>(ap :: (bytes \<rightharpoonup> content, unit, unit, unit, unit) apienv) tp si dm m.
     PublicPodDisLs (on_shelf ap) tp rev si ''/'' (shelf_world dm m [''_F_a''])
       = (Some (Inr ([], [file_entry m])), shelf_world dm m [''_F_a''])
     \<and> PublicPodDisLs (on_shelf ap) tp rev si ''/'' (shelf_world dm m [''_F_a'', ''_F_b''])
       = (None, shelf_world dm m [''_F_a'', ''_F_b''])"
proof (intro allI conjI)
  fix ap :: "(bytes \<rightharpoonup> content, unit, unit, unit, unit) apienv" and tp si dm m
  have r: "mset (rev l) = mset l" for l :: "event list" by simp
  let ?w1 = "shelf_world dm m [''_F_a'']" and ?w2 = "shelf_world dm m [''_F_a'', ''_F_b'']"
  have "entry_events (on_shelf ap) tp si ''/'' (FileOrDirNames (shelf_root dm [''_F_a''])) ?w1 = ([FileEvent m], ?w1)"
    by (simp add: shelf_root_def shelf_events)
  from PublicPodDisLs_outcome [OF r shelf_dir this]
  show "PublicPodDisLs (on_shelf ap) tp rev si ''/'' ?w1 = (Some (Inr ([], [file_entry m])), ?w1)"
    by (simp add: map_filter_simps)
  have "entry_events (on_shelf ap) tp si ''/'' (FileOrDirNames (shelf_root dm [''_F_a'', ''_F_b''])) ?w2 = ([FileEvent m, NoEvent], ?w2)"
    by (simp add: shelf_root_def shelf_events)
  from PublicPodDisLs_outcome [OF r shelf_dir this]
  show "PublicPodDisLs (on_shelf ap) tp rev si ''/'' ?w2 = (None, ?w2)" by simp
qed

end
