(* ===== verification/Names.thy ===== *)
theory Names
  imports UserModel
begin

text \<open>
  What the name service publishes.  The locale resolver_contract states the two laws of
  the resolver that the client of theory Ens relies on; the property says which public
  key another user reads after SetAll.  The locale is interpreted on a chain in memory,
  on which the logins of theory Logins run too.
\<close>

section \<open>The resolver\<close>

locale resolver_contract =
  fixes ct :: "'w contracts" and ec :: "'w chain" and keys :: "'w \<Rightarrow> bytes \<Rightarrow> bytes \<times> bytes"
  assumes set_pubkey: "crSetPubkey ct opts node x y w = (Inr tx, w1) \<Longrightarrow> keys w1 node = (x, y)"
    and get_all: "crGetAll ct node w = (Inr (a, x, y), w1) \<Longrightarrow> (x, y) = keys w node"
    and receipt: "ecTransactionReceipt ec tx w = (rr, w1) \<Longrightarrow> keys w1 = keys w"
    and block: "ecBlockNumber ec w = (rb, w1) \<Longrightarrow> keys w1 = keys w"
    and header: "ecHeaderByNumber ec n w = (rh, w1) \<Longrightarrow> keys w1 = keys w"
    and wait: "keys (ecWait ec w) = keys w"
begin

lemma round_keys: "receipt_round ec tx w = (p, w1) \<Longrightarrow> keys w1 = keys w"
  by (auto simp: receipt_round_def Let_def dest!: receipt block header split: prod.splits sum.splits if_splits)

lemma rounds_keys: "receipt_rounds ec tx n w = (r, w1) \<Longrightarrow> keys w1 = keys w"
proof (induction n arbitrary: w)
  case 0 then show ?case by (auto dest: round_keys split: prod.splits poll.splits)
next
  case (Suc n)
  then show ?case using wait by (fastforce dest: round_keys split: prod.splits poll.splits)
qed

lemma transact_keys:
  assumes "transact ec send w = (Inr u, w1)"
  shows "\<exists>tx w0. send w = (Inr tx, w0) \<and> keys w1 = keys w0"
  using assms by (auto simp: transact_def checkReceipt_def dest!: rounds_keys split: prod.splits sum.splits)

lemma set_then_get:
  assumes "ENS_SetAll cf ct ec name owner (Some k) w = (Inr (), w1)" "ENS_GetInfo cf ct name w1 = (Inr (pub, h), w2)"
  shows "pub = (big_SetBytes (copy32 (big_Bytes (fst (keyPublic ct k)))), big_SetBytes (copy32 (big_Bytes (snd (keyPublic ct k)))))"
    "ENS_GetNameHash cf ct name = Inr node \<Longrightarrow> h = Encode node"
proof -
  from assms(1) obtain nd opts w0 where n: "goNameHash ct (name @ ''.'' @ ProviderDomain cf) = Inr nd"
    and t: "transact ec (crSetPubkey ct opts nd (copy32 (big_Bytes (fst (keyPublic ct k)))) (copy32 (big_Bytes (snd (keyPublic ct k))))) w0
      = (Inr (), w1)"
    by (auto simp: ENS_SetAll_def Let_def split: sum.splits prod.splits)
  from transact_keys [OF t] have k: "keys w1 nd = (copy32 (big_Bytes (fst (keyPublic ct k))), copy32 (big_Bytes (snd (keyPublic ct k))))"
    by (auto dest: set_pubkey)
  from assms(2) n obtain a x y where g: "crGetAll ct nd w1 = (Inr (a, x, y), w2)" "pub = (big_SetBytes x, big_SetBytes y)" "h = Encode nd"
    by (auto simp: ENS_GetInfo_def ENS_GetInfoFromNameHash_def split: sum.splits prod.splits)
  from get_all [OF g(1)] k g(2) show
    "pub = (big_SetBytes (copy32 (big_Bytes (fst (keyPublic ct k)))), big_SetBytes (copy32 (big_Bytes (snd (keyPublic ct k)))))" by simp
  show "ENS_GetNameHash cf ct name = Inr node \<Longrightarrow> h = Encode node" using n g(3) by (simp add: ENS_GetNameHash_def)
qed

end

section \<open>The published key\<close>

text \<open>C40: The key that is published is the key of the user only if each coordinate is zero
  or at least 256 to the 31: a shorter coordinate arrives multiplied by 256 for every byte
  that it is short of 32.  The name hash that comes with it is that of the name.\<close>

theorem published_key:
  assumes "resolver_contract ct ec keys" "keyPublic ct k = (x, y)" "x < 256 ^ 32" "y < 256 ^ 32"
    "ENS_SetAll cf ct ec name owner (Some k) w = (Inr (), w1)" "ENS_GetInfo cf ct name w1 = (Inr (pub, h), w2)"
  shows "pub = (x * 256 ^ (32 - length (big_Bytes x)), y * 256 ^ (32 - length (big_Bytes y)))
    \<and> (pub = (x, y) \<longleftrightarrow> (x = 0 \<or> 256 ^ 31 \<le> x) \<and> (y = 0 \<or> 256 ^ 31 \<le> y))
    \<and> ENS_GetNameHash cf ct name = Inr (the (HexDecode h))"
proof -
  note pub = resolver_contract.set_then_get(1) [OF assms(1,5,6), unfolded assms(2) fst_conv snd_conv]
  from assms(5) obtain node where n: "ENS_GetNameHash cf ct name = Inr node"
    by (auto simp: ENS_SetAll_def ENS_GetNameHash_def split: sum.splits)
  have "h = HexEncode node"
    using resolver_contract.set_then_get(2) [OF assms(1,5,6) n] by (simp add: Encode_def)
  then show ?thesis
    using n copy32_exact [OF assms(3)] copy32_exact [OF assms(4)] copy32_big [OF assms(3)] copy32_big [OF assms(4)]
    by (simp add: pub)
qed

section \<open>A chain in memory\<close>

text \<open>Every transaction succeeds at once.  Owners are kept by label, keys by node; a node is
  the full name, a label the number of the name.\<close>

record names =
  nmOwner :: "nat \<Rightarrow> Address"
  nmKeys :: "bytes \<Rightarrow> bytes \<times> bytes"

definition mem_chain :: "'w chain" where
  "mem_chain = \<lparr>ecPendingNonceAt = (\<lambda>a w. (Inr 0, w)), ecSuggestGasPrice = (\<lambda>w. (Inr 1, w)), ecChainID = (\<lambda>w. (Inr 1, w)),
     ecBalanceAt = (\<lambda>a w. (Inr minRequiredBalance, w)), ecKeyedTransactor = (\<lambda>k c. Inr ()),
     ecTransactionReceipt = (\<lambda>tx w. (Inr \<lparr>rcStatus = 1, rcBlockNumber = 0\<rparr>, w)), ecBlockNumber = (\<lambda>w. (Inr 2, w)),
     ecHeaderByNumber = (\<lambda>n w. (Inr (), w)), ecWait = (\<lambda>w. w), ecPolls = 0\<rparr>"

definition node_label :: "ENSConfig \<Rightarrow> bytes \<Rightarrow> nat" where
  "node_label cf node = big_SetBytes (take (length node - Suc (length (ProviderDomain cf))) node)"

definition mem_contracts :: "ENSConfig \<Rightarrow> ('x \<times> names) contracts" where
  "mem_contracts cf = \<lparr>goNameHash = (\<lambda>s. Inr (bytes_of s)), legacyKeccak = (\<lambda>b. b),
     keyPublic = (\<lambda>k. (big_SetBytes (take 32 k), big_SetBytes (drop 32 k))),
     crOwner = (\<lambda>node (x, nm). (Inr (nmOwner nm (node_label cf node)), x, nm)),
     crSetResolver = (\<lambda>opts node a w. (Inr [2], w)),
     crRegister = (\<lambda>opts label owner exp (x, nm). (Inr [1], x, nm\<lparr>nmOwner := (nmOwner nm)(label := owner)\<rparr>)),
     crSetPubkey = (\<lambda>opts node a b (x, nm). (Inr [3], x, nm\<lparr>nmKeys := (nmKeys nm)(node := (a, b))\<rparr>)),
     crGetAll = (\<lambda>node (x, nm). (Inr (zero_address, nmKeys nm node), x, nm))\<rparr>"

interpretation mem_resolver: resolver_contract "mem_contracts cf :: ('x \<times> names) contracts" mem_chain "\<lambda>w. nmKeys (snd w)" for cf
  by unfold_locales (auto simp: mem_contracts_def mem_chain_def split: prod.splits)

lemma mem_transact [simp]:
  "transact mem_chain send w = (case send w of (Inl e, w1) \<Rightarrow> (Inl e, w1) | (Inr tx, w1) \<Rightarrow> (Inr (), w1))"
  by (auto simp: transact_def checkReceipt_def receipt_round_def mem_chain_def additionalConfirmations_def
      split: prod.splits sum.splits)

lemma mem_transactor [simp]:
  "newTransactor mem_chain (Some k) a v w = (Inr \<lparr>toSigner = (k, 1), toNonce = 0, toValue = v, toGasLimit = 1000000,
     toGasPrice = 1, toFrom = a\<rparr>, w)"
  by (simp add: newTransactor_def mem_chain_def)

lemma big_Bytes_7: "big_Bytes 7 = [7]" "big_Bytes 0 = []"
  by (simp_all add: big_Bytes.simps)

text \<open>A key with the coordinates 7 and 0.\<close>

lemma published_key_witness:
  "\<forall>cf (nm :: names). \<exists>w1 w2 pub h.
     ENS_SetAll cf (mem_contracts cf) mem_chain ''alice'' zero_address (Some [7]) ((), nm) = (Inr (), w1)
     \<and> ENS_GetInfo cf (mem_contracts cf) ''alice'' w1 = (Inr (pub, h), w2)
     \<and> pub = (7 * 256 ^ 31, 0) \<and> pub \<noteq> (7, 0) \<and> ENS_GetNameHash cf (mem_contracts cf :: (unit \<times> names) contracts) ''alice'' = Inr (the (HexDecode h))"
proof (intro allI)
  fix cf and nm :: names
  let ?ct = "mem_contracts cf :: (unit \<times> names) contracts"
  have k: "keyPublic ?ct [7] = (7, 0)" by (simp add: mem_contracts_def big_SetBytes_def)
  obtain w1 where s: "ENS_SetAll cf ?ct mem_chain ''alice'' zero_address (Some [7]) ((), nm) = (Inr (), w1)"
    unfolding ENS_SetAll_def Let_def k by (simp add: mem_contracts_def)
  obtain pub h w2 where g: "ENS_GetInfo cf ?ct ''alice'' w1 = (Inr (pub, h), w2)"
    by (cases w1; cases "nmKeys (snd w1) (bytes_of (''alice'' @ ''.'' @ ProviderDomain cf))")
      (auto simp: ENS_GetInfo_def ENS_GetInfoFromNameHash_def mem_contracts_def)
  have "pub = (7 * 256 ^ 31, 0) \<and> ENS_GetNameHash cf ?ct ''alice'' = Inr (the (HexDecode h))"
    using published_key [OF mem_resolver.resolver_contract_axioms k _ _ s g] by (simp add: big_Bytes_7)
  then show "\<exists>w1 w2 pub h. ENS_SetAll cf ?ct mem_chain ''alice'' zero_address (Some [7]) ((), nm) = (Inr (), w1)
     \<and> ENS_GetInfo cf ?ct ''alice'' w1 = (Inr (pub, h), w2)
     \<and> pub = (7 * 256 ^ 31, 0) \<and> pub \<noteq> (7, 0) \<and> ENS_GetNameHash cf ?ct ''alice'' = Inr (the (HexDecode h))"
    using s g by (intro exI [of _ w1] exI [of _ w2] exI [of _ pub] exI [of _ h]) simp
qed

end
