(* ===== verification/Logins.thy ===== *)
theory Logins
  imports Names MemSwarm
begin

text \<open>
  Signing up and logging in.  The locale accounts states what the users rely on: a name
  has the owner that was registered for it, reading changes nothing, and a chunk that was
  made from a topic is read back by every user who knows the topic and the address.  The
  property: whoever signs up can log in with the same name and password, at any later
  time, to the same account; signing up stores one portable account and touches no other,
  so a password under which none was stored before is refused.  (The passwords of earlier
  sign-ups with the same name and mnemonic go on working: nothing removes their chunks.)

  The locale is interpreted on the client of theory Ens over the chain in memory and on
  the feed API over the Swarm in memory.
\<close>

section \<open>The interface\<close>

locale accounts =
  fixes ue :: "('w, 'f, 'v, 'n, 'k) userenv"
    and good :: "'w \<Rightarrow> bool"
    and owner :: "'w \<Rightarrow> string \<Rightarrow> Address"
    and chunk_at :: "'w \<Rightarrow> Address \<times> bytes \<Rightarrow> content option"
  assumes owner_length: "good w \<Longrightarrow> length (owner w n) = AddressLength"
    and get_owner: "\<lbrakk>good w; GetOwner (ueEns ue) n w = (ra, w1)\<rbrakk> \<Longrightarrow>
        ra = Inr (owner w n) \<and> good w1 \<and> owner w1 = owner w \<and> chunk_at w1 = chunk_at w"
    and get_info: "\<lbrakk>good w; GetInfo (ueEns ue) n w = (ri, w1)\<rbrakk> \<Longrightarrow>
        (\<exists>p h. ri = Inr (Some p, h)) \<and> good w1 \<and> owner w1 = owner w \<and> chunk_at w1 = chunk_at w"
    and register: "\<lbrakk>good w; length a = AddressLength; RegisterSubdomain (ueEns ue) n a k w = (ru, w1)\<rbrakk> \<Longrightarrow>
        good w1 \<and> chunk_at w1 = chunk_at w \<and> (ru = Inr () \<longrightarrow> owner w1 n = a)"
    and resolver: "\<lbrakk>good w; SetResolver (ueEns ue) n a k w = (rs, w1)\<rbrakk> \<Longrightarrow>
        good w1 \<and> owner w1 = owner w \<and> chunk_at w1 = chunk_at w"
    and set_all: "\<lbrakk>good w; SetAll (ueEns ue) n a k w = (ru, w1)\<rbrakk> \<Longrightarrow>
        good w1 \<and> owner w1 = owner w \<and> chunk_at w1 = chunk_at w"
    and create: "\<lbrakk>good w; ueCreateTopic ue ai t a c w = (rb, w1)\<rbrakk> \<Longrightarrow>
        good w1 \<and> owner w1 = owner w \<and> (\<forall>x. rb = Inr x \<longrightarrow> chunk_at w1 = (chunk_at w)((a, t) \<mapsto> c))"
    and get_topic: "\<lbrakk>good w; ueGetTopic ue ai t a w = (rt, w1)\<rbrakk> \<Longrightarrow>
        good w1 \<and> owner w1 = owner w \<and> chunk_at w1 = chunk_at w
        \<and> (case chunk_at w (a, t) of Some c \<Rightarrow> \<exists>x. rt = Inr (x, c) | None \<Rightarrow> \<exists>e. rt = Inl e \<and> \<not> panicking e)"
begin

lemma createENS_owner:
  assumes "good w" "createENS ue n ai w = (Inr h, w1)"
  shows "good w1 \<and> owner w1 n = HexToAddress (user_hex ue (aiAddress ai)) \<and> chunk_at w1 = chunk_at w"
proof -
  let ?a = "HexToAddress (user_hex ue (aiAddress ai))"
  from assms(2) obtain u w2 nh w3 u2 where
    r: "RegisterSubdomain (ueEns ue) n ?a (aiKey ai) w = (Inr u, w2)" and
    s: "SetResolver (ueEns ue) n ?a (aiKey ai) w2 = (Inr nh, w3)" and
    t: "SetAll (ueEns ue) n ?a (aiKey ai) w3 = (Inr u2, w1)"
    by (auto simp: createENS_def Let_def split: prod.splits sum.splits)
  from register [OF assms(1) HexToAddress_length r] resolver [OF _ s] set_all [OF _ t] show ?thesis by simp
qed

lemma upload_chunk:
  assumes "good w" "uploadPortableAccount ue ai n pw c w = (Inr u, w1)"
  shows "good w1 \<and> owner w1 = owner w \<and> chunk_at w1 = (chunk_at w)((aiAddress ai, portable_topic ue n pw) \<mapsto> c)"
  using assms(2) create [OF assms(1)]
  by (fastforce simp: uploadPortableAccount_def split: prod.splits sum.splits)

lemma download_chunk:
  assumes "good w"
  shows "\<exists>w1. good w1 \<and> owner w1 = owner w \<and> chunk_at w1 = chunk_at w \<and>
    (case chunk_at w (a, portable_topic ue n pw) of
       Some c \<Rightarrow> downloadPortableAccount ue ai a n pw w = (Inr c, w1)
     | None \<Rightarrow> \<exists>e. downloadPortableAccount ue ai a n pw w = (Inl e, w1) \<and> \<not> panicking e)"
proof -
  obtain r w1 where g: "ueGetTopic ue ai (portable_topic ue n pw) a w = (r, w1)" by fastforce
  from get_topic [OF assms g] g show ?thesis
    by (intro exI [of _ w1]) (auto simp: downloadPortableAccount_def split: option.splits)
qed

lemma available:
  assumes "good w"
  shows "\<exists>w1. IsUsernameAvailableV2 ue n w = (user_hex ue (owner w n) \<noteq> zeroAddressHex, w1)
    \<and> good w1 \<and> owner w1 = owner w \<and> chunk_at w1 = chunk_at w"
proof -
  obtain r w1 where g: "GetOwner (ueEns ue) n w = (r, w1)" by fastforce
  from get_owner [OF assms g] g show ?thesis by (auto simp: IsUsernameAvailableV2_def)
qed

end

section \<open>Seeds\<close>

text \<open>What is asked of the wallet library: the seed of a mnemonic has 64 bytes and is what the
  wallet made of the mnemonic derives its keys from.\<close>

definition seeds_ok :: "hdlib \<Rightarrow> bool" where
  "seeds_ok wl \<longleftrightarrow> (\<forall>m x y. NewFromMnemonic wl m = Inr x \<longrightarrow> NewSeedFromMnemonic wl m = Inr y \<longrightarrow>
     y = x \<and> length y = seedSize \<and> NewFromSeed wl y = Inr ())"

lemma create_then_load:
  assumes "seeds_ok wl" "CreateUserAccount wl mn NewAccount = (Inr (m, seed), acc)"
  shows "length seed = seedSize \<and> (\<exists>acc2. LoadUserAccountFromSeed wl seed NewAccount = (Inr (), acc2) \<and> acUser acc2 = acUser acc)
    \<and> aiKey (acUser acc) \<noteq> None \<and> length (aiAddress (acUser acc)) = AddressLength"
proof -
  from assms(2) obtain w0 hdw u ai where l: "LoadMnemonicAndCreateRootAccount wl mn (newWallet None) = (Inr m, w0)"
    and h: "NewFromMnemonic wl m = Inr hdw" and k: "set_keys wl hdw rootPath (acUser NewAccount) = (Inr u, ai)"
    and s: "NewSeedFromMnemonic wl m = Inr seed" and acc: "acUser acc = ai"
    by (auto simp: CreateUserAccount_def NewAccount_def Let_def split: prod.splits sum.splits)
  from assms(1) h s have seed: "seed = hdw" "length seed = seedSize" "NewFromSeed wl seed = Inr ()"
    by (auto simp: seeds_ok_def)
  from l h have d: "Derive wl seed rootPath = Inr ()"
    by (auto simp: LoadMnemonicAndCreateRootAccount_def seed split: prod.splits sum.splits if_splits)
  from k obtain b where "aiAddress ai = SetBytes b zero_address"
    by (auto simp: set_keys_def NewAccount_def GetEmptyAccountInfo_def Let_def split: sum.splits)
  then have a: "length (aiAddress ai) = AddressLength" using length_bytesToAddress [of b] by (simp add: bytesToAddress_def)
  have "LoadUserAccountFromSeed wl seed NewAccount
      = (Inr (), NewAccount\<lparr>acWallet := \<lparr>waSeed = Some seed\<rparr>, acUser := ai\<rparr>)"
    using seed k d
    by (simp add: LoadUserAccountFromSeed_def CreateAccountFromSeed_def NewAccount_def newWallet_def Let_def)
  with seed(2) acc a set_keys_ok [OF k] show ?thesis by simp
qed

lemma pad_then_remove:
  assumes "PadSeed rand seed pw = Inr c" "length seed = seedSize" "\<And>n r. rand n = Inr r \<Longrightarrow> length r = n" "\<And>b. data_of (Raw b) = b"
  shows "RemovePadFromSeed bc data_of c pw = Inr seed"
proof -
  from assms(1) obtain r where r: "rand (MaxChunkLength - aesBlockSize - seedSize) = Inr r"
    and c: "c = EncryptBytes (bytes_of pw) (Raw (seed @ r))"
    by (auto simp: PadSeed_def Let_def split: sum.splits)
  from assms(3) [OF r] assms(2) have "length (seed @ r) = 4080"
    by (simp add: MaxChunkLength_def aesBlockSize_def seedSize_def)
  then show ?thesis using assms(2,4) by (simp add: c EncryptBytes_def RemovePadFromSeed_def DecryptBytes_def)
qed

section \<open>The property\<close>

context accounts
begin

lemma CreateNewUser_stored:
  assumes "good w" "CreateNewUserV2 ue us name pw mn s w = (Some su, Inr (), us1, w1)" "seeds_ok (peWallet (uePods ue))"
  shows "\<exists>m seed acc c ui. CreateUserAccount (peWallet (uePods ue)) mn NewAccount = (Inr (m, seed), acc)
    \<and> PadSeed (ueRand ue) seed pw = Inr c \<and> owner w1 name = aiAddress (acUser acc)
    \<and> chunk_at w1 = (chunk_at w)((owner w1 name, portable_topic ue name pw) \<mapsto> c) \<and> good w1
    \<and> srUserInfo su = Some ui \<and> ui_account ui = acc \<and> srAddress su = user_hex ue (aiAddress (acUser acc))"
proof -
  from assms(2) have names: "name \<noteq> []" "pw \<noteq> []" "\<not> length pw < minPasswordLength" "isUserNameValid name"
    by (auto simp: CreateNewUserV2_def split: if_splits)
  obtain ra wa where o: "GetOwner (ueEns ue) name w = (ra, wa)" by fastforce
  note go = get_owner [OF assms(1) o]
  obtain rc acc where c: "CreateUserAccount (peWallet (uePods ue)) mn NewAccount = (rc, acc)" by fastforce
  from assms(2) names o go c obtain m seed where rc: "rc = Inr (m, seed)"
    by (cases rc) (auto simp: CreateNewUserV2_def)
  let ?ai = "acUser acc"
  have len: "length (aiAddress ?ai) = AddressLength" using create_then_load [OF assms(3)] c rc by blast
  let ?o = "owner w name"
  from assms(2) names o go c rc have who: "user_hex ue ?o = zeroAddressHex \<or> user_hex ue ?o = user_hex ue (aiAddress ?ai)"
    by (auto simp: CreateNewUserV2_def Let_def split: if_splits)
  obtain rn wb where n: "name_hash ue name ?o ?ai wa = (rn, wb)" by fastforce
  from assms(2) names o go c rc who n obtain h where rn: "rn = Inr h"
    by (cases rn) (auto simp: CreateNewUserV2_def Let_def split: if_splits)
  obtain rs wc where st: "store_account ue name pw seed ?ai wb = (rs, wc)" by fastforce
  from assms(2) names o go c rc who n rn st obtain u where rs: "rs = Inr u"
    by (cases rs) (auto simp: CreateNewUserV2_def Let_def)
  from assms(2) names o go c rc who n rn st rs have fin: "wc = w1" "srAddress su = user_hex ue (aiAddress ?ai)"
    "\<exists>ui. srUserInfo su = Some ui \<and> ui_account ui = acc"
    by (auto simp: CreateNewUserV2_def Let_def new_user_def NewPod_def split: sum.splits)
  from n rn go have wb: "good wb \<and> chunk_at wb = chunk_at w \<and> (user_hex ue ?o = zeroAddressHex \<longrightarrow> owner wb name = aiAddress ?ai)
      \<and> (user_hex ue ?o \<noteq> zeroAddressHex \<longrightarrow> owner wb = owner w)"
  proof (cases "user_hex ue ?o = zeroAddressHex")
    case True
    with n rn have "createENS ue name ?ai wa = (Inr h, wb)" by (simp add: name_hash_def)
    from createENS_owner [OF _ this] go True show ?thesis by (simp add: user_hex_def HexToAddress_Hex [OF len])
  next
    case False
    obtain ri wi where g: "GetInfo (ueEns ue) name wa = (ri, wi)" by fastforce
    from get_info [OF _ g] go False n rn g show ?thesis by (auto simp: name_hash_def split: sum.splits prod.splits)
  qed
  from st rs obtain k where k: "PadSeed (ueRand ue) seed pw = Inr k" "uploadPortableAccount ue ?ai name pw k wb = (Inr u, wc)"
    by (auto simp: store_account_def split: sum.splits)
  from upload_chunk [OF _ k(2)] wb have up: "good wc" "owner wc = owner wb" "chunk_at wc = (chunk_at w)((aiAddress ?ai, portable_topic ue name pw) \<mapsto> k)"
    by auto
  have own: "owner w1 name = aiAddress ?ai"
  proof (cases "user_hex ue ?o = zeroAddressHex")
    case False
    with who have "user_hex ue ?o = user_hex ue (aiAddress ?ai)" by simp
    then have "owner w name = aiAddress ?ai"
      using Address_Hex_inj owner_length [OF assms(1)] len by (auto simp: user_hex_def)
    then show ?thesis using False wb up(2) fin(1) by simp
  qed (use wb up fin in simp)
  show ?thesis using c rc k(1) own up(1,3) fin by auto
qed

text \<open>Logging in later, in a world in which the name and the chunk are still there.\<close>

lemma LoginUser_loads:
  assumes "good w" "seeds_ok (peWallet (uePods ue))" "\<And>n r. ueRand ue n = Inr r \<Longrightarrow> length r = n" "\<And>b. ueData ue (Raw b) = b"
    "CreateUserAccount (peWallet (uePods ue)) mn NewAccount = (Inr (m, seed), acc)" "PadSeed (ueRand ue) seed pw = Inr c"
    "user_hex ue (owner w name) \<noteq> zeroAddressHex" "chunk_at w (owner w name, portable_topic ue name pw) = Some c"
    "\<not> IsUserLoggedIn us s"
  shows "\<exists>lr w'. LoginUserV2 ue us name pw s w = (Inr lr, addUserToMap (lrUserInfo lr) us, w')
    \<and> lrAddress lr = user_hex ue (owner w name) \<and> acUser (ui_account (lrUserInfo lr)) = acUser acc
    \<and> uiName (lrUserInfo lr) = name"
proof -
  note load = create_then_load [OF assms(2,5)]
  then obtain acc2 where l: "LoadUserAccountFromSeed (peWallet (uePods ue)) seed NewAccount = (Inr (), acc2)"
    "acUser acc2 = acUser acc" by blast
  have seed: "RemovePadFromSeed (ueBee ue) (ueData ue) c pw = Inr seed"
    by (rule pad_then_remove [OF assms(6) _ assms(3,4)]) (use load in auto)
  obtain wa where a: "IsUsernameAvailableV2 ue name w = (True, wa)" "good wa" "owner wa = owner w" "chunk_at wa = chunk_at w"
    using available [OF assms(1), of name] assms(7) by auto
  obtain ro wb where o: "GetOwner (ueEns ue) name wa = (ro, wb)" by fastforce
  from get_owner [OF a(2) o] a(3,4) have b: "ro = Inr (owner w name)" "good wb" "owner wb = owner w" "chunk_at wb = chunk_at w" by auto
  obtain wc where d: "downloadPortableAccount ue (acUser NewAccount) (owner w name) name pw wb = (Inr c, wc)" "good wc"
    using download_chunk [OF b(2), where a = "owner w name" and n = name and pw = pw and ai = "acUser NewAccount"] b(4) assms(8) by auto
  obtain ri wd where g: "GetInfo (ueEns ue) name wc = (ri, wd)" by fastforce
  from get_info [OF d(2) g] obtain pub h where ri: "ri = Inr (Some pub, h)" by auto
  obtain k where "aiKey (acUser acc2) = Some k" using load l(2) by auto
  then obtain act where act: "NewACT acc2 = Inr act" by (simp add: NewACT_def)
  show ?thesis
    using assms(9) a(1) o b(1) d(1) g ri seed l act
    by (simp add: LoginUserV2_def start_session_def new_user_def NewPod_def Let_def)
qed

lemma LoginUser_refused:
  assumes "good w" "chunk_at w (owner w name, portable_topic ue name pw) = None" "\<not> IsUserLoggedIn us s"
    "user_hex ue (owner w name) \<noteq> zeroAddressHex"
  shows "\<exists>w'. LoginUserV2 ue us name pw s w = (Inl ErrInvalidPassword, us, w')"
proof -
  obtain wa where a: "IsUsernameAvailableV2 ue name w = (True, wa)" "good wa" "owner wa = owner w" "chunk_at wa = chunk_at w"
    using available [OF assms(1), of name] assms(4) by auto
  obtain ro wb where o: "GetOwner (ueEns ue) name wa = (ro, wb)" by fastforce
  from get_owner [OF a(2) o] a(3,4) have b: "ro = Inr (owner w name)" "good wb" "owner wb = owner w" "chunk_at wb = chunk_at w" by auto
  obtain e wc where d: "downloadPortableAccount ue (acUser NewAccount) (owner w name) name pw wb = (Inl e, wc)" "\<not> panicking e"
    using download_chunk [OF b(2), where a = "owner w name" and n = name and pw = pw and ai = "acUser NewAccount"] b(4) assms(2) by auto
  then have "masked e ErrInvalidPassword = ErrInvalidPassword" by (cases e) auto
  then show ?thesis using assms(3) a(1) o b(1) d(1) by (simp add: LoginUserV2_def)
qed

end

text \<open>C38: Whoever signs up can log in.  If CreateNewUserV2 succeeds then, in every later world
  in which the name has the same owner and the portable accounts of that owner are as sign-up
  left them, LoginUserV2 with the same name and password gives a session with the same name,
  address and keys, and changes no other session.  Sign-up stores the account under the topic
  of this password and leaves every other chunk as it was: so a password with another topic,
  under which the address had no account before, is answered ErrInvalidPassword and no session
  begins.\<close>

theorem signup_then_login:
  assumes "accounts ue good owner chunk_at" "good w" "seeds_ok (peWallet (uePods ue))"
    "\<And>n r. ueRand ue n = Inr r \<Longrightarrow> length r = n" "\<And>b. ueData ue (Raw b) = b"
    "CreateNewUserV2 ue us name pw mn s w = (Some su, Inr (), us1, w1)" "srAddress su \<noteq> zeroAddressHex"
    "good w2" "owner w2 name = owner w1 name"
    "\<And>t. chunk_at w2 (owner w1 name, t) = chunk_at w1 (owner w1 name, t)"
    "portable_topic ue name wrong \<noteq> portable_topic ue name pw"
    "chunk_at w (owner w1 name, portable_topic ue name wrong) = None"
    "\<not> IsUserLoggedIn us2 s2"
  shows "\<exists>ui lr w3 w4. srUserInfo su = Some ui
    \<and> LoginUserV2 ue us2 name pw s2 w2 = (Inr lr, addUserToMap (lrUserInfo lr) us2, w3)
    \<and> lrAddress lr = srAddress su \<and> uiName (lrUserInfo lr) = name
    \<and> acUser (ui_account (lrUserInfo lr)) = acUser (ui_account ui)
    \<and> (\<forall>k. k \<noteq> (owner w1 name, portable_topic ue name pw) \<longrightarrow> chunk_at w1 k = chunk_at w k)
    \<and> LoginUserV2 ue us2 name wrong s2 w2 = (Inl ErrInvalidPassword, us2, w4)"
proof -
  obtain m seed acc c ui where c: "CreateUserAccount (peWallet (uePods ue)) mn NewAccount = (Inr (m, seed), acc)"
    "PadSeed (ueRand ue) seed pw = Inr c" "owner w1 name = aiAddress (acUser acc)"
    "chunk_at w1 = (chunk_at w)((owner w1 name, portable_topic ue name pw) \<mapsto> c)"
    "srUserInfo su = Some ui" "ui_account ui = acc" "srAddress su = user_hex ue (aiAddress (acUser acc))"
    using accounts.CreateNewUser_stored [OF assms(1,2,6,3)] by blast
  have at: "user_hex ue (owner w2 name) \<noteq> zeroAddressHex" using c(3,7) assms(7,9) by simp
  have here: "chunk_at w2 (owner w2 name, portable_topic ue name pw) = Some c"
    "chunk_at w2 (owner w2 name, portable_topic ue name wrong) = None"
    using assms(11,12) unfolding assms(9,10) c(4) by simp_all
  from accounts.LoginUser_loads [OF assms(1,8,3,4,5) c(1,2) at here(1) assms(13)] obtain lr w3 where
    "LoginUserV2 ue us2 name pw s2 w2 = (Inr lr, addUserToMap (lrUserInfo lr) us2, w3)"
    "lrAddress lr = user_hex ue (owner w2 name)" "acUser (ui_account (lrUserInfo lr)) = acUser acc" "uiName (lrUserInfo lr) = name"
    by blast
  moreover from accounts.LoginUser_refused [OF assms(1,8) here(2) assms(13) at] obtain w4 where
    "LoginUserV2 ue us2 name wrong s2 w2 = (Inl ErrInvalidPassword, us2, w4)" by blast
  moreover have "\<forall>k. k \<noteq> (owner w1 name, portable_topic ue name pw) \<longrightarrow> chunk_at w1 k = chunk_at w k"
    by (simp add: c(4))
  ultimately show ?thesis using c(3,5-7) assms(9) by simp
qed

section \<open>The chain and the Swarm in memory\<close>

type_synonym account_world = "((bytes \<times> Address) Handler \<times> memnet) \<times> names"

definition on_net ::
  "(account_world, 'f, 'v, 'n, 'k) userenv \<Rightarrow> ENSConfig \<Rightarrow> (account_world, 'f, 'v, 'n, 'k) userenv" where
  "on_net ue cf = ue\<lparr>ueEns := ens_of cf (mem_contracts cf) mem_chain,
     ueCreateTopic := (\<lambda>ai t a c (st, nm). case API_CreateFeedFromTopic mem_bee t a c st of (r, st1) \<Rightarrow> (r, st1, nm)),
     ueGetTopic := (\<lambda>ai t a (st, nm). (API_GetFeedDataFromTopic mem_bee t a st, st, nm)), ueHash := pad_topic\<rparr>"

definition net_owner :: "account_world \<Rightarrow> string \<Rightarrow> Address" where
  "net_owner w n = nmOwner (snd w) (big_SetBytes (bytes_of n))"

definition net_chunks :: "account_world \<Rightarrow> Address \<times> bytes \<Rightarrow> content option" where
  "net_chunks w k = (if length (snd k) = TopicLength then mSocs (snd (fst w)) (pair_bytes (snd k) (fst k)) else None)"

definition net_good :: "account_world \<Rightarrow> bool" where
  "net_good w \<longleftrightarrow> (\<forall>l. length (nmOwner (snd w) l) = AddressLength)"

lemma node_label_name: "node_label cf (bytes_of (n @ CHR ''.'' # ProviderDomain cf)) = big_SetBytes (bytes_of n)"
  by (simp add: node_label_def bytes_of_def)

lemma on_net_simps:
  "ueEns (on_net ue cf) = ens_of cf (mem_contracts cf) mem_chain" "ueHash (on_net ue cf) = pad_topic"
  "ueCreateTopic (on_net ue cf) ai t a c (st, nm) = (case API_CreateFeedFromTopic mem_bee t a c st of (r, st1) \<Rightarrow> (r, st1, nm))"
  "ueGetTopic (on_net ue cf) ai t a (st, nm) = (API_GetFeedDataFromTopic mem_bee t a st, st, nm)"
  "uePods (on_net ue cf) = uePods ue" "ueRand (on_net ue cf) = ueRand ue" "ueData (on_net ue cf) = ueData ue"
  "ueKeccak (on_net ue cf) = ueKeccak ue" "ueSession (on_net ue cf) = ueSession ue"
  by (simp_all add: on_net_def)

lemma mem_create_topic:
  "API_CreateFeedFromTopic mem_bee t a c st = (Inr x, st1) \<Longrightarrow>
    length t = TopicLength \<and> mSocs (snd st1) = (mSocs (snd st))(pair_bytes t a \<mapsto> c)"
  by (auto simp: API_CreateFeedFromTopic_def sendSoc_def mem_bee_def Let_def split: if_splits option.splits prod.splits)

lemma mem_get_topic:
  "API_GetFeedDataFromTopic mem_bee t a st =
     (if length t \<noteq> TopicLength then Inl ErrInvalidTopicSize
      else case mSocs (snd st) (pair_bytes t a) of
        None \<Rightarrow> Inl (Service ''error downloading data'') | Some c \<Rightarrow> Inr (pair_bytes t a, c))"
  by (simp add: API_GetFeedDataFromTopic_def API_GetSOCFromAddress_def mem_bee_def Let_def split: option.splits)

interpretation net: accounts "on_net ue cf" net_good net_owner net_chunks for ue cf
proof
  fix w w1 :: account_world and n a k r
  show "net_good w \<Longrightarrow> length (net_owner w n) = AddressLength" by (simp add: net_good_def net_owner_def)
  show "r = Inr (net_owner w n) \<and> net_good w1 \<and> net_owner w1 = net_owner w \<and> net_chunks w1 = net_chunks w"
    if "net_good w" "GetOwner (ueEns (on_net ue cf)) n w = (r, w1)" for r
    using that by (cases w) (auto simp: on_net_simps ens_of_def ENS_GetOwner_def mem_contracts_def net_owner_def node_label_name)
  show "(\<exists>p h. r = Inr (Some p, h)) \<and> net_good w1 \<and> net_owner w1 = net_owner w \<and> net_chunks w1 = net_chunks w"
    if "net_good w" "GetInfo (ueEns (on_net ue cf)) n w = (r, w1)" for r
    using that by (cases w; cases "nmKeys (snd w) (bytes_of (n @ ''.'' @ ProviderDomain cf))")
      (auto simp: on_net_simps ens_of_def ENS_GetInfo_def ENS_GetInfoFromNameHash_def mem_contracts_def)
  show "net_good w1 \<and> net_chunks w1 = net_chunks w \<and> (r = Inr () \<longrightarrow> net_owner w1 n = a)"
    if "net_good w" "length a = AddressLength" "RegisterSubdomain (ueEns (on_net ue cf)) n a k w = (r, w1)" for r
    using that by (cases w; cases k)
      (auto simp: on_net_simps ens_of_def ENS_RegisterSubdomain_def mem_contracts_def newTransactor_def mem_chain_def
        mem_transact [unfolded mem_chain_def] net_good_def net_owner_def net_chunks_def Let_def fun_eq_iff)
  show "net_good w1 \<and> net_owner w1 = net_owner w \<and> net_chunks w1 = net_chunks w"
    if "net_good w" "SetResolver (ueEns (on_net ue cf)) n a k w = (r, w1)" for r
    using that by (cases w; cases k)
      (auto simp: on_net_simps ens_of_def ENS_SetResolver_def mem_contracts_def newTransactor_def mem_chain_def
        mem_transact [unfolded mem_chain_def])
  show "net_good w1 \<and> net_owner w1 = net_owner w \<and> net_chunks w1 = net_chunks w"
    if "net_good w" "SetAll (ueEns (on_net ue cf)) n a k w = (r, w1)" for r
    using that by (cases w; cases k)
      (auto simp: on_net_simps ens_of_def ENS_SetAll_def mem_contracts_def newTransactor_def mem_chain_def
        mem_transact [unfolded mem_chain_def] net_good_def net_owner_def net_chunks_def Let_def fun_eq_iff)
next
  fix w w1 :: account_world and ai t a c and r :: "bytes result"
  assume g: "net_good w" and c: "ueCreateTopic (on_net ue cf) ai t a c w = (r, w1)"
  obtain st nm where w: "w = (st, nm)" by (cases w)
  obtain r0 st1 where a: "API_CreateFeedFromTopic mem_bee t a c st = (r0, st1)" by (metis surj_pair)
  from c a have "r0 = r" "w1 = (st1, nm)" by (simp_all add: w on_net_simps)
  with g a show "net_good w1 \<and> net_owner w1 = net_owner w \<and> (\<forall>x. r = Inr x \<longrightarrow> net_chunks w1 = (net_chunks w)((a, t) \<mapsto> c))"
    by (auto simp: w net_good_def net_owner_def net_chunks_def fun_eq_iff dest!: mem_create_topic dest: pair_bytes_inj)
next
  fix w w1 :: account_world and ai t a and r :: "(bytes \<times> content) result"
  assume "net_good w" "ueGetTopic (on_net ue cf) ai t a w = (r, w1)"
  then show "net_good w1 \<and> net_owner w1 = net_owner w \<and> net_chunks w1 = net_chunks w
    \<and> (case net_chunks w (a, t) of Some c \<Rightarrow> \<exists>x. r = Inr (x, c) | None \<Rightarrow> \<exists>e. r = Inl e \<and> \<not> panicking e)"
    by (cases w) (auto simp: on_net_simps mem_get_topic net_chunks_def split: option.splits)
qed

section \<open>A login\<close>

text \<open>A wallet of one seed.\<close>

definition login_wallet :: hdlib where
  "login_wallet = \<lparr>NewFromSeed = (\<lambda>s. Inr ()), Derive = (\<lambda>s path. Inr ()), PrivateKey = (\<lambda>s path. Inr (bytes_of path)),
     PublicKey = (\<lambda>s path. Inr (bytes_of path)), NewEthereumAddress = (\<lambda>k. Inr (replicate 20 9)), NewEntropy = Inr [],
     NewMnemonic = (\<lambda>e. Inr ''m''), NewFromMnemonic = (\<lambda>m. Inr (replicate 64 7)),
     NewSeedFromMnemonic = (\<lambda>m. Inr (replicate 64 7)), IsMnemonicValid = (\<lambda>m. True)\<rparr>"

definition login_env :: "(account_world, 'f, 'v, 'n, 'k) userenv \<Rightarrow> (account_world, 'f, 'v, 'n, 'k) userenv" where
  "login_env ue = ue\<lparr>uePods := (uePods ue)\<lparr>peWallet := login_wallet\<rparr>, ueRand := (\<lambda>n. Inr (replicate n 65)),
     ueData := (\<lambda>c. case c of Raw b \<Rightarrow> b | _ \<Rightarrow> [])\<rparr>"

definition login_world :: account_world where
  "login_world = (mem_start, \<lparr>nmOwner = \<lambda>l. zero_address, nmKeys = \<lambda>node. ([], [])\<rparr>)"

lemma login_env_simps:
  "peWallet (uePods (login_env ue)) = login_wallet" "ueRand (login_env ue) = (\<lambda>n. Inr (replicate n 65))"
  "ueData (login_env ue) (Raw b) = b"
  by (simp_all add: login_env_def)

lemma login_seeds: "seeds_ok login_wallet"
  by (simp add: seeds_ok_def login_wallet_def seedSize_def)

lemma login_account:
  "CreateUserAccount login_wallet [] NewAccount = (Inr (''m'', replicate 64 7),
     NewAccount\<lparr>acWallet := \<lparr>waSeed = Some (replicate 64 7)\<rparr>,
       acUser := \<lparr>aiKey = Some (bytes_of rootPath), aiPublic = Some (bytes_of rootPath), aiAddress = replicate 20 9\<rparr>\<rparr>)"
  by (simp add: CreateUserAccount_def LoadMnemonicAndCreateRootAccount_def set_keys_def login_wallet_def NewAccount_def
      newWallet_def GetEmptyAccountInfo_def SetBytes_def zero_address_def AddressLength_def Let_def)

lemma zeroAddressHex_40: "zeroAddressHex = ''0x'' @ replicate 40 CHR ''0''"
  by (simp add: zeroAddressHex_def numeral_eq_Suc)

lemma login_name_hash:
  assumes "aiKey ai = Some k"
  shows "\<exists>h nm. name_hash (on_net (login_env ue) cf) ''al'' zero_address ai login_world = (Inr h, mem_start, nm)"
  using assms
  by (simp add: name_hash_def createENS_def user_hex_def Address_Hex_zero zeroAddressHex_def on_net_simps ens_of_def
      ENS_RegisterSubdomain_def ENS_SetResolver_def ENS_SetAll_def login_world_def mem_contracts_def mem_chain_def
      newTransactor_def mem_transact [unfolded mem_chain_def] Let_def numeral_eq_Suc)

lemma login_store:
  assumes "aiAddress ai = replicate 20 9" "aiKey ai = Some k"
  shows "\<exists>w1 c. store_account (on_net (login_env ue) cf) ''al'' ''123456789012'' (replicate 64 7) ai (mem_start, nm) = (Inr (), w1)
    \<and> mSocs (snd (fst w1)) = [pair_bytes (pad_topic (AuthVersion @ ''al'' @ ''123456789012'')) (replicate 20 9) \<mapsto> c]"
proof -
  have t: "length (pad_topic (AuthVersion @ ''al'' @ ''123456789012'')) = TopicLength"
    by (simp add: pad_topic_length AuthVersion_def TopicLength_def)
  have c: "PadSeed (ueRand (login_env ue)) (replicate 64 7) ''123456789012''
      = Inr (Sealed (bytes_of ''123456789012'') (Raw (replicate 64 7 @ replicate 4016 65)))"
    by (simp add: login_env_simps PadSeed_def EncryptBytes_def MaxChunkLength_def aesBlockSize_def seedSize_def Let_def)
  let ?k = "Sealed (bytes_of ''123456789012'') (Raw (replicate 64 7 @ replicate 4016 65))"
  have "\<exists>x st. API_CreateFeedFromTopic mem_bee (pad_topic (AuthVersion @ ''al'' @ ''123456789012'')) (replicate 20 9) ?k mem_start
      = (Inr x, st) \<and> mSocs (snd st) = [pair_bytes (pad_topic (AuthVersion @ ''al'' @ ''123456789012'')) (replicate 20 9) \<mapsto> ?k]"
    using t by (simp add: API_CreateFeedFromTopic_def API_IsReadOnlyFeed_def sendSoc_def mem_start_def mem_bee_def MaxChunkLength_def Let_def)
  then show ?thesis using c assms(1)
    by (auto simp: store_account_def uploadPortableAccount_def portable_topic_def on_net_simps)
qed

lemma login_signup:
  "\<exists>su us1 w1. CreateNewUserV2 (on_net (login_env ue) cf) NewUsers ''al'' ''123456789012'' [] [] login_world = (Some su, Inr (), us1, w1)
     \<and> srAddress su = user_hex (on_net (login_env ue) cf) (replicate 20 9)
     \<and> (\<exists>c. mSocs (snd (fst w1)) = [pair_bytes (pad_topic (AuthVersion @ ''al'' @ ''123456789012'')) (replicate 20 9) \<mapsto> c])"
proof -
  let ?ue = "on_net (login_env ue) cf"
  let ?ai = "\<lparr>aiKey = Some (bytes_of rootPath), aiPublic = Some (bytes_of rootPath), aiAddress = replicate 20 9\<rparr>"
  have o: "GetOwner (ueEns ?ue) ''al'' login_world = (Inr zero_address, login_world)"
    by (simp add: on_net_simps ens_of_def ENS_GetOwner_def mem_contracts_def login_world_def)
  have z: "user_hex ?ue zero_address = zeroAddressHex"
    by (simp add: user_hex_def Address_Hex_zero zeroAddressHex_def numeral_eq_Suc)
  obtain h nm where n: "name_hash ?ue ''al'' zero_address ?ai login_world = (Inr h, mem_start, nm)"
    using login_name_hash [of ?ai "bytes_of rootPath" ue cf] by auto
  obtain w1 c where s: "store_account ?ue ''al'' ''123456789012'' (replicate 64 7) ?ai (mem_start, nm) = (Inr (), w1)"
    "mSocs (snd (fst w1)) = [pair_bytes (pad_topic (AuthVersion @ ''al'' @ ''123456789012'')) (replicate 20 9) \<mapsto> c]"
    using login_store [of ?ai "bytes_of rootPath" ue cf nm] by auto
  have v: "isUserNameValid ''al''" by code_simp
  have l: "peWallet (uePods ?ue) = login_wallet" by (simp add: on_net_simps login_env_simps)
  have "\<exists>su us1. CreateNewUserV2 ?ue NewUsers ''al'' ''123456789012'' [] [] login_world = (Some su, Inr (), us1, w1)
     \<and> srAddress su = user_hex ?ue (replicate 20 9)"
    using v o z n s(1) by (simp add: CreateNewUserV2_def l login_account minPasswordLength_def NewACT_def Let_def)
  with s(2) show ?thesis by blast
qed

lemma login_nonzero: "user_hex ue (replicate 20 9) \<noteq> zeroAddressHex"
proof
  assume "user_hex ue (replicate 20 9) = zeroAddressHex"
  then have "Address_Hex (ueKeccak ue) (replicate 20 9) = Address_Hex (ueKeccak ue) zero_address"
    by (simp only: user_hex_def Address_Hex_zero zeroAddressHex_40)
  moreover have "length (replicate 20 (9 :: 8 word)) = AddressLength" "length zero_address = AddressLength"
    by (simp_all add: zero_address_def AddressLength_def)
  ultimately have "(replicate 20 9 :: Address) = zero_address" by (rule Address_Hex_inj)
  then have "hd (replicate 20 9 :: Address) = hd zero_address" by simp
  then show False by (simp add: zero_address_def AddressLength_def)
qed

lemma login_other_topic:
  "pad_topic (AuthVersion @ ''al'' @ ''210987654321'') \<noteq> pad_topic (AuthVersion @ ''al'' @ ''123456789012'')"
proof
  assume "pad_topic (AuthVersion @ ''al'' @ ''210987654321'') = pad_topic (AuthVersion @ ''al'' @ ''123456789012'')"
  from pad_topic_inj [OF _ _ this] show False by (simp add: AuthVersion_def)
qed

text \<open>Al signs up, logs in, and is refused with another password.\<close>

lemma signup_then_login_witness:
  "\<forall>(ue :: (account_world, unit, unit, unit, unit) userenv) cf. \<exists>su us1 w1 lr w3 w4.
     CreateNewUserV2 (on_net (login_env ue) cf) NewUsers ''al'' ''123456789012'' [] [] login_world = (Some su, Inr (), us1, w1)
     \<and> LoginUserV2 (on_net (login_env ue) cf) NewUsers ''al'' ''123456789012'' [] w1 = (Inr lr, addUserToMap (lrUserInfo lr) NewUsers, w3)
     \<and> lrAddress lr = srAddress su
     \<and> LoginUserV2 (on_net (login_env ue) cf) NewUsers ''al'' ''210987654321'' [] w1 = (Inl ErrInvalidPassword, NewUsers, w4)"
proof (intro allI)
  fix ue :: "(account_world, unit, unit, unit, unit) userenv" and cf
  let ?ue = "on_net (login_env ue) cf"
  obtain su us1 w1 c where s: "CreateNewUserV2 ?ue NewUsers ''al'' ''123456789012'' [] [] login_world = (Some su, Inr (), us1, w1)"
    "srAddress su = user_hex ?ue (replicate 20 9)"
    "mSocs (snd (fst w1)) = [pair_bytes (pad_topic (AuthVersion @ ''al'' @ ''123456789012'')) (replicate 20 9) \<mapsto> c]"
    using login_signup by blast
  have g: "net_good login_world" by (simp add: net_good_def login_world_def zero_address_def)
  have w: "seeds_ok (peWallet (uePods ?ue))" "\<And>n r. ueRand ?ue n = Inr r \<Longrightarrow> length r = n" "\<And>b. ueData ?ue (Raw b) = b"
    using login_seeds by (auto simp: on_net_simps login_env_simps)
  have nz: "srAddress su \<noteq> zeroAddressHex" unfolding s(2) by (rule login_nonzero)
  have g1: "net_good w1" using net.CreateNewUser_stored [OF g s(1) w(1)] by blast
  have other: "portable_topic ?ue ''al'' ''210987654321'' \<noteq> portable_topic ?ue ''al'' ''123456789012''"
    using login_other_topic by (simp add: portable_topic_def on_net_simps)
  have none: "net_chunks login_world (net_owner w1 ''al'', portable_topic ?ue ''al'' ''210987654321'') = None"
    by (simp add: net_chunks_def login_world_def mem_start_def)
  have new: "\<not> IsUserLoggedIn NewUsers []" by (simp add: IsUserLoggedIn_def isUserPresentInMap_def NewUsers_def)
  show "\<exists>su us1 w1 lr w3 w4.
     CreateNewUserV2 ?ue NewUsers ''al'' ''123456789012'' [] [] login_world = (Some su, Inr (), us1, w1)
     \<and> LoginUserV2 ?ue NewUsers ''al'' ''123456789012'' [] w1 = (Inr lr, addUserToMap (lrUserInfo lr) NewUsers, w3)
     \<and> lrAddress lr = srAddress su
     \<and> LoginUserV2 ?ue NewUsers ''al'' ''210987654321'' [] w1 = (Inl ErrInvalidPassword, NewUsers, w4)"
    using s(1) signup_then_login [where ue = ?ue and good = net_good and owner = net_owner and chunk_at = net_chunks,
      OF net.accounts_axioms g w s(1) nz g1 refl refl other none new] by blast
qed

end
