(* ===== verification/Spec2Isabelle.thy ===== *)
theory Spec2Isabelle
  imports IndexRuns FileRuns CollectionRuns BatchProps DirRuns DocRuns PodRuns GroupRuns DfsData Sessions PublicLists Logins
begin

text \<open>
  FairOS-dfs: a verification library of the Go packages under src/pkg.

  \<^bold>\<open>The program.\<close>  FairOS-dfs is a file system and a data base for the users of Swarm.  A user
  has an account (pkg/account, pkg/user), found by a name on the Ethereum name service
  (pkg/ensm).  The account has pods (pkg/pod), each with directories (pkg/dir), files
  (pkg/file), key value tables and document databases (pkg/collection).  Pods are shared by a
  reference, by groups (pkg/pod/group.go with pkg/acl), by access lists (pkg/act) or on a
  market (pkg/subscriptionManager).  Everything is stored in two ways: as blobs, which are
  found by their content, and as feeds (pkg/feed), which are sequences of signed chunks found
  by owner, topic and time.  The server, the command line client and the bindings call the
  operations of pkg/dfs, which find the user of the session and call the packages above.

  \<^bold>\<open>How Go is modelled.\<close>  A struct is a record, a method a definition that takes the record and
  gives it back changed, the world (network, clock, caches) a last argument of type 'w that
  comes back last.  An error is Inl e, a panic an error of its own (Panic, NilDereference,
  NilPointer), so that every early return of the code is a branch.  Widths are kept where the
  code can wrap: epochs and levels are words, the subtraction of 32 bits in the reader and the
  index of a new pod as well.  Pointers that several parties share (the inodes behind the
  directory map, the indexes behind the tables) are addresses of a heap in the record.  A Go
  map that is ranged over is an association list with an argument ord for the order; where
  goroutines append to a shared list (the listings of directories, files and public pods) an
  argument gives the order in which they end, and the value that they find in a variable they
  share (the topic of PublicPodDisLs) is an argument as well.  Each goroutine runs as a whole,
  but in LongEarthAlgorithm, where single reads interleave.  Code
  that is not in the repository (the Bee client, the wallet library, the JSON, compression and
  cryptography packages, the contracts) is a record of functions, an argument of the
  definitions; what is expected of it is the assumption of a locale or of the property.

  \<^bold>\<open>The theories\<close>, from the bottom:

  \<^item> GoPrelude, Documents, Encodings: errors, the functions of the packages strings and
    path/filepath, the stored structures and their texts.  JSON replaces every byte of a name
    that is not UTF-8 (json_string), which marshal_manifest and json_manifest do to the names
    of manifests and entries: the trie splits keys at bytes, so the properties of the index
    and of what is built on it are about ASCII keys.  The names in the other structures that are
    stored as JSON are taken to be valid UTF-8.  A document of another type read as the
    metadata of a file has the shared fields and zero values (json_meta).
  \<^item> Epochs, FeedLookup: pkg/feed/lookup.  The grid of epochs, the placement of updates and both
    search algorithms; LongEarth with its goroutines is an inductive relation over all
    schedules.  Both searches find the last update, whatever the hint and the schedule, and
    end for every read function.
  \<^item> Storage, FeedApi, FeedStore, MemSwarm: the locale storage is the interface between the
    components and Swarm.  FeedApi is pkg/feed/api.go and handler.go with the cache and the
    pool of pending updates.  FeedStore shows that the feed API over any Swarm that keeps the
    laws of the locale swarm_net is a storage (a sublocale); MemSwarm interprets both.
  \<^item> FileModel, FileReader, FileRead, FileUpload, FileProps, FileEdit, FileRuns: pkg/file.  What
    is uploaded is read back through buffers of any size, WriteAt patches exactly its range.
    RmFile is shown over the locale removal, in which every call may fail: it removes the file
    or leaves its metadata; the locale is interpreted on a Swarm that refuses to delete some
    blobs.  What is asked of a compression (codec_ok) is asked at the block
    size of the file only.
  \<^item> Index, IndexTrie, IndexPut, IndexFrame, IndexRuns: the index of pkg/collection, a Patricia
    trie of manifests.  The abstraction tfind is a dictionary; Put, Get and Delete are its
    operations, and an index changes only what has its own name in front.
  \<^item> Iterator, IterProps, Batch, BatchProps: iterators list the keys in order, batches in memory
    are dictionaries.
  \<^item> KV, KVProps, CollectionRuns: pkg/collection/kv.go.  A table is a dictionary, the file of the
    tables is read back as it was written.
  \<^item> DirModel, DirOps, DirProps, DirTree, DirRuns: pkg/dir.  A pod is a tree of stored inodes, on
    which MkDir, ListDir and SyncDirectory do what they say.
  \<^item> DocModel, DocOps, DocFind, DocBatch, DocProps, DocLife, DocRuns: pkg/collection/document.go.
    A database is a dictionary from ids to documents.
  \<^item> Addresses, Accounts, Signatures: addresses and references as texts, wallets, the stored
    seed of an account.
  \<^item> PodModel, PodOps, PodProps, PodLife, PodRuns: pkg/pod without groups.  The locale pods holds
    the laws of the libraries; the list of pods, the indices of their accounts, and the life of
    a pod from its creation over its sharing to its removal.
  \<^item> Acl, GroupModel, GroupLife, GroupRuns: pkg/acl, pkg/pod/group.go and groupMember.go.  The
    stored access list refines a table of permissions; invitations reach whom they are for.
  \<^item> ActModel: pkg/act.  Subscriptions: pkg/subscriptionManager and pkg/pod/subscription.go.
  \<^item> Ens, Names: pkg/ensm/eth.  Which public key a user publishes.
  \<^item> UserModel, Logins: pkg/user.  Whoever signs up can log in again, and sign-up opens no other
    password, over the locale accounts, which is interpreted on the name service and the feed API together.
  \<^item> DfsApi, DfsPods, DfsData: pkg/dfs, one definition for each operation, with the prefix API_
    where the operation has a session.  Sessions: runs of the server, in which the sessions
    stay apart.  PublicLists: listing public pods.

  The theories whose names end in Runs, and MemSwarm, Names and Logins at their ends, have the
  runs on concrete states which show that the hypotheses of the properties can hold: a Swarm
  and a chain that live in memory, over the code's own definitions.  They also have runs in
  which the code does not do what it is meant to.

  \<^bold>\<open>Bounds.\<close>  Most loops of the code are structural recursions or functions with a measure.
  Where the code has no bound, the model has one and gives an error of its own (out of fuel,
  stack overflow) when it is reached: the depth of a walk over directories or over the manifests of an
  index, the reads of a file, the rounds of an iterator.  The properties say which bound is
  enough: the depth of the stored tree for SyncDirectory, the number of the keys for the calls
  of an iterator and a number that the stored index gives for the search for each of them, and
  one more than the size of the file for reading it, since every read makes progress.  In pkg/dfs they are
  the fields apDepth and apSteps of the environment, which no property bounds.  The polls for
  a receipt are counted (ecPolls), as the code gives them a time limit.  A loop that does not
  end is a result of its own: PublicPodDisLs gives None.

  \<^bold>\<open>Not modelled.\<close>  The handlers of pkg/api and cmd/dfs, which decode requests, call one
  operation of pkg/dfs and print its answer; the command line client; the bindings for
  JavaScript and mobile platforms; generated code (swagger, contract bindings); pkg/auth,
  pkg/logging and pkg/taskmanager, which wrap libraries (the tasks themselves are modelled,
  those of the listings in any order, those of the background sync in the order in which they
  are started); pkg/feed/tracker, which nothing calls.  Of the
  modelled packages: the tags of uploads with StatusFile, locks, the constructors that dial
  an endpoint, CreateRandomKeyPair, and KVBatchPut and KVBatchWrite of pkg/dfs, which work on
  a batch whose table need not be that of an open pod.  Encryption is symbolic: what is read
  with a wrong password is arbitrary, of the right length.  For the secrets of
  groups, EncryptBytes and DecryptBytes are modelled on bytes instead, over SHA-256, AES in CFB
  mode and the multiplication of points as functions of the record grouplib.
\<close>

end
